(* ===== verification/Prelude.thy ===== *)
theory Prelude
  imports Main "HOL-Library.List_Lexorder" "HOL-Library.Char_ord"
begin

text \<open>
  Shared vocabulary of the development.
  \<^item> \<open>smap\<close>: the model of \<^verbatim>\<open>std::map\<close> as an association list kept strictly sorted by key. Its
    iteration order is the list order, as the iteration order of \<^verbatim>\<open>std::map\<close> is the key order.
    Strings compare byte-wise lexicographically (\<^verbatim>\<open>std::string::operator<\<close>), which is the order
    of \<open>HOL-Library.List_Lexorder\<close> over \<open>HOL-Library.Char_ord\<close>.
  \<^item> \<open>ordered_map\<close>: the interface the components use of that container, as a locale, interpreted on
    \<open>smap\<close> at the end of the map section.
  \<^item> \<open>transition_system\<close>: a start predicate, a step relation and an inductive invariant; reachable
    states satisfy the invariant. The concurrent components interpret it.
  \<^item> \<open>to_string\<close>: \<^verbatim>\<open>std::to_string\<close> on unsigned and signed integers.
  \<^item> the accept/reason result structure that the publication and write paths return.
  Unsigned counters and sequence numbers (\<^verbatim>\<open>std::size_t\<close>, \<^verbatim>\<open>std::uint64_t\<close>) that are only
  incremented by one are natural numbers: wrap-around needs \<open>2 ^ 64\<close> increments. Sizes in bytes, where
  the code guards against overflow, are \<open>64 word\<close> (theory \<open>Buffer_Pool\<close>).
\<close>

section \<open>Collections\<close>

named_theorems smap_simps "rewrite rules for std::map operations"
named_theorems inv_intros "introduction rules that re-establish component invariants"

type_synonym ('k, 'v) smap = "('k \<times> 'v) list"

section \<open>std::map\<close>

definition smap_wf :: "('k::linorder, 'v) smap \<Rightarrow> bool" where
  "smap_wf m \<longleftrightarrow> sorted_wrt (<) (map fst m)"

fun smap_put :: "'k::linorder \<Rightarrow> 'v \<Rightarrow> ('k, 'v) smap \<Rightarrow> ('k, 'v) smap" where
  "smap_put k v [] = [(k, v)]"
| "smap_put k v (e # m) =
     (if fst e < k then e # smap_put k v m
      else if fst e = k then (k, v) # m
      else (k, v) # e # m)"

definition smap_erase :: "'k \<Rightarrow> ('k, 'v) smap \<Rightarrow> ('k, 'v) smap" where
  "smap_erase k m = filter (\<lambda>e. fst e \<noteq> k) m"

text \<open>\<^verbatim>\<open>m[k]\<close> with a value-initialised default, read without inserting.\<close>

definition smap_get :: "'v \<Rightarrow> ('k, 'v) smap \<Rightarrow> 'k \<Rightarrow> 'v" where
  "smap_get d m k = (case map_of m k of None \<Rightarrow> d | Some v \<Rightarrow> v)"

text \<open>\<^verbatim>\<open>m[k].push_back(v)\<close> on a map of vectors.\<close>

definition smap_push :: "'k::linorder \<Rightarrow> 'v \<Rightarrow> ('k, 'v list) smap \<Rightarrow> ('k, 'v list) smap" where
  "smap_push k v m = smap_put k (smap_get [] m k @ [v]) m"

text \<open>A loop over all entries that rewrites the values in place.\<close>

definition smap_map :: "('k \<Rightarrow> 'v \<Rightarrow> 'w) \<Rightarrow> ('k, 'v) smap \<Rightarrow> ('k, 'w) smap" where
  "smap_map f m = map (\<lambda>(k, v). (k, f k v)) m"

lemma map_of_smap_put [simp, smap_simps]: "map_of (smap_put k v m) = (map_of m)(k \<mapsto> v)"
  by (induction m) (auto simp: fun_eq_iff)

lemma keys_smap_put [simp, smap_simps]: "fst ` set (smap_put k v m) = insert k (fst ` set m)"
  by (induction m) auto

lemma set_smap_put: "set (smap_put k v m) \<subseteq> insert (k, v) (set m)"
  by (induction m) auto

lemma smap_wf_Nil [simp, inv_intros]: "smap_wf []"
  by (simp add: smap_wf_def)

lemma smap_wf_Cons [simp]: "smap_wf (e # m) \<longleftrightarrow> (\<forall>k \<in> fst ` set m. fst e < k) \<and> smap_wf m"
  by (auto simp: smap_wf_def)

lemma smap_wf_put [simp, inv_intros]: "smap_wf m \<Longrightarrow> smap_wf (smap_put k v m)"
  by (induction m) (auto simp: keys_smap_put[unfolded image_def, simplified] not_less_iff_gr_or_eq)

lemma smap_wf_distinct: "smap_wf m \<Longrightarrow> distinct (map fst m)"
  by (induction m) force+

lemma smap_wf_filter [simp, inv_intros]: "smap_wf m \<Longrightarrow> smap_wf (filter P m)"
  by (induction m) auto

lemma smap_wf_erase [simp, inv_intros]: "smap_wf m \<Longrightarrow> smap_wf (smap_erase k m)"
  by (simp add: smap_erase_def)

lemma map_of_smap_erase [simp, smap_simps]: "map_of (smap_erase k m) = (map_of m)(k := None)"
  by (induction m) (auto simp: smap_erase_def fun_eq_iff)

lemma keys_smap_map [simp, smap_simps]: "map fst (smap_map f m) = map fst m"
  by (simp add: smap_map_def case_prod_unfold comp_def)

lemma smap_wf_map [simp, inv_intros]: "smap_wf (smap_map f m) \<longleftrightarrow> smap_wf m"
  by (simp add: smap_wf_def)

lemma map_of_smap_map [smap_simps]: "map_of (smap_map f m) k = map_option (f k) (map_of m k)"
  by (induction m) (auto simp: smap_map_def)

lemma smap_get_put [simp, smap_simps]: "smap_get d (smap_put k v m) k' = (if k' = k then v else smap_get d m k')"
  by (simp add: smap_get_def)

lemma smap_get_Nil [simp]: "smap_get d [] k = d"
  by (simp add: smap_get_def)

lemma smap_get_push [simp, smap_simps]:
  "smap_get [] (smap_push k v m) k' = (if k' = k then smap_get [] m k @ [v] else smap_get [] m k')"
  by (simp add: smap_push_def)

lemma smap_wf_push [simp, inv_intros]: "smap_wf m \<Longrightarrow> smap_wf (smap_push k v m)"
  by (simp add: smap_push_def)

lemma map_of_smap_push [smap_simps]:
  "map_of (smap_push k v m) = (map_of m)(k \<mapsto> smap_get [] m k @ [v])"
  by (simp add: smap_push_def)

lemma smap_put_same: "smap_wf m \<Longrightarrow> map_of m k = Some v \<Longrightarrow> smap_put k v m = m"
proof (induction m)
  case (Cons e m)
  show ?case
  proof (cases "fst e = k")
    case True
    with Cons.prems show ?thesis by (cases e) auto
  next
    case False
    with Cons.prems have "map_of m k = Some v" and "smap_wf m" by (auto split: if_splits)
    moreover from this have "k \<in> fst ` set m" by (force dest: map_of_SomeD)
    ultimately show ?thesis using Cons.IH Cons.prems by auto
  qed
qed simp

lemma smap_put_put [simp]: "smap_put k v (smap_put k w m) = smap_put k v m"
  by (induction m) auto

lemma length_smap_put:
  "smap_wf m \<Longrightarrow> length (smap_put k v m) = (if k \<in> fst ` set m then length m else Suc (length m))"
proof (induction m)
  case (Cons e m)
  then show ?case by (cases "fst e < k") force+
qed simp

lemma map_of_eq_Some_iff_wf: "smap_wf m \<Longrightarrow> map_of m k = Some v \<longleftrightarrow> (k, v) \<in> set m"
  by (simp add: smap_wf_distinct)

section \<open>The map interface the components rely on\<close>

locale ordered_map =
  fixes empty_map :: "'m"
    and find_key :: "'m \<Rightarrow> 'k::linorder \<Rightarrow> 'v option"
    and assign :: "'k \<Rightarrow> 'v \<Rightarrow> 'm \<Rightarrow> 'm"
    and erase_key :: "'k \<Rightarrow> 'm \<Rightarrow> 'm"
    and entries :: "'m \<Rightarrow> ('k \<times> 'v) list"
    and invar :: "'m \<Rightarrow> bool"
  assumes find_empty: "find_key empty_map k = None"
    and find_assign: "invar m \<Longrightarrow> find_key (assign k v m) k' = (if k' = k then Some v else find_key m k')"
    and find_erase: "invar m \<Longrightarrow> find_key (erase_key k m) k' = (if k' = k then None else find_key m k')"
    and entries_find: "invar m \<Longrightarrow> (k, v) \<in> set (entries m) \<longleftrightarrow> find_key m k = Some v"
    and entries_sorted: "invar m \<Longrightarrow> sorted_wrt (<) (map fst (entries m))"
    and invar_empty: "invar empty_map"
    and invar_assign: "invar m \<Longrightarrow> invar (assign k v m)"
    and invar_erase: "invar m \<Longrightarrow> invar (erase_key k m)"
begin

text \<open>Filling a map from a vector of keyed values: the last value of a key wins.\<close>

lemma find_fold_assign:
  "invar m \<Longrightarrow> find_key (fold (\<lambda>(k, v). assign k v) kvs m) k =
     (case map_of (rev kvs) k of None \<Rightarrow> find_key m k | Some v \<Rightarrow> Some v)"
proof (induction kvs arbitrary: m)
  case (Cons kv kvs)
  obtain k' v' where kv: "kv = (k', v')" by (cases kv)
  from Cons.prems have "invar (assign k' v' m)" by (rule invar_assign)
  from Cons.IH [OF this] show ?case
    by (simp add: kv find_assign [OF Cons.prems] map_add_def split: option.split)
qed simp

lemma invar_fold_assign: "invar m \<Longrightarrow> invar (fold (\<lambda>(k, v). assign k v) kvs m)"
  by (induction kvs arbitrary: m) (auto intro: invar_assign)

text \<open>Two maps with the same lookups iterate over the same entries in the same order.\<close>

lemma entries_ext:
  assumes "invar m" and "invar m'" and "\<And>k. find_key m k = find_key m' k"
  shows "entries m = entries m'"
proof (rule map_sorted_distinct_set_unique [where f = fst])
  show "inj_on fst (set (entries m) \<union> set (entries m'))"
    using assms by (auto simp: inj_on_def entries_find)
  show "sorted (map fst (entries m))" "sorted (map fst (entries m'))"
    using assms entries_sorted strict_sorted_imp_sorted by blast+
  show "distinct (map fst (entries m))" "distinct (map fst (entries m'))"
    using assms entries_sorted strict_sorted_iff by blast+
  show "set (entries m) = set (entries m')"
    using assms by (auto simp: entries_find)
qed

end

interpretation std_map: ordered_map "[]" "map_of :: ('k::linorder, 'v) smap \<Rightarrow> 'k \<Rightarrow> 'v option"
  smap_put smap_erase "\<lambda>m. m" smap_wf
  by unfold_locales
    (auto simp: map_of_eq_Some_iff_wf dest: smap_wf_def [THEN iffD1])

section \<open>Decimal rendering\<close>

definition digit_char :: "nat \<Rightarrow> char" where
  "digit_char d = ''0123456789'' ! d"

fun nat_to_string :: "nat \<Rightarrow> string" where
  "nat_to_string n =
     (if n < 10 then [digit_char n] else nat_to_string (n div 10) @ [digit_char (n mod 10)])"

declare nat_to_string.simps [simp del]

definition int_to_string :: "int \<Rightarrow> string" where
  "int_to_string i = (if i < 0 then CHR ''-'' # nat_to_string (nat (- i)) else nat_to_string (nat i))"

text \<open>
  \<^verbatim>\<open>std::to_string(double)\<close> prints six decimals. A duration of \<open>ns\<close> nanoseconds shown in milliseconds
  has exactly six decimals, so the text is the decimal rendering of the nanosecond count.
\<close>

definition pad6 :: "string \<Rightarrow> string" where
  "pad6 s = replicate (6 - length s) (CHR ''0'') @ s"

definition ms_to_string :: "int \<Rightarrow> string" where
  "ms_to_string ns =
     (if ns < 0 then ''-'' else []) @ nat_to_string (nat \<bar>ns\<bar> div 1000000) @ ''.'' @
     pad6 (nat_to_string (nat \<bar>ns\<bar> mod 1000000))"

lemma digit_char_inj: "a < 10 \<Longrightarrow> b < 10 \<Longrightarrow> digit_char a = digit_char b \<Longrightarrow> a = b"
  by (auto simp: digit_char_def less_Suc_eq numeral_eq_Suc)

lemma nat_to_string_nonempty [simp]: "nat_to_string n \<noteq> []"
  by (subst nat_to_string.simps) simp

lemma nat_to_string_inj: "nat_to_string m = nat_to_string n \<longleftrightarrow> m = n"
proof (induction m arbitrary: n rule: nat_to_string.induct)
  case (1 m)
  have small: "nat_to_string k = [c] \<Longrightarrow> k < 10" for k c
    by (subst (asm) nat_to_string.simps) (auto split: if_splits)
  show ?case
  proof (cases "m < 10 \<or> n < 10")
    case True
    then show ?thesis
      using small digit_char_inj
      by (metis list.inject nat_to_string.simps)
  next
    case False
    then have "nat_to_string m = nat_to_string n \<longleftrightarrow>
        m div 10 = n div 10 \<and> digit_char (m mod 10) = digit_char (n mod 10)"
      using 1 by (simp add: nat_to_string.simps [of m] nat_to_string.simps [of n])
    also have "\<dots> \<longleftrightarrow> m div 10 = n div 10 \<and> m mod 10 = n mod 10"
      using digit_char_inj [of "m mod 10" "n mod 10"] by auto
    also have "\<dots> \<longleftrightarrow> m = n" by (metis div_mult_mod_eq)
    finally show ?thesis .
  qed
qed

lemma digit_char_in_digits: "d < 10 \<Longrightarrow> digit_char d \<in> set ''0123456789''"
  unfolding digit_char_def by (rule nth_mem) simp

lemma nat_to_string_digits: "set (nat_to_string n) \<subseteq> set ''0123456789''"
proof (induction n rule: nat_to_string.induct)
  case (1 n)
  have "digit_char (n mod 10) \<in> set ''0123456789''" by (rule digit_char_in_digits) simp
  moreover have "n < 10 \<Longrightarrow> digit_char n \<in> set ''0123456789''" by (rule digit_char_in_digits)
  ultimately show ?case
    using 1 by (subst nat_to_string.simps) auto
qed

section \<open>Transition systems\<close>

locale transition_system =
  fixes start :: "'s \<Rightarrow> bool"
    and step :: "'s \<Rightarrow> 's \<Rightarrow> bool"
    and holds :: "'s \<Rightarrow> bool"
  assumes holds_start: "start s \<Longrightarrow> holds s"
    and holds_step: "holds s \<Longrightarrow> step s t \<Longrightarrow> holds t"
begin

lemma holds_steps: "step\<^sup>*\<^sup>* s t \<Longrightarrow> holds s \<Longrightarrow> holds t"
  by (induction rule: rtranclp_induct) (auto intro: holds_step)

lemma holds_reachable: "start s \<Longrightarrow> step\<^sup>*\<^sup>* s t \<Longrightarrow> holds t"
  by (blast intro: holds_steps holds_start)

end

section \<open>Accept/reason results\<close>

record publish_result =
  accepted :: bool
  reason :: string

abbreviation accept :: publish_result where
  "accept \<equiv> \<lparr>accepted = True, reason = []\<rparr>"

abbreviation reject :: "string \<Rightarrow> publish_result" where
  "reject r \<equiv> \<lparr>accepted = False, reason = r\<rparr>"

section \<open>List lemmas\<close>

lemma take_last_append_le:
  "length ys \<le> n \<Longrightarrow> drop (length (xs @ ys) - n) (xs @ ys) = drop (length xs - (n - length ys)) xs @ ys"
  by (cases "n \<le> length xs + length ys") auto

lemma sorted_wrt_less_snoc:
  "sorted_wrt (<) (xs @ [x]) \<longleftrightarrow> sorted_wrt (<) xs \<and> (\<forall>y \<in> set xs. y < (x::nat))"
  by (auto simp: sorted_wrt_append)

lemma sorted_wrt_map_filter: "sorted_wrt P (map f xs) \<Longrightarrow> sorted_wrt P (map f (filter Q xs))"
  by (induction xs) auto

end
