(* ===== verification/Buffer_Pool.thy ===== *)
theory Buffer_Pool
  imports Prelude "HOL-Library.Word"
begin

text \<open>
  Shared buffers, frame views and the buffer pool (\<^verbatim>\<open>src/buffer.cpp\<close>,
  \<^verbatim>\<open>include/topoexec/runtime/buffer.hpp\<close>). Sizes are \<open>64 word\<close> (\<^verbatim>\<open>std::size_t\<close>): additions wrap, and
  the code's guards against wrap-around are part of the model.

  A \<^verbatim>\<open>std::shared_ptr<SharedBuffer>\<close> is an optional address into an explicit heap of byte vectors; an
  allocation appends a cell, so a fresh buffer never aliases an older one. The pool methods hold the
  pool's mutex for their whole body, so each is one atomic step; \<open>Buffer_Pool_Laws\<close> has the runs.
\<close>

type_synonym size_t = "64 word"
type_synonym u32 = "32 word"
type_synonym byte = "8 word"
type_synonym heap = "byte list list"
type_synonym buffer_ptr = "nat option"

section \<open>Shared buffers and frame views\<close>

definition buf_bytes :: "heap \<Rightarrow> nat \<Rightarrow> byte list" where
  "buf_bytes h a = (if a < length h then h ! a else [])"

definition buf_size :: "heap \<Rightarrow> nat \<Rightarrow> size_t" where
  "buf_size h a = of_nat (length (buf_bytes h a))"

definition make_shared_buffer :: "heap \<Rightarrow> size_t \<Rightarrow> nat \<times> heap" where
  "make_shared_buffer h n = (length h, h @ [replicate (unat n) 0])"

definition buf_resize :: "heap \<Rightarrow> nat \<Rightarrow> size_t \<Rightarrow> heap" where
  "buf_resize h a n = h[a := take (unat n) (buf_bytes h a) @ replicate (unat n - length (buf_bytes h a)) 0]"

record frame_view =
  fv_buffer :: buffer_ptr
  fv_offset :: size_t
  fv_size :: size_t
  fv_width :: u32
  fv_height :: u32
  fv_stride :: u32
  fv_format :: string

definition empty_view :: frame_view where
  "empty_view = \<lparr>fv_buffer = None, fv_offset = 0, fv_size = 0, fv_width = 0, fv_height = 0, fv_stride = 0,
     fv_format = []\<rparr>"

definition range_valid :: "heap \<Rightarrow> buffer_ptr \<Rightarrow> size_t \<Rightarrow> size_t \<Rightarrow> bool" where
  "range_valid h p off n =
     (case p of None \<Rightarrow> False | Some a \<Rightarrow> off \<le> buf_size h a \<and> n \<le> buf_size h a - off)"

definition frame_valid :: "heap \<Rightarrow> frame_view \<Rightarrow> bool" where
  "frame_valid h f = range_valid h (fv_buffer f) (fv_offset f) (fv_size f)"

text \<open>\<^verbatim>\<open>FrameView::data\<close>: a pointer is a buffer address and a byte offset; \<open>None\<close> is \<^verbatim>\<open>nullptr\<close>.\<close>

definition frame_data :: "heap \<Rightarrow> frame_view \<Rightarrow> (nat \<times> size_t) option" where
  "frame_data h f =
     (if \<not> frame_valid h f then None else map_option (\<lambda>a. (a, fv_offset f)) (fv_buffer f))"

section \<open>Pool configuration and sizing\<close>

record buffer_pool_config =
  fixed_block_size :: size_t
  bucket_sizes :: "size_t list"
  alignment :: size_t
  cfg_max_bytes :: size_t

definition align_up :: "size_t \<Rightarrow> size_t \<Rightarrow> size_t" where
  "align_up v al =
     (if al \<le> 1 \<or> v = 0 then v
      else let remainder = v mod al in
        if remainder = 0 then v
        else let increment = al - remainder in
          if v > - 1 - increment then v else v + increment)"

text \<open>\<^verbatim>\<open>std::min_element\<close>: the first element that no later one is strictly below.\<close>

fun min_element :: "('a \<Rightarrow> 'a \<Rightarrow> bool) \<Rightarrow> 'a \<Rightarrow> 'a list \<Rightarrow> 'a" where
  "min_element lt best [] = best"
| "min_element lt best (x # xs) = min_element lt (if lt x best then x else best) xs"

definition bucket_before :: "size_t \<Rightarrow> size_t \<Rightarrow> size_t \<Rightarrow> bool" where
  "bucket_before requested lhs rhs =
     (if (lhs \<ge> requested) \<noteq> (rhs \<ge> requested) then lhs \<ge> requested else lhs < rhs)"

definition allocation_size :: "buffer_pool_config \<Rightarrow> size_t \<Rightarrow> size_t" where
  "allocation_size c requested =
     align_up
       (case bucket_sizes c of
          b # bs \<Rightarrow>
            (let bucket = min_element (bucket_before requested) b bs
             in if bucket \<ge> requested then bucket else requested)
        | [] \<Rightarrow> if fixed_block_size c > 0 then max (fixed_block_size c) requested else requested)
       (alignment c)"

section \<open>The pool\<close>

record buffer_pool_stats =
  alloc_count :: nat
  reuse_count :: nat
  loan_count :: nat
  release_count :: nat
  detached_count :: nat
  exhausted_count :: nat
  bytes_allocated :: size_t
  bytes_owned :: size_t
  active_bytes :: size_t
  high_watermark_bytes :: size_t
  bytes_available :: size_t
  active_count :: nat
  available_count :: nat
  st_max_bytes :: size_t

record buffer_pool =
  pool_config :: buffer_pool_config
  available :: "buffer_ptr list"
  stats :: buffer_pool_stats

record loaned_frame =
  lf_pool :: bool
  lf_view :: frame_view

definition make_buffer_pool :: "buffer_pool_config \<Rightarrow> buffer_pool" where
  "make_buffer_pool c =
     \<lparr>pool_config = (if alignment c = 0 then c\<lparr>alignment := 1\<rparr> else c), available = [],
      stats = \<lparr>alloc_count = 0, reuse_count = 0, loan_count = 0, release_count = 0, detached_count = 0,
        exhausted_count = 0, bytes_allocated = 0, bytes_owned = 0, active_bytes = 0,
        high_watermark_bytes = 0, bytes_available = 0, active_count = 0, available_count = 0,
        st_max_bytes = cfg_max_bytes c\<rparr>\<rparr>"

definition has_outstanding_loans :: "buffer_pool \<Rightarrow> bool" where
  "has_outstanding_loans p \<longleftrightarrow> active_count (stats p) \<noteq> 0"

definition can_allocate :: "buffer_pool \<Rightarrow> size_t \<Rightarrow> bool" where
  "can_allocate p n \<longleftrightarrow>
     cfg_max_bytes (pool_config p) = 0 \<or>
     (bytes_owned (stats p) \<le> cfg_max_bytes (pool_config p) \<and>
      n \<le> cfg_max_bytes (pool_config p) - bytes_owned (stats p))"

definition ptr_size :: "heap \<Rightarrow> buffer_ptr \<Rightarrow> size_t" where
  "ptr_size h q = (case q of None \<Rightarrow> 0 | Some a \<Rightarrow> buf_size h a)"

definition refresh_available_stats :: "heap \<Rightarrow> buffer_pool \<Rightarrow> buffer_pool" where
  "refresh_available_stats h p =
     p\<lparr>stats := (stats p)\<lparr>available_count := length (available p),
        bytes_available := fold (\<lambda>q n. if q \<noteq> None then n + ptr_size h q else n) (available p) 0\<rparr>\<rparr>"

definition reusable :: "heap \<Rightarrow> size_t \<Rightarrow> buffer_ptr \<Rightarrow> bool" where
  "reusable h n q \<longleftrightarrow> q \<noteq> None \<and> ptr_size h q \<ge> n"

text \<open>The accounting common to a reused and a freshly allocated buffer.\<close>

definition record_loan :: "heap \<Rightarrow> buffer_ptr \<Rightarrow> buffer_pool \<Rightarrow> buffer_pool" where
  "record_loan h q p =
     (let s = stats p; act = active_bytes s + ptr_size h q in
      refresh_available_stats h
        (p\<lparr>stats := s\<lparr>loan_count := loan_count s + 1, active_count := active_count s + 1,
           active_bytes := act, high_watermark_bytes := max (high_watermark_bytes s) act\<rparr>\<rparr>))"

definition loan_frame ::
    "heap \<Rightarrow> buffer_pool \<Rightarrow> size_t \<Rightarrow> u32 \<Rightarrow> u32 \<Rightarrow> u32 \<Rightarrow> string \<Rightarrow> loaned_frame \<times> buffer_pool \<times> heap" where
  "loan_frame h p sz width height stride format =
     (let frame = (\<lambda>q. \<lparr>lf_pool = True, lf_view = \<lparr>fv_buffer = q, fv_offset = 0, fv_size = sz, fv_width = width,
                          fv_height = height, fv_stride = stride, fv_format = format\<rparr>\<rparr>) in
      case dropWhile (\<lambda>q. \<not> reusable h sz q) (available p) of
        [] \<Rightarrow>
          (let allocated = allocation_size (pool_config p) sz; s = stats p in
           if \<not> can_allocate p allocated
           then (\<lparr>lf_pool = False, lf_view = empty_view\<rparr>,
                 refresh_available_stats h (p\<lparr>stats := s\<lparr>exhausted_count := exhausted_count s + 1\<rparr>\<rparr>), h)
           else (let (a, h') = make_shared_buffer h allocated in
             (frame (Some a),
              record_loan h' (Some a)
                (p\<lparr>stats := s\<lparr>alloc_count := alloc_count s + 1,
                   bytes_allocated := bytes_allocated s + allocated,
                   bytes_owned := bytes_owned s + allocated\<rparr>\<rparr>), h')))
      | q # rest \<Rightarrow>
          (frame q,
           record_loan h q
             (p\<lparr>available := takeWhile (\<lambda>q. \<not> reusable h sz q) (available p) @ rest,
                stats := (stats p)\<lparr>reuse_count := reuse_count (stats p) + 1\<rparr>\<rparr>), h))"

definition sub_clamped :: "size_t \<Rightarrow> size_t \<Rightarrow> size_t" where
  "sub_clamped a b = (if a \<ge> b then a - b else 0)"

definition mark_detached :: "heap \<Rightarrow> buffer_ptr \<Rightarrow> buffer_pool \<Rightarrow> buffer_pool" where
  "mark_detached h q p =
     (if q = None then p
      else let s = stats p in
        refresh_available_stats h
          (p\<lparr>stats := s\<lparr>detached_count := detached_count s + 1,
             active_count := (if active_count s > 0 then active_count s - 1 else active_count s),
             active_bytes := sub_clamped (active_bytes s) (ptr_size h q),
             bytes_owned := sub_clamped (bytes_owned s) (ptr_size h q)\<rparr>\<rparr>))"

definition return_buffer :: "heap \<Rightarrow> buffer_ptr \<Rightarrow> buffer_pool \<Rightarrow> buffer_pool" where
  "return_buffer h q p =
     (if q = None then p
      else let s = stats p in
        refresh_available_stats h
          (p\<lparr>available := available p @ [q],
             stats := s\<lparr>release_count := release_count s + 1,
               active_count := (if active_count s > 0 then active_count s - 1 else active_count s),
               active_bytes := sub_clamped (active_bytes s) (ptr_size h q)\<rparr>\<rparr>))"

text \<open>
  \<^verbatim>\<open>LoanedFrame\<close>. A moved-from view keeps its plain fields and has a null buffer; the destructor is a
  release.
\<close>

definition moved_from :: "frame_view \<Rightarrow> frame_view" where
  "moved_from v = v\<lparr>fv_buffer := None, fv_format := []\<rparr>"

definition lf_move :: "loaned_frame \<Rightarrow> loaned_frame \<times> loaned_frame" where
  "lf_move f = (f, \<lparr>lf_pool = False, lf_view = moved_from (lf_view f)\<rparr>)"

definition lf_detach :: "heap \<Rightarrow> loaned_frame \<Rightarrow> buffer_pool \<Rightarrow> frame_view \<times> loaned_frame \<times> buffer_pool" where
  "lf_detach h f p =
     (lf_view f, \<lparr>lf_pool = False, lf_view = moved_from (lf_view f)\<rparr>,
      (if lf_pool f \<and> fv_buffer (lf_view f) \<noteq> None then mark_detached h (fv_buffer (lf_view f)) p else p))"

definition lf_release :: "heap \<Rightarrow> loaned_frame \<Rightarrow> buffer_pool \<Rightarrow> loaned_frame \<times> buffer_pool" where
  "lf_release h f p =
     (\<lparr>lf_pool = False, lf_view = empty_view\<rparr>,
      (if lf_pool f \<and> fv_buffer (lf_view f) \<noteq> None then return_buffer h (fv_buffer (lf_view f)) p else p))"

definition lf_move_assign ::
    "heap \<Rightarrow> loaned_frame \<Rightarrow> loaned_frame \<Rightarrow> buffer_pool \<Rightarrow> loaned_frame \<times> loaned_frame \<times> buffer_pool" where
  "lf_move_assign h this other p =
     (let (_, p') = lf_release h this p; (this', other') = lf_move other in (this', other', p'))"

definition lf_valid :: "heap \<Rightarrow> loaned_frame \<Rightarrow> bool" where
  "lf_valid h f = frame_valid h (lf_view f)"

definition default_frame :: loaned_frame where
  "default_frame = \<lparr>lf_pool = False, lf_view = empty_view\<rparr>"

text \<open>
  \<^verbatim>\<open>BufferPool(BufferPool&&)\<close>: the moved-to pool takes the configuration, the free list and the
  statistics; the vectors of the moved-from pool are empty.
\<close>

definition pool_move :: "buffer_pool \<Rightarrow> buffer_pool \<times> buffer_pool" where
  "pool_move other =
     (\<lparr>pool_config = pool_config other, available = available other, stats = stats other\<rparr>,
      other\<lparr>pool_config := (pool_config other)\<lparr>bucket_sizes := []\<rparr>, available := []\<rparr>)"

text \<open>\<^verbatim>\<open>operator=(BufferPool&&)\<close> from another pool; what the target held is dropped.\<close>

definition pool_move_assign :: "buffer_pool \<Rightarrow> buffer_pool \<Rightarrow> buffer_pool \<times> buffer_pool" where
  "pool_move_assign this other =
     (this\<lparr>pool_config := pool_config other, available := available other, stats := stats other\<rparr>,
      other\<lparr>pool_config := (pool_config other)\<lparr>bucket_sizes := []\<rparr>, available := []\<rparr>)"

end
