(* ===== verification/Buffer_Pool_Laws.thy ===== *)
theory Buffer_Pool_Laws
  imports Buffer_Pool "HOL-Library.Multiset"
begin

text \<open>
  Runs of a buffer pool. A \<open>pool_step\<close> is one operation on the frame objects by any thread (loan, move, release, destruction,
  detach, write); it refines a step of the ledger of outstanding loans (\<open>ledger_step\<close>), whose invariant is \<open>ledger_inv\<close>: the counters
  match the free list and the loans, and no buffer is in two places.
\<close>

section \<open>The pool and its loans as a system\<close>

record pool_sys =
  sys_pool :: buffer_pool
  sys_heap :: heap
  sys_loans :: "loaned_frame list"

definition ledger_start :: "buffer_pool_config \<Rightarrow> pool_sys" where
  "ledger_start c = \<lparr>sys_pool = make_buffer_pool c, sys_heap = [], sys_loans = []\<rparr>"

text \<open>
  The ledger: the pool, the heap and the loans outstanding, without the objects that hold them. One
  step is a successful or exhausted loan, the return or the detach of any outstanding loan, a change of
  the holders that keeps every loan and its buffer, or a write of bytes that keeps a buffer's length.
\<close>

inductive ledger_step :: "pool_sys \<Rightarrow> pool_sys \<Rightarrow> bool" where
  loan: "loan_frame (sys_heap s) (sys_pool s) sz w ht st fmt = (f, p', h') \<Longrightarrow>
     ledger_step s \<lparr>sys_pool = p', sys_heap = h', sys_loans = (if lf_pool f then sys_loans s @ [f] else sys_loans s)\<rparr>"
| release: "sys_loans s = fs @ f # gs \<Longrightarrow> lf_release (sys_heap s) f (sys_pool s) = (f', p') \<Longrightarrow>
     ledger_step s (s\<lparr>sys_pool := p', sys_loans := fs @ gs\<rparr>)"
| detach: "sys_loans s = fs @ f # gs \<Longrightarrow> lf_detach (sys_heap s) f (sys_pool s) = (v, f', p') \<Longrightarrow>
     ledger_step s (s\<lparr>sys_pool := p', sys_loans := fs @ gs\<rparr>)"
| rearrange: "mset (map (fv_buffer \<circ> lf_view) ls) = mset (map (fv_buffer \<circ> lf_view) (sys_loans s)) \<Longrightarrow>
     \<forall>f \<in> set ls. lf_pool f \<Longrightarrow> ledger_step s (s\<lparr>sys_loans := ls\<rparr>)"
| write_bytes: "a < length (sys_heap s) \<Longrightarrow> length bs = length (buf_bytes (sys_heap s) a) \<Longrightarrow>
     ledger_step s (s\<lparr>sys_heap := (sys_heap s)[a := bs]\<rparr>)"

definition ptr_nat_size :: "heap \<Rightarrow> buffer_ptr \<Rightarrow> nat" where
  "ptr_nat_size h q = (case q of None \<Rightarrow> 0 | Some a \<Rightarrow> length (buf_bytes h a))"

definition total_size :: "heap \<Rightarrow> buffer_ptr list \<Rightarrow> nat" where
  "total_size h qs = sum_list (map (ptr_nat_size h) qs)"

definition loan_ptrs :: "pool_sys \<Rightarrow> buffer_ptr list" where
  "loan_ptrs s = map (fv_buffer \<circ> lf_view) (sys_loans s)"

text \<open>Every buffer is in the free list or in exactly one loan.\<close>

definition pool_excl :: "pool_sys \<Rightarrow> bool" where
  "pool_excl s \<longleftrightarrow>
     (\<forall>f \<in> set (sys_loans s). lf_pool f) \<and>
     distinct (available (sys_pool s) @ loan_ptrs s) \<and>
     (\<forall>q \<in> set (available (sys_pool s) @ loan_ptrs s). \<exists>a < length (sys_heap s). q = Some a)"

text \<open>
  The counters agree with the free list and the outstanding loans, within the byte limit; a limit of
  zero is no limit.
\<close>

definition byte_limit :: "buffer_pool \<Rightarrow> size_t" where
  "byte_limit p = (if cfg_max_bytes (pool_config p) = 0 then - 1 else cfg_max_bytes (pool_config p))"

definition pool_acct :: "pool_sys \<Rightarrow> bool" where
  "pool_acct s \<longleftrightarrow>
     (let p = sys_pool s; st = stats p; h = sys_heap s; lim = byte_limit p in
      active_count st = length (sys_loans s) \<and>
      loan_count st = release_count st + detached_count st + active_count st \<and>
      unat (active_bytes st) = total_size h (loan_ptrs s) \<and>
      unat (bytes_available st) = total_size h (available p) \<and>
      unat (bytes_owned st) = total_size h (available p @ loan_ptrs s) \<and>
      bytes_owned st \<le> lim \<and> active_bytes st \<le> high_watermark_bytes st \<and> high_watermark_bytes st \<le> lim)"

section \<open>Sizing lemmas\<close>

lemma unat_buf_size: "length (buf_bytes h a) < 2 ^ 64 \<Longrightarrow> unat (buf_size h a) = length (buf_bytes h a)"
  by (simp add: buf_size_def unat_of_nat)

lemma range_valid_bound:
  assumes "range_valid h (Some a) off n" and "length (buf_bytes h a) < 2 ^ 64"
  shows "unat off + unat n \<le> length (buf_bytes h a)"
proof -
  from assms have le: "off \<le> buf_size h a" and n: "n \<le> buf_size h a - off"
    by (auto simp: range_valid_def)
  from n have "unat n \<le> unat (buf_size h a) - unat off"
    using unat_sub [OF le] by (simp add: word_le_nat_alt)
  moreover from le have "unat off \<le> unat (buf_size h a)" by (simp add: word_le_nat_alt)
  ultimately show ?thesis using unat_buf_size [OF assms(2)] by simp
qed

lemma unat_size_t_less: "unat (v :: size_t) < 2 ^ 64"
  using unsigned_less [of v] by simp

text \<open>The overflow guard of \<open>align_up\<close> is exactly that the sum does not fit into 64 bits.\<close>

lemma align_up_guard: "v > - 1 - i \<longleftrightarrow> unat v + unat i \<ge> 2 ^ 64" for v i :: size_t
proof -
  have top: "unat (- 1 :: size_t) = 2 ^ 64 - 1" by (simp add: unsigned_minus_1_eq_mask mask_eq_exp_minus_1)
  have "unat (- 1 - i :: size_t) = 2 ^ 64 - 1 - unat i"
    using unat_sub [of i "- 1 :: size_t"] by (simp add: top)
  with unat_size_t_less [of i] show ?thesis by (simp add: word_less_nat_alt) linarith
qed

lemma ceil_multiple:
  assumes "1 < (a::nat)"
  shows "(v + a - 1) div a * a = (if v mod a = 0 then v else v + (a - v mod a))"
proof -
  have v: "v = v div a * a + v mod a" by simp
  have r: "v mod a < a" using assms by simp
  show ?thesis
  proof (cases "v mod a = 0")
    case True
    then have eq: "v + a - 1 = (a - 1) + v div a * a" using v assms by linarith
    have "(v + a - 1) div a = v div a"
      unfolding eq using assms by (subst div_mult_self1) simp_all
    then show ?thesis using True v by simp
  next
    case False
    then have "v + a - 1 = v div a * a + a + (v mod a - 1)" using v by linarith
    then have eq: "v + a - 1 = (v mod a - 1) + (v div a + 1) * a" by simp
    have "(v + a - 1) div a = v div a + 1"
      unfolding eq using r assms less_imp_diff_less [OF r, of 1] by (subst div_mult_self1) simp_all
    moreover have "(v div a + 1) * a = v + (a - v mod a)"
      using v r unfolding distrib_right mult_1 by linarith
    ultimately show ?thesis using False by simp
  qed
qed

lemma unat_align_up:
  assumes al: "al > 1"
  shows "unat (align_up v al) =
    (let m = (unat v + unat al - 1) div unat al * unat al in if m < 2 ^ 64 then m else unat v)"
proof -
  let ?v = "unat v" and ?a = "unat al"
  have a: "?a > 1" using al by (simp add: word_less_nat_alt)
  have "v mod al \<le> al" using a by (simp add: word_le_nat_alt unat_mod less_imp_le)
  then have inc: "unat (al - v mod al) = ?a - ?v mod ?a" by (simp add: unat_sub unat_mod)
  have zero: "v mod al = 0 \<longleftrightarrow> ?v mod ?a = 0" by (metis unat_eq_zero unat_mod)
  show ?thesis
  proof (cases "v = 0 \<or> v mod al = 0")
    case True
    then have "align_up v al = v" and "?v mod ?a = 0"
      using zero by (auto simp: align_up_def Let_def)
    then show ?thesis using ceil_multiple [OF a, of ?v] unat_size_t_less [of v] by (simp add: Let_def)
  next
    case False
    then have "?v mod ?a \<noteq> 0" using zero by simp
    moreover have "align_up v al = (if ?v + (?a - ?v mod ?a) \<ge> 2 ^ 64 then v else v + (al - v mod al))"
      using False al align_up_guard [of "al - v mod al" v] by (auto simp: align_up_def Let_def inc)
    ultimately show ?thesis
      using ceil_multiple [OF a, of ?v] inc unat_add_lem [of v "al - v mod al"] by (auto simp: Let_def not_le)
  qed
qed

lemma align_up_ge: "v \<le> align_up v al"
proof (cases "al > 1")
  case True
  then have "unat al > 1" by (simp add: word_less_nat_alt)
  from ceil_multiple [OF this, of "unat v"] show ?thesis
    using unat_align_up [OF True, of v] by (simp add: word_le_nat_alt Let_def)
qed (simp add: align_up_def not_less)

lemma min_element_in: "min_element lt b xs \<in> insert b (set xs)"
  by (induction xs arbitrary: b) force+

lemma min_element_least:
  assumes "transp (\<lambda>x y. \<not> lt y x)" and "\<And>x. \<not> lt x x"
    and as: "\<And>x y. lt x y \<Longrightarrow> \<not> lt y x"
  shows "y \<in> insert b (set xs) \<Longrightarrow> \<not> lt y (min_element lt b xs)"
proof (induction xs arbitrary: b y)
  case Nil
  then show ?case using assms by simp
next
  case (Cons x xs)
  let ?b = "if lt x b then x else b"
  have "\<not> lt ?b (min_element lt ?b xs)" using Cons.IH by blast
  moreover have "\<not> lt b ?b" "\<not> lt x ?b" using assms by auto
  ultimately have "\<not> lt b (min_element lt ?b xs)" "\<not> lt x (min_element lt ?b xs)"
    using assms(1) unfolding transp_def by blast+
  then show ?case using Cons by auto
qed

lemma bucket_choice:
  "requested \<le> c \<Longrightarrow> c \<in> set (b # bs) \<Longrightarrow>
     requested \<le> min_element (bucket_before requested) b bs \<and> min_element (bucket_before requested) b bs \<le> c"
proof -
  assume c: "requested \<le> c" "c \<in> set (b # bs)"
  have "\<not> bucket_before requested c (min_element (bucket_before requested) b bs)"
    by (rule min_element_least) (use c in \<open>auto simp: bucket_before_def transp_def split: if_splits\<close>)
  with c show ?thesis by (auto simp: bucket_before_def split: if_splits)
qed

lemma allocation_size_ge: "requested \<le> allocation_size c requested"
proof -
  have "requested \<le> (case bucket_sizes c of
          b # bs \<Rightarrow> (let bucket = min_element (bucket_before requested) b bs
             in if bucket \<ge> requested then bucket else requested)
        | [] \<Rightarrow> if fixed_block_size c > 0 then max (fixed_block_size c) requested else requested)"
    by (auto simp: Let_def split: list.split)
  then show ?thesis unfolding allocation_size_def using align_up_ge order_trans by blast
qed

section \<open>Accounting lemmas\<close>

lemma total_size_simps [simp]:
  "total_size h [] = 0" "total_size h (q # qs) = ptr_nat_size h q + total_size h qs"
  "total_size h (qs @ rs) = total_size h qs + total_size h rs"
  by (simp_all add: total_size_def)

lemma total_size_mset: "mset qs = mset rs \<Longrightarrow> total_size h qs = total_size h rs"
  unfolding total_size_def by (metis mset_map sum_mset_sum_list)

lemma unat_ptr_size: "ptr_nat_size h q < 2 ^ 64 \<Longrightarrow> unat (ptr_size h q) = ptr_nat_size h q"
  by (auto simp: ptr_size_def ptr_nat_size_def unat_buf_size split: option.split)

lemma refresh_sum:
  "unat n + total_size h qs < 2 ^ 64 \<Longrightarrow>
   unat (fold (\<lambda>q n. if q \<noteq> None then n + ptr_size h q else n) qs n) = unat n + total_size h qs"
proof (induction qs arbitrary: n)
  case (Cons q qs)
  have q: "unat (ptr_size h q) = ptr_nat_size h q" using Cons.prems by (intro unat_ptr_size) simp
  then have add: "unat (n + ptr_size h q) = unat n + ptr_nat_size h q"
    using Cons.prems unat_add_lem [of n "ptr_size h q"] by simp
  show ?case
  proof (cases q)
    case None
    then show ?thesis using Cons by (simp add: ptr_nat_size_def)
  next
    case (Some a)
    then show ?thesis using Cons.IH [of "n + ptr_size h q"] Cons.prems add by simp
  qed
qed simp

lemma refresh_frame [simp]:
  "available (refresh_available_stats h p) = available p"
  "pool_config (refresh_available_stats h p) = pool_config p"
  "active_count (stats (refresh_available_stats h p)) = active_count (stats p)"
  "loan_count (stats (refresh_available_stats h p)) = loan_count (stats p)"
  "release_count (stats (refresh_available_stats h p)) = release_count (stats p)"
  "detached_count (stats (refresh_available_stats h p)) = detached_count (stats p)"
  "active_bytes (stats (refresh_available_stats h p)) = active_bytes (stats p)"
  "bytes_owned (stats (refresh_available_stats h p)) = bytes_owned (stats p)"
  "high_watermark_bytes (stats (refresh_available_stats h p)) = high_watermark_bytes (stats p)"
  by (simp_all add: refresh_available_stats_def)

lemma refresh_bytes_available:
  "total_size h (available p) < 2 ^ 64 \<Longrightarrow>
   unat (bytes_available (stats (refresh_available_stats h p))) = total_size h (available p)"
  using refresh_sum [of 0 h "available p"] by (simp add: refresh_available_stats_def)

lemma buf_bytes_append: "a < length h \<Longrightarrow> buf_bytes (h @ h') a = buf_bytes h a"
  by (simp add: buf_bytes_def nth_append)

lemma total_size_append_heap:
  "\<forall>q \<in> set qs. \<exists>a < length h. q = Some a \<Longrightarrow> total_size (h @ h') qs = total_size h qs"
  by (induction qs) (auto simp: ptr_nat_size_def buf_bytes_append)

lemma total_size_write:
  "a < length h \<Longrightarrow> length bs = length (buf_bytes h a) \<Longrightarrow> total_size (h[a := bs]) qs = total_size h qs"
proof (induction qs)
  case (Cons q qs)
  have "ptr_nat_size (h[a := bs]) q = ptr_nat_size h q"
    using Cons.prems
    by (cases q) (auto simp: ptr_nat_size_def buf_bytes_def nth_list_update split: if_splits)
  with Cons show ?case by simp
qed simp

lemma byte_limit_frame [simp]:
  "byte_limit (refresh_available_stats h p) = byte_limit p" "byte_limit (record_loan h q p) = byte_limit p"
  "byte_limit (p\<lparr>stats := st\<rparr>) = byte_limit p" "byte_limit (p\<lparr>available := qs\<rparr>) = byte_limit p"
  by (simp_all add: byte_limit_def record_loan_def Let_def)

lemma unat_sub_clamped: "unat (sub_clamped a b) = unat a - unat b"
  by (auto simp: sub_clamped_def unat_sub word_le_nat_alt)

lemma dropWhile_split: "dropWhile P xs = y # ys \<Longrightarrow> xs = takeWhile P xs @ y # ys \<and> \<not> P y"
  by (metis hd_dropWhile list.distinct(1) list.sel(1) takeWhile_dropWhile_id)

lemma record_loan_frame [simp]:
  "available (record_loan h q p) = available p" "pool_config (record_loan h q p) = pool_config p"
  "bytes_owned (stats (record_loan h q p)) = bytes_owned (stats p)"
  "loan_count (stats (record_loan h q p)) = Suc (loan_count (stats p))"
  "active_count (stats (record_loan h q p)) = Suc (active_count (stats p))"
  "release_count (stats (record_loan h q p)) = release_count (stats p)"
  "detached_count (stats (record_loan h q p)) = detached_count (stats p)"
  "active_bytes (stats (record_loan h q p)) = active_bytes (stats p) + ptr_size h q"
  "high_watermark_bytes (stats (record_loan h q p)) =
     max (high_watermark_bytes (stats p)) (active_bytes (stats p) + ptr_size h q)"
  by (simp_all add: record_loan_def Let_def)

lemma record_loan_bytes_available:
  "total_size h (available p) < 2 ^ 64 \<Longrightarrow>
   unat (bytes_available (stats (record_loan h q p))) = total_size h (available p)"
  by (simp add: record_loan_def Let_def refresh_bytes_available)

text \<open>The two outcomes of a loan: refused at the byte limit, or a frame over a free or fresh buffer.\<close>

lemma loan_frame_cases:
  assumes "loan_frame h p sz w ht st fmt = (f, p', h')"
  obtains (exhausted) "\<not> lf_pool f" "h' = h"
      "p' = refresh_available_stats h (p\<lparr>stats := (stats p)\<lparr>exhausted_count := exhausted_count (stats p) + 1\<rparr>\<rparr>)"
      "\<not> can_allocate p (allocation_size (pool_config p) sz)"
      "\<forall>q \<in> set (available p). \<not> reusable h sz q"
  | (fresh) s where "lf_pool f" "fv_buffer (lf_view f) = Some (length h)" "fv_offset (lf_view f) = 0"
      "fv_size (lf_view f) = sz"
      "h' = h @ [replicate (unat (allocation_size (pool_config p) sz)) 0]"
      "can_allocate p (allocation_size (pool_config p) sz)"
      "p' = record_loan h' (Some (length h)) (p\<lparr>stats := s\<rparr>)"
      "bytes_owned s = bytes_owned (stats p) + allocation_size (pool_config p) sz"
      "active_bytes s = active_bytes (stats p)" "active_count s = active_count (stats p)"
      "loan_count s = loan_count (stats p)" "release_count s = release_count (stats p)"
      "detached_count s = detached_count (stats p)" "high_watermark_bytes s = high_watermark_bytes (stats p)"
  | (reuse) q xs ys where "lf_pool f" "fv_buffer (lf_view f) = q" "fv_offset (lf_view f) = 0"
      "fv_size (lf_view f) = sz" "h' = h"
      "available p = xs @ q # ys" "reusable h sz q"
      "p' = record_loan h q (p\<lparr>available := xs @ ys,
         stats := (stats p)\<lparr>reuse_count := reuse_count (stats p) + 1\<rparr>\<rparr>)"
proof (cases "dropWhile (\<lambda>q. \<not> reusable h sz q) (available p)")
  case Nil
  then have none: "\<forall>q \<in> set (available p). \<not> reusable h sz q" by (simp add: dropWhile_eq_Nil_conv)
  show ?thesis
  proof (cases "can_allocate p (allocation_size (pool_config p) sz)")
    case True
    with assms Nil show ?thesis
      by (intro fresh [of "(stats p)\<lparr>alloc_count := alloc_count (stats p) + 1,
            bytes_allocated := bytes_allocated (stats p) + allocation_size (pool_config p) sz,
            bytes_owned := bytes_owned (stats p) + allocation_size (pool_config p) sz\<rparr>"])
        (auto simp: loan_frame_def Let_def make_shared_buffer_def)
  next
    case False
    with assms Nil none show ?thesis by (intro exhausted) (auto simp: loan_frame_def Let_def)
  qed
next
  case (Cons q rest)
  from dropWhile_split [OF this] assms Cons show ?thesis
    by (intro reuse [of q "takeWhile (\<lambda>q. \<not> reusable h sz q) (available p)" rest])
      (auto simp: loan_frame_def Let_def)
qed

lemma pool_excl_start: "pool_excl (ledger_start c)"
  by (simp add: pool_excl_def ledger_start_def make_buffer_pool_def loan_ptrs_def)

lemma pool_excl_step: "ledger_step s t \<Longrightarrow> pool_excl s \<Longrightarrow> pool_excl t"
proof (induction rule: ledger_step.induct)
  case (loan s sz w ht st fmt f p' h')
  from loan.hyps show ?case
  proof (cases rule: loan_frame_cases)
    case exhausted
    with loan.prems show ?thesis by (simp add: pool_excl_def loan_ptrs_def)
  next
    case (fresh st')
    from loan.prems have old: "\<forall>q \<in> set (available (sys_pool s) @ loan_ptrs s). \<exists>a < length (sys_heap s). q = Some a"
      by (simp add: pool_excl_def)
    then have "\<forall>q \<in> set (available (sys_pool s) @ loan_ptrs s). q \<noteq> Some (length (sys_heap s))"
      and "\<forall>q \<in> set (available (sys_pool s) @ loan_ptrs s). \<exists>a < Suc (length (sys_heap s)). q = Some a"
      by fastforce+
    with loan.prems fresh show ?thesis by (auto simp: pool_excl_def loan_ptrs_def)
  next
    case (reuse q xs ys)
    with loan.prems show ?thesis by (auto simp: pool_excl_def loan_ptrs_def)
  qed
next
  case (release s fs f gs f' p')
  then obtain a where f: "lf_pool f" "fv_buffer (lf_view f) = Some a"
    by (fastforce simp: pool_excl_def loan_ptrs_def)
  with release.hyps have "available p' = available (sys_pool s) @ [Some a]"
    by (auto simp: lf_release_def return_buffer_def Let_def)
  with release f show ?case by (auto simp: pool_excl_def loan_ptrs_def disjoint_iff)
next
  case (detach s fs f gs v f' p')
  then have "available p' = available (sys_pool s)"
    by (auto simp: lf_detach_def mark_detached_def Let_def split: if_splits)
  with detach show ?case by (auto simp: pool_excl_def loan_ptrs_def disjoint_iff)
next
  case (rearrange ls s)
  then have "mset (available (sys_pool s) @ map (fv_buffer \<circ> lf_view) ls) =
      mset (available (sys_pool s) @ loan_ptrs s)"
    by (simp add: loan_ptrs_def)
  from mset_eq_imp_distinct_iff [OF this] mset_eq_setD [OF this] rearrange show ?case
    unfolding pool_excl_def by (simp add: loan_ptrs_def)
next
  case (write_bytes a s bs)
  then show ?case by (simp add: pool_excl_def loan_ptrs_def)
qed

lemma pool_acct_start: "pool_acct (ledger_start c)"
  by (simp add: pool_acct_def ledger_start_def make_buffer_pool_def loan_ptrs_def Let_def)

lemma pool_acct_bounds:
  assumes "pool_acct s"
  shows "total_size (sys_heap s) (available (sys_pool s)) + total_size (sys_heap s) (loan_ptrs s) < 2 ^ 64"
  using assms unat_size_t_less [of "bytes_owned (stats (sys_pool s))"]
  by (simp add: pool_acct_def Let_def)

text \<open>
  The bytes of all buffers ever allocated. Without a byte limit the counters are exact as long as these
  fit into 64 bits; with a limit they always are.
\<close>

definition heap_bytes :: "heap \<Rightarrow> nat" where
  "heap_bytes h = sum_list (map length h)"

definition sizes_fit :: "buffer_pool \<Rightarrow> heap \<Rightarrow> bool" where
  "sizes_fit p h \<longleftrightarrow> cfg_max_bytes (pool_config p) \<noteq> 0 \<or> heap_bytes h < 2 ^ 64"

lemma total_size_le_heap:
  assumes "distinct qs" and "\<forall>q \<in> set qs. \<exists>a < length h. q = Some a"
  shows "total_size h qs \<le> heap_bytes h"
proof -
  have "total_size h qs = sum (ptr_nat_size h) (set qs)"
    using assms(1) by (simp add: total_size_def sum_list_distinct_conv_sum_set)
  also have "\<dots> \<le> sum (ptr_nat_size h) (Some ` {..<length h})"
    using assms(2) by (intro sum_mono2) auto
  also have "\<dots> = sum (\<lambda>a. length (h ! a)) {..<length h}"
    by (subst sum.reindex) (auto simp: ptr_nat_size_def buf_bytes_def intro: sum.cong)
  also have "\<dots> = heap_bytes h"
    by (simp add: heap_bytes_def sum_list_sum_nth atLeast0LessThan)
  finally show ?thesis .
qed

text \<open>A granted allocation keeps the owned bytes within the limit, without wrap-around.\<close>

lemma can_allocate_bound:
  assumes "can_allocate p n"
    and "cfg_max_bytes (pool_config p) = 0 \<Longrightarrow> unat (bytes_owned (stats p)) + unat n < 2 ^ 64"
  shows "unat (bytes_owned (stats p) + n) = unat (bytes_owned (stats p)) + unat n"
    and "bytes_owned (stats p) + n \<le> byte_limit p"
proof -
  let ?o = "bytes_owned (stats p)" and ?m = "cfg_max_bytes (pool_config p)"
  have b: "?m \<noteq> 0 \<longrightarrow> unat ?o + unat n \<le> unat ?m"
  proof
    assume "?m \<noteq> 0"
    then have le: "?o \<le> ?m" and "n \<le> ?m - ?o" using assms(1) by (auto simp: can_allocate_def)
    then show "unat ?o + unat n \<le> unat ?m" using unat_sub [OF le] by (simp add: word_le_nat_alt)
  qed
  then show sum: "unat (?o + n) = unat ?o + unat n"
    using assms(2) unat_add_lem [of ?o n] unat_size_t_less [of ?m] by (cases "?m = 0") simp_all
  show "?o + n \<le> byte_limit p"
  proof (cases "?m = 0")
    case False
    then show ?thesis using b by (simp add: byte_limit_def word_le_nat_alt sum)
  qed (simp add: byte_limit_def)
qed

lemma record_loan_acct:
  assumes sizes: "unat (active_bytes (stats p)) + ptr_nat_size h q = total_size h (qs @ [q])"
    and own: "unat (bytes_owned (stats p)) = total_size h (available p @ qs @ [q])"
    and lim: "bytes_owned (stats p) \<le> lim"
    and hw: "high_watermark_bytes (stats p) \<le> lim"
  defines "p' \<equiv> record_loan h q p"
  shows "unat (active_bytes (stats p')) = total_size h (qs @ [q])"
    and "unat (bytes_available (stats p')) = total_size h (available p)"
    and "active_bytes (stats p') \<le> high_watermark_bytes (stats p')"
    and "high_watermark_bytes (stats p') \<le> lim"
proof -
  have tot: "total_size h (available p) + total_size h (qs @ [q]) < 2 ^ 64"
    using own unat_size_t_less [of "bytes_owned (stats p)"] by simp
  then have q: "unat (ptr_size h q) = ptr_nat_size h q" by (intro unat_ptr_size) simp
  then show act: "unat (active_bytes (stats p')) = total_size h (qs @ [q])"
    using sizes tot unat_add_lem [of "active_bytes (stats p)" "ptr_size h q"] by (simp add: p'_def)
  show "unat (bytes_available (stats p')) = total_size h (available p)"
    using tot by (simp add: p'_def record_loan_bytes_available)
  show "active_bytes (stats p') \<le> high_watermark_bytes (stats p')" by (simp add: p'_def)
  have "unat (active_bytes (stats p')) \<le> unat (bytes_owned (stats p))" using act own by simp
  then have "active_bytes (stats p') \<le> lim" using lim by (simp add: word_le_nat_alt)
  then show "high_watermark_bytes (stats p') \<le> lim" using hw by (simp add: p'_def)
qed

lemma pool_acct_loan:
  assumes acct: "pool_acct s" and excl: "pool_excl s"
    and loan: "loan_frame (sys_heap s) (sys_pool s) sz w ht st fmt = (f, p', h')"
    and fit: "sizes_fit (sys_pool s) h'"
  shows "pool_acct \<lparr>sys_pool = p', sys_heap = h',
    sys_loans = (if lf_pool f then sys_loans s @ [f] else sys_loans s)\<rparr>"
  using loan
proof (cases rule: loan_frame_cases)
  case exhausted
  with acct pool_acct_bounds [OF acct] show ?thesis
    by (simp add: pool_acct_def Let_def loan_ptrs_def refresh_bytes_available)
next
  case (fresh st')
  let ?n = "allocation_size (pool_config (sys_pool s)) sz" and ?q = "Some (length (sys_heap s))"
  let ?p = "sys_pool s\<lparr>stats := st'\<rparr>"
  have old: "total_size h' (available (sys_pool s)) = total_size (sys_heap s) (available (sys_pool s))"
    "total_size h' (loan_ptrs s) = total_size (sys_heap s) (loan_ptrs s)"
    using excl by (auto simp: fresh(5) pool_excl_def intro!: total_size_append_heap)
  have new: "ptr_nat_size h' ?q = unat ?n" by (simp add: fresh(5) ptr_nat_size_def buf_bytes_def)
  have "distinct (available (sys_pool s) @ loan_ptrs s @ [?q]) \<and>
      (\<forall>q \<in> set (available (sys_pool s) @ loan_ptrs s @ [?q]). \<exists>a < length h'. q = Some a)"
  proof
    have "\<forall>q \<in> set (available (sys_pool s) @ loan_ptrs s). \<exists>a < length (sys_heap s). q = Some a"
      and "distinct (available (sys_pool s) @ loan_ptrs s)"
      using excl by (simp_all add: pool_excl_def)
    then show "distinct (available (sys_pool s) @ loan_ptrs s @ [?q])" by auto
    show "\<forall>q \<in> set (available (sys_pool s) @ loan_ptrs s @ [?q]). \<exists>a < length h'. q = Some a"
      using \<open>\<forall>q \<in> _. _\<close> by (auto simp: fresh(5) less_Suc_eq)
  qed
  then have "total_size h' (available (sys_pool s) @ loan_ptrs s @ [?q]) \<le> heap_bytes h'"
    by (blast intro: total_size_le_heap)
  then have "unat (bytes_owned (stats (sys_pool s))) + unat ?n < 2 ^ 64"
    if "cfg_max_bytes (pool_config (sys_pool s)) = 0"
    using that fit acct old new by (simp add: sizes_fit_def pool_acct_def Let_def)
  note own = can_allocate_bound [OF fresh(6) this]
  have acc: "unat (active_bytes (stats ?p)) + ptr_nat_size h' ?q = total_size h' (loan_ptrs s @ [?q])"
    "unat (bytes_owned (stats ?p)) = total_size h' (available ?p @ loan_ptrs s @ [?q])"
    "bytes_owned (stats ?p) \<le> byte_limit (sys_pool s)"
    "high_watermark_bytes (stats ?p) \<le> byte_limit (sys_pool s)"
    using acct own fresh old new by (simp_all add: pool_acct_def Let_def)
  from record_loan_acct [OF acc] acc acct fresh show ?thesis
    by (simp add: pool_acct_def Let_def loan_ptrs_def)
next
  case (reuse q xs ys)
  let ?p = "sys_pool s\<lparr>available := xs @ ys, stats := (stats (sys_pool s))\<lparr>reuse_count := reuse_count (stats (sys_pool s)) + 1\<rparr>\<rparr>"
  have acc: "unat (active_bytes (stats ?p)) + ptr_nat_size h' q = total_size h' (loan_ptrs s @ [q])"
    "unat (bytes_owned (stats ?p)) = total_size h' (available ?p @ loan_ptrs s @ [q])"
    "bytes_owned (stats ?p) \<le> byte_limit (sys_pool s)"
    "high_watermark_bytes (stats ?p) \<le> byte_limit (sys_pool s)"
    using acct reuse by (simp_all add: pool_acct_def Let_def)
  from record_loan_acct [OF acc] acc acct reuse show ?thesis
    by (simp add: pool_acct_def Let_def loan_ptrs_def)
qed

lemma pool_acct_step:
  "ledger_step s t \<Longrightarrow> pool_acct s \<and> pool_excl s \<and> sizes_fit (sys_pool s) (sys_heap t) \<Longrightarrow> pool_acct t"
proof (induction rule: ledger_step.induct)
  case (loan s sz w ht st fmt f p' h')
  then show ?case using pool_acct_loan by simp
next
  case (release s fs f gs f' p')
  then obtain a where f: "lf_pool f" "fv_buffer (lf_view f) = Some a"
    by (fastforce simp: pool_excl_def loan_ptrs_def)
  have "unat (ptr_size (sys_heap s) (Some a)) = ptr_nat_size (sys_heap s) (Some a)"
    using pool_acct_bounds [of s] release f by (intro unat_ptr_size) (simp add: loan_ptrs_def)
  moreover have p': "p' = return_buffer (sys_heap s) (Some a) (sys_pool s)"
    using release.hyps f by (simp add: lf_release_def)
  ultimately show ?case
    unfolding p' using release.hyps(1) release.prems f pool_acct_bounds [of s]
    by (simp add: pool_acct_def Let_def loan_ptrs_def return_buffer_def
        refresh_bytes_available unat_sub_clamped word_le_nat_alt)
next
  case (detach s fs f gs v f' p')
  then obtain a where f: "lf_pool f" "fv_buffer (lf_view f) = Some a"
    by (fastforce simp: pool_excl_def loan_ptrs_def)
  have "unat (ptr_size (sys_heap s) (Some a)) = ptr_nat_size (sys_heap s) (Some a)"
    using pool_acct_bounds [of s] detach f by (intro unat_ptr_size) (simp add: loan_ptrs_def)
  moreover have p': "p' = mark_detached (sys_heap s) (Some a) (sys_pool s)"
    using detach.hyps f by (simp add: lf_detach_def)
  ultimately show ?case
    unfolding p' using detach.hyps(1) detach.prems f pool_acct_bounds [of s]
    by (simp add: pool_acct_def Let_def loan_ptrs_def mark_detached_def
        refresh_bytes_available unat_sub_clamped word_le_nat_alt)
next
  case (rearrange ls s)
  from mset_eq_length [OF rearrange.hyps(1)] total_size_mset [OF rearrange.hyps(1)] rearrange.prems
  show ?case by (simp add: pool_acct_def Let_def loan_ptrs_def)
next
  case (write_bytes a s bs)
  then show ?case by (simp add: pool_acct_def Let_def loan_ptrs_def total_size_write)
qed

interpretation pool_sharing: transition_system "\<lambda>s. \<exists>c. s = ledger_start c" ledger_step pool_excl
  by unfold_locales (auto intro: pool_excl_start pool_excl_step)

lemma ledger_step_config: "ledger_step s t \<Longrightarrow> pool_config (sys_pool t) = pool_config (sys_pool s)"
proof (induction rule: ledger_step.induct)
  case (loan s sz w ht st fmt f p' h')
  then show ?case by (cases rule: loan_frame_cases) simp_all
qed (auto simp: lf_release_def return_buffer_def lf_detach_def mark_detached_def Let_def)

lemma heap_bytes_write:
  "a < length h \<Longrightarrow> length bs = length (buf_bytes h a) \<Longrightarrow> heap_bytes (h[a := bs]) = heap_bytes h"
  unfolding heap_bytes_def
  by (metis (no_types, lifting) buf_bytes_def list_update_id map_update)

lemma ledger_step_heap: "ledger_step s t \<Longrightarrow> heap_bytes (sys_heap s) \<le> heap_bytes (sys_heap t)"
proof (induction rule: ledger_step.induct)
  case (loan s sz w ht st fmt f p' h')
  then show ?case by (cases rule: loan_frame_cases) (simp_all add: heap_bytes_def)
qed (simp_all add: heap_bytes_write)

text \<open>The whole invariant of the ledger.\<close>

definition ledger_inv :: "pool_sys \<Rightarrow> bool" where
  "ledger_inv s \<longleftrightarrow> pool_excl s \<and> (sizes_fit (sys_pool s) (sys_heap s) \<longrightarrow> pool_acct s)"

lemma ledger_inv_step:
  assumes "ledger_inv s" and "ledger_step s t"
  shows "ledger_inv t"
proof -
  have "sizes_fit (sys_pool t) (sys_heap t) \<Longrightarrow> sizes_fit (sys_pool s) (sys_heap t) \<and> sizes_fit (sys_pool s) (sys_heap s)"
    using ledger_step_config [OF assms(2)] ledger_step_heap [OF assms(2)] by (auto simp: sizes_fit_def)
  then show ?thesis
    using assms pool_excl_step pool_acct_step unfolding ledger_inv_def by blast
qed

interpretation ledger: transition_system "\<lambda>s. \<exists>c. s = ledger_start c" ledger_step ledger_inv
proof
  show "ledger_inv s" if "\<exists>c. s = ledger_start c" for s
    using that pool_excl_start pool_acct_start by (auto simp: ledger_inv_def)
qed (rule ledger_inv_step)

section \<open>Frame objects\<close>

text \<open>
  The program holds its loans in \<^verbatim>\<open>LoanedFrame\<close> objects that it default-constructs, moves and destroys.
  The state is the pool, the heap and the objects alive; an object with a null pool holds no loan.
\<close>

record pool_objects =
  obj_pool :: buffer_pool
  obj_heap :: heap
  obj_frames :: "loaned_frame list"

definition pool_start :: "buffer_pool_config \<Rightarrow> pool_objects" where
  "pool_start c = \<lparr>obj_pool = make_buffer_pool c, obj_heap = [], obj_frames = []\<rparr>"

text \<open>
  One atomic step of the objects. A destruction is a release after which the object is gone. In a move
  assignment \<open>i\<close> is the target and \<open>j\<close> the source; a self-assignment does nothing. Only an idle pool is
  moved. Through its view a client changes the description of a frame or the bytes of a buffer, not the
  buffer the view refers to nor the buffer's length.
\<close>

inductive pool_step :: "pool_objects \<Rightarrow> pool_objects \<Rightarrow> bool" where
  construct: "pool_step s (s\<lparr>obj_frames := obj_frames s @ [default_frame]\<rparr>)"
| loan: "loan_frame (obj_heap s) (obj_pool s) sz w ht st fmt = (f, p', h') \<Longrightarrow>
     pool_step s \<lparr>obj_pool = p', obj_heap = h', obj_frames = obj_frames s @ [f]\<rparr>"
| move_construct: "i < length (obj_frames s) \<Longrightarrow> lf_move (obj_frames s ! i) = (new, old) \<Longrightarrow>
     pool_step s (s\<lparr>obj_frames := (obj_frames s)[i := old] @ [new]\<rparr>)"
| move_assign: "i < length (obj_frames s) \<Longrightarrow> j < length (obj_frames s) \<Longrightarrow> i \<noteq> j \<Longrightarrow>
     lf_move_assign (obj_heap s) (obj_frames s ! i) (obj_frames s ! j) (obj_pool s) = (this, other, p') \<Longrightarrow>
     pool_step s (s\<lparr>obj_pool := p', obj_frames := (obj_frames s)[i := this, j := other]\<rparr>)"
| self_assign: "i < length (obj_frames s) \<Longrightarrow> pool_step s s"
| release: "i < length (obj_frames s) \<Longrightarrow> lf_release (obj_heap s) (obj_frames s ! i) (obj_pool s) = (f', p') \<Longrightarrow>
     pool_step s (s\<lparr>obj_pool := p', obj_frames := (obj_frames s)[i := f']\<rparr>)"
| destroy: "i < length (obj_frames s) \<Longrightarrow> lf_release (obj_heap s) (obj_frames s ! i) (obj_pool s) = (f', p') \<Longrightarrow>
     pool_step s (s\<lparr>obj_pool := p', obj_frames := take i (obj_frames s) @ drop (Suc i) (obj_frames s)\<rparr>)"
| detach: "i < length (obj_frames s) \<Longrightarrow> lf_detach (obj_heap s) (obj_frames s ! i) (obj_pool s) = (v, f', p') \<Longrightarrow>
     pool_step s (s\<lparr>obj_pool := p', obj_frames := (obj_frames s)[i := f']\<rparr>)"
| describe: "i < length (obj_frames s) \<Longrightarrow> fv_buffer v = fv_buffer (lf_view (obj_frames s ! i)) \<Longrightarrow>
     pool_step s (s\<lparr>obj_frames := (obj_frames s)[i := (obj_frames s ! i)\<lparr>lf_view := v\<rparr>]\<rparr>)"
| write_bytes: "a < length (obj_heap s) \<Longrightarrow> length bs = length (buf_bytes (obj_heap s) a) \<Longrightarrow>
     pool_step s (s\<lparr>obj_heap := (obj_heap s)[a := bs]\<rparr>)"
| move_pool: "\<not> has_outstanding_loans (obj_pool s) \<Longrightarrow> pool_move (obj_pool s) = (p', old) \<Longrightarrow>
     pool_step s (s\<lparr>obj_pool := p'\<rparr>)"
| assign_pool: "\<not> has_outstanding_loans (obj_pool s) \<Longrightarrow> pool_move_assign target (obj_pool s) = (p', old) \<Longrightarrow>
     pool_step s (s\<lparr>obj_pool := p'\<rparr>)"

definition held_frames :: "pool_objects \<Rightarrow> loaned_frame list" where
  "held_frames s = filter lf_pool (obj_frames s)"

definition held_buffers :: "pool_objects \<Rightarrow> buffer_ptr list" where
  "held_buffers s = map (fv_buffer \<circ> lf_view) (held_frames s)"

text \<open>The ledger of the objects: the loans are the objects with a pool.\<close>

definition ledger_of :: "pool_objects \<Rightarrow> pool_sys" where
  "ledger_of s = \<lparr>sys_pool = obj_pool s, sys_heap = obj_heap s, sys_loans = held_frames s\<rparr>"

lemma ledger_of_simps [simp]:
  "sys_pool (ledger_of s) = obj_pool s" "sys_heap (ledger_of s) = obj_heap s"
  "sys_loans (ledger_of s) = held_frames s" "loan_ptrs (ledger_of s) = held_buffers s"
  by (simp_all add: ledger_of_def loan_ptrs_def held_buffers_def)

lemma split_at: "i < length xs \<Longrightarrow> xs = take i xs @ xs ! i # drop (Suc i) xs"
  by (rule id_take_nth_drop)

lemma filter_update:
  assumes "i < length xs"
  shows "filter P (xs[i := y]) = filter P (take i xs) @ (if P y then [y] else []) @ filter P (drop (Suc i) xs)"
    and "filter P xs = filter P (take i xs) @ (if P (xs ! i) then [xs ! i] else []) @ filter P (drop (Suc i) xs)"
  using assms by (simp_all add: upd_conv_take_nth_drop) (metis filter.simps(2) filter_append split_at)

text \<open>Giving up the loan of object \<open>i\<close> is a step of the ledger.\<close>

lemma ledger_release:
  assumes "i < length (obj_frames s)" and "lf_release (obj_heap s) (obj_frames s ! i) (obj_pool s) = (f', p')"
  shows "ledger_step\<^sup>*\<^sup>* (ledger_of s) (ledger_of (s\<lparr>obj_pool := p', obj_frames := (obj_frames s)[i := f']\<rparr>))"
proof -
  have f': "\<not> lf_pool f'" using assms(2) by (auto simp: lf_release_def)
  show ?thesis
  proof (cases "lf_pool (obj_frames s ! i)")
    case True
    then have "ledger_step (ledger_of s) (ledger_of (s\<lparr>obj_pool := p', obj_frames := (obj_frames s)[i := f']\<rparr>))"
      using ledger_step.release [of "ledger_of s" _ "obj_frames s ! i"] assms f'
        filter_update [OF assms(1), of lf_pool]
      by (simp add: ledger_of_def held_frames_def)
    then show ?thesis by blast
  next
    case False
    then show ?thesis
      using assms f' filter_update [OF assms(1), of lf_pool]
      by (simp add: ledger_of_def held_frames_def lf_release_def)
  qed
qed

lemma ledger_detach:
  assumes "i < length (obj_frames s)" and "lf_detach (obj_heap s) (obj_frames s ! i) (obj_pool s) = (v, f', p')"
  shows "ledger_step\<^sup>*\<^sup>* (ledger_of s) (ledger_of (s\<lparr>obj_pool := p', obj_frames := (obj_frames s)[i := f']\<rparr>))"
proof -
  have f': "\<not> lf_pool f'" using assms(2) by (auto simp: lf_detach_def)
  show ?thesis
  proof (cases "lf_pool (obj_frames s ! i)")
    case True
    then have "ledger_step (ledger_of s) (ledger_of (s\<lparr>obj_pool := p', obj_frames := (obj_frames s)[i := f']\<rparr>))"
      using ledger_step.detach [of "ledger_of s" _ "obj_frames s ! i"] assms f'
        filter_update [OF assms(1), of lf_pool]
      by (simp add: ledger_of_def held_frames_def)
    then show ?thesis by blast
  next
    case False
    then show ?thesis
      using assms f' filter_update [OF assms(1), of lf_pool]
      by (simp add: ledger_of_def held_frames_def lf_detach_def)
  qed
qed

lemma ledger_rearrange:
  assumes "mset (held_buffers (s\<lparr>obj_frames := fs\<rparr>)) = mset (held_buffers s)"
  shows "ledger_step\<^sup>*\<^sup>* (ledger_of s) (ledger_of (s\<lparr>obj_frames := fs\<rparr>))"
proof -
  have "ledger_step (ledger_of s) ((ledger_of s)\<lparr>sys_loans := filter lf_pool fs\<rparr>)"
    using assms by (intro ledger_step.rearrange) (simp_all add: held_buffers_def held_frames_def)
  then show ?thesis by (simp add: ledger_of_def held_frames_def r_into_rtranclp)
qed

text \<open>
  With an object whose loan has been given up as the target, a move assignment exchanges which object
  holds the loan.
\<close>

lemma held_swap:
  assumes "i < length fs" and "j < length fs" and "i \<noteq> j" and "\<not> lf_pool (fs ! i)" and "\<not> lf_pool other"
  shows "mset (filter lf_pool (fs[i := fs ! j, j := other])) = mset (filter lf_pool fs)"
proof -
  have u: "mset (filter lf_pool (xs[k := y])) + (if lf_pool (xs ! k) then {#xs ! k#} else {#}) =
      mset (filter lf_pool xs) + (if lf_pool y then {#y#} else {#})" if "k < length xs" for k xs y
    using filter_update [OF that, of lf_pool] by simp
  from u [of j "fs[i := fs ! j]" other] u [of i fs "fs ! j"] assms show ?thesis
    by (simp split: if_splits)
qed

lemma move_assign_release:
  assumes "lf_move_assign h this other p = (this', other', p')"
  shows "lf_release h this p = (default_frame, p')" and "this' = other" and "\<not> lf_pool other'"
  using assms by (auto simp: lf_move_assign_def lf_move_def lf_release_def default_frame_def)

text \<open>Every step of the objects is a run of the ledger.\<close>

lemma pool_step_refines: "pool_step s t \<Longrightarrow> ledger_step\<^sup>*\<^sup>* (ledger_of s) (ledger_of t)"
proof (induction rule: pool_step.induct)
  case (construct s)
  show ?case by (rule ledger_rearrange) (simp add: held_buffers_def held_frames_def default_frame_def)
next
  case (loan s sz w ht st fmt f p' h')
  have "ledger_step (ledger_of s) (ledger_of \<lparr>obj_pool = p', obj_heap = h', obj_frames = obj_frames s @ [f]\<rparr>)"
    using ledger_step.loan [of "ledger_of s" sz w ht st fmt f p' h'] loan
    by (cases "lf_pool f") (simp_all add: ledger_of_def held_frames_def)
  then show ?case by blast
next
  case (move_construct i s new old)
  then show ?case
    by (intro ledger_rearrange)
      (auto simp: held_buffers_def held_frames_def lf_move_def filter_update [of i "obj_frames s" lf_pool])
next
  case (move_assign i s j this other p')
  note ma = move_assign_release [OF move_assign.hyps(4)]
  let ?m = "s\<lparr>obj_pool := p', obj_frames := (obj_frames s)[i := default_frame]\<rparr>"
  let ?fs = "(obj_frames s)[i := default_frame, i := this, j := other]"
  have "ledger_step\<^sup>*\<^sup>* (ledger_of s) (ledger_of ?m)" using ledger_release move_assign.hyps(1) ma(1) .
  moreover have "ledger_step\<^sup>*\<^sup>* (ledger_of ?m) (ledger_of (?m\<lparr>obj_frames := ?fs\<rparr>))"
    using held_swap [of i "obj_frames ?m" j other] move_assign.hyps(1-3) ma(2,3)
    by (intro ledger_rearrange) (simp add: held_buffers_def held_frames_def default_frame_def mset_map)
  ultimately show ?case by (simp add: rtranclp_trans)
next
  case (destroy i s f' p')
  let ?m = "s\<lparr>obj_pool := p', obj_frames := (obj_frames s)[i := f']\<rparr>"
  have "\<not> lf_pool f'" using destroy.hyps(2) by (auto simp: lf_release_def)
  then have "held_frames ?m = filter lf_pool (take i (obj_frames s) @ drop (Suc i) (obj_frames s))"
    using filter_update(1) [OF destroy.hyps(1), of lf_pool] by (simp add: held_frames_def)
  with ledger_release [OF destroy.hyps] show ?case by (simp add: ledger_of_def held_frames_def)
next
  case (describe i s v)
  then show ?case
    by (intro ledger_rearrange)
      (simp add: held_buffers_def held_frames_def filter_update [of i "obj_frames s" lf_pool])
next
  case (write_bytes a s bs)
  then have "ledger_step (ledger_of s) (ledger_of (s\<lparr>obj_heap := (obj_heap s)[a := bs]\<rparr>))"
    using ledger_step.write_bytes [of a "ledger_of s" bs] by (simp add: ledger_of_def held_frames_def)
  then show ?case by blast
next
  case (move_pool s p' old)
  then have "p' = obj_pool s" by (cases "obj_pool s") (auto simp: pool_move_def)
  then show ?case by simp
next
  case (assign_pool s target p' old)
  then have "p' = obj_pool s" by (cases "obj_pool s") (auto simp: pool_move_assign_def)
  then show ?case by simp
qed (simp_all add: ledger_release ledger_detach)

lemma pool_steps_refine: "pool_step\<^sup>*\<^sup>* s t \<Longrightarrow> ledger_step\<^sup>*\<^sup>* (ledger_of s) (ledger_of t)"
  by (induction rule: rtranclp_induct) (auto dest: pool_step_refines)

lemma pool_steps_config:
  assumes "pool_step\<^sup>*\<^sup>* s t"
  shows "pool_config (obj_pool t) = pool_config (obj_pool s)"
proof -
  have "pool_config (sys_pool v) = pool_config (sys_pool u)" if "ledger_step\<^sup>*\<^sup>* u v" for u v
    using that by (induction rule: rtranclp_induct) (simp_all add: ledger_step_config)
  from this [OF pool_steps_refine [OF assms]] show ?thesis by simp
qed

interpretation pool_objs: transition_system "\<lambda>s. \<exists>c. s = pool_start c" pool_step "\<lambda>s. ledger_inv (ledger_of s)"
proof
  fix s
  assume "\<exists>c. s = pool_start c"
  then have "\<exists>c. ledger_of s = ledger_start c"
    by (auto simp: ledger_of_def held_frames_def pool_start_def ledger_start_def)
  then show "ledger_inv (ledger_of s)" by (rule ledger.holds_start)
next
  fix s t
  assume "ledger_inv (ledger_of s)" and "pool_step s t"
  then show "ledger_inv (ledger_of t)" using pool_step_refines ledger.holds_steps by blast
qed


section \<open>Properties\<close>

text \<open>
  Rounding an allocation up: for an alignment above one, \<open>align_up\<close> returns the least multiple of
  the alignment that is at least the requested size whenever that multiple fits into 64 bits, and the
  unrounded size otherwise, so the result never wraps and is never below the request.
\<close>

lemma align_up_least_multiple:
  fixes v al :: size_t
  assumes "al > 1"
  shows "let m = (unat v + unat al - 1) div unat al * unat al in
    unat (align_up v al) = (if m < 2 ^ 64 then m else unat v) \<and>
    (\<forall>k. unat al dvd k \<and> unat v \<le> k \<longrightarrow> m \<le> k) \<and> v \<le> align_up v al"
proof -
  let ?a = "unat al" and ?v = "unat v"
  have a: "?a > 1" using assms by (simp add: word_less_nat_alt)
  have "(?v + ?a - 1) div ?a * ?a \<le> k" if "?a dvd k" and "?v \<le> k" for k
  proof -
    from that(1) obtain j where k: "k = j * ?a" by (metis dvd_def mult.commute)
    have "?v + ?a - 1 < (j + 1) * ?a" using that(2) k a unfolding distrib_right mult_1 by linarith
    then have "(?v + ?a - 1) div ?a < j + 1" using a by (simp add: less_mult_imp_div_less)
    then show ?thesis using k by simp
  qed
  then show ?thesis using unat_align_up [OF assms, of v] align_up_ge [of v al] by (simp add: Let_def)
qed

lemma align_up_least_multiple_witness:
  "align_up 13 8 = 16 \<and> align_up (- 3) 8 = - 3"
proof -
  have al: "(1::size_t) < 8" by simp
  from align_up_least_multiple [OF al, of 13] align_up_least_multiple [OF al, of "- 3"]
  have "unat (align_up 13 8) = 16" and "unat (align_up (- 3) 8) = unat (- 3 :: size_t)"
    by (simp_all add: Let_def)
  then show ?thesis by (simp add: word_unat_eq_iff)
qed

text \<open>
  Bucketed sizing is a best fit: whenever some configured bucket holds the request, the chosen size
  is the aligned smallest such bucket; whatever the configuration, the allocation is never smaller than
  the request.
\<close>

lemma allocation_size_best_fit:
  assumes "b \<in> set (bucket_sizes c)" and "requested \<le> b"
  shows "\<exists>m \<in> set (bucket_sizes c). requested \<le> m \<and>
    (\<forall>b' \<in> set (bucket_sizes c). requested \<le> b' \<longrightarrow> m \<le> b') \<and>
    allocation_size c requested = align_up m (alignment c) \<and> requested \<le> allocation_size c requested"
proof -
  obtain x xs where xs: "bucket_sizes c = x # xs" using assms(1) by (cases "bucket_sizes c") auto
  let ?m = "min_element (bucket_before requested) x xs"
  have "?m \<in> set (bucket_sizes c)" using min_element_in [of "bucket_before requested" x xs] xs by simp
  moreover have "requested \<le> ?m" using bucket_choice [OF assms(2)] assms(1) xs by simp
  moreover have "\<forall>b' \<in> set (bucket_sizes c). requested \<le> b' \<longrightarrow> ?m \<le> b'" using bucket_choice xs by auto
  moreover have "allocation_size c requested = align_up ?m (alignment c)"
    using \<open>requested \<le> ?m\<close> xs by (simp add: allocation_size_def)
  ultimately show ?thesis using allocation_size_ge [of requested c] by blast
qed

lemma allocation_size_best_fit_instance:
  "allocation_size \<lparr>fixed_block_size = 0, bucket_sizes = [256, 64, 1024], alignment = 16, cfg_max_bytes = 0\<rparr> 60
     = align_up 64 16"
proof -
  let ?c = "\<lparr>fixed_block_size = 0, bucket_sizes = [256, 64, 1024], alignment = 16, cfg_max_bytes = 0\<rparr> :: buffer_pool_config"
  have "64 \<in> set (bucket_sizes ?c)" and le: "(60::size_t) \<le> 64" by simp_all
  from allocation_size_best_fit [OF this] show ?thesis by auto
qed



end
