(* ===== verification/Clock.thy ===== *)
theory Clock
  imports Prelude
begin

text \<open>
  Timestamp domains and event timestamps (\<^verbatim>\<open>src/clock.cpp\<close>, \<^verbatim>\<open>include/topoexec/runtime/clock.hpp\<close>).
  Readings of \<^verbatim>\<open>std::chrono::steady_clock\<close> are integers (nanoseconds); every operation that reads the
  clock takes the reading as an argument.
\<close>

datatype timestamp_domain = KSteady | KSystem | KDevice | KExternal

record event_timestamp =
  domain :: timestamp_domain
  nanoseconds :: int
  ts_source :: string

definition parse_timestamp_domain_value :: "string \<Rightarrow> timestamp_domain option" where
  "parse_timestamp_domain_value value =
     (if value = ''steady'' then Some KSteady
      else if value = ''system'' then Some KSystem
      else if value = ''device'' then Some KDevice
      else if value = ''external'' then Some KExternal
      else None)"

definition is_timestamp_domain_value :: "string \<Rightarrow> bool" where
  "is_timestamp_domain_value value \<longleftrightarrow> parse_timestamp_domain_value value \<noteq> None"

fun timestamp_domain_name :: "timestamp_domain \<Rightarrow> string" where
  "timestamp_domain_name KSteady = ''steady''"
| "timestamp_domain_name KSystem = ''system''"
| "timestamp_domain_name KDevice = ''device''"
| "timestamp_domain_name KExternal = ''external''"

definition make_event_timestamp :: "timestamp_domain \<Rightarrow> int \<Rightarrow> string \<Rightarrow> event_timestamp" where
  "make_event_timestamp d ns src = \<lparr>domain = d, nanoseconds = ns, ts_source = src\<rparr>"

text \<open>The order of the enumerators, used where the domain is a key of a \<^verbatim>\<open>std::map\<close>.\<close>

fun domain_rank :: "timestamp_domain \<Rightarrow> nat" where
  "domain_rank KSteady = 0"
| "domain_rank KSystem = 1"
| "domain_rank KDevice = 2"
| "domain_rank KExternal = 3"

lemma domain_rank_inj: "domain_rank a = domain_rank b \<longleftrightarrow> a = b"
  by (cases a; cases b) simp_all

instantiation timestamp_domain :: linorder
begin

definition less_eq_timestamp_domain :: "timestamp_domain \<Rightarrow> timestamp_domain \<Rightarrow> bool" where
  "less_eq_timestamp_domain a b \<longleftrightarrow> domain_rank a \<le> domain_rank b"

definition less_timestamp_domain :: "timestamp_domain \<Rightarrow> timestamp_domain \<Rightarrow> bool" where
  "less_timestamp_domain a b \<longleftrightarrow> domain_rank a < domain_rank b"

instance
  by standard (auto simp: less_eq_timestamp_domain_def less_timestamp_domain_def domain_rank_inj)

end

text \<open>Parsing inverts naming, and accepts nothing but the four names.\<close>

lemma parse_domain_name [simp]: "parse_timestamp_domain_value (timestamp_domain_name d) = Some d"
  by (cases d) (simp_all add: parse_timestamp_domain_value_def)

lemma parse_domain_Some: "parse_timestamp_domain_value s = Some d \<Longrightarrow> s = timestamp_domain_name d"
  by (auto simp: parse_timestamp_domain_value_def split: if_splits)

end
