(* ===== verification/Payload.thy ===== *)
theory Payload
  imports Buffer_Pool
begin

text \<open>
  Runtime payloads (\<^verbatim>\<open>src/payload.cpp\<close>, \<^verbatim>\<open>include/topoexec/runtime/payload.hpp\<close>). The variant is a
  datatype with one constructor per alternative. A \<^verbatim>\<open>std::shared_ptr<const RuntimePayload>\<close> points to an
  immutable value, so it is that value or null. Throwing accessors return \<open>string + 'a\<close>, with \<open>Inl\<close> the
  message of the \<^verbatim>\<open>std::runtime_error\<close>.
\<close>

definition kTextPayloadSchema :: string where
  "kTextPayloadSchema = ''topoexec.runtime.Text''"

definition kFrameViewPayloadSchema :: string where
  "kFrameViewPayloadSchema = ''topoexec.runtime.FrameView''"

definition kBinaryBlobPayloadSchema :: string where
  "kBinaryBlobPayloadSchema = ''topoexec.runtime.BinaryBlob''"

record binary_blob =
  bb_buffer :: buffer_ptr
  bb_offset :: size_t
  bb_size :: size_t
  bb_format :: string

record opaque_object =
  op_object :: "nat option"
  op_size_bytes :: size_t
  op_debug_summary :: string

datatype payload_value =
    TextPayload string
  | FrameViewPayload frame_view
  | BinaryBlobPayload binary_blob
  | OpaquePayload opaque_object

record runtime_payload =
  schema :: string
  payload_val :: payload_value

type_synonym payload_ptr = "runtime_payload option"

definition blob_valid :: "heap \<Rightarrow> binary_blob \<Rightarrow> bool" where
  "blob_valid h b = range_valid h (bb_buffer b) (bb_offset b) (bb_size b)"

definition blob_data :: "heap \<Rightarrow> binary_blob \<Rightarrow> (nat \<times> size_t) option" where
  "blob_data h b = (if \<not> blob_valid h b then None else map_option (\<lambda>a. (a, bb_offset b)) (bb_buffer b))"

definition opaque_valid :: "opaque_object \<Rightarrow> bool" where
  "opaque_valid ob \<longleftrightarrow> op_object ob \<noteq> None"

fun value_is_text :: "payload_value \<Rightarrow> bool" where
  "value_is_text (TextPayload _) = True"
| "value_is_text _ = False"

definition is_text :: "runtime_payload \<Rightarrow> bool" where
  "is_text p = value_is_text (payload_val p)"

definition is_large_payload :: "runtime_payload \<Rightarrow> bool" where
  "is_large_payload p \<longleftrightarrow> \<not> is_text p"

definition make_text_payload :: "string \<Rightarrow> string \<Rightarrow> runtime_payload" where
  "make_text_payload txt sch = \<lparr>schema = sch, payload_val = TextPayload txt\<rparr>"

definition make_frame_payload :: "frame_view \<Rightarrow> string \<Rightarrow> runtime_payload" where
  "make_frame_payload f sch = \<lparr>schema = sch, payload_val = FrameViewPayload f\<rparr>"

definition make_binary_blob_payload ::
    "buffer_ptr \<Rightarrow> size_t \<Rightarrow> size_t \<Rightarrow> string \<Rightarrow> string \<Rightarrow> runtime_payload" where
  "make_binary_blob_payload b off n fmt sch =
     \<lparr>schema = sch,
      payload_val = BinaryBlobPayload \<lparr>bb_buffer = b, bb_offset = off, bb_size = n, bb_format = fmt\<rparr>\<rparr>"

definition make_opaque_payload :: "nat option \<Rightarrow> string \<Rightarrow> size_t \<Rightarrow> string \<Rightarrow> runtime_payload" where
  "make_opaque_payload ob sch n summary =
     \<lparr>schema = sch,
      payload_val = OpaquePayload \<lparr>op_object = ob, op_size_bytes = n, op_debug_summary = summary\<rparr>\<rparr>"

definition make_shared_payload :: "runtime_payload \<Rightarrow> payload_ptr" where
  "make_shared_payload p = Some p"

definition error_prefix :: "string \<Rightarrow> string" where
  "error_prefix ctx = (if ctx = [] then [] else ctx @ '': '')"

definition require_text_payload :: "runtime_payload \<Rightarrow> string \<Rightarrow> string + string" where
  "require_text_payload p ctx =
     (case payload_val p of TextPayload t \<Rightarrow> Inr t
      | _ \<Rightarrow> Inl (error_prefix ctx @ ''expected Text payload, got schema '' @ schema p))"

definition require_frame_payload :: "runtime_payload \<Rightarrow> string \<Rightarrow> string + frame_view" where
  "require_frame_payload p ctx =
     (case payload_val p of FrameViewPayload f \<Rightarrow> Inr f
      | _ \<Rightarrow> Inl (error_prefix ctx @ ''expected FrameView payload, got schema '' @ schema p))"

definition require_binary_blob_payload :: "runtime_payload \<Rightarrow> string \<Rightarrow> string + binary_blob" where
  "require_binary_blob_payload p ctx =
     (case payload_val p of BinaryBlobPayload b \<Rightarrow> Inr b
      | _ \<Rightarrow> Inl (error_prefix ctx @ ''expected BinaryBlob payload, got schema '' @ schema p))"

definition require_opaque_payload :: "runtime_payload \<Rightarrow> string \<Rightarrow> string + opaque_object" where
  "require_opaque_payload p ctx =
     (case payload_val p of OpaquePayload ob \<Rightarrow> Inr ob
      | _ \<Rightarrow> Inl (error_prefix ctx @ ''expected Opaque payload, got schema '' @ schema p))"

text \<open>\<^verbatim>\<open>RuntimePayload::empty\<close> and the comparison with a string go through the throwing accessor.\<close>

definition payload_empty :: "runtime_payload \<Rightarrow> string + bool" where
  "payload_empty p = (case require_text_payload p [] of Inl e \<Rightarrow> Inl e | Inr t \<Rightarrow> Inr (t = []))"

definition payload_eq_string :: "runtime_payload \<Rightarrow> string \<Rightarrow> string + bool" where
  "payload_eq_string p s = (case require_text_payload p [] of Inl e \<Rightarrow> Inl e | Inr t \<Rightarrow> Inr (t = s))"

definition copy_text_payload :: "runtime_payload \<Rightarrow> string + runtime_payload" where
  "copy_text_payload p =
     (case require_text_payload p [] of Inl e \<Rightarrow> Inl e | Inr t \<Rightarrow> Inr (make_text_payload t (schema p)))"

record payload_schema_info =
  type_name :: string
  schema_id :: string
  summary :: string
  size_estimate :: size_t
  large :: bool

definition summarize_text :: "string \<Rightarrow> string" where
  "summarize_text t = (if length t \<le> 64 then t else take 64 t @ ''...'')"

definition describe_payload_schema :: "runtime_payload \<Rightarrow> payload_schema_info" where
  "describe_payload_schema p =
     (let mk = (\<lambda>name sz s. \<lparr>type_name = name, schema_id = schema p, summary = s, size_estimate = sz,
                              large = is_large_payload p\<rparr>) in
      case payload_val p of
        TextPayload t \<Rightarrow> mk ''TextPayload'' (of_nat (length t)) (summarize_text t)
      | FrameViewPayload f \<Rightarrow>
          mk ''FrameView'' (fv_size f)
            ((if fv_format f = [] then ''frame'' else fv_format f) @
             (if fv_width f \<noteq> 0 \<or> fv_height f \<noteq> 0
              then '' '' @ nat_to_string (unat (fv_width f)) @ ''x'' @ nat_to_string (unat (fv_height f)) else []))
      | BinaryBlobPayload b \<Rightarrow>
          mk ''BinaryBlobPayload'' (bb_size b) (if bb_format b = [] then ''binary_blob'' else bb_format b)
      | OpaquePayload ob \<Rightarrow> mk ''OpaquePayload'' (op_size_bytes ob) (op_debug_summary ob))"

text \<open>\<^verbatim>\<open>operator<<\<close>: the text, or the schema with the debug summary of an opaque payload.\<close>

definition payload_show :: "runtime_payload \<Rightarrow> string" where
  "payload_show p =
     (case payload_val p of
        TextPayload t \<Rightarrow> t
      | OpaquePayload ob \<Rightarrow>
          if op_debug_summary ob \<noteq> [] then schema p @ '':'' @ op_debug_summary ob else schema p
      | _ \<Rightarrow> schema p)"

section \<open>Lemmas\<close>

lemma copy_text_payload_text: "is_text p \<Longrightarrow> copy_text_payload p = Inr p"
  by (cases p; cases "payload_val p")
    (simp_all add: copy_text_payload_def require_text_payload_def make_text_payload_def is_text_def)

lemma copy_text_payload_ok_iff: "(\<exists>q. copy_text_payload p = Inr q) \<longleftrightarrow> is_text p"
  by (cases "payload_val p") (simp_all add: copy_text_payload_def require_text_payload_def is_text_def)

lemma length_summarize_text: "length (summarize_text t) \<le> 67"
  by (simp add: summarize_text_def)

end
