(* ===== verification/Graph_Spec.thy ===== *)
theory Graph_Spec
  imports Clock Payload
begin

text \<open>
  The graph description (\<^verbatim>\<open>include/topoexec/runtime/graph.hpp\<close>), the invocation metadata of
  \<^verbatim>\<open>include/topoexec/runtime/component.hpp\<close>, and the endpoint helpers that
  \<^verbatim>\<open>src/graph.cpp\<close>, \<^verbatim>\<open>src/channel.cpp\<close> and \<^verbatim>\<open>src/graph_io.cpp\<close> each repeat. \<^verbatim>\<open>int\<close> fields are integers:
  the code compares them and never does arithmetic that could overflow on them.
\<close>

datatype edge_kind = KImmediate | KDelay | KState | KAsync

fun edge_kind_to_string :: "edge_kind \<Rightarrow> string" where
  "edge_kind_to_string KImmediate = ''immediate''"
| "edge_kind_to_string KDelay = ''delay''"
| "edge_kind_to_string KState = ''state''"
| "edge_kind_to_string KAsync = ''async''"

record edge_policy_spec =
  ep_mode :: string
  ep_capacity :: int
  ep_overflow :: string
  ep_lifespan_ms :: int
  ep_deadline_ms :: int
  ep_max_inflight :: int
  ep_preserve_order :: bool
  ep_allow_drop :: bool
  ep_emit_health_events :: bool
  ep_timestamp_domain :: string
  ep_copy_policy :: string
  ep_owner :: string
  ep_readers :: string

definition default_edge_policy :: edge_policy_spec where
  "default_edge_policy =
     \<lparr>ep_mode = ''latest'', ep_capacity = 1, ep_overflow = ''overwrite'', ep_lifespan_ms = 0,
      ep_deadline_ms = 0, ep_max_inflight = 0, ep_preserve_order = True, ep_allow_drop = True,
      ep_emit_health_events = True, ep_timestamp_domain = ''steady'', ep_copy_policy = ''copy'',
      ep_owner = ''runtime'', ep_readers = ''single''\<rparr>"

record edge_spec =
  edge_id :: string
  edge_from :: string
  edge_to :: string
  edge_kind_of :: edge_kind
  has_kind :: bool
  invalid_kind :: string
  edge_policy :: edge_policy_spec

record invocation_metadata =
  correlation_id :: string
  causation_id :: string
  epoch_id :: nat
  transaction_id :: string
  source_component :: string
  source_port :: string
  trigger_kind :: string

definition empty_metadata :: invocation_metadata where
  "empty_metadata =
     \<lparr>correlation_id = [], causation_id = [], epoch_id = 0, transaction_id = [], source_component = [],
      source_port = [], trigger_kind = []\<rparr>"

record config_view =
  cv_values :: "(string, string) smap"
  cv_nested_values :: "string list"

definition empty_config_view :: config_view where
  "empty_config_view = \<lparr>cv_values = [], cv_nested_values = []\<rparr>"

definition is_nested :: "config_view \<Rightarrow> string \<Rightarrow> bool" where
  "is_nested c name \<longleftrightarrow> name \<in> set (cv_nested_values c)"

section \<open>Endpoints\<close>

text \<open>\<^verbatim>\<open>std::string::rfind\<close>: the text before and after the last occurrence of a character.\<close>

fun split_last :: "char \<Rightarrow> string \<Rightarrow> (string \<times> string) option" where
  "split_last c [] = None"
| "split_last c (x # xs) =
     (case split_last c xs of
        Some (a, b) \<Rightarrow> Some (x # a, b)
      | None \<Rightarrow> if x = c then Some ([], xs) else None)"

definition component_id_from_endpoint :: "string \<Rightarrow> string" where
  "component_id_from_endpoint ep = (case split_last (CHR ''.'') ep of None \<Rightarrow> ep | Some (a, b) \<Rightarrow> a)"

definition port_name_from_endpoint :: "string \<Rightarrow> string" where
  "port_name_from_endpoint ep = (case split_last (CHR ''.'') ep of None \<Rightarrow> [] | Some (a, b) \<Rightarrow> b)"

definition endpoint :: "string \<Rightarrow> string \<Rightarrow> string" where
  "endpoint c p = c @ ''.'' @ p"

lemma split_last_None_iff: "split_last c s = None \<longleftrightarrow> c \<notin> set s"
  by (induction s) (auto split: option.split)

lemma split_last_append: "c \<notin> set b \<Longrightarrow> split_last c (a @ c # b) = Some (a, b)"
proof (induction a)
  case Nil
  then have "split_last c b = None" by (simp add: split_last_None_iff)
  then show ?case by simp
qed simp

lemma split_last_SomeD: "split_last c s = Some (a, b) \<Longrightarrow> s = a @ c # b \<and> c \<notin> set b"
proof (induction s arbitrary: a)
  case (Cons x s)
  show ?case
  proof (cases "split_last c s")
    case None
    with Cons.prems show ?thesis by (auto simp: split_last_None_iff [symmetric] split: if_splits)
  next
    case (Some ab)
    with Cons show ?thesis by (cases ab) auto
  qed
qed simp

lemma endpoint_roundtrip [simp]:
  assumes "CHR ''.'' \<notin> set p"
  shows "component_id_from_endpoint (endpoint c p) = c" and "port_name_from_endpoint (endpoint c p) = p"
proof -
  have "split_last (CHR ''.'') (endpoint c p) = Some (c, p)"
    using assms by (simp add: split_last_append endpoint_def)
  then show "component_id_from_endpoint (endpoint c p) = c" "port_name_from_endpoint (endpoint c p) = p"
    by (simp_all add: component_id_from_endpoint_def port_name_from_endpoint_def)
qed

lemma endpoint_decompose:
  "CHR ''.'' \<in> set ep \<Longrightarrow> endpoint (component_id_from_endpoint ep) (port_name_from_endpoint ep) = ep"
proof -
  assume "CHR ''.'' \<in> set ep"
  then obtain a b where "split_last (CHR ''.'') ep = Some (a, b)"
    using split_last_None_iff by (metis option.exhaust surj_pair)
  moreover from this have "ep = a @ CHR ''.'' # b" using split_last_SomeD by blast
  ultimately show ?thesis
    by (simp add: component_id_from_endpoint_def port_name_from_endpoint_def endpoint_def)
qed

end
