(* ===== verification/Health.thy ===== *)
theory Health
  imports Prelude
begin

text \<open>
  Health events and their bounded, coalescing sink (\<^verbatim>\<open>include/topoexec/runtime/health.hpp\<close>).
  \<open>sink_emit\<close> is \<^verbatim>\<open>HealthEventSink::emit\<close>: the outcome of \<^verbatim>\<open>std::try_to_lock\<close> and the clock reading are
  arguments. \<open>emit_all\<close> runs any sequence of emits, one per call.
\<close>

definition kDefaultHealthEventCapacity :: nat where
  "kDefaultHealthEventCapacity = 64"

datatype health_event_kind =
    KChannelOverflow
  | KChannelStaleDrop
  | KChannelDeadlineMiss
  | KBackpressureHighWatermark
  | KTaskReject
  | KSchedulerReject

fun health_kind_to_string :: "health_event_kind \<Rightarrow> string" where
  "health_kind_to_string KChannelOverflow = ''channel_overflow''"
| "health_kind_to_string KChannelStaleDrop = ''channel_stale_drop''"
| "health_kind_to_string KChannelDeadlineMiss = ''channel_deadline_miss''"
| "health_kind_to_string KBackpressureHighWatermark = ''backpressure_high_watermark''"
| "health_kind_to_string KTaskReject = ''task_reject''"
| "health_kind_to_string KSchedulerReject = ''scheduler_reject''"

record health_event =
  he_kind :: health_event_kind
  he_source :: string
  he_component_id :: string
  he_lane :: string
  he_channel_id :: string
  he_edge_id :: string
  he_policy :: string
  he_reason :: string
  he_sequence :: nat
  he_depth :: nat
  he_capacity :: nat
  he_occurrence_count :: nat
  he_attributes :: "(string, string) smap"
  he_observed_at :: int

text \<open>A default-constructed event; \<open>sink_emit\<close> overwrites the observation time before storing it.\<close>

definition default_health_event :: health_event where
  "default_health_event =
     \<lparr>he_kind = KChannelOverflow, he_source = [], he_component_id = [], he_lane = [], he_channel_id = [],
      he_edge_id = [], he_policy = [], he_reason = [], he_sequence = 0, he_depth = 0, he_capacity = 0,
      he_occurrence_count = 1, he_attributes = [], he_observed_at = 0\<rparr>"

record health_sink =
  sink_capacity :: nat
  sink_enabled :: bool
  sink_events :: "health_event list"
  sink_dropped_count :: nat
  sink_coalesced_count :: nat

definition make_health_sink :: "nat \<Rightarrow> bool \<Rightarrow> health_sink" where
  "make_health_sink cap en =
     \<lparr>sink_capacity = cap, sink_enabled = en, sink_events = [], sink_dropped_count = 0,
      sink_coalesced_count = 0\<rparr>"

definition set_enabled :: "bool \<Rightarrow> health_sink \<Rightarrow> health_sink" where
  "set_enabled b s = s\<lparr>sink_enabled := b\<rparr>"

definition same_coalescing_key :: "health_event \<Rightarrow> health_event \<Rightarrow> bool" where
  "same_coalescing_key l r \<longleftrightarrow>
     he_kind l = he_kind r \<and> he_source l = he_source r \<and> he_component_id l = he_component_id r \<and>
     he_lane l = he_lane r \<and> he_channel_id l = he_channel_id r \<and> he_edge_id l = he_edge_id r \<and>
     he_policy l = he_policy r"

text \<open>The loop over the retained events: the first one with the same key absorbs the new event.\<close>

fun coalesce :: "health_event \<Rightarrow> health_event list \<Rightarrow> health_event list option" where
  "coalesce ev [] = None"
| "coalesce ev (x # xs) =
     (if same_coalescing_key x ev
      then Some (x\<lparr>he_occurrence_count := he_occurrence_count x + he_occurrence_count ev,
              he_sequence := he_sequence ev, he_depth := he_depth ev, he_capacity := he_capacity ev,
              he_reason := he_reason ev, he_attributes := he_attributes ev,
              he_observed_at := he_observed_at ev\<rparr> # xs)
      else map_option ((#) x) (coalesce ev xs))"

definition sink_emit :: "bool \<Rightarrow> int \<Rightarrow> health_event \<Rightarrow> health_sink \<Rightarrow> health_sink" where
  "sink_emit owns_lock now ev s =
     (if \<not> sink_enabled s then s
      else if sink_capacity s = 0 then s\<lparr>sink_dropped_count := sink_dropped_count s + 1\<rparr>
      else if \<not> owns_lock then s\<lparr>sink_dropped_count := sink_dropped_count s + 1\<rparr>
      else
        let ev' = ev\<lparr>he_observed_at := now,
              he_occurrence_count := (if he_occurrence_count ev = 0 then 1 else he_occurrence_count ev)\<rparr> in
        case coalesce ev' (sink_events s) of
          Some evs \<Rightarrow> s\<lparr>sink_events := evs, sink_coalesced_count := sink_coalesced_count s + 1\<rparr>
        | None \<Rightarrow>
            let s' = (if length (sink_events s) \<ge> sink_capacity s
                      then s\<lparr>sink_events := tl (sink_events s), sink_dropped_count := sink_dropped_count s + 1\<rparr>
                      else s)
            in s'\<lparr>sink_events := sink_events s' @ [ev']\<rparr>)"

fun emit_all :: "(bool \<times> int \<times> health_event) list \<Rightarrow> health_sink \<Rightarrow> health_sink" where
  "emit_all [] s = s"
| "emit_all ((lk, now, ev) # es) s = emit_all es (sink_emit lk now ev s)"

definition add_nonempty :: "string \<Rightarrow> string \<Rightarrow> (string, string) smap \<Rightarrow> (string, string) smap" where
  "add_nonempty k v m = (if v \<noteq> [] then smap_put k v m else m)"

definition health_event_attributes :: "health_event \<Rightarrow> (string, string) smap" where
  "health_event_attributes ev =
     (let m0 = smap_put ''kind'' (health_kind_to_string (he_kind ev)) (he_attributes ev);
          m1 = add_nonempty ''reason'' (he_reason ev) (add_nonempty ''policy'' (he_policy ev)
                (add_nonempty ''edge_id'' (he_edge_id ev) (add_nonempty ''channel_id'' (he_channel_id ev)
                  (add_nonempty ''lane'' (he_lane ev) (add_nonempty ''component_id'' (he_component_id ev)
                    (add_nonempty ''source'' (he_source ev) m0))))));
          m2 = (if he_sequence ev \<noteq> 0 then smap_put ''sequence'' (nat_to_string (he_sequence ev)) m1 else m1)
      in smap_put ''occurrence_count'' (nat_to_string (he_occurrence_count ev))
           (smap_put ''capacity'' (nat_to_string (he_capacity ev))
             (smap_put ''depth'' (nat_to_string (he_depth ev)) m2)))"

section \<open>Invariant\<close>

definition sink_inv :: "health_sink \<Rightarrow> bool" where
  "sink_inv s \<longleftrightarrow>
     length (sink_events s) \<le> sink_capacity s \<and>
     (\<forall>i j. i < j \<and> j < length (sink_events s) \<longrightarrow>
        \<not> same_coalescing_key (sink_events s ! i) (sink_events s ! j)) \<and>
     (\<forall>ev \<in> set (sink_events s). he_occurrence_count ev \<ge> 1)"

text \<open>The coalescing key as a value: two events coalesce when their keys are equal.\<close>

definition coalescing_key ::
    "health_event \<Rightarrow> health_event_kind \<times> string \<times> string \<times> string \<times> string \<times> string \<times> string" where
  "coalescing_key ev =
     (he_kind ev, he_source ev, he_component_id ev, he_lane ev, he_channel_id ev, he_edge_id ev, he_policy ev)"

lemma same_key_iff: "same_coalescing_key l r \<longleftrightarrow> coalescing_key l = coalescing_key r"
  by (simp add: same_coalescing_key_def coalescing_key_def)

lemma coalesce_None_iff: "coalesce ev evs = None \<longleftrightarrow> coalescing_key ev \<notin> coalescing_key ` set evs"
  by (induction evs) (auto simp: same_key_iff)

lemma coalesce_Some_keys: "coalesce ev evs = Some evs' \<Longrightarrow> map coalescing_key evs' = map coalescing_key evs"
proof (induction evs arbitrary: evs')
  case (Cons x xs)
  then show ?case by (auto simp: coalescing_key_def split: if_splits)
qed simp

lemma coalesce_Some_length: "coalesce ev evs = Some evs' \<Longrightarrow> length evs' = length evs"
  by (drule coalesce_Some_keys) (metis length_map)

lemma coalesce_Some_total:
  "coalesce ev evs = Some evs' \<Longrightarrow>
   (\<Sum>x\<leftarrow>evs'. he_occurrence_count x) = (\<Sum>x\<leftarrow>evs. he_occurrence_count x) + he_occurrence_count ev"
  by (induction evs arbitrary: evs') (auto split: if_splits)

lemma coalesce_Some_pos:
  "coalesce ev evs = Some evs' \<Longrightarrow> \<forall>x \<in> set evs. he_occurrence_count x \<ge> 1 \<Longrightarrow>
   \<forall>x \<in> set evs'. he_occurrence_count x \<ge> 1"
  by (induction evs arbitrary: evs') (auto split: if_splits)

lemma sink_inv_keys:
  "sink_inv s \<longleftrightarrow> length (sink_events s) \<le> sink_capacity s \<and> distinct (map coalescing_key (sink_events s)) \<and>
     (\<forall>ev \<in> set (sink_events s). he_occurrence_count ev \<ge> 1)"
  by (auto simp: sink_inv_def same_key_iff distinct_conv_nth nth_eq_iff_index_eq) (metis linorder_neqE_nat)+

lemma sink_emit_frame [simp]:
  "sink_capacity (sink_emit lk now ev s) = sink_capacity s"
  "sink_enabled (sink_emit lk now ev s) = sink_enabled s"
  by (auto simp: sink_emit_def Let_def split: option.split)

lemma sink_emit_inv: "sink_inv s \<Longrightarrow> sink_inv (sink_emit lk now ev s)"
proof -
  assume inv: "sink_inv s"
  let ?ev = "ev\<lparr>he_observed_at := now,
    he_occurrence_count := (if he_occurrence_count ev = 0 then 1 else he_occurrence_count ev)\<rparr>"
  show ?thesis
  proof (cases "sink_enabled s \<and> sink_capacity s \<noteq> 0 \<and> lk")
    case False
    with inv show ?thesis by (auto simp: sink_emit_def sink_inv_keys)
  next
    case go: True
    show ?thesis
    proof (cases "coalesce ?ev (sink_events s)")
      case (Some evs)
      with go inv show ?thesis
        by (auto simp: sink_emit_def Let_def sink_inv_keys coalesce_Some_keys coalesce_Some_length
            dest: coalesce_Some_pos)
    next
      case None
      then have "coalescing_key ?ev \<notin> coalescing_key ` set (sink_events s)" by (simp add: coalesce_None_iff)
      with go inv None show ?thesis
        by (cases "sink_events s") (auto simp: sink_emit_def Let_def sink_inv_keys)
    qed
  qed
qed

text \<open>Every emit of an enabled sink is retained, coalesced or counted as dropped.\<close>

lemma sink_emit_count:
  "sink_enabled s \<Longrightarrow>
   length (sink_events (sink_emit lk now ev s)) + sink_coalesced_count (sink_emit lk now ev s) +
     sink_dropped_count (sink_emit lk now ev s) =
   Suc (length (sink_events s) + sink_coalesced_count s + sink_dropped_count s)"
  by (cases "sink_events s") (auto simp: sink_emit_def Let_def dest: coalesce_Some_length split: option.split)

lemma emit_all_inv: "sink_inv s \<Longrightarrow> sink_inv (emit_all es s)"
  by (induction es s rule: emit_all.induct) (auto intro: sink_emit_inv)

lemma emit_all_frame [simp]:
  "sink_capacity (emit_all es s) = sink_capacity s" "sink_enabled (emit_all es s) = sink_enabled s"
  by (induction es s rule: emit_all.induct) simp_all

lemma emit_all_count:
  "sink_enabled s \<Longrightarrow>
   length (sink_events (emit_all es s)) + sink_coalesced_count (emit_all es s) + sink_dropped_count (emit_all es s) =
   length es + length (sink_events s) + sink_coalesced_count s + sink_dropped_count s"
proof (induction es s rule: emit_all.induct)
  case (2 lk now ev es s)
  then show ?case using sink_emit_count [of s lk now ev] by simp
qed simp

text \<open>
  A health sink is bounded and loses nothing silently: after any sequence of emits (whatever the lock
  contention), it retains at most its capacity, no two retained events have the same coalescing key, each
  stands for at least one occurrence, and every emit of an enabled sink is retained as an event, counted as
  coalesced or counted as dropped.
\<close>

lemma health_sink_bounded:
  "let s = emit_all es (make_health_sink cap en) in
   length (sink_events s) \<le> cap \<and>
   distinct (map coalescing_key (sink_events s)) \<and>
   (\<forall>ev \<in> set (sink_events s). he_occurrence_count ev \<ge> 1) \<and>
   (en \<longrightarrow> length (sink_events s) + sink_coalesced_count s + sink_dropped_count s = length es)"
proof -
  have "sink_inv (make_health_sink cap en)" by (simp add: sink_inv_def make_health_sink_def)
  then have "sink_inv (emit_all es (make_health_sink cap en))" by (rule emit_all_inv)
  moreover have "en \<Longrightarrow> sink_enabled (make_health_sink cap en)" by (simp add: make_health_sink_def)
  ultimately show ?thesis
    using emit_all_count [of "make_health_sink cap en" es]
    by (auto simp: Let_def sink_inv_keys make_health_sink_def)
qed

lemma health_sink_bounded_witness:
  "let s = emit_all [(True, 1, default_health_event), (True, 2, default_health_event),
       (True, 3, default_health_event\<lparr>he_kind := KTaskReject\<rparr>)] (make_health_sink 1 True) in
   length (sink_events s) \<le> 1 \<and> sink_coalesced_count s = 1 \<and> sink_dropped_count s = 1"
proof -
  let ?es = "[(True, 1, default_health_event), (True, 2, default_health_event),
       (True, 3, default_health_event\<lparr>he_kind := KTaskReject\<rparr>)]"
  from health_sink_bounded [of ?es 1 True]
  show ?thesis
    by (simp add: make_health_sink_def sink_emit_def same_coalescing_key_def default_health_event_def Let_def)
qed

end
