(* ===== verification/Channel_State.thy ===== *)
theory Channel_State
  imports Graph_Spec Health
begin

text \<open>
  One runtime channel: the \<^verbatim>\<open>ChannelState\<close> of \<^verbatim>\<open>include/topoexec/runtime/channel.hpp\<close> and the per-channel
  helpers of \<^verbatim>\<open>src/channel.cpp\<close> (policy parsing, payload preparation, preflight, publication, consumption,
  snapshots, expiry, deadline and health accounting, de-duplication cursors). \<open>bus_ctx\<close> holds the members
  of \<^verbatim>\<open>RuntimeChannelBus\<close> that these helpers touch besides the channel itself: the health sink pointer, the
  pending health events and the update counter. All of them run under the bus mutex, so each is one atomic
  function on the channel and the context. Clock readings are arguments in nanoseconds; the configured
  lifespan and deadline are in milliseconds. The two \<^verbatim>\<open>double\<close> millisecond metrics hold the exact nanosecond
  count they are computed from.
\<close>

section \<open>Configuration\<close>

datatype channel_type = KLatestOnly | KEveryMessage | KLatchedSnapshot | KPreviousTick | KBarrier

datatype drop_policy = KOverwrite | KDropOldest | KDropNewest | KBlockProducer | KFailFast

datatype copy_policy = KCopy | KSharedView | KLoanedView | KMoveOnly

record channel_config =
  cfg_id :: string
  cfg_type :: channel_type
  cfg_capacity :: nat
  cfg_drop_policy :: drop_policy
  cfg_emit_health_events :: bool
  cfg_lifespan :: int
  cfg_deadline :: int
  cfg_timestamp_domain :: timestamp_domain
  cfg_copy_policy :: copy_policy
  cfg_readers :: string

definition channel_type_from_policy :: "edge_policy_spec \<Rightarrow> channel_type" where
  "channel_type_from_policy p =
     (if ep_mode p = ''latest'' then KLatestOnly
      else if ep_mode p = ''latched'' then KLatchedSnapshot
      else if ep_mode p = ''previous_tick'' then KPreviousTick
      else if ep_mode p = ''barrier'' then KBarrier
      else KEveryMessage)"

definition drop_policy_from_string :: "string \<Rightarrow> drop_policy" where
  "drop_policy_from_string v =
     (if v = ''overwrite'' then KOverwrite
      else if v = ''drop_oldest'' then KDropOldest
      else if v = ''drop_newest'' then KDropNewest
      else if v = ''block'' then KBlockProducer
      else KFailFast)"

fun drop_policy_name :: "drop_policy \<Rightarrow> string" where
  "drop_policy_name KOverwrite = ''overwrite''"
| "drop_policy_name KDropOldest = ''drop_oldest''"
| "drop_policy_name KDropNewest = ''drop_newest''"
| "drop_policy_name KBlockProducer = ''block''"
| "drop_policy_name KFailFast = ''fail_fast''"

definition copy_policy_from_string :: "string \<Rightarrow> copy_policy" where
  "copy_policy_from_string v =
     (if v = ''shared_view'' then KSharedView
      else if v = ''loaned_view'' then KLoanedView
      else if v = ''move_only'' then KMoveOnly
      else KCopy)"

definition timestamp_domain_from_string :: "string \<Rightarrow> timestamp_domain" where
  "timestamp_domain_from_string v =
     (case parse_timestamp_domain_value v of Some d \<Rightarrow> d | None \<Rightarrow> KSteady)"

definition is_latest_style :: "channel_type \<Rightarrow> bool" where
  "is_latest_style t \<longleftrightarrow> t = KLatestOnly \<or> t = KLatchedSnapshot \<or> t = KPreviousTick"

definition is_multi_reader :: "string \<Rightarrow> bool" where
  "is_multi_reader r \<longleftrightarrow> r = ''multi'' \<or> r = ''multiple''"

section \<open>Messages, metrics and channel state\<close>

record channel_message =
  msg_channel_id :: string
  msg_payload :: payload_ptr
  msg_published_at :: int
  msg_received_at :: int
  msg_sequence :: nat
  msg_deadline_missed :: bool
  msg_event_timestamp :: "event_timestamp option"
  msg_metadata :: invocation_metadata

record channel_metrics =
  met_channel_id :: string
  published_count :: nat
  delivered_count :: nat
  drop_count :: nat
  deadline_miss_count :: nat
  stale_drop_count :: nat
  reject_count :: nat
  overwrite_count :: nat
  health_event_count :: nat
  payload_copy_count :: nat
  copy_fallback_count :: nat
  message_age_ns :: int
  delivery_latency_ns :: int
  depth :: nat
  max_depth :: nat
  degradation_reason :: string

definition zero_metrics :: "string \<Rightarrow> channel_metrics" where
  "zero_metrics cid =
     \<lparr>met_channel_id = cid, published_count = 0, delivered_count = 0, drop_count = 0, deadline_miss_count = 0,
      stale_drop_count = 0, reject_count = 0, overwrite_count = 0, health_event_count = 0,
      payload_copy_count = 0, copy_fallback_count = 0, message_age_ns = 0, delivery_latency_ns = 0,
      depth = 0, max_depth = 0, degradation_reason = []\<rparr>"

record channel_state =
  config :: channel_config
  from_ep :: string
  to_ep :: string
  next_sequence :: nat
  latest :: "channel_message option"
  pending_previous_tick :: "channel_message option"
  queue :: "channel_message list"
  delivered_latest_sequences :: "(string, nat) smap"
  delivered_queue_sequences :: "(string, nat) smap"
  metrics :: channel_metrics
  high_watermark_reported :: bool

record bus_ctx =
  ctx_sink :: "nat option"
  ctx_pending :: "(nat option \<times> health_event) list"
  ctx_updates :: nat

abbreviation ch_latest_style :: "channel_state \<Rightarrow> bool" where
  "ch_latest_style st \<equiv> is_latest_style (cfg_type (config st))"

abbreviation ch_multi :: "channel_state \<Rightarrow> bool" where
  "ch_multi st \<equiv> is_multi_reader (cfg_readers (config st))"

abbreviation ch_capacity :: "channel_state \<Rightarrow> nat" where
  "ch_capacity st \<equiv> cfg_capacity (config st)"

definition upd_metrics :: "(channel_metrics \<Rightarrow> channel_metrics) \<Rightarrow> channel_state \<Rightarrow> channel_state" where
  "upd_metrics f st = st\<lparr>metrics := f (metrics st)\<rparr>"

text \<open>The channel the bus constructor builds for one edge.\<close>

definition channel_state_for_edge :: "edge_spec \<Rightarrow> channel_state" where
  "channel_state_for_edge spec =
     (let p = edge_policy spec in
      \<lparr>config = \<lparr>cfg_id = edge_id spec, cfg_type = channel_type_from_policy p,
         cfg_capacity = nat (max 1 (ep_capacity p)), cfg_drop_policy = drop_policy_from_string (ep_overflow p),
         cfg_emit_health_events = ep_emit_health_events p, cfg_lifespan = ep_lifespan_ms p,
         cfg_deadline = ep_deadline_ms p, cfg_timestamp_domain = timestamp_domain_from_string (ep_timestamp_domain p),
         cfg_copy_policy = copy_policy_from_string (ep_copy_policy p), cfg_readers = ep_readers p\<rparr>,
       from_ep = edge_from spec, to_ep = edge_to spec, next_sequence = 1, latest = None,
       pending_previous_tick = None, queue = [], delivered_latest_sequences = [],
       delivered_queue_sequences = [], metrics = zero_metrics (edge_id spec), high_watermark_reported = False\<rparr>)"

section \<open>Metadata\<close>

definition metadata_id :: "string \<Rightarrow> nat \<Rightarrow> string" where
  "metadata_id cid sq = cid @ ''#'' @ nat_to_string sq"

definition metadata_for_source_endpoint :: "invocation_metadata \<Rightarrow> string \<Rightarrow> invocation_metadata" where
  "metadata_for_source_endpoint md ep =
     (let md1 = (if source_component md = [] then md\<lparr>source_component := component_id_from_endpoint ep\<rparr> else md)
      in if source_port md1 = [] then md1\<lparr>source_port := port_name_from_endpoint ep\<rparr> else md1)"

definition finalize_message_metadata :: "invocation_metadata \<Rightarrow> string \<Rightarrow> nat \<Rightarrow> string \<Rightarrow> invocation_metadata" where
  "finalize_message_metadata md cid sq ep =
     (let md0 = metadata_for_source_endpoint md ep;
          mid = metadata_id cid sq;
          md1 = (if correlation_id md0 = [] then md0\<lparr>correlation_id := mid\<rparr> else md0);
          md2 = md1\<lparr>causation_id := mid\<rparr>
      in if transaction_id md2 = [] then md2\<lparr>transaction_id := correlation_id md2\<rparr> else md2)"

definition metadata_trace_attributes ::
    "(string, string) smap \<Rightarrow> invocation_metadata \<Rightarrow> (string, string) smap" where
  "metadata_trace_attributes m md =
     (let m1 = add_nonempty ''correlation_id'' (correlation_id md) m;
          m2 = add_nonempty ''causation_id'' (causation_id md) m1;
          m3 = (if epoch_id md \<noteq> 0 then smap_put ''epoch_id'' (nat_to_string (epoch_id md)) m2 else m2);
          m4 = add_nonempty ''transaction_id'' (transaction_id md) m3;
          m5 = add_nonempty ''source_component'' (source_component md) m4;
          m6 = add_nonempty ''source_port'' (source_port md) m5
      in add_nonempty ''trigger_kind'' (trigger_kind md) m6)"

section \<open>De-duplication cursors\<close>

definition kMaxTrackedReaders :: nat where
  "kMaxTrackedReaders = 4096"

definition prune_latest_dedup :: "(string, nat) smap \<Rightarrow> nat \<Rightarrow> (string, nat) smap" where
  "prune_latest_dedup delivered latest_sequence = filter (\<lambda>(k, v). \<not> v \<noteq> latest_sequence) delivered"

definition prune_queue_dedup :: "(string, nat) smap \<Rightarrow> nat \<Rightarrow> (string, nat) smap" where
  "prune_queue_dedup delivered min_retained =
     filter (\<lambda>(k, v). \<not> (min_retained = 0 \<or> v < min_retained)) delivered"

function enforce_reader_cap :: "(string, nat) smap \<Rightarrow> (string, nat) smap" where
  "enforce_reader_cap d = (if length d > kMaxTrackedReaders then enforce_reader_cap (tl d) else d)"
  by pat_completeness auto
termination
  by (relation "measure length") auto

declare enforce_reader_cap.simps [simp del]

section \<open>Health events of a channel\<close>

definition emit_channel_health_event ::
    "channel_state \<Rightarrow> health_event_kind \<Rightarrow> nat \<Rightarrow> nat \<Rightarrow> string \<Rightarrow> (string, string) smap \<Rightarrow> bus_ctx \<Rightarrow> bus_ctx" where
  "emit_channel_health_event st kind sq dep why attrs ctx =
     (if \<not> cfg_emit_health_events (config st) \<or> ctx_sink ctx = None then ctx
      else ctx\<lparr>ctx_pending := ctx_pending ctx @
        [(ctx_sink ctx, default_health_event\<lparr>he_kind := kind, he_source := ''channel'',
           he_channel_id := cfg_id (config st), he_edge_id := cfg_id (config st),
           he_policy := drop_policy_name (cfg_drop_policy (config st)), he_reason := why,
           he_sequence := sq, he_depth := dep, he_capacity := cfg_capacity (config st),
           he_attributes := smap_put ''to'' (to_ep st) (smap_put ''from'' (from_ep st) attrs)\<rparr>)]\<rparr>)"

definition maybe_emit_high_watermark ::
    "channel_message \<Rightarrow> channel_state \<Rightarrow> bus_ctx \<Rightarrow> channel_state \<times> bus_ctx" where
  "maybe_emit_high_watermark m st ctx =
     (if high_watermark_reported st \<or> ch_latest_style st \<or> ch_capacity st = 0 \<or> depth (metrics st) < ch_capacity st
      then (st, ctx)
      else let st' = st\<lparr>high_watermark_reported := True\<rparr> in
        (st', emit_channel_health_event st' KBackpressureHighWatermark (msg_sequence m) (depth (metrics st'))
                ''channel depth reached capacity'' [] ctx))"

definition maybe_rearm_high_watermark :: "channel_state \<Rightarrow> channel_state" where
  "maybe_rearm_high_watermark st =
     (if depth (metrics st) < ch_capacity st then st\<lparr>high_watermark_reported := False\<rparr> else st)"

definition message_expired :: "channel_state \<Rightarrow> channel_message \<Rightarrow> int \<Rightarrow> bool" where
  "message_expired st m now \<longleftrightarrow>
     cfg_lifespan (config st) > 0 \<and> now - msg_published_at m > cfg_lifespan (config st) * 1000000"

definition mark_stale_drop :: "channel_message \<Rightarrow> channel_state \<times> bus_ctx \<Rightarrow> channel_state \<times> bus_ctx" where
  "mark_stale_drop m sc =
     (let st = upd_metrics (\<lambda>x. x\<lparr>drop_count := drop_count x + 1, stale_drop_count := stale_drop_count x + 1,
                 health_event_count := health_event_count x + 1, degradation_reason := ''stale message expired''\<rparr>) (fst sc)
      in (st, emit_channel_health_event st KChannelStaleDrop (msg_sequence m) (depth (metrics st))
               ''stale message expired'' [(''lifespan_ms'', int_to_string (cfg_lifespan (config st)))] (snd sc)))"

definition mark_delivery_metrics ::
    "int \<Rightarrow> channel_message \<Rightarrow> channel_state \<times> bus_ctx \<Rightarrow> channel_message \<times> channel_state \<times> bus_ctx" where
  "mark_delivery_metrics now m sc =
     (let age = now - msg_published_at m;
          st = upd_metrics (\<lambda>x. x\<lparr>message_age_ns := age, delivery_latency_ns := now - msg_received_at m\<rparr>) (fst sc)
      in if cfg_deadline (config st) > 0 \<and> age > cfg_deadline (config st) * 1000000
         then let st' = upd_metrics (\<lambda>x. x\<lparr>deadline_miss_count := deadline_miss_count x + 1,
                          health_event_count := health_event_count x + 1,
                          degradation_reason := ''deadline missed''\<rparr>) st
              in (m\<lparr>msg_deadline_missed := True\<rparr>, st',
                  emit_channel_health_event st' KChannelDeadlineMiss (msg_sequence m) (depth (metrics st'))
                    ''deadline missed''
                    [(''age_ms'', ms_to_string (message_age_ns (metrics st'))),
                     (''deadline_ms'', int_to_string (cfg_deadline (config st')))] (snd sc))
         else (m, st, snd sc))"

section \<open>Publication\<close>

definition large_payload_copy_reason :: "runtime_payload \<Rightarrow> string" where
  "large_payload_copy_reason p =
     (if \<not> is_large_payload p then []
      else ''cannot copy large payload schema '' @ schema p @ ''; use shared_view or loaned_view'')"

text \<open>Both payload checks refuse a large payload on a copying channel and count the refusal.\<close>

definition refuse_large_copy :: "string \<Rightarrow> channel_state \<Rightarrow> channel_state" where
  "refuse_large_copy why st =
     upd_metrics (\<lambda>x. x\<lparr>copy_fallback_count := copy_fallback_count x + 1, degradation_reason := why\<rparr>) st"

text \<open>
  Returns the result, the payload to store, whether it was copied, and the channel. A payload whose copy is
  not refused is a text payload, so \<^const>\<open>copy_text_payload\<close> does not throw on the copying path.
\<close>

definition prepare_payload_for_state ::
    "runtime_payload \<Rightarrow> channel_state \<Rightarrow> publish_result \<times> payload_ptr \<times> bool \<times> channel_state" where
  "prepare_payload_for_state src st =
     (if cfg_copy_policy (config st) = KCopy
      then let why = large_payload_copy_reason src in
        if why \<noteq> [] then (reject why, None, False, refuse_large_copy why st)
        else (accept, (case copy_text_payload src of Inr q \<Rightarrow> make_shared_payload q | Inl e \<Rightarrow> None), True, st)
      else (accept, Some src, False, st))"

definition preflight_payload_for_state :: "runtime_payload \<Rightarrow> channel_state \<Rightarrow> publish_result \<times> channel_state" where
  "preflight_payload_for_state p st =
     (if cfg_copy_policy (config st) \<noteq> KCopy then (accept, st)
      else let why = large_payload_copy_reason p in
        if why \<noteq> [] then (reject why, refuse_large_copy why st) else (accept, st))"

text \<open>
  The overflow branch that preflight and publication share: \<open>None\<close> when the policy makes room by evicting,
  otherwise the rejection with its accounting. \<open>sq\<close> is the sequence number the event reports.
\<close>

definition overflow_rejection ::
    "nat \<Rightarrow> channel_state \<Rightarrow> bus_ctx \<Rightarrow> (publish_result \<times> channel_state \<times> bus_ctx) option" where
  "overflow_rejection sq st ctx =
     (let go = (\<lambda>dropped why.
          let st' = upd_metrics (\<lambda>x. x\<lparr>drop_count := drop_count x + (if dropped then 1 else 0),
                      reject_count := reject_count x + 1, health_event_count := health_event_count x + 1\<rparr>) st
          in Some (reject why, st', emit_channel_health_event st' KChannelOverflow sq (length (queue st')) why [] ctx))
      in case cfg_drop_policy (config st) of
           KDropNewest \<Rightarrow> go True ''dropped newest payload''
         | KBlockProducer \<Rightarrow> go False ''would block producer''
         | KFailFast \<Rightarrow> go True ''channel capacity exceeded''
         | KOverwrite \<Rightarrow> None
         | KDropOldest \<Rightarrow> None)"

definition preflight_publish_to_state ::
    "nat \<Rightarrow> channel_state \<Rightarrow> bus_ctx \<Rightarrow> publish_result \<times> channel_state \<times> bus_ctx" where
  "preflight_publish_to_state planned st ctx =
     (if ch_latest_style st \<or> length (queue st) + planned < ch_capacity st then (accept, st, ctx)
      else case overflow_rejection (next_sequence st) st ctx of Some r \<Rightarrow> r | None \<Rightarrow> (accept, st, ctx))"

text \<open>The eviction loop after a push.\<close>

function evict_oldest :: "nat \<Rightarrow> channel_state \<Rightarrow> bus_ctx \<Rightarrow> channel_state \<times> bus_ctx" where
  "evict_oldest sq st ctx =
     (if length (queue st) > ch_capacity st
      then let st' = upd_metrics (\<lambda>x. x\<lparr>overwrite_count := overwrite_count x + 1,
                       health_event_count := health_event_count x + 1\<rparr>) (st\<lparr>queue := tl (queue st)\<rparr>)
           in evict_oldest sq st' (emit_channel_health_event st' KChannelOverflow sq (length (queue st'))
                ''oldest queued payload dropped'' [] ctx)
      else (st, ctx))"
  by pat_completeness auto
termination
  by (relation "measure (\<lambda>(sq, st, ctx). length (queue st))") (auto simp: upd_metrics_def)

declare evict_oldest.simps [simp del]

definition set_depth :: "nat \<Rightarrow> channel_state \<Rightarrow> channel_state" where
  "set_depth d st = upd_metrics (\<lambda>x. x\<lparr>depth := d, max_depth := max (max_depth x) d\<rparr>) st"

definition accept_previous_tick ::
    "channel_message \<Rightarrow> channel_state \<Rightarrow> bus_ctx \<Rightarrow> channel_state \<times> bus_ctx" where
  "accept_previous_tick m st ctx =
     (let d = (if latest st \<noteq> None then 1 else 0) + 1;
          (st1, ctx1) =
            (if pending_previous_tick st \<noteq> None
             then let s = upd_metrics (\<lambda>x. x\<lparr>overwrite_count := overwrite_count x + 1,
                        health_event_count := health_event_count x + 1\<rparr>) st
                  in (s, emit_channel_health_event s KChannelOverflow (msg_sequence m) d
                        ''previous tick pending value overwritten'' [] ctx)
             else (st, ctx));
          st2 = upd_metrics (\<lambda>x. x\<lparr>published_count := published_count x + 1\<rparr>) (st1\<lparr>pending_previous_tick := Some m\<rparr>)
      in (set_depth d st2, ctx1))"

definition accept_latest ::
    "channel_message \<Rightarrow> channel_state \<Rightarrow> bus_ctx \<Rightarrow> channel_state \<times> bus_ctx" where
  "accept_latest m st ctx =
     (let (st1, ctx1) =
            (if cfg_type (config st) = KLatestOnly \<and> depth (metrics st) > 0
             then let s = upd_metrics (\<lambda>x. x\<lparr>overwrite_count := overwrite_count x + 1,
                        health_event_count := health_event_count x + 1\<rparr>) st
                  in (s, emit_channel_health_event s KChannelOverflow (msg_sequence m) 1
                        ''latest value overwritten'' [] ctx)
             else (st, ctx))
      in (st1\<lparr>queue := []\<rparr>, ctx1))"

definition accept_message ::
    "channel_message \<Rightarrow> channel_state \<Rightarrow> bus_ctx \<Rightarrow> publish_result \<times> channel_state \<times> bus_ctx" where
  "accept_message m st ctx =
     (if cfg_type (config st) = KPreviousTick
      then let (st', ctx') = accept_previous_tick m st ctx in (accept, st', ctx')
      else
        let st0 = st\<lparr>latest := Some m\<rparr>;
            (st1, ctx1) = (if ch_latest_style st0 then accept_latest m st0 ctx
                           else evict_oldest (msg_sequence m) (st0\<lparr>queue := queue st0 @ [m]\<rparr>) ctx);
            st2 = upd_metrics (\<lambda>x. x\<lparr>published_count := published_count x + 1\<rparr>) st1;
            st3 = set_depth (if ch_latest_style st2 then (if latest st2 \<noteq> None then 1 else 0) else length (queue st2)) st2;
            (st4, ctx2) = maybe_emit_high_watermark m st3 ctx1
        in (accept, st4, ctx2\<lparr>ctx_updates := ctx_updates ctx2 + 1\<rparr>))"

definition new_message ::
    "int \<Rightarrow> payload_ptr \<Rightarrow> event_timestamp option \<Rightarrow> invocation_metadata \<Rightarrow> channel_state \<Rightarrow> channel_message" where
  "new_message now p ts md st =
     \<lparr>msg_channel_id = cfg_id (config st), msg_payload = p, msg_published_at = now, msg_received_at = now,
      msg_sequence = next_sequence st, msg_deadline_missed = False, msg_event_timestamp = ts,
      msg_metadata = finalize_message_metadata md (cfg_id (config st)) (next_sequence st) (from_ep st)\<rparr>"

definition publish_to_state ::
    "int \<Rightarrow> payload_ptr \<Rightarrow> event_timestamp option \<Rightarrow> bool \<Rightarrow> invocation_metadata \<Rightarrow> channel_state \<Rightarrow> bus_ctx \<Rightarrow>
     publish_result \<times> channel_state \<times> bus_ctx" where
  "publish_to_state now p ts copied md st ctx =
     (let m = new_message now p ts md st;
          st1 = st\<lparr>next_sequence := next_sequence st + 1\<rparr>;
          st2 = (if copied then upd_metrics (\<lambda>x. x\<lparr>payload_copy_count := payload_copy_count x + 1\<rparr>) st1 else st1)
      in case (if \<not> ch_latest_style st2 \<and> length (queue st2) \<ge> ch_capacity st2
               then overflow_rejection (msg_sequence m) st2 ctx else None) of
           Some r \<Rightarrow> r
         | None \<Rightarrow> accept_message m st2 ctx)"

text \<open>
  The two bodies the publication methods of the bus share: the preflight of one channel (payload, then
  capacity) and the commit on one channel (payload preparation, then publication).
\<close>

definition preflight_channel ::
    "runtime_payload \<Rightarrow> nat \<Rightarrow> channel_state \<Rightarrow> bus_ctx \<Rightarrow> publish_result \<times> channel_state \<times> bus_ctx" where
  "preflight_channel p planned st ctx =
     (let (r, st1) = preflight_payload_for_state p st in
      if \<not> accepted r then (r, st1, ctx) else preflight_publish_to_state planned st1 ctx)"

definition commit_channel ::
    "int \<Rightarrow> runtime_payload \<Rightarrow> event_timestamp option \<Rightarrow> invocation_metadata \<Rightarrow> channel_state \<Rightarrow> bus_ctx \<Rightarrow>
     publish_result \<times> channel_state \<times> bus_ctx" where
  "commit_channel now p ts md st ctx =
     (let (r, q, copied, st1) = prepare_payload_for_state p st in
      if \<not> accepted r then (r, st1, ctx) else publish_to_state now q ts copied md st1 ctx)"

section \<open>Consumption\<close>

definition consume_latest_from_state ::
    "int \<Rightarrow> string \<Rightarrow> channel_state \<Rightarrow> bus_ctx \<Rightarrow> channel_message option \<times> channel_state \<times> bus_ctx" where
  "consume_latest_from_state now reader st ctx =
     (case latest st of
        None \<Rightarrow> (None, st, ctx)
      | Some m \<Rightarrow>
          if message_expired st m now
          then let (st1, ctx1) = mark_stale_drop m (st\<lparr>latest := None\<rparr>, ctx)
               in (None, upd_metrics (\<lambda>x. x\<lparr>depth := 0\<rparr>) st1, ctx1)
          else if map_of (delivered_latest_sequences st) reader = Some (msg_sequence m) then (None, st, ctx)
          else
            let d = smap_put reader (msg_sequence m) (delivered_latest_sequences st);
                d' = (if length d > kMaxTrackedReaders
                      then enforce_reader_cap (prune_latest_dedup d (msg_sequence m)) else d);
                st1 = upd_metrics (\<lambda>x. x\<lparr>delivered_count := delivered_count x + 1\<rparr>)
                        (st\<lparr>delivered_latest_sequences := d'\<rparr>);
                (m', st2, ctx2) = mark_delivery_metrics now m (st1, ctx)
            in (Some m', st2, ctx2))"

text \<open>The loop over the queued messages; \<open>out\<close> and \<open>kept\<close> are the code's \<^verbatim>\<open>messages\<close> and \<^verbatim>\<open>retained\<close>.\<close>

fun consume_loop ::
    "int \<Rightarrow> bool \<Rightarrow> nat \<Rightarrow> nat \<Rightarrow> string \<Rightarrow> channel_message list \<Rightarrow> channel_message list \<Rightarrow> channel_message list \<Rightarrow>
     channel_state \<times> bus_ctx \<Rightarrow> channel_message list \<times> channel_message list \<times> channel_state \<times> bus_ctx" where
  "consume_loop now multi cursor max_batch reader [] out kept sc = (out, kept, sc)"
| "consume_loop now multi cursor max_batch reader (m # ms) out kept sc =
     (if message_expired (fst sc) m now
      then consume_loop now multi cursor max_batch reader ms out kept (mark_stale_drop m sc)
      else if (multi \<and> msg_sequence m \<le> cursor) \<or> (max_batch \<noteq> 0 \<and> length out \<ge> max_batch)
      then consume_loop now multi cursor max_batch reader ms out (kept @ [m]) sc
      else let (m', st', ctx') = mark_delivery_metrics now m sc in
        if multi
        then consume_loop now multi cursor max_batch reader ms (out @ [m']) (kept @ [m])
               (st'\<lparr>delivered_queue_sequences :=
                  smap_put reader (msg_sequence m') (delivered_queue_sequences st')\<rparr>, ctx')
        else consume_loop now multi cursor max_batch reader ms (out @ [m']) kept (st', ctx'))"

definition consume_from_state ::
    "int \<Rightarrow> string \<Rightarrow> nat \<Rightarrow> channel_state \<Rightarrow> bus_ctx \<Rightarrow> channel_message list \<times> channel_state \<times> bus_ctx" where
  "consume_from_state now reader max_batch st ctx =
     (if cfg_type (config st) = KBarrier \<and> length (queue st) < ch_capacity st then ([], st, ctx)
      else
        let multi = ch_multi st;
            cursor = (if multi then smap_get 0 (delivered_queue_sequences st) reader else 0);
            (out, kept, st1, ctx1) = consume_loop now multi cursor max_batch reader (queue st) [] [] (st, ctx);
            st2 = upd_metrics (\<lambda>x. x\<lparr>delivered_count := delivered_count x + length out\<rparr>) st1;
            st3 = st2\<lparr>queue := (if multi \<or> (max_batch \<noteq> 0 \<and> kept \<noteq> []) then kept else [])\<rparr>;
            st4 = maybe_rearm_high_watermark (upd_metrics (\<lambda>x. x\<lparr>depth := length (queue st3)\<rparr>) st3);
            d = delivered_queue_sequences st4;
            st5 = (if length d > kMaxTrackedReaders
                   then st4\<lparr>delivered_queue_sequences := enforce_reader_cap
                          (prune_queue_dedup d (case queue st4 of [] \<Rightarrow> 0 | m # _ \<Rightarrow> msg_sequence m))\<rparr>
                   else st4)
        in (out, st5, ctx1))"

text \<open>The dispatch on the channel kind that the draining methods of the bus share.\<close>

definition drain_state ::
    "int \<Rightarrow> string \<Rightarrow> nat \<Rightarrow> channel_state \<Rightarrow> bus_ctx \<Rightarrow> channel_message list \<times> channel_state \<times> bus_ctx" where
  "drain_state now reader max_batch st ctx =
     (if ch_latest_style st
      then let (m, st', ctx') = consume_latest_from_state now reader st ctx
           in (case m of None \<Rightarrow> [] | Some x \<Rightarrow> [x], st', ctx')
      else consume_from_state now reader max_batch st ctx)"

fun snapshot_loop ::
    "int \<Rightarrow> nat \<Rightarrow> channel_message list \<Rightarrow> channel_message list \<Rightarrow> channel_message list \<Rightarrow> channel_state \<times> bus_ctx \<Rightarrow>
     channel_message list \<times> channel_message list \<times> channel_state \<times> bus_ctx" where
  "snapshot_loop now max_batch [] out kept sc = (out, kept, sc)"
| "snapshot_loop now max_batch (m # ms) out kept sc =
     (if message_expired (fst sc) m now then snapshot_loop now max_batch ms out kept (mark_stale_drop m sc)
      else snapshot_loop now max_batch ms (if max_batch = 0 \<or> length out < max_batch then out @ [m] else out)
             (kept @ [m]) sc)"

definition snapshot_from_state ::
    "int \<Rightarrow> nat \<Rightarrow> channel_state \<Rightarrow> bus_ctx \<Rightarrow> channel_message list \<times> channel_state \<times> bus_ctx" where
  "snapshot_from_state now max_batch st ctx =
     (if ch_latest_style st
      then case latest st of
          None \<Rightarrow> ([], st, ctx)
        | Some m \<Rightarrow>
            if message_expired st m now
            then let (st1, ctx1) = mark_stale_drop m (st\<lparr>latest := None\<rparr>, ctx)
                 in ([], upd_metrics (\<lambda>x. x\<lparr>depth := 0\<rparr>) st1, ctx1)
            else ([m], st, ctx)
      else
        let (out, kept, st1, ctx1) = snapshot_loop now max_batch (queue st) [] [] (st, ctx);
            st2 = st1\<lparr>queue := kept\<rparr>;
            st3 = maybe_rearm_high_watermark (upd_metrics (\<lambda>x. x\<lparr>depth := length (queue st2)\<rparr>) st2)
        in (out, st3, ctx1))"

section \<open>Epoch boundary and metrics\<close>

text \<open>The body of the loop of \<^verbatim>\<open>RuntimeChannelBus::advance_epoch\<close>: the new channel and whether it changed.\<close>

definition advance_state :: "channel_state \<Rightarrow> channel_state \<times> bool" where
  "advance_state st =
     (if cfg_type (config st) \<noteq> KPreviousTick \<or> pending_previous_tick st = None then (st, False)
      else (set_depth 1 (st\<lparr>latest := pending_previous_tick st, pending_previous_tick := None\<rparr>), True))"

definition metrics_from_state :: "channel_state \<Rightarrow> channel_metrics" where
  "metrics_from_state st =
     (metrics st)\<lparr>depth :=
       (if cfg_type (config st) = KPreviousTick
        then (if latest st \<noteq> None then 1 else 0) + (if pending_previous_tick st \<noteq> None then 1 else 0)
        else if ch_latest_style st then (if latest st \<noteq> None then 1 else 0) else length (queue st))\<rparr>"

end
