(* ===== verification/Channel_Laws.thy ===== *)
theory Channel_Laws
  imports Channel_State
begin

text \<open>
  What the per-channel operations compute: the consuming loops in closed form, the channel invariant and
  its preservation by every operation, and the delivery order a reader sees.
\<close>

section \<open>Frame lemmas\<close>

declare upd_metrics_def [simp] set_depth_def [simp]

lemma emit_ctx_frame [simp]:
  "ctx_sink (emit_channel_health_event st k sq d r a ctx) = ctx_sink ctx"
  "ctx_updates (emit_channel_health_event st k sq d r a ctx) = ctx_updates ctx"
  by (simp_all add: emit_channel_health_event_def)

text \<open>
  How the counters of a channel move during a consuming loop: \<open>k\<close> stale messages were dropped and every
  other counter of the conservation law is unchanged.
\<close>

definition stale_only :: "nat \<Rightarrow> channel_metrics \<Rightarrow> channel_metrics \<Rightarrow> bool" where
  "stale_only k x y \<longleftrightarrow>
     published_count y = published_count x \<and> delivered_count y = delivered_count x \<and>
     overwrite_count y = overwrite_count x \<and> reject_count y = reject_count x \<and>
     payload_copy_count y = payload_copy_count x \<and> depth y = depth x \<and> max_depth y = max_depth x \<and>
     met_channel_id y = met_channel_id x \<and>
     stale_drop_count y = stale_drop_count x + k \<and> drop_count y = drop_count x + k"

lemma stale_only_refl [simp]: "stale_only 0 x x"
  by (simp add: stale_only_def)

lemma stale_only_trans: "stale_only j x y \<Longrightarrow> stale_only k y z \<Longrightarrow> stale_only (j + k) x z"
  by (simp add: stale_only_def)

text \<open>The context keeps its sink and its update counter; only pending health events are added.\<close>

definition ctx_quiet :: "bus_ctx \<Rightarrow> bus_ctx \<Rightarrow> bool" where
  "ctx_quiet a b \<longleftrightarrow> ctx_updates b = ctx_updates a \<and> ctx_sink b = ctx_sink a"

lemma ctx_quiet_refl [simp]: "ctx_quiet a a"
  by (simp add: ctx_quiet_def)

lemma ctx_quiet_trans: "ctx_quiet a b \<Longrightarrow> ctx_quiet b c \<Longrightarrow> ctx_quiet a c"
  by (simp add: ctx_quiet_def)

text \<open>A consuming loop touches nothing of the channel but its metrics and its queue cursors.\<close>

definition same_frame :: "channel_state \<Rightarrow> channel_state \<Rightarrow> bool" where
  "same_frame st st' \<longleftrightarrow>
     config st' = config st \<and> from_ep st' = from_ep st \<and> to_ep st' = to_ep st \<and>
     next_sequence st' = next_sequence st \<and> latest st' = latest st \<and>
     pending_previous_tick st' = pending_previous_tick st \<and> queue st' = queue st \<and>
     delivered_latest_sequences st' = delivered_latest_sequences st \<and>
     high_watermark_reported st' = high_watermark_reported st"

lemma same_frame_refl [simp]: "same_frame st st"
  by (simp add: same_frame_def)

lemma same_frame_trans: "same_frame a b \<Longrightarrow> same_frame b c \<Longrightarrow> same_frame a c"
  by (simp add: same_frame_def)

lemma same_frame_config: "same_frame st st' \<Longrightarrow> config st' = config st"
  by (simp add: same_frame_def)

lemma mark_stale_drop_shape:
  "mark_stale_drop m (st, ctx) = (st', ctx') \<Longrightarrow>
   same_frame st st' \<and> delivered_queue_sequences st' = delivered_queue_sequences st \<and> stale_only 1 (metrics st) (metrics st') \<and> ctx_quiet ctx ctx'"
  by (auto simp: mark_stale_drop_def stale_only_def same_frame_def ctx_quiet_def Let_def)

definition missed_deadline :: "channel_config \<Rightarrow> int \<Rightarrow> channel_message \<Rightarrow> bool" where
  "missed_deadline c now m \<longleftrightarrow> cfg_deadline c > 0 \<and> now - msg_published_at m > cfg_deadline c * 1000000"

text \<open>The copy of a message a reader gets: the deadline flag is set when the deadline has passed.\<close>

definition delivered_copy :: "channel_config \<Rightarrow> int \<Rightarrow> channel_message \<Rightarrow> channel_message" where
  "delivered_copy c now m = (if missed_deadline c now m then m\<lparr>msg_deadline_missed := True\<rparr> else m)"

lemma delivered_copy_frame [simp]:
  "msg_sequence (delivered_copy c now m) = msg_sequence m"
  "msg_payload (delivered_copy c now m) = msg_payload m"
  "msg_metadata (delivered_copy c now m) = msg_metadata m"
  "msg_published_at (delivered_copy c now m) = msg_published_at m"
  by (simp_all add: delivered_copy_def)

lemma mark_delivery_shape:
  "mark_delivery_metrics now m (st, ctx) = (m', st', ctx') \<Longrightarrow>
   m' = delivered_copy (config st) now m \<and> same_frame st st' \<and> delivered_queue_sequences st' = delivered_queue_sequences st \<and>
   stale_only 0 (metrics st) (metrics st') \<and> ctx_quiet ctx ctx'"
  by (auto simp: mark_delivery_metrics_def stale_only_def same_frame_def ctx_quiet_def delivered_copy_def missed_deadline_def Let_def
      split: if_splits)

definition expired :: "channel_config \<Rightarrow> int \<Rightarrow> channel_message \<Rightarrow> bool" where
  "expired c now m \<longleftrightarrow> cfg_lifespan c > 0 \<and> now - msg_published_at m > cfg_lifespan c * 1000000"

lemma message_expired_iff: "message_expired st m now = expired (config st) now m"
  by (simp add: message_expired_def expired_def)

definition live :: "channel_config \<Rightarrow> int \<Rightarrow> channel_message list \<Rightarrow> channel_message list" where
  "live c now ms = filter (\<lambda>m. \<not> expired c now m) ms"

definition dead_count :: "channel_config \<Rightarrow> int \<Rightarrow> channel_message list \<Rightarrow> nat" where
  "dead_count c now ms = length (filter (expired c now) ms)"

lemma live_Nil [simp]: "live c now [] = []"
  and live_Cons [simp]: "live c now (m # ms) = (if expired c now m then live c now ms else m # live c now ms)"
  and dead_Nil [simp]: "dead_count c now [] = 0"
  and dead_Cons [simp]: "dead_count c now (m # ms) = (if expired c now m then Suc (dead_count c now ms) else dead_count c now ms)"
  by (simp_all add: live_def dead_count_def)

lemma length_live: "length (live c now ms) + dead_count c now ms = length ms"
  by (induction ms) auto

lemma set_live: "set (live c now ms) \<subseteq> set ms"
  by (auto simp: live_def)

text \<open>The part of a list that still fits a batch in which \<open>k\<close> messages are already collected.\<close>

definition take_batch :: "nat \<Rightarrow> nat \<Rightarrow> 'a list \<Rightarrow> 'a list" where
  "take_batch max_batch k xs = (if max_batch = 0 then xs else take (max_batch - k) xs)"

definition drop_batch :: "nat \<Rightarrow> nat \<Rightarrow> 'a list \<Rightarrow> 'a list" where
  "drop_batch max_batch k xs = (if max_batch = 0 then [] else drop (max_batch - k) xs)"

lemma take_drop_batch [simp]: "take_batch b k xs @ drop_batch b k xs = xs"
  by (simp add: take_batch_def drop_batch_def)

lemma length_take_drop_batch: "length (take_batch b k xs) + length (drop_batch b k xs) = length xs"
  by (auto simp: take_batch_def drop_batch_def)

lemma batch_Nil [simp]: "take_batch b k [] = []" "drop_batch b k [] = []"
  by (simp_all add: take_batch_def drop_batch_def)

lemma batch_full: "b \<noteq> 0 \<Longrightarrow> b \<le> k \<Longrightarrow> take_batch b k xs = [] \<and> drop_batch b k xs = xs"
  by (simp add: take_batch_def drop_batch_def)

lemma batch_room:
  "b = 0 \<or> k < b \<Longrightarrow> take_batch b k (x # xs) = x # take_batch b (Suc k) xs \<and>
     drop_batch b k (x # xs) = drop_batch b (Suc k) xs"
  by (auto simp: take_batch_def drop_batch_def Suc_diff_Suc [symmetric])

section \<open>What a consuming loop computes\<close>

lemma consume_loop_single:
  assumes "consume_loop now False cur b r ms out kept (st, ctx) = (out', kept', st', ctx')"
  shows "out' = out @ map (delivered_copy (config st) now) (take_batch b (length out) (live (config st) now ms)) \<and>
     kept' = kept @ drop_batch b (length out) (live (config st) now ms) \<and>
     same_frame st st' \<and> delivered_queue_sequences st' = delivered_queue_sequences st \<and>
     stale_only (dead_count (config st) now ms) (metrics st) (metrics st') \<and> ctx_quiet ctx ctx'"
  using assms
proof (induction ms arbitrary: out kept st ctx)
  case (Cons m ms)
  show ?case
  proof (cases "expired (config st) now m")
    case True
    obtain s c where sc: "mark_stale_drop m (st, ctx) = (s, c)" by fastforce
    note shape = mark_stale_drop_shape [OF sc]
    from Cons.prems True sc have "consume_loop now False cur b r ms out kept (s, c) = (out', kept', st', ctx')"
      by (simp add: message_expired_iff)
    note ih = Cons.IH [OF this]
    from ih shape True show ?thesis
      by (auto simp: same_frame_config intro: ctx_quiet_trans same_frame_trans stale_only_trans [of 1, simplified])
  next
    case alive: False
    show ?thesis
    proof (cases "b \<noteq> 0 \<and> b \<le> length out")
      case True
      with Cons.prems alive have "consume_loop now False cur b r ms out (kept @ [m]) (st, ctx) = (out', kept', st', ctx')"
        by (simp add: message_expired_iff)
      from Cons.IH [OF this] show ?thesis
        using True alive by (simp add: batch_full)
    next
      case False
      obtain m' s c where sc: "mark_delivery_metrics now m (st, ctx) = (m', s, c)" by (metis prod_cases3)
      note shape = mark_delivery_shape [OF sc]
      from Cons.prems alive False sc
      have "consume_loop now False cur b r ms (out @ [m']) kept (s, c) = (out', kept', st', ctx')"
        by (auto simp: message_expired_iff)
      note ih = Cons.IH [OF this]
      have "b = 0 \<or> length out < b" using False by auto
      note room = batch_room [OF this, of m]
      from ih shape alive room show ?thesis
        by (auto simp: same_frame_config intro: ctx_quiet_trans same_frame_trans dest: stale_only_trans [of 0])
    qed
  qed
qed simp

text \<open>In the multi-reader loop every live message stays queued and the cursor moves to the last one delivered.\<close>

definition advance_cursor ::
    "string \<Rightarrow> channel_message list \<Rightarrow> (string, nat) smap \<Rightarrow> (string, nat) smap" where
  "advance_cursor r new d = (if new = [] then d else smap_put r (msg_sequence (last new)) d)"

lemma advance_cursor_Cons:
  "advance_cursor r (m # new) d = advance_cursor r new (smap_put r (msg_sequence m) d)"
  by (simp add: advance_cursor_def)

lemma consume_loop_multi:
  assumes "consume_loop now True cur b r ms out kept (st, ctx) = (out', kept', st', ctx')"
  shows "\<exists>new. new = take_batch b (length out) (filter (\<lambda>m. cur < msg_sequence m) (live (config st) now ms)) \<and>
     out' = out @ map (delivered_copy (config st) now) new \<and> kept' = kept @ live (config st) now ms \<and>
     same_frame st st' \<and> delivered_queue_sequences st' = advance_cursor r new (delivered_queue_sequences st) \<and>
     stale_only (dead_count (config st) now ms) (metrics st) (metrics st') \<and> ctx_quiet ctx ctx'"
  using assms
proof (induction ms arbitrary: out kept st ctx)
  case Nil
  then show ?case by (simp add: advance_cursor_def)
next
  case (Cons m ms)
  show ?case
  proof (cases "expired (config st) now m")
    case True
    obtain s c where sc: "mark_stale_drop m (st, ctx) = (s, c)" by fastforce
    note shape = mark_stale_drop_shape [OF sc]
    from Cons.prems True sc have "consume_loop now True cur b r ms out kept (s, c) = (out', kept', st', ctx')"
      by (simp add: message_expired_iff)
    note ih = Cons.IH [OF this]
    from ih shape True show ?thesis
      by (auto simp: same_frame_config intro: ctx_quiet_trans same_frame_trans stale_only_trans [of 1, simplified])
  next
    case alive: False
    show ?thesis
    proof (cases "msg_sequence m \<le> cur \<or> (b \<noteq> 0 \<and> b \<le> length out)")
      case True
      with Cons.prems alive have "consume_loop now True cur b r ms out (kept @ [m]) (st, ctx) = (out', kept', st', ctx')"
        by (auto simp: message_expired_iff)
      from Cons.IH [OF this] show ?thesis
        using True alive by (auto simp: batch_full)
    next
      case False
      obtain m' s c where sc: "mark_delivery_metrics now m (st, ctx) = (m', s, c)" by (metis prod_cases3)
      note shape = mark_delivery_shape [OF sc]
      let ?s = "s\<lparr>delivered_queue_sequences := smap_put r (msg_sequence m') (delivered_queue_sequences s)\<rparr>"
      from Cons.prems alive False sc
      have "consume_loop now True cur b r ms (out @ [m']) (kept @ [m]) (?s, c) = (out', kept', st', ctx')"
        by (auto simp: message_expired_iff)
      note ih = Cons.IH [OF this]
      have "b = 0 \<or> length out < b" and "cur < msg_sequence m" using False by auto
      note room = batch_room [OF this(1), of m] this(2)
      have "same_frame st ?s" using shape by (simp add: same_frame_def)
      from ih shape alive room this show ?thesis
        by (auto simp: same_frame_config advance_cursor_Cons intro: ctx_quiet_trans same_frame_trans dest: stale_only_trans [of 0])
    qed
  qed
qed

lemma snapshot_loop_shape:
  assumes "snapshot_loop now b ms out kept (st, ctx) = (out', kept', st', ctx')"
  shows "out' = out @ take_batch b (length out) (live (config st) now ms) \<and>
     kept' = kept @ live (config st) now ms \<and>
     same_frame st st' \<and> delivered_queue_sequences st' = delivered_queue_sequences st \<and>
     stale_only (dead_count (config st) now ms) (metrics st) (metrics st') \<and> ctx_quiet ctx ctx'"
  using assms
proof (induction ms arbitrary: out kept st ctx)
  case (Cons m ms)
  show ?case
  proof (cases "expired (config st) now m")
    case True
    obtain s c where sc: "mark_stale_drop m (st, ctx) = (s, c)" by fastforce
    note shape = mark_stale_drop_shape [OF sc]
    from Cons.prems True sc have "snapshot_loop now b ms out kept (s, c) = (out', kept', st', ctx')"
      by (simp add: message_expired_iff)
    note ih = Cons.IH [OF this]
    from ih shape True show ?thesis
      by (auto simp: same_frame_config intro: ctx_quiet_trans same_frame_trans stale_only_trans [of 1, simplified])
  next
    case alive: False
    let ?out = "if b = 0 \<or> length out < b then out @ [m] else out"
    from Cons.prems alive have "snapshot_loop now b ms ?out (kept @ [m]) (st, ctx) = (out', kept', st', ctx')"
      by (simp add: message_expired_iff)
    note ih = Cons.IH [OF this]
    show ?thesis
    proof (cases "b = 0 \<or> length out < b")
      case True
      with ih alive batch_room [OF True, of m] show ?thesis by auto
    next
      case False
      then have "b \<noteq> 0" "b \<le> length out" by auto
      with ih alive show ?thesis by (auto simp: batch_full)
    qed
  qed
qed simp

section \<open>Eviction and cursor caps in closed form\<close>

lemma evict_oldest_shape:
  assumes "evict_oldest sq st ctx = (st', ctx')"
  shows "queue st' = drop (length (queue st) - ch_capacity st) (queue st) \<and>
     same_frame (st\<lparr>queue := queue st'\<rparr>) st' \<and> delivered_queue_sequences st' = delivered_queue_sequences st \<and>
     overwrite_count (metrics st') = overwrite_count (metrics st) + (length (queue st) - ch_capacity st) \<and>
     published_count (metrics st') = published_count (metrics st) \<and>
     delivered_count (metrics st') = delivered_count (metrics st) \<and>
     stale_drop_count (metrics st') = stale_drop_count (metrics st) \<and>
     reject_count (metrics st') = reject_count (metrics st) \<and>
     depth (metrics st') = depth (metrics st) \<and> max_depth (metrics st') = max_depth (metrics st) \<and>
     ctx_quiet ctx ctx'"
  using assms
proof (induction sq st ctx rule: evict_oldest.induct)
  case (1 sq st ctx)
  show ?case
  proof (cases "length (queue st) > ch_capacity st")
    case False
    with "1.prems" show ?thesis by (simp add: evict_oldest.simps [of sq st])
  next
    case True
    let ?s = "upd_metrics (\<lambda>x. x\<lparr>overwrite_count := overwrite_count x + 1,
                       health_event_count := health_event_count x + 1\<rparr>) (st\<lparr>queue := tl (queue st)\<rparr>)"
    let ?c = "emit_channel_health_event ?s KChannelOverflow sq (length (queue ?s)) ''oldest queued payload dropped'' [] ctx"
    have "evict_oldest sq ?s ?c = (st', ctx')"
      using "1.prems" True by (simp add: evict_oldest.simps [of sq st] Let_def)
    note ih = "1.IH" [OF True refl this]
    have n: "length (queue st) - ch_capacity st = Suc (length (queue st) - 1 - ch_capacity st)"
      using True by simp
    obtain x xs where q: "queue st = x # xs" using True by (cases "queue st") auto
    show ?thesis
      using ih True by (simp add: n drop_Suc same_frame_def ctx_quiet_def)
  qed
qed

lemma enforce_reader_cap_drop: "enforce_reader_cap d = drop (length d - kMaxTrackedReaders) d"
proof (induction d rule: enforce_reader_cap.induct)
  case (1 d)
  show ?case
  proof (cases "length d > kMaxTrackedReaders")
    case True
    then have "length d - kMaxTrackedReaders = Suc (length (tl d) - kMaxTrackedReaders)" by simp
    with 1 True show ?thesis by (simp add: enforce_reader_cap.simps [of d] drop_Suc)
  next
    case False
    then show ?thesis by (simp add: enforce_reader_cap.simps [of d])
  qed
qed

lemma enforce_reader_cap_bound: "length (enforce_reader_cap d) \<le> kMaxTrackedReaders"
  by (simp add: enforce_reader_cap_drop)

lemma smap_wf_drop [simp, inv_intros]: "smap_wf m \<Longrightarrow> smap_wf (drop n m)"
  by (simp add: smap_wf_def drop_map [symmetric] sorted_wrt_drop)

lemma enforce_reader_cap_wf [simp, inv_intros]: "smap_wf d \<Longrightarrow> smap_wf (enforce_reader_cap d)"
  by (simp add: enforce_reader_cap_drop)

lemma enforce_reader_cap_subset: "set (enforce_reader_cap d) \<subseteq> set d"
  by (simp add: enforce_reader_cap_drop set_drop_subset)

section \<open>The channel invariant\<close>

definition held_messages :: "channel_state \<Rightarrow> channel_message list" where
  "held_messages st =
     (case latest st of None \<Rightarrow> [] | Some m \<Rightarrow> [m]) @
     (case pending_previous_tick st of None \<Rightarrow> [] | Some m \<Rightarrow> [m]) @ queue st"

text \<open>A message a channel holds carries the identity the channel gave it.\<close>

definition own_message :: "channel_state \<Rightarrow> channel_message \<Rightarrow> bool" where
  "own_message st m \<longleftrightarrow>
     1 \<le> msg_sequence m \<and> msg_sequence m < next_sequence st \<and> msg_channel_id m = cfg_id (config st) \<and>
     causation_id (msg_metadata m) = metadata_id (cfg_id (config st)) (msg_sequence m)"

definition storage_inv :: "channel_state \<Rightarrow> bool" where
  "storage_inv st \<longleftrightarrow>
     1 \<le> ch_capacity st \<and> 1 \<le> next_sequence st \<and>
     (if ch_latest_style st then queue st = [] else length (queue st) \<le> ch_capacity st) \<and>
     (pending_previous_tick st \<noteq> None \<longrightarrow> cfg_type (config st) = KPreviousTick) \<and>
     sorted_wrt (<) (map msg_sequence (queue st)) \<and>
     (\<forall>m \<in> set (held_messages st). own_message st m) \<and>
     (\<forall>m p. latest st = Some m \<and> pending_previous_tick st = Some p \<longrightarrow> msg_sequence m < msg_sequence p)"

definition cursor_inv :: "channel_state \<Rightarrow> bool" where
  "cursor_inv st \<longleftrightarrow>
     smap_wf (delivered_latest_sequences st) \<and> length (delivered_latest_sequences st) \<le> kMaxTrackedReaders \<and>
     smap_wf (delivered_queue_sequences st) \<and> length (delivered_queue_sequences st) \<le> kMaxTrackedReaders \<and>
     (\<forall>v \<in> snd ` set (delivered_queue_sequences st). v < next_sequence st) \<and>
     (\<forall>v \<in> snd ` set (delivered_latest_sequences st). v < next_sequence st \<and>
        (\<forall>m. latest st = Some m \<longrightarrow> v \<le> msg_sequence m) \<and>
        (\<forall>m. pending_previous_tick st = Some m \<longrightarrow> v < msg_sequence m))"

text \<open>
  Conservation. On a single-reader queue every accepted message is delivered, overwritten, expired or still
  queued; on a multi-reader queue delivery does not consume it; on a latest-only channel the slot plays the
  part of the queue. Rejections by the publication path consume a sequence number.
\<close>

definition accounting_inv :: "channel_state \<Rightarrow> bool" where
  "accounting_inv st \<longleftrightarrow>
     (let x = metrics st in
      published_count x < next_sequence st \<and> next_sequence st \<le> Suc (published_count x + reject_count x) \<and>
      (\<not> ch_latest_style st \<longrightarrow>
         depth x = length (queue st) \<and> depth x \<le> max_depth x \<and> max_depth x \<le> ch_capacity st \<and>
         published_count x = (if ch_multi st then 0 else delivered_count x) + overwrite_count x +
           stale_drop_count x + length (queue st)) \<and>
      (cfg_type (config st) = KLatestOnly \<longrightarrow>
         depth x = (if latest st = None then 0 else 1) \<and>
         published_count x = overwrite_count x + stale_drop_count x + depth x))"

definition channel_inv :: "channel_state \<Rightarrow> bool" where
  "channel_inv st \<longleftrightarrow> storage_inv st \<and> cursor_inv st \<and> accounting_inv st"

lemma held_messages_iff:
  "m \<in> set (held_messages st) \<longleftrightarrow>
     latest st = Some m \<or> pending_previous_tick st = Some m \<or> m \<in> set (queue st)"
  by (auto simp: held_messages_def split: option.splits)

lemmas channel_inv_defs =
  channel_inv_def storage_inv_def cursor_inv_def accounting_inv_def own_message_def Ball_def held_messages_iff

lemma channel_inv_initial [inv_intros]: "channel_inv (channel_state_for_edge e)"
  by (auto simp: channel_inv_defs channel_state_for_edge_def zero_metrics_def Let_def kMaxTrackedReaders_def)

section \<open>Publication\<close>

definition evicting :: "channel_state \<Rightarrow> bool" where
  "evicting st \<longleftrightarrow> cfg_drop_policy (config st) = KOverwrite \<or> cfg_drop_policy (config st) = KDropOldest"

definition full :: "channel_state \<Rightarrow> bool" where
  "full st \<longleftrightarrow> \<not> ch_latest_style st \<and> ch_capacity st \<le> length (queue st)"

lemma overflow_rejection_None_iff: "overflow_rejection sq st ctx = None \<longleftrightarrow> evicting st"
  by (cases "cfg_drop_policy (config st)") (simp_all add: overflow_rejection_def evicting_def Let_def)

text \<open>A rejection changes the rejection counters only.\<close>

lemma overflow_rejection_shape:
  assumes "overflow_rejection sq st ctx = Some (res, st', ctx')"
  shows "\<not> accepted res \<and> same_frame st st' \<and> delivered_queue_sequences st' = delivered_queue_sequences st \<and>
     published_count (metrics st') = published_count (metrics st) \<and>
     delivered_count (metrics st') = delivered_count (metrics st) \<and>
     overwrite_count (metrics st') = overwrite_count (metrics st) \<and>
     stale_drop_count (metrics st') = stale_drop_count (metrics st) \<and>
     reject_count (metrics st') = Suc (reject_count (metrics st)) \<and>
     depth (metrics st') = depth (metrics st) \<and> max_depth (metrics st') = max_depth (metrics st) \<and>
     reason res = (case cfg_drop_policy (config st) of KDropNewest \<Rightarrow> ''dropped newest payload''
        | KBlockProducer \<Rightarrow> ''would block producer'' | _ \<Rightarrow> ''channel capacity exceeded'') \<and> ctx_quiet ctx ctx'"
  using assms
  by (cases "cfg_drop_policy (config st)")
    (auto simp: overflow_rejection_def same_frame_def ctx_quiet_def Let_def)

lemma channel_inv_reject:
  assumes "channel_inv st" and "overflow_rejection sq st ctx = Some (res, st', ctx')"
  shows "channel_inv st'"
  using assms(1) overflow_rejection_shape [OF assms(2)]
  by (auto simp: channel_inv_defs same_frame_def Let_def)

text \<open>The state \<^const>\<open>publish_to_state\<close> hands on: a sequence number taken, the copy counted.\<close>

definition stamped :: "bool \<Rightarrow> channel_state \<Rightarrow> channel_state" where
  "stamped copied st =
     (let st1 = st\<lparr>next_sequence := next_sequence st + 1\<rparr> in
      if copied then upd_metrics (\<lambda>x. x\<lparr>payload_copy_count := payload_copy_count x + 1\<rparr>) st1 else st1)"

lemma stamped_frame [simp]:
  "config (stamped c st) = config st" "from_ep (stamped c st) = from_ep st" "to_ep (stamped c st) = to_ep st"
  "next_sequence (stamped c st) = Suc (next_sequence st)" "latest (stamped c st) = latest st"
  "pending_previous_tick (stamped c st) = pending_previous_tick st" "queue (stamped c st) = queue st"
  "delivered_latest_sequences (stamped c st) = delivered_latest_sequences st"
  "delivered_queue_sequences (stamped c st) = delivered_queue_sequences st"
  "high_watermark_reported (stamped c st) = high_watermark_reported st"
  "published_count (metrics (stamped c st)) = published_count (metrics st)"
  "delivered_count (metrics (stamped c st)) = delivered_count (metrics st)"
  "overwrite_count (metrics (stamped c st)) = overwrite_count (metrics st)"
  "stale_drop_count (metrics (stamped c st)) = stale_drop_count (metrics st)"
  "reject_count (metrics (stamped c st)) = reject_count (metrics st)"
  "depth (metrics (stamped c st)) = depth (metrics st)" "max_depth (metrics (stamped c st)) = max_depth (metrics st)"
  by (simp_all add: stamped_def Let_def)

lemma publish_to_state_cases:
  "publish_to_state now p ts copied md st ctx =
     (if full st \<and> \<not> evicting st
      then the (overflow_rejection (next_sequence st) (stamped copied st) ctx)
      else accept_message (new_message now p ts md st) (stamped copied st) ctx)"
proof -
  have "overflow_rejection (next_sequence st) (stamped copied st) ctx = None \<longleftrightarrow> evicting st"
    by (simp add: overflow_rejection_None_iff evicting_def)
  then show ?thesis
    unfolding publish_to_state_def stamped_def [symmetric, unfolded Let_def] Let_def
    by (auto simp: full_def new_message_def not_le split: option.split)
qed

lemma new_message_frame [simp]:
  "msg_sequence (new_message now p ts md st) = next_sequence st"
  "msg_payload (new_message now p ts md st) = p"
  "msg_channel_id (new_message now p ts md st) = cfg_id (config st)"
  "msg_published_at (new_message now p ts md st) = now"
  "causation_id (msg_metadata (new_message now p ts md st)) = metadata_id (cfg_id (config st)) (next_sequence st)"
  by (simp_all add: new_message_def finalize_message_metadata_def Let_def)

text \<open>What accepting a message does, per kind of channel.\<close>

lemma high_watermark_shape:
  assumes "maybe_emit_high_watermark m st ctx = (st', ctx')"
  shows "metrics st' = metrics st \<and> same_frame (st\<lparr>high_watermark_reported := high_watermark_reported st'\<rparr>) st' \<and>
     delivered_queue_sequences st' = delivered_queue_sequences st \<and> ctx_quiet ctx ctx'"
  using assms by (auto simp: maybe_emit_high_watermark_def same_frame_def ctx_quiet_def Let_def split: if_splits)

lemma accept_queue_shape:
  assumes "accept_message m st ctx = (res, st', ctx')" and "\<not> ch_latest_style st"
  shows "res = accept \<and> queue st' = drop (Suc (length (queue st)) - ch_capacity st) (queue st @ [m]) \<and>
     latest st' = Some m \<and>
     same_frame (st\<lparr>latest := Some m, queue := queue st', high_watermark_reported := high_watermark_reported st'\<rparr>) st' \<and>
     delivered_queue_sequences st' = delivered_queue_sequences st \<and>
     published_count (metrics st') = Suc (published_count (metrics st)) \<and>
     delivered_count (metrics st') = delivered_count (metrics st) \<and>
     overwrite_count (metrics st') = overwrite_count (metrics st) + (Suc (length (queue st)) - ch_capacity st) \<and>
     stale_drop_count (metrics st') = stale_drop_count (metrics st) \<and>
     reject_count (metrics st') = reject_count (metrics st) \<and>
     depth (metrics st') = length (queue st') \<and>
     max_depth (metrics st') = max (max_depth (metrics st)) (length (queue st')) \<and>
     ctx_updates ctx' = Suc (ctx_updates ctx) \<and> ctx_sink ctx' = ctx_sink ctx"
proof -
  let ?s0 = "st\<lparr>latest := Some m, queue := queue st @ [m]\<rparr>"
  obtain s1 c1 where e: "evict_oldest (msg_sequence m) ?s0 ctx = (s1, c1)" by fastforce
  note ev = evict_oldest_shape [OF e]
  let ?s3 = "set_depth (length (queue s1)) (upd_metrics (\<lambda>x. x\<lparr>published_count := published_count x + 1\<rparr>) s1)"
  obtain s4 c2 where h: "maybe_emit_high_watermark m ?s3 c1 = (s4, c2)" by fastforce
  note hw = high_watermark_shape [OF h]
  have t: "cfg_type (config st) \<noteq> KPreviousTick" using assms(2) by (auto simp: is_latest_style_def)
  have c: "config s1 = config st" using ev by (simp add: same_frame_def)
  have "(res, st', ctx') = (accept, s4, c2\<lparr>ctx_updates := ctx_updates c2 + 1\<rparr>)"
    using assms e h t c by (simp add: accept_message_def Let_def)
  with ev hw show ?thesis by (auto simp: same_frame_def ctx_quiet_def)
qed

lemma accept_latest_shape:
  assumes "accept_message m st ctx = (res, st', ctx')" and "ch_latest_style st" and "cfg_type (config st) \<noteq> KPreviousTick"
  shows "res = accept \<and>
     same_frame (st\<lparr>latest := Some m, queue := []\<rparr>) st' \<and>
     delivered_queue_sequences st' = delivered_queue_sequences st \<and>
     published_count (metrics st') = Suc (published_count (metrics st)) \<and>
     delivered_count (metrics st') = delivered_count (metrics st) \<and>
     overwrite_count (metrics st') = overwrite_count (metrics st) +
       (if cfg_type (config st) = KLatestOnly \<and> depth (metrics st) > 0 then 1 else 0) \<and>
     stale_drop_count (metrics st') = stale_drop_count (metrics st) \<and>
     reject_count (metrics st') = reject_count (metrics st) \<and>
     depth (metrics st') = 1 \<and> ctx_updates ctx' = Suc (ctx_updates ctx) \<and> ctx_sink ctx' = ctx_sink ctx"
  using assms
  by (auto simp: accept_message_def accept_latest_def maybe_emit_high_watermark_def same_frame_def Let_def split: if_splits)

lemma accept_previous_shape:
  assumes "accept_message m st ctx = (res, st', ctx')" and "cfg_type (config st) = KPreviousTick"
  shows "res = accept \<and>
     same_frame (st\<lparr>pending_previous_tick := Some m\<rparr>) st' \<and>
     delivered_queue_sequences st' = delivered_queue_sequences st \<and>
     published_count (metrics st') = Suc (published_count (metrics st)) \<and>
     delivered_count (metrics st') = delivered_count (metrics st) \<and>
     overwrite_count (metrics st') = overwrite_count (metrics st) +
       (if pending_previous_tick st \<noteq> None then 1 else 0) \<and>
     stale_drop_count (metrics st') = stale_drop_count (metrics st) \<and>
     reject_count (metrics st') = reject_count (metrics st) \<and> ctx_quiet ctx ctx'"
  using assms
  by (auto simp: accept_message_def accept_previous_tick_def same_frame_def ctx_quiet_def Let_def split: if_splits)

section \<open>Publication keeps the invariant\<close>

lemma own_message_mono: "own_message st m \<Longrightarrow> config st' = config st \<Longrightarrow> next_sequence st \<le> next_sequence st' \<Longrightarrow> own_message st' m"
  by (auto simp: own_message_def)

lemma own_new_message:
  "1 \<le> next_sequence st \<Longrightarrow> config st' = config st \<Longrightarrow> next_sequence st < next_sequence st' \<Longrightarrow>
   own_message st' (new_message now p ts md st)"
  by (auto simp: own_message_def)

lemma storage_inv_frame: "storage_inv st \<Longrightarrow> same_frame st st' \<Longrightarrow> storage_inv st'"
  by (simp add: storage_inv_def same_frame_def own_message_def held_messages_def)

lemma cursor_inv_frame:
  "cursor_inv st \<Longrightarrow> same_frame st st' \<Longrightarrow> delivered_queue_sequences st' = delivered_queue_sequences st \<Longrightarrow> cursor_inv st'"
  by (simp add: cursor_inv_def same_frame_def)

lemma storage_inv_stamped: "storage_inv st \<Longrightarrow> storage_inv (stamped c st)"
  by (auto simp: storage_inv_def own_message_def held_messages_iff Ball_def intro: less_SucI)

lemma cursor_inv_stamped: "cursor_inv st \<Longrightarrow> cursor_inv (stamped c st)"
  unfolding cursor_inv_def by (simp add: less_Suc_eq)

lemma sorted_wrt_drop_map: "sorted_wrt P (map f xs) \<Longrightarrow> sorted_wrt P (map f (drop n xs))"
  by (simp add: drop_map [symmetric] sorted_wrt_drop)

lemma channel_inv_accept_queue:
  assumes inv: "channel_inv st" and nl: "\<not> ch_latest_style st"
    and acc: "accept_message (new_message now p ts md st) (stamped copied st) ctx = (res, st', ctx')"
  shows "channel_inv st'"
proof -
  let ?m = "new_message now p ts md st"
  have nl': "\<not> ch_latest_style (stamped copied st)" using nl by simp
  note sh = accept_queue_shape [OF acc nl']
  have fr: "config st' = config st" "next_sequence st' = Suc (next_sequence st)" "latest st' = Some ?m"
    "pending_previous_tick st' = pending_previous_tick st"
    "delivered_latest_sequences st' = delivered_latest_sequences st"
    "delivered_queue_sequences st' = delivered_queue_sequences st"
    using sh by (auto simp: same_frame_def)
  have q: "queue st' = drop (Suc (length (queue st)) - ch_capacity st) (queue st @ [?m])" using sh by simp
  have len: "length (queue st) \<le> ch_capacity st" "1 \<le> ch_capacity st" using inv nl by (auto simp: channel_inv_defs)
  have sub: "set (queue st') \<subseteq> insert ?m (set (queue st))"
    unfolding q by (rule order_trans [OF set_drop_subset]) auto
  have np: "pending_previous_tick st = None"
    using inv nl by (auto simp: channel_inv_defs is_latest_style_def)
  have "\<forall>m \<in> set (queue st). msg_sequence m < next_sequence st"
    using inv by (auto simp: channel_inv_defs)
  then have srt: "sorted_wrt (<) (map msg_sequence (queue st'))"
    unfolding q using inv by (intro sorted_wrt_drop_map) (auto simp: sorted_wrt_append channel_inv_defs)
  have own: "\<forall>m \<in> insert ?m (set (queue st)). own_message st' m"
    using inv fr by (auto intro: own_new_message simp: channel_inv_defs)
  have lq: "length (queue st') = (if length (queue st) = ch_capacity st then ch_capacity st else Suc (length (queue st)))"
    using len by (simp add: q)
  have "storage_inv st'"
    using inv fr nl np srt own sub len lq
    by (auto simp: storage_inv_def held_messages_iff channel_inv_def)
  moreover have "cursor_inv st'" using inv fr np by (auto simp: channel_inv_def cursor_inv_def less_Suc_eq)
  moreover have "accounting_inv st'"
    using inv sh fr nl lq len by (simp add: channel_inv_def accounting_inv_def Let_def is_latest_style_def)
  ultimately show ?thesis by (simp add: channel_inv_def)
qed

lemma channel_inv_accept_latest:
  assumes inv: "channel_inv st" and ls: "ch_latest_style st" and np: "cfg_type (config st) \<noteq> KPreviousTick"
    and acc: "accept_message (new_message now p ts md st) (stamped copied st) ctx = (res, st', ctx')"
  shows "channel_inv st'"
proof -
  let ?m = "new_message now p ts md st"
  have ls': "ch_latest_style (stamped copied st)" "cfg_type (config (stamped copied st)) \<noteq> KPreviousTick"
    using ls np by simp_all
  note sh = accept_latest_shape [OF acc ls']
  have old: "\<forall>v \<in> snd ` set (delivered_latest_sequences st). v < next_sequence st"
    "pending_previous_tick st = None" "1 \<le> next_sequence st"
    using inv np by (auto simp: channel_inv_def cursor_inv_def storage_inv_def)
  have "storage_inv (stamped copied st)" "cursor_inv (stamped copied st)"
    using inv by (auto simp: channel_inv_def intro: storage_inv_stamped cursor_inv_stamped)
  with old have "storage_inv ((stamped copied st)\<lparr>latest := Some ?m, queue := []\<rparr>)"
    "cursor_inv ((stamped copied st)\<lparr>latest := Some ?m, queue := []\<rparr>)"
    using ls by (simp_all add: storage_inv_def own_message_def held_messages_def cursor_inv_def less_imp_le)
  then have "storage_inv st'" "cursor_inv st'"
    using sh by (auto intro: storage_inv_frame cursor_inv_frame)
  moreover have "accounting_inv st'"
    using inv sh ls by (simp add: channel_inv_def accounting_inv_def same_frame_def Let_def)
  ultimately show ?thesis by (simp add: channel_inv_def)
qed

lemma channel_inv_accept_previous:
  assumes inv: "channel_inv st" and pt: "cfg_type (config st) = KPreviousTick"
    and acc: "accept_message (new_message now p ts md st) (stamped copied st) ctx = (res, st', ctx')"
  shows "channel_inv st'"
proof -
  let ?m = "new_message now p ts md st"
  have pt': "cfg_type (config (stamped copied st)) = KPreviousTick" using pt by simp
  note sh = accept_previous_shape [OF acc pt']
  have old: "\<forall>v \<in> snd ` set (delivered_latest_sequences st). v < next_sequence st" "1 \<le> next_sequence st"
    "\<forall>m. latest st = Some m \<longrightarrow> msg_sequence m < next_sequence st"
    using inv by (auto simp: channel_inv_def cursor_inv_def storage_inv_def own_message_def held_messages_iff)
  have "storage_inv (stamped copied st)" "cursor_inv (stamped copied st)"
    using inv by (auto simp: channel_inv_def intro: storage_inv_stamped cursor_inv_stamped)
  with old have "storage_inv ((stamped copied st)\<lparr>pending_previous_tick := Some ?m\<rparr>)"
    "cursor_inv ((stamped copied st)\<lparr>pending_previous_tick := Some ?m\<rparr>)"
    using pt by (auto simp: storage_inv_def own_message_def held_messages_iff Ball_def is_latest_style_def cursor_inv_def)
  then have "storage_inv st'" "cursor_inv st'"
    using sh by (auto intro: storage_inv_frame cursor_inv_frame)
  moreover have "accounting_inv st'"
    using inv sh pt by (simp add: channel_inv_def accounting_inv_def same_frame_def Let_def is_latest_style_def)
  ultimately show ?thesis by (simp add: channel_inv_def)
qed

lemma channel_inv_publish [inv_intros]:
  assumes inv: "channel_inv st" and pub: "publish_to_state now p ts copied md st ctx = (res, st', ctx')"
  shows "channel_inv st'"
proof (cases "full st \<and> \<not> evicting st")
  case False
  then have "accept_message (new_message now p ts md st) (stamped copied st) ctx = (res, st', ctx')"
    using pub by (auto simp: publish_to_state_cases)
  then show ?thesis
    using inv channel_inv_accept_queue channel_inv_accept_latest channel_inv_accept_previous by metis
next
  case True
  then obtain r where r: "overflow_rejection (next_sequence st) (stamped copied st) ctx = Some r"
    using overflow_rejection_None_iff [of "next_sequence st" "stamped copied st" ctx] by (auto simp: evicting_def)
  with True pub have "overflow_rejection (next_sequence st) (stamped copied st) ctx = Some (res, st', ctx')"
    by (auto simp: publish_to_state_cases)
  note sh = overflow_rejection_shape [OF this]
  have nl: "\<not> ch_latest_style st" using True by (simp add: full_def)
  have "storage_inv st'" "cursor_inv st'"
    using inv sh by (auto simp: channel_inv_def intro: storage_inv_frame cursor_inv_frame storage_inv_stamped cursor_inv_stamped)
  moreover have "accounting_inv st'"
    using inv sh nl by (simp add: channel_inv_def accounting_inv_def same_frame_def Let_def is_latest_style_def)
  ultimately show ?thesis by (simp add: channel_inv_def)
qed

section \<open>Consumption keeps the invariant\<close>

text \<open>Dropping an expired latest value, the branch that reading and snapshotting share.\<close>

lemma channel_inv_expire_latest:
  assumes inv: "channel_inv st" and ls: "ch_latest_style st" and l: "latest st = Some m"
    and drop: "mark_stale_drop m (st\<lparr>latest := None\<rparr>, ctx) = (st1, ctx1)"
  shows "channel_inv (upd_metrics (\<lambda>x. x\<lparr>depth := 0\<rparr>) st1)"
proof -
  note sh = mark_stale_drop_shape [OF drop]
  let ?s = "st\<lparr>latest := None\<rparr>"
  have "storage_inv ?s" "cursor_inv ?s"
    using inv by (auto simp: channel_inv_def storage_inv_def own_message_def held_messages_iff Ball_def cursor_inv_def)
  moreover have "same_frame ?s (upd_metrics (\<lambda>x. x\<lparr>depth := 0\<rparr>) st1)"
    using sh by (simp add: same_frame_def)
  ultimately have "storage_inv (upd_metrics (\<lambda>x. x\<lparr>depth := 0\<rparr>) st1)" "cursor_inv (upd_metrics (\<lambda>x. x\<lparr>depth := 0\<rparr>) st1)"
    using sh by (auto intro: storage_inv_frame cursor_inv_frame)
  moreover have "accounting_inv (upd_metrics (\<lambda>x. x\<lparr>depth := 0\<rparr>) st1)"
    using inv sh ls l by (auto simp: channel_inv_def accounting_inv_def same_frame_def stale_only_def Let_def)
  ultimately show ?thesis by (simp add: channel_inv_def)
qed

lemma prune_latest_wf [simp]: "smap_wf d \<Longrightarrow> smap_wf (prune_latest_dedup d n)"
  by (simp add: prune_latest_dedup_def)

lemma prune_queue_wf [simp]: "smap_wf d \<Longrightarrow> smap_wf (prune_queue_dedup d n)"
  by (simp add: prune_queue_dedup_def)

text \<open>The cursor map after one delivery, with the pruning the code does above the reader cap.\<close>

definition capped_latest :: "(string, nat) smap \<Rightarrow> nat \<Rightarrow> (string, nat) smap" where
  "capped_latest d n = (if length d > kMaxTrackedReaders then enforce_reader_cap (prune_latest_dedup d n) else d)"

definition capped_queue :: "(string, nat) smap \<Rightarrow> nat \<Rightarrow> (string, nat) smap" where
  "capped_queue d n = (if length d > kMaxTrackedReaders then enforce_reader_cap (prune_queue_dedup d n) else d)"

lemma capped_latest_ok:
  "smap_wf d \<Longrightarrow> smap_wf (capped_latest d n) \<and> length (capped_latest d n) \<le> kMaxTrackedReaders"
  "set (capped_latest d n) \<subseteq> set d"
  using enforce_reader_cap_subset [of "prune_latest_dedup d n"]
  by (auto simp: capped_latest_def enforce_reader_cap_bound prune_latest_dedup_def not_less)

lemma capped_queue_ok:
  "smap_wf d \<Longrightarrow> smap_wf (capped_queue d n) \<and> length (capped_queue d n) \<le> kMaxTrackedReaders"
  "set (capped_queue d n) \<subseteq> set d"
  using enforce_reader_cap_subset [of "prune_queue_dedup d n"]
  by (auto simp: capped_queue_def enforce_reader_cap_bound prune_queue_dedup_def not_less)

text \<open>What reading a latest-style channel does, branch by branch.\<close>

lemma consume_latest_deliver_shape:
  assumes "latest st = Some m" and "\<not> expired (config st) now m"
    and "map_of (delivered_latest_sequences st) r \<noteq> Some (msg_sequence m)"
    and "consume_latest_from_state now r st ctx = (res, st', ctx')"
  shows "res = Some (delivered_copy (config st) now m) \<and>
     same_frame (st\<lparr>delivered_latest_sequences :=
       capped_latest (smap_put r (msg_sequence m) (delivered_latest_sequences st)) (msg_sequence m)\<rparr>) st' \<and>
     delivered_queue_sequences st' = delivered_queue_sequences st \<and>
     stale_only 0 ((metrics st)\<lparr>delivered_count := Suc (delivered_count (metrics st))\<rparr>) (metrics st') \<and> ctx_quiet ctx ctx'"
proof -
  let ?d = "capped_latest (smap_put r (msg_sequence m) (delivered_latest_sequences st)) (msg_sequence m)"
  let ?s = "st\<lparr>delivered_latest_sequences := ?d, metrics := (metrics st)\<lparr>delivered_count := Suc (delivered_count (metrics st))\<rparr>\<rparr>"
  obtain m' s c where d: "mark_delivery_metrics now m (?s, ctx) = (m', s, c)" by (metis prod_cases3)
  note sh = mark_delivery_shape [OF d]
  have "(res, st', ctx') = (Some m', s, c)"
    using assms d by (simp add: consume_latest_from_state_def message_expired_iff capped_latest_def Let_def)
  with sh show ?thesis by (auto simp: same_frame_def)
qed

lemma channel_inv_consume_latest [inv_intros]:
  assumes inv: "channel_inv st" and ls: "ch_latest_style st"
    and con: "consume_latest_from_state now r st ctx = (res, st', ctx')"
  shows "channel_inv st'"
proof (cases "latest st")
  case None
  with inv con show ?thesis by (simp add: consume_latest_from_state_def)
next
  case (Some m)
  consider "expired (config st) now m"
    | "\<not> expired (config st) now m" "map_of (delivered_latest_sequences st) r = Some (msg_sequence m)"
    | "\<not> expired (config st) now m" "map_of (delivered_latest_sequences st) r \<noteq> Some (msg_sequence m)" by blast
  then show ?thesis
  proof cases
    case 1
    obtain s c where d: "mark_stale_drop m (st\<lparr>latest := None\<rparr>, ctx) = (s, c)" by fastforce
    with 1 con Some have "st' = upd_metrics (\<lambda>x. x\<lparr>depth := 0\<rparr>) s"
      by (simp add: consume_latest_from_state_def message_expired_iff Let_def)
    with channel_inv_expire_latest [OF inv ls Some d] show ?thesis by simp
  next
    case 2
    with inv con Some show ?thesis by (simp add: consume_latest_from_state_def message_expired_iff)
  next
    case 3
    let ?d0 = "smap_put r (msg_sequence m) (delivered_latest_sequences st)"
    let ?d = "capped_latest ?d0 (msg_sequence m)"
    note sh = consume_latest_deliver_shape [OF Some 3 con]
    have own: "own_message st m" and wf: "smap_wf (delivered_latest_sequences st)"
      and old: "\<forall>v \<in> snd ` set (delivered_latest_sequences st). v < next_sequence st \<and> v \<le> msg_sequence m \<and>
        (\<forall>m. pending_previous_tick st = Some m \<longrightarrow> v < msg_sequence m)"
      using inv Some by (auto simp: channel_inv_def storage_inv_def held_messages_iff cursor_inv_def)
    have new: "\<forall>v \<in> snd ` set ?d. v < next_sequence st \<and> v \<le> msg_sequence m \<and>
        (\<forall>m. pending_previous_tick st = Some m \<longrightarrow> v < msg_sequence m)"
    proof -
      have "set ?d \<subseteq> insert (r, msg_sequence m) (set (delivered_latest_sequences st))"
        using capped_latest_ok(2) set_smap_put by (rule order_trans)
      moreover have "msg_sequence m < next_sequence st"
        "\<forall>p. pending_previous_tick st = Some p \<longrightarrow> msg_sequence m < msg_sequence p"
        using own inv Some by (auto simp: own_message_def channel_inv_def storage_inv_def)
      ultimately show ?thesis using old by fastforce
    qed
    have "cursor_inv (st\<lparr>delivered_latest_sequences := ?d\<rparr>)"
      using inv new Some capped_latest_ok(1) [OF smap_wf_put [OF wf]] by (auto simp: channel_inv_def cursor_inv_def)
    moreover have "storage_inv (st\<lparr>delivered_latest_sequences := ?d\<rparr>)"
      using inv by (simp add: channel_inv_def storage_inv_def held_messages_def own_message_def)
    moreover have "accounting_inv st'"
      using inv sh ls by (simp add: channel_inv_def accounting_inv_def same_frame_def stale_only_def Let_def)
    ultimately show ?thesis
      using sh by (auto simp: channel_inv_def intro: storage_inv_frame cursor_inv_frame)
  qed
qed

section \<open>Draining a queue\<close>

lemma rearm_frame:
  "same_frame (st\<lparr>high_watermark_reported := high_watermark_reported (maybe_rearm_high_watermark st)\<rparr>) (maybe_rearm_high_watermark st)"
  "metrics (maybe_rearm_high_watermark st) = metrics st"
  "delivered_queue_sequences (maybe_rearm_high_watermark st) = delivered_queue_sequences st"
  by (simp_all add: maybe_rearm_high_watermark_def same_frame_def)

definition barrier_waiting :: "channel_state \<Rightarrow> bool" where
  "barrier_waiting st \<longleftrightarrow> cfg_type (config st) = KBarrier \<and> length (queue st) < ch_capacity st"

lemma consume_waiting: "barrier_waiting st \<Longrightarrow> consume_from_state now r b st ctx = ([], st, ctx)"
  by (simp add: consume_from_state_def barrier_waiting_def)

text \<open>The messages a multi-reader drain hands out: the live ones above the reader's cursor, up to the batch.\<close>

definition fresh :: "int \<Rightarrow> string \<Rightarrow> nat \<Rightarrow> channel_state \<Rightarrow> channel_message list" where
  "fresh now r b st =
     (let alive = live (config st) now (queue st) in
      take_batch b 0 (if ch_multi st then filter (\<lambda>m. smap_get 0 (delivered_queue_sequences st) r < msg_sequence m) alive
                      else alive))"

text \<open>The queue that remains.\<close>

definition remaining :: "int \<Rightarrow> nat \<Rightarrow> channel_state \<Rightarrow> channel_message list" where
  "remaining now b st =
     (let alive = live (config st) now (queue st) in if ch_multi st then alive else drop_batch b 0 alive)"

lemma consume_from_state_shape:
  assumes "consume_from_state now r b st ctx = (out, st', ctx')" and "\<not> barrier_waiting st"
  shows "out = map (delivered_copy (config st) now) (fresh now r b st) \<and>
     queue st' = remaining now b st \<and>
     same_frame (st\<lparr>queue := queue st', high_watermark_reported := high_watermark_reported st'\<rparr>) st' \<and>
     delivered_queue_sequences st' =
       capped_queue (if ch_multi st then advance_cursor r (fresh now r b st) (delivered_queue_sequences st)
                     else delivered_queue_sequences st)
         (case queue st' of [] \<Rightarrow> 0 | m # _ \<Rightarrow> msg_sequence m) \<and>
     stale_only (dead_count (config st) now (queue st))
       ((metrics st)\<lparr>delivered_count := delivered_count (metrics st) + length out, depth := length (queue st')\<rparr>) (metrics st') \<and>
     ctx_quiet ctx ctx'"
proof -
  let ?cur = "if ch_multi st then smap_get 0 (delivered_queue_sequences st) r else 0"
  obtain o1 k1 s1 c1 where loop: "consume_loop now (ch_multi st) ?cur b r (queue st) [] [] (st, ctx) = (o1, k1, s1, c1)"
    by (metis prod_cases4)
  let ?q = "if ch_multi st \<or> (b \<noteq> 0 \<and> k1 \<noteq> []) then k1 else []"
  let ?s4 = "maybe_rearm_high_watermark (upd_metrics (\<lambda>x. x\<lparr>depth := length ?q\<rparr>)
       ((upd_metrics (\<lambda>x. x\<lparr>delivered_count := delivered_count x + length o1\<rparr>) s1)\<lparr>queue := ?q\<rparr>))"
  let ?d = "capped_queue (delivered_queue_sequences s1) (case ?q of [] \<Rightarrow> 0 | m # _ \<Rightarrow> msg_sequence m)"
  have q4: "queue ?s4 = ?q" "delivered_queue_sequences ?s4 = delivered_queue_sequences s1"
    by (simp_all add: maybe_rearm_high_watermark_def)
  have res: "out = o1 \<and> ctx' = c1 \<and> queue st' = ?q \<and> metrics st' = metrics ?s4 \<and> same_frame ?s4 st' \<and> delivered_queue_sequences st' = ?d"
    using assms loop q4 unfolding consume_from_state_def barrier_waiting_def capped_queue_def
    by (auto simp: Let_def same_frame_def split: if_splits)
  show ?thesis
  proof (cases "ch_multi st")
    case True
    with loop consume_loop_multi [of now ?cur b r "queue st" "[]" "[]" st ctx o1 k1 s1 c1] res show ?thesis
      by (auto simp: fresh_def remaining_def Let_def same_frame_def rearm_frame stale_only_def maybe_rearm_high_watermark_def)
  next
    case False
    have "?q = k1" if "k1 = drop_batch b 0 (live (config st) now (queue st))"
      using that False by (auto simp: drop_batch_def)
    with False loop consume_loop_single [of now ?cur b r "queue st" "[]" "[]" st ctx o1 k1 s1 c1] res show ?thesis
      by (auto simp: fresh_def remaining_def Let_def same_frame_def rearm_frame stale_only_def maybe_rearm_high_watermark_def)
  qed
qed

lemma sorted_live: "sorted_wrt P (map f ms) \<Longrightarrow> sorted_wrt P (map f (live c now ms))"
  by (simp add: live_def sorted_wrt_map_filter)

lemma set_batch: "set (take_batch b k xs) \<subseteq> set xs" "set (drop_batch b k xs) \<subseteq> set xs"
  by (auto simp: take_batch_def drop_batch_def dest: in_set_takeD in_set_dropD)

lemma sorted_batch:
  "sorted_wrt P (map f xs) \<Longrightarrow> sorted_wrt P (map f (take_batch b k xs))"
  "sorted_wrt P (map f xs) \<Longrightarrow> sorted_wrt P (map f (drop_batch b k xs))"
  by (simp_all add: take_batch_def drop_batch_def take_map [symmetric] drop_map [symmetric] sorted_wrt_take sorted_wrt_drop)

lemma remaining_sorted:
  "sorted_wrt (<) (map msg_sequence (queue st)) \<Longrightarrow> sorted_wrt (<) (map msg_sequence (remaining now b st))"
  by (simp add: remaining_def Let_def sorted_live sorted_batch)

lemma set_remaining: "set (remaining now b st) \<subseteq> set (queue st)"
  using set_live [of "config st" now "queue st"] set_batch(2) [of b 0 "live (config st) now (queue st)"]
  by (auto simp: remaining_def Let_def)

lemma set_fresh: "set (fresh now r b st) \<subseteq> set (queue st)"
  by (simp only: fresh_def Let_def) (rule order_trans [OF set_batch(1)], use set_live in auto)

lemma fresh_sorted:
  "sorted_wrt (<) (map msg_sequence (queue st)) \<Longrightarrow> sorted_wrt (<) (map msg_sequence (fresh now r b st))"
  by (simp add: fresh_def Let_def sorted_live sorted_batch sorted_wrt_map_filter)

lemma length_remaining: "length (remaining now b st) \<le> length (queue st)"
  using length_live [of "config st" now "queue st"]
    length_take_drop_batch [of b 0 "live (config st) now (queue st)"]
  by (simp add: remaining_def Let_def)

lemma length_single:
  "\<not> ch_multi st \<Longrightarrow> length (fresh now r b st) + length (remaining now b st) + dead_count (config st) now (queue st) = length (queue st)"
  using length_live [of "config st" now "queue st"]
    length_take_drop_batch [of b 0 "live (config st) now (queue st)"]
  by (simp add: remaining_def fresh_def Let_def)

text \<open>Shortening the queue keeps the storage invariant.\<close>

lemma storage_inv_shorter:
  assumes "storage_inv st" and "set q \<subseteq> set (queue st)" and "length q \<le> length (queue st)"
    and "sorted_wrt (<) (map msg_sequence q)"
  shows "storage_inv (st\<lparr>queue := q, high_watermark_reported := h\<rparr>)"
  using assms by (auto simp: storage_inv_def held_messages_iff own_message_def Ball_def)

lemma advance_cursor_ok:
  assumes "smap_wf d" and "\<forall>v \<in> snd ` set d. v < n" and "\<forall>m \<in> set new. msg_sequence m < n"
  shows "smap_wf (advance_cursor r new d)" and "\<forall>v \<in> snd ` set (advance_cursor r new d). v < n"
  using assms set_smap_put [of r "msg_sequence (last new)" d] last_in_set [of new]
  by (auto simp: advance_cursor_def)

lemma channel_inv_consume_queue [inv_intros]:
  assumes inv: "channel_inv st" and nl: "\<not> ch_latest_style st"
    and con: "consume_from_state now r b st ctx = (out, st', ctx')"
  shows "channel_inv st'"
proof (cases "barrier_waiting st")
  case True
  with inv con show ?thesis by (simp add: consume_waiting)
next
  case False
  note sh = consume_from_state_shape [OF con False]
  let ?s = "st\<lparr>queue := queue st', high_watermark_reported := high_watermark_reported st'\<rparr>"
  let ?d = "if ch_multi st then advance_cursor r (fresh now r b st) (delivered_queue_sequences st)
            else delivered_queue_sequences st"
  have st: "storage_inv st" and seq: "\<forall>m \<in> set (queue st). msg_sequence m < next_sequence st"
    using inv by (auto simp: channel_inv_def storage_inv_def own_message_def held_messages_iff)
  have "storage_inv ?s"
  proof (rule storage_inv_shorter [OF st])
    have q: "queue st' = remaining now b st" using sh by (elim conjE)
    show "set (queue st') \<subseteq> set (queue st)" "length (queue st') \<le> length (queue st)"
      unfolding q by (rule set_remaining length_remaining)+
    show "sorted_wrt (<) (map msg_sequence (queue st'))"
      unfolding q using st by (intro remaining_sorted) (simp add: storage_inv_def)
  qed
  then have "storage_inv st'"
  proof (rule storage_inv_frame)
    show "same_frame ?s st'" using sh by (elim conjE)
  qed
  moreover have "cursor_inv st'"
  proof -
    have new: "\<forall>m \<in> set (fresh now r b st). msg_sequence m < next_sequence st"
      using seq set_fresh [of now r b st] by blast
    have old: "smap_wf (delivered_queue_sequences st)" "\<forall>v \<in> snd ` set (delivered_queue_sequences st). v < next_sequence st"
      using inv by (simp_all add: channel_inv_def cursor_inv_def)
    from advance_cursor_ok [OF old new] old
    have d: "smap_wf ?d" "\<forall>v \<in> snd ` set ?d. v < next_sequence st" by simp_all
    have dq: "delivered_queue_sequences st' = capped_queue ?d (case queue st' of [] \<Rightarrow> 0 | m # _ \<Rightarrow> msg_sequence m)"
      using sh by (elim conjE)
    have "\<forall>v \<in> snd ` set (delivered_queue_sequences st'). v < next_sequence st"
      unfolding dq using d(2) capped_queue_ok(2) [of ?d] by (meson image_mono subsetD)
    moreover have "same_frame ?s st'" using sh by (elim conjE)
    moreover have "smap_wf (delivered_queue_sequences st')" "length (delivered_queue_sequences st') \<le> kMaxTrackedReaders"
      unfolding dq using capped_queue_ok(1) [OF d(1)] by simp_all
    moreover have "cursor_inv st" using inv by (simp add: channel_inv_def)
    ultimately show ?thesis by (simp add: cursor_inv_def same_frame_def)
  qed
  moreover have "accounting_inv st'"
    using inv sh nl length_single [of st now r b] length_remaining [of now b st] length_live [of "config st" now "queue st"]
    by (auto simp: channel_inv_def accounting_inv_def same_frame_def stale_only_def is_latest_style_def remaining_def Let_def)
  ultimately show ?thesis by (simp add: channel_inv_def)
qed

section \<open>Snapshots and the epoch boundary\<close>

lemma snapshot_queue_shape:
  assumes "snapshot_from_state now b st ctx = (out, st', ctx')" and "\<not> ch_latest_style st"
  shows "out = take_batch b 0 (live (config st) now (queue st)) \<and> queue st' = live (config st) now (queue st) \<and>
     same_frame (st\<lparr>queue := queue st', high_watermark_reported := high_watermark_reported st'\<rparr>) st' \<and>
     delivered_queue_sequences st' = delivered_queue_sequences st \<and>
     stale_only (dead_count (config st) now (queue st)) ((metrics st)\<lparr>depth := length (queue st')\<rparr>) (metrics st') \<and>
     ctx_quiet ctx ctx'"
proof -
  obtain o1 k1 s1 c1 where loop: "snapshot_loop now b (queue st) [] [] (st, ctx) = (o1, k1, s1, c1)"
    by (metis prod_cases4)
  from snapshot_loop_shape [OF loop] assms loop show ?thesis
    by (auto simp: snapshot_from_state_def same_frame_def stale_only_def maybe_rearm_high_watermark_def Let_def split: if_splits)
qed

lemma channel_inv_snapshot [inv_intros]:
  assumes inv: "channel_inv st" and snap: "snapshot_from_state now b st ctx = (out, st', ctx')"
  shows "channel_inv st'"
proof (cases "ch_latest_style st")
  case ls: True
  show ?thesis
  proof (cases "\<exists>m. latest st = Some m \<and> expired (config st) now m")
    case False
    with inv snap ls show ?thesis by (auto simp: snapshot_from_state_def message_expired_iff split: option.splits)
  next
    case True
    then obtain m where m: "latest st = Some m" "expired (config st) now m" by blast
    obtain s c where d: "mark_stale_drop m (st\<lparr>latest := None\<rparr>, ctx) = (s, c)" by fastforce
    with m ls snap have "st' = upd_metrics (\<lambda>x. x\<lparr>depth := 0\<rparr>) s"
      by (simp add: snapshot_from_state_def message_expired_iff Let_def)
    with channel_inv_expire_latest [OF inv ls m(1) d] show ?thesis by simp
  qed
next
  case False
  note sh = snapshot_queue_shape [OF snap False]
  have "storage_inv st" using inv by (simp add: channel_inv_def)
  then have "storage_inv (st\<lparr>queue := queue st', high_watermark_reported := high_watermark_reported st'\<rparr>)"
    using sh length_live [of "config st" now "queue st"] set_live [of "config st" now "queue st"]
    by (intro storage_inv_shorter) (auto simp: storage_inv_def sorted_live)
  moreover have "cursor_inv (st\<lparr>queue := queue st', high_watermark_reported := high_watermark_reported st'\<rparr>)"
    using inv by (simp add: channel_inv_def cursor_inv_def)
  ultimately have "storage_inv st'" "cursor_inv st'" using sh by (auto intro: storage_inv_frame cursor_inv_frame)
  moreover have "accounting_inv st'"
    using inv sh False length_live [of "config st" now "queue st"]
    by (auto simp: channel_inv_def accounting_inv_def same_frame_def stale_only_def is_latest_style_def Let_def)
  ultimately show ?thesis by (simp add: channel_inv_def)
qed

lemma channel_inv_advance [inv_intros]:
  assumes "channel_inv st"
  shows "channel_inv (fst (advance_state st))"
proof (cases "pending_previous_tick st")
  case (Some m)
  with assms show ?thesis
    by (auto simp: channel_inv_defs advance_state_def is_latest_style_def Let_def)
qed (use assms in \<open>simp add: advance_state_def\<close>)

end
