(* ===== verification/Channel_Delivery.thy ===== *)
theory Channel_Delivery
  imports Channel_Laws
begin

text \<open>
  Runs of one channel: any sequence of the operations the bus performs on it, with the log of what each
  reader received. The invariant of \<open>Channel_Laws\<close> holds along every run, and readers see sequence numbers
  in strictly increasing order. On the channels that keep a latest value, \<open>replaced_run\<close> counts the values that a run
  replaces without counting them as overwritten.
\<close>

lemmas consume_from_state_facts =
  consume_from_state_shape [THEN conjunct1]
  consume_from_state_shape [THEN conjunct2, THEN conjunct1]
  consume_from_state_shape [THEN conjunct2, THEN conjunct2, THEN conjunct1]

section \<open>Runs\<close>

datatype channel_op =
    Publish int runtime_payload "event_timestamp option" invocation_metadata
  | Preflight runtime_payload nat
  | Drain int string nat
  | Snapshot int nat
  | Advance

fun channel_exec ::
    "channel_op \<Rightarrow> channel_state \<times> bus_ctx \<Rightarrow> (string \<times> channel_message) list \<times> channel_state \<times> bus_ctx" where
  "channel_exec (Publish now p ts md) (st, ctx) = ([], snd (commit_channel now p ts md st ctx))"
| "channel_exec (Preflight p planned) (st, ctx) = ([], snd (preflight_channel p planned st ctx))"
| "channel_exec (Drain now r b) (st, ctx) =
     (let (ms, sc) = drain_state now r b st ctx in (map (\<lambda>m. (r, m)) ms, sc))"
| "channel_exec (Snapshot now b) (st, ctx) = ([], snd (snapshot_from_state now b st ctx))"
| "channel_exec Advance (st, ctx) = ([], fst (advance_state st), ctx)"

fun channel_run ::
    "channel_op list \<Rightarrow> channel_state \<times> bus_ctx \<Rightarrow> (string \<times> channel_message) list \<times> channel_state \<times> bus_ctx" where
  "channel_run [] sc = ([], sc)"
| "channel_run (op # ops) sc =
     (let (log, sc1) = channel_exec op sc; (log', sc2) = channel_run ops sc1 in (log @ log', sc2))"

fun op_reader :: "channel_op \<Rightarrow> string option" where
  "op_reader (Drain now r b) = Some r"
| "op_reader _ = None"

inductive channel_step :: "channel_state \<times> bus_ctx \<Rightarrow> channel_state \<times> bus_ctx \<Rightarrow> bool" where
  exec: "channel_step sc (snd (channel_exec op sc))"

lemma channel_run_reaches: "channel_step\<^sup>*\<^sup>* sc (snd (channel_run ops sc))"
proof (induction ops arbitrary: sc)
  case (Cons op ops)
  have "channel_step sc (snd (channel_exec op sc))" by (rule exec)
  moreover have "channel_step\<^sup>*\<^sup>* (snd (channel_exec op sc)) (snd (channel_run ops (snd (channel_exec op sc))))"
    by (rule Cons.IH)
  ultimately show ?case
    by (simp add: case_prod_unfold Let_def)
qed simp

section \<open>The invariant along a run\<close>

lemma refuse_large_copy_frame:
  "same_frame st (refuse_large_copy why st)" "delivered_queue_sequences (refuse_large_copy why st) = delivered_queue_sequences st"
  "stale_only 0 (metrics st) (metrics (refuse_large_copy why st))"
  by (simp_all add: refuse_large_copy_def same_frame_def stale_only_def)

lemma channel_inv_refuse: "channel_inv st \<Longrightarrow> channel_inv (refuse_large_copy why st)"
  using storage_inv_frame [OF _ refuse_large_copy_frame(1), of st why]
    cursor_inv_frame [OF _ refuse_large_copy_frame(1,2), of st why]
  by (auto simp: channel_inv_def accounting_inv_def refuse_large_copy_def Let_def)

lemma prepare_cases:
  "prepare_payload_for_state p st =
     (if cfg_copy_policy (config st) = KCopy \<and> is_large_payload p
      then (reject (large_payload_copy_reason p), None, False, refuse_large_copy (large_payload_copy_reason p) st)
      else (accept, Some p, cfg_copy_policy (config st) = KCopy, st))"
  by (auto simp: prepare_payload_for_state_def large_payload_copy_reason_def Let_def is_large_payload_def
      copy_text_payload_text make_shared_payload_def)

lemma preflight_payload_cases:
  "preflight_payload_for_state p st =
     (if cfg_copy_policy (config st) = KCopy \<and> is_large_payload p
      then (reject (large_payload_copy_reason p), refuse_large_copy (large_payload_copy_reason p) st)
      else (accept, st))"
  by (auto simp: preflight_payload_for_state_def large_payload_copy_reason_def Let_def is_large_payload_def)

lemma channel_inv_commit [inv_intros]: "channel_inv st \<Longrightarrow> channel_inv (fst (snd (commit_channel now p ts md st ctx)))"
  using channel_inv_publish [of st now "Some p" ts "cfg_copy_policy (config st) = KCopy" md ctx]
  by (cases "publish_to_state now (Some p) ts (cfg_copy_policy (config st) = KCopy) md st ctx")
    (simp add: commit_channel_def prepare_cases channel_inv_refuse)

lemma channel_inv_preflight [inv_intros]: "channel_inv st \<Longrightarrow> channel_inv (fst (snd (preflight_channel p n st ctx)))"
proof -
  assume inv: "channel_inv st"
  have "channel_inv (fst (snd (preflight_publish_to_state n st ctx)))"
  proof (cases "overflow_rejection (next_sequence st) st ctx")
    case (Some r)
    with channel_inv_reject [OF inv, of "next_sequence st" ctx "fst r" "fst (snd r)" "snd (snd r)"] inv show ?thesis
      by (simp add: preflight_publish_to_state_def)
  qed (use inv in \<open>simp add: preflight_publish_to_state_def\<close>)
  with inv show ?thesis by (simp add: preflight_channel_def preflight_payload_cases channel_inv_refuse)
qed

lemma channel_inv_drain [inv_intros]: "channel_inv st \<Longrightarrow> channel_inv (fst (snd (drain_state now r b st ctx)))"
proof (cases "ch_latest_style st")
  case True
  obtain m s c where "consume_latest_from_state now r st ctx = (m, s, c)" by (metis prod_cases3)
  with True channel_inv_consume_latest [OF _ True this] show "channel_inv st \<Longrightarrow> ?thesis" by (simp add: drain_state_def)
next
  case False
  obtain m s c where "consume_from_state now r b st ctx = (m, s, c)" by (metis prod_cases3)
  with False channel_inv_consume_queue [OF _ False this] show "channel_inv st \<Longrightarrow> ?thesis" by (simp add: drain_state_def)
qed

lemma channel_inv_snapshot_snd: "channel_inv st \<Longrightarrow> channel_inv (fst (snd (snapshot_from_state now b st ctx)))"
  by (cases "snapshot_from_state now b st ctx") (simp add: channel_inv_snapshot)

lemma channel_inv_exec [inv_intros]: "channel_inv st \<Longrightarrow> channel_inv (fst (snd (channel_exec op (st, ctx))))"
  by (cases op)
    (simp_all add: channel_inv_commit channel_inv_preflight channel_inv_snapshot_snd channel_inv_drain channel_inv_advance
      case_prod_unfold Let_def)

interpretation channel_runs: transition_system
  "\<lambda>sc. \<exists>e. fst sc = channel_state_for_edge e" channel_step "\<lambda>sc. channel_inv (fst sc)"
proof
  show "channel_inv (fst t)" if "channel_inv (fst s)" "channel_step s t" for s t
    using that(2,1) by cases (use channel_inv_exec in \<open>metis prod.collapse\<close>)
qed (auto intro: channel_inv_initial)

section \<open>How far a reader has read\<close>

text \<open>
  \<open>reader_mark st r\<close>: every message delivered to \<open>r\<close> so far has a sequence number at most this mark, and every
  later one is above it. On a single-reader queue the mark is the floor of the queue and is common to all
  reader names.
\<close>

definition queue_floor :: "channel_message list \<Rightarrow> nat \<Rightarrow> nat" where
  "queue_floor q n = (case q of [] \<Rightarrow> n - 1 | m # _ \<Rightarrow> msg_sequence m - 1)"

abbreviation single_queue :: "channel_state \<Rightarrow> bool" where
  "single_queue st \<equiv> \<not> ch_latest_style st \<and> \<not> ch_multi st"

definition reader_mark :: "channel_state \<Rightarrow> string \<Rightarrow> nat" where
  "reader_mark st r =
     (if ch_latest_style st then smap_get 0 (delivered_latest_sequences st) r
      else if ch_multi st then smap_get 0 (delivered_queue_sequences st) r
      else queue_floor (queue st) (next_sequence st))"

definition readers_of :: "channel_state \<Rightarrow> string set" where
  "readers_of st = fst ` set (delivered_latest_sequences st) \<union> fst ` set (delivered_queue_sequences st)"

lemma queue_floor_mono:
  assumes "sorted_wrt (<) (map msg_sequence q)" and "\<forall>m \<in> set q. msg_sequence m < n"
    and "set q' \<subseteq> set q" and "n \<le> n'"
  shows "queue_floor q n \<le> queue_floor q' n'"
proof (cases q')
  case Nil
  with assms(2,4) show ?thesis by (cases q) (auto simp: queue_floor_def)
next
  case (Cons m ms)
  with assms(3) have "m \<in> set q" by auto
  with assms(1) Cons show ?thesis
    by (cases q) (auto simp: queue_floor_def less_imp_le intro!: diff_le_mono)
qed

lemma queue_floor_snoc: "msg_sequence m = n \<Longrightarrow> queue_floor (q @ [m]) n' = queue_floor q n"
  by (cases q) (auto simp: queue_floor_def)

lemma reader_mark_frame:
  "same_frame st st' \<Longrightarrow> delivered_queue_sequences st' = delivered_queue_sequences st \<Longrightarrow> reader_mark st' r = reader_mark st r"
  by (simp add: reader_mark_def same_frame_def)

lemma readers_of_frame:
  "same_frame st st' \<Longrightarrow> delivered_queue_sequences st' = delivered_queue_sequences st \<Longrightarrow> readers_of st' = readers_of st"
  by (simp add: readers_of_def same_frame_def)

text \<open>One operation moves the marks forward only, and tracks no reader but its own.\<close>

definition moves_on :: "channel_state \<Rightarrow> channel_state \<Rightarrow> bool" where
  "moves_on st st' \<longleftrightarrow>
     config st' = config st \<and> (\<forall>r. reader_mark st r \<le> reader_mark st' r) \<and> readers_of st' = readers_of st"

lemma moves_on_frame: "same_frame st st' \<Longrightarrow> delivered_queue_sequences st' = delivered_queue_sequences st \<Longrightarrow> moves_on st st'"
  by (simp add: moves_on_def reader_mark_frame readers_of_frame same_frame_config)

lemma moves_on_shrink:
  assumes inv: "channel_inv st" and fr: "same_frame (st\<lparr>queue := q, high_watermark_reported := h\<rparr>) st'"
    and dq: "delivered_queue_sequences st' = delivered_queue_sequences st" and sub: "set q \<subseteq> set (queue st)"
  shows "moves_on st st'"
proof -
  have "queue_floor (queue st) (next_sequence st) \<le> queue_floor q (next_sequence st)"
    using inv sub by (intro queue_floor_mono) (auto simp: channel_inv_defs)
  with fr dq show ?thesis by (auto simp: moves_on_def reader_mark_def readers_of_def same_frame_def)
qed

lemma moves_on_accept_queue:
  assumes inv: "channel_inv st" and nl: "\<not> ch_latest_style st"
    and acc: "accept_message (new_message now p ts md st) (stamped copied st) ctx = (res, st', ctx')"
  shows "moves_on st st'"
proof -
  let ?m = "new_message now p ts md st"
  have nl': "\<not> ch_latest_style (stamped copied st)" using nl by simp
  note sh = accept_queue_shape [OF acc nl']
  have q: "queue st' = drop (Suc (length (queue st)) - ch_capacity st) (queue st @ [?m])" using sh by simp
  have "queue_floor (queue st) (next_sequence st) = queue_floor (queue st @ [?m]) (Suc (next_sequence st))"
    by (simp add: queue_floor_snoc)
  also have "\<dots> \<le> queue_floor (queue st') (Suc (next_sequence st))"
  proof (rule queue_floor_mono)
    show "sorted_wrt (<) (map msg_sequence (queue st @ [?m]))" "\<forall>m \<in> set (queue st @ [?m]). msg_sequence m < Suc (next_sequence st)"
      using inv by (auto simp: channel_inv_defs sorted_wrt_append less_SucI)
    show "set (queue st') \<subseteq> set (queue st @ [?m])" unfolding q by (rule set_drop_subset)
  qed simp
  finally show ?thesis using sh by (simp add: moves_on_def reader_mark_def readers_of_def same_frame_def)
qed

lemma moves_on_publish:
  assumes inv: "channel_inv st" and pub: "publish_to_state now p ts copied md st ctx = (res, st', ctx')"
  shows "moves_on st st'"
proof (cases "full st \<and> \<not> evicting st")
  case False
  then have acc: "accept_message (new_message now p ts md st) (stamped copied st) ctx = (res, st', ctx')"
    using pub by (auto simp: publish_to_state_cases)
  show ?thesis
  proof (cases "ch_latest_style st")
    case True
    then show ?thesis
      using accept_latest_shape [OF acc] accept_previous_shape [OF acc]
      by (cases "cfg_type (config st) = KPreviousTick")
        (auto simp: moves_on_def reader_mark_def readers_of_def same_frame_def)
  qed (rule moves_on_accept_queue [OF inv _ acc])
next
  case True
  then have "overflow_rejection (next_sequence st) (stamped copied st) ctx \<noteq> None"
    by (simp add: overflow_rejection_None_iff evicting_def)
  with True pub have "overflow_rejection (next_sequence st) (stamped copied st) ctx = Some (res, st', ctx')"
    by (auto simp: publish_to_state_cases)
  note sh = overflow_rejection_shape [OF this]
  have "queue st \<noteq> []" using True inv by (auto simp: full_def channel_inv_defs)
  then have "queue_floor (queue st) (Suc (next_sequence st)) = queue_floor (queue st) (next_sequence st)"
    by (cases "queue st") (simp_all add: queue_floor_def)
  with sh show ?thesis by (auto simp: moves_on_def reader_mark_def readers_of_def same_frame_def)
qed

lemma moves_on_quiet_ops:
  assumes inv: "channel_inv st"
  shows "moves_on st (fst (snd (commit_channel now p ts md st ctx)))"
    and "moves_on st (fst (snd (preflight_channel p n st ctx)))"
    and "moves_on st (fst (snd (snapshot_from_state now b st ctx)))"
    and "moves_on st (fst (advance_state st))"
proof -
  have refuse: "moves_on st (refuse_large_copy why st)" for why
    by (intro moves_on_frame refuse_large_copy_frame)
  have here: "moves_on st st" by (simp add: moves_on_def)
  obtain r s c where pub: "publish_to_state now (Some p) ts (cfg_copy_policy (config st) = KCopy) md st ctx = (r, s, c)"
    by (metis prod_cases3)
  with moves_on_publish [OF inv pub] refuse show "moves_on st (fst (snd (commit_channel now p ts md st ctx)))"
    by (simp add: commit_channel_def prepare_cases)
  have "moves_on st (fst (snd (preflight_publish_to_state n st ctx)))"
  proof (cases "overflow_rejection (next_sequence st) st ctx")
    case (Some r)
    obtain a s c where r: "r = (a, s, c)" by (metis prod_cases3)
    have "moves_on st s"
      using overflow_rejection_shape [OF Some [unfolded r]] by (intro moves_on_frame) simp_all
    with Some r here show ?thesis by (simp add: preflight_publish_to_state_def)
  qed (simp add: preflight_publish_to_state_def here)
  with refuse show "moves_on st (fst (snd (preflight_channel p n st ctx)))"
    by (simp add: preflight_channel_def preflight_payload_cases)
  show "moves_on st (fst (advance_state st))"
    by (simp add: advance_state_def moves_on_def reader_mark_def readers_of_def is_latest_style_def)
  obtain ms s c where snap: "snapshot_from_state now b st ctx = (ms, s, c)" by (metis prod_cases3)
  show "moves_on st (fst (snd (snapshot_from_state now b st ctx)))"
  proof (cases "ch_latest_style st")
    case False
    note sh = snapshot_queue_shape [OF snap False]
    have "moves_on st s"
    proof (rule moves_on_shrink [OF inv])
      show "same_frame (st\<lparr>queue := queue s, high_watermark_reported := high_watermark_reported s\<rparr>) s"
        using sh by (elim conjE)
      show "delivered_queue_sequences s = delivered_queue_sequences st" using sh by (elim conjE)
      have "queue s = live (config st) now (queue st)" using sh by (elim conjE)
      then show "set (queue s) \<subseteq> set (queue st)" by (simp add: set_live)
    qed
    with snap show ?thesis by simp
  next
    case True
    then show ?thesis
      by (auto simp: snapshot_from_state_def mark_stale_drop_def moves_on_def reader_mark_def readers_of_def Let_def
          split: option.split)
  qed
qed

section \<open>Deliveries\<close>

lemma cursor_count:
  assumes "smap_wf d" and "fst ` set d \<subseteq> R" and "finite R" and "card R \<le> kMaxTrackedReaders"
  shows "length d \<le> kMaxTrackedReaders"
proof -
  have "length d = card (fst ` set d)" using smap_wf_distinct [OF assms(1)] by (metis distinct_card length_map list.set_map)
  also have "\<dots> \<le> card R" using assms by (intro card_mono)
  finally show ?thesis using assms(4) by simp
qed

text \<open>
  What a drain for reader \<open>r\<close> delivers lies strictly above \<open>r\<close>'s old mark, at most at its new mark, in
  increasing order. \<open>R\<close> is the set of reader names ever used; the cursors of up to
  \<^const>\<open>kMaxTrackedReaders\<close> of them are kept exactly.
\<close>

definition delivers :: "string set \<Rightarrow> string \<Rightarrow> channel_message list \<Rightarrow> channel_state \<Rightarrow> channel_state \<Rightarrow> bool" where
  "delivers R r ms st st' \<longleftrightarrow>
     config st' = config st \<and> (\<forall>q. reader_mark st q \<le> reader_mark st' q) \<and> readers_of st' \<subseteq> R \<and>
     sorted_wrt (<) (map msg_sequence ms) \<and>
     (\<forall>m \<in> set ms. reader_mark st r < msg_sequence m \<and> msg_sequence m \<le> reader_mark st' r)"

lemma delivers_latest:
  assumes inv: "channel_inv st" and ls: "ch_latest_style st" and R: "readers_of st \<subseteq> R" "r \<in> R" "finite R" "card R \<le> kMaxTrackedReaders"
    and con: "consume_latest_from_state now r st ctx = (x, st', ctx')"
  shows "delivers R r (case x of None \<Rightarrow> [] | Some m \<Rightarrow> [m]) st st'"
proof (cases "\<exists>m. latest st = Some m \<and> \<not> expired (config st) now m \<and>
    map_of (delivered_latest_sequences st) r \<noteq> Some (msg_sequence m)")
  case True
  then obtain m where m: "latest st = Some m" "\<not> expired (config st) now m"
    "map_of (delivered_latest_sequences st) r \<noteq> Some (msg_sequence m)" by blast
  let ?d = "smap_put r (msg_sequence m) (delivered_latest_sequences st)"
  note sh = consume_latest_deliver_shape [OF m con]
  have wf: "smap_wf (delivered_latest_sequences st)" using inv by (simp add: channel_inv_def cursor_inv_def)
  have "length ?d \<le> kMaxTrackedReaders"
    using R wf by (intro cursor_count [of _ R]) (auto simp: readers_of_def)
  then have d: "capped_latest ?d (msg_sequence m) = ?d" by (simp add: capped_latest_def)
  have "smap_get 0 (delivered_latest_sequences st) r < msg_sequence m"
  proof (cases "map_of (delivered_latest_sequences st) r")
    case None
    moreover have "own_message st m" using inv m(1) by (simp add: channel_inv_def storage_inv_def held_messages_iff)
    ultimately show ?thesis by (simp add: smap_get_def own_message_def)
  next
    case (Some v)
    then have "v \<in> snd ` set (delivered_latest_sequences st)" by (force dest: map_of_SomeD)
    then have "v \<le> msg_sequence m" using inv m(1) by (auto simp: channel_inv_def cursor_inv_def)
    with Some m(3) show ?thesis by (simp add: smap_get_def)
  qed
  with sh d ls R show ?thesis
    by (auto simp: delivers_def reader_mark_def readers_of_def same_frame_def less_imp_le)
next
  case False
  with con ls have "x = None \<and> moves_on st st'"
    by (auto simp: consume_latest_from_state_def message_expired_iff mark_stale_drop_def moves_on_def reader_mark_def readers_of_def Let_def
        split: option.splits if_splits)
  with R show ?thesis by (simp add: delivers_def moves_on_def)
qed

lemma floor_below:
  "sorted_wrt (<) (map msg_sequence q) \<Longrightarrow> \<forall>m \<in> set q. 1 \<le> msg_sequence m \<Longrightarrow> m \<in> set q \<Longrightarrow> queue_floor q n < msg_sequence m"
  by (cases q) (auto simp: queue_floor_def less_imp_diff_less Suc_le_eq)

lemma floor_above:
  "sorted_wrt (<) (map msg_sequence (xs @ ys)) \<Longrightarrow> m \<in> set xs \<Longrightarrow> msg_sequence m < n \<Longrightarrow> msg_sequence m \<le> queue_floor ys n"
  by (cases ys) (auto simp: queue_floor_def sorted_wrt_append)

lemma delivers_single:
  assumes inv: "channel_inv st" and sq: "single_queue st" and R: "readers_of st \<subseteq> R" and nb: "\<not> barrier_waiting st"
    and con: "consume_from_state now r b st ctx = (out, st', ctx')"
  shows "delivers R r out st st'"
proof -
  note sh = consume_from_state_shape [OF con nb]
  note out = consume_from_state_facts(1) [OF con nb] and q = consume_from_state_facts(2) [OF con nb]
    and fr = consume_from_state_facts(3) [OF con nb]
  have dq: "delivered_queue_sequences st' = delivered_queue_sequences st"
    using sh sq inv by (simp add: capped_queue_def channel_inv_def cursor_inv_def)
  have srt: "sorted_wrt (<) (map msg_sequence (queue st))" and pos: "\<forall>m \<in> set (queue st). 1 \<le> msg_sequence m"
    and lt: "\<forall>m \<in> set (queue st). msg_sequence m < next_sequence st"
    using inv by (auto simp: channel_inv_defs)
  have split: "fresh now r b st @ remaining now b st = live (config st) now (queue st)"
    using sq by (simp add: fresh_def remaining_def Let_def)
  have mv: "moves_on st st'" using moves_on_shrink [OF inv fr dq] q set_remaining by simp
  have mark: "reader_mark st r = queue_floor (queue st) (next_sequence st)"
    "reader_mark st' r = queue_floor (remaining now b st) (next_sequence st)"
    using sq fr q by (simp_all add: reader_mark_def same_frame_def)
  have "\<forall>m \<in> set (fresh now r b st). reader_mark st r < msg_sequence m \<and> msg_sequence m \<le> reader_mark st' r"
    unfolding mark using set_fresh [of now r b st] srt pos lt sorted_live [OF srt, of "config st" now] split
    by (metis floor_above floor_below subsetD)
  with mv R fresh_sorted [OF srt] show ?thesis by (simp add: delivers_def moves_on_def out comp_def)
qed

lemma delivers_multi:
  assumes inv: "channel_inv st" and nl: "\<not> ch_latest_style st" and mu: "ch_multi st"
    and R: "readers_of st \<subseteq> R" "r \<in> R" "finite R" "card R \<le> kMaxTrackedReaders" and nb: "\<not> barrier_waiting st"
    and con: "consume_from_state now r b st ctx = (out, st', ctx')"
  shows "delivers R r out st st'"
proof -
  let ?new = "fresh now r b st" and ?d = "delivered_queue_sequences st"
  note sh = consume_from_state_shape [OF con nb]
  note out = consume_from_state_facts(1) [OF con nb] and fr = consume_from_state_facts(3) [OF con nb]
  have wf: "smap_wf ?d" using inv by (simp add: channel_inv_def cursor_inv_def)
  have "fst ` set (advance_cursor r ?new ?d) \<subseteq> R" "smap_wf (advance_cursor r ?new ?d)"
    using R wf by (auto simp: advance_cursor_def readers_of_def)
  then have "length (advance_cursor r ?new ?d) \<le> kMaxTrackedReaders" using R by (intro cursor_count)
  then have dq: "delivered_queue_sequences st' = advance_cursor r ?new ?d"
    using sh mu by (simp add: capped_queue_def)
  have srt: "sorted_wrt (<) (map msg_sequence ?new)"
    using inv by (intro fresh_sorted) (simp add: channel_inv_def storage_inv_def)
  have above: "\<forall>m \<in> set ?new. smap_get 0 ?d r < msg_sequence m"
  proof
    fix m assume "m \<in> set ?new"
    then have "m \<in> set (filter (\<lambda>m. smap_get 0 ?d r < msg_sequence m) (live (config st) now (queue st)))"
      using mu set_batch(1) by (fastforce simp: fresh_def Let_def)
    then show "smap_get 0 ?d r < msg_sequence m" by simp
  qed
  have below: "\<forall>m \<in> set ?new. msg_sequence m \<le> smap_get 0 (advance_cursor r ?new ?d) r"
    using srt by (cases ?new rule: rev_cases) (auto simp: advance_cursor_def sorted_wrt_append less_imp_le)
  have "smap_get 0 ?d q \<le> smap_get 0 (advance_cursor r ?new ?d) q" for q
    using above by (auto simp: advance_cursor_def less_imp_le)
  moreover have "readers_of st' \<subseteq> R"
    using R fr dq by (auto simp: readers_of_def same_frame_def advance_cursor_def split: if_splits)
  ultimately show ?thesis
    using fr dq nl mu above below srt
    by (simp add: delivers_def reader_mark_def same_frame_def out comp_def)
qed

lemma delivers_drain:
  assumes inv: "channel_inv st" and R: "readers_of st \<subseteq> R" "r \<in> R" "finite R" "card R \<le> kMaxTrackedReaders"
    and dr: "drain_state now r b st ctx = (ms, st', ctx')"
  shows "delivers R r ms st st'"
proof (cases "ch_latest_style st")
  case True
  obtain x s c where "consume_latest_from_state now r st ctx = (x, s, c)" by (metis prod_cases3)
  with delivers_latest [OF inv True R this] dr True show ?thesis by (auto simp: drain_state_def)
next
  case nl: False
  then have con: "consume_from_state now r b st ctx = (ms, st', ctx')" using dr by (simp add: drain_state_def)
  show ?thesis
  proof (cases "barrier_waiting st")
    case True
    with con R show ?thesis by (simp add: consume_waiting delivers_def)
  next
    case False
    with delivers_single [OF inv _ R(1) False con] delivers_multi [OF inv nl _ R False con] nl show ?thesis by blast
  qed
qed

text \<open>Reader names that share a mark: one name alone, or all names of a single-reader queue.\<close>

definition shared_mark :: "channel_state \<Rightarrow> string set \<Rightarrow> bool" where
  "shared_mark st S \<longleftrightarrow> (\<exists>r. S = {r}) \<or> single_queue st"

lemma shared_mark_eq: "shared_mark st S \<Longrightarrow> r \<in> S \<Longrightarrow> r' \<in> S \<Longrightarrow> reader_mark st r = reader_mark st r'"
  by (auto simp: shared_mark_def reader_mark_def)

definition seqs_of :: "string set \<Rightarrow> (string \<times> channel_message) list \<Rightarrow> nat list" where
  "seqs_of S log = map (msg_sequence \<circ> snd) (filter (\<lambda>(r, m). r \<in> S) log)"

lemma seqs_of_append [simp]: "seqs_of S (xs @ ys) = seqs_of S xs @ seqs_of S ys"
  by (simp add: seqs_of_def)

lemma seqs_of_one: "seqs_of S (map (\<lambda>m. (r, m)) ms) = (if r \<in> S then map msg_sequence ms else [])"
  by (induction ms) (auto simp: seqs_of_def)

text \<open>One operation, seen by a group of readers that share a mark.\<close>

lemma exec_delivers:
  assumes inv: "channel_inv st" and R: "readers_of st \<subseteq> R" "finite R" "card R \<le> kMaxTrackedReaders"
    and op: "set_option (op_reader op) \<subseteq> R" and S: "shared_mark st S" and s: "s \<in> S"
    and ex: "channel_exec op (st, ctx) = (log, st', ctx')"
  shows "config st' = config st \<and> readers_of st' \<subseteq> R \<and> reader_mark st s \<le> reader_mark st' s \<and>
     sorted_wrt (<) (seqs_of S log) \<and> (\<forall>n \<in> set (seqs_of S log). reader_mark st s < n \<and> n \<le> reader_mark st' s)"
proof (cases "op_reader op")
  case None
  then have "log = [] \<and> moves_on st st'"
    using ex moves_on_quiet_ops [OF inv] by (cases op) (auto simp: prod_eq_iff)
  with R show ?thesis by (simp add: moves_on_def seqs_of_def)
next
  case (Some r)
  then obtain now b where o: "op = Drain now r b" by (cases op) simp_all
  obtain ms s' c where dr: "drain_state now r b st ctx = (ms, s', c)" by (metis prod_cases3)
  with ex o have log: "log = map (\<lambda>m. (r, m)) ms" "st' = s'" by auto
  have "r \<in> R" using op Some by simp
  from delivers_drain [OF inv R(1) this R(2,3) dr] log have d: "delivers R r ms st st'" by simp
  have S': "shared_mark st' S" using S d by (auto simp: shared_mark_def delivers_def)
  show ?thesis
  proof (cases "r \<in> S")
    case True
    with d shared_mark_eq [OF S True s] shared_mark_eq [OF S' True s] log show ?thesis
      by (auto simp: delivers_def seqs_of_one)
  qed (use d log in \<open>simp add: delivers_def seqs_of_one\<close>)
qed

lemma run_delivers:
  assumes "channel_inv st" and "readers_of st \<subseteq> R" "finite R" "card R \<le> kMaxTrackedReaders"
    and "\<forall>op \<in> set ops. set_option (op_reader op) \<subseteq> R" and "shared_mark st S" and "s \<in> S"
    and "channel_run ops (st, ctx) = (log, st', ctx')"
  shows "sorted_wrt (<) (seqs_of S log) \<and> (\<forall>n \<in> set (seqs_of S log). reader_mark st s < n)"
  using assms
proof (induction ops arbitrary: st ctx log st' ctx')
  case (Cons op ops)
  obtain l1 s1 c1 where e: "channel_exec op (st, ctx) = (l1, s1, c1)" by (metis prod_cases3)
  obtain l2 s2 c2 where run: "channel_run ops (s1, c1) = (l2, s2, c2)" by (metis prod_cases3)
  have log: "log = l1 @ l2" using Cons.prems(8) e run by auto
  have op: "set_option (op_reader op) \<subseteq> R" and ops: "\<forall>op \<in> set ops. set_option (op_reader op) \<subseteq> R"
    using Cons.prems(5) by auto
  note d = exec_delivers [OF Cons.prems(1-4) op Cons.prems(6,7) e]
  have "channel_inv s1" using channel_inv_exec [OF Cons.prems(1), of op ctx] e by simp
  moreover have "shared_mark s1 S" using d Cons.prems(6) by (simp add: shared_mark_def)
  ultimately have "sorted_wrt (<) (seqs_of S l2) \<and> (\<forall>n \<in> set (seqs_of S l2). reader_mark s1 s < n)"
    using Cons.IH [OF _ _ Cons.prems(3,4) ops _ Cons.prems(7) run] d by blast
  with d show ?case by (fastforce simp: log sorted_wrt_append)
qed (simp add: seqs_of_def)

lemma readers_of_initial [simp]: "readers_of (channel_state_for_edge e) = {}"
  by (simp add: readers_of_def channel_state_for_edge_def Let_def)

section \<open>A full multi-reader queue under a rejecting policy\<close>

definition wedged :: "channel_state \<Rightarrow> bool" where
  "wedged st \<longleftrightarrow> \<not> ch_latest_style st \<and> ch_multi st \<and> cfg_lifespan (config st) \<le> 0 \<and>
     \<not> evicting st \<and> ch_capacity st \<le> length (queue st)"

lemma wedged_live: "wedged st \<Longrightarrow> live (config st) now (queue st) = queue st"
  by (auto simp: wedged_def live_def expired_def filter_id_conv)

lemma wedged_rejects:
  assumes w: "wedged st"
  shows "\<not> accepted (fst (commit_channel now p ts md st ctx)) \<and>
     wedged (fst (snd (commit_channel now p ts md st ctx))) \<and>
     queue (fst (snd (commit_channel now p ts md st ctx))) = queue st"
proof (cases "cfg_copy_policy (config st) = KCopy \<and> is_large_payload p")
  case True
  with w show ?thesis by (simp add: commit_channel_def prepare_cases refuse_large_copy_def wedged_def evicting_def)
next
  case False
  let ?s = "stamped (cfg_copy_policy (config st) = KCopy) st"
  have f: "full st \<and> \<not> evicting st" using w by (simp add: wedged_def full_def)
  then obtain res s c where r: "overflow_rejection (next_sequence st) ?s ctx = Some (res, s, c)"
    using overflow_rejection_None_iff [of "next_sequence st" ?s ctx] by (auto simp: evicting_def)
  from overflow_rejection_shape [OF r] have "same_frame ?s s" "\<not> accepted res" by simp_all
  with f r w False show ?thesis
    by (auto simp: commit_channel_def prepare_cases publish_to_state_cases same_frame_def wedged_def evicting_def)
qed

lemma wedged_exec:
  assumes w: "wedged st"
  shows "wedged (fst (snd (channel_exec op (st, ctx)))) \<and> queue (fst (snd (channel_exec op (st, ctx)))) = queue st"
proof (cases op)
  case (Publish now p ts md)
  with wedged_rejects [OF w] show ?thesis by simp
next
  case (Preflight p n)
  obtain res s c where r: "overflow_rejection (next_sequence st) st ctx = Some (res, s, c)"
    using w overflow_rejection_None_iff [of "next_sequence st" st ctx] by (auto simp: wedged_def)
  from overflow_rejection_shape [OF r] have "same_frame st s" by simp
  with r w Preflight show ?thesis
    by (simp add: preflight_channel_def preflight_payload_cases preflight_publish_to_state_def refuse_large_copy_def
        same_frame_def wedged_def evicting_def)
next
  case (Drain now r b)
  have nb: "\<not> barrier_waiting st" using w by (simp add: wedged_def barrier_waiting_def)
  obtain out s c where con: "consume_from_state now r b st ctx = (out, s, c)" by (metis prod_cases3)
  note f = consume_from_state_facts [OF con nb]
  have q: "queue s = queue st" using f(2) w wedged_live [OF w] by (simp add: remaining_def wedged_def)
  have "wedged s" using f(3) w q by (simp add: same_frame_def wedged_def evicting_def)
  with w q con Drain show ?thesis by (simp add: drain_state_def wedged_def)
next
  case (Snapshot now b)
  have nl: "\<not> ch_latest_style st" using w by (simp add: wedged_def)
  obtain out s c where snap: "snapshot_from_state now b st ctx = (out, s, c)" by (metis prod_cases3)
  note sh = snapshot_queue_shape [OF snap nl]
  have q: "queue s = queue st" using sh wedged_live [OF w] by simp
  have "config s = config st" using sh by (simp add: same_frame_def)
  with q w snap Snapshot show ?thesis by (simp add: wedged_def evicting_def)
next
  case Advance
  with w show ?thesis by (auto simp: advance_state_def wedged_def is_latest_style_def)
qed

lemma wedged_run: "wedged st \<Longrightarrow> wedged (fst (snd (channel_run ops (st, ctx)))) \<and> queue (fst (snd (channel_run ops (st, ctx)))) = queue st"
proof (induction ops arbitrary: st ctx)
  case (Cons op ops)
  obtain l s c where e: "channel_exec op (st, ctx) = (l, s, c)" by (metis prod_cases3)
  with wedged_exec [OF Cons.prems, of op ctx] Cons.IH [of s c] show ?case by (simp add: case_prod_unfold Let_def)
qed simp

section \<open>Conservation on latest-style channels\<close>

text \<open>
  A latched channel replaces its value at every accepted publication, and a previous-tick channel replaces its
  visible value when it advances; neither counts the value it replaces as overwritten. \<open>replaced\<close> is the number of
  values an operation replaces in this way.
\<close>

fun replaced :: "channel_op \<Rightarrow> channel_state \<times> bus_ctx \<Rightarrow> nat" where
  "replaced (Publish now p ts md) (st, ctx) =
     (if cfg_type (config st) = KLatchedSnapshot \<and> latest st \<noteq> None \<and> accepted (fst (commit_channel now p ts md st ctx)) then 1 else 0)"
| "replaced Advance (st, ctx) =
     (if cfg_type (config st) = KPreviousTick \<and> latest st \<noteq> None \<and> pending_previous_tick st \<noteq> None then 1 else 0)"
| "replaced op (st, ctx) = 0"

fun replaced_run :: "channel_op list \<Rightarrow> channel_state \<times> bus_ctx \<Rightarrow> nat" where
  "replaced_run [] sc = 0"
| "replaced_run (op # ops) sc = replaced op sc + replaced_run ops (snd (channel_exec op sc))"

definition slot_count :: "channel_state \<Rightarrow> nat" where
  "slot_count st = (if latest st = None then 0 else 1) + (if pending_previous_tick st = None then 0 else 1)"

text \<open>What the counters and the slots of a latest-style channel account for.\<close>

definition slot_account :: "channel_state \<Rightarrow> nat" where
  "slot_account st = overwrite_count (metrics st) + stale_drop_count (metrics st) + slot_count st"

definition slot_balanced :: "nat \<Rightarrow> channel_state \<Rightarrow> channel_state \<Rightarrow> bool" where
  "slot_balanced k st st' \<longleftrightarrow> config st' = config st \<and>
     published_count (metrics st') + slot_account st = published_count (metrics st) + slot_account st' + k"

lemma expire_balanced:
  assumes "latest st = Some m" and "mark_stale_drop m (st\<lparr>latest := None\<rparr>, ctx) = (st1, ctx1)"
  shows "slot_balanced 0 st (upd_metrics (\<lambda>x. x\<lparr>depth := 0\<rparr>) st1)"
  using mark_stale_drop_shape [OF assms(2)] assms(1)
  by (auto simp: slot_balanced_def slot_account_def slot_count_def same_frame_def stale_only_def)

lemma commit_balanced:
  assumes inv: "channel_inv st" and ls: "ch_latest_style st"
  shows "slot_balanced (replaced (Publish now p ts md) (st, ctx)) st (fst (snd (commit_channel now p ts md st ctx)))"
proof (cases "cfg_copy_policy (config st) = KCopy \<and> is_large_payload p")
  case True
  then show ?thesis
    by (simp add: commit_channel_def prepare_cases refuse_large_copy_def slot_balanced_def slot_account_def slot_count_def)
next
  case False
  let ?c = "cfg_copy_policy (config st) = KCopy"
  let ?m = "new_message now (Some p) ts md st"
  obtain res s c where acc: "accept_message ?m (stamped ?c st) ctx = (res, s, c)" by (metis prod_cases3)
  have com: "commit_channel now p ts md st ctx = (res, s, c)"
    using False ls acc by (auto simp: commit_channel_def prepare_cases publish_to_state_cases full_def)
  show ?thesis
  proof (cases "cfg_type (config st) = KPreviousTick")
    case True
    then have "cfg_type (config (stamped ?c st)) = KPreviousTick" by simp
    note sh = accept_previous_shape [OF acc this]
    with True show ?thesis
      by (auto simp: com slot_balanced_def slot_account_def slot_count_def same_frame_def)
  next
    case False
    with ls have "ch_latest_style (stamped ?c st)" "cfg_type (config (stamped ?c st)) \<noteq> KPreviousTick" by simp_all
    note sh = accept_latest_shape [OF acc this]
    have "pending_previous_tick st = None" using inv False by (auto simp: channel_inv_def storage_inv_def)
    moreover have "cfg_type (config st) = KLatestOnly \<or> cfg_type (config st) = KLatchedSnapshot"
      using ls False by (auto simp: is_latest_style_def)
    moreover have "cfg_type (config st) = KLatestOnly \<Longrightarrow> depth (metrics st) = (if latest st = None then 0 else 1)"
      using inv by (simp add: channel_inv_def accounting_inv_def Let_def)
    ultimately show ?thesis
      using sh by (auto simp: com slot_balanced_def slot_account_def slot_count_def same_frame_def)
  qed
qed

lemma drain_balanced:
  assumes ls: "ch_latest_style st"
  shows "slot_balanced 0 st (fst (snd (drain_state now r b st ctx)))"
proof -
  obtain res s c where con: "consume_latest_from_state now r st ctx = (res, s, c)" by (metis prod_cases3)
  have "slot_balanced 0 st s"
  proof (cases "latest st")
    case None
    with con show ?thesis by (simp add: consume_latest_from_state_def slot_balanced_def)
  next
    case (Some m)
    consider "expired (config st) now m"
      | "\<not> expired (config st) now m" "map_of (delivered_latest_sequences st) r = Some (msg_sequence m)"
      | "\<not> expired (config st) now m" "map_of (delivered_latest_sequences st) r \<noteq> Some (msg_sequence m)" by blast
    then show ?thesis
    proof cases
      case 1
      obtain s' c' where d: "mark_stale_drop m (st\<lparr>latest := None\<rparr>, ctx) = (s', c')" by fastforce
      with 1 con Some have "s = upd_metrics (\<lambda>x. x\<lparr>depth := 0\<rparr>) s'"
        by (simp add: consume_latest_from_state_def message_expired_iff Let_def)
      with expire_balanced [OF Some d] show ?thesis by simp
    next
      case 2
      with con Some show ?thesis by (simp add: consume_latest_from_state_def message_expired_iff slot_balanced_def)
    next
      case 3
      from consume_latest_deliver_shape [OF Some 3 con] show ?thesis
        by (simp add: slot_balanced_def slot_account_def slot_count_def same_frame_def stale_only_def)
    qed
  qed
  with con ls show ?thesis by (simp add: drain_state_def)
qed

lemma snapshot_balanced:
  assumes "ch_latest_style st"
  shows "slot_balanced 0 st (fst (snd (snapshot_from_state now b st ctx)))"
proof (cases "latest st")
  case (Some m)
  obtain s c where d: "mark_stale_drop m (st\<lparr>latest := None\<rparr>, ctx) = (s, c)" by fastforce
  with expire_balanced [OF Some d] Some assms show ?thesis
    by (simp add: snapshot_from_state_def slot_balanced_def)
qed (use assms in \<open>simp add: snapshot_from_state_def slot_balanced_def\<close>)

lemma preflight_balanced: "slot_balanced 0 st (fst (snd (preflight_channel p n st ctx)))"
proof -
  have "slot_balanced 0 st (fst (snd (preflight_publish_to_state n st ctx)))"
    by (auto simp: preflight_publish_to_state_def overflow_rejection_def slot_balanced_def slot_account_def slot_count_def Let_def
        split: drop_policy.splits option.splits)
  then show ?thesis
    by (simp add: preflight_channel_def preflight_payload_cases refuse_large_copy_def slot_balanced_def slot_account_def slot_count_def)
qed

lemma exec_balanced:
  assumes "channel_inv st" and "ch_latest_style st"
  shows "slot_balanced (replaced op (st, ctx)) st (fst (snd (channel_exec op (st, ctx))))"
proof (cases op)
  case Advance
  then show ?thesis
    by (auto simp: advance_state_def set_depth_def slot_balanced_def slot_account_def slot_count_def)
next
  case (Publish now p ts md)
  then show ?thesis using commit_balanced [OF assms] by simp
qed (simp_all add: preflight_balanced drain_balanced [OF assms(2)] snapshot_balanced [OF assms(2)]
      case_prod_unfold Let_def)

lemma run_balanced:
  assumes "channel_inv st" and "ch_latest_style st"
  shows "slot_balanced (replaced_run ops (st, ctx)) st (fst (snd (channel_run ops (st, ctx))))"
  using assms
proof (induction ops arbitrary: st ctx)
  case (Cons op ops)
  obtain l s c where e: "channel_exec op (st, ctx) = (l, s, c)" by (metis prod_cases3)
  have b: "slot_balanced (replaced op (st, ctx)) st s" using exec_balanced [OF Cons.prems, of op ctx] by (simp add: e)
  moreover have "channel_inv s" using channel_inv_exec [OF Cons.prems(1), of op ctx] by (simp add: e)
  moreover have "ch_latest_style s" using b Cons.prems(2) by (simp add: slot_balanced_def)
  ultimately show ?case using Cons.IH [of s c] by (simp add: e slot_balanced_def case_prod_unfold Let_def)
qed (simp add: slot_balanced_def)

lemma run_account:
  fixes e ops ctx
  defines "st \<equiv> fst (snd (channel_run ops (channel_state_for_edge e, ctx)))"
  assumes "ch_latest_style (channel_state_for_edge e)"
  shows "published_count (metrics st) = overwrite_count (metrics st) + stale_drop_count (metrics st) + slot_count st +
    replaced_run ops (channel_state_for_edge e, ctx)"
proof -
  let ?i = "channel_state_for_edge e"
  have "slot_balanced (replaced_run ops (?i, ctx)) ?i st"
    unfolding st_def by (rule run_balanced [OF channel_inv_initial assms(2)])
  moreover have "published_count (metrics ?i) = 0" "slot_account ?i = 0"
    by (simp_all add: channel_state_for_edge_def zero_metrics_def slot_account_def slot_count_def Let_def)
  ultimately show ?thesis by (simp add: slot_balanced_def slot_account_def)
qed

section \<open>Properties\<close>

definition empty_ctx :: bus_ctx where
  "empty_ctx = \<lparr>ctx_sink = None, ctx_pending = [], ctx_updates = 0\<rparr>"

text \<open>
  C13. Whatever sequence of publications, preflights, drains, snapshots and epoch advances a channel sees, it
  stays within its capacity and accounts for every message: on a single-reader queue every accepted message
  was delivered, overwritten, dropped as stale or is still queued; on a multi-reader queue delivery does not
  consume; on the channels that keep a latest value (latest-only, latched, previous-tick) every accepted message
  was counted as overwritten or as stale, is in the visible or the pending slot, or was one of the values that a
  latched channel replaces when it accepts a publication and a previous-tick channel replaces when it advances,
  which the code does not count; on a latest-only channel there are none of these. Every message held carries the
  channel's own id and its sequence number in its causation id, and at most 4096 cursors are kept.
\<close>

theorem channel_conservation:
  "let st = fst (snd (channel_run ops (channel_state_for_edge e, ctx))); x = metrics st in
   length (queue st) \<le> ch_capacity st \<and> length (delivered_queue_sequences st) \<le> 4096 \<and>
   length (delivered_latest_sequences st) \<le> 4096 \<and>
   (\<not> ch_latest_style st \<and> \<not> ch_multi st \<longrightarrow>
      published_count x = delivered_count x + overwrite_count x + stale_drop_count x + length (queue st)) \<and>
   (\<not> ch_latest_style st \<and> ch_multi st \<longrightarrow>
      published_count x = overwrite_count x + stale_drop_count x + length (queue st)) \<and>
   (\<not> ch_latest_style st \<longrightarrow> depth x = length (queue st) \<and> max_depth x \<le> ch_capacity st) \<and>
   (ch_latest_style (channel_state_for_edge e) \<longrightarrow>
      published_count x = overwrite_count x + stale_drop_count x + slot_count st +
        replaced_run ops (channel_state_for_edge e, ctx)) \<and>
   (cfg_type (config st) = KLatestOnly \<longrightarrow>
      published_count x = overwrite_count x + stale_drop_count x + (if latest st = None then 0 else 1)) \<and>
   (\<forall>m \<in> set (held_messages st). msg_channel_id m = cfg_id (config st) \<and>
      causation_id (msg_metadata m) = metadata_id (cfg_id (config st)) (msg_sequence m))"
proof -
  have "channel_inv (fst (snd (channel_run ops (channel_state_for_edge e, ctx))))"
    by (rule channel_runs.holds_reachable [OF _ channel_run_reaches]) auto
  then show ?thesis
    using run_account [of e ops ctx]
    unfolding channel_inv_def storage_inv_def cursor_inv_def accounting_inv_def own_message_def kMaxTrackedReaders_def Let_def
    by (auto split: if_splits)
qed

definition demo_edge :: edge_spec where
  "demo_edge = \<lparr>edge_id = ''e'', edge_from = ''a.out'', edge_to = ''b.in'', edge_kind_of = KImmediate, has_kind = True,
     invalid_kind = [], edge_policy = default_edge_policy\<lparr>ep_mode := ''fifo'', ep_capacity := 2, ep_overflow := ''drop_oldest''\<rparr>\<rparr>"

definition demo_ops :: "channel_op list" where
  "demo_ops =
     (let p = (\<lambda>t. Publish 0 (make_text_payload t kTextPayloadSchema) None empty_metadata) in
      [p ''x'', p ''y'', p ''z'', Drain 5 ''r'' 1])"

definition demo_latched_edge :: edge_spec where
  "demo_latched_edge = demo_edge\<lparr>edge_policy := default_edge_policy\<lparr>ep_mode := ''latched''\<rparr>\<rparr>"

theorem channel_conservation_witness:
  "(let st = fst (snd (channel_run demo_ops (channel_state_for_edge demo_edge, empty_ctx))) in
    published_count (metrics st) = 3 \<and> delivered_count (metrics st) = 1 \<and> overwrite_count (metrics st) = 1 \<and>
    length (queue st) = 1 \<and>
    published_count (metrics st) = delivered_count (metrics st) + overwrite_count (metrics st) +
      stale_drop_count (metrics st) + length (queue st)) \<and>
   (let st = fst (snd (channel_run demo_ops (channel_state_for_edge demo_latched_edge, empty_ctx))) in
    published_count (metrics st) = 3 \<and> overwrite_count (metrics st) = 0 \<and> slot_count st = 1 \<and>
    published_count (metrics st) = overwrite_count (metrics st) + stale_drop_count (metrics st) + slot_count st + 2)"
proof (rule conjI)
  have "let st = fst (snd (channel_run demo_ops (channel_state_for_edge demo_edge, empty_ctx))) in
      \<not> ch_latest_style st \<and> \<not> ch_multi st \<and> published_count (metrics st) = 3 \<and> delivered_count (metrics st) = 1 \<and>
      overwrite_count (metrics st) = 1 \<and> length (queue st) = 1"
    by code_simp
  with channel_conservation [of demo_ops demo_edge empty_ctx]
  show "let st = fst (snd (channel_run demo_ops (channel_state_for_edge demo_edge, empty_ctx))) in
    published_count (metrics st) = 3 \<and> delivered_count (metrics st) = 1 \<and> overwrite_count (metrics st) = 1 \<and>
    length (queue st) = 1 \<and>
    published_count (metrics st) = delivered_count (metrics st) + overwrite_count (metrics st) +
      stale_drop_count (metrics st) + length (queue st)"
    by (simp add: Let_def)
  have "let st = fst (snd (channel_run demo_ops (channel_state_for_edge demo_latched_edge, empty_ctx))) in
      ch_latest_style (channel_state_for_edge demo_latched_edge) \<and> published_count (metrics st) = 3 \<and>
      overwrite_count (metrics st) = 0 \<and> slot_count st = 1 \<and>
      replaced_run demo_ops (channel_state_for_edge demo_latched_edge, empty_ctx) = 2"
    by code_simp
  with channel_conservation [of demo_ops demo_latched_edge empty_ctx]
  show "let st = fst (snd (channel_run demo_ops (channel_state_for_edge demo_latched_edge, empty_ctx))) in
    published_count (metrics st) = 3 \<and> overwrite_count (metrics st) = 0 \<and> slot_count st = 1 \<and>
    published_count (metrics st) = overwrite_count (metrics st) + stale_drop_count (metrics st) + slot_count st + 2"
    by (simp add: Let_def)
qed

text \<open>
  C12. Delivery order. Over any run of a fresh channel in which at most 4096 reader names appear, every reader
  receives strictly increasing sequence numbers: no duplicate and no reordering, on every kind of channel. On
  a single-reader queue this holds across all reader names together, so no message goes to two readers.
\<close>

theorem delivery_order:
  assumes "card (\<Union>op \<in> set ops. set_option (op_reader op)) \<le> 4096"
    and "channel_run ops (channel_state_for_edge e, ctx) = (log, st', ctx')"
  shows "sorted_wrt (<) (map (\<lambda>(q, m). msg_sequence m) (filter (\<lambda>(q, m). q = r) log)) \<and>
    (\<not> ch_latest_style (channel_state_for_edge e) \<and> \<not> ch_multi (channel_state_for_edge e) \<longrightarrow>
       sorted_wrt (<) (map (\<lambda>(q, m). msg_sequence m) log))"
proof -
  let ?R = "\<Union>op \<in> set ops. set_option (op_reader op)" and ?st = "channel_state_for_edge e"
  have "finite ?R" by simp
  moreover have "card ?R \<le> kMaxTrackedReaders" using assms(1) by (simp add: kMaxTrackedReaders_def)
  moreover have "channel_inv ?st" by (rule channel_inv_initial)
  moreover have "\<forall>op \<in> set ops. set_option (op_reader op) \<subseteq> ?R" by auto
  ultimately have run: "shared_mark ?st S \<Longrightarrow> s \<in> S \<Longrightarrow> sorted_wrt (<) (seqs_of S log)" for S s
    using run_delivers [of ?st ?R ops S s ctx log st' ctx'] assms(2) by simp
  have "sorted_wrt (<) (seqs_of {r} log)" by (rule run [of _ r]) (auto simp: shared_mark_def)
  moreover have "single_queue ?st \<Longrightarrow> sorted_wrt (<) (seqs_of UNIV log)"
    by (rule run [of _ r]) (auto simp: shared_mark_def)
  ultimately show ?thesis by (simp add: seqs_of_def case_prod_unfold comp_def)
qed

theorem delivery_order_witness:
  "let log = fst (channel_run (demo_ops @ [Drain 6 ''s'' 0]) (channel_state_for_edge demo_edge, empty_ctx)) in
   sorted_wrt (<) (map (\<lambda>(q, m). msg_sequence m) log) \<and> map (\<lambda>(q, m). (q, msg_sequence m)) log = [(''r'', 2), (''s'', 3)]"
proof -
  let ?ops = "demo_ops @ [Drain 6 ''s'' 0]"
  obtain log st ctx where run: "channel_run ?ops (channel_state_for_edge demo_edge, empty_ctx) = (log, st, ctx)"
    by (metis prod_cases3)
  have "card (\<Union>op \<in> set ?ops. set_option (op_reader op)) \<le> 4096"
    by (simp add: demo_ops_def Let_def)
  from delivery_order [OF this run]
  have "\<not> ch_latest_style (channel_state_for_edge demo_edge) \<and> \<not> ch_multi (channel_state_for_edge demo_edge) \<longrightarrow>
      sorted_wrt (<) (map (\<lambda>(q, m). msg_sequence m) log)" by blast
  moreover have "\<not> ch_latest_style (channel_state_for_edge demo_edge) \<and> \<not> ch_multi (channel_state_for_edge demo_edge)"
    by code_simp
  moreover have "map (\<lambda>(q, m). (q, msg_sequence m)) (fst (channel_run ?ops (channel_state_for_edge demo_edge, empty_ctx))) =
      [(''r'', 2), (''s'', 3)]" by code_simp
  ultimately show ?thesis using run by simp
qed

text \<open>
  What a publication does to a queue channel, on every branch. A large payload on a copying channel is
  refused and nothing is queued. Otherwise the message gets the next sequence number and the published payload;
  it is appended when there is room, replaces the oldest message under an evicting policy, and is rejected with
  the reason of the policy (leaving the queue alone) under a rejecting one.
\<close>

lemma publish_queue_spec:
  assumes inv: "channel_inv st" and nl: "\<not> ch_latest_style st"
    and com: "commit_channel now p ts md st ctx = (res, st', ctx')"
  defines "m \<equiv> new_message now (Some p) ts md st"
  shows "if cfg_copy_policy (config st) = KCopy \<and> is_large_payload p
     then \<not> accepted res \<and> queue st' = queue st \<and> next_sequence st' = next_sequence st
     else next_sequence st' = next_sequence st + 1 \<and> msg_sequence m = next_sequence st \<and> msg_payload m = Some p \<and>
      (if length (queue st) < ch_capacity st then res = accept \<and> queue st' = queue st @ [m]
       else if cfg_drop_policy (config st) \<in> {KOverwrite, KDropOldest}
       then res = accept \<and> queue st' = tl (queue st) @ [m] \<and>
         overwrite_count (metrics st') = overwrite_count (metrics st) + 1
       else \<not> accepted res \<and> queue st' = queue st \<and> reject_count (metrics st') = reject_count (metrics st) + 1 \<and>
         reason res = (case cfg_drop_policy (config st) of KDropNewest \<Rightarrow> ''dropped newest payload''
           | KBlockProducer \<Rightarrow> ''would block producer'' | _ \<Rightarrow> ''channel capacity exceeded''))"
proof (cases "cfg_copy_policy (config st) = KCopy \<and> is_large_payload p")
  case True
  with com show ?thesis by (auto simp: commit_channel_def prepare_cases refuse_large_copy_def)
next
  case small: False
  let ?c = "cfg_copy_policy (config st) = KCopy"
  have pub: "publish_to_state now (Some p) ts ?c md st ctx = (res, st', ctx')"
    using com small by (auto simp: commit_channel_def prepare_cases)
  have len: "length (queue st) \<le> ch_capacity st" "1 \<le> ch_capacity st"
    using inv nl by (simp_all add: channel_inv_def storage_inv_def)
  show ?thesis
  proof (cases "full st \<and> \<not> evicting st")
    case True
    then have "overflow_rejection (next_sequence st) (stamped ?c st) ctx \<noteq> None"
      by (simp add: overflow_rejection_None_iff evicting_def)
    with True pub have "overflow_rejection (next_sequence st) (stamped ?c st) ctx = Some (res, st', ctx')"
      by (auto simp: publish_to_state_cases)
    from overflow_rejection_shape [OF this] True small show ?thesis
      by (auto simp: same_frame_def full_def evicting_def m_def)
  next
    case False
    then have acc: "accept_message m (stamped ?c st) ctx = (res, st', ctx')"
      using pub by (auto simp: publish_to_state_cases m_def)
    have "\<not> ch_latest_style (stamped ?c st)" using nl by simp
    note sh = accept_queue_shape [OF acc this]
    have q: "queue st' = (if length (queue st) < ch_capacity st then queue st @ [m] else tl (queue st) @ [m])"
      using sh len by (auto simp: le_antisym drop_Suc)
    from sh False small nl len q show ?thesis
      by (auto simp: same_frame_def full_def evicting_def m_def)
  qed
qed

lemma publish_queue_spec_witness:
  "queue (fst (snd (commit_channel 7 (make_text_payload ''x'' kTextPayloadSchema) None empty_metadata
       (channel_state_for_edge demo_edge) empty_ctx))) =
     [new_message 7 (Some (make_text_payload ''x'' kTextPayloadSchema)) None empty_metadata (channel_state_for_edge demo_edge)]"
proof -
  let ?st = "channel_state_for_edge demo_edge" and ?p = "make_text_payload ''x'' kTextPayloadSchema"
  obtain res st' ctx' where com: "commit_channel 7 ?p None empty_metadata ?st empty_ctx = (res, st', ctx')"
    by (metis prod_cases3)
  have nl: "\<not> ch_latest_style ?st" by code_simp
  have "\<not> is_large_payload ?p" "length (queue ?st) < ch_capacity ?st" "queue ?st = []" by code_simp+
  with publish_queue_spec [OF channel_inv_initial nl com] com show ?thesis by simp
qed

text \<open>
  What a drain of a queue channel returns. A barrier that is not full returns nothing and does not change.
  Otherwise expired messages are dropped; a single-reader drain returns the first \<open>b\<close> live messages (all for
  \<open>b = 0\<close>) in order and removes exactly those, a multi-reader drain returns the first \<open>b\<close> live messages above
  the reader's cursor and keeps every live message queued.
\<close>

lemma drain_queue_spec:
  assumes nl: "\<not> ch_latest_style st" and dr: "drain_state now r b st ctx = (out, st', ctx')"
  defines "alive \<equiv> filter (\<lambda>m. \<not> message_expired st m now) (queue st)"
    and "batch \<equiv> (\<lambda>xs. if b = 0 then xs else take b xs)"
  shows "if cfg_type (config st) = KBarrier \<and> length (queue st) < ch_capacity st then out = [] \<and> st' = st
     else if ch_multi st
     then map msg_sequence out =
            map msg_sequence (batch (filter (\<lambda>m. smap_get 0 (delivered_queue_sequences st) r < msg_sequence m) alive)) \<and>
          queue st' = alive
     else map msg_sequence out = map msg_sequence (batch alive) \<and> map msg_payload out = map msg_payload (batch alive) \<and>
          queue st' = drop (length out) alive"
proof (cases "barrier_waiting st")
  case True
  with nl dr show ?thesis by (simp add: drain_state_def consume_waiting barrier_waiting_def)
next
  case False
  have con: "consume_from_state now r b st ctx = (out, st', ctx')" using nl dr by (simp add: drain_state_def)
  note f = consume_from_state_facts [OF con False]
  have alive: "live (config st) now (queue st) = alive" by (simp add: live_def alive_def message_expired_iff)
  from f False show ?thesis
    by (auto simp: barrier_waiting_def fresh_def remaining_def alive Let_def batch_def take_batch_def drop_batch_def comp_def min_def)
qed

lemma drain_queue_spec_witness:
  "let st = fst (snd (channel_run (take 3 demo_ops) (channel_state_for_edge demo_edge, empty_ctx))) in
   \<not> ch_latest_style st \<and> map msg_sequence (fst (drain_state 5 ''r'' 1 st empty_ctx)) = [2]"
proof -
  let ?st = "fst (snd (channel_run (take 3 demo_ops) (channel_state_for_edge demo_edge, empty_ctx)))"
  obtain out st' ctx' where dr: "drain_state 5 ''r'' 1 ?st empty_ctx = (out, st', ctx')" by (metis prod_cases3)
  have nl: "\<not> ch_latest_style ?st" by code_simp
  have cfg: "cfg_type (config ?st) = KEveryMessage" "\<not> ch_multi ?st" by code_simp+
  have "map msg_sequence (take 1 (filter (\<lambda>m. \<not> message_expired ?st m 5) (queue ?st))) = [2]" by code_simp
  with drain_queue_spec [OF nl dr] cfg dr nl show ?thesis by simp
qed

text \<open>
  C40. On a multi-reader queue without lifespan, draining never frees a slot: once the queue is full under a
  rejecting overflow policy (\<^verbatim>\<open>drop_newest\<close>, \<^verbatim>\<open>block\<close>, \<^verbatim>\<open>fail_fast\<close>), the queue never changes again, whatever
  readers drain, and every later publication is rejected.
\<close>

theorem full_multi_reader_rejects_forever:
  assumes "cfg_type (config st) = KEveryMessage \<or> cfg_type (config st) = KBarrier" and "ch_multi st"
    and "cfg_lifespan (config st) = 0" and "cfg_drop_policy (config st) \<in> {KDropNewest, KBlockProducer, KFailFast}"
    and "ch_capacity st \<le> length (queue st)"
  shows "let st' = fst (snd (channel_run ops (st, ctx))) in
     queue st' = queue st \<and> \<not> accepted (fst (commit_channel now p ts md st' ctx'))"
proof -
  have "wedged st" using assms by (auto simp: wedged_def evicting_def is_latest_style_def)
  from wedged_run [OF this, of ops ctx] wedged_rejects show ?thesis by (simp add: Let_def)
qed

definition multi_edge :: edge_spec where
  "multi_edge = demo_edge\<lparr>edge_policy := default_edge_policy\<lparr>ep_mode := ''fifo'', ep_capacity := 2,
     ep_overflow := ''fail_fast'', ep_readers := ''multi''\<rparr>\<rparr>"

theorem full_multi_reader_rejects_forever_witness:
  "let st = fst (snd (channel_run (take 2 demo_ops) (channel_state_for_edge multi_edge, empty_ctx)));
       st' = fst (snd (channel_run [Drain 1 ''r'' 0, Drain 2 ''s'' 0] (st, empty_ctx))) in
   \<not> accepted (fst (commit_channel 3 (make_text_payload ''z'' kTextPayloadSchema) None empty_metadata st' empty_ctx))"
proof -
  let ?st = "fst (snd (channel_run (take 2 demo_ops) (channel_state_for_edge multi_edge, empty_ctx)))"
  have "cfg_type (config ?st) = KEveryMessage \<or> cfg_type (config ?st) = KBarrier" "ch_multi ?st"
    "cfg_lifespan (config ?st) = 0" "cfg_drop_policy (config ?st) \<in> {KDropNewest, KBlockProducer, KFailFast}"
    "ch_capacity ?st \<le> length (queue ?st)"
    by code_simp+
  from full_multi_reader_rejects_forever [OF this] show ?thesis
    unfolding Let_def by (rule conjunct2)
qed

end
