(* ===== verification/Channel_Bus.thy ===== *)
theory Channel_Bus
  imports Channel_Delivery
begin

text \<open>
  \<^verbatim>\<open>RuntimeChannelBus\<close> (\<^verbatim>\<open>src/channel.cpp\<close>): the map of channels, the routing tables from source endpoints and
  from components to channel ids, and the public publication, read, drain and snapshot methods. Every method
  runs under the bus mutex; each is one function from the bus to its result, the new bus, and the pending
  health events it hands to \<^verbatim>\<open>emit_pending_health_events\<close> after the lock is released. \<^verbatim>\<open>channels_.at\<close> throws on
  an unknown id, so the functions that use it return an option, with \<open>None\<close> the exception; the theorems show
  that it is never thrown on a constructed bus. A method that reads the clock once per channel takes the
  readings as a function of the position.
\<close>

section \<open>Definitions\<close>

datatype publish_target = KChannel | KSourceEndpoint

record channel_publication =
  pub_target :: publish_target
  pub_id :: string
  pub_payload :: payload_ptr
  pub_kind :: edge_kind
  pub_event_timestamp :: "event_timestamp option"
  pub_metadata :: invocation_metadata

record channel_read_result =
  rd_ok :: bool
  rd_message :: "channel_message option"
  rd_reason :: string

record channel_bus =
  channels :: "(string, channel_state) smap"
  source_to_channels :: "(string, string list) smap"
  component_to_channels :: "(string, string list) smap"
  bctx :: bus_ctx

type_synonym pending_events = "(nat option \<times> health_event) list"

definition add_edge :: "edge_spec \<Rightarrow> channel_bus \<Rightarrow> channel_bus" where
  "add_edge spec b =
     b\<lparr>channels := smap_put (edge_id spec) (channel_state_for_edge spec) (channels b),
       source_to_channels := smap_push (edge_from spec) (edge_id spec) (source_to_channels b),
       component_to_channels :=
         smap_push (component_id_from_endpoint (edge_to spec)) (edge_id spec) (component_to_channels b)\<rparr>"

definition empty_bus :: channel_bus where
  "empty_bus = \<lparr>channels = [], source_to_channels = [], component_to_channels = [], bctx = empty_ctx\<rparr>"

definition make_bus :: "edge_spec list \<Rightarrow> channel_bus" where
  "make_bus specs = fold add_edge specs empty_bus"

definition bus_empty :: "channel_bus \<Rightarrow> bool" where
  "bus_empty b \<longleftrightarrow> channels b = []"

definition has_channel :: "channel_bus \<Rightarrow> string \<Rightarrow> bool" where
  "has_channel b cid \<longleftrightarrow> map_of (channels b) cid \<noteq> None"

definition set_health_event_sink :: "nat option \<Rightarrow> channel_bus \<Rightarrow> channel_bus" where
  "set_health_event_sink sink b = b\<lparr>bctx := (bctx b)\<lparr>ctx_sink := sink\<rparr>\<rparr>"

definition update_sequence :: "channel_bus \<Rightarrow> nat" where
  "update_sequence b = ctx_updates (bctx b)"

definition put_channel :: "string \<Rightarrow> channel_state \<times> bus_ctx \<Rightarrow> channel_bus \<Rightarrow> channel_bus" where
  "put_channel cid sc b = b\<lparr>channels := smap_put cid (fst sc) (channels b), bctx := snd sc\<rparr>"

text \<open>The end of every method: the pending health events leave the bus.\<close>

definition drain_pending_health_events :: "channel_bus \<Rightarrow> channel_bus \<times> pending_events" where
  "drain_pending_health_events b = (b\<lparr>bctx := (bctx b)\<lparr>ctx_pending := []\<rparr>\<rparr>, ctx_pending (bctx b))"

text \<open>
  \<^verbatim>\<open>emit_pending_health_events\<close> on a store of sinks; \<open>lk\<close> and \<open>now\<close> give, per event, whether the sink's
  \<^verbatim>\<open>try_lock\<close> succeeds and the clock reading.
\<close>

fun emit_pending_health_events ::
    "(nat \<Rightarrow> bool) \<Rightarrow> (nat \<Rightarrow> int) \<Rightarrow> pending_events \<Rightarrow> (nat \<Rightarrow> health_sink) \<Rightarrow> nat \<Rightarrow> health_sink" where
  "emit_pending_health_events lk now [] sinks = sinks"
| "emit_pending_health_events lk now ((None, ev) # evs) sinks = emit_pending_health_events lk now evs sinks"
| "emit_pending_health_events lk now ((Some a, ev) # evs) sinks =
     emit_pending_health_events lk now evs
       (sinks(a := sink_emit (lk (length evs)) (now (length evs)) ev (sinks a)))"

subsection \<open>Publication\<close>

definition publish_shared_with_metadata ::
    "int \<Rightarrow> string \<Rightarrow> payload_ptr \<Rightarrow> invocation_metadata \<Rightarrow> event_timestamp option \<Rightarrow> channel_bus \<Rightarrow>
     publish_result \<times> channel_bus \<times> pending_events" where
  "publish_shared_with_metadata now cid payload md ts b =
     (case payload of
        None \<Rightarrow> (reject ''payload must not be null'', b, [])
      | Some p \<Rightarrow>
          let (res, b') =
            (case map_of (channels b) cid of
               None \<Rightarrow> (reject (''unknown channel: '' @ cid), b)
             | Some st \<Rightarrow> let (r, sc) = commit_channel now p ts md st (bctx b) in (r, put_channel cid sc b))
          in (res, drain_pending_health_events b'))"

definition publish_with_metadata ::
    "int \<Rightarrow> string \<Rightarrow> runtime_payload \<Rightarrow> invocation_metadata \<Rightarrow> event_timestamp option \<Rightarrow> channel_bus \<Rightarrow>
     publish_result \<times> channel_bus \<times> pending_events" where
  "publish_with_metadata now cid p md ts = publish_shared_with_metadata now cid (make_shared_payload p) md ts"

definition publish_shared ::
    "int \<Rightarrow> string \<Rightarrow> payload_ptr \<Rightarrow> event_timestamp option \<Rightarrow> channel_bus \<Rightarrow>
     publish_result \<times> channel_bus \<times> pending_events" where
  "publish_shared now cid payload ts = publish_shared_with_metadata now cid payload empty_metadata ts"

definition publish ::
    "int \<Rightarrow> string \<Rightarrow> runtime_payload \<Rightarrow> event_timestamp option \<Rightarrow> channel_bus \<Rightarrow>
     publish_result \<times> channel_bus \<times> pending_events" where
  "publish now cid p ts = publish_with_metadata now cid p empty_metadata ts"

text \<open>The preflight loop over the target channels; \<open>planned\<close> counts what is already planned per channel.\<close>

fun preflight_all ::
    "runtime_payload \<Rightarrow> string list \<Rightarrow> (string, nat) smap \<Rightarrow> channel_bus \<Rightarrow>
     (publish_result \<times> (string, nat) smap \<times> channel_bus) option" where
  "preflight_all p [] planned b = Some (accept, planned, b)"
| "preflight_all p (cid # cids) planned b =
     (case map_of (channels b) cid of
        None \<Rightarrow> None
      | Some st \<Rightarrow>
          let (r, sc) = preflight_channel p (smap_get 0 planned cid) st (bctx b);
              b' = put_channel cid sc b
          in if \<not> accepted r then Some (r, planned, b')
             else preflight_all p cids (smap_put cid (smap_get 0 planned cid + 1) planned) b')"

record expanded_publication =
  ex_channel_id :: string
  ex_payload :: runtime_payload
  ex_timestamp :: "event_timestamp option"
  ex_metadata :: invocation_metadata

text \<open>The commit loop; \<open>last\<close> is the result variable of the code.\<close>

fun commit_all ::
    "(nat \<Rightarrow> int) \<Rightarrow> publish_result \<Rightarrow> expanded_publication list \<Rightarrow> channel_bus \<Rightarrow> (publish_result \<times> channel_bus) option" where
  "commit_all now r0 [] b = Some (r0, b)"
| "commit_all now r0 (e # es) b =
     (case map_of (channels b) (ex_channel_id e) of
        None \<Rightarrow> None
      | Some st \<Rightarrow>
          let (r, sc) = commit_channel (now (length es)) (ex_payload e) (ex_timestamp e) (ex_metadata e) st (bctx b);
              b' = put_channel (ex_channel_id e) sc b
          in if \<not> accepted r then Some (r, b') else commit_all now r es b')"

definition publish_shared_from_with_metadata ::
    "(nat \<Rightarrow> int) \<Rightarrow> string \<Rightarrow> payload_ptr \<Rightarrow> invocation_metadata \<Rightarrow> event_timestamp option \<Rightarrow> channel_bus \<Rightarrow>
     (publish_result \<times> channel_bus \<times> pending_events) option" where
  "publish_shared_from_with_metadata now src payload md ts b =
     (case payload of
        None \<Rightarrow> Some (reject ''payload must not be null'', b, [])
      | Some p \<Rightarrow>
          (case map_of (source_to_channels b) src of
             None \<Rightarrow> Some (reject (''unknown source endpoint: '' @ src), drain_pending_health_events b)
           | Some cids \<Rightarrow>
               (case (if length cids > 1 then preflight_all p cids [] b else Some (accept, [], b)) of
                  None \<Rightarrow> None
                | Some (r, planned, b1) \<Rightarrow>
                    if \<not> accepted r then Some (r, drain_pending_health_events b1)
                    else
                      (case commit_all now r
                          (map (\<lambda>cid. \<lparr>ex_channel_id = cid, ex_payload = p, ex_timestamp = ts,
                                  ex_metadata = metadata_for_source_endpoint md src\<rparr>) cids) b1 of
                         None \<Rightarrow> None
                       | Some (r', b2) \<Rightarrow> Some (r', drain_pending_health_events b2)))))"

definition publish_from_with_metadata ::
    "(nat \<Rightarrow> int) \<Rightarrow> string \<Rightarrow> runtime_payload \<Rightarrow> invocation_metadata \<Rightarrow> event_timestamp option \<Rightarrow> channel_bus \<Rightarrow>
     (publish_result \<times> channel_bus \<times> pending_events) option" where
  "publish_from_with_metadata now src p md ts = publish_shared_from_with_metadata now src (make_shared_payload p) md ts"

definition publish_shared_from ::
    "(nat \<Rightarrow> int) \<Rightarrow> string \<Rightarrow> payload_ptr \<Rightarrow> event_timestamp option \<Rightarrow> channel_bus \<Rightarrow>
     (publish_result \<times> channel_bus \<times> pending_events) option" where
  "publish_shared_from now src payload ts = publish_shared_from_with_metadata now src payload empty_metadata ts"

definition publish_from ::
    "(nat \<Rightarrow> int) \<Rightarrow> string \<Rightarrow> runtime_payload \<Rightarrow> event_timestamp option \<Rightarrow> channel_bus \<Rightarrow>
     (publish_result \<times> channel_bus \<times> pending_events) option" where
  "publish_from now src p ts = publish_from_with_metadata now src p empty_metadata ts"

text \<open>The first loop of \<^verbatim>\<open>publish_batch\<close>: expansion and preflight of every publication.\<close>

fun expand_batch ::
    "channel_publication list \<Rightarrow> (string, nat) smap \<Rightarrow> expanded_publication list \<Rightarrow> channel_bus \<Rightarrow>
     (publish_result \<times> expanded_publication list \<times> channel_bus) option" where
  "expand_batch [] planned ex b = Some (accept, ex, b)"
| "expand_batch (q # qs) planned ex b =
     (case pub_payload q of
        None \<Rightarrow> Some (reject ''payload must not be null'', ex, b)
      | Some p \<Rightarrow>
          (case (case pub_target q of
                   KChannel \<Rightarrow>
                     (case map_of (channels b) (pub_id q) of
                        None \<Rightarrow> Inl (reject (''unknown channel: '' @ pub_id q))
                      | Some st \<Rightarrow> Inr ([pub_id q], pub_metadata q))
                 | KSourceEndpoint \<Rightarrow>
                     (case map_of (source_to_channels b) (pub_id q) of
                        None \<Rightarrow> Inl (reject (''unknown source endpoint: '' @ pub_id q))
                      | Some cids \<Rightarrow> Inr (cids, metadata_for_source_endpoint (pub_metadata q) (pub_id q)))) of
             Inl r \<Rightarrow> Some (r, ex, b)
           | Inr (cids, md) \<Rightarrow>
               (case preflight_all p cids planned b of
                  None \<Rightarrow> None
                | Some (r, planned', b') \<Rightarrow>
                    if \<not> accepted r then Some (r, ex, b')
                    else expand_batch qs planned'
                           (ex @ map (\<lambda>cid. \<lparr>ex_channel_id = cid, ex_payload = p,
                                        ex_timestamp = pub_event_timestamp q, ex_metadata = md\<rparr>) cids) b')))"

definition publish_batch ::
    "(nat \<Rightarrow> int) \<Rightarrow> channel_publication list \<Rightarrow> channel_bus \<Rightarrow> (publish_result \<times> channel_bus \<times> pending_events) option" where
  "publish_batch now pubs b =
     (case expand_batch pubs [] [] b of
        None \<Rightarrow> None
      | Some (r, ex, b1) \<Rightarrow>
          if \<not> accepted r then Some (r, drain_pending_health_events b1)
          else
            (case commit_all now r ex b1 of
               None \<Rightarrow> None
             | Some (r', b2) \<Rightarrow> Some (r', drain_pending_health_events b2)))"

subsection \<open>Epoch boundary\<close>

definition advance_epoch :: "channel_bus \<Rightarrow> channel_bus" where
  "advance_epoch b =
     (let updated = (\<exists>e \<in> set (channels b). snd (advance_state (snd e)));
          b' = b\<lparr>channels := smap_map (\<lambda>cid st. fst (advance_state st)) (channels b)\<rparr>
      in if updated then b'\<lparr>bctx := (bctx b')\<lparr>ctx_updates := ctx_updates (bctx b') + 1\<rparr>\<rparr> else b')"

subsection \<open>Reading\<close>

definition read_latest_for_reader ::
    "int \<Rightarrow> string \<Rightarrow> string \<Rightarrow> channel_bus \<Rightarrow> channel_read_result \<times> channel_bus \<times> pending_events" where
  "read_latest_for_reader now cid reader b =
     (let (res, b') =
        (case map_of (channels b) cid of
           None \<Rightarrow> (\<lparr>rd_ok = False, rd_message = None, rd_reason = ''unknown channel: '' @ cid\<rparr>, b)
         | Some st \<Rightarrow>
             if \<not> ch_latest_style st
             then (\<lparr>rd_ok = False, rd_message = None, rd_reason = ''channel is not latest-style: '' @ cid\<rparr>, b)
             else let (m, sc) = consume_latest_from_state now reader st (bctx b)
                  in (\<lparr>rd_ok = True, rd_message = m, rd_reason = []\<rparr>, put_channel cid sc b))
      in (res, drain_pending_health_events b'))"

text \<open>\<^verbatim>\<open>channel_ids_for_component_port\<close>: the channels of a component, restricted to a port unless it is empty.\<close>

fun filter_port :: "channel_bus \<Rightarrow> string \<Rightarrow> string list \<Rightarrow> string list option" where
  "filter_port b port [] = Some []"
| "filter_port b port (cid # cids) =
     (case map_of (channels b) cid of
        None \<Rightarrow> None
      | Some st \<Rightarrow>
          map_option (\<lambda>ids. if port = [] \<or> port_name_from_endpoint (to_ep st) = port then cid # ids else ids)
            (filter_port b port cids))"

definition channel_ids_for_component_port :: "channel_bus \<Rightarrow> string \<Rightarrow> string \<Rightarrow> string list option" where
  "channel_ids_for_component_port b cmp port =
     (case map_of (component_to_channels b) cmp of None \<Rightarrow> Some [] | Some cids \<Rightarrow> filter_port b port cids)"

text \<open>
  A loop over channel ids that collects messages: \<open>stop\<close> is tested before each channel on what has been
  collected so far, \<open>f\<close> is the step on one channel.
\<close>

fun collect_loop ::
    "(channel_message list \<Rightarrow> bool) \<Rightarrow>
     (nat \<Rightarrow> channel_message list \<Rightarrow> channel_state \<Rightarrow> bus_ctx \<Rightarrow> channel_message list \<times> channel_state \<times> bus_ctx) \<Rightarrow>
     string list \<Rightarrow> channel_message list \<Rightarrow> channel_bus \<Rightarrow> (channel_message list \<times> channel_bus) option" where
  "collect_loop stop f [] acc b = Some (acc, b)"
| "collect_loop stop f (cid # cids) acc b =
     (if stop acc then Some (acc, b)
      else
        (case map_of (channels b) cid of
           None \<Rightarrow> None
         | Some st \<Rightarrow>
             let (ms, sc) = f (length cids) acc st (bctx b)
             in collect_loop stop f cids (acc @ ms) (put_channel cid sc b)))"

definition first_message :: "channel_message list \<Rightarrow> channel_read_result" where
  "first_message ms = \<lparr>rd_ok = True, rd_message = (case ms of [] \<Rightarrow> None | m # _ \<Rightarrow> Some m), rd_reason = []\<rparr>"

definition finish_read ::
    "('a \<Rightarrow> 'b) \<Rightarrow> ('a \<times> channel_bus) option \<Rightarrow> ('b \<times> channel_bus \<times> pending_events) option" where
  "finish_read g r = (case r of None \<Rightarrow> None | Some (x, b) \<Rightarrow> Some (g x, drain_pending_health_events b))"

definition read_latest_update_for_component_port ::
    "(nat \<Rightarrow> int) \<Rightarrow> string \<Rightarrow> string \<Rightarrow> channel_bus \<Rightarrow> (channel_read_result \<times> channel_bus \<times> pending_events) option" where
  "read_latest_update_for_component_port now cmp port b =
     (case channel_ids_for_component_port b cmp port of
        None \<Rightarrow> None
      | Some cids \<Rightarrow>
          finish_read first_message
            (collect_loop (\<lambda>acc. acc \<noteq> [])
               (\<lambda>i acc st ctx.
                  if \<not> ch_latest_style st then ([], st, ctx)
                  else let (m, sc) = consume_latest_from_state (now i) (endpoint cmp port) st ctx
                       in (case m of None \<Rightarrow> [] | Some x \<Rightarrow> [x], sc))
               cids [] b))"

definition peek_latest_for_component_port ::
    "(nat \<Rightarrow> int) \<Rightarrow> string \<Rightarrow> string \<Rightarrow> channel_bus \<Rightarrow> (channel_read_result \<times> channel_bus \<times> pending_events) option" where
  "peek_latest_for_component_port now cmp port b =
     (case channel_ids_for_component_port b cmp port of
        None \<Rightarrow> None
      | Some cids \<Rightarrow>
          finish_read first_message
            (collect_loop (\<lambda>acc. acc \<noteq> []) (\<lambda>i acc st ctx. snapshot_from_state (now i) 1 st ctx) cids [] b))"

definition drain_for_reader ::
    "int \<Rightarrow> string \<Rightarrow> string \<Rightarrow> nat \<Rightarrow> channel_bus \<Rightarrow> channel_message list \<times> channel_bus \<times> pending_events" where
  "drain_for_reader now cid reader max_batch b =
     (let (ms, b') =
        (case map_of (channels b) cid of
           None \<Rightarrow> ([], b)
         | Some st \<Rightarrow> let (ms, sc) = drain_state now reader max_batch st (bctx b) in (ms, put_channel cid sc b))
      in (ms, drain_pending_health_events b'))"

definition batch_reached :: "nat \<Rightarrow> channel_message list \<Rightarrow> bool" where
  "batch_reached max_batch acc \<longleftrightarrow> max_batch \<noteq> 0 \<and> length acc \<ge> max_batch"

definition batch_left :: "nat \<Rightarrow> channel_message list \<Rightarrow> nat" where
  "batch_left max_batch acc = (if max_batch = 0 then 0 else max_batch - length acc)"

text \<open>The inner loop that appends drained messages while the batch has room.\<close>

definition append_bounded :: "nat \<Rightarrow> channel_message list \<Rightarrow> channel_message list \<Rightarrow> channel_message list" where
  "append_bounded max_batch acc ms = (if max_batch = 0 then ms else take (max_batch - length acc) ms)"

definition snapshot_for_component_port ::
    "(nat \<Rightarrow> int) \<Rightarrow> string \<Rightarrow> string \<Rightarrow> nat \<Rightarrow> channel_bus \<Rightarrow> (channel_message list \<times> channel_bus \<times> pending_events) option" where
  "snapshot_for_component_port now cmp port max_batch b =
     (case channel_ids_for_component_port b cmp port of
        None \<Rightarrow> None
      | Some cids \<Rightarrow>
          finish_read id
            (collect_loop (batch_reached max_batch)
               (\<lambda>i acc st ctx. let (ms, sc) = snapshot_from_state (now i) (batch_left max_batch acc) st ctx
                               in (append_bounded max_batch acc ms, sc)) cids [] b))"

definition drain_for_component_port ::
    "(nat \<Rightarrow> int) \<Rightarrow> string \<Rightarrow> string \<Rightarrow> nat \<Rightarrow> channel_bus \<Rightarrow> (channel_message list \<times> channel_bus \<times> pending_events) option" where
  "drain_for_component_port now cmp port max_batch b =
     (case channel_ids_for_component_port b cmp port of
        None \<Rightarrow> None
      | Some cids \<Rightarrow>
          finish_read id
            (collect_loop (batch_reached max_batch)
               (\<lambda>i acc st ctx. let (ms, sc) = drain_state (now i) (endpoint cmp port) (batch_left max_batch acc) st ctx
                               in (append_bounded max_batch acc ms, sc)) cids [] b))"

definition consume_for_component ::
    "(nat \<Rightarrow> int) \<Rightarrow> string \<Rightarrow> channel_bus \<Rightarrow> (channel_message list \<times> channel_bus \<times> pending_events) option" where
  "consume_for_component now cmp b =
     (case map_of (component_to_channels b) cmp of
        None \<Rightarrow> Some ([], drain_pending_health_events b)
      | Some cids \<Rightarrow>
          finish_read id (collect_loop (\<lambda>acc. False) (\<lambda>i acc st ctx. drain_state (now i) cmp 0 st ctx) cids [] b))"

subsection \<open>Metrics\<close>

definition bus_metrics :: "string \<Rightarrow> channel_bus \<Rightarrow> channel_metrics" where
  "bus_metrics cid b =
     (case map_of (channels b) cid of None \<Rightarrow> zero_metrics cid | Some st \<Rightarrow> metrics_from_state st)"

definition metrics_snapshot :: "channel_bus \<Rightarrow> channel_metrics list" where
  "metrics_snapshot b = map (\<lambda>(cid, st). metrics_from_state st) (channels b)"

definition configured_capacity_for_component_port :: "channel_bus \<Rightarrow> string \<Rightarrow> string \<Rightarrow> nat option" where
  "configured_capacity_for_component_port b cmp port =
     (case channel_ids_for_component_port b cmp port of
        None \<Rightarrow> None
      | Some cids \<Rightarrow>
          fold (\<lambda>cid acc. case (acc, map_of (channels b) cid) of
                  (Some n, Some st) \<Rightarrow> Some (n + max 1 (ch_capacity st)) | _ \<Rightarrow> None) cids (Some 0))"

text \<open>
  \<^verbatim>\<open>wait_for_update\<close> returns when its predicate holds or the timeout expires; the result is the predicate at
  that moment.
\<close>

definition wait_predicate :: "nat \<Rightarrow> bool \<Rightarrow> channel_bus \<Rightarrow> bool" where
  "wait_predicate last_seen stop_requested b \<longleftrightarrow> update_sequence b \<noteq> last_seen \<or> stop_requested"

section \<open>Laws that hold channel by channel\<close>

definition bus_all :: "(string \<Rightarrow> channel_state \<Rightarrow> bool) \<Rightarrow> channel_bus \<Rightarrow> bool" where
  "bus_all P b \<longleftrightarrow> (\<forall>cid st. map_of (channels b) cid = Some st \<longrightarrow> P cid st)"

text \<open>The routing tables are fixed at construction and name existing channels only.\<close>

definition same_routes :: "channel_bus \<Rightarrow> channel_bus \<Rightarrow> bool" where
  "same_routes b b' \<longleftrightarrow>
     source_to_channels b' = source_to_channels b \<and> component_to_channels b' = component_to_channels b \<and>
     dom (map_of (channels b')) = dom (map_of (channels b)) \<and> (smap_wf (channels b) \<longrightarrow> smap_wf (channels b'))"

definition routes_ok :: "channel_bus \<Rightarrow> bool" where
  "routes_ok b \<longleftrightarrow> smap_wf (channels b) \<and>
     (\<forall>k. set (smap_get [] (source_to_channels b) k) \<subseteq> dom (map_of (channels b))) \<and>
     (\<forall>k. set (smap_get [] (component_to_channels b) k) \<subseteq> dom (map_of (channels b)))"

lemma routes_okD:
  assumes "routes_ok b" and "map_of (source_to_channels b) k = Some cids \<or> map_of (component_to_channels b) k = Some cids"
  shows "set cids \<subseteq> dom (map_of (channels b))"
proof -
  from assms(2) have "cids = smap_get [] (source_to_channels b) k \<or> cids = smap_get [] (component_to_channels b) k"
    by (auto simp: smap_get_def)
  then show ?thesis using assms(1) unfolding routes_ok_def by blast
qed

lemma same_routes_refl [simp]: "same_routes b b"
  by (simp add: same_routes_def)

lemma same_routes_trans: "same_routes a b \<Longrightarrow> same_routes b c \<Longrightarrow> same_routes a c"
  by (auto simp: same_routes_def)

lemma same_routes_ok: "same_routes b b' \<Longrightarrow> routes_ok b \<Longrightarrow> routes_ok b'"
  by (simp add: same_routes_def routes_ok_def)

lemma same_routes_put: "map_of (channels b) cid \<noteq> None \<Longrightarrow> same_routes b (put_channel cid sc b)"
  by (auto simp: same_routes_def put_channel_def)

lemma same_routes_drain: "same_routes b (fst (drain_pending_health_events b))"
  by (simp add: same_routes_def drain_pending_health_events_def)

lemma channels_drain [simp]: "channels (fst (drain_pending_health_events b)) = channels b"
  by (simp add: drain_pending_health_events_def)

lemma channels_put [simp]: "channels (put_channel cid sc b) = smap_put cid (fst sc) (channels b)"
  by (simp add: put_channel_def)

lemma bus_all_put: "bus_all P b \<Longrightarrow> P cid (fst sc) \<Longrightarrow> bus_all P (put_channel cid sc b)"
  by (simp add: bus_all_def)

lemma bus_all_drain [simp]: "bus_all P (fst (drain_pending_health_events b)) = bus_all P b"
  by (simp add: bus_all_def)

text \<open>What a loop over channels keeps: the routes, and a law that holds channel by channel.\<close>

definition keeps :: "(string \<Rightarrow> channel_state \<Rightarrow> bool) \<Rightarrow> channel_bus \<Rightarrow> channel_bus \<Rightarrow> bool" where
  "keeps P b b' \<longleftrightarrow> same_routes b b' \<and> (bus_all P b \<longrightarrow> bus_all P b')"

lemma keeps_refl [simp]: "keeps P b b"
  by (simp add: keeps_def)

lemma keeps_trans: "keeps P a b \<Longrightarrow> keeps P b c \<Longrightarrow> keeps P a c"
  by (auto simp: keeps_def intro: same_routes_trans)

lemma keeps_drain: "keeps P b b' \<Longrightarrow> keeps P b (fst (drain_pending_health_events b'))"
  by (auto simp: keeps_def intro: same_routes_trans same_routes_drain)

lemma keeps_put:
  "map_of (channels b) cid = Some st \<Longrightarrow> (P cid st \<Longrightarrow> P cid (fst sc)) \<Longrightarrow> keeps P b (put_channel cid sc b)"
  by (auto simp: keeps_def intro!: same_routes_put bus_all_put) (simp add: bus_all_def)

locale channel_law =
  fixes P :: "string \<Rightarrow> channel_state \<Rightarrow> bool"
  assumes law_commit: "P cid st \<Longrightarrow> P cid (fst (snd (commit_channel now p ts md st ctx)))"
    and law_preflight: "P cid st \<Longrightarrow> P cid (fst (snd (preflight_channel p n st ctx)))"
    and law_drain: "P cid st \<Longrightarrow> P cid (fst (snd (drain_state now r b st ctx)))"
    and law_snapshot: "P cid st \<Longrightarrow> P cid (fst (snd (snapshot_from_state now b st ctx)))"
    and law_advance: "P cid st \<Longrightarrow> P cid (fst (advance_state st))"
begin

lemma law_latest: "P cid st \<Longrightarrow> ch_latest_style st \<Longrightarrow> P cid (fst (snd (consume_latest_from_state now r st ctx)))"
  using law_drain [of cid st now r 0 ctx] by (simp add: drain_state_def case_prod_unfold Let_def)

lemma keeps_publish_shared_with_metadata:
  "keeps P b (fst (snd (publish_shared_with_metadata now cid payload md ts b)))"
proof (cases "payload = None \<or> map_of (channels b) cid = None")
  case True
  then show ?thesis
    by (cases payload) (auto simp: publish_shared_with_metadata_def intro: keeps_drain)
next
  case False
  then obtain p st where "payload = Some p" "map_of (channels b) cid = Some st" by auto
  then show ?thesis
    by (auto simp: publish_shared_with_metadata_def case_prod_unfold Let_def intro!: keeps_drain keeps_put law_commit)
qed

lemma keeps_preflight_all:
  "set cids \<subseteq> dom (map_of (channels b)) \<Longrightarrow>
   \<exists>r pl b'. preflight_all p cids planned b = Some (r, pl, b') \<and> keeps P b b'"
proof (induction cids arbitrary: planned b)
  case (Cons cid cids)
  then obtain st where st: "map_of (channels b) cid = Some st" by auto
  let ?r = "preflight_channel p (smap_get 0 planned cid) st (bctx b)"
  let ?b = "put_channel cid (snd ?r) b"
  have k: "keeps P b ?b" using st by (auto intro!: keeps_put law_preflight)
  moreover have "set cids \<subseteq> dom (map_of (channels ?b))" using Cons.prems by auto
  from Cons.IH [OF this] obtain r pl b' where
    "preflight_all p cids (smap_put cid (smap_get 0 planned cid + 1) planned) ?b = Some (r, pl, b')" "keeps P ?b b'"
    by blast
  ultimately show ?case using st by (auto simp: case_prod_unfold Let_def intro: keeps_trans)
qed simp

lemma keeps_commit_all:
  "ex_channel_id ` set es \<subseteq> dom (map_of (channels b)) \<Longrightarrow>
   \<exists>r b'. commit_all now r0 es b = Some (r, b') \<and> keeps P b b'"
proof (induction es arbitrary: r0 b)
  case (Cons e es)
  then obtain st where st: "map_of (channels b) (ex_channel_id e) = Some st" by auto
  let ?r = "commit_channel (now (length es)) (ex_payload e) (ex_timestamp e) (ex_metadata e) st (bctx b)"
  let ?b = "put_channel (ex_channel_id e) (snd ?r) b"
  have k: "keeps P b ?b" using st by (auto intro!: keeps_put law_commit)
  moreover have "ex_channel_id ` set es \<subseteq> dom (map_of (channels ?b))" using Cons.prems by auto
  from Cons.IH [OF this] obtain r b' where "commit_all now (fst ?r) es ?b = Some (r, b')" "keeps P ?b b'" by blast
  ultimately show ?case using st by (auto simp: case_prod_unfold Let_def intro: keeps_trans)
qed simp

lemma keeps_publish_from:
  assumes "routes_ok b"
  shows "\<exists>r b' ev. publish_shared_from_with_metadata now src payload md ts b = Some (r, b', ev) \<and> keeps P b b'"
proof (cases "payload = None \<or> map_of (source_to_channels b) src = None")
  case True
  then show ?thesis
    by (cases payload) (auto simp: publish_shared_from_with_metadata_def drain_pending_health_events_def
        keeps_def same_routes_def bus_all_def)
next
  case False
  then obtain p cids where p: "payload = Some p" and c: "map_of (source_to_channels b) src = Some cids" by auto
  have dom: "set cids \<subseteq> dom (map_of (channels b))" using routes_okD [OF assms] c by blast
  obtain r pl b1 where pre: "(if length cids > 1 then preflight_all p cids [] b else Some (accept, [], b)) = Some (r, pl, b1)"
    and k1: "keeps P b b1"
    using keeps_preflight_all [OF dom, of p "[]"] by (cases "length cids > 1") auto
  have dom1: "set cids \<subseteq> dom (map_of (channels b1))" using dom k1 by (auto simp: keeps_def same_routes_def)
  let ?es = "map (\<lambda>cid. \<lparr>ex_channel_id = cid, ex_payload = p, ex_timestamp = ts,
      ex_metadata = metadata_for_source_endpoint md src\<rparr>) cids"
  have "ex_channel_id ` set ?es \<subseteq> dom (map_of (channels b1))" using dom1 by auto
  from keeps_commit_all [OF this] obtain r' b2 where com: "commit_all now r ?es b1 = Some (r', b2)" "keeps P b1 b2" by blast
  have "keeps P b (fst (drain_pending_health_events b1))" "keeps P b (fst (drain_pending_health_events b2))"
    using k1 com(2) by (auto intro: keeps_drain keeps_trans)
  then show ?thesis
    unfolding publish_shared_from_with_metadata_def using p c pre com(1)
    by (cases "accepted r") (auto simp: prod_eq_iff)
qed

lemma keeps_expand_batch:
  "routes_ok b \<Longrightarrow> ex_channel_id ` set ex \<subseteq> dom (map_of (channels b)) \<Longrightarrow>
   \<exists>r ex' b'. expand_batch pubs planned ex b = Some (r, ex', b') \<and> keeps P b b' \<and>
     ex_channel_id ` set ex' \<subseteq> dom (map_of (channels b))"
proof (induction pubs arbitrary: planned ex b)
  case (Cons q qs)
  let ?route = "case pub_target q of
      KChannel \<Rightarrow> (case map_of (channels b) (pub_id q) of
          None \<Rightarrow> Inl (reject (''unknown channel: '' @ pub_id q)) | Some st \<Rightarrow> Inr ([pub_id q], pub_metadata q))
    | KSourceEndpoint \<Rightarrow> (case map_of (source_to_channels b) (pub_id q) of
          None \<Rightarrow> Inl (reject (''unknown source endpoint: '' @ pub_id q))
        | Some cids \<Rightarrow> Inr (cids, metadata_for_source_endpoint (pub_metadata q) (pub_id q)))"
  show ?case
  proof (cases "pub_payload q")
    case None
    with Cons.prems show ?thesis by auto
  next
    case (Some p)
    show ?thesis
    proof (cases ?route)
      case (Inl r)
      then show ?thesis using Some Cons.prems by (simp only: expand_batch.simps option.case sum.case) auto
    next
      case (Inr cm)
      obtain cids md where cm: "cm = (cids, md)" by fastforce
      have dom: "set cids \<subseteq> dom (map_of (channels b))"
        using Inr routes_okD [OF Cons.prems(1), of "pub_id q"] by (auto simp: cm split: publish_target.splits option.splits)
      from keeps_preflight_all [OF dom, of p planned] obtain r pl b1 where
        pre: "preflight_all p cids planned b = Some (r, pl, b1)" and k: "keeps P b b1" by blast
      let ?ex = "ex @ map (\<lambda>cid. \<lparr>ex_channel_id = cid, ex_payload = p, ex_timestamp = pub_event_timestamp q, ex_metadata = md\<rparr>) cids"
      have same: "dom (map_of (channels b1)) = dom (map_of (channels b))" using k by (simp add: keeps_def same_routes_def)
      have ok1: "routes_ok b1" using k Cons.prems(1) by (auto simp: keeps_def intro: same_routes_ok)
      have ex1: "ex_channel_id ` set ?ex \<subseteq> dom (map_of (channels b1))" unfolding same using Cons.prems(2) dom by auto
      from Cons.IH [OF ok1 ex1, of pl] obtain r' ex' b' where rec: "expand_batch qs pl ?ex b1 = Some (r', ex', b')" "keeps P b1 b'"
        "ex_channel_id ` set ex' \<subseteq> dom (map_of (channels b1))" by (elim exE conjE)
      have step: "expand_batch (q # qs) planned ex b = (if \<not> accepted r then Some (r, ex, b1) else expand_batch qs pl ?ex b1)"
        using Some Inr cm pre by (simp only: expand_batch.simps option.case sum.case prod.case)
      show ?thesis
      proof (cases "accepted r")
        case True
        moreover have "keeps P b b'" using k rec(2) by (rule keeps_trans)
        ultimately show ?thesis using step rec same by simp
      next
        case False
        with step k Cons.prems(2) show ?thesis by simp
      qed
    qed
  qed
qed simp

lemma keeps_publish_batch:
  assumes "routes_ok b"
  shows "\<exists>r b' ev. publish_batch now pubs b = Some (r, b', ev) \<and> keeps P b b'"
proof -
  from keeps_expand_batch [OF assms, of "[]" pubs "[]"] obtain r ex b1 where
    e: "expand_batch pubs [] [] b = Some (r, ex, b1)" "keeps P b b1" "ex_channel_id ` set ex \<subseteq> dom (map_of (channels b))" by auto
  then have "ex_channel_id ` set ex \<subseteq> dom (map_of (channels b1))" by (simp add: keeps_def same_routes_def)
  from keeps_commit_all [OF this] obtain r' b2 where c: "commit_all now r ex b1 = Some (r', b2)" "keeps P b1 b2" by blast
  have "keeps P b (fst (drain_pending_health_events b1))" "keeps P b (fst (drain_pending_health_events b2))"
    using e c by (auto intro: keeps_drain keeps_trans)
  with e c show ?thesis by (cases "accepted r") (auto simp: publish_batch_def prod_eq_iff)
qed

lemma keeps_advance_epoch: "keeps P b (advance_epoch b)"
proof -
  have m: "map_of (smap_map (\<lambda>cid st. fst (advance_state st)) (channels b)) cid =
      map_option (\<lambda>st. fst (advance_state st)) (map_of (channels b) cid)" for cid
    by (simp add: map_of_smap_map)
  then have "dom (map_of (smap_map (\<lambda>cid st. fst (advance_state st)) (channels b))) = dom (map_of (channels b))"
    by (auto simp: dom_def)
  with m show ?thesis
    by (auto simp: keeps_def same_routes_def bus_all_def advance_epoch_def Let_def intro: law_advance)
qed

lemma keeps_read_latest_for_reader: "keeps P b (fst (snd (read_latest_for_reader now cid reader b)))"
  by (cases "map_of (channels b) cid")
    (auto simp: read_latest_for_reader_def case_prod_unfold Let_def intro!: keeps_drain keeps_put law_latest)

lemma keeps_drain_for_reader: "keeps P b (fst (snd (drain_for_reader now cid reader n b)))"
  by (cases "map_of (channels b) cid")
    (auto simp: drain_for_reader_def case_prod_unfold Let_def intro!: keeps_drain keeps_put law_drain)

lemma keeps_collect_loop:
  assumes "\<And>i acc st ctx cid. P cid st \<Longrightarrow> P cid (fst (snd (f i acc st ctx)))"
  shows "set cids \<subseteq> dom (map_of (channels b)) \<Longrightarrow>
    \<exists>ms b'. collect_loop stop f cids acc b = Some (ms, b') \<and> keeps P b b'"
proof (induction cids arbitrary: acc b)
  case (Cons cid cids)
  then obtain st where st: "map_of (channels b) cid = Some st" by auto
  let ?r = "f (length cids) acc st (bctx b)"
  let ?b = "put_channel cid (snd ?r) b"
  have k: "keeps P b ?b" using st by (auto intro!: keeps_put assms)
  moreover have "set cids \<subseteq> dom (map_of (channels ?b))" using Cons.prems by auto
  from Cons.IH [OF this] obtain ms b' where "collect_loop stop f cids (acc @ fst ?r) ?b = Some (ms, b')" "keeps P ?b b'" by blast
  ultimately show ?case using st by (auto simp: case_prod_unfold Let_def intro: keeps_trans)
qed simp

end

lemma consume_latest_config:
  "config (fst (snd (consume_latest_from_state now r st ctx))) = config st"
  by (simp add: consume_latest_from_state_def mark_stale_drop_def mark_delivery_metrics_def Let_def split: option.split)

lemma drain_config: "config (fst (snd (drain_state now r b st ctx))) = config st"
proof (cases "ch_latest_style st")
  case True
  then show ?thesis using consume_latest_config by (simp add: drain_state_def case_prod_unfold Let_def)
next
  case False
  obtain out s c where con: "consume_from_state now r b st ctx = (out, s, c)" by (metis prod_cases3)
  show ?thesis
  proof (cases "barrier_waiting st")
    case True
    with False show ?thesis by (simp add: drain_state_def consume_waiting)
  next
    case nb: False
    with consume_from_state_facts(3) [OF con nb] con False show ?thesis by (simp add: drain_state_def same_frame_def)
  qed
qed

lemma filter_port_ok:
  "set cids \<subseteq> dom (map_of (channels b)) \<Longrightarrow> \<exists>ids. filter_port b port cids = Some ids \<and> set ids \<subseteq> set cids"
  by (induction cids) (auto split: if_splits)

lemma channel_ids_ok:
  "routes_ok b \<Longrightarrow> \<exists>ids. channel_ids_for_component_port b c port = Some ids \<and> set ids \<subseteq> dom (map_of (channels b))"
  using routes_okD [of b c] filter_port_ok [of _ b port] unfolding channel_ids_for_component_port_def
  by (cases "map_of (component_to_channels b) c") (simp, fastforce)

section \<open>Runs of the bus\<close>

datatype bus_op =
    BusPublish int string payload_ptr invocation_metadata "event_timestamp option"
  | BusPublishFrom "nat \<Rightarrow> int" string payload_ptr invocation_metadata "event_timestamp option"
  | BusPublishBatch "nat \<Rightarrow> int" "channel_publication list"
  | BusAdvance
  | BusReadLatest int string string
  | BusReadUpdate "nat \<Rightarrow> int" string string
  | BusPeek "nat \<Rightarrow> int" string string
  | BusDrainReader int string string nat
  | BusSnapshotPort "nat \<Rightarrow> int" string string nat
  | BusDrainPort "nat \<Rightarrow> int" string string nat
  | BusConsume "nat \<Rightarrow> int" string
  | BusSetSink "nat option"

fun bus_exec :: "bus_op \<Rightarrow> channel_bus \<Rightarrow> channel_bus option" where
  "bus_exec (BusPublish now cid p md ts) b = Some (fst (snd (publish_shared_with_metadata now cid p md ts b)))"
| "bus_exec (BusPublishFrom now src p md ts) b =
     map_option (fst \<circ> snd) (publish_shared_from_with_metadata now src p md ts b)"
| "bus_exec (BusPublishBatch now pubs) b = map_option (fst \<circ> snd) (publish_batch now pubs b)"
| "bus_exec BusAdvance b = Some (advance_epoch b)"
| "bus_exec (BusReadLatest now cid r) b = Some (fst (snd (read_latest_for_reader now cid r b)))"
| "bus_exec (BusReadUpdate now c port) b = map_option (fst \<circ> snd) (read_latest_update_for_component_port now c port b)"
| "bus_exec (BusPeek now c port) b = map_option (fst \<circ> snd) (peek_latest_for_component_port now c port b)"
| "bus_exec (BusDrainReader now cid r n) b = Some (fst (snd (drain_for_reader now cid r n b)))"
| "bus_exec (BusSnapshotPort now c port n) b = map_option (fst \<circ> snd) (snapshot_for_component_port now c port n b)"
| "bus_exec (BusDrainPort now c port n) b = map_option (fst \<circ> snd) (drain_for_component_port now c port n b)"
| "bus_exec (BusConsume now c) b = map_option (fst \<circ> snd) (consume_for_component now c b)"
| "bus_exec (BusSetSink s) b = Some (set_health_event_sink s b)"

fun bus_run :: "bus_op list \<Rightarrow> channel_bus \<Rightarrow> channel_bus option" where
  "bus_run [] b = Some b"
| "bus_run (op # ops) b = (case bus_exec op b of None \<Rightarrow> None | Some b' \<Rightarrow> bus_run ops b')"

lemma finish_read_Some:
  "\<exists>x b'. r = Some (x, b') \<and> keeps P b b' \<Longrightarrow> \<exists>b''. map_option (fst \<circ> snd) (finish_read g r) = Some b'' \<and> keeps P b b''"
  by (auto simp: finish_read_def keeps_drain simp del: map_option_eq_Some)

context channel_law
begin

lemma keeps_exec:
  assumes ok: "routes_ok b"
  shows "\<exists>b'. bus_exec op b = Some b' \<and> keeps P b b'"
proof -
  have ids: "\<exists>cids. channel_ids_for_component_port b c port = Some cids \<and> set cids \<subseteq> dom (map_of (channels b))" for c port
    by (rule channel_ids_ok [OF ok])
  show ?thesis
  proof (cases op)
    case (BusReadUpdate now c port)
    obtain cids where c: "channel_ids_for_component_port b c port = Some cids" "set cids \<subseteq> dom (map_of (channels b))" using ids by blast
    show ?thesis
      unfolding BusReadUpdate bus_exec.simps read_latest_update_for_component_port_def c(1) option.case
      by (rule finish_read_Some, rule keeps_collect_loop [OF _ c(2)]) (auto simp: case_prod_unfold Let_def intro: law_latest)
  next
    case (BusPeek now c port)
    obtain cids where c: "channel_ids_for_component_port b c port = Some cids" "set cids \<subseteq> dom (map_of (channels b))" using ids by blast
    show ?thesis
      unfolding BusPeek bus_exec.simps peek_latest_for_component_port_def c(1) option.case
      by (rule finish_read_Some, rule keeps_collect_loop [OF _ c(2)]) (rule law_snapshot)
  next
    case (BusSnapshotPort now c port n)
    obtain cids where c: "channel_ids_for_component_port b c port = Some cids" "set cids \<subseteq> dom (map_of (channels b))" using ids by blast
    show ?thesis
      unfolding BusSnapshotPort bus_exec.simps snapshot_for_component_port_def c(1) option.case
      by (rule finish_read_Some, rule keeps_collect_loop [OF _ c(2)]) (auto simp: case_prod_unfold Let_def intro: law_snapshot)
  next
    case (BusDrainPort now c port n)
    obtain cids where c: "channel_ids_for_component_port b c port = Some cids" "set cids \<subseteq> dom (map_of (channels b))" using ids by blast
    show ?thesis
      unfolding BusDrainPort bus_exec.simps drain_for_component_port_def c(1) option.case
      by (rule finish_read_Some, rule keeps_collect_loop [OF _ c(2)]) (auto simp: case_prod_unfold Let_def intro: law_drain)
  next
    case (BusConsume now c)
    show ?thesis
    proof (cases "map_of (component_to_channels b) c")
      case None
      then show ?thesis by (auto simp: BusConsume consume_for_component_def intro: keeps_drain)
    next
      case (Some cids)
      then have "set cids \<subseteq> dom (map_of (channels b))" using routes_okD [OF ok] by blast
      note loop = keeps_collect_loop [OF _ this]
      show ?thesis
        unfolding BusConsume bus_exec.simps consume_for_component_def Some option.case
        by (rule finish_read_Some, rule loop) (rule law_drain)
    qed
  next
    case (BusPublishFrom now src p md ts)
    with keeps_publish_from [OF ok, of now src p md ts] show ?thesis by auto
  next
    case (BusPublishBatch now pubs)
    with keeps_publish_batch [OF ok, of now pubs] show ?thesis by auto
  next
    case (BusSetSink s)
    then show ?thesis by (simp add: set_health_event_sink_def keeps_def same_routes_def bus_all_def)
  qed (simp_all add: keeps_publish_shared_with_metadata keeps_advance_epoch keeps_read_latest_for_reader keeps_drain_for_reader)
qed

lemma keeps_run: "routes_ok b \<Longrightarrow> \<exists>b'. bus_run ops b = Some b' \<and> keeps P b b'"
proof (induction ops arbitrary: b)
  case (Cons op ops)
  obtain b1 where e: "bus_exec op b = Some b1" "keeps P b b1" using keeps_exec [OF Cons.prems] by blast
  then have "routes_ok b1" using Cons.prems by (auto simp: keeps_def intro: same_routes_ok)
  from Cons.IH [OF this] e show ?case by (auto intro: keeps_trans)
qed simp

end

text \<open>The invariant of every channel, and that a channel keeps its configuration and its endpoints.\<close>

interpretation bus_inv: channel_law "\<lambda>cid st. channel_inv st \<and> cfg_id (config st) = cid"
proof
  fix cid st now p ts md ctx n r b
  assume a: "channel_inv st \<and> cfg_id (config st) = cid"
  show "channel_inv (fst (snd (commit_channel now p ts md st ctx))) \<and> cfg_id (config (fst (snd (commit_channel now p ts md st ctx)))) = cid"
    using a channel_inv_commit moves_on_quiet_ops(1) [of st] by (auto simp: moves_on_def)
  show "channel_inv (fst (snd (preflight_channel p n st ctx))) \<and> cfg_id (config (fst (snd (preflight_channel p n st ctx)))) = cid"
    using a channel_inv_preflight moves_on_quiet_ops(2) [of st] by (auto simp: moves_on_def)
  show "channel_inv (fst (snd (snapshot_from_state now b st ctx))) \<and> cfg_id (config (fst (snd (snapshot_from_state now b st ctx)))) = cid"
    using a channel_inv_snapshot_snd moves_on_quiet_ops(3) [of st] by (auto simp: moves_on_def)
  show "channel_inv (fst (advance_state st)) \<and> cfg_id (config (fst (advance_state st))) = cid"
    using a channel_inv_advance moves_on_quiet_ops(4) [of st] by (auto simp: moves_on_def)
  show "channel_inv (fst (snd (drain_state now r b st ctx))) \<and> cfg_id (config (fst (snd (drain_state now r b st ctx)))) = cid"
    using a channel_inv_drain drain_config by auto
qed

section \<open>Construction\<close>

lemma add_edge_ok: "routes_ok b \<Longrightarrow> routes_ok (add_edge e b)"
  unfolding routes_ok_def by (simp add: add_edge_def) blast

lemma add_edge_all:
  "bus_all (\<lambda>cid st. channel_inv st \<and> cfg_id (config st) = cid) b \<Longrightarrow>
   bus_all (\<lambda>cid st. channel_inv st \<and> cfg_id (config st) = cid) (add_edge e b)"
  by (auto simp: bus_all_def add_edge_def channel_inv_initial) (simp add: channel_state_for_edge_def Let_def)

lemma make_bus_ok:
  "routes_ok (make_bus specs)" "bus_all (\<lambda>cid st. channel_inv st \<and> cfg_id (config st) = cid) (make_bus specs)"
proof -
  have "routes_ok b \<Longrightarrow> routes_ok (fold add_edge specs b)"
    "bus_all (\<lambda>cid st. channel_inv st \<and> cfg_id (config st) = cid) b \<Longrightarrow>
     bus_all (\<lambda>cid st. channel_inv st \<and> cfg_id (config st) = cid) (fold add_edge specs b)" for b
    by (induction specs arbitrary: b) (auto intro: add_edge_ok add_edge_all)
  moreover have "routes_ok empty_bus" "bus_all (\<lambda>cid st. channel_inv st \<and> cfg_id (config st) = cid) empty_bus"
    by (simp_all add: empty_bus_def routes_ok_def bus_all_def)
  ultimately show "routes_ok (make_bus specs)" "bus_all (\<lambda>cid st. channel_inv st \<and> cfg_id (config st) = cid) (make_bus specs)"
    unfolding make_bus_def by blast+
qed

definition bus_reachable :: "edge_spec list \<Rightarrow> channel_bus \<Rightarrow> bool" where
  "bus_reachable specs b \<longleftrightarrow> (\<exists>ops. bus_run ops (make_bus specs) = Some b)"

lemma reachable_ok:
  assumes "bus_reachable specs b"
  shows "routes_ok b" and "bus_all (\<lambda>cid st. channel_inv st \<and> cfg_id (config st) = cid) b"
proof -
  obtain ops where run: "bus_run ops (make_bus specs) = Some b" using assms by (auto simp: bus_reachable_def)
  from bus_inv.keeps_run [OF make_bus_ok(1), of ops specs] run
  have k: "keeps (\<lambda>cid st. channel_inv st \<and> cfg_id (config st) = cid) (make_bus specs) b" by simp
  then show "routes_ok b" "bus_all (\<lambda>cid st. channel_inv st \<and> cfg_id (config st) = cid) b"
    using make_bus_ok [of specs] by (auto simp: keeps_def intro: same_routes_ok)
qed

section \<open>Preflight and commit\<close>

definition room_for :: "channel_state \<Rightarrow> nat \<Rightarrow> bool" where
  "room_for st n \<longleftrightarrow> n = 0 \<or> ch_latest_style st \<or> evicting st \<or> length (queue st) + n \<le> ch_capacity st"

definition takes :: "runtime_payload \<Rightarrow> channel_state \<Rightarrow> bool" where
  "takes p st \<longleftrightarrow> \<not> (cfg_copy_policy (config st) = KCopy \<and> is_large_payload p)"

definition untouched :: "channel_state \<Rightarrow> channel_state \<Rightarrow> bool" where
  "untouched st st' \<longleftrightarrow> same_frame st st' \<and> delivered_queue_sequences st' = delivered_queue_sequences st \<and>
     published_count (metrics st') = published_count (metrics st) \<and>
     delivered_count (metrics st') = delivered_count (metrics st)"

lemma untouched_refl [simp]: "untouched st st"
  by (simp add: untouched_def)

lemma untouched_trans: "untouched a b \<Longrightarrow> untouched b c \<Longrightarrow> untouched a c"
  by (auto simp: untouched_def intro: same_frame_trans)

lemma untouched_room: "untouched st st' \<Longrightarrow> room_for st' n = room_for st n \<and> takes p st' = takes p st"
  by (simp add: untouched_def same_frame_def room_for_def takes_def evicting_def)

lemma preflight_channel_cases:
  assumes "preflight_channel p n st ctx = (r, st', ctx')"
  shows "untouched st st' \<and> (accepted r \<longrightarrow> r = accept \<and> takes p st \<and> room_for st (Suc n))"
proof (cases "takes p st")
  case False
  with assms refuse_large_copy_frame [where st = st and why = "large_payload_copy_reason p"] show ?thesis
    by (auto simp: preflight_channel_def preflight_payload_cases takes_def untouched_def stale_only_def)
next
  case t: True
  then have pre: "preflight_publish_to_state n st ctx = (r, st', ctx')"
    using assms by (auto simp: preflight_channel_def preflight_payload_cases takes_def split: if_splits)
  show ?thesis
  proof (cases "overflow_rejection (next_sequence st) st ctx")
    case None
    then have "evicting st" by (simp add: overflow_rejection_None_iff)
    with pre None t show ?thesis by (auto simp: preflight_publish_to_state_def room_for_def split: if_splits)
  next
    case (Some x)
    obtain a s c where x: "x = (a, s, c)" by (metis prod_cases3)
    have "untouched st s \<and> \<not> accepted a"
      using overflow_rejection_shape [OF Some [unfolded x]] by (simp add: untouched_def)
    with pre Some x t show ?thesis
      by (auto simp: preflight_publish_to_state_def room_for_def split: if_splits)
  qed
qed

lemma commit_channel_room:
  assumes t: "takes p st" and room: "room_for st (Suc n)" and com: "commit_channel now p ts md st ctx = (r, st', ctx')"
  shows "r = accept \<and> config st' = config st \<and> room_for st' n \<and>
     published_count (metrics st') = Suc (published_count (metrics st))"
proof -
  let ?c = "cfg_copy_policy (config st) = KCopy"
  have "publish_to_state now (Some p) ts ?c md st ctx = (r, st', ctx')"
    using com t by (auto simp: commit_channel_def prepare_cases takes_def split: if_splits)
  moreover have "\<not> (full st \<and> \<not> evicting st)" using room by (auto simp: room_for_def full_def)
  ultimately have acc: "accept_message (new_message now (Some p) ts md st) (stamped ?c st) ctx = (r, st', ctx')"
    by (auto simp: publish_to_state_cases split: if_splits)
  show ?thesis
  proof (cases "ch_latest_style st")
    case True
    with accept_latest_shape [OF acc] accept_previous_shape [OF acc] show ?thesis
      by (cases "cfg_type (config st) = KPreviousTick") (auto simp: same_frame_def room_for_def)
  next
    case False
    then have "\<not> ch_latest_style (stamped ?c st)" by simp
    from accept_queue_shape [OF acc this] room False show ?thesis
      by (auto simp: same_frame_def room_for_def evicting_def)
  qed
qed

text \<open>A relation between every channel before and after.\<close>

definition channelwise :: "(string \<Rightarrow> channel_state \<Rightarrow> channel_state \<Rightarrow> bool) \<Rightarrow> channel_bus \<Rightarrow> channel_bus \<Rightarrow> bool" where
  "channelwise Q b b' \<longleftrightarrow> (\<forall>cid. rel_option (Q cid) (map_of (channels b) cid) (map_of (channels b') cid))"

lemma channelwise_untouched_refl [simp]: "channelwise (\<lambda>c. untouched) b b"
  by (simp add: channelwise_def option.rel_refl)

lemma channelwise_untouched_trans:
  "channelwise (\<lambda>c. untouched) a b \<Longrightarrow> channelwise (\<lambda>c. untouched) b c \<Longrightarrow> channelwise (\<lambda>c. untouched) a c"
  unfolding channelwise_def
proof (intro allI)
  fix cid
  assume "\<forall>cid. rel_option untouched (map_of (channels a) cid) (map_of (channels b) cid)"
    "\<forall>cid. rel_option untouched (map_of (channels b) cid) (map_of (channels c) cid)"
  then have "rel_option untouched (map_of (channels a) cid) (map_of (channels b) cid)"
    "rel_option untouched (map_of (channels b) cid) (map_of (channels c) cid)" by blast+
  then show "rel_option untouched (map_of (channels a) cid) (map_of (channels c) cid)"
    by (auto simp: option_rel_Some1 option_rel_Some2 intro: untouched_trans elim!: option.rel_cases)
qed

lemma channelwise_put:
  "map_of (channels b) cid = Some st \<Longrightarrow> untouched st (fst sc) \<Longrightarrow> channelwise (\<lambda>c. untouched) b (put_channel cid sc b)"
  by (simp add: channelwise_def option.rel_refl)

definition all_room :: "(string \<Rightarrow> nat) \<Rightarrow> channel_bus \<Rightarrow> bool" where
  "all_room n b \<longleftrightarrow> bus_all (\<lambda>cid st. room_for st (n cid)) b"

definition can_take :: "channel_bus \<Rightarrow> runtime_payload \<Rightarrow> string \<Rightarrow> bool" where
  "can_take b p cid \<longleftrightarrow> (\<exists>st. map_of (channels b) cid = Some st \<and> takes p st)"

lemma untouched_all_room: "channelwise (\<lambda>c. untouched) b b' \<Longrightarrow> all_room n b' = all_room n b \<and> can_take b' = can_take b"
proof -
  assume c: "channelwise (\<lambda>c. untouched) b b'"
  then have "rel_option untouched (map_of (channels b) cid) (map_of (channels b') cid)" for cid
    by (simp add: channelwise_def)
  then have one: "(\<exists>st st'. map_of (channels b) cid = Some st \<and> map_of (channels b') cid = Some st' \<and> untouched st st') \<or>
      (map_of (channels b) cid = None \<and> map_of (channels b') cid = None)" for cid
    by (meson option.rel_cases)
  have "(\<forall>st. map_of (channels b') cid = Some st \<longrightarrow> room_for st (n cid)) =
      (\<forall>st. map_of (channels b) cid = Some st \<longrightarrow> room_for st (n cid))"
    "(\<exists>st. map_of (channels b') cid = Some st \<and> takes p st) = (\<exists>st. map_of (channels b) cid = Some st \<and> takes p st)" for cid p
    using one [of cid] untouched_room by auto
  then show ?thesis by (simp add: all_room_def bus_all_def can_take_def fun_eq_iff)
qed

text \<open>A preflight leaves every channel untouched; when it accepts, there is room for all that is planned.\<close>

lemma preflight_all_room:
  assumes "preflight_all p cids planned b = Some (r, pl, b')"
  shows "channelwise (\<lambda>c. untouched) b b' \<and>
    (accepted r \<longrightarrow> r = accept \<and> (\<forall>cid. smap_get 0 pl cid = smap_get 0 planned cid + count_list cids cid) \<and>
       (\<forall>cid \<in> set cids. can_take b p cid) \<and>
       (all_room (smap_get 0 planned) b \<longrightarrow> all_room (\<lambda>cid. smap_get 0 planned cid + count_list cids cid) b))"
  using assms
proof (induction cids arbitrary: planned b)
  case (Cons cid cids)
  from Cons.prems obtain st where st: "map_of (channels b) cid = Some st" by (auto split: option.splits)
  obtain r1 s1 c1 where pre: "preflight_channel p (smap_get 0 planned cid) st (bctx b) = (r1, s1, c1)" by (metis prod_cases3)
  note pc = preflight_channel_cases [OF pre]
  let ?b = "put_channel cid (s1, c1) b" and ?pl = "smap_put cid (smap_get 0 planned cid + 1) planned"
  have u: "channelwise (\<lambda>c. untouched) b ?b" using st pc by (intro channelwise_put) auto
  show ?case
  proof (cases "accepted r1")
    case False
    with Cons.prems st pre u show ?thesis by auto
  next
    case True
    with Cons.prems st pre have "preflight_all p cids ?pl ?b = Some (r, pl, b')" by auto
    note ih = Cons.IH [OF this]
    note same = untouched_all_room [OF u]
    have grow: "all_room (smap_get 0 planned) b \<Longrightarrow> all_room (smap_get 0 ?pl) ?b"
      using pc True st same by (auto simp: all_room_def bus_all_def)
    have eq: "(\<lambda>c. smap_get 0 ?pl c + count_list cids c) = (\<lambda>c. smap_get 0 planned c + count_list (cid # cids) c)"
      by (simp add: fun_eq_iff)
    have "accepted r \<longrightarrow> all_room (smap_get 0 ?pl) ?b \<longrightarrow> all_room (\<lambda>c. smap_get 0 ?pl c + count_list cids c) ?b"
      using ih by blast
    then have room: "accepted r \<longrightarrow> all_room (smap_get 0 planned) b \<longrightarrow>
        all_room (\<lambda>c. smap_get 0 planned c + count_list (cid # cids) c) b"
      using grow same unfolding eq by blast
    have "can_take b p cid" using pc True st by (simp add: can_take_def)
    then have take: "accepted r \<longrightarrow> (\<forall>c \<in> set (cid # cids). can_take b p c)" using ih same by simp
    have plan: "accepted r \<longrightarrow> r = accept \<and> (\<forall>c. smap_get 0 pl c = smap_get 0 planned c + count_list (cid # cids) c)"
      using ih by auto
    have "channelwise (\<lambda>c. untouched) b b'" using ih channelwise_untouched_trans [OF u] by blast
    with room take plan show ?thesis by blast
  qed
next
  case Nil
  then show ?case by simp
qed

lemma commit_all_room:
  assumes "all_room (count_list (map ex_channel_id es)) b" and "\<forall>e \<in> set es. can_take b (ex_payload e) (ex_channel_id e)"
    and "commit_all now accept es b = Some (r, b')"
  shows "r = accept \<and> channelwise (\<lambda>cid st st'. config st' = config st \<and>
     published_count (metrics st') = published_count (metrics st) + count_list (map ex_channel_id es) cid) b b'"
  using assms
proof (induction es arbitrary: b)
  case Nil
  then show ?case by (simp add: channelwise_def option.rel_refl)
next
  case (Cons e es)
  let ?cid = "ex_channel_id e"
  obtain st where st: "map_of (channels b) ?cid = Some st" and t: "takes (ex_payload e) st"
    using Cons.prems(2) by (auto simp: can_take_def)
  obtain r1 s1 c1 where com: "commit_channel (now (length es)) (ex_payload e) (ex_timestamp e) (ex_metadata e) st (bctx b) = (r1, s1, c1)"
    by (metis prod_cases3)
  have "room_for st (Suc (count_list (map ex_channel_id es) ?cid))"
    using Cons.prems(1) st unfolding all_room_def bus_all_def by force
  note cr = commit_channel_room [OF t this com]
  let ?b = "put_channel ?cid (s1, c1) b"
  have rec: "commit_all now accept es ?b = Some (r, b')" using Cons.prems(3) st com cr by simp
  have room: "all_room (count_list (map ex_channel_id es)) ?b"
    using Cons.prems(1) cr unfolding all_room_def bus_all_def by (auto split: if_splits)
  have take: "\<forall>e \<in> set es. can_take ?b (ex_payload e) (ex_channel_id e)"
    using Cons.prems(2) cr st by (auto simp: can_take_def takes_def)
  note ih = Cons.IH [OF room take rec]
  have "rel_option (\<lambda>st st'. config st' = config st \<and>
      published_count (metrics st') = published_count (metrics st) + count_list (map ex_channel_id (e # es)) cid)
      (map_of (channels b) cid) (map_of (channels b') cid)" for cid
  proof -
    have "rel_option (\<lambda>st st'. config st' = config st \<and>
      published_count (metrics st') = published_count (metrics st) + count_list (map ex_channel_id es) cid)
      (map_of (channels ?b) cid) (map_of (channels b') cid)" using ih by (simp add: channelwise_def)
    then show ?thesis using st cr by (cases "cid = ?cid") (auto elim!: option.rel_cases)
  qed
  with ih show ?case by (simp add: channelwise_def)
qed

definition targets :: "channel_bus \<Rightarrow> channel_publication \<Rightarrow> string list" where
  "targets b q = (case pub_target q of KChannel \<Rightarrow> [pub_id q]
     | KSourceEndpoint \<Rightarrow> smap_get [] (source_to_channels b) (pub_id q))"

lemma preflight_all_sources: "preflight_all p cids planned b = Some (r, pl, b') \<Longrightarrow> source_to_channels b' = source_to_channels b"
  by (induction cids arbitrary: planned b)
    (auto simp: put_channel_def Let_def split: option.splits prod.splits if_splits)

lemma expand_batch_step:
  assumes "expand_batch (q # qs) planned ex b = Some (r, ex', b')" and "accepted r"
  obtains p md pl b1 where "pub_payload q = Some p"
    "preflight_all p (targets b q) planned b = Some (accept, pl, b1)"
    "expand_batch qs pl (ex @ map (\<lambda>cid. \<lparr>ex_channel_id = cid, ex_payload = p,
       ex_timestamp = pub_event_timestamp q, ex_metadata = md\<rparr>) (targets b q)) b1 = Some (r, ex', b')"
proof (cases "pub_payload q")
  case None
  with assms show ?thesis by auto
next
  case (Some p)
  let ?route = "case pub_target q of
      KChannel \<Rightarrow> (case map_of (channels b) (pub_id q) of
          None \<Rightarrow> Inl (reject (''unknown channel: '' @ pub_id q)) | Some st \<Rightarrow> Inr ([pub_id q], pub_metadata q))
    | KSourceEndpoint \<Rightarrow> (case map_of (source_to_channels b) (pub_id q) of
          None \<Rightarrow> Inl (reject (''unknown source endpoint: '' @ pub_id q))
        | Some cids \<Rightarrow> Inr (cids, metadata_for_source_endpoint (pub_metadata q) (pub_id q)))"
  show ?thesis
  proof (cases ?route)
    case (Inl x)
    then have "\<not> accepted x" by (auto split: publish_target.splits option.splits)
    with Inl Some assms show ?thesis by (simp only: expand_batch.simps option.case sum.case) auto
  next
    case (Inr cm)
    obtain cids md where cm: "cm = (cids, md)" by fastforce
    have t: "cids = targets b q"
      using Inr by (auto simp: cm targets_def smap_get_def split: publish_target.splits option.splits)
    have eq: "expand_batch (q # qs) planned ex b = (case preflight_all p cids planned b of None \<Rightarrow> None
        | Some (r, planned', b') \<Rightarrow> if \<not> accepted r then Some (r, ex, b') else expand_batch qs planned'
            (ex @ map (\<lambda>cid. \<lparr>ex_channel_id = cid, ex_payload = p, ex_timestamp = pub_event_timestamp q, ex_metadata = md\<rparr>) cids) b')"
      using Some Inr cm by (simp only: expand_batch.simps option.case sum.case prod.case)
    obtain r1 pl b1 where pre: "preflight_all p cids planned b = Some (r1, pl, b1)"
      using assms(1) eq by (cases "preflight_all p cids planned b") auto
    with assms eq have a: "accepted r1" by (auto split: if_splits)
    with preflight_all_room [OF pre] have "r1 = accept" by blast
    with that [OF Some, of pl b1 md] pre eq assms(1) a t show ?thesis by simp
  qed
qed

lemma expand_batch_untouched: "expand_batch pubs planned ex b = Some (r, ex', b') \<Longrightarrow> channelwise (\<lambda>c. untouched) b b'"
proof (induction pubs arbitrary: planned ex b)
  case (Cons q qs)
  then show ?case
    by (auto split: option.splits sum.splits prod.splits if_splits
        dest!: preflight_all_room intro: channelwise_untouched_trans)
qed simp

lemma expand_batch_room:
  assumes "expand_batch pubs planned ex b = Some (r, ex', b')" and "accepted r"
    and "\<forall>cid. smap_get 0 planned cid = count_list (map ex_channel_id ex) cid"
    and "all_room (count_list (map ex_channel_id ex)) b" and "\<forall>e \<in> set ex. can_take b (ex_payload e) (ex_channel_id e)"
  shows "r = accept \<and> map ex_channel_id ex' = map ex_channel_id ex @ concat (map (targets b) pubs) \<and>
    all_room (count_list (map ex_channel_id ex')) b \<and> (\<forall>e \<in> set ex'. can_take b (ex_payload e) (ex_channel_id e))"
  using assms
proof (induction pubs arbitrary: planned ex b)
  case (Cons q qs)
  obtain p md pl b1 where "pub_payload q = Some p"
    and pre: "preflight_all p (targets b q) planned b = Some (accept, pl, b1)"
    and rec: "expand_batch qs pl (ex @ map (\<lambda>cid. \<lparr>ex_channel_id = cid, ex_payload = p,
       ex_timestamp = pub_event_timestamp q, ex_metadata = md\<rparr>) (targets b q)) b1 = Some (r, ex', b')"
    (is "expand_batch qs pl ?ex b1 = _") by (rule expand_batch_step [OF Cons.prems(1,2)])
  note pr = preflight_all_room [OF pre]
  have ids: "map ex_channel_id ?ex = map ex_channel_id ex @ targets b q" by (simp add: comp_def)
  have u: "channelwise (\<lambda>c. untouched) b b1" using pr by blast
  note same = untouched_all_room [OF u]
  have plan: "smap_get 0 pl cid = count_list (map ex_channel_id ?ex) cid" for cid
    using pr Cons.prems(3) unfolding ids by simp
  have "smap_get 0 planned = count_list (map ex_channel_id ex)" using Cons.prems(3) by (simp add: fun_eq_iff)
  with Cons.prems(4) have "all_room (smap_get 0 planned) b" by simp
  then have "all_room (\<lambda>cid. smap_get 0 planned cid + count_list (targets b q) cid) b" using pr by simp
  moreover have "(\<lambda>cid. smap_get 0 planned cid + count_list (targets b q) cid) = count_list (map ex_channel_id ?ex)"
    unfolding ids using Cons.prems(3) by (simp add: fun_eq_iff)
  ultimately have room: "all_room (count_list (map ex_channel_id ?ex)) b1" using same by simp
  have take: "\<forall>e \<in> set ?ex. can_take b1 (ex_payload e) (ex_channel_id e)"
    using pr Cons.prems(5) same by auto
  have tg: "targets b1 = targets b" by (rule ext) (simp add: targets_def preflight_all_sources [OF pre] split: publish_target.split)
  have ih: "r = accept \<and> map ex_channel_id ex' = map ex_channel_id ?ex @ concat (map (targets b1) qs) \<and>
      all_room (count_list (map ex_channel_id ex')) b1 \<and> (\<forall>e \<in> set ex'. can_take b1 (ex_payload e) (ex_channel_id e))"
    by (rule Cons.IH [OF rec Cons.prems(2) _ room take]) (intro allI plan)
  then have "map ex_channel_id ex' = map ex_channel_id ex @ concat (map (targets b) (q # qs))"
    unfolding ids tg by simp
  moreover have "all_room (count_list (map ex_channel_id ex')) b" using ih same by blast
  moreover have "\<forall>e \<in> set ex'. can_take b (ex_payload e) (ex_channel_id e)" using ih same by simp
  ultimately show ?case using ih by blast
qed simp

lemma expand_batch_all:
  assumes "expand_batch pubs [] [] b = Some (r, ex, b')" and "accepted r"
  shows "r = accept" and "map ex_channel_id ex = concat (map (targets b) pubs)"
    and "all_room (count_list (map ex_channel_id ex)) b" and "\<forall>e \<in> set ex. can_take b (ex_payload e) (ex_channel_id e)"
proof -
  have "all_room (count_list (map ex_channel_id ([] :: expanded_publication list))) b" by (simp add: all_room_def bus_all_def room_for_def)
  then have all: "r = accept \<and> map ex_channel_id ex = map ex_channel_id ([] :: expanded_publication list) @ concat (map (targets b) pubs) \<and>
    all_room (count_list (map ex_channel_id ex)) b \<and> (\<forall>e \<in> set ex. can_take b (ex_payload e) (ex_channel_id e))"
    by - (rule expand_batch_room [OF assms], simp, assumption, simp)
  then show "r = accept" by (rule conjunct1)
  from all show "map ex_channel_id ex = concat (map (targets b) pubs)" by simp
  from all show "all_room (count_list (map ex_channel_id ex)) b" by (elim conjE)
  from all show "\<forall>e \<in> set ex. can_take b (ex_payload e) (ex_channel_id e)" by (elim conjE)
qed

text \<open>
  C3. A batch is all or nothing. On any bus the program can reach, \<^verbatim>\<open>publish_batch\<close> returns (no lookup throws);
  if it rejects, no channel changes (queue, latest value, pending value, sequence counter, cursors and message
  counters are as before); if it accepts, every channel has accepted exactly as many messages as the batch
  addresses to it, directly or through a source endpoint.
\<close>

theorem publish_batch_atomic:
  assumes "bus_reachable specs b"
  shows "\<exists>r b' ev. publish_batch now pubs b = Some (r, b', ev) \<and>
    (if accepted r
     then channelwise (\<lambda>cid st st'. published_count (metrics st') =
            published_count (metrics st) + count_list (concat (map (targets b) pubs)) cid) b b'
     else channelwise (\<lambda>cid. untouched) b b')"
proof -
  from bus_inv.keeps_publish_batch [OF reachable_ok(1) [OF assms], of now pubs] obtain r b' ev where
    pb: "publish_batch now pubs b = Some (r, b', ev)" by blast
  then obtain r1 ex b1 where e: "expand_batch pubs [] [] b = Some (r1, ex, b1)"
    by (auto simp: publish_batch_def split: option.splits)
  note u = expand_batch_untouched [OF e]
  show ?thesis
  proof (cases "accepted r1")
    case False
    then have "channels b' = channels b1" "\<not> accepted r" using pb e by (auto simp: publish_batch_def drain_pending_health_events_def)
    with u pb show ?thesis by (auto simp: channelwise_def)
  next
    case True
    note er = expand_batch_all [OF e True]
    obtain r2 b2 where c: "commit_all now accept ex b1 = Some (r2, b2)" and b2: "channels b' = channels b2" "r = r2"
      using pb e True er(1) by (auto simp: publish_batch_def drain_pending_health_events_def split: option.splits)
    have room: "all_room (count_list (map ex_channel_id ex)) b1"
      unfolding untouched_all_room [OF u, THEN conjunct1] by (rule er(3))
    have take: "\<forall>e \<in> set ex. can_take b1 (ex_payload e) (ex_channel_id e)" using er(4) untouched_all_room [OF u] by simp
    from commit_all_room [OF room take c] have r: "r2 = accept" and cw: "channelwise (\<lambda>cid st st'. config st' = config st \<and>
        published_count (metrics st') = published_count (metrics st) + count_list (map ex_channel_id ex) cid) b1 b2" by auto
    have "rel_option (\<lambda>st st'. published_count (metrics st') =
        published_count (metrics st) + count_list (concat (map (targets b) pubs)) cid)
      (map_of (channels b) cid) (map_of (channels b') cid)" for cid
    proof -
      have "rel_option untouched (map_of (channels b) cid) (map_of (channels b1) cid)"
        "rel_option (\<lambda>st st'. config st' = config st \<and> published_count (metrics st') =
           published_count (metrics st) + count_list (concat (map (targets b) pubs)) cid)
           (map_of (channels b1) cid) (map_of (channels b2) cid)"
        using u cw unfolding er(2) channelwise_def by blast+
      then show ?thesis unfolding b2(1) by (auto simp: untouched_def elim!: option.rel_cases)
    qed
    then show ?thesis using pb r b2(2) by (auto simp: channelwise_def)
  qed
qed

theorem publish_batch_atomic_witness:
  "let b = make_bus [demo_edge, demo_edge\<lparr>edge_id := ''f'', edge_policy := (edge_policy multi_edge)\<lparr>ep_capacity := 1\<rparr>\<rparr>];
       q = \<lparr>pub_target = KSourceEndpoint, pub_id = ''a.out'', pub_payload = Some (make_text_payload ''x'' kTextPayloadSchema),
            pub_kind = KImmediate, pub_event_timestamp = None, pub_metadata = empty_metadata\<rparr> in
   \<exists>r b' ev. publish_batch (\<lambda>_. 0) [q, q] b = Some (r, b', ev) \<and> \<not> accepted r \<and> channelwise (\<lambda>cid. untouched) b b'"
proof -
  let ?specs = "[demo_edge, demo_edge\<lparr>edge_id := ''f'', edge_policy := (edge_policy multi_edge)\<lparr>ep_capacity := 1\<rparr>\<rparr>]"
  let ?q = "\<lparr>pub_target = KSourceEndpoint, pub_id = ''a.out'', pub_payload = Some (make_text_payload ''x'' kTextPayloadSchema),
            pub_kind = KImmediate, pub_event_timestamp = None, pub_metadata = empty_metadata\<rparr>"
  have "bus_run [] (make_bus ?specs) = Some (make_bus ?specs)" by simp
  then have "bus_reachable ?specs (make_bus ?specs)" unfolding bus_reachable_def by blast
  from publish_batch_atomic [OF this, of "\<lambda>_. 0" "[?q, ?q]"] obtain r b' ev where
    p: "publish_batch (\<lambda>_. 0) [?q, ?q] (make_bus ?specs) = Some (r, b', ev)"
    and c: "if accepted r then channelwise (\<lambda>cid st st'. published_count (metrics st') =
            published_count (metrics st) + count_list (concat (map (targets (make_bus ?specs)) [?q, ?q])) cid) (make_bus ?specs) b'
     else channelwise (\<lambda>cid. untouched) (make_bus ?specs) b'" by blast
  have "map_option (\<lambda>(r, b', ev). accepted r) (publish_batch (\<lambda>_. 0) [?q, ?q] (make_bus ?specs)) = Some False" by code_simp
  with p have "\<not> accepted r" by simp
  with p c show ?thesis by auto
qed

text \<open>
  Whatever edges the bus is built from (duplicate ids included) and whatever methods are called on it, no
  lookup of a channel throws, every channel keeps the id it is stored under, stays within its capacity, and on a
  single-reader queue accounts for every accepted message.
\<close>

lemma bus_never_throws:
  "\<exists>b. bus_run ops (make_bus specs) = Some b \<and>
     (\<forall>cid st. map_of (channels b) cid = Some st \<longrightarrow>
        cfg_id (config st) = cid \<and> length (queue st) \<le> ch_capacity st \<and>
        (\<not> ch_latest_style st \<and> \<not> ch_multi st \<longrightarrow>
           published_count (metrics st) = delivered_count (metrics st) + overwrite_count (metrics st) +
             stale_drop_count (metrics st) + length (queue st)))"
proof -
  from bus_inv.keeps_run [OF make_bus_ok(1), of ops specs] obtain b where run: "bus_run ops (make_bus specs) = Some b" by blast
  then have all: "bus_all (\<lambda>cid st. channel_inv st \<and> cfg_id (config st) = cid) b"
    by (intro reachable_ok(2) [of specs]) (auto simp: bus_reachable_def)
  have "cfg_id (config st) = cid \<and> length (queue st) \<le> ch_capacity st \<and>
      (\<not> ch_latest_style st \<and> \<not> ch_multi st \<longrightarrow>
         published_count (metrics st) = delivered_count (metrics st) + overwrite_count (metrics st) +
           stale_drop_count (metrics st) + length (queue st))" if "map_of (channels b) cid = Some st" for cid st
  proof -
    have "cfg_id (config st) = cid" "storage_inv st" "accounting_inv st"
      using all that by (simp_all add: bus_all_def channel_inv_def)
    then show ?thesis by (auto simp: storage_inv_def accounting_inv_def Let_def split: if_splits)
  qed
  with run show ?thesis by blast
qed

lemma bus_never_throws_witness:
  "\<exists>b. bus_run [BusPublishFrom (\<lambda>_. 0) ''a.out'' (Some (make_text_payload ''x'' kTextPayloadSchema)) empty_metadata None,
       BusConsume (\<lambda>_. 1) ''b''] (make_bus [demo_edge]) = Some b \<and>
     (\<forall>st. map_of (channels b) ''e'' = Some st \<longrightarrow> published_count (metrics st) = delivered_count (metrics st) +
        overwrite_count (metrics st) + stale_drop_count (metrics st) + length (queue st)) \<and>
     map_option (\<lambda>st. delivered_count (metrics st)) (map_of (channels b) ''e'') = Some 1"
proof -
  let ?ops = "[BusPublishFrom (\<lambda>_. 0) ''a.out'' (Some (make_text_payload ''x'' kTextPayloadSchema)) empty_metadata None,
       BusConsume (\<lambda>_. 1) ''b'']"
  from bus_never_throws [of ?ops "[demo_edge]"] obtain b where b: "bus_run ?ops (make_bus [demo_edge]) = Some b"
    and all: "\<forall>cid st. map_of (channels b) cid = Some st \<longrightarrow>
        cfg_id (config st) = cid \<and> length (queue st) \<le> ch_capacity st \<and>
        (\<not> ch_latest_style st \<and> \<not> ch_multi st \<longrightarrow>
           published_count (metrics st) = delivered_count (metrics st) + overwrite_count (metrics st) +
             stale_drop_count (metrics st) + length (queue st))" by blast
  have "map_option (\<lambda>b. map_option (\<lambda>st. (ch_latest_style st, ch_multi st, delivered_count (metrics st))) (map_of (channels b) ''e''))
      (bus_run ?ops (make_bus [demo_edge])) = Some (Some (False, False, 1))"
    by code_simp
  with b obtain st where st: "map_of (channels b) ''e'' = Some st" "\<not> ch_latest_style st" "\<not> ch_multi st" "delivered_count (metrics st) = 1"
    by auto
  with b all show ?thesis by auto
qed

text \<open>
  \<^verbatim>\<open>configured_capacity_for_component_port\<close> adds up the capacities of all channels that feed the port.
\<close>

lemma configured_capacity_sums:
  assumes "bus_reachable specs b" and "channel_ids_for_component_port b c port = Some cids"
  shows "configured_capacity_for_component_port b c port =
     Some (sum_list (map (\<lambda>cid. case map_of (channels b) cid of Some st \<Rightarrow> ch_capacity st | None \<Rightarrow> 0) cids))"
proof -
  have all: "bus_all (\<lambda>cid st. channel_inv st \<and> cfg_id (config st) = cid) b" and ok: "routes_ok b"
    using assms(1) by (rule reachable_ok)+
  have cap: "map_of (channels b) cid = Some st \<Longrightarrow> max 1 (ch_capacity st) = ch_capacity st" for cid st
    using all by (simp add: bus_all_def channel_inv_def storage_inv_def)
  have "set cids \<subseteq> dom (map_of (channels b))" using channel_ids_ok [OF ok, of c port] assms(2) by auto
  then have "fold (\<lambda>cid acc. case (acc, map_of (channels b) cid) of
        (Some n, Some st) \<Rightarrow> Some (n + max 1 (ch_capacity st)) | _ \<Rightarrow> None) cids (Some k) =
      Some (k + sum_list (map (\<lambda>cid. case map_of (channels b) cid of Some st \<Rightarrow> ch_capacity st | None \<Rightarrow> 0) cids))" for k
    by (induction cids arbitrary: k) (auto simp: cap [simplified])
  from this [of 0] assms(2) show ?thesis by (simp add: configured_capacity_for_component_port_def)
qed

lemma configured_capacity_sums_witness:
  "configured_capacity_for_component_port (make_bus [demo_edge, demo_edge\<lparr>edge_id := ''f''\<rparr>]) ''b'' ''in'' = Some 4"
proof -
  let ?specs = "[demo_edge, demo_edge\<lparr>edge_id := ''f''\<rparr>]"
  have "bus_run [] (make_bus ?specs) = Some (make_bus ?specs)" by simp
  then have r: "bus_reachable ?specs (make_bus ?specs)" unfolding bus_reachable_def by blast
  have "channel_ids_for_component_port (make_bus ?specs) ''b'' ''in'' = Some [''e'', ''f'']" by code_simp
  from configured_capacity_sums [OF r this]
  have "configured_capacity_for_component_port (make_bus ?specs) ''b'' ''in'' =
     Some (sum_list (map (\<lambda>cid. case map_of (channels (make_bus ?specs)) cid of Some st \<Rightarrow> ch_capacity st | None \<Rightarrow> 0) [''e'', ''f'']))" .
  also have "sum_list (map (\<lambda>cid. case map_of (channels (make_bus ?specs)) cid of Some st \<Rightarrow> ch_capacity st | None \<Rightarrow> 0) [''e'', ''f'']) = 4"
    by code_simp
  finally show ?thesis .
qed

end
