(* ===== verification/Publication_Router.thy ===== *)
theory Publication_Router
  imports Channel_Bus "HOL-Library.Sublist"
begin

text \<open>
  \<^verbatim>\<open>RuntimePublicationRouter\<close> and \<^verbatim>\<open>RuntimeChannelPublicationStage\<close> (\<^verbatim>\<open>src/channel.cpp\<close>): publications of
  components are staged, deferred over the epoch boundary or held back while a composite region runs, and
  handed to the bus in batches. The router's operations run under its mutex; the ones that reach the bus take
  and return it. The trace is the list of recorded events with their attributes (the span ids and times belong
  to the trace collector).
\<close>

section \<open>Definitions\<close>

definition stage :: "channel_publication \<Rightarrow> channel_publication list \<Rightarrow> publish_result \<times> channel_publication list" where
  "stage q staged =
     (if pub_id q = [] then (reject ''publication id must not be empty'', staged)
      else if pub_payload q = None then (reject ''publication payload must not be null'', staged)
      else (accept, staged @ [q]))"

record routed_edge =
  re_channel_id :: string
  re_source_component :: string
  re_target_component :: string
  re_kind :: edge_kind
  re_max_inflight :: int
  re_overflow :: string

record router_metrics =
  staged_count :: nat
  immediate_staged_count :: nat
  delayed_staged_count :: nat
  state_staged_count :: nat
  state_commit_count :: nat
  async_staged_count :: nat
  async_admission_accepted_count :: nat
  async_admission_rejected_count :: nat
  async_admission_dropped_count :: nat
  async_admission_overwrite_count :: nat
  async_completion_count :: nat
  async_in_flight_count :: nat
  async_max_in_flight_count :: nat
  async_cancelled_count :: nat
  committed_count :: nat
  composite_discarded_count :: nat
  failed_commit_count :: nat

record router =
  has_bus :: bool
  trace_on :: bool
  source_to_edges :: "(string, routed_edge list) smap"
  active_composite_components :: "string set"
  composite_external_stage :: "(edge_kind \<times> channel_publication) list"
  immediate_stage :: "channel_publication list"
  deferred_next_epoch :: "channel_publication list"
  deferred_ready :: "channel_publication list"
  rmetrics :: router_metrics
  trace_log :: "(string \<times> (string, string) smap) list"

definition zero_router_metrics :: router_metrics where
  "zero_router_metrics =
     \<lparr>staged_count = 0, immediate_staged_count = 0, delayed_staged_count = 0, state_staged_count = 0,
      state_commit_count = 0, async_staged_count = 0, async_admission_accepted_count = 0,
      async_admission_rejected_count = 0, async_admission_dropped_count = 0, async_admission_overwrite_count = 0,
      async_completion_count = 0, async_in_flight_count = 0, async_max_in_flight_count = 0,
      async_cancelled_count = 0, committed_count = 0, composite_discarded_count = 0, failed_commit_count = 0\<rparr>"

definition routed_edge_for :: "edge_spec \<Rightarrow> routed_edge" where
  "routed_edge_for spec =
     \<lparr>re_channel_id = edge_id spec, re_source_component = component_id_from_endpoint (edge_from spec),
      re_target_component = component_id_from_endpoint (edge_to spec), re_kind = edge_kind_of spec,
      re_max_inflight = ep_max_inflight (edge_policy spec), re_overflow = ep_overflow (edge_policy spec)\<rparr>"

definition make_router :: "bool \<Rightarrow> edge_spec list \<Rightarrow> router" where
  "make_router bus specs =
     \<lparr>has_bus = bus, trace_on = False,
      source_to_edges = fold (\<lambda>spec. smap_push (edge_from spec) (routed_edge_for spec)) specs [],
      active_composite_components = {}, composite_external_stage = [], immediate_stage = [],
      deferred_next_epoch = [], deferred_ready = [], rmetrics = zero_router_metrics, trace_log = []\<rparr>"

definition set_trace_collector :: "bool \<Rightarrow> router \<Rightarrow> router" where
  "set_trace_collector present rt = rt\<lparr>trace_on := present\<rparr>"

definition record_trace_event :: "string \<Rightarrow> (string, string) smap \<Rightarrow> router \<Rightarrow> router" where
  "record_trace_event name attrs rt = (if trace_on rt then rt\<lparr>trace_log := trace_log rt @ [(name, attrs)]\<rparr> else rt)"

definition upd_rm :: "(router_metrics \<Rightarrow> router_metrics) \<Rightarrow> router \<Rightarrow> router" where
  "upd_rm f rt = rt\<lparr>rmetrics := f (rmetrics rt)\<rparr>"

definition begin_composite_region :: "string list \<Rightarrow> router \<Rightarrow> router" where
  "begin_composite_region comps rt = rt\<lparr>active_composite_components := set comps, composite_external_stage := []\<rparr>"

definition async_on :: "string \<Rightarrow> channel_publication \<Rightarrow> bool" where
  "async_on cid q \<longleftrightarrow> pub_kind q = KAsync \<and> (cid = [] \<or> pub_id q = cid)"

definition pending_async_count :: "string \<Rightarrow> router \<Rightarrow> nat" where
  "pending_async_count cid rt =
     length (filter (async_on cid) (deferred_next_epoch rt)) + length (filter (async_on cid) (deferred_ready rt)) +
     length (filter (\<lambda>(k, q). k = KAsync \<and> (cid = [] \<or> pub_id q = cid)) (composite_external_stage rt))"

text \<open>\<^verbatim>\<open>find_if\<close> followed by \<^verbatim>\<open>erase\<close>: the list without the first match, if there is one.\<close>

fun erase_first :: "('a \<Rightarrow> bool) \<Rightarrow> 'a list \<Rightarrow> 'a list option" where
  "erase_first P [] = None"
| "erase_first P (x # xs) = (if P x then Some xs else map_option ((#) x) (erase_first P xs))"

definition drop_oldest_pending_async :: "string \<Rightarrow> router \<Rightarrow> bool \<times> router" where
  "drop_oldest_pending_async cid rt =
     (let hit = (\<lambda>q. pub_kind q = KAsync \<and> pub_id q = cid) in
      case erase_first hit (deferred_ready rt) of
        Some xs \<Rightarrow> (True, rt\<lparr>deferred_ready := xs\<rparr>)
      | None \<Rightarrow>
          (case erase_first hit (deferred_next_epoch rt) of
             Some xs \<Rightarrow> (True, rt\<lparr>deferred_next_epoch := xs\<rparr>)
           | None \<Rightarrow>
               (case erase_first (\<lambda>s. hit (snd s)) (composite_external_stage rt) of
                  Some xs \<Rightarrow> (True, rt\<lparr>composite_external_stage := xs\<rparr>)
                | None \<Rightarrow> (False, rt))))"

text \<open>The accepting tail of the admission, with the count the code has at that point.\<close>

definition admitted :: "nat \<Rightarrow> router \<Rightarrow> publish_result \<times> router" where
  "admitted pending rt =
     (accept, upd_rm (\<lambda>x. x\<lparr>async_admission_accepted_count := async_admission_accepted_count x + 1,
        async_in_flight_count := pending + 1,
        async_max_in_flight_count := max (async_max_in_flight_count x) (pending + 1)\<rparr>) rt)"

definition admit_async :: "routed_edge \<Rightarrow> router \<Rightarrow> publish_result \<times> router" where
  "admit_async edge rt =
     (if re_kind edge \<noteq> KAsync then (accept, rt)
      else
        let pending = pending_async_count (re_channel_id edge) rt in
        if re_max_inflight edge > 0 \<and> int pending \<ge> re_max_inflight edge
        then
          if re_overflow edge = ''drop_oldest'' \<or> re_overflow edge = ''overwrite''
          then let (dropped, rt1) = drop_oldest_pending_async (re_channel_id edge) rt in
            if dropped
            then admitted (pending - 1)
                   (upd_rm (\<lambda>x. x\<lparr>async_admission_overwrite_count := async_admission_overwrite_count x + 1\<rparr>) rt1)
            else admitted pending rt1
          else if re_overflow edge = ''drop_newest''
          then (reject (''async admission dropped newest for channel '' @ re_channel_id edge),
                upd_rm (\<lambda>x. x\<lparr>async_admission_dropped_count := async_admission_dropped_count x + 1,
                  async_admission_rejected_count := async_admission_rejected_count x + 1,
                  async_in_flight_count := pending_async_count [] rt\<rparr>) rt)
          else (reject (''async admission max_inflight exceeded for channel '' @ re_channel_id edge),
                upd_rm (\<lambda>x. x\<lparr>async_admission_rejected_count := async_admission_rejected_count x + 1,
                  async_in_flight_count := pending_async_count [] rt\<rparr>) rt)
        else admitted pending rt)"

definition edge_metadata :: "invocation_metadata \<Rightarrow> string \<Rightarrow> routed_edge \<Rightarrow> invocation_metadata" where
  "edge_metadata md src edge =
     (metadata_for_source_endpoint md src)\<lparr>source_component := re_source_component edge,
        source_port := port_name_from_endpoint src\<rparr>"

definition publication_for ::
    "payload_ptr \<Rightarrow> invocation_metadata \<Rightarrow> event_timestamp option \<Rightarrow> string \<Rightarrow> routed_edge \<Rightarrow> channel_publication" where
  "publication_for payload md ts src edge =
     \<lparr>pub_target = KChannel, pub_id = re_channel_id edge, pub_payload = payload, pub_kind = re_kind edge,
      pub_event_timestamp = ts, pub_metadata = edge_metadata md src edge\<rparr>"

definition leaves_region :: "routed_edge \<Rightarrow> router \<Rightarrow> bool" where
  "leaves_region edge rt \<longleftrightarrow>
     active_composite_components rt \<noteq> {} \<and> re_source_component edge \<in> active_composite_components rt \<and>
     re_target_component edge \<notin> active_composite_components rt"

fun count_staged :: "edge_kind \<Rightarrow> router_metrics \<Rightarrow> router_metrics" where
  "count_staged KState x = x\<lparr>state_staged_count := state_staged_count x + 1, staged_count := staged_count x + 1\<rparr>"
| "count_staged KAsync x = x\<lparr>async_staged_count := async_staged_count x + 1, staged_count := staged_count x + 1\<rparr>"
| "count_staged KDelay x = x\<lparr>delayed_staged_count := delayed_staged_count x + 1, staged_count := staged_count x + 1\<rparr>"
| "count_staged KImmediate x =
     x\<lparr>immediate_staged_count := immediate_staged_count x + 1, staged_count := staged_count x + 1\<rparr>"

text \<open>Where an admitted publication goes: the composite stage, the next epoch, or the immediate stage.\<close>

definition place :: "routed_edge \<Rightarrow> channel_publication \<Rightarrow> router \<Rightarrow> router" where
  "place edge q rt =
     upd_rm (count_staged (re_kind edge))
       (if leaves_region edge rt
        then rt\<lparr>composite_external_stage := composite_external_stage rt @ [(re_kind edge, q)]\<rparr>
        else if re_kind edge = KDelay \<or> re_kind edge = KState \<or> re_kind edge = KAsync
        then rt\<lparr>deferred_next_epoch := deferred_next_epoch rt @ [q]\<rparr>
        else rt\<lparr>immediate_stage := immediate_stage rt @ [q]\<rparr>)"

definition trace_publish :: "routed_edge \<Rightarrow> invocation_metadata \<Rightarrow> router \<Rightarrow> router" where
  "trace_publish edge emd =
     record_trace_event ''channel_publish''
       (metadata_trace_attributes
          (fold (\<lambda>(k, v). smap_put k v)
             [(''channel_id'', re_channel_id edge), (''source_component'', re_source_component edge),
              (''source_port'', source_port emd), (''target_component'', re_target_component edge),
              (''edge_kind'', edge_kind_to_string (re_kind edge))] []) emd)"

definition trace_admission :: "routed_edge \<Rightarrow> invocation_metadata \<Rightarrow> publish_result \<Rightarrow> router \<Rightarrow> router" where
  "trace_admission edge emd adm =
     record_trace_event ''async_admission''
       (metadata_trace_attributes
          (fold (\<lambda>(k, v). smap_put k v)
             [(''channel_id'', re_channel_id edge), (''accepted'', if accepted adm then ''true'' else ''false''),
              (''max_inflight'', int_to_string (re_max_inflight edge))] []) emd)"

definition route_edge ::
    "payload_ptr \<Rightarrow> invocation_metadata \<Rightarrow> event_timestamp option \<Rightarrow> string \<Rightarrow> routed_edge \<Rightarrow> router \<Rightarrow>
     publish_result \<times> router" where
  "route_edge payload md ts src edge rt =
     (let emd = edge_metadata md src edge;
          rt1 = trace_publish edge emd rt;
          q = publication_for payload md ts src edge
      in if re_kind edge = KAsync
         then
           let (adm, rt2) = admit_async edge rt1;
               rt3 = trace_admission edge emd adm rt2
           in if \<not> accepted adm then (adm, rt3) else (accept, place edge q rt3)
         else (accept, place edge q rt1))"

fun route_edges ::
    "payload_ptr \<Rightarrow> invocation_metadata \<Rightarrow> event_timestamp option \<Rightarrow> string \<Rightarrow> routed_edge list \<Rightarrow> router \<Rightarrow>
     publish_result \<times> router" where
  "route_edges payload md ts src [] rt = (accept, rt)"
| "route_edges payload md ts src (edge # edges) rt =
     (let (r, rt1) = route_edge payload md ts src edge rt in
      if \<not> accepted r then (r, rt1) else route_edges payload md ts src edges rt1)"

definition router_publish_shared_from_with_metadata ::
    "string \<Rightarrow> payload_ptr \<Rightarrow> invocation_metadata \<Rightarrow> event_timestamp option \<Rightarrow> router \<Rightarrow> publish_result \<times> router" where
  "router_publish_shared_from_with_metadata src payload md ts rt =
     (if payload = None then (reject ''payload must not be null'', rt)
      else
        (case map_of (source_to_edges rt) src of
           None \<Rightarrow> (reject (''unknown source endpoint: '' @ src), rt)
         | Some edges \<Rightarrow> route_edges payload md ts src edges rt))"

definition router_publish_from_with_metadata ::
    "string \<Rightarrow> runtime_payload \<Rightarrow> invocation_metadata \<Rightarrow> event_timestamp option \<Rightarrow> router \<Rightarrow> publish_result \<times> router" where
  "router_publish_from_with_metadata src p md ts = router_publish_shared_from_with_metadata src (make_shared_payload p) md ts"

definition router_publish_shared_from ::
    "string \<Rightarrow> payload_ptr \<Rightarrow> event_timestamp option \<Rightarrow> router \<Rightarrow> publish_result \<times> router" where
  "router_publish_shared_from src payload ts = router_publish_shared_from_with_metadata src payload empty_metadata ts"

definition router_publish_from ::
    "string \<Rightarrow> runtime_payload \<Rightarrow> event_timestamp option \<Rightarrow> router \<Rightarrow> publish_result \<times> router" where
  "router_publish_from src p ts = router_publish_from_with_metadata src p empty_metadata ts"

definition commit_attributes :: "channel_publication \<Rightarrow> (string, string) smap" where
  "commit_attributes q =
     metadata_trace_attributes
       (fold (\<lambda>(k, v). smap_put k v)
          [(''channel_id'', pub_id q), (''edge_kind'', edge_kind_to_string (pub_kind q))] []) (pub_metadata q)"

definition record_commit :: "channel_publication \<Rightarrow> router \<Rightarrow> router" where
  "record_commit q rt =
     (let rt1 = (if pub_kind q = KState
                 then record_trace_event ''state_commit'' (commit_attributes q)
                        (upd_rm (\<lambda>x. x\<lparr>state_commit_count := state_commit_count x + 1\<rparr>) rt)
                 else rt)
      in record_trace_event ''channel_commit'' (commit_attributes q) rt1)"

definition commit_batch ::
    "(nat \<Rightarrow> int) \<Rightarrow> channel_publication list \<Rightarrow> router \<times> channel_bus \<Rightarrow>
     (publish_result \<times> router \<times> channel_bus) option" where
  "commit_batch now pubs rb =
     (let (rt, b) = rb in
      if pubs = [] then Some (accept, rt, b)
      else if \<not> has_bus rt
      then Some (reject ''publication router has no channel bus'',
                 upd_rm (\<lambda>x. x\<lparr>failed_commit_count := failed_commit_count x + 1\<rparr>) rt, b)
      else
        (case publish_batch now pubs b of
           None \<Rightarrow> None
         | Some (r, b', ev) \<Rightarrow>
             Some (r,
               (if accepted r
                then fold record_commit pubs
                       (upd_rm (\<lambda>x. x\<lparr>committed_count := committed_count x + length pubs\<rparr>) rt)
                else upd_rm (\<lambda>x. x\<lparr>failed_commit_count := failed_commit_count x + 1\<rparr>) rt), b')))"

definition commit_composite_region_outputs ::
    "(nat \<Rightarrow> int) \<Rightarrow> router \<times> channel_bus \<Rightarrow> (publish_result \<times> router \<times> channel_bus) option" where
  "commit_composite_region_outputs now rb =
     (let (rt, b) = rb;
          staged = composite_external_stage rt;
          rt1 = rt\<lparr>deferred_next_epoch := deferred_next_epoch rt @ map snd (filter (\<lambda>s. fst s \<noteq> KImmediate) staged),
                  composite_external_stage := [], active_composite_components := {}\<rparr>
      in commit_batch now (map snd (filter (\<lambda>s. fst s = KImmediate) staged)) (rt1, b))"

definition discard_composite_region_outputs :: "router \<Rightarrow> router" where
  "discard_composite_region_outputs rt =
     (let discarded = length (filter (\<lambda>s. fst s = KAsync) (composite_external_stage rt));
          rt1 = (upd_rm (\<lambda>x. x\<lparr>composite_discarded_count := composite_discarded_count x + length (composite_external_stage rt)\<rparr>) rt)
                  \<lparr>composite_external_stage := [], active_composite_components := {}\<rparr>
      in if discarded > 0
         then upd_rm (\<lambda>x. x\<lparr>async_cancelled_count := async_cancelled_count x + discarded,
                async_in_flight_count := pending_async_count [] rt1\<rparr>) rt1
         else rt1)"

definition begin_epoch ::
    "(nat \<Rightarrow> int) \<Rightarrow> router \<times> channel_bus \<Rightarrow> (publish_result \<times> router \<times> channel_bus) option" where
  "begin_epoch now rb =
     (let (rt, b) = rb;
          b1 = (if has_bus rt then advance_epoch b else b);
          ready = deferred_ready rt;
          async_ready = length (filter (\<lambda>q. pub_kind q = KAsync) ready)
      in case commit_batch now ready (rt\<lparr>deferred_ready := []\<rparr>, b1) of
           None \<Rightarrow> None
         | Some (r, rt2, b2) \<Rightarrow>
             Some (r,
               (if accepted r \<and> async_ready > 0
                then upd_rm (\<lambda>x. x\<lparr>async_completion_count := async_completion_count x + async_ready,
                       async_in_flight_count := pending_async_count [] rt2\<rparr>) rt2
                else rt2), b2))"

definition commit_immediate ::
    "(nat \<Rightarrow> int) \<Rightarrow> router \<times> channel_bus \<Rightarrow> (publish_result \<times> router \<times> channel_bus) option" where
  "commit_immediate now rb =
     (let (rt, b) = rb in commit_batch now (immediate_stage rt) (rt\<lparr>immediate_stage := []\<rparr>, b))"

definition end_epoch :: "router \<Rightarrow> router" where
  "end_epoch rt = rt\<lparr>deferred_ready := deferred_ready rt @ deferred_next_epoch rt, deferred_next_epoch := []\<rparr>"

section \<open>Erasing and counting\<close>

declare upd_rm_def [simp]

lemma record_trace_event_frame [simp]:
  "has_bus (record_trace_event n a rt) = has_bus rt" "source_to_edges (record_trace_event n a rt) = source_to_edges rt"
  "active_composite_components (record_trace_event n a rt) = active_composite_components rt"
  "composite_external_stage (record_trace_event n a rt) = composite_external_stage rt"
  "immediate_stage (record_trace_event n a rt) = immediate_stage rt"
  "deferred_next_epoch (record_trace_event n a rt) = deferred_next_epoch rt"
  "deferred_ready (record_trace_event n a rt) = deferred_ready rt" "rmetrics (record_trace_event n a rt) = rmetrics rt"
  by (simp_all add: record_trace_event_def)

lemma trace_frame [simp]:
  "has_bus (trace_publish e md rt) = has_bus rt" "source_to_edges (trace_publish e md rt) = source_to_edges rt"
  "active_composite_components (trace_publish e md rt) = active_composite_components rt"
  "composite_external_stage (trace_publish e md rt) = composite_external_stage rt"
  "immediate_stage (trace_publish e md rt) = immediate_stage rt"
  "deferred_next_epoch (trace_publish e md rt) = deferred_next_epoch rt"
  "deferred_ready (trace_publish e md rt) = deferred_ready rt" "rmetrics (trace_publish e md rt) = rmetrics rt"
  "has_bus (trace_admission e md r rt) = has_bus rt" "source_to_edges (trace_admission e md r rt) = source_to_edges rt"
  "active_composite_components (trace_admission e md r rt) = active_composite_components rt"
  "composite_external_stage (trace_admission e md r rt) = composite_external_stage rt"
  "immediate_stage (trace_admission e md r rt) = immediate_stage rt"
  "deferred_next_epoch (trace_admission e md r rt) = deferred_next_epoch rt"
  "deferred_ready (trace_admission e md r rt) = deferred_ready rt" "rmetrics (trace_admission e md r rt) = rmetrics rt"
  by (simp_all add: trace_publish_def trace_admission_def)

lemma erase_first_length: "erase_first P xs = Some ys \<Longrightarrow> length xs = Suc (length ys)"
  by (induction xs arbitrary: ys) (auto split: if_splits)

lemma erase_first_subseq: "erase_first P xs = Some ys \<Longrightarrow> subseq ys xs"
  by (induction xs arbitrary: ys) (auto split: if_splits)

lemma erase_first_None_iff: "erase_first P xs = None \<longleftrightarrow> (\<forall>x \<in> set xs. \<not> P x)"
  by (induction xs) auto

lemma erase_first_filter_in:
  "erase_first P xs = Some ys \<Longrightarrow> (\<And>x. P x \<Longrightarrow> Q x) \<Longrightarrow> length (filter Q xs) = Suc (length (filter Q ys))"
  by (induction xs arbitrary: ys) (auto split: if_splits)

lemma erase_first_filter_out:
  "erase_first P xs = Some ys \<Longrightarrow> (\<And>x. P x \<Longrightarrow> \<not> Q x) \<Longrightarrow> length (filter Q xs) = length (filter Q ys)"
  by (induction xs arbitrary: ys) (auto split: if_splits)

lemma erase_first_filter_le: "erase_first P xs = Some ys \<Longrightarrow> length (filter Q ys) \<le> length (filter Q xs)"
  by (induction xs arbitrary: ys) (auto split: if_splits intro: le_SucI)

lemma set_erase_first: "erase_first P xs = Some ys \<Longrightarrow> set ys \<subseteq> set xs"
  by (induction xs arbitrary: ys) (auto split: if_splits)

text \<open>The stage of a composite region records the kind of its publications.\<close>

definition stage_kinds :: "router \<Rightarrow> bool" where
  "stage_kinds rt \<longleftrightarrow> (\<forall>s \<in> set (composite_external_stage rt). fst s = pub_kind (snd s))"

lemma stage_kinds_subset:
  "stage_kinds rt \<Longrightarrow> set (composite_external_stage rt') \<subseteq> set (composite_external_stage rt) \<Longrightarrow> stage_kinds rt'"
  unfolding stage_kinds_def by blast

definition held :: "router \<Rightarrow> nat" where
  "held rt = length (immediate_stage rt) + length (deferred_next_epoch rt) + length (deferred_ready rt) +
     length (composite_external_stage rt)"

lemma subseq_set: "subseq xs ys \<Longrightarrow> set xs \<subseteq> set ys"
  by (induction rule: list_emb.induct) auto

lemma drop_oldest_effect:
  assumes "drop_oldest_pending_async cid rt = (d, rt')"
  shows "immediate_stage rt' = immediate_stage rt \<and> rmetrics rt' = rmetrics rt \<and> source_to_edges rt' = source_to_edges rt \<and>
     active_composite_components rt' = active_composite_components rt \<and> has_bus rt' = has_bus rt \<and>
     subseq (deferred_next_epoch rt') (deferred_next_epoch rt) \<and> subseq (deferred_ready rt') (deferred_ready rt) \<and>
     subseq (composite_external_stage rt') (composite_external_stage rt) \<and>
     (if d then held rt = Suc (held rt') else rt' = rt)"
  using assms
  by (auto simp: drop_oldest_pending_async_def held_def Let_def
      dest: erase_first_length erase_first_subseq split: option.splits)

lemma stage_kinds_subseq:
  "stage_kinds rt \<Longrightarrow> subseq (composite_external_stage rt') (composite_external_stage rt) \<Longrightarrow> stage_kinds rt'"
  by (blast intro: stage_kinds_subset dest: subseq_set)

lemma drop_oldest_pending:
  assumes "drop_oldest_pending_async cid rt = (d, rt')" and "stage_kinds rt" and "cid \<noteq> []"
  shows "d = (pending_async_count cid rt > 0) \<and> pending_async_count cid rt' = pending_async_count cid rt - 1 \<and>
     (\<forall>c. pending_async_count c rt' \<le> pending_async_count c rt)"
proof -
  let ?hit = "\<lambda>q. pub_kind q = KAsync \<and> pub_id q = cid"
  have hit: "async_on cid = ?hit" using assms(3) by (auto simp: async_on_def fun_eq_iff)
  have stage: "filter (\<lambda>(k, q). k = KAsync \<and> (cid = [] \<or> pub_id q = cid)) (composite_external_stage rt) =
      filter (\<lambda>s. ?hit (snd s)) (composite_external_stage rt)"
    using assms(2,3) by (intro filter_cong) (auto simp: stage_kinds_def)
  consider (ready) xs where "erase_first ?hit (deferred_ready rt) = Some xs" "d" "rt' = rt\<lparr>deferred_ready := xs\<rparr>"
    | (next_epoch) xs where "erase_first ?hit (deferred_ready rt) = None" "erase_first ?hit (deferred_next_epoch rt) = Some xs" "d"
        "rt' = rt\<lparr>deferred_next_epoch := xs\<rparr>"
    | (staged) xs where "erase_first ?hit (deferred_ready rt) = None" "erase_first ?hit (deferred_next_epoch rt) = None"
        "erase_first (\<lambda>s. ?hit (snd s)) (composite_external_stage rt) = Some xs" "d" "rt' = rt\<lparr>composite_external_stage := xs\<rparr>"
    | (none) "erase_first ?hit (deferred_ready rt) = None" "erase_first ?hit (deferred_next_epoch rt) = None"
        "erase_first (\<lambda>s. ?hit (snd s)) (composite_external_stage rt) = None" "\<not> d" "rt' = rt"
    using assms(1) unfolding drop_oldest_pending_async_def Let_def by (auto split: option.splits)
  then show ?thesis
  proof cases
    case ready
    with erase_first_filter_in [OF ready(1), of "async_on cid"] show ?thesis
      by (auto simp: pending_async_count_def hit intro!: add_mono erase_first_filter_le)
  next
    case next_epoch
    with erase_first_filter_in [OF next_epoch(2), of "async_on cid"] show ?thesis
      by (auto simp: pending_async_count_def hit intro!: add_mono erase_first_filter_le)
  next
    case staged
    have "length (filter (\<lambda>(k, q). k = KAsync \<and> (cid = [] \<or> pub_id q = cid)) (composite_external_stage rt)) =
        Suc (length (filter (\<lambda>(k, q). k = KAsync \<and> (cid = [] \<or> pub_id q = cid)) xs))"
    proof -
      have "set xs \<subseteq> set (composite_external_stage rt)" using staged(3) by (rule set_erase_first)
      then have "\<forall>s \<in> set xs. fst s = pub_kind (snd s)" using assms(2) unfolding stage_kinds_def by blast
      then have "filter (\<lambda>(k, q). k = KAsync \<and> (cid = [] \<or> pub_id q = cid)) xs = filter (\<lambda>s. ?hit (snd s)) xs"
        using assms(3) by (intro filter_cong) auto
      then show ?thesis using erase_first_filter_in [OF staged(3), of "\<lambda>s. ?hit (snd s)"] stage by simp
    qed
    with staged show ?thesis
      by (auto simp: pending_async_count_def intro!: add_mono erase_first_filter_le)
  next
    case none
    then have "filter ?hit (deferred_ready rt) = []" "filter ?hit (deferred_next_epoch rt) = []"
      "filter (\<lambda>s. ?hit (snd s)) (composite_external_stage rt) = []"
      by (auto simp: erase_first_None_iff filter_empty_conv)
    with none show ?thesis by (simp add: pending_async_count_def hit stage)
  qed
qed

section \<open>Routing one publication\<close>

lemma count_staged_frame [simp]:
  "staged_count (count_staged k x) = Suc (staged_count x)"
  "composite_discarded_count (count_staged k x) = composite_discarded_count x"
  "async_admission_overwrite_count (count_staged k x) = async_admission_overwrite_count x"
  "committed_count (count_staged k x) = committed_count x" "failed_commit_count (count_staged k x) = failed_commit_count x"
  by (cases k; simp)+

text \<open>Admission either changes metrics only, or drops one pending publication of the channel as well.\<close>

definition same_books :: "router_metrics \<Rightarrow> router_metrics \<Rightarrow> bool" where
  "same_books x y \<longleftrightarrow> staged_count y = staged_count x \<and> composite_discarded_count y = composite_discarded_count x \<and>
     committed_count y = committed_count x \<and> failed_commit_count y = failed_commit_count x"

lemma admit_async_cases:
  assumes "admit_async edge rt = (r, rt')"
  shows "(\<exists>x. rt' = rt\<lparr>rmetrics := x\<rparr> \<and> same_books (rmetrics rt) x \<and>
       async_admission_overwrite_count x = async_admission_overwrite_count (rmetrics rt)) \<or>
    (\<exists>rt1 x. drop_oldest_pending_async (re_channel_id edge) rt = (True, rt1) \<and> accepted r \<and> rt' = rt1\<lparr>rmetrics := x\<rparr> \<and>
       same_books (rmetrics rt) x \<and> async_admission_overwrite_count x = Suc (async_admission_overwrite_count (rmetrics rt)))"
proof -
  let ?over = "re_max_inflight edge > 0 \<and> int (pending_async_count (re_channel_id edge) rt) \<ge> re_max_inflight edge"
  let ?evict = "re_overflow edge = ''drop_oldest'' \<or> re_overflow edge = ''overwrite''"
  obtain d rt1 where d: "drop_oldest_pending_async (re_channel_id edge) rt = (d, rt1)" by fastforce
  note eff = drop_oldest_effect [OF d]
  have self: "rt = rt\<lparr>rmetrics := rmetrics rt\<rparr>" by simp
  show ?thesis
  proof (cases "re_kind edge = KAsync \<and> ?over \<and> ?evict \<and> d")
    case True
    then show ?thesis using assms d eff
      by (intro disjI2 exI [of _ rt1] exI [of _ "rmetrics rt'"])
        (auto simp: admit_async_def admitted_def Let_def same_books_def)
  next
    case False
    have "rt' = rt\<lparr>rmetrics := rmetrics rt'\<rparr> \<and> same_books (rmetrics rt) (rmetrics rt') \<and>
        async_admission_overwrite_count (rmetrics rt') = async_admission_overwrite_count (rmetrics rt)"
    proof (cases "re_kind edge = KAsync \<and> ?over")
      case over: True
      show ?thesis
      proof (cases ?evict)
        case True
        with False over have "\<not> d" by blast
        with True over assms d eff show ?thesis
          by (auto simp: admit_async_def admitted_def Let_def same_books_def)
      qed (use over assms in \<open>auto simp: admit_async_def Let_def same_books_def split: if_splits\<close>)
    qed (use assms in \<open>auto simp: admit_async_def admitted_def Let_def same_books_def split: if_splits\<close>)
    then show ?thesis by blast
  qed
qed

lemma admit_async_effect:
  assumes "admit_async edge rt = (r, rt')"
  shows "immediate_stage rt' = immediate_stage rt \<and> source_to_edges rt' = source_to_edges rt \<and>
     active_composite_components rt' = active_composite_components rt \<and> has_bus rt' = has_bus rt \<and>
     subseq (deferred_next_epoch rt') (deferred_next_epoch rt) \<and> subseq (deferred_ready rt') (deferred_ready rt) \<and>
     subseq (composite_external_stage rt') (composite_external_stage rt) \<and>
     held rt + async_admission_overwrite_count (rmetrics rt) = held rt' + async_admission_overwrite_count (rmetrics rt') \<and>
     same_books (rmetrics rt) (rmetrics rt')"
proof -
  consider (books) x where "rt' = rt\<lparr>rmetrics := x\<rparr>" "same_books (rmetrics rt) x"
      "async_admission_overwrite_count x = async_admission_overwrite_count (rmetrics rt)"
    | (dropped) rt1 x where "drop_oldest_pending_async (re_channel_id edge) rt = (True, rt1)" "rt' = rt1\<lparr>rmetrics := x\<rparr>"
      "same_books (rmetrics rt) x" "async_admission_overwrite_count x = Suc (async_admission_overwrite_count (rmetrics rt))"
    using admit_async_cases [OF assms] by blast
  then show ?thesis
  proof cases
    case books
    then show ?thesis by (simp add: held_def)
  next
    case dropped
    moreover have "held rt' = held rt1" by (simp add: dropped(2) held_def)
    ultimately show ?thesis using drop_oldest_effect [OF dropped(1)] by simp
  qed
qed

text \<open>The counters of a router balance: what was staged is held, was handed over, discarded or overwritten.\<close>

definition balanced :: "nat \<Rightarrow> router \<Rightarrow> bool" where
  "balanced n rt \<longleftrightarrow> staged_count (rmetrics rt) =
     held rt + n + composite_discarded_count (rmetrics rt) + async_admission_overwrite_count (rmetrics rt)"

definition routing_frame :: "router \<Rightarrow> router \<Rightarrow> bool" where
  "routing_frame rt rt' \<longleftrightarrow> source_to_edges rt' = source_to_edges rt \<and> has_bus rt' = has_bus rt \<and>
     active_composite_components rt' = active_composite_components rt \<and>
     committed_count (rmetrics rt') = committed_count (rmetrics rt) \<and>
     failed_commit_count (rmetrics rt') = failed_commit_count (rmetrics rt)"

lemma routing_frame_refl [simp]: "routing_frame rt rt"
  by (simp add: routing_frame_def)

lemma routing_frame_trans: "routing_frame a b \<Longrightarrow> routing_frame b c \<Longrightarrow> routing_frame a c"
  by (simp add: routing_frame_def)

lemma place_effect:
  "routing_frame rt (place edge q rt)" "held (place edge q rt) = Suc (held rt)"
  "composite_discarded_count (rmetrics (place edge q rt)) = composite_discarded_count (rmetrics rt)"
  "async_admission_overwrite_count (rmetrics (place edge q rt)) = async_admission_overwrite_count (rmetrics rt)"
  "staged_count (rmetrics (place edge q rt)) = Suc (staged_count (rmetrics rt))"
  "deferred_ready (place edge q rt) = deferred_ready rt"
  by (simp_all add: place_def held_def routing_frame_def)

lemma route_edge_effect:
  assumes "route_edge p md ts src edge rt = (r, rt')"
  shows "routing_frame rt rt' \<and> (balanced n rt \<longrightarrow> balanced n rt') \<and> (stage_kinds rt \<longrightarrow> stage_kinds rt')"
proof -
  let ?emd = "edge_metadata md src edge" and ?q = "publication_for p md ts src edge"
  let ?rt1 = "trace_publish edge ?emd rt"
  have kinds: "stage_kinds (place edge ?q x) = stage_kinds x" for x
    by (auto simp: place_def stage_kinds_def publication_for_def)
  have tr: "held (trace_admission edge ?emd a x) = held x" "held (trace_publish edge ?emd x) = held x" for a x
    by (simp_all add: held_def)
  show ?thesis
  proof (cases "re_kind edge = KAsync")
    case True
    obtain a rt2 where adm: "admit_async edge ?rt1 = (a, rt2)" by fastforce
    let ?rt3 = "trace_admission edge ?emd a rt2"
    note eff = admit_async_effect [OF adm]
    have 3: "routing_frame rt ?rt3" "balanced n rt \<longrightarrow> balanced n ?rt3"
      using eff by (auto simp: routing_frame_def same_books_def balanced_def tr)
    have 4: "stage_kinds rt \<longrightarrow> stage_kinds ?rt3"
      using eff stage_kinds_subseq [of ?rt1 rt2] by (auto simp: stage_kinds_def)
    show ?thesis
    proof (cases "accepted a")
      case True
      then have "rt' = place edge ?q ?rt3" using assms adm \<open>re_kind edge = KAsync\<close> by (simp add: route_edge_def Let_def)
      with 3 4 place_effect [where rt = ?rt3 and edge = edge and q = ?q] kinds show ?thesis
        by (auto simp: balanced_def intro: routing_frame_trans)
    next
      case False
      then have "rt' = ?rt3" using assms adm \<open>re_kind edge = KAsync\<close> by (auto simp: route_edge_def Let_def)
      with 3 4 show ?thesis by simp
    qed
  next
    case False
    then have "rt' = place edge ?q ?rt1" using assms by (simp add: route_edge_def Let_def)
    moreover have "routing_frame rt ?rt1" "balanced n rt \<longrightarrow> balanced n ?rt1" "stage_kinds rt \<longrightarrow> stage_kinds ?rt1"
      by (simp_all add: routing_frame_def balanced_def tr stage_kinds_def)
    ultimately show ?thesis using place_effect [where rt = ?rt1 and edge = edge and q = ?q] kinds
      by (auto simp: balanced_def intro: routing_frame_trans)
  qed
qed

lemma route_edges_effect:
  "route_edges p md ts src edges rt = (r, rt') \<Longrightarrow>
   routing_frame rt rt' \<and> (balanced n rt \<longrightarrow> balanced n rt') \<and> (stage_kinds rt \<longrightarrow> stage_kinds rt')"
proof (induction edges arbitrary: rt)
  case (Cons edge edges)
  obtain r1 rt1 where e: "route_edge p md ts src edge rt = (r1, rt1)" by fastforce
  note eff = route_edge_effect [OF e, of n]
  show ?case
  proof (cases "accepted r1")
    case True
    with Cons.prems e have "route_edges p md ts src edges rt1 = (r, rt')" by simp
    from Cons.IH [OF this] eff show ?thesis by (auto intro: routing_frame_trans)
  qed (use Cons.prems e eff in auto)
qed simp

lemma router_publish_effect:
  assumes "router_publish_shared_from_with_metadata src p md ts rt = (r, rt')"
  shows "routing_frame rt rt' \<and> (balanced n rt \<longrightarrow> balanced n rt') \<and> (stage_kinds rt \<longrightarrow> stage_kinds rt')"
  using assms route_edges_effect
  by (auto simp: router_publish_shared_from_with_metadata_def split: if_splits option.splits)

section \<open>Runs of the router\<close>

datatype router_op =
    RPublish string payload_ptr invocation_metadata "event_timestamp option"
  | RBeginComposite "string list"
  | RCommitComposite "nat \<Rightarrow> int"
  | RDiscardComposite
  | RBeginEpoch "nat \<Rightarrow> int"
  | RCommitImmediate "nat \<Rightarrow> int"
  | REndEpoch

text \<open>The log of a run: every batch handed to the bus, with whether the bus accepted it.\<close>

type_synonym batch_log = "(channel_publication list \<times> bool) list"

fun handed_over :: "router_op \<Rightarrow> router \<Rightarrow> channel_publication list" where
  "handed_over (RCommitComposite now) rt = map snd (filter (\<lambda>s. fst s = KImmediate) (composite_external_stage rt))"
| "handed_over (RBeginEpoch now) rt = deferred_ready rt"
| "handed_over (RCommitImmediate now) rt = immediate_stage rt"
| "handed_over _ rt = []"

fun router_exec :: "router_op \<Rightarrow> router \<times> channel_bus \<Rightarrow> (publish_result \<times> router \<times> channel_bus) option" where
  "router_exec (RPublish src p md ts) (rt, b) =
     (let (r, rt') = router_publish_shared_from_with_metadata src p md ts rt in Some (r, rt', b))"
| "router_exec (RBeginComposite comps) (rt, b) = Some (accept, begin_composite_region comps rt, b)"
| "router_exec (RCommitComposite now) (rt, b) = commit_composite_region_outputs now (rt, b)"
| "router_exec RDiscardComposite (rt, b) = Some (accept, discard_composite_region_outputs rt, b)"
| "router_exec (RBeginEpoch now) (rt, b) = begin_epoch now (rt, b)"
| "router_exec (RCommitImmediate now) (rt, b) = commit_immediate now (rt, b)"
| "router_exec REndEpoch (rt, b) = Some (accept, end_epoch rt, b)"

fun router_run :: "router_op list \<Rightarrow> router \<times> channel_bus \<Rightarrow> (batch_log \<times> router \<times> channel_bus) option" where
  "router_run [] rb = Some ([], rb)"
| "router_run (op # ops) rb =
     (case router_exec op rb of
        None \<Rightarrow> None
      | Some (r, rb') \<Rightarrow>
          map_option (\<lambda>(log, rb''). ((if handed_over op (fst rb) = [] then log
                                      else (handed_over op (fst rb), accepted r) # log), rb''))
            (router_run ops rb'))"

text \<open>A composite region is closed, by a commit or a discard, before the next one begins.\<close>

fun bracketed :: "bool \<Rightarrow> router_op list \<Rightarrow> bool" where
  "bracketed inside [] = True"
| "bracketed inside (RBeginComposite c # ops) = (\<not> inside \<and> bracketed True ops)"
| "bracketed inside (RCommitComposite now # ops) = bracketed False ops"
| "bracketed inside (RDiscardComposite # ops) = bracketed False ops"
| "bracketed inside (op # ops) = bracketed inside ops"

definition log_total :: "batch_log \<Rightarrow> nat" where
  "log_total log = sum_list (map (length \<circ> fst) log)"

definition log_committed :: "batch_log \<Rightarrow> nat" where
  "log_committed log = sum_list (map (length \<circ> fst) (filter snd log))"

lemma fold_record_commit [simp]:
  "immediate_stage (fold record_commit pubs rt) = immediate_stage rt"
  "deferred_next_epoch (fold record_commit pubs rt) = deferred_next_epoch rt"
  "deferred_ready (fold record_commit pubs rt) = deferred_ready rt"
  "composite_external_stage (fold record_commit pubs rt) = composite_external_stage rt"
  "active_composite_components (fold record_commit pubs rt) = active_composite_components rt"
  "source_to_edges (fold record_commit pubs rt) = source_to_edges rt"
  "has_bus (fold record_commit pubs rt) = has_bus rt"
  "committed_count (rmetrics (fold record_commit pubs rt)) = committed_count (rmetrics rt)"
  "failed_commit_count (rmetrics (fold record_commit pubs rt)) = failed_commit_count (rmetrics rt)"
  "staged_count (rmetrics (fold record_commit pubs rt)) = staged_count (rmetrics rt)"
  "composite_discarded_count (rmetrics (fold record_commit pubs rt)) = composite_discarded_count (rmetrics rt)"
  "async_admission_overwrite_count (rmetrics (fold record_commit pubs rt)) = async_admission_overwrite_count (rmetrics rt)"
  by (induction pubs arbitrary: rt) (simp_all add: record_commit_def Let_def)

text \<open>What handing a batch to the bus does to the router.\<close>

definition same_queues :: "router \<Rightarrow> router \<Rightarrow> bool" where
  "same_queues rt rt' \<longleftrightarrow> immediate_stage rt' = immediate_stage rt \<and> deferred_next_epoch rt' = deferred_next_epoch rt \<and>
     deferred_ready rt' = deferred_ready rt \<and> composite_external_stage rt' = composite_external_stage rt \<and>
     active_composite_components rt' = active_composite_components rt \<and> source_to_edges rt' = source_to_edges rt \<and>
     has_bus rt' = has_bus rt \<and> staged_count (rmetrics rt') = staged_count (rmetrics rt) \<and>
     composite_discarded_count (rmetrics rt') = composite_discarded_count (rmetrics rt) \<and>
     async_admission_overwrite_count (rmetrics rt') = async_admission_overwrite_count (rmetrics rt)"

lemma commit_batch_effect:
  assumes "commit_batch now pubs (rt, b) = Some (r, rt', b')"
  shows "same_queues rt rt' \<and>
     committed_count (rmetrics rt') = committed_count (rmetrics rt) + (if accepted r then length pubs else 0) \<and>
     failed_commit_count (rmetrics rt') = failed_commit_count (rmetrics rt) + (if accepted r then 0 else 1)"
  using assms by (auto simp: commit_batch_def same_queues_def split: if_splits option.splits)

lemma same_queues_balanced: "same_queues rt rt' \<Longrightarrow> balanced n rt' = balanced n rt \<and> stage_kinds rt' = stage_kinds rt"
  by (simp add: same_queues_def balanced_def held_def stage_kinds_def)

definition region_closed :: "router \<Rightarrow> bool" where
  "region_closed rt \<longleftrightarrow> active_composite_components rt = {} \<and> composite_external_stage rt = []"

definition router_inv :: "bool \<Rightarrow> nat \<Rightarrow> nat \<Rightarrow> nat \<Rightarrow> router \<Rightarrow> bool" where
  "router_inv inside n committed failed rt \<longleftrightarrow>
     balanced n rt \<and> stage_kinds rt \<and> committed_count (rmetrics rt) = committed \<and>
     failed_commit_count (rmetrics rt) = failed \<and> (\<not> inside \<longrightarrow> region_closed rt)"

lemma filter_split_length: "length (filter P xs) + length (filter (\<lambda>x. \<not> P x) xs) = length xs"
  by (induction xs) auto

lemma route_edges_closed:
  "route_edges p md ts src edges rt = (r, rt') \<Longrightarrow> region_closed rt \<Longrightarrow> region_closed rt'"
proof (induction edges arbitrary: rt)
  case (Cons edge edges)
  obtain r1 rt1 where e: "route_edge p md ts src edge rt = (r1, rt1)" by fastforce
  have "region_closed rt1"
  proof -
    let ?emd = "edge_metadata md src edge"
    obtain a rt2 where adm: "admit_async edge (trace_publish edge ?emd rt) = (a, rt2)" by fastforce
    have "region_closed rt2" using admit_async_effect [OF adm] Cons.prems(2) by (auto simp: region_closed_def)
    then show ?thesis using e adm Cons.prems(2)
      by (auto simp: route_edge_def Let_def region_closed_def place_def leaves_region_def split: if_splits)
  qed
  with Cons e show ?case by (auto split: if_splits)
qed simp

lemma discard_effect [simp]:
  "immediate_stage (discard_composite_region_outputs rt) = immediate_stage rt"
  "deferred_next_epoch (discard_composite_region_outputs rt) = deferred_next_epoch rt"
  "deferred_ready (discard_composite_region_outputs rt) = deferred_ready rt"
  "composite_external_stage (discard_composite_region_outputs rt) = []"
  "active_composite_components (discard_composite_region_outputs rt) = {}"
  "source_to_edges (discard_composite_region_outputs rt) = source_to_edges rt"
  "staged_count (rmetrics (discard_composite_region_outputs rt)) = staged_count (rmetrics rt)"
  "committed_count (rmetrics (discard_composite_region_outputs rt)) = committed_count (rmetrics rt)"
  "failed_commit_count (rmetrics (discard_composite_region_outputs rt)) = failed_commit_count (rmetrics rt)"
  "async_admission_overwrite_count (rmetrics (discard_composite_region_outputs rt)) = async_admission_overwrite_count (rmetrics rt)"
  "composite_discarded_count (rmetrics (discard_composite_region_outputs rt)) =
     composite_discarded_count (rmetrics rt) + length (composite_external_stage rt)"
  by (simp_all add: discard_composite_region_outputs_def Let_def)

lemma commit_batch_inv:
  assumes inv: "router_inv inside n c f rt" and com: "commit_batch now pubs (rt, b) = Some (r, rt', b')"
  shows "router_inv inside n (c + (if accepted r then length pubs else 0)) (f + (if accepted r \<or> pubs = [] then 0 else 1)) rt'"
proof -
  note eff = commit_batch_effect [OF com]
  have "pubs = [] \<Longrightarrow> accepted r" using com by (auto simp: commit_batch_def)
  with eff inv same_queues_balanced [of rt rt'] show ?thesis
    by (cases "accepted r") (auto simp: router_inv_def same_queues_def region_closed_def)
qed

lemma exec_inv:
  assumes inv: "router_inv inside n c f rt" and br: "bracketed inside (op # ops)"
    and ex: "router_exec op (rt, b) = Some (r, rt', b')"
  shows "\<exists>inside'. bracketed inside' ops \<and>
     router_inv inside' (n + length (handed_over op rt)) (c + (if accepted r then length (handed_over op rt) else 0))
       (f + (if accepted r \<or> handed_over op rt = [] then 0 else 1)) rt'"
proof (cases op)
  case (RPublish src p md ts)
  then have e: "router_publish_shared_from_with_metadata src p md ts rt = (r, rt')" using ex by (auto split: prod.splits)
  have "region_closed rt \<Longrightarrow> region_closed rt'"
    using e route_edges_closed by (auto simp: router_publish_shared_from_with_metadata_def split: if_splits option.splits)
  with router_publish_effect [OF e, of n] inv br RPublish show ?thesis
    by (intro exI [of _ inside]) (auto simp: router_inv_def routing_frame_def)
next
  case (RBeginComposite comps)
  with inv br ex show ?thesis
    by (intro exI [of _ True]) (auto simp: router_inv_def begin_composite_region_def balanced_def held_def region_closed_def stage_kinds_def)
next
  case (RCommitComposite now)
  let ?imm = "map snd (filter (\<lambda>s. fst s = KImmediate) (composite_external_stage rt))"
  let ?rt1 = "rt\<lparr>deferred_next_epoch := deferred_next_epoch rt @ map snd (filter (\<lambda>s. fst s \<noteq> KImmediate) (composite_external_stage rt)),
      composite_external_stage := [], active_composite_components := {}\<rparr>"
  have c: "commit_batch now ?imm (?rt1, b) = Some (r, rt', b')"
    using ex RCommitComposite by (simp add: commit_composite_region_outputs_def Let_def)
  have "router_inv False (n + length ?imm) c f ?rt1"
    using inv filter_split_length [of "\<lambda>s. fst s = KImmediate" "composite_external_stage rt"]
    by (auto simp: router_inv_def balanced_def held_def stage_kinds_def region_closed_def)
  note i = commit_batch_inv [OF this c]
  have "bracketed False ops" using br RCommitComposite by simp
  with i show ?thesis unfolding RCommitComposite handed_over.simps by blast
next
  case RDiscardComposite
  with inv br ex show ?thesis
    by (intro exI [of _ False]) (auto simp: router_inv_def balanced_def held_def region_closed_def stage_kinds_def)
next
  case (RBeginEpoch now)
  let ?rt0 = "rt\<lparr>deferred_ready := []\<rparr>" and ?k = "length (filter (\<lambda>q. pub_kind q = KAsync) (deferred_ready rt))"
  obtain rt2 where c: "commit_batch now (deferred_ready rt) (?rt0, if has_bus rt then advance_epoch b else b) = Some (r, rt2, b')"
    and rt': "rt' = (if accepted r \<and> ?k > 0 then upd_rm (\<lambda>x. x\<lparr>async_completion_count := async_completion_count x + ?k,
         async_in_flight_count := pending_async_count [] rt2\<rparr>) rt2 else rt2)"
    using ex RBeginEpoch by (auto simp: begin_epoch_def Let_def split: option.splits)
  have "router_inv inside (n + length (deferred_ready rt)) c f ?rt0"
    using inv by (auto simp: router_inv_def balanced_def held_def stage_kinds_def region_closed_def)
  note i = commit_batch_inv [OF this c]
  then have "router_inv inside (n + length (deferred_ready rt)) (c + (if accepted r then length (deferred_ready rt) else 0))
      (f + (if accepted r \<or> deferred_ready rt = [] then 0 else 1)) rt'"
    unfolding rt' by (simp add: router_inv_def balanced_def held_def stage_kinds_def region_closed_def)
  moreover have "bracketed inside ops" using br RBeginEpoch by simp
  ultimately show ?thesis unfolding RBeginEpoch handed_over.simps by blast
next
  case (RCommitImmediate now)
  have c: "commit_batch now (immediate_stage rt) (rt\<lparr>immediate_stage := []\<rparr>, b) = Some (r, rt', b')"
    using ex RCommitImmediate by (simp add: commit_immediate_def)
  have "router_inv inside (n + length (immediate_stage rt)) c f (rt\<lparr>immediate_stage := []\<rparr>)"
    using inv by (auto simp: router_inv_def balanced_def held_def stage_kinds_def region_closed_def)
  note i = commit_batch_inv [OF this c]
  have "bracketed inside ops" using br RCommitImmediate by simp
  with i show ?thesis unfolding RCommitImmediate handed_over.simps by blast
next
  case REndEpoch
  with inv br ex show ?thesis
    by (intro exI [of _ inside]) (auto simp: router_inv_def end_epoch_def balanced_def held_def region_closed_def stage_kinds_def)
qed

lemma run_inv:
  "router_inv inside n c f rt \<Longrightarrow> bracketed inside ops \<Longrightarrow> router_run ops (rt, b) = Some (log, rt', b') \<Longrightarrow>
   \<exists>inside'. router_inv inside' (n + log_total log) (c + log_committed log) (f + length (filter (\<lambda>e. \<not> snd e) log)) rt'"
proof (induction ops arbitrary: inside n c f rt b log)
  case Nil
  then show ?case by (auto simp: log_total_def log_committed_def)
next
  case (Cons op ops)
  from Cons.prems(3) obtain r rt1 b1 where e: "router_exec op (rt, b) = Some (r, rt1, b1)"
    by (auto split: option.splits)
  with Cons.prems(3) obtain log1 where run: "router_run ops (rt1, b1) = Some (log1, rt', b')"
    and log: "log = (if handed_over op rt = [] then log1 else (handed_over op rt, accepted r) # log1)" by auto
  from exec_inv [OF Cons.prems(1,2) e] obtain inside' where br: "bracketed inside' ops"
    and inv: "router_inv inside' (n + length (handed_over op rt)) (c + (if accepted r then length (handed_over op rt) else 0))
       (f + (if accepted r \<or> handed_over op rt = [] then 0 else 1)) rt1" by blast
  from Cons.IH [OF inv br run] show ?case
    by (cases "accepted r"; cases "handed_over op rt = []") (auto simp: log log_total_def log_committed_def add.assoc)
qed

lemma make_router_inv: "router_inv False 0 0 0 (make_router hb specs)"
  by (simp add: router_inv_def make_router_def balanced_def held_def zero_router_metrics_def region_closed_def stage_kinds_def)

section \<open>Async admission\<close>

definition edges_of :: "router \<Rightarrow> routed_edge set" where
  "edges_of rt = {e. \<exists>src es. map_of (source_to_edges rt) src = Some es \<and> e \<in> set es}"

definition distinct_edges :: "router \<Rightarrow> bool" where
  "distinct_edges rt \<longleftrightarrow> (\<forall>e \<in> edges_of rt. re_channel_id e \<noteq> []) \<and> inj_on re_channel_id (edges_of rt)"

definition within_limits :: "router \<Rightarrow> bool" where
  "within_limits rt \<longleftrightarrow> (\<forall>e \<in> edges_of rt. re_kind e = KAsync \<and> re_max_inflight e > 0 \<longrightarrow>
     int (pending_async_count (re_channel_id e) rt) \<le> re_max_inflight e)"

lemma pending_queues:
  "deferred_next_epoch rt' = deferred_next_epoch rt \<Longrightarrow> deferred_ready rt' = deferred_ready rt \<Longrightarrow>
   composite_external_stage rt' = composite_external_stage rt \<Longrightarrow> pending_async_count c rt' = pending_async_count c rt"
  by (simp add: pending_async_count_def)

lemma place_pending:
  "pub_kind q = re_kind edge \<Longrightarrow> c \<noteq> [] \<Longrightarrow>
   pending_async_count c (place edge q rt) = pending_async_count c rt + (if re_kind edge = KAsync \<and> pub_id q = c then 1 else 0)"
  by (auto simp: pending_async_count_def place_def async_on_def)

lemma admit_pending:
  assumes adm: "admit_async edge rt = (r, rt')" and k: "stage_kinds rt" and id: "re_channel_id edge \<noteq> []"
  shows "(\<forall>c. pending_async_count c rt' \<le> pending_async_count c rt) \<and>
     (accepted r \<and> re_kind edge = KAsync \<and> re_max_inflight edge > 0 \<and>
        int (pending_async_count (re_channel_id edge) rt) \<le> re_max_inflight edge \<longrightarrow>
      int (pending_async_count (re_channel_id edge) rt') + 1 \<le> re_max_inflight edge)"
proof -
  let ?cid = "re_channel_id edge"
  let ?over = "re_max_inflight edge > 0 \<and> int (pending_async_count ?cid rt) \<ge> re_max_inflight edge"
  let ?evict = "re_overflow edge = ''drop_oldest'' \<or> re_overflow edge = ''overwrite''"
  obtain d rt1 where d: "drop_oldest_pending_async ?cid rt = (d, rt1)" by fastforce
  note dp = drop_oldest_pending [OF d k id]
  show ?thesis
  proof (cases "re_kind edge = KAsync \<and> ?over \<and> ?evict")
    case True
    then have "pending_async_count ?cid rt > 0" by auto
    with dp have "d" by simp
    with True adm d have "pending_async_count c rt' = pending_async_count c rt1" for c
      by (auto simp: admit_async_def admitted_def Let_def intro: pending_queues)
    with dp True show ?thesis by auto
  next
    case False
    then have same: "pending_async_count c rt' = pending_async_count c rt" for c
      using adm by (auto simp: admit_async_def admitted_def Let_def intro: pending_queues split: if_splits)
    have "accepted r \<Longrightarrow> re_kind edge = KAsync \<Longrightarrow> \<not> ?over"
      using False adm by (auto simp: admit_async_def Let_def split: if_splits)
    with same show ?thesis by auto
  qed
qed

lemma route_edge_within:
  assumes r: "route_edge p md ts src edge rt = (r, rt')" and k: "stage_kinds rt" and e: "edge \<in> edges_of rt"
    and dist: "distinct_edges rt" and lim: "within_limits rt"
  shows "within_limits rt'"
  unfolding within_limits_def
proof (intro ballI impI)
  fix e' assume e': "e' \<in> edges_of rt'" "re_kind e' = KAsync \<and> re_max_inflight e' > 0"
  let ?emd = "edge_metadata md src edge" and ?q = "publication_for p md ts src edge" and ?c = "re_channel_id e'"
  let ?rt1 = "trace_publish edge ?emd rt"
  have in_rt: "e' \<in> edges_of rt"
    using e'(1) route_edge_effect [OF r, of 0] by (simp add: edges_of_def routing_frame_def)
  have lim': "int (pending_async_count ?c rt) \<le> re_max_inflight e'" using lim in_rt e'(2) by (simp add: within_limits_def)
  have ids: "?c \<noteq> []" "re_channel_id edge \<noteq> []" using dist in_rt e by (auto simp: distinct_edges_def)
  have q: "pub_kind ?q = re_kind edge" "pub_id ?q = re_channel_id edge" by (simp_all add: publication_for_def)
  have p1: "pending_async_count c ?rt1 = pending_async_count c rt" for c by (rule pending_queues) simp_all
  obtain a rt2 where adm: "admit_async edge ?rt1 = (a, rt2)" by fastforce
  have k1: "stage_kinds ?rt1" using k by (simp add: stage_kinds_def)
  note ap = admit_pending [OF adm k1 ids(2)]
  have p3: "pending_async_count c (trace_admission edge ?emd a rt2) = pending_async_count c rt2" for c
    by (rule pending_queues) simp_all
  show "int (pending_async_count ?c rt') \<le> re_max_inflight e'"
  proof (cases "re_kind edge = KAsync")
    case False
    then have "rt' = place edge ?q ?rt1" using r by (simp add: route_edge_def Let_def)
    with place_pending [OF q(1) ids(1)] False p1 lim' show ?thesis by simp
  next
    case async: True
    show ?thesis
    proof (cases "accepted a")
      case False
      then have "rt' = trace_admission edge ?emd a rt2" using r adm async by (auto simp: route_edge_def Let_def)
      moreover have "int (pending_async_count ?c rt2) \<le> int (pending_async_count ?c rt)" using ap p1 by simp
      ultimately show ?thesis using p3 lim' by simp
    next
      case True
      then have "rt' = place edge ?q (trace_admission edge ?emd a rt2)" using r adm async by (auto simp: route_edge_def Let_def)
      then have pend: "pending_async_count ?c rt' = pending_async_count ?c rt2 + (if re_channel_id edge = ?c then 1 else 0)"
        using place_pending [OF q(1) ids(1)] q(2) async p3 by simp
      show ?thesis
      proof (cases "re_channel_id edge = ?c")
        case True
        then have "edge = e'" using dist e in_rt by (auto simp: distinct_edges_def inj_on_def)
        with ap \<open>accepted a\<close> e'(2) lim' p1 pend show ?thesis by simp
      next
        case False
        have "pending_async_count ?c rt2 \<le> pending_async_count ?c rt" using ap p1 by simp
        with False pend lim' show ?thesis by simp
      qed
    qed
  qed
qed

lemma route_edges_within:
  "route_edges p md ts src edges rt = (r, rt') \<Longrightarrow> stage_kinds rt \<Longrightarrow> set edges \<subseteq> edges_of rt \<Longrightarrow> distinct_edges rt \<Longrightarrow>
   within_limits rt \<Longrightarrow> within_limits rt'"
proof (induction edges arbitrary: rt)
  case (Cons edge edges)
  obtain r1 rt1 where e: "route_edge p md ts src edge rt = (r1, rt1)" by fastforce
  note eff = route_edge_effect [OF e, of 0]
  have same: "edges_of rt1 = edges_of rt" using eff by (simp add: edges_of_def routing_frame_def)
  have "edge \<in> edges_of rt" using Cons.prems(3) by simp
  note w = route_edge_within [OF e Cons.prems(2) this Cons.prems(4,5)]
  show ?case
  proof (cases "accepted r1")
    case True
    then have "route_edges p md ts src edges rt1 = (r, rt')" using Cons.prems(1) e by simp
    moreover have "distinct_edges rt1" using Cons.prems(4) by (simp add: distinct_edges_def same)
    ultimately show ?thesis using Cons.IH [of rt1] eff w same Cons.prems(2,3) by simp
  qed (use Cons.prems(1) e w in auto)
qed simp

text \<open>The rest of the operations never add a pending async publication.\<close>

definition limits_inv :: "router \<Rightarrow> bool" where
  "limits_inv rt \<longleftrightarrow> stage_kinds rt \<and> distinct_edges rt \<and> within_limits rt"

lemma limits_inv_fewer:
  assumes "limits_inv rt" and "source_to_edges rt' = source_to_edges rt" and "stage_kinds rt'"
    and "\<And>c. pending_async_count c rt' \<le> pending_async_count c rt"
  shows "limits_inv rt'"
proof -
  have "edges_of rt' = edges_of rt" using assms(2) by (simp add: edges_of_def)
  moreover have "int (pending_async_count c rt') \<le> int (pending_async_count c rt)" for c using assms(4) by simp
  ultimately show ?thesis
    using assms(1,3) unfolding limits_inv_def distinct_edges_def within_limits_def by (metis order_trans)
qed

lemma commit_batch_limits:
  assumes "commit_batch now pubs (rt, b) = Some (r, rt', b')" and "limits_inv rt"
  shows "limits_inv rt'"
proof (rule limits_inv_fewer [OF assms(2)])
  note eff = commit_batch_effect [OF assms(1)]
  show "source_to_edges rt' = source_to_edges rt" "stage_kinds rt'"
    using eff same_queues_balanced [of rt rt' 0] assms(2) by (auto simp: same_queues_def limits_inv_def)
  show "pending_async_count c rt' \<le> pending_async_count c rt" for c
    using eff by (simp add: same_queues_def pending_async_count_def)
qed

lemma exec_limits:
  assumes ex: "router_exec op (rt, b) = Some (r, rt', b')" and inv: "limits_inv rt"
  shows "limits_inv rt'"
proof (cases op)
  case (RPublish src p md ts)
  then have e: "router_publish_shared_from_with_metadata src p md ts rt = (r, rt')" using ex by (auto split: prod.splits)
  show ?thesis
  proof (cases "p = None \<or> map_of (source_to_edges rt) src = None")
    case True
    with e inv show ?thesis by (auto simp: router_publish_shared_from_with_metadata_def split: if_splits)
  next
    case False
    then obtain es where es: "map_of (source_to_edges rt) src = Some es" by auto
    then have "route_edges p md ts src es rt = (r, rt')" using e False by (auto simp: router_publish_shared_from_with_metadata_def)
    moreover have "set es \<subseteq> edges_of rt" using es by (auto simp: edges_of_def)
    ultimately have "within_limits rt'" using route_edges_within inv by (simp add: limits_inv_def)
    moreover have "edges_of rt' = edges_of rt" "stage_kinds rt'"
      using router_publish_effect [OF e, of 0] inv by (auto simp: edges_of_def routing_frame_def limits_inv_def)
    ultimately show ?thesis using inv by (simp add: limits_inv_def distinct_edges_def)
  qed
next
  case (RBeginComposite comps)
  then show ?thesis using ex inv
    by (intro limits_inv_fewer [OF inv]) (auto simp: begin_composite_region_def stage_kinds_def pending_async_count_def)
next
  case (RCommitComposite now)
  let ?rt1 = "rt\<lparr>deferred_next_epoch := deferred_next_epoch rt @ map snd (filter (\<lambda>s. fst s \<noteq> KImmediate) (composite_external_stage rt)),
      composite_external_stage := [], active_composite_components := {}\<rparr>"
  have k: "\<forall>s \<in> set (composite_external_stage rt). fst s = pub_kind (snd s)" using inv by (simp add: limits_inv_def stage_kinds_def)
  have "length (filter (async_on c) (map snd (filter (\<lambda>s. fst s \<noteq> KImmediate) xs))) =
      length (filter (\<lambda>(k, q). k = KAsync \<and> (c = [] \<or> pub_id q = c)) xs)" if "\<forall>s \<in> set xs. fst s = pub_kind (snd s)" for c xs
    using that by (induction xs) (auto simp: async_on_def)
  then have "limits_inv ?rt1"
    using k by (intro limits_inv_fewer [OF inv]) (auto simp: stage_kinds_def pending_async_count_def)
  then show ?thesis
    using commit_batch_limits ex RCommitComposite by (auto simp: commit_composite_region_outputs_def Let_def)
next
  case RDiscardComposite
  then show ?thesis using ex inv
    by (intro limits_inv_fewer [OF inv]) (auto simp: stage_kinds_def pending_async_count_def)
next
  case (RBeginEpoch now)
  have "limits_inv (rt\<lparr>deferred_ready := []\<rparr>)"
    using inv by (intro limits_inv_fewer [OF inv]) (auto simp: limits_inv_def stage_kinds_def pending_async_count_def)
  moreover obtain rt2 where c: "commit_batch now (deferred_ready rt)
      (rt\<lparr>deferred_ready := []\<rparr>, if has_bus rt then advance_epoch b else b) = Some (r, rt2, b')"
    and rt': "rt' = rt2\<lparr>rmetrics := rmetrics rt'\<rparr>"
    using ex RBeginEpoch by (auto simp: begin_epoch_def Let_def split: option.splits if_splits)
  ultimately have inv2: "limits_inv rt2" by (blast intro: commit_batch_limits)
  show ?thesis
  proof (rule limits_inv_fewer [OF inv2])
    show "source_to_edges rt' = source_to_edges rt2" "stage_kinds rt'"
      using inv2 by (subst rt', simp add: limits_inv_def stage_kinds_def)+
    show "pending_async_count c rt' \<le> pending_async_count c rt2" for c
      by (subst rt') (simp add: pending_async_count_def)
  qed
next
  case (RCommitImmediate now)
  have "limits_inv (rt\<lparr>immediate_stage := []\<rparr>)"
    using inv by (intro limits_inv_fewer [OF inv]) (auto simp: limits_inv_def stage_kinds_def pending_async_count_def)
  with ex RCommitImmediate show ?thesis by (auto simp: commit_immediate_def intro: commit_batch_limits)
next
  case REndEpoch
  then show ?thesis using ex inv
    by (intro limits_inv_fewer [OF inv]) (auto simp: end_epoch_def limits_inv_def stage_kinds_def pending_async_count_def)
qed

lemma run_limits: "router_run ops (rt, b) = Some (log, rt', b') \<Longrightarrow> limits_inv rt \<Longrightarrow> limits_inv rt'"
proof (induction ops arbitrary: rt b log)
  case (Cons op ops)
  from Cons.prems(1) obtain r rt1 b1 where e: "router_exec op (rt, b) = Some (r, rt1, b1)" by (auto split: option.splits)
  with Cons.prems(1) obtain log1 where "router_run ops (rt1, b1) = Some (log1, rt', b')" by auto
  with Cons.IH exec_limits [OF e Cons.prems(2)] show ?case by blast
qed simp

lemma make_router_edges: "edges_of (make_router hb specs) \<subseteq> routed_edge_for ` set specs"
proof -
  have "set (smap_get [] (fold (\<lambda>spec. smap_push (edge_from spec) (routed_edge_for spec)) ss m) k) \<subseteq>
      set (smap_get [] m k) \<union> routed_edge_for ` set ss" for ss m k
    by (induction ss arbitrary: m) (fastforce split: if_splits)+
  from this [of specs "[]"] have "set (smap_get [] (source_to_edges (make_router hb specs)) k) \<subseteq> routed_edge_for ` set specs" for k
    by (simp add: make_router_def)
  moreover have "e \<in> set (smap_get [] (source_to_edges rt) src)" if "map_of (source_to_edges rt) src = Some es" "e \<in> set es" for rt src es e
    using that by (simp add: smap_get_def)
  ultimately show ?thesis by (fastforce simp: edges_of_def)
qed

lemma make_router_limits:
  assumes "distinct (map edge_id specs)" and "[] \<notin> set (map edge_id specs)"
  shows "limits_inv (make_router hb specs)"
proof -
  have "inj_on re_channel_id (routed_edge_for ` set specs)"
    using assms(1) by (auto simp: inj_on_def routed_edge_for_def distinct_map)
  then have "inj_on re_channel_id (edges_of (make_router hb specs))" using make_router_edges by (rule inj_on_subset)
  moreover have "\<forall>e \<in> edges_of (make_router hb specs). re_channel_id e \<noteq> []"
    using make_router_edges [of hb specs] assms(2) by (force simp: routed_edge_for_def)
  ultimately show ?thesis
    by (simp add: limits_inv_def distinct_edges_def within_limits_def stage_kinds_def pending_async_count_def make_router_def)
qed


definition async_edge :: "string \<Rightarrow> string \<Rightarrow> edge_spec" where
  "async_edge cid over = demo_edge\<lparr>edge_id := cid, edge_kind_of := KAsync,
     edge_policy := (edge_policy demo_edge)\<lparr>ep_max_inflight := 1, ep_overflow := over\<rparr>\<rparr>"

definition demo_publish :: router_op where
  "demo_publish = RPublish ''a.out'' (Some (make_text_payload ''x'' kTextPayloadSchema)) empty_metadata None"




definition later :: "routed_edge \<Rightarrow> bool" where
  "later e \<longleftrightarrow> re_kind e \<noteq> KImmediate"

lemma drop_oldest_keeps_others:
  "drop_oldest_pending_async cid rt = (d, rt') \<Longrightarrow> deferred_next_epoch rt = olds @ news \<Longrightarrow> \<forall>q \<in> set news. pub_id q \<noteq> cid \<Longrightarrow>
   \<exists>olds'. deferred_next_epoch rt' = olds' @ news \<and> subseq olds' olds"
proof -
  assume d: "drop_oldest_pending_async cid rt = (d, rt')" and s: "deferred_next_epoch rt = olds @ news" "\<forall>q \<in> set news. pub_id q \<noteq> cid"
  let ?hit = "\<lambda>q. pub_kind q = KAsync \<and> pub_id q = cid"
  have er: "erase_first ?hit (xs @ news) = map_option (\<lambda>ys. ys @ news) (erase_first ?hit xs)" for xs
  proof (induction xs)
    case Nil
    have "erase_first ?hit news = None" using s(2) by (auto simp: erase_first_None_iff)
    then show ?case by simp
  next
    case (Cons x xs)
    then show ?case by (cases "erase_first ?hit xs") auto
  qed
  show ?thesis
  proof (cases "deferred_next_epoch rt' = deferred_next_epoch rt")
    case True
    with s show ?thesis by auto
  next
    case False
    with d s(1) er [of olds] obtain olds' where "erase_first ?hit olds = Some olds'" "deferred_next_epoch rt' = olds' @ news"
      by (auto simp: drop_oldest_pending_async_def Let_def split: option.splits)
    then show ?thesis by (auto dest: erase_first_subseq)
  qed
qed

lemma admit_keeps_others:
  assumes "admit_async edge rt = (r, rt')" and "deferred_next_epoch rt = olds @ news" and "\<forall>q \<in> set news. pub_id q \<noteq> re_channel_id edge"
  shows "\<exists>olds'. deferred_next_epoch rt' = olds' @ news \<and> subseq olds' olds"
  using admit_async_cases [OF assms(1)]
proof
  assume "\<exists>x. rt' = rt\<lparr>rmetrics := x\<rparr> \<and> same_books (rmetrics rt) x \<and>
       async_admission_overwrite_count x = async_admission_overwrite_count (rmetrics rt)"
  with assms(2) show ?thesis by auto
next
  assume "\<exists>rt1 x. drop_oldest_pending_async (re_channel_id edge) rt = (True, rt1) \<and> accepted r \<and> rt' = rt1\<lparr>rmetrics := x\<rparr> \<and>
       same_books (rmetrics rt) x \<and> async_admission_overwrite_count x = Suc (async_admission_overwrite_count (rmetrics rt))"
  then obtain rt1 x where "drop_oldest_pending_async (re_channel_id edge) rt = (True, rt1)" "rt' = rt1\<lparr>rmetrics := x\<rparr>" by blast
  with drop_oldest_keeps_others [OF _ assms(2,3)] show ?thesis by fastforce
qed

lemma route_edge_later:
  assumes r: "route_edge p md ts src edge rt = (r, rt')" and acc: "accepted r" and l: "later edge" and cl: "active_composite_components rt = {}"
    and next_q: "deferred_next_epoch rt = olds @ news" and fresh: "\<forall>q \<in> set news. pub_id q \<noteq> re_channel_id edge"
  shows "immediate_stage rt' = immediate_stage rt \<and> subseq (deferred_ready rt') (deferred_ready rt) \<and>
     (\<exists>olds'. deferred_next_epoch rt' = olds' @ news @ [publication_for p md ts src edge] \<and> subseq olds' olds)"
proof -
  let ?emd = "edge_metadata md src edge" and ?q = "publication_for p md ts src edge"
  let ?rt1 = "trace_publish edge ?emd rt"
  have place: "place edge ?q x = upd_rm (count_staged (re_kind edge)) (x\<lparr>deferred_next_epoch := deferred_next_epoch x @ [?q]\<rparr>)"
    if "active_composite_components x = {}" for x
    using that l by (cases "re_kind edge") (auto simp: place_def leaves_region_def later_def)
  show ?thesis
  proof (cases "re_kind edge = KAsync")
    case False
    then have "rt' = place edge ?q ?rt1" using r by (simp add: route_edge_def Let_def)
    with place [of ?rt1] cl next_q show ?thesis by auto
  next
    case True
    obtain a rt2 where adm: "admit_async edge ?rt1 = (a, rt2)" by fastforce
    note eff = admit_async_effect [OF adm]
    have rt': "rt' = place edge ?q (trace_admission edge ?emd a rt2)"
      using r adm True acc by (auto simp: route_edge_def Let_def split: if_splits)
    have "active_composite_components (trace_admission edge ?emd a rt2) = {}" using eff cl by simp
    note pl = place [OF this]
    have n1: "deferred_next_epoch ?rt1 = olds @ news" using next_q by simp
    obtain olds' where "deferred_next_epoch rt2 = olds' @ news" "subseq olds' olds"
      using admit_keeps_others [OF adm n1 fresh] by blast
    with rt' pl eff show ?thesis by auto
  qed
qed

lemma route_edges_later:
  assumes "route_edges p md ts src edges rt = (r, rt')" and "accepted r" and "\<forall>e \<in> set edges. later e"
    and "active_composite_components rt = {}" and "deferred_next_epoch rt = olds @ news"
    and "distinct (map pub_id news @ map re_channel_id edges)"
  shows "immediate_stage rt' = immediate_stage rt \<and> subseq (deferred_ready rt') (deferred_ready rt) \<and>
     (\<exists>olds'. deferred_next_epoch rt' = olds' @ news @ map (publication_for p md ts src) edges \<and> subseq olds' olds)"
  using assms
proof (induction edges arbitrary: rt olds news)
  case Nil
  then show ?case by auto
next
  case (Cons edge edges)
  obtain r1 rt1 where e: "route_edge p md ts src edge rt = (r1, rt1)" by fastforce
  have a1: "accepted r1" using Cons.prems(1,2) e by (cases "accepted r1") auto
  then have rest: "route_edges p md ts src edges rt1 = (r, rt')" using Cons.prems(1) e by simp
  have fresh: "\<forall>q \<in> set news. pub_id q \<noteq> re_channel_id edge" using Cons.prems(6) by force
  have l: "later edge" using Cons.prems(3) by simp
  obtain olds1 where s1: "immediate_stage rt1 = immediate_stage rt" "subseq (deferred_ready rt1) (deferred_ready rt)"
    "deferred_next_epoch rt1 = olds1 @ (news @ [publication_for p md ts src edge])" "subseq olds1 olds"
    using route_edge_later [OF e a1 l Cons.prems(4,5) fresh] by auto
  have "active_composite_components rt1 = {}"
    using route_edge_effect [OF e, of 0] Cons.prems(4) by (simp add: routing_frame_def)
  moreover have "distinct (map pub_id (news @ [publication_for p md ts src edge]) @ map re_channel_id edges)"
    using Cons.prems(6) by (auto simp: publication_for_def)
  ultimately obtain olds2 where "immediate_stage rt' = immediate_stage rt1" "subseq (deferred_ready rt') (deferred_ready rt1)"
    "deferred_next_epoch rt' = olds2 @ (news @ [publication_for p md ts src edge]) @ map (publication_for p md ts src) edges"
    "subseq olds2 olds1"
    using Cons.IH [OF rest Cons.prems(2) _ _ s1(3)] Cons.prems(3) by auto
  with s1 show ?case by (auto intro: subseq_order.order_trans)
qed

text \<open>
  Publications on delay, state and async edges wait for the next epoch. A publication accepted outside composite
  regions, for a source whose edges are all of these kinds (with distinct channels), leaves the immediate stage
  alone and only removes from the ready list; it appends exactly one publication per edge, in edge order and with
  the published payload, to the next-epoch list. Ending the epoch moves that list behind the ready one, and
  beginning the next epoch hands exactly the ready list to the bus.
\<close>

lemma deferred_edges_wait:
  assumes "router_publish_shared_from_with_metadata src (Some p) md ts rt = (r, rt')" and "accepted r"
    and "map_of (source_to_edges rt) src = Some edges" and "\<forall>e \<in> set edges. re_kind e \<noteq> KImmediate"
    and "distinct (map re_channel_id edges)" and "active_composite_components rt = {}"
  shows "immediate_stage rt' = immediate_stage rt \<and> subseq (deferred_ready rt') (deferred_ready rt) \<and>
     (\<exists>olds. subseq olds (deferred_next_epoch rt) \<and>
        deferred_next_epoch rt' = olds @ map (publication_for (Some p) md ts src) edges \<and>
        deferred_ready (end_epoch rt') = deferred_ready rt' @ olds @ map (publication_for (Some p) md ts src) edges \<and>
        deferred_next_epoch (end_epoch rt') = [])"
proof -
  have "route_edges (Some p) md ts src edges rt = (r, rt')"
    using assms(1,3) by (simp add: router_publish_shared_from_with_metadata_def)
  then obtain olds where "immediate_stage rt' = immediate_stage rt" "subseq (deferred_ready rt') (deferred_ready rt)"
    "deferred_next_epoch rt' = olds @ map (publication_for (Some p) md ts src) edges" "subseq olds (deferred_next_epoch rt)"
    using route_edges_later [of "Some p" md ts src edges rt r rt' "deferred_next_epoch rt" "[]"] assms(2,4-6)
    by (auto simp: later_def)
  then show ?thesis by (auto simp: end_epoch_def)
qed

definition delay_edge :: edge_spec where
  "delay_edge = demo_edge\<lparr>edge_kind_of := KDelay\<rparr>"

lemma deferred_edges_wait_witness:
  "let rt = make_router True [delay_edge]; p = make_text_payload ''x'' kTextPayloadSchema;
       rt' = snd (router_publish_shared_from_with_metadata ''a.out'' (Some p) empty_metadata None rt) in
   immediate_stage rt' = [] \<and>
   deferred_next_epoch rt' = [publication_for (Some p) empty_metadata None ''a.out'' (routed_edge_for delay_edge)]"
proof -
  let ?rt = "make_router True [delay_edge]" and ?p = "make_text_payload ''x'' kTextPayloadSchema"
  obtain r rt' where pub: "router_publish_shared_from_with_metadata ''a.out'' (Some ?p) empty_metadata None ?rt = (r, rt')" by fastforce
  have "accepted (fst (router_publish_shared_from_with_metadata ''a.out'' (Some ?p) empty_metadata None ?rt))" by code_simp
  with pub have acc: "accepted r" by simp
  have es: "map_of (source_to_edges ?rt) ''a.out'' = Some [routed_edge_for delay_edge]" by code_simp
  have k: "re_kind (routed_edge_for delay_edge) \<noteq> KImmediate" by code_simp
  have "deferred_next_epoch ?rt = []" "immediate_stage ?rt = []" "active_composite_components ?rt = {}"
    by (simp_all add: make_router_def)
  with deferred_edges_wait [OF pub acc es] k pub show ?thesis by auto
qed

text \<open>
  The outputs of a composite region leave it together or not at all. Committing hands the staged immediate
  publications to the bus as one batch, in order, and moves the others to the next epoch, in order; discarding
  hands nothing over and leaves every other queue alone. Either way the region is closed with an empty stage.
\<close>

lemma composite_outputs_together:
  assumes "commit_composite_region_outputs now (rt, b) = Some (r, rt2, b')"
  defines "imm \<equiv> map snd (filter (\<lambda>s. fst s = KImmediate) (composite_external_stage rt))"
    and "rest \<equiv> map snd (filter (\<lambda>s. fst s \<noteq> KImmediate) (composite_external_stage rt))"
    and "rt1 \<equiv> discard_composite_region_outputs rt"
  shows "composite_external_stage rt2 = [] \<and> active_composite_components rt2 = {} \<and>
     immediate_stage rt2 = immediate_stage rt \<and> deferred_ready rt2 = deferred_ready rt \<and>
     deferred_next_epoch rt2 = deferred_next_epoch rt @ rest \<and>
     (if imm = [] then accepted r \<and> b' = b
      else if has_bus rt then \<exists>ev. publish_batch now imm b = Some (r, b', ev) else \<not> accepted r \<and> b' = b) \<and>
     composite_external_stage rt1 = [] \<and> active_composite_components rt1 = {} \<and>
     immediate_stage rt1 = immediate_stage rt \<and> deferred_ready rt1 = deferred_ready rt \<and>
     deferred_next_epoch rt1 = deferred_next_epoch rt"
proof -
  let ?rt0 = "rt\<lparr>deferred_next_epoch := deferred_next_epoch rt @ rest, composite_external_stage := [], active_composite_components := {}\<rparr>"
  have c: "commit_batch now imm (?rt0, b) = Some (r, rt2, b')"
    using assms(1) by (simp add: commit_composite_region_outputs_def imm_def rest_def Let_def)
  have "if imm = [] then accepted r \<and> b' = b
      else if has_bus rt then \<exists>ev. publish_batch now imm b = Some (r, b', ev) else \<not> accepted r \<and> b' = b"
    using c by (auto simp: commit_batch_def split: option.splits if_splits)
  with commit_batch_effect [OF c] show ?thesis by (simp add: same_queues_def rt1_def)
qed

lemma composite_outputs_together_witness:
  "\<exists>r rt2 b'. commit_composite_region_outputs (\<lambda>_. 0)
       (snd (router_publish_shared_from_with_metadata ''a.out'' (Some (make_text_payload ''x'' kTextPayloadSchema)) empty_metadata None
          (begin_composite_region [''a''] (make_router True [demo_edge]))), make_bus [demo_edge]) = Some (r, rt2, b') \<and>
     accepted r \<and> composite_external_stage rt2 = [] \<and>
     map_option (\<lambda>st. length (queue st)) (map_of (channels b') ''e'') = Some 1"
proof -
  let ?rt = "snd (router_publish_shared_from_with_metadata ''a.out'' (Some (make_text_payload ''x'' kTextPayloadSchema)) empty_metadata None
          (begin_composite_region [''a''] (make_router True [demo_edge])))"
  have v: "map_option (\<lambda>(r, rt2, b'). (accepted r, map_option (\<lambda>st. length (queue st)) (map_of (channels b') ''e'')))
      (commit_composite_region_outputs (\<lambda>_. 0) (?rt, make_bus [demo_edge])) = Some (True, Some 1)" by code_simp
  then obtain r rt2 b' where c: "commit_composite_region_outputs (\<lambda>_. 0) (?rt, make_bus [demo_edge]) = Some (r, rt2, b')"
    by (cases "commit_composite_region_outputs (\<lambda>_. 0) (?rt, make_bus [demo_edge])") auto
  with v composite_outputs_together [OF c] show ?thesis by auto
qed

text \<open>
  After an async publication is admitted, the gauge \<^verbatim>\<open>async_in_flight_count\<close> holds the number of publications
  pending on that one channel plus one, whatever is pending on the others.
\<close>

lemma async_gauge_is_per_channel:
  assumes "admit_async edge rt = (r, rt')" and "accepted r" and "re_kind edge = KAsync"
    and "stage_kinds rt" and "re_channel_id edge \<noteq> []"
  shows "async_in_flight_count (rmetrics rt') = pending_async_count (re_channel_id edge) rt' + 1"
proof -
  obtain d rt1 where d: "drop_oldest_pending_async (re_channel_id edge) rt = (d, rt1)" by fastforce
  note dp = drop_oldest_pending [OF d assms(4,5)] and eff = drop_oldest_effect [OF d]
  have same: "pending_async_count (re_channel_id edge) (x\<lparr>rmetrics := m\<rparr>) = pending_async_count (re_channel_id edge) x" for x m
    by (rule pending_queues) simp_all
  show ?thesis
  proof (cases d)
    case True
    with dp assms(1-3) d same show ?thesis by (auto simp: admit_async_def admitted_def Let_def split: if_splits)
  next
    case False
    with eff assms(1-3) d same show ?thesis by (auto simp: admit_async_def admitted_def Let_def split: if_splits)
  qed
qed

lemma async_gauge_is_per_channel_witness:
  "let rt = snd (router_publish_shared_from_with_metadata ''a.out'' (Some (make_text_payload ''x'' kTextPayloadSchema)) empty_metadata None
                   (make_router True [async_edge ''e'' ''reject'', async_edge ''f'' ''reject''])) in
   async_in_flight_count (rmetrics rt) = 1 \<and> pending_async_count [] rt = 2 \<and>
   async_in_flight_count (rmetrics (snd (admit_async (routed_edge_for (async_edge ''g'' ''reject'')) rt))) = 1"
proof -
  let ?rt = "snd (router_publish_shared_from_with_metadata ''a.out'' (Some (make_text_payload ''x'' kTextPayloadSchema)) empty_metadata None
                   (make_router True [async_edge ''e'' ''reject'', async_edge ''f'' ''reject'']))"
  let ?g = "routed_edge_for (async_edge ''g'' ''reject'')"
  have v: "async_in_flight_count (rmetrics ?rt) = 1" "pending_async_count [] ?rt = 2"
    "accepted (fst (admit_async ?g ?rt))" "pending_async_count ''g'' (snd (admit_async ?g ?rt)) = 0"
    "re_kind ?g = KAsync" "re_channel_id ?g = ''g''" "composite_external_stage ?rt = []" by code_simp+
  obtain r rt' where adm: "admit_async ?g ?rt = (r, rt')" by fastforce
  have "stage_kinds ?rt" using v(7) by (simp add: stage_kinds_def)
  with async_gauge_is_per_channel [OF adm] v adm show ?thesis by simp
qed

end
