(* ===== verification/State_Store.thy ===== *)
theory State_Store
  imports Graph_Spec
begin

text \<open>
  \<^verbatim>\<open>RuntimeStateStore\<close> and \<^verbatim>\<open>ConfigSnapshotStore\<close> (\<^verbatim>\<open>src/state.cpp\<close>): values staged during an epoch become visible
  at the epoch boundary. Both stores implement the same contract, the locale \<open>epoch_store\<close>: staging does not
  change what readers see, committing makes the staged values visible all at once.
\<close>

section \<open>The contract of an epoch store\<close>

text \<open>The writes a store admits when they are issued in order, each with its key and value.\<close>

primrec admitted_by ::
    "('k \<Rightarrow> 'a \<Rightarrow> 's \<Rightarrow> bool) \<Rightarrow> ('k \<Rightarrow> 'a \<Rightarrow> 's \<Rightarrow> 's) \<Rightarrow> ('a \<Rightarrow> 'v) \<Rightarrow> ('k \<times> 'a) list \<Rightarrow> 's \<Rightarrow> ('k \<times> 'v) list" where
  "admitted_by adm put val [] s = []"
| "admitted_by adm put val (w # ws) s =
     (if adm (fst w) (snd w) s then [(fst w, val (snd w))] else []) @
     admitted_by adm put val ws (put (fst w) (snd w) s)"

locale epoch_store =
  fixes visible :: "'s \<Rightarrow> 'k \<Rightarrow> 'v option"
    and staged :: "'s \<Rightarrow> 'k \<Rightarrow> 'v option"
    and stage :: "'k \<Rightarrow> 'a \<Rightarrow> 's \<Rightarrow> 's"
    and val :: "'a \<Rightarrow> 'v"
    and admissible :: "'k \<Rightarrow> 'a \<Rightarrow> 's \<Rightarrow> bool"
    and commit :: "'s \<Rightarrow> 's"
    and invar :: "'s \<Rightarrow> bool"
  assumes visible_stage: "invar s \<Longrightarrow> visible (stage k a s) = visible s"
    and staged_stage: "invar s \<Longrightarrow> staged (stage k a s) = (if admissible k a s then (staged s)(k \<mapsto> val a) else staged s)"
    and visible_commit: "invar s \<Longrightarrow> visible (commit s) = visible s ++ staged s"
    and staged_commit: "invar s \<Longrightarrow> staged (commit s) = Map.empty"
    and invar_stage: "invar s \<Longrightarrow> invar (stage k a s)"
    and invar_commit: "invar s \<Longrightarrow> invar (commit s)"
begin

lemma visible_writes: "invar s \<Longrightarrow> visible (fold (\<lambda>w. stage (fst w) (snd w)) ws s) = visible s"
proof (induction ws arbitrary: s)
  case (Cons w ws)
  from Cons.IH [OF invar_stage [OF Cons.prems]] visible_stage [OF Cons.prems] show ?case by simp
qed simp

lemma invar_writes: "invar s \<Longrightarrow> invar (fold (\<lambda>w. stage (fst w) (snd w)) ws s)"
  by (induction ws arbitrary: s) (auto intro: invar_stage)

lemma staged_writes:
  "invar s \<Longrightarrow> staged (fold (\<lambda>w. stage (fst w) (snd w)) ws s) =
     staged s ++ map_of (rev (admitted_by admissible stage val ws s))"
proof (induction ws arbitrary: s)
  case (Cons w ws)
  from Cons.IH [OF invar_stage [OF Cons.prems, of "fst w" "snd w"]] staged_stage [OF Cons.prems, of "fst w" "snd w"]
  show ?case by simp
qed simp

text \<open>
  An epoch is any sequence of writes followed by the boundary. Readers see the old values until the boundary
  and the last admitted write of every key after it.
\<close>

lemma epoch_effect:
  assumes "invar s"
  shows "visible (commit (fold (\<lambda>w. stage (fst w) (snd w)) ws s)) =
    (visible s ++ staged s) ++ map_of (rev (admitted_by admissible stage val ws s))"
  using visible_commit [OF invar_writes [OF assms]] visible_writes [OF assms] staged_writes [OF assms]
  by simp

end

section \<open>Runtime state store\<close>

record state_entry =
  st_current :: payload_ptr
  st_pending :: payload_ptr
  st_writer :: string
  st_version :: nat

record state_metrics =
  sm_epoch :: nat
  sm_namespace_count :: nat
  sm_current_value_count :: nat
  sm_staged_write_count :: nat
  sm_committed_write_count :: nat
  sm_rejected_write_count :: nat
  sm_snapshot_read_count :: nat

record state_store =
  namespaces :: "(string, (string, state_entry) smap) smap"
  ss_metrics :: state_metrics

record state_snapshot =
  snap_name_space :: string
  snap_epoch :: nat
  snap_values :: "(string, payload_ptr) smap"

definition fresh_entry :: state_entry where
  "fresh_entry = \<lparr>st_current = None, st_pending = None, st_writer = [], st_version = 0\<rparr>"

definition empty_state_store :: state_store where
  "empty_state_store =
     \<lparr>namespaces = [], ss_metrics = \<lparr>sm_epoch = 0, sm_namespace_count = 0, sm_current_value_count = 0,
        sm_staged_write_count = 0, sm_committed_write_count = 0, sm_rejected_write_count = 0, sm_snapshot_read_count = 0\<rparr>\<rparr>"

definition snapshot_contains :: "state_snapshot \<Rightarrow> string \<Rightarrow> bool" where
  "snapshot_contains sn key \<longleftrightarrow> map_of (snap_values sn) key \<noteq> None"

definition snapshot_get :: "state_snapshot \<Rightarrow> string \<Rightarrow> payload_ptr" where
  "snapshot_get sn key = (case map_of (snap_values sn) key of None \<Rightarrow> None | Some p \<Rightarrow> p)"

definition upd_sm :: "(state_metrics \<Rightarrow> state_metrics) \<Rightarrow> state_store \<Rightarrow> state_store" where
  "upd_sm f s = s\<lparr>ss_metrics := f (ss_metrics s)\<rparr>"

definition find_entry :: "state_store \<Rightarrow> string \<Rightarrow> string \<Rightarrow> state_entry option" where
  "find_entry s ns key = (case map_of (namespaces s) ns of None \<Rightarrow> None | Some m \<Rightarrow> map_of m key)"

definition validate_write ::
    "string \<Rightarrow> string \<Rightarrow> string \<Rightarrow> payload_ptr \<Rightarrow> state_store \<Rightarrow> publish_result \<times> state_store" where
  "validate_write ns key writer payload s =
     (let refuse = (\<lambda>why. (reject why, upd_sm (\<lambda>x. x\<lparr>sm_rejected_write_count := sm_rejected_write_count x + 1\<rparr>) s)) in
      if ns = [] then refuse ''state namespace must not be empty''
      else if key = [] then refuse ''state key must not be empty''
      else if writer = [] then refuse ''state writer must be an explicit component.port''
      else if payload = None then refuse ''state payload must not be null''
      else
        (case find_entry s ns key of
           None \<Rightarrow> (accept, s)
         | Some e \<Rightarrow>
             if st_writer e = [] \<or> st_writer e = writer then (accept, s)
             else refuse (''state key '' @ ns @ ''.'' @ key @ '' already has writer '' @ st_writer e)))"

definition put_entry :: "string \<Rightarrow> string \<Rightarrow> state_entry \<Rightarrow> state_store \<Rightarrow> state_store" where
  "put_entry ns key e s =
     s\<lparr>namespaces := smap_put ns (smap_put key e (smap_get [] (namespaces s) ns)) (namespaces s)\<rparr>"

definition entry_or_fresh :: "state_store \<Rightarrow> string \<Rightarrow> string \<Rightarrow> state_entry" where
  "entry_or_fresh s ns key = (case find_entry s ns key of None \<Rightarrow> fresh_entry | Some e \<Rightarrow> e)"

definition seed_value ::
    "string \<Rightarrow> string \<Rightarrow> string \<Rightarrow> payload_ptr \<Rightarrow> state_store \<Rightarrow> publish_result \<times> state_store" where
  "seed_value ns key writer payload s =
     (let (v, s1) = validate_write ns key writer payload s in
      if \<not> accepted v then (v, s1)
      else let e = entry_or_fresh s1 ns key in
        (accept, put_entry ns key (e\<lparr>st_current := payload, st_pending := None, st_writer := writer,
                   st_version := st_version e + 1\<rparr>) s1))"

definition stage_write ::
    "string \<Rightarrow> string \<Rightarrow> string \<Rightarrow> payload_ptr \<Rightarrow> state_store \<Rightarrow> publish_result \<times> state_store" where
  "stage_write ns key writer payload s =
     (let (v, s1) = validate_write ns key writer payload s in
      if \<not> accepted v then (v, s1)
      else let e = entry_or_fresh s1 ns key in
        (accept, upd_sm (\<lambda>x. x\<lparr>sm_staged_write_count := sm_staged_write_count x + 1\<rparr>)
                   (put_entry ns key (e\<lparr>st_pending := payload, st_writer := writer\<rparr>) s1)))"

definition commit_entry :: "state_entry \<Rightarrow> state_entry" where
  "commit_entry e =
     (if st_pending e = None then e
      else e\<lparr>st_current := st_pending e, st_pending := None, st_version := st_version e + 1\<rparr>)"

definition count_entries :: "(state_entry \<Rightarrow> bool) \<Rightarrow> state_store \<Rightarrow> nat" where
  "count_entries P s = sum_list (map (\<lambda>(ns, m). length (filter (\<lambda>(k, e). P e) m)) (namespaces s))"

definition current_value_count :: "state_store \<Rightarrow> nat" where
  "current_value_count s = count_entries (\<lambda>e. st_current e \<noteq> None) s"

definition state_commit_epoch_boundary :: "state_store \<Rightarrow> nat \<times> state_store" where
  "state_commit_epoch_boundary s =
     (let committed = count_entries (\<lambda>e. st_pending e \<noteq> None) s;
          s1 = s\<lparr>namespaces := smap_map (\<lambda>ns m. smap_map (\<lambda>k e. commit_entry e) m) (namespaces s)\<rparr>
      in (committed,
          upd_sm (\<lambda>x. x\<lparr>sm_epoch := sm_epoch x + 1, sm_committed_write_count := sm_committed_write_count x + committed,
            sm_namespace_count := length (namespaces s1), sm_current_value_count := current_value_count s1\<rparr>) s1))"

definition state_snapshot_of :: "string \<Rightarrow> state_store \<Rightarrow> state_snapshot \<times> state_store" where
  "state_snapshot_of ns s =
     (let s1 = upd_sm (\<lambda>x. x\<lparr>sm_snapshot_read_count := sm_snapshot_read_count x + 1\<rparr>) s in
      (\<lparr>snap_name_space = ns, snap_epoch = sm_epoch (ss_metrics s1),
        snap_values =
          (case map_of (namespaces s1) ns of
             None \<Rightarrow> []
           | Some m \<Rightarrow> fold (\<lambda>(k, e) acc. if st_current e \<noteq> None then smap_put k (st_current e) acc else acc) m [])\<rparr>, s1))"

definition state_read :: "string \<Rightarrow> string \<Rightarrow> state_store \<Rightarrow> payload_ptr \<times> state_store" where
  "state_read ns key s = (let (sn, s1) = state_snapshot_of ns s in (snapshot_get sn key, s1))"

definition state_metrics_of :: "state_store \<Rightarrow> state_metrics" where
  "state_metrics_of s =
     (ss_metrics s)\<lparr>sm_namespace_count := length (namespaces s), sm_current_value_count := current_value_count s\<rparr>"

section \<open>Configuration snapshot store\<close>

record config_update_result =
  cu_accepted :: bool
  cu_reason :: string
  cu_transaction_id :: nat

record config_transaction =
  ct_transaction_id :: nat
  ct_version :: nat
  ct_epoch :: nat
  ct_applied_at :: int
  ct_applied_components :: "string list"

record config_metrics =
  cm_epoch :: nat
  cm_version :: nat
  cm_last_transaction_id :: nat
  cm_component_config_count :: nat
  cm_staged_update_count :: nat
  cm_committed_update_count :: nat
  cm_immediate_update_count :: nat
  cm_rejected_update_count :: nat
  cm_rolled_back_update_count :: nat
  cm_snapshot_read_count :: nat

record config_store =
  cs_graph_config :: config_view
  cs_component_configs :: "(string, config_view) smap"
  cs_pending :: "(string, config_view) smap"
  cs_next_transaction_id :: nat
  cs_pending_transaction_id :: nat
  cs_last_transaction :: config_transaction
  cs_metrics :: config_metrics

definition empty_config_store :: config_store where
  "empty_config_store =
     \<lparr>cs_graph_config = empty_config_view, cs_component_configs = [], cs_pending = [], cs_next_transaction_id = 1,
      cs_pending_transaction_id = 0,
      cs_last_transaction = \<lparr>ct_transaction_id = 0, ct_version = 0, ct_epoch = 0, ct_applied_at = 0, ct_applied_components = []\<rparr>,
      cs_metrics = \<lparr>cm_epoch = 0, cm_version = 0, cm_last_transaction_id = 0, cm_component_config_count = 0,
        cm_staged_update_count = 0, cm_committed_update_count = 0, cm_immediate_update_count = 0,
        cm_rejected_update_count = 0, cm_rolled_back_update_count = 0, cm_snapshot_read_count = 0\<rparr>\<rparr>"

definition upd_cm :: "(config_metrics \<Rightarrow> config_metrics) \<Rightarrow> config_store \<Rightarrow> config_store" where
  "upd_cm f s = s\<lparr>cs_metrics := f (cs_metrics s)\<rparr>"

definition set_graph_config :: "config_view \<Rightarrow> config_store \<Rightarrow> config_store" where
  "set_graph_config c s = s\<lparr>cs_graph_config := c\<rparr>"

definition set_component_config :: "string \<Rightarrow> config_view \<Rightarrow> config_store \<Rightarrow> config_store" where
  "set_component_config cid c s =
     (let s1 = s\<lparr>cs_component_configs := smap_put cid c (cs_component_configs s)\<rparr>
      in upd_cm (\<lambda>x. x\<lparr>cm_component_config_count := length (cs_component_configs s1)\<rparr>) s1)"

definition graph_config :: "config_store \<Rightarrow> config_view \<times> config_store" where
  "graph_config s = (cs_graph_config s, upd_cm (\<lambda>x. x\<lparr>cm_snapshot_read_count := cm_snapshot_read_count x + 1\<rparr>) s)"

definition component_config :: "string \<Rightarrow> config_store \<Rightarrow> config_view \<times> config_store" where
  "component_config cid s =
     (case map_of (cs_component_configs s) cid of None \<Rightarrow> empty_config_view | Some c \<Rightarrow> c,
      upd_cm (\<lambda>x. x\<lparr>cm_snapshot_read_count := cm_snapshot_read_count x + 1\<rparr>) s)"

text \<open>The reading of the system clock is the argument \<open>now\<close>.\<close>

definition stage_component_config_update ::
    "string \<Rightarrow> config_view \<Rightarrow> bool \<Rightarrow> int \<Rightarrow> config_store \<Rightarrow> config_update_result \<times> config_store" where
  "stage_component_config_update cid c on_boundary now s =
     (if cid = [] then
        (\<lparr>cu_accepted = False, cu_reason = ''component id must not be empty'', cu_transaction_id = 0\<rparr>,
         upd_cm (\<lambda>x. x\<lparr>cm_rejected_update_count := cm_rejected_update_count x + 1\<rparr>) s)
      else if on_boundary then
        (let s1 = (if cs_pending_transaction_id s = 0
                   then s\<lparr>cs_pending_transaction_id := cs_next_transaction_id s,
                          cs_next_transaction_id := cs_next_transaction_id s + 1\<rparr>
                   else s);
             s2 = s1\<lparr>cs_pending := smap_put cid c (cs_pending s1)\<rparr>
         in (\<lparr>cu_accepted = True, cu_reason = [], cu_transaction_id = cs_pending_transaction_id s2\<rparr>,
             upd_cm (\<lambda>x. x\<lparr>cm_staged_update_count := cm_staged_update_count x + 1\<rparr>) s2))
      else
        (let s1 = s\<lparr>cs_component_configs := smap_put cid c (cs_component_configs s)\<rparr>;
             s2 = upd_cm (\<lambda>x. x\<lparr>cm_component_config_count := length (cs_component_configs s1),
                     cm_immediate_update_count := cm_immediate_update_count x + 1, cm_version := cm_version x + 1\<rparr>) s1;
             tid = cs_next_transaction_id s2;
             s3 = s2\<lparr>cs_next_transaction_id := tid + 1,
                     cs_last_transaction := \<lparr>ct_transaction_id = tid, ct_version = cm_version (cs_metrics s2),
                       ct_epoch = cm_epoch (cs_metrics s2), ct_applied_at = now, ct_applied_components = [cid]\<rparr>\<rparr>
         in (\<lparr>cu_accepted = True, cu_reason = [], cu_transaction_id = tid\<rparr>,
             upd_cm (\<lambda>x. x\<lparr>cm_last_transaction_id := tid\<rparr>) s3)))"

definition pending_component_config_updates :: "config_store \<Rightarrow> (string, config_view) smap" where
  "pending_component_config_updates s = cs_pending s"

definition rollback_pending_updates :: "config_store \<Rightarrow> nat \<times> config_store" where
  "rollback_pending_updates s =
     (let n = length (cs_pending s) in
      (n, upd_cm (\<lambda>x. x\<lparr>cm_rolled_back_update_count := cm_rolled_back_update_count x + n,
                       cm_rejected_update_count := cm_rejected_update_count x + n\<rparr>)
            (s\<lparr>cs_pending := [], cs_pending_transaction_id := 0\<rparr>)))"

definition config_commit_epoch_boundary :: "int \<Rightarrow> config_store \<Rightarrow> nat \<times> config_store" where
  "config_commit_epoch_boundary now s =
     (let n = length (cs_pending s);
          applied = map fst (cs_pending s);
          s1 = s\<lparr>cs_component_configs := fold (\<lambda>(cid, c). smap_put cid c) (cs_pending s) (cs_component_configs s),
                 cs_pending := []\<rparr>;
          s2 = upd_cm (\<lambda>x. x\<lparr>cm_epoch := cm_epoch x + 1, cm_committed_update_count := cm_committed_update_count x + n,
                 cm_component_config_count := length (cs_component_configs s1)\<rparr>) s1
      in (n,
          if n \<noteq> 0 then
            (let s3 = upd_cm (\<lambda>x. x\<lparr>cm_version := cm_version x + 1\<rparr>) s2;
                 tid = cs_pending_transaction_id s3
             in upd_cm (\<lambda>x. x\<lparr>cm_last_transaction_id := tid\<rparr>)
                  (s3\<lparr>cs_last_transaction := \<lparr>ct_transaction_id = tid, ct_version = cm_version (cs_metrics s3),
                        ct_epoch = cm_epoch (cs_metrics s3), ct_applied_at = now, ct_applied_components = applied\<rparr>,
                      cs_pending_transaction_id := 0\<rparr>))
          else s2))"

definition last_transaction :: "config_store \<Rightarrow> config_transaction" where
  "last_transaction s = cs_last_transaction s"

definition config_metrics_of :: "config_store \<Rightarrow> config_metrics" where
  "config_metrics_of s = (cs_metrics s)\<lparr>cm_component_config_count := length (cs_component_configs s)\<rparr>"

section \<open>The state store is an epoch store\<close>

definition state_wf :: "state_store \<Rightarrow> bool" where
  "state_wf s \<longleftrightarrow> smap_wf (namespaces s) \<and> (\<forall>(ns, m) \<in> set (namespaces s). smap_wf m)"

definition current_of :: "state_store \<Rightarrow> string \<times> string \<Rightarrow> runtime_payload option" where
  "current_of s k = (case find_entry s (fst k) (snd k) of None \<Rightarrow> None | Some e \<Rightarrow> st_current e)"

definition pending_of :: "state_store \<Rightarrow> string \<times> string \<Rightarrow> runtime_payload option" where
  "pending_of s k = (case find_entry s (fst k) (snd k) of None \<Rightarrow> None | Some e \<Rightarrow> st_pending e)"

definition writer_of :: "state_store \<Rightarrow> string \<times> string \<Rightarrow> string" where
  "writer_of s k = (case find_entry s (fst k) (snd k) of None \<Rightarrow> [] | Some e \<Rightarrow> st_writer e)"

lemma find_entry_put [simp]:
  "find_entry (put_entry ns key e s) ns' key' = (if ns' = ns \<and> key' = key then Some e else find_entry s ns' key')"
  by (auto simp: find_entry_def put_entry_def smap_get_def split: option.splits)

lemma find_entry_upd_sm [simp]: "find_entry (upd_sm f s) = find_entry s"
  by (simp add: find_entry_def upd_sm_def fun_eq_iff)

lemma find_entry_commit:
  "find_entry (snd (state_commit_epoch_boundary s)) ns key = map_option commit_entry (find_entry s ns key)"
  by (simp add: state_commit_epoch_boundary_def Let_def find_entry_def upd_sm_def map_of_smap_map split: option.split)

lemma state_wf_upd_sm [simp]: "state_wf (upd_sm f s) = state_wf s"
  by (simp add: state_wf_def upd_sm_def)

lemma state_wf_put [simp]: "state_wf s \<Longrightarrow> state_wf (put_entry ns key e s)"
proof -
  assume wf: "state_wf s"
  then have "smap_wf (smap_get [] (namespaces s) ns)"
    by (auto simp: smap_get_def state_wf_def split: option.split dest: map_of_SomeD)
  with wf show ?thesis
    using set_smap_put [of ns "smap_put key e (smap_get [] (namespaces s) ns)" "namespaces s"]
    by (auto simp: state_wf_def put_entry_def)
qed

lemma state_wf_commit [simp]: "state_wf s \<Longrightarrow> state_wf (snd (state_commit_epoch_boundary s))"
  by (auto simp: state_wf_def state_commit_epoch_boundary_def Let_def upd_sm_def) (auto simp: smap_map_def [where m = "namespaces s"])

text \<open>Validation changes the rejection counter at most, and accepts exactly the writes below.\<close>

definition write_ok :: "string \<times> string \<Rightarrow> string \<times> payload_ptr \<Rightarrow> state_store \<Rightarrow> bool" where
  "write_ok k a s \<longleftrightarrow> fst k \<noteq> [] \<and> snd k \<noteq> [] \<and> fst a \<noteq> [] \<and> snd a \<noteq> None \<and> writer_of s k \<in> {[], fst a}"

definition count_rejected :: "state_store \<Rightarrow> state_store" where
  "count_rejected = upd_sm (\<lambda>x. x\<lparr>sm_rejected_write_count := sm_rejected_write_count x + 1\<rparr>)"

lemma validate_write_ok: "write_ok (ns, key) (w, p) s \<Longrightarrow> validate_write ns key w p s = (accept, s)"
  by (auto simp: validate_write_def Let_def write_ok_def writer_of_def split: option.splits)

lemma validate_write_refused:
  "\<not> write_ok (ns, key) (w, p) s \<Longrightarrow>
     \<not> accepted (fst (validate_write ns key w p s)) \<and> snd (validate_write ns key w p s) = count_rejected s"
  by (auto simp: validate_write_def Let_def write_ok_def writer_of_def count_rejected_def split: option.splits)

lemma stage_write_ok:
  "write_ok (ns, key) (w, p) s \<Longrightarrow> stage_write ns key w p s =
     (accept, upd_sm (\<lambda>x. x\<lparr>sm_staged_write_count := sm_staged_write_count x + 1\<rparr>)
        (put_entry ns key ((entry_or_fresh s ns key)\<lparr>st_pending := p, st_writer := w\<rparr>) s))"
  by (simp add: stage_write_def validate_write_ok Let_def)

lemma stage_write_refused:
  "\<not> write_ok (ns, key) (w, p) s \<Longrightarrow>
     \<not> accepted (fst (stage_write ns key w p s)) \<and> snd (stage_write ns key w p s) = count_rejected s"
  using validate_write_refused [of ns key w p s] by (auto simp: stage_write_def split: prod.split)

lemma seed_value_ok:
  "write_ok (ns, key) (w, p) s \<Longrightarrow> seed_value ns key w p s =
     (accept, put_entry ns key ((entry_or_fresh s ns key)\<lparr>st_current := p, st_pending := None, st_writer := w,
        st_version := st_version (entry_or_fresh s ns key) + 1\<rparr>) s)"
  by (simp add: seed_value_def validate_write_ok Let_def)

lemma seed_value_refused:
  "\<not> write_ok (ns, key) (w, p) s \<Longrightarrow>
     \<not> accepted (fst (seed_value ns key w p s)) \<and> snd (seed_value ns key w p s) = count_rejected s"
  using validate_write_refused [of ns key w p s] by (auto simp: seed_value_def split: prod.split)

lemmas of_defs = current_of_def pending_of_def writer_of_def

lemma of_count_rejected [simp]:
  "current_of (count_rejected s) = current_of s" "pending_of (count_rejected s) = pending_of s"
  "writer_of (count_rejected s) = writer_of s" "state_wf (count_rejected s) = state_wf s"
  by (simp_all add: fun_eq_iff of_defs count_rejected_def)

lemma of_upd_sm [simp]:
  "current_of (upd_sm f s) = current_of s" "pending_of (upd_sm f s) = pending_of s" "writer_of (upd_sm f s) = writer_of s"
  by (simp_all add: fun_eq_iff of_defs)

lemma of_put_entry [simp]:
  "current_of (put_entry ns key e s) = (current_of s)((ns, key) := st_current e)"
  "pending_of (put_entry ns key e s) = (pending_of s)((ns, key) := st_pending e)"
  "writer_of (put_entry ns key e s) = (writer_of s)((ns, key) := st_writer e)"
  by (auto simp: fun_eq_iff of_defs)

lemma of_entry_or_fresh [simp]:
  "st_current (entry_or_fresh s ns key) = current_of s (ns, key)"
  "st_pending (entry_or_fresh s ns key) = pending_of s (ns, key)"
  "st_writer (entry_or_fresh s ns key) = writer_of s (ns, key)"
  by (simp_all add: of_defs entry_or_fresh_def fresh_entry_def split: option.split)

lemma of_commit:
  "current_of (snd (state_commit_epoch_boundary s)) = current_of s ++ pending_of s"
  "pending_of (snd (state_commit_epoch_boundary s)) = Map.empty"
  "writer_of (snd (state_commit_epoch_boundary s)) = writer_of s"
  by (auto simp: fun_eq_iff of_defs find_entry_commit commit_entry_def map_add_def split: option.split)

definition stage_at :: "string \<times> string \<Rightarrow> string \<times> payload_ptr \<Rightarrow> state_store \<Rightarrow> state_store" where
  "stage_at k a s = snd (stage_write (fst k) (snd k) (fst a) (snd a) s)"

lemma stage_at_cases:
  "stage_at k a s =
     (if write_ok k a s
      then upd_sm (\<lambda>x. x\<lparr>sm_staged_write_count := sm_staged_write_count x + 1\<rparr>)
        (put_entry (fst k) (snd k) ((entry_or_fresh s (fst k) (snd k))\<lparr>st_pending := snd a, st_writer := fst a\<rparr>) s)
      else count_rejected s)"
  using stage_write_ok [of "fst k" "snd k" "fst a" "snd a" s] stage_write_refused [of "fst k" "snd k" "fst a" "snd a" s]
  by (simp add: stage_at_def)

interpretation state_epochs: epoch_store current_of pending_of stage_at "\<lambda>a. the (snd a)" write_ok
  "\<lambda>s. snd (state_commit_epoch_boundary s)" state_wf
proof unfold_locales
  fix s k a
  show "current_of (stage_at k a s) = current_of s"
    by (cases k) (simp add: stage_at_cases)
  show "pending_of (stage_at k a s) = (if write_ok k a s then (pending_of s)(k \<mapsto> the (snd a)) else pending_of s)"
    by (cases k) (auto simp: stage_at_cases write_ok_def)
  show "current_of (snd (state_commit_epoch_boundary s)) = current_of s ++ pending_of s" by (rule of_commit)
  show "pending_of (snd (state_commit_epoch_boundary s)) = Map.empty" by (rule of_commit)
  assume "state_wf s"
  then show "state_wf (stage_at k a s)" by (simp add: stage_at_cases)
  from \<open>state_wf s\<close> show "state_wf (snd (state_commit_epoch_boundary s))" by simp
qed

section \<open>Reading\<close>

lemma fold_present_map_of:
  "distinct (map fst m) \<Longrightarrow>
   map_of (fold (\<lambda>(k, e) acc. if st_current e \<noteq> None then smap_put k (st_current e) acc else acc) m acc) k =
     (case map_of m k of Some e \<Rightarrow> if st_current e \<noteq> None then Some (st_current e) else map_of acc k | None \<Rightarrow> map_of acc k)"
proof (induction m arbitrary: acc)
  case (Cons x m)
  obtain k' e where x: "x = (k', e)" by fastforce
  from Cons.prems have "map_of m k' = None" by (simp add: x map_of_eq_None_iff)
  with Cons show ?case by (auto simp: x split: option.splits)
qed simp

lemma state_read_current: "state_wf s \<Longrightarrow> fst (state_read ns key s) = current_of s (ns, key)"
proof -
  assume wf: "state_wf s"
  show ?thesis
  proof (cases "map_of (namespaces s) ns")
    case None
    then show ?thesis
      by (simp add: state_read_def state_snapshot_of_def Let_def upd_sm_def snapshot_get_def current_of_def find_entry_def)
  next
    case (Some m)
    with wf have "distinct (map fst m)"
      by (auto simp: state_wf_def dest!: map_of_SomeD intro: smap_wf_distinct)
    from fold_present_map_of [OF this, of "[]" key] Some show ?thesis
      by (auto simp: state_read_def state_snapshot_of_def Let_def upd_sm_def snapshot_get_def current_of_def find_entry_def
          split: option.splits if_splits)
  qed
qed

lemma state_read_frame: "snd (state_read ns key s) = upd_sm (\<lambda>x. x\<lparr>sm_snapshot_read_count := sm_snapshot_read_count x + 1\<rparr>) s"
  by (simp add: state_read_def state_snapshot_of_def Let_def)

section \<open>Runs of the state store\<close>

datatype state_op =
    SeedValue string string string payload_ptr
  | StageWrite string string string payload_ptr
  | StateCommit
  | StateRead string string

text \<open>An operation and the write it had accepted: its namespace, key and writer.\<close>

fun state_exec :: "state_op \<Rightarrow> state_store \<Rightarrow> ((string \<times> string) \<times> string) list \<times> state_store" where
  "state_exec (SeedValue ns key w p) s =
     (let (r, s1) = seed_value ns key w p s in (if accepted r then [((ns, key), w)] else [], s1))"
| "state_exec (StageWrite ns key w p) s =
     (let (r, s1) = stage_write ns key w p s in (if accepted r then [((ns, key), w)] else [], s1))"
| "state_exec StateCommit s = ([], snd (state_commit_epoch_boundary s))"
| "state_exec (StateRead ns key) s = ([], snd (state_read ns key s))"

fun state_run :: "state_op list \<Rightarrow> state_store \<Rightarrow> ((string \<times> string) \<times> string) list \<times> state_store" where
  "state_run [] s = ([], s)"
| "state_run (op # ops) s = (let (l, s1) = state_exec op s; (l', s2) = state_run ops s1 in (l @ l', s2))"

text \<open>What an operation does to the store: one lemma for the four operations, on which the run lemmas rest.\<close>

lemma state_exec_effect:
  assumes "state_wf s" and "state_exec op s = (l, t)"
  shows "state_wf t" and "(k, w) \<in> set l \<Longrightarrow> writer_of t k = w \<and> w \<noteq> []"
    and "writer_of s k \<noteq> [] \<Longrightarrow> writer_of t k = writer_of s k"
proof -
  have seed: "state_wf t \<and> ((k, w) \<in> set l \<longrightarrow> writer_of t k = w \<and> w \<noteq> []) \<and>
      (writer_of s k \<noteq> [] \<longrightarrow> writer_of t k = writer_of s k)"
    if "op = SeedValue ns key u p" for ns key u p
    using assms that seed_value_refused [of ns key u p s]
    by (cases "write_ok (ns, key) (u, p) s") (auto simp: seed_value_ok write_ok_def split: prod.splits)
  have staging: "state_wf t \<and> ((k, w) \<in> set l \<longrightarrow> writer_of t k = w \<and> w \<noteq> []) \<and>
      (writer_of s k \<noteq> [] \<longrightarrow> writer_of t k = writer_of s k)"
    if "op = StageWrite ns key u p" for ns key u p
    using assms that stage_write_refused [of ns key u p s]
    by (cases "write_ok (ns, key) (u, p) s") (auto simp: stage_write_ok write_ok_def split: prod.splits)
  have "state_wf t \<and> ((k, w) \<in> set l \<longrightarrow> writer_of t k = w \<and> w \<noteq> []) \<and>
      (writer_of s k \<noteq> [] \<longrightarrow> writer_of t k = writer_of s k)"
    using assms seed staging by (cases op) (auto simp: of_commit state_read_frame)
  then show "state_wf t" and "(k, w) \<in> set l \<Longrightarrow> writer_of t k = w \<and> w \<noteq> []"
    and "writer_of s k \<noteq> [] \<Longrightarrow> writer_of t k = writer_of s k" by simp_all
qed

lemma state_run_effect:
  assumes "state_wf s" and "state_run ops s = (l, t)"
  shows "state_wf t \<and> (\<forall>k w. (k, w) \<in> set l \<longrightarrow> writer_of t k = w \<and> w \<noteq> []) \<and>
    (\<forall>k. writer_of s k \<noteq> [] \<longrightarrow> writer_of t k = writer_of s k)"
  using assms
proof (induction ops arbitrary: s l)
  case (Cons op ops)
  obtain l1 s1 where e: "state_exec op s = (l1, s1)" by fastforce
  obtain l2 where r: "state_run ops s1 = (l2, t)" and l: "l = l1 @ l2"
    using Cons.prems(2) e by (auto split: prod.splits)
  note eff = state_exec_effect [OF Cons.prems(1) e]
  note ih = Cons.IH [OF eff(1) r]
  show ?case
  proof (intro conjI allI impI)
    show "state_wf t" using ih by simp
    fix k
    show "writer_of t k = writer_of s k" if "writer_of s k \<noteq> []" using that eff(3) ih by metis
    fix w assume "(k, w) \<in> set l"
    then consider "(k, w) \<in> set l1" | "(k, w) \<in> set l2" by (auto simp: l)
    then show "writer_of t k = w" and "w \<noteq> []" using eff(2) ih by (cases; metis)+
  qed
qed simp

lemma state_wf_empty [simp]: "state_wf empty_state_store"
  by (simp add: state_wf_def empty_state_store_def)

text \<open>C35.
  Every state key has one writer. Over any run of seeds, staged writes, epoch boundaries and reads on a new store,
  all writes of a key that were accepted came from the same non-empty writer. The store refuses every later
  seed or staged write of that key by another writer, with a reason that names the owner when the write is otherwise
  complete; the refused write changes nothing in the store but the count of rejected writes, so neither the
  visible nor the staged value of any key nor its owner.
\<close>

theorem state_single_writer:
  assumes "state_run ops empty_state_store = (l, s)" and "((ns, key), w) \<in> set l"
  shows "(\<forall>w'. ((ns, key), w') \<in> set l \<longrightarrow> w' = w) \<and>
    (\<forall>w' p op. w' \<noteq> w \<and> op \<in> {seed_value ns key w' p, stage_write ns key w' p} \<longrightarrow>
      \<not> accepted (fst (op s)) \<and>
      snd (op s) = upd_sm (\<lambda>m. m\<lparr>sm_rejected_write_count := sm_rejected_write_count m + 1\<rparr>) s \<and>
      (current_of (snd (op s)), pending_of (snd (op s)), writer_of (snd (op s))) = (current_of s, pending_of s, writer_of s) \<and>
      (ns \<noteq> [] \<and> key \<noteq> [] \<and> w' \<noteq> [] \<and> p \<noteq> None \<longrightarrow>
         fst (op s) = reject (''state key '' @ ns @ ''.'' @ key @ '' already has writer '' @ w)))"
proof (rule conjI; intro allI impI)
  note eff = state_run_effect [OF state_wf_empty assms(1)]
  then have own: "writer_of s (ns, key) = w" "w \<noteq> []" using assms(2) by blast+
  show "w' = w" if "((ns, key), w') \<in> set l" for w' using that own eff by blast
  fix w' p op assume op: "w' \<noteq> w \<and> op \<in> {seed_value ns key w' p, stage_write ns key w' p}"
  then have no: "\<not> write_ok (ns, key) (w', p) s" using own by (auto simp: write_ok_def)
  have rej: "\<not> accepted (fst (op s)) \<and> snd (op s) = count_rejected s"
    using op stage_write_refused [OF no] seed_value_refused [OF no] by auto
  have msg: "fst (op s) = reject (''state key '' @ ns @ ''.'' @ key @ '' already has writer '' @ w)"
    if "ns \<noteq> []" "key \<noteq> []" "w' \<noteq> []" "p \<noteq> None"
    using that own op
    by (auto simp: stage_write_def seed_value_def validate_write_def Let_def writer_of_def split: option.splits)
  show "\<not> accepted (fst (op s)) \<and>
      snd (op s) = upd_sm (\<lambda>m. m\<lparr>sm_rejected_write_count := sm_rejected_write_count m + 1\<rparr>) s \<and>
      (current_of (snd (op s)), pending_of (snd (op s)), writer_of (snd (op s))) = (current_of s, pending_of s, writer_of s) \<and>
      (ns \<noteq> [] \<and> key \<noteq> [] \<and> w' \<noteq> [] \<and> p \<noteq> None \<longrightarrow>
         fst (op s) = reject (''state key '' @ ns @ ''.'' @ key @ '' already has writer '' @ w))"
    using rej msg by (auto simp: count_rejected_def)
qed

definition demo_state_ops :: "state_op list" where
  "demo_state_ops =
     [StageWrite ''pose'' ''x'' ''a.out'' (Some (make_text_payload ''1'' [])), StateCommit,
      StageWrite ''pose'' ''x'' ''b.out'' (Some (make_text_payload ''2'' [])),
      StageWrite ''pose'' ''x'' ''a.out'' (Some (make_text_payload ''3'' []))]"

theorem state_single_writer_witness:
  "fst (state_run demo_state_ops empty_state_store) = [((''pose'', ''x''), ''a.out''), ((''pose'', ''x''), ''a.out'')] \<and>
   (let s = snd (state_run demo_state_ops empty_state_store); r = stage_write ''pose'' ''x'' ''b.out'' (Some (make_text_payload ''2'' [])) s;
        r' = seed_value ''pose'' ''x'' ''b.out'' (Some (make_text_payload ''2'' [])) s in
      fst r = reject ''state key pose.x already has writer a.out'' \<and> fst r' = fst r \<and>
      pending_of (snd r) = pending_of s \<and> pending_of (snd r') = pending_of s \<and>
      current_of (snd r') = current_of s)"
proof -
  let ?s = "snd (state_run demo_state_ops empty_state_store)"
  have l: "fst (state_run demo_state_ops empty_state_store) = [((''pose'', ''x''), ''a.out''), ((''pose'', ''x''), ''a.out'')]"
    by code_simp
  then have r: "state_run demo_state_ops empty_state_store =
      ([((''pose'', ''x''), ''a.out''), ((''pose'', ''x''), ''a.out'')], ?s)"
    by (metis prod.collapse)
  have in_log: "((''pose'', ''x''), ''a.out'') \<in> set [((''pose'', ''x''), ''a.out''), ((''pose'', ''x''), ''a.out'')]" by simp
  from state_single_writer [OF r in_log] have
    all: "\<forall>w' p op. w' \<noteq> ''a.out'' \<and> op \<in> {seed_value ''pose'' ''x'' w' p, stage_write ''pose'' ''x'' w' p} \<longrightarrow>
      (current_of (snd (op ?s)), pending_of (snd (op ?s))) = (current_of ?s, pending_of ?s) \<and>
      (w' \<noteq> [] \<and> p \<noteq> None \<longrightarrow> fst (op ?s) = reject ''state key pose.x already has writer a.out'')" by simp
  let ?p = "Some (make_text_payload ''2'' [])"
  have "''b.out'' \<noteq> ''a.out''" by simp
  with all [rule_format, of "''b.out''" "seed_value ''pose'' ''x'' ''b.out'' ?p" ?p]
    all [rule_format, of "''b.out''" "stage_write ''pose'' ''x'' ''b.out'' ?p" ?p] l
  show ?thesis by (simp add: Let_def)
qed

text \<open>Staged state writes are invisible until the epoch boundary and take effect together. From any reachable store,
  after any sequence of staged writes every read returns what it returned before; after the commit a read of a
  key returns the last of these writes that was accepted, else the value that was already staged, else the old value.
\<close>

lemma state_epoch_isolation:
  assumes "state_run ops empty_state_store = (l, s)" and "s' = fold (\<lambda>x. stage_at (fst x) (snd x)) ws s"
  shows "fst (state_read ns key s') = fst (state_read ns key s) \<and>
    fst (state_read ns key (snd (state_commit_epoch_boundary s'))) =
      (case map_of (rev (admitted_by write_ok stage_at (\<lambda>a. the (snd a)) ws s)) (ns, key) of
         Some p \<Rightarrow> Some p
       | None \<Rightarrow> (case pending_of s (ns, key) of Some p \<Rightarrow> Some p | None \<Rightarrow> fst (state_read ns key s)))"
proof -
  have wf: "state_wf s" using state_run_effect [OF state_wf_empty assms(1)] by simp
  have wf': "state_wf s'" unfolding assms(2) by (rule state_epochs.invar_writes [OF wf])
  have "current_of s' = current_of s" using state_epochs.visible_writes [OF wf, of ws] by (simp add: assms(2))
  moreover have "current_of (snd (state_commit_epoch_boundary s')) = (current_of s ++ pending_of s) ++
      map_of (rev (admitted_by write_ok stage_at (\<lambda>a. the (snd a)) ws s))"
    using state_epochs.epoch_effect [OF wf, of ws] by (simp add: assms(2))
  ultimately show ?thesis using wf wf' by (simp add: state_read_current map_add_def split: option.splits)
qed

lemma state_epoch_isolation_witness:
  "fst (state_read ''pose'' ''x'' (snd (state_run demo_state_ops empty_state_store))) = Some (make_text_payload ''1'' []) \<and>
   fst (state_read ''pose'' ''x'' (snd (state_commit_epoch_boundary (snd (state_run demo_state_ops empty_state_store))))) =
     Some (make_text_payload ''3'' [])"
proof -
  obtain l s where r: "state_run demo_state_ops empty_state_store = (l, s)" by fastforce
  have "snd (state_run demo_state_ops empty_state_store) = s" using r by simp
  moreover have "fst (state_read ''pose'' ''x'' (snd (state_run demo_state_ops empty_state_store))) = Some (make_text_payload ''1'' [])"
    and "pending_of (snd (state_run demo_state_ops empty_state_store)) (''pose'', ''x'') = Some (make_text_payload ''3'' [])"
    by code_simp+
  ultimately show ?thesis using state_epoch_isolation [OF r, of s "[]" "''pose''" "''x''"] by simp
qed

section \<open>The configuration store is an epoch store\<close>

definition config_wf :: "config_store \<Rightarrow> bool" where
  "config_wf s \<longleftrightarrow> smap_wf (cs_component_configs s) \<and> smap_wf (cs_pending s) \<and>
     (cs_pending s = [] \<longleftrightarrow> cs_pending_transaction_id s = 0) \<and>
     cs_pending_transaction_id s < cs_next_transaction_id s \<and>
     ct_transaction_id (cs_last_transaction s) < cs_next_transaction_id s \<and>
     cm_last_transaction_id (cs_metrics s) = ct_transaction_id (cs_last_transaction s)"

definition stage_config :: "string \<Rightarrow> config_view \<Rightarrow> config_store \<Rightarrow> config_store" where
  "stage_config cid c s = snd (stage_component_config_update cid c True 0 s)"

text \<open>A staged update ignores the clock: it only reads it when it applies at once.\<close>

lemma stage_config_clock: "stage_component_config_update cid c True now s = stage_component_config_update cid c True 0 s"
  by (simp add: stage_component_config_update_def)

lemma smap_put_neq_Nil [simp]: "smap_put k v m \<noteq> []"
  by (cases m) auto

lemma smap_wf_fold_put: "smap_wf m \<Longrightarrow> smap_wf (fold (\<lambda>(k, v). smap_put k v) kvs m)"
  by (rule std_map.invar_fold_assign)

lemma map_of_rev_wf: "smap_wf m \<Longrightarrow> map_of (rev m) = map_of m"
  using map_of_eqI [of "rev m" m] by (metis distinct_rev map_of_inject_set rev_map set_rev smap_wf_distinct)

lemma map_of_fold_put:
  assumes "smap_wf m" and "smap_wf p"
  shows "map_of (fold (\<lambda>(k, v). smap_put k v) p m) = map_of m ++ map_of p"
  using std_map.find_fold_assign [OF assms(1), of p] assms(2)
  by (simp add: fun_eq_iff map_add_def map_of_rev_wf)

lemma config_wf_stage: "config_wf s \<Longrightarrow> config_wf (snd (stage_component_config_update cid c b now s))"
  by (auto simp: config_wf_def stage_component_config_update_def Let_def upd_cm_def)

lemma config_wf_rollback: "config_wf s \<Longrightarrow> config_wf (snd (rollback_pending_updates s))"
  by (auto simp: config_wf_def rollback_pending_updates_def Let_def upd_cm_def)

lemma config_wf_commit: "config_wf s \<Longrightarrow> config_wf (snd (config_commit_epoch_boundary now s))"
  by (auto simp: config_wf_def config_commit_epoch_boundary_def Let_def upd_cm_def smap_wf_fold_put)

interpretation config_epochs: epoch_store "\<lambda>s. map_of (cs_component_configs s)" "\<lambda>s. map_of (cs_pending s)"
  stage_config "\<lambda>c. c" "\<lambda>cid c s. cid \<noteq> []" "\<lambda>s. snd (config_commit_epoch_boundary now s)" config_wf
  for now
proof unfold_locales
  fix s cid c
  assume wf: "config_wf s"
  show "map_of (cs_component_configs (stage_config cid c s)) = map_of (cs_component_configs s)"
    and "map_of (cs_pending (stage_config cid c s)) =
      (if cid \<noteq> [] then (map_of (cs_pending s))(cid \<mapsto> c) else map_of (cs_pending s))"
    by (simp_all add: stage_config_def stage_component_config_update_def Let_def upd_cm_def)
  show "map_of (cs_component_configs (snd (config_commit_epoch_boundary now s))) =
      map_of (cs_component_configs s) ++ map_of (cs_pending s)"
    using wf by (simp add: config_commit_epoch_boundary_def Let_def upd_cm_def config_wf_def map_of_fold_put)
  show "map_of (cs_pending (snd (config_commit_epoch_boundary now s))) = Map.empty"
    by (simp add: config_commit_epoch_boundary_def Let_def upd_cm_def)
  show "config_wf (stage_config cid c s)" using wf unfolding stage_config_def by (rule config_wf_stage)
  show "config_wf (snd (config_commit_epoch_boundary now s))" using wf by (rule config_wf_commit)
qed

section \<open>Runs of the configuration store\<close>

datatype config_op =
    SetGraphConfig config_view
  | SetComponentConfig string config_view
  | GraphConfig
  | ComponentConfig string
  | StageConfig string config_view bool int
  | RollbackConfig
  | CommitConfig int

fun config_exec :: "config_op \<Rightarrow> config_store \<Rightarrow> config_store" where
  "config_exec (SetGraphConfig c) s = set_graph_config c s"
| "config_exec (SetComponentConfig cid c) s = set_component_config cid c s"
| "config_exec GraphConfig s = snd (graph_config s)"
| "config_exec (ComponentConfig cid) s = snd (component_config cid s)"
| "config_exec (StageConfig cid c b now) s = snd (stage_component_config_update cid c b now s)"
| "config_exec RollbackConfig s = snd (rollback_pending_updates s)"
| "config_exec (CommitConfig now) s = snd (config_commit_epoch_boundary now s)"

definition config_run :: "config_op list \<Rightarrow> config_store" where
  "config_run ops = fold config_exec ops empty_config_store"

lemma config_wf_exec: "config_wf s \<Longrightarrow> config_wf (config_exec op s)"
  by (cases op)
    (auto intro: config_wf_stage config_wf_rollback config_wf_commit,
     auto simp: config_wf_def set_graph_config_def set_component_config_def graph_config_def component_config_def Let_def upd_cm_def)

lemma config_wf_run: "config_wf (config_run ops)"
proof -
  have "config_wf s \<Longrightarrow> config_wf (fold config_exec ops s)" for s
    by (induction ops arbitrary: s) (auto intro: config_wf_exec)
  moreover have "config_wf empty_config_store" by (simp add: config_wf_def empty_config_store_def)
  ultimately show ?thesis by (simp add: config_run_def)
qed

text \<open>The transaction that the updates staged from now on belong to.\<close>

definition open_transaction :: "config_store \<Rightarrow> nat" where
  "open_transaction s = (if cs_pending_transaction_id s = 0 then cs_next_transaction_id s else cs_pending_transaction_id s)"

lemma stage_config_transaction:
  assumes "config_wf s" and "cid \<noteq> []"
  shows "cs_pending_transaction_id (stage_config cid c s) = open_transaction s"
    and "open_transaction (stage_config cid c s) = open_transaction s"
  using assms by (auto simp: stage_config_def stage_component_config_update_def Let_def upd_cm_def open_transaction_def config_wf_def)

lemma stage_config_metrics:
  "cm_version (cs_metrics (stage_config cid c s)) = cm_version (cs_metrics s) \<and>
   cs_last_transaction (stage_config cid c s) = cs_last_transaction s"
  by (simp add: stage_config_def stage_component_config_update_def Let_def upd_cm_def)

lemma stage_configs_transaction:
  assumes "config_wf s" and "\<forall>u \<in> set us. fst u \<noteq> []"
  shows "open_transaction (fold (\<lambda>u. stage_config (fst u) (snd u)) us s) = open_transaction s \<and>
    cm_version (cs_metrics (fold (\<lambda>u. stage_config (fst u) (snd u)) us s)) = cm_version (cs_metrics s) \<and>
    (us \<noteq> [] \<longrightarrow> cs_pending_transaction_id (fold (\<lambda>u. stage_config (fst u) (snd u)) us s) = open_transaction s)"
  using assms
proof (induction us arbitrary: s)
  case (Cons u us)
  have wf: "config_wf (stage_config (fst u) (snd u) s)"
    unfolding stage_config_def by (rule config_wf_stage [OF Cons.prems(1)])
  have u: "fst u \<noteq> []" using Cons.prems(2) by simp
  from Cons.IH [OF wf] Cons.prems(2) stage_config_transaction [OF Cons.prems(1) u, of "snd u"] stage_config_metrics
  show ?case by (cases "us = []") simp_all
qed simp

lemma commit_transaction:
  assumes "cs_pending s \<noteq> []"
  shows "last_transaction (snd (config_commit_epoch_boundary now s)) =
    \<lparr>ct_transaction_id = cs_pending_transaction_id s, ct_version = cm_version (cs_metrics s) + 1,
     ct_epoch = cm_epoch (cs_metrics s) + 1, ct_applied_at = now, ct_applied_components = map fst (cs_pending s)\<rparr>"
  using assms by (simp add: config_commit_epoch_boundary_def Let_def upd_cm_def last_transaction_def)

lemma component_config_visible:
  "fst (component_config cid s) = (case map_of (cs_component_configs s) cid of None \<Rightarrow> empty_config_view | Some c \<Rightarrow> c)"
  by (simp add: component_config_def)

text \<open>Configuration updates staged for the epoch boundary form one transaction. From any reachable store, after staging
  any non-empty list of updates (with non-empty component ids) no component sees a changed configuration; a rollback drops them all
  and leaves every configuration as it was; a commit gives every component its last staged update (or one already
  staged), and the recorded transaction carries the id of the transaction that was open (or was opened) when the first of
  them was staged, the next version and exactly the ids of the updated components, in key order.
\<close>

lemma config_transaction_atomic:
  assumes "s = config_run ops" and "us \<noteq> []" and "\<forall>u \<in> set us. fst u \<noteq> []"
    and "t = fold (\<lambda>u. stage_config (fst u) (snd u)) us s"
  shows "fst (component_config cid t) = fst (component_config cid s) \<and>
    fst (component_config cid (snd (rollback_pending_updates t))) = fst (component_config cid s) \<and>
    pending_component_config_updates (snd (rollback_pending_updates t)) = [] \<and>
    fst (component_config cid (snd (config_commit_epoch_boundary now t))) =
      (case map_of (rev us) cid of
         Some c \<Rightarrow> c
       | None \<Rightarrow> (case map_of (pending_component_config_updates s) cid of Some c \<Rightarrow> c | None \<Rightarrow> fst (component_config cid s))) \<and>
    (\<exists>ids. last_transaction (snd (config_commit_epoch_boundary now t)) =
       \<lparr>ct_transaction_id = open_transaction s, ct_version = cm_version (config_metrics_of s) + 1,
        ct_epoch = cm_epoch (cs_metrics t) + 1, ct_applied_at = now, ct_applied_components = ids\<rparr> \<and>
       sorted_wrt (<) ids \<and> set ids = fst ` set us \<union> fst ` set (pending_component_config_updates s))"
proof -
  have wf: "config_wf s" unfolding assms(1) by (rule config_wf_run)
  have wft: "config_wf t" unfolding assms(4) by (rule config_epochs.invar_writes [OF wf])
  have adm: "admitted_by (\<lambda>cid c s. cid \<noteq> []) stage_config (\<lambda>c. c) us x = us" for x
    using assms(3) by (induction us arbitrary: x) auto
  have vis: "map_of (cs_component_configs t) = map_of (cs_component_configs s)"
    unfolding assms(4) by (rule config_epochs.visible_writes [OF wf])
  have pend: "map_of (cs_pending t) = map_of (cs_pending s) ++ map_of (rev us)"
    using config_epochs.staged_writes [OF wf, of us] by (simp add: assms(4) adm)
  have "map_of (cs_component_configs (snd (config_commit_epoch_boundary now t))) =
      (map_of (cs_component_configs s) ++ map_of (cs_pending s)) ++ map_of (rev us)"
    using config_epochs.epoch_effect [OF wf, of now us] by (simp add: assms(4) adm)
  moreover have "cs_component_configs (snd (rollback_pending_updates t)) = cs_component_configs t"
    and "cs_pending (snd (rollback_pending_updates t)) = []"
    by (simp_all add: rollback_pending_updates_def Let_def upd_cm_def)
  moreover have tid: "cs_pending_transaction_id t = open_transaction s" "cm_version (cs_metrics t) = cm_version (cs_metrics s)"
    using stage_configs_transaction [OF wf assms(3)] assms(2,4) by simp_all
  moreover have "set (map fst (cs_pending t)) = fst ` set us \<union> fst ` set (cs_pending s)"
    using arg_cong [OF pend, of dom] by (auto simp: dom_map_of_conv_image_fst)
  moreover have "sorted_wrt (<) (map fst (cs_pending t))" using wft by (simp add: config_wf_def smap_wf_def)
  moreover have "cs_pending t \<noteq> []" using calculation(6) assms(2) by (cases us) auto
  ultimately show ?thesis
    by (auto simp: component_config_visible vis pending_component_config_updates_def map_add_def commit_transaction
        config_metrics_of_def split: option.splits)
qed

definition demo_config :: "string \<Rightarrow> config_view" where
  "demo_config v = \<lparr>cv_values = [(''rate'', v)], cv_nested_values = []\<rparr>"

lemma config_transaction_atomic_witness:
  "fst (component_config ''b'' (snd (config_commit_epoch_boundary 5
     (stage_config ''a'' (demo_config ''2'') (stage_config ''b'' (demo_config ''1'') (config_run [SetComponentConfig ''a'' (demo_config ''0'')]))))))
   = demo_config ''1''"
  using config_transaction_atomic [OF refl, of "[(''b'', demo_config ''1''), (''a'', demo_config ''2'')]" _
      "[SetComponentConfig ''a'' (demo_config ''0'')]" "''b''" 5] by simp

end
