(* ===== verification/Task_Executor.thy ===== *)
theory Task_Executor
  imports Health Payload
begin

text \<open>
  The task executors (\<^verbatim>\<open>src/task_executor.cpp\<close>) and the cancellation tokens they poll
  (\<^verbatim>\<open>include/topoexec/runtime/cancellation.hpp\<close>). A task's work is user code: what it returns or throws and how long
  it runs are data of the task (\<open>task_work\<close>), and an empty \<^verbatim>\<open>std::function\<close> is \<open>None\<close>. Work and completion callbacks
  do not call back into the executor, and work that throws throws a \<^verbatim>\<open>std::exception\<close> (anything else escapes
  \<^verbatim>\<open>run_ready\<close> or ends the program in a worker). \<open>DeterministicTaskExecutor\<close> is a state machine with one
  function per method. \<open>ThreadedTaskExecutor\<close> is a transition system whose steps are the critical
  sections of the caller and of the worker threads: \<open>worker_loop\<close> is cut where it takes and releases the mutex.
  The waits on condition variables are the guards of the worker steps.
  Task ids and counters are natural numbers; the admission capacity is a sum of two configuration values and is taken not to wrap.
\<close>

section \<open>Cancellation tokens\<close>

record cancel_state =
  cancel_has_callback :: bool
  cancel_flag :: bool
  cancel_observed :: nat

type_synonym cancel_token = "cancel_state option"

definition new_cancel_source :: cancel_state where
  "new_cancel_source = \<lparr>cancel_has_callback = False, cancel_flag = False, cancel_observed = 0\<rparr>"

definition from_callback :: cancel_token where
  "from_callback = Some \<lparr>cancel_has_callback = True, cancel_flag = False, cancel_observed = 0\<rparr>"

definition request_cancel :: "cancel_state \<Rightarrow> cancel_state" where
  "request_cancel c = c\<lparr>cancel_flag := True\<rparr>"

text \<open>\<open>answer\<close> is what the callback returns if it is called.\<close>

definition token_requested :: "bool \<Rightarrow> cancel_token \<Rightarrow> bool" where
  "token_requested answer t = (case t of None \<Rightarrow> False | Some c \<Rightarrow> cancel_flag c \<or> (cancel_has_callback c \<and> answer))"

definition cancel_requested :: "bool \<Rightarrow> cancel_token \<Rightarrow> bool \<times> cancel_token" where
  "cancel_requested answer t =
     (if token_requested answer t then (True, map_option (\<lambda>c. c\<lparr>cancel_observed := cancel_observed c + 1\<rparr>) t)
      else (False, t))"

definition observed_count :: "cancel_token \<Rightarrow> nat" where
  "observed_count t = (case t of None \<Rightarrow> 0 | Some c \<Rightarrow> cancel_observed c)"

section \<open>Data\<close>

record task_executor_config =
  max_inflight :: nat
  queue_capacity :: nat
  overflow :: string
  task_budget :: int

record threaded_config = task_executor_config +
  max_workers :: nat
  shutdown_policy :: string

record task_metrics =
  tm_submitted :: nat
  tm_queued :: nat
  tm_active :: nat
  tm_completed :: nat
  tm_cancelled :: nat
  tm_rejected :: nat
  tm_failed :: nat
  tm_cancellation_requested :: nat
  tm_cancellation_observed :: nat
  tm_timeout_budget_exceeded :: nat
  tm_max_inflight :: nat
  tm_max_outstanding :: nat
  tm_queue_depth :: nat
  tm_completed_backlog_depth :: nat

definition zero_task_metrics :: task_metrics where
  "zero_task_metrics =
     \<lparr>tm_submitted = 0, tm_queued = 0, tm_active = 0, tm_completed = 0, tm_cancelled = 0, tm_rejected = 0, tm_failed = 0,
      tm_cancellation_requested = 0, tm_cancellation_observed = 0, tm_timeout_budget_exceeded = 0, tm_max_inflight = 0,
      tm_max_outstanding = 0, tm_queue_depth = 0, tm_completed_backlog_depth = 0\<rparr>"

record submission_result =
  sub_accepted :: bool
  sub_task_id :: nat
  sub_reason :: string

record task_completion =
  tc_task_id :: nat
  tc_ok :: bool
  tc_payload :: payload_ptr
  tc_error :: string

datatype work_outcome = WorkReturns runtime_payload | WorkThrows string

record task_work =
  work_outcome_of :: work_outcome
  work_duration :: int

record pending_task =
  task_id :: nat
  task_work_of :: task_work
  task_has_callback :: bool

definition drop_oldest_overflow :: "string \<Rightarrow> bool" where
  "drop_oldest_overflow s \<longleftrightarrow> s = ''drop_oldest'' \<or> s = ''overwrite''"

definition cancel_pending_shutdown_policy :: "string \<Rightarrow> bool" where
  "cancel_pending_shutdown_policy s \<longleftrightarrow> s = ''cancel_pending'' \<or> s = ''cancel'' \<or> s = ''discard_pending''"

definition normalize_positive :: "nat \<Rightarrow> nat" where
  "normalize_positive n = (if n = 0 then 1 else n)"

definition completion_limit :: "nat \<Rightarrow> nat \<Rightarrow> nat" where
  "completion_limit m avail = (if m = 0 then avail else min m avail)"

text \<open>\<^verbatim>\<open>try { payload = work(); ok = true; } catch (const std::exception&)\<close>, shared by both executors.\<close>

definition completion_of :: "pending_task \<Rightarrow> task_completion" where
  "completion_of t =
     (case work_outcome_of (task_work_of t) of
        WorkReturns p \<Rightarrow> \<lparr>tc_task_id = task_id t, tc_ok = True, tc_payload = make_shared_payload p, tc_error = []\<rparr>
      | WorkThrows e \<Rightarrow> \<lparr>tc_task_id = task_id t, tc_ok = False, tc_payload = None, tc_error = e\<rparr>)"

definition over_budget :: "int \<Rightarrow> pending_task \<Rightarrow> bool" where
  "over_budget budget t \<longleftrightarrow> budget > 0 \<and> work_duration (task_work_of t) > budget"

section \<open>Deterministic executor\<close>

record det_executor =
  dx_config :: task_executor_config
  dx_next_task_id :: nat
  dx_pending :: "pending_task list"
  dx_metrics :: task_metrics
  dx_health :: "nat option"

definition make_deterministic :: "task_executor_config \<Rightarrow> det_executor" where
  "make_deterministic c =
     \<lparr>dx_config = c\<lparr>max_inflight := normalize_positive (max_inflight c)\<rparr>, dx_next_task_id = 1, dx_pending = [],
      dx_metrics = zero_task_metrics, dx_health = None\<rparr>"

definition dx_admission_capacity :: "det_executor \<Rightarrow> nat" where
  "dx_admission_capacity x = max_inflight (dx_config x) + queue_capacity (dx_config x)"

definition dx_drop_oldest_on_overflow :: "det_executor \<Rightarrow> bool" where
  "dx_drop_oldest_on_overflow x = drop_oldest_overflow (overflow (dx_config x))"

definition upd_dm :: "(task_metrics \<Rightarrow> task_metrics) \<Rightarrow> det_executor \<Rightarrow> det_executor" where
  "upd_dm f x = x\<lparr>dx_metrics := f (dx_metrics x)\<rparr>"

definition dx_reject_event :: "string \<Rightarrow> det_executor \<Rightarrow> (nat \<times> health_event) option" where
  "dx_reject_event why x =
     map_option (\<lambda>sink. (sink, default_health_event\<lparr>he_kind := KTaskReject, he_source := ''task_executor'',
       he_policy := overflow (dx_config x), he_reason := why, he_depth := length (dx_pending x),
       he_capacity := dx_admission_capacity x\<rparr>)) (dx_health x)"

definition dx_reject_submission ::
    "string \<Rightarrow> det_executor \<Rightarrow> submission_result \<times> (nat \<times> health_event) option \<times> det_executor" where
  "dx_reject_submission why x =
     (let x1 = upd_dm (\<lambda>m. m\<lparr>tm_rejected := tm_rejected m + 1\<rparr>) x in
      (\<lparr>sub_accepted = False, sub_task_id = 0, sub_reason = why\<rparr>, dx_reject_event why x1, x1))"

definition dx_set_health_event_sink :: "nat option \<Rightarrow> det_executor \<Rightarrow> det_executor" where
  "dx_set_health_event_sink sink x = x\<lparr>dx_health := sink\<rparr>"

text \<open>The part of \<^verbatim>\<open>submit\<close> after admission.\<close>

definition dx_enqueue :: "task_work \<Rightarrow> bool \<Rightarrow> det_executor \<Rightarrow> submission_result \<times> det_executor" where
  "dx_enqueue w cb x =
     (let x1 = x\<lparr>dx_next_task_id := dx_next_task_id x + 1,
                 dx_pending := dx_pending x @ [\<lparr>task_id = dx_next_task_id x, task_work_of = w, task_has_callback = cb\<rparr>]\<rparr>;
          n = length (dx_pending x1)
      in (\<lparr>sub_accepted = True, sub_task_id = dx_next_task_id x, sub_reason = []\<rparr>,
          upd_dm (\<lambda>m. m\<lparr>tm_submitted := tm_submitted m + 1, tm_queued := tm_queued m + 1,
             tm_queue_depth := max (tm_queue_depth m) n, tm_max_inflight := max (tm_max_inflight m) n,
             tm_max_outstanding := max (tm_max_outstanding m) n\<rparr>) x1))"

definition dx_submit ::
    "task_work option \<Rightarrow> bool \<Rightarrow> det_executor \<Rightarrow> submission_result \<times> (nat \<times> health_event) option \<times> det_executor" where
  "dx_submit work cb x =
     (case work of
        None \<Rightarrow> dx_reject_submission ''task work must not be empty'' x
      | Some w \<Rightarrow>
          if length (dx_pending x) \<ge> dx_admission_capacity x then
            (if dx_drop_oldest_on_overflow x then
               (let (r, y) = dx_enqueue w cb
                     (upd_dm (\<lambda>m. m\<lparr>tm_cancelled := tm_cancelled m + 1\<rparr>) (x\<lparr>dx_pending := tl (dx_pending x)\<rparr>))
                in (r, None, y))
             else dx_reject_submission
                    (if overflow (dx_config x) = ''fail_fast'' then ''task executor capacity exceeded''
                     else ''task executor queue full'') x)
          else (let (r, y) = dx_enqueue w cb x in (r, None, y)))"

definition dx_cancel_pending :: "det_executor \<Rightarrow> nat \<times> det_executor" where
  "dx_cancel_pending x =
     (let n = length (dx_pending x) in
      (n, upd_dm (\<lambda>m. m\<lparr>tm_cancelled := tm_cancelled m + n, tm_queue_depth := 0\<rparr>) (x\<lparr>dx_pending := []\<rparr>)))"

text \<open>One iteration of \<^verbatim>\<open>run_ready\<close> on the task at the front.\<close>

definition dx_run_front :: "pending_task \<Rightarrow> det_executor \<Rightarrow> task_completion \<times> det_executor" where
  "dx_run_front t x =
     (let c = completion_of t;
          x1 = upd_dm (\<lambda>m. (if tc_ok c then m\<lparr>tm_completed := tm_completed m + 1\<rparr> else m\<lparr>tm_failed := tm_failed m + 1\<rparr>))
                 (x\<lparr>dx_pending := tl (dx_pending x)\<rparr>);
          x2 = (if over_budget (task_budget (dx_config x1)) t
                then upd_dm (\<lambda>m. m\<lparr>tm_timeout_budget_exceeded := tm_timeout_budget_exceeded m + 1\<rparr>) x1 else x1)
      in (c, upd_dm (\<lambda>m. m\<lparr>tm_active := 0\<rparr>) x2))"

text \<open>
  The loop of \<^verbatim>\<open>run_ready\<close>: \<open>done\<close> are the completions so far, \<open>calls\<close> those passed to a callback; \<open>cancel n\<close> is
  the answer of the token at the poll with \<open>n\<close> tasks done. Every iteration removes a pending task.
\<close>

function dx_run_loop ::
    "(nat \<Rightarrow> bool) \<Rightarrow> nat \<Rightarrow> task_completion list \<Rightarrow> task_completion list \<Rightarrow> det_executor \<Rightarrow>
     task_completion list \<times> task_completion list \<times> det_executor" where
  "dx_run_loop cancel max_tasks finished calls x =
     (case dx_pending x of
        [] \<Rightarrow> (finished, calls, x)
      | t # ts \<Rightarrow>
          if \<not> (max_tasks = 0 \<or> length finished < max_tasks) then (finished, calls, x)
          else if cancel (length finished) then
            (finished, calls,
             snd (dx_cancel_pending
               (upd_dm (\<lambda>m. m\<lparr>tm_cancellation_requested := tm_cancellation_requested m + 1,
                              tm_cancellation_observed := tm_cancellation_observed m + 1\<rparr>) x)))
          else
            (let (c, y) = dx_run_front t x
             in dx_run_loop cancel max_tasks (finished @ [c]) (if task_has_callback t then calls @ [c] else calls) y))"
  by pat_completeness auto
termination
  by (relation "measure (\<lambda>(cancel, n, finished, calls, x). length (dx_pending x))")
    (auto simp: dx_run_front_def Let_def upd_dm_def split: if_splits)

declare dx_run_loop.simps [simp del]

definition dx_run_ready ::
    "nat \<Rightarrow> (nat \<Rightarrow> bool) \<Rightarrow> det_executor \<Rightarrow> task_completion list \<times> task_completion list \<times> det_executor" where
  "dx_run_ready max_tasks cancel x =
     (let (cs, calls, y) = dx_run_loop cancel max_tasks [] [] x
      in (cs, calls, upd_dm (\<lambda>m. m\<lparr>tm_queue_depth := max (tm_queue_depth m) (length (dx_pending y))\<rparr>) y))"

definition dx_metrics_of :: "det_executor \<Rightarrow> task_metrics" where
  "dx_metrics_of x = (dx_metrics x)\<lparr>tm_queue_depth := length (dx_pending x), tm_completed_backlog_depth := 0\<rparr>"

section \<open>Threaded executor\<close>

text \<open>Where a worker thread stands: waiting for work, running a task, holding its completion, or returned.\<close>

datatype worker_state = Waiting | Running pending_task | Ran pending_task task_completion | Exited

record thr_executor =
  tx_config :: threaded_config
  tx_next_task_id :: nat
  tx_pending :: "pending_task list"
  tx_completed :: "task_completion list"
  tx_workers :: "worker_state list"
  tx_metrics :: task_metrics
  tx_health :: "nat option"
  tx_stopping :: bool

definition upd_tm :: "(task_metrics \<Rightarrow> task_metrics) \<Rightarrow> thr_executor \<Rightarrow> thr_executor" where
  "upd_tm f x = x\<lparr>tx_metrics := f (tx_metrics x)\<rparr>"

definition make_threaded :: "threaded_config \<Rightarrow> thr_executor" where
  "make_threaded c =
     (let c1 = c\<lparr>max_inflight := normalize_positive (max_inflight c), max_workers := normalize_positive (max_workers c)\<rparr>
      in \<lparr>tx_config = c1, tx_next_task_id = 1, tx_pending = [], tx_completed = [],
          tx_workers = replicate (max_workers c1) Waiting, tx_metrics = zero_task_metrics, tx_health = None,
          tx_stopping = False\<rparr>)"

definition tx_admission_capacity :: "thr_executor \<Rightarrow> nat" where
  "tx_admission_capacity x = max_inflight (tx_config x) + queue_capacity (tx_config x)"

definition tx_drop_oldest_on_overflow :: "thr_executor \<Rightarrow> bool" where
  "tx_drop_oldest_on_overflow x = drop_oldest_overflow (overflow (tx_config x))"

definition tx_cancel_pending_on_shutdown :: "thr_executor \<Rightarrow> bool" where
  "tx_cancel_pending_on_shutdown x = cancel_pending_shutdown_policy (shutdown_policy (tx_config x))"

definition tx_outstanding :: "thr_executor \<Rightarrow> nat" where
  "tx_outstanding x = length (tx_pending x) + tm_active (tx_metrics x) + length (tx_completed x)"

definition tx_reject_event :: "string \<Rightarrow> thr_executor \<Rightarrow> (nat \<times> health_event) option" where
  "tx_reject_event why x =
     map_option (\<lambda>sink. (sink, default_health_event\<lparr>he_kind := KTaskReject, he_source := ''task_executor'',
       he_policy := overflow (tx_config x), he_reason := why, he_depth := tx_outstanding x,
       he_capacity := tx_admission_capacity x,
       he_attributes :=
         smap_put ''admission_capacity'' (nat_to_string (tx_admission_capacity x))
          (smap_put ''completed_backlog_depth'' (nat_to_string (length (tx_completed x)))
           (smap_put ''active_count'' (nat_to_string (tm_active (tx_metrics x)))
            (smap_put ''pending_depth'' (nat_to_string (length (tx_pending x))) [])))\<rparr>)) (tx_health x)"

definition tx_reject_submission ::
    "string \<Rightarrow> thr_executor \<Rightarrow> submission_result \<times> (nat \<times> health_event) option \<times> thr_executor" where
  "tx_reject_submission why x =
     (let x1 = upd_tm (\<lambda>m. m\<lparr>tm_rejected := tm_rejected m + 1\<rparr>) x in
      (\<lparr>sub_accepted = False, sub_task_id = 0, sub_reason = why\<rparr>, tx_reject_event why x1, x1))"

definition tx_capacity_reject_reason :: "thr_executor \<Rightarrow> string" where
  "tx_capacity_reject_reason x =
     (if length (tx_completed x) \<ge> tx_admission_capacity x then ''task executor completed backlog full''
      else if overflow (tx_config x) = ''fail_fast'' then ''task executor capacity exceeded''
      else ''task executor queue full'')"

definition tx_set_health_event_sink :: "nat option \<Rightarrow> thr_executor \<Rightarrow> thr_executor" where
  "tx_set_health_event_sink sink x = x\<lparr>tx_health := sink\<rparr>"

definition tx_cancel_pending_locked :: "thr_executor \<Rightarrow> thr_executor" where
  "tx_cancel_pending_locked x =
     upd_tm (\<lambda>m. m\<lparr>tm_cancelled := tm_cancelled m + length (tx_pending x), tm_queue_depth := 0\<rparr>) (x\<lparr>tx_pending := []\<rparr>)"

definition tx_enqueue :: "task_work \<Rightarrow> bool \<Rightarrow> thr_executor \<Rightarrow> submission_result \<times> thr_executor" where
  "tx_enqueue w cb x =
     (let x1 = x\<lparr>tx_next_task_id := tx_next_task_id x + 1,
                 tx_pending := tx_pending x @ [\<lparr>task_id = tx_next_task_id x, task_work_of = w, task_has_callback = cb\<rparr>]\<rparr>;
          inflight = length (tx_pending x1) + tm_active (tx_metrics x1)
      in (\<lparr>sub_accepted = True, sub_task_id = tx_next_task_id x, sub_reason = []\<rparr>,
          upd_tm (\<lambda>m. m\<lparr>tm_submitted := tm_submitted m + 1, tm_queued := tm_queued m + 1,
             tm_queue_depth := length (tx_pending x1), tm_completed_backlog_depth := length (tx_completed x1),
             tm_max_inflight := max (tm_max_inflight m) inflight,
             tm_max_outstanding := max (tm_max_outstanding m) (inflight + length (tx_completed x1))\<rparr>) x1))"

definition tx_submit ::
    "task_work option \<Rightarrow> bool \<Rightarrow> thr_executor \<Rightarrow> submission_result \<times> (nat \<times> health_event) option \<times> thr_executor" where
  "tx_submit work cb x =
     (case work of
        None \<Rightarrow> tx_reject_submission ''task work must not be empty'' x
      | Some w \<Rightarrow>
          if tx_stopping x then tx_reject_submission ''task executor is shutting down'' x
          else if tx_outstanding x \<ge> tx_admission_capacity x then
            (if tx_drop_oldest_on_overflow x \<and> tx_pending x \<noteq> [] then
               (let (r, y) = tx_enqueue w cb
                     (upd_tm (\<lambda>m. m\<lparr>tm_cancelled := tm_cancelled m + 1\<rparr>) (x\<lparr>tx_pending := tl (tx_pending x)\<rparr>))
                in (r, None, y))
             else tx_reject_submission (tx_capacity_reject_reason x) x)
          else (let (r, y) = tx_enqueue w cb x in (r, None, y)))"

definition tx_run_ready :: "nat \<Rightarrow> bool \<Rightarrow> thr_executor \<Rightarrow> task_completion list \<times> thr_executor" where
  "tx_run_ready max_tasks cancelled x =
     (let x1 = (if cancelled then
                  tx_cancel_pending_locked
                    (upd_tm (\<lambda>m. m\<lparr>tm_cancellation_requested := tm_cancellation_requested m + 1,
                                   tm_cancellation_observed := tm_cancellation_observed m + 1\<rparr>) x)
                else x);
          n = completion_limit max_tasks (length (tx_completed x1));
          x2 = x1\<lparr>tx_completed := drop n (tx_completed x1)\<rparr>
      in (take n (tx_completed x1),
          upd_tm (\<lambda>m. m\<lparr>tm_queue_depth := length (tx_pending x2), tm_completed_backlog_depth := length (tx_completed x2)\<rparr>) x2))"

definition tx_cancel_pending :: "thr_executor \<Rightarrow> nat \<times> thr_executor" where
  "tx_cancel_pending x = (length (tx_pending x), tx_cancel_pending_locked x)"

definition tx_metrics_of :: "thr_executor \<Rightarrow> task_metrics" where
  "tx_metrics_of x =
     (tx_metrics x)\<lparr>tm_queue_depth := length (tx_pending x), tm_completed_backlog_depth := length (tx_completed x)\<rparr>"

text \<open>
  The critical section of \<^verbatim>\<open>shutdown_workers\<close>; the caller then joins the workers, that is, waits until
  \<open>tx_all_exited\<close>. The section that sets \<^verbatim>\<open>stopping_\<close> also moves the worker handles away, so \<^verbatim>\<open>stopping_ && workers_.empty()\<close>,
  on which a later call returns at once, is \<open>tx_stopping\<close>.
\<close>

definition tx_shutdown_locked :: "thr_executor \<Rightarrow> thr_executor" where
  "tx_shutdown_locked x =
     (if tx_stopping x then x
      else let x1 = x\<lparr>tx_stopping := True\<rparr> in
        if tx_cancel_pending_on_shutdown x1 then tx_cancel_pending_locked x1 else x1)"

definition tx_all_exited :: "thr_executor \<Rightarrow> bool" where
  "tx_all_exited x \<longleftrightarrow> (\<forall>w \<in> set (tx_workers x). w = Exited)"

definition tx_idle :: "thr_executor \<Rightarrow> bool" where
  "tx_idle x \<longleftrightarrow> tx_pending x = [] \<and> tm_active (tx_metrics x) = 0"

text \<open>The exit condition of \<^verbatim>\<open>worker_loop\<close> and its first critical section.\<close>

definition worker_may_exit :: "thr_executor \<Rightarrow> bool" where
  "worker_may_exit x \<longleftrightarrow> tx_stopping x \<and> (tx_pending x = [] \<or> tx_cancel_pending_on_shutdown x)"

definition worker_can_start :: "thr_executor \<Rightarrow> bool" where
  "worker_can_start x \<longleftrightarrow> tx_pending x \<noteq> [] \<and> tm_active (tx_metrics x) < max_inflight (tx_config x)"

definition worker_take :: "nat \<Rightarrow> thr_executor \<Rightarrow> thr_executor" where
  "worker_take i x =
     (let x1 = upd_tm (\<lambda>m. m\<lparr>tm_active := tm_active m + 1\<rparr>)
                 (x\<lparr>tx_pending := tl (tx_pending x), tx_workers := (tx_workers x)[i := Running (hd (tx_pending x))]\<rparr>);
          inflight = length (tx_pending x1) + tm_active (tx_metrics x1)
      in upd_tm (\<lambda>m. m\<lparr>tm_queue_depth := length (tx_pending x1), tm_max_inflight := max (tm_max_inflight m) inflight,
             tm_max_outstanding := max (tm_max_outstanding m) (inflight + length (tx_completed x1))\<rparr>) x1)"

text \<open>\<^verbatim>\<open>execute_task\<close>: the work runs without the lock, the budget counter is updated under it.\<close>

definition execute_task :: "nat \<Rightarrow> pending_task \<Rightarrow> thr_executor \<Rightarrow> thr_executor" where
  "execute_task i t x =
     (let x1 = x\<lparr>tx_workers := (tx_workers x)[i := Ran t (completion_of t)]\<rparr>
      in if over_budget (task_budget (tx_config x)) t
         then upd_tm (\<lambda>m. m\<lparr>tm_timeout_budget_exceeded := tm_timeout_budget_exceeded m + 1\<rparr>) x1 else x1)"

definition worker_finish :: "nat \<Rightarrow> task_completion \<Rightarrow> thr_executor \<Rightarrow> thr_executor" where
  "worker_finish i c x =
     (let x1 = upd_tm (\<lambda>m. (if tc_ok c then m\<lparr>tm_completed := tm_completed m + 1\<rparr> else m\<lparr>tm_failed := tm_failed m + 1\<rparr>))
                 (x\<lparr>tx_workers := (tx_workers x)[i := Waiting]\<rparr>);
          x2 = upd_tm (\<lambda>m. m\<lparr>tm_active := (if tm_active m > 0 then tm_active m - 1 else tm_active m)\<rparr>)
                 (x1\<lparr>tx_completed := tx_completed x1 @ [c]\<rparr>);
          inflight = length (tx_pending x2) + tm_active (tx_metrics x2)
      in upd_tm (\<lambda>m. m\<lparr>tm_queue_depth := length (tx_pending x2), tm_completed_backlog_depth := length (tx_completed x2),
             tm_max_outstanding := max (tm_max_outstanding m) (inflight + length (tx_completed x2))\<rparr>) x2)"

inductive worker_step :: "thr_executor \<Rightarrow> thr_executor \<Rightarrow> bool" where
  exit: "i < length (tx_workers x) \<Longrightarrow> tx_workers x ! i = Waiting \<Longrightarrow> worker_may_exit x \<Longrightarrow>
    worker_step x (x\<lparr>tx_workers := (tx_workers x)[i := Exited]\<rparr>)"
| take: "i < length (tx_workers x) \<Longrightarrow> tx_workers x ! i = Waiting \<Longrightarrow> \<not> worker_may_exit x \<Longrightarrow> worker_can_start x \<Longrightarrow>
    worker_step x (worker_take i x)"
| execute: "i < length (tx_workers x) \<Longrightarrow> tx_workers x ! i = Running t \<Longrightarrow> worker_step x (execute_task i t x)"
| finish: "i < length (tx_workers x) \<Longrightarrow> tx_workers x ! i = Ran t c \<Longrightarrow> worker_step x (worker_finish i c x)"

text \<open>
  The executor with its history: \<open>delivered\<close> are the completions that \<^verbatim>\<open>run_ready\<close> has returned so far. Callers and
  workers interleave in any order.
\<close>

record thr_system =
  sys_exec :: thr_executor
  delivered :: "task_completion list"

inductive thr_step :: "thr_system \<Rightarrow> thr_system \<Rightarrow> bool" where
  submit: "thr_step s (s\<lparr>sys_exec := snd (snd (tx_submit work cb (sys_exec s)))\<rparr>)"
| run_ready: "tx_run_ready n cancelled (sys_exec s) = (cs, x') \<Longrightarrow>
    thr_step s (s\<lparr>sys_exec := x', delivered := delivered s @ cs\<rparr>)"
| cancel: "thr_step s (s\<lparr>sys_exec := snd (tx_cancel_pending (sys_exec s))\<rparr>)"
| sink: "thr_step s (s\<lparr>sys_exec := tx_set_health_event_sink h (sys_exec s)\<rparr>)"
| shutdown: "thr_step s (s\<lparr>sys_exec := tx_shutdown_locked (sys_exec s)\<rparr>)"
| worker: "worker_step (sys_exec s) x' \<Longrightarrow> thr_step s (s\<lparr>sys_exec := x'\<rparr>)"

definition thr_start :: "thr_system \<Rightarrow> bool" where
  "thr_start s \<longleftrightarrow> (\<exists>c. s = \<lparr>sys_exec = make_threaded c, delivered = []\<rparr>)"

end
