(* ===== verification/Task_Executor_Laws.thy ===== *)
theory Task_Executor_Laws
  imports Task_Executor "HOL-Library.Multiset"
begin

text \<open>
  Laws of the task executors of theory \<open>Task_Executor\<close>: the invariant of the threaded executor over all interleavings (interpretation
  \<open>thr_runs\<close> of \<open>transition_system\<close>), the completion of its shutdown, and the runs of the deterministic executor.
\<close>

section \<open>Invariant of the threaded executor\<close>

text \<open>The task a worker has taken and not yet handed over.\<close>

fun worker_ids :: "worker_state \<Rightarrow> nat list" where
  "worker_ids Waiting = []"
| "worker_ids (Running t) = [task_id t]"
| "worker_ids (Ran t c) = [tc_task_id c]"
| "worker_ids Exited = []"

definition held_ids :: "thr_executor \<Rightarrow> nat list" where
  "held_ids x = concat (map worker_ids (tx_workers x))"

definition thr_ids :: "thr_system \<Rightarrow> nat list" where
  "thr_ids s = map task_id (tx_pending (sys_exec s)) @ held_ids (sys_exec s) @
     map tc_task_id (tx_completed (sys_exec s)) @ map tc_task_id (delivered s)"

definition thr_counts :: "thr_system \<Rightarrow> bool" where
  "thr_counts s \<longleftrightarrow>
     (let x = sys_exec s; m = tx_metrics x in
      1 \<le> max_inflight (tx_config x) \<and>
      tm_active m = length (held_ids x) \<and> tm_active m \<le> max_inflight (tx_config x) \<and>
      tx_outstanding x \<le> tx_admission_capacity x \<and> tm_max_outstanding m \<le> tx_admission_capacity x \<and>
      tm_submitted m = tm_cancelled m + length (tx_pending x) + tm_active m + tm_completed m + tm_failed m \<and>
      tm_completed m + tm_failed m = length (tx_completed x) + length (delivered s))"

definition thr_stop :: "thr_system \<Rightarrow> bool" where
  "thr_stop s \<longleftrightarrow>
     (let x = sys_exec s in
      1 \<le> length (tx_workers x) \<and>
      (tx_stopping x \<and> tx_cancel_pending_on_shutdown x \<longrightarrow> tx_pending x = []) \<and>
      (Exited \<in> set (tx_workers x) \<longrightarrow> tx_stopping x \<and> tx_pending x = []))"

definition thr_fresh :: "thr_system \<Rightarrow> bool" where
  "thr_fresh s \<longleftrightarrow> distinct (thr_ids s) \<and> (\<forall>i \<in> set (thr_ids s). i < tx_next_task_id (sys_exec s))"

lemma mset_concat_update:
  "i < length ws \<Longrightarrow> mset (concat (map f (ws[i := w]))) + mset (f (ws ! i)) = mset (concat (map f ws)) + mset (f w)"
proof -
  assume i: "i < length ws"
  have "map f (ws[i := w]) = map f (take i ws) @ f w # map f (drop (Suc i) ws)"
    by (simp add: upd_conv_take_nth_drop [OF i])
  moreover have "map f ws = map f (take i ws) @ f (ws ! i) # map f (drop (Suc i) ws)"
    by (subst id_take_nth_drop [OF i]) simp
  ultimately show ?thesis by simp
qed

lemma held_ids_update:
  assumes "i < length (tx_workers x)"
  shows "mset (held_ids (x\<lparr>tx_workers := (tx_workers x)[i := w]\<rparr>)) + mset (worker_ids (tx_workers x ! i)) =
    mset (held_ids x) + mset (worker_ids w)"
  using mset_concat_update [OF assms, of worker_ids w] by (simp add: held_ids_def)

lemma held_ids_cong: "tx_workers x = tx_workers y \<Longrightarrow> held_ids x = held_ids y"
  by (simp add: held_ids_def)

lemma length_held_update:
  assumes "i < length (tx_workers x)"
  shows "length (held_ids (x\<lparr>tx_workers := (tx_workers x)[i := w]\<rparr>)) + length (worker_ids (tx_workers x ! i)) =
    length (held_ids x) + length (worker_ids w)"
  using arg_cong [OF held_ids_update [OF assms, of w], of size] by simp

text \<open>The fields that the worker steps leave alone, and those they change.\<close>

lemma worker_take_effect:
  assumes "i < length (tx_workers x)" and "tx_workers x ! i = Waiting" and "tx_pending x \<noteq> []"
  shows "mset (held_ids (worker_take i x)) = add_mset (task_id (hd (tx_pending x))) (mset (held_ids x))"
    and "length (held_ids (worker_take i x)) = Suc (length (held_ids x))"
    and "tx_pending (worker_take i x) = tl (tx_pending x)"
proof -
  have w: "tx_workers (worker_take i x) = tx_workers (x\<lparr>tx_workers := (tx_workers x)[i := Running (hd (tx_pending x))]\<rparr>)"
    by (simp add: worker_take_def upd_tm_def Let_def)
  show "mset (held_ids (worker_take i x)) = add_mset (task_id (hd (tx_pending x))) (mset (held_ids x))"
    using held_ids_update [OF assms(1), of "Running (hd (tx_pending x))"] assms(2) by (simp add: held_ids_cong [OF w])
  then show "length (held_ids (worker_take i x)) = Suc (length (held_ids x))"
    by (metis size_add_mset size_mset)
  show "tx_pending (worker_take i x) = tl (tx_pending x)" by (simp add: worker_take_def upd_tm_def Let_def)
qed

lemma execute_task_effect:
  assumes "i < length (tx_workers x)" and "tx_workers x ! i = Running t"
  shows "mset (held_ids (execute_task i t x)) = mset (held_ids x)"
    and "length (held_ids (execute_task i t x)) = length (held_ids x)"
proof -
  have w: "tx_workers (execute_task i t x) = tx_workers (x\<lparr>tx_workers := (tx_workers x)[i := Ran t (completion_of t)]\<rparr>)"
    by (simp add: execute_task_def upd_tm_def Let_def)
  have "tc_task_id (completion_of t) = task_id t" by (simp add: completion_of_def split: work_outcome.split)
  then show "mset (held_ids (execute_task i t x)) = mset (held_ids x)"
    using held_ids_update [OF assms(1), of "Ran t (completion_of t)"] assms(2) by (simp add: held_ids_cong [OF w])
  then show "length (held_ids (execute_task i t x)) = length (held_ids x)" by (metis size_mset)
qed

lemma worker_finish_effect:
  assumes "i < length (tx_workers x)" and "tx_workers x ! i = Ran t c"
  shows "mset (held_ids x) = add_mset (tc_task_id c) (mset (held_ids (worker_finish i c x)))"
    and "length (held_ids x) = Suc (length (held_ids (worker_finish i c x)))"
    and "tx_completed (worker_finish i c x) = tx_completed x @ [c]" and "tx_pending (worker_finish i c x) = tx_pending x"
proof -
  have w: "tx_workers (worker_finish i c x) = tx_workers (x\<lparr>tx_workers := (tx_workers x)[i := Waiting]\<rparr>)"
    by (simp add: worker_finish_def upd_tm_def Let_def)
  show "mset (held_ids x) = add_mset (tc_task_id c) (mset (held_ids (worker_finish i c x)))"
    using held_ids_update [OF assms(1), of Waiting] assms(2) by (simp add: held_ids_cong [OF w])
  then show "length (held_ids x) = Suc (length (held_ids (worker_finish i c x)))" by (metis size_add_mset size_mset)
  show "tx_completed (worker_finish i c x) = tx_completed x @ [c]" "tx_pending (worker_finish i c x) = tx_pending x"
    by (simp_all add: worker_finish_def upd_tm_def Let_def)
qed

lemma exit_effect:
  assumes "i < length (tx_workers x)" and "tx_workers x ! i = Waiting"
  shows "mset (held_ids (x\<lparr>tx_workers := (tx_workers x)[i := Exited]\<rparr>)) = mset (held_ids x)"
    and "length (held_ids (x\<lparr>tx_workers := (tx_workers x)[i := Exited]\<rparr>)) = length (held_ids x)"
proof -
  show "mset (held_ids (x\<lparr>tx_workers := (tx_workers x)[i := Exited]\<rparr>)) = mset (held_ids x)"
    using held_ids_update [OF assms(1), of Exited] assms(2) by simp
  then show "length (held_ids (x\<lparr>tx_workers := (tx_workers x)[i := Exited]\<rparr>)) = length (held_ids x)" by (metis size_mset)
qed

lemma worker_finish_metrics:
  "tm_active (tx_metrics (worker_finish i c x)) = tm_active (tx_metrics x) - 1"
  "tm_completed (tx_metrics (worker_finish i c x)) + tm_failed (tx_metrics (worker_finish i c x)) =
     Suc (tm_completed (tx_metrics x) + tm_failed (tx_metrics x))"
  "tm_submitted (tx_metrics (worker_finish i c x)) = tm_submitted (tx_metrics x)"
  "tm_cancelled (tx_metrics (worker_finish i c x)) = tm_cancelled (tx_metrics x)"
  "tx_config (worker_finish i c x) = tx_config x"
  "tm_max_outstanding (tx_metrics (worker_finish i c x)) =
     max (tm_max_outstanding (tx_metrics x)) (length (tx_pending x) + (tm_active (tx_metrics x) - 1) + Suc (length (tx_completed x)))"
  by (simp_all add: worker_finish_def Let_def upd_tm_def)

lemma thr_counts_worker: "thr_counts s \<Longrightarrow> worker_step (sys_exec s) x' \<Longrightarrow> thr_counts (s\<lparr>sys_exec := x'\<rparr>)"
proof (erule worker_step.cases, goal_cases)
  case (1 i x)
  then show ?case using exit_effect(2) [of i x]
    by (simp add: thr_counts_def Let_def tx_outstanding_def tx_admission_capacity_def)
next
  case (2 i x)
  then have pn: "tx_pending x \<noteq> []" by (simp add: worker_can_start_def)
  from 2 worker_take_effect(2) [of i x] pn show ?case
    by (cases "tx_pending x")
     (simp_all add: thr_counts_def tx_outstanding_def tx_admission_capacity_def worker_can_start_def worker_take_def upd_tm_def Let_def)
next
  case (3 i x t)
  then show ?case using execute_task_effect(2) [of i x t]
    by (simp add: thr_counts_def Let_def tx_outstanding_def tx_admission_capacity_def execute_task_def upd_tm_def)
next
  case (4 i x t c)
  then have x: "sys_exec s = x" "x' = worker_finish i c x" and i: "i < length (tx_workers x)" "tx_workers x ! i = Ran t c" by simp_all
  from 4(1) show ?case
    using worker_finish_effect(2,3,4) [OF i] worker_finish_metrics [of i c x]
    unfolding thr_counts_def Let_def tx_outstanding_def tx_admission_capacity_def by (simp add: x)
qed

lemma tx_submit_cases:
  obtains (rejected) "snd (snd (tx_submit work cb x)) = upd_tm (\<lambda>m. m\<lparr>tm_rejected := tm_rejected m + 1\<rparr>) x"
  | (queued) w where "snd (snd (tx_submit work cb x)) = snd (tx_enqueue w cb x)"
      "\<not> tx_stopping x" "tx_outstanding x < tx_admission_capacity x"
  | (displaced) w where "snd (snd (tx_submit work cb x)) =
        snd (tx_enqueue w cb (upd_tm (\<lambda>m. m\<lparr>tm_cancelled := tm_cancelled m + 1\<rparr>) (x\<lparr>tx_pending := tl (tx_pending x)\<rparr>)))"
      "\<not> tx_stopping x" "tx_pending x \<noteq> []"
proof (cases work)
  case None
  then show ?thesis using rejected by (simp add: tx_submit_def tx_reject_submission_def Let_def)
next
  case (Some w)
  show ?thesis
  proof (cases "tx_stopping x")
    case True
    then show ?thesis using rejected Some by (simp add: tx_submit_def tx_reject_submission_def Let_def)
  next
    case go: False
    show ?thesis
    proof (cases "tx_outstanding x < tx_admission_capacity x")
      case True
      then show ?thesis using queued [of w] Some go by (simp add: tx_submit_def split: prod.split)
    next
      case False
      then show ?thesis using displaced [of w] rejected Some go
        by (cases "tx_drop_oldest_on_overflow x \<and> tx_pending x \<noteq> []")
          (simp_all add: tx_submit_def tx_reject_submission_def Let_def split: prod.split)
    qed
  qed
qed

lemma tx_enqueue_effect:
  "tx_pending (snd (tx_enqueue w cb x)) =
     tx_pending x @ [\<lparr>task_id = tx_next_task_id x, task_work_of = w, task_has_callback = cb\<rparr>]"
  "tx_workers (snd (tx_enqueue w cb x)) = tx_workers x" "tx_completed (snd (tx_enqueue w cb x)) = tx_completed x"
  "tx_config (snd (tx_enqueue w cb x)) = tx_config x" "tx_stopping (snd (tx_enqueue w cb x)) = tx_stopping x"
  "tx_next_task_id (snd (tx_enqueue w cb x)) = Suc (tx_next_task_id x)"
  "held_ids (snd (tx_enqueue w cb x)) = held_ids x"
  "tm_active (tx_metrics (snd (tx_enqueue w cb x))) = tm_active (tx_metrics x)"
  "tm_completed (tx_metrics (snd (tx_enqueue w cb x))) = tm_completed (tx_metrics x)"
  "tm_failed (tx_metrics (snd (tx_enqueue w cb x))) = tm_failed (tx_metrics x)"
  "tm_cancelled (tx_metrics (snd (tx_enqueue w cb x))) = tm_cancelled (tx_metrics x)"
  "tm_submitted (tx_metrics (snd (tx_enqueue w cb x))) = Suc (tm_submitted (tx_metrics x))"
  "tm_max_outstanding (tx_metrics (snd (tx_enqueue w cb x))) =
     max (tm_max_outstanding (tx_metrics x)) (Suc (tx_outstanding x))"
  by (simp_all add: tx_enqueue_def Let_def upd_tm_def held_ids_def tx_outstanding_def)

lemma thr_counts_submit: "thr_counts s \<Longrightarrow> thr_counts (s\<lparr>sys_exec := snd (snd (tx_submit work cb (sys_exec s)))\<rparr>)"
proof (cases rule: tx_submit_cases [of work cb "sys_exec s"])
  case rejected
  then show "thr_counts s \<Longrightarrow> ?thesis"
    by (simp add: thr_counts_def Let_def upd_tm_def tx_outstanding_def tx_admission_capacity_def held_ids_def)
next
  case (queued w)
  then show "thr_counts s \<Longrightarrow> ?thesis"
    by (simp add: thr_counts_def Let_def tx_enqueue_effect tx_outstanding_def tx_admission_capacity_def)
next
  case (displaced w)
  then show "thr_counts s \<Longrightarrow> ?thesis"
    by (cases "tx_pending (sys_exec s)")
      (simp_all add: thr_counts_def Let_def tx_enqueue_effect tx_outstanding_def tx_admission_capacity_def upd_tm_def held_ids_def)
qed

lemma tx_run_ready_effect:
  assumes "tx_run_ready n cancelled x = (cs, y)"
  shows "tx_completed x = cs @ tx_completed y" and "tx_workers y = tx_workers x" and "tx_config y = tx_config x"
    and "tx_stopping y = tx_stopping x" and "tx_next_task_id y = tx_next_task_id x"
    and "tx_pending y = (if cancelled then [] else tx_pending x)"
    and "tm_cancelled (tx_metrics y) = (if cancelled then length (tx_pending x) else 0) + tm_cancelled (tx_metrics x)"
    and "tm_active (tx_metrics y) = tm_active (tx_metrics x)" and "tm_submitted (tx_metrics y) = tm_submitted (tx_metrics x)"
    and "tm_completed (tx_metrics y) = tm_completed (tx_metrics x)" and "tm_failed (tx_metrics y) = tm_failed (tx_metrics x)"
    and "tm_max_outstanding (tx_metrics y) = tm_max_outstanding (tx_metrics x)"
  using assms by (auto simp: tx_run_ready_def Let_def upd_tm_def tx_cancel_pending_locked_def split: if_splits)

lemma thr_counts_run_ready:
  assumes "thr_counts s" and "tx_run_ready n cancelled (sys_exec s) = (cs, y)"
  shows "thr_counts (s\<lparr>sys_exec := y, delivered := delivered s @ cs\<rparr>)"
  using assms(1) tx_run_ready_effect [OF assms(2)] held_ids_cong [OF tx_run_ready_effect(2) [OF assms(2)]]
  unfolding thr_counts_def Let_def tx_outstanding_def tx_admission_capacity_def by (cases cancelled) simp_all

lemma tx_cancel_pending_effect:
  "tx_pending (tx_cancel_pending_locked x) = []" "tx_workers (tx_cancel_pending_locked x) = tx_workers x"
  "tx_completed (tx_cancel_pending_locked x) = tx_completed x" "tx_config (tx_cancel_pending_locked x) = tx_config x"
  "tx_stopping (tx_cancel_pending_locked x) = tx_stopping x" "tx_next_task_id (tx_cancel_pending_locked x) = tx_next_task_id x"
  "tm_cancelled (tx_metrics (tx_cancel_pending_locked x)) = tm_cancelled (tx_metrics x) + length (tx_pending x)"
  "held_ids (tx_cancel_pending_locked x) = held_ids x"
  by (simp_all add: tx_cancel_pending_locked_def upd_tm_def held_ids_def)

lemma thr_counts_cancel: "thr_counts s \<Longrightarrow> sys_exec s = x \<Longrightarrow> thr_counts (s\<lparr>sys_exec := tx_cancel_pending_locked x\<rparr>)"
  by (simp add: thr_counts_def Let_def tx_outstanding_def tx_admission_capacity_def tx_cancel_pending_locked_def upd_tm_def held_ids_def)

lemma thr_counts_shutdown: "thr_counts s \<Longrightarrow> thr_counts (s\<lparr>sys_exec := tx_shutdown_locked (sys_exec s)\<rparr>)"
proof -
  let ?s = "s\<lparr>sys_exec := (sys_exec s)\<lparr>tx_stopping := True\<rparr>\<rparr>"
  assume "thr_counts s"
  then have "thr_counts ?s" by (simp add: thr_counts_def Let_def tx_outstanding_def tx_admission_capacity_def held_ids_def)
  with thr_counts_cancel [OF this refl] \<open>thr_counts s\<close> show ?thesis by (simp add: tx_shutdown_locked_def Let_def)
qed

lemma thr_counts_step: "thr_step s t \<Longrightarrow> thr_counts s \<Longrightarrow> thr_counts t"
proof (induction rule: thr_step.induct)
  case (submit s work cb)
  then show ?case by (rule thr_counts_submit)
next
  case (run_ready n cancelled s cs x')
  from run_ready(2,1) show ?case by (rule thr_counts_run_ready)
next
  case (cancel s)
  then show ?case by (simp add: tx_cancel_pending_def thr_counts_cancel)
next
  case (sink s h)
  then show ?case
    by (simp add: thr_counts_def Let_def tx_set_health_event_sink_def tx_outstanding_def tx_admission_capacity_def held_ids_def)
next
  case (shutdown s)
  then show ?case by (rule thr_counts_shutdown)
next
  case (worker s x')
  from worker(2,1) show ?case by (rule thr_counts_worker)
qed

lemma tx_cancel_policy_cong: "tx_config x = tx_config y \<Longrightarrow> tx_cancel_pending_on_shutdown x = tx_cancel_pending_on_shutdown y"
  by (simp add: tx_cancel_pending_on_shutdown_def)

lemma thr_stop_worker: "thr_stop s \<Longrightarrow> worker_step (sys_exec s) x' \<Longrightarrow> thr_stop (s\<lparr>sys_exec := x'\<rparr>)"
  by (erule worker_step.cases)
    (auto simp: thr_stop_def Let_def worker_take_def execute_task_def worker_finish_def upd_tm_def worker_may_exit_def
      worker_can_start_def tx_cancel_pending_on_shutdown_def dest!: set_update_subset_insert [THEN subsetD])

lemma thr_stop_step: "thr_step s t \<Longrightarrow> thr_stop s \<Longrightarrow> thr_stop t"
proof (induction rule: thr_step.induct)
  case (submit s work cb)
  then show ?case
    by (cases rule: tx_submit_cases [of work cb "sys_exec s"])
      (auto simp: thr_stop_def Let_def tx_enqueue_effect upd_tm_def tx_cancel_pending_on_shutdown_def)
next
  case (run_ready n cancelled s cs x')
  then show ?case using tx_run_ready_effect [OF run_ready(1)]
    by (auto simp: thr_stop_def Let_def tx_cancel_pending_on_shutdown_def)
next
  case (worker s x')
  from worker(2,1) show ?case by (rule thr_stop_worker)
qed (auto simp: thr_stop_def Let_def tx_cancel_pending_def tx_set_health_event_sink_def tx_shutdown_locked_def
      tx_cancel_pending_effect tx_cancel_pending_on_shutdown_def)

text \<open>Task ids: a step permutes them, drops some, or adds the next one.\<close>

lemma distinct_count_le: "distinct xs \<longleftrightarrow> (\<forall>a. count (mset xs) a \<le> 1)"
proof -
  have "0 < count (mset xs) a \<longleftrightarrow> a \<in> set xs" for a by simp
  then have "count (mset xs) a = (if a \<in> set xs then 1 else 0) \<longleftrightarrow> count (mset xs) a \<le> 1" for a
    by (metis One_nat_def le_Suc_eq le_zero_eq less_one not_less order_refl zero_le_one)
  then show ?thesis by (simp only: distinct_count_atmost_1)
qed

lemma thr_fresh_less:
  assumes "thr_fresh s" and "mset (thr_ids t) \<subseteq># mset (thr_ids s)"
    and "tx_next_task_id (sys_exec t) = tx_next_task_id (sys_exec s)"
  shows "thr_fresh t"
proof -
  have "distinct (thr_ids t)"
    using assms(1) mset_subset_eq_count [OF assms(2)] unfolding thr_fresh_def distinct_count_le by (meson order_trans)
  moreover have "set (thr_ids t) \<subseteq> set (thr_ids s)" using set_mset_mono [OF assms(2)] by simp
  ultimately show ?thesis using assms(1,3) by (auto simp: thr_fresh_def)
qed

lemma thr_fresh_more:
  assumes "thr_fresh s" and "mset (thr_ids t) \<subseteq># add_mset (tx_next_task_id (sys_exec s)) (mset (thr_ids s))"
    and "tx_next_task_id (sys_exec t) = Suc (tx_next_task_id (sys_exec s))"
  shows "thr_fresh t"
proof -
  let ?n = "tx_next_task_id (sys_exec s)"
  have d: "distinct (?n # thr_ids s)" using assms(1) by (auto simp: thr_fresh_def)
  have "count (mset (thr_ids t)) a \<le> 1" for a
    using d mset_subset_eq_count [OF assms(2), of a] unfolding distinct_count_le by (metis mset.simps(2) order_trans)
  moreover have "set (thr_ids t) \<subseteq> insert ?n (set (thr_ids s))" using set_mset_mono [OF assms(2)] by simp
  ultimately show ?thesis using assms(1,3) unfolding thr_fresh_def distinct_count_le by (auto simp: less_Suc_eq)
qed

lemma thr_fresh_worker: "thr_fresh s \<Longrightarrow> worker_step (sys_exec s) x' \<Longrightarrow> thr_fresh (s\<lparr>sys_exec := x'\<rparr>)"
proof (erule worker_step.cases, goal_cases)
  case (1 i x)
  then show ?case using exit_effect(1) [of i x] by (intro thr_fresh_less [OF 1(1)]) (simp_all add: thr_ids_def)
next
  case (2 i x)
  then have pn: "tx_pending x \<noteq> []" by (simp add: worker_can_start_def)
  then obtain t ts where ts: "tx_pending x = t # ts" by (cases "tx_pending x") auto
  have "tx_next_task_id (worker_take i x) = tx_next_task_id x" "tx_completed (worker_take i x) = tx_completed x"
    by (simp_all add: worker_take_def upd_tm_def Let_def)
  with 2 worker_take_effect(1,3) [of i x] pn ts show ?case
    by (intro thr_fresh_less [OF 2(1)]) (simp_all add: thr_ids_def)
next
  case (3 i x t)
  have "tx_next_task_id (execute_task i t x) = tx_next_task_id x" "tx_completed (execute_task i t x) = tx_completed x"
    "tx_pending (execute_task i t x) = tx_pending x"
    by (simp_all add: execute_task_def upd_tm_def Let_def)
  with 3 execute_task_effect(1) [of i x t] show ?case by (intro thr_fresh_less [OF 3(1)]) (simp_all add: thr_ids_def)
next
  case (4 i x t c)
  have "tx_next_task_id (worker_finish i c x) = tx_next_task_id x" by (simp add: worker_finish_def upd_tm_def Let_def)
  with 4 worker_finish_effect(1,3,4) [of i x t c] show ?case by (intro thr_fresh_less [OF 4(1)]) (simp_all add: thr_ids_def)
qed

lemma thr_fresh_step: "thr_step s t \<Longrightarrow> thr_fresh s \<Longrightarrow> thr_fresh t"
proof (induction rule: thr_step.induct)
  case (submit s work cb)
  show ?case
  proof (cases rule: tx_submit_cases [of work cb "sys_exec s"])
    case rejected
    then show ?thesis by (intro thr_fresh_less [OF submit]) (simp_all add: thr_ids_def held_ids_def upd_tm_def)
  next
    case (queued w)
    then show ?thesis by (intro thr_fresh_more [OF submit]) (simp_all add: thr_ids_def tx_enqueue_effect)
  next
    case (displaced w)
    then obtain t ts where "tx_pending (sys_exec s) = t # ts" by (cases "tx_pending (sys_exec s)") auto
    with displaced show ?thesis
      by (intro thr_fresh_more [OF submit]) (simp_all add: thr_ids_def tx_enqueue_effect held_ids_def upd_tm_def)
  qed
next
  case (run_ready n cancelled s cs x')
  then show ?case using tx_run_ready_effect [OF run_ready(1)] held_ids_cong [OF tx_run_ready_effect(2) [OF run_ready(1)]]
    by (intro thr_fresh_less [OF run_ready(2)]) (simp_all add: thr_ids_def)
next
  case (cancel s)
  then show ?case by (rule thr_fresh_less) (simp_all add: thr_ids_def tx_cancel_pending_def tx_cancel_pending_effect)
next
  case (sink s h)
  then show ?case by (rule thr_fresh_less) (simp_all add: thr_ids_def tx_set_health_event_sink_def held_ids_def)
next
  case (shutdown s)
  then show ?case
    by (rule thr_fresh_less)
      (simp_all add: thr_ids_def tx_shutdown_locked_def Let_def tx_cancel_pending_effect held_ids_def)
next
  case (worker s x')
  from worker(2,1) show ?case by (rule thr_fresh_worker)
qed

lemma thr_start_ok: "thr_start s \<Longrightarrow> thr_counts s \<and> thr_stop s \<and> thr_fresh s"
  by (auto simp: thr_start_def thr_counts_def thr_stop_def thr_fresh_def thr_ids_def make_threaded_def Let_def held_ids_def
      tx_outstanding_def tx_admission_capacity_def zero_task_metrics_def normalize_positive_def)

interpretation thr_runs: transition_system thr_start thr_step "\<lambda>s. thr_counts s \<and> thr_stop s \<and> thr_fresh s"
  by unfold_locales (auto simp: thr_start_ok intro: thr_counts_step thr_stop_step thr_fresh_step)

section \<open>Shutdown\<close>

fun worker_weight :: "worker_state \<Rightarrow> nat" where
  "worker_weight Waiting = 1"
| "worker_weight (Running t) = 3"
| "worker_weight (Ran t c) = 2"
| "worker_weight Exited = 0"

text \<open>What the workers still have to do: every worker step makes it smaller.\<close>

definition remaining_work :: "thr_executor \<Rightarrow> nat" where
  "remaining_work x = 4 * length (tx_pending x) + sum_list (map worker_weight (tx_workers x))"

lemma sum_list_map_update:
  "i < length ws \<Longrightarrow> sum_list (map f (ws[i := w])) + f (ws ! i) = sum_list (map f ws) + (f w :: nat)"
proof -
  assume i: "i < length ws"
  have "sum_list (map f (ws[i := w])) = sum_list (map f (take i ws)) + f w + sum_list (map f (drop (Suc i) ws))"
    by (simp add: upd_conv_take_nth_drop [OF i])
  moreover have "sum_list (map f ws) = sum_list (map f (take i ws)) + f (ws ! i) + sum_list (map f (drop (Suc i) ws))"
    by (subst id_take_nth_drop [OF i]) simp
  ultimately show ?thesis by simp
qed

lemma worker_step_decreases: "worker_step x y \<Longrightarrow> remaining_work y < remaining_work x"
proof (induction rule: worker_step.induct)
  case (exit i x)
  then show ?case using sum_list_map_update [of i "tx_workers x" worker_weight Exited]
    by (simp add: remaining_work_def)
next
  case (take i x)
  then show ?case using sum_list_map_update [of i "tx_workers x" worker_weight "Running (hd (tx_pending x))"]
    by (cases "tx_pending x") (simp_all add: remaining_work_def worker_take_def upd_tm_def Let_def worker_can_start_def)
next
  case (execute i x t)
  then show ?case using sum_list_map_update [of i "tx_workers x" worker_weight "Ran t (completion_of t)"]
    by (simp add: remaining_work_def execute_task_def upd_tm_def Let_def)
next
  case (finish i x t c)
  then show ?case using sum_list_map_update [of i "tx_workers x" worker_weight Waiting]
    by (simp add: remaining_work_def worker_finish_def upd_tm_def Let_def)
qed

lemma worker_steps_bounded: "(worker_step ^^ n) x y \<Longrightarrow> n + remaining_work y \<le> remaining_work x"
proof (induction n arbitrary: y)
  case (Suc n)
  then obtain z where "(worker_step ^^ n) x z" and "worker_step z y" by (auto elim: relpowp_Suc_E)
  with Suc.IH worker_step_decreases [of z y] show ?case by fastforce
qed simp

lemma worker_step_keeps:
  "worker_step x y \<Longrightarrow> tx_stopping y = tx_stopping x \<and> tm_cancelled (tx_metrics y) = tm_cancelled (tx_metrics x) \<and>
     tm_submitted (tx_metrics y) = tm_submitted (tx_metrics x)"
  by (induction rule: worker_step.induct)
    (simp_all add: worker_take_def execute_task_def worker_finish_def upd_tm_def Let_def)

lemma worker_steps_keep:
  "worker_step\<^sup>*\<^sup>* x y \<Longrightarrow> tx_stopping y = tx_stopping x \<and> tm_cancelled (tx_metrics y) = tm_cancelled (tx_metrics x) \<and>
     tm_submitted (tx_metrics y) = tm_submitted (tx_metrics x)"
  by (induction rule: rtranclp_induct) (auto dest: worker_step_keeps)

lemma worker_steps_thr_steps: "worker_step\<^sup>*\<^sup>* (sys_exec s) y \<Longrightarrow> thr_step\<^sup>*\<^sup>* s (s\<lparr>sys_exec := y\<rparr>)"
proof (induction rule: rtranclp_induct)
  case (step y z)
  have "thr_step (s\<lparr>sys_exec := y\<rparr>) (s\<lparr>sys_exec := y, sys_exec := z\<rparr>)" using step(2) by (intro thr_step.worker) simp
  with step(3) show ?case by simp
qed simp

lemma held_nonempty: "held_ids x \<noteq> [] \<Longrightarrow> \<exists>i < length (tx_workers x). worker_ids (tx_workers x ! i) \<noteq> []"
  by (auto simp: held_ids_def in_set_conv_nth)

text \<open>While a worker has not returned after the shutdown request, some worker can move.\<close>

lemma shutdown_progress:
  assumes "thr_counts s" and "tx_stopping (sys_exec s)" and "\<not> tx_all_exited (sys_exec s)"
  shows "\<exists>y. worker_step (sys_exec s) y"
proof (cases "held_ids (sys_exec s) = []")
  case False
  then obtain i where i: "i < length (tx_workers (sys_exec s))" and "worker_ids (tx_workers (sys_exec s) ! i) \<noteq> []"
    using held_nonempty by blast
  then show ?thesis by (cases "tx_workers (sys_exec s) ! i") (auto intro: worker_step.execute worker_step.finish)
next
  case True
  then have idle: "tm_active (tx_metrics (sys_exec s)) = 0" "0 < max_inflight (tx_config (sys_exec s))"
    using assms(1) by (simp_all add: thr_counts_def Let_def)
  obtain i where i: "i < length (tx_workers (sys_exec s))" and ne: "tx_workers (sys_exec s) ! i \<noteq> Exited"
    using assms(3) by (auto simp: tx_all_exited_def in_set_conv_nth)
  have "worker_ids (tx_workers (sys_exec s) ! i) = []" using True i by (auto simp: held_ids_def)
  with ne have w: "tx_workers (sys_exec s) ! i = Waiting" by (cases "tx_workers (sys_exec s) ! i") simp_all
  show ?thesis
  proof (cases "worker_may_exit (sys_exec s)")
    case True
    then show ?thesis using worker_step.exit [OF i w] by blast
  next
    case False
    then have "worker_can_start (sys_exec s)" using assms(2) idle by (simp add: worker_may_exit_def worker_can_start_def)
    then show ?thesis using worker_step.take [OF i w False] by blast
  qed
qed

lemma all_exited_idle:
  assumes "thr_counts s" and "thr_stop s" and "tx_all_exited (sys_exec s)"
  shows "tx_pending (sys_exec s) = []" and "tm_active (tx_metrics (sys_exec s)) = 0"
proof -
  have "held_ids (sys_exec s) = []" using assms(3) by (auto simp: held_ids_def tx_all_exited_def)
  then show "tm_active (tx_metrics (sys_exec s)) = 0" using assms(1) by (simp add: thr_counts_def Let_def)
  have "Exited \<in> set (tx_workers (sys_exec s))"
    using assms(2,3) by (cases "tx_workers (sys_exec s)") (auto simp: thr_stop_def Let_def tx_all_exited_def)
  then show "tx_pending (sys_exec s) = []" using assms(2) by (simp add: thr_stop_def Let_def)
qed

section \<open>Properties of the threaded executor\<close>

text \<open>C34.
  The threaded executor respects its limits under every interleaving of submissions, result collection, cancellation,
  shutdown and worker steps: the active count is the number of tasks workers hold and never exceeds \<^verbatim>\<open>max_inflight\<close>;
  waiting, active and uncollected tasks together stay within the admission capacity; every accepted task is waiting,
  active, finished or cancelled, and every finished task is in the backlog or was delivered; no task id is delivered twice or delivered while
  it is still queued, running or in the backlog.
\<close>

theorem threaded_executor_safe:
  assumes "thr_step\<^sup>*\<^sup>* \<lparr>sys_exec = make_threaded cfg, delivered = []\<rparr> s" and "x = sys_exec s" and "m = tx_metrics_of x"
  shows "tm_active m = length (held_ids x) \<and> tm_active m \<le> max_inflight (tx_config x) \<and>
    tm_queue_depth m + tm_active m + tm_completed_backlog_depth m \<le> tx_admission_capacity x \<and>
    tm_submitted m = tm_cancelled m + tm_queue_depth m + tm_active m + tm_completed m + tm_failed m \<and>
    tm_completed m + tm_failed m = tm_completed_backlog_depth m + length (delivered s) \<and>
    distinct (map task_id (tx_pending x) @ held_ids x @ map tc_task_id (tx_completed x) @ map tc_task_id (delivered s))"
proof -
  have "thr_start \<lparr>sys_exec = make_threaded cfg, delivered = []\<rparr>" by (auto simp: thr_start_def)
  from thr_runs.holds_reachable [OF this assms(1)] show ?thesis
    by (simp add: assms(2,3) tx_metrics_of_def thr_counts_def Let_def tx_outstanding_def thr_fresh_def thr_ids_def)
qed

text \<open>C33.
  A shutdown of the threaded executor always completes. Once the stop flag is set, whatever order the workers run in they can take at most
  \<open>4 * pending + 3 * workers\<close> further steps; when none can move any more all of them have returned (so the joins of
  \<^verbatim>\<open>shutdown_workers\<close> return), no task is waiting or active, and every task that was waiting at the stop has been
  run: the cancelled count did not grow and all accepted tasks are completed, failed or cancelled.
\<close>

theorem shutdown_completes:
  assumes "thr_step\<^sup>*\<^sup>* \<lparr>sys_exec = make_threaded cfg, delivered = []\<rparr> s" and "tx_stopping (sys_exec s)"
  shows "(\<forall>n y. (worker_step ^^ n) (sys_exec s) y \<longrightarrow>
       n \<le> 4 * length (tx_pending (sys_exec s)) + 3 * length (tx_workers (sys_exec s))) \<and>
     (\<forall>y. worker_step\<^sup>*\<^sup>* (sys_exec s) y \<and> (\<nexists>z. worker_step y z) \<longrightarrow>
       tx_all_exited y \<and> tx_idle y \<and> tm_cancelled (tx_metrics y) = tm_cancelled (tx_metrics (sys_exec s)) \<and>
       tm_submitted (tx_metrics y) = tm_cancelled (tx_metrics y) + tm_completed (tx_metrics y) + tm_failed (tx_metrics y))"
proof (intro conjI allI impI)
  fix n y assume "(worker_step ^^ n) (sys_exec s) y"
  moreover have "worker_weight w \<le> 3" for w by (cases w) simp_all
  then have "sum_list (map worker_weight ws) \<le> 3 * length ws" for ws
    by (induction ws) (auto simp: add_le_mono)
  ultimately show "n \<le> 4 * length (tx_pending (sys_exec s)) + 3 * length (tx_workers (sys_exec s))"
    using worker_steps_bounded [of n "sys_exec s" y] unfolding remaining_work_def by (meson add_leD1 add_left_mono le_trans)
next
  fix y assume y: "worker_step\<^sup>*\<^sup>* (sys_exec s) y \<and> (\<nexists>z. worker_step y z)"
  let ?t = "s\<lparr>sys_exec := y\<rparr>"
  have "thr_start \<lparr>sys_exec = make_threaded cfg, delivered = []\<rparr>" by (auto simp: thr_start_def)
  from thr_runs.holds_reachable [OF this rtranclp_trans [OF assms(1) worker_steps_thr_steps [OF y [THEN conjunct1]]]]
  have inv: "thr_counts ?t" "thr_stop ?t" by simp_all
  note keep = worker_steps_keep [OF y [THEN conjunct1]]
  have ex: "tx_all_exited y" using shutdown_progress [OF inv(1)] keep assms(2) y by auto
  with all_exited_idle [OF inv] have idle: "tx_pending y = []" "tm_active (tx_metrics y) = 0" by simp_all
  show "tx_all_exited y" by (rule ex)
  show "tx_idle y" using idle by (simp add: tx_idle_def)
  show "tm_cancelled (tx_metrics y) = tm_cancelled (tx_metrics (sys_exec s))" using keep by simp
  show "tm_submitted (tx_metrics y) = tm_cancelled (tx_metrics y) + tm_completed (tx_metrics y) + tm_failed (tx_metrics y)"
    using inv(1) idle by (simp add: thr_counts_def Let_def)
qed

definition demo_threaded :: threaded_config where
  "demo_threaded = \<lparr>max_inflight = 1, queue_capacity = 1, overflow = ''reject'', task_budget = 0, max_workers = 2,
     shutdown_policy = ''drain''\<rparr>"

definition demo_work :: task_work where
  "demo_work = \<lparr>work_outcome_of = WorkReturns (make_text_payload ''r'' []), work_duration = 3\<rparr>"

definition demo_submitted :: thr_executor where
  "demo_submitted = snd (snd (tx_submit (Some demo_work) False (make_threaded demo_threaded)))"

lemma demo_submitted_reachable:
  "thr_step\<^sup>*\<^sup>* \<lparr>sys_exec = make_threaded demo_threaded, delivered = []\<rparr> \<lparr>sys_exec = demo_submitted, delivered = []\<rparr>"
  using thr_step.submit [of "\<lparr>sys_exec = make_threaded demo_threaded, delivered = []\<rparr>" "Some demo_work" False]
  by (simp add: demo_submitted_def)

theorem threaded_executor_safe_witness:
  "tm_queue_depth (tx_metrics_of demo_submitted) = 1 \<and> tx_admission_capacity demo_submitted = 2 \<and>
   tm_submitted (tx_metrics_of demo_submitted) = tm_cancelled (tx_metrics_of demo_submitted) + 1 +
     tm_active (tx_metrics_of demo_submitted) + tm_completed (tx_metrics_of demo_submitted) + tm_failed (tx_metrics_of demo_submitted)"
proof -
  have "tm_queue_depth (tx_metrics_of demo_submitted) = 1" and "tx_admission_capacity demo_submitted = 2" by code_simp+
  with threaded_executor_safe [OF demo_submitted_reachable refl refl] show ?thesis by simp
qed

theorem shutdown_completes_witness:
  "tx_stopping (tx_shutdown_locked demo_submitted) \<and>
   (\<nexists>y. (worker_step ^^ 11) (tx_shutdown_locked demo_submitted) y)"
proof -
  have st: "tx_stopping (tx_shutdown_locked demo_submitted)" and len: "length (tx_pending (tx_shutdown_locked demo_submitted)) = 1"
    "length (tx_workers (tx_shutdown_locked demo_submitted)) = 2"
    by code_simp+
  have "thr_step\<^sup>*\<^sup>* \<lparr>sys_exec = make_threaded demo_threaded, delivered = []\<rparr>
      \<lparr>sys_exec = tx_shutdown_locked demo_submitted, delivered = []\<rparr>"
    using rtranclp.rtrancl_into_rtrancl [OF demo_submitted_reachable thr_step.shutdown] by simp
  from shutdown_completes [OF this] st len
  have "\<forall>n y. (worker_step ^^ n) (tx_shutdown_locked demo_submitted) y \<longrightarrow> n \<le> 10" by simp
  then have "(worker_step ^^ 11) (tx_shutdown_locked demo_submitted) y \<longrightarrow> (11::nat) \<le> 10" for y by (rule allE) (erule allE)
  with st show ?thesis by (simp del: relpowp.simps)
qed

section \<open>The deterministic executor\<close>

text \<open>
  What a drain of the queue achieves: it runs some prefix of the queue in order; what is left is the rest
  of the queue or, after a cancellation, nothing.
\<close>

lemma dx_run_front_effect:
  "fst (dx_run_front t x) = completion_of t" "dx_pending (snd (dx_run_front t x)) = tl (dx_pending x)"
  "dx_config (snd (dx_run_front t x)) = dx_config x" "dx_next_task_id (snd (dx_run_front t x)) = dx_next_task_id x"
  "tm_submitted (dx_metrics (snd (dx_run_front t x))) = tm_submitted (dx_metrics x)"
  "tm_cancelled (dx_metrics (snd (dx_run_front t x))) = tm_cancelled (dx_metrics x)"
  "tm_completed (dx_metrics (snd (dx_run_front t x))) + tm_failed (dx_metrics (snd (dx_run_front t x))) =
     Suc (tm_completed (dx_metrics x) + tm_failed (dx_metrics x))"
  by (simp_all add: dx_run_front_def Let_def upd_dm_def)

lemma dx_cancel_pending_effect:
  "dx_pending (snd (dx_cancel_pending x)) = []" "dx_config (snd (dx_cancel_pending x)) = dx_config x"
  "dx_next_task_id (snd (dx_cancel_pending x)) = dx_next_task_id x"
  "tm_submitted (dx_metrics (snd (dx_cancel_pending x))) = tm_submitted (dx_metrics x)"
  "tm_cancelled (dx_metrics (snd (dx_cancel_pending x))) = tm_cancelled (dx_metrics x) + length (dx_pending x)"
  "tm_completed (dx_metrics (snd (dx_cancel_pending x))) = tm_completed (dx_metrics x)"
  "tm_failed (dx_metrics (snd (dx_cancel_pending x))) = tm_failed (dx_metrics x)"
  by (simp_all add: dx_cancel_pending_def Let_def upd_dm_def)

text \<open>The number of tasks the loop runs before it stops.\<close>

fun run_count :: "(nat \<Rightarrow> bool) \<Rightarrow> nat \<Rightarrow> nat \<Rightarrow> nat \<Rightarrow> nat" where
  "run_count cancel max_tasks d 0 = 0"
| "run_count cancel max_tasks d (Suc n) =
     (if \<not> (max_tasks = 0 \<or> d < max_tasks) \<or> cancel d then 0 else Suc (run_count cancel max_tasks (Suc d) n))"

lemma run_count_le: "run_count cancel m d n \<le> n"
  by (induction n arbitrary: d) auto

lemma run_count_no_cancel: "run_count (\<lambda>i. False) m d n = (if m = 0 then n else min n (m - d))"
  by (induction n arbitrary: d) (auto simp: min_def)

lemma dx_run_loop_effect:
  assumes "dx_run_loop cancel m fin calls x = (cs, calls', y)" and "k = run_count cancel m (length fin) (length (dx_pending x))"
  shows "cs = fin @ map completion_of (take k (dx_pending x)) \<and>
    calls' = calls @ map completion_of (filter task_has_callback (take k (dx_pending x))) \<and>
    dx_config y = dx_config x \<and> dx_next_task_id y = dx_next_task_id x \<and>
    tm_submitted (dx_metrics y) = tm_submitted (dx_metrics x) \<and>
    tm_completed (dx_metrics y) + tm_failed (dx_metrics y) = tm_completed (dx_metrics x) + tm_failed (dx_metrics x) + k \<and>
    tm_cancelled (dx_metrics y) + length (dx_pending y) = tm_cancelled (dx_metrics x) + (length (dx_pending x) - k) \<and>
    (dx_pending y = drop k (dx_pending x) \<or> dx_pending y = []) \<and>
    ((\<forall>i. \<not> cancel i) \<longrightarrow> dx_pending y = drop k (dx_pending x))"
  using assms
proof (induction cancel m fin calls x arbitrary: k rule: dx_run_loop.induct)
  case (1 cancel m fin calls x)
  show ?case
  proof (cases "dx_pending x")
    case Nil
    with 1(2,3) show ?thesis by (simp add: dx_run_loop.simps [of _ _ _ _ x])
  next
    case (Cons t ts)
    consider (full) "\<not> (m = 0 \<or> length fin < m)" | (cancelled) "m = 0 \<or> length fin < m" "cancel (length fin)"
      | (go) "m = 0 \<or> length fin < m" "\<not> cancel (length fin)" by blast
    then show ?thesis
    proof cases
      case full
      with Cons 1(2,3) show ?thesis by (auto simp: dx_run_loop.simps [of _ _ _ _ x])
    next
      case cancelled
      with Cons 1(2,3) show ?thesis by (auto simp: dx_run_loop.simps [of _ _ _ _ x] dx_cancel_pending_effect upd_dm_def)
    next
      case go
      obtain c z where f: "dx_run_front t x = (c, z)" by fastforce
      note eff = dx_run_front_effect [of t x, unfolded f fst_conv snd_conv]
      have r: "dx_run_loop cancel m (fin @ [c]) (if task_has_callback t then calls @ [c] else calls) z = (cs, calls', y)"
        using go Cons f 1(2) by (simp add: dx_run_loop.simps [of _ _ _ _ x])
      have nf: "\<not> \<not> (m = 0 \<or> length fin < m)" using go by simp
      have nc: "(\<forall>i. \<not> cancel i) \<Longrightarrow> run_count (\<lambda>a. False) m d n = run_count cancel m d n" for d n
        by (rule arg_cong [where f = "\<lambda>c. run_count c m d n"]) auto
      from 1(1) [OF Cons nf go(2) f [symmetric] refl r refl] go Cons 1(3) eff nc show ?thesis
        by (simp add: dx_run_loop.simps [of _ _ _ _ x])
    qed
  qed
qed

datatype dx_op =
    DxSubmit "task_work option" bool
  | DxRunReady nat "nat \<Rightarrow> bool"
  | DxCancel
  | DxSink "nat option"

fun dx_exec :: "dx_op \<Rightarrow> det_executor \<Rightarrow> task_completion list \<times> det_executor" where
  "dx_exec (DxSubmit work cb) x = ([], snd (snd (dx_submit work cb x)))"
| "dx_exec (DxRunReady n cancel) x = (let (cs, calls, y) = dx_run_ready n cancel x in (cs, y))"
| "dx_exec DxCancel x = ([], snd (dx_cancel_pending x))"
| "dx_exec (DxSink h) x = ([], dx_set_health_event_sink h x)"

fun dx_run :: "dx_op list \<Rightarrow> det_executor \<Rightarrow> task_completion list \<times> det_executor" where
  "dx_run [] x = ([], x)"
| "dx_run (op # ops) x = (let (cs, y) = dx_exec op x; (cs', z) = dx_run ops y in (cs @ cs', z))"

lemma tc_task_id_completion_of [simp]: "tc_task_id (completion_of t) = task_id t"
  by (simp add: completion_of_def split: work_outcome.split)

text \<open>The completions of a run and the waiting tasks, in this order, have increasing ids.\<close>

definition fifo :: "task_completion list \<Rightarrow> det_executor \<Rightarrow> bool" where
  "fifo log x \<longleftrightarrow> sorted_wrt (<) (map tc_task_id log @ map task_id (dx_pending x)) \<and>
     (\<forall>i \<in> set (map tc_task_id log @ map task_id (dx_pending x)). i < dx_next_task_id x)"

definition dx_counts :: "det_executor \<Rightarrow> bool" where
  "dx_counts x \<longleftrightarrow> 1 \<le> max_inflight (dx_config x) \<and> length (dx_pending x) \<le> dx_admission_capacity x \<and>
     tm_submitted (dx_metrics x) = tm_completed (dx_metrics x) + tm_failed (dx_metrics x) + tm_cancelled (dx_metrics x) +
       length (dx_pending x)"

lemma fifo_shorter:
  assumes "fifo log x" and "k \<le> length (dx_pending x)"
    and "dx_pending y = drop k (dx_pending x) \<or> dx_pending y = []" and "dx_next_task_id y = dx_next_task_id x"
  shows "fifo (log @ map completion_of (take k (dx_pending x))) y"
proof -
  have split: "map task_id (dx_pending x) = map task_id (take k (dx_pending x)) @ map task_id (drop k (dx_pending x))"
    by (metis append_take_drop_id map_append)
  have ids: "map tc_task_id (map completion_of ts) = map task_id ts" for ts by simp
  show ?thesis
    using assms(1,3,4) unfolding fifo_def map_append ids split by (elim disjE) (auto simp: sorted_wrt_append)
qed

lemma fifo_enqueue: "fifo log x \<Longrightarrow> fifo log (snd (dx_enqueue w cb x))"
  by (auto simp: fifo_def dx_enqueue_def Let_def upd_dm_def sorted_wrt_append less_SucI)

lemma dx_submit_cases:
  obtains (rejected) "snd (snd (dx_submit work cb x)) = upd_dm (\<lambda>m. m\<lparr>tm_rejected := tm_rejected m + 1\<rparr>) x"
  | (queued) w where "snd (snd (dx_submit work cb x)) = snd (dx_enqueue w cb x)" "length (dx_pending x) < dx_admission_capacity x"
  | (displaced) w where "snd (snd (dx_submit work cb x)) =
        snd (dx_enqueue w cb (upd_dm (\<lambda>m. m\<lparr>tm_cancelled := tm_cancelled m + 1\<rparr>) (x\<lparr>dx_pending := tl (dx_pending x)\<rparr>)))"
      "length (dx_pending x) \<ge> dx_admission_capacity x"
proof (cases work)
  case None
  then show ?thesis using rejected by (simp add: dx_submit_def dx_reject_submission_def Let_def)
next
  case (Some w)
  show ?thesis
  proof (cases "length (dx_pending x) < dx_admission_capacity x")
    case True
    then show ?thesis using queued [of w] Some by (simp add: dx_submit_def split: prod.split)
  next
    case False
    then show ?thesis using displaced [of w] rejected Some
      by (cases "dx_drop_oldest_on_overflow x")
        (simp_all add: dx_submit_def dx_reject_submission_def Let_def split: prod.split)
  qed
qed

lemma dx_submit_inv:
  assumes "dx_counts x" and "fifo log x"
  shows "dx_counts (snd (snd (dx_submit work cb x))) \<and> fifo log (snd (snd (dx_submit work cb x)))"
proof (cases rule: dx_submit_cases [of work cb x])
  case rejected
  with assms show ?thesis by (simp add: dx_counts_def fifo_def upd_dm_def dx_admission_capacity_def)
next
  case (queued w)
  with assms show ?thesis
    by (simp add: fifo_enqueue) (simp add: dx_counts_def dx_enqueue_def Let_def upd_dm_def dx_admission_capacity_def)
next
  case (displaced w)
  let ?y = "upd_dm (\<lambda>m. m\<lparr>tm_cancelled := tm_cancelled m + 1\<rparr>) (x\<lparr>dx_pending := tl (dx_pending x)\<rparr>)"
  from displaced(2) assms(1) obtain t ts where p: "dx_pending x = t # ts"
    by (cases "dx_pending x") (auto simp: dx_counts_def dx_admission_capacity_def)
  have "fifo log ?y" using assms(2) by (auto simp: fifo_def upd_dm_def p sorted_wrt_append)
  then have "fifo log (snd (dx_enqueue w cb ?y))" by (rule fifo_enqueue)
  moreover have "dx_counts (snd (dx_enqueue w cb ?y))"
    using assms(1) p by (simp add: dx_counts_def dx_enqueue_def Let_def upd_dm_def dx_admission_capacity_def)
  ultimately show ?thesis using displaced(1) by simp
qed

lemma dx_run_ready_effect:
  assumes "dx_run_ready n cancel x = (cs, calls, y)" and "k = run_count cancel n 0 (length (dx_pending x))"
  shows "cs = map completion_of (take k (dx_pending x))"
    and "calls = map completion_of (filter task_has_callback (take k (dx_pending x)))"
    and "dx_pending y = drop k (dx_pending x) \<or> dx_pending y = []"
    and "(\<forall>i. \<not> cancel i) \<Longrightarrow> dx_pending y = drop k (dx_pending x)"
    and "dx_next_task_id y = dx_next_task_id x" and "dx_counts x \<Longrightarrow> dx_counts y"
proof -
  obtain z where r: "dx_run_loop cancel n [] [] x = (cs, calls, z)"
    and y: "y = upd_dm (\<lambda>m. m\<lparr>tm_queue_depth := max (tm_queue_depth m) (length (dx_pending z))\<rparr>) z"
    using assms(1) by (auto simp: dx_run_ready_def split: prod.splits)
  note eff = dx_run_loop_effect [OF r refl, unfolded list.size(3) assms(2) [symmetric]]
  have "k \<le> length (dx_pending x)" by (simp add: assms(2) run_count_le)
  moreover have "length (dx_pending z) \<le> length (dx_pending x)" using eff by auto
  ultimately show "dx_counts x \<Longrightarrow> dx_counts y"
    using eff by (simp add: dx_counts_def y upd_dm_def dx_admission_capacity_def)
  show "cs = map completion_of (take k (dx_pending x))" "calls = map completion_of (filter task_has_callback (take k (dx_pending x)))"
    "dx_pending y = drop k (dx_pending x) \<or> dx_pending y = []" "dx_next_task_id y = dx_next_task_id x"
    "(\<forall>i. \<not> cancel i) \<Longrightarrow> dx_pending y = drop k (dx_pending x)"
    using eff by (simp_all add: y upd_dm_def)
qed

lemma dx_exec_inv:
  assumes "dx_counts x" and "fifo log x" and "dx_exec op x = (cs, y)"
  shows "dx_counts y \<and> fifo (log @ cs) y"
proof (cases op)
  case (DxSubmit work cb)
  with dx_submit_inv [OF assms(1,2)] assms(3) show ?thesis by auto
next
  case (DxRunReady n cancel)
  then obtain calls where r: "dx_run_ready n cancel x = (cs, calls, y)" using assms(3) by (auto split: prod.splits)
  note eff = dx_run_ready_effect [OF r refl]
  from fifo_shorter [OF assms(2) run_count_le eff(3,5)] eff(1,6) assms(1) show ?thesis by simp
next
  case DxCancel
  have "fifo (log @ map completion_of (take 0 (dx_pending x))) (snd (dx_cancel_pending x))"
    by (rule fifo_shorter [OF assms(2)]) (simp_all add: dx_cancel_pending_effect)
  with DxCancel assms(1,3) show ?thesis
    by (auto simp: dx_counts_def dx_cancel_pending_effect dx_admission_capacity_def)
next
  case (DxSink h)
  with assms show ?thesis by (auto simp: dx_counts_def fifo_def dx_set_health_event_sink_def dx_admission_capacity_def)
qed

lemma dx_run_inv:
  "dx_counts x \<Longrightarrow> fifo log x \<Longrightarrow> dx_run ops x = (cs, y) \<Longrightarrow> dx_counts y \<and> fifo (log @ cs) y"
proof (induction ops arbitrary: x log cs)
  case (Cons op ops)
  obtain c1 x1 where e: "dx_exec op x = (c1, x1)" by fastforce
  obtain c2 where r: "dx_run ops x1 = (c2, y)" and cs: "cs = c1 @ c2" using Cons.prems(3) e by (auto split: prod.splits)
  from dx_exec_inv [OF Cons.prems(1,2) e] Cons.IH [OF _ _ r, of "log @ c1"] show ?case by (simp add: cs)
qed simp

text \<open>The deterministic executor is a bounded first-in first-out queue. Over any run of submissions, drains, cancellations and
  sink changes on a new executor the completions come back with strictly increasing task ids (so in submission order
  and each at most once), all of them older than any waiting task; at most \<^verbatim>\<open>max_inflight + queue_capacity\<close>
  tasks wait; and every accepted task is completed, failed, cancelled or waiting.
\<close>

lemma deterministic_executor_fifo:
  assumes "dx_run ops (make_deterministic c) = (cs, x)" and "m = dx_metrics_of x"
  shows "sorted_wrt (<) (map tc_task_id cs @ map task_id (dx_pending x)) \<and>
    tm_queue_depth m \<le> dx_admission_capacity x \<and>
    tm_submitted m = tm_completed m + tm_failed m + tm_cancelled m + tm_queue_depth m"
proof -
  have "dx_counts (make_deterministic c)" and "fifo [] (make_deterministic c)"
    by (simp_all add: dx_counts_def fifo_def make_deterministic_def normalize_positive_def zero_task_metrics_def)
  from dx_run_inv [OF this assms(1)] show ?thesis
    by (simp add: assms(2) dx_counts_def fifo_def dx_metrics_of_def)
qed

definition demo_det :: task_executor_config where
  "demo_det = \<lparr>max_inflight = 0, queue_capacity = 1, overflow = ''drop_oldest'', task_budget = 0\<rparr>"

definition demo_dx_ops :: "dx_op list" where
  "demo_dx_ops = [DxSubmit (Some demo_work) True, DxSubmit (Some demo_work) True, DxSubmit (Some demo_work) False,
     DxSubmit None False, DxRunReady 1 (\<lambda>i. False)]"

lemma deterministic_executor_fifo_witness:
  "map tc_task_id (fst (dx_run demo_dx_ops (make_deterministic demo_det))) = [2] \<and>
   tm_submitted (dx_metrics_of (snd (dx_run demo_dx_ops (make_deterministic demo_det)))) = 3 \<and>
   tm_queue_depth (dx_metrics_of (snd (dx_run demo_dx_ops (make_deterministic demo_det)))) \<le>
     dx_admission_capacity (snd (dx_run demo_dx_ops (make_deterministic demo_det)))"
proof -
  have "map tc_task_id (fst (dx_run demo_dx_ops (make_deterministic demo_det))) = [2]"
    and "tm_submitted (dx_metrics_of (snd (dx_run demo_dx_ops (make_deterministic demo_det)))) = 3" by code_simp+
  with deterministic_executor_fifo [OF prod.collapse [symmetric] refl, of demo_dx_ops demo_det] show ?thesis by simp
qed

text \<open>A drain without cancellation runs exactly the first waiting tasks, as many as the limit allows (all of them for the
  limit 0): their completions are returned in order, each task's callback, when it has one, gets its completion, and the other tasks keep waiting.
\<close>

lemma run_ready_runs_prefix:
  assumes "dx_run_ready n (\<lambda>i. False) x = (cs, calls, y)" and "k = completion_limit n (length (dx_pending x))"
  shows "cs = map completion_of (take k (dx_pending x)) \<and>
    calls = map completion_of (filter task_has_callback (take k (dx_pending x))) \<and> dx_pending y = drop k (dx_pending x)"
proof -
  have "k = run_count (\<lambda>i. False) n 0 (length (dx_pending x))"
    by (simp add: assms(2) run_count_no_cancel completion_limit_def min.commute)
  from dx_run_ready_effect [OF assms(1) this] show ?thesis by simp
qed

lemma run_ready_runs_prefix_witness:
  "length (fst (dx_run_ready 1 (\<lambda>i. False) (snd (dx_run (take 3 demo_dx_ops) (make_deterministic demo_det))))) = 1 \<and>
   length (dx_pending (snd (snd (dx_run_ready 1 (\<lambda>i. False) (snd (dx_run (take 3 demo_dx_ops) (make_deterministic demo_det))))))) = 1"
proof -
  define x where "x = snd (dx_run (take 3 demo_dx_ops) (make_deterministic demo_det))"
  have "length (dx_pending x) = 2" unfolding x_def by code_simp
  moreover obtain cs calls y where r: "dx_run_ready 1 (\<lambda>i. False) x = (cs, calls, y)" by (metis prod.exhaust)
  ultimately show ?thesis using run_ready_runs_prefix [OF r refl] unfolding x_def [symmetric]
    by (simp add: completion_limit_def)
qed

end
