(* ===== verification/Graph_Model.thy ===== *)
theory Graph_Model
  imports Complex_Main Graph_Spec
begin

text \<open>
  The rest of the graph description: the structures of \<^verbatim>\<open>include/topoexec/runtime/graph.hpp\<close>, the descriptors of
  \<^verbatim>\<open>include/topoexec/runtime/component.hpp\<close>, the role helpers of \<^verbatim>\<open>src/component.cpp\<close> and the trigger-source helpers of
  \<^verbatim>\<open>src/trigger_policy.cpp\<close> that validation uses. \<^verbatim>\<open>double\<close> values are \<open>fp\<close>: a rational, an infinity or not-a-number, with
  the comparisons of IEEE arithmetic.
\<close>

definition kTopoExecSchemaVersion :: int where
  "kTopoExecSchemaVersion = 1"

section \<open>Floating point values\<close>

datatype fp = Finite rat | PosInf | NegInf | NotANumber

fun fp_less :: "fp \<Rightarrow> fp \<Rightarrow> bool" where
  "fp_less NotANumber y = False"
| "fp_less x NotANumber = False"
| "fp_less (Finite a) (Finite b) = (a < b)"
| "fp_less (Finite a) PosInf = True"
| "fp_less (Finite a) NegInf = False"
| "fp_less PosInf y = False"
| "fp_less NegInf NegInf = False"
| "fp_less NegInf (Finite b) = True"
| "fp_less NegInf PosInf = True"

fun fp_isfinite :: "fp \<Rightarrow> bool" where
  "fp_isfinite (Finite a) = True"
| "fp_isfinite x = False"

section \<open>Component descriptors\<close>

datatype component_role = RProcessing | RInputBoundary | ROutputBoundary | RInputOutputBoundary

fun role_to_string :: "component_role \<Rightarrow> string" where
  "role_to_string RProcessing = ''processing''"
| "role_to_string RInputBoundary = ''input''"
| "role_to_string ROutputBoundary = ''output''"
| "role_to_string RInputOutputBoundary = ''input_output''"

definition parse_component_role :: "string \<Rightarrow> component_role option" where
  "parse_component_role v =
     (if v = ''processing'' then Some RProcessing
      else if v = ''input'' then Some RInputBoundary
      else if v = ''output'' then Some ROutputBoundary
      else if v = ''input_output'' then Some RInputOutputBoundary
      else None)"

definition component_role_has_input :: "component_role \<Rightarrow> bool" where
  "component_role_has_input r \<longleftrightarrow> r = RInputBoundary \<or> r = RInputOutputBoundary"

definition component_role_has_output :: "component_role \<Rightarrow> bool" where
  "component_role_has_output r \<longleftrightarrow> r = ROutputBoundary \<or> r = RInputOutputBoundary"

lemma parse_role_to_string [simp]: "parse_component_role (role_to_string r) = Some r"
  by (cases r) (simp_all add: parse_component_role_def)

datatype port_multiplicity = MSingle | MMultiple

record port_descriptor =
  port_name :: string
  port_schema :: string
  port_payload_type :: string
  port_mult :: port_multiplicity
  port_required :: bool

datatype config_value_kind = CString | CInt | CDouble | CBool

record config_field_spec =
  cf_name :: string
  cf_kind :: config_value_kind
  cf_required :: bool
  cf_min_value :: "fp option"
  cf_max_value :: "fp option"
  cf_enum_values :: "string list"
  cf_allow_nested :: bool

record boundary_descriptor =
  bd_role :: component_role
  bd_descriptor :: string

text \<open>The fields of a descriptor that the graph code reads.\<close>

record component_descriptor =
  cd_type :: string
  cd_role :: component_role
  cd_config_fields :: "config_field_spec list"
  cd_inputs :: "port_descriptor list"
  cd_outputs :: "port_descriptor list"
  cd_scheduler_lane :: string

section \<open>Graph specification\<close>

record lane_spec =
  lane_id :: string
  lane_type :: string
  lane_hz :: fp
  lane_priority :: string
  lane_max_callback_ms :: int
  lane_max_threads :: int
  lane_queue_capacity :: int
  lane_overflow :: string
  lane_wall_clock_enabled :: bool
  lane_period_ms :: int
  lane_tick_budget_ms :: int
  lane_overrun_policy :: string
  lane_thread_name :: string
  lane_cpu_affinity :: "int list"
  lane_nice_priority :: int
  lane_rt_policy :: string
  lane_rt_priority :: int
  lane_isolation_intent :: string

record event_source_spec =
  es_id :: string
  es_type :: string
  es_inputs :: "string list"
  es_input :: string
  es_period_ms :: int

record trigger_policy_spec =
  tp_type :: string
  tp_inputs :: "string list"
  tp_input :: string
  tp_batch_size :: int
  tp_batch_window_ms :: int
  tp_sync_slop_ms :: int
  tp_min_interval_ms :: int
  tp_max_latency_ms :: int
  tp_watermark_lateness_ms :: int
  tp_debounce_window_ms :: int
  tp_condition :: string
  tp_coalesce :: bool

record execution_spec =
  ex_lane :: string
  ex_reentrant :: bool
  ex_priority :: string
  ex_budget_ms :: int
  ex_on_error :: string

record component_node_spec =
  comp_id :: string
  comp_type :: string
  event_sources :: "event_source_spec list"
  trigger_policy :: trigger_policy_spec
  execution :: execution_spec
  depends_on :: "string list"
  boundary :: boundary_descriptor
  comp_config :: config_view

record loop_policy_spec =
  lp_type :: string
  lp_budget_ms :: int
  lp_max_iterations :: int
  lp_max_inflight :: int
  lp_drop_policy :: string
  lp_min_interval_ms :: int
  lp_convergence :: string
  lp_residual_threshold :: "fp option"
  lp_partial_success :: string

record composite_loop_spec =
  loop_id :: string
  loop_components :: "string list"
  loop_policy :: loop_policy_spec

record graph_hierarchy_entry =
  hier_id :: string
  hier_components :: "string list"
  hier_edges :: "string list"
  hier_composite_loops :: "string list"

record clock_policy_spec =
  runtime_domain :: string
  event_domain :: string

record graph_spec =
  schema_version :: int
  graph_name :: string
  graph_kind :: string
  graph_clock :: clock_policy_spec
  graph_config_view :: config_view
  lanes :: "lane_spec list"
  components :: "component_node_spec list"
  graph_edges :: "edge_spec list"
  composite_loops :: "composite_loop_spec list"
  hierarchy :: "graph_hierarchy_entry list"

datatype compiled_region_kind = RegionComponent | RegionCompositeLoop

fun region_kind_to_string :: "compiled_region_kind \<Rightarrow> string" where
  "region_kind_to_string RegionComponent = ''component''"
| "region_kind_to_string RegionCompositeLoop = ''composite_loop''"

record compiled_graph_region =
  region_id :: string
  region_kind :: compiled_region_kind
  region_components :: "string list"
  region_composite_loop_id :: string
  region_loop_policy :: loop_policy_spec
  incoming_regions :: "string list"
  outgoing_regions :: "string list"

record graph_compiled_plan =
  regions :: "compiled_graph_region list"
  region_order :: "string list"
  component_region :: "(string, string) smap"
  immediate_sccs :: "string list list"

section \<open>Default values\<close>

definition default_trigger_policy :: trigger_policy_spec where
  "default_trigger_policy =
     \<lparr>tp_type = ''manual'', tp_inputs = [], tp_input = [], tp_batch_size = 0, tp_batch_window_ms = 0, tp_sync_slop_ms = 0,
      tp_min_interval_ms = 0, tp_max_latency_ms = 0, tp_watermark_lateness_ms = 0, tp_debounce_window_ms = 0,
      tp_condition = ''all_inputs_ready'', tp_coalesce = False\<rparr>"

definition default_execution :: execution_spec where
  "default_execution = \<lparr>ex_lane = [], ex_reentrant = False, ex_priority = ''normal'', ex_budget_ms = 0, ex_on_error = ''fail_fast''\<rparr>"

definition default_loop_policy :: loop_policy_spec where
  "default_loop_policy =
     \<lparr>lp_type = [], lp_budget_ms = 0, lp_max_iterations = 0, lp_max_inflight = 0, lp_drop_policy = [], lp_min_interval_ms = 0,
      lp_convergence = [], lp_residual_threshold = None, lp_partial_success = []\<rparr>"

definition default_component :: "string \<Rightarrow> component_node_spec" where
  "default_component cid =
     \<lparr>comp_id = cid, comp_type = [], event_sources = [], trigger_policy = default_trigger_policy, execution = default_execution,
      depends_on = [], boundary = \<lparr>bd_role = RProcessing, bd_descriptor = []\<rparr>, comp_config = empty_config_view\<rparr>"

definition default_lane :: "string \<Rightarrow> string \<Rightarrow> lane_spec" where
  "default_lane lid ty =
     \<lparr>lane_id = lid, lane_type = ty, lane_hz = Finite 0, lane_priority = [], lane_max_callback_ms = 0, lane_max_threads = 0,
      lane_queue_capacity = 0, lane_overflow = ''reject'', lane_wall_clock_enabled = False, lane_period_ms = 0,
      lane_tick_budget_ms = 0, lane_overrun_policy = ''drop_tick'', lane_thread_name = [], lane_cpu_affinity = [],
      lane_nice_priority = 0, lane_rt_policy = ''none'', lane_rt_priority = 0, lane_isolation_intent = ''none''\<rparr>"

definition default_graph :: graph_spec where
  "default_graph =
     \<lparr>schema_version = 0, graph_name = [], graph_kind = ''internal_test'',
      graph_clock = \<lparr>runtime_domain = ''steady'', event_domain = ''steady''\<rparr>, graph_config_view = empty_config_view, lanes = [],
      components = [], graph_edges = [], composite_loops = [], hierarchy = []\<rparr>"

section \<open>Event sources\<close>

definition is_timer_event_source :: "event_source_spec \<Rightarrow> bool" where
  "is_timer_event_source s \<longleftrightarrow> es_type s = ''timer''"

definition is_message_event_source :: "event_source_spec \<Rightarrow> bool" where
  "is_message_event_source s \<longleftrightarrow>
     es_type s = ''message'' \<or> es_type s = ''request'' \<or> es_type s = ''task_ready'' \<or> es_type s = ''future_ready''"

definition has_timer_event_source :: "component_node_spec \<Rightarrow> bool" where
  "has_timer_event_source c = list_ex is_timer_event_source (event_sources c)"

definition has_message_event_source :: "component_node_spec \<Rightarrow> bool" where
  "has_message_event_source c = list_ex is_message_event_source (event_sources c)"

definition has_event_driven_source :: "component_node_spec \<Rightarrow> bool" where
  "has_event_driven_source c \<longleftrightarrow> has_message_event_source c \<or> has_timer_event_source c"

definition trigger_policy_inputs_for :: "component_node_spec \<Rightarrow> string list" where
  "trigger_policy_inputs_for c =
     (if tp_inputs (trigger_policy c) \<noteq> [] then tp_inputs (trigger_policy c) else concat (map es_inputs (event_sources c)))"

section \<open>Immediate edges\<close>

text \<open>The guard \<^verbatim>\<open>!edge.has_kind || !edge.invalid_kind.empty() || edge.kind != EdgeKind::kImmediate\<close>, negated.\<close>

definition is_immediate_edge :: "edge_spec \<Rightarrow> bool" where
  "is_immediate_edge e \<longleftrightarrow> has_kind e \<and> invalid_kind e = [] \<and> edge_kind_of e = KImmediate"

end
