(* ===== verification/Component_Registry.thy ===== *)
theory Component_Registry
  imports Graph_Model
begin

text \<open>
  The component registry of \<^verbatim>\<open>src/component_registry.cpp\<close>: two ordered maps, one with the registrations and one with the
  factories. User code enters as data: a factory is the outcome of creating a component and asking it to describe itself, the text of
  the exception or the descriptor. The refinement of the two maps into one map of registered types is at the end.
\<close>

section \<open>Operations\<close>

record component_registration =
  reg_type :: string
  reg_component_api_version :: string
  reg_runtime_min_version :: string
  reg_static_registration :: bool
  reg_realtime_allowed :: bool
  reg_dry_run_safe :: bool

type_synonym component_factory = "string + component_descriptor"

record component_registry =
  registrations :: "(string, component_registration) smap"
  factories :: "(string, component_factory) smap"

definition empty_registry :: component_registry where
  "empty_registry = \<lparr>registrations = [], factories = []\<rparr>"

text \<open>\<open>Inl\<close> is the text of the \<^verbatim>\<open>std::invalid_argument\<close>; an empty \<^verbatim>\<open>std::function\<close> is \<open>None\<close>.\<close>

definition register_component ::
    "component_registration \<Rightarrow> component_factory option \<Rightarrow> component_registry \<Rightarrow> (string + bool) \<times> component_registry" where
  "register_component rg f reg =
     (if reg_type rg = [] then (Inl ''component type must not be empty'', reg)
      else
        (case f of
           None \<Rightarrow> (Inl ''component factory must not be empty'', reg)
         | Some fac \<Rightarrow>
             if map_of (registrations reg) (reg_type rg) \<noteq> None then (Inr False, reg)
             else (Inr True, reg\<lparr>registrations := smap_put (reg_type rg) rg (registrations reg),
                                 factories := smap_put (reg_type rg) fac (factories reg)\<rparr>)))"

definition unregister :: "string \<Rightarrow> component_registry \<Rightarrow> bool \<times> component_registry" where
  "unregister ty reg =
     (map_of (registrations reg) ty \<noteq> None,
      reg\<lparr>registrations := smap_erase ty (registrations reg), factories := smap_erase ty (factories reg)\<rparr>)"

definition contains_type :: "component_registry \<Rightarrow> string \<Rightarrow> bool" where
  "contains_type reg ty \<longleftrightarrow> map_of (registrations reg) ty \<noteq> None"

definition registry_metadata :: "component_registry \<Rightarrow> string \<Rightarrow> component_registration option" where
  "registry_metadata reg ty = map_of (registrations reg) ty"

text \<open>\<open>Inl\<close> is the text of the exception: \<^verbatim>\<open>std::out_of_range\<close>, or what the factory or \<^verbatim>\<open>describe\<close> throws.\<close>

definition create_component :: "component_registry \<Rightarrow> string \<Rightarrow> string + component_descriptor" where
  "create_component reg ty =
     (case map_of (factories reg) ty of
        None \<Rightarrow> Inl (''component type is not registered: '' @ ty)
      | Some f \<Rightarrow> f)"

definition registry_types :: "component_registry \<Rightarrow> string list" where
  "registry_types reg = map fst (registrations reg)"

section \<open>The registry as one map\<close>

inductive registry_step :: "component_registry \<Rightarrow> component_registry \<Rightarrow> bool" where
  register: "registry_step reg (snd (register_component rg f reg))"
| unregister: "registry_step reg (snd (unregister ty reg))"

definition registry_wf :: "component_registry \<Rightarrow> bool" where
  "registry_wf reg \<longleftrightarrow> smap_wf (registrations reg) \<and> smap_wf (factories reg) \<and>
     dom (map_of (registrations reg)) = dom (map_of (factories reg)) \<and>
     (\<forall>ty rg. map_of (registrations reg) ty = Some rg \<longrightarrow> reg_type rg = ty \<and> ty \<noteq> [])"

text \<open>What the two maps stand for: a type is registered together with its factory, or not at all.\<close>

definition registered :: "component_registry \<Rightarrow> string \<Rightarrow> (component_registration \<times> component_factory) option" where
  "registered reg ty =
     (case (map_of (registrations reg) ty, map_of (factories reg) ty) of
        (Some rg, Some f) \<Rightarrow> Some (rg, f)
      | _ \<Rightarrow> None)"

lemma registry_wf_register [inv_intros]: "registry_wf reg \<Longrightarrow> registry_wf (snd (register_component rg f reg))"
  by (auto simp: registry_wf_def register_component_def split: option.splits)

lemma registry_wf_unregister [inv_intros]: "registry_wf reg \<Longrightarrow> registry_wf (snd (unregister ty reg))"
  by (auto simp: registry_wf_def unregister_def)

interpretation registry_runs: transition_system "\<lambda>reg. reg = empty_registry" registry_step registry_wf
proof
  show "registry_wf s" if "s = empty_registry" for s
    using that by (simp add: registry_wf_def empty_registry_def)
  show "registry_wf t" if "registry_wf s" "registry_step s t" for s t
    using that(2,1) by cases (simp_all add: inv_intros)
qed

lemma registry_wf_lookup:
  assumes "registry_wf reg"
  shows "(\<exists>rg f. map_of (registrations reg) ty = Some rg \<and> map_of (factories reg) ty = Some f) \<or>
    map_of (registrations reg) ty = None \<and> map_of (factories reg) ty = None"
  using assms by (auto simp: registry_wf_def dom_def)

lemma dom_registered: "registry_wf reg \<Longrightarrow> registered reg ty = None \<longleftrightarrow> map_of (registrations reg) ty = None"
  using registry_wf_lookup [of reg ty] by (auto simp: registered_def)

lemma registered_put:
  "registered (reg\<lparr>registrations := smap_put ty rg (registrations reg), factories := smap_put ty f (factories reg)\<rparr>) =
     (registered reg)(ty \<mapsto> (rg, f))"
  by (simp add: registered_def fun_eq_iff)

lemma registered_erase:
  "registered (reg\<lparr>registrations := smap_erase ty (registrations reg), factories := smap_erase ty (factories reg)\<rparr>) =
     (registered reg)(ty := None)"
  by (simp add: registered_def fun_eq_iff)

text \<open>C25.
  The registry is a map from types to registrations and factories. In every registry that registrations and removals build from the
  empty one, \<^verbatim>\<open>contains\<close>, \<^verbatim>\<open>metadata\<close>, \<^verbatim>\<open>create\<close> and \<^verbatim>\<open>types\<close> read that map; registering a type adds it when it is new (and
  changes nothing and returns false when it is not); removing a type removes it and tells whether it was there.
\<close>

theorem registry_refines_map:
  assumes "registry_step\<^sup>*\<^sup>* empty_registry reg"
  shows "contains_type reg ty = (registered reg ty \<noteq> None) \<and>
    registry_metadata reg ty = map_option fst (registered reg ty) \<and>
    create_component reg ty =
      (case registered reg ty of None \<Rightarrow> Inl (''component type is not registered: '' @ ty) | Some (rg, f) \<Rightarrow> f) \<and>
    (ty \<in> set (registry_types reg) \<longleftrightarrow> registered reg ty \<noteq> None) \<and>
    sorted (registry_types reg) \<and> distinct (registry_types reg) \<and>
    (reg_type rg \<noteq> [] \<longrightarrow>
       fst (register_component rg (Some f) reg) = Inr (registered reg (reg_type rg) = None) \<and>
       registered (snd (register_component rg (Some f) reg)) =
         (if registered reg (reg_type rg) = None then (registered reg)(reg_type rg \<mapsto> (rg, f)) else registered reg)) \<and>
    fst (unregister ty reg) = (registered reg ty \<noteq> None) \<and>
    registered (snd (unregister ty reg)) = (registered reg)(ty := None)"
proof -
  have wf: "registry_wf reg" using registry_runs.holds_reachable [OF refl assms] .
  note look = registry_wf_lookup [OF wf] and dom = dom_registered [OF wf]
  have "registered reg ty = None \<longleftrightarrow> ty \<notin> set (registry_types reg)" for ty
    by (simp add: dom registry_types_def map_of_eq_None_iff)
  moreover have "sorted (registry_types reg)" "distinct (registry_types reg)"
    using wf by (auto simp: registry_wf_def registry_types_def smap_wf_def strict_sorted_iff)
  moreover have "registered (snd (register_component rg (Some f) reg)) =
      (if registered reg (reg_type rg) = None then (registered reg)(reg_type rg \<mapsto> (rg, f)) else registered reg)"
    if "reg_type rg \<noteq> []"
    using that by (auto simp: dom register_component_def registered_put)
  moreover have "registered (snd (unregister ty reg)) = (registered reg)(ty := None)"
    by (auto simp: unregister_def registered_erase)
  moreover have "create_component reg ty =
      (case registered reg ty of None \<Rightarrow> Inl (''component type is not registered: '' @ ty) | Some (rg, f) \<Rightarrow> f)"
    using look [of ty] by (auto simp: create_component_def registered_def)
  moreover have "registry_metadata reg ty = map_option fst (registered reg ty)"
    using look [of ty] by (auto simp: registry_metadata_def registered_def)
  ultimately show ?thesis
    by (simp add: contains_type_def dom register_component_def unregister_def)
qed

definition demo_registration :: component_registration where
  "demo_registration = \<lparr>reg_type = ''source'', reg_component_api_version = ''1'', reg_runtime_min_version = ''0.1.0'',
     reg_static_registration = True, reg_realtime_allowed = False, reg_dry_run_safe = True\<rparr>"

theorem registry_refines_map_witness:
  "fst (register_component demo_registration (Some (Inl ''broken'')) empty_registry) = Inr True \<and>
   registered (snd (register_component demo_registration (Some (Inl ''broken'')) empty_registry)) =
     (registered empty_registry)(''source'' \<mapsto> (demo_registration, Inl ''broken''))"
proof -
  have "reg_type demo_registration = ''source''" "registered empty_registry ''source'' = None" by code_simp+
  with registry_refines_map [of empty_registry _ demo_registration "Inl ''broken''"] show ?thesis by simp
qed

end
