(* ===== verification/Graph_Diagnostics.thy ===== *)
theory Graph_Diagnostics
  imports Graph_Model
begin

text \<open>
  Diagnostics: the registry of \<^verbatim>\<open>src/diagnostics.cpp\<close> and the helpers of \<^verbatim>\<open>src/graph.cpp\<close> that turn an error message into a
  diagnostic. The code of a diagnostic is recovered from the text of its message by substring search.
\<close>

section \<open>Substring search\<close>

fun starts_with :: "string \<Rightarrow> string \<Rightarrow> bool" where
  "starts_with [] s = True"
| "starts_with (p # ps) [] = False"
| "starts_with (p # ps) (c # s) = (p = c \<and> starts_with ps s)"

text \<open>\<^verbatim>\<open>s.find(pat) != std::string::npos\<close>\<close>

fun str_contains :: "string \<Rightarrow> string \<Rightarrow> bool" where
  "str_contains pat [] = (pat = [])"
| "str_contains pat (c # s) = (starts_with pat (c # s) \<or> str_contains pat s)"

lemma starts_with_iff: "starts_with p s \<longleftrightarrow> (\<exists>t. s = p @ t)"
  by (induction p s rule: starts_with.induct) auto

lemma str_contains_iff: "str_contains p s \<longleftrightarrow> (\<exists>a b. s = a @ p @ b)"
proof (induction s)
  case (Cons c s)
  show ?case
  proof
    assume "str_contains p (c # s)"
    then consider t where "c # s = [] @ p @ t" | a b where "c # s = (c # a) @ p @ b"
      using Cons.IH by (auto simp: starts_with_iff)
    then show "\<exists>a b. c # s = a @ p @ b" by cases blast+
  next
    assume "\<exists>a b. c # s = a @ p @ b"
    then obtain a b where "c # s = a @ p @ b" by blast
    then have "starts_with p (c # s) \<or> (\<exists>a b. s = a @ p @ b)" by (cases a) (auto simp: starts_with_iff)
    then show "str_contains p (c # s)" using Cons.IH by simp
  qed
qed auto

section \<open>The registry\<close>

record diagnostic_descriptor =
  dd_code :: string
  dd_severity :: string
  dd_category :: string
  dd_summary :: string
  dd_suggested_fix :: string

abbreviation diag :: "string \<Rightarrow> string \<Rightarrow> string \<Rightarrow> string \<Rightarrow> string \<Rightarrow> diagnostic_descriptor" where
  "diag c s cat summ fix_text \<equiv>
     \<lparr>dd_code = c, dd_severity = s, dd_category = cat, dd_summary = summ, dd_suggested_fix = fix_text\<rparr>"

definition graph_diagnostic_registry :: "diagnostic_descriptor list" where
  "graph_diagnostic_registry =
     [
      diag ''unknown_component'' ''error'' ''graph_structure''
        ''An edge, dependency, or loop references a component id that is not declared.''
        ''Check component ids referenced by edges, depends_on, and CompositeLoop declarations.'',
      diag ''unknown_port'' ''error'' ''graph_structure''
        ''An edge endpoint references a port that the component descriptor does not expose.''
        ''Check component descriptors and endpoint port names.'',
      diag ''payload_type_mismatch'' ''error'' ''payload''
        ''An edge connects descriptor ports with incompatible payload contracts.''
        ''Align the source output and target input schema or payload_type, or insert an explicit transform.'',
      diag ''missing_required_input'' ''error'' ''graph_structure''
        ''A descriptor-declared required input has no incoming edge.''
        ''Connect the required input or mark the port optional in the component descriptor.'',
      diag ''optional_input_unconnected'' ''advisory'' ''graph_structure''
        ''A descriptor-declared optional input has no incoming edge.''
        ''Ignore this if the component can run without the port, or connect it to silence the advisory.'',
      diag ''boundary_role_mismatch'' ''error'' ''graph_structure''
        ''A graph boundary role is incompatible with the component descriptor role.''
        ''Align the graph boundary role with the descriptor's input/output boundary capability.'',
      diag ''port_multiplicity_mismatch'' ''error'' ''graph_structure''
        ''A single-input port has multiple incoming edges.''
        ''Use one incoming edge or mark the descriptor input as multiple.'',
      diag ''duplicate_id'' ''error'' ''graph_structure''
        ''A graph section contains duplicate ids.''
        ''Use unique ids inside each graph section.'',
      diag ''immediate_cycle_without_loop'' ''error'' ''graph_structure''
        ''Immediate edges form a cycle without an owning CompositeLoop.''
        ''Break the cycle with delay/state/async or declare an exact CompositeLoop.'',
      diag ''partial_composite_loop'' ''error'' ''graph_structure''
        ''A CompositeLoop declaration only partially matches an immediate SCC.''
        ''Make the CompositeLoop component set exactly match one immediate SCC.'',
      diag ''decorative_composite_loop'' ''error'' ''graph_structure''
        ''A CompositeLoop declaration does not own an immediate cycle.''
        ''Remove the CompositeLoop or add the immediate feedback edges it owns.'',
      diag ''multi_state_writer'' ''error'' ''channel''
        ''Multiple state edges write the same target snapshot.''
        ''Keep one writer per state target until an explicit merge policy exists.'',
      diag ''invalid_move_only_multireader'' ''error'' ''payload''
        ''A move_only payload policy was combined with multi-reader delivery.''
        ''Use readers: single for move_only or switch to shared_view/copy.'',
      diag ''invalid_channel_policy'' ''error'' ''channel''
        ''A channel policy field is unsupported or internally inconsistent.''
        ''Use a supported bounded channel mode, capacity, overflow, timestamp, owner, and copy policy.'',
      diag ''unsupported_lane_type'' ''error'' ''scheduler''
        ''A scheduler lane type is not implemented by the core runtime.''
        ''Use event_loop, fixed_rate, or thread_pool.'',
      diag ''trigger_missing_input'' ''error'' ''trigger''
        ''A trigger/event-source input is missing or has no incoming edge.''
        ''Add trigger inputs and matching incoming edges.'',
      diag ''incompatible_trigger_edge_mode'' ''error'' ''trigger''
        ''Trigger policy and event-source declarations are incompatible with the incoming edge shape.''
        ''Align event_sources, trigger_policy, and incoming edge modes.'',
      diag ''unsupported_error_policy'' ''error'' ''scheduler''
        ''A non-fail-fast execution error policy was requested.''
        ''Use fail_fast until continue/isolate policies are implemented.'',
      diag ''advisory_lane_field_ignored'' ''advisory'' ''scheduler''
        ''A scheduler lane field is parsed and preserved but not enforced, or only applied best-effort, by the current runtime.''
        ''Treat the field as documentation only until the matching scheduler capability is implemented.'',
      diag ''advisory_execution_field_ignored'' ''advisory'' ''scheduler''
        ''A component execution field is parsed and preserved but not enforced by the current runtime.''
        ''Treat the field as documentation only until the matching execution capability is implemented.'',
      diag ''backpressure_risk'' ''warning'' ''channel''
        ''A channel policy can stall or drop under slow-consumer pressure.''
        ''Prefer latest/overwrite for freshness, reduce capacity, or make the edge asynchronous when blocking is unsafe.'',
      diag ''large_payload_copy'' ''warning'' ''payload''
        ''A large payload edge uses copy semantics.''
        ''Use shared_view or loaned_view for large frame/blob payloads unless the copy is intentional.'',
      diag ''high_queue_depth_latency_risk'' ''warning'' ''channel''
        ''A deep queue can hide latency and grow tail delays.''
        ''Reduce capacity, use latest/overwrite for freshness, or document why the backlog is bounded and acceptable.'',
      diag ''trigger_never_ready'' ''warning'' ''trigger''
        ''A trigger configuration is accepted but unlikely to become ready at runtime.''
        ''Align event_sources with trigger_policy inputs or switch to a manual/timer trigger when no message edge drives it.'',
      diag ''subgraph_hidden_cycle'' ''warning'' ''graph_structure''
        ''A future nested/runtime subgraph boundary could hide an immediate cycle from local reasoning.''
        ''Keep phase-1 subgraphs as compile-time expansion, expose the cycle at the parent graph boundary, or declare the exact CompositeLoop owner.'',
      diag ''diagnostic_note'' ''info'' ''graph_structure''
        ''Informational diagnostic note.''
        ''No action required unless a stricter workflow promotes informational diagnostics.'',
      diag ''graph_validation_error'' ''error'' ''graph_structure''
        ''Generic graph validation failure.''
        ''Inspect the graph path and schema reference for the invalid contract.''
     ]"

definition graph_diagnostic_descriptor :: "string \<Rightarrow> diagnostic_descriptor option" where
  "graph_diagnostic_descriptor code = find (\<lambda>d. dd_code d = code) graph_diagnostic_registry"

definition graph_diagnostic_category :: "string \<Rightarrow> string" where
  "graph_diagnostic_category code =
     (case graph_diagnostic_descriptor code of Some d \<Rightarrow> dd_category d | None \<Rightarrow> ''graph_structure'')"

section \<open>Diagnostics of the graph code\<close>

record graph_diagnostic =
  gd_code :: string
  gd_severity :: string
  gd_message :: string
  gd_graph_path :: string
  gd_involved_components :: "string list"
  gd_involved_edges :: "string list"
  gd_suggested_fix :: string
  gd_category :: string

definition diagnostic_code_for :: "string \<Rightarrow> string" where
  "diagnostic_code_for e =
     (if str_contains ''unknown component'' e \<or> str_contains ''unknown target component'' e \<or>
         str_contains ''unknown source component'' e \<or> str_contains ''references missing component'' e then ''unknown_component''
      else if str_contains ''unknown output port'' e \<or> str_contains ''unknown input port'' e then ''unknown_port''
      else if str_contains ''payload type mismatch'' e then ''payload_type_mismatch''
      else if str_contains ''missing required input'' e then ''missing_required_input''
      else if str_contains ''boundary role mismatch'' e then ''boundary_role_mismatch''
      else if str_contains ''multiplicity'' e then ''port_multiplicity_mismatch''
      else if str_contains ''duplicate component'' e \<or> str_contains ''duplicate edge'' e \<or> str_contains ''duplicate lane'' e \<or>
         str_contains ''duplicate composite_loop'' e then ''duplicate_id''
      else if str_contains ''immediate cycle'' e then ''immediate_cycle_without_loop''
      else if str_contains ''does not exactly match'' e \<or> str_contains ''must match an immediate SCC'' e then ''partial_composite_loop''
      else if str_contains ''does not own a cycle'' e then ''decorative_composite_loop''
      else if str_contains ''multiple writers'' e then ''multi_state_writer''
      else if str_contains ''move_only'' e then ''invalid_move_only_multireader''
      else if str_contains ''policy.'' e \<or> str_contains ''capacity'' e \<or> str_contains ''overflow'' e then ''invalid_channel_policy''
      else if str_contains ''unsupported type'' e \<and> str_contains ''lane '' e then ''unsupported_lane_type''
      else if str_contains ''trigger_policy'' e \<and> str_contains ''input'' e then ''trigger_missing_input''
      else if str_contains ''trigger_policy'' e \<or> str_contains ''event_source'' e then ''incompatible_trigger_edge_mode''
      else if str_contains ''execution.on_error'' e then ''unsupported_error_policy''
      else ''graph_validation_error'')"

definition suggested_fix_for :: "string \<Rightarrow> string" where
  "suggested_fix_for code =
     (case graph_diagnostic_descriptor code of
        Some d \<Rightarrow> dd_suggested_fix d
      | None \<Rightarrow> ''Inspect the graph path and schema reference for the invalid contract.'')"

text \<open>The lambda \<^verbatim>\<open>token_after\<close>: the word that follows a prefix of the message.\<close>

definition token_after :: "string \<Rightarrow> string \<Rightarrow> string" where
  "token_after prefix msg =
     (if \<not> starts_with prefix msg then [] else takeWhile (\<lambda>c. c \<noteq> CHR '' '') (drop (length prefix) msg))"

definition make_diagnostic :: "string \<Rightarrow> graph_diagnostic" where
  "make_diagnostic e =
     (let code = diagnostic_code_for e;
          d = \<lparr>gd_code = code, gd_severity = ''error'', gd_message = e, gd_graph_path = [], gd_involved_components = [],
               gd_involved_edges = [], gd_suggested_fix = suggested_fix_for code, gd_category = graph_diagnostic_category code\<rparr>;
          cmp = token_after ''component '' e; ed = token_after ''edge '' e; ln = token_after ''lane '' e;
          lp = token_after ''composite_loop '' e
      in if cmp \<noteq> [] then d\<lparr>gd_graph_path := ''components.'' @ cmp, gd_involved_components := [cmp]\<rparr>
         else if ed \<noteq> [] then d\<lparr>gd_graph_path := ''edges.'' @ ed, gd_involved_edges := [ed]\<rparr>
         else if ln \<noteq> [] then d\<lparr>gd_graph_path := ''lanes.'' @ ln\<rparr>
         else if lp \<noteq> [] then d\<lparr>gd_graph_path := ''composite_loops.'' @ lp\<rparr>
         else if starts_with ''graph.clock'' e then d\<lparr>gd_graph_path := ''graph.clock''\<rparr>
         else if starts_with ''runnable graph'' e then d\<lparr>gd_graph_path := ''graph''\<rparr>
         else d)"

text \<open>
  \<^verbatim>\<open>ok\<close>, \<^verbatim>\<open>errors\<close> and \<^verbatim>\<open>diagnostics\<close>, the fields that \<^verbatim>\<open>GraphValidationResult\<close> and \<^verbatim>\<open>GraphCompileResult\<close> share.
\<close>

record graph_report =
  gr_ok :: bool
  gr_errors :: "string list"
  gr_diagnostics :: "graph_diagnostic list"

definition empty_report :: graph_report where
  "empty_report = \<lparr>gr_ok = True, gr_errors = [], gr_diagnostics = []\<rparr>"

definition add_error :: "string \<Rightarrow> graph_report \<Rightarrow> graph_report" where
  "add_error e r = r\<lparr>gr_ok := False, gr_diagnostics := gr_diagnostics r @ [make_diagnostic e], gr_errors := gr_errors r @ [e]\<rparr>"

definition add_diagnostic ::
    "string \<Rightarrow> string \<Rightarrow> string \<Rightarrow> string \<Rightarrow> string list \<Rightarrow> string list \<Rightarrow> graph_report \<Rightarrow> graph_report" where
  "add_diagnostic code severity msg path comps eds r =
     r\<lparr>gr_diagnostics := gr_diagnostics r @
        [\<lparr>gd_code = code, gd_severity = severity, gd_message = msg, gd_graph_path = path, gd_involved_components = comps,
          gd_involved_edges = eds, gd_suggested_fix = suggested_fix_for code, gd_category = graph_diagnostic_category code\<rparr>]\<rparr>"

definition add_advisory :: "string \<Rightarrow> string \<Rightarrow> string \<Rightarrow> graph_report \<Rightarrow> graph_report" where
  "add_advisory code msg path r = add_diagnostic code ''advisory'' msg path [] [] r"

definition add_warning :: "string \<Rightarrow> string \<Rightarrow> string \<Rightarrow> string list \<Rightarrow> string list \<Rightarrow> graph_report \<Rightarrow> graph_report" where
  "add_warning code msg path comps eds r = add_diagnostic code ''warning'' msg path comps eds r"

text \<open>\<open>add_error_if\<close> is an \<^verbatim>\<open>if\<close> statement whose body is one \<^verbatim>\<open>add_error\<close>.\<close>

definition add_error_if :: "bool \<Rightarrow> string \<Rightarrow> graph_report \<Rightarrow> graph_report" where
  "add_error_if b e r = (if b then add_error e r else r)"

definition add_errors :: "string list \<Rightarrow> graph_report \<Rightarrow> graph_report" where
  "add_errors es r = fold add_error es r"

section \<open>Properties\<close>

text \<open>A report is consistent: it is ok exactly when it has no error, and its error diagnostics are the errors, in order.\<close>

definition report_wf :: "graph_report \<Rightarrow> bool" where
  "report_wf r \<longleftrightarrow> (gr_ok r \<longleftrightarrow> gr_errors r = []) \<and>
     map gd_message (filter (\<lambda>d. gd_severity d = ''error'') (gr_diagnostics r)) = gr_errors r"

lemma make_diagnostic_frame:
  "gd_message (make_diagnostic e) = e" "gd_severity (make_diagnostic e) = ''error''" "gd_code (make_diagnostic e) = diagnostic_code_for e"
  by (simp_all add: make_diagnostic_def Let_def)

lemma report_wf_empty [simp, inv_intros]: "report_wf empty_report"
  by (simp add: report_wf_def empty_report_def)

lemma report_wf_add_error [simp, inv_intros]: "report_wf r \<Longrightarrow> report_wf (add_error e r)"
  by (simp add: report_wf_def add_error_def make_diagnostic_frame)

lemma report_wf_add_error_if [simp, inv_intros]: "report_wf r \<Longrightarrow> report_wf (add_error_if b e r)"
  by (simp add: add_error_if_def)

lemma report_wf_add_errors [simp, inv_intros]: "report_wf r \<Longrightarrow> report_wf (add_errors es r)"
  by (induction es arbitrary: r) (simp_all add: add_errors_def)

lemma report_wf_add_warning [simp, inv_intros]: "report_wf r \<Longrightarrow> report_wf (add_warning c m p cs es r)"
  by (simp add: report_wf_def add_warning_def add_diagnostic_def)

lemma report_wf_add_advisory [simp, inv_intros]: "report_wf r \<Longrightarrow> report_wf (add_advisory c m p r)"
  by (simp add: report_wf_def add_advisory_def add_diagnostic_def)

lemma gr_ok_add [simp]:
  "gr_ok (add_error e r) = False" "gr_ok (add_error_if b e r) = (\<not> b \<and> gr_ok r)"
  "gr_ok (add_warning c m p cs es r) = gr_ok r" "gr_ok (add_advisory c m p r) = gr_ok r"
  "gr_ok (add_errors es r) = (es = [] \<and> gr_ok r)"
proof -
  show "gr_ok (add_errors es r) = (es = [] \<and> gr_ok r)"
    by (induction es arbitrary: r) (simp_all add: add_errors_def add_error_def)
qed (simp_all add: add_error_def add_error_if_def add_warning_def add_advisory_def add_diagnostic_def)

lemma if_mem: "a \<in> S \<Longrightarrow> b \<in> S \<Longrightarrow> (if c then a else b) \<in> S"
  by simp

definition error_codes :: "string list" where
  "error_codes = [''unknown_component'', ''unknown_port'', ''payload_type_mismatch'', ''missing_required_input'',
    ''boundary_role_mismatch'', ''port_multiplicity_mismatch'', ''duplicate_id'', ''immediate_cycle_without_loop'',
    ''partial_composite_loop'', ''decorative_composite_loop'', ''multi_state_writer'', ''invalid_move_only_multireader'',
    ''invalid_channel_policy'', ''unsupported_lane_type'', ''trigger_missing_input'', ''incompatible_trigger_edge_mode'',
    ''unsupported_error_policy'', ''graph_validation_error'']"

lemma error_codes_registered:
  "\<forall>c \<in> set error_codes. (case graph_diagnostic_descriptor c of None \<Rightarrow> False | Some d \<Rightarrow> dd_severity d = ''error'')"
  by code_simp

lemma diagnostic_code_for_cases: "diagnostic_code_for e \<in> set error_codes"
  unfolding diagnostic_code_for_def error_codes_def
  by (intro if_mem) (simp_all only: list.set insert_iff simp_thms)

text \<open>Every error diagnostic is documented: whatever the message, the code that \<^verbatim>\<open>diagnostic_code_for\<close> picks is in the
  registry with severity \<^verbatim>\<open>error\<close>, and the diagnostic carries the registry's fix and category for it. The registry has no code twice.
\<close>

lemma diagnostics_registered:
  "(\<exists>d. graph_diagnostic_descriptor (gd_code (make_diagnostic e)) = Some d \<and> dd_severity d = ''error'' \<and>
      gd_suggested_fix (make_diagnostic e) = dd_suggested_fix d \<and> gd_category (make_diagnostic e) = dd_category d) \<and>
   distinct (map dd_code graph_diagnostic_registry)"
proof (rule conjI)
  obtain d where d: "graph_diagnostic_descriptor (diagnostic_code_for e) = Some d" "dd_severity d = ''error''"
    using bspec [OF error_codes_registered diagnostic_code_for_cases [of e]] by (auto split: option.splits)
  then show "\<exists>d. graph_diagnostic_descriptor (gd_code (make_diagnostic e)) = Some d \<and> dd_severity d = ''error'' \<and>
      gd_suggested_fix (make_diagnostic e) = dd_suggested_fix d \<and> gd_category (make_diagnostic e) = dd_category d"
    by (simp add: make_diagnostic_def Let_def suggested_fix_for_def graph_diagnostic_category_def)
  show "distinct (map dd_code graph_diagnostic_registry)" by code_simp
qed

end
