(* ===== verification/Topological_Order.thy ===== *)
theory Topological_Order
  imports Prelude "HOL-Library.Multiset"
begin

text \<open>
  Kahn's algorithm, the loop that \<^verbatim>\<open>src/graph.cpp\<close> runs twice: over the lifecycle dependencies of the components and over the
  regions of the compiled graph. \<open>arrange\<close> is what the code does to the ready queue after each insertion: nothing in the first
  case, a stable sort by priority in the second. The loop need not end for arbitrary counters, so it is a
  \<open>partial_function\<close>; the locale \<open>kahn_graph\<close> states when it does and what it returns.
\<close>

section \<open>The loop\<close>

fun release :: "('a list \<Rightarrow> 'a list) \<Rightarrow> 'a list \<Rightarrow> 'a list \<Rightarrow> ('a \<Rightarrow> nat) \<Rightarrow> 'a list \<times> ('a \<Rightarrow> nat)" where
  "release arrange [] ready deg = (ready, deg)"
| "release arrange (y # ys) ready deg =
     (let d = (if deg y > 0 then deg y - 1 else deg y)
      in release arrange ys (if d = 0 then arrange (ready @ [y]) else ready) (deg(y := d)))"

partial_function (option) kahn_loop ::
    "('a list \<Rightarrow> 'a list) \<Rightarrow> ('a \<Rightarrow> 'a list) \<Rightarrow> 'a list \<Rightarrow> ('a \<Rightarrow> nat) \<Rightarrow> 'a list \<Rightarrow> 'a list option" where
  "kahn_loop arrange succ ready deg order =
     (case ready of
        [] \<Rightarrow> Some order
      | x # rest \<Rightarrow>
          kahn_loop arrange succ (fst (release arrange (succ x) rest deg)) (snd (release arrange (succ x) rest deg)) (order @ [x]))"

declare kahn_loop.simps [code]

text \<open>Every element comes after all its predecessors.\<close>

definition topological :: "('a \<times> 'a) set \<Rightarrow> 'a list \<Rightarrow> bool" where
  "topological E xs \<longleftrightarrow> (\<forall>i < length xs. \<forall>x. (x, xs ! i) \<in> E \<longrightarrow> x \<in> set (take i xs))"

lemma topological_snoc: "topological E (xs @ [y]) \<longleftrightarrow> topological E xs \<and> (\<forall>x. (x, y) \<in> E \<longrightarrow> x \<in> set xs)"
  by (auto simp: topological_def nth_append less_Suc_eq)

lemma topological_Nil [simp]: "topological E []"
  by (simp add: topological_def)

lemma topological_acyclic:
  assumes "topological E xs" and "\<And>x y. (x, y) \<in> E \<Longrightarrow> y \<in> set xs"
  shows "acyclic E"
proof -
  have pos: "(x, y) \<in> E\<^sup>+ \<Longrightarrow> y = xs ! j \<Longrightarrow> j < length xs \<Longrightarrow> \<exists>i < j. x = xs ! i" for x y j
  proof (induction arbitrary: j rule: trancl_induct)
    case (base y)
    then have "x \<in> set (take j xs)" using assms(1) by (simp add: topological_def)
    with base.prems show ?case by (auto simp: in_set_conv_nth)
  next
    case (step y z)
    then have "y \<in> set (take j xs)" using assms(1) by (simp add: topological_def)
    then obtain k where k: "k < j" "y = xs ! k" using step.prems(2) by (auto simp: in_set_conv_nth)
    with step.IH [OF k(2)] step.prems(2) show ?case by (meson less_trans)
  qed
  show ?thesis unfolding acyclic_def
  proof (intro allI notI)
    fix x assume c: "(x, x) \<in> E\<^sup>+"
    then have "x \<in> set xs" using assms(2) by (meson tranclE)
    then have "\<exists>j < length xs. x = xs ! j" by (metis in_set_conv_nth)
    then obtain j where j: "j < length xs" "x = xs ! j" and least: "\<And>i. i < j \<Longrightarrow> x \<noteq> xs ! i"
      using exists_least_iff [of "\<lambda>j. j < length xs \<and> x = xs ! j"] by (metis less_trans)
    from pos [OF c j(2,1)] least show False by blast
  qed
qed

section \<open>Correctness\<close>

locale kahn_graph =
  fixes nodes :: "'a list"
    and succ :: "'a \<Rightarrow> 'a list"
    and arrange :: "'a list \<Rightarrow> 'a list"
  assumes distinct_nodes: "distinct nodes"
    and succ_nodes: "x \<in> set nodes \<Longrightarrow> set (succ x) \<subseteq> set nodes"
    and distinct_succ: "x \<in> set nodes \<Longrightarrow> distinct (succ x)"
    and mset_arrange: "mset (arrange xs) = mset xs"
begin

definition arcs :: "('a \<times> 'a) set" where
  "arcs = {(x, y). x \<in> set nodes \<and> y \<in> set (succ x)}"

definition waiting_on :: "'a list \<Rightarrow> 'a \<Rightarrow> nat" where
  "waiting_on order y = card {x \<in> set nodes. x \<notin> set order \<and> y \<in> set (succ x)}"

definition kahn_inv :: "'a list \<Rightarrow> ('a \<Rightarrow> nat) \<Rightarrow> 'a list \<Rightarrow> bool" where
  "kahn_inv ready deg order \<longleftrightarrow>
     distinct (order @ ready) \<and> set (order @ ready) \<subseteq> set nodes \<and>
     (\<forall>y \<in> set nodes. deg y = waiting_on order y \<and> (deg y = 0 \<longleftrightarrow> y \<in> set (order @ ready))) \<and>
     topological arcs order"

lemma distinct_arrange: "distinct (arrange xs) = distinct xs" and set_arrange: "set (arrange xs) = set xs"
  using mset_arrange [of xs] by (metis mset_eq_imp_distinct_iff, metis mset_eq_setD)

lemma release_steps:
  assumes "distinct ys" and "\<forall>y \<in> set ys. deg y > 0" and "distinct (used @ ready)"
    and "set ys \<inter> set (used @ ready) = {}"
  shows "snd (release arrange ys ready deg) = (\<lambda>y. if y \<in> set ys then deg y - 1 else deg y) \<and>
    set (fst (release arrange ys ready deg)) = set ready \<union> {y \<in> set ys. deg y = 1} \<and>
    distinct (used @ fst (release arrange ys ready deg))"
  using assms
proof (induction ys arbitrary: ready deg)
  case (Cons y ys)
  let ?deg = "deg(y := deg y - 1)" and ?ready = "if deg y - 1 = 0 then arrange (ready @ [y]) else ready"
  have step: "release arrange (y # ys) ready deg = release arrange ys ?ready ?deg" using Cons.prems(2) by simp
  have one: "deg y - 1 = 0 \<longleftrightarrow> deg y = 1" using Cons.prems(2) by auto
  have "distinct ys" "\<forall>z \<in> set ys. ?deg z > 0" "distinct (used @ ?ready)" "set ys \<inter> set (used @ ?ready) = {}"
    using Cons.prems by (auto simp: distinct_arrange set_arrange split: if_splits)
  note ih = Cons.IH [OF this]
  have a: "(\<lambda>z. if z \<in> set ys then ?deg z - 1 else ?deg z) = (\<lambda>z. if z \<in> set (y # ys) then deg z - 1 else deg z)"
    using Cons.prems(1) by (auto simp: fun_eq_iff)
  have b: "set ?ready \<union> {z \<in> set ys. ?deg z = 1} = set ready \<union> {z \<in> set (y # ys). deg z = 1}"
    using Cons.prems(1) one by (auto simp: set_arrange)
  from ih [unfolded a b] show ?case unfolding step .
qed simp

lemmas release_effect = release_steps [THEN conjunct1] release_steps [THEN conjunct2, THEN conjunct1]
  release_steps [THEN conjunct2, THEN conjunct2]

lemma waiting_on_snoc:
  assumes "x \<in> set nodes" and "x \<notin> set order"
  shows "waiting_on (order @ [x]) y = (if y \<in> set (succ x) then waiting_on order y - 1 else waiting_on order y)"
proof -
  let ?W = "{z \<in> set nodes. z \<notin> set order \<and> y \<in> set (succ z)}"
  have "{z \<in> set nodes. z \<notin> set (order @ [x]) \<and> y \<in> set (succ z)} = ?W - {x}" by auto
  then show ?thesis using assms by (auto simp: waiting_on_def card_Diff_singleton)
qed

lemma waiting_on_pos:
  assumes "x \<in> set nodes" and "x \<notin> set order" and "y \<in> set (succ x)"
  shows "waiting_on order y > 0"
  unfolding waiting_on_def using assms by (subst card_gt_0_iff) auto

lemma kahn_inv_step:
  assumes inv: "kahn_inv (x # rest) deg order"
  shows "kahn_inv (fst (release arrange (succ x) rest deg)) (snd (release arrange (succ x) rest deg)) (order @ [x])"
proof -
  have x: "x \<in> set nodes" "x \<notin> set order" and d: "distinct ((order @ [x]) @ rest)" and sub: "set (order @ x # rest) \<subseteq> set nodes"
    and deg: "\<And>y. y \<in> set nodes \<Longrightarrow> deg y = waiting_on order y"
    and zero: "\<And>y. y \<in> set nodes \<Longrightarrow> deg y = 0 \<longleftrightarrow> y \<in> set (order @ x # rest)" and topo: "topological arcs order"
    using inv by (auto simp: kahn_inv_def)
  have pos: "\<forall>y \<in> set (succ x). deg y > 0" using succ_nodes [OF x(1)] deg waiting_on_pos [OF x] by auto
  have disj: "set (succ x) \<inter> set ((order @ [x]) @ rest) = {}"
  proof (rule ccontr)
    assume "set (succ x) \<inter> set ((order @ [x]) @ rest) \<noteq> {}"
    then obtain y where "y \<in> set (succ x)" "y \<in> set (order @ x # rest)" by auto
    with pos zero succ_nodes [OF x(1)] show False by (metis subset_iff less_numeral_extra(3))
  qed
  note rel = release_effect [OF distinct_succ [OF x(1)] pos d disj]
  let ?ready = "fst (release arrange (succ x) rest deg)" and ?deg = "snd (release arrange (succ x) rest deg)"
  have deg': "?deg y = waiting_on (order @ [x]) y" if "y \<in> set nodes" for y
    unfolding rel(1) waiting_on_snoc [OF x] using deg that by auto
  have zero': "?deg y = 0 \<longleftrightarrow> y \<in> set ((order @ [x]) @ ?ready)" if y: "y \<in> set nodes" for y
  proof (cases "y \<in> set (succ x)")
    case True
    then have "y \<notin> set (order @ x # rest)" and "deg y > 0" using disj pos by auto
    with True show ?thesis unfolding rel(1) by (auto simp: rel(2))
  next
    case False
    then show ?thesis unfolding rel(1) using zero [OF y] by (auto simp: rel(2))
  qed
  have "waiting_on order x = 0" using zero [OF x(1)] deg [OF x(1)] by simp
  then have "(z, x) \<in> arcs \<longrightarrow> z \<in> set order" for z
    using waiting_on_pos [of z order x] by (auto simp: arcs_def)
  with topo have "topological arcs (order @ [x])" by (simp add: topological_snoc)
  moreover have "set ?ready \<subseteq> set nodes" using rel(2) sub succ_nodes [OF x(1)] by auto
  ultimately show ?thesis using rel(3) deg' zero' x sub by (simp add: kahn_inv_def)
qed

lemma kahn_loop_returns:
  "kahn_inv ready deg order \<Longrightarrow>
     \<exists>result deg'. kahn_loop arrange succ ready deg order = Some result \<and> kahn_inv [] deg' result"
proof (induction "length nodes - length order" arbitrary: ready deg order rule: less_induct)
  case less
  show ?case
  proof (cases ready)
    case Nil
    then show ?thesis using less.prems by (subst kahn_loop.simps) auto
  next
    case (Cons x rest)
    have "distinct (order @ x # rest)" "set (order @ x # rest) \<subseteq> set nodes"
      using less.prems Cons by (auto simp: kahn_inv_def)
    then have "length (order @ x # rest) \<le> length nodes"
      using card_mono [of "set nodes" "set (order @ x # rest)"] distinct_card distinct_nodes by (metis List.finite_set)
    then have "length nodes - length (order @ [x]) < length nodes - length order" by simp
    from less.hyps [OF this kahn_inv_step [OF less.prems [unfolded Cons]]] Cons show ?thesis
      by (subst kahn_loop.simps) simp
  qed
qed

lemma kahn_inv_start:
  assumes "\<And>y. y \<in> set nodes \<Longrightarrow> deg y = card {x \<in> set nodes. y \<in> set (succ x)}"
  shows "kahn_inv (arrange (filter (\<lambda>x. deg x = 0) nodes)) deg []"
  using assms distinct_nodes by (auto simp: kahn_inv_def waiting_on_def distinct_arrange set_arrange)

lemma kahn_inv_end:
  assumes "kahn_inv [] deg order"
  shows "length order = length nodes \<longleftrightarrow> acyclic arcs"
proof -
  have d: "distinct order" "set order \<subseteq> set nodes" and topo: "topological arcs order"
    and left: "\<And>y. y \<in> set nodes \<Longrightarrow> y \<notin> set order \<Longrightarrow> \<exists>x. x \<in> set nodes \<and> x \<notin> set order \<and> (x, y) \<in> arcs"
  proof -
    show "distinct order" "set order \<subseteq> set nodes" "topological arcs order" using assms by (simp_all add: kahn_inv_def)
    fix y assume y: "y \<in> set nodes" "y \<notin> set order"
    then have "waiting_on order y \<noteq> 0" using assms unfolding kahn_inv_def by (metis append_Nil2)
    then have "{x \<in> set nodes. x \<notin> set order \<and> y \<in> set (succ x)} \<noteq> {}" unfolding waiting_on_def by fastforce
    then show "\<exists>x. x \<in> set nodes \<and> x \<notin> set order \<and> (x, y) \<in> arcs" by (auto simp: arcs_def)
  qed
  have len: "length order = length nodes \<longleftrightarrow> set order = set nodes"
    using d distinct_nodes by (metis List.finite_set card_subset_eq distinct_card)
  show ?thesis unfolding len
  proof
    assume all: "set order = set nodes"
    show "acyclic arcs" by (rule topological_acyclic [OF topo]) (use succ_nodes all in \<open>auto simp: arcs_def\<close>)
  next
    assume ac: "acyclic arcs"
    have "finite arcs" by (rule finite_subset [of _ "set nodes \<times> set nodes"]) (use succ_nodes in \<open>auto simp: arcs_def\<close>)
    then have wf: "wf arcs" using ac by (rule finite_acyclic_wf)
    show "set order = set nodes"
    proof (rule ccontr)
      assume "set order \<noteq> set nodes"
      then obtain z where "z \<in> set nodes - set order" using d(2) by auto
      then obtain y where y: "y \<in> set nodes - set order" and min: "\<And>x. (x, y) \<in> arcs \<Longrightarrow> x \<notin> set nodes - set order"
        using wfE_min [OF wf] by metis
      with left [of y] show False by blast
    qed
  qed
qed

theorem kahn_correct:
  assumes "\<And>y. y \<in> set nodes \<Longrightarrow> deg y = card {x \<in> set nodes. y \<in> set (succ x)}"
  shows "\<exists>order. kahn_loop arrange succ (arrange (filter (\<lambda>x. deg x = 0) nodes)) deg [] = Some order \<and>
    distinct order \<and> set order \<subseteq> set nodes \<and> topological arcs order \<and> (length order = length nodes \<longleftrightarrow> acyclic arcs)"
proof -
  from kahn_loop_returns [OF kahn_inv_start [OF assms]] obtain order deg' where
    r: "kahn_loop arrange succ (arrange (filter (\<lambda>x. deg x = 0) nodes)) deg [] = Some order" and inv: "kahn_inv [] deg' order"
    by blast
  from inv kahn_inv_end [OF inv] r show ?thesis by (auto simp: kahn_inv_def)
qed

end

end
