(* ===== verification/Tarjan.thy ===== *)
theory Tarjan
  imports Prelude
begin

text \<open>
  \<^verbatim>\<open>tarjan_scc\<close> of \<^verbatim>\<open>src/graph.cpp\<close>: Tarjan's algorithm for strongly connected components, with the recursion of the lambda
  \<^verbatim>\<open>strong_connect\<close>. \<open>visit_edges\<close> is the loop in its body. The recursion depth is bounded by a fuel argument, so
  \<open>None\<close> would be a recursion deeper than the fuel; the locale \<open>tarjan_graph\<close> shows that one more than the number of nodes is enough and
  that the result is the partition of the nodes into strongly connected components. The stack (a \<^verbatim>\<open>std::vector\<close>
  used at its back) is a list with its top first.
\<close>

section \<open>The algorithm\<close>

record 'a tarjan_state =
  index_of :: "'a \<rightharpoonup> nat"
  lowlink :: "'a \<rightharpoonup> nat"
  on_stack :: "'a set"
  t_stack :: "'a list"
  next_index :: nat
  sccs :: "'a list list"

definition tarjan_start :: "'a tarjan_state" where
  "tarjan_start = \<lparr>index_of = Map.empty, lowlink = Map.empty, on_stack = {}, t_stack = [], next_index = 0, sccs = []\<rparr>"

text \<open>The loop that pops the stack down to the root of a component.\<close>

fun pop_component :: "'a \<Rightarrow> 'a list \<Rightarrow> 'a list \<times> 'a list" where
  "pop_component node [] = ([], [])"
| "pop_component node (x # xs) =
     (if x = node then ([x], xs) else (let (c, rest) = pop_component node xs in (x # c, rest)))"

definition open_node :: "'a \<Rightarrow> 'a tarjan_state \<Rightarrow> 'a tarjan_state" where
  "open_node v s =
     s\<lparr>index_of := (index_of s)(v \<mapsto> next_index s), lowlink := (lowlink s)(v \<mapsto> next_index s), next_index := next_index s + 1,
       t_stack := v # t_stack s, on_stack := insert v (on_stack s)\<rparr>"

definition lower :: "'a \<Rightarrow> nat \<Rightarrow> 'a tarjan_state \<Rightarrow> 'a tarjan_state" where
  "lower v n s = s\<lparr>lowlink := (lowlink s)(v \<mapsto> min (the (lowlink s v)) n)\<rparr>"

definition close_node :: "'a::linorder \<Rightarrow> 'a tarjan_state \<Rightarrow> 'a tarjan_state" where
  "close_node v s =
     (if lowlink s v = index_of s v then
        (let (c, rest) = pop_component v (t_stack s)
         in s\<lparr>t_stack := rest, on_stack := on_stack s - set c, sccs := sccs s @ [sort c]\<rparr>)
      else s)"

fun strong_connect :: "nat \<Rightarrow> ('a::linorder \<Rightarrow> 'a list) \<Rightarrow> 'a \<Rightarrow> 'a tarjan_state \<Rightarrow> 'a tarjan_state option"
  and visit_edges :: "nat \<Rightarrow> ('a \<Rightarrow> 'a list) \<Rightarrow> 'a \<Rightarrow> 'a list \<Rightarrow> 'a tarjan_state \<Rightarrow> 'a tarjan_state option" where
  "strong_connect 0 E v s = None"
| "strong_connect (Suc f) E v s = map_option (close_node v) (visit_edges f E v (E v) (open_node v s))"
| "visit_edges f E v [] s = Some s"
| "visit_edges f E v (w # ws) s =
     (if index_of s w = None then
        (case strong_connect f E w s of
           None \<Rightarrow> None
         | Some t \<Rightarrow> visit_edges f E v ws (lower v (the (lowlink t w)) t))
      else if w \<in> on_stack s then visit_edges f E v ws (lower v (the (index_of s w)) s)
      else visit_edges f E v ws s)"

fun tarjan_loop :: "nat \<Rightarrow> ('a::linorder \<Rightarrow> 'a list) \<Rightarrow> 'a list \<Rightarrow> 'a tarjan_state \<Rightarrow> 'a tarjan_state option" where
  "tarjan_loop f E [] s = Some s"
| "tarjan_loop f E (v # vs) s =
     (if index_of s v = None
      then (case strong_connect f E v s of None \<Rightarrow> None | Some t \<Rightarrow> tarjan_loop f E vs t)
      else tarjan_loop f E vs s)"

definition tarjan_scc :: "'a::linorder list \<Rightarrow> ('a \<Rightarrow> 'a list) \<Rightarrow> 'a list list option" where
  "tarjan_scc nodes E = map_option sccs (tarjan_loop (Suc (length nodes)) E nodes tarjan_start)"

section \<open>Correctness\<close>

locale tarjan_graph =
  fixes E :: "'a::linorder \<Rightarrow> 'a list"
    and U :: "'a set"
  assumes finite_U: "finite U"
    and closed_U: "x \<in> U \<Longrightarrow> set (E x) \<subseteq> U"
begin

definition reach :: "'a \<Rightarrow> 'a \<Rightarrow> bool" where
  "reach = (\<lambda>x y. y \<in> set (E x))\<^sup>*\<^sup>*"

lemma reach_refl [simp]: "reach x x"
  by (simp add: reach_def)

lemma reach_edge: "y \<in> set (E x) \<Longrightarrow> reach x y"
  by (simp add: reach_def r_into_rtranclp)

lemma reach_trans: "reach x y \<Longrightarrow> reach y z \<Longrightarrow> reach x z"
  by (simp add: reach_def)

lemma reach_closed: "reach x y \<Longrightarrow> x \<in> A \<Longrightarrow> (\<And>z. z \<in> A \<Longrightarrow> set (E z) \<subseteq> A) \<Longrightarrow> y \<in> A"
  unfolding reach_def by (induction rule: rtranclp_induct) auto

definition scc_of :: "'a \<Rightarrow> 'a set" where
  "scc_of x = {y. reach x y \<and> reach y x}"

definition is_scc :: "'a list \<Rightarrow> bool" where
  "is_scc c \<longleftrightarrow> c \<noteq> [] \<and> sorted c \<and> distinct c \<and> (\<forall>x \<in> set c. set c = scc_of x)"

abbreviation num :: "'a tarjan_state \<Rightarrow> 'a \<Rightarrow> nat" where
  "num s x \<equiv> the (index_of s x)"

abbreviation visited :: "'a tarjan_state \<Rightarrow> 'a set" where
  "visited s \<equiv> dom (index_of s)"

definition finished :: "'a tarjan_state \<Rightarrow> 'a set" where
  "finished s = \<Union> (set ` set (sccs s))"

text \<open>The invariant; \<open>G\<close> are the nodes whose call of \<open>strong_connect\<close> is in progress.\<close>

definition stack_inv :: "'a tarjan_state \<Rightarrow> bool" where
  "stack_inv s \<longleftrightarrow> visited s = set (t_stack s) \<union> finished s \<and> set (t_stack s) \<inter> finished s = {} \<and> distinct (t_stack s) \<and>
     on_stack s = set (t_stack s) \<and> sorted_wrt (\<lambda>x y. num s y < num s x) (t_stack s) \<and>
     (\<forall>x \<in> visited s. num s x < next_index s) \<and> visited s \<subseteq> U"

definition scc_inv :: "'a tarjan_state \<Rightarrow> bool" where
  "scc_inv s \<longleftrightarrow> (\<forall>c \<in> set (sccs s). is_scc c) \<and> (\<forall>x \<in> finished s. set (E x) \<subseteq> finished s) \<and> distinct (concat (sccs s))"

definition reach_inv :: "'a set \<Rightarrow> 'a tarjan_state \<Rightarrow> bool" where
  "reach_inv G s \<longleftrightarrow> G \<subseteq> set (t_stack s) \<and> (\<forall>x \<in> visited s - G. set (E x) \<subseteq> visited s) \<and>
     (\<forall>x \<in> set (t_stack s). \<forall>y \<in> set (t_stack s). num s x \<le> num s y \<longrightarrow> reach x y) \<and>
     (\<forall>y \<in> set (t_stack s). \<exists>x \<in> G. num s x \<le> num s y \<and> reach y x)"

definition tarjan_inv :: "'a set \<Rightarrow> 'a tarjan_state \<Rightarrow> bool" where
  "tarjan_inv G s \<longleftrightarrow> stack_inv s \<and> scc_inv s \<and> reach_inv G s"

text \<open>A later state: it only adds nodes, and new stack entries lie on top of the old ones.\<close>

definition extends :: "'a tarjan_state \<Rightarrow> 'a list \<Rightarrow> 'a tarjan_state \<Rightarrow> bool" where
  "extends s T t \<longleftrightarrow> index_of s \<subseteq>\<^sub>m index_of t \<and> t_stack t = T @ t_stack s \<and> next_index s \<le> next_index t \<and>
     set T \<inter> visited s = {} \<and> (\<forall>x \<in> visited t - visited s. next_index s \<le> num t x)"

lemma extends_refl [simp]: "extends s [] s"
  by (simp add: extends_def)

lemma extends_num: "extends s T t \<Longrightarrow> x \<in> visited s \<Longrightarrow> index_of t x = index_of s x"
  by (auto simp: extends_def map_le_def)

lemma extends_visited: "extends s T t \<Longrightarrow> visited s \<subseteq> visited t"
  by (auto simp: extends_def map_le_implies_dom_le subsetD)

lemma extends_trans:
  assumes "extends s T t" and "extends t T' u"
  shows "extends s (T' @ T) u"
proof -
  have "next_index s \<le> num u x" if x: "x \<in> visited u - visited s" for x
  proof (cases "x \<in> visited t")
    case True
    then show ?thesis using x assms(1) extends_num [OF assms(2) True] by (auto simp: extends_def)
  next
    case False
    then have "next_index t \<le> num u x" using x assms(2) by (auto simp: extends_def)
    then show ?thesis using assms(1) by (auto simp: extends_def)
  qed
  moreover have "set (T' @ T) \<inter> visited s = {}"
    using assms extends_visited [OF assms(1)] unfolding extends_def set_append by blast
  ultimately show ?thesis using assms by (auto simp: extends_def intro: map_le_trans)
qed

text \<open>What the low link of a node \<open>v\<close> in progress says after the edges to \<open>ds\<close> have been followed.\<close>

definition low_inv :: "'a \<Rightarrow> 'a list \<Rightarrow> 'a tarjan_state \<Rightarrow> bool" where
  "low_inv v ds s \<longleftrightarrow>
     (\<exists>n. lowlink s v = Some n \<and> n \<le> num s v \<and> (\<exists>y \<in> set (t_stack s). num s y = n \<and> reach v y) \<and>
       (\<forall>x \<in> set (t_stack s). \<forall>y \<in> set (t_stack s). num s v \<le> num s x \<and> num s y < num s v \<and>
          (if x = v then y \<in> set ds else y \<in> set (E x)) \<longrightarrow> n \<le> num s y)) \<and>
     set ds \<subseteq> visited s"

text \<open>What the caller learns about a new node \<open>w\<close> from the call.\<close>

definition low_result :: "'a \<Rightarrow> 'a tarjan_state \<Rightarrow> 'a list \<Rightarrow> 'a tarjan_state \<Rightarrow> bool" where
  "low_result w s T t \<longleftrightarrow>
     (\<exists>n. lowlink t w = Some n \<and> n \<le> num t w \<and>
       (w \<notin> set (t_stack t) \<longrightarrow> n = num t w) \<and>
       (w \<in> set (t_stack t) \<longrightarrow> (\<exists>y \<in> set (t_stack t). num t y = n \<and> reach w y)) \<and>
       (\<forall>x \<in> set T. \<forall>y \<in> set (t_stack s). y \<in> set (E x) \<longrightarrow> n \<le> num s y))"

lemma lower_frame [simp]:
  "index_of (lower v n s) = index_of s" "t_stack (lower v n s) = t_stack s" "on_stack (lower v n s) = on_stack s"
  "next_index (lower v n s) = next_index s" "sccs (lower v n s) = sccs s"
  by (simp_all add: lower_def)

lemma lowlink_lower: "x \<noteq> v \<Longrightarrow> lowlink (lower v n s) x = lowlink s x"
  by (simp add: lower_def)

lemma tarjan_inv_lower [simp]: "tarjan_inv G (lower v n s) = tarjan_inv G s"
  by (simp add: tarjan_inv_def stack_inv_def scc_inv_def reach_inv_def finished_def)

lemma extends_lower [simp]: "extends s T (lower v n t) = extends s T t"
  by (simp add: extends_def)

lemma stack_visited: "stack_inv s \<Longrightarrow> set (t_stack s) \<subseteq> visited s"
  by (auto simp: stack_inv_def)

lemma stack_below:
  assumes "stack_inv t" and "t_stack t = T @ v # S"
  shows "x \<in> set T \<Longrightarrow> num t v < num t x" and "y \<in> set S \<Longrightarrow> num t y < num t v" and "v \<notin> set T" and "v \<notin> set S"
    and "set T \<inter> set S = {}"
  using assms by (auto simp: stack_inv_def sorted_wrt_append)

section \<open>Opening a node\<close>

lemma open_inv:
  assumes inv: "tarjan_inv G s" and v: "v \<notin> visited s" "v \<in> U" and g: "\<forall>g \<in> G. reach g v"
  shows "tarjan_inv (insert v G) (open_node v s)" and "extends s [v] (open_node v s)" and "low_inv v [] (open_node v s)"
proof -
  let ?t = "open_node v s"
  have nv: "num ?t v = next_index s" and nx: "x \<in> visited s \<Longrightarrow> num ?t x = num s x" for x
    using v by (auto simp: open_node_def)
  have sv: "set (t_stack s) \<subseteq> visited s" using inv by (simp add: tarjan_inv_def stack_visited)
  have old: "x \<in> visited s \<Longrightarrow> num s x < next_index s" for x using inv by (auto simp: tarjan_inv_def stack_inv_def)
  have fin: "finished ?t = finished s" by (simp add: finished_def open_node_def)
  have "sorted_wrt (\<lambda>x y. num ?t y < num ?t x) (t_stack s)"
    using inv sv nx unfolding tarjan_inv_def stack_inv_def by (auto elim!: sorted_wrt_mono_rel [rotated])
  moreover have "\<forall>y \<in> set (t_stack s). num ?t y < num ?t v" using sv nx nv old by (metis subset_iff)
  ultimately have "stack_inv ?t"
    using inv v sv old unfolding tarjan_inv_def stack_inv_def fin by (auto simp: open_node_def less_Suc_eq)
  moreover have "scc_inv ?t" using inv unfolding tarjan_inv_def scc_inv_def fin by (simp add: open_node_def)
  moreover have "reach_inv (insert v G) ?t"
  proof -
    have R: "G \<subseteq> set (t_stack s)" "\<forall>x \<in> visited s - G. set (E x) \<subseteq> visited s"
      "\<forall>x \<in> set (t_stack s). \<forall>y \<in> set (t_stack s). num s x \<le> num s y \<longrightarrow> reach x y"
      "\<forall>y \<in> set (t_stack s). \<exists>x \<in> G. num s x \<le> num s y \<and> reach y x"
      using inv by (simp_all add: tarjan_inv_def reach_inv_def)
    have st: "set (t_stack ?t) = insert v (set (t_stack s))" and vis: "visited ?t = insert v (visited s)"
      by (simp_all add: open_node_def)
    have to_v: "reach x v" if "x \<in> set (t_stack s)" for x using R(4) that g reach_trans by blast
    have not_v: "\<not> num ?t v \<le> num ?t y" if "y \<in> set (t_stack s)" for y using that sv nx nv old by fastforce
    have nS: "num ?t x = num s x" if "x \<in> set (t_stack s)" for x using that sv nx by blast
    show ?thesis unfolding reach_inv_def st vis
    proof (intro conjI)
      show "insert v G \<subseteq> insert v (set (t_stack s))" using R(1) by blast
      show "\<forall>x \<in> insert v (visited s) - insert v G. set (E x) \<subseteq> insert v (visited s)" using R(2) by blast
      show "\<forall>x \<in> insert v (set (t_stack s)). \<forall>y \<in> insert v (set (t_stack s)). num ?t x \<le> num ?t y \<longrightarrow> reach x y"
        using R(3) to_v not_v nS by auto
      show "\<forall>y \<in> insert v (set (t_stack s)). \<exists>x \<in> insert v G. num ?t x \<le> num ?t y \<and> reach y x"
        using R(1,4) nS by (metis insert_iff order_refl reach_refl subset_iff)
    qed
  qed
  ultimately show "tarjan_inv (insert v G) ?t" by (simp add: tarjan_inv_def)
  show "extends s [v] ?t" using v by (auto simp: extends_def open_node_def map_le_def)
  show "low_inv v [] ?t" by (auto simp: low_inv_def open_node_def) (metis old sv subset_iff not_le)
qed

section \<open>Following an edge\<close>

lemma low_inv_new:
  assumes inv: "stack_inv s" "stack_inv t" and low: "low_inv v ds s" and v: "v \<in> set (t_stack s)" "lowlink t v = lowlink s v"
    and ext: "extends s T t" and res: "low_result w s T t" and w: "w \<in> set (E v)" "w \<notin> visited s" "w \<in> visited t"
  shows "low_inv v (ds @ [w]) (lower v (the (lowlink t w)) t)"
proof -
  obtain m y0 where m: "lowlink s v = Some m" "m \<le> num s v" and y0: "y0 \<in> set (t_stack s)" "num s y0 = m" "reach v y0"
    and old: "\<And>x y. x \<in> set (t_stack s) \<Longrightarrow> y \<in> set (t_stack s) \<Longrightarrow> num s v \<le> num s x \<Longrightarrow> num s y < num s v \<Longrightarrow>
      (if x = v then y \<in> set ds else y \<in> set (E x)) \<Longrightarrow> m \<le> num s y" and ds: "set ds \<subseteq> visited s"
    using low unfolding low_inv_def by blast
  obtain n where n: "lowlink t w = Some n" "w \<notin> set (t_stack t) \<Longrightarrow> n = num t w"
      "w \<in> set (t_stack t) \<Longrightarrow> \<exists>y \<in> set (t_stack t). num t y = n \<and> reach w y"
    and new: "\<And>x y. x \<in> set T \<Longrightarrow> y \<in> set (t_stack s) \<Longrightarrow> y \<in> set (E x) \<Longrightarrow> n \<le> num s y"
    using res unfolding low_result_def by blast
  have sv: "set (t_stack s) \<subseteq> visited s" using inv(1) by (rule stack_visited)
  have same: "x \<in> set (t_stack s) \<Longrightarrow> num t x = num s x" for x using sv extends_num [OF ext] by (metis subset_iff)
  have st: "t_stack t = T @ t_stack s" and fresh: "\<And>x. x \<in> visited t \<Longrightarrow> x \<notin> visited s \<Longrightarrow> next_index s \<le> num t x"
    and disj: "set T \<inter> visited s = {}" using ext by (auto simp: extends_def)
  have vnext: "num s v < next_index s" using inv(1) v(1) sv by (auto simp: stack_inv_def)
  let ?u = "lower v (the (lowlink t w)) t"
  have lu: "lowlink ?u v = Some (min m n)" using v(2) m(1) n(1) by (simp add: lower_def)
  have "\<exists>y \<in> set (t_stack t). num t y = min m n \<and> reach v y"
  proof (cases "m \<le> n")
    case True
    then show ?thesis using y0 same st by (auto simp: min_def)
  next
    case False
    then have "w \<in> set (t_stack t)" using n(2) fresh [OF w(3,2)] vnext m(2) by force
    with n(3) w(1) reach_edge reach_trans False show ?thesis by (fastforce simp: min_def)
  qed
  moreover have "min m n \<le> num t y"
    if x: "x \<in> set (t_stack t)" and y: "y \<in> set (t_stack t)" and xv: "num t v \<le> num t x" and yv: "num t y < num t v"
      and e: "if x = v then y \<in> set (ds @ [w]) else y \<in> set (E x)" for x y
  proof -
    have yl: "num t y < next_index s" using yv vnext same [OF v(1)] by simp
    have "y \<in> visited t" using y stack_visited [OF inv(2)] by blast
    then have yvis: "y \<in> visited s" using fresh [of y] yl by force
    then have ys: "y \<in> set (t_stack s)" using y st disj by auto
    show ?thesis
    proof (cases "x \<in> set T")
      case True
      then have "x \<noteq> v" using disj v(1) sv by blast
      with True new ys e same show ?thesis by fastforce
    next
      case False
      then have xs: "x \<in> set (t_stack s)" using x st by simp
      have "if x = v then y \<in> set ds else y \<in> set (E x)" using e yvis w(2) by (auto split: if_splits)
      from old [OF xs ys _ _ this] xv yv same xs ys v(1) show ?thesis by simp
    qed
  qed
  moreover have "set (ds @ [w]) \<subseteq> visited t" using ds w(3) extends_visited [OF ext] by auto
  moreover have "min m n \<le> num t v" using m(2) same [OF v(1)] by simp
  ultimately show ?thesis unfolding low_inv_def lower_frame lu by blast
qed

lemma low_inv_back:
  assumes low: "low_inv v ds s" and w: "w \<in> set (E v)" "w \<in> set (t_stack s)" "w \<in> visited s"
  shows "low_inv v (ds @ [w]) (lower v (num s w) s)"
proof -
  obtain m y0 where m: "lowlink s v = Some m" "m \<le> num s v" and y0: "y0 \<in> set (t_stack s)" "num s y0 = m" "reach v y0"
    and old: "\<And>x y. x \<in> set (t_stack s) \<Longrightarrow> y \<in> set (t_stack s) \<Longrightarrow> num s v \<le> num s x \<Longrightarrow> num s y < num s v \<Longrightarrow>
      (if x = v then y \<in> set ds else y \<in> set (E x)) \<Longrightarrow> m \<le> num s y" and ds: "set ds \<subseteq> visited s"
    using low unfolding low_inv_def by blast
  have lu: "lowlink (lower v (num s w) s) v = Some (min m (num s w))" by (simp add: lower_def m(1))
  have "\<exists>y \<in> set (t_stack s). num s y = min m (num s w) \<and> reach v y"
    using y0 w(2) reach_edge [OF w(1)] by (cases "m \<le> num s w") (auto simp: min_def)
  moreover have "min m (num s w) \<le> num s y"
    if "x \<in> set (t_stack s)" "y \<in> set (t_stack s)" "num s v \<le> num s x" "num s y < num s v"
      "if x = v then y \<in> set (ds @ [w]) else y \<in> set (E x)" for x y
    using that old [OF that(1-4)] by (cases "x = v \<and> y = w") (auto split: if_splits)
  ultimately show ?thesis unfolding low_inv_def lower_frame lu using m(2) ds w(3) by (auto simp: min_le_iff_disj)
qed

lemma low_inv_cross: "low_inv v ds s \<Longrightarrow> w \<in> visited s \<Longrightarrow> w \<notin> set (t_stack s) \<Longrightarrow> low_inv v (ds @ [w]) s"
  unfolding low_inv_def by (elim conjE exE) (auto split: if_splits)

section \<open>Closing a node\<close>

lemma pop_component_split: "v \<notin> set T \<Longrightarrow> pop_component v (T @ v # S) = (T @ [v], S)"
  by (induction T) auto

lemma close_component_is_scc:
  assumes inv: "tarjan_inv (insert v G) t" and st: "t_stack t = T @ v # S" and G: "G \<subseteq> set S" "\<forall>g \<in> G. reach g v"
    and low: "low_inv v (E v) t" "lowlink t v = index_of t v"
  shows "set (T @ [v]) = scc_of v" and "\<forall>x \<in> set (T @ [v]). set (E x) \<subseteq> set (T @ [v]) \<union> finished t"
proof -
  have S: "stack_inv t" and scc: "scc_inv t" and R: "reach_inv (insert v G) t" using inv by (simp_all add: tarjan_inv_def)
  note below = stack_below [OF S st]
  have vis: "visited t = set (T @ [v]) \<union> set S \<union> finished t" using S st by (auto simp: stack_inv_def)
  have lowS: "num t v \<le> num t y" if "x \<in> set (T @ [v])" "y \<in> set S" "y \<in> set (E x)" for x y
  proof -
    have "num t v \<le> num t x" using that(1) below(1) [of x] by (auto simp: less_imp_le)
    moreover have "if x = v then y \<in> set (E v) else y \<in> set (E x)" using that(3) by auto
    ultimately show ?thesis
      using low below(2) [OF that(2)] that(1,2) unfolding low_inv_def st by (metis Un_iff list.set_intros(1,2) option.sel set_append
          empty_iff insert_iff list.set(1,2))
  qed
  have succ: "set (E x) \<subseteq> visited t" if "x \<in> set (T @ [v])" for x
  proof (cases "x = v")
    case True
    then show ?thesis using low(1) by (auto simp: low_inv_def)
  next
    case False
    then have "x \<in> visited t - insert v G" using that vis G(1) below(5) by auto
    then show ?thesis using R by (auto simp: reach_inv_def)
  qed
  show closed: "\<forall>x \<in> set (T @ [v]). set (E x) \<subseteq> set (T @ [v]) \<union> finished t"
  proof (intro ballI subsetI)
    fix x y assume x: "x \<in> set (T @ [v])" and y: "y \<in> set (E x)"
    have "y \<notin> set S" using lowS [OF x _ y] below(2) [of y] by (auto simp: leD)
    then show "y \<in> set (T @ [v]) \<union> finished t" using succ [OF x] y vis by blast
  qed
  show "set (T @ [v]) = scc_of v"
  proof (rule set_eqI, rule iffI)
    fix x assume x: "x \<in> set (T @ [v])"
    then have xs: "x \<in> set (t_stack t)" "num t v \<le> num t x" using st below(1) [of x] by (auto simp: less_imp_le)
    then have "reach v x" using R st unfolding reach_inv_def by auto
    moreover have "reach x v"
    proof -
      obtain g where "g \<in> insert v G" "reach x g" using R xs(1) unfolding reach_inv_def by blast
      then show ?thesis using G(2) reach_trans by blast
    qed
    ultimately show "x \<in> scc_of v" by (simp add: scc_of_def)
  next
    fix x assume "x \<in> scc_of v"
    then have vx: "reach v x" "reach x v" by (simp_all add: scc_of_def)
    have fin: "\<And>z. z \<in> finished t \<Longrightarrow> set (E z) \<subseteq> finished t" using scc by (auto simp: scc_inv_def)
    have "x \<in> set (T @ [v]) \<union> finished t"
      by (rule reach_closed [OF vx(1)]) (use closed fin in auto)
    moreover have "x \<notin> finished t"
    proof
      assume "x \<in> finished t"
      from reach_closed [OF vx(2) this fin] show False using S st by (auto simp: stack_inv_def)
    qed
    ultimately show "x \<in> set (T @ [v])" by simp
  qed
qed

lemma scc_of_eq: "y \<in> scc_of x \<Longrightarrow> scc_of y = scc_of x"
  unfolding scc_of_def using reach_trans by blast

lemma close_pop:
  assumes inv: "tarjan_inv (insert v G) t" and ext: "extends s (T @ [v]) t" and v: "v \<notin> visited s"
    and G: "G \<subseteq> set (t_stack s)" "\<forall>g \<in> G. reach g v"
    and low: "low_inv v (E v) t" "lowlink t v = index_of t v"
  shows "tarjan_inv G (close_node v t)" and "extends s [] (close_node v t)" and "low_result v s [] (close_node v t)"
proof -
  let ?S = "t_stack s" and ?u = "close_node v t"
  have st: "t_stack t = T @ v # ?S" using ext by (simp add: extends_def)
  have S: "stack_inv t" and scc: "scc_inv t" and R: "reach_inv (insert v G) t" using inv by (simp_all add: tarjan_inv_def)
  note below = stack_below [OF S st]
  note comp = close_component_is_scc [OF inv st G low]
  have u: "?u = t\<lparr>t_stack := ?S, on_stack := on_stack t - set (T @ [v]), sccs := sccs t @ [sort (T @ [v])]\<rparr>"
    using low(2) pop_component_split [OF below(3)] by (simp add: close_node_def st)
  have fin: "finished ?u = finished t \<union> set (T @ [v])" by (simp add: u finished_def Un_ac)
  have dis: "distinct (T @ [v])" and dis2: "set (T @ [v]) \<inter> set ?S = {}" using S st by (auto simp: stack_inv_def)
  have un: "set (t_stack t) = set (T @ [v]) \<union> set ?S" by (auto simp: st)
  have "stack_inv ?u" unfolding stack_inv_def fin
  proof (intro conjI)
    show "visited ?u = set (t_stack ?u) \<union> (finished t \<union> set (T @ [v]))" using S un by (auto simp: stack_inv_def u)
    show "set (t_stack ?u) \<inter> (finished t \<union> set (T @ [v])) = {}" using S un dis2 by (auto simp: stack_inv_def u)
    show "distinct (t_stack ?u)" "sorted_wrt (\<lambda>x y. num ?u y < num ?u x) (t_stack ?u)"
      using S by (auto simp: stack_inv_def u st sorted_wrt_append)
    show "on_stack ?u = set (t_stack ?u)" using S un dis2 by (auto simp: stack_inv_def u)
    show "\<forall>x \<in> visited ?u. num ?u x < next_index ?u" "visited ?u \<subseteq> U" using S by (auto simp: stack_inv_def u)
  qed
  moreover have "scc_inv ?u" unfolding scc_inv_def fin
  proof (intro conjI)
    have "is_scc (sort (T @ [v]))"
      using comp(1) dis scc_of_eq [of _ v] unfolding is_scc_def set_sort
      by (simp del: set_append add: sorted_sort distinct_sort) (metis length_0_conv length_sort snoc_eq_iff_butlast)
    then show "\<forall>c \<in> set (sccs ?u). is_scc c" using scc by (auto simp: scc_inv_def u)
    show "\<forall>x \<in> finished t \<union> set (T @ [v]). set (E x) \<subseteq> finished t \<union> set (T @ [v])"
      using scc comp(2) by (fastforce simp: scc_inv_def)
    have "set (concat (sccs t)) = finished t" by (auto simp: finished_def)
    then have "set (concat (sccs t)) \<inter> set (T @ [v]) = {}" using S un by (auto simp: stack_inv_def)
    then show "distinct (concat (sccs ?u))" using scc dis by (auto simp: scc_inv_def u)
  qed
  moreover have "reach_inv G ?u"
  proof -
    have "\<exists>x \<in> G. num t x \<le> num t y \<and> reach y x" if y: "y \<in> set ?S" for y
    proof -
      obtain x where "x \<in> insert v G" "num t x \<le> num t y" "reach y x" using R y un unfolding reach_inv_def by blast
      with below(2) [OF y] show ?thesis by (auto simp: not_less [symmetric])
    qed
    moreover have "set (E x) \<subseteq> visited t" if "x \<in> visited t - G" for x
      using that R low(1) by (cases "x = v") (auto simp: reach_inv_def low_inv_def)
    ultimately show ?thesis using G(1) R un unfolding reach_inv_def by (simp add: u)
  qed
  ultimately show "tarjan_inv G ?u" by (simp add: tarjan_inv_def)
  show "extends s [] ?u" using ext by (simp add: extends_def u)
  obtain n where "lowlink t v = Some n" using low(1) by (auto simp: low_inv_def)
  then show "low_result v s [] ?u" using low(2) below(4) by (simp add: low_result_def u)
qed

lemma close_keep:
  assumes inv: "tarjan_inv (insert v G) t" and ext: "extends s (T @ [v]) t" and s: "stack_inv s"
    and G: "G \<subseteq> set (t_stack s)"
    and low: "low_inv v (E v) t" "lowlink t v \<noteq> index_of t v"
  shows "close_node v t = t" and "tarjan_inv G t" and "low_result v s (T @ [v]) t"
proof -
  let ?S = "t_stack s"
  show "close_node v t = t" using low(2) by (simp add: close_node_def)
  have st: "t_stack t = T @ v # ?S" using ext by (simp add: extends_def)
  have S: "stack_inv t" and scc: "scc_inv t" and R: "reach_inv (insert v G) t" using inv by (simp_all add: tarjan_inv_def)
  note below = stack_below [OF S st]
  obtain n y0 where n: "lowlink t v = Some n" "n \<le> num t v" and y0: "y0 \<in> set (t_stack t)" "num t y0 = n" "reach v y0"
    and edge: "\<And>x y. x \<in> set (t_stack t) \<Longrightarrow> y \<in> set (t_stack t) \<Longrightarrow> num t v \<le> num t x \<Longrightarrow> num t y < num t v \<Longrightarrow>
      (if x = v then y \<in> set (E v) else y \<in> set (E x)) \<Longrightarrow> n \<le> num t y" and succ: "set (E v) \<subseteq> visited t"
    using low(1) unfolding low_inv_def by blast
  have "v \<in> visited t" using S st by (auto simp: stack_inv_def)
  then have lt: "n < num t v" using low(2) n by (cases "n = num t v") auto
  obtain g0 where g0: "g0 \<in> G" "num t g0 \<le> n" "reach y0 g0"
  proof -
    obtain g where "g \<in> insert v G" "num t g \<le> num t y0" "reach y0 g" using R y0(1) unfolding reach_inv_def by blast
    with y0(2) lt that show thesis by auto
  qed
  have "\<exists>x \<in> G. num t x \<le> num t y \<and> reach y x" if y: "y \<in> set (t_stack t)" for y
  proof -
    obtain x where x: "x \<in> insert v G" "num t x \<le> num t y" "reach y x" using R y unfolding reach_inv_def by blast
    show ?thesis
    proof (cases "x = v")
      case True
      then have "reach y g0" "num t g0 \<le> num t y" using x y0(3) g0 lt reach_trans by (blast, simp)
      then show ?thesis using g0(1) by blast
    qed (use x in auto)
  qed
  moreover have "set (E x) \<subseteq> visited t" if "x \<in> visited t - G" for x
    using that R succ by (cases "x = v") (auto simp: reach_inv_def)
  ultimately have "reach_inv G t" using R unfolding reach_inv_def by simp
  then show "tarjan_inv G t" using S scc by (simp add: tarjan_inv_def)
  have "n \<le> num s y" if x: "x \<in> set (T @ [v])" and y: "y \<in> set ?S" and e: "y \<in> set (E x)" for x y
  proof -
    have "num t v \<le> num t x" using x below(1) [of x] by (auto simp: less_imp_le)
    moreover have "if x = v then y \<in> set (E v) else y \<in> set (E x)" using e by auto
    moreover have "x \<in> set (t_stack t)" "y \<in> set (t_stack t)" using x y st by auto
    ultimately have "n \<le> num t y" using edge below(2) [OF y] by blast
    moreover have "index_of t y = index_of s y" using stack_visited [OF s] y extends_num [OF ext] by blast
    ultimately show ?thesis by simp
  qed
  then show "low_result v s (T @ [v]) t" unfolding low_result_def using n y0 st by auto
qed

section \<open>The whole search\<close>

text \<open>Contract of a call on a new node, and of the loop over the edges \<open>ws\<close> of \<open>v\<close> that are left.\<close>

definition call_pre :: "nat \<Rightarrow> 'a \<Rightarrow> 'a set \<Rightarrow> 'a tarjan_state \<Rightarrow> bool" where
  "call_pre f v G s \<longleftrightarrow> tarjan_inv G s \<and> v \<notin> visited s \<and> v \<in> U \<and> (\<forall>g \<in> G. reach g v) \<and> card (U - visited s) < f"

definition call_post :: "'a \<Rightarrow> 'a set \<Rightarrow> 'a tarjan_state \<Rightarrow> 'a tarjan_state \<Rightarrow> bool" where
  "call_post v G s t \<longleftrightarrow> (\<exists>T. tarjan_inv G t \<and> extends s T t \<and> v \<in> visited t \<and> low_result v s T t \<and>
     (\<forall>x \<in> visited s. lowlink t x = lowlink s x))"

definition edges_pre :: "nat \<Rightarrow> 'a \<Rightarrow> 'a list \<Rightarrow> 'a set \<Rightarrow> 'a list \<Rightarrow> 'a tarjan_state \<Rightarrow> bool" where
  "edges_pre f v ws G ds s \<longleftrightarrow> tarjan_inv G s \<and> v \<in> G \<and> v \<in> U \<and> (\<forall>g \<in> G. reach g v) \<and> E v = ds @ ws \<and> low_inv v ds s \<and>
     card (U - visited s) < f"

definition edges_post :: "'a \<Rightarrow> 'a set \<Rightarrow> 'a tarjan_state \<Rightarrow> 'a tarjan_state \<Rightarrow> bool" where
  "edges_post v G s t \<longleftrightarrow> (\<exists>T. tarjan_inv G t \<and> extends s T t \<and> low_inv v (E v) t \<and>
     (\<forall>x \<in> visited s - {v}. lowlink t x = lowlink s x))"

lemma edges_post_trans:
  assumes "extends s T t" and "\<forall>x \<in> visited s - {v}. lowlink t x = lowlink s x" and "edges_post v G t u"
  shows "edges_post v G s u"
proof -
  obtain T' where u: "tarjan_inv G u" "extends t T' u" "low_inv v (E v) u" "\<forall>x \<in> visited t - {v}. lowlink u x = lowlink t x"
    using assms(3) by (auto simp: edges_post_def)
  have "\<forall>x \<in> visited s - {v}. lowlink u x = lowlink s x"
    using u(4) assms(2) extends_visited [OF assms(1)] by (metis DiffD1 DiffD2 DiffI subset_iff)
  with u extends_trans [OF assms(1) u(2)] show ?thesis unfolding edges_post_def by blast
qed

lemma edges_step_new:
  assumes pre: "edges_pre f v (w # ws) G ds s" and w: "index_of s w = None" and call: "call_post w G s t"
  shows "edges_pre f v ws G (ds @ [w]) (lower v (the (lowlink t w)) t)"
    and "edges_post v G (lower v (the (lowlink t w)) t) u \<Longrightarrow> edges_post v G s u"
proof -
  obtain T where t: "tarjan_inv G t" "extends s T t" "w \<in> visited t" "low_result w s T t" "\<forall>x \<in> visited s. lowlink t x = lowlink s x"
    using call by (auto simp: call_post_def)
  have s: "tarjan_inv G s" "v \<in> G" "v \<in> U" "\<forall>g \<in> G. reach g v" "E v = ds @ w # ws" "low_inv v ds s" "card (U - visited s) < f"
    using pre by (simp_all add: edges_pre_def)
  have vs: "v \<in> set (t_stack s)" using s(1,2) by (auto simp: tarjan_inv_def reach_inv_def)
  then have vv: "v \<in> visited s" using s(1) stack_visited by (auto simp: tarjan_inv_def)
  have "low_inv v (ds @ [w]) (lower v (the (lowlink t w)) t)"
    by (rule low_inv_new [OF _ _ s(6) vs _ t(2,4) _ _ t(3)]) (use s t w vv in \<open>auto simp: tarjan_inv_def\<close>)
  moreover have "card (U - visited t) \<le> card (U - visited s)"
    using finite_U extends_visited [OF t(2)] by (intro card_mono) auto
  ultimately show "edges_pre f v ws G (ds @ [w]) (lower v (the (lowlink t w)) t)"
    using s t(1) by (simp add: edges_pre_def)
  assume post: "edges_post v G (lower v (the (lowlink t w)) t) u"
  show "edges_post v G s u"
    by (rule edges_post_trans [OF _ _ post, of _ T]) (use t in \<open>auto simp: lowlink_lower\<close>)
qed

lemma edges_step_old:
  assumes pre: "edges_pre f v (w # ws) G ds s" and w: "index_of s w \<noteq> None"
  shows "w \<in> on_stack s \<Longrightarrow> edges_pre f v ws G (ds @ [w]) (lower v (num s w) s)"
    and "w \<notin> on_stack s \<Longrightarrow> edges_pre f v ws G (ds @ [w]) s"
    and "edges_post v G (lower v (num s w) s) u \<Longrightarrow> edges_post v G s u"
proof -
  have s: "tarjan_inv G s" "v \<in> G" "v \<in> U" "\<forall>g \<in> G. reach g v" "E v = ds @ w # ws" "low_inv v ds s" "card (U - visited s) < f"
    using pre by (simp_all add: edges_pre_def)
  have on: "on_stack s = set (t_stack s)" using s(1) by (simp add: tarjan_inv_def stack_inv_def)
  have vis: "w \<in> visited s" using w by auto
  show "w \<in> on_stack s \<Longrightarrow> edges_pre f v ws G (ds @ [w]) (lower v (num s w) s)"
    using s low_inv_back [OF s(6) _ _ vis] on by (simp add: edges_pre_def)
  show "w \<notin> on_stack s \<Longrightarrow> edges_pre f v ws G (ds @ [w]) s"
    using s low_inv_cross [OF s(6) vis] on by (simp add: edges_pre_def)
  show "edges_post v G (lower v (num s w) s) u \<Longrightarrow> edges_post v G s u"
    by (rule edges_post_trans [of _ "[]"]) (auto simp: lowlink_lower)
qed

lemma call_open:
  assumes "call_pre (Suc f) v G s"
  shows "edges_pre f v (E v) (insert v G) [] (open_node v s)"
proof -
  have s: "tarjan_inv G s" "v \<notin> visited s" "v \<in> U" "\<forall>g \<in> G. reach g v" "card (U - visited s) < Suc f"
    using assms by (simp_all add: call_pre_def)
  have "U - visited (open_node v s) = (U - visited s) - {v}" by (auto simp: open_node_def)
  moreover have "v \<in> U - visited s" using s by blast
  ultimately have "card (U - visited (open_node v s)) < card (U - visited s)"
    using finite_U by (metis card_Diff1_less finite_Diff)
  then have "card (U - visited (open_node v s)) < f" using s(5) by simp
  then show ?thesis using open_inv [OF s(1-4)] s by (simp add: edges_pre_def)
qed

lemma call_close:
  assumes pre: "call_pre f v G s" and post: "edges_post v (insert v G) (open_node v s) t"
  shows "call_post v G s (close_node v t)"
proof -
  have s: "tarjan_inv G s" "v \<notin> visited s" "v \<in> U" "\<forall>g \<in> G. reach g v" using pre by (simp_all add: call_pre_def)
  note op = open_inv [OF s]
  obtain T where t: "tarjan_inv (insert v G) t" "extends (open_node v s) T t" "low_inv v (E v) t"
      "\<forall>x \<in> visited (open_node v s) - {v}. lowlink t x = lowlink (open_node v s) x"
    using post by (auto simp: edges_post_def)
  have ext: "extends s (T @ [v]) t" using extends_trans [OF op(2) t(2)] .
  have G: "G \<subseteq> set (t_stack s)" and st: "stack_inv s" using s(1) by (simp_all add: tarjan_inv_def reach_inv_def)
  have "v \<in> visited t" using extends_visited [OF t(2)] by (auto simp: open_node_def)
  moreover have "index_of (close_node v t) = index_of t" "lowlink (close_node v t) = lowlink t"
    by (simp_all add: close_node_def split: prod.split)
  moreover have "\<forall>x \<in> visited s. lowlink t x = lowlink s x"
  proof
    fix x assume x: "x \<in> visited s"
    then have "x \<noteq> v" "x \<in> visited (open_node v s)" using s(2) by (auto simp: open_node_def)
    then show "lowlink t x = lowlink s x" using t(4) by (simp add: open_node_def)
  qed
  moreover have "\<exists>T. tarjan_inv G (close_node v t) \<and> extends s T (close_node v t) \<and> low_result v s T (close_node v t)"
  proof (cases "lowlink t v = index_of t v")
    case True
    from close_pop [OF t(1) ext s(2) G s(4) t(3) True] show ?thesis by blast
  next
    case False
    from close_keep [OF t(1) ext st G t(3) False] ext show ?thesis by auto
  qed
  ultimately show ?thesis by (auto simp: call_post_def)
qed

lemma edges_correct:
  assumes call: "\<And>w G s. call_pre f w G s \<Longrightarrow> \<exists>t. strong_connect f E w s = Some t \<and> call_post w G s t"
  shows "edges_pre f v ws G ds s \<Longrightarrow> \<exists>t. visit_edges f E v ws s = Some t \<and> edges_post v G s t"
proof (induction ws arbitrary: ds s)
  case Nil
  then have "tarjan_inv G s" "low_inv v (E v) s" by (simp_all add: edges_pre_def)
  then have "edges_post v G s s" using extends_refl [of s] unfolding edges_post_def by blast
  then show ?case by simp
next
  case (Cons w ws)
  show ?case
  proof (cases "index_of s w = None")
    case True
    have s: "tarjan_inv G s" "v \<in> U" "\<forall>g \<in> G. reach g v" "w \<in> set (E v)" "card (U - visited s) < f"
      using Cons.prems by (simp_all add: edges_pre_def)
    have "w \<in> U" using closed_U [OF s(2)] s(4) by blast
    moreover have "\<forall>g \<in> G. reach g w" using s(3) reach_edge [OF s(4)] reach_trans by blast
    ultimately have "call_pre f w G s" using s True by (auto simp: call_pre_def)
    then obtain t where t: "strong_connect f E w s = Some t" "call_post w G s t" using call by blast
    note new = edges_step_new [OF Cons.prems True t(2)]
    from Cons.IH [OF new(1)] new(2) True t(1) show ?thesis by auto
  next
    case False
    note old = edges_step_old [OF Cons.prems False]
    show ?thesis
    proof (cases "w \<in> on_stack s")
      case True
      from Cons.IH [OF old(1) [OF True]] old(3) False True show ?thesis by auto
    next
      case off: False
      from Cons.IH [OF old(2) [OF off]] False off show ?thesis by auto
    qed
  qed
qed

lemma call_correct: "call_pre f v G s \<Longrightarrow> \<exists>t. strong_connect f E v s = Some t \<and> call_post v G s t"
proof (induction f arbitrary: v G s)
  case 0
  then show ?case by (simp add: call_pre_def)
next
  case (Suc f)
  from edges_correct [OF Suc.IH call_open [OF Suc.prems]] obtain t where
    "visit_edges f E v (E v) (open_node v s) = Some t" "edges_post v (insert v G) (open_node v s) t" by blast
  with call_close [OF Suc.prems] show ?case by auto
qed

lemma idle_stack: "tarjan_inv {} s \<Longrightarrow> t_stack s = [] \<and> visited s = finished s"
  by (auto simp: tarjan_inv_def reach_inv_def stack_inv_def)

lemma loop_correct:
  assumes "card U < f" and "tarjan_inv {} s" and "set vs \<subseteq> U"
  shows "\<exists>t. tarjan_loop f E vs s = Some t \<and> tarjan_inv {} t \<and> set vs \<union> visited s \<subseteq> visited t"
  using assms(2,3)
proof (induction vs arbitrary: s)
  case (Cons v vs)
  show ?case
  proof (cases "index_of s v = None")
    case True
    have "card (U - visited s) < f" using assms(1) finite_U by (meson card_mono Diff_subset le_less_trans)
    then have "call_pre f v {} s" using Cons.prems True by (auto simp: call_pre_def)
    then obtain t where t: "strong_connect f E v s = Some t" and post: "call_post v {} s t" using call_correct by blast
    then have inv: "tarjan_inv {} t" and "v \<in> visited t" "visited s \<subseteq> visited t"
      using extends_visited unfolding call_post_def by blast+
    moreover obtain u where "tarjan_loop f E vs t = Some u" "tarjan_inv {} u" "set vs \<union> visited t \<subseteq> visited u"
      using Cons.IH [OF inv] Cons.prems(2) by auto
    ultimately show ?thesis using True t by (intro exI [of _ u]) (simp, blast)
  next
    case False
    then have "v \<in> visited s" by auto
    moreover obtain u where "tarjan_loop f E vs s = Some u" "tarjan_inv {} u" "set vs \<union> visited s \<subseteq> visited u"
      using Cons.IH [OF Cons.prems(1)] Cons.prems(2) by auto
    ultimately show ?thesis using False by (intro exI [of _ u]) (simp, blast)
  qed
qed simp

theorem tarjan_correct:
  assumes "distinct nodes" and "set nodes = U"
  shows "\<exists>cs. tarjan_scc nodes E = Some cs \<and> (\<forall>c \<in> set cs. is_scc c) \<and> distinct (concat cs) \<and> set (concat cs) = U"
proof -
  have start: "tarjan_inv {} tarjan_start"
    by (simp add: tarjan_inv_def stack_inv_def scc_inv_def reach_inv_def tarjan_start_def finished_def)
  have "card U < Suc (length nodes)" using assms distinct_card by fastforce
  from loop_correct [OF this start, of nodes] assms(2) obtain t where
    t: "tarjan_loop (Suc (length nodes)) E nodes tarjan_start = Some t" and inv: "tarjan_inv {} t" and vis: "U \<subseteq> visited t" by auto
  have "visited t \<subseteq> U" "scc_inv t" using inv unfolding tarjan_inv_def stack_inv_def by blast+
  moreover have "set (concat (sccs t)) = visited t" using idle_stack [OF inv] by (auto simp: finished_def)
  ultimately show ?thesis using t vis by (auto simp: tarjan_scc_def scc_inv_def)
qed

end

end
