(* ===== verification/Graph_Compile.thy ===== *)
theory Graph_Compile
  imports Graph_Diagnostics Topological_Order Tarjan
begin

text \<open>
  Compilation of a graph into regions: \<^verbatim>\<open>compile_graph_impl\<close> of \<^verbatim>\<open>src/graph.cpp\<close>. Each step of the function is a definition here,
  in the order of the code: component ids, immediate edges, strongly connected components (theory \<open>Tarjan\<close>), ownership of components by
  composite loops, one region per component, edges between regions, and the order of the regions by Kahn's loop
  with a ready queue that is stably sorted by priority (theory \<open>Topological_Order\<close>). \<open>None\<close> is a run that does not return.
  \<^verbatim>\<open>std::set\<close> values are sorted lists without repetitions.
\<close>

section \<open>Components and immediate edges\<close>

fun first_ids :: "string list \<Rightarrow> string list \<Rightarrow> string list" where
  "first_ids seen [] = []"
| "first_ids seen (x # xs) = (if x \<noteq> [] \<and> x \<notin> set seen then x # first_ids (x # seen) xs else first_ids seen xs)"

definition compile_component_ids :: "graph_spec \<Rightarrow> string list" where
  "compile_component_ids g = first_ids [] (map comp_id (components g))"

definition immediate_edge_map :: "graph_spec \<Rightarrow> (string, string list) smap" where
  "immediate_edge_map g =
     fold (\<lambda>e m.
         let from = component_id_from_endpoint (edge_from e); to = component_id_from_endpoint (edge_to e)
         in if is_immediate_edge e \<and> from \<in> set (compile_component_ids g) \<and> to \<in> set (compile_component_ids g)
            then smap_push from to m else m)
       (graph_edges g) (fold (\<lambda>c m. smap_put c [] m) (compile_component_ids g) [])"

definition immediate_successors :: "graph_spec \<Rightarrow> string \<Rightarrow> string list" where
  "immediate_successors g = smap_get [] (immediate_edge_map g)"

definition same_component_set :: "string list \<Rightarrow> string list \<Rightarrow> bool" where
  "same_component_set l r \<longleftrightarrow> sort l = sort r"

fun join_ids :: "string list \<Rightarrow> string" where
  "join_ids [] = []"
| "join_ids [x] = x"
| "join_ids (x # y # ys) = x @ '','' @ join_ids (y # ys)"

definition has_immediate_self_loop :: "graph_spec \<Rightarrow> string \<Rightarrow> bool" where
  "has_immediate_self_loop g c =
     list_ex (\<lambda>e. is_immediate_edge e \<and> component_id_from_endpoint (edge_from e) = c \<and> component_id_from_endpoint (edge_to e) = c)
       (graph_edges g)"

section \<open>Composite loops\<close>

text \<open>The owner map of the code points at loop specifications of which only the id is read.\<close>

fun own_components ::
    "string list \<Rightarrow> string \<Rightarrow> string list \<Rightarrow> string list \<Rightarrow> (string, string) smap \<Rightarrow> graph_report \<Rightarrow>
     (string, string) smap \<times> graph_report" where
  "own_components known lid [] seen owners r = (owners, r)"
| "own_components known lid (c # cs) seen owners r =
     (let r1 = add_error_if (c \<in> set seen) (''composite_loop '' @ lid @ '' lists duplicate component '' @ c) r
      in if c \<notin> set known then
           own_components known lid cs (c # seen) owners
             (add_error (''composite_loop '' @ lid @ '' references missing component '' @ c) r1)
         else
           (case map_of owners c of
              Some o_id \<Rightarrow>
                if o_id \<noteq> lid then
                  own_components known lid cs (c # seen) owners
                    (add_error (''component '' @ c @ '' is owned by multiple composite_loops: '' @ o_id @ '','' @ lid) r1)
                else own_components known lid cs (c # seen) (smap_put c lid owners) r1
            | None \<Rightarrow> own_components known lid cs (c # seen) (smap_put c lid owners) r1))"

fun check_loops ::
    "string list \<Rightarrow> composite_loop_spec list \<Rightarrow> string list \<Rightarrow> (string, string) smap \<Rightarrow> graph_report \<Rightarrow> graph_report" where
  "check_loops known [] loop_ids owners r = r"
| "check_loops known (l # ls) loop_ids owners r =
     (if loop_id l = [] then check_loops known ls loop_ids owners (add_error ''composite_loop id must not be empty'' r)
      else
        (let r1 = add_error_if (loop_id l \<in> set loop_ids) (''duplicate composite_loop: '' @ loop_id l) r;
             (owners', r2) = own_components known (loop_id l) (loop_components l) [] owners r1
         in check_loops known ls (loop_id l # loop_ids) owners' r2))"

section \<open>Regions\<close>

definition matching_loop :: "graph_spec \<Rightarrow> string list \<Rightarrow> composite_loop_spec option" where
  "matching_loop g scc = find (\<lambda>l. same_component_set (loop_components l) scc) (composite_loops g)"

definition scc_cyclic :: "graph_spec \<Rightarrow> string list \<Rightarrow> bool" where
  "scc_cyclic g scc \<longleftrightarrow> length scc > 1 \<or> (scc \<noteq> [] \<and> has_immediate_self_loop g (hd scc))"

definition region_for :: "graph_spec \<Rightarrow> nat \<Rightarrow> string list \<Rightarrow> compiled_graph_region" where
  "region_for g i scc =
     (case matching_loop g scc of
        Some l \<Rightarrow>
          \<lparr>region_id = loop_id l, region_kind = RegionCompositeLoop, region_components = scc, region_composite_loop_id = loop_id l,
           region_loop_policy = loop_policy l, incoming_regions = [], outgoing_regions = []\<rparr>
      | None \<Rightarrow>
          \<lparr>region_id = (if length scc = 1 then hd scc else ''region_'' @ nat_to_string i), region_kind = RegionComponent,
           region_components = scc, region_composite_loop_id = [], region_loop_policy = default_loop_policy,
           incoming_regions = [], outgoing_regions = []\<rparr>)"

definition check_scc :: "graph_spec \<Rightarrow> string list \<Rightarrow> graph_report \<Rightarrow> graph_report" where
  "check_scc g scc r =
     (let r1 = add_error_if (scc_cyclic g scc \<and> matching_loop g scc = None)
                 (''immediate cycle detected among components '' @ join_ids scc @
                  ''; declare a matching composite_loop or use delay/state/async edges'') r
      in case matching_loop g scc of
           None \<Rightarrow> r1
         | Some l \<Rightarrow> add_error_if (\<not> scc_cyclic g scc)
                       (''composite_loop '' @ loop_id l @ '' does not match an immediate cyclic strongly connected component'') r1)"

definition matched_loop_ids :: "graph_spec \<Rightarrow> string list list \<Rightarrow> string list" where
  "matched_loop_ids g cs = map loop_id (List.map_filter (matching_loop g) cs)"

definition check_unmatched :: "graph_spec \<Rightarrow> string list list \<Rightarrow> graph_report \<Rightarrow> graph_report" where
  "check_unmatched g cs r =
     fold (\<lambda>l. add_error_if (loop_id l \<notin> set (matched_loop_ids g cs))
             (''composite_loop '' @ loop_id l @ '' must exactly match one immediate cyclic strongly connected component''))
       (composite_loops g) r"

definition plan_regions :: "graph_spec \<Rightarrow> string list list \<Rightarrow> compiled_graph_region list" where
  "plan_regions g cs = map (\<lambda>(i, scc). region_for g i scc) (enumerate 0 cs)"

definition component_region_map :: "compiled_graph_region list \<Rightarrow> (string, string) smap" where
  "component_region_map rs = fold (\<lambda>r m. fold (\<lambda>c. smap_put c (region_id r)) (region_components r) m) rs []"

section \<open>Edges between regions\<close>

text \<open>\<^verbatim>\<open>component_scc\<close>: the index of the component's region.\<close>

definition component_scc_map :: "string list list \<Rightarrow> (string, nat) smap" where
  "component_scc_map cs = fold (\<lambda>(i, scc) m. fold (\<lambda>c. smap_put c i) scc m) (enumerate 0 cs) []"

record region_graph =
  rg_outgoing :: "(string, string list) smap"
  rg_incoming :: "(string, string list) smap"
  rg_indegree :: "string \<Rightarrow> nat"

definition add_region_edge :: "string \<Rightarrow> string \<Rightarrow> region_graph \<Rightarrow> region_graph" where
  "add_region_edge a b rg =
     (if b \<in> set (smap_get [] (rg_outgoing rg) a) then rg
      else rg\<lparr>rg_outgoing := smap_put a (insort_insert b (smap_get [] (rg_outgoing rg) a)) (rg_outgoing rg),
              rg_incoming := smap_put b (insort_insert a (smap_get [] (rg_incoming rg) b)) (rg_incoming rg),
              rg_indegree := (rg_indegree rg)(b := rg_indegree rg b + 1)\<rparr>)"

text \<open>The region ids that an immediate edge connects, when it leaves its strongly connected component.\<close>

definition edge_regions :: "graph_spec \<Rightarrow> string list list \<Rightarrow> edge_spec \<Rightarrow> (string \<times> string) option" where
  "edge_regions g cs e =
     (if \<not> is_immediate_edge e then None
      else
        (case (map_of (component_scc_map cs) (component_id_from_endpoint (edge_from e)),
               map_of (component_scc_map cs) (component_id_from_endpoint (edge_to e))) of
           (Some i, Some j) \<Rightarrow>
             if i = j then None
             else Some (region_id (plan_regions g cs ! i), region_id (plan_regions g cs ! j))
         | _ \<Rightarrow> None))"

definition build_region_graph :: "graph_spec \<Rightarrow> string list list \<Rightarrow> region_graph" where
  "build_region_graph g cs =
     fold (\<lambda>e rg. case edge_regions g cs e of None \<Rightarrow> rg | Some (a, b) \<Rightarrow> add_region_edge a b rg)
       (graph_edges g) \<lparr>rg_outgoing = [], rg_incoming = [], rg_indegree = (\<lambda>r. 0)\<rparr>"

definition connect_regions :: "region_graph \<Rightarrow> compiled_graph_region list \<Rightarrow> compiled_graph_region list" where
  "connect_regions rg rs =
     map (\<lambda>r. r\<lparr>outgoing_regions := smap_get [] (rg_outgoing rg) (region_id r),
                incoming_regions := smap_get [] (rg_incoming rg) (region_id r)\<rparr>) rs"

section \<open>Order of the regions\<close>

definition runtime_priority_rank :: "string \<Rightarrow> int" where
  "runtime_priority_rank p = (if p = ''high'' then 3 else if p = ''low'' then 1 else if p = ''background'' then 0 else 2)"

definition component_priority :: "graph_spec \<Rightarrow> string \<Rightarrow> int" where
  "component_priority g c =
     (case map_of (rev (map (\<lambda>x. (comp_id x, runtime_priority_rank (ex_priority (execution x)))) (components g))) c of
        None \<Rightarrow> 0
      | Some r \<Rightarrow> r)"

definition region_priority_rank :: "graph_spec \<Rightarrow> compiled_graph_region list \<Rightarrow> string \<Rightarrow> int" where
  "region_priority_rank g rs rid =
     (case find (\<lambda>r. region_id r = rid) rs of
        None \<Rightarrow> 2
      | Some r \<Rightarrow> (let rank = fold (\<lambda>c m. max m (component_priority g c)) (region_components r) (- 1)
                   in if rank < 0 then 2 else rank))"

text \<open>\<^verbatim>\<open>std::stable_sort\<close> by descending rank.\<close>

definition sort_ready :: "graph_spec \<Rightarrow> compiled_graph_region list \<Rightarrow> string list \<Rightarrow> string list" where
  "sort_ready g rs ready = sort_key (\<lambda>rid. - region_priority_rank g rs rid) ready"

definition order_regions :: "graph_spec \<Rightarrow> compiled_graph_region list \<Rightarrow> region_graph \<Rightarrow> string list option" where
  "order_regions g rs rg =
     kahn_loop (sort_ready g rs) (\<lambda>r. smap_get [] (rg_outgoing rg) r)
       (sort_ready g rs (filter (\<lambda>r. rg_indegree rg r = 0) (map region_id rs))) (rg_indegree rg) []"

section \<open>The compiler\<close>

record graph_compile_result = graph_report +
  cr_plan :: graph_compiled_plan

definition compile_report :: "graph_spec \<Rightarrow> string list list \<Rightarrow> graph_report" where
  "compile_report g cs =
     check_unmatched g cs
       (fold (check_scc g) cs (check_loops (compile_component_ids g) (composite_loops g) [] [] empty_report))"

definition compile_graph :: "graph_spec \<Rightarrow> graph_compile_result option" where
  "compile_graph g =
     (case tarjan_scc (compile_component_ids g) (immediate_successors g) of
        None \<Rightarrow> None
      | Some cs \<Rightarrow>
          (let rg = build_region_graph g cs; rs = connect_regions rg (plan_regions g cs)
           in case order_regions g rs rg of
                None \<Rightarrow> None
              | Some order \<Rightarrow>
                  (let r = add_error_if (length order \<noteq> length rs)
                             ''compiled immediate region graph is cyclic after SCC condensation'' (compile_report g cs)
                   in Some (graph_report.extend r
                        \<lparr>cr_plan = \<lparr>regions = rs, region_order = order, component_region = component_region_map (plan_regions g cs),
                           immediate_sccs = cs\<rparr>\<rparr>))))"

end
