(* ===== verification/Graph_Lifecycle.thy ===== *)
theory Graph_Lifecycle
  imports Graph_Model Topological_Order
begin

text \<open>
  The order in which components are configured, started and (reversed) stopped: \<^verbatim>\<open>compute_component_lifecycle_order\<close> and
  \<^verbatim>\<open>component_lifecycle_order\<close> of \<^verbatim>\<open>src/graph.cpp\<close>. The counters and adjacency vectors are lists; the final loop is
  \<open>kahn_loop\<close> with a first-in first-out queue. The interpretation \<open>lifecycle\<close> of \<open>kahn_graph\<close> discharges its laws for the
  vectors that the scan of the dependencies builds.
\<close>

section \<open>Model\<close>

record lifecycle_order_result =
  lo_ok :: bool
  lo_errors :: "string list"
  lo_order :: "nat list"

record lifecycle_scan =
  ls_errors :: "string list"
  ls_dependents :: "nat list list"
  ls_indegrees :: "nat list"

text \<open>\<^verbatim>\<open>indexes[graph.components[index].id] = index\<close> for all indexes in order.\<close>

fun index_components :: "nat \<Rightarrow> component_node_spec list \<Rightarrow> (string, nat) smap \<Rightarrow> (string, nat) smap" where
  "index_components i [] m = m"
| "index_components i (c # cs) m = index_components (Suc i) cs (smap_put (comp_id c) i m)"

definition component_indexes :: "graph_spec \<Rightarrow> (string, nat) smap" where
  "component_indexes g = index_components 0 (components g) []"

fun scan_dependencies ::
    "(string, nat) smap \<Rightarrow> nat \<Rightarrow> string \<Rightarrow> string list \<Rightarrow> string list \<Rightarrow> lifecycle_scan \<Rightarrow> lifecycle_scan" where
  "scan_dependencies idx i cid [] seen sc = sc"
| "scan_dependencies idx i cid (d # ds) seen sc =
     (if d \<in> set seen then
        scan_dependencies idx i cid ds seen
          (sc\<lparr>ls_errors := ls_errors sc @ [''component '' @ cid @ '' has duplicate lifecycle dependency '' @ d]\<rparr>)
      else
        (case map_of idx d of
           None \<Rightarrow>
             scan_dependencies idx i cid ds (d # seen)
               (sc\<lparr>ls_errors := ls_errors sc @ [''component '' @ cid @ '' depends_on missing component '' @ d]\<rparr>)
         | Some k \<Rightarrow>
             scan_dependencies idx i cid ds (d # seen)
               (sc\<lparr>ls_dependents := (ls_dependents sc)[k := ls_dependents sc ! k @ [i]],
                   ls_indegrees := (ls_indegrees sc)[i := ls_indegrees sc ! i + 1]\<rparr>)))"

fun scan_components :: "(string, nat) smap \<Rightarrow> nat \<Rightarrow> component_node_spec list \<Rightarrow> lifecycle_scan \<Rightarrow> lifecycle_scan" where
  "scan_components idx i [] sc = sc"
| "scan_components idx i (c # cs) sc =
     scan_components idx (Suc i) cs (scan_dependencies idx i (comp_id c) (depends_on c) [] sc)"

definition lifecycle_scan_of :: "graph_spec \<Rightarrow> lifecycle_scan" where
  "lifecycle_scan_of g =
     (let n = length (components g)
      in scan_components (component_indexes g) 0 (components g)
           \<lparr>ls_errors = [], ls_dependents = replicate n [], ls_indegrees = replicate n 0\<rparr>)"

text \<open>\<open>None\<close> is a loop that does not end.\<close>

definition compute_component_lifecycle_order :: "graph_spec \<Rightarrow> lifecycle_order_result option" where
  "compute_component_lifecycle_order g =
     (let n = length (components g);
          sc = lifecycle_scan_of g;
          deg = (\<lambda>i. ls_indegrees sc ! i);
          ready = filter (\<lambda>i. deg i = 0) [0..<n]
      in case kahn_loop (\<lambda>xs. xs) (\<lambda>i. ls_dependents sc ! i) ready deg [] of
           None \<Rightarrow> None
         | Some order \<Rightarrow>
             (let errors = ls_errors sc @ (if length order \<noteq> n then [''component depends_on graph contains a cycle''] else [])
              in Some \<lparr>lo_ok = (errors = []), lo_errors = errors, lo_order = order\<rparr>))"

text \<open>\<open>Inl\<close> is the \<^verbatim>\<open>std::invalid_argument\<close> that is thrown.\<close>

definition component_lifecycle_order :: "graph_spec \<Rightarrow> (string + nat list) option" where
  "component_lifecycle_order g =
     map_option (\<lambda>r. if \<not> lo_ok r then Inl (hd (lo_errors r)) else Inr (lo_order r)) (compute_component_lifecycle_order g)"

section \<open>What the scan computes\<close>

text \<open>The indexes a list of dependency names resolves to, without repetitions.\<close>

fun resolved :: "(string, nat) smap \<Rightarrow> string list \<Rightarrow> string list \<Rightarrow> nat list" where
  "resolved idx seen [] = []"
| "resolved idx seen (d # ds) =
     (if d \<in> set seen then resolved idx seen ds
      else case map_of idx d of None \<Rightarrow> resolved idx (d # seen) ds | Some k \<Rightarrow> k # resolved idx (d # seen) ds)"

definition deps_of :: "graph_spec \<Rightarrow> nat \<Rightarrow> nat list" where
  "deps_of g j = resolved (component_indexes g) [] (depends_on (components g ! j))"

lemma map_of_index_components:
  "map_of (index_components i cs m) d =
     (case map_of (rev (zip (map comp_id cs) [i..<i + length cs])) d of None \<Rightarrow> map_of m d | Some k \<Rightarrow> Some k)"
proof (induction cs arbitrary: i m)
  case (Cons c cs)
  have "[i..<i + length (c # cs)] = i # [Suc i..<Suc i + length cs]" by (subst upt_conv_Cons) (simp_all del: upt_Suc)
  then show ?case using Cons.IH [of "Suc i" "smap_put (comp_id c) i m"]
    by (auto simp: map_add_def split: option.split)
qed simp

lemma component_indexes_SomeD:
  assumes "map_of (component_indexes g) d = Some k"
  shows "k < length (components g)" and "comp_id (components g ! k) = d"
proof -
  have "map_of (rev (zip (map comp_id (components g)) [0..<length (components g)])) d = Some k"
    using assms by (simp add: component_indexes_def map_of_index_components split: option.splits)
  then have "(d, k) \<in> set (zip (map comp_id (components g)) [0..<length (components g)])" by (auto dest: map_of_SomeD)
  then show "k < length (components g)" "comp_id (components g ! k) = d" by (auto simp: in_set_zip)
qed

lemma component_indexes_None_iff:
  "map_of (component_indexes g) d = None \<longleftrightarrow> d \<notin> comp_id ` set (components g)"
proof -
  have "fst ` set (rev (zip (map comp_id (components g)) [0..<length (components g)])) = comp_id ` set (components g)"
    by (metis (no_types, lifting) length_map length_upt minus_nat.diff_0 image_set map_fst_zip set_map set_rev)
  then have "map_of (rev (zip (map comp_id (components g)) [0..<length (components g)])) d = None \<longleftrightarrow>
      d \<notin> comp_id ` set (components g)" by (simp only: map_of_eq_None_iff)
  then show ?thesis by (auto simp: component_indexes_def map_of_index_components split: option.split)
qed

lemma set_resolved:
  "set (resolved idx seen ds) = {k. \<exists>d \<in> set ds - set seen. map_of idx d = Some k}"
  by (induction ds arbitrary: seen) (auto split: option.split)

lemma distinct_resolved:
  "(\<And>d d' k. map_of idx d = Some k \<Longrightarrow> map_of idx d' = Some k \<Longrightarrow> d = d') \<Longrightarrow> distinct (resolved idx seen ds)"
proof (induction ds arbitrary: seen)
  case (Cons d ds)
  have "k \<notin> set (resolved idx (d # seen) ds)" if "map_of idx d = Some k" for k
    using Cons.prems [OF that] by (auto simp: set_resolved)
  with Cons show ?case by (auto split: option.split)
qed simp

lemma scan_dependencies_effect:
  assumes "i < length (ls_indegrees sc)" and "\<And>d k. map_of idx d = Some k \<Longrightarrow> k < length (ls_dependents sc)"
  shows "length (ls_dependents (scan_dependencies idx i cid ds seen sc)) = length (ls_dependents sc) \<and>
    ls_indegrees (scan_dependencies idx i cid ds seen sc) =
      (ls_indegrees sc)[i := ls_indegrees sc ! i + length (resolved idx seen ds)] \<and>
    (\<forall>k < length (ls_dependents sc). ls_dependents (scan_dependencies idx i cid ds seen sc) ! k =
      ls_dependents sc ! k @ replicate (count_list (resolved idx seen ds) k) i)"
  using assms
proof (induction ds arbitrary: seen sc)
  case (Cons d ds)
  show ?case
  proof (cases "d \<in> set seen \<or> map_of idx d = None")
    case True
    then show ?thesis using Cons.IH Cons.prems by (auto split: option.splits)
  next
    case False
    then obtain k where k: "map_of idx d = Some k" and fresh: "d \<notin> set seen" by auto
    let ?sc = "sc\<lparr>ls_dependents := (ls_dependents sc)[k := ls_dependents sc ! k @ [i]],
                   ls_indegrees := (ls_indegrees sc)[i := ls_indegrees sc ! i + 1]\<rparr>"
    have "i < length (ls_indegrees ?sc)" "\<And>d k. map_of idx d = Some k \<Longrightarrow> k < length (ls_dependents ?sc)"
      using Cons.prems by simp_all
    note ih = Cons.IH [OF this]
    show ?thesis using ih k fresh Cons.prems
      by (auto simp: nth_list_update replicate_app_Cons_same)
  qed
qed simp

text \<open>Errors are reported exactly for repeated and for unknown names.\<close>

lemma scan_dependencies_errors:
  "ls_errors (scan_dependencies idx i cid ds seen sc) = [] \<longleftrightarrow>
     ls_errors sc = [] \<and> distinct ds \<and> set ds \<inter> set seen = {} \<and> (\<forall>d \<in> set ds. map_of idx d \<noteq> None)"
  by (induction ds arbitrary: seen sc) (auto split: option.split)

lemma scan_components_effect:
  assumes "i + length cs \<le> length (ls_indegrees sc)" and "\<And>d k. map_of idx d = Some k \<Longrightarrow> k < length (ls_dependents sc)"
  shows "length (ls_dependents (scan_components idx i cs sc)) = length (ls_dependents sc) \<and>
    (\<forall>j < length (ls_indegrees sc). ls_indegrees (scan_components idx i cs sc) ! j =
      ls_indegrees sc ! j + (if i \<le> j \<and> j < i + length cs then length (resolved idx [] (depends_on (cs ! (j - i)))) else 0)) \<and>
    (\<forall>k < length (ls_dependents sc). ls_dependents (scan_components idx i cs sc) ! k =
      ls_dependents sc ! k @ concat (map (\<lambda>j. replicate (count_list (resolved idx [] (depends_on (cs ! (j - i)))) k) j) [i..<i + length cs])) \<and>
    (ls_errors (scan_components idx i cs sc) = [] \<longleftrightarrow>
      ls_errors sc = [] \<and> (\<forall>c \<in> set cs. distinct (depends_on c) \<and> (\<forall>d \<in> set (depends_on c). map_of idx d \<noteq> None)))"
  using assms
proof (induction cs arbitrary: i sc)
  case (Cons c cs)
  let ?sc = "scan_dependencies idx i (comp_id c) (depends_on c) [] sc"
  have i: "i < length (ls_indegrees sc)" using Cons.prems(1) by simp
  note eff = scan_dependencies_effect [OF i, of idx, OF Cons.prems(2), where cid = "comp_id c" and ds = "depends_on c" and seen = "[]"]
  have "Suc i + length cs \<le> length (ls_indegrees ?sc)" "\<And>d k. map_of idx d = Some k \<Longrightarrow> k < length (ls_dependents ?sc)"
    using eff Cons.prems by simp_all
  note ih = Cons.IH [OF this]
  have sub: "(c # cs) ! (j - i) = (if j = i then c else cs ! (j - Suc i))" if "i \<le> j" for j
    using that by (auto simp: nth_Cons split: nat.split) (metis Suc_diff_Suc diff_Suc_Suc le_neq_implies_less nat.inject)
  have upt: "[i..<i + length (c # cs)] = i # [Suc i..<Suc i + length cs]" by (subst upt_conv_Cons) (simp_all del: upt_Suc)
  have tail: "map (\<lambda>j. replicate (count_list (resolved idx [] (depends_on ((c # cs) ! (j - i)))) k) j) [Suc i..<Suc i + length cs] =
      map (\<lambda>j. replicate (count_list (resolved idx [] (depends_on (cs ! (j - Suc i)))) k) j) [Suc i..<Suc i + length cs]" for k
    by (rule map_cong [OF refl]) (simp add: sub del: upt_Suc nth_Cons')
  show ?case
  proof (intro conjI)
    show "length (ls_dependents (scan_components idx i (c # cs) sc)) = length (ls_dependents sc)" using ih eff by simp
    show "\<forall>j < length (ls_indegrees sc). ls_indegrees (scan_components idx i (c # cs) sc) ! j =
      ls_indegrees sc ! j + (if i \<le> j \<and> j < i + length (c # cs) then length (resolved idx [] (depends_on ((c # cs) ! (j - i)))) else 0)"
    proof (intro allI impI)
      fix j assume j: "j < length (ls_indegrees sc)"
      show "ls_indegrees (scan_components idx i (c # cs) sc) ! j = ls_indegrees sc ! j +
          (if i \<le> j \<and> j < i + length (c # cs) then length (resolved idx [] (depends_on ((c # cs) ! (j - i)))) else 0)"
        using ih eff sub [of j] j by (cases "j = i") auto
    qed
    show "\<forall>k < length (ls_dependents sc). ls_dependents (scan_components idx i (c # cs) sc) ! k =
      ls_dependents sc ! k @
      concat (map (\<lambda>j. replicate (count_list (resolved idx [] (depends_on ((c # cs) ! (j - i)))) k) j) [i..<i + length (c # cs)])"
      unfolding upt list.map tail using ih eff by simp
    show "(ls_errors (scan_components idx i (c # cs) sc) = []) =
      (ls_errors sc = [] \<and> (\<forall>c \<in> set (c # cs). distinct (depends_on c) \<and> (\<forall>d \<in> set (depends_on c). map_of idx d \<noteq> None)))"
      using ih scan_dependencies_errors [of idx i "comp_id c" "depends_on c" "[]" sc] by auto
  qed
qed auto

section \<open>Correctness\<close>

abbreviation dependents_of :: "graph_spec \<Rightarrow> nat \<Rightarrow> nat list" where
  "dependents_of g i \<equiv> ls_dependents (lifecycle_scan_of g) ! i"

lemma deps_of_bound: "j < length (components g) \<Longrightarrow> set (deps_of g j) \<subseteq> {0..<length (components g)}"
  by (auto simp: deps_of_def set_resolved dest: component_indexes_SomeD(1))

lemma distinct_deps_of: "distinct (deps_of g j)"
  unfolding deps_of_def by (rule distinct_resolved) (metis component_indexes_SomeD(2))

lemma distinct_count_list: "distinct xs \<Longrightarrow> count_list xs x = (if x \<in> set xs then 1 else 0)"
  by (induction xs) auto

lemma lifecycle_scan_effect:
  shows indegrees_scan: "j < length (components g) \<Longrightarrow> ls_indegrees (lifecycle_scan_of g) ! j = length (deps_of g j)"
    and dependents_scan: "k < length (components g) \<Longrightarrow>
      dependents_of g k = filter (\<lambda>j. k \<in> set (deps_of g j)) [0..<length (components g)]"
    and errors_scan: "ls_errors (lifecycle_scan_of g) = [] \<longleftrightarrow>
      (\<forall>c \<in> set (components g). distinct (depends_on c) \<and> set (depends_on c) \<subseteq> comp_id ` set (components g))"
proof -
  let ?n = "length (components g)" and ?idx = "component_indexes g"
  let ?sc = "\<lparr>ls_errors = [], ls_dependents = replicate ?n [], ls_indegrees = replicate ?n 0\<rparr> :: lifecycle_scan"
  have b: "0 + ?n \<le> length (ls_indegrees ?sc)" and k: "\<And>d k. map_of ?idx d = Some k \<Longrightarrow> k < length (ls_dependents ?sc)"
    by (simp_all add: component_indexes_SomeD(1))
  note eff = scan_components_effect [OF b, of ?idx, OF k]
  have sc: "lifecycle_scan_of g = scan_components ?idx 0 (components g) ?sc" by (simp add: lifecycle_scan_of_def Let_def)
  show "j < ?n \<Longrightarrow> ls_indegrees (lifecycle_scan_of g) ! j = length (deps_of g j)" using eff by (simp add: sc deps_of_def)
  have one: "replicate (count_list (deps_of g j) k) j = (if k \<in> set (deps_of g j) then [j] else [])" for j k
    using distinct_count_list [OF distinct_deps_of, of g j k] by simp
  have "concat (map (\<lambda>j. replicate (count_list (deps_of g j) k) j) xs) = filter (\<lambda>j. k \<in> set (deps_of g j)) xs" for k xs
    by (induction xs) (simp_all add: one)
  then show "k < ?n \<Longrightarrow> dependents_of g k = filter (\<lambda>j. k \<in> set (deps_of g j)) [0..<?n]" for k
    using eff by (simp add: sc deps_of_def)
  show "ls_errors (lifecycle_scan_of g) = [] \<longleftrightarrow>
      (\<forall>c \<in> set (components g). distinct (depends_on c) \<and> set (depends_on c) \<subseteq> comp_id ` set (components g))"
    using eff by (auto simp: sc component_indexes_None_iff)
qed

interpretation lifecycle: kahn_graph "[0..<length (components g)]" "dependents_of g" "\<lambda>xs. xs" for g
proof unfold_locales
  fix x assume "x \<in> set [0..<length (components g)]"
  then have d: "dependents_of g x = filter (\<lambda>j. x \<in> set (deps_of g j)) [0..<length (components g)]"
    by (intro dependents_scan) simp
  show "set (dependents_of g x) \<subseteq> set [0..<length (components g)]" "distinct (dependents_of g x)"
    unfolding d by auto
qed simp_all

lemma indegree_card:
  assumes "j < length (components g)"
  shows "ls_indegrees (lifecycle_scan_of g) ! j = card {x \<in> set [0..<length (components g)]. j \<in> set (dependents_of g x)}"
proof -
  have "{x \<in> set [0..<length (components g)]. j \<in> set (dependents_of g x)} = set (deps_of g j)"
    using assms deps_of_bound [OF assms] by (auto simp: dependents_scan)
  then show ?thesis using assms distinct_deps_of by (simp add: indegrees_scan distinct_card)
qed

text \<open>The relation the user writes: component number \<open>k\<close> is the one that a dependency of component number \<open>j\<close> names.\<close>

definition depends_on_arcs :: "graph_spec \<Rightarrow> (nat \<times> nat) set" where
  "depends_on_arcs g = {(k, j). j < length (components g) \<and>
     (\<exists>d \<in> set (depends_on (components g ! j)). map_of (component_indexes g) d = Some k)}"

lemma lifecycle_arcs: "lifecycle.arcs g = depends_on_arcs g"
  unfolding lifecycle.arcs_def depends_on_arcs_def
  by (auto simp: dependents_scan deps_of_def set_resolved dest: component_indexes_SomeD(1))
    (frule component_indexes_SomeD(1), auto simp: dependents_scan deps_of_def set_resolved)

lemma lifecycle_order_spec:
  "\<exists>r. compute_component_lifecycle_order g = Some r \<and>
     (lo_ok r \<longleftrightarrow>
        (\<forall>c \<in> set (components g). distinct (depends_on c) \<and> set (depends_on c) \<subseteq> comp_id ` set (components g)) \<and>
        acyclic (depends_on_arcs g)) \<and>
     (lo_ok r \<longrightarrow>
        component_lifecycle_order g = Some (Inr (lo_order r)) \<and>
        distinct (lo_order r) \<and> set (lo_order r) = {0..<length (components g)} \<and>
        (\<forall>i < length (lo_order r). \<forall>d \<in> set (depends_on (components g ! (lo_order r ! i))).
           \<exists>k < i. comp_id (components g ! (lo_order r ! k)) = d)) \<and>
     (\<not> lo_ok r \<longrightarrow> component_lifecycle_order g = Some (Inl (hd (lo_errors r))) \<and> lo_errors r \<noteq> [])"
proof -
  let ?n = "length (components g)" and ?sc = "lifecycle_scan_of g"
  have deg: "\<And>y. y \<in> set [0..<?n] \<Longrightarrow> ls_indegrees ?sc ! y = card {x \<in> set [0..<?n]. y \<in> set (dependents_of g x)}"
    by (rule indegree_card) simp
  obtain order where
    r: "kahn_loop (\<lambda>xs. xs) (dependents_of g) (filter (\<lambda>x. ls_indegrees ?sc ! x = 0) [0..<?n]) (\<lambda>i. ls_indegrees ?sc ! i) [] = Some order"
    and d: "distinct order" and sub: "set order \<subseteq> set [0..<?n]" and topo: "topological (depends_on_arcs g) order"
    and len: "length order = ?n \<longleftrightarrow> acyclic (depends_on_arcs g)"
    using lifecycle.kahn_correct [of g, OF deg] unfolding lifecycle_arcs by auto
  let ?errors = "ls_errors ?sc @ (if length order \<noteq> ?n then [''component depends_on graph contains a cycle''] else [])"
  let ?r = "\<lparr>lo_ok = (?errors = []), lo_errors = ?errors, lo_order = order\<rparr>"
  have c: "compute_component_lifecycle_order g = Some ?r"
    unfolding compute_component_lifecycle_order_def Let_def r by simp
  have before: "\<exists>k < i. comp_id (components g ! (order ! k)) = x"
    if ok: "?errors = []" and i: "i < length order" and x: "x \<in> set (depends_on (components g ! (order ! i)))" for i x
  proof -
    have oi: "order ! i < ?n" using sub i nth_mem by fastforce
    have "ls_errors ?sc = []" using ok by simp
    then have "x \<in> comp_id ` set (components g)" using oi x unfolding errors_scan by (meson nth_mem subsetD)
    then obtain k where k: "map_of (component_indexes g) x = Some k" using component_indexes_None_iff by fastforce
    then have "(k, order ! i) \<in> depends_on_arcs g" using oi x by (auto simp: depends_on_arcs_def)
    then have "k \<in> set (take i order)" using topo i by (auto simp: topological_def)
    then obtain m where "m < i" "order ! m = k" using i by (auto simp: in_set_conv_nth)
    with component_indexes_SomeD(2) [OF k] show ?thesis by auto
  qed
  have all: "set order = {0..<?n}" if "?errors = []"
  proof -
    have "length order = ?n" using that by (simp split: if_splits)
    with d sub show ?thesis by (metis atLeastLessThan_upt card_subset_eq diff_zero distinct_card finite_atLeastLessThan length_upt card_atLeastLessThan)
  qed
  have ok: "(?errors = []) \<longleftrightarrow> (\<forall>c \<in> set (components g). distinct (depends_on c) \<and> set (depends_on c) \<subseteq> comp_id ` set (components g)) \<and>
      acyclic (depends_on_arcs g)"
    using errors_scan [of g] len by auto
  show ?thesis
    using c ok d all before by (intro exI [of _ ?r]) (auto simp: component_lifecycle_order_def simp del: append_is_Nil_conv)
qed

text \<open>C23.
  The lifecycle order is computed for every graph: the loop ends. It is accepted exactly when no component repeats a
  dependency, every dependency names a component and the dependencies have no cycle. When it is accepted it lists every component
  once and every component after all the components it depends on; otherwise the caller gets an exception with the first error.
\<close>

theorem lifecycle_order_correct:
  "\<exists>r. compute_component_lifecycle_order g = Some r \<and>
     (lo_ok r \<longleftrightarrow>
        (\<forall>c \<in> set (components g). distinct (depends_on c) \<and> set (depends_on c) \<subseteq> comp_id ` set (components g)) \<and>
        acyclic (depends_on_arcs g)) \<and>
     (lo_ok r \<longrightarrow>
        component_lifecycle_order g = Some (Inr (lo_order r)) \<and>
        distinct (lo_order r) \<and> set (lo_order r) = {0..<length (components g)} \<and>
        (\<forall>i < length (lo_order r). \<forall>d \<in> set (depends_on (components g ! (lo_order r ! i))).
           \<exists>k < i. comp_id (components g ! (lo_order r ! k)) = d)) \<and>
     (\<not> lo_ok r \<longrightarrow> component_lifecycle_order g = Some (Inl (hd (lo_errors r))) \<and> lo_errors r \<noteq> [])"
  by (rule lifecycle_order_spec)

definition lifecycle_demo :: "(string \<times> string list) list \<Rightarrow> graph_spec" where
  "lifecycle_demo cs = default_graph\<lparr>components := map (\<lambda>(c, ds). (default_component c)\<lparr>depends_on := ds\<rparr>) cs\<rparr>"

theorem lifecycle_order_correct_witness:
  "component_lifecycle_order (lifecycle_demo [(''a'', [''b'']), (''b'', [''c'']), (''c'', [])]) = Some (Inr [2, 1, 0]) \<and>
   (\<exists>r. compute_component_lifecycle_order (lifecycle_demo [(''a'', [''b'']), (''b'', [''c'']), (''c'', [])]) = Some r \<and>
      set (lo_order r) = {0..<3})"
proof -
  let ?g = "lifecycle_demo [(''a'', [''b'']), (''b'', [''c'']), (''c'', [])]"
  have o: "component_lifecycle_order ?g = Some (Inr [2, 1, 0])" by code_simp
  have n: "length (components ?g) = 3" by code_simp
  obtain r where "compute_component_lifecycle_order ?g = Some r"
    and "lo_ok r \<longrightarrow> set (lo_order r) = {0..<length (components ?g)}"
    and "\<not> lo_ok r \<longrightarrow> component_lifecycle_order ?g = Some (Inl (hd (lo_errors r)))"
    using lifecycle_order_correct [of ?g] by blast
  with o n show ?thesis by auto
qed

end
