(* ===== verification/Graph_Validate.thy ===== *)
theory Graph_Validate
  imports Component_Registry Graph_Compile Graph_Lifecycle Payload
begin

text \<open>
  Validation of a graph: \<^verbatim>\<open>validate_graph_impl\<close> of \<^verbatim>\<open>src/graph.cpp\<close> with its helpers, in the order of the code. Every section of the
  function is a definition that extends the report; the sets and maps it builds on the way are the records \<open>component_scan\<close> and
  \<open>edge_scan\<close>. The registry is \<open>None\<close> where the code passes a null pointer. \<^verbatim>\<open>std::stod\<close> enters as the argument \<open>stod\<close>
  (the value and the number of characters read, or \<open>None\<close> where it throws): its rounding is not modelled and nothing is assumed of it.
  The model is the Linux build (\<^verbatim>\<open>__linux__\<close> defined). \<open>None\<close> is a run that does not return.
\<close>

section \<open>Accepted values\<close>

definition is_allowed_scheduler_type :: "string \<Rightarrow> bool" where
  "is_allowed_scheduler_type t \<longleftrightarrow> t \<in> {''fixed_rate'', ''event_loop'', ''thread_pool''}"

definition is_allowed_channel_type :: "string \<Rightarrow> bool" where
  "is_allowed_channel_type t \<longleftrightarrow> t \<in> {''latest'', ''queue'', ''ring_buffer'', ''latched'', ''barrier'', ''previous_tick''}"

definition is_latest_style_channel_type :: "string \<Rightarrow> bool" where
  "is_latest_style_channel_type t \<longleftrightarrow> t \<in> {''latest'', ''latched'', ''previous_tick''}"

definition is_backpressure_drop_policy :: "string \<Rightarrow> bool" where
  "is_backpressure_drop_policy p \<longleftrightarrow> p \<in> {''drop_newest'', ''block''}"

definition is_allowed_drop_policy :: "string \<Rightarrow> bool" where
  "is_allowed_drop_policy p \<longleftrightarrow> p \<in> {''overwrite'', ''drop_oldest'', ''drop_newest'', ''block'', ''fail_fast'', ''reject''}"

definition is_allowed_lane_overflow :: "string \<Rightarrow> bool" where
  "is_allowed_lane_overflow p \<longleftrightarrow> is_allowed_drop_policy p \<or> p = ''reject_new''"

definition is_allowed_overrun_policy :: "string \<Rightarrow> bool" where
  "is_allowed_overrun_policy p \<longleftrightarrow> p \<in> {''drop_tick'', ''skip_next'', ''catch_up_once''}"

definition is_allowed_runtime_priority :: "string \<Rightarrow> bool" where
  "is_allowed_runtime_priority p \<longleftrightarrow> p \<in> {[], ''background'', ''low'', ''normal'', ''high''}"

definition is_non_default_advisory_lane_field :: "lane_spec \<Rightarrow> string \<Rightarrow> bool" where
  "is_non_default_advisory_lane_field l f =
     (if f = ''priority'' then lane_priority l \<noteq> []
      else if f = ''thread_name'' then lane_type l \<noteq> ''thread_pool'' \<and> lane_thread_name l \<noteq> []
      else if f = ''cpu_affinity'' then lane_cpu_affinity l \<noteq> []
      else if f = ''nice_priority'' then lane_nice_priority l \<noteq> 0
      else if f = ''rt_policy'' then lane_rt_policy l \<noteq> [] \<and> lane_rt_policy l \<noteq> ''none''
      else if f = ''rt_priority'' then lane_rt_priority l \<noteq> 0
      else if f = ''isolation_intent'' then lane_isolation_intent l \<noteq> [] \<and> lane_isolation_intent l \<noteq> ''none''
      else if f = ''wall_clock_enabled'' then lane_type l \<noteq> ''fixed_rate'' \<and> lane_wall_clock_enabled l
      else False)"

definition is_allowed_copy_policy :: "string \<Rightarrow> bool" where
  "is_allowed_copy_policy p \<longleftrightarrow> p \<in> {''copy'', ''shared_view'', ''loaned_view'', ''move_only''}"

definition is_allowed_owner :: "string \<Rightarrow> bool" where
  "is_allowed_owner p \<longleftrightarrow> p \<in> {''producer'', ''runtime'', ''consumer''}"

definition is_allowed_readers :: "string \<Rightarrow> bool" where
  "is_allowed_readers p \<longleftrightarrow> p \<in> {''single'', ''multi'', ''multiple''}"

definition is_multi_reader_value :: "string \<Rightarrow> bool" where
  "is_multi_reader_value p \<longleftrightarrow> p \<in> {''multi'', ''multiple''}"

definition slow_reader_drop_risk :: "edge_policy_spec \<Rightarrow> bool" where
  "slow_reader_drop_risk p \<longleftrightarrow> is_multi_reader_value (ep_readers p) \<and> (ep_overflow p = ''drop_oldest'' \<or> ep_overflow p = ''overwrite'')"

definition high_queue_depth_latency_risk :: "edge_policy_spec \<Rightarrow> bool" where
  "high_queue_depth_latency_risk p \<longleftrightarrow> (ep_mode p = ''queue'' \<or> ep_mode p = ''ring_buffer'') \<and> ep_capacity p > 256"

definition is_large_payload_schema :: "string \<Rightarrow> bool" where
  "is_large_payload_schema s \<longleftrightarrow> s = kFrameViewPayloadSchema \<or> s = kBinaryBlobPayloadSchema"

definition is_allowed_event_source_type :: "string \<Rightarrow> bool" where
  "is_allowed_event_source_type t \<longleftrightarrow> t \<in> {''message'', ''timer'', ''request'', ''task_ready'', ''future_ready'', ''manual''}"

definition is_reserved_event_source_type :: "string \<Rightarrow> bool" where
  "is_reserved_event_source_type t \<longleftrightarrow> t \<in> {''action_goal'', ''action_cancel''}"

definition is_allowed_trigger_policy_type :: "string \<Rightarrow> bool" where
  "is_allowed_trigger_policy_type t \<longleftrightarrow>
     t \<in> {''on_event'', ''any_input'', ''all_inputs'', ''time_sync'', ''batch'', ''request'', ''task_ready'', ''manual'',
          ''watermark'', ''condition'', ''debounce'', ''rate_limit''}"

definition is_allowed_trigger_condition :: "string \<Rightarrow> bool" where
  "is_allowed_trigger_condition t \<longleftrightarrow> t \<in> {''all_inputs_ready'', ''any_input_ready'', ''event_timestamp_present''}"

definition is_allowed_loop_policy_type :: "string \<Rightarrow> bool" where
  "is_allowed_loop_policy_type t \<longleftrightarrow> t \<in> {''fixed_point'', ''transaction'', ''solver_iteration'', ''coalesced_event'', ''async_task''}"

definition is_allowed_loop_convergence :: "string \<Rightarrow> bool" where
  "is_allowed_loop_convergence t \<longleftrightarrow> t \<in> {[], ''single_pass'', ''after_first_iteration'', ''always'', ''stable_state''}"

definition is_allowed_loop_partial_success :: "string \<Rightarrow> bool" where
  "is_allowed_loop_partial_success t \<longleftrightarrow> t \<in> {[], ''commit_outputs'', ''discard_outputs'', ''fail_run''}"

section \<open>Component configuration\<close>

fun config_kind_name :: "config_value_kind \<Rightarrow> string" where
  "config_kind_name CString = ''string''"
| "config_kind_name CInt = ''int''"
| "config_kind_name CDouble = ''double''"
| "config_kind_name CBool = ''bool''"

text \<open>\<^verbatim>\<open>true\<close> with the parsed value, or \<^verbatim>\<open>false\<close>.\<close>

definition parse_double :: "(string \<Rightarrow> (fp \<times> nat) option) \<Rightarrow> string \<Rightarrow> fp option" where
  "parse_double stod v =
     (case stod v of None \<Rightarrow> None | Some (x, pos) \<Rightarrow> if pos = length v then Some x else None)"

text \<open>A finite value in the range of a 32-bit \<^verbatim>\<open>int\<close> that the cast to \<^verbatim>\<open>int\<close> (towards zero) does not change.\<close>

fun fp_is_int :: "fp \<Rightarrow> bool" where
  "fp_is_int (Finite q) \<longleftrightarrow> - 2147483648 \<le> q \<and> q \<le> 2147483647 \<and> q = of_int (if q \<ge> 0 then floor q else ceiling q)"
| "fp_is_int _ \<longleftrightarrow> False"

definition check_config_field ::
    "(string \<Rightarrow> (fp \<times> nat) option) \<Rightarrow> component_node_spec \<Rightarrow> config_field_spec \<Rightarrow> graph_report \<Rightarrow> graph_report" where
  "check_config_field stod c f r =
     (let field_msg = (\<lambda>t. ''component '' @ comp_id c @ '' config field '' @ cf_name f @ t)
      in case map_of (cv_values (comp_config c)) (cf_name f) of
           None \<Rightarrow> add_error_if (cf_required f) (''component '' @ comp_id c @ '' missing required config field '' @ cf_name f) r
         | Some v \<Rightarrow>
             if is_nested (comp_config c) (cf_name f) \<and> \<not> cf_allow_nested f
             then add_error (field_msg '' does not allow nested values'') r
             else if cf_kind f = CString
             then add_error_if (cf_enum_values f \<noteq> [] \<and> v \<notin> set (cf_enum_values f)) (field_msg ('' has unsupported enum value '' @ v)) r
             else if cf_kind f = CBool
             then add_error_if (v \<noteq> ''true'' \<and> v \<noteq> ''false'') (field_msg '' must be bool true/false'') r
             else
               (case parse_double stod v of
                  None \<Rightarrow> add_error (field_msg ('' must be '' @ config_kind_name (cf_kind f))) r
                | Some x \<Rightarrow>
                    add_error_if (case cf_max_value f of None \<Rightarrow> False | Some m \<Rightarrow> fp_less m x) (field_msg '' is above maximum'')
                      (add_error_if (case cf_min_value f of None \<Rightarrow> False | Some m \<Rightarrow> fp_less x m) (field_msg '' is below minimum'')
                        (add_error_if (cf_kind f = CInt \<and> \<not> fp_is_int x) (field_msg '' must be int'') r))))"

definition validate_component_config ::
    "(string \<Rightarrow> (fp \<times> nat) option) \<Rightarrow> component_node_spec \<Rightarrow> component_descriptor \<Rightarrow> graph_report \<Rightarrow> graph_report" where
  "validate_component_config stod c d r = fold (check_config_field stod c) (cd_config_fields d) r"

section \<open>Ports and roles\<close>

definition find_port :: "port_descriptor list \<Rightarrow> string \<Rightarrow> port_descriptor option" where
  "find_port ps name = find (\<lambda>p. port_name p = name) ps"

text \<open>\<open>Some\<close> is the reason of \<^verbatim>\<open>false\<close>.\<close>

definition port_contract_mismatch :: "port_descriptor \<Rightarrow> port_descriptor \<Rightarrow> string option" where
  "port_contract_mismatch out_p in_p =
     (if port_schema out_p \<noteq> [] \<and> port_schema in_p \<noteq> [] \<and> port_schema out_p \<noteq> port_schema in_p
      then Some (''schema '' @ port_schema out_p @ '' != '' @ port_schema in_p)
      else if port_payload_type out_p \<noteq> [] \<and> port_payload_type in_p \<noteq> [] \<and> port_payload_type out_p \<noteq> port_payload_type in_p
      then Some (''payload_type '' @ port_payload_type out_p @ '' != '' @ port_payload_type in_p)
      else None)"

definition boundary_roles_compatible :: "component_role \<Rightarrow> component_role \<Rightarrow> bool" where
  "boundary_roles_compatible graph_role descriptor_role =
     (if graph_role = RProcessing then True
      else if component_role_has_input graph_role \<and> \<not> component_role_has_input descriptor_role then False
      else if component_role_has_output graph_role \<and> \<not> component_role_has_output descriptor_role then False
      else True)"

section \<open>Sections of the validator\<close>

definition add_warning_if ::
    "bool \<Rightarrow> string \<Rightarrow> string \<Rightarrow> string \<Rightarrow> string list \<Rightarrow> string list \<Rightarrow> graph_report \<Rightarrow> graph_report" where
  "add_warning_if b code msg path comps eds r = (if b then add_warning code msg path comps eds r else r)"

text \<open>A sequence of statements, each of which extends the report.\<close>

definition run_checks :: "(graph_report \<Rightarrow> graph_report) list \<Rightarrow> graph_report \<Rightarrow> graph_report" where
  "run_checks fs r = fold (\<lambda>f. f) fs r"

definition check_graph_header :: "graph_spec \<Rightarrow> graph_report \<Rightarrow> graph_report" where
  "check_graph_header g =
     run_checks
       [add_error_if (schema_version g \<noteq> kTopoExecSchemaVersion) (''schema_version must be '' @ int_to_string kTopoExecSchemaVersion),
        add_error_if (graph_name g = []) ''graph.name must not be empty'',
        (if graph_kind g = [] then add_error ''graph.kind must not be empty''
         else add_error_if (graph_kind g \<noteq> ''runnable'' \<and> graph_kind g \<noteq> ''internal_test'')
                ''graph.kind must be runnable or internal_test''),
        add_error_if (runtime_domain (graph_clock g) \<noteq> ''steady'') ''graph.clock.runtime_domain must be steady'',
        add_error_if (\<not> is_timestamp_domain_value (event_domain (graph_clock g)))
          (''graph.clock.event_domain has unsupported domain '' @ event_domain (graph_clock g))]"

definition advisory_lane_fields :: "string list" where
  "advisory_lane_fields = [''priority'', ''thread_name'', ''cpu_affinity'', ''nice_priority'', ''rt_policy'', ''rt_priority'',
     ''isolation_intent'', ''wall_clock_enabled'']"

definition check_lane_fields :: "lane_spec \<Rightarrow> graph_report \<Rightarrow> graph_report" where
  "check_lane_fields l =
     run_checks
       ([add_error_if (\<not> is_allowed_scheduler_type (lane_type l)) (''lane '' @ lane_id l @ '' has unsupported type '' @ lane_type l),
         add_error_if (lane_max_threads l < 0) (''lane '' @ lane_id l @ '' max_threads must be non-negative''),
         add_error_if (lane_queue_capacity l < 0) (''lane '' @ lane_id l @ '' queue_capacity must be non-negative''),
         add_error_if (lane_period_ms l < 0) (''lane '' @ lane_id l @ '' period_ms must be non-negative''),
         add_error_if (lane_tick_budget_ms l < 0) (''lane '' @ lane_id l @ '' tick_budget_ms must be non-negative''),
         add_error_if (\<not> is_allowed_lane_overflow (lane_overflow l))
           (''lane '' @ lane_id l @ '' has unsupported overflow '' @ lane_overflow l),
         add_error_if (\<not> is_allowed_overrun_policy (lane_overrun_policy l))
           (''lane '' @ lane_id l @ '' has unsupported overrun_policy '' @ lane_overrun_policy l)] @
        map (\<lambda>f r. if is_non_default_advisory_lane_field l f
                   then add_advisory ''advisory_lane_field_ignored''
                          (''lane '' @ lane_id l @ '' advisory field '' @ f @
                           '' is parsed and preserved but not enforced by the current runtime'')
                          (''lanes.'' @ lane_id l @ ''.'' @ f) r
                   else r) advisory_lane_fields)"

fun check_lanes :: "lane_spec list \<Rightarrow> string list \<Rightarrow> graph_report \<Rightarrow> string list \<times> graph_report" where
  "check_lanes [] ids r = (ids, r)"
| "check_lanes (l # ls) ids r =
     (if lane_id l = [] then check_lanes ls ids (add_error ''lane id must not be empty'' r)
      else check_lanes ls (lane_id l # ids)
             (check_lane_fields l (add_error_if (lane_id l \<in> set ids) (''duplicate lane: '' @ lane_id l) r)))"

definition check_event_source :: "component_node_spec \<Rightarrow> event_source_spec \<Rightarrow> graph_report \<Rightarrow> graph_report" where
  "check_event_source c s =
     run_checks
       [(if is_reserved_event_source_type (es_type s)
         then add_error (''component '' @ comp_id c @ '' event_source.type '' @ es_type s @ '' is reserved but not implemented in schema v1'')
         else add_error_if (\<not> is_allowed_event_source_type (es_type s))
                (''component '' @ comp_id c @ '' has unsupported event_source.type '' @ es_type s)),
        add_error_if (es_type s = ''timer'' \<and> es_period_ms s \<le> 0)
          (''component '' @ comp_id c @ '' timer event_source requires positive period_ms''),
        add_error_if (es_type s = ''message'' \<and> es_inputs s = [])
          (''component '' @ comp_id c @ '' message event_source requires at least one input'')]"

definition check_trigger :: "component_node_spec \<Rightarrow> graph_report \<Rightarrow> graph_report" where
  "check_trigger c =
     (let p = trigger_policy c; t = tp_type p
      in run_checks
       [add_error_if (\<not> is_allowed_trigger_policy_type t) (''component '' @ comp_id c @ '' has unsupported trigger_policy.type '' @ t),
        add_error_if (t \<in> {''on_event'', ''all_inputs'', ''any_input'', ''time_sync'', ''batch'', ''watermark'', ''condition'',
                          ''debounce'', ''rate_limit''} \<and> has_message_event_source c \<and> trigger_policy_inputs_for c = [])
          (''component '' @ comp_id c @ '' trigger_policy requires at least one input''),
        add_error_if (tp_batch_size p < 0 \<or> tp_batch_window_ms p < 0 \<or> tp_sync_slop_ms p < 0 \<or> tp_min_interval_ms p < 0 \<or>
                      tp_max_latency_ms p < 0 \<or> tp_watermark_lateness_ms p < 0 \<or> tp_debounce_window_ms p < 0)
          (''component '' @ comp_id c @ '' trigger_policy numeric fields must be non-negative''),
        add_error_if (tp_debounce_window_ms p > 0)
          (''component '' @ comp_id c @ '' trigger_policy.debounce_window_ms is reserved in schema v1 and must be 0''),
        add_error_if (t = ''batch'' \<and> tp_batch_size p \<le> 0 \<and> tp_batch_window_ms p \<le> 0)
          (''component '' @ comp_id c @ '' batch trigger_policy requires batch_size or batch_window_ms''),
        add_warning_if (t \<in> {''all_inputs'', ''time_sync'', ''batch'', ''watermark'', ''condition'', ''debounce'', ''rate_limit''} \<and>
                        trigger_policy_inputs_for c \<noteq> [] \<and> \<not> has_message_event_source c)
          ''trigger_never_ready''
          (''component '' @ comp_id c @ '' trigger_policy '' @ t @ '' names message inputs but has no message event_source'')
          (''components.'' @ comp_id c @ ''.trigger_policy'') [comp_id c] [],
        add_error_if (t = ''condition'' \<and> \<not> is_allowed_trigger_condition (tp_condition p))
          (''component '' @ comp_id c @ '' condition trigger_policy.condition must be one of '' @
           ''all_inputs_ready, any_input_ready, or event_timestamp_present''),
        add_error_if (t = ''rate_limit'' \<and> tp_min_interval_ms p \<le> 0)
          (''component '' @ comp_id c @ '' rate_limit trigger_policy requires positive min_interval_ms'')])"

definition check_component_fields :: "string list \<Rightarrow> component_node_spec \<Rightarrow> graph_report \<Rightarrow> graph_report" where
  "check_component_fields lane_ids c =
     run_checks
       ([add_error_if (comp_type c = []) (''component '' @ comp_id c @ '' type must not be empty''),
         add_error_if (ex_lane (execution c) \<notin> set lane_ids)
           (''component '' @ comp_id c @ '' references missing lane '' @ ex_lane (execution c)),
         add_error_if (\<not> is_allowed_runtime_priority (ex_priority (execution c)))
           (''component '' @ comp_id c @ '' has unsupported execution.priority '' @ ex_priority (execution c)),
         add_error_if (ex_on_error (execution c) \<noteq> ''fail_fast'')
           (''component '' @ comp_id c @ '' has unsupported execution.on_error '' @ ex_on_error (execution c) @
            '' (only fail_fast is implemented)''),
         add_error_if (event_sources c = []) (''component '' @ comp_id c @ '' requires at least one event_source'')] @
        map (check_event_source c) (event_sources c) @
        [add_error_if (has_timer_event_source c \<and> has_message_event_source c)
           (''component '' @ comp_id c @ '' cannot mix timer event_source with input-driven event_source types''),
         check_trigger c])"

subsection \<open>Components\<close>

record component_scan =
  cs_ids :: "string list"
  cs_descriptors :: "(string, component_descriptor) smap"
  cs_has_input_boundary :: bool
  cs_has_output_boundary :: bool
  cs_has_duplicate :: bool
  cs_report :: graph_report

definition note_role :: "component_role \<Rightarrow> component_scan \<Rightarrow> component_scan" where
  "note_role role s =
     (if role \<noteq> RProcessing
      then s\<lparr>cs_has_input_boundary := cs_has_input_boundary s \<or> component_role_has_input role,
             cs_has_output_boundary := cs_has_output_boundary s \<or> component_role_has_output role\<rparr>
      else s)"

definition check_descriptor ::
    "(string \<Rightarrow> (fp \<times> nat) option) \<Rightarrow> component_node_spec \<Rightarrow> component_descriptor \<Rightarrow> graph_report \<Rightarrow> graph_report" where
  "check_descriptor stod c d =
     run_checks
       [add_error_if (cd_type d \<noteq> comp_type c)
          (''component '' @ comp_id c @ '' descriptor type mismatch: '' @ cd_type d @ '' != '' @ comp_type c),
        add_error_if (cd_scheduler_lane d \<noteq> [] \<and> cd_scheduler_lane d \<noteq> ex_lane (execution c))
          (''component '' @ comp_id c @ '' lane mismatch: descriptor '' @ cd_scheduler_lane d @ '' != graph '' @ ex_lane (execution c)),
        add_error_if (\<not> boundary_roles_compatible (bd_role (boundary c)) (cd_role d))
          (''component '' @ comp_id c @ '' boundary role mismatch: graph '' @ role_to_string (bd_role (boundary c)) @
           '' is incompatible with descriptor '' @ role_to_string (cd_role d)),
        validate_component_config stod c d]"

definition probe_component ::
    "(string \<Rightarrow> (fp \<times> nat) option) \<Rightarrow> component_registry \<Rightarrow> component_node_spec \<Rightarrow> component_scan \<Rightarrow> component_scan" where
  "probe_component stod reg c s =
     (if registry_metadata reg (comp_type c) = None
      then s\<lparr>cs_report := add_error (''component '' @ comp_id c @ '' type is not registered: '' @ comp_type c) (cs_report s)\<rparr>
      else
        (case create_component reg (comp_type c) of
           Inl what \<Rightarrow> s\<lparr>cs_report := add_error (''component '' @ comp_id c @ '' descriptor probe failed: '' @ what) (cs_report s)\<rparr>
         | Inr d \<Rightarrow>
             (let s1 = note_role (cd_role d) s
              in s1\<lparr>cs_report := check_descriptor stod c d (cs_report s1),
                    cs_descriptors := smap_put (comp_id c) d (cs_descriptors s1)\<rparr>)))"

definition check_component ::
    "(string \<Rightarrow> (fp \<times> nat) option) \<Rightarrow> component_registry option \<Rightarrow> string list \<Rightarrow> component_node_spec \<Rightarrow> component_scan \<Rightarrow>
     component_scan" where
  "check_component stod registry lane_ids c s =
     (if comp_id c = [] then s\<lparr>cs_report := add_error ''component id must not be empty'' (cs_report s)\<rparr>
      else
        (let dup = (comp_id c \<in> set (cs_ids s));
             s1 = s\<lparr>cs_ids := comp_id c # cs_ids s, cs_has_duplicate := cs_has_duplicate s \<or> dup,
                    cs_report := check_component_fields lane_ids c
                      (add_error_if dup (''duplicate component: '' @ comp_id c) (cs_report s))\<rparr>;
             s2 = note_role (bd_role (boundary c)) s1
         in case registry of None \<Rightarrow> s2 | Some reg \<Rightarrow> probe_component stod reg c s2))"

definition check_components ::
    "(string \<Rightarrow> (fp \<times> nat) option) \<Rightarrow> component_registry option \<Rightarrow> string list \<Rightarrow> graph_spec \<Rightarrow> graph_report \<Rightarrow> component_scan" where
  "check_components stod registry lane_ids g r =
     fold (check_component stod registry lane_ids) (components g)
       \<lparr>cs_ids = [], cs_descriptors = [], cs_has_input_boundary = False, cs_has_output_boundary = False, cs_has_duplicate = False,
        cs_report = r\<rparr>"

definition check_boundaries :: "component_registry option \<Rightarrow> graph_spec \<Rightarrow> component_scan \<Rightarrow> graph_report \<Rightarrow> graph_report" where
  "check_boundaries registry g s r =
     (if registry \<noteq> None \<and> graph_kind g = ''runnable''
      then add_error_if (\<not> cs_has_output_boundary s) ''runnable graph must declare at least one output boundary component''
             (add_error_if (\<not> cs_has_input_boundary s) ''runnable graph must declare at least one input boundary component'' r)
      else r)"

subsection \<open>Edges\<close>

record edge_scan =
  ed_ids :: "string list"
  ed_sources :: "string list"
  ed_targets :: "string list"
  ed_target_counts :: "(string, nat) smap"
  ed_state_writers :: "(string, string list) smap"
  ed_report :: graph_report

definition check_edge_policy :: "edge_spec \<Rightarrow> graph_report \<Rightarrow> graph_report" where
  "check_edge_policy e =
     (let p = edge_policy e
      in run_checks
       [(if \<not> has_kind e then add_error (''edge '' @ edge_id e @ '' kind is required'')
         else add_error_if (invalid_kind e \<noteq> []) (''edge '' @ edge_id e @ '' has unsupported kind '' @ invalid_kind e)),
        add_error_if (\<not> is_allowed_channel_type (ep_mode p)) (''edge '' @ edge_id e @ '' has unsupported policy.mode '' @ ep_mode p),
        add_error_if (ep_capacity p \<le> 0) (''edge '' @ edge_id e @ '' policy.capacity must be positive''),
        add_error_if (ep_max_inflight p < 0) (''edge '' @ edge_id e @ '' policy.max_inflight must be non-negative''),
        add_error_if (ep_max_inflight p > 0 \<and> edge_kind_of e \<noteq> KAsync)
          (''edge '' @ edge_id e @ '' policy.max_inflight applies only to async edges''),
        add_error_if (\<not> is_allowed_drop_policy (ep_overflow p))
          (''edge '' @ edge_id e @ '' has unsupported policy.overflow '' @ ep_overflow p),
        add_error_if (is_latest_style_channel_type (ep_mode p) \<and> is_backpressure_drop_policy (ep_overflow p))
          (''edge '' @ edge_id e @ '' latest-style policy cannot use overflow '' @ ep_overflow p),
        add_error_if (\<not> is_timestamp_domain_value (ep_timestamp_domain p))
          (''edge '' @ edge_id e @ '' has unsupported policy.timestamp_domain '' @ ep_timestamp_domain p),
        add_error_if (\<not> is_allowed_copy_policy (ep_copy_policy p))
          (''edge '' @ edge_id e @ '' has unsupported policy.copy_policy '' @ ep_copy_policy p),
        add_error_if (\<not> is_allowed_owner (ep_owner p)) (''edge '' @ edge_id e @ '' has unsupported policy.owner '' @ ep_owner p),
        add_error_if (\<not> is_allowed_readers (ep_readers p)) (''edge '' @ edge_id e @ '' has unsupported policy.readers '' @ ep_readers p),
        add_error_if (ep_copy_policy p = ''move_only'' \<and> ep_readers p \<noteq> ''single'')
          (''edge '' @ edge_id e @ '' move_only copy_policy requires readers: single''),
        (if ep_overflow p = ''block''
         then add_warning ''backpressure_risk'' (''edge '' @ edge_id e @ '' uses blocking overflow and may stall upstream execution'')
                (''edges.'' @ edge_id e) [] [edge_id e]
         else add_warning_if (slow_reader_drop_risk p) ''backpressure_risk''
                (''edge '' @ edge_id e @ '' is multi-reader with slow-reader drop risk'') (''edges.'' @ edge_id e) [] [edge_id e]),
        add_warning_if (high_queue_depth_latency_risk p) ''high_queue_depth_latency_risk''
          (''edge '' @ edge_id e @ '' queue capacity '' @ int_to_string (ep_capacity p) @ '' can hide tail latency'')
          (''edges.'' @ edge_id e @ ''.policy.capacity'') [] [edge_id e]])"

text \<open>\<open>None\<close>: no descriptor or no port name; \<open>Some None\<close>: the port is missing; \<open>Some (Some p)\<close>: the port.\<close>

definition port_of ::
    "(component_descriptor \<Rightarrow> port_descriptor list) \<Rightarrow> (string \<Rightarrow> component_descriptor option) \<Rightarrow> string \<Rightarrow>
     port_descriptor option option" where
  "port_of ports desc ep =
     (case desc (component_id_from_endpoint ep) of
        None \<Rightarrow> None
      | Some d \<Rightarrow> if port_name_from_endpoint ep = [] then None else Some (find_port (ports d) (port_name_from_endpoint ep)))"

definition check_edge_ports :: "(string, component_descriptor) smap \<Rightarrow> edge_spec \<Rightarrow> graph_report \<Rightarrow> graph_report" where
  "check_edge_ports ds e =
     (let out_p = port_of cd_outputs (map_of ds) (edge_from e); in_p = port_of cd_inputs (map_of ds) (edge_to e)
      in run_checks
       [add_error_if (out_p = Some None) (''edge '' @ edge_id e @ '' references missing output port '' @ edge_from e),
        add_error_if (in_p = Some None) (''edge '' @ edge_id e @ '' references missing input port '' @ edge_to e),
        (case (out_p, in_p) of
           (Some (Some op), Some (Some ip)) \<Rightarrow>
             (case port_contract_mismatch op ip of
                None \<Rightarrow> (\<lambda>r. r)
              | Some why \<Rightarrow> add_error (''edge '' @ edge_id e @ '' payload type mismatch: '' @ edge_from e @ '' -> '' @ edge_to e @ '' '' @ why))
         | _ \<Rightarrow> (\<lambda>r. r)),
        (case out_p of
           Some (Some op) \<Rightarrow>
             add_warning_if (ep_copy_policy (edge_policy e) = ''copy'' \<and> is_large_payload_schema (port_schema op)) ''large_payload_copy''
               (''edge '' @ edge_id e @ '' copies large payload schema '' @ port_schema op) (''edges.'' @ edge_id e)
               [component_id_from_endpoint (edge_from e), component_id_from_endpoint (edge_to e)] [edge_id e]
         | _ \<Rightarrow> (\<lambda>r. r))])"

definition check_edge :: "component_scan \<Rightarrow> edge_spec \<Rightarrow> edge_scan \<Rightarrow> edge_scan" where
  "check_edge cs e s =
     (if edge_id e = [] then s\<lparr>ed_report := add_error ''edge id must not be empty'' (ed_report s)\<rparr>
      else
        (let from = component_id_from_endpoint (edge_from e); to = component_id_from_endpoint (edge_to e)
         in s\<lparr>ed_ids := edge_id e # ed_ids s,
              ed_sources := edge_from e # ed_sources s,
              ed_targets := edge_to e # ed_targets s,
              ed_target_counts := smap_put (edge_to e) (smap_get 0 (ed_target_counts s) (edge_to e) + 1) (ed_target_counts s),
              ed_state_writers :=
                (if edge_kind_of e = KState then smap_push (edge_to e) (edge_id e) (ed_state_writers s) else ed_state_writers s),
              ed_report :=
                run_checks
                  [add_error_if (edge_id e \<in> set (ed_ids s)) (''duplicate edge: '' @ edge_id e),
                   check_edge_policy e,
                   add_error_if (from \<notin> set (cs_ids cs)) (''edge '' @ edge_id e @ '' references missing source component '' @ from),
                   add_error_if (to \<notin> set (cs_ids cs)) (''edge '' @ edge_id e @ '' references missing target component '' @ to),
                   add_error_if (edge_from e \<in> set (ed_sources s) \<and> ep_owner (edge_policy e) = ''producer'')
                     (''source endpoint has multiple producer-owned edges: '' @ edge_from e),
                   check_edge_ports (cs_descriptors cs) e] (ed_report s)\<rparr>))"

definition check_edges :: "component_scan \<Rightarrow> graph_spec \<Rightarrow> graph_report \<Rightarrow> edge_scan" where
  "check_edges cs g r =
     fold (check_edge cs) (graph_edges g)
       \<lparr>ed_ids = [], ed_sources = [], ed_targets = [], ed_target_counts = [], ed_state_writers = [], ed_report = r\<rparr>"

definition check_state_writers :: "edge_scan \<Rightarrow> graph_report \<Rightarrow> graph_report" where
  "check_state_writers es r =
     fold (\<lambda>(target, writers). add_error_if (length writers > 1)
             (''state edge target has multiple writers: '' @ target @ '' via '' @ join_ids writers)) (ed_state_writers es) r"

subsection \<open>Inputs, triggers, loops, hierarchy\<close>

definition check_input :: "edge_scan \<Rightarrow> component_node_spec \<Rightarrow> port_descriptor \<Rightarrow> graph_report \<Rightarrow> graph_report" where
  "check_input es c p r =
     (if port_name p = [] then r
      else
        (let incoming = smap_get 0 (ed_target_counts es) (endpoint (comp_id c) (port_name p))
         in if incoming = 0
            then if port_required p then add_error (''component '' @ comp_id c @ '' missing required input '' @ port_name p) r
                 else add_advisory ''optional_input_unconnected''
                        (''component '' @ comp_id c @ '' optional input '' @ port_name p @ '' has no incoming edge'')
                        (''components.'' @ comp_id c @ ''.inputs.'' @ port_name p) r
            else add_error_if (port_mult p = MSingle \<and> incoming > 1)
                   (''component '' @ comp_id c @ '' input '' @ port_name p @ '' multiplicity single has multiple incoming edges'') r))"

definition check_inputs :: "component_scan \<Rightarrow> edge_scan \<Rightarrow> graph_spec \<Rightarrow> graph_report \<Rightarrow> graph_report" where
  "check_inputs cs es g r =
     fold (\<lambda>c r. case map_of (cs_descriptors cs) (comp_id c) of
                   None \<Rightarrow> r
                 | Some d \<Rightarrow> fold (check_input es c) (cd_inputs d) r) (components g) r"

definition check_trigger_inputs :: "edge_scan \<Rightarrow> graph_spec \<Rightarrow> graph_report \<Rightarrow> graph_report" where
  "check_trigger_inputs es g r =
     fold (\<lambda>c. fold (\<lambda>i. add_error_if (endpoint (comp_id c) i \<notin> set (ed_targets es))
                        (''component '' @ comp_id c @ '' trigger input has no incoming edge: '' @ i)) (trigger_policy_inputs_for c))
       (components g) r"

definition check_loop_policy :: "composite_loop_spec \<Rightarrow> graph_report \<Rightarrow> graph_report" where
  "check_loop_policy l =
     (let p = loop_policy l
      in run_checks
       [add_error_if (\<not> is_allowed_loop_policy_type (lp_type p))
          (''composite_loop '' @ loop_id l @ '' has unsupported loop_policy.type '' @ lp_type p),
        add_error_if (lp_budget_ms p < 0 \<or> lp_max_iterations p < 0 \<or> lp_max_inflight p < 0 \<or> lp_min_interval_ms p < 0)
          (''composite_loop '' @ loop_id l @ '' numeric policy fields must be non-negative''),
        add_error_if (case lp_residual_threshold p of None \<Rightarrow> False | Some x \<Rightarrow> fp_less x (Finite 0))
          (''composite_loop '' @ loop_id l @ '' residual_threshold must be non-negative''),
        add_error_if (\<not> is_allowed_loop_convergence (lp_convergence p))
          (''composite_loop '' @ loop_id l @ '' has unsupported loop_policy.convergence '' @ lp_convergence p),
        add_error_if (\<not> is_allowed_loop_partial_success (lp_partial_success p))
          (''composite_loop '' @ loop_id l @ '' has unsupported loop_policy.partial_success '' @ lp_partial_success p)])"

definition check_hierarchy_entry ::
    "component_scan \<Rightarrow> edge_scan \<Rightarrow> string list \<Rightarrow> graph_hierarchy_entry \<Rightarrow> graph_report \<Rightarrow> graph_report" where
  "check_hierarchy_entry cs es loop_ids h =
     run_checks
       (map (\<lambda>c. add_error_if (c \<notin> set (cs_ids cs)) (''subgraph '' @ hier_id h @ '' references missing expanded component '' @ c))
          (hier_components h) @
        map (\<lambda>e. add_error_if (e \<notin> set (ed_ids es)) (''subgraph '' @ hier_id h @ '' references missing expanded edge '' @ e))
          (hier_edges h) @
        map (\<lambda>l. add_error_if (l \<notin> set loop_ids) (''subgraph '' @ hier_id h @ '' references missing expanded composite_loop '' @ l))
          (hier_composite_loops h))"

fun check_hierarchy ::
    "component_scan \<Rightarrow> edge_scan \<Rightarrow> string list \<Rightarrow> graph_hierarchy_entry list \<Rightarrow> string list \<Rightarrow> graph_report \<Rightarrow> graph_report" where
  "check_hierarchy cs es loop_ids [] ids r = r"
| "check_hierarchy cs es loop_ids (h # hs) ids r =
     (if hier_id h = [] then check_hierarchy cs es loop_ids hs ids (add_error ''subgraph id must not be empty'' r)
      else check_hierarchy cs es loop_ids hs (hier_id h # ids)
             (check_hierarchy_entry cs es loop_ids h (add_error_if (hier_id h \<in> set ids) (''duplicate subgraph: '' @ hier_id h) r)))"

section \<open>The validator\<close>

record graph_validation_result = graph_report +
  vr_compiled_plan :: graph_compiled_plan

definition empty_plan :: graph_compiled_plan where
  "empty_plan = \<lparr>regions = [], region_order = [], component_region = [], immediate_sccs = []\<rparr>"

text \<open>The report of all sections before the compilation, and whether a component id occurs twice.\<close>

definition validate_sections ::
    "(string \<Rightarrow> (fp \<times> nat) option) \<Rightarrow> component_registry option \<Rightarrow> graph_spec \<Rightarrow> lifecycle_order_result \<Rightarrow> bool \<times> graph_report" where
  "validate_sections stod registry g lifecycle =
     (let (lane_ids, r1) = check_lanes (lanes g) [] (check_graph_header g empty_report);
          cs = check_components stod registry lane_ids g r1;
          r2 = check_boundaries registry g cs (add_errors (lo_errors lifecycle) (cs_report cs));
          es = check_edges cs g r2;
          r3 = check_trigger_inputs es g (check_inputs cs es g (check_state_writers es (ed_report es)));
          r4 = fold check_loop_policy (composite_loops g) r3;
          r5 = check_hierarchy cs es (map loop_id (composite_loops g)) (hierarchy g) [] r4
      in (cs_has_duplicate cs, r5))"

definition validate_graph_impl ::
    "(string \<Rightarrow> (fp \<times> nat) option) \<Rightarrow> component_registry option \<Rightarrow> graph_spec \<Rightarrow> graph_validation_result option" where
  "validate_graph_impl stod registry g =
     (case compute_component_lifecycle_order g of
        None \<Rightarrow> None
      | Some lifecycle \<Rightarrow>
          (let (dup, r) = validate_sections stod registry g lifecycle
           in if dup then Some (graph_report.extend r \<lparr>vr_compiled_plan = empty_plan\<rparr>)
              else
                (case compile_graph g of
                   None \<Rightarrow> None
                 | Some c \<Rightarrow>
                     Some (graph_report.extend (add_errors (gr_errors c) r) \<lparr>vr_compiled_plan = cr_plan c\<rparr>))))"

definition validate_graph_structure ::
    "(string \<Rightarrow> (fp \<times> nat) option) \<Rightarrow> graph_spec \<Rightarrow> graph_validation_result option" where
  "validate_graph_structure stod g = validate_graph_impl stod None g"

definition validate_graph ::
    "(string \<Rightarrow> (fp \<times> nat) option) \<Rightarrow> graph_spec \<Rightarrow> component_registry \<Rightarrow> graph_validation_result option" where
  "validate_graph stod g reg = validate_graph_impl stod (Some reg) g"

section \<open>Dry runs\<close>

record runtime_metric_sample =
  ms_name :: string
  ms_value :: fp
  ms_component_id :: string
  ms_lane :: string
  ms_channel_id :: string
  ms_tags :: "string list"

text \<open>The fields of the result that the code writes; all others keep their zero.\<close>

record graph_dry_run_result =
  dr_ok :: bool
  dr_errors :: "string list"
  dr_instantiated_components :: nat
  dr_configured_components :: nat
  dr_started_components :: nat
  dr_stopped_components :: nat
  dr_tick_calls :: nat
  dr_metric_samples :: nat
  dr_ticked_components :: "string list"
  dr_runtime_metrics :: "runtime_metric_sample list"

definition append_metric :: "string \<Rightarrow> fp \<Rightarrow> string \<Rightarrow> string \<Rightarrow> string \<Rightarrow> runtime_metric_sample list \<Rightarrow> runtime_metric_sample list" where
  "append_metric name v c l ch ms =
     ms @ [\<lparr>ms_name = name, ms_value = v, ms_component_id = c, ms_lane = l, ms_channel_id = ch, ms_tags = []\<rparr>]"

definition dry_run_graph ::
    "(string \<Rightarrow> (fp \<times> nat) option) \<Rightarrow> graph_spec \<Rightarrow> component_registry \<Rightarrow> nat \<Rightarrow> graph_dry_run_result option" where
  "dry_run_graph stod g reg ticks =
     (case validate_graph stod g reg of
        None \<Rightarrow> None
      | Some v \<Rightarrow>
          (if \<not> gr_ok v
           then Some \<lparr>dr_ok = False, dr_errors = gr_errors v, dr_instantiated_components = 0, dr_configured_components = 0,
                  dr_started_components = 0, dr_stopped_components = 0, dr_tick_calls = 0, dr_metric_samples = 0,
                  dr_ticked_components = [], dr_runtime_metrics = []\<rparr>
           else
             (let n = length (components g);
                  ms = fold (\<lambda>e. append_metric ''runtime.channel.configured'' (Finite 1) [] [] (edge_id e)) (graph_edges g) []
              in Some \<lparr>dr_ok = True, dr_errors = [], dr_instantiated_components = n, dr_configured_components = n,
                   dr_started_components = n, dr_stopped_components = n, dr_tick_calls = n * ticks mod 2 ^ 64, dr_metric_samples = length ms,
                   dr_ticked_components = concat (replicate ticks (map comp_id (components g))), dr_runtime_metrics = ms\<rparr>)))"

end
