(* ===== verification/Graph_Compile_Laws.thy ===== *)
theory Graph_Compile_Laws imports Graph_Compile begin

text \<open>
  Laws of graph compilation: the strongly connected components of the immediate edges (through the locale \<open>tarjan_graph\<close>), the
  regions and the graph between them, the order of the regions (through \<open>kahn_graph\<close>), and the error reports.
\<close>

section \<open>Component ids and immediate edges\<close>

lemma set_first_ids: "set (first_ids seen xs) = set xs - set seen - {[]}"
  by (induction xs arbitrary: seen) auto

lemma distinct_first_ids: "distinct (first_ids seen xs)"
  by (induction xs arbitrary: seen) (auto simp: set_first_ids)

lemma distinct_component_ids: "distinct (compile_component_ids g)"
  and set_component_ids: "set (compile_component_ids g) = comp_id ` set (components g) - {[]}"
  by (auto simp: compile_component_ids_def distinct_first_ids set_first_ids)

text \<open>The relation of the immediate edges between declared components.\<close>

definition immediate_arc :: "graph_spec \<Rightarrow> string \<Rightarrow> string \<Rightarrow> bool" where
  "immediate_arc g a b \<longleftrightarrow> a \<in> set (compile_component_ids g) \<and> b \<in> set (compile_component_ids g) \<and>
     (\<exists>e \<in> set (graph_edges g). is_immediate_edge e \<and> component_id_from_endpoint (edge_from e) = a \<and>
        component_id_from_endpoint (edge_to e) = b)"

lemma set_smap_get_push: "set (smap_get [] (smap_push k v m) k') = (if k' = k then insert v (set (smap_get [] m k)) else set (smap_get [] m k'))"
  by auto

lemma immediate_edge_fold:
  "set (smap_get [] (fold (\<lambda>e m.
         let from = component_id_from_endpoint (edge_from e); to = component_id_from_endpoint (edge_to e)
         in if is_immediate_edge e \<and> from \<in> K \<and> to \<in> K then smap_push from to m else m) es m) a) =
   set (smap_get [] m a) \<union> {b. a \<in> K \<and> b \<in> K \<and> (\<exists>e \<in> set es. is_immediate_edge e \<and>
      component_id_from_endpoint (edge_from e) = a \<and> component_id_from_endpoint (edge_to e) = b)}"
  by (induction es arbitrary: m) (auto simp: Let_def set_smap_get_push split: if_splits)

lemma immediate_successors_iff: "b \<in> set (immediate_successors g a) \<longleftrightarrow> immediate_arc g a b"
proof -
  have "smap_get [] (fold (\<lambda>c m. smap_put c [] m) cs m) a = []" if "smap_get [] m a = []" for cs and m :: "(string, string list) smap"
    using that by (induction cs arbitrary: m) auto
  from this [of "[]" "compile_component_ids g"] show ?thesis
    unfolding immediate_successors_def immediate_edge_map_def immediate_edge_fold immediate_arc_def by simp
qed

interpretation immediate: tarjan_graph "immediate_successors g" "set (compile_component_ids g)" for g
  by unfold_locales (auto simp: immediate_successors_iff immediate_arc_def)

lemma immediate_reach: "immediate.reach g = (immediate_arc g)\<^sup>*\<^sup>*"
  by (simp add: immediate.reach_def immediate_successors_iff)

text \<open>What the compiler relies on: the components in the order of their discovery.\<close>

definition scc_partition :: "graph_spec \<Rightarrow> string list list \<Rightarrow> bool" where
  "scc_partition g cs \<longleftrightarrow> distinct (concat cs) \<and> set (concat cs) = set (compile_component_ids g) \<and>
     (\<forall>c \<in> set cs. c \<noteq> [] \<and> sorted c \<and> (\<forall>a \<in> set c. \<forall>b. b \<in> set c \<longleftrightarrow> (immediate_arc g)\<^sup>*\<^sup>* a b \<and> (immediate_arc g)\<^sup>*\<^sup>* b a))"

lemma tarjan_partition: "\<exists>cs. tarjan_scc (compile_component_ids g) (immediate_successors g) = Some cs \<and> scc_partition g cs"
proof -
  obtain cs where cs: "tarjan_scc (compile_component_ids g) (immediate_successors g) = Some cs"
    "\<forall>c \<in> set cs. immediate.is_scc g c" "distinct (concat cs)" "set (concat cs) = set (compile_component_ids g)"
    using immediate.tarjan_correct [OF distinct_component_ids refl] by blast
  have "c \<noteq> [] \<and> sorted c \<and> (\<forall>a \<in> set c. \<forall>b. b \<in> set c \<longleftrightarrow> (immediate_arc g)\<^sup>*\<^sup>* a b \<and> (immediate_arc g)\<^sup>*\<^sup>* b a)"
    if "c \<in> set cs" for c
  proof -
    have c: "c \<noteq> []" "sorted c" "\<forall>a \<in> set c. set c = immediate.scc_of g a"
      using cs(2) that by (auto simp: immediate.is_scc_def)
    have "b \<in> immediate.scc_of g a \<longleftrightarrow> (immediate_arc g)\<^sup>*\<^sup>* a b \<and> (immediate_arc g)\<^sup>*\<^sup>* b a" for a b
      by (simp add: immediate.scc_of_def immediate_reach)
    with c show ?thesis by metis
  qed
  with cs show ?thesis by (auto simp: scc_partition_def)
qed

section \<open>Regions\<close>

lemma length_plan_regions [simp]: "length (plan_regions g cs) = length cs"
  by (simp add: plan_regions_def)

lemma nth_plan_regions: "i < length cs \<Longrightarrow> plan_regions g cs ! i = region_for g i (cs ! i)"
  by (simp add: plan_regions_def nth_enumerate_eq)

lemma region_components_for [simp]: "region_components (region_for g i scc) = scc"
  by (simp add: region_for_def split: option.split)

lemma map_of_fold_put_same: "map_of (fold (\<lambda>c. smap_put c v) cs m) a = (if a \<in> set cs then Some v else map_of m a)"
  by (induction cs arbitrary: m) auto

lemma mem_concat_iff: "a \<in> set (concat cs) \<longleftrightarrow> (\<exists>i < length cs. a \<in> set (cs ! i))"
  by (metis (no_types) UN_iff in_set_conv_nth set_concat)

text \<open>Loops that record for every member of disjoint groups the label of its group.\<close>

lemma map_of_fold_groups:
  assumes "distinct (concat (map snd ps))"
  shows "map_of (fold (\<lambda>(v, cs) m. fold (\<lambda>c. smap_put c v) cs m) ps m) a =
    (case find (\<lambda>p. a \<in> set (snd p)) ps of Some p \<Rightarrow> Some (fst p) | None \<Rightarrow> map_of m a)"
  using assms
proof (induction ps arbitrary: m)
  case (Cons p ps)
  have "find (\<lambda>p. a \<in> set (snd p)) ps = None" if "a \<in> set (snd p)"
    using Cons.prems that by (fastforce simp: find_None_iff)
  with Cons show ?case by (auto simp: map_of_fold_put_same split: prod.split option.split)
qed simp

lemma find_unique:
  assumes "i < length ps" and "P (ps ! i)" and "\<And>j. j < length ps \<Longrightarrow> P (ps ! j) \<Longrightarrow> j = i"
  shows "find P ps = Some (ps ! i)"
  unfolding find_Some_iff
proof (intro exI [of _ i] conjI allI impI)
  fix j assume "j < i"
  then show "\<not> P (ps ! j)" using assms(3) [of j] assms(1) by auto
qed (use assms(1,2) in auto)

lemma disjoint_groups:
  "distinct (concat xss) \<Longrightarrow> i < length xss \<Longrightarrow> j < length xss \<Longrightarrow> a \<in> set (xss ! i) \<Longrightarrow> a \<in> set (xss ! j) \<Longrightarrow> j = i"
proof (induction xss arbitrary: i j)
  case (Cons xs xss)
  have off: "a \<notin> set (xss ! k)" if "a \<in> set xs" "k < length xss" for k
    using Cons.prems(1) that(1) nth_mem [OF that(2)] unfolding concat.simps distinct_append set_concat by blast
  show ?case
  proof (cases i)
    case 0
    with Cons.prems off show ?thesis by (cases j) auto
  next
    case (Suc k)
    with Cons off show ?thesis by (cases j) auto
  qed
qed simp

lemma group_index:
  assumes "distinct (concat (map snd ps))"
  shows "map_of (fold (\<lambda>(v, cs) m. fold (\<lambda>c. smap_put c v) cs m) ps []) a = Some v \<longleftrightarrow>
    (\<exists>i < length ps. a \<in> set (snd (ps ! i)) \<and> v = fst (ps ! i))"
proof -
  have uniq: "j = i" if "i < length ps" "j < length ps" "a \<in> set (snd (ps ! i))" "a \<in> set (snd (ps ! j))" for i j
    using disjoint_groups [OF assms, of i j a] that by simp
  show ?thesis
  proof
    assume "map_of (fold (\<lambda>(v, cs) m. fold (\<lambda>c. smap_put c v) cs m) ps []) a = Some v"
    then obtain p where "find (\<lambda>p. a \<in> set (snd p)) ps = Some p" "v = fst p"
      unfolding map_of_fold_groups [OF assms] by (auto split: option.splits)
    then show "\<exists>i < length ps. a \<in> set (snd (ps ! i)) \<and> v = fst (ps ! i)" by (auto simp: find_Some_iff)
  next
    assume "\<exists>i < length ps. a \<in> set (snd (ps ! i)) \<and> v = fst (ps ! i)"
    then obtain i where i: "i < length ps" "a \<in> set (snd (ps ! i))" "v = fst (ps ! i)" by blast
    have "find (\<lambda>p. a \<in> set (snd p)) ps = Some (ps ! i)" by (rule find_unique) (use i uniq in auto)
    then show "map_of (fold (\<lambda>(v, cs) m. fold (\<lambda>c. smap_put c v) cs m) ps []) a = Some v"
      unfolding map_of_fold_groups [OF assms] using i(3) by simp
  qed
qed

lemma component_scc_iff:
  assumes "distinct (concat cs)"
  shows "map_of (component_scc_map cs) a = Some i \<longleftrightarrow> i < length cs \<and> a \<in> set (cs ! i)"
proof -
  have "map snd (enumerate 0 cs) = cs" by simp
  then show ?thesis unfolding component_scc_map_def
    by (subst group_index) (use assms in \<open>auto simp: nth_enumerate_eq\<close>)
qed

lemma component_region_iff:
  assumes "distinct (concat cs)"
  shows "map_of (component_region_map (plan_regions g cs)) a = Some x \<longleftrightarrow>
    (\<exists>i < length cs. a \<in> set (cs ! i) \<and> x = region_id (plan_regions g cs ! i))"
proof -
  let ?ps = "map (\<lambda>r. (region_id r, region_components r)) (plan_regions g cs)"
  have snd: "map snd ?ps = cs" by (rule nth_equalityI) (auto simp: nth_plan_regions)
  have fold: "component_region_map (plan_regions g cs) = fold (\<lambda>(v, cs) m. fold (\<lambda>c. smap_put c v) cs m) ?ps []"
    by (simp add: component_region_map_def fold_map comp_def)
  show ?thesis unfolding fold
    by (subst group_index) (use assms snd in \<open>auto simp: nth_plan_regions\<close>)
qed

text \<open>The edges of the region graph.\<close>

definition region_arc :: "graph_spec \<Rightarrow> string list list \<Rightarrow> nat \<Rightarrow> nat \<Rightarrow> bool" where
  "region_arc g cs i j \<longleftrightarrow> i < length cs \<and> j < length cs \<and> i \<noteq> j \<and>
     (\<exists>a \<in> set (cs ! i). \<exists>b \<in> set (cs ! j). immediate_arc g a b)"

lemma edge_regions_iff:
  assumes "scc_partition g cs"
  shows "(\<exists>e \<in> set (graph_edges g). edge_regions g cs e = Some (x, y)) \<longleftrightarrow>
    (\<exists>i j. region_arc g cs i j \<and> region_id (plan_regions g cs ! i) = x \<and> region_id (plan_regions g cs ! j) = y)"
proof -
  have d: "distinct (concat cs)" and ids: "set (concat cs) = set (compile_component_ids g)"
    using assms by (simp_all add: scc_partition_def)
  have mem: "i < length cs \<Longrightarrow> a \<in> set (cs ! i) \<Longrightarrow> a \<in> set (compile_component_ids g)" for a i
    unfolding ids [symmetric] mem_concat_iff by blast
  have e: "edge_regions g cs e = Some (x, y) \<longleftrightarrow> is_immediate_edge e \<and>
      (\<exists>i j. map_of (component_scc_map cs) (component_id_from_endpoint (edge_from e)) = Some i \<and>
        map_of (component_scc_map cs) (component_id_from_endpoint (edge_to e)) = Some j \<and> i \<noteq> j \<and>
        region_id (plan_regions g cs ! i) = x \<and> region_id (plan_regions g cs ! j) = y)" for e
    unfolding edge_regions_def by (auto split: option.splits if_splits)
  show ?thesis unfolding e component_scc_iff [OF d] region_arc_def immediate_arc_def using mem by blast
qed

definition arcs_graph :: "region_graph \<Rightarrow> (string \<times> string) set \<Rightarrow> bool" where
  "arcs_graph rg A \<longleftrightarrow> finite A \<and>
     (\<forall>a. sorted (smap_get [] (rg_outgoing rg) a) \<and> distinct (smap_get [] (rg_outgoing rg) a) \<and>
        set (smap_get [] (rg_outgoing rg) a) = {b. (a, b) \<in> A}) \<and>
     (\<forall>b. set (smap_get [] (rg_incoming rg) b) = {a. (a, b) \<in> A}) \<and>
     (\<forall>b. rg_indegree rg b = card {a. (a, b) \<in> A})"

lemma arcs_graph_add:
  assumes "arcs_graph rg A"
  shows "arcs_graph (add_region_edge a b rg) (insert (a, b) A)"
proof (cases "(a, b) \<in> A")
  case True
  with assms show ?thesis by (simp add: add_region_edge_def arcs_graph_def insert_absorb)
next
  case False
  have fin: "finite {x. (x, b) \<in> A}"
    by (rule finite_subset [of _ "fst ` A"]) (use assms in \<open>auto simp: arcs_graph_def image_iff\<close>, force)
  have "{x. (x, y) \<in> insert (a, b) A} = (if y = b then insert a {x. (x, b) \<in> A} else {x. (x, y) \<in> A})" for y by auto
  with False assms fin show ?thesis
    by (auto simp: add_region_edge_def arcs_graph_def set_insort_insert distinct_insort_insert sorted_insort_insert)
qed

lemma arcs_graph_build: "arcs_graph (build_region_graph g cs) {p. \<exists>e \<in> set (graph_edges g). edge_regions g cs e = Some p}"
proof -
  have run: "arcs_graph (fold (\<lambda>e rg. case edge_regions g cs e of None \<Rightarrow> rg | Some (a, b) \<Rightarrow> add_region_edge a b rg) es rg)
      (A \<union> {p. \<exists>e \<in> set es. edge_regions g cs e = Some p})" if "arcs_graph rg A" for es rg A
    using that
  proof (induction es arbitrary: rg A)
    case (Cons e es)
    show ?case
    proof (cases "edge_regions g cs e")
      case None
      then show ?thesis using Cons.IH [OF Cons.prems] by simp
    next
      case (Some ab)
      obtain a b where ab: "ab = (a, b)" by fastforce
      have "A \<union> {p. \<exists>e' \<in> set (e # es). edge_regions g cs e' = Some p} =
          insert (a, b) A \<union> {p. \<exists>e \<in> set es. edge_regions g cs e = Some p}" using Some ab by auto
      with Cons.IH [OF arcs_graph_add [OF Cons.prems, of a b]] Some ab show ?thesis by (simp del: Un_insert_left)
    qed
  qed simp
  have "arcs_graph \<lparr>rg_outgoing = [], rg_incoming = [], rg_indegree = (\<lambda>r. 0)\<rparr> {}" by (simp add: arcs_graph_def)
  from run [OF this, of "graph_edges g"] show ?thesis by (simp add: build_region_graph_def)
qed

section \<open>The condensation has no cycle\<close>

lemma region_arc_acyclic:
  assumes part: "scc_partition g cs"
  shows "acyclic {(i, j). region_arc g cs i j}"
proof -
  have scc: "b \<in> set (cs ! i) \<longleftrightarrow> (immediate_arc g)\<^sup>*\<^sup>* a b \<and> (immediate_arc g)\<^sup>*\<^sup>* b a"
    if "i < length cs" "a \<in> set (cs ! i)" for i a b
    using part that unfolding scc_partition_def by (meson nth_mem)
  have path: "(i, j) \<in> {(i, j). region_arc g cs i j}\<^sup>+ \<Longrightarrow> i < length cs \<and> j < length cs \<and>
      (\<forall>a \<in> set (cs ! i). \<forall>b \<in> set (cs ! j). (immediate_arc g)\<^sup>*\<^sup>* a b)" for i j
  proof (induction rule: trancl_induct)
    case (base j)
    then obtain a' b' where "a' \<in> set (cs ! i)" "b' \<in> set (cs ! j)" "immediate_arc g a' b'" "i < length cs" "j < length cs"
      by (auto simp: region_arc_def)
    then show ?case using scc [of i] scc [of j] by (metis converse_rtranclp_into_rtranclp rtranclp_trans)
  next
    case (step j k)
    then obtain a' b' where e: "a' \<in> set (cs ! j)" "b' \<in> set (cs ! k)" "immediate_arc g a' b'" "j < length cs" "k < length cs"
      by (auto simp: region_arc_def)
    have "(immediate_arc g)\<^sup>*\<^sup>* a b" if "a \<in> set (cs ! i)" "b \<in> set (cs ! k)" for a b
    proof -
      have "(immediate_arc g)\<^sup>*\<^sup>* a a'" using step.IH that(1) e(1) by blast
      moreover have "(immediate_arc g)\<^sup>*\<^sup>* b' b" using scc [OF e(5,2)] that(2) by blast
      ultimately show ?thesis using e(3) by (metis converse_rtranclp_into_rtranclp rtranclp_trans)
    qed
    then show ?case using step.IH e by blast
  qed
  show ?thesis unfolding acyclic_def
  proof (intro allI notI)
    fix i assume c: "(i, i) \<in> {(i, j). region_arc g cs i j}\<^sup>+"
    then obtain j where j: "region_arc g cs i j" "(j, i) \<in> {(i, j). region_arc g cs i j}\<^sup>*" by (metis mem_Collect_eq case_prodD tranclD)
    then have ne: "i \<noteq> j" and lt: "i < length cs" "j < length cs" by (simp_all add: region_arc_def)
    from j obtain a b where ab: "a \<in> set (cs ! i)" "b \<in> set (cs ! j)" "immediate_arc g a b" by (auto simp: region_arc_def)
    have "(j, i) \<in> {(i, j). region_arc g cs i j}\<^sup>+" using j(2) ne by (metis rtranclD)
    then have "(immediate_arc g)\<^sup>*\<^sup>* b a" using path ab by blast
    then have "b \<in> set (cs ! i)" using scc [OF lt(1) ab(1)] ab(3) by blast
    moreover have "distinct (concat cs)" using part by (simp add: scc_partition_def)
    ultimately show False using component_scc_iff [of cs b] ab(2) lt ne by (metis option.inject)
  qed
qed

text \<open>With distinct region ids the region graph satisfies the laws of \<open>kahn_graph\<close>.\<close>

abbreviation outgoing_of :: "graph_spec \<Rightarrow> string list list \<Rightarrow> string \<Rightarrow> string list" where
  "outgoing_of g cs x \<equiv> smap_get [] (rg_outgoing (build_region_graph g cs)) x"

lemma region_graph_arcs:
  assumes "scc_partition g cs"
  shows "y \<in> set (outgoing_of g cs x) \<longleftrightarrow>
    (\<exists>i j. region_arc g cs i j \<and> region_id (plan_regions g cs ! i) = x \<and> region_id (plan_regions g cs ! j) = y)"
    and "rg_indegree (build_region_graph g cs) y = card {x. y \<in> set (outgoing_of g cs x)}"
    and "distinct (outgoing_of g cs x)"
  using arcs_graph_build [of g cs] edge_regions_iff [OF assms, of x y] by (auto simp: arcs_graph_def)

lemma map_region_id_connect [simp]: "map region_id (connect_regions rg rs) = map region_id rs"
  by (simp add: connect_regions_def)

lemma length_connect [simp]: "length (connect_regions rg rs) = length rs"
  by (simp add: connect_regions_def)

lemma kahn_graph_regions:
  assumes "scc_partition g cs" and "distinct (map region_id (plan_regions g cs))"
  shows "kahn_graph (map region_id (plan_regions g cs)) (outgoing_of g cs) (sort_ready g rs)"
proof
  fix x
  show "set (outgoing_of g cs x) \<subseteq> set (map region_id (plan_regions g cs))"
    by (auto simp: region_graph_arcs(1) [OF assms(1)] region_arc_def)
  show "distinct (outgoing_of g cs x)" by (rule region_graph_arcs(3) [OF assms(1)])
  fix xs
  show "mset (sort_ready g rs xs) = mset xs" by (simp add: sort_ready_def)
qed (rule assms(2))

lemma region_ids_acyclic:
  assumes part: "scc_partition g cs" and d: "distinct (map region_id (plan_regions g cs))"
  shows "acyclic (kahn_graph.arcs (map region_id (plan_regions g cs)) (outgoing_of g cs))"
proof -
  let ?f = "\<lambda>i. region_id (plan_regions g cs ! i)" and ?A = "{(i, j). region_arc g cs i j}"
  let ?arcs = "kahn_graph.arcs (map region_id (plan_regions g cs)) (outgoing_of g cs)"
  have arcs: "(x, y) \<in> ?arcs \<Longrightarrow> \<exists>i j. region_arc g cs i j \<and> x = ?f i \<and> y = ?f j" for x y
    unfolding kahn_graph.arcs_def [OF kahn_graph_regions [OF part d, of "[]"]]
    by (auto simp: region_graph_arcs(1) [OF part]) metis
  have inj: "i = j" if "?f i = ?f j" "i < length cs" "j < length cs" for i j
    using d that by (simp add: distinct_conv_nth) (metis length_plan_regions nth_map)
  have "(x, y) \<in> ?arcs\<^sup>+ \<Longrightarrow> \<exists>i j. (i, j) \<in> ?A\<^sup>+ \<and> x = ?f i \<and> y = ?f j \<and> j < length cs \<and> i < length cs" for x y
  proof (induction rule: trancl_induct)
    case (base y)
    then obtain i j where "region_arc g cs i j" "x = ?f i" "y = ?f j" using arcs by blast
    then show ?case by (intro exI [of _ i] exI [of _ j]) (auto simp: region_arc_def)
  next
    case (step y z)
    then obtain i j k l where ij: "(i, j) \<in> ?A\<^sup>+" "x = ?f i" "y = ?f j" "j < length cs" "i < length cs"
      and kl: "region_arc g cs k l" "y = ?f k" "z = ?f l" using arcs by metis
    have "j = k" using inj [of j k] ij kl by (simp add: region_arc_def)
    with ij kl have "(i, l) \<in> ?A\<^sup>+" by (auto intro: trancl_into_trancl)
    with ij kl show ?case by (auto simp: region_arc_def)
  qed
  then show ?thesis using region_arc_acyclic [OF part] inj unfolding acyclic_def by metis
qed

lemma order_regions_correct:
  assumes part: "scc_partition g cs" and d: "distinct (map region_id (plan_regions g cs))"
  defines "rg \<equiv> build_region_graph g cs"
  defines "rs \<equiv> connect_regions rg (plan_regions g cs)"
  shows "\<exists>order. order_regions g rs rg = Some order \<and> distinct order \<and> set order = set (map region_id rs) \<and>
    length order = length rs \<and>
    topological {(x, y). \<exists>i j. region_arc g cs i j \<and> region_id (plan_regions g cs ! i) = x \<and> region_id (plan_regions g cs ! j) = y} order"
proof -
  let ?ids = "map region_id (plan_regions g cs)"
  note K = kahn_graph_regions [OF part d, of rs]
  have deg: "rg_indegree rg y = card {x \<in> set ?ids. y \<in> set (outgoing_of g cs x)}" for y
  proof -
    have "{x \<in> set ?ids. y \<in> set (outgoing_of g cs x)} = {x. y \<in> set (outgoing_of g cs x)}"
      by (auto simp: region_graph_arcs(1) [OF part] region_arc_def)
    then show ?thesis unfolding rg_def region_graph_arcs(2) [OF part] by simp
  qed
  have arcs: "kahn_graph.arcs ?ids (outgoing_of g cs) =
      {(x, y). \<exists>i j. region_arc g cs i j \<and> region_id (plan_regions g cs ! i) = x \<and> region_id (plan_regions g cs ! j) = y}"
    unfolding kahn_graph.arcs_def [OF K] using region_graph_arcs(1) [OF part] by (auto simp: region_arc_def)
  obtain order where o: "kahn_loop (sort_ready g rs) (outgoing_of g cs)
        (sort_ready g rs (filter (\<lambda>x. rg_indegree rg x = 0) ?ids)) (rg_indegree rg) [] = Some order"
    and t: "distinct order" "set order \<subseteq> set ?ids" "topological (kahn_graph.arcs ?ids (outgoing_of g cs)) order"
    and len: "length order = length ?ids"
    using kahn_graph.kahn_correct [OF K deg] region_ids_acyclic [OF part d] by blast
  have "set order = set ?ids" using t(1,2) len d by (metis List.finite_set card_subset_eq distinct_card)
  with o t len show ?thesis unfolding order_regions_def rs_def rg_def arcs by simp
qed

section \<open>Reports\<close>

lemma gr_ok_check_scc: "gr_ok (check_scc g c r) \<longleftrightarrow> gr_ok r \<and> (scc_cyclic g c \<longleftrightarrow> matching_loop g c \<noteq> None)"
  by (auto simp: check_scc_def Let_def split: option.split)

lemma gr_ok_check_sccs:
  "gr_ok (fold (check_scc g) cs r) \<longleftrightarrow> gr_ok r \<and> (\<forall>c \<in> set cs. scc_cyclic g c \<longleftrightarrow> matching_loop g c \<noteq> None)"
  by (induction cs arbitrary: r) (auto simp: gr_ok_check_scc)

lemma gr_ok_check_unmatched:
  "gr_ok (check_unmatched g cs r) \<longleftrightarrow> gr_ok r \<and> (\<forall>l \<in> set (composite_loops g). loop_id l \<in> set (matched_loop_ids g cs))"
proof -
  have *: "gr_ok (fold (\<lambda>l. add_error_if (P l) (m l)) ls r) \<longleftrightarrow> gr_ok r \<and> (\<forall>l \<in> set ls. \<not> P l)" for P m ls and r :: graph_report
    by (induction ls arbitrary: r) auto
  show ?thesis unfolding check_unmatched_def by (subst *) simp
qed

lemma own_components_ok:
  "own_components known lid cs seen owners r = (owners', r') \<Longrightarrow> gr_ok r' \<Longrightarrow>
     gr_ok r \<and> distinct cs \<and> set cs \<inter> set seen = {} \<and> set cs \<subseteq> set known"
proof (induction cs arbitrary: seen owners r)
  case (Cons c cs)
  let ?r = "add_error_if (c \<in> set seen) (''composite_loop '' @ lid @ '' lists duplicate component '' @ c) r"
  consider (bad) e where "own_components known lid cs (c # seen) owners (add_error e ?r) = (owners', r')"
    | (good) owners'' where "own_components known lid cs (c # seen) owners'' ?r = (owners', r')" "c \<in> set known"
    using Cons.prems(1) by (auto simp: Let_def split: if_splits option.splits simp del: append_Cons)
  then show ?case
  proof cases
    case bad
    with Cons.IH [OF bad Cons.prems(2)] show ?thesis by (simp del: append_Cons)
  next
    case good
    with Cons.IH [OF good(1) Cons.prems(2)] show ?thesis by (auto simp del: append_Cons)
  qed
qed simp

lemma check_loops_ok:
  "gr_ok (check_loops known ls ids owners r) \<Longrightarrow>
     gr_ok r \<and> distinct (map loop_id ls) \<and> loop_id ` set ls \<inter> set ids = {} \<and>
     (\<forall>l \<in> set ls. loop_id l \<noteq> [] \<and> distinct (loop_components l) \<and> set (loop_components l) \<subseteq> set known)"
proof (induction known ls ids owners r rule: check_loops.induct)
  case (2 known l ls ids owners r)
  show ?case
  proof (cases "loop_id l = []")
    case True
    with 2(1) 2(3) show ?thesis by simp
  next
    case False
    obtain owners' r2 where o: "own_components known (loop_id l) (loop_components l) [] owners
        (add_error_if (loop_id l \<in> set ids) (''duplicate composite_loop: '' @ loop_id l) r) = (owners', r2)" by fastforce
    with False 2(3) have rest: "gr_ok (check_loops known ls (loop_id l # ids) owners' r2)" by (simp add: Let_def)
    note ih = 2(2) [OF False refl o [symmetric] refl rest]
    from own_components_ok [OF o] ih False show ?thesis by (auto simp del: append_Cons)
  qed
qed simp

lemma set_matched_loop_ids: "x \<in> set (matched_loop_ids g cs) \<longleftrightarrow> (\<exists>c \<in> set cs. \<exists>l. matching_loop g c = Some l \<and> loop_id l = x)"
  by (force simp: matched_loop_ids_def List.map_filter_def)

lemma matching_loop_SomeD:
  "matching_loop g c = Some l \<Longrightarrow> l \<in> set (composite_loops g) \<and> sort (loop_components l) = sort c"
  by (auto simp: matching_loop_def find_Some_iff same_component_set_def)

lemma compile_graph_cases:
  assumes "compile_graph g = Some r"
  obtains cs where "tarjan_scc (compile_component_ids g) (immediate_successors g) = Some cs" and "scc_partition g cs"
    and "component_region (cr_plan r) = component_region_map (plan_regions g cs)" and "immediate_sccs (cr_plan r) = cs"
    and "regions (cr_plan r) = connect_regions (build_region_graph g cs) (plan_regions g cs)"
    and "gr_ok r \<Longrightarrow> gr_ok (compile_report g cs)"
proof -
  obtain cs where cs: "tarjan_scc (compile_component_ids g) (immediate_successors g) = Some cs" "scc_partition g cs"
    using tarjan_partition by blast
  show thesis
  proof (rule that [OF cs])
  qed (use assms cs in \<open>auto simp: compile_graph_def Let_def graph_report.defs split: option.splits\<close>)
qed

section \<open>Properties\<close>

text \<open>C20.
  The strongly connected components that compilation finds are exactly those of the immediate edges: for every graph the search
  returns, every declared component is in exactly one of the listed groups, and two components are in the same group
  exactly when each reaches the other along immediate edges.
\<close>

theorem immediate_sccs_correct:
  "\<exists>cs. tarjan_scc (compile_component_ids g) (immediate_successors g) = Some cs \<and>
     distinct (concat cs) \<and> set (concat cs) = comp_id ` set (components g) - {[]} \<and>
     (\<forall>c \<in> set cs. \<forall>a \<in> set c. \<forall>b. b \<in> set c \<longleftrightarrow> (immediate_arc g)\<^sup>*\<^sup>* a b \<and> (immediate_arc g)\<^sup>*\<^sup>* b a)"
proof -
  obtain cs where cs: "tarjan_scc (compile_component_ids g) (immediate_successors g) = Some cs" "scc_partition g cs"
    using tarjan_partition by blast
  show ?thesis using cs(2) by (intro exI [of _ cs] conjI cs(1)) (simp_all add: scc_partition_def set_component_ids)
qed

definition imm_edge :: "string \<Rightarrow> string \<Rightarrow> edge_spec" where
  "imm_edge a b = \<lparr>edge_id = a @ ''_'' @ b, edge_from = a @ ''.out'', edge_to = b @ ''.in'', edge_kind_of = KImmediate, has_kind = True,
     invalid_kind = [], edge_policy = default_edge_policy\<rparr>"

definition compile_demo :: "string list \<Rightarrow> (string \<times> string) list \<Rightarrow> (string \<times> string list) list \<Rightarrow> graph_spec" where
  "compile_demo cs es ls =
     default_graph\<lparr>components := map default_component cs, graph_edges := map (\<lambda>(a, b). imm_edge a b) es,
       composite_loops := map (\<lambda>(l, xs). \<lparr>loop_id = l, loop_components = xs, loop_policy = default_loop_policy\<rparr>) ls\<rparr>"

definition demo_cycle :: graph_spec where
  "demo_cycle = compile_demo [''a'', ''b'', ''c''] [(''a'', ''b''), (''b'', ''a''), (''b'', ''c'')] [(''L'', [''b'', ''a''])]"

theorem immediate_sccs_correct_witness:
  "tarjan_scc (compile_component_ids demo_cycle) (immediate_successors demo_cycle) = Some [[''c''], [''a'', ''b'']] \<and>
   (immediate_arc demo_cycle)\<^sup>*\<^sup>* ''b'' ''a''"
proof -
  have t: "tarjan_scc (compile_component_ids demo_cycle) (immediate_successors demo_cycle) = Some [[''c''], [''a'', ''b'']]"
    by code_simp
  obtain cs where "tarjan_scc (compile_component_ids demo_cycle) (immediate_successors demo_cycle) = Some cs"
    and p: "\<forall>c \<in> set cs. \<forall>a \<in> set c. \<forall>b. b \<in> set c \<longleftrightarrow> (immediate_arc demo_cycle)\<^sup>*\<^sup>* a b \<and> (immediate_arc demo_cycle)\<^sup>*\<^sup>* b a"
    using immediate_sccs_correct [of demo_cycle] by blast
  with t have cs: "cs = [[''c''], [''a'', ''b'']]" by simp
  have "''a'' \<in> set [''a'', ''b''] \<longleftrightarrow> (immediate_arc demo_cycle)\<^sup>*\<^sup>* ''b'' ''a'' \<and> (immediate_arc demo_cycle)\<^sup>*\<^sup>* ''a'' ''b''"
    by (rule p [rule_format]) (simp_all add: cs)
  with t show ?thesis by simp
qed

text \<open>C21.
  For a graph whose compiled regions have pairwise different ids (those of its composite loops and the generated ones together), compilation returns and orders the regions: the order lists every region exactly once, and whenever an immediate edge
  connects components of two regions, the region of the source comes before the region of the target. The final check for
  a cycle among the regions never adds an error.
\<close>

theorem compile_order_correct:
  assumes "tarjan_scc (compile_component_ids g) (immediate_successors g) = Some cs"
    and "distinct (map region_id (plan_regions g cs))"
  shows "\<exists>r. compile_graph g = Some r \<and>
    distinct (region_order (cr_plan r)) \<and> set (region_order (cr_plan r)) = region_id ` set (regions (cr_plan r)) \<and>
    length (region_order (cr_plan r)) = length (regions (cr_plan r)) \<and>
    gr_errors r = gr_errors (compile_report g cs) \<and>
    (\<forall>a b x y. immediate_arc g a b \<and> map_of (component_region (cr_plan r)) a = Some x \<and>
       map_of (component_region (cr_plan r)) b = Some y \<and> x \<noteq> y \<longrightarrow>
       (\<exists>i j. i < j \<and> j < length (region_order (cr_plan r)) \<and> region_order (cr_plan r) ! i = x \<and> region_order (cr_plan r) ! j = y))"
proof -
  have part: "scc_partition g cs" using tarjan_partition [of g] assms(1) by auto
  let ?rg = "build_region_graph g cs"
  let ?rs = "connect_regions ?rg (plan_regions g cs)"
  let ?arcs = "{(x, y). \<exists>i j. region_arc g cs i j \<and> region_id (plan_regions g cs ! i) = x \<and> region_id (plan_regions g cs ! j) = y}"
  obtain order where o: "order_regions g ?rs ?rg = Some order" "distinct order" "set order = set (map region_id ?rs)"
    "length order = length ?rs" and topo: "topological ?arcs order"
    using order_regions_correct [OF part assms(2)] by blast
  let ?r = "graph_report.extend (compile_report g cs)
     \<lparr>cr_plan = \<lparr>regions = ?rs, region_order = order, component_region = component_region_map (plan_regions g cs), immediate_sccs = cs\<rparr>\<rparr>"
  have r: "compile_graph g = Some ?r" using assms(1) o(1,4) by (simp add: compile_graph_def Let_def add_error_if_def)
  have plan: "regions (cr_plan ?r) = ?rs" "region_order (cr_plan ?r) = order" "component_region (cr_plan ?r) = component_region_map (plan_regions g cs)"
    "gr_errors ?r = gr_errors (compile_report g cs)"
    by (simp_all add: graph_report.defs)
  have d: "distinct (concat cs)" using part by (simp add: scc_partition_def)
  have before: "\<exists>i j. i < j \<and> j < length order \<and> order ! i = x \<and> order ! j = y"
    if e: "immediate_arc g a b" and x: "map_of (component_region_map (plan_regions g cs)) a = Some x"
      and y: "map_of (component_region_map (plan_regions g cs)) b = Some y" and ne: "x \<noteq> y" for a b x y
  proof -
    obtain i j where ij: "i < length cs" "a \<in> set (cs ! i)" "x = region_id (plan_regions g cs ! i)"
      "j < length cs" "b \<in> set (cs ! j)" "y = region_id (plan_regions g cs ! j)"
      using x y unfolding component_region_iff [OF d] by blast
    then have "region_arc g cs i j" using e ne by (auto simp: region_arc_def)
    then have arc: "(x, y) \<in> ?arcs" using ij by blast
    have "y \<in> set order" using o(3) ij(4,6) by auto
    then obtain l where l: "l < length order" "order ! l = y" by (auto simp: in_set_conv_nth)
    then have "x \<in> set (take l order)" using topo arc by (auto simp: topological_def)
    then obtain k where "k < l" "order ! k = x" using l(1) by (auto simp: in_set_conv_nth)
    with l show ?thesis by blast
  qed
  then have "\<forall>a b x y. immediate_arc g a b \<and> map_of (component_region_map (plan_regions g cs)) a = Some x \<and>
      map_of (component_region_map (plan_regions g cs)) b = Some y \<and> x \<noteq> y \<longrightarrow>
      (\<exists>i j. i < j \<and> j < length order \<and> order ! i = x \<and> order ! j = y)" by blast
  moreover have "region_id ` set ?rs = set (map region_id ?rs)" by (rule set_map [symmetric])
  ultimately show ?thesis using r o by (intro exI [of _ ?r], unfold plan) (intro conjI; (assumption | simp))
qed

theorem compile_order_correct_witness:
  "\<exists>r. compile_graph demo_cycle = Some r \<and> set (region_order (cr_plan r)) = region_id ` set (regions (cr_plan r)) \<and> gr_errors r = []"
proof -
  have t: "tarjan_scc (compile_component_ids demo_cycle) (immediate_successors demo_cycle) = Some [[''c''], [''a'', ''b'']]"
    and d: "distinct (map region_id (plan_regions demo_cycle [[''c''], [''a'', ''b'']]))"
    and e: "gr_errors (compile_report demo_cycle [[''c''], [''a'', ''b'']]) = []" by code_simp+
  from compile_order_correct [OF t d] e show ?thesis by auto
qed

lemma self_loop_iff: "a \<in> set (compile_component_ids g) \<Longrightarrow> has_immediate_self_loop g a \<longleftrightarrow> immediate_arc g a a"
  by (auto simp: has_immediate_self_loop_def immediate_arc_def list_ex_iff)

lemma other_member: "distinct c \<Longrightarrow> length c > 1 \<Longrightarrow> \<exists>b \<in> set c. b \<noteq> a"
  by (cases c rule: remdups_adj.cases) auto

text \<open>A group is cyclic, for the compiler, exactly when its members reach themselves.\<close>

lemma scc_cyclic_iff:
  assumes part: "scc_partition g cs" and c: "c \<in> set cs" "a \<in> set c"
  shows "scc_cyclic g c \<longleftrightarrow> (immediate_arc g)\<^sup>+\<^sup>+ a a"
proof -
  have d: "distinct c" and known: "a \<in> set (compile_component_ids g)"
    and scc: "\<And>b. b \<in> set c \<longleftrightarrow> (immediate_arc g)\<^sup>*\<^sup>* a b \<and> (immediate_arc g)\<^sup>*\<^sup>* b a"
    using part c by (auto simp: scc_partition_def distinct_concat_iff)
  show ?thesis
  proof (cases "length c > 1")
    case True
    then obtain b where b: "b \<in> set c" "b \<noteq> a" using other_member [OF d] by blast
    then have "(immediate_arc g)\<^sup>+\<^sup>+ a a" using scc by (metis rtranclpD rtranclp_tranclp_tranclp)
    with True show ?thesis by (simp add: scc_cyclic_def)
  next
    case False
    then have s: "c = [a]" using c(2) by (cases c) (auto simp: not_less)
    have "immediate_arc g a a" if "(immediate_arc g)\<^sup>+\<^sup>+ a a"
    proof -
      from that obtain b where b: "immediate_arc g a b" "(immediate_arc g)\<^sup>*\<^sup>* b a" by (metis tranclpD)
      then have "b \<in> set c" using scc by blast
      with b(1) s show ?thesis by simp
    qed
    then have "(immediate_arc g)\<^sup>+\<^sup>+ a a \<longleftrightarrow> immediate_arc g a a" by (blast intro: tranclp.r_into_trancl)
    with s self_loop_iff [OF known] show ?thesis by (simp add: scc_cyclic_def)
  qed
qed

lemma compiled_cycles_spec:
  assumes "compile_graph g = Some r" and "gr_ok r"
  shows "((immediate_arc g)\<^sup>+\<^sup>+ a a \<longrightarrow>
      (\<exists>l \<in> set (composite_loops g). map_of (component_region (cr_plan r)) a = Some (loop_id l) \<and>
         set (loop_components l) = {b. (immediate_arc g)\<^sup>*\<^sup>* a b \<and> (immediate_arc g)\<^sup>*\<^sup>* b a})) \<and>
    (\<forall>l \<in> set (composite_loops g). a \<in> set (loop_components l) \<longrightarrow> (immediate_arc g)\<^sup>+\<^sup>+ a a)"
proof -
  obtain cs where part: "scc_partition g cs" and plan: "component_region (cr_plan r) = component_region_map (plan_regions g cs)"
    and ok: "gr_ok (compile_report g cs)" using compile_graph_cases [OF assms(1)] assms(2) by metis
  have cyc: "\<And>c. c \<in> set cs \<Longrightarrow> scc_cyclic g c \<longleftrightarrow> matching_loop g c \<noteq> None"
    and un: "\<And>l. l \<in> set (composite_loops g) \<Longrightarrow> loop_id l \<in> set (matched_loop_ids g cs)"
    and loops: "distinct (map loop_id (composite_loops g))"
    using ok check_loops_ok unfolding compile_report_def gr_ok_check_unmatched gr_ok_check_sccs by blast+
  have d: "distinct (concat cs)" and ids: "set (concat cs) = set (compile_component_ids g)" using part by (simp_all add: scc_partition_def)
  have scc: "b \<in> set c \<longleftrightarrow> (immediate_arc g)\<^sup>*\<^sup>* a b \<and> (immediate_arc g)\<^sup>*\<^sup>* b a" if "c \<in> set cs" "a \<in> set c" for a b c
    using part that unfolding scc_partition_def by blast
  show ?thesis
  proof (intro conjI impI ballI)
    assume a: "(immediate_arc g)\<^sup>+\<^sup>+ a a"
    then have "a \<in> set (concat cs)" unfolding ids by (metis immediate_arc_def tranclpD)
    then obtain i where i: "i < length cs" "a \<in> set (cs ! i)" unfolding mem_concat_iff by blast
    then obtain l where l: "matching_loop g (cs ! i) = Some l" using cyc [of "cs ! i"] scc_cyclic_iff [OF part, of "cs ! i" a] a by auto
    from matching_loop_SomeD [OF l] have "set (loop_components l) = set (cs ! i)" by (metis set_sort)
    moreover have "map_of (component_region_map (plan_regions g cs)) a = Some (loop_id l)"
      unfolding component_region_iff [OF d] using i l by (auto simp: nth_plan_regions region_for_def)
    ultimately show "\<exists>l \<in> set (composite_loops g). map_of (component_region (cr_plan r)) a = Some (loop_id l) \<and>
        set (loop_components l) = {b. (immediate_arc g)\<^sup>*\<^sup>* a b \<and> (immediate_arc g)\<^sup>*\<^sup>* b a}"
      using matching_loop_SomeD [OF l] scc [of "cs ! i" a] i plan by auto
  next
    fix l assume l: "l \<in> set (composite_loops g)" and a: "a \<in> set (loop_components l)"
    then obtain c l' where c: "c \<in> set cs" "matching_loop g c = Some l'" "loop_id l' = loop_id l"
      using un [OF l] set_matched_loop_ids by metis
    then have "l' = l" using matching_loop_SomeD [OF c(2)] l loops by (metis distinct_map inj_on_def)
    then have "a \<in> set c" using a matching_loop_SomeD [OF c(2)] by (metis set_sort)
    then show "(immediate_arc g)\<^sup>+\<^sup>+ a a" using cyc [OF c(1)] c(2) scc_cyclic_iff [OF part c(1)] by blast
  qed
qed

text \<open>C22.
  In a graph that compiles without error every immediate cycle belongs to a declared composite loop and every declared loop is such a cycle: a
  component that can reach itself along immediate edges is a member of a composite loop that lists exactly the components it is
  mutually reachable with, and its region carries the id of a loop; conversely every member of a declared loop reaches itself.
\<close>

theorem compiled_cycles_owned:
  assumes "compile_graph g = Some r" and "gr_ok r"
  shows "((immediate_arc g)\<^sup>+\<^sup>+ a a \<longrightarrow>
      (\<exists>l \<in> set (composite_loops g). map_of (component_region (cr_plan r)) a = Some (loop_id l) \<and>
         set (loop_components l) = {b. (immediate_arc g)\<^sup>*\<^sup>* a b \<and> (immediate_arc g)\<^sup>*\<^sup>* b a})) \<and>
    (\<forall>l \<in> set (composite_loops g). a \<in> set (loop_components l) \<longrightarrow> (immediate_arc g)\<^sup>+\<^sup>+ a a)"
  using assms by (rule compiled_cycles_spec)

theorem compiled_cycles_owned_witness:
  "\<exists>r. compile_graph demo_cycle = Some r \<and> gr_ok r \<and>
     (\<forall>l \<in> set (composite_loops demo_cycle). ''a'' \<in> set (loop_components l) \<longrightarrow> (immediate_arc demo_cycle)\<^sup>+\<^sup>+ ''a'' ''a'')"
proof -
  have "(case compile_graph demo_cycle of None \<Rightarrow> False | Some r \<Rightarrow> gr_ok r)" by code_simp
  then obtain r where r: "compile_graph demo_cycle = Some r" "gr_ok r" by (auto split: option.splits)
  from compiled_cycles_owned [OF r, of "''a''"] r show ?thesis by blast
qed

section \<open>A graph on which compilation does not return\<close>

text \<open>A region that is its own successor and whose counter is zero re-enters the ready queue for ever.\<close>

lemma kahn_loop_spins:
  assumes "succ x = [x]" and "arrange [x] = [x]" and "deg x = 0"
  shows "kahn_loop arrange succ [x] deg order = None"
proof -
  have "\<forall>x. ready = [x] \<longrightarrow> deg x = 0 \<longrightarrow> succ x = [x] \<longrightarrow> arrange [x] \<noteq> [x]"
    if "kahn_loop arrange succ ready deg order = Some y"
    for arrange :: "'a list \<Rightarrow> 'a list" and succ ready deg order y
    using that
  proof (rule kahn_loop.raw_induct [rotated], goal_cases)
    case (1 f arrange succ ready deg order y)
    show ?case
    proof (intro allI impI notI)
      fix x
      assume a: "ready = [x]" "deg x = 0" "succ x = [x]" "arrange [x] = [x]"
      then have f: "fst (release arrange (succ x) [] deg) = [x]" "snd (release arrange (succ x) [] deg) x = 0"
        by simp_all
      from 1(2) a(1) have "f arrange succ (fst (release arrange (succ x) [] deg))
          (snd (release arrange (succ x) [] deg)) (order @ [x]) = Some y"
        by simp
      from 1(1) [OF this] f a show False by blast
    qed
  qed
  with assms show ?thesis by (metis not_Some_eq)
qed

definition self_feeding_graph :: graph_spec where
  "self_feeding_graph =
     compile_demo [''X'', ''Y'', ''a'', ''b'', ''c'', ''d'']
       [(''a'', ''b''), (''b'', ''a''), (''c'', ''d''), (''d'', ''c''), (''a'', ''X''), (''c'', ''a'')]
       [(''X'', [''a'', ''b'']), (''Y'', [''c'', ''d''])]"

text \<open>C37.
  Compilation does not return on every graph. In \<open>self_feeding_graph\<close> the composite loops carry the ids of two components, so that two regions are called
  \<^verbatim>\<open>X\<close> and two \<^verbatim>\<open>Y\<close>; no check reports this (the report of all checks before the ordering has no error). The ordering loop releases
  \<^verbatim>\<open>X\<close>, whose successor is \<^verbatim>\<open>X\<close> again, and never ends.
\<close>

theorem compile_diverges_on_shared_region_ids:
  "map_option (\<lambda>cs. gr_ok (compile_report self_feeding_graph cs))
     (tarjan_scc (compile_component_ids self_feeding_graph) (immediate_successors self_feeding_graph)) = Some True \<and>
   compile_graph self_feeding_graph = None"
proof -
  let ?g = self_feeding_graph
  let ?cs = "[[''X''], [''Y''], [''a'', ''b''], [''c'', ''d'']]"
  let ?rg = "build_region_graph ?g ?cs"
  let ?rs = "connect_regions ?rg (plan_regions ?g ?cs)"
  let ?S = "\<lambda>r. smap_get [] (rg_outgoing ?rg) r"
  have t: "tarjan_scc (compile_component_ids ?g) (immediate_successors ?g) = Some ?cs"
    and ok: "gr_ok (compile_report ?g ?cs)"
    and start: "sort_ready ?g ?rs (filter (\<lambda>r. rg_indegree ?rg r = 0) (map region_id ?rs)) = [''Y'', ''Y'']"
    and succ: "?S ''Y'' = [''X'']" "?S ''X'' = [''X'']"
    and deg: "rg_indegree ?rg ''X'' = 2"
    by code_simp+
  have one: "sort_ready ?g ?rs [x] = [x]" for x by (simp add: sort_ready_def)
  have "order_regions ?g ?rs ?rg = None"
    unfolding order_regions_def start
    by (subst kahn_loop.simps, subst kahn_loop.simps) (simp add: succ deg one kahn_loop_spins)
  with t ok show ?thesis by (simp add: compile_graph_def Let_def)
qed

end
