(* ===== verification/Graph_Validate_Laws.thy ===== *)
theory Graph_Validate_Laws
  imports Graph_Validate Graph_Compile_Laws
begin

text \<open>
  What validation accepts. Each section of the validator is shown equivalent to a predicate on the graph alone, without the sets,
  counters and maps that the code builds on the way; \<open>graph_valid\<close> is their conjunction.
\<close>

named_theorems report_simps

section \<open>Reports of sequences of checks\<close>

lemma run_checks_simps [report_simps]:
  "run_checks [] r = r" "run_checks (f # fs) r = run_checks fs (f r)" "run_checks (fs @ gs) r = run_checks gs (run_checks fs r)"
  by (simp_all add: run_checks_def)

declare gr_ok_add [report_simps]

lemma gr_ok_add_warning_if [report_simps]: "gr_ok (add_warning_if b c m p cs es r) = gr_ok r"
  by (simp add: add_warning_if_def)

lemma gr_ok_if [report_simps]: "gr_ok ((if b then f else h) r) = (if b then gr_ok (f r) else gr_ok (h r))"
  by simp

lemma gr_ok_fold:
  assumes "\<And>x r. x \<in> set xs \<Longrightarrow> gr_ok (f x r) \<longleftrightarrow> P x \<and> gr_ok r"
  shows "gr_ok (fold f xs r) \<longleftrightarrow> (\<forall>x \<in> set xs. P x) \<and> gr_ok r"
  using assms by (induction xs arbitrary: r) auto

lemma gr_ok_run_map:
  assumes "\<And>x r. x \<in> set xs \<Longrightarrow> gr_ok (f x r) \<longleftrightarrow> P x \<and> gr_ok r"
  shows "gr_ok (run_checks (map f xs) r) \<longleftrightarrow> (\<forall>x \<in> set xs. P x) \<and> gr_ok r"
  using assms by (induction xs arbitrary: r) (auto simp: run_checks_simps)

section \<open>What a valid graph is\<close>

definition header_valid :: "graph_spec \<Rightarrow> bool" where
  "header_valid g \<longleftrightarrow> schema_version g = 1 \<and> graph_name g \<noteq> [] \<and> (graph_kind g = ''runnable'' \<or> graph_kind g = ''internal_test'') \<and>
     runtime_domain (graph_clock g) = ''steady'' \<and> is_timestamp_domain_value (event_domain (graph_clock g))"

definition lane_valid :: "lane_spec \<Rightarrow> bool" where
  "lane_valid l \<longleftrightarrow> lane_id l \<noteq> [] \<and> is_allowed_scheduler_type (lane_type l) \<and> 0 \<le> lane_max_threads l \<and> 0 \<le> lane_queue_capacity l \<and>
     0 \<le> lane_period_ms l \<and> 0 \<le> lane_tick_budget_ms l \<and> is_allowed_lane_overflow (lane_overflow l) \<and>
     is_allowed_overrun_policy (lane_overrun_policy l)"

definition event_source_valid :: "event_source_spec \<Rightarrow> bool" where
  "event_source_valid s \<longleftrightarrow> is_allowed_event_source_type (es_type s) \<and>
     (es_type s = ''timer'' \<longrightarrow> 0 < es_period_ms s) \<and> (es_type s = ''message'' \<longrightarrow> es_inputs s \<noteq> [])"

definition trigger_valid :: "component_node_spec \<Rightarrow> bool" where
  "trigger_valid c \<longleftrightarrow>
     (let p = trigger_policy c; t = tp_type p
      in is_allowed_trigger_policy_type t \<and>
         (has_message_event_source c \<and> t \<notin> {''request'', ''task_ready'', ''manual''} \<longrightarrow> trigger_policy_inputs_for c \<noteq> []) \<and>
         0 \<le> tp_batch_size p \<and> 0 \<le> tp_batch_window_ms p \<and> 0 \<le> tp_sync_slop_ms p \<and> 0 \<le> tp_min_interval_ms p \<and>
         0 \<le> tp_max_latency_ms p \<and> 0 \<le> tp_watermark_lateness_ms p \<and> tp_debounce_window_ms p = 0 \<and>
         (t = ''batch'' \<longrightarrow> 0 < tp_batch_size p \<or> 0 < tp_batch_window_ms p) \<and>
         (t = ''condition'' \<longrightarrow> is_allowed_trigger_condition (tp_condition p)) \<and>
         (t = ''rate_limit'' \<longrightarrow> 0 < tp_min_interval_ms p))"

definition config_field_valid :: "(string \<Rightarrow> (fp \<times> nat) option) \<Rightarrow> config_view \<Rightarrow> config_field_spec \<Rightarrow> bool" where
  "config_field_valid stod cv f \<longleftrightarrow>
     (case map_of (cv_values cv) (cf_name f) of
        None \<Rightarrow> \<not> cf_required f
      | Some v \<Rightarrow>
          (is_nested cv (cf_name f) \<longrightarrow> cf_allow_nested f) \<and>
          (case cf_kind f of
             CString \<Rightarrow> cf_enum_values f = [] \<or> v \<in> set (cf_enum_values f)
           | CBool \<Rightarrow> v = ''true'' \<or> v = ''false''
           | k \<Rightarrow> (\<exists>x. parse_double stod v = Some x \<and> (k = CInt \<longrightarrow> fp_is_int x) \<and>
                   (\<forall>m. cf_min_value f = Some m \<longrightarrow> \<not> fp_less x m) \<and> (\<forall>m. cf_max_value f = Some m \<longrightarrow> \<not> fp_less m x))))"

text \<open>With a registry, the descriptor that the component's type yields; without one, none.\<close>

definition descriptor_of :: "component_registry option \<Rightarrow> component_node_spec \<Rightarrow> component_descriptor option" where
  "descriptor_of registry c =
     (case registry of
        None \<Rightarrow> None
      | Some reg \<Rightarrow>
          if registry_metadata reg (comp_type c) = None then None
          else (case create_component reg (comp_type c) of Inl _ \<Rightarrow> None | Inr d \<Rightarrow> Some d))"

definition descriptor_valid :: "(string \<Rightarrow> (fp \<times> nat) option) \<Rightarrow> component_node_spec \<Rightarrow> component_descriptor \<Rightarrow> bool" where
  "descriptor_valid stod c d \<longleftrightarrow> cd_type d = comp_type c \<and> (cd_scheduler_lane d = [] \<or> cd_scheduler_lane d = ex_lane (execution c)) \<and>
     boundary_roles_compatible (bd_role (boundary c)) (cd_role d) \<and> (\<forall>f \<in> set (cd_config_fields d). config_field_valid stod (comp_config c) f)"

definition component_valid :: "(string \<Rightarrow> (fp \<times> nat) option) \<Rightarrow> component_registry option \<Rightarrow> string set \<Rightarrow> component_node_spec \<Rightarrow> bool" where
  "component_valid stod registry lane_ids c \<longleftrightarrow>
     comp_id c \<noteq> [] \<and> comp_type c \<noteq> [] \<and> ex_lane (execution c) \<in> lane_ids \<and> is_allowed_runtime_priority (ex_priority (execution c)) \<and>
     ex_on_error (execution c) = ''fail_fast'' \<and> event_sources c \<noteq> [] \<and> (\<forall>s \<in> set (event_sources c). event_source_valid s) \<and>
     \<not> (has_timer_event_source c \<and> has_message_event_source c) \<and> trigger_valid c \<and>
     (registry \<noteq> None \<longrightarrow> (\<exists>d. descriptor_of registry c = Some d \<and> descriptor_valid stod c d))"

section \<open>The sections before the edges\<close>

lemma gr_ok_check_graph_header: "gr_ok (check_graph_header g r) \<longleftrightarrow> header_valid g \<and> gr_ok r"
  unfolding check_graph_header_def header_valid_def kTopoExecSchemaVersion_def
  by (simp only: report_simps) (auto split: if_splits)

lemma gr_ok_check_lane_fields: "lane_id l \<noteq> [] \<Longrightarrow> gr_ok (check_lane_fields l r) \<longleftrightarrow> lane_valid l \<and> gr_ok r"
proof -
  assume "lane_id l \<noteq> []"
  moreover have "gr_ok (run_checks (map (\<lambda>f r. if is_non_default_advisory_lane_field l f
                   then add_advisory ''advisory_lane_field_ignored''
                          (''lane '' @ lane_id l @ '' advisory field '' @ f @
                           '' is parsed and preserved but not enforced by the current runtime'')
                          (''lanes.'' @ lane_id l @ ''.'' @ f) r
                   else r) fs) r) \<longleftrightarrow> (\<forall>f \<in> set fs. True) \<and> gr_ok r" for fs r
    by (rule gr_ok_run_map) (simp only: gr_ok_add simp_thms split: if_splits)
  ultimately show ?thesis
    unfolding check_lane_fields_def lane_valid_def
    by (simp only: report_simps) (auto simp: not_less)
qed

lemma check_lanes_spec:
  "snd (check_lanes ls ids r) = r' \<Longrightarrow>
     (gr_ok r' \<longleftrightarrow> (\<forall>l \<in> set ls. lane_valid l) \<and> distinct (map lane_id ls) \<and> lane_id ` set ls \<inter> set ids = {} \<and> gr_ok r)"
  "(\<forall>l \<in> set ls. lane_valid l) \<Longrightarrow> set (fst (check_lanes ls ids r)) = lane_id ` set ls \<union> set ids"
proof (induction ls ids r arbitrary: r' rule: check_lanes.induct)
  case (2 l ls ids r)
  {
    case 1
    show ?case
    proof (cases "lane_id l = []")
      case True
      then have "\<not> lane_valid l" by (simp add: lane_valid_def)
      moreover have "\<not> gr_ok r'" using 2(1) [OF True refl] True 1 by simp
      ultimately show ?thesis by simp
    next
      case False
      then have "snd (check_lanes ls (lane_id l # ids)
          (check_lane_fields l (add_error_if (lane_id l \<in> set ids) (''duplicate lane: '' @ lane_id l) r))) = r'"
        using 1 by simp
      from 2(3) [OF False this] show ?thesis
        by (simp only: gr_ok_check_lane_fields [OF False] gr_ok_add) auto
    qed
  next
    case 2
    then have "lane_id l \<noteq> []" by (simp add: lane_valid_def)
    with 2 "2.IH"(4) show ?case by simp
  }
qed auto

lemma gr_ok_check_event_source: "gr_ok (check_event_source c s r) \<longleftrightarrow> event_source_valid s \<and> gr_ok r"
proof -
  have "\<not> (is_reserved_event_source_type (es_type s) \<and> is_allowed_event_source_type (es_type s))"
    by (auto simp: is_reserved_event_source_type_def is_allowed_event_source_type_def)
  then show ?thesis
    unfolding check_event_source_def event_source_valid_def
    by (simp only: report_simps) (auto simp: not_le)
qed

lemma trigger_types:
  assumes "is_allowed_trigger_policy_type t"
  shows "t \<in> {''on_event'', ''all_inputs'', ''any_input'', ''time_sync'', ''batch'', ''watermark'', ''condition'', ''debounce'', ''rate_limit''}
    \<longleftrightarrow> t \<notin> {''request'', ''task_ready'', ''manual''}"
  using assms by (auto simp: is_allowed_trigger_policy_type_def)

lemma gr_ok_check_trigger: "gr_ok (check_trigger c r) \<longleftrightarrow> trigger_valid c \<and> gr_ok r"
proof (cases "is_allowed_trigger_policy_type (tp_type (trigger_policy c))")
  case True
  show ?thesis
    unfolding check_trigger_def trigger_valid_def Let_def
    by (simp only: report_simps trigger_types [OF True] True not_not) (simp only: not_less not_le de_Morgan_conj de_Morgan_disj, auto)
next
  case False
  then show ?thesis
    unfolding check_trigger_def trigger_valid_def Let_def by (simp only: report_simps simp_thms)
qed

lemma gr_ok_check_component_fields:
  "comp_id c \<noteq> [] \<Longrightarrow> gr_ok (check_component_fields lane_ids c r) \<longleftrightarrow> component_valid stod None (set lane_ids) c \<and> gr_ok r"
  unfolding check_component_fields_def component_valid_def
  by (simp only: report_simps gr_ok_run_map [where P = event_source_valid, OF gr_ok_check_event_source] gr_ok_check_trigger) auto

lemma gr_ok_check_config_field: "gr_ok (check_config_field stod c f r) \<longleftrightarrow> config_field_valid stod (comp_config c) f \<and> gr_ok r"
proof (cases "map_of (cv_values (comp_config c)) (cf_name f)")
  case None
  then show ?thesis by (simp add: check_config_field_def config_field_valid_def del: append_Cons)
next
  case (Some v)
  show ?thesis
  proof (cases "cf_kind f")
    case CString
    with Some show ?thesis by (auto simp: check_config_field_def config_field_valid_def Let_def simp del: append_Cons)
  next
    case CBool
    with Some show ?thesis by (auto simp: check_config_field_def config_field_valid_def Let_def simp del: append_Cons)
  next
    case CInt
    with Some show ?thesis
      by (cases "parse_double stod v"; cases "cf_min_value f"; cases "cf_max_value f")
        (auto simp: check_config_field_def config_field_valid_def Let_def simp del: append_Cons)
  next
    case CDouble
    with Some show ?thesis
      by (cases "parse_double stod v"; cases "cf_min_value f"; cases "cf_max_value f")
        (auto simp: check_config_field_def config_field_valid_def Let_def simp del: append_Cons)
  qed
qed

lemma gr_ok_check_descriptor: "gr_ok (check_descriptor stod c d r) \<longleftrightarrow> descriptor_valid stod c d \<and> gr_ok r"
  unfolding check_descriptor_def descriptor_valid_def validate_component_config_def
  by (simp only: report_simps gr_ok_fold [where P = "config_field_valid stod (comp_config c)", OF gr_ok_check_config_field]) auto

section \<open>The scan of the components\<close>

lemma component_valid_registry:
  "component_valid stod registry L c \<longleftrightarrow> component_valid stod None L c \<and>
     (registry \<noteq> None \<longrightarrow> (\<exists>d. descriptor_of registry c = Some d \<and> descriptor_valid stod c d))"
  by (simp add: component_valid_def)

lemma note_role_frame [simp]:
  "cs_ids (note_role role s) = cs_ids s" "cs_descriptors (note_role role s) = cs_descriptors s"
  "cs_has_duplicate (note_role role s) = cs_has_duplicate s" "cs_report (note_role role s) = cs_report s"
  by (simp_all add: note_role_def)

lemma probe_component_frame [simp]:
  "cs_ids (probe_component stod reg c s) = cs_ids s" "cs_has_duplicate (probe_component stod reg c s) = cs_has_duplicate s"
  by (auto simp: probe_component_def Let_def simp del: append_Cons split: sum.splits)

lemma gr_ok_probe_component:
  "gr_ok (cs_report (probe_component stod reg c s)) \<longleftrightarrow>
     (\<exists>d. descriptor_of (Some reg) c = Some d \<and> descriptor_valid stod c d) \<and> gr_ok (cs_report s)"
  by (auto simp: probe_component_def descriptor_of_def Let_def gr_ok_check_descriptor simp del: append_Cons split: sum.splits)

lemma check_component_step:
  assumes "comp_id c \<noteq> []"
  shows "cs_ids (check_component stod registry L c s) = comp_id c # cs_ids s"
    "cs_has_duplicate (check_component stod registry L c s) \<longleftrightarrow> cs_has_duplicate s \<or> comp_id c \<in> set (cs_ids s)"
    "gr_ok (cs_report (check_component stod registry L c s)) \<longleftrightarrow>
       component_valid stod registry (set L) c \<and> comp_id c \<notin> set (cs_ids s) \<and> gr_ok (cs_report s)"
proof -
  show "cs_ids (check_component stod registry L c s) = comp_id c # cs_ids s"
    "cs_has_duplicate (check_component stod registry L c s) \<longleftrightarrow> cs_has_duplicate s \<or> comp_id c \<in> set (cs_ids s)"
    using assms by (simp_all add: check_component_def Let_def split: option.split del: append_Cons)
  show "gr_ok (cs_report (check_component stod registry L c s)) \<longleftrightarrow>
       component_valid stod registry (set L) c \<and> comp_id c \<notin> set (cs_ids s) \<and> gr_ok (cs_report s)"
    using assms component_valid_registry [of stod registry "set L" c]
    by (cases registry)
      (auto simp: check_component_def Let_def gr_ok_probe_component gr_ok_check_component_fields [OF assms, of _ _ stod] simp del: append_Cons)
qed

lemma check_component_empty_id:
  "comp_id c = [] \<Longrightarrow> check_component stod registry L c s = s\<lparr>cs_report := add_error ''component id must not be empty'' (cs_report s)\<rparr>"
  by (simp add: check_component_def)

lemma check_component_descriptors:
  assumes "component_valid stod registry (set L) c"
  shows "cs_descriptors (check_component stod registry L c s) =
    (case descriptor_of registry c of None \<Rightarrow> cs_descriptors s | Some d \<Rightarrow> smap_put (comp_id c) d (cs_descriptors s))"
proof -
  have "comp_id c \<noteq> []" using assms by (simp add: component_valid_def)
  moreover have "registry = None \<or> (\<exists>reg d. registry = Some reg \<and> descriptor_of registry c = Some d)"
    using assms by (auto simp: component_valid_def)
  ultimately show ?thesis
    by (auto simp: check_component_def Let_def probe_component_def descriptor_of_def simp del: append_Cons split: sum.splits if_splits)
qed

text \<open>Role flags of a scan: whether a component or its descriptor declares an input (output) boundary.\<close>

definition declares :: "(component_role \<Rightarrow> bool) \<Rightarrow> component_registry option \<Rightarrow> component_node_spec \<Rightarrow> bool" where
  "declares P registry c \<longleftrightarrow> P (bd_role (boundary c)) \<or> (\<exists>d. descriptor_of registry c = Some d \<and> P (cd_role d))"

lemma note_role_flags:
  "cs_has_input_boundary (note_role role s) \<longleftrightarrow> cs_has_input_boundary s \<or> component_role_has_input role"
  "cs_has_output_boundary (note_role role s) \<longleftrightarrow> cs_has_output_boundary s \<or> component_role_has_output role"
  by (auto simp: note_role_def component_role_has_input_def component_role_has_output_def)

lemma check_component_flags:
  assumes "component_valid stod registry (set L) c"
  shows "cs_has_input_boundary (check_component stod registry L c s) \<longleftrightarrow> cs_has_input_boundary s \<or> declares component_role_has_input registry c"
    "cs_has_output_boundary (check_component stod registry L c s) \<longleftrightarrow> cs_has_output_boundary s \<or> declares component_role_has_output registry c"
proof -
  have "comp_id c \<noteq> []" using assms by (simp add: component_valid_def)
  moreover have "registry = None \<or> (\<exists>reg d. registry = Some reg \<and> descriptor_of registry c = Some d)"
    using assms by (auto simp: component_valid_def)
  ultimately show "cs_has_input_boundary (check_component stod registry L c s) \<longleftrightarrow> cs_has_input_boundary s \<or> declares component_role_has_input registry c"
    "cs_has_output_boundary (check_component stod registry L c s) \<longleftrightarrow> cs_has_output_boundary s \<or> declares component_role_has_output registry c"
    by (auto simp: check_component_def Let_def probe_component_def descriptor_of_def note_role_flags declares_def
        simp del: append_Cons split: sum.splits if_splits)
qed

lemma check_components_fold:
  "gr_ok (cs_report (fold (check_component stod registry L) cs s)) \<longleftrightarrow>
     (\<forall>c \<in> set cs. component_valid stod registry (set L) c) \<and> distinct (map comp_id cs) \<and>
     comp_id ` set cs \<inter> set (cs_ids s) = {} \<and> gr_ok (cs_report s)"
proof (induction cs arbitrary: s)
  case (Cons c cs)
  show ?case
  proof (cases "comp_id c = []")
    case True
    then have "\<not> component_valid stod registry (set L) c" by (simp add: component_valid_def)
    with True Cons.IH show ?thesis by (simp add: check_component_empty_id)
  next
    case False
    with Cons.IH show ?thesis by (auto simp: check_component_step)
  qed
qed simp

lemma check_components_scan:
  assumes "\<forall>c \<in> set cs. component_valid stod registry (set L) c"
  defines "t \<equiv> \<lambda>s. fold (check_component stod registry L) cs s"
  shows "set (cs_ids (t s)) = comp_id ` set cs \<union> set (cs_ids s)"
    "cs_has_input_boundary (t s) \<longleftrightarrow> cs_has_input_boundary s \<or> (\<exists>c \<in> set cs. declares component_role_has_input registry c)"
    "cs_has_output_boundary (t s) \<longleftrightarrow> cs_has_output_boundary s \<or> (\<exists>c \<in> set cs. declares component_role_has_output registry c)"
    "distinct (map comp_id cs) \<Longrightarrow> comp_id ` set cs \<inter> set (cs_ids s) = {} \<Longrightarrow> cs_has_duplicate (t s) = cs_has_duplicate s"
  using assms(1) unfolding t_def
  by (induction cs arbitrary: s) (auto simp: check_component_step check_component_flags component_valid_def)

definition graph_descriptors :: "component_registry option \<Rightarrow> component_node_spec list \<Rightarrow> string \<Rightarrow> component_descriptor option" where
  "graph_descriptors registry cs cid = (case find (\<lambda>c. comp_id c = cid) cs of None \<Rightarrow> None | Some c \<Rightarrow> descriptor_of registry c)"

lemma check_components_descriptors:
  assumes "\<forall>c \<in> set cs. component_valid stod registry (set L) c" and "distinct (map comp_id cs)"
  shows "map_of (cs_descriptors (fold (check_component stod registry L) cs s)) cid =
    (case graph_descriptors registry cs cid of None \<Rightarrow> map_of (cs_descriptors s) cid | Some d \<Rightarrow> Some d)"
  using assms
proof (induction cs arbitrary: s)
  case (Cons c cs)
  have "find (\<lambda>x. comp_id x = comp_id c) cs = None"
    unfolding find_None_iff using Cons.prems(2) by (metis distinct.simps(2) image_eqI list.map(2) list.set_map)
  then have "graph_descriptors registry cs (comp_id c) = None" by (simp add: graph_descriptors_def)
  with Cons show ?case
    by (auto simp: check_component_descriptors graph_descriptors_def split: option.splits)
qed (simp add: graph_descriptors_def)

section \<open>Edges\<close>

definition edge_policy_valid :: "edge_spec \<Rightarrow> bool" where
  "edge_policy_valid e \<longleftrightarrow>
     (let p = edge_policy e
      in has_kind e \<and> invalid_kind e = [] \<and> is_allowed_channel_type (ep_mode p) \<and> 0 < ep_capacity p \<and> 0 \<le> ep_max_inflight p \<and>
         (0 < ep_max_inflight p \<longrightarrow> edge_kind_of e = KAsync) \<and> is_allowed_drop_policy (ep_overflow p) \<and>
         \<not> (is_latest_style_channel_type (ep_mode p) \<and> is_backpressure_drop_policy (ep_overflow p)) \<and>
         is_timestamp_domain_value (ep_timestamp_domain p) \<and> is_allowed_copy_policy (ep_copy_policy p) \<and> is_allowed_owner (ep_owner p) \<and>
         is_allowed_readers (ep_readers p) \<and> (ep_copy_policy p = ''move_only'' \<longrightarrow> ep_readers p = ''single''))"

definition edge_ports_valid :: "(string \<Rightarrow> component_descriptor option) \<Rightarrow> edge_spec \<Rightarrow> bool" where
  "edge_ports_valid desc e \<longleftrightarrow>
     (let out_p = port_of cd_outputs desc (edge_from e); in_p = port_of cd_inputs desc (edge_to e)
      in out_p \<noteq> Some None \<and> in_p \<noteq> Some None \<and>
         (\<forall>p q. out_p = Some (Some p) \<and> in_p = Some (Some q) \<longrightarrow> port_contract_mismatch p q = None))"

definition edge_valid :: "string set \<Rightarrow> (string \<Rightarrow> component_descriptor option) \<Rightarrow> edge_spec \<Rightarrow> bool" where
  "edge_valid ids desc e \<longleftrightarrow> edge_id e \<noteq> [] \<and> edge_policy_valid e \<and> component_id_from_endpoint (edge_from e) \<in> ids \<and>
     component_id_from_endpoint (edge_to e) \<in> ids \<and> edge_ports_valid desc e"

text \<open>A producer-owned edge must be the first edge from its source endpoint.\<close>

definition owner_order :: "edge_spec \<Rightarrow> edge_spec \<Rightarrow> bool" where
  "owner_order e e' \<longleftrightarrow> edge_from e = edge_from e' \<longrightarrow> ep_owner (edge_policy e') \<noteq> ''producer''"

lemma gr_ok_check_edge_policy: "gr_ok (check_edge_policy e r) \<longleftrightarrow> edge_policy_valid e \<and> gr_ok r"
  unfolding check_edge_policy_def edge_policy_valid_def Let_def
  by (simp only: report_simps) (auto simp: not_less)

lemma gr_ok_check_edge_ports: "gr_ok (check_edge_ports ds e r) \<longleftrightarrow> edge_ports_valid (map_of ds) e \<and> gr_ok r"
  unfolding check_edge_ports_def edge_ports_valid_def Let_def
  by (cases "port_of cd_outputs (map_of ds) (edge_from e)"; cases "port_of cd_inputs (map_of ds) (edge_to e)")
    (auto simp: report_simps simp del: append_Cons split: option.splits)

lemma check_edge_step:
  assumes "edge_id e \<noteq> []"
  shows "gr_ok (ed_report (check_edge cs e s)) \<longleftrightarrow>
       edge_valid (set (cs_ids cs)) (map_of (cs_descriptors cs)) e \<and> edge_id e \<notin> set (ed_ids s) \<and>
       (edge_from e \<in> set (ed_sources s) \<longrightarrow> ep_owner (edge_policy e) \<noteq> ''producer'') \<and> gr_ok (ed_report s)"
  using assms
  by (auto simp: check_edge_def edge_valid_def Let_def report_simps gr_ok_check_edge_policy gr_ok_check_edge_ports simp del: append_Cons)

lemma check_edge_frame:
  "edge_id e \<noteq> [] \<Longrightarrow> ed_ids (check_edge cs e s) = edge_id e # ed_ids s"
  "edge_id e \<noteq> [] \<Longrightarrow> ed_sources (check_edge cs e s) = edge_from e # ed_sources s"
  "edge_id e \<noteq> [] \<Longrightarrow> ed_targets (check_edge cs e s) = edge_to e # ed_targets s"
  "edge_id e \<noteq> [] \<Longrightarrow> ed_target_counts (check_edge cs e s) =
     smap_put (edge_to e) (smap_get 0 (ed_target_counts s) (edge_to e) + 1) (ed_target_counts s)"
  "edge_id e \<noteq> [] \<Longrightarrow> ed_state_writers (check_edge cs e s) =
     (if edge_kind_of e = KState then smap_push (edge_to e) (edge_id e) (ed_state_writers s) else ed_state_writers s)"
  "edge_id e = [] \<Longrightarrow> check_edge cs e s = s\<lparr>ed_report := add_error ''edge id must not be empty'' (ed_report s)\<rparr>"
  by (simp_all add: check_edge_def Let_def del: append_Cons)

lemma check_edges_fold:
  "gr_ok (ed_report (fold (check_edge cs) es s)) \<longleftrightarrow>
     (\<forall>e \<in> set es. edge_valid (set (cs_ids cs)) (map_of (cs_descriptors cs)) e) \<and> distinct (map edge_id es) \<and>
     edge_id ` set es \<inter> set (ed_ids s) = {} \<and> sorted_wrt owner_order es \<and>
     (\<forall>e \<in> set es. edge_from e \<in> set (ed_sources s) \<longrightarrow> ep_owner (edge_policy e) \<noteq> ''producer'') \<and> gr_ok (ed_report s)"
proof (induction es arbitrary: s)
  case (Cons e es)
  show ?case
  proof (cases "edge_id e = []")
    case True
    then have "\<not> edge_valid (set (cs_ids cs)) (map_of (cs_descriptors cs)) e" by (simp add: edge_valid_def)
    with True Cons.IH show ?thesis by (simp add: check_edge_frame(6))
  next
    case False
    with Cons.IH show ?thesis by (auto simp: check_edge_step check_edge_frame owner_order_def)
  qed
qed simp

lemma check_edges_scan:
  assumes "\<forall>e \<in> set es. edge_id e \<noteq> []"
  shows "set (ed_ids (fold (check_edge cs) es s)) = edge_id ` set es \<union> set (ed_ids s)"
    "set (ed_targets (fold (check_edge cs) es s)) = edge_to ` set es \<union> set (ed_targets s)"
    "smap_get 0 (ed_target_counts (fold (check_edge cs) es s)) t =
       length (filter (\<lambda>e. edge_to e = t) es) + smap_get 0 (ed_target_counts s) t"
  using assms by (induction es arbitrary: s) (auto simp: check_edge_frame)

definition state_targets :: "edge_spec list \<Rightarrow> string list" where
  "state_targets es = map edge_to (filter (\<lambda>e. edge_kind_of e = KState) es)"

lemma distinct_map_iff_filter: "distinct (map f xs) \<longleftrightarrow> (\<forall>t. length (filter (\<lambda>x. f x = t) xs) \<le> 1)"
proof (induction xs)
  case (Cons x xs)
  have "f x \<notin> f ` set xs \<longleftrightarrow> length (filter (\<lambda>y. f y = f x) xs) = 0"
    by (simp add: filter_empty_conv image_iff) metis
  moreover have "length (filter (\<lambda>y. f y = t) (x # xs)) \<le> 1 \<longleftrightarrow>
      (t = f x \<longrightarrow> length (filter (\<lambda>y. f y = f x) xs) = 0) \<and> length (filter (\<lambda>y. f y = t) xs) \<le> 1" for t
    by (cases "t = f x") auto
  ultimately show ?case using Cons.IH by auto
qed simp

lemma check_edges_state_writers:
  assumes "\<forall>e \<in> set es. edge_id e \<noteq> []" and "smap_wf (ed_state_writers s)"
  shows "smap_wf (ed_state_writers (fold (check_edge cs) es s))"
    "smap_get [] (ed_state_writers (fold (check_edge cs) es s)) t =
       smap_get [] (ed_state_writers s) t @ map edge_id (filter (\<lambda>e. edge_kind_of e = KState \<and> edge_to e = t) es)"
  using assms by (induction es arbitrary: s) (auto simp: check_edge_frame)

lemma smap_all_iff:
  assumes "smap_wf m" and "P []"
  shows "(\<forall>(k, v) \<in> set m. P v) \<longleftrightarrow> (\<forall>k. P (smap_get [] m k))"
proof
  assume all: "\<forall>(k, v) \<in> set m. P v"
  show "\<forall>k. P (smap_get [] m k)"
    using all assms(2) by (auto simp: smap_get_def split: option.splits dest: map_of_SomeD)
next
  assume all: "\<forall>k. P (smap_get [] m k)"
  show "\<forall>(k, v) \<in> set m. P v"
  proof clarify
    fix k v assume "(k, v) \<in> set m"
    with assms(1) have "map_of m k = Some v" by (simp add: map_of_eq_Some_iff_wf)
    with all [THEN spec, of k] show "P v" by (simp add: smap_get_def)
  qed
qed

lemma gr_ok_check_state_writers:
  assumes "\<forall>e \<in> set (graph_edges g). edge_id e \<noteq> []"
  shows "gr_ok (check_state_writers (check_edges cs g r0) r) \<longleftrightarrow> distinct (state_targets (graph_edges g)) \<and> gr_ok r"
proof -
  let ?m = "ed_state_writers (check_edges cs g r0)"
  have wf: "smap_wf ?m" and get: "smap_get [] ?m t = map edge_id (filter (\<lambda>e. edge_kind_of e = KState \<and> edge_to e = t) (graph_edges g))" for t
    using check_edges_state_writers [OF assms] by (simp_all add: check_edges_def)
  have "gr_ok (check_state_writers (check_edges cs g r0) r) \<longleftrightarrow> (\<forall>x \<in> set ?m. case x of (t, ws) \<Rightarrow> length ws \<le> 1) \<and> gr_ok r"
    unfolding check_state_writers_def by (rule gr_ok_fold) (auto simp: not_less simp del: append_Cons)
  also have "(\<forall>x \<in> set ?m. case x of (t, ws) \<Rightarrow> length ws \<le> 1) \<longleftrightarrow> (\<forall>t. length (smap_get [] ?m t) \<le> 1)"
    by (rule smap_all_iff [OF wf]) simp
  also have "\<dots> \<longleftrightarrow> distinct (state_targets (graph_edges g))"
    by (simp add: get state_targets_def distinct_map_iff_filter conj_commute)
  finally show ?thesis .
qed

section \<open>Inputs, triggers, loops and hierarchy\<close>

definition input_valid :: "graph_spec \<Rightarrow> component_node_spec \<Rightarrow> port_descriptor \<Rightarrow> bool" where
  "input_valid g c p \<longleftrightarrow>
     (let n = length (filter (\<lambda>e. edge_to e = endpoint (comp_id c) (port_name p)) (graph_edges g))
      in port_name p \<noteq> [] \<longrightarrow> (port_required p \<longrightarrow> 0 < n) \<and> (port_mult p = MSingle \<longrightarrow> n \<le> 1))"

definition loop_policy_valid :: "loop_policy_spec \<Rightarrow> bool" where
  "loop_policy_valid p \<longleftrightarrow> is_allowed_loop_policy_type (lp_type p) \<and> 0 \<le> lp_budget_ms p \<and> 0 \<le> lp_max_iterations p \<and>
     0 \<le> lp_max_inflight p \<and> 0 \<le> lp_min_interval_ms p \<and> (\<forall>x. lp_residual_threshold p = Some x \<longrightarrow> \<not> fp_less x (Finite 0)) \<and>
     is_allowed_loop_convergence (lp_convergence p) \<and> is_allowed_loop_partial_success (lp_partial_success p)"

definition hierarchy_entry_valid :: "string set \<Rightarrow> string set \<Rightarrow> string set \<Rightarrow> graph_hierarchy_entry \<Rightarrow> bool" where
  "hierarchy_entry_valid cids eids lids h \<longleftrightarrow>
     hier_id h \<noteq> [] \<and> set (hier_components h) \<subseteq> cids \<and> set (hier_edges h) \<subseteq> eids \<and> set (hier_composite_loops h) \<subseteq> lids"

lemma gr_ok_check_input:
  assumes "\<forall>e \<in> set (graph_edges g). edge_id e \<noteq> []"
  shows "gr_ok (check_input (check_edges cs g r0) c p r) \<longleftrightarrow> input_valid g c p \<and> gr_ok r"
proof -
  have "smap_get 0 (ed_target_counts (check_edges cs g r0)) t = length (filter (\<lambda>e. edge_to e = t) (graph_edges g))" for t
    using check_edges_scan(3) [OF assms] by (simp add: check_edges_def)
  then show ?thesis
    by (auto simp: check_input_def input_valid_def Let_def not_less simp del: append_Cons)
qed

lemma gr_ok_check_inputs:
  assumes "\<forall>e \<in> set (graph_edges g). edge_id e \<noteq> []"
  shows "gr_ok (check_inputs cs (check_edges cs g r0) g r) \<longleftrightarrow>
    (\<forall>c \<in> set (components g). \<forall>d. map_of (cs_descriptors cs) (comp_id c) = Some d \<longrightarrow> (\<forall>p \<in> set (cd_inputs d). input_valid g c p)) \<and> gr_ok r"
  unfolding check_inputs_def
  by (rule gr_ok_fold) (auto simp: gr_ok_fold [OF gr_ok_check_input [OF assms]] split: option.split)

lemma gr_ok_check_trigger_inputs:
  assumes "\<forall>e \<in> set (graph_edges g). edge_id e \<noteq> []"
  shows "gr_ok (check_trigger_inputs (check_edges cs g r0) g r) \<longleftrightarrow>
    (\<forall>c \<in> set (components g). \<forall>i \<in> set (trigger_policy_inputs_for c). endpoint (comp_id c) i \<in> edge_to ` set (graph_edges g)) \<and> gr_ok r"
proof -
  have t: "set (ed_targets (check_edges cs g r0)) = edge_to ` set (graph_edges g)"
    using check_edges_scan(2) [OF assms] by (simp add: check_edges_def)
  show ?thesis
    unfolding check_trigger_inputs_def t
    by (rule gr_ok_fold, rule gr_ok_fold) (simp del: append_Cons)
qed

lemma gr_ok_check_loop_policy: "gr_ok (check_loop_policy l r) \<longleftrightarrow> loop_policy_valid (loop_policy l) \<and> gr_ok r"
  unfolding check_loop_policy_def loop_policy_valid_def Let_def
  by (simp only: report_simps) (cases "lp_residual_threshold (loop_policy l)"; auto simp: not_less)

lemma gr_ok_check_hierarchy_entry:
  assumes "hier_id h \<noteq> []"
  shows "gr_ok (check_hierarchy_entry cs es lids h r) \<longleftrightarrow>
     hierarchy_entry_valid (set (cs_ids cs)) (set (ed_ids es)) (set lids) h \<and> gr_ok r"
proof -
  have *: "gr_ok (run_checks (map (\<lambda>c. add_error_if (c \<notin> S) (m c)) xs) r) \<longleftrightarrow> (\<forall>c \<in> set xs. c \<in> S) \<and> gr_ok r" for S m xs and r :: graph_report
    by (rule gr_ok_run_map) simp
  show ?thesis
    unfolding check_hierarchy_entry_def hierarchy_entry_valid_def by (simp only: run_checks_simps *) (use assms in auto)
qed

lemma gr_ok_check_hierarchy:
  "gr_ok (check_hierarchy cs es lids hs ids r) \<longleftrightarrow>
     (\<forall>h \<in> set hs. hierarchy_entry_valid (set (cs_ids cs)) (set (ed_ids es)) (set lids) h) \<and> distinct (map hier_id hs) \<and>
     hier_id ` set hs \<inter> set ids = {} \<and> gr_ok r"
proof (induction hs arbitrary: ids r)
  case (Cons h hs)
  show ?case
  proof (cases "hier_id h = []")
    case True
    then have "\<not> hierarchy_entry_valid C E L h" for C E L by (simp add: hierarchy_entry_valid_def)
    with True Cons.IH show ?thesis by simp
  next
    case False
    with Cons.IH show ?thesis by (auto simp: gr_ok_check_hierarchy_entry simp del: append_Cons)
  qed
qed simp

section \<open>Reports of the compiler\<close>

lemma report_wf_own_components [inv_intros]:
  "report_wf r \<Longrightarrow> report_wf (snd (own_components known lid cs seen owners r))"
  by (induction cs arbitrary: seen owners r) (auto simp: Let_def simp del: append_Cons split: option.split)

lemma report_wf_check_loops [inv_intros]: "report_wf r \<Longrightarrow> report_wf (check_loops known ls ids owners r)"
proof (induction ls arbitrary: ids owners r)
  case (Cons l ls)
  show ?case
  proof (cases "loop_id l = []")
    case False
    obtain owners' r2 where o: "own_components known (loop_id l) (loop_components l) [] owners
        (add_error_if (loop_id l \<in> set ids) (''duplicate composite_loop: '' @ loop_id l) r) = (owners', r2)" by fastforce
    have "report_wf r2" using Cons.prems o report_wf_own_components by (metis report_wf_add_error_if snd_conv)
    with Cons.IH False o show ?thesis by (simp add: Let_def)
  qed (use Cons in simp)
qed simp

lemma report_wf_fold: "(\<And>x r. report_wf r \<Longrightarrow> report_wf (f x r)) \<Longrightarrow> report_wf r \<Longrightarrow> report_wf (fold f xs r)"
  by (induction xs arbitrary: r) simp_all

lemma report_wf_compile_report: "report_wf (compile_report g cs)"
proof -
  have "report_wf (check_scc g scc r)" if "report_wf r" for scc r
    using that by (auto simp: check_scc_def Let_def simp del: append_Cons split: option.split)
  then show ?thesis
    unfolding compile_report_def check_unmatched_def
    by (intro report_wf_fold report_wf_add_error_if report_wf_check_loops report_wf_empty)
qed

lemma compile_ok_iff_errors: "compile_graph g = Some c \<Longrightarrow> gr_ok c \<longleftrightarrow> gr_errors c = []"
  using report_wf_add_error_if [OF report_wf_compile_report]
  by (auto simp: compile_graph_def Let_def graph_report.defs report_wf_def split: option.splits)

section \<open>The validator\<close>

definition edges_valid :: "component_registry option \<Rightarrow> graph_spec \<Rightarrow> bool" where
  "edges_valid registry g \<longleftrightarrow>
     (\<forall>e \<in> set (graph_edges g). edge_valid (comp_id ` set (components g)) (graph_descriptors registry (components g)) e) \<and>
     distinct (map edge_id (graph_edges g)) \<and> sorted_wrt owner_order (graph_edges g) \<and> distinct (state_targets (graph_edges g))"

definition inputs_valid :: "component_registry option \<Rightarrow> graph_spec \<Rightarrow> bool" where
  "inputs_valid registry g \<longleftrightarrow>
     (\<forall>c \<in> set (components g).
        (\<forall>d. graph_descriptors registry (components g) (comp_id c) = Some d \<longrightarrow> (\<forall>p \<in> set (cd_inputs d). input_valid g c p)) \<and>
        (\<forall>i \<in> set (trigger_policy_inputs_for c). endpoint (comp_id c) i \<in> edge_to ` set (graph_edges g)))"

definition boundaries_valid :: "component_registry option \<Rightarrow> graph_spec \<Rightarrow> bool" where
  "boundaries_valid registry g \<longleftrightarrow> registry \<noteq> None \<and> graph_kind g = ''runnable'' \<longrightarrow>
     (\<exists>c \<in> set (components g). declares component_role_has_input registry c) \<and>
     (\<exists>c \<in> set (components g). declares component_role_has_output registry c)"

definition components_valid :: "(string \<Rightarrow> (fp \<times> nat) option) \<Rightarrow> component_registry option \<Rightarrow> graph_spec \<Rightarrow> bool" where
  "components_valid stod registry g \<longleftrightarrow>
     (\<forall>l \<in> set (lanes g). lane_valid l) \<and> distinct (map lane_id (lanes g)) \<and>
     (\<forall>c \<in> set (components g). component_valid stod registry (lane_id ` set (lanes g)) c) \<and> distinct (map comp_id (components g))"

definition loops_valid :: "graph_spec \<Rightarrow> bool" where
  "loops_valid g \<longleftrightarrow> (\<forall>l \<in> set (composite_loops g). loop_policy_valid (loop_policy l)) \<and>
     (\<forall>h \<in> set (hierarchy g). hierarchy_entry_valid (comp_id ` set (components g)) (edge_id ` set (graph_edges g))
        (loop_id ` set (composite_loops g)) h) \<and> distinct (map hier_id (hierarchy g))"

definition lifecycle_valid :: "graph_spec \<Rightarrow> bool" where
  "lifecycle_valid g \<longleftrightarrow>
     (\<forall>c \<in> set (components g). distinct (depends_on c) \<and> set (depends_on c) \<subseteq> comp_id ` set (components g)) \<and>
     acyclic (depends_on_arcs g)"

definition graph_valid :: "(string \<Rightarrow> (fp \<times> nat) option) \<Rightarrow> component_registry option \<Rightarrow> graph_spec \<Rightarrow> bool" where
  "graph_valid stod registry g \<longleftrightarrow>
     header_valid g \<and> components_valid stod registry g \<and> lifecycle_valid g \<and> boundaries_valid registry g \<and> edges_valid registry g \<and>
     inputs_valid registry g \<and> loops_valid g \<and> (\<exists>c. compile_graph g = Some c \<and> gr_ok c)"

lemma gr_ok_fold_mono:
  assumes "\<And>x r. gr_ok (f x r) \<Longrightarrow> gr_ok r"
  shows "gr_ok (fold f xs r) \<Longrightarrow> gr_ok r"
proof (induction xs arbitrary: r)
  case (Cons x xs)
  then have "gr_ok (f x r)" by simp
  then show ?case by (rule assms)
qed simp

lemma gr_ok_check_input_mono: "gr_ok (check_input es c p r) \<Longrightarrow> gr_ok r"
  by (auto simp: check_input_def Let_def simp del: append_Cons split: if_splits)

lemma gr_ok_check_state_writers_mono: "gr_ok (check_state_writers es r) \<Longrightarrow> gr_ok r"
  unfolding check_state_writers_def
  by (erule gr_ok_fold_mono [rotated]) (auto simp only: gr_ok_add split: prod.splits)

lemma gr_ok_check_inputs_mono: "gr_ok (check_inputs cs es g r) \<Longrightarrow> gr_ok r"
  unfolding check_inputs_def
  by (erule gr_ok_fold_mono [rotated])
    (auto split: option.splits elim: gr_ok_fold_mono [rotated] gr_ok_check_input_mono)

lemma gr_ok_check_trigger_inputs_mono: "gr_ok (check_trigger_inputs es g r) \<Longrightarrow> gr_ok r"
  unfolding check_trigger_inputs_def
  by (erule gr_ok_fold_mono [rotated], erule gr_ok_fold_mono [rotated]) (simp only: gr_ok_add)

lemmas gr_ok_edge_sections_mono = gr_ok_check_state_writers_mono gr_ok_check_inputs_mono gr_ok_check_trigger_inputs_mono

lemma gr_ok_check_edge_sections:
  assumes ids: "set (cs_ids cs) = comp_id ` set (components g)"
    and desc: "map_of (cs_descriptors cs) = graph_descriptors registry (components g)"
    and es_def: "es = check_edges cs g r"
  shows "gr_ok (check_trigger_inputs es g (check_inputs cs es g (check_state_writers es (ed_report es)))) \<longleftrightarrow>
    edges_valid registry g \<and> inputs_valid registry g \<and> gr_ok r"
proof -
  have e: "gr_ok (ed_report es) \<longleftrightarrow>
      (\<forall>e \<in> set (graph_edges g). edge_valid (comp_id ` set (components g)) (graph_descriptors registry (components g)) e) \<and>
      distinct (map edge_id (graph_edges g)) \<and> sorted_wrt owner_order (graph_edges g) \<and> gr_ok r"
    unfolding es_def check_edges_def check_edges_fold ids desc by simp
  show ?thesis
  proof (cases "\<forall>e \<in> set (graph_edges g). edge_id e \<noteq> []")
    case True
    show ?thesis
      unfolding es_def
      by (simp only: gr_ok_check_trigger_inputs [OF True] gr_ok_check_inputs [OF True] gr_ok_check_state_writers [OF True] desc
          e [unfolded es_def])
        (auto simp: edges_valid_def inputs_valid_def)
  next
    case False
    then have "\<not> gr_ok (ed_report es)" "\<not> edges_valid registry g"
      unfolding e by (auto simp: edges_valid_def edge_valid_def)
    then show ?thesis using gr_ok_edge_sections_mono by blast
  qed
qed

lemma validate_sections_ok:
  "gr_ok (snd (validate_sections stod registry g lc)) \<longleftrightarrow>
     header_valid g \<and> components_valid stod registry g \<and> lo_errors lc = [] \<and> boundaries_valid registry g \<and> edges_valid registry g \<and>
     inputs_valid registry g \<and> loops_valid g"
  (is ?ok) and validate_sections_dup:
  "components_valid stod registry g \<Longrightarrow> \<not> fst (validate_sections stod registry g lc)" (is "_ \<Longrightarrow> ?dup")
proof -
  define lane_ids where "lane_ids = fst (check_lanes (lanes g) [] (check_graph_header g empty_report))"
  define r1 where "r1 = snd (check_lanes (lanes g) [] (check_graph_header g empty_report))"
  define cs where "cs = check_components stod registry lane_ids g r1"
  define r2 where "r2 = check_boundaries registry g cs (add_errors (lo_errors lc) (cs_report cs))"
  define es where "es = check_edges cs g r2"
  define r3 where "r3 = check_trigger_inputs es g (check_inputs cs es g (check_state_writers es (ed_report es)))"
  have r1: "gr_ok r1 \<longleftrightarrow> (\<forall>l \<in> set (lanes g). lane_valid l) \<and> distinct (map lane_id (lanes g)) \<and> header_valid g"
    using check_lanes_spec(1) [OF r1_def [symmetric]] by (simp add: gr_ok_check_graph_header empty_report_def)
  have unfold: "validate_sections stod registry g lc = (cs_has_duplicate cs,
      check_hierarchy cs es (map loop_id (composite_loops g)) (hierarchy g) [] (fold check_loop_policy (composite_loops g) r3))"
    unfolding validate_sections_def r3_def es_def r2_def cs_def lane_ids_def r1_def by (simp add: Let_def split_beta)
  have lanes: "set lane_ids = lane_id ` set (lanes g)" if "\<forall>l \<in> set (lanes g). lane_valid l"
    using check_lanes_spec(2) [OF that] by (simp add: lane_ids_def)
  have rep: "gr_ok (cs_report cs) \<longleftrightarrow> (\<forall>c \<in> set (components g). component_valid stod registry (set lane_ids) c) \<and>
      distinct (map comp_id (components g)) \<and> gr_ok r1"
    unfolding cs_def check_components_def check_components_fold by simp
  have comps: "gr_ok (cs_report cs) \<longleftrightarrow> components_valid stod registry g \<and> header_valid g"
    unfolding rep r1 using lanes by (auto simp: components_valid_def)
  have scan: "set (cs_ids cs) = comp_id ` set (components g)"
      "map_of (cs_descriptors cs) = graph_descriptors registry (components g)" "\<not> cs_has_duplicate cs"
      "cs_has_input_boundary cs \<longleftrightarrow> (\<exists>c \<in> set (components g). declares component_role_has_input registry c)"
      "cs_has_output_boundary cs \<longleftrightarrow> (\<exists>c \<in> set (components g). declares component_role_has_output registry c)"
    if v: "components_valid stod registry g"
  proof -
    have c: "\<forall>c \<in> set (components g). component_valid stod registry (set lane_ids) c"
      using v lanes by (auto simp: components_valid_def)
    have d: "distinct (map comp_id (components g))" using v by (simp add: components_valid_def)
    show "map_of (cs_descriptors cs) = graph_descriptors registry (components g)"
      unfolding cs_def check_components_def by (rule ext) (simp add: check_components_descriptors [OF c d] split: option.split)
    show "set (cs_ids cs) = comp_id ` set (components g)" "\<not> cs_has_duplicate cs"
      "cs_has_input_boundary cs \<longleftrightarrow> (\<exists>c \<in> set (components g). declares component_role_has_input registry c)"
      "cs_has_output_boundary cs \<longleftrightarrow> (\<exists>c \<in> set (components g). declares component_role_has_output registry c)"
      unfolding cs_def check_components_def using check_components_scan [OF c] d by simp_all
  qed
  show "components_valid stod registry g \<Longrightarrow> ?dup" using scan(3) unfolding unfold by simp
  have r2: "gr_ok r2 \<longleftrightarrow> components_valid stod registry g \<and> header_valid g \<and> lo_errors lc = [] \<and> boundaries_valid registry g"
    using scan(4,5) comps by (auto simp: r2_def check_boundaries_def boundaries_valid_def)
  have loops: "gr_ok (fold check_loop_policy (composite_loops g) r3) \<longleftrightarrow>
      (\<forall>l \<in> set (composite_loops g). loop_policy_valid (loop_policy l)) \<and> gr_ok r3"
    by (rule gr_ok_fold) (rule gr_ok_check_loop_policy)
  have mono: "gr_ok r3 \<Longrightarrow> gr_ok (ed_report es)" using gr_ok_edge_sections_mono unfolding r3_def by blast
  have "gr_ok (ed_report es) \<Longrightarrow> gr_ok r2" unfolding es_def check_edges_def check_edges_fold by simp
  with mono r2 have v: "gr_ok r3 \<Longrightarrow> components_valid stod registry g" by blast
  show ?ok
  proof (cases "components_valid stod registry g")
    case True
    have r3: "gr_ok r3 \<longleftrightarrow> edges_valid registry g \<and> inputs_valid registry g \<and> gr_ok r2"
      unfolding r3_def by (rule gr_ok_check_edge_sections [OF scan(1,2) [OF True] es_def])
    have "set (ed_ids es) = edge_id ` set (graph_edges g)" if "edges_valid registry g"
      using that check_edges_scan(1) [of "graph_edges g" cs]
      by (simp add: es_def check_edges_def edges_valid_def edge_valid_def)
    then show ?thesis
      unfolding unfold snd_conv gr_ok_check_hierarchy loops r3 r2 scan(1) [OF True] by (auto simp: loops_valid_def)
  next
    case False
    then show ?thesis unfolding unfold snd_conv gr_ok_check_hierarchy loops using v by blast
  qed
qed

section \<open>Reports of the validator\<close>

text \<open>A report that is consistent and all of whose diagnostics are in the registry with their severity, fix and category.\<close>

definition diagnostic_registered :: "graph_diagnostic \<Rightarrow> bool" where
  "diagnostic_registered d \<longleftrightarrow>
     (\<exists>dd. graph_diagnostic_descriptor (gd_code d) = Some dd \<and> dd_severity dd = gd_severity d \<and>
        gd_suggested_fix d = dd_suggested_fix dd \<and> gd_category d = dd_category dd)"

definition good_report :: "graph_report \<Rightarrow> bool" where
  "good_report r \<longleftrightarrow> report_wf r \<and> (\<forall>d \<in> set (gr_diagnostics r). diagnostic_registered d)"

named_theorems good_intros

lemma good_empty [good_intros]: "good_report empty_report"
  by (simp add: good_report_def) (simp add: empty_report_def)

lemma good_add_error [good_intros]: "good_report r \<Longrightarrow> good_report (add_error e r)"
proof -
  have "diagnostic_registered (make_diagnostic e)"
    using bspec [OF error_codes_registered diagnostic_code_for_cases [of e]]
    by (auto simp: diagnostic_registered_def make_diagnostic_def Let_def suggested_fix_for_def graph_diagnostic_category_def split: option.splits)
  then show "good_report r \<Longrightarrow> good_report (add_error e r)"
    by (simp add: good_report_def) (simp add: add_error_def)
qed

lemma good_add_error_if [good_intros]: "good_report r \<Longrightarrow> good_report (add_error_if b e r)"
  by (simp add: add_error_if_def good_add_error)

lemma good_add_errors [good_intros]: "good_report r \<Longrightarrow> good_report (add_errors es r)"
  by (induction es arbitrary: r) (simp_all add: add_errors_def good_add_error)

definition has_severity :: "string \<Rightarrow> string \<Rightarrow> bool" where
  "has_severity severity code \<longleftrightarrow> map_option dd_severity (graph_diagnostic_descriptor code) = Some severity"

lemma registered_of_code:
  "has_severity sev code \<Longrightarrow>
   diagnostic_registered \<lparr>gd_code = code, gd_severity = sev, gd_message = m, gd_graph_path = p, gd_involved_components = cs,
     gd_involved_edges = es, gd_suggested_fix = suggested_fix_for code, gd_category = graph_diagnostic_category code\<rparr>"
  by (auto simp: has_severity_def diagnostic_registered_def suggested_fix_for_def graph_diagnostic_category_def)

lemma good_add_warning: "has_severity ''warning'' code \<Longrightarrow> good_report r \<Longrightarrow> good_report (add_warning code m p cs es r)"
  using registered_of_code [of "''warning''" code m p cs es]
  by (simp add: good_report_def) (simp add: add_warning_def add_diagnostic_def)

lemma good_add_advisory: "has_severity ''advisory'' code \<Longrightarrow> good_report r \<Longrightarrow> good_report (add_advisory code m p r)"
  using registered_of_code [of "''advisory''" code m p "[]" "[]"]
  by (simp add: good_report_def) (simp add: add_advisory_def add_diagnostic_def)

lemma warning_codes:
  "has_severity ''warning'' ''trigger_never_ready''" "has_severity ''warning'' ''backpressure_risk''"
  "has_severity ''warning'' ''high_queue_depth_latency_risk''" "has_severity ''warning'' ''large_payload_copy''"
  by code_simp+

lemma advisory_codes:
  "has_severity ''advisory'' ''advisory_lane_field_ignored''" "has_severity ''advisory'' ''optional_input_unconnected''"
  by code_simp+

lemmas good_warnings [good_intros] = warning_codes [THEN good_add_warning] advisory_codes [THEN good_add_advisory]

lemma good_add_warning_if [good_intros]:
  "has_severity ''warning'' code \<Longrightarrow> good_report r \<Longrightarrow> good_report (add_warning_if b code m p cs es r)"
  by (simp add: add_warning_if_def good_add_warning)

declare warning_codes [good_intros]

lemma good_if [good_intros]:
  "(b \<Longrightarrow> good_report (f r)) \<Longrightarrow> (\<not> b \<Longrightarrow> good_report (h r)) \<Longrightarrow> good_report ((if b then f else h) r)"
  "(b \<Longrightarrow> good_report r1) \<Longrightarrow> (\<not> b \<Longrightarrow> good_report r2) \<Longrightarrow> good_report (if b then r1 else r2)"
  by simp_all

lemma good_fold [good_intros]: "(\<And>x r. good_report r \<Longrightarrow> good_report (f x r)) \<Longrightarrow> good_report r \<Longrightarrow> good_report (fold f xs r)"
  by (induction xs arbitrary: r) simp_all

lemma good_run_map [good_intros]:
  "(\<And>x r. good_report r \<Longrightarrow> good_report (f x r)) \<Longrightarrow> good_report r \<Longrightarrow> good_report (run_checks (map f xs) r)"
  by (induction xs arbitrary: r) (simp_all add: run_checks_simps)

lemma good_check_graph_header [good_intros]: "good_report r \<Longrightarrow> good_report (check_graph_header g r)"
  unfolding check_graph_header_def by (simp only: run_checks_simps) (intro good_intros)

lemma good_check_lane_fields [good_intros]: "good_report r \<Longrightarrow> good_report (check_lane_fields l r)"
  unfolding check_lane_fields_def by (simp only: run_checks_simps) (intro good_intros)

lemma good_check_lanes [good_intros]: "good_report r \<Longrightarrow> good_report (snd (check_lanes ls ids r))"
proof (induction ls arbitrary: ids r)
  case (Cons l ls)
  from Cons.prems show ?case
    unfolding check_lanes.simps
    by (cases "lane_id l = []") (simp_all only: refl simp_thms if_True if_False Cons.IH good_intros)
qed simp

lemma good_check_component_fields [good_intros]: "good_report r \<Longrightarrow> good_report (check_component_fields L c r)"
  unfolding check_component_fields_def check_event_source_def check_trigger_def Let_def
  by (simp only: run_checks_simps) (intro good_intros; simp only: run_checks_simps; intro good_intros)

lemma good_check_config_field [good_intros]: "good_report r \<Longrightarrow> good_report (check_config_field stod c f r)"
  by (auto simp: check_config_field_def Let_def intro!: good_intros simp del: append_Cons split: option.split)

lemma good_check_descriptor [good_intros]: "good_report r \<Longrightarrow> good_report (check_descriptor stod c d r)"
  unfolding check_descriptor_def validate_component_config_def by (simp only: run_checks_simps) (intro good_intros)

lemma good_check_component: "good_report (cs_report s) \<Longrightarrow> good_report (cs_report (check_component stod registry L c s))"
  by (auto simp: check_component_def probe_component_def Let_def intro!: good_intros simp del: append_Cons split: option.split sum.split)

lemma good_check_components [good_intros]: "good_report r \<Longrightarrow> good_report (cs_report (check_components stod registry L g r))"
proof -
  have "good_report (cs_report s) \<Longrightarrow> good_report (cs_report (fold (check_component stod registry L) cs s))" for cs s
    by (induction cs arbitrary: s) (simp_all add: good_check_component)
  then show "good_report r \<Longrightarrow> good_report (cs_report (check_components stod registry L g r))"
    by (simp add: check_components_def)
qed

lemma good_check_edge_policy [good_intros]: "good_report r \<Longrightarrow> good_report (check_edge_policy e r)"
  unfolding check_edge_policy_def Let_def by (simp only: run_checks_simps) (intro good_intros)

lemma good_check_edge_ports [good_intros]: "good_report r \<Longrightarrow> good_report (check_edge_ports ds e r)"
  unfolding check_edge_ports_def Let_def
  by (auto simp: run_checks_simps intro!: good_intros simp del: append_Cons split: option.split)

lemma good_check_edge: "good_report (ed_report s) \<Longrightarrow> good_report (ed_report (check_edge cs e s))"
  unfolding check_edge_def Let_def
  by (auto simp: run_checks_simps intro!: good_intros simp del: append_Cons)

lemma good_check_edges [good_intros]: "good_report r \<Longrightarrow> good_report (ed_report (check_edges cs g r))"
proof -
  have "good_report (ed_report s) \<Longrightarrow> good_report (ed_report (fold (check_edge cs) es s))" for es s
    by (induction es arbitrary: s) (simp_all add: good_check_edge)
  then show "good_report r \<Longrightarrow> good_report (ed_report (check_edges cs g r))"
    by (simp add: check_edges_def)
qed

lemma good_check_state_writers [good_intros]: "good_report r \<Longrightarrow> good_report (check_state_writers es r)"
  unfolding check_state_writers_def by (intro good_fold) (auto simp only: split: prod.split intro!: good_intros)

lemma good_check_input [good_intros]: "good_report r \<Longrightarrow> good_report (check_input es c p r)"
  unfolding check_input_def Let_def by (intro good_intros)

lemma good_check_inputs [good_intros]: "good_report r \<Longrightarrow> good_report (check_inputs cs es g r)"
  unfolding check_inputs_def by (intro good_fold) (auto split: option.split intro!: good_intros)

lemma good_check_trigger_inputs [good_intros]: "good_report r \<Longrightarrow> good_report (check_trigger_inputs es g r)"
  unfolding check_trigger_inputs_def by (intro good_intros)

lemma good_check_loop_policy [good_intros]: "good_report r \<Longrightarrow> good_report (check_loop_policy l r)"
  unfolding check_loop_policy_def Let_def by (simp only: run_checks_simps) (intro good_intros)

lemma good_check_hierarchy [good_intros]: "good_report r \<Longrightarrow> good_report (check_hierarchy cs es lids hs ids r)"
proof (induction hs arbitrary: ids r)
  case (Cons h hs)
  have "good_report (check_hierarchy_entry cs es lids h r)" if "good_report r" for r
    using that unfolding check_hierarchy_entry_def by (simp only: run_checks_simps) (intro good_intros)
  with Cons show ?case
    unfolding check_hierarchy.simps
    by (cases "hier_id h = []") (simp_all only: refl simp_thms if_True if_False good_intros)
qed simp

lemma good_check_boundaries [good_intros]: "good_report r \<Longrightarrow> good_report (check_boundaries registry g s r)"
  unfolding check_boundaries_def by (intro good_intros)

lemma good_validate_sections: "good_report (snd (validate_sections stod registry g lc))"
  unfolding validate_sections_def Let_def split_beta snd_conv by (intro good_intros)

section \<open>Properties\<close>

lemma descriptor_in_registry:
  "graph_diagnostic_descriptor c = Some dd \<Longrightarrow> dd \<in> set graph_diagnostic_registry \<and> dd_code dd = c"
  by (auto simp: graph_diagnostic_descriptor_def find_Some_iff)

lemma lo_errors_iff:
  assumes "compute_component_lifecycle_order g = Some lc"
  shows "lo_errors lc = [] \<longleftrightarrow> lifecycle_valid g"
proof -
  have "lo_ok lc \<longleftrightarrow> lo_errors lc = []"
    using assms by (auto simp: compute_component_lifecycle_order_def Let_def split: option.splits)
  with assms lifecycle_order_spec [of g] show ?thesis by (auto simp: lifecycle_valid_def)
qed

lemma validate_cases:
  obtains lc where "compute_component_lifecycle_order g = Some lc" and "lo_errors lc = [] \<longleftrightarrow> lifecycle_valid g"
  using lifecycle_order_spec [of g] lo_errors_iff by blast

lemma validate_graph_ok_iff:
  "(\<exists>v. validate_graph_impl stod registry g = Some v \<and> gr_ok v) \<longleftrightarrow> graph_valid stod registry g"
proof -
  obtain lc where lc: "compute_component_lifecycle_order g = Some lc" "lo_errors lc = [] \<longleftrightarrow> lifecycle_valid g" by (rule validate_cases)
  let ?s = "validate_sections stod registry g lc"
  have ok: "gr_ok (snd ?s) \<and> (\<exists>c. compile_graph g = Some c \<and> gr_ok c) \<longleftrightarrow> graph_valid stod registry g"
    using lc(2) by (auto simp: validate_sections_ok graph_valid_def)
  show ?thesis
  proof (cases "fst ?s")
    case True
    then have "\<not> gr_ok (snd ?s)" using validate_sections_dup validate_sections_ok by blast
    with True ok show ?thesis by (auto simp: validate_graph_impl_def lc split_beta Let_def graph_report.defs)
  next
    case False
    then have "(\<exists>v. validate_graph_impl stod registry g = Some v \<and> gr_ok v) \<longleftrightarrow>
        (\<exists>c. compile_graph g = Some c \<and> gr_errors c = [] \<and> gr_ok (snd ?s))"
      by (auto simp: validate_graph_impl_def lc split_beta Let_def graph_report.defs split: option.split)
    also have "\<dots> \<longleftrightarrow> gr_ok (snd ?s) \<and> (\<exists>c. compile_graph g = Some c \<and> gr_ok c)" using compile_ok_iff_errors by blast
    finally show ?thesis using ok by simp
  qed
qed

text \<open>C1.
  Validation accepts exactly the valid graphs: \<^verbatim>\<open>validate_graph\<close> returns and reports no error precisely when the graph satisfies
  \<open>graph_valid\<close>, which says without reference to the code's sets, counters and maps what each section requires (header, lanes,
  components and their descriptors, lifecycle dependencies, boundaries, edges and their ports, connected inputs, loops, subgraphs, and a
  compilation without errors), with a registry or without.
\<close>

theorem validation_accepts_valid:
  "(\<exists>v. validate_graph_impl stod registry g = Some v \<and> gr_ok v) = graph_valid stod registry g"
  by (rule validate_graph_ok_iff)

lemma validate_report_good: "validate_graph_impl stod registry g = Some v \<Longrightarrow> good_report (graph_report.truncate v)"
proof -
  have trunc: "graph_report.truncate (graph_report.extend r m) = r" for r :: graph_report and m :: 'm
    by (cases r) (simp add: graph_report.defs)
  assume "validate_graph_impl stod registry g = Some v"
  then show ?thesis
    using good_validate_sections [of stod registry g] good_add_errors
    by (auto simp: trunc validate_graph_impl_def Let_def split_beta split: option.splits if_splits)
qed

text \<open>C24.
  The report of a validation is consistent: it is ok exactly when the list of errors is empty, the diagnostics of severity
  \<^verbatim>\<open>error\<close> carry exactly the errors in order, and every diagnostic (warnings and advisories included) has a code that the registry
  documents with the same severity, fix and category.
\<close>

theorem validation_report_consistent:
  assumes "validate_graph_impl stod registry g = Some v"
  shows "(gr_ok v \<longleftrightarrow> gr_errors v = []) \<and>
    map gd_message (filter (\<lambda>d. gd_severity d = ''error'') (gr_diagnostics v)) = gr_errors v \<and>
    (\<forall>d \<in> set (gr_diagnostics v). \<exists>dd \<in> set graph_diagnostic_registry.
       dd_code dd = gd_code d \<and> dd_severity dd = gd_severity d \<and> dd_suggested_fix dd = gd_suggested_fix d \<and> dd_category dd = gd_category d)"
proof -
  have "good_report (graph_report.truncate v)" by (rule validate_report_good [OF assms])
  then show ?thesis
    by (auto simp: good_report_def report_wf_def diagnostic_registered_def graph_report.truncate_def)
      (metis descriptor_in_registry)+
qed

definition demo_errors :: "string list" where
  "demo_errors = [''schema_version must be 1'', ''graph.name must not be empty'']"

theorem validation_report_consistent_witness:
  "\<exists>v. validate_graph_impl (\<lambda>_. None) None default_graph = Some v \<and> \<not> gr_ok v \<and> gr_errors v = demo_errors \<and>
     map gd_message (filter (\<lambda>d. gd_severity d = ''error'') (gr_diagnostics v)) = demo_errors"
proof -
  have "(case validate_graph_impl (\<lambda>_. None) None default_graph of None \<Rightarrow> False | Some v \<Rightarrow> gr_errors v = demo_errors)"
    by code_simp
  then obtain v where v: "validate_graph_impl (\<lambda>_. None) None default_graph = Some v" "gr_errors v = demo_errors"
    by (auto split: option.splits)
  from validation_report_consistent [OF v(1)] v show ?thesis by (auto simp: demo_errors_def)
qed

section \<open>Two rules that do not do what their text says\<close>

definition with_edges :: "edge_spec list \<Rightarrow> graph_spec" where
  "with_edges es = default_graph\<lparr>graph_edges := es\<rparr>"

text \<open>The rule on producer-owned edges depends on the order in which the edges are written. Take two edges from one source endpoint, both
  valid by themselves, of which exactly one is owned by the producer: written first it is accepted, written second it is refused as one
  of multiple producer-owned edges.
\<close>

lemma producer_owner_rule_depends_on_order:
  assumes "edge_valid (set (cs_ids cs)) (map_of (cs_descriptors cs)) e" and "edge_valid (set (cs_ids cs)) (map_of (cs_descriptors cs)) e'"
    and "edge_id e \<noteq> edge_id e'" and "edge_from e = edge_from e'"
    and "ep_owner (edge_policy e) = ''producer''" and "ep_owner (edge_policy e') \<noteq> ''producer''" and "gr_ok r"
  shows "gr_ok (ed_report (check_edges cs (with_edges [e, e']) r)) \<and> \<not> gr_ok (ed_report (check_edges cs (with_edges [e', e]) r))"
  unfolding check_edges_def check_edges_fold using assms by (simp add: with_edges_def owner_order_def)

definition rule_scan :: component_scan where
  "rule_scan = \<lparr>cs_ids = [''a'', ''b''],
     cs_descriptors = [(''a'', \<lparr>cd_type = ''worker'', cd_role = RProcessing, cd_config_fields = [], cd_inputs = [], cd_outputs = [],
       cd_scheduler_lane = []\<rparr>)], cs_has_input_boundary = False, cs_has_output_boundary = False, cs_has_duplicate = False,
     cs_report = empty_report\<rparr>"

definition rule_edge :: "string \<Rightarrow> string \<Rightarrow> string \<Rightarrow> edge_spec" where
  "rule_edge eid src own = \<lparr>edge_id = eid, edge_from = src, edge_to = ''b.in'', edge_kind_of = KImmediate, has_kind = True,
     invalid_kind = [], edge_policy = default_edge_policy\<lparr>ep_owner := own\<rparr>\<rparr>"

lemma producer_owner_rule_depends_on_order_witness:
  "gr_ok (ed_report (check_edges rule_scan (with_edges [rule_edge ''e'' ''a'' ''producer'', rule_edge ''f'' ''a'' ''runtime'']) empty_report)) \<and>
   \<not> gr_ok (ed_report (check_edges rule_scan (with_edges [rule_edge ''f'' ''a'' ''runtime'', rule_edge ''e'' ''a'' ''producer'']) empty_report))"
proof (rule producer_owner_rule_depends_on_order)
  have ids: "set (cs_ids rule_scan) = {''a'', ''b''}" by (simp add: rule_scan_def)
  have "port_of cd_outputs (map_of (cs_descriptors rule_scan)) ''a'' = None" "port_of cd_inputs (map_of (cs_descriptors rule_scan)) ''b.in'' = None"
    "component_id_from_endpoint ''a'' = ''a''" "component_id_from_endpoint ''b.in'' = ''b''" by code_simp+
  then have "edge_valid (set (cs_ids rule_scan)) (map_of (cs_descriptors rule_scan)) (rule_edge eid ''a'' own)"
    if "eid \<noteq> []" "is_allowed_owner own" for eid own
    using that by (simp add: edge_valid_def edge_ports_valid_def edge_policy_valid_def rule_edge_def ids default_edge_policy_def
        is_allowed_channel_type_def is_allowed_drop_policy_def is_backpressure_drop_policy_def is_timestamp_domain_value_def
        parse_timestamp_domain_value_def is_allowed_copy_policy_def is_allowed_readers_def)
  then show "edge_valid (set (cs_ids rule_scan)) (map_of (cs_descriptors rule_scan)) (rule_edge ''e'' ''a'' ''producer'')"
    "edge_valid (set (cs_ids rule_scan)) (map_of (cs_descriptors rule_scan)) (rule_edge ''f'' ''a'' ''runtime'')"
    by (simp_all add: is_allowed_owner_def)
qed (simp_all add: rule_edge_def empty_report_def)

definition edge_diagnostic_codes :: "edge_spec \<Rightarrow> string list" where
  "edge_diagnostic_codes e = map gd_code (gr_diagnostics (ed_report (check_edges rule_scan (with_edges [e]) empty_report)))"

text \<open>
  An edge whose source component or whose output port is not declared is reported, but under the generic code
  \<^verbatim>\<open>graph_validation_error\<close>: the texts of the two messages do not contain what \<^verbatim>\<open>diagnostic_code_for\<close> looks for, so that the
  documented codes \<^verbatim>\<open>unknown_component\<close> and \<^verbatim>\<open>unknown_port\<close> are not used for them.
\<close>

lemma missing_references_unclassified:
  "edge_diagnostic_codes (rule_edge ''e'' ''zz.out'' ''runtime'') = [''graph_validation_error''] \<and>
   edge_diagnostic_codes (rule_edge ''e'' ''a.out'' ''runtime'') = [''graph_validation_error'']"
  by (rule conjI; code_simp)

end
