(* ===== verification/Trigger_Policy.thy ===== *)
theory Trigger_Policy
  imports Channel_Bus Graph_Model
begin

text \<open>
  The trigger readiness engine of \<^verbatim>\<open>src/trigger_policy.cpp\<close>: it drains the channels of a component's trigger inputs into pending
  queues and turns pending messages into invocations according to the trigger policy. The engine's maps are \<open>trigger_engine\<close>; the bus
  is \<open>None\<close> where the code has a null pointer. \<open>None\<close> as a result is undefined behaviour of the code (\<^verbatim>\<open>pop_front\<close> on an empty
  deque, overflow of a 64-bit subtraction) or an exception of the bus. Time points are nanoseconds. An empty queue that
  \<^verbatim>\<open>pending[input]\<close> inserts for a missing input is left out: a missing queue and an empty one read the same everywhere.
  Cancellation tokens and stop callbacks, which are only copied from the context into the invocation, are left out.
\<close>

section \<open>Invocations\<close>

datatype event_kind =
    EvMessage | EvTimer | EvRequest | EvActionGoal | EvActionCancel | EvFutureReady | EvTaskReady | EvLifecycle | EvHealth | EvManual

datatype trigger_kind =
    TrOnMessage | TrOnTick | TrAllInputs | TrAnyInput | TrTimeSync | TrBatch | TrRequest | TrTaskReady | TrManual | TrWatermark
  | TrCondition | TrDebounce | TrRateLimit

record invocation =
  inv_event :: event_kind
  inv_trigger :: trigger_kind
  inv_port :: string
  inv_channel_id :: string
  inv_correlation_id :: string
  inv_metadata :: invocation_metadata
  inv_payload :: payload_ptr
  inv_ready_inputs :: "string list"
  inv_payloads_by_port :: "(string, payload_ptr) smap"
  inv_batch_payloads :: "payload_ptr list"
  inv_scheduled_at :: int
  inv_started_at :: int
  inv_received_at :: int
  inv_published_at :: int
  inv_sequence :: nat
  inv_deadline_missed :: bool
  inv_event_timestamp :: "event_timestamp option"
  inv_budget :: int
  inv_lane :: string
  inv_priority :: string

record tick_context =
  tc_sequence :: nat
  tc_scheduled_at :: int
  tc_started_at :: int

definition event_kind_for_component :: "component_node_spec \<Rightarrow> event_kind" where
  "event_kind_for_component c =
     (if tp_type (trigger_policy c) = ''request'' then EvRequest
      else if tp_type (trigger_policy c) = ''task_ready'' then EvTaskReady
      else
        (case find (\<lambda>s. es_type s \<in> {''request'', ''task_ready'', ''future_ready''}) (event_sources c) of
           None \<Rightarrow> EvMessage
         | Some s \<Rightarrow>
             if es_type s = ''request'' then EvRequest else if es_type s = ''task_ready'' then EvTaskReady else EvFutureReady))"

definition timer_period_ms_for :: "component_node_spec \<Rightarrow> int option" where
  "timer_period_ms_for c = map_option es_period_ms (find (\<lambda>s. es_type s = ''timer'') (event_sources c))"

definition trigger_kind_for_policy :: "trigger_policy_spec \<Rightarrow> event_kind \<Rightarrow> trigger_kind" where
  "trigger_kind_for_policy p ev =
     (if ev = EvTimer then TrOnTick
      else if tp_type p = ''all_inputs'' then TrAllInputs
      else if tp_type p = ''any_input'' \<or> tp_type p = ''on_event'' then TrAnyInput
      else if tp_type p = ''time_sync'' then TrTimeSync
      else if tp_type p = ''batch'' then TrBatch
      else if tp_type p = ''request'' then TrRequest
      else if tp_type p = ''task_ready'' then TrTaskReady
      else if tp_type p = ''watermark'' then TrWatermark
      else if tp_type p = ''condition'' then TrCondition
      else if tp_type p = ''debounce'' then TrDebounce
      else if tp_type p = ''rate_limit'' then TrRateLimit
      else TrManual)"

fun trigger_kind_name :: "trigger_kind \<Rightarrow> string" where
  "trigger_kind_name TrOnMessage = ''on_message''"
| "trigger_kind_name TrOnTick = ''on_tick''"
| "trigger_kind_name TrAllInputs = ''all_inputs''"
| "trigger_kind_name TrAnyInput = ''any_input''"
| "trigger_kind_name TrTimeSync = ''time_sync''"
| "trigger_kind_name TrBatch = ''batch''"
| "trigger_kind_name TrRequest = ''request''"
| "trigger_kind_name TrTaskReady = ''task_ready''"
| "trigger_kind_name TrManual = ''manual''"
| "trigger_kind_name TrWatermark = ''watermark''"
| "trigger_kind_name TrCondition = ''condition''"
| "trigger_kind_name TrDebounce = ''debounce''"
| "trigger_kind_name TrRateLimit = ''rate_limit''"

text \<open>\<open>lane\<close> is the id of the scheduler lane, the only field of its configuration that is read.\<close>

definition event_invocation_for :: "event_kind \<Rightarrow> tick_context \<Rightarrow> component_node_spec \<Rightarrow> string \<Rightarrow> invocation" where
  "event_invocation_for ev tc c lane =
     (let tr = trigger_kind_for_policy (trigger_policy c) ev
      in \<lparr>inv_event = ev, inv_trigger = tr, inv_port = [], inv_channel_id = [], inv_correlation_id = [],
          inv_metadata = empty_metadata\<lparr>epoch_id := tc_sequence tc, invocation_metadata.trigger_kind := trigger_kind_name tr\<rparr>,
          inv_payload = None, inv_ready_inputs = [], inv_payloads_by_port = [], inv_batch_payloads = [],
          inv_scheduled_at = tc_scheduled_at tc, inv_started_at = tc_started_at tc, inv_received_at = 0, inv_published_at = 0,
          inv_sequence = tc_sequence tc, inv_deadline_missed = False, inv_event_timestamp = None,
          inv_budget = ex_budget_ms (execution c), inv_lane = lane, inv_priority = ex_priority (execution c)\<rparr>)"

definition timer_invocation_for :: "tick_context \<Rightarrow> component_node_spec \<Rightarrow> string \<Rightarrow> invocation" where
  "timer_invocation_for tc c lane = event_invocation_for EvTimer tc c lane"

definition add_message :: "tick_context \<Rightarrow> trigger_kind \<Rightarrow> string \<times> channel_message \<Rightarrow> invocation \<Rightarrow> invocation" where
  "add_message tc tr pm iv =
     (let port = fst pm; m = snd pm; mid = metadata_id (msg_channel_id m) (msg_sequence m);
          iv1 =
            (if inv_payload iv = None then
               (let md = (msg_metadata m)\<lparr>epoch_id := tc_sequence tc, invocation_metadata.trigger_kind := trigger_kind_name tr\<rparr>;
                    md1 = (if correlation_id md = [] then md\<lparr>correlation_id := mid\<rparr> else md);
                    md2 = (if causation_id md1 = [] then md1\<lparr>causation_id := mid\<rparr> else md1);
                    md3 = (if transaction_id md2 = [] then md2\<lparr>transaction_id := correlation_id md2\<rparr> else md2)
                in iv\<lparr>inv_port := port, inv_channel_id := msg_channel_id m, inv_metadata := md3, inv_correlation_id := correlation_id md3,
                       inv_payload := msg_payload m, inv_received_at := msg_received_at m, inv_published_at := msg_published_at m,
                       inv_deadline_missed := msg_deadline_missed m, inv_event_timestamp := msg_event_timestamp m\<rparr>)
             else iv)
      in iv1\<lparr>inv_ready_inputs := inv_ready_inputs iv1 @ [port],
              inv_payloads_by_port := smap_put port (msg_payload m) (inv_payloads_by_port iv1),
              inv_batch_payloads := inv_batch_payloads iv1 @ [msg_payload m]\<rparr>)"

definition invocation_from_messages ::
    "event_kind \<Rightarrow> trigger_kind \<Rightarrow> tick_context \<Rightarrow> component_node_spec \<Rightarrow> string \<Rightarrow> (string \<times> channel_message) list \<Rightarrow> invocation" where
  "invocation_from_messages ev tr tc c lane ms =
     (let iv = event_invocation_for ev tc c lane
      in fold (add_message tc tr) ms
           (iv\<lparr>inv_trigger := tr, inv_metadata := (inv_metadata iv)\<lparr>invocation_metadata.trigger_kind := trigger_kind_name tr\<rparr>\<rparr>))"

section \<open>Pending messages\<close>

type_synonym pending_messages = "(string, channel_message list) smap"

record trigger_runtime_metrics =
  ready_count :: nat
  suppressed_count :: nat
  coalesced_count :: nat
  timeout_drop_count :: nat
  batch_flush_count :: nat
  time_sync_drop_count :: nat
  late_drop_count :: nat
  pending_drop_count :: nat
  condition_suppressed_count :: nat
  rate_limit_suppressed_count :: nat

definition zero_trigger_metrics :: trigger_runtime_metrics where
  "zero_trigger_metrics =
     \<lparr>ready_count = 0, suppressed_count = 0, coalesced_count = 0, timeout_drop_count = 0, batch_flush_count = 0,
      time_sync_drop_count = 0, late_drop_count = 0, pending_drop_count = 0, condition_suppressed_count = 0,
      rate_limit_suppressed_count = 0\<rparr>"

record trigger_engine =
  te_pending :: "(string, pending_messages) smap"
  te_last_invoked :: "(string, int) smap"
  te_watermarks :: "(string, (timestamp_domain, int) smap) smap"
  te_last_stats :: "(string, trigger_runtime_metrics) smap"

definition empty_trigger_engine :: trigger_engine where
  "empty_trigger_engine = \<lparr>te_pending = [], te_last_invoked = [], te_watermarks = [], te_last_stats = []\<rparr>"

definition take_last_stats :: "string \<Rightarrow> trigger_engine \<Rightarrow> trigger_runtime_metrics \<times> trigger_engine" where
  "take_last_stats cid te =
     (case map_of (te_last_stats te) cid of
        None \<Rightarrow> (zero_trigger_metrics, te)
      | Some st \<Rightarrow> (st, te\<lparr>te_last_stats := smap_put cid zero_trigger_metrics (te_last_stats te)\<rparr>))"

abbreviation pending_queue :: "pending_messages \<Rightarrow> string \<Rightarrow> channel_message list" where
  "pending_queue \<equiv> smap_get []"

text \<open>
  \<^verbatim>\<open>drain_inputs\<close>: \<open>now k i\<close> is the clock reading of the bus at its \<open>i\<close>-th channel while the \<open>k\<close>-th input is drained.
\<close>

fun drain_ports ::
    "(nat \<Rightarrow> nat \<Rightarrow> int) \<Rightarrow> nat \<Rightarrow> string \<Rightarrow> string list \<Rightarrow> pending_messages \<Rightarrow> channel_bus \<Rightarrow>
     (pending_messages \<times> channel_bus \<times> pending_events) option" where
  "drain_ports now k cid [] pend b = Some (pend, b, [])"
| "drain_ports now k cid (i # is) pend b =
     (case drain_for_component_port (now k) cid i 0 b of
        None \<Rightarrow> None
      | Some (ms, b1, ev) \<Rightarrow>
          (case drain_ports now (Suc k) cid is (smap_put i (pending_queue pend i @ ms) pend) b1 of
             None \<Rightarrow> None
           | Some (pend', b', ev') \<Rightarrow> Some (pend', b', ev @ ev')))"

definition drain_inputs ::
    "(nat \<Rightarrow> nat \<Rightarrow> int) \<Rightarrow> component_node_spec \<Rightarrow> pending_messages \<Rightarrow> channel_bus option \<Rightarrow>
     (pending_messages \<times> channel_bus option \<times> pending_events) option" where
  "drain_inputs now c pend bus =
     (case bus of
        None \<Rightarrow> Some (pend, None, [])
      | Some b \<Rightarrow>
          map_option (\<lambda>(pend', b', ev). (pend', Some b', ev)) (drain_ports now 0 (comp_id c) (trigger_policy_inputs_for c) pend b))"

definition timed_out :: "component_node_spec \<Rightarrow> int \<Rightarrow> channel_message \<Rightarrow> bool" where
  "timed_out c now m \<longleftrightarrow> now - msg_received_at m > tp_max_latency_ms (trigger_policy c) * 1000000"

definition prune_timed_out_messages :: "component_node_spec \<Rightarrow> int \<Rightarrow> pending_messages \<Rightarrow> nat \<times> pending_messages" where
  "prune_timed_out_messages c now pend =
     (if tp_max_latency_ms (trigger_policy c) \<le> 0 then (0, pend)
      else (sum_list (map (\<lambda>(port, q). length (filter (timed_out c now) q)) pend),
            smap_map (\<lambda>port q. filter (\<lambda>m. \<not> timed_out c now m) q) pend))"

definition kTriggerPendingCapacityCushion :: nat where
  "kTriggerPendingCapacityCushion = 1"

definition pending_limit :: "component_node_spec \<Rightarrow> channel_bus option \<Rightarrow> string \<Rightarrow> nat option" where
  "pending_limit c bus port =
     map_option
       (\<lambda>cap. let limit = max 1 cap;
                  limit1 = (if tp_batch_size (trigger_policy c) > 0 then max limit (nat (tp_batch_size (trigger_policy c))) else limit)
              in if tp_type (trigger_policy c) = ''debounce'' \<or> tp_coalesce (trigger_policy c) then 1
                 else limit1 + kTriggerPendingCapacityCushion)
       (case bus of None \<Rightarrow> Some 1 | Some b \<Rightarrow> configured_capacity_for_component_port b (comp_id c) port)"

fun enforce_pending_bounds ::
    "component_node_spec \<Rightarrow> channel_bus option \<Rightarrow> pending_messages \<Rightarrow> (nat \<times> pending_messages) option" where
  "enforce_pending_bounds c bus [] = Some (0, [])"
| "enforce_pending_bounds c bus ((port, q) # pend) =
     (case pending_limit c bus port of
        None \<Rightarrow> None
      | Some limit \<Rightarrow>
          map_option (\<lambda>(n, pend'). (length q - limit + n, (port, drop (length q - limit) q) # pend')) (enforce_pending_bounds c bus pend))"

definition rate_limited :: "component_node_spec \<Rightarrow> int \<Rightarrow> trigger_engine \<Rightarrow> bool" where
  "rate_limited c now te \<longleftrightarrow> tp_min_interval_ms (trigger_policy c) > 0 \<and>
     (case map_of (te_last_invoked te) (comp_id c) of
        None \<Rightarrow> False
      | Some t \<Rightarrow> now - t < tp_min_interval_ms (trigger_policy c) * 1000000)"

definition record_invocation :: "component_node_spec \<Rightarrow> int \<Rightarrow> trigger_engine \<Rightarrow> trigger_engine" where
  "record_invocation c now te = te\<lparr>te_last_invoked := smap_put (comp_id c) now (te_last_invoked te)\<rparr>"

section \<open>Front messages\<close>

fun front_messages_for_inputs :: "string list \<Rightarrow> pending_messages \<Rightarrow> (string \<times> channel_message) list option" where
  "front_messages_for_inputs [] pend = Some []"
| "front_messages_for_inputs (i # is) pend =
     (case pending_queue pend i of
        [] \<Rightarrow> None
      | m # ms \<Rightarrow> map_option (\<lambda>rest. (i, m) # rest) (front_messages_for_inputs is pend))"

text \<open>\<^verbatim>\<open>pending[input].pop_front()\<close>, undefined on an empty queue.\<close>

definition pop_pending :: "string \<Rightarrow> pending_messages \<Rightarrow> pending_messages option" where
  "pop_pending i pend = (case pending_queue pend i of [] \<Rightarrow> None | m # ms \<Rightarrow> Some (smap_put i ms pend))"

fun consume_front_messages :: "string list \<Rightarrow> pending_messages \<Rightarrow> pending_messages option" where
  "consume_front_messages [] pend = Some pend"
| "consume_front_messages (i # is) pend =
     (case pop_pending i pend of None \<Rightarrow> None | Some pend' \<Rightarrow> consume_front_messages is pend')"

definition messages_have_comparable_timestamps :: "(string \<times> channel_message) list \<Rightarrow> bool" where
  "messages_have_comparable_timestamps ms =
     (case ms of
        [] \<Rightarrow> False
      | pm # _ \<Rightarrow>
          (case msg_event_timestamp (snd pm) of
             None \<Rightarrow> False
           | Some ts \<Rightarrow>
               list_all (\<lambda>x. case msg_event_timestamp (snd x) of None \<Rightarrow> False | Some t \<Rightarrow> domain t = domain ts) ms))"

definition event_timestamp_ns :: "channel_message \<Rightarrow> int" where
  "event_timestamp_ns m = (case msg_event_timestamp m of None \<Rightarrow> 0 | Some t \<Rightarrow> nanoseconds t)"

definition timestamp_slop_ns :: "trigger_policy_spec \<Rightarrow> int" where
  "timestamp_slop_ns p = tp_sync_slop_ms p * 1000000"

definition watermark_lateness_ns :: "trigger_policy_spec \<Rightarrow> int" where
  "watermark_lateness_ns p = tp_watermark_lateness_ms p * 1000000"

text \<open>A subtraction of 64-bit signed values; an overflow is undefined.\<close>

definition i64_sub :: "int \<Rightarrow> int \<Rightarrow> int option" where
  "i64_sub a b = (if - (2 ^ 63) \<le> a - b \<and> a - b < 2 ^ 63 then Some (a - b) else None)"

section \<open>Policies\<close>

text \<open>
  Each \<^verbatim>\<open>collect_*\<close> function returns the invocations and the pending queues that remain; the counters of the statistics it changes are
  part of the result where it changes some.
\<close>

function any_loop ::
    "bool \<Rightarrow> (string \<Rightarrow> channel_message \<Rightarrow> invocation) \<Rightarrow> pending_messages \<Rightarrow> invocation list \<times> pending_messages" where
  "any_loop single mk [] = ([], [])"
| "any_loop single mk ((port, []) # pend) = (let (ivs, pend') = any_loop single mk pend in (ivs, (port, []) # pend'))"
| "any_loop single mk ((port, m # ms) # pend) =
     (if single then ([mk port m], (port, ms) # pend)
      else let (ivs, pend') = any_loop single mk ((port, ms) # pend) in (mk port m # ivs, pend'))"
  by pat_completeness auto
termination
  by (relation "measure (\<lambda>(single, mk, pend). sum_list (map (\<lambda>(port, q). Suc (length q)) pend))") auto

definition collect_any_input ::
    "tick_context \<Rightarrow> component_node_spec \<Rightarrow> string \<Rightarrow> pending_messages \<Rightarrow> invocation list \<times> pending_messages" where
  "collect_any_input tc c lane pend =
     (let ev = event_kind_for_component c
      in any_loop (tp_min_interval_ms (trigger_policy c) > 0)
           (\<lambda>port m. invocation_from_messages ev (trigger_kind_for_policy (trigger_policy c) ev) tc c lane [(port, m)]) pend)"

definition collect_coalesced_any_input ::
    "tick_context \<Rightarrow> component_node_spec \<Rightarrow> string \<Rightarrow> pending_messages \<Rightarrow> invocation list \<times> pending_messages" where
  "collect_coalesced_any_input tc c lane pend =
     (let ms = map (\<lambda>(port, q). (port, List.last q)) (filter (\<lambda>(port, q). q \<noteq> []) pend);
          pend' = smap_map (\<lambda>port q. []) pend; ev = event_kind_for_component c
      in if ms = [] then ([], pend')
         else ([invocation_from_messages ev (trigger_kind_for_policy (trigger_policy c) ev) tc c lane ms], pend'))"

definition collect_all_inputs ::
    "tick_context \<Rightarrow> component_node_spec \<Rightarrow> string \<Rightarrow> pending_messages \<Rightarrow> (invocation list \<times> pending_messages) option" where
  "collect_all_inputs tc c lane pend =
     (let inputs = trigger_policy_inputs_for c
      in case front_messages_for_inputs inputs pend of
           None \<Rightarrow> Some ([], pend)
         | Some ms \<Rightarrow>
             map_option (\<lambda>pend'.
                 ([invocation_from_messages EvMessage (trigger_kind_for_policy (trigger_policy c) EvMessage) tc c lane ms], pend'))
               (consume_front_messages inputs pend))"

definition min_item :: "(string \<times> channel_message) list \<Rightarrow> string \<times> channel_message" where
  "min_item ms = fold (\<lambda>x best. if event_timestamp_ns (snd x) < event_timestamp_ns (snd best) then x else best) ms (hd ms)"

definition max_item :: "(string \<times> channel_message) list \<Rightarrow> string \<times> channel_message" where
  "max_item ms = fold (\<lambda>x best. if event_timestamp_ns (snd x) > event_timestamp_ns (snd best) then x else best) ms (hd ms)"

lemma fold_best_mem: "b \<in> S \<Longrightarrow> set xs \<subseteq> S \<Longrightarrow> fold (\<lambda>x best. if P x best then x else best) xs b \<in> S"
  by (induction xs arbitrary: b) auto

lemma min_item_mem: "ms \<noteq> [] \<Longrightarrow> min_item ms \<in> set ms"
  unfolding min_item_def by (rule fold_best_mem) auto

lemma max_item_mem: "ms \<noteq> [] \<Longrightarrow> max_item ms \<in> set ms"
  unfolding max_item_def by (rule fold_best_mem) auto

definition inputs_total :: "string list \<Rightarrow> pending_messages \<Rightarrow> nat" where
  "inputs_total inputs pend = sum_list (map (\<lambda>i. length (pending_queue pend i)) inputs)"

lemma front_messages_inputs: "front_messages_for_inputs is pend = Some ms \<Longrightarrow> map fst ms = is"
  by (induction "is" arbitrary: ms) (auto split: list.splits)

lemma sum_list_less: "(\<And>x. x \<in> set xs \<Longrightarrow> f x \<le> (g x :: nat)) \<Longrightarrow> y \<in> set xs \<Longrightarrow> f y < g y \<Longrightarrow> sum_list (map f xs) < sum_list (map g xs)"
proof (induction xs)
  case (Cons x xs)
  show ?case
  proof (cases "f x < g x")
    case True
    with Cons.prems show ?thesis by (simp add: add_less_le_mono sum_list_mono)
  next
    case False
    with Cons show ?thesis by (auto simp: add_le_less_mono)
  qed
qed simp

lemma pop_pending_less: "pop_pending i pend = Some pend' \<Longrightarrow> i \<in> set is \<Longrightarrow> inputs_total is pend' < inputs_total is pend"
  unfolding inputs_total_def pop_pending_def
  by (rule sum_list_less [of _ _ _ i]) (auto split: list.splits)

function time_sync_loop ::
    "string list \<Rightarrow> int \<Rightarrow> pending_messages \<Rightarrow> nat \<Rightarrow> ((string \<times> channel_message) list option \<times> pending_messages \<times> nat) option" where
  "time_sync_loop inputs slop pend drops =
     (case front_messages_for_inputs inputs pend of
        None \<Rightarrow> Some (None, pend, drops)
      | Some ms \<Rightarrow>
          if slop \<le> 0 \<or> \<not> messages_have_comparable_timestamps ms
          then map_option (\<lambda>pend'. (Some ms, pend', drops)) (consume_front_messages inputs pend)
          else
            (case i64_sub (event_timestamp_ns (snd (max_item ms))) (event_timestamp_ns (snd (min_item ms))) of
               None \<Rightarrow> None
             | Some d \<Rightarrow>
                 if d \<le> slop then map_option (\<lambda>pend'. (Some ms, pend', drops)) (consume_front_messages inputs pend)
                 else
                   (case pop_pending (fst (min_item ms)) pend of
                      None \<Rightarrow> None
                    | Some pend' \<Rightarrow> time_sync_loop inputs slop pend' (Suc drops))))"
  by pat_completeness auto
termination
proof (relation "measure (\<lambda>(inputs, slop, pend, drops). inputs_total inputs pend)", goal_cases)
  case (2 inputs slop pend drops ms d pend')
  then have "ms \<noteq> []" by (auto simp: messages_have_comparable_timestamps_def)
  then have "fst (min_item ms) \<in> set inputs"
    using min_item_mem front_messages_inputs [OF 2(1)] by (metis image_eqI list.set_map)
  from pop_pending_less [OF 2(5) this] show ?case by simp
qed simp

definition collect_time_sync ::
    "tick_context \<Rightarrow> component_node_spec \<Rightarrow> string \<Rightarrow> pending_messages \<Rightarrow> trigger_runtime_metrics \<Rightarrow>
     (invocation list \<times> pending_messages \<times> trigger_runtime_metrics) option" where
  "collect_time_sync tc c lane pend st =
     map_option (\<lambda>(ms, pend', n).
         ((case ms of None \<Rightarrow> [] | Some ms \<Rightarrow> [invocation_from_messages EvMessage TrTimeSync tc c lane ms]), pend',
          st\<lparr>time_sync_drop_count := time_sync_drop_count st + n\<rparr>))
       (time_sync_loop (trigger_policy_inputs_for c) (timestamp_slop_ns (trigger_policy c)) pend 0)"

fun watermark_queue ::
    "int \<Rightarrow> channel_message list \<Rightarrow> (timestamp_domain, int) smap \<Rightarrow> (channel_message list \<times> (timestamp_domain, int) smap \<times> nat) option" where
  "watermark_queue late [] wm = Some ([], wm, 0)"
| "watermark_queue late (m # ms) wm =
     (case msg_event_timestamp m of
        None \<Rightarrow> map_option (\<lambda>(q, wm', n). (m # q, wm', n)) (watermark_queue late ms wm)
      | Some t \<Rightarrow>
          (case map_of wm (domain t) of
             None \<Rightarrow> map_option (\<lambda>(q, wm', n). (m # q, wm', n)) (watermark_queue late ms (smap_put (domain t) (nanoseconds t) wm))
           | Some w \<Rightarrow>
               (case i64_sub w late of
                  None \<Rightarrow> None
                | Some bound \<Rightarrow>
                    if nanoseconds t < bound
                    then map_option (\<lambda>(q, wm', n). (q, wm', Suc n)) (watermark_queue late ms wm)
                    else map_option (\<lambda>(q, wm', n). (m # q, wm', n))
                           (watermark_queue late ms (if nanoseconds t > w then smap_put (domain t) (nanoseconds t) wm else wm)))))"

fun watermark_ports ::
    "int \<Rightarrow> pending_messages \<Rightarrow> (timestamp_domain, int) smap \<Rightarrow> (pending_messages \<times> (timestamp_domain, int) smap \<times> nat) option" where
  "watermark_ports late [] wm = Some ([], wm, 0)"
| "watermark_ports late ((port, q) # pend) wm =
     (case watermark_queue late q wm of
        None \<Rightarrow> None
      | Some (q', wm1, n) \<Rightarrow> map_option (\<lambda>(pend', wm', k). ((port, q') # pend', wm', n + k)) (watermark_ports late pend wm1))"

definition collect_watermark ::
    "tick_context \<Rightarrow> component_node_spec \<Rightarrow> string \<Rightarrow> pending_messages \<Rightarrow> (timestamp_domain, int) smap \<Rightarrow> trigger_runtime_metrics \<Rightarrow>
     (invocation list \<times> pending_messages \<times> (timestamp_domain, int) smap \<times> trigger_runtime_metrics) option" where
  "collect_watermark tc c lane pend wm st =
     map_option (\<lambda>(pend1, wm', n).
         (let (ivs, pend') = collect_any_input tc c lane pend1 in (ivs, pend', wm', st\<lparr>late_drop_count := late_drop_count st + n\<rparr>)))
       (watermark_ports (watermark_lateness_ns (trigger_policy c)) pend wm)"

definition missing_timestamps :: "(string \<times> channel_message) list \<Rightarrow> string list" where
  "missing_timestamps ms = map fst (filter (\<lambda>x. msg_event_timestamp (snd x) = None) ms)"

lemma consume_front_le: "consume_front_messages js pend = Some pend' \<Longrightarrow> length (pending_queue pend' i) \<le> length (pending_queue pend i)"
  by (induction js arbitrary: pend) (fastforce simp: pop_pending_def split: option.splits list.splits if_splits)+

lemma consume_front_less:
  assumes "consume_front_messages js pend = Some pend'" and "js \<noteq> []" and "set js \<subseteq> set is"
  shows "inputs_total is pend' < inputs_total is pend"
proof -
  obtain j js' where js: "js = j # js'" using assms(2) by (cases js) auto
  then obtain p1 where p1: "pop_pending j pend = Some p1" "consume_front_messages js' p1 = Some pend'"
    using assms(1) by (auto split: option.splits)
  have "inputs_total is pend' \<le> inputs_total is p1"
    unfolding inputs_total_def by (rule sum_list_mono) (rule consume_front_le [OF p1(2)])
  also have "\<dots> < inputs_total is pend" using pop_pending_less [OF p1(1)] assms(3) js by simp
  finally show ?thesis .
qed

function condition_loop ::
    "string list \<Rightarrow> pending_messages \<Rightarrow> nat \<Rightarrow> ((string \<times> channel_message) list option \<times> pending_messages \<times> nat) option" where
  "condition_loop inputs pend drops =
     (case front_messages_for_inputs inputs pend of
        None \<Rightarrow> Some (None, pend, drops)
      | Some ms \<Rightarrow>
          if missing_timestamps ms = []
          then map_option (\<lambda>pend'. (Some ms, pend', drops)) (consume_front_messages inputs pend)
          else
            (case consume_front_messages (missing_timestamps ms) pend of
               None \<Rightarrow> None
             | Some pend' \<Rightarrow> condition_loop inputs pend' (drops + length (missing_timestamps ms))))"
  by pat_completeness auto
termination
proof (relation "measure (\<lambda>(inputs, pend, drops). inputs_total inputs pend)", goal_cases)
  case (2 inputs pend drops ms pend')
  have "set (missing_timestamps ms) \<subseteq> set inputs"
    using front_messages_inputs [OF 2(1)] by (force simp: missing_timestamps_def)
  from consume_front_less [OF 2(3,2) this] show ?case by simp
qed simp

definition suppress :: "trigger_runtime_metrics \<Rightarrow> trigger_runtime_metrics" where
  "suppress st = st\<lparr>condition_suppressed_count := condition_suppressed_count st + 1\<rparr>"

definition collect_condition ::
    "tick_context \<Rightarrow> component_node_spec \<Rightarrow> string \<Rightarrow> pending_messages \<Rightarrow> trigger_runtime_metrics \<Rightarrow>
     (invocation list \<times> pending_messages \<times> trigger_runtime_metrics) option" where
  "collect_condition tc c lane pend st =
     (let condition = (if tp_condition (trigger_policy c) = [] then ''all_inputs_ready'' else tp_condition (trigger_policy c))
      in if condition = ''any_input_ready'' then
           (let (ivs, pend') = collect_any_input tc c lane pend in Some (ivs, pend', if ivs = [] then suppress st else st))
         else if condition = ''all_inputs_ready'' then
           map_option (\<lambda>(ivs, pend'). (ivs, pend', if ivs = [] then suppress st else st)) (collect_all_inputs tc c lane pend)
         else if condition = ''event_timestamp_present'' then
           (if trigger_policy_inputs_for c = [] then Some ([], pend, suppress st)
            else
              map_option (\<lambda>(ms, pend', n).
                  (let st' = st\<lparr>pending_drop_count := pending_drop_count st + n\<rparr>
                   in case ms of
                        None \<Rightarrow> ([], pend', suppress st')
                      | Some ms \<Rightarrow> ([invocation_from_messages EvMessage TrCondition tc c lane ms], pend', st')))
                (condition_loop (trigger_policy_inputs_for c) pend 0))
         else Some ([], pend, suppress st))"

definition oldest_pending_batch_time :: "string list \<Rightarrow> pending_messages \<Rightarrow> int option" where
  "oldest_pending_batch_time inputs pend =
     fold (\<lambda>i oldest.
         case pending_queue pend i of
           [] \<Rightarrow> oldest
         | m # _ \<Rightarrow> (case oldest of None \<Rightarrow> Some (msg_received_at m)
                     | Some t \<Rightarrow> if msg_received_at m < t then Some (msg_received_at m) else oldest)) inputs None"

definition batch_target :: "tick_context \<Rightarrow> component_node_spec \<Rightarrow> pending_messages \<Rightarrow> nat" where
  "batch_target tc c pend =
     (let p = trigger_policy c; inputs = trigger_policy_inputs_for c; available = inputs_total inputs pend
      in if available = 0 then 0
         else if tp_batch_size p > 0 \<and> available \<ge> nat (tp_batch_size p) then nat (tp_batch_size p)
         else if tp_batch_window_ms p > 0 then
           (case oldest_pending_batch_time inputs pend of
              None \<Rightarrow> 0
            | Some t \<Rightarrow>
                if tc_started_at tc - t \<ge> tp_batch_window_ms p * 1000000
                then (if tp_batch_size p > 0 then min available (nat (tp_batch_size p)) else available)
                else 0)
         else 0)"

text \<open>The loop that moves messages into the batch, input by input, until it has \<open>n\<close> of them.\<close>

fun take_batch_messages :: "nat \<Rightarrow> string list \<Rightarrow> pending_messages \<Rightarrow> (string \<times> channel_message) list \<times> pending_messages" where
  "take_batch_messages n [] pend = ([], pend)"
| "take_batch_messages n (i # is) pend =
     (let q = pending_queue pend i; taken = map (Pair i) (take n q);
          (rest, pend') = take_batch_messages (n - length taken) is (smap_put i (drop n q) pend)
      in (taken @ rest, pend'))"

definition collect_batch ::
    "tick_context \<Rightarrow> component_node_spec \<Rightarrow> string \<Rightarrow> pending_messages \<Rightarrow> trigger_runtime_metrics \<Rightarrow>
     invocation list \<times> pending_messages \<times> trigger_runtime_metrics" where
  "collect_batch tc c lane pend st =
     (if batch_target tc c pend = 0 then ([], pend, st)
      else
        (let (ms, pend') = take_batch_messages (batch_target tc c pend) (trigger_policy_inputs_for c) pend
         in if ms = [] then ([], pend', st)
            else ([invocation_from_messages EvMessage TrBatch tc c lane ms], pend', st\<lparr>batch_flush_count := batch_flush_count st + 1\<rparr>)))"

section \<open>The engine\<close>

text \<open>The chain of policy types: the invocations, the pending queues, the watermarks of the component and its statistics.\<close>

definition collect_for_policy ::
    "tick_context \<Rightarrow> component_node_spec \<Rightarrow> string \<Rightarrow> pending_messages \<Rightarrow> (timestamp_domain, int) smap \<Rightarrow> trigger_runtime_metrics \<Rightarrow>
     (invocation list \<times> pending_messages \<times> (timestamp_domain, int) smap \<times> trigger_runtime_metrics) option" where
  "collect_for_policy tc c lane pend wm st =
     (let t = tp_type (trigger_policy c)
      in if t = ''all_inputs'' then map_option (\<lambda>(ivs, pend'). (ivs, pend', wm, st)) (collect_all_inputs tc c lane pend)
         else if t = ''time_sync'' then map_option (\<lambda>(ivs, pend', st'). (ivs, pend', wm, st')) (collect_time_sync tc c lane pend st)
         else if t = ''batch'' then (let (ivs, pend', st') = collect_batch tc c lane pend st in Some (ivs, pend', wm, st'))
         else if t = ''watermark'' then collect_watermark tc c lane pend wm st
         else if t = ''condition'' then map_option (\<lambda>(ivs, pend', st'). (ivs, pend', wm, st')) (collect_condition tc c lane pend st)
         else if t = ''debounce'' \<or> tp_coalesce (trigger_policy c) then
           (let (ivs, pend') = collect_coalesced_any_input tc c lane pend in Some (ivs, pend', wm, st))
         else (let (ivs, pend') = collect_any_input tc c lane pend in Some (ivs, pend', wm, st)))"

text \<open>The part of \<^verbatim>\<open>collect_ready_invocations\<close> after the inputs are drained.\<close>

definition collect_pending ::
    "tick_context \<Rightarrow> component_node_spec \<Rightarrow> string \<Rightarrow> channel_bus option \<Rightarrow> pending_messages \<Rightarrow> trigger_engine \<Rightarrow>
     (invocation list \<times> trigger_engine) option" where
  "collect_pending tc c lane bus pend te =
     (let cid = comp_id c; (timeouts, pend1) = prune_timed_out_messages c (tc_started_at tc) pend
      in case enforce_pending_bounds c bus pend1 of
           None \<Rightarrow> None
         | Some (dropped, pend2) \<Rightarrow>
             (let st = zero_trigger_metrics\<lparr>timeout_drop_count := timeouts, pending_drop_count := dropped\<rparr>
              in if rate_limited c (tc_started_at tc) te
                 then Some ([], te\<lparr>te_pending := smap_put cid pend2 (te_pending te),
                                   te_last_stats := smap_put cid (st\<lparr>rate_limit_suppressed_count := 1\<rparr>) (te_last_stats te)\<rparr>)
                 else
                   map_option (\<lambda>(ivs, pend', wm', st').
                       (ivs, (if ivs = [] then id else record_invocation c (tc_started_at tc))
                          (te\<lparr>te_pending := smap_put cid pend' (te_pending te),
                              te_watermarks := (if tp_type (trigger_policy c) = ''watermark'' then smap_put cid wm' (te_watermarks te)
                                                else te_watermarks te),
                              te_last_stats := smap_put cid st' (te_last_stats te)\<rparr>)))
                     (collect_for_policy tc c lane pend2 (smap_get [] (te_watermarks te) cid) st)))"

definition collect_ready_invocations ::
    "(nat \<Rightarrow> nat \<Rightarrow> int) \<Rightarrow> tick_context \<Rightarrow> component_node_spec \<Rightarrow> string \<Rightarrow> trigger_engine \<Rightarrow> channel_bus option \<Rightarrow>
     (invocation list \<times> trigger_engine \<times> channel_bus option \<times> pending_events) option" where
  "collect_ready_invocations now tc c lane te bus =
     (if has_timer_event_source c then Some ([timer_invocation_for tc c lane], te, bus, [])
      else if \<not> has_message_event_source c then Some ([event_invocation_for EvManual tc c lane], te, bus, [])
      else
        (case drain_inputs now c (smap_get [] (te_pending te) (comp_id c)) bus of
           None \<Rightarrow> None
         | Some (pend, bus', ev) \<Rightarrow>
             map_option (\<lambda>(ivs, te'). (ivs, te', bus', ev)) (collect_pending tc c lane bus' pend te)))"

end
