(* ===== verification/Trigger_Policy_Laws.thy ===== *)
theory Trigger_Policy_Laws
  imports Trigger_Policy "HOL-Library.Multiset"
begin

text \<open>
  Laws of the trigger engine: what happens to the pending messages (each is delivered once, counted as dropped or still pending), when the
  code is defined, what time synchronisation guarantees, and how invocations are spaced under a rate limit.
\<close>

section \<open>Messages in the pending queues\<close>

definition pending_payloads :: "pending_messages \<Rightarrow> payload_ptr multiset" where
  "pending_payloads pend = mset (concat (map (\<lambda>(port, q). map msg_payload q) pend))"

abbreviation payloads :: "(string \<times> channel_message) list \<Rightarrow> payload_ptr multiset" where
  "payloads ms \<equiv> mset (map (\<lambda>x. msg_payload (snd x)) ms)"

lemma pending_payloads_simps [simp]:
  "pending_payloads [] = {#}"
  "pending_payloads ((port, q) # pend) = mset (map msg_payload q) + pending_payloads pend"
  by (simp_all add: pending_payloads_def)

lemma pending_payloads_put:
  "smap_wf m \<Longrightarrow> pending_payloads (smap_put k v m) + mset (map msg_payload (pending_queue m k)) = pending_payloads m + mset (map msg_payload v)"
proof (induction m)
  case (Cons e m)
  obtain k' q where e: "e = (k', q)" by fastforce
  consider "k < k'" | "k = k'" | "k' < k" by (meson linorder_neqE)
  then show ?case
  proof cases
    case 1
    then have "map_of (e # m) k = None" using Cons.prems e by (auto simp: map_of_eq_None_iff)
    moreover have "k \<noteq> k'" "\<not> k' < k" using 1 by auto
    ultimately show ?thesis using 1 e by (simp add: smap_get_def add_ac)
  next
    case 2
    then show ?thesis using e by (simp add: smap_get_def add_ac)
  next
    case 3
    with Cons e show ?thesis by (auto simp: smap_get_def add_ac)
  qed
qed (simp add: smap_get_def)

text \<open>
  \<open>moved pend ms n pend'\<close>: the messages \<open>ms\<close> left the queues for an invocation and \<open>n\<close> others were dropped; all the rest is still there.
\<close>

definition moved :: "pending_messages \<Rightarrow> payload_ptr multiset \<Rightarrow> nat \<Rightarrow> pending_messages \<Rightarrow> bool" where
  "moved pend ps n pend' \<longleftrightarrow> smap_wf pend' \<and> pending_payloads pend' + ps \<subseteq># pending_payloads pend \<and>
     size (pending_payloads pend) = size (pending_payloads pend') + size ps + n"

lemma moved_refl: "smap_wf pend \<Longrightarrow> moved pend {#} 0 pend"
  by (simp add: moved_def)

lemma moved_trans: "moved p ps n p1 \<Longrightarrow> moved p1 qs m p2 \<Longrightarrow> moved p (ps + qs) (n + m) p2"
  unfolding moved_def
  by (auto simp: add_ac) (metis (no_types, lifting) add.assoc add.commute mset_subset_eq_mono_add_left_cancel subset_mset.order_trans)

lemma moved_put:
  assumes "smap_wf pend" and "mset (map msg_payload q) + ps \<subseteq># mset (map msg_payload (pending_queue pend i))"
    and "length (pending_queue pend i) = length q + size ps + n"
  shows "moved pend ps n (smap_put i q pend)"
proof -
  let ?new = "pending_payloads (smap_put i q pend)" and ?old = "mset (map msg_payload (pending_queue pend i))"
  have eq: "?new + ?old = pending_payloads pend + mset (map msg_payload q)" by (rule pending_payloads_put [OF assms(1)])
  have "?new + ps + mset (map msg_payload q) \<subseteq># ?new + ?old" using assms(2) by (simp add: add_ac)
  then have "?new + ps \<subseteq># pending_payloads pend" unfolding eq by simp
  moreover have "size ?new + length (pending_queue pend i) = size (pending_payloads pend) + length q"
    using arg_cong [OF eq, of size] by simp
  ultimately show ?thesis using assms(1,3) by (simp add: moved_def)
qed

lemma moved_pop: "smap_wf pend \<Longrightarrow> pop_pending i pend = Some pend' \<Longrightarrow> pending_queue pend i = m # ms \<Longrightarrow> moved pend {#msg_payload m#} 0 pend'"
  by (auto simp: pop_pending_def intro: moved_put)

lemma moved_drop: "smap_wf pend \<Longrightarrow> pop_pending i pend = Some pend' \<Longrightarrow> moved pend {#} 1 pend'"
  by (auto simp: pop_pending_def intro!: moved_put split: list.splits)

lemma moved_consume_drop:
  "consume_front_messages js pend = Some pend' \<Longrightarrow> smap_wf pend \<Longrightarrow> moved pend {#} (length js) pend'"
proof (induction js arbitrary: pend)
  case (Cons j js)
  then obtain p1 where p1: "pop_pending j pend = Some p1" "consume_front_messages js p1 = Some pend'" by (auto split: option.splits)
  have m: "moved pend {#} 1 p1" using moved_drop [OF Cons.prems(2) p1(1)] .
  then have "moved p1 {#} (length js) pend'" using Cons.IH [OF p1(2)] by (simp add: moved_def)
  from moved_trans [OF m this] show ?case by simp
qed (auto intro: moved_refl)

lemma front_messages_queue:
  "front_messages_for_inputs is pend = Some ms \<Longrightarrow> (i, m) \<in> set ms \<Longrightarrow> \<exists>q. pending_queue pend i = m # q"
  by (induction "is" arbitrary: ms) (auto split: list.splits)

lemma front_messages_put:
  "front_messages_for_inputs is pend = Some ms \<Longrightarrow> i \<notin> set is \<Longrightarrow> front_messages_for_inputs is (smap_put i q pend) = Some ms"
  by (induction "is" arbitrary: ms) (auto split: list.splits)

lemma consume_front_defined:
  assumes "front_messages_for_inputs is pend = Some ms" and "distinct is" and "smap_wf pend"
  shows "\<exists>pend'. consume_front_messages is pend = Some pend' \<and> moved pend (payloads ms) 0 pend'"
  using assms
proof (induction "is" arbitrary: pend ms)
  case (Cons i "is")
  then obtain m q rest where q: "pending_queue pend i = m # q" and rest: "front_messages_for_inputs is pend = Some rest" "ms = (i, m) # rest"
    by (auto split: list.splits)
  let ?p1 = "smap_put i q pend"
  have pop: "pop_pending i pend = Some ?p1" by (simp add: pop_pending_def q)
  have m1: "moved pend {#msg_payload m#} 0 ?p1" using moved_pop [OF Cons.prems(3) pop q] .
  have "front_messages_for_inputs is ?p1 = Some rest" using rest(1) Cons.prems(2) by (simp add: front_messages_put)
  then obtain pend' where "consume_front_messages is ?p1 = Some pend'" "moved ?p1 (payloads rest) 0 pend'"
    using Cons.IH [of ?p1 rest] Cons.prems(2,3) by auto
  with moved_trans [OF m1] show ?case by (auto simp: pop rest(2))
qed (auto intro: moved_refl)

lemma consume_front_moved:
  "front_messages_for_inputs is pend = Some ms \<Longrightarrow> distinct is \<Longrightarrow> smap_wf pend \<Longrightarrow> consume_front_messages is pend = Some pend' \<Longrightarrow>
   moved pend (payloads ms) 0 pend'"
  using consume_front_defined by fastforce

section \<open>Each policy moves messages\<close>

definition delivered_payloads :: "invocation list \<Rightarrow> payload_ptr multiset" where
  "delivered_payloads ivs = mset (concat (map inv_batch_payloads ivs))"

lemma delivered_payloads_simps [simp]:
  "delivered_payloads [] = {#}" "delivered_payloads (iv # ivs) = mset (inv_batch_payloads iv) + delivered_payloads ivs"
  by (simp_all add: delivered_payloads_def)

lemma invocation_from_messages_lists [simp]:
  "inv_batch_payloads (invocation_from_messages ev tr tc c lane ms) = map (\<lambda>x. msg_payload (snd x)) ms"
  "inv_ready_inputs (invocation_from_messages ev tr tc c lane ms) = map fst ms"
proof -
  have "inv_batch_payloads (fold (add_message tc tr) ms iv) = inv_batch_payloads iv @ map (\<lambda>x. msg_payload (snd x)) ms"
    "inv_ready_inputs (fold (add_message tc tr) ms iv) = inv_ready_inputs iv @ map fst ms" for iv
    by (induction ms arbitrary: iv) (simp_all add: add_message_def Let_def)
  then show "inv_batch_payloads (invocation_from_messages ev tr tc c lane ms) = map (\<lambda>x. msg_payload (snd x)) ms"
    "inv_ready_inputs (invocation_from_messages ev tr tc c lane ms) = map fst ms"
    by (simp_all add: invocation_from_messages_def event_invocation_for_def Let_def)
qed

lemma any_loop_moved:
  assumes "\<And>port m. inv_batch_payloads (mk port m) = [msg_payload m]" and "smap_wf pend" and "any_loop single mk pend = (ivs, pend')"
  shows "moved pend (delivered_payloads ivs) 0 pend'" and "single \<Longrightarrow> length ivs \<le> 1"
proof -
  have "map fst pend' = map fst pend \<and> pending_payloads pend = pending_payloads pend' + delivered_payloads ivs \<and> (single \<longrightarrow> length ivs \<le> 1)"
    using assms(1,3)
  proof (induction single mk pend arbitrary: ivs pend' rule: any_loop.induct)
    case (3 single mk port m ms pend)
    from 3(2) have "inv_batch_payloads (mk port m) = [msg_payload m]" by blast
    with 3 show ?case
      by (cases "any_loop single mk ((port, ms) # pend)") (auto split: if_splits)
  qed (auto split: prod.splits)
  with assms(2) show "moved pend (delivered_payloads ivs) 0 pend'" and "single \<Longrightarrow> length ivs \<le> 1"
    by (simp_all add: moved_def smap_wf_def)
qed

lemma collect_any_moved:
  assumes "smap_wf pend" and "collect_any_input tc c lane pend = (ivs, pend')"
  shows "moved pend (delivered_payloads ivs) 0 pend'" and "0 < tp_min_interval_ms (trigger_policy c) \<Longrightarrow> length ivs \<le> 1"
proof -
  let ?ev = "event_kind_for_component c"
  have "any_loop (tp_min_interval_ms (trigger_policy c) > 0)
      (\<lambda>port m. invocation_from_messages ?ev (trigger_kind_for_policy (trigger_policy c) ?ev) tc c lane [(port, m)]) pend = (ivs, pend')"
    using assms(2) by (simp add: collect_any_input_def Let_def)
  from any_loop_moved [OF _ assms(1) this]
  show "moved pend (delivered_payloads ivs) 0 pend'" and "0 < tp_min_interval_ms (trigger_policy c) \<Longrightarrow> length ivs \<le> 1" by simp_all
qed

lemma collect_coalesced_moved:
  assumes "smap_wf pend" and "\<forall>e \<in> set pend. length (snd e) \<le> 1" and "collect_coalesced_any_input tc c lane pend = (ivs, pend')"
  shows "moved pend (delivered_payloads ivs) 0 pend'"
proof -
  let ?ms = "map (\<lambda>(port, q). (port, List.last q)) (filter (\<lambda>(port, q). q \<noteq> []) pend)"
  have "pending_payloads pend = payloads ?ms"
    using assms(2)
  proof (induction pend)
    case (Cons e pend)
    obtain port q where e: "e = (port, q)" by fastforce
    have "q = [] \<or> (\<exists>m. q = [m])" using Cons.prems e by (cases q) auto
    with Cons e show ?case by auto
  qed simp
  moreover have "pending_payloads (smap_map (\<lambda>port q. []) pend) = {#}"
    by (induction pend) (auto simp: smap_map_def)
  moreover have "delivered_payloads ivs = payloads ?ms" "pend' = smap_map (\<lambda>port q. []) pend"
    using assms(3) by (fastforce simp: collect_coalesced_any_input_def Let_def filter_empty_conv split: if_splits)+
  ultimately show ?thesis using assms(1) by (simp add: moved_def)
qed

lemma collect_all_moved:
  assumes "smap_wf pend" and "distinct (trigger_policy_inputs_for c)" and "collect_all_inputs tc c lane pend = Some (ivs, pend')"
  shows "moved pend (delivered_payloads ivs) 0 pend'"
  using assms consume_front_moved by (auto simp: collect_all_inputs_def Let_def intro: moved_refl split: option.splits)

declare time_sync_loop.simps [simp del] condition_loop.simps [simp del]

lemma time_sync_moved:
  assumes "smap_wf pend" and "distinct inputs" and "time_sync_loop inputs slop pend drops = Some (ms, pend', n)"
  shows "\<exists>k. n = drops + k \<and> moved pend (case ms of None \<Rightarrow> {#} | Some ms \<Rightarrow> payloads ms) k pend'"
  using assms
proof (induction inputs slop pend drops rule: time_sync_loop.induct)
  case (1 inputs slop pend drops)
  show ?case
  proof (cases "front_messages_for_inputs inputs pend")
    case None
    with 1 show ?thesis by (auto simp: time_sync_loop.simps [of inputs slop pend] intro: moved_refl)
  next
    case (Some fs)
    note front = this
    consider pend1 where "consume_front_messages inputs pend = Some pend1" "ms = Some fs" "pend' = pend1" "n = drops"
      | d p1 where "\<not> (slop \<le> 0 \<or> \<not> messages_have_comparable_timestamps fs)"
          "i64_sub (event_timestamp_ns (snd (max_item fs))) (event_timestamp_ns (snd (min_item fs))) = Some d" "\<not> d \<le> slop"
          "pop_pending (fst (min_item fs)) pend = Some p1" "time_sync_loop inputs slop p1 (Suc drops) = Some (ms, pend', n)"
      using 1(4) Some unfolding time_sync_loop.simps [of inputs slop pend] by (auto split: option.splits if_splits)
    then show ?thesis
    proof cases
      case 1
      with consume_front_moved [OF Some \<open>distinct inputs\<close> \<open>smap_wf pend\<close>] show ?thesis by auto
    next
      case 2
      have m: "moved pend {#} 1 p1" using moved_drop [OF \<open>smap_wf pend\<close> 2(4)] .
      then have wf: "smap_wf p1" by (simp add: moved_def)
      obtain k where k: "n = Suc drops + k" "moved p1 (case ms of None \<Rightarrow> {#} | Some ms \<Rightarrow> payloads ms) k pend'"
        using "1.IH" [OF front 2(1,2,3,4) wf \<open>distinct inputs\<close> 2(5)] by blast
      with moved_trans [OF m k(2)] show ?thesis by (intro exI [of _ "Suc k"]) simp
    qed
  qed
qed

lemma condition_loop_moved:
  assumes "smap_wf pend" and "distinct inputs" and "condition_loop inputs pend drops = Some (ms, pend', n)"
  shows "\<exists>k. n = drops + k \<and> moved pend (case ms of None \<Rightarrow> {#} | Some ms \<Rightarrow> payloads ms) k pend'"
  using assms
proof (induction inputs pend drops rule: condition_loop.induct)
  case (1 inputs pend drops)
  show ?case
  proof (cases "front_messages_for_inputs inputs pend")
    case None
    with 1 show ?thesis by (auto simp: condition_loop.simps [of inputs pend] intro: moved_refl)
  next
    case (Some fs)
    note front = this
    consider "missing_timestamps fs = []" "consume_front_messages inputs pend = Some pend'" "ms = Some fs" "n = drops"
      | p1 where "missing_timestamps fs \<noteq> []" "consume_front_messages (missing_timestamps fs) pend = Some p1"
          "condition_loop inputs p1 (drops + length (missing_timestamps fs)) = Some (ms, pend', n)"
      using 1(4) Some unfolding condition_loop.simps [of inputs pend] by (auto split: option.splits if_splits)
    then show ?thesis
    proof cases
      case 1
      with consume_front_moved [OF Some \<open>distinct inputs\<close> \<open>smap_wf pend\<close>] show ?thesis by auto
    next
      case 2
      let ?l = "length (missing_timestamps fs)"
      have m: "moved pend {#} ?l p1" using moved_consume_drop [OF 2(2) \<open>smap_wf pend\<close>] .
      then have wf: "smap_wf p1" by (simp add: moved_def)
      obtain k where k: "n = drops + ?l + k" "moved p1 (case ms of None \<Rightarrow> {#} | Some ms \<Rightarrow> payloads ms) k pend'"
        using "1.IH" [OF front 2(1,2) wf \<open>distinct inputs\<close> 2(3)] by blast
      with moved_trans [OF m k(2)] show ?thesis by (intro exI [of _ "?l + k"]) simp
    qed
  qed
qed

lemma watermark_queue_moved:
  "watermark_queue late q wm = Some (q', wm', n) \<Longrightarrow>
     mset (map msg_payload q') \<subseteq># mset (map msg_payload q) \<and> length q = length q' + n"
  by (induction late q wm arbitrary: q' n rule: watermark_queue.induct)
    (fastforce split: option.splits if_splits intro: subset_mset.order_trans)+

lemma watermark_ports_moved:
  assumes "smap_wf pend" and "watermark_ports late pend wm = Some (pend', wm', n)"
  shows "moved pend {#} n pend'"
proof -
  have "map fst pend' = map fst pend \<and> pending_payloads pend' \<subseteq># pending_payloads pend \<and>
      size (pending_payloads pend) = size (pending_payloads pend') + n"
    using assms(2)
  proof (induction late pend wm arbitrary: pend' n wm' rule: watermark_ports.induct)
    case (2 late port q pend wm)
    then obtain q' wm1 k where q: "watermark_queue late q wm = Some (q', wm1, k)" by (auto split: option.splits)
    with 2(2) obtain p1 k1 wm2 where p: "watermark_ports late pend wm1 = Some (p1, wm2, k1)" "pend' = (port, q') # p1" "n = k + k1" by auto
    from 2(1) [OF q refl refl p(1)] watermark_queue_moved [OF q] p(2,3) show ?case
      by (auto simp: subset_mset.add_mono)
  qed simp
  with assms(1) show ?thesis by (simp add: moved_def smap_wf_def)
qed

lemma take_batch_moved:
  "smap_wf pend \<Longrightarrow> take_batch_messages n is pend = (ms, pend') \<Longrightarrow> moved pend (payloads ms) 0 pend'"
proof (induction n "is" pend arbitrary: ms pend' rule: take_batch_messages.induct)
  case (2 n i "is" pend)
  let ?q = "pending_queue pend i" and ?p1 = "smap_put i (drop n (pending_queue pend i)) pend"
  obtain rest where rest: "take_batch_messages (n - length (map (Pair i) (take n ?q))) is ?p1 = (rest, pend')" "ms = map (Pair i) (take n ?q) @ rest"
    using 2(3) by (auto simp: Let_def split: prod.splits)
  have "mset (map msg_payload (drop n ?q)) + mset (map msg_payload (take n ?q)) = mset (map msg_payload ?q)"
    by (metis add.commute append_take_drop_id map_append mset_append)
  then have "mset (map msg_payload (drop n ?q)) + payloads (map (Pair i) (take n ?q)) = mset (map msg_payload ?q)"
    by (simp add: comp_def)
  then have m: "moved pend (payloads (map (Pair i) (take n ?q))) 0 ?p1"
    by (intro moved_put [OF 2(2)]) auto
  then have "smap_wf ?p1" by (simp add: moved_def)
  from moved_trans [OF m 2(1) [OF refl refl this rest(1)]] show ?case by (simp add: rest(2))
qed (auto intro: moved_refl)

section \<open>Pruning and bounding\<close>

lemma filter_payloads: "mset (map msg_payload (filter P q)) \<subseteq># mset (map msg_payload q)"
  by (induction q) (auto intro: subset_mset.order_trans)

lemma prune_moved:
  assumes "smap_wf pend" and "prune_timed_out_messages c now pend = (n, pend')"
  shows "moved pend {#} n pend'"
proof (cases "tp_max_latency_ms (trigger_policy c) \<le> 0")
  case True
  with assms show ?thesis by (auto simp: prune_timed_out_messages_def intro: moved_refl)
next
  case False
  have "pending_payloads (smap_map (\<lambda>port q. filter (\<lambda>m. \<not> P m) q) pend) \<subseteq># pending_payloads pend \<and>
      size (pending_payloads pend) = size (pending_payloads (smap_map (\<lambda>port q. filter (\<lambda>m. \<not> P m) q) pend)) +
        sum_list (map (\<lambda>(port, q). length (filter P q)) pend)" for P
  proof (induction pend)
    case (Cons e pend)
    obtain port q where e: "e = (port, q)" by fastforce
    have "length (filter P q) + length (filter (\<lambda>m. \<not> P m) q) = length q" by (rule sum_length_filter_compl)
    moreover have "size {#x \<in># mset q. \<not> P x#} = length (filter (\<lambda>m. \<not> P m) q)" by (metis mset_filter size_mset)
    ultimately show ?case
      using Cons e filter_payloads [of "\<lambda>m. \<not> P m" q] by (auto simp: smap_map_def subset_mset.add_mono)
  qed (simp add: smap_map_def)
  with False assms show ?thesis by (auto simp: prune_timed_out_messages_def moved_def)
qed

lemma drop_payloads: "mset (map msg_payload (drop k q)) \<subseteq># mset (map msg_payload q)"
  by (metis append_take_drop_id map_append mset_append mset_subset_eq_add_right)

lemma enforce_moved:
  assumes "smap_wf pend" and "enforce_pending_bounds c bus pend = Some (n, pend')"
  shows "moved pend {#} n pend'" and "\<And>port q. (port, q) \<in> set pend' \<Longrightarrow> \<exists>limit. pending_limit c bus port = Some limit \<and> length q \<le> limit"
proof -
  have "map fst pend' = map fst pend \<and> pending_payloads pend' \<subseteq># pending_payloads pend \<and>
      size (pending_payloads pend) = size (pending_payloads pend') + n \<and>
      (\<forall>(port, q) \<in> set pend'. \<exists>limit. pending_limit c bus port = Some limit \<and> length q \<le> limit)"
    using assms(2)
  proof (induction c bus pend arbitrary: n pend' rule: enforce_pending_bounds.induct)
    case (2 c bus port q pend)
    then obtain limit k p1 where l: "pending_limit c bus port = Some limit" "enforce_pending_bounds c bus pend = Some (k, p1)"
      "n = length q - limit + k" "pend' = (port, drop (length q - limit) q) # p1"
      by (auto split: option.splits)
    from 2(1) [OF l(1,2)] show ?case
      using drop_payloads [of "length q - limit" q] by (auto simp: l(1,3,4) intro: subset_mset.add_mono)
  qed simp
  with assms(1) show "moved pend {#} n pend'"
    and "\<And>port q. (port, q) \<in> set pend' \<Longrightarrow> \<exists>limit. pending_limit c bus port = Some limit \<and> length q \<le> limit"
    by (auto simp: moved_def smap_wf_def)
qed

lemma drain_ports_pending:
  "drain_ports now k cid is pend b = Some (pend', b', ev) \<Longrightarrow> smap_wf pend \<Longrightarrow>
     smap_wf pend' \<and> (\<exists>ms :: channel_message list. pending_payloads pend' = pending_payloads pend + mset (map msg_payload ms))"
proof (induction "is" arbitrary: k pend b ev)
  case (Cons i "is")
  then obtain ms b1 e1 e2 where d: "drain_for_component_port (now k) cid i 0 b = Some (ms, b1, e1)"
    "drain_ports now (Suc k) cid is (smap_put i (pending_queue pend i @ ms) pend) b1 = Some (pend', b', e2)"
    by (auto split: option.splits prod.splits)
  have "pending_payloads (smap_put i (pending_queue pend i @ ms) pend) = pending_payloads pend + mset (map msg_payload ms)"
    using pending_payloads_put [OF Cons.prems(2), of i "pending_queue pend i @ ms"] by (simp add: add_ac)
  moreover obtain ms' :: "channel_message list" where "smap_wf pend'"
    "pending_payloads pend' = pending_payloads (smap_put i (pending_queue pend i @ ms) pend) + mset (map msg_payload ms')"
    using Cons.IH [OF d(2) smap_wf_put [OF Cons.prems(2)]] by blast
  ultimately show ?case by (intro conjI exI [of _ "ms @ ms'"]) (simp_all add: add_ac)
qed auto

section \<open>One collection\<close>

text \<open>All messages that a statistics record counts as dropped.\<close>

definition dropped_messages :: "trigger_runtime_metrics \<Rightarrow> nat" where
  "dropped_messages st = timeout_drop_count st + pending_drop_count st + time_sync_drop_count st + late_drop_count st"

lemma collect_condition_moved:
  assumes wf: "smap_wf pend" and d: "distinct (trigger_policy_inputs_for c)"
    and "collect_condition tc c lane pend st = Some (ivs, pend', st')"
  shows "\<exists>n. moved pend (delivered_payloads ivs) n pend' \<and> dropped_messages st' = dropped_messages st + n \<and>
    (0 < tp_min_interval_ms (trigger_policy c) \<longrightarrow> length ivs \<le> 1)"
proof -
  have sup: "dropped_messages (suppress st) = dropped_messages st" for st by (simp add: suppress_def dropped_messages_def)
  define cond where "cond = (if tp_condition (trigger_policy c) = [] then ''all_inputs_ready'' else tp_condition (trigger_policy c))"
  note result = assms(3) [unfolded collect_condition_def, folded cond_def, unfolded Let_def]
  consider "cond = ''any_input_ready''" | "cond = ''all_inputs_ready''" | "cond = ''event_timestamp_present''" "trigger_policy_inputs_for c \<noteq> []"
    | "cond \<notin> {''any_input_ready'', ''all_inputs_ready''}" "cond = ''event_timestamp_present'' \<longrightarrow> trigger_policy_inputs_for c = []"
    by blast
  then show ?thesis
  proof cases
    case 1
    with result have r: "collect_any_input tc c lane pend = (ivs, pend')" "st' = (if ivs = [] then suppress st else st)"
      by (auto split: prod.splits)
    with collect_any_moved [OF wf r(1)] show ?thesis by (auto simp: sup)
  next
    case 2
    with result have r: "collect_all_inputs tc c lane pend = Some (ivs, pend')" "st' = (if ivs = [] then suppress st else st)" by auto
    have "length ivs \<le> 1" using r(1) by (auto simp: collect_all_inputs_def Let_def split: option.splits)
    with collect_all_moved [OF wf d r(1)] r(2) show ?thesis by (auto simp: sup)
  next
    case 3
    with result obtain ms n where r: "condition_loop (trigger_policy_inputs_for c) pend 0 = Some (ms, pend', n)"
      "ivs = (case ms of None \<Rightarrow> [] | Some ms \<Rightarrow> [invocation_from_messages EvMessage TrCondition tc c lane ms])"
      "dropped_messages st' = dropped_messages (st\<lparr>pending_drop_count := pending_drop_count st + n\<rparr>)"
      by (auto simp: sup split: option.splits)
    with condition_loop_moved [OF wf d r(1)] show ?thesis by (auto simp: dropped_messages_def split: option.splits)
  next
    case 4
    with result have "ivs = []" "pend' = pend" "st' = suppress st" by (auto split: if_splits)
    with moved_refl [OF wf] show ?thesis by (auto simp: sup)
  qed
qed

lemma collect_for_policy_moved:
  assumes wf: "smap_wf pend" and d: "distinct (trigger_policy_inputs_for c)"
    and one: "tp_type (trigger_policy c) = ''debounce'' \<or> tp_coalesce (trigger_policy c) \<Longrightarrow> \<forall>e \<in> set pend. length (snd e) \<le> 1"
    and "collect_for_policy tc c lane pend wm st = Some (ivs, pend', wm', st')"
  shows "\<exists>n. moved pend (delivered_payloads ivs) n pend' \<and> dropped_messages st' = dropped_messages st + n \<and>
    (0 < tp_min_interval_ms (trigger_policy c) \<longrightarrow> length ivs \<le> 1)"
proof -
  let ?t = "tp_type (trigger_policy c)"
  note result = assms(4) [unfolded collect_for_policy_def Let_def]
  consider "?t = ''all_inputs''" | "?t = ''time_sync''" | "?t = ''batch''" | "?t = ''watermark''" | "?t = ''condition''"
    | "?t \<notin> {''all_inputs'', ''time_sync'', ''batch'', ''watermark'', ''condition''}" "?t = ''debounce'' \<or> tp_coalesce (trigger_policy c)"
    | "?t \<notin> {''all_inputs'', ''time_sync'', ''batch'', ''watermark'', ''condition''}" "\<not> (?t = ''debounce'' \<or> tp_coalesce (trigger_policy c))"
    by blast
  then show ?thesis
  proof cases
    case 1
    with result have r: "collect_all_inputs tc c lane pend = Some (ivs, pend')" "st' = st" by auto
    have "length ivs \<le> 1" using r(1) by (auto simp: collect_all_inputs_def Let_def split: option.splits)
    with collect_all_moved [OF wf d r(1)] r(2) show ?thesis by auto
  next
    case 2
    with result obtain ms n where r: "time_sync_loop (trigger_policy_inputs_for c) (timestamp_slop_ns (trigger_policy c)) pend 0 = Some (ms, pend', n)"
      "ivs = (case ms of None \<Rightarrow> [] | Some ms \<Rightarrow> [invocation_from_messages EvMessage TrTimeSync tc c lane ms])"
      "st' = st\<lparr>time_sync_drop_count := time_sync_drop_count st + n\<rparr>"
      by (auto simp: collect_time_sync_def)
    with time_sync_moved [OF wf d r(1)] show ?thesis by (auto simp: dropped_messages_def split: option.splits)
  next
    case 3
    obtain i1 p1 s1 where b: "collect_batch tc c lane pend st = (i1, p1, s1)" by (metis prod_cases3)
    with 3 result have r: "i1 = ivs" "p1 = pend'" "s1 = st'" by auto
    obtain ms p2 where t: "take_batch_messages (batch_target tc c pend) (trigger_policy_inputs_for c) pend = (ms, p2)" by fastforce
    from b show ?thesis
      using take_batch_moved [OF wf t] moved_refl [OF wf]
      by (auto simp: collect_batch_def t r dropped_messages_def split: if_splits)
  next
    case 4
    with result obtain p1 n where w: "watermark_ports (watermark_lateness_ns (trigger_policy c)) pend wm = Some (p1, wm', n)"
      "collect_any_input tc c lane p1 = (ivs, pend')" "st' = st\<lparr>late_drop_count := late_drop_count st + n\<rparr>"
      by (auto simp: collect_watermark_def split_beta)
    have m: "moved pend {#} n p1" using watermark_ports_moved [OF wf w(1)] .
    then have "smap_wf p1" by (simp add: moved_def)
    from moved_trans [OF m collect_any_moved(1) [OF this w(2)]] collect_any_moved(2) [OF this w(2)] w(3)
    show ?thesis by (auto simp: dropped_messages_def)
  next
    case 5
    with result have "collect_condition tc c lane pend st = Some (ivs, pend', st')" by auto
    with collect_condition_moved [OF wf d] show ?thesis by blast
  next
    case 6
    with result have r: "collect_coalesced_any_input tc c lane pend = (ivs, pend')" "st' = st" by (auto split: prod.splits)
    have "length ivs \<le> 1" using r(1) by (auto simp: collect_coalesced_any_input_def Let_def split: if_splits)
    with collect_coalesced_moved [OF wf one [OF 6(2)] r(1)] r(2) show ?thesis by auto
  next
    case 7
    with result have r: "collect_any_input tc c lane pend = (ivs, pend')" "st' = st" by (auto split: prod.splits)
    with collect_any_moved [OF wf r(1)] show ?thesis by auto
  qed
qed


lemma coalesced_limit:
  assumes "smap_wf pend" and "enforce_pending_bounds c bus pend = Some (n, pend')"
    and "tp_type (trigger_policy c) = ''debounce'' \<or> tp_coalesce (trigger_policy c)"
  shows "\<forall>e \<in> set pend'. length (snd e) \<le> 1"
  using enforce_moved(2) [OF assms(1,2)] assms(3) by (fastforce simp: pending_limit_def Let_def split: option.splits)

lemma collect_pending_moved:
  assumes wf: "smap_wf pend" and d: "distinct (trigger_policy_inputs_for c)"
    and "collect_pending tc c lane bus pend te = Some (ivs, te')"
  shows "\<exists>pend' st. map_of (te_pending te') (comp_id c) = Some pend' \<and> map_of (te_last_stats te') (comp_id c) = Some st \<and>
    moved pend (delivered_payloads ivs) (dropped_messages st) pend' \<and> (0 < tp_min_interval_ms (trigger_policy c) \<longrightarrow> length ivs \<le> 1)"
proof -
  obtain n1 p1 where p1: "prune_timed_out_messages c (tc_started_at tc) pend = (n1, p1)" by fastforce
  then obtain n2 p2 where p2: "enforce_pending_bounds c bus p1 = Some (n2, p2)"
    using assms(3) by (auto simp: collect_pending_def Let_def split: option.splits)
  have m1: "moved pend {#} n1 p1" using prune_moved [OF wf p1] .
  then have wf1: "smap_wf p1" by (simp add: moved_def)
  have m2: "moved p1 {#} n2 p2" using enforce_moved(1) [OF wf1 p2] .
  then have wf2: "smap_wf p2" by (simp add: moved_def)
  have m: "moved pend {#} (n1 + n2) p2" using moved_trans [OF m1 m2] by simp
  let ?st = "zero_trigger_metrics\<lparr>timeout_drop_count := n1, pending_drop_count := n2\<rparr>"
  have st: "dropped_messages ?st = n1 + n2" "dropped_messages (?st\<lparr>rate_limit_suppressed_count := 1\<rparr>) = n1 + n2"
    by (simp_all add: dropped_messages_def zero_trigger_metrics_def)
  show ?thesis
  proof (cases "rate_limited c (tc_started_at tc) te")
    case True
    with assms(3) p1 p2 have "ivs = []" "te' = te\<lparr>te_pending := smap_put (comp_id c) p2 (te_pending te),
        te_last_stats := smap_put (comp_id c) (?st\<lparr>rate_limit_suppressed_count := 1\<rparr>) (te_last_stats te)\<rparr>"
      by (auto simp: collect_pending_def Let_def)
    with m st show ?thesis by simp
  next
    case False
    with assms(3) p1 p2 obtain p3 wm' st' where
      c: "collect_for_policy tc c lane p2 (smap_get [] (te_watermarks te) (comp_id c)) ?st = Some (ivs, p3, wm', st')"
      and te': "map_of (te_pending te') (comp_id c) = Some p3" "map_of (te_last_stats te') (comp_id c) = Some st'"
      by (fastforce simp: collect_pending_def Let_def record_invocation_def)
    obtain n3 where "moved p2 (delivered_payloads ivs) n3 p3" "dropped_messages st' = dropped_messages ?st + n3"
      "0 < tp_min_interval_ms (trigger_policy c) \<longrightarrow> length ivs \<le> 1"
      using collect_for_policy_moved [OF wf2 d coalesced_limit [OF wf1 p2] c] by blast
    with moved_trans [OF m] te' st(1) show ?thesis by fastforce
  qed
qed


section \<open>Collections are defined\<close>

definition stamp_ok :: "channel_message \<Rightarrow> bool" where
  "stamp_ok m = (case msg_event_timestamp m of None \<Rightarrow> True | Some t \<Rightarrow> 0 \<le> nanoseconds t \<and> nanoseconds t < 2 ^ 63)"

definition stamps_ok :: "pending_messages \<Rightarrow> bool" where
  "stamps_ok pend = list_all (\<lambda>e. list_all stamp_ok (snd e)) pend"

definition watermarks_ok :: "(timestamp_domain, int) smap \<Rightarrow> bool" where
  "watermarks_ok wm = list_all (\<lambda>e. 0 \<le> snd e \<and> snd e < 2 ^ 63) wm"

lemma stamps_ok_queue: "stamps_ok pend \<Longrightarrow> list_all stamp_ok (pending_queue pend i)"
  by (cases "map_of pend i") (auto simp: stamps_ok_def list_all_iff smap_get_def dest!: map_of_SomeD)

lemma time_sync_defined:
  assumes "smap_wf pend" and "distinct inputs" and "\<And>i. list_all stamp_ok (pending_queue pend i)"
  shows "\<exists>r. time_sync_loop inputs slop pend drops = Some r"
  using assms
proof (induction inputs slop pend drops rule: time_sync_loop.induct)
  case (1 inputs slop pend drops)
  show ?case
  proof (cases "front_messages_for_inputs inputs pend")
    case None
    then show ?thesis by (simp add: time_sync_loop.simps [of inputs slop pend])
  next
    case (Some fs)
    obtain p where p: "consume_front_messages inputs pend = Some p"
      using consume_front_defined [OF Some "1.prems"(2,1)] by blast
    show ?thesis
    proof (cases "slop \<le> 0 \<or> \<not> messages_have_comparable_timestamps fs")
      case True
      with Some p show ?thesis by (simp add: time_sync_loop.simps [of inputs slop pend])
    next
      case False
      then have ne: "fs \<noteq> []" by (auto simp: messages_have_comparable_timestamps_def)
      have ok: "0 \<le> event_timestamp_ns (snd x) \<and> event_timestamp_ns (snd x) < 2 ^ 63" if x: "x \<in> set fs" for x
      proof -
        obtain q where "pending_queue pend (fst x) = snd x # q" using front_messages_queue [OF Some] x by (metis prod.collapse)
        with "1.prems"(3) [of "fst x"] show ?thesis by (auto simp: stamp_ok_def event_timestamp_ns_def split: option.splits)
      qed
      obtain d where d: "i64_sub (event_timestamp_ns (snd (max_item fs))) (event_timestamp_ns (snd (min_item fs))) = Some d"
        using ok [OF max_item_mem [OF ne]] ok [OF min_item_mem [OF ne]] by (auto simp: i64_sub_def)
      obtain m q where q: "pending_queue pend (fst (min_item fs)) = m # q"
        using front_messages_queue [OF Some] min_item_mem [OF ne] by (metis prod.collapse)
      let ?p1 = "smap_put (fst (min_item fs)) q pend"
      have pop: "pop_pending (fst (min_item fs)) pend = Some ?p1" by (simp add: pop_pending_def q)
      have "list_all stamp_ok (pending_queue ?p1 i)" for i
        using "1.prems"(3) [of i] q by auto
      then have "\<exists>r. time_sync_loop inputs slop ?p1 (Suc drops) = Some r" if "\<not> d \<le> slop"
        using "1.IH" [OF Some False d that pop] "1.prems"(1,2) by simp
      with Some False d p pop show ?thesis by (cases "d \<le> slop") (simp_all add: time_sync_loop.simps [of inputs slop pend])
    qed
  qed
qed

lemma front_missing_distinct:
  "front_messages_for_inputs is pend = Some fs \<Longrightarrow> distinct is \<Longrightarrow>
     distinct (missing_timestamps fs) \<and> front_messages_for_inputs (missing_timestamps fs) pend = Some (filter (\<lambda>x. msg_event_timestamp (snd x) = None) fs)"
proof (induction "is" arbitrary: fs)
  case (Cons i "is")
  then obtain m q rest where r: "pending_queue pend i = m # q" "front_messages_for_inputs is pend = Some rest" "fs = (i, m) # rest"
    by (auto split: list.splits)
  have "i \<notin> set (missing_timestamps rest)"
    using front_messages_inputs [OF r(2)] Cons.prems(2) by (force simp: missing_timestamps_def)
  with Cons.IH [OF r(2)] Cons.prems(2) r show ?case by (auto simp: missing_timestamps_def)
qed (auto simp: missing_timestamps_def)

lemma condition_loop_defined:
  assumes "smap_wf pend" and "distinct inputs"
  shows "\<exists>r. condition_loop inputs pend drops = Some r"
  using assms
proof (induction inputs pend drops rule: condition_loop.induct)
  case (1 inputs pend drops)
  show ?case
  proof (cases "front_messages_for_inputs inputs pend")
    case None
    then show ?thesis by (simp add: condition_loop.simps [of inputs pend])
  next
    case (Some fs)
    obtain p where p: "consume_front_messages inputs pend = Some p"
      using consume_front_defined [OF Some "1.prems"(2,1)] by blast
    obtain p1 where p1: "consume_front_messages (missing_timestamps fs) pend = Some p1" "smap_wf p1"
      using front_missing_distinct [OF Some "1.prems"(2)] consume_front_defined [OF _ _ "1.prems"(1)] by (metis moved_def)
    show ?thesis
    proof (cases "missing_timestamps fs = []")
      case True
      with Some p show ?thesis by (simp add: condition_loop.simps [of inputs pend])
    next
      case False
      with "1.IH" [OF Some False p1 "1.prems"(2)] Some p1 show ?thesis by (simp add: condition_loop.simps [of inputs pend])
    qed
  qed
qed

lemma watermark_queue_defined:
  assumes "list_all stamp_ok q" and "smap_wf wm" and "watermarks_ok wm" and "0 \<le> late" and "late \<le> 2 ^ 63"
  shows "\<exists>q' wm' n. watermark_queue late q wm = Some (q', wm', n) \<and> smap_wf wm' \<and> watermarks_ok wm'"
  using assms
proof (induction q arbitrary: wm)
  case (Cons m q)
  have ok: "watermarks_ok (smap_put d v wm)" if "0 \<le> v" "v < 2 ^ 63" "smap_wf wm" "watermarks_ok wm" for d :: timestamp_domain and v wm
    using that set_smap_put [of d v wm] by (fastforce simp: watermarks_ok_def list_all_iff)
  show ?case
  proof (cases "msg_event_timestamp m")
    case None
    with Cons show ?thesis by fastforce
  next
    case (Some t)
    then have t: "0 \<le> nanoseconds t" "nanoseconds t < 2 ^ 63" using Cons.prems(1) by (auto simp: stamp_ok_def)
    have put: "smap_wf (smap_put (domain t) (nanoseconds t) wm)" "watermarks_ok (smap_put (domain t) (nanoseconds t) wm)"
      using Cons.prems t ok by auto
    show ?thesis
    proof (cases "map_of wm (domain t)")
      case None
      with Some Cons.IH [OF _ put] Cons.prems show ?thesis by fastforce
    next
      case (Some w)
      then have "0 \<le> w" "w < 2 ^ 63" using Cons.prems(3) by (fastforce simp: watermarks_ok_def list_all_iff dest: map_of_SomeD)+
      then have "i64_sub w late = Some (w - late)" using Cons.prems(4,5) by (simp add: i64_sub_def)
      with Some \<open>msg_event_timestamp m = Some t\<close> Cons.IH [OF _ put] Cons.IH [of wm] Cons.prems show ?thesis by fastforce
    qed
  qed
qed simp

lemma watermark_ports_defined:
  assumes "stamps_ok pend" and "smap_wf wm" and "watermarks_ok wm" and "0 \<le> late" and "late \<le> 2 ^ 63"
  shows "\<exists>r. watermark_ports late pend wm = Some r"
  using assms
proof (induction pend arbitrary: wm)
  case (Cons e pend)
  obtain port q where e: "e = (port, q)" by fastforce
  with Cons.prems(1) have "list_all stamp_ok q" "stamps_ok pend" by (simp_all add: stamps_ok_def)
  with watermark_queue_defined [OF _ Cons.prems(2-)] Cons.IH Cons.prems e show ?case by fastforce
qed simp

lemma enforce_defined:
  "(\<And>port. pending_limit c bus port \<noteq> None) \<Longrightarrow> stamps_ok pend \<Longrightarrow> \<exists>n pend'. enforce_pending_bounds c bus pend = Some (n, pend') \<and> stamps_ok pend'"
proof (induction pend)
  case (Cons e pend)
  obtain port q where e: "e = (port, q)" by fastforce
  obtain limit where "pending_limit c bus port = Some limit" using Cons.prems(1) by blast
  moreover have "list_all stamp_ok (drop k q)" for k using Cons.prems(2) e by (auto simp: stamps_ok_def list_all_iff dest: in_set_dropD)
  ultimately show ?case using Cons e by (auto simp: stamps_ok_def)
qed simp

lemma prune_stamps: "stamps_ok pend \<Longrightarrow> stamps_ok (snd (prune_timed_out_messages c now pend))"
  by (induction pend) (auto simp: stamps_ok_def prune_timed_out_messages_def smap_map_def list_all_iff)

lemma pending_limit_defined: "bus_reachable specs b \<Longrightarrow> pending_limit c (Some b) port \<noteq> None"
  using channel_ids_ok [of b "comp_id c" port] reachable_ok [of specs b] configured_capacity_sums [of specs b "comp_id c" port]
  by (auto simp: pending_limit_def)

lemma collect_for_policy_defined:
  assumes wf: "smap_wf pend" and d: "distinct (trigger_policy_inputs_for c)" and ok: "stamps_ok pend" "smap_wf wm" "watermarks_ok wm"
    and late: "0 \<le> tp_watermark_lateness_ms (trigger_policy c)" "tp_watermark_lateness_ms (trigger_policy c) < 2 ^ 31"
  shows "\<exists>r. collect_for_policy tc c lane pend wm st = Some r"
proof -
  have all: "\<exists>r. collect_all_inputs tc c lane pend = Some r"
    using consume_front_defined [OF _ d wf] by (fastforce simp: collect_all_inputs_def Let_def split: option.splits)
  have sync: "\<exists>r. time_sync_loop (trigger_policy_inputs_for c) slop pend 0 = Some r" for slop
    using time_sync_defined [OF wf d stamps_ok_queue [OF ok(1)]] .
  have cond: "\<exists>r. condition_loop (trigger_policy_inputs_for c) pend 0 = Some r" by (rule condition_loop_defined [OF wf d])
  have wm: "\<exists>r. watermark_ports (watermark_lateness_ns (trigger_policy c)) pend wm = Some r"
    using watermark_ports_defined [OF ok] late by (simp add: watermark_lateness_ns_def)
  have "\<exists>r. collect_condition tc c lane pend st = Some r"
    using all cond by (fastforce simp: collect_condition_def Let_def split: prod.splits option.splits)
  moreover have "\<exists>r. collect_time_sync tc c lane pend st = Some r"
    using sync [of "timestamp_slop_ns (trigger_policy c)"] by (auto simp: collect_time_sync_def)
  moreover have "\<exists>r. collect_watermark tc c lane pend wm st = Some r" using wm by (auto simp: collect_watermark_def split_beta)
  ultimately show ?thesis using all unfolding collect_for_policy_def Let_def split_beta by auto
qed


lemma collect_pending_defined:
  assumes "smap_wf pend" and "distinct (trigger_policy_inputs_for c)" and "stamps_ok pend"
    and "smap_wf (smap_get [] (te_watermarks te) (comp_id c))" and "watermarks_ok (smap_get [] (te_watermarks te) (comp_id c))"
    and "0 \<le> tp_watermark_lateness_ms (trigger_policy c)" and "tp_watermark_lateness_ms (trigger_policy c) < 2 ^ 31"
    and "\<And>port. pending_limit c bus port \<noteq> None"
  shows "\<exists>r. collect_pending tc c lane bus pend te = Some r"
proof -
  obtain n1 p1 where p1: "prune_timed_out_messages c (tc_started_at tc) pend = (n1, p1)" by fastforce
  then have "smap_wf p1" "stamps_ok p1"
    using prune_moved [OF assms(1) p1] prune_stamps [OF assms(3), of c "tc_started_at tc"] by (simp_all add: moved_def)
  moreover from this obtain n2 p2 where p2: "enforce_pending_bounds c bus p1 = Some (n2, p2)" "stamps_ok p2"
    using enforce_defined [OF assms(8)] by blast
  ultimately have "smap_wf p2" using enforce_moved(1) by (auto simp: moved_def)
  from collect_for_policy_defined [OF this assms(2) p2(2) assms(4-7)] p1 p2(1)
  show ?thesis by (auto simp: collect_pending_def Let_def)
qed

section \<open>A worked example\<close>

definition demo_policy :: "string \<Rightarrow> string list \<Rightarrow> component_node_spec" where
  "demo_policy ty inputs =
     (default_component ''b'')\<lparr>event_sources := [\<lparr>es_id = [], es_type = ''message'', es_inputs = inputs, es_input = [], es_period_ms = 0\<rparr>],
        trigger_policy := default_trigger_policy\<lparr>tp_type := ty, tp_inputs := inputs, tp_sync_slop_ms := 5, tp_min_interval_ms := 10\<rparr>\<rparr>"

definition demo_message :: "string \<Rightarrow> int \<Rightarrow> channel_message" where
  "demo_message t ns =
     \<lparr>msg_channel_id = ''e'', msg_payload = Some (make_text_payload t kTextPayloadSchema), msg_published_at = 0, msg_received_at = 0,
      msg_sequence = 1, msg_deadline_missed = False, msg_event_timestamp = Some (make_event_timestamp KDevice ns ''cam''),
      msg_metadata = empty_metadata\<rparr>"

text \<open>The messages \<open>x\<close> and \<open>y\<close> on the first input, \<open>z\<close> on the second; \<open>x\<close> is too old for \<open>z\<close>.\<close>

definition demo_pending :: pending_messages where
  "demo_pending =
     [(''aux'', [demo_message ''z'' 21000000]), (''in'', [demo_message ''x'' 1000000, demo_message ''y'' 20000000])]"

definition demo_tick :: "int \<Rightarrow> tick_context" where
  "demo_tick t = \<lparr>tc_sequence = 1, tc_scheduled_at = t, tc_started_at = t\<rparr>"

section \<open>Properties\<close>

text \<open>
  C16. For a component whose trigger inputs are pairwise different, whatever its trigger policy, the trigger engine neither duplicates nor
  loses a message silently (with a repeated input it can do both): after a collection the delivered and the still pending messages
  are, as multisets of payload pointers, part of what was pending, and every other message is counted by one of the drop counters
  of the recorded statistics (time-outs, pending bounds, time synchronisation, lateness).
\<close>

theorem trigger_conserves_messages:
  assumes "collect_pending tc c lane bus pend te = Some (ivs, te')"
    and "smap_wf pend" and "distinct (trigger_policy_inputs_for c)"
  shows "\<exists>pend' st. map_of (te_pending te') (comp_id c) = Some pend' \<and> map_of (te_last_stats te') (comp_id c) = Some st \<and>
    pending_payloads pend' + delivered_payloads ivs \<subseteq># pending_payloads pend \<and>
    size (pending_payloads pend) = size (pending_payloads pend') + size (delivered_payloads ivs) + dropped_messages st"
  using collect_pending_moved [OF assms(2,3,1)] by (auto simp: moved_def)

lemma demo_pending_wf: "smap_wf demo_pending"
  by code_simp

theorem trigger_conserves_messages_witness:
  "\<exists>ivs te' pend' st. collect_pending (demo_tick 9) (demo_policy ''time_sync'' [''aux'', ''in'']) ''main'' None demo_pending empty_trigger_engine =
       Some (ivs, te') \<and> map_of (te_pending te') ''b'' = Some pend' \<and> map_of (te_last_stats te') ''b'' = Some st \<and>
     size (delivered_payloads ivs) = 2 \<and> 3 = size (pending_payloads pend') + 2 + dropped_messages st"
proof -
  let ?c = "demo_policy ''time_sync'' [''aux'', ''in'']"
  have "map_option (\<lambda>(ivs, te'). concat (map inv_ready_inputs ivs)) (collect_pending (demo_tick 9) ?c ''main'' None demo_pending empty_trigger_engine) =
      Some [''aux'', ''in'']" "map_option (\<lambda>(ivs, te'). length (concat (map inv_batch_payloads ivs)))
        (collect_pending (demo_tick 9) ?c ''main'' None demo_pending empty_trigger_engine) = Some 2" by code_simp+
  then obtain ivs te' where r: "collect_pending (demo_tick 9) ?c ''main'' None demo_pending empty_trigger_engine = Some (ivs, te')"
    and two: "size (delivered_payloads ivs) = 2" by (auto simp: delivered_payloads_def simp del: size_list_def)
  have "distinct (trigger_policy_inputs_for ?c)" "comp_id ?c = ''b''" by code_simp+
  moreover have "size (pending_payloads demo_pending) = 3" by (simp add: demo_pending_def)
  ultimately show ?thesis using trigger_conserves_messages [OF r demo_pending_wf] r two by auto
qed

text \<open>
  C18. On a reachable bus a collection is always defined: with pairwise different trigger inputs, no policy pops from an empty queue and
  no difference of event timestamps overflows, provided the timestamps of the pending messages and the recorded watermarks lie
  between 0 and 2^63 nanoseconds and the lateness is a non-negative 32-bit number of milliseconds.
\<close>

theorem trigger_collection_defined:
  assumes "bus_reachable specs b" and "smap_wf pend" and "distinct (trigger_policy_inputs_for c)" and "stamps_ok pend"
    and "smap_wf (smap_get [] (te_watermarks te) (comp_id c))" and "watermarks_ok (smap_get [] (te_watermarks te) (comp_id c))"
    and "0 \<le> tp_watermark_lateness_ms (trigger_policy c)" and "tp_watermark_lateness_ms (trigger_policy c) < 2 ^ 31"
  shows "\<exists>ivs te'. collect_pending tc c lane (Some b) pend te = Some (ivs, te')"
  using collect_pending_defined [OF assms(2-8) pending_limit_defined [OF assms(1)]] by auto


theorem trigger_collection_defined_witness:
  "\<exists>ivs te'. collect_pending (demo_tick 9) (demo_policy ''all_inputs'' [''in'', ''aux'']) ''main'' (Some (make_bus [demo_edge]))
     demo_pending empty_trigger_engine = Some (ivs, te')"
proof -
  let ?c = "demo_policy ''all_inputs'' [''in'', ''aux'']"
  have "bus_run [] (make_bus [demo_edge]) = Some (make_bus [demo_edge])" by simp
  then have b: "bus_reachable [demo_edge] (make_bus [demo_edge])" unfolding bus_reachable_def by blast
  have d: "distinct (trigger_policy_inputs_for ?c)" and st: "stamps_ok demo_pending" by code_simp+
  have wm: "smap_wf (smap_get [] (te_watermarks empty_trigger_engine) (comp_id ?c))"
    "watermarks_ok (smap_get [] (te_watermarks empty_trigger_engine) (comp_id ?c))" by code_simp+
  have late: "0 \<le> tp_watermark_lateness_ms (trigger_policy ?c)" "tp_watermark_lateness_ms (trigger_policy ?c) < 2 ^ 31" by code_simp+
  show ?thesis by (rule trigger_collection_defined [OF b demo_pending_wf d st wm late])
qed

lemma consume_front_none: "consume_front_messages is pend = None \<longleftrightarrow> (\<exists>i. length (pending_queue pend i) < count_list is i)"
proof (induction "is" arbitrary: pend)
  case (Cons i "is")
  show ?case
  proof (cases "pending_queue pend i")
    case Nil
    then show ?thesis by (auto simp: pop_pending_def intro!: exI [of _ i])
  next
    case (Cons m q)
    have "(length (pending_queue (smap_put i q pend) j) < count_list is j) = (length (pending_queue pend j) < count_list (i # is) j)" for j
      using Cons by auto
    then show ?thesis using Cons.IH [of "smap_put i q pend"] Cons by (simp add: pop_pending_def)
  qed
qed simp

text \<open>
  C19. Joining all inputs is undefined, a \<^verbatim>\<open>pop_front\<close> on an empty queue, exactly when an input is listed more often than it has pending
  messages while every listed input has one; with pairwise different inputs that never happens.
\<close>

theorem all_inputs_undefined_iff:
  "collect_all_inputs tc c lane pend = None \<longleftrightarrow>
     (\<forall>i \<in> set (trigger_policy_inputs_for c). pending_queue pend i \<noteq> []) \<and>
     (\<exists>i. length (pending_queue pend i) < count_list (trigger_policy_inputs_for c) i)"
proof -
  have "(front_messages_for_inputs is pend = None) = (\<exists>i \<in> set is. pending_queue pend i = [])" for "is"
    by (induction "is") (auto split: list.splits)
  from this [of "trigger_policy_inputs_for c"] show ?thesis
    using consume_front_none [of "trigger_policy_inputs_for c" pend] by (auto simp: collect_all_inputs_def Let_def split: option.splits)
qed

theorem all_inputs_undefined_iff_witness:
  "collect_all_inputs (demo_tick 9) (demo_policy ''all_inputs'' [''aux'', ''aux'']) ''main'' demo_pending = None"
proof -
  let ?c = "demo_policy ''all_inputs'' [''aux'', ''aux'']"
  have "list_all (\<lambda>i. pending_queue demo_pending i \<noteq> []) (trigger_policy_inputs_for ?c)" by code_simp
  then have "\<forall>i \<in> set (trigger_policy_inputs_for ?c). pending_queue demo_pending i \<noteq> []" by (simp add: list_all_iff)
  moreover have "length (pending_queue demo_pending ''aux'') < count_list (trigger_policy_inputs_for ?c) ''aux''" by code_simp
  ultimately show ?thesis by (subst all_inputs_undefined_iff) blast
qed

lemma any_loop_single: "length (fst (any_loop True mk pend)) \<le> 1"
proof (induction pend)
  case (Cons e pend)
  obtain port q where "e = (port, q)" by fastforce
  with Cons show ?case by (cases q) (auto simp: split_beta)
qed simp

lemma collect_condition_single:
  assumes "0 < tp_min_interval_ms (trigger_policy c)" and "collect_condition tc c lane pend st = Some (ivs, pend', st')"
  shows "length ivs \<le> 1"
  using assms(2) any_loop_single assms(1)
  by (auto simp: collect_condition_def Let_def split_beta collect_any_input_def collect_all_inputs_def split: if_splits option.splits)

lemma collect_for_policy_single:
  assumes "0 < tp_min_interval_ms (trigger_policy c)" and "collect_for_policy tc c lane pend wm st = Some (ivs, pend', wm', st')"
  shows "length ivs \<le> 1"
proof -
  have any: "length (fst (collect_any_input tc c lane p)) \<le> 1" for p
    using any_loop_single assms(1) by (simp add: collect_any_input_def Let_def)
  have co: "length (fst (collect_coalesced_any_input tc c lane p)) \<le> 1" for p
    by (simp add: collect_coalesced_any_input_def Let_def)
  have all: "collect_all_inputs tc c lane p = Some (i, p') \<Longrightarrow> length i \<le> 1" for p i p'
    by (auto simp: collect_all_inputs_def Let_def split: option.splits)
  have batch: "length (fst (collect_batch tc c lane p st)) \<le> 1" for p
    by (simp add: collect_batch_def Let_def split_beta)
  have sync: "collect_time_sync tc c lane p st = Some (i, p', s') \<Longrightarrow> length i \<le> 1" for p i p' s'
    by (auto simp: collect_time_sync_def split: option.splits)
  have wat: "collect_watermark tc c lane p wm st = Some (i, p', w', s') \<Longrightarrow> length i \<le> 1" for p i p' w' s'
    using any by (auto simp: collect_watermark_def split_beta)
  show ?thesis
    using assms(2) any [of pend] co [of pend] batch [of pend] all sync wat collect_condition_single [OF assms(1)]
    unfolding collect_for_policy_def Let_def split_beta by (auto split: if_splits)
qed

lemma collect_pending_rate:
  assumes "0 < tp_min_interval_ms (trigger_policy c)" and "collect_pending tc c lane bus pend te = Some (ivs, te')"
  shows "length ivs \<le> 1" and "ivs \<noteq> [] \<Longrightarrow> te_last_invoked te' = smap_put (comp_id c) (tc_started_at tc) (te_last_invoked te)"
    and "ivs \<noteq> [] \<Longrightarrow> map_of (te_last_invoked te) (comp_id c) = Some t \<Longrightarrow> tp_min_interval_ms (trigger_policy c) * 1000000 \<le> tc_started_at tc - t"
    and "ivs = [] \<Longrightarrow> te_last_invoked te' = te_last_invoked te"
  using assms collect_for_policy_single [OF assms(1)]
  by (auto simp: collect_pending_def Let_def split_beta record_invocation_def rate_limited_def split: option.splits if_splits)


text \<open>A sequence of collections on one engine; the bus may change between them. Each result is the component, the start time, the invocations.\<close>

record trigger_request =
  rq_now :: "nat \<Rightarrow> nat \<Rightarrow> int"
  rq_context :: tick_context
  rq_component :: component_node_spec
  rq_lane :: string
  rq_bus :: "channel_bus option"

fun trigger_run :: "trigger_request list \<Rightarrow> trigger_engine \<Rightarrow> (string \<times> int \<times> invocation list) list option" where
  "trigger_run [] te = Some []"
| "trigger_run (r # rs) te =
     (case collect_ready_invocations (rq_now r) (rq_context r) (rq_component r) (rq_lane r) te (rq_bus r) of
        None \<Rightarrow> None
      | Some (ivs, te', bus', ev) \<Rightarrow>
          map_option (\<lambda>out. (comp_id (rq_component r), tc_started_at (rq_context r), ivs) # out) (trigger_run rs te'))"

definition invocation_starts :: "string \<Rightarrow> (string \<times> int \<times> invocation list) list \<Rightarrow> int list" where
  "invocation_starts cid out = concat (map (\<lambda>(c, t, ivs). if c = cid then replicate (length ivs) t else []) out)"

lemma invocation_starts_simps [simp]:
  "invocation_starts cid [] = []"
  "invocation_starts cid ((c, t, ivs) # out) = (if c = cid then replicate (length ivs) t else []) @ invocation_starts cid out"
  by (simp_all add: invocation_starts_def)

lemma collect_ready_other:
  assumes "collect_ready_invocations now tc c lane te bus = Some (ivs, te', bus', ev)" and "comp_id c \<noteq> cid"
  shows "map_of (te_last_invoked te') cid = map_of (te_last_invoked te) cid"
  using assms
  by (auto simp: collect_ready_invocations_def collect_pending_def Let_def split_beta record_invocation_def split: option.splits if_splits)

lemma trigger_run_spaced:
  assumes "trigger_run rs te = Some out" and "\<forall>r \<in> set rs. comp_id (rq_component r) = comp_id c \<longrightarrow> rq_component r = c"
    and "0 < tp_min_interval_ms (trigger_policy c)" and "has_message_event_source c" and "\<not> has_timer_event_source c"
  shows "sorted_wrt (\<lambda>s t. tp_min_interval_ms (trigger_policy c) * 1000000 \<le> t - s)
    ((case map_of (te_last_invoked te) (comp_id c) of None \<Rightarrow> [] | Some t \<Rightarrow> [t]) @ invocation_starts (comp_id c) out)"
  using assms(1,2)
proof (induction rs arbitrary: te out)
  case Nil
  then show ?case by (auto split: option.splits)
next
  case (Cons r rs)
  let ?i = "tp_min_interval_ms (trigger_policy c) * 1000000" and ?c = "rq_component r" and ?t = "tc_started_at (rq_context r)"
  let ?last = "\<lambda>te. case map_of (te_last_invoked te) (comp_id c) of None \<Rightarrow> [] | Some t \<Rightarrow> [t]"
  from Cons.prems(1) obtain ivs te' bus' ev out' where
    r: "collect_ready_invocations (rq_now r) (rq_context r) ?c (rq_lane r) te (rq_bus r) = Some (ivs, te', bus', ev)"
    and rs: "trigger_run rs te' = Some out'" and out: "out = (comp_id ?c, ?t, ivs) # out'"
    by (auto split: option.splits)
  have IH: "sorted_wrt (\<lambda>s t. ?i \<le> t - s) (?last te' @ invocation_starts (comp_id c) out')"
    using Cons.IH [OF rs] Cons.prems(2) by simp
  show ?case
  proof (cases "comp_id ?c = comp_id c")
    case False
    with IH collect_ready_other [OF r False] out show ?thesis by simp
  next
    case True
    then have c: "?c = c" using Cons.prems(2) by simp
    with r assms(4,5) obtain pend where p: "collect_pending (rq_context r) c (rq_lane r) bus' pend te = Some (ivs, te')"
      by (auto simp: collect_ready_invocations_def split: option.splits)
    note rate = collect_pending_rate [OF assms(3) p]
    show ?thesis
    proof (cases "ivs = []")
      case True
      with IH rate(4) out show ?thesis by simp
    next
      case False
      with rate(1) have l: "length ivs = 1" by (cases ivs) auto
      from False rate(2) have "?last te' = [?t]" by simp
      with IH have ts: "sorted_wrt (\<lambda>s t. ?i \<le> t - s) (?t # invocation_starts (comp_id c) out')" by simp
      then show ?thesis
      proof (cases "map_of (te_last_invoked te) (comp_id c)")
        case None
        with ts l out c show ?thesis by simp
      next
        case (Some t)
        with rate(3) False have "?i \<le> ?t - t" by blast
        with ts l out c Some assms(3) show ?thesis by fastforce
      qed
    qed
  qed
qed


definition demo_request :: "int \<Rightarrow> trigger_request" where
  "demo_request t = \<lparr>rq_now = (\<lambda>_ _. t), rq_context = demo_tick t, rq_component = demo_policy ''any_input'' [''in''], rq_lane = ''main'', rq_bus = None\<rparr>"


lemma fold_best:
  fixes f :: "'a \<Rightarrow> int"
  defines "g \<equiv> \<lambda>x best. if f x > f best then x else best"
  shows "f b \<le> f (fold g xs b) \<and> (\<forall>x \<in> set xs. f x \<le> f (fold g xs b))"
proof (induction xs arbitrary: b)
  case (Cons x xs)
  have "f b \<le> f (g x b)" "f x \<le> f (g x b)" by (auto simp: g_def)
  with Cons.IH [of "g x b"] show ?case by (auto intro: order_trans)
qed simp

lemma max_item_max: "x \<in> set ms \<Longrightarrow> event_timestamp_ns (snd x) \<le> event_timestamp_ns (snd (max_item ms))"
  using fold_best [of "\<lambda>x. event_timestamp_ns (snd x)" "hd ms" ms] by (simp add: max_item_def)

lemma min_item_min: "x \<in> set ms \<Longrightarrow> event_timestamp_ns (snd (min_item ms)) \<le> event_timestamp_ns (snd x)"
  using fold_best [of "\<lambda>x. - event_timestamp_ns (snd x)" "hd ms" ms] by (simp add: min_item_def)

lemma time_sync_aligned:
  assumes "time_sync_loop inputs slop pend drops = Some (Some ms, pend', n)"
  shows "map fst ms = inputs \<and> (slop \<le> 0 \<or> \<not> messages_have_comparable_timestamps ms \<or>
    (\<forall>x \<in> set ms. \<forall>y \<in> set ms. event_timestamp_ns (snd x) - event_timestamp_ns (snd y) \<le> slop))"
  using assms
proof (induction inputs slop pend drops rule: time_sync_loop.induct)
  case (1 inputs slop pend drops)
  then obtain fs where fs: "front_messages_for_inputs inputs pend = Some fs"
    by (auto simp: time_sync_loop.simps [of inputs slop pend] split: option.splits)
  let ?hi = "event_timestamp_ns (snd (max_item fs))" and ?lo = "event_timestamp_ns (snd (min_item fs))"
  consider "slop \<le> 0 \<or> \<not> messages_have_comparable_timestamps fs" "ms = fs"
    | "i64_sub ?hi ?lo = Some (?hi - ?lo)" "?hi - ?lo \<le> slop" "ms = fs"
    | d p1 where "\<not> (slop \<le> 0 \<or> \<not> messages_have_comparable_timestamps fs)" "i64_sub ?hi ?lo = Some d" "\<not> d \<le> slop"
        "pop_pending (fst (min_item fs)) pend = Some p1" "time_sync_loop inputs slop p1 (Suc drops) = Some (Some ms, pend', n)"
    using "1.prems" fs unfolding time_sync_loop.simps [of inputs slop pend]
    by (auto simp: i64_sub_def split: option.splits if_splits)
  then show ?case
  proof cases
    case 1
    with front_messages_inputs [OF fs] show ?thesis by auto
  next
    case 2
    have "event_timestamp_ns (snd x) - event_timestamp_ns (snd y) \<le> slop" if "x \<in> set fs" "y \<in> set fs" for x y
      using max_item_max [OF that(1)] min_item_min [OF that(2)] 2(2) by linarith
    with 2 front_messages_inputs [OF fs] show ?thesis by auto
  next
    case 3
    with "1.IH" [OF fs] show ?thesis by blast
  qed
qed

text \<open>
  Time synchronisation: an invocation carries one message for every trigger input, in input order, and when a slop is configured and
  the event timestamps are comparable (all present, one domain), any two of them differ by at most the slop.
\<close>

lemma time_sync_aligns:
  assumes "collect_time_sync tc c lane pend st = Some (ivs, pend', st')" and "iv \<in> set ivs"
  shows "\<exists>ms. iv = invocation_from_messages EvMessage TrTimeSync tc c lane ms \<and> inv_ready_inputs iv = trigger_policy_inputs_for c \<and>
    inv_batch_payloads iv = map (msg_payload \<circ> snd) ms \<and>
    (tp_sync_slop_ms (trigger_policy c) \<le> 0 \<or> \<not> messages_have_comparable_timestamps ms \<or>
      (\<forall>x \<in> set ms. \<forall>y \<in> set ms. event_timestamp_ns (snd x) - event_timestamp_ns (snd y) \<le> tp_sync_slop_ms (trigger_policy c) * 1000000))"
proof -
  obtain ms n where "time_sync_loop (trigger_policy_inputs_for c) (timestamp_slop_ns (trigger_policy c)) pend 0 = Some (Some ms, pend', n)"
    and iv: "iv = invocation_from_messages EvMessage TrTimeSync tc c lane ms"
    using assms by (auto simp: collect_time_sync_def split: option.splits)
  from time_sync_aligned [OF this(1)] show ?thesis by (auto simp: iv timestamp_slop_ns_def)
qed

lemma time_sync_aligns_witness:
  "\<exists>iv pend' st' ms. collect_time_sync (demo_tick 9) (demo_policy ''time_sync'' [''in'', ''aux'']) ''main'' demo_pending zero_trigger_metrics =
       Some ([iv], pend', st') \<and> time_sync_drop_count st' = 1 \<and>
     iv = invocation_from_messages EvMessage TrTimeSync (demo_tick 9) (demo_policy ''time_sync'' [''in'', ''aux'']) ''main'' ms \<and>
     inv_ready_inputs iv = [''in'', ''aux'']"
proof -
  let ?c = "demo_policy ''time_sync'' [''in'', ''aux'']"
  have "map_option (\<lambda>(ivs, pend', st'). (length ivs, time_sync_drop_count st'))
      (collect_time_sync (demo_tick 9) ?c ''main'' demo_pending zero_trigger_metrics) = Some (1, 1)" by code_simp
  then obtain ivs pend' st' where "collect_time_sync (demo_tick 9) ?c ''main'' demo_pending zero_trigger_metrics = Some (ivs, pend', st')"
    "length ivs = 1" "time_sync_drop_count st' = 1" by auto
  moreover from this obtain iv where "ivs = [iv]" by (cases ivs) auto
  moreover have "trigger_policy_inputs_for ?c = [''in'', ''aux'']" by code_simp
  ultimately show ?thesis using time_sync_aligns [of "demo_tick 9" ?c "''main''" demo_pending zero_trigger_metrics ivs pend' st' iv] by auto
qed

end
