(* ===== verification/Scheduler.thy ===== *)
theory Scheduler
  imports Trigger_Policy
begin

text \<open>
  Data of the scheduler (\<^verbatim>\<open>include/topoexec/runtime/scheduler.hpp\<close>) and \<^verbatim>\<open>src/scheduler.cpp\<close>: lane configurations, metrics,
  stop tokens, run options and run results. Durations and time points are nanoseconds; a metric the code keeps as a double in
  milliseconds is kept here as the nanoseconds it is computed from.
\<close>

section \<open>Lanes and metrics\<close>

record scheduler_group_config =
  sg_id :: string
  sg_type :: string
  sg_hz :: fp
  sg_priority :: string
  sg_max_callback :: int
  sg_max_threads :: int
  sg_queue_capacity :: int
  sg_overflow :: string
  sg_wall_clock_enabled :: bool
  sg_period :: int
  sg_tick_budget :: int
  sg_overrun_policy :: string
  sg_thread_name :: string
  sg_cpu_affinity :: "int list"
  sg_nice_priority :: int
  sg_rt_policy :: string
  sg_rt_priority :: int
  sg_isolation_intent :: string

definition default_group :: "string \<Rightarrow> string \<Rightarrow> scheduler_group_config" where
  "default_group gid ty =
     \<lparr>sg_id = gid, sg_type = ty, sg_hz = Finite 0, sg_priority = [], sg_max_callback = 0, sg_max_threads = 0, sg_queue_capacity = 0,
      sg_overflow = ''reject'', sg_wall_clock_enabled = False, sg_period = 0, sg_tick_budget = 0, sg_overrun_policy = ''drop_tick'',
      sg_thread_name = [], sg_cpu_affinity = [], sg_nice_priority = 0, sg_rt_policy = ''none'', sg_rt_priority = 0,
      sg_isolation_intent = ''none''\<rparr>"

record scheduler_metrics =
  tick_count :: nat
  tick_jitter_ns :: int
  tick_overrun_count :: nat
  skipped_tick_count :: nat
  max_lateness_ns :: int
  last_callback_duration_ns :: int
  blocked_duration_ns :: int
  sm_queue_depth :: nat
  sm_queue_capacity :: nat
  sm_worker_count :: nat
  sm_active_count :: nat
  sm_in_flight_count :: nat
  enqueue_rejected_count :: nat
  priority_high_count :: nat
  priority_normal_count :: nat
  priority_low_count :: nat
  priority_background_count :: nat
  low_priority_rejected_count :: nat
  starvation_guard_count :: nat
  sm_completed_count :: nat

definition zero_scheduler_metrics :: scheduler_metrics where
  "zero_scheduler_metrics =
     \<lparr>tick_count = 0, tick_jitter_ns = 0, tick_overrun_count = 0, skipped_tick_count = 0, max_lateness_ns = 0,
      last_callback_duration_ns = 0, blocked_duration_ns = 0, sm_queue_depth = 0, sm_queue_capacity = 0, sm_worker_count = 0,
      sm_active_count = 0, sm_in_flight_count = 0, enqueue_rejected_count = 0, priority_high_count = 0, priority_normal_count = 0,
      priority_low_count = 0, priority_background_count = 0, low_priority_rejected_count = 0, starvation_guard_count = 0,
      sm_completed_count = 0\<rparr>"

record component_execution_metrics =
  execution_count :: nat
  error_count :: nat
  last_duration_ns :: nat
  max_duration_ns :: nat
  budget_overrun_count :: nat
  ce_cancellation_requested_count :: nat
  ce_cancellation_observed_count :: nat
  timeout_budget_exceeded_count :: nat
  max_in_flight_count :: nat

definition zero_component_metrics :: component_execution_metrics where
  "zero_component_metrics =
     \<lparr>execution_count = 0, error_count = 0, last_duration_ns = 0, max_duration_ns = 0, budget_overrun_count = 0,
      ce_cancellation_requested_count = 0, ce_cancellation_observed_count = 0, timeout_budget_exceeded_count = 0,
      max_in_flight_count = 0\<rparr>"

section \<open>Stop tokens\<close>

text \<open>A source and its tokens share one flag; a token that was not made by a source has none.\<close>

type_synonym stop_token = "bool option"

definition stop_token_valid :: "stop_token \<Rightarrow> bool" where
  "stop_token_valid t \<longleftrightarrow> t \<noteq> None"

definition stop_token_requested :: "stop_token \<Rightarrow> bool" where
  "stop_token_requested t \<longleftrightarrow> t = Some True"

definition new_stop_source :: bool where
  "new_stop_source = False"

definition source_token :: "bool \<Rightarrow> stop_token" where
  "source_token flag = Some flag"

definition request_stop :: "bool \<Rightarrow> bool" where
  "request_stop flag = True"

datatype scheduler_stop_reason = NotStarted | TickBound | DurationBound | Idle | StopRequested | StopError

fun stop_reason_to_string :: "scheduler_stop_reason \<Rightarrow> string" where
  "stop_reason_to_string NotStarted = ''not_started''"
| "stop_reason_to_string TickBound = ''tick_bound''"
| "stop_reason_to_string DurationBound = ''duration_bound''"
| "stop_reason_to_string Idle = ''idle''"
| "stop_reason_to_string StopRequested = ''stop_requested''"
| "stop_reason_to_string StopError = ''error''"

section \<open>Runs\<close>

text \<open>
  The stop token, the cancellation token and the callbacks of the options belong to the environment of a run; the
  clean-up timeout is only used by the runner.
\<close>

record scheduler_run_options =
  tick_iterations :: nat
  run_duration_ms :: nat
  run_until_idle :: bool
  max_recorded_ticked_tasks :: nat

record scheduler_run_result =
  run_ok :: bool
  run_errors :: "string list"
  stop_reason :: scheduler_stop_reason
  iterations :: nat
  tick_calls :: nat
  group_metrics :: "(string, scheduler_metrics) smap"
  component_metrics :: "(string, component_execution_metrics) smap"
  trigger_metrics :: "(string, trigger_runtime_metrics) smap"
  loop_iteration_count :: "(string, nat) smap"
  loop_converged_count :: "(string, nat) smap"
  loop_budget_overrun_count :: "(string, nat) smap"
  loop_max_iteration_hit_count :: "(string, nat) smap"
  loop_error_count :: "(string, nat) smap"
  loop_cancellation_requested_count :: "(string, nat) smap"
  loop_cancellation_observed_count :: "(string, nat) smap"
  loop_output_discarded_count :: "(string, nat) smap"
  loop_last_residual :: "(string, fp) smap"
  loop_stop_reason :: "(string, string) smap"
  ticked_tasks :: "string list"

definition empty_run_result :: scheduler_run_result where
  "empty_run_result =
     \<lparr>run_ok = True, run_errors = [], stop_reason = NotStarted, iterations = 0, tick_calls = 0, group_metrics = [],
      component_metrics = [], trigger_metrics = [], loop_iteration_count = [], loop_converged_count = [],
      loop_budget_overrun_count = [], loop_max_iteration_hit_count = [], loop_error_count = [],
      loop_cancellation_requested_count = [], loop_cancellation_observed_count = [], loop_output_discarded_count = [],
      loop_last_residual = [], loop_stop_reason = [], ticked_tasks = []\<rparr>"

section \<open>Registry and metrics tracker\<close>

type_synonym scheduler_registry = "(string, scheduler_group_config) smap"

definition add_group :: "scheduler_group_config \<Rightarrow> scheduler_registry \<Rightarrow> scheduler_registry" where
  "add_group g reg = smap_put (sg_id g) g reg"

definition get_group :: "scheduler_registry \<Rightarrow> string \<Rightarrow> scheduler_group_config option" where
  "get_group reg gid = map_of reg gid"

definition has_group :: "scheduler_registry \<Rightarrow> string \<Rightarrow> bool" where
  "has_group reg gid \<longleftrightarrow> map_of reg gid \<noteq> None"

definition registry_size :: "scheduler_registry \<Rightarrow> nat" where
  "registry_size reg = length reg"

definition observe_tick :: "int \<Rightarrow> int \<Rightarrow> int \<Rightarrow> scheduler_metrics \<Rightarrow> scheduler_metrics" where
  "observe_tick scheduled_at started_at callback_duration m =
     (let m1 = m\<lparr>tick_count := tick_count m + 1, tick_jitter_ns := started_at - scheduled_at,
                 last_callback_duration_ns := callback_duration\<rparr>
      in if last_callback_duration_ns m1 > 0 then m1\<lparr>sm_completed_count := sm_completed_count m1 + 1\<rparr> else m1)"

definition observe_skipped_tick :: "int \<Rightarrow> scheduler_metrics \<Rightarrow> scheduler_metrics" where
  "observe_skipped_tick blocked m = m\<lparr>skipped_tick_count := skipped_tick_count m + 1, blocked_duration_ns := blocked\<rparr>"

definition observe_worker_pool :: "nat \<Rightarrow> nat \<Rightarrow> nat \<Rightarrow> nat \<Rightarrow> nat \<Rightarrow> scheduler_metrics \<Rightarrow> scheduler_metrics" where
  "observe_worker_pool dep cap workers active in_flight m =
     m\<lparr>sm_queue_depth := dep, sm_queue_capacity := cap, sm_worker_count := workers, sm_active_count := active,
       sm_in_flight_count := in_flight\<rparr>"

definition observe_enqueue_rejected :: "scheduler_metrics \<Rightarrow> scheduler_metrics" where
  "observe_enqueue_rejected m = m\<lparr>enqueue_rejected_count := enqueue_rejected_count m + 1\<rparr>"

definition observe_completed :: "scheduler_metrics \<Rightarrow> scheduler_metrics" where
  "observe_completed m = m\<lparr>sm_completed_count := sm_completed_count m + 1\<rparr>"

end
