(* ===== verification/Component_Context.thy ===== *)
theory Component_Context
  imports Publication_Router State_Store Task_Executor Graph_Model
begin

text \<open>
  What a component sees of the runtime (\<^verbatim>\<open>src/component.cpp\<close>): the graph context with its input view and publishing functions, and the
  default implementations of the virtual methods. A pointer of the context is a flag that tells whether it is set; the objects it
  points to are arguments and results. The publisher of a context is the publication router, as the runner sets it up.
\<close>

section \<open>Status\<close>

datatype status = Success | StatusError string

fun status_ok :: "status \<Rightarrow> bool" where
  "status_ok Success = True"
| "status_ok (StatusError m) = False"

fun status_message :: "status \<Rightarrow> string" where
  "status_message Success = []"
| "status_message (StatusError m) = m"

text \<open>The \<^verbatim>\<open>*_status\<close> methods: \<open>thrown\<close> is the text of the exception that the wrapped method throws, if it throws one.\<close>

definition method_status :: "string option \<Rightarrow> status" where
  "method_status thrown = (case thrown of None \<Rightarrow> Success | Some what \<Rightarrow> StatusError what)"

record component_state_snapshot =
  cst_component_type :: string
  cst_version :: string
  cst_payload :: payload_ptr
  cst_size_bytes :: nat

definition default_snapshot_state :: component_state_snapshot where
  "default_snapshot_state = \<lparr>cst_component_type = [], cst_version = [], cst_payload = None, cst_size_bytes = 0\<rparr>"

definition default_restore_state :: "component_state_snapshot \<Rightarrow> status" where
  "default_restore_state sn =
     (if cst_payload sn = None \<and> cst_version sn = [] then Success else StatusError ''component does not implement restore_state'')"

definition default_validate_config :: "config_view \<Rightarrow> status" where
  "default_validate_config c = Success"

text \<open>\<open>configure\<close> is the component's own method: the exception it throws on a configuration, if any.\<close>

definition default_apply_config :: "(config_view \<Rightarrow> string option) \<Rightarrow> config_view \<Rightarrow> status" where
  "default_apply_config configure c = method_status (configure c)"

definition default_execute_status :: status where
  "default_execute_status = method_status (Some ''component does not implement execute'')"

section \<open>The graph context\<close>

record loop_iteration_context =
  li_loop_id :: string
  li_policy_type :: string
  li_iteration_index :: nat
  li_iteration_number :: nat
  li_max_iterations :: nat

definition no_loop_iteration :: loop_iteration_context where
  "no_loop_iteration = \<lparr>li_loop_id = [], li_policy_type = [], li_iteration_index = 0, li_iteration_number = 0, li_max_iterations = 0\<rparr>"

record loop_convergence_report =
  lr_converged :: bool
  lr_residual :: "fp option"
  lr_reason :: string

record graph_context =
  gc_channels :: bool
  gc_publisher :: bool
  gc_task_executor :: bool
  gc_state_store :: bool
  gc_config_store :: bool
  gc_invocation_metadata :: invocation_metadata
  gc_loop_iteration :: loop_iteration_context
  gc_reporter :: bool
  gc_graph_name :: string
  gc_component_id :: string

definition publication_metadata_for :: "graph_context \<Rightarrow> string \<Rightarrow> invocation_metadata" where
  "publication_metadata_for ctx port =
     (let md = (gc_invocation_metadata ctx)\<lparr>source_component := gc_component_id ctx, source_port := port\<rparr>
      in if transaction_id md = [] then md\<lparr>transaction_id := correlation_id md\<rparr> else md)"

definition context_endpoint :: "graph_context \<Rightarrow> string \<Rightarrow> string" where
  "context_endpoint ctx port = gc_component_id ctx @ ''.'' @ port"

text \<open>Results are \<open>None\<close> where a lookup of the bus throws.\<close>

definition context_publish_shared ::
    "(nat \<Rightarrow> int) \<Rightarrow> graph_context \<Rightarrow> string \<Rightarrow> payload_ptr \<Rightarrow> event_timestamp option \<Rightarrow> router \<times> channel_bus \<Rightarrow>
     (publish_result \<times> router \<times> channel_bus) option" where
  "context_publish_shared now ctx port p ts rb =
     (let (rt, b) = rb; src = context_endpoint ctx port; md = publication_metadata_for ctx port
      in if gc_publisher ctx then
           (let (r, rt') = router_publish_shared_from_with_metadata src p md ts rt in Some (r, rt', b))
         else if gc_channels ctx then
           map_option (\<lambda>(r, b', ev). (r, rt, b')) (publish_shared_from_with_metadata now src p md ts b)
         else Some (reject ''graph context has no publisher'', rt, b))"

definition context_publish ::
    "(nat \<Rightarrow> int) \<Rightarrow> graph_context \<Rightarrow> string \<Rightarrow> runtime_payload \<Rightarrow> event_timestamp option \<Rightarrow> router \<times> channel_bus \<Rightarrow>
     (publish_result \<times> router \<times> channel_bus) option" where
  "context_publish now ctx port p ts rb =
     (let (rt, b) = rb; src = context_endpoint ctx port; md = publication_metadata_for ctx port
      in if gc_publisher ctx then
           (let (r, rt') = router_publish_from_with_metadata src p md ts rt in Some (r, rt', b))
         else if gc_channels ctx then
           map_option (\<lambda>(r, b', ev). (r, rt, b')) (publish_from_with_metadata now src p md ts b)
         else Some (reject ''graph context has no publisher'', rt, b))"

text \<open>The input view of a context.\<close>

definition read_payload :: "channel_read_result \<Rightarrow> payload_ptr" where
  "read_payload r = (if \<not> rd_ok r then None else case rd_message r of None \<Rightarrow> None | Some m \<Rightarrow> msg_payload m)"

definition view_read_latest_update ::
    "(nat \<Rightarrow> int) \<Rightarrow> graph_context \<Rightarrow> string \<Rightarrow> channel_bus \<Rightarrow> (payload_ptr \<times> channel_bus) option" where
  "view_read_latest_update now ctx port b =
     (if \<not> gc_channels ctx then Some (None, b)
      else map_option (\<lambda>(r, b', ev). (read_payload r, b')) (read_latest_update_for_component_port now (gc_component_id ctx) port b))"

definition view_peek_latest ::
    "(nat \<Rightarrow> int) \<Rightarrow> graph_context \<Rightarrow> string \<Rightarrow> channel_bus \<Rightarrow> (payload_ptr \<times> channel_bus) option" where
  "view_peek_latest now ctx port b =
     (if \<not> gc_channels ctx then Some (None, b)
      else map_option (\<lambda>(r, b', ev). (read_payload r, b')) (peek_latest_for_component_port now (gc_component_id ctx) port b))"

definition view_drain ::
    "(nat \<Rightarrow> int) \<Rightarrow> graph_context \<Rightarrow> string \<Rightarrow> nat \<Rightarrow> channel_bus \<Rightarrow> (payload_ptr list \<times> channel_bus) option" where
  "view_drain now ctx port max_batch b =
     (if \<not> gc_channels ctx then Some ([], b)
      else map_option (\<lambda>(ms, b', ev). (map msg_payload ms, b')) (drain_for_component_port now (gc_component_id ctx) port max_batch b))"

text \<open>Submitting a task: the submission, and what its completion callback publishes when the task has completed.\<close>

definition context_submit_task ::
    "graph_context \<Rightarrow> task_work option \<Rightarrow> det_executor \<Rightarrow> submission_result \<times> (nat \<times> health_event) option \<times> det_executor" where
  "context_submit_task ctx work x =
     (if \<not> gc_task_executor ctx
      then (\<lparr>sub_accepted = False, sub_task_id = 0, sub_reason = ''graph context has no task executor''\<rparr>, None, x)
      else dx_submit work True x)"

definition context_task_completed ::
    "(nat \<Rightarrow> int) \<Rightarrow> graph_context \<Rightarrow> string \<Rightarrow> task_completion \<Rightarrow> router \<times> channel_bus \<Rightarrow> (router \<times> channel_bus) option" where
  "context_task_completed now ctx port c rb =
     (if \<not> (gc_publisher ctx \<or> gc_channels ctx) \<or> \<not> tc_ok c \<or> tc_payload c = None then Some rb
      else map_option snd (context_publish_shared now ctx port (tc_payload c) None rb))"

section \<open>Calls of a component\<close>

text \<open>
  A component is user code. While it runs it may read its inputs, publish, stage state and configuration and report the convergence
  of the loop it is in, through its context.
\<close>

datatype component_call =
    CallPublish string runtime_payload "event_timestamp option"
  | CallPublishShared string payload_ptr "event_timestamp option"
  | CallReadLatest string
  | CallPeek string
  | CallDrain string nat
  | CallStageWrite string string string payload_ptr
  | CallReadState string string
  | CallStageConfig string config_view bool int
  | CallReadConfig string
  | CallReportConvergence loop_convergence_report

end
