(* ===== verification/Event_Runtime.thy ===== *)
theory Event_Runtime
  imports Scheduler Component_Context Graph_Compile "HOL-Library.Monad_Syntax"
begin

text \<open>
  The event runtime of \<^verbatim>\<open>src/event_runtime.cpp\<close>: one run executes the regions of the compiled plan iteration by iteration on the
  channel bus, the publication router, the state and configuration stores and the trigger engine.

  \<^item> A run is modelled without a trace collector (the pointer is null); all other effects are there. The pointers to the bus, the
    router, the stores and the health sink are flags of \<open>event_runtime\<close>.
  \<^item> What the code cannot control is the \<open>environment\<close>: clock readings, answers of the stop and cancellation tokens, what the
    components do when they are executed or configured, how the calls of invocations that run on several workers interleave. Each
    observation of the environment has a number, so any behaviour over time is an environment.
  \<^item> The hooks of a component answer with a status, the error channel that the documentation gives them: the default
    \<^verbatim>\<open>execute_status\<close> and \<^verbatim>\<open>configure_status\<close> (to which \<^verbatim>\<open>apply_config\<close> delegates) turn the exceptions of the plain hooks
    into a status (\<^verbatim>\<open>component.cpp\<close>). An override of \<^verbatim>\<open>validate_config\<close> or \<^verbatim>\<open>apply_config\<close> that throws is not modelled: its
    exception leaves the run.
  \<^item> \<open>None\<close> is undefined behaviour in the trigger engine or an exception of a bus lookup.
\<close>

section \<open>Lane and loop helpers\<close>

record event_runtime_component =
  erc_id :: string
  erc_component :: bool
  erc_context :: graph_context
  erc_spec :: component_node_spec
  erc_lane :: scheduler_group_config

definition lane_map :: "event_runtime_component list \<Rightarrow> (string, scheduler_group_config) smap" where
  "lane_map cs = fold (\<lambda>c. smap_put (sg_id (erc_lane c)) (erc_lane c)) cs []"

definition non_negative_duration_ns :: "int \<Rightarrow> nat" where
  "non_negative_duration_ns d = (if d < 0 then 0 else nat d)"

definition loop_policy_converged_after_iteration :: "loop_policy_spec \<Rightarrow> bool" where
  "loop_policy_converged_after_iteration p \<longleftrightarrow> lp_convergence p \<in> {''single_pass'', ''after_first_iteration'', ''always''}"

definition loop_policy_is_solver_iteration :: "loop_policy_spec \<Rightarrow> bool" where
  "loop_policy_is_solver_iteration p \<longleftrightarrow> lp_type p = ''solver_iteration''"

definition effective_partial_success_policy :: "loop_policy_spec \<Rightarrow> string" where
  "effective_partial_success_policy p =
     (if lp_partial_success p \<noteq> [] then lp_partial_success p
      else if loop_policy_is_solver_iteration p then ''discard_outputs'' else ''commit_outputs'')"

record loop_convergence_snapshot =
  lc_reported :: bool
  lc_converged :: bool
  lc_residual :: "fp option"
  lc_reason :: string

definition empty_convergence :: loop_convergence_snapshot where
  "empty_convergence = \<lparr>lc_reported = False, lc_converged = False, lc_residual = None, lc_reason = []\<rparr>"

definition record_convergence :: "loop_convergence_report \<Rightarrow> loop_convergence_snapshot \<Rightarrow> loop_convergence_snapshot" where
  "record_convergence r s =
     \<lparr>lc_reported = True, lc_converged = lc_converged s \<or> lr_converged r,
      lc_residual = (if lr_residual r \<noteq> None then lr_residual r else lc_residual s),
      lc_reason = (if lr_reason r \<noteq> [] then lr_reason r else lc_reason s)\<rparr>"

definition worker_count_for_lane :: "scheduler_group_config \<Rightarrow> nat" where
  "worker_count_for_lane l = (if sg_max_threads l > 0 then nat (sg_max_threads l) else 1)"

definition queue_capacity_for_lane :: "scheduler_group_config \<Rightarrow> nat \<Rightarrow> nat \<Rightarrow> nat" where
  "queue_capacity_for_lane l ready active =
     (if sg_queue_capacity l > 0 then nat (sg_queue_capacity l) else if ready > active then ready - active else 0)"

definition lane_overflow_drops_oldest :: "string \<Rightarrow> bool" where
  "lane_overflow_drops_oldest ov \<longleftrightarrow> ov \<in> {''drop_oldest'', ''overwrite''}"

definition lane_overflow_rejects_newest :: "string \<Rightarrow> bool" where
  "lane_overflow_rejects_newest ov \<longleftrightarrow> ov \<in> {''drop_newest'', ''reject'', ''reject_new'', ''block''}"

definition lane_overflow_fails_fast :: "string \<Rightarrow> bool" where
  "lane_overflow_fails_fast ov \<longleftrightarrow> ov = ''fail_fast''"

definition record_priority_metric :: "string \<Rightarrow> scheduler_metrics \<Rightarrow> scheduler_metrics" where
  "record_priority_metric p m =
     (if p = ''high'' then m\<lparr>priority_high_count := priority_high_count m + 1\<rparr>
      else if p = ''low'' then m\<lparr>priority_low_count := priority_low_count m + 1\<rparr>
      else if p = ''background'' then m\<lparr>priority_background_count := priority_background_count m + 1\<rparr>
      else m\<lparr>priority_normal_count := priority_normal_count m + 1\<rparr>)"

definition is_low_priority_for_rejection_metric :: "invocation \<Rightarrow> bool" where
  "is_low_priority_for_rejection_metric iv \<longleftrightarrow> inv_priority iv \<in> {''low'', ''background''}"

text \<open>\<open>hzp\<close> is the period, in nanoseconds, that the floating point expression \<^verbatim>\<open>1.0 / hz\<close> is cast to.\<close>

definition fixed_rate_period_for_lane :: "(fp \<Rightarrow> int) \<Rightarrow> scheduler_group_config \<Rightarrow> int" where
  "fixed_rate_period_for_lane hzp l =
     (if sg_period l > 0 then sg_period l else if fp_less (Finite 0) (sg_hz l) then hzp (sg_hz l) else 0)"

definition fixed_rate_budget_for_lane :: "(fp \<Rightarrow> int) \<Rightarrow> scheduler_group_config \<Rightarrow> int" where
  "fixed_rate_budget_for_lane hzp l = (if sg_tick_budget l > 0 then sg_tick_budget l else fixed_rate_period_for_lane hzp l)"

definition missed_periods :: "int \<Rightarrow> int \<Rightarrow> nat" where
  "missed_periods lateness period = (if lateness \<le> 0 \<or> period \<le> 0 then 0 else nat (lateness div period))"

definition bounded_thread_name :: "string \<Rightarrow> nat \<Rightarrow> string" where
  "bounded_thread_name base worker = take 15 ((if base = [] then ''topoexec'' else base) @ ''-'' @ nat_to_string worker)"

definition kDefaultRunUntilIdleIterationBound :: nat where
  "kDefaultRunUntilIdleIterationBound = 1000"

section \<open>The queue of a worker pool\<close>

record work_item =
  wi_invocation :: invocation
  wi_priority_rank :: int
  wi_enqueue_order :: nat
  wi_component_id :: string

record worker_pool =
  wp_worker_count :: nat
  wp_queue :: "work_item list"
  wp_next_enqueue_order :: nat
  wp_stop_requested :: bool

definition make_worker_pool :: "nat \<Rightarrow> worker_pool" where
  "make_worker_pool n = \<lparr>wp_worker_count = max n 1, wp_queue = [], wp_next_enqueue_order = 0, wp_stop_requested = False\<rparr>"

definition pool_submit :: "invocation \<Rightarrow> int \<Rightarrow> string \<Rightarrow> worker_pool \<Rightarrow> worker_pool" where
  "pool_submit iv rank cid p =
     p\<lparr>wp_queue := wp_queue p @ [\<lparr>wi_invocation = iv, wi_priority_rank = rank, wi_enqueue_order = wp_next_enqueue_order p,
                                  wi_component_id = cid\<rparr>],
       wp_next_enqueue_order := wp_next_enqueue_order p + 1\<rparr>"

definition pool_stop :: "worker_pool \<Rightarrow> worker_pool" where
  "pool_stop p = p\<lparr>wp_stop_requested := True\<rparr>"

definition work_before :: "work_item \<Rightarrow> work_item \<Rightarrow> bool" where
  "work_before a b =
     (if wi_priority_rank a \<noteq> wi_priority_rank b then wi_priority_rank a > wi_priority_rank b
      else if wi_enqueue_order a \<noteq> wi_enqueue_order b then wi_enqueue_order a < wi_enqueue_order b
      else wi_component_id a < wi_component_id b)"

text \<open>
  One turn of \<^verbatim>\<open>worker_loop\<close> under the lock: \<open>None\<close> while the worker waits, otherwise the item it takes (no item: the worker returns)
  and the pool. \<^verbatim>\<open>std::min_element\<close> returns the first of the least items.
\<close>

definition best_item :: "work_item \<Rightarrow> work_item list \<Rightarrow> work_item" where
  "best_item x xs = fold (\<lambda>y best. if work_before y best then y else best) xs x"

definition pool_take :: "worker_pool \<Rightarrow> (work_item option \<times> worker_pool) option" where
  "pool_take p =
     (case wp_queue p of
        [] \<Rightarrow> if wp_stop_requested p then Some (None, p) else None
      | x # xs \<Rightarrow> Some (Some (best_item x xs), p\<lparr>wp_queue := remove1 (best_item x xs) (x # xs)\<rparr>))"

section \<open>The runtime and its environment\<close>

record event_runtime =
  er_channels :: bool
  er_publications :: bool
  er_state_store :: bool
  er_config_store :: bool
  er_health_events :: bool
  er_compiled_plan :: graph_compiled_plan
  er_components :: "event_runtime_component list"

definition add_component :: "event_runtime_component \<Rightarrow> event_runtime \<Rightarrow> event_runtime" where
  "add_component c er = er\<lparr>er_components := er_components er @ [c]\<rparr>"

definition component_count :: "event_runtime \<Rightarrow> nat" where
  "component_count er = length (er_components er)"

record behaviour =
  bh_calls :: "component_call list"
  bh_status :: status
  bh_observed :: bool

text \<open>The hooks of the components answer with a status (and, where they have a context, with what they called through it).\<close>

record environment =
  env_clock :: "nat \<Rightarrow> nat \<Rightarrow> nat \<Rightarrow> int"
  env_stop :: "nat \<Rightarrow> bool"
  env_cancel :: "nat \<Rightarrow> bool"
  env_cancel_valid :: bool
  env_execute :: "nat \<Rightarrow> string \<Rightarrow> invocation \<Rightarrow> loop_iteration_context \<Rightarrow> behaviour"
  env_validate_config :: "nat \<Rightarrow> string \<Rightarrow> config_view \<Rightarrow> status"
  env_apply_config :: "nat \<Rightarrow> string \<Rightarrow> config_view \<Rightarrow> behaviour"
  env_interleaving :: "nat \<Rightarrow> nat list"
  env_after_iteration :: "nat \<Rightarrow> (graph_context \<times> component_call) list"
  env_hz_period :: "fp \<Rightarrow> int"

record run_state =
  rs_obs :: nat
  rs_router :: router
  rs_bus :: channel_bus
  rs_state :: state_store
  rs_config :: config_store
  rs_trigger :: trigger_engine
  rs_in_flight :: "(string, nat) smap"
  rs_loop :: loop_convergence_snapshot
  rs_active_loop :: "loop_iteration_context option"
  rs_next_ticks :: "(string, int) smap"
  rs_current_ticks :: "(string, int) smap"
  rs_health :: "health_event list"
  rs_applied :: "(string \<times> config_view) list"
  rs_result :: scheduler_run_result

definition now_at :: "environment \<Rightarrow> run_state \<Rightarrow> int" where
  "now_at env s = env_clock env (rs_obs s) 0 0"

definition observe :: "run_state \<Rightarrow> run_state" where
  "observe s = s\<lparr>rs_obs := Suc (rs_obs s)\<rparr>"

definition runtime_cancel_requested :: "environment \<Rightarrow> run_state \<Rightarrow> bool" where
  "runtime_cancel_requested env s = (if env_cancel_valid env then env_cancel env (rs_obs s) else env_stop env (rs_obs s))"

definition stop_or_cancel :: "environment \<Rightarrow> run_state \<Rightarrow> bool" where
  "stop_or_cancel env s \<longleftrightarrow> env_stop env (rs_obs s) \<or> runtime_cancel_requested env s"

definition upd_result :: "(scheduler_run_result \<Rightarrow> scheduler_run_result) \<Rightarrow> run_state \<Rightarrow> run_state" where
  "upd_result f s = s\<lparr>rs_result := f (rs_result s)\<rparr>"

definition add_run_error :: "string \<Rightarrow> run_state \<Rightarrow> run_state" where
  "add_run_error msg = upd_result (\<lambda>r. r\<lparr>run_errors := run_errors r @ [msg]\<rparr>)"

text \<open>\<^verbatim>\<open>result.ok = false; result.stop_reason = kError; result.errors.push_back(msg)\<close>\<close>

definition fail_run :: "string \<Rightarrow> run_state \<Rightarrow> run_state" where
  "fail_run msg s = add_run_error msg (upd_result (\<lambda>r. r\<lparr>run_ok := False, stop_reason := StopError\<rparr>) s)"

definition bump :: "string \<Rightarrow> (string, nat) smap \<Rightarrow> (string, nat) smap" where
  "bump k m = smap_put k (smap_get 0 m k + 1) m"

definition upd_group :: "string \<Rightarrow> (scheduler_metrics \<Rightarrow> scheduler_metrics) \<Rightarrow> run_state \<Rightarrow> run_state" where
  "upd_group lane f =
     upd_result (\<lambda>r. r\<lparr>group_metrics := smap_put lane (f (smap_get zero_scheduler_metrics (group_metrics r) lane)) (group_metrics r)\<rparr>)"

definition upd_component ::
    "string \<Rightarrow> (component_execution_metrics \<Rightarrow> component_execution_metrics) \<Rightarrow> run_state \<Rightarrow> run_state" where
  "upd_component cid f =
     upd_result (\<lambda>r. r\<lparr>component_metrics := smap_put cid (f (smap_get zero_component_metrics (component_metrics r) cid)) (component_metrics r)\<rparr>)"

definition upd_trigger :: "string \<Rightarrow> (trigger_runtime_metrics \<Rightarrow> trigger_runtime_metrics) \<Rightarrow> run_state \<Rightarrow> run_state" where
  "upd_trigger cid f =
     upd_result (\<lambda>r. r\<lparr>trigger_metrics := smap_put cid (f (smap_get zero_trigger_metrics (trigger_metrics r) cid)) (trigger_metrics r)\<rparr>)"

definition component_for_id :: "event_runtime \<Rightarrow> string \<Rightarrow> event_runtime_component option" where
  "component_for_id er cid = find (\<lambda>c. erc_id c = cid) (er_components er)"

section \<open>Calls of components\<close>

fun call_exec :: "(nat \<Rightarrow> int) \<Rightarrow> graph_context \<Rightarrow> component_call \<Rightarrow> run_state \<Rightarrow> run_state option" where
  "call_exec now ctx (CallPublish port p ts) s =
     map_option (\<lambda>(r, rt, b). s\<lparr>rs_router := rt, rs_bus := b\<rparr>) (context_publish now ctx port p ts (rs_router s, rs_bus s))"
| "call_exec now ctx (CallPublishShared port p ts) s =
     map_option (\<lambda>(r, rt, b). s\<lparr>rs_router := rt, rs_bus := b\<rparr>) (context_publish_shared now ctx port p ts (rs_router s, rs_bus s))"
| "call_exec now ctx (CallReadLatest port) s = map_option (\<lambda>(p, b). s\<lparr>rs_bus := b\<rparr>) (view_read_latest_update now ctx port (rs_bus s))"
| "call_exec now ctx (CallPeek port) s = map_option (\<lambda>(p, b). s\<lparr>rs_bus := b\<rparr>) (view_peek_latest now ctx port (rs_bus s))"
| "call_exec now ctx (CallDrain port n) s = map_option (\<lambda>(ps, b). s\<lparr>rs_bus := b\<rparr>) (view_drain now ctx port n (rs_bus s))"
| "call_exec now ctx (CallStageWrite ns key w p) s =
     Some (if gc_state_store ctx then s\<lparr>rs_state := snd (stage_write ns key w p (rs_state s))\<rparr> else s)"
| "call_exec now ctx (CallReadState ns key) s =
     Some (if gc_state_store ctx then s\<lparr>rs_state := snd (state_read ns key (rs_state s))\<rparr> else s)"
| "call_exec now ctx (CallStageConfig cid c on_boundary t) s =
     Some (if gc_config_store ctx
           then s\<lparr>rs_config := snd (stage_component_config_update cid c on_boundary t (rs_config s))\<rparr> else s)"
| "call_exec now ctx (CallReadConfig cid) s =
     Some (if gc_config_store ctx then s\<lparr>rs_config := snd (component_config cid (rs_config s))\<rparr> else s)"
| "call_exec now ctx (CallReportConvergence r) s =
     Some (if gc_reporter ctx then s\<lparr>rs_loop := record_convergence r (rs_loop s)\<rparr> else s)"

fun calls_exec :: "(nat \<Rightarrow> nat \<Rightarrow> int) \<Rightarrow> nat \<Rightarrow> (graph_context \<times> component_call) list \<Rightarrow> run_state \<Rightarrow> run_state option" where
  "calls_exec now n [] s = Some s"
| "calls_exec now n ((ctx, call) # calls) s = do { s1 \<leftarrow> call_exec (now n) ctx call s; calls_exec now (Suc n) calls s1 }"

text \<open>The calls of several workers in the order a schedule gives: each entry lets one worker make its next call.\<close>

fun weave :: "nat list \<Rightarrow> 'a list list \<Rightarrow> 'a list" where
  "weave [] xss = concat xss"
| "weave (i # is) xss =
     (if i < length xss \<and> xss ! i \<noteq> [] then hd (xss ! i) # weave is (xss[i := tl (xss ! i)]) else weave is xss)"

section \<open>Configuration transactions\<close>

definition rollback_config :: "run_state \<Rightarrow> run_state" where
  "rollback_config s = s\<lparr>rs_config := snd (rollback_pending_updates (rs_config s))\<rparr>"

text \<open>The first loop of \<^verbatim>\<open>apply_config_transaction\<close>: every update is validated and the present configuration remembered.\<close>

fun validate_updates ::
    "environment \<Rightarrow> event_runtime \<Rightarrow> (string \<times> config_view) list \<Rightarrow> (string, config_view) smap \<Rightarrow> run_state \<Rightarrow>
     (string, config_view) smap option \<times> run_state" where
  "validate_updates env er [] prev s = (Some prev, s)"
| "validate_updates env er ((cid, cfg) # us) prev s =
     (case component_for_id er cid of
        None \<Rightarrow> (None, fail_run (''config transaction references missing component '' @ cid) (rollback_config s))
      | Some c \<Rightarrow>
          if \<not> erc_component c
          then (None, fail_run (''config transaction references missing component '' @ cid) (rollback_config s))
          else
            (case env_validate_config env (rs_obs s) cid cfg of
               StatusError msg \<Rightarrow>
                 (None, fail_run (''config transaction validation failed for component '' @ cid @ '': '' @ msg) (rollback_config (observe s)))
             | Success \<Rightarrow>
                 (let (old, cs) = component_config cid (rs_config s)
                  in validate_updates env er us (smap_put cid old prev) ((observe s)\<lparr>rs_config := cs\<rparr>))))"

text \<open>A call of \<^verbatim>\<open>apply_config\<close> on a component; \<open>rs_applied\<close> lists the calls.\<close>

definition apply_component_config ::
    "environment \<Rightarrow> event_runtime_component \<Rightarrow> config_view \<Rightarrow> run_state \<Rightarrow> (status \<times> run_state) option" where
  "apply_component_config env c cfg s =
     (let bh = env_apply_config env (rs_obs s) (erc_id c) cfg
      in map_option (\<lambda>s1. (bh_status bh, s1\<lparr>rs_applied := rs_applied s1 @ [(erc_id c, cfg)]\<rparr>))
           (calls_exec (env_clock env (rs_obs s)) 0 (map (Pair (erc_context c)) (bh_calls bh)) (observe s)))"

definition note_restore :: "string \<Rightarrow> status \<Rightarrow> run_state \<Rightarrow> run_state" where
  "note_restore cid st s =
     (if status_ok st then s
      else add_run_error (''config transaction rollback failed for component '' @ cid @ '': '' @ status_message st) s)"

fun restore_applied ::
    "environment \<Rightarrow> event_runtime \<Rightarrow> (string, config_view) smap \<Rightarrow> string list \<Rightarrow> run_state \<Rightarrow> run_state option" where
  "restore_applied env er prev [] s = Some s"
| "restore_applied env er prev (cid # cids) s =
     (case component_for_id er cid of
        None \<Rightarrow> restore_applied env er prev cids s
      | Some c \<Rightarrow>
          if \<not> erc_component c then restore_applied env er prev cids s
          else do {
            (st, s1) \<leftarrow> apply_component_config env c (smap_get empty_config_view prev cid) s;
            restore_applied env er prev cids (note_restore cid st s1)
          })"

text \<open>The second loop: \<open>applied\<close> are the components that took their new configuration, last first.\<close>

fun apply_updates ::
    "environment \<Rightarrow> event_runtime \<Rightarrow> (string, config_view) smap \<Rightarrow> string list \<Rightarrow> (string \<times> config_view) list \<Rightarrow> run_state \<Rightarrow>
     (bool \<times> run_state) option" where
  "apply_updates env er prev applied [] s = Some (True, s)"
| "apply_updates env er prev applied ((cid, cfg) # us) s =
     (case component_for_id er cid of
        None \<Rightarrow> None
      | Some c \<Rightarrow> do {
          (st, s1) \<leftarrow> apply_component_config env c cfg s;
          if status_ok st then apply_updates env er prev (cid # applied) us s1
          else do {
            (st', s2) \<leftarrow> apply_component_config env c (smap_get empty_config_view prev cid) s1;
            s3 \<leftarrow> restore_applied env er prev applied (note_restore cid st' s2);
            Some (False, fail_run (''config transaction apply failed for component '' @ cid @ '': '' @ status_message st) (rollback_config s3))
          }
        })"

definition commit_config :: "environment \<Rightarrow> run_state \<Rightarrow> run_state" where
  "commit_config env s = (observe s)\<lparr>rs_config := snd (config_commit_epoch_boundary (now_at env s) (rs_config s))\<rparr>"

definition apply_config_transaction :: "environment \<Rightarrow> event_runtime \<Rightarrow> run_state \<Rightarrow> (bool \<times> run_state) option" where
  "apply_config_transaction env er s =
     (if \<not> er_config_store er then Some (True, s)
      else
        (let pending = pending_component_config_updates (rs_config s)
         in if pending = [] then Some (True, commit_config env s)
            else
              (case validate_updates env er pending [] s of
                 (None, s1) \<Rightarrow> Some (False, s1)
               | (Some prev, s1) \<Rightarrow> do {
                   (ok, s2) \<leftarrow> apply_updates env er prev [] pending s1;
                   Some (if ok then (True, commit_config env s2) else (False, s2))
                 })))"

section \<open>Invocations\<close>

record component_invocation_outcome =
  oc_status :: status
  oc_started_at :: int
  oc_finished_at :: int
  oc_cancellation_observed :: bool
  oc_cancellation_requested :: bool

definition invocation_context :: "event_runtime_component \<Rightarrow> invocation \<Rightarrow> run_state \<Rightarrow> graph_context" where
  "invocation_context c iv s =
     (erc_context c)\<lparr>gc_invocation_metadata := inv_metadata iv,
        gc_loop_iteration := (case rs_active_loop s of None \<Rightarrow> no_loop_iteration | Some li \<Rightarrow> li),
        gc_reporter := rs_active_loop s \<noteq> None\<rparr>"

definition invocation_behaviour :: "environment \<Rightarrow> nat \<Rightarrow> event_runtime_component \<Rightarrow> invocation \<Rightarrow> run_state \<Rightarrow> behaviour" where
  "invocation_behaviour env k c iv s = env_execute env k (erc_id c) iv (gc_loop_iteration (invocation_context c iv s))"

definition run_invocation ::
    "environment \<Rightarrow> event_runtime_component \<Rightarrow> invocation \<Rightarrow> run_state \<Rightarrow> (component_invocation_outcome \<times> run_state) option" where
  "run_invocation env c iv s =
     (let bh = invocation_behaviour env (rs_obs s) c iv s
      in map_option
           (\<lambda>s1. (\<lparr>oc_status = bh_status bh, oc_started_at = now_at env s, oc_finished_at = now_at env s1,
                   oc_cancellation_observed = bh_observed bh, oc_cancellation_requested = runtime_cancel_requested env s1\<rparr>, observe s1))
           (calls_exec (env_clock env (rs_obs s)) 0 (map (Pair (invocation_context c iv s)) (bh_calls bh)) (observe s)))"

text \<open>Several invocations on the workers of a pool: all start, their calls interleave, all finish.\<close>

definition run_batch ::
    "environment \<Rightarrow> event_runtime_component \<Rightarrow> invocation list \<Rightarrow> run_state \<Rightarrow> (component_invocation_outcome list \<times> run_state) option" where
  "run_batch env c ivs s =
     (let k = rs_obs s; n = length ivs;
          bhs = map (\<lambda>(i, iv). invocation_behaviour env (k + i) c iv s) (enumerate 0 ivs);
          calls = map (\<lambda>(iv, bh). map (Pair (invocation_context c iv s)) (bh_calls bh)) (zip ivs bhs)
      in map_option
           (\<lambda>s1. (map (\<lambda>(i, bh). \<lparr>oc_status = bh_status bh, oc_started_at = env_clock env (k + i) 0 0,
                        oc_finished_at = env_clock env (k + n + i) 0 0, oc_cancellation_observed = bh_observed bh,
                        oc_cancellation_requested = runtime_cancel_requested env (s\<lparr>rs_obs := k + n + i\<rparr>)\<rparr>) (enumerate 0 bhs),
                   s1\<lparr>rs_obs := k + 2 * n\<rparr>))
           (calls_exec (env_clock env k) 0 (weave (env_interleaving env k) calls) s))"

definition commit_staged :: "environment \<Rightarrow> run_state \<Rightarrow> (publish_result \<times> run_state) option" where
  "commit_staged env s =
     map_option (\<lambda>(r, rt, b). (r, (observe s)\<lparr>rs_router := rt, rs_bus := b\<rparr>))
       (commit_immediate (env_clock env (rs_obs s) 0) (rs_router s, rs_bus s))"

definition note_outcome :: "event_runtime_component \<Rightarrow> invocation \<Rightarrow> component_invocation_outcome \<Rightarrow> run_state \<Rightarrow> run_state" where
  "note_outcome c iv oc =
     (let d = oc_finished_at oc - oc_started_at oc; ns = non_negative_duration_ns d;
          over = inv_budget iv > 0 \<and> d > inv_budget iv * 1000000
      in upd_component (erc_id c)
           (\<lambda>m. m\<lparr>execution_count := execution_count m + 1, last_duration_ns := ns, max_duration_ns := max (max_duration_ns m) ns,
                  budget_overrun_count := budget_overrun_count m + (if over then 1 else 0),
                  timeout_budget_exceeded_count := timeout_budget_exceeded_count m + (if over then 1 else 0),
                  ce_cancellation_requested_count := ce_cancellation_requested_count m + (if oc_cancellation_requested oc then 1 else 0),
                  ce_cancellation_observed_count := ce_cancellation_observed_count m + (if oc_cancellation_observed oc then 1 else 0)\<rparr>))"

definition record_tick :: "scheduler_run_options \<Rightarrow> event_runtime_component \<Rightarrow> invocation \<Rightarrow> run_state \<Rightarrow> run_state" where
  "record_tick opts c iv s =
     upd_group (sg_id (erc_lane c)) (\<lambda>m. record_priority_metric (inv_priority iv) (m\<lparr>sm_completed_count := sm_completed_count m + 1\<rparr>))
       (upd_result (\<lambda>r. r\<lparr>tick_calls := tick_calls r + 1,
            ticked_tasks := (if max_recorded_ticked_tasks opts = 0 \<or> length (ticked_tasks r) < max_recorded_ticked_tasks opts
                             then ticked_tasks r @ [erc_id c] else ticked_tasks r)\<rparr>) s)"

definition record_invocation_outcome ::
    "environment \<Rightarrow> scheduler_run_options \<Rightarrow> event_runtime \<Rightarrow> event_runtime_component \<Rightarrow> invocation \<Rightarrow>
     component_invocation_outcome \<Rightarrow> bool \<Rightarrow> run_state \<Rightarrow> (bool \<times> run_state) option" where
  "record_invocation_outcome env opts er c iv oc commit s =
     (let s1 = note_outcome c iv oc s
      in if \<not> status_ok (oc_status oc)
         then Some (False, fail_run (''component '' @ erc_id c @ '' failed: '' @ status_message (oc_status oc))
                             (upd_component (erc_id c) (\<lambda>m. m\<lparr>error_count := error_count m + 1\<rparr>) s1))
         else if commit \<and> er_publications er
         then do {
           (r, s2) \<leftarrow> commit_staged env s1;
           Some (if accepted r then (True, record_tick opts c iv s2)
                 else (False, fail_run (''immediate publication commit failed after component '' @ erc_id c @ '': '' @ reason r) s2))
         }
         else Some (True, record_tick opts c iv s1))"

definition set_in_flight :: "string \<Rightarrow> (nat \<Rightarrow> nat) \<Rightarrow> run_state \<Rightarrow> run_state" where
  "set_in_flight cid f s = s\<lparr>rs_in_flight := smap_put cid (f (smap_get 0 (rs_in_flight s) cid)) (rs_in_flight s)\<rparr>"

fun execute_sequential ::
    "environment \<Rightarrow> scheduler_run_options \<Rightarrow> event_runtime \<Rightarrow> event_runtime_component \<Rightarrow> invocation list \<Rightarrow> run_state \<Rightarrow>
     (bool \<times> run_state) option" where
  "execute_sequential env opts er c [] s = Some (True, s)"
| "execute_sequential env opts er c (iv # ivs) s =
     (if \<not> ex_reentrant (execution (erc_spec c)) \<and> smap_get 0 (rs_in_flight s) (erc_id c) \<noteq> 0
      then Some (False, fail_run (''non-reentrant component '' @ erc_id c @ '' already has an in-flight invocation'') s)
      else
        (let s1 = set_in_flight (erc_id c) Suc s;
             s2 = upd_component (erc_id c)
                    (\<lambda>m. m\<lparr>max_in_flight_count := max (max_in_flight_count m) (smap_get 0 (rs_in_flight s1) (erc_id c))\<rparr>) s1
         in do {
           (oc, s3) \<leftarrow> run_invocation env c iv s2;
           (ok, s4) \<leftarrow> record_invocation_outcome env opts er c iv oc True (set_in_flight (erc_id c) (\<lambda>n. n - 1) s3);
           if ok then execute_sequential env opts er c ivs s4 else Some (False, s4)
         }))"

section \<open>Thread pool lanes\<close>

definition scheduler_reject_event :: "event_runtime_component \<Rightarrow> nat \<Rightarrow> nat \<Rightarrow> health_event" where
  "scheduler_reject_event c ready capacity =
     default_health_event\<lparr>he_kind := KSchedulerReject, he_source := ''scheduler'', he_component_id := erc_id c,
       he_lane := sg_id (erc_lane c), he_policy := sg_overflow (erc_lane c),
       he_reason := (if lane_overflow_fails_fast (sg_overflow (erc_lane c)) then ''thread_pool queue capacity exceeded''
                     else ''thread_pool invocation admission rejected''),
       he_depth := ready, he_capacity := capacity, he_occurrence_count := ready - capacity,
       he_attributes := [(''rejected_count'', nat_to_string (ready - capacity))]\<rparr>"

text \<open>Admission to the pool: the invocations that are admitted, or none at all when the run fails.\<close>

definition admit_invocations ::
    "event_runtime \<Rightarrow> event_runtime_component \<Rightarrow> nat \<Rightarrow> invocation list \<Rightarrow> run_state \<Rightarrow> invocation list option \<times> run_state" where
  "admit_invocations er c capacity ivs s =
     (if length ivs \<le> capacity then (Some ivs, s)
      else
        (let lane = erc_lane c; ov = sg_overflow lane; over = length ivs - capacity;
             rejected = (if lane_overflow_drops_oldest ov then take over ivs else drop capacity ivs);
             s1 = (if er_health_events er then s\<lparr>rs_health := rs_health s @ [scheduler_reject_event c (length ivs) capacity]\<rparr> else s);
             s2 = upd_group (sg_id lane)
                    (\<lambda>m. m\<lparr>enqueue_rejected_count := enqueue_rejected_count m + over,
                           low_priority_rejected_count := low_priority_rejected_count m +
                             length (filter is_low_priority_for_rejection_metric rejected)\<rparr>) s1
         in if lane_overflow_fails_fast ov
            then (None, fail_run (''thread_pool lane '' @ sg_id lane @ '' queue capacity exceeded'') s2)
            else if lane_overflow_drops_oldest ov then (Some (drop over ivs), s2)
            else if lane_overflow_rejects_newest ov then (Some (take capacity ivs), s2)
            else (None, fail_run (''thread_pool lane '' @ sg_id lane @ '' has unsupported overflow '' @ ov) s2)))"

fun record_outcomes ::
    "environment \<Rightarrow> scheduler_run_options \<Rightarrow> event_runtime \<Rightarrow> event_runtime_component \<Rightarrow> bool \<Rightarrow>
     (invocation \<times> component_invocation_outcome) list \<Rightarrow> run_state \<Rightarrow> (bool \<times> run_state) option" where
  "record_outcomes env opts er c commit [] s = Some (True, s)"
| "record_outcomes env opts er c commit ((iv, oc) # rest) s = do {
     (ok, s1) \<leftarrow> record_invocation_outcome env opts er c iv oc commit s;
     if ok then record_outcomes env opts er c commit rest s1 else Some (False, s1)
   }"

definition execute_worker_invocations ::
    "environment \<Rightarrow> scheduler_run_options \<Rightarrow> event_runtime \<Rightarrow> event_runtime_component \<Rightarrow> nat \<Rightarrow> bool \<Rightarrow> invocation list \<Rightarrow>
     run_state \<Rightarrow> (bool \<times> run_state) option" where
  "execute_worker_invocations env opts er c active_capacity commit_each ivs s =
     (if stop_or_cancel env s then Some (False, upd_result (\<lambda>r. r\<lparr>stop_reason := StopRequested\<rparr>) (observe s))
      else
        (let count = length ivs; active = min active_capacity count;
             s1 = upd_group (sg_id (erc_lane c))
                    (\<lambda>m. m\<lparr>sm_queue_depth := max (sm_queue_depth m) (count - active), sm_active_count := max (sm_active_count m) active,
                           sm_in_flight_count := max (sm_in_flight_count m) count\<rparr>) (observe s);
             s2 = upd_component (erc_id c) (\<lambda>m. m\<lparr>max_in_flight_count := max (max_in_flight_count m) active\<rparr>) s1
         in do {
           (ocs, s3) \<leftarrow> run_batch env c ivs s2;
           (ok, s4) \<leftarrow> record_outcomes env opts er c commit_each (zip ivs ocs) s3;
           if \<not> ok then Some (False, s4)
           else if \<not> commit_each \<and> er_publications er then do {
             (r, s5) \<leftarrow> commit_staged env s4;
             Some (if accepted r then (True, s5)
                   else (False, fail_run (''immediate publication commit failed after thread_pool component '' @ erc_id c @ '': '' @ reason r) s5))
           }
           else Some (True, s4)
         }))"

fun execute_one_by_one ::
    "environment \<Rightarrow> scheduler_run_options \<Rightarrow> event_runtime \<Rightarrow> event_runtime_component \<Rightarrow> nat \<Rightarrow> invocation list \<Rightarrow>
     run_state \<Rightarrow> (bool \<times> run_state) option" where
  "execute_one_by_one env opts er c active_capacity [] s = Some (True, s)"
| "execute_one_by_one env opts er c active_capacity (iv # ivs) s = do {
     (ok, s1) \<leftarrow> execute_worker_invocations env opts er c active_capacity True [iv] s;
     if ok then execute_one_by_one env opts er c active_capacity ivs s1 else Some (False, s1)
   }"

text \<open>The number of workers of the pool of a lane; there is one when the lane map has a thread pool under the id of the lane.\<close>

definition pool_for_lane :: "event_runtime \<Rightarrow> string \<Rightarrow> nat option" where
  "pool_for_lane er lane =
     (case map_of (lane_map (er_components er)) lane of
        None \<Rightarrow> None
      | Some l \<Rightarrow> if sg_type l = ''thread_pool'' then Some (max (worker_count_for_lane l) 1) else None)"

definition execute_on_pool ::
    "environment \<Rightarrow> scheduler_run_options \<Rightarrow> event_runtime \<Rightarrow> event_runtime_component \<Rightarrow> invocation list \<Rightarrow> run_state \<Rightarrow>
     (bool \<times> run_state) option" where
  "execute_on_pool env opts er c ivs s =
     (let lane = erc_lane c; reentrant = ex_reentrant (execution (erc_spec c))
      in case pool_for_lane er (sg_id lane) of
           None \<Rightarrow> Some (False, fail_run (''thread_pool lane '' @ sg_id lane @ '' has no worker pool'') s)
         | Some workers \<Rightarrow>
             (let active_capacity = (if reentrant then workers else 1);
                  capacity = queue_capacity_for_lane lane (length ivs) active_capacity;
                  s1 = upd_group (sg_id lane)
                         (\<lambda>m. m\<lparr>sm_worker_count := max (sm_worker_count m) workers, sm_queue_capacity := max (sm_queue_capacity m) capacity\<rparr>) s
              in case admit_invocations er c (active_capacity + capacity) ivs s1 of
                   (None, s2) \<Rightarrow> Some (False, s2)
                 | (Some taken, s2) \<Rightarrow>
                     if reentrant then execute_worker_invocations env opts er c active_capacity False taken s2
                     else execute_one_by_one env opts er c active_capacity taken s2))"

section \<open>Components and regions\<close>

definition note_trigger :: "event_runtime_component \<Rightarrow> trigger_runtime_metrics \<Rightarrow> nat \<Rightarrow> run_state \<Rightarrow> run_state" where
  "note_trigger c st ready =
     (let p = trigger_policy (erc_spec c)
      in upd_trigger (erc_id c)
           (\<lambda>m. let m1 = m\<lparr>timeout_drop_count := timeout_drop_count m + timeout_drop_count st,
                          batch_flush_count := batch_flush_count m + batch_flush_count st,
                          time_sync_drop_count := time_sync_drop_count m + time_sync_drop_count st,
                          late_drop_count := late_drop_count m + late_drop_count st,
                          pending_drop_count := pending_drop_count m + pending_drop_count st,
                          condition_suppressed_count := condition_suppressed_count m + condition_suppressed_count st,
                          rate_limit_suppressed_count := rate_limit_suppressed_count m + rate_limit_suppressed_count st\<rparr>
                in if ready = 0 \<and> has_message_event_source (erc_spec c) then m1\<lparr>suppressed_count := suppressed_count m1 + 1\<rparr>
                   else m1\<lparr>ready_count := ready_count m1 + ready,
                           coalesced_count := coalesced_count m1 + (if tp_coalesce p \<or> tp_type p = ''debounce'' then ready else 0)\<rparr>))"

definition execute_component ::
    "environment \<Rightarrow> scheduler_run_options \<Rightarrow> event_runtime \<Rightarrow> string \<Rightarrow> run_state \<Rightarrow> (bool \<times> run_state) option" where
  "execute_component env opts er cid s =
     (case component_for_id er cid of
        None \<Rightarrow> Some (True, s)
      | Some c \<Rightarrow>
          (let now = now_at env s;
               tc = \<lparr>tc_sequence = iterations (rs_result s) + 1, tc_scheduled_at = now, tc_started_at = now\<rparr>
           in do {
             (ivs, te, bus, ev) \<leftarrow> collect_ready_invocations (env_clock env (rs_obs s)) tc (erc_spec c) (sg_id (erc_lane c)) (rs_trigger s)
                 (if er_channels er then Some (rs_bus s) else None);
             let (st, te') = take_last_stats (erc_id c) te;
             let s1 = note_trigger c st (length ivs)
                        ((observe s)\<lparr>rs_trigger := te', rs_bus := (case bus of None \<Rightarrow> rs_bus s | Some b \<Rightarrow> b)\<rparr>);
             if sg_type (erc_lane c) \<noteq> ''thread_pool'' \<or> ivs = [] then execute_sequential env opts er c ivs s1
             else execute_on_pool env opts er c ivs s1
           }))"

fun run_components ::
    "environment \<Rightarrow> scheduler_run_options \<Rightarrow> event_runtime \<Rightarrow> string list \<Rightarrow> run_state \<Rightarrow> (bool \<times> run_state) option" where
  "run_components env opts er [] s = Some (True, s)"
| "run_components env opts er (cid # cids) s = do {
     (ok, s1) \<leftarrow> execute_component env opts er cid s;
     if ok then run_components env opts er cids s1 else Some (False, s1)
   }"

section \<open>Composite loops\<close>

definition fp_le :: "fp \<Rightarrow> fp \<Rightarrow> bool" where
  "fp_le x y \<longleftrightarrow> fp_less x y \<or> x = y \<and> x \<noteq> NotANumber"

text \<open>Why a loop has converged after an iteration; the empty text when it has not.\<close>

definition convergence_reason :: "loop_policy_spec \<Rightarrow> loop_convergence_snapshot \<Rightarrow> string" where
  "convergence_reason p snap =
     (let met = (case (lc_residual snap, lp_residual_threshold p) of (Some x, Some y) \<Rightarrow> fp_le x y | _ \<Rightarrow> False)
      in if loop_policy_converged_after_iteration p then lp_convergence p
         else if lc_converged snap then (if lc_reason snap = [] then ''component_report'' else lc_reason snap)
         else if met then ''residual_threshold'' else [])"

datatype loop_end = LoopFailed | LoopConverged string | LoopBudgetOverrun | LoopCancelled | LoopExhausted

definition set_loop_stop :: "string \<Rightarrow> string \<Rightarrow> run_state \<Rightarrow> run_state" where
  "set_loop_stop rid why = upd_result (\<lambda>r. r\<lparr>loop_stop_reason := smap_put rid why (loop_stop_reason r)\<rparr>)"

definition begin_loop_iteration :: "compiled_graph_region \<Rightarrow> nat \<Rightarrow> nat \<Rightarrow> run_state \<Rightarrow> run_state" where
  "begin_loop_iteration rg max_iterations i s =
     upd_result (\<lambda>r. r\<lparr>loop_iteration_count := bump (region_id rg) (loop_iteration_count r)\<rparr>)
       ((observe s)\<lparr>rs_loop := empty_convergence,
          rs_active_loop := Some \<lparr>li_loop_id = region_id rg, li_policy_type = lp_type (region_loop_policy rg),
            li_iteration_index = i, li_iteration_number = i + 1, li_max_iterations = max_iterations\<rparr>\<rparr>)"

definition cancel_loop :: "string \<Rightarrow> run_state \<Rightarrow> run_state" where
  "cancel_loop rid s =
     upd_result (\<lambda>r. r\<lparr>loop_cancellation_requested_count := bump rid (loop_cancellation_requested_count r),
                       loop_cancellation_observed_count := bump rid (loop_cancellation_observed_count r)\<rparr>)
       (set_loop_stop rid ''cancelled'' (upd_result (\<lambda>r. r\<lparr>stop_reason := StopRequested\<rparr>) s))"

text \<open>What follows the components of an iteration, and whether the loop ends with it. \<open>started\<close> is the start of the loop.\<close>

definition end_loop_iteration :: "environment \<Rightarrow> compiled_graph_region \<Rightarrow> int \<Rightarrow> run_state \<Rightarrow> loop_end option \<times> run_state" where
  "end_loop_iteration env rg started s =
     (let rid = region_id rg; p = region_loop_policy rg; snap = rs_loop s;
          s1 = (case lc_residual snap of
                  None \<Rightarrow> observe s
                | Some x \<Rightarrow> upd_result (\<lambda>r. r\<lparr>loop_last_residual := smap_put rid x (loop_last_residual r)\<rparr>) (observe s));
          why = convergence_reason p snap
      in if why \<noteq> [] then
           (Some (LoopConverged why),
            upd_result (\<lambda>r. r\<lparr>loop_converged_count := bump rid (loop_converged_count r)\<rparr>) (set_loop_stop rid why s1))
         else if lp_budget_ms p > 0 \<and> now_at env s1 - started \<ge> lp_budget_ms p * 1000000 then
           (Some LoopBudgetOverrun,
            upd_result (\<lambda>r. r\<lparr>loop_budget_overrun_count := bump rid (loop_budget_overrun_count r)\<rparr>) (set_loop_stop rid ''budget_overrun'' (observe s1)))
         else (None, observe s1))"

fun loop_iterations ::
    "environment \<Rightarrow> scheduler_run_options \<Rightarrow> event_runtime \<Rightarrow> compiled_graph_region \<Rightarrow> int \<Rightarrow> nat \<Rightarrow> nat \<Rightarrow> nat \<Rightarrow> run_state \<Rightarrow>
     (loop_end \<times> run_state) option" where
  "loop_iterations env opts er rg started max_iterations 0 i s = Some (LoopExhausted, s)"
| "loop_iterations env opts er rg started max_iterations (Suc n) i s =
     (if i > 0 \<and> runtime_cancel_requested env s then Some (LoopCancelled, cancel_loop (region_id rg) (observe s))
      else do {
        (ok, s1) \<leftarrow> run_components env opts er (region_components rg) (begin_loop_iteration rg max_iterations i s);
        let s2 = s1\<lparr>rs_active_loop := None\<rparr>;
        if \<not> ok
        then Some (LoopFailed, set_loop_stop (region_id rg) ''component_error''
                     (upd_result (\<lambda>r. r\<lparr>loop_error_count := bump (region_id rg) (loop_error_count r)\<rparr>) s2))
        else
          (case end_loop_iteration env rg started s2 of
             (Some e, s3) \<Rightarrow> Some (e, s3)
           | (None, s3) \<Rightarrow> loop_iterations env opts er rg started max_iterations n (Suc i) s3)
      })"

definition loop_max_iterations :: "compiled_graph_region \<Rightarrow> nat" where
  "loop_max_iterations rg =
     (if lp_max_iterations (region_loop_policy rg) > 0 then nat (lp_max_iterations (region_loop_policy rg)) else 1)"

fun loop_end_text :: "loop_end \<Rightarrow> string" where
  "loop_end_text (LoopConverged why) = why"
| "loop_end_text LoopBudgetOverrun = ''budget_overrun''"
| "loop_end_text LoopCancelled = ''cancelled''"
| "loop_end_text LoopExhausted = ''max_iterations''"
| "loop_end_text LoopFailed = ''component_error''"

fun loop_end_converged :: "loop_end \<Rightarrow> bool" where
  "loop_end_converged (LoopConverged why) = True"
| "loop_end_converged _ = False"

definition note_exhausted :: "compiled_graph_region \<Rightarrow> run_state \<Rightarrow> run_state" where
  "note_exhausted rg s =
     (let s1 = set_loop_stop (region_id rg) ''max_iterations'' s
      in if lp_max_iterations (region_loop_policy rg) > 0
         then upd_result (\<lambda>r. r\<lparr>loop_max_iteration_hit_count := bump (region_id rg) (loop_max_iteration_hit_count r)\<rparr>) s1 else s1)"

definition discard_region :: "event_runtime \<Rightarrow> run_state \<Rightarrow> run_state" where
  "discard_region er s = (if er_publications er then s\<lparr>rs_router := discard_composite_region_outputs (rs_router s)\<rparr> else s)"

definition count_discarded :: "string \<Rightarrow> run_state \<Rightarrow> run_state" where
  "count_discarded rid = upd_result (\<lambda>r. r\<lparr>loop_output_discarded_count := bump rid (loop_output_discarded_count r)\<rparr>)"

text \<open>The part of a composite region after its loop: its outputs are committed or discarded. \<open>False\<close>: the run returns.\<close>

definition finish_composite ::
    "environment \<Rightarrow> event_runtime \<Rightarrow> compiled_graph_region \<Rightarrow> loop_end \<Rightarrow> run_state \<Rightarrow> (bool \<times> run_state) option" where
  "finish_composite env er rg e s =
     (let rid = region_id rg; p = region_loop_policy rg;
          s1 = (if e = LoopExhausted then note_exhausted rg s else s);
          partial_policy = effective_partial_success_policy p;
          partial_stop = (loop_policy_is_solver_iteration p \<and> \<not> loop_end_converged e)
      in if partial_stop \<and> partial_policy = ''fail_run''
         then Some (False, fail_run (''composite_loop '' @ rid @ '' stopped without convergence: '' @ loop_end_text e)
                             (count_discarded rid (discard_region er s1)))
         else if \<not> er_publications er then Some (e \<noteq> LoopCancelled, s1)
         else if \<not> partial_stop \<or> partial_policy = ''commit_outputs''
         then do {
           (r, rt, b) \<leftarrow> commit_composite_region_outputs (env_clock env (rs_obs s1) 0) (rs_router s1, rs_bus s1);
           let s2 = (observe s1)\<lparr>rs_router := rt, rs_bus := b\<rparr>;
           Some (if accepted r then (e \<noteq> LoopCancelled, s2)
                 else (False, fail_run (''composite region publication commit failed after region '' @ rid @ '': '' @ reason r) s2))
         }
         else Some (e \<noteq> LoopCancelled, count_discarded rid (discard_region er s1)))"

definition run_composite ::
    "environment \<Rightarrow> scheduler_run_options \<Rightarrow> event_runtime \<Rightarrow> compiled_graph_region \<Rightarrow> run_state \<Rightarrow> (bool \<times> run_state) option" where
  "run_composite env opts er rg s =
     (let s1 = (if er_publications er then s\<lparr>rs_router := begin_composite_region (region_components rg) (rs_router s)\<rparr> else s)
      in do {
        (e, s2) \<leftarrow> loop_iterations env opts er rg (now_at env s) (loop_max_iterations rg) (loop_max_iterations rg) 0 (observe s1);
        if e = LoopFailed then Some (False, s2) else finish_composite env er rg e s2
      })"

fun run_regions ::
    "environment \<Rightarrow> scheduler_run_options \<Rightarrow> event_runtime \<Rightarrow> compiled_graph_region list \<Rightarrow> run_state \<Rightarrow> (bool \<times> run_state) option" where
  "run_regions env opts er [] s = Some (True, s)"
| "run_regions env opts er (rg # rgs) s = do {
     (ok, s1) \<leftarrow> (if region_kind rg = RegionCompositeLoop then run_composite env opts er rg s
                  else run_components env opts er (region_components rg) s);
     if ok then run_regions env opts er rgs s1 else Some (False, s1)
   }"

section \<open>Iterations\<close>

text \<open>The order of execution: the regions of the plan by their order, or every component on its own when there is none.\<close>

definition execution_order :: "event_runtime \<Rightarrow> compiled_graph_region list" where
  "execution_order er =
     (let plan = er_compiled_plan er;
          planned = concat (map (\<lambda>rid. case find (\<lambda>rg. region_id rg = rid) (regions plan) of None \<Rightarrow> [] | Some rg \<Rightarrow> [rg]) (region_order plan))
      in if planned \<noteq> [] then planned
         else map (\<lambda>c. \<lparr>region_id = erc_id c, region_kind = RegionComponent, region_components = [erc_id c], region_composite_loop_id = [],
                        region_loop_policy = default_loop_policy, incoming_regions = [], outgoing_regions = []\<rparr>) (er_components er))"

text \<open>
  Waiting for the wall-clock ticks of an iteration; the result tells whether the run was stopped meanwhile. The polls of
  \<^verbatim>\<open>sleep_until_or_stop\<close> are one observation, the poll that ends the wait.
\<close>

fun wait_ticks :: "environment \<Rightarrow> nat \<Rightarrow> (string \<times> int) list \<Rightarrow> run_state \<Rightarrow> bool \<times> run_state" where
  "wait_ticks env it [] s = (False, s)"
| "wait_ticks env it ((lane, scheduled) # rest) s =
     (let s0 = upd_group lane (\<lambda>m. m) s; now = now_at env s0; s1 = observe s0
      in if it > 0 \<and> now < scheduled then
           (let stopped = stop_or_cancel env s1;
                s2 = upd_group lane (\<lambda>m. m\<lparr>blocked_duration_ns := max (blocked_duration_ns m) (now_at env s1 - now)\<rparr>) (observe s1)
            in if stopped then (True, s2)
               else wait_ticks env it rest (s2\<lparr>rs_current_ticks := smap_put lane scheduled (rs_current_ticks s2)\<rparr>))
         else wait_ticks env it rest (s1\<lparr>rs_current_ticks := smap_put lane scheduled (rs_current_ticks s1)\<rparr>))"

text \<open>The next tick of a lane whose tick was scheduled, and the number of ticks it skips.\<close>

definition next_tick :: "string \<Rightarrow> int \<Rightarrow> int \<Rightarrow> int \<Rightarrow> int \<times> nat" where
  "next_tick policy period scheduled finished =
     (let nominal = scheduled + period; lateness = (if finished > nominal then finished - nominal else 0); missed = missed_periods lateness period
      in if policy = ''skip_next'' \<and> lateness > 0 then (nominal + period, max missed 1)
         else if policy = ''catch_up_once'' \<and> lateness > 0 then (finished, missed)
         else if lateness > 0 then (finished + period, missed)
         else (nominal, missed))"

definition note_overrun :: "int \<Rightarrow> int \<Rightarrow> scheduler_metrics \<Rightarrow> scheduler_metrics" where
  "note_overrun budget duration m =
     (if budget > 0 \<and> duration > budget
      then m\<lparr>tick_overrun_count := tick_overrun_count m + 1, tick_jitter_ns := duration - budget,
             max_lateness_ns := max (max_lateness_ns m) (duration - budget)\<rparr>
      else m)"

definition finish_lane :: "environment \<Rightarrow> int \<Rightarrow> int \<Rightarrow> string \<times> scheduler_group_config \<Rightarrow> run_state \<Rightarrow> run_state" where
  "finish_lane env started finished entry s =
     (let lane = fst entry; l = snd entry; duration = finished - started;
          s1 = upd_group lane (\<lambda>m. m\<lparr>last_callback_duration_ns := duration\<rparr>) s
      in if sg_type l \<noteq> ''fixed_rate'' then s1
         else
           (let period = fixed_rate_period_for_lane (env_hz_period env) l; budget = fixed_rate_budget_for_lane (env_hz_period env) l;
                s2 = upd_group lane (\<lambda>m. note_overrun budget duration (m\<lparr>tick_count := tick_count m + 1\<rparr>)) s1
            in case map_of (rs_current_ticks s2) lane of
                 None \<Rightarrow> s2
               | Some scheduled \<Rightarrow>
                   if period \<le> 0 then s2
                   else
                     (let (next, skipped) = next_tick (sg_overrun_policy l) period scheduled finished;
                          late = (if finished > scheduled + period then finished - (scheduled + period) else 0)
                      in upd_group lane (\<lambda>m. m\<lparr>max_lateness_ns := max (max_lateness_ns m) late,
                                               skipped_tick_count := skipped_tick_count m + skipped\<rparr>)
                           (s2\<lparr>rs_next_ticks := smap_put lane next (rs_next_ticks s2)\<rparr>))))"

definition begin_publication_epoch :: "environment \<Rightarrow> event_runtime \<Rightarrow> run_state \<Rightarrow> (bool \<times> run_state) option" where
  "begin_publication_epoch env er s =
     (if \<not> er_publications er then Some (True, s)
      else do {
        (r, rt, b) \<leftarrow> begin_epoch (env_clock env (rs_obs s) 0) (rs_router s, rs_bus s);
        let s1 = (observe s)\<lparr>rs_router := rt, rs_bus := b\<rparr>;
        Some (if accepted r then (True, s1) else (False, fail_run (''epoch deferred publication commit failed: '' @ reason r) s1))
      })"

datatype iteration_end = IterationNext | IterationBreak | IterationReturn

definition set_stop :: "scheduler_stop_reason \<Rightarrow> run_state \<Rightarrow> run_state" where
  "set_stop why = upd_result (\<lambda>r. r\<lparr>stop_reason := why\<rparr>)"

text \<open>The end of an iteration whose regions have all run.\<close>

definition finish_iteration ::
    "environment \<Rightarrow> scheduler_run_options \<Rightarrow> event_runtime \<Rightarrow> int \<Rightarrow> nat \<Rightarrow> run_state \<Rightarrow> (iteration_end \<times> run_state) option" where
  "finish_iteration env opts er started calls_before s =
     (let s1 = (if er_publications er then s\<lparr>rs_router := end_epoch (rs_router s)\<rparr> else s);
          s2 = fold (finish_lane env started (now_at env s1)) (lane_map (er_components er)) (observe s1);
          s3 = upd_result (\<lambda>r. r\<lparr>iterations := iterations r + 1\<rparr>) s2
      in do {
        s4 \<leftarrow> calls_exec (env_clock env (rs_obs s3)) 0 (env_after_iteration env (rs_obs s3)) (observe s3);
        Some (if run_until_idle opts \<and> tick_calls (rs_result s4) = calls_before then (IterationBreak, set_stop Idle s4)
              else (IterationNext, s4))
      })"

text \<open>One iteration; \<open>run_started\<close> is the start of the run, \<open>it\<close> the number of iterations before.\<close>

definition run_iteration ::
    "environment \<Rightarrow> scheduler_run_options \<Rightarrow> event_runtime \<Rightarrow> int \<Rightarrow> nat \<Rightarrow> run_state \<Rightarrow> (iteration_end \<times> run_state) option" where
  "run_iteration env opts er run_started it s =
     (if stop_or_cancel env s then Some (IterationBreak, set_stop StopRequested (observe s))
      else
        (let s0 = observe s
         in if run_duration_ms opts > 0 \<and> now_at env s0 - run_started \<ge> int (run_duration_ms opts) * 1000000
            then Some (IterationBreak, set_stop DurationBound (observe s0))
            else
              (case wait_ticks env it (rs_next_ticks s0) ((observe s0)\<lparr>rs_current_ticks := []\<rparr>) of
                 (True, s1) \<Rightarrow> Some (IterationBreak, set_stop StopRequested s1)
               | (False, s1) \<Rightarrow>
                   (let s2 = observe s1;
                        s3 = (if er_state_store er then s2\<lparr>rs_state := snd (state_commit_epoch_boundary (rs_state s2))\<rparr> else s2)
                    in do {
                      (config_ok, s4) \<leftarrow> apply_config_transaction env er s3;
                      if \<not> config_ok then Some (IterationReturn, s4)
                      else do {
                        (epoch_ok, s5) \<leftarrow> begin_publication_epoch env er s4;
                        if \<not> epoch_ok then Some (IterationReturn, s5)
                        else do {
                          (ok, s6) \<leftarrow> run_regions env opts er (execution_order er) s5;
                          if \<not> ok then Some (IterationReturn, s6)
                          else finish_iteration env opts er (now_at env s1) (tick_calls (rs_result s)) s6
                        }
                      }
                    }))))"

fun iterate ::
    "environment \<Rightarrow> scheduler_run_options \<Rightarrow> event_runtime \<Rightarrow> int \<Rightarrow> nat \<Rightarrow> nat \<Rightarrow> run_state \<Rightarrow> run_state option" where
  "iterate env opts er run_started 0 it s = Some s"
| "iterate env opts er run_started (Suc n) it s = do {
     (e, s1) \<leftarrow> run_iteration env opts er run_started it s;
     if e = IterationNext then iterate env opts er run_started n (Suc it) s1 else Some s1
   }"

definition iteration_bound :: "scheduler_run_options \<Rightarrow> nat" where
  "iteration_bound opts =
     (if tick_iterations opts = 0 then (if run_until_idle opts then kDefaultRunUntilIdleIterationBound else 1) else tick_iterations opts)"

definition initial_ticks :: "environment \<Rightarrow> event_runtime \<Rightarrow> int \<Rightarrow> (string, int) smap" where
  "initial_ticks env er started =
     map (\<lambda>(lane, l). (lane, started))
       (filter (\<lambda>(lane, l). sg_type l = ''fixed_rate'' \<and> sg_wall_clock_enabled l \<and> fixed_rate_period_for_lane (env_hz_period env) l > 0)
          (lane_map (er_components er)))"

definition start_state :: "environment \<Rightarrow> event_runtime \<Rightarrow> router \<Rightarrow> channel_bus \<Rightarrow> state_store \<Rightarrow> config_store \<Rightarrow> run_state" where
  "start_state env er rt b ss cs =
     \<lparr>rs_obs = 1, rs_router = rt, rs_bus = b, rs_state = ss, rs_config = cs, rs_trigger = empty_trigger_engine, rs_in_flight = [],
      rs_loop = empty_convergence, rs_active_loop = None, rs_next_ticks = initial_ticks env er (env_clock env 0 0 0),
      rs_current_ticks = [], rs_health = [], rs_applied = [], rs_result = empty_run_result\<lparr>stop_reason := TickBound\<rparr>\<rparr>"

definition run ::
    "environment \<Rightarrow> scheduler_run_options \<Rightarrow> event_runtime \<Rightarrow> router \<Rightarrow> channel_bus \<Rightarrow> state_store \<Rightarrow> config_store \<Rightarrow> run_state option" where
  "run env opts er rt b ss cs =
     iterate env opts er (env_clock env 0 0 0) (iteration_bound opts) 0 (start_state env er rt b ss cs)"

end
