(* ===== verification/Event_Runtime_Laws.thy ===== *)
theory Event_Runtime_Laws
  imports Event_Runtime Trigger_Policy_Laws
begin

text \<open>
  Laws of the event runtime: it returns whatever the components do and keeps the invariants of the objects it shares with them, its
  result is consistent, the components run in the order of the compiled plan, configuration transactions are all or nothing.
\<close>

section \<open>The objects a run shares with the components\<close>

text \<open>
  What the runtime relies on: every operation of the router, the bus, the stores and the trigger engine returns and keeps an invariant.
  Then a whole run returns and keeps it.
\<close>

locale shared_objects =
  fixes R :: "router \<Rightarrow> channel_bus \<Rightarrow> bool" and S :: "state_store \<Rightarrow> bool" and C :: "config_store \<Rightarrow> bool"
    and T :: "trigger_engine \<Rightarrow> bool" and safe :: "component_node_spec \<Rightarrow> bool"
  assumes router_step: "R rt b \<Longrightarrow> \<exists>r rt' b'. router_exec op (rt, b) = Some (r, rt', b') \<and> R rt' b'"
    and bus_step: "R rt b \<Longrightarrow> \<exists>b'. bus_exec bop b = Some b' \<and> R rt b'"
    and state_step: "S ss \<Longrightarrow> S (snd (state_exec sop ss))"
    and config_step: "C cs \<Longrightarrow> C (config_exec cop cs)"
    and trigger_step: "T te \<Longrightarrow> R rt b \<Longrightarrow> safe c \<Longrightarrow>
      \<exists>ivs te' bus' ev. collect_ready_invocations now tc c lane te (if ch then Some b else None) = Some (ivs, te', bus', ev) \<and> T te' \<and>
        (case bus' of None \<Rightarrow> True | Some b' \<Rightarrow> R rt b')"
    and stats_step: "T te \<Longrightarrow> T (snd (take_last_stats cid te))"
begin

definition ok :: "run_state \<Rightarrow> bool" where
  "ok s \<longleftrightarrow> R (rs_router s) (rs_bus s) \<and> S (rs_state s) \<and> C (rs_config s) \<and> T (rs_trigger s)"

text \<open>A part of the run returns and keeps the invariant.\<close>

definition returns :: "('a \<times> run_state) option \<Rightarrow> bool" where
  "returns r \<longleftrightarrow> (\<exists>x s. r = Some (x, s) \<and> ok s)"

lemma returns_Some [simp]: "returns (Some (x, s)) = ok s"
  by (simp add: returns_def)

lemma returns_bind: "returns r \<Longrightarrow> (\<And>x s. ok s \<Longrightarrow> returns (f (x, s))) \<Longrightarrow> returns (Option.bind r f)"
  by (auto simp: returns_def)

lemma returns_bind_state: "\<exists>s. r = Some s \<and> ok s \<Longrightarrow> (\<And>s. ok s \<Longrightarrow> returns (f s)) \<Longrightarrow> returns (Option.bind r f)"
  by auto

lemma ok_cong:
  "rs_router s' = rs_router s \<Longrightarrow> rs_bus s' = rs_bus s \<Longrightarrow> rs_state s' = rs_state s \<Longrightarrow> rs_config s' = rs_config s \<Longrightarrow>
     rs_trigger s' = rs_trigger s \<Longrightarrow> ok s' = ok s"
  by (simp add: ok_def)

lemma ok_frame [simp]:
  "ok (observe s) = ok s" "ok (upd_result f s) = ok s" "ok (add_run_error m s) = ok s" "ok (fail_run m s) = ok s"
  "ok (upd_group l g s) = ok s" "ok (upd_component l h s) = ok s" "ok (upd_trigger l t s) = ok s" "ok (set_in_flight l n s) = ok s"
  "ok (s\<lparr>rs_obs := k\<rparr>) = ok s" "ok (s\<lparr>rs_applied := a\<rparr>) = ok s" "ok (s\<lparr>rs_active_loop := al\<rparr>) = ok s" "ok (s\<lparr>rs_health := he\<rparr>) = ok s"
  "ok (s\<lparr>rs_current_ticks := ct\<rparr>) = ok s" "ok (s\<lparr>rs_next_ticks := nt\<rparr>) = ok s" "ok (s\<lparr>rs_loop := lp\<rparr>) = ok s"
  "ok (set_stop w s) = ok s" "ok (set_loop_stop rid y s) = ok s" "ok (note_restore cid st s) = ok s"
  "ok (note_outcome c iv oc s) = ok s" "ok (record_tick opts c iv s) = ok s" "ok (note_trigger c tm q s) = ok s"
  "ok (begin_loop_iteration rg k j s) = ok s" "ok (cancel_loop rid s) = ok s" "ok (note_exhausted rg s) = ok s" "ok (count_discarded rid s) = ok s"
  by (simp_all add: ok_def observe_def upd_result_def add_run_error_def fail_run_def upd_group_def upd_component_def upd_trigger_def
      set_in_flight_def set_stop_def set_loop_stop_def note_restore_def note_outcome_def record_tick_def note_trigger_def
      begin_loop_iteration_def cancel_loop_def note_exhausted_def count_discarded_def Let_def)

lemma ok_config: "ok s \<Longrightarrow> ok (s\<lparr>rs_config := config_exec cop (rs_config s)\<rparr>)"
  using config_step by (simp add: ok_def)

lemma ok_rollback [simp]: "ok s \<Longrightarrow> ok (rollback_config s)"
  using ok_config [of s RollbackConfig] by (simp add: rollback_config_def)

lemma ok_commit_config [simp]: "ok s \<Longrightarrow> ok (commit_config env s)"
  using ok_config [of "observe s" "CommitConfig (now_at env s)"] by (simp add: commit_config_def observe_def)

lemma ok_router:
  assumes "ok s" and "router_exec op (rs_router s, rs_bus s) = Some (r, rt, b)"
  shows "ok (s\<lparr>rs_router := rt, rs_bus := b\<rparr>)"
  using assms router_step [of "rs_router s" "rs_bus s" op] by (auto simp: ok_def)

lemma router_returns: "ok s \<Longrightarrow> \<exists>r rt b. router_exec op (rs_router s, rs_bus s) = Some (r, rt, b) \<and> ok (s\<lparr>rs_router := rt, rs_bus := b\<rparr>)"
  using router_step [of "rs_router s" "rs_bus s" op] by (fastforce simp: ok_def)

lemma bus_returns: "ok s \<Longrightarrow> \<exists>b. bus_exec op (rs_bus s) = Some b \<and> ok (s\<lparr>rs_bus := b\<rparr>)"
  using bus_step [of "rs_router s" "rs_bus s" op] by (fastforce simp: ok_def)

lemma call_returns: "ok s \<Longrightarrow> \<exists>s'. call_exec now ctx call s = Some s' \<and> ok s'"
proof (cases call)
  case (CallPublishShared port p ts)
  assume s: "ok s"
  let ?src = "context_endpoint ctx port" and ?md = "publication_metadata_for ctx port"
  show ?thesis
    using router_returns [OF s, of "RPublish ?src p ?md ts"] bus_returns [OF s, of "BusPublishFrom now ?src p ?md ts"] s
    by (auto simp: CallPublishShared context_publish_shared_def Let_def split_beta)
next
  case (CallPublish port p ts)
  assume s: "ok s"
  let ?src = "context_endpoint ctx port" and ?md = "publication_metadata_for ctx port" and ?p = "make_shared_payload p"
  show ?thesis
    using router_returns [OF s, of "RPublish ?src ?p ?md ts"] bus_returns [OF s, of "BusPublishFrom now ?src ?p ?md ts"] s
    by (auto simp: CallPublish context_publish_def router_publish_from_with_metadata_def publish_from_with_metadata_def Let_def split_beta)
next
  case (CallReadLatest port)
  assume s: "ok s"
  show ?thesis
    using bus_returns [OF s, of "BusReadUpdate now (gc_component_id ctx) port"] s
    by (auto simp: CallReadLatest view_read_latest_update_def split_beta)
next
  case (CallPeek port)
  assume s: "ok s"
  show ?thesis
    using bus_returns [OF s, of "BusPeek now (gc_component_id ctx) port"] s by (auto simp: CallPeek view_peek_latest_def split_beta)
next
  case (CallDrain port n)
  assume s: "ok s"
  show ?thesis
    using bus_returns [OF s, of "BusDrainPort now (gc_component_id ctx) port n"] s by (auto simp: CallDrain view_drain_def split_beta)
next
  case (CallStageWrite ns key w p)
  assume s: "ok s"
  show ?thesis
    using state_step [of "rs_state s" "StageWrite ns key w p"] s by (simp add: CallStageWrite ok_def split_beta Let_def)
next
  case (CallReadState ns key)
  assume s: "ok s"
  show ?thesis using state_step [of "rs_state s" "StateRead ns key"] s by (simp add: CallReadState ok_def)
next
  case (CallStageConfig cid c on_boundary t)
  assume s: "ok s"
  show ?thesis using ok_config [OF s, of "StageConfig cid c on_boundary t"] s by (simp add: CallStageConfig)
next
  case (CallReadConfig cid)
  assume s: "ok s"
  show ?thesis using ok_config [OF s, of "ComponentConfig cid"] s by (simp add: CallReadConfig)
next
  case (CallReportConvergence r)
  assume s: "ok s"
  then show ?thesis by (simp add: CallReportConvergence)
qed

lemma calls_return: "ok s \<Longrightarrow> \<exists>s'. calls_exec now n calls s = Some s' \<and> ok s'"
proof (induction calls arbitrary: n s)
  case (Cons e calls)
  obtain ctx call where e: "e = (ctx, call)" by fastforce
  obtain s1 where "call_exec (now n) ctx call s = Some s1" "ok s1" using call_returns [OF Cons.prems] by blast
  with Cons.IH show ?case by (auto simp: e)
qed simp

lemma calls_map_returns: "ok s \<Longrightarrow> (\<And>s'. ok (snd (f s')) = ok s') \<Longrightarrow> returns (map_option f (calls_exec now n calls s))"
  using calls_return [of s now n calls] by (auto simp: returns_def) (metis prod.collapse)

lemma ok_validate: "ok s \<Longrightarrow> ok (snd (validate_updates env er us prev s))"
proof (induction us arbitrary: prev s)
  case (Cons u us)
  obtain cid cfg where u: "u = (cid, cfg)" by fastforce
  have "ok ((observe s)\<lparr>rs_config := snd (component_config cid (rs_config s))\<rparr>)"
    using ok_config [of "observe s" "ComponentConfig cid"] Cons.prems by (simp add: observe_def)
  with Cons show ?case by (auto simp: u split_beta split: option.splits status.splits)
qed simp

lemma validated_components:
  "validate_updates env er us prev s = (Some prev', s') \<Longrightarrow> \<forall>u \<in> set us. component_for_id er (fst u) \<noteq> None"
proof (induction us arbitrary: prev s)
  case (Cons u us)
  obtain cid cfg where u: "u = (cid, cfg)" by fastforce
  with Cons show ?case by (fastforce simp: split_beta split: option.splits status.splits if_splits)
qed simp

lemma apply_component_returns: "ok s \<Longrightarrow> returns (apply_component_config env c cfg s)"
  unfolding apply_component_config_def Let_def by (rule calls_map_returns) simp_all

lemma restore_returns: "ok s \<Longrightarrow> \<exists>s'. restore_applied env er prev cids s = Some s' \<and> ok s'"
proof (induction cids arbitrary: s)
  case (Cons cid cids)
  have "\<exists>s'. do { (st, s1) \<leftarrow> apply_component_config env c cfg s; restore_applied env er prev cids (note_restore cid st s1) } = Some s' \<and> ok s'"
    for c cfg using apply_component_returns [OF Cons.prems, of env c cfg] Cons.IH by (auto simp: returns_def)
  with Cons show ?case by (auto split: option.splits)
qed simp

lemma apply_updates_return:
  "ok s \<Longrightarrow> \<forall>u \<in> set us. component_for_id er (fst u) \<noteq> None \<Longrightarrow> returns (apply_updates env er prev applied us s)"
proof (induction us arbitrary: applied s)
  case (Cons u us)
  obtain cid cfg where u: "u = (cid, cfg)" by fastforce
  with Cons.prems(2) obtain c where c: "component_for_id er cid = Some c" by auto
  have fail: "returns (do { (st', s2) \<leftarrow> apply_component_config env c old s1; s3 \<leftarrow> restore_applied env er prev applied (note_restore cid st' s2);
      Some (False, fail_run msg (rollback_config s3)) })" if "ok s1" for old msg s1
    by (rule returns_bind [OF apply_component_returns [OF that]])
      (auto intro: returns_bind_state [OF restore_returns])
  show ?case
    unfolding u apply_updates.simps c option.case
    by (rule returns_bind [OF apply_component_returns [OF Cons.prems(1)]]) (use Cons fail in auto)
qed simp

lemma transaction_returns: "ok s \<Longrightarrow> returns (apply_config_transaction env er s)"
proof -
  assume s: "ok s"
  let ?p = "cs_pending (rs_config s)"
  obtain v s1 where v: "validate_updates env er ?p [] s = (v, s1)" by fastforce
  then have s1: "ok s1" using ok_validate [OF s] by (metis snd_conv)
  show ?thesis
  proof (cases v)
    case None
    with v s s1 show ?thesis by (simp add: apply_config_transaction_def pending_component_config_updates_def Let_def)
  next
    case (Some prev)
    have "returns (do { (ok', s2) \<leftarrow> apply_updates env er prev [] ?p s1; Some (if ok' then (True, commit_config env s2) else (False, s2)) })"
      by (rule returns_bind [OF apply_updates_return [OF s1]]) (use validated_components v Some in auto)
    with v Some s show ?thesis by (simp add: apply_config_transaction_def pending_component_config_updates_def Let_def)
  qed
qed

lemma invocation_returns: "ok s \<Longrightarrow> returns (run_invocation env c iv s)"
  unfolding run_invocation_def Let_def by (rule calls_map_returns) simp_all

lemma batch_returns: "ok s \<Longrightarrow> returns (run_batch env c ivs s)"
  unfolding run_batch_def Let_def by (rule calls_map_returns) simp_all

lemma commit_returns: "ok s \<Longrightarrow> returns (commit_staged env s)"
  using router_returns [of s "RCommitImmediate (env_clock env (rs_obs s) 0)"]
  by (auto simp: commit_staged_def returns_def ok_def observe_def)

lemma record_returns: "ok s \<Longrightarrow> returns (record_invocation_outcome env opts er c iv oc commit s)"
proof -
  assume s: "ok s"
  have "returns (do { (r, s2) \<leftarrow> commit_staged env (note_outcome c iv oc s); Some (if accepted r then (True, record_tick opts c iv s2)
      else (False, fail_run (msg r) s2)) })" for msg
    by (rule returns_bind [OF commit_returns]) (use s in auto)
  with s show ?thesis by (simp add: record_invocation_outcome_def Let_def)
qed

lemma sequential_returns: "ok s \<Longrightarrow> returns (execute_sequential env opts er c ivs s)"
proof (induction ivs arbitrary: s)
  case (Cons iv ivs)
  have "returns (do { (oc, s3) \<leftarrow> run_invocation env c iv s2;
      (ok', s4) \<leftarrow> record_invocation_outcome env opts er c iv oc True (set_in_flight (erc_id c) (\<lambda>n. n - 1) s3);
      if ok' then execute_sequential env opts er c ivs s4 else Some (False, s4) })" if "ok s2" for s2
    by (rule returns_bind [OF invocation_returns [OF that]], simp, rule returns_bind [OF record_returns]) (use Cons.IH in auto)
  with Cons.prems show ?case by (simp add: Let_def del: One_nat_def)
qed simp

lemma outcomes_return: "ok s \<Longrightarrow> returns (record_outcomes env opts er c commit ocs s)"
proof (induction ocs arbitrary: s)
  case (Cons e ocs)
  obtain iv oc where e: "e = (iv, oc)" by fastforce
  show ?case unfolding e record_outcomes.simps by (rule returns_bind [OF record_returns [OF Cons.prems]]) (use Cons.IH in auto)
qed simp

lemma worker_returns: "ok s \<Longrightarrow> returns (execute_worker_invocations env opts er c a commit ivs s)"
proof -
  assume s: "ok s"
  have "returns (do { (ocs, s3) \<leftarrow> run_batch env c ivs s2; (ok', s4) \<leftarrow> record_outcomes env opts er c commit (zip ivs ocs) s3;
      if \<not> ok' then Some (False, s4)
      else if \<not> commit \<and> er_publications er then do { (r, s5) \<leftarrow> commit_staged env s4;
        Some (if accepted r then (True, s5) else (False, fail_run (msg r) s5)) }
      else Some (True, s4) })" if "ok s2" for s2 msg
    by (rule returns_bind [OF batch_returns [OF that]], simp, rule returns_bind [OF outcomes_return], assumption)
      (auto intro: returns_bind [OF commit_returns])
  with s show ?thesis by (simp add: execute_worker_invocations_def Let_def)
qed

lemma one_by_one_returns: "ok s \<Longrightarrow> returns (execute_one_by_one env opts er c a ivs s)"
proof (induction ivs arbitrary: s)
  case (Cons iv ivs)
  show ?case
    unfolding execute_one_by_one.simps by (rule returns_bind [OF worker_returns [OF Cons.prems]]) (use Cons.IH in auto)
qed simp

lemma ok_admit: "ok s \<Longrightarrow> ok (snd (admit_invocations er c n ivs s))"
  by (simp add: admit_invocations_def Let_def)

lemma pool_returns: "ok s \<Longrightarrow> returns (execute_on_pool env opts er c ivs s)"
proof -
  assume s: "ok s"
  have "returns (case admit_invocations er c n ivs s1 of (None, s2) \<Rightarrow> Some (False, s2)
      | (Some taken, s2) \<Rightarrow> if re then execute_worker_invocations env opts er c a False taken s2 else execute_one_by_one env opts er c a taken s2)"
    if "ok s1" for n re a s1
    using ok_admit [OF that, of er c n ivs] worker_returns one_by_one_returns by (auto split: prod.splits option.splits)
  with s show ?thesis by (simp add: execute_on_pool_def Let_def split: option.splits)
qed

definition safe_runtime :: "event_runtime \<Rightarrow> bool" where
  "safe_runtime er \<longleftrightarrow> (\<forall>c \<in> set (er_components er). safe (erc_spec c))"

lemma component_returns: "ok s \<Longrightarrow> safe_runtime er \<Longrightarrow> returns (execute_component env opts er cid s)"
proof (cases "component_for_id er cid")
  case (Some c)
  assume s: "ok s" and er: "safe_runtime er"
  have "safe (erc_spec c)" using Some er by (auto simp: component_for_id_def safe_runtime_def find_Some_iff)
  moreover have "T (rs_trigger s)" "R (rs_router s) (rs_bus s)" using s by (simp_all add: ok_def)
  ultimately obtain ivs te bus ev where
    r: "collect_ready_invocations (env_clock env (rs_obs s)) \<lparr>tc_sequence = iterations (rs_result s) + 1, tc_scheduled_at = now_at env s, tc_started_at = now_at env s\<rparr>
        (erc_spec c) (sg_id (erc_lane c)) (rs_trigger s) (if er_channels er then Some (rs_bus s) else None) = Some (ivs, te, bus, ev)"
      "T te" "case bus of None \<Rightarrow> True | Some b' \<Rightarrow> R (rs_router s) b'"
    using trigger_step by blast
  obtain st te' where te': "take_last_stats (erc_id c) te = (st, te')" by fastforce
  let ?s1 = "note_trigger c st (length ivs) ((observe s)\<lparr>rs_trigger := te', rs_bus := (case bus of None \<Rightarrow> rs_bus s | Some b \<Rightarrow> b)\<rparr>)"
  have "T te'" using stats_step [OF r(2), of "erc_id c"] te' by simp
  then have "ok ((observe s)\<lparr>rs_trigger := te', rs_bus := (case bus of None \<Rightarrow> rs_bus s | Some b \<Rightarrow> b)\<rparr>)"
    using s r(3) by (auto simp: ok_def observe_def split: option.splits)
  then have "ok ?s1" by simp
  then have "returns (execute_sequential env opts er c ivs ?s1)" "returns (execute_on_pool env opts er c ivs ?s1)"
    by (rule sequential_returns, rule pool_returns)
  with r(1) te' Some show ?thesis by (simp add: execute_component_def Let_def)
qed (simp add: execute_component_def)

lemma components_return: "ok s \<Longrightarrow> safe_runtime er \<Longrightarrow> returns (run_components env opts er cids s)"
proof (induction cids arbitrary: s)
  case (Cons cid cids)
  show ?case unfolding run_components.simps by (rule returns_bind [OF component_returns [OF Cons.prems]]) (use Cons in auto)
qed simp

lemma ok_end_loop_iteration: "ok s \<Longrightarrow> ok (snd (end_loop_iteration env rg started s))"
  by (simp add: end_loop_iteration_def Let_def split: option.splits)

lemma loop_returns: "ok s \<Longrightarrow> safe_runtime er \<Longrightarrow> returns (loop_iterations env opts er rg started m n i s)"
proof (induction n arbitrary: i s)
  case (Suc n)
  have "returns (case end_loop_iteration env rg started s2 of (Some e, s3) \<Rightarrow> Some (e, s3)
      | (None, s3) \<Rightarrow> loop_iterations env opts er rg started m n (Suc i) s3)" if "ok s2" for s2
    using ok_end_loop_iteration [OF that, of env rg started] Suc.IH Suc.prems(2) by (auto split: prod.splits option.splits)
  then have "returns (do { (ok', s1) \<leftarrow> run_components env opts er (region_components rg) (begin_loop_iteration rg m i s);
      let s2 = s1\<lparr>rs_active_loop := None\<rparr>;
      if \<not> ok' then Some (LoopFailed, set_loop_stop (region_id rg) ''component_error'' (upd_result f s2))
      else (case end_loop_iteration env rg started s2 of (Some e, s3) \<Rightarrow> Some (e, s3)
        | (None, s3) \<Rightarrow> loop_iterations env opts er rg started m n (Suc i) s3) })" for f
    by (intro returns_bind [OF components_return]) (use Suc.prems in \<open>auto simp: Let_def\<close>)
  with Suc.prems(1) show ?case by simp
qed simp

lemma ok_discard [simp]: "ok s \<Longrightarrow> ok (discard_region er s)"
  using router_returns [of s RDiscardComposite] by (auto simp: discard_region_def ok_def)

lemma finish_composite_returns: "ok s \<Longrightarrow> returns (finish_composite env er rg e s)"
proof -
  assume s: "ok s"
  define s1 where "s1 = (if e = LoopExhausted then note_exhausted rg s else s)"
  have s1: "ok s1" using s by (simp add: s1_def)
  obtain r rt b where c: "commit_composite_region_outputs (env_clock env (rs_obs s1) 0) (rs_router s1, rs_bus s1) = Some (r, rt, b)"
    and "ok (s1\<lparr>rs_router := rt, rs_bus := b\<rparr>)"
    using router_returns [OF s1, of "RCommitComposite (env_clock env (rs_obs s1) 0)"] by auto
  then have "ok ((observe s1)\<lparr>rs_router := rt, rs_bus := b\<rparr>)" by (simp add: ok_def observe_def)
  with s1 c show ?thesis unfolding finish_composite_def Let_def s1_def [symmetric] by simp
qed

lemma composite_returns: "ok s \<Longrightarrow> safe_runtime er \<Longrightarrow> returns (run_composite env opts er rg s)"
proof -
  assume s: "ok s" and er: "safe_runtime er"
  let ?s1 = "if er_publications er then s\<lparr>rs_router := begin_composite_region (region_components rg) (rs_router s)\<rparr> else s"
  have "ok ?s1" using router_returns [OF s, of "RBeginComposite (region_components rg)"] s by (auto simp: ok_def)
  then show ?thesis
    unfolding run_composite_def Let_def
    by (intro returns_bind [OF loop_returns]) (use er finish_composite_returns in auto)
qed

lemma regions_return: "ok s \<Longrightarrow> safe_runtime er \<Longrightarrow> returns (run_regions env opts er rgs s)"
proof (induction rgs arbitrary: s)
  case (Cons rg rgs)
  have "returns (if region_kind rg = RegionCompositeLoop then run_composite env opts er rg s else run_components env opts er (region_components rg) s)"
    using composite_returns components_return Cons.prems by simp
  then show ?case unfolding run_regions.simps by (rule returns_bind) (use Cons in auto)
qed simp

lemma ok_wait: "ok s \<Longrightarrow> ok (snd (wait_ticks env it ts s))"
  by (induction env it ts s rule: wait_ticks.induct) (auto simp: Let_def)

lemma ok_finish_lane: "ok (finish_lane env a b e s) = ok s"
  by (simp add: finish_lane_def Let_def split_beta split: option.splits)

lemma ok_finish_lanes: "ok (fold (finish_lane env a b) es s) = ok s"
  by (induction es arbitrary: s) (simp_all add: ok_finish_lane)

lemma epoch_returns: "ok s \<Longrightarrow> returns (begin_publication_epoch env er s)"
  using router_returns [of s "RBeginEpoch (env_clock env (rs_obs s) 0)"]
  by (auto simp: begin_publication_epoch_def Let_def) (simp_all add: ok_def observe_def)

lemma finish_iteration_returns: "ok s \<Longrightarrow> returns (finish_iteration env opts er a n s)"
proof -
  assume s: "ok s"
  let ?s1 = "if er_publications er then s\<lparr>rs_router := end_epoch (rs_router s)\<rparr> else s"
  have "ok ?s1" using router_returns [OF s, of REndEpoch] s by auto
  then show ?thesis
    unfolding finish_iteration_def Let_def by (intro returns_bind_state [OF calls_return]) (auto simp: ok_finish_lanes)
qed

lemma iteration_returns:
  assumes s: "ok s" and er: "safe_runtime er"
  shows "returns (run_iteration env opts er st it s)"
proof -
  have regions: "returns (do { (ok', s6) \<leftarrow> run_regions env opts er rgs s5; if \<not> ok' then Some (IterationReturn, s6) else finish_iteration env opts er a n s6 })"
    if "ok s5" for rgs s5 a n
    by (rule returns_bind [OF regions_return [OF that er]]) (use finish_iteration_returns in auto)
  have epoch: "returns (do { (ok', s5) \<leftarrow> begin_publication_epoch env er s4; if \<not> ok' then Some (IterationReturn, s5)
      else do { (ok', s6) \<leftarrow> run_regions env opts er rgs s5; if \<not> ok' then Some (IterationReturn, s6) else finish_iteration env opts er a n s6 } })"
    if "ok s4" for rgs s4 a n
    by (rule returns_bind [OF epoch_returns [OF that]]) (use regions in auto)
  have body: "returns (do { (ok', s4) \<leftarrow> apply_config_transaction env er s3; if \<not> ok' then Some (IterationReturn, s4)
      else do { (ok', s5) \<leftarrow> begin_publication_epoch env er s4; if \<not> ok' then Some (IterationReturn, s5)
      else do { (ok', s6) \<leftarrow> run_regions env opts er rgs s5; if \<not> ok' then Some (IterationReturn, s6) else finish_iteration env opts er a n s6 } } })"
    if "ok s3" for rgs s3 a n
    by (rule returns_bind [OF transaction_returns [OF that]]) (use epoch in auto)
  obtain w s1 where w: "wait_ticks env it (rs_next_ticks (observe s)) ((observe (observe s))\<lparr>rs_current_ticks := []\<rparr>) = (w, s1)" by fastforce
  then have s1: "ok s1" using ok_wait [of "(observe (observe s))\<lparr>rs_current_ticks := []\<rparr>"] s by (metis ok_frame(1,13) snd_conv)
  define s3 where "s3 = (if er_state_store er then (observe s1)\<lparr>rs_state := snd (state_commit_epoch_boundary (rs_state (observe s1)))\<rparr> else observe s1)"
  have "ok s3" using s1 state_step [of "rs_state s1" StateCommit] by (simp add: s3_def ok_def observe_def)
  from body [OF this, of "execution_order er" "now_at env s1" "tick_calls (rs_result s)"] s s1 w
  show ?thesis by (cases w; cases "er_state_store er") (simp_all add: run_iteration_def Let_def s3_def)
qed

lemma iterate_returns: "ok s \<Longrightarrow> safe_runtime er \<Longrightarrow> \<exists>s'. iterate env opts er st n it s = Some s' \<and> ok s'"
proof (induction n arbitrary: it s)
  case (Suc n)
  obtain e s1 where "run_iteration env opts er st it s = Some (e, s1)" "ok s1"
    using iteration_returns [OF Suc.prems, of env opts st it] by (auto simp: returns_def)
  with Suc show ?case by auto
qed simp

lemma run_returns:
  assumes "R rt b" and "S ss" and "C cs" and "T empty_trigger_engine" and "safe_runtime er"
  shows "\<exists>s. run env opts er rt b ss cs = Some s \<and> R (rs_router s) (rs_bus s) \<and> S (rs_state s) \<and> C (rs_config s) \<and> T (rs_trigger s)"
  using iterate_returns [of "start_state env er rt b ss cs" er] assms by (auto simp: run_def ok_def start_state_def)

end

section \<open>The objects of the runtime\<close>

lemma bus_step_reachable: "bus_reachable specs b \<Longrightarrow> \<exists>b'. bus_exec op b = Some b' \<and> bus_reachable specs b'"
proof -
  assume b: "bus_reachable specs b"
  then obtain ops where ops: "bus_run ops (make_bus specs) = Some b" by (auto simp: bus_reachable_def)
  obtain b' where b': "bus_exec op b = Some b'" using bus_inv.keeps_exec [OF reachable_ok(1) [OF b]] by blast
  have "bus_run (ops @ [op]) b0 = Some b'" if "bus_run ops b0 = Some b" for b0
    using that b' by (induction ops arbitrary: b0) (auto split: option.splits)
  with ops have "bus_run (ops @ [op]) (make_bus specs) = Some b'" by blast
  with b' show ?thesis unfolding bus_reachable_def by blast
qed

lemma commit_batch_returns:
  "bus_reachable specs b \<Longrightarrow> \<exists>r rt' b'. commit_batch now pubs (rt, b) = Some (r, rt', b') \<and> bus_reachable specs b'"
  using bus_step_reachable [of specs b "BusPublishBatch now pubs"] by (auto simp: commit_batch_def split: option.splits)

lemma router_step_reachable:
  assumes b: "bus_reachable specs b"
  shows "\<exists>r rt' b'. router_exec op (rt, b) = Some (r, rt', b') \<and> bus_reachable specs b'"
proof (cases op)
  case (RBeginEpoch now)
  have "bus_reachable specs (if has_bus rt then advance_epoch b else b)" using bus_step_reachable [OF b, of BusAdvance] b by simp
  from commit_batch_returns [OF this, of now "deferred_ready rt" "rt\<lparr>deferred_ready := []\<rparr>"] show ?thesis
    by (auto simp: RBeginEpoch begin_epoch_def Let_def)
qed (use b commit_batch_returns [OF b] in
    \<open>auto simp: commit_composite_region_outputs_def commit_immediate_def Let_def split: prod.splits\<close>)

definition trigger_wf :: "trigger_engine \<Rightarrow> bool" where
  "trigger_wf te \<longleftrightarrow> (\<forall>cid. smap_wf (smap_get [] (te_pending te) cid))"

text \<open>
  A component whose trigger is defined on every message: its trigger inputs are pairwise different, and it does not subtract event
  timestamps, which come from the components and may be any 64-bit numbers.
\<close>

definition safe_trigger :: "component_node_spec \<Rightarrow> bool" where
  "safe_trigger c \<longleftrightarrow> distinct (trigger_policy_inputs_for c) \<and> tp_type (trigger_policy c) \<notin> {''time_sync'', ''watermark''}"

lemma collect_for_policy_safe:
  assumes wf: "smap_wf pend" and "safe_trigger c"
  shows "\<exists>r. collect_for_policy tc c lane pend wm st = Some r"
proof -
  have d: "distinct (trigger_policy_inputs_for c)" and t: "tp_type (trigger_policy c) \<noteq> ''time_sync''" "tp_type (trigger_policy c) \<noteq> ''watermark''"
    using assms(2) by (auto simp: safe_trigger_def)
  have all: "\<exists>r. collect_all_inputs tc c lane pend = Some r"
    using consume_front_defined [OF _ d wf] by (fastforce simp: collect_all_inputs_def Let_def split: option.splits)
  have "\<exists>r. condition_loop (trigger_policy_inputs_for c) pend 0 = Some r" by (rule condition_loop_defined [OF wf d])
  with all have "\<exists>r. collect_condition tc c lane pend st = Some r"
    by (fastforce simp: collect_condition_def Let_def split: prod.splits option.splits)
  with all t show ?thesis unfolding collect_for_policy_def Let_def split_beta by auto
qed

lemma enforce_returns: "(\<And>port. pending_limit c bus port \<noteq> None) \<Longrightarrow> \<exists>n pend'. enforce_pending_bounds c bus pend = Some (n, pend')"
proof (induction pend)
  case (Cons e pend)
  obtain port q where e: "e = (port, q)" by fastforce
  obtain limit where "pending_limit c bus port = Some limit" using Cons.prems by blast
  with Cons e show ?case by auto
qed simp

lemma collect_pending_safe:
  assumes wf: "smap_wf pend" and c: "safe_trigger c" and te: "trigger_wf te" and limit: "\<And>port. pending_limit c bus port \<noteq> None"
  shows "\<exists>ivs te'. collect_pending tc c lane bus pend te = Some (ivs, te') \<and> trigger_wf te'"
proof -
  obtain n1 p1 where p1: "prune_timed_out_messages c (tc_started_at tc) pend = (n1, p1)" by fastforce
  then have wf1: "smap_wf p1" using prune_moved [OF wf p1] by (simp add: moved_def)
  obtain n2 p2 where p2: "enforce_pending_bounds c bus p1 = Some (n2, p2)" using enforce_returns [OF limit] by blast
  then have wf2: "smap_wf p2" using enforce_moved(1) [OF wf1 p2] by (simp add: moved_def)
  obtain r where "collect_pending tc c lane bus pend te = Some r"
    using collect_for_policy_safe [OF wf2 c] p1 p2 by (fastforce simp: collect_pending_def Let_def)
  moreover obtain ivs te' where r: "r = (ivs, te')" by fastforce
  moreover obtain pend' where p': "map_of (te_pending te') (comp_id c) = Some pend'" "smap_wf pend'"
    using collect_pending_moved [OF wf _ calculation(1) [unfolded r]] c by (auto simp: safe_trigger_def moved_def)
  moreover have "map_of (te_pending te') cid = map_of (te_pending te) cid" if "cid \<noteq> comp_id c" for cid
    using calculation(1) r p1 p2 that by (auto simp: collect_pending_def Let_def record_invocation_def split: if_splits)
  ultimately have "smap_wf (smap_get [] (te_pending te') cid)" for cid
    using te by (cases "cid = comp_id c") (simp_all add: trigger_wf_def smap_get_def)
  with \<open>collect_pending tc c lane bus pend te = Some r\<close> r show ?thesis by (simp add: trigger_wf_def)
qed

lemma drain_ports_returns:
  assumes "bus_reachable specs b" and "smap_wf pend"
  shows "\<exists>pend' b' ev. drain_ports now k cid is pend b = Some (pend', b', ev) \<and> bus_reachable specs b' \<and> smap_wf pend'"
  using assms
proof (induction "is" arbitrary: k pend b)
  case (Cons i "is")
  obtain ms b1 e1 where d: "drain_for_component_port (now k) cid i 0 b = Some (ms, b1, e1)" "bus_reachable specs b1"
    using bus_step_reachable [OF Cons.prems(1), of "BusDrainPort (now k) cid i 0"] by auto
  with Cons.IH [OF d(2), of "smap_put i (pending_queue pend i @ ms) pend" "Suc k"] Cons.prems(2) show ?case by auto
qed simp

lemma trigger_step_safe:
  assumes te: "trigger_wf te" and b: "bus_reachable specs b" and c: "safe_trigger c"
  shows "\<exists>ivs te' bus' ev. collect_ready_invocations now tc c lane te (if ch then Some b else None) = Some (ivs, te', bus', ev) \<and> trigger_wf te' \<and>
    (case bus' of None \<Rightarrow> True | Some b' \<Rightarrow> bus_reachable specs b')"
proof -
  let ?bus = "if ch then Some b else None" and ?pend = "smap_get [] (te_pending te) (comp_id c)"
  have "smap_wf ?pend" using te by (simp add: trigger_wf_def)
  then obtain pend bus' ev where d: "drain_inputs now c ?pend ?bus = Some (pend, bus', ev)" "smap_wf pend"
    "case bus' of None \<Rightarrow> True | Some b' \<Rightarrow> bus_reachable specs b'"
    using drain_ports_returns [OF b, of ?pend now 0 "comp_id c" "trigger_policy_inputs_for c"]
    by (cases ch) (auto simp: drain_inputs_def)
  have "pending_limit c bus' port \<noteq> None" for port
    using d(3) pending_limit_defined by (cases bus') (auto simp: pending_limit_def)
  with collect_pending_safe [OF d(2) c te] obtain ivs te' where "collect_pending tc c lane bus' pend te = Some (ivs, te')" "trigger_wf te'" by blast
  with d(3) te b show ?thesis unfolding collect_ready_invocations_def d(1) by (cases "has_timer_event_source c"; cases "has_message_event_source c") auto
qed

lemma trigger_wf_stats: "trigger_wf te \<Longrightarrow> trigger_wf (snd (take_last_stats cid te))"
  by (auto simp: take_last_stats_def trigger_wf_def split: option.splits)

interpretation runtime_objects: shared_objects "\<lambda>rt b. bus_reachable specs b \<and> limits_inv rt" state_wf config_wf trigger_wf safe_trigger
  for specs
proof unfold_locales
  fix rt b op
  assume a: "bus_reachable specs b \<and> limits_inv rt"
  then show "\<exists>r rt' b'. router_exec op (rt, b) = Some (r, rt', b') \<and> bus_reachable specs b' \<and> limits_inv rt'"
    using router_step_reachable [of specs b op rt] exec_limits by blast
next
  fix rt b bop
  assume "bus_reachable specs b \<and> limits_inv rt"
  then show "\<exists>b'. bus_exec bop b = Some b' \<and> bus_reachable specs b' \<and> limits_inv rt" using bus_step_reachable by blast
next
  fix ss sop
  assume "state_wf ss"
  then show "state_wf (snd (state_exec sop ss))" using state_exec_effect(1) by (metis prod.collapse)
next
  fix te rt b c now tc lane ch
  assume a: "trigger_wf te" "bus_reachable specs b \<and> limits_inv rt" "safe_trigger c"
  then obtain ivs te' bus' ev where r: "collect_ready_invocations now tc c lane te (if ch then Some b else None) = Some (ivs, te', bus', ev)"
    "trigger_wf te'" "case bus' of None \<Rightarrow> True | Some b' \<Rightarrow> bus_reachable specs b'"
    using trigger_step_safe [of te specs b c now tc lane ch] by blast
  then have "case bus' of None \<Rightarrow> True | Some b' \<Rightarrow> bus_reachable specs b' \<and> limits_inv rt" using a(2) by (auto split: option.splits)
  with r show "\<exists>ivs te' bus' ev. collect_ready_invocations now tc c lane te (if ch then Some b else None) = Some (ivs, te', bus', ev) \<and> trigger_wf te' \<and>
      (case bus' of None \<Rightarrow> True | Some b' \<Rightarrow> bus_reachable specs b' \<and> limits_inv rt)"
    by blast
qed (auto intro: config_wf_exec trigger_wf_stats)

section \<open>The result of a run\<close>

abbreviation ticks :: "run_state \<Rightarrow> string list" where
  "ticks s \<equiv> ticked_tasks (rs_result s)"

definition counted :: "scheduler_run_options \<Rightarrow> nat \<Rightarrow> scheduler_run_result \<Rightarrow> bool" where
  "counted opts it r \<longleftrightarrow> iterations r = it \<and>
     length (ticked_tasks r) = (if max_recorded_ticked_tasks opts = 0 then tick_calls r else min (tick_calls r) (max_recorded_ticked_tasks opts))"

text \<open>A run that goes on, and a run that may return.\<close>

definition running :: "scheduler_run_options \<Rightarrow> nat \<Rightarrow> run_state \<Rightarrow> bool" where
  "running opts it s \<longleftrightarrow> counted opts it (rs_result s) \<and> run_ok (rs_result s) \<and> run_errors (rs_result s) = [] \<and> stop_reason (rs_result s) = TickBound"

definition settled :: "scheduler_run_options \<Rightarrow> nat \<Rightarrow> run_state \<Rightarrow> bool" where
  "settled opts it s \<longleftrightarrow> counted opts it (rs_result s) \<and> (run_ok (rs_result s) \<longleftrightarrow> run_errors (rs_result s) = []) \<and>
     (run_ok (rs_result s) \<longleftrightarrow> stop_reason (rs_result s) \<noteq> StopError)"

lemma running_settled: "running opts it s \<Longrightarrow> settled opts it s"
  by (simp add: running_def settled_def)

lemma rs_result_frame [simp]:
  "rs_result (observe s) = rs_result s" "rs_result (rollback_config s) = rs_result s" "rs_result (commit_config env s) = rs_result s"
  "rs_result (set_in_flight l n s) = rs_result s" "rs_result (discard_region er s) = rs_result s"
  by (simp_all add: observe_def rollback_config_def commit_config_def set_in_flight_def discard_region_def)

text \<open>Updates of the result that leave what these predicates read.\<close>

definition same_core :: "run_state \<Rightarrow> run_state \<Rightarrow> bool" where
  "same_core s s' \<longleftrightarrow> run_ok (rs_result s') = run_ok (rs_result s) \<and> run_errors (rs_result s') = run_errors (rs_result s) \<and>
     stop_reason (rs_result s') = stop_reason (rs_result s) \<and> iterations (rs_result s') = iterations (rs_result s) \<and>
     tick_calls (rs_result s') = tick_calls (rs_result s) \<and> ticks s' = ticks s"

lemma same_core_running: "same_core s s' \<Longrightarrow> running opts it s' = running opts it s \<and> settled opts it s' = settled opts it s"
  by (simp add: same_core_def running_def settled_def counted_def)

lemma same_core_ticks: "same_core s s' \<Longrightarrow> ticks s' = ticks s"
  by (simp add: same_core_def)

lemma same_core_updates:
  "same_core s (upd_group l g s)" "same_core s (upd_component l h s)" "same_core s (upd_trigger l t s)"
  "same_core s (set_loop_stop rid y s)" "same_core s (note_outcome c iv oc s)" "same_core s (note_trigger c tm q s)"
  "same_core s (begin_loop_iteration rg k j s)" "same_core s (note_exhausted rg s)" "same_core s (count_discarded rid s)"
  "same_core s (upd_result (\<lambda>r. r\<lparr>loop_error_count := bump rid (loop_error_count r)\<rparr>) s)"
  "same_core s (snd (end_loop_iteration env rg st s))" "same_core s (finish_lane env a b e s)"
  by (simp_all add: same_core_def upd_result_def upd_group_def upd_component_def upd_trigger_def set_loop_stop_def note_outcome_def
      note_trigger_def begin_loop_iteration_def note_exhausted_def count_discarded_def end_loop_iteration_def finish_lane_def split_beta Let_def
      split: option.splits)

lemmas core_frame [simp] = same_core_updates [THEN same_core_running, THEN conjunct1] same_core_updates [THEN same_core_running, THEN conjunct2]
  same_core_updates [THEN same_core_ticks]

lemma result_eq_running: "rs_result s' = rs_result s \<Longrightarrow> running opts it s' = running opts it s"
  by (simp add: running_def)

lemma running_simps [simp]:
  "running opts it (observe s) = running opts it s" "running opts it (rollback_config s) = running opts it s"
  "running opts it (commit_config env s) = running opts it s" "running opts it (set_in_flight l n s) = running opts it s"
  "running opts it (discard_region er s) = running opts it s" "running opts it (s\<lparr>rs_active_loop := al\<rparr>) = running opts it s"
  "running opts it (s\<lparr>rs_router := rt\<rparr>) = running opts it s" "running opts it (s\<lparr>rs_current_ticks := ct\<rparr>) = running opts it s"
  "running opts it (s\<lparr>rs_health := he\<rparr>) = running opts it s" "running opts it (s\<lparr>rs_state := ss\<rparr>) = running opts it s"
  "running opts it (s\<lparr>rs_trigger := te, rs_bus := b\<rparr>) = running opts it s" "running opts it (s\<lparr>rs_router := rt, rs_bus := b\<rparr>) = running opts it s"
  by (simp_all add: running_def)

lemma counted_fail: "counted opts it (rs_result s) \<Longrightarrow> settled opts it (fail_run m s)"
  by (simp add: settled_def counted_def fail_run_def add_run_error_def upd_result_def)

lemma settled_fail [simp]: "running opts it s \<Longrightarrow> settled opts it (fail_run m s)" "settled opts it s \<Longrightarrow> settled opts it (fail_run m s)"
  by (rule counted_fail, simp add: running_def, rule counted_fail, simp add: settled_def)

lemma ticks_fail [simp]: "ticks (fail_run m s) = ticks s" "ticks (set_stop w s) = ticks s" "ticks (cancel_loop rid s) = ticks s"
  "ticks (add_run_error m s) = ticks s"
  by (simp_all add: fail_run_def add_run_error_def upd_result_def set_stop_def cancel_loop_def set_loop_stop_def)

lemma settled_stop [simp]: "running opts it s \<Longrightarrow> w \<noteq> StopError \<Longrightarrow> settled opts it (set_stop w s)"
  "running opts it s \<Longrightarrow> settled opts it (cancel_loop rid s)"
  by (simp_all add: running_def settled_def counted_def upd_result_def set_stop_def cancel_loop_def set_loop_stop_def)

section \<open>Calls and transactions leave the result\<close>

lemma call_exec_frame: "call_exec now ctx call s = Some s' \<Longrightarrow> rs_result s' = rs_result s \<and> rs_applied s' = rs_applied s"
  by (cases call) (auto split: if_splits)

lemma calls_exec_frame: "calls_exec now n calls s = Some s' \<Longrightarrow> rs_result s' = rs_result s \<and> rs_applied s' = rs_applied s"
proof (induction calls arbitrary: n s)
  case (Cons e calls)
  obtain ctx call where e: "e = (ctx, call)" by fastforce
  with Cons.prems obtain s1 where "call_exec (now n) ctx call s = Some s1" "calls_exec now (Suc n) calls s1 = Some s'" by (auto split: bind_splits)
  with Cons.IH call_exec_frame show ?case by fastforce
qed simp

lemma quiet_calls:
  "apply_component_config env c cfg s = Some (st, s') \<Longrightarrow> rs_result s' = rs_result s"
  "run_invocation env c iv s = Some (oc, s') \<Longrightarrow> rs_result s' = rs_result s"
  "run_batch env c ivs s = Some (ocs, s') \<Longrightarrow> rs_result s' = rs_result s"
  "commit_staged env s = Some (r, s') \<Longrightarrow> rs_result s' = rs_result s"
  by (auto simp: apply_component_config_def run_invocation_def run_batch_def commit_staged_def Let_def observe_def dest!: calls_exec_frame)

text \<open>
  A part of a run started while it goes on: with \<open>True\<close> it goes on, with \<open>False\<close> it may return, and the tasks it records
  are described by \<open>P\<close>.
\<close>

definition proceeds :: "scheduler_run_options \<Rightarrow> nat \<Rightarrow> (string list \<Rightarrow> bool) \<Rightarrow> run_state \<Rightarrow> (bool \<times> run_state) option \<Rightarrow> bool" where
  "proceeds opts it P s r \<longleftrightarrow> (\<forall>b s'. r = Some (b, s') \<longrightarrow> (if b then running opts it s' else settled opts it s') \<and> (\<exists>ts. P ts \<and> ticks s' = ticks s @ ts))"

lemma proceeds_True: "running opts it s' \<Longrightarrow> ticks s' = ticks s \<Longrightarrow> P [] \<Longrightarrow> proceeds opts it P s (Some (True, s'))"
  and proceeds_False: "settled opts it s' \<Longrightarrow> ticks s' = ticks s \<Longrightarrow> P [] \<Longrightarrow> proceeds opts it P s (Some (False, s'))"
  by (simp_all add: proceeds_def)

text \<open>Two parts one after the other, the second only if the first lets it go on.\<close>

lemma proceeds_bind:
  assumes "proceeds opts it P s r" and "\<And>s'. running opts it s' \<Longrightarrow> proceeds opts it Q s' (f (True, s'))"
    and "\<And>s'. f (False, s') = Some (False, s')" and "\<And>ts us. P ts \<Longrightarrow> Q us \<Longrightarrow> PQ (ts @ us)" and "\<And>ts. P ts \<Longrightarrow> PQ ts"
  shows "proceeds opts it PQ s (Option.bind r f)"
proof (cases r)
  case (Some bs)
  obtain b s1 where bs: "bs = (b, s1)" by fastforce
  obtain ts where s1: "if b then running opts it s1 else settled opts it s1" "P ts" "ticks s1 = ticks s @ ts"
    using assms(1) Some bs unfolding proceeds_def by blast
  show ?thesis
  proof (cases b)
    case True
    with s1 assms(2) have "proceeds opts it Q s1 (f (True, s1))" by simp
    with Some bs True s1(2,3) assms(4) show ?thesis unfolding proceeds_def by fastforce
  next
    case False
    with Some bs s1 assms(3,5) show ?thesis unfolding proceeds_def by auto
  qed
qed (simp add: proceeds_def)

lemma proceeds_start: "proceeds opts it P s0 r \<Longrightarrow> ticks s0 = ticks s \<Longrightarrow> proceeds opts it P s r"
  by (simp add: proceeds_def)

lemma proceeds_weaken: "proceeds opts it P s r \<Longrightarrow> (\<And>ts. P ts \<Longrightarrow> Q ts) \<Longrightarrow> proceeds opts it Q s r"
  unfolding proceeds_def by blast

definition only :: "string \<Rightarrow> string list \<Rightarrow> bool" where
  "only cid ts \<longleftrightarrow> set ts \<subseteq> {cid}"

lemma only_simps [simp]: "only cid []" "only cid (ts @ us) \<longleftrightarrow> only cid ts \<and> only cid us"
  by (auto simp: only_def)

lemma proceeds_seq:
  "proceeds opts it (only cid) s r \<Longrightarrow> (\<And>s'. running opts it s' \<Longrightarrow> proceeds opts it (only cid) s' (f (True, s'))) \<Longrightarrow>
   (\<And>s'. f (False, s') = Some (False, s')) \<Longrightarrow> proceeds opts it (only cid) s (Option.bind r f)"
  by (rule proceeds_bind) auto

text \<open>Before a part, calls that leave the result.\<close>

lemma proceeds_quiet:
  assumes "\<And>x s'. r = Some (x, s') \<Longrightarrow> rs_result s' = rs_result s" and "\<And>x s'. rs_result s' = rs_result s \<Longrightarrow> proceeds opts it P s' (f (x, s'))"
  shows "proceeds opts it P s (Option.bind r f)"
proof (cases r)
  case (Some xs)
  obtain x s1 where xs: "xs = (x, s1)" by fastforce
  then have eq: "rs_result s1 = rs_result s" using Some assms(1) by blast
  from proceeds_start [OF assms(2) [OF eq]] eq Some xs show ?thesis by simp
qed (simp add: proceeds_def)

lemma record_tick_running: "running opts it s \<Longrightarrow> running opts it (record_tick opts c iv s) \<and> (\<exists>ts. only (erc_id c) ts \<and> ticks (record_tick opts c iv s) = ticks s @ ts)"
  by (auto simp: running_def counted_def record_tick_def upd_group_def upd_result_def only_def)

lemma record_proceeds: "running opts it s \<Longrightarrow> proceeds opts it (only (erc_id c)) s (record_invocation_outcome env opts er c iv oc commit s)"
proof -
  assume s: "running opts it s"
  have tick: "proceeds opts it (only (erc_id c)) s' (Some (True, record_tick opts c iv s'))" if "running opts it s'" for s'
    using record_tick_running [OF that, of c iv] by (simp add: proceeds_def)
  let ?s1 = "note_outcome c iv oc s"
  have commit: "proceeds opts it (only (erc_id c)) s (do { (r, s2) \<leftarrow> commit_staged env ?s1;
      Some (if accepted r then (True, record_tick opts c iv s2) else (False, fail_run (msg r) s2)) })" for msg
  proof (rule proceeds_start [of opts it _ ?s1], rule proceeds_quiet [OF quiet_calls(4)], assumption)
    fix r and s' :: run_state
    assume "rs_result s' = rs_result ?s1"
    then have "running opts it s'" using result_eq_running s by (metis core_frame(5))
    with tick [OF this] show "proceeds opts it (only (erc_id c)) s' (case (r, s') of (r, s2) \<Rightarrow>
        Some (if accepted r then (True, record_tick opts c iv s2) else (False, fail_run (msg r) s2)))"
      by (simp add: proceeds_def)
  qed simp
  have "proceeds opts it (only (erc_id c)) s (Some (True, record_tick opts c iv ?s1))" using tick [of ?s1] s by (auto intro: proceeds_start)
  with s commit [of "\<lambda>r. ''immediate publication commit failed after component '' @ erc_id c @ '': '' @ reason r"] show ?thesis
    unfolding record_invocation_outcome_def Let_def by (auto intro: proceeds_False)
qed

lemma sequential_proceeds: "running opts it s \<Longrightarrow> proceeds opts it (only (erc_id c)) s (execute_sequential env opts er c ivs s)"
proof (induction ivs arbitrary: s)
  case (Cons iv ivs)
  have step: "proceeds opts it (only (erc_id c)) s2 (do { (oc, s3) \<leftarrow> run_invocation env c iv s2;
      (ok', s4) \<leftarrow> record_invocation_outcome env opts er c iv oc True (set_in_flight (erc_id c) (\<lambda>n. n - 1) s3);
      if ok' then execute_sequential env opts er c ivs s4 else Some (False, s4) })" if "running opts it s2" for s2
  proof (rule proceeds_quiet [OF quiet_calls(2)], assumption)
    fix oc and s' :: run_state
    assume "rs_result s' = rs_result s2"
    with that have "running opts it (set_in_flight (erc_id c) (\<lambda>n. n - 1) s')" by (simp add: running_def)
    from proceeds_start [OF record_proceeds [OF this], of s']
    show "proceeds opts it (only (erc_id c)) s' (case (oc, s') of (oc, s3) \<Rightarrow> do {
        (ok', s4) \<leftarrow> record_invocation_outcome env opts er c iv oc True (set_in_flight (erc_id c) (\<lambda>n. n - 1) s3);
        if ok' then execute_sequential env opts er c ivs s4 else Some (False, s4) })"
      unfolding prod.case by (rule proceeds_seq) (use Cons.IH in simp_all)
  qed
  let ?s1 = "set_in_flight (erc_id c) Suc s"
  let ?s2 = "upd_component (erc_id c) (\<lambda>m. m\<lparr>max_in_flight_count := max (max_in_flight_count m) (smap_get 0 (rs_in_flight ?s1) (erc_id c))\<rparr>) ?s1"
  have "running opts it ?s2" using Cons.prems by simp
  from proceeds_start [OF step [OF this], of s] Cons.prems show ?case
    by (auto simp: Let_def simp del: One_nat_def intro: proceeds_False)
qed (simp add: proceeds_True)

lemma outcomes_proceed: "running opts it s \<Longrightarrow> proceeds opts it (only (erc_id c)) s (record_outcomes env opts er c commit ocs s)"
proof (induction ocs arbitrary: s)
  case (Cons e ocs)
  obtain iv oc where e: "e = (iv, oc)" by fastforce
  show ?case unfolding e record_outcomes.simps by (rule proceeds_seq [OF record_proceeds [OF Cons.prems]]) (use Cons.IH in auto)
qed (simp add: proceeds_True)

lemma commit_proceeds:
  "running opts it s \<Longrightarrow> proceeds opts it (only cid) s (do { (r, s5) \<leftarrow> commit_staged env s;
     Some (if accepted r then (True, s5) else (False, fail_run (msg r) s5)) })"
  by (rule proceeds_quiet [OF quiet_calls(4)], assumption) (auto simp: proceeds_def dest: result_eq_running [of _ s opts it, THEN iffD2])

lemma worker_proceeds: "running opts it s \<Longrightarrow> proceeds opts it (only (erc_id c)) s (execute_worker_invocations env opts er c a commit ivs s)"
proof -
  assume s: "running opts it s"
  have step: "proceeds opts it (only (erc_id c)) s2 (do { (ocs, s3) \<leftarrow> run_batch env c ivs s2; (ok', s4) \<leftarrow> record_outcomes env opts er c commit (zip ivs ocs) s3;
      if \<not> ok' then Some (False, s4)
      else if \<not> commit \<and> er_publications er then do { (r, s5) \<leftarrow> commit_staged env s4;
        Some (if accepted r then (True, s5) else (False, fail_run (msg r) s5)) }
      else Some (True, s4) })" if "running opts it s2" for s2 and msg :: "publish_result \<Rightarrow> string"
  proof (rule proceeds_quiet [OF quiet_calls(3)], assumption)
    fix ocs and s' :: run_state
    assume "rs_result s' = rs_result s2"
    with that have "running opts it s'" by (simp add: running_def)
    then show "proceeds opts it (only (erc_id c)) s' (case (ocs, s') of (ocs, s3) \<Rightarrow> do { (ok', s4) \<leftarrow> record_outcomes env opts er c commit (zip ivs ocs) s3;
        if \<not> ok' then Some (False, s4)
        else if \<not> commit \<and> er_publications er then do { (r, s5) \<leftarrow> commit_staged env s4;
          Some (if accepted r then (True, s5) else (False, fail_run (msg r) s5)) }
        else Some (True, s4) })"
      unfolding prod.case by (intro proceeds_seq [OF outcomes_proceed]) (auto intro: commit_proceeds proceeds_True)
  qed
  let ?active = "min a (length ivs)"
  let ?s2 = "upd_component (erc_id c) (\<lambda>m. m\<lparr>max_in_flight_count := max (max_in_flight_count m) ?active\<rparr>)
      (upd_group (sg_id (erc_lane c)) (\<lambda>m. m\<lparr>sm_queue_depth := max (sm_queue_depth m) (length ivs - ?active),
         sm_active_count := max (sm_active_count m) ?active, sm_in_flight_count := max (sm_in_flight_count m) (length ivs)\<rparr>) (observe s))"
  have "running opts it ?s2" using s by simp
  from proceeds_start [OF step [OF this, of "\<lambda>r. ''immediate publication commit failed after thread_pool component '' @ erc_id c @ '': '' @ reason r"], of s]
  have run: "\<not> stop_or_cancel env s \<Longrightarrow> ?thesis"
    by (simp add: execute_worker_invocations_def Let_def del: append_Cons)
  have "proceeds opts it (only (erc_id c)) s (Some (False, set_stop StopRequested (observe s)))" using s by (intro proceeds_False) simp_all
  with run show ?thesis by (cases "stop_or_cancel env s") (simp_all add: execute_worker_invocations_def set_stop_def)
qed

lemma one_by_one_proceeds: "running opts it s \<Longrightarrow> proceeds opts it (only (erc_id c)) s (execute_one_by_one env opts er c a ivs s)"
proof (induction ivs arbitrary: s)
  case (Cons iv ivs)
  show ?case unfolding execute_one_by_one.simps by (rule proceeds_seq [OF worker_proceeds [OF Cons.prems]]) (use Cons.IH in auto)
qed (simp add: proceeds_True)

lemma admit_running:
  assumes "running opts it s" and "admit_invocations er c n ivs s = (v, s')"
  shows "(if v = None then settled opts it s' else running opts it s') \<and> ticks s' = ticks s"
  using assms by (auto simp: admit_invocations_def Let_def split: if_splits)

lemma pool_proceeds: "running opts it s \<Longrightarrow> proceeds opts it (only (erc_id c)) s (execute_on_pool env opts er c ivs s)"
proof -
  assume s: "running opts it s"
  have admit: "proceeds opts it (only (erc_id c)) s (case admit_invocations er c n ivs s1 of (None, s2) \<Rightarrow> Some (False, s2)
      | (Some taken, s2) \<Rightarrow> if re then execute_worker_invocations env opts er c a False taken s2 else execute_one_by_one env opts er c a taken s2)"
    if "running opts it s1" "ticks s1 = ticks s" for n re a s1
  proof -
    obtain v s2 where v: "admit_invocations er c n ivs s1 = (v, s2)" by fastforce
    from admit_running [OF that(1) v] that(2) v show ?thesis
      by (auto intro: proceeds_False proceeds_start [OF worker_proceeds] proceeds_start [OF one_by_one_proceeds] split: option.splits)
  qed
  with s show ?thesis unfolding execute_on_pool_def Let_def by (auto intro: proceeds_False split: option.splits)
qed

lemma component_proceeds: "running opts it s \<Longrightarrow> proceeds opts it (only cid) s (execute_component env opts er cid s)"
proof (cases "component_for_id er cid")
  case None
  then show "running opts it s \<Longrightarrow> ?thesis" by (simp add: execute_component_def proceeds_True)
next
  case (Some c)
  assume s: "running opts it s"
  have cid: "erc_id c = cid" using Some by (auto simp: component_for_id_def find_Some_iff)
  have "proceeds opts it (only (erc_id c)) s (if sg_type (erc_lane c) \<noteq> ''thread_pool'' \<or> ivs = [] then execute_sequential env opts er c ivs s1
      else execute_on_pool env opts er c ivs s1)" if "running opts it s1" "ticks s1 = ticks s" for ivs s1
    using that proceeds_start [OF sequential_proceeds] proceeds_start [OF pool_proceeds] by simp
  note exec = this
  show ?thesis
  proof (cases "collect_ready_invocations (env_clock env (rs_obs s))
      \<lparr>tc_sequence = iterations (rs_result s) + 1, tc_scheduled_at = now_at env s, tc_started_at = now_at env s\<rparr>
      (erc_spec c) (sg_id (erc_lane c)) (rs_trigger s) (if er_channels er then Some (rs_bus s) else None)")
    case None
    with Some show ?thesis by (simp add: execute_component_def Let_def proceeds_def)
  next
    case coll: (Some r)
    obtain ivs te bus ev where r: "r = (ivs, te, bus, ev)" by (metis prod_cases4)
    obtain st te' where te': "take_last_stats (erc_id c) te = (st, te')" by fastforce
    let ?s1 = "note_trigger c st (length ivs) ((observe s)\<lparr>rs_trigger := te', rs_bus := (case bus of None \<Rightarrow> rs_bus s | Some b \<Rightarrow> b)\<rparr>)"
    have "running opts it ?s1" "ticks ?s1 = ticks s" using s by simp_all
    from exec [OF this] Some coll r te' show ?thesis by (simp add: execute_component_def Let_def cid)
  qed
qed

section \<open>Rounds of components\<close>

text \<open>
  A round records every component of a list some number of times, in the order of the list; a region runs a round once, a composite
  loop at most as often as its iterations; an iteration runs the regions of the plan in their order.
\<close>

definition is_round :: "string list \<Rightarrow> string list \<Rightarrow> bool" where
  "is_round cids ts \<longleftrightarrow> (\<exists>ns. length ns = length cids \<and> ts = concat (map2 replicate ns cids))"

definition rounds :: "nat \<Rightarrow> string list \<Rightarrow> string list \<Rightarrow> bool" where
  "rounds n cids ts \<longleftrightarrow> (\<exists>tss. length tss \<le> n \<and> (\<forall>t \<in> set tss. is_round cids t) \<and> ts = concat tss)"

definition follows_region :: "compiled_graph_region \<Rightarrow> string list \<Rightarrow> bool" where
  "follows_region rg = rounds (if region_kind rg = RegionCompositeLoop then loop_max_iterations rg else 1) (region_components rg)"

definition follows_plan :: "compiled_graph_region list \<Rightarrow> string list \<Rightarrow> bool" where
  "follows_plan rgs ts \<longleftrightarrow> (\<exists>tss. list_all2 follows_region rgs tss \<and> ts = concat tss)"

lemma is_round_Nil: "is_round cids []"
proof -
  have "length (map (\<lambda>_. 0 :: nat) cids) = length cids \<and> [] = concat (map2 replicate (map (\<lambda>_. 0) cids) cids)" by (induction cids) auto
  then show ?thesis unfolding is_round_def by blast
qed

lemma is_round_Cons: "only cid ts \<Longrightarrow> is_round cids us \<Longrightarrow> is_round (cid # cids) (ts @ us)"
proof -
  assume "only cid ts" and "is_round cids us"
  then have ts: "ts = replicate (length ts) cid" by (auto simp: only_def intro: replicate_eqI)
  obtain ns where "length ns = length cids" "us = concat (map2 replicate ns cids)" using \<open>is_round cids us\<close> by (auto simp: is_round_def)
  then have "length (length ts # ns) = length (cid # cids) \<and> ts @ us = concat (map2 replicate (length ts # ns) (cid # cids))"
    using ts by simp
  then show ?thesis unfolding is_round_def by blast
qed

lemma rounds_Nil: "rounds n cids []"
  by (auto simp: rounds_def intro: exI [of _ "[]"])

lemma rounds_Cons: "is_round cids ts \<Longrightarrow> rounds n cids us \<Longrightarrow> rounds (Suc n) cids (ts @ us)"
  unfolding rounds_def by (metis (no_types, lifting) concat.simps(2) length_Cons not_less_eq_eq set_ConsD)

lemma rounds_one: "is_round cids ts \<Longrightarrow> rounds (Suc n) cids ts"
  using rounds_Cons [OF _ rounds_Nil] by fastforce

lemma follows_region_Nil: "follows_region rg []"
  by (simp add: follows_region_def rounds_Nil)

lemma follows_plan_Nil: "follows_plan rgs []"
proof -
  have "list_all2 follows_region rgs (map (\<lambda>_. []) rgs)" "concat (map (\<lambda>_. [] :: string list) rgs) = []"
    by (induction rgs) (simp_all add: follows_region_Nil)
  then show ?thesis unfolding follows_plan_def by metis
qed

lemma follows_plan_Cons: "follows_region rg ts \<Longrightarrow> follows_plan rgs us \<Longrightarrow> follows_plan (rg # rgs) (ts @ us)"
  unfolding follows_plan_def by (metis concat.simps(2) list_all2_Cons)

lemma components_proceed: "running opts it s \<Longrightarrow> proceeds opts it (is_round cids) s (run_components env opts er cids s)"
proof (induction cids arbitrary: s)
  case (Cons cid cids)
  show ?case
    unfolding run_components.simps
    by (rule proceeds_bind [OF component_proceeds [OF Cons.prems], where Q = "is_round cids"])
      (use Cons.IH is_round_Cons is_round_Cons [OF _ is_round_Nil, simplified] in auto)
qed (simp add: proceeds_True is_round_Nil)

text \<open>The same for a loop, whose end may be a failure or a cancellation.\<close>

definition loop_proceeds :: "scheduler_run_options \<Rightarrow> nat \<Rightarrow> (string list \<Rightarrow> bool) \<Rightarrow> run_state \<Rightarrow> (loop_end \<times> run_state) option \<Rightarrow> bool" where
  "loop_proceeds opts it P s r \<longleftrightarrow> (\<forall>e s'. r = Some (e, s') \<longrightarrow>
     (if e = LoopFailed \<or> e = LoopCancelled then settled opts it s' else running opts it s') \<and> (\<exists>ts. P ts \<and> ticks s' = ticks s @ ts))"

lemma settled_active [simp]: "settled opts it (s\<lparr>rs_active_loop := al\<rparr>) = settled opts it s"
  "settled opts it (observe s) = settled opts it s" "settled opts it (discard_region er s) = settled opts it s"
  "settled opts it (s\<lparr>rs_router := rt, rs_bus := b\<rparr>) = settled opts it s"
  by (simp_all add: settled_def)

lemma end_loop_cases:
  assumes "end_loop_iteration env rg st s = (e, s')" and "running opts it s"
  shows "running opts it s'" and "ticks s' = ticks s" and "e \<noteq> Some LoopFailed" and "e \<noteq> Some LoopCancelled"
proof -
  have s': "s' = snd (end_loop_iteration env rg st s)" using assms(1) by simp
  show "running opts it s'" "ticks s' = ticks s" using assms(2) unfolding s' by simp_all
  show "e \<noteq> Some LoopFailed" "e \<noteq> Some LoopCancelled" using assms(1) by (auto simp: end_loop_iteration_def Let_def split: if_splits)
qed

lemma loop_iterations_proceed:
  "running opts it s \<Longrightarrow> loop_proceeds opts it (rounds n (region_components rg)) s (loop_iterations env opts er rg st m n i s)"
proof (induction n arbitrary: i s)
  case 0
  then show ?case by (auto simp: loop_proceeds_def rounds_Nil)
next
  case (Suc n)
  let ?cids = "region_components rg"
  show ?case
    unfolding loop_proceeds_def
  proof (intro allI impI)
    fix e s'
    assume r: "loop_iterations env opts er rg st m (Suc n) i s = Some (e, s')"
    show "(if e = LoopFailed \<or> e = LoopCancelled then settled opts it s' else running opts it s') \<and> (\<exists>ts. rounds (Suc n) ?cids ts \<and> ticks s' = ticks s @ ts)"
    proof (cases "i > 0 \<and> runtime_cancel_requested env s")
      case True
      with r have "e = LoopCancelled" "s' = cancel_loop (region_id rg) (observe s)" by simp_all
      with Suc.prems show ?thesis by (auto intro: rounds_Nil)
    next
      case False
      with r obtain b s1 where c: "run_components env opts er ?cids (begin_loop_iteration rg m i s) = Some (b, s1)" by (auto split: bind_splits)
      have "proceeds opts it (is_round ?cids) s (Some (b, s1))"
        using proceeds_start [OF components_proceed, of opts it "begin_loop_iteration rg m i s"] Suc.prems c [symmetric] by simp
      then obtain ts where b: "if b then running opts it s1 else settled opts it s1" and ts: "is_round ?cids ts" "ticks s1 = ticks s @ ts"
        unfolding proceeds_def by blast
      show ?thesis
      proof (cases b)
        case False
        with r \<open>\<not> (i > 0 \<and> runtime_cancel_requested env s)\<close> c b ts show ?thesis by (auto simp: Let_def intro: rounds_one)
      next
        case True
        obtain e1 s3 where e1: "end_loop_iteration env rg st (s1\<lparr>rs_active_loop := None\<rparr>) = (e1, s3)" by fastforce
        have "running opts it (s1\<lparr>rs_active_loop := None\<rparr>)" using True b by simp
        note s3 = end_loop_cases [OF e1 this]
        show ?thesis
        proof (cases e1)
          case (Some e2)
          with r \<open>\<not> (i > 0 \<and> runtime_cancel_requested env s)\<close> c True e1 have "e = e2" "s' = s3" by (auto simp: Let_def)
          with s3 Some ts show ?thesis by (auto intro: rounds_one)
        next
          case None
          with r \<open>\<not> (i > 0 \<and> runtime_cancel_requested env s)\<close> c True e1
          have "loop_iterations env opts er rg st m n (Suc i) s3 = Some (e, s')" by (auto simp: Let_def)
          with Suc.IH [OF s3(1), of "Suc i"] obtain us where
            "if e = LoopFailed \<or> e = LoopCancelled then settled opts it s' else running opts it s'" "rounds n ?cids us" "ticks s' = ticks s3 @ us"
            unfolding loop_proceeds_def by blast
          with s3(2) ts rounds_Cons show ?thesis by fastforce
        qed
      qed
    qed
  qed
qed

lemma finish_composite_proceeds:
  assumes "if e = LoopCancelled then settled opts it s else running opts it s"
  shows "proceeds opts it (\<lambda>ts. ts = []) s (finish_composite env er rg e s)"
proof -
  define s1 where "s1 = (if e = LoopExhausted then note_exhausted rg s else s)"
  have s1: "if e = LoopCancelled then settled opts it s1 else running opts it s1" "ticks s1 = ticks s" using assms by (auto simp: s1_def)
  then have "settled opts it s1" using running_settled by (auto split: if_splits)
  then have fail: "settled opts it (fail_run m (count_discarded (region_id rg) (discard_region er s1)))"
    "settled opts it (fail_run m ((observe s1)\<lparr>rs_router := rt, rs_bus := b\<rparr>))" for m rt b by simp_all
  have stop: "proceeds opts it (\<lambda>ts. ts = []) s (Some (e \<noteq> LoopCancelled, s2))"
    if "if e = LoopCancelled then settled opts it s2 else running opts it s2" "ticks s2 = ticks s1" for s2
    using that s1(2) by (auto simp: proceeds_def)
  have "proceeds opts it (\<lambda>ts. ts = []) s (do { (r, rt, b) \<leftarrow> commit_composite_region_outputs (env_clock env (rs_obs s1) 0) (rs_router s1, rs_bus s1);
      let s2 = (observe s1)\<lparr>rs_router := rt, rs_bus := b\<rparr>;
      Some (if accepted r then (e \<noteq> LoopCancelled, s2) else (False, fail_run (msg r) s2)) })" for msg :: "publish_result \<Rightarrow> string"
    using s1 fail(2) by (auto simp: proceeds_def Let_def split: bind_splits prod.splits if_splits)
  note commit = this [of "\<lambda>r. ''composite region publication commit failed after region '' @ region_id rg @ '': '' @ reason r"]
  have "proceeds opts it (\<lambda>ts. ts = []) s (Some (False, fail_run m (count_discarded (region_id rg) (discard_region er s1))))" for m
    using fail(1) s1(2) by (auto intro!: proceeds_False)
  moreover have "proceeds opts it (\<lambda>ts. ts = []) s (Some (e \<noteq> LoopCancelled, s1))"
    "proceeds opts it (\<lambda>ts. ts = []) s (Some (e \<noteq> LoopCancelled, count_discarded (region_id rg) (discard_region er s1)))"
    by (rule stop, use s1(1) in simp_all)+
  ultimately show ?thesis
    using commit unfolding finish_composite_def Let_def s1_def [symmetric] by simp
qed

lemma composite_proceeds:
  assumes s: "running opts it s"
  shows "proceeds opts it (rounds (loop_max_iterations rg) (region_components rg)) s (run_composite env opts er rg s)"
  unfolding proceeds_def
proof (intro allI impI)
  let ?P = "rounds (loop_max_iterations rg) (region_components rg)"
  let ?s1 = "observe (if er_publications er then s\<lparr>rs_router := begin_composite_region (region_components rg) (rs_router s)\<rparr> else s)"
  fix b s'
  assume "run_composite env opts er rg s = Some (b, s')"
  then obtain e s2 where e: "loop_iterations env opts er rg (now_at env s) (loop_max_iterations rg) (loop_max_iterations rg) 0 ?s1 = Some (e, s2)"
    and b: "(if e = LoopFailed then Some (False, s2) else finish_composite env er rg e s2) = Some (b, s')"
    by (auto simp: run_composite_def Let_def split: bind_splits)
  have "running opts it ?s1" using s by simp
  from loop_iterations_proceed [OF this] e obtain ts where
    s2: "if e = LoopFailed \<or> e = LoopCancelled then settled opts it s2 else running opts it s2" and ts: "?P ts" "ticks s2 = ticks ?s1 @ ts"
    unfolding loop_proceeds_def by blast
  have t1: "ticks ?s1 = ticks s" by simp
  show "(if b then running opts it s' else settled opts it s') \<and> (\<exists>ts. ?P ts \<and> ticks s' = ticks s @ ts)"
  proof (cases "e = LoopFailed")
    case True
    with b s2 ts t1 show ?thesis by auto
  next
    case False
    with s2 have "if e = LoopCancelled then settled opts it s2 else running opts it s2" by auto
    from finish_composite_proceeds [OF this, of env er rg] b False ts t1 show ?thesis unfolding proceeds_def by fastforce
  qed
qed

lemma regions_proceed: "running opts it s \<Longrightarrow> proceeds opts it (follows_plan rgs) s (run_regions env opts er rgs s)"
proof (induction rgs arbitrary: s)
  case (Cons rg rgs)
  have "proceeds opts it (follows_region rg) s (if region_kind rg = RegionCompositeLoop then run_composite env opts er rg s
      else run_components env opts er (region_components rg) s)"
    using composite_proceeds [OF Cons.prems] proceeds_weaken [OF components_proceed [OF Cons.prems] rounds_one [where n = 0]]
    by (simp add: follows_region_def)
  then show ?case
    unfolding run_regions.simps
    by (rule proceeds_bind [where Q = "follows_plan rgs"])
      (use Cons.IH follows_plan_Cons follows_plan_Cons [OF _ follows_plan_Nil, simplified] in auto)
qed (simp add: proceeds_True follows_plan_Nil)

lemma validate_running:
  assumes "running opts it s" and "validate_updates env er us prev s = (v, s')"
  shows "(if v = None then settled opts it s' else running opts it s') \<and> ticks s' = ticks s"
  using assms
proof (induction us arbitrary: prev s)
  case (Cons u us)
  obtain cid cfg where u: "u = (cid, cfg)" by fastforce
  have "running opts it ((observe s)\<lparr>rs_config := cs\<rparr>)" for cs using Cons.prems(1) by (simp add: running_def)
  with Cons u show ?case by (fastforce simp: split_beta split: option.splits status.splits if_splits)
qed auto

lemma restore_counted:
  "restore_applied env er prev cids s = Some s' \<Longrightarrow> counted opts it (rs_result s) \<Longrightarrow> counted opts it (rs_result s') \<and> ticks s' = ticks s"
proof (induction cids arbitrary: s)
  case (Cons cid cids)
  have noted: "counted opts it (rs_result (note_restore cid st s1)) \<and> ticks (note_restore cid st s1) = ticks s1"
    if "counted opts it (rs_result s1)" for st s1
    using that by (simp add: note_restore_def add_run_error_def upd_result_def counted_def)
  show ?case
  proof (cases "\<exists>c. component_for_id er cid = Some c \<and> erc_component c")
    case True
    then obtain c st s1 where "apply_component_config env c (smap_get empty_config_view prev cid) s = Some (st, s1)"
      "restore_applied env er prev cids (note_restore cid st s1) = Some s'"
      using Cons.prems(1) by (auto split: bind_splits)
    moreover from this have "rs_result s1 = rs_result s" by (auto dest: quiet_calls(1))
    ultimately show ?thesis using Cons.IH noted [of s1 st] Cons.prems(2) by metis
  next
    case False
    with Cons show ?thesis by (auto split: option.splits)
  qed
qed simp

lemma apply_updates_proceed: "running opts it s \<Longrightarrow> proceeds opts it (\<lambda>ts. ts = []) s (apply_updates env er prev applied us s)"
proof (induction us arbitrary: applied s)
  case (Cons u us)
  obtain cid cfg where u: "u = (cid, cfg)" by fastforce
  show ?case
  proof (cases "component_for_id er cid")
    case None
    then show ?thesis by (simp add: u proceeds_def)
  next
    case (Some c)
    have fail: "proceeds opts it (\<lambda>ts. ts = []) s1 (do { (st', s2) \<leftarrow> apply_component_config env c old s1; s3 \<leftarrow> restore_applied env er prev applied (note_restore cid st' s2);
        Some (False, fail_run msg (rollback_config s3)) })" if "running opts it s1" for old msg s1
      unfolding proceeds_def
    proof (intro allI impI)
      fix b s'
      assume "(do { (st', s2) \<leftarrow> apply_component_config env c old s1; s3 \<leftarrow> restore_applied env er prev applied (note_restore cid st' s2);
        Some (False, fail_run msg (rollback_config s3)) }) = Some (b, s')"
      then obtain st' s2 s3 where a: "apply_component_config env c old s1 = Some (st', s2)" "restore_applied env er prev applied (note_restore cid st' s2) = Some s3"
        "b = False" "s' = fail_run msg (rollback_config s3)" by (auto split: bind_splits)
      have "counted opts it (rs_result (note_restore cid st' s2))" "ticks (note_restore cid st' s2) = ticks s1"
        using quiet_calls(1) [OF a(1)] that by (simp_all add: note_restore_def add_run_error_def upd_result_def counted_def running_def)
      with restore_counted [OF a(2)] a(3,4) counted_fail
      show "(if b then running opts it s' else settled opts it s') \<and> (\<exists>ts. ts = [] \<and> ticks s' = ticks s1 @ ts)" by simp
    qed
    show ?thesis
      unfolding u apply_updates.simps Some option.case
    proof (rule proceeds_quiet [OF quiet_calls(1)], assumption)
      fix st and s' :: run_state
      assume "rs_result s' = rs_result s"
      with Cons.prems have "running opts it s'" by (simp add: running_def)
      from Cons.IH [OF this] fail [OF this]
      show "proceeds opts it (\<lambda>ts. ts = []) s' (case (st, s') of (st, s1) \<Rightarrow> if status_ok st then apply_updates env er prev (cid # applied) us s1
          else do { (st', s2) \<leftarrow> apply_component_config env c (smap_get empty_config_view prev cid) s1;
            s3 \<leftarrow> restore_applied env er prev applied (note_restore cid st' s2);
            Some (False, fail_run (''config transaction apply failed for component '' @ cid @ '': '' @ status_message st) (rollback_config s3)) })"
        by simp
    qed
  qed
qed (simp add: proceeds_True)

lemma transaction_proceeds: "running opts it s \<Longrightarrow> proceeds opts it (\<lambda>ts. ts = []) s (apply_config_transaction env er s)"
proof -
  assume s: "running opts it s"
  let ?p = "cs_pending (rs_config s)"
  obtain v s1 where v: "validate_updates env er ?p [] s = (v, s1)" by fastforce
  note s1 = validate_running [OF s v]
  have ok: "proceeds opts it (\<lambda>ts. ts = []) s1 (do { (ok', s2) \<leftarrow> apply_updates env er prev [] ?p s1; Some (if ok' then (True, commit_config env s2) else (False, s2)) })"
    if "running opts it s1" for prev
    by (rule proceeds_bind [OF apply_updates_proceed [OF that], where Q = "\<lambda>ts. ts = []"]) (auto intro: proceeds_True)
  have "proceeds opts it (\<lambda>ts. ts = []) s (case (v, s1) of (None, s1) \<Rightarrow> Some (False, s1)
     | (Some prev, s1) \<Rightarrow> do { (ok', s2) \<leftarrow> apply_updates env er prev [] ?p s1; Some (if ok' then (True, commit_config env s2) else (False, s2)) })"
    using s1 proceeds_start [OF ok, of s] by (cases v) (auto intro!: proceeds_False)
  with v s show ?thesis
    unfolding apply_config_transaction_def pending_component_config_updates_def Let_def by (auto intro: proceeds_True)
qed

section \<open>Whole runs\<close>

lemma wait_ticks_core: "wait_ticks env it ts s = (b, s') \<Longrightarrow> same_core s s'"
proof (induction ts arbitrary: s)
  case (Cons e ts)
  obtain lane scheduled where e: "e = (lane, scheduled)" by fastforce
  have group: "same_core s1 s2 \<Longrightarrow> same_core s s1 \<Longrightarrow> same_core s s2" for s1 s2 by (simp add: same_core_def)
  let ?s1 = "observe (upd_group lane (\<lambda>m. m) s)"
  have "same_core s (?s1\<lparr>rs_current_ticks := ct\<rparr>)" "same_core s (upd_group lane f (observe ?s1))"
    "same_core s ((upd_group lane f (observe ?s1))\<lparr>rs_current_ticks := ct\<rparr>)" for f ct
    by (simp_all add: same_core_def upd_group_def upd_result_def)
  with Cons.prems group Cons.IH show ?case by (fastforce simp: e Let_def split: if_splits)
qed (simp add: same_core_def)

lemma finish_lanes_core: "same_core s (fold (finish_lane env a b) es s)"
proof (induction es arbitrary: s)
  case (Cons e es)
  from Cons.IH [of "finish_lane env a b e s"] same_core_updates(12) [of s env a b e] show ?case by (simp add: same_core_def)
qed (simp add: same_core_def)

lemma epoch_proceeds: "running opts it s \<Longrightarrow> proceeds opts it (\<lambda>ts. ts = []) s (begin_publication_epoch env er s)"
  by (auto simp: proceeds_def begin_publication_epoch_def Let_def split: bind_splits prod.splits if_splits)

lemma finish_iteration_result:
  assumes s: "running opts it s" and "finish_iteration env opts er a n s = Some (e, s')"
  shows "(if e = IterationNext then running opts (Suc it) s' else settled opts (Suc it) s') \<and> ticks s' = ticks s"
proof -
  let ?s1 = "if er_publications er then s\<lparr>rs_router := end_epoch (rs_router s)\<rparr> else s"
  let ?s2 = "fold (finish_lane env a (now_at env ?s1)) (lane_map (er_components er)) (observe ?s1)"
  let ?s3 = "upd_result (\<lambda>r. r\<lparr>iterations := iterations r + 1\<rparr>) ?s2"
  have core: "same_core (observe ?s1) ?s2" by (rule finish_lanes_core)
  then have "running opts it ?s2" "ticks ?s2 = ticks s" using s same_core_running [OF core] same_core_ticks [OF core] by simp_all
  then have s3: "running opts (Suc it) ?s3" "ticks ?s3 = ticks s" by (simp_all add: running_def counted_def upd_result_def)
  from assms(2) obtain s4 where c: "calls_exec (env_clock env (rs_obs ?s3)) 0 (env_after_iteration env (rs_obs ?s3)) (observe ?s3) = Some s4"
    and e: "(e, s') = (if run_until_idle opts \<and> tick_calls (rs_result s4) = n then (IterationBreak, set_stop Idle s4) else (IterationNext, s4))"
    unfolding finish_iteration_def Let_def by (auto split: bind_splits)
  have "rs_result s4 = rs_result ?s3" using calls_exec_frame [OF c] by simp
  with s3 have "running opts (Suc it) s4" "ticks s4 = ticks s" by (simp_all add: running_def)
  with e show ?thesis by (auto split: if_splits)
qed

lemma iteration_result:
  assumes s: "running opts it s" and r: "run_iteration env opts er st i s = Some (e, s')"
  shows "\<exists>it' ts. (if e = IterationNext then it' = Suc it \<and> running opts it' s' else it' \<le> Suc it \<and> settled opts it' s') \<and>
    follows_plan (execution_order er) ts \<and> ticks s' = ticks s @ ts"
proof -
  have stop: ?thesis if "e = IterationBreak" "s' = set_stop w s1" "running opts it s1" "ticks s1 = ticks s" "w \<noteq> StopError" for w s1
    using that follows_plan_Nil by (intro exI [of _ it] exI [of _ "[]"]) simp
  have ret: ?thesis if "e \<noteq> IterationNext" "settled opts it s'" "ticks s' = ticks s @ ts" "follows_plan (execution_order er) ts" for ts
    using that by (intro exI [of _ it] exI [of _ ts]) simp
  obtain w s1 where w: "wait_ticks env i (rs_next_ticks (observe s)) ((observe (observe s))\<lparr>rs_current_ticks := []\<rparr>) = (w, s1)" by fastforce
  have s1: "running opts it s1" "ticks s1 = ticks s"
    using same_core_running [OF wait_ticks_core [OF w]] same_core_ticks [OF wait_ticks_core [OF w]] s by simp_all
  define s3 where "s3 = (if er_state_store er then (observe s1)\<lparr>rs_state := snd (state_commit_epoch_boundary (rs_state (observe s1)))\<rparr> else observe s1)"
  have s3: "running opts it s3" "ticks s3 = ticks s" using s1 by (simp_all add: s3_def)
  consider "e = IterationBreak" "s' = set_stop StopRequested (observe s)"
    | "e = IterationBreak" "s' = set_stop DurationBound (observe (observe s))"
    | "e = IterationBreak" "s' = set_stop StopRequested s1"
    | s4 where "apply_config_transaction env er s3 = Some (False, s4)" "e = IterationReturn" "s' = s4"
    | s4 s5 where "apply_config_transaction env er s3 = Some (True, s4)" "begin_publication_epoch env er s4 = Some (False, s5)" "e = IterationReturn" "s' = s5"
    | s4 s5 s6 where "apply_config_transaction env er s3 = Some (True, s4)" "begin_publication_epoch env er s4 = Some (True, s5)"
        "run_regions env opts er (execution_order er) s5 = Some (False, s6)" "e = IterationReturn" "s' = s6"
    | s4 s5 s6 where "apply_config_transaction env er s3 = Some (True, s4)" "begin_publication_epoch env er s4 = Some (True, s5)"
        "run_regions env opts er (execution_order er) s5 = Some (True, s6)"
        "finish_iteration env opts er (now_at env s1) (tick_calls (rs_result s)) s6 = Some (e, s')"
    using r unfolding run_iteration_def Let_def w by (auto simp: s3_def split: if_splits bind_splits bool.splits)
  then show ?thesis
  proof cases
    case 1 with s stop [of StopRequested "observe s"] show ?thesis by simp
  next
    case 2 with s stop [of DurationBound "observe (observe s)"] show ?thesis by simp
  next
    case 3 with s1 stop [of StopRequested s1] show ?thesis by simp
  next
    case 4 with transaction_proceeds [OF s3(1), of env er] s3(2) show ?thesis by (intro ret [of "[]"]) (auto simp: proceeds_def follows_plan_Nil)
  next
    case 5
    with transaction_proceeds [OF s3(1), of env er] s3(2) have s4: "running opts it s4" "ticks s4 = ticks s" by (auto simp: proceeds_def)
    from epoch_proceeds [OF s4(1), of env er] s4(2) 5 show ?thesis by (intro ret [of "[]"]) (auto simp: proceeds_def follows_plan_Nil)
  next
    case 6
    with transaction_proceeds [OF s3(1), of env er] s3(2) have s4: "running opts it s4" "ticks s4 = ticks s" by (auto simp: proceeds_def)
    from epoch_proceeds [OF s4(1), of env er] s4(2) 6 have s5: "running opts it s5" "ticks s5 = ticks s" by (auto simp: proceeds_def)
    from regions_proceed [OF s5(1), of "execution_order er" env er] s5(2) 6 obtain ts where
      "settled opts it s'" "follows_plan (execution_order er) ts" "ticks s' = ticks s @ ts" by (auto simp: proceeds_def)
    with 6 show ?thesis by (intro ret) simp_all
  next
    case 7
    with transaction_proceeds [OF s3(1), of env er] s3(2) have s4: "running opts it s4" "ticks s4 = ticks s" by (auto simp: proceeds_def)
    from epoch_proceeds [OF s4(1), of env er] s4(2) 7 have s5: "running opts it s5" "ticks s5 = ticks s" by (auto simp: proceeds_def)
    from regions_proceed [OF s5(1), of "execution_order er" env er] s5(2) 7 obtain ts where
      s6: "running opts it s6" "follows_plan (execution_order er) ts" "ticks s6 = ticks s @ ts" by (auto simp: proceeds_def)
    from finish_iteration_result [OF s6(1) 7(4)] s6(2,3) show ?thesis by (intro exI [of _ "Suc it"] exI [of _ ts]) auto
  qed
qed

lemma iterate_result:
  assumes "running opts it s" and "iterate env opts er st n i s = Some s'"
  shows "\<exists>it' tss. it' \<le> it + n \<and> settled opts it' s' \<and> length tss \<le> n \<and> (\<forall>ts \<in> set tss. follows_plan (execution_order er) ts) \<and>
    ticks s' = ticks s @ concat tss"
  using assms
proof (induction n arbitrary: it i s)
  case 0
  then show ?case using running_settled by (intro exI [of _ it] exI [of _ "[]"]) auto
next
  case (Suc n)
  then obtain e s1 where e: "run_iteration env opts er st i s = Some (e, s1)"
    and cont: "(if e = IterationNext then iterate env opts er st n (Suc i) s1 else Some s1) = Some s'" by (auto split: bind_splits)
  from iteration_result [OF Suc.prems(1) e] obtain it1 ts where
    it1: "if e = IterationNext then it1 = Suc it \<and> running opts it1 s1 else it1 \<le> Suc it \<and> settled opts it1 s1"
    and ts: "follows_plan (execution_order er) ts" "ticks s1 = ticks s @ ts" by blast
  show ?case
  proof (cases "e = IterationNext")
    case True
    with it1 cont Suc.IH [of it1 s1 "Suc i"] obtain it' tss where "it' \<le> it1 + n" "settled opts it' s'" "length tss \<le> n"
      "\<forall>ts \<in> set tss. follows_plan (execution_order er) ts" "ticks s' = ticks s1 @ concat tss" by auto
    with True it1 ts show ?thesis by (intro exI [of _ it'] exI [of _ "ts # tss"]) auto
  next
    case False
    with it1 cont ts show ?thesis by (intro exI [of _ it1] exI [of _ "[ts]"]) auto
  qed
qed

lemma start_running: "running opts 0 (start_state env er rt b ss cs)"
  by (simp add: running_def counted_def start_state_def empty_run_result_def)

lemma run_result:
  assumes "run env opts er rt b ss cs = Some s"
  shows "\<exists>it tss. it \<le> iteration_bound opts \<and> settled opts it s \<and> length tss \<le> iteration_bound opts \<and>
    (\<forall>ts \<in> set tss. follows_plan (execution_order er) ts) \<and> ticks s = concat tss"
  using iterate_result [OF start_running assms [unfolded run_def]] by (auto simp: start_state_def empty_run_result_def)

section \<open>Configuration transactions\<close>

abbreviation configs :: "run_state \<Rightarrow> (string, config_view) smap" where
  "configs s \<equiv> cs_component_configs (rs_config s)"

abbreviation pending_configs :: "run_state \<Rightarrow> (string, config_view) smap" where
  "pending_configs s \<equiv> cs_pending (rs_config s)"

definition config_of :: "run_state \<Rightarrow> string \<Rightarrow> config_view" where
  "config_of s cid = smap_get empty_config_view (configs s) cid"

fun stages_config :: "component_call \<Rightarrow> bool" where
  "stages_config (CallStageConfig cid c b t) = True"
| "stages_config _ = False"

definition same_config :: "run_state \<Rightarrow> run_state \<Rightarrow> bool" where
  "same_config s s' \<longleftrightarrow> configs s' = configs s \<and> pending_configs s' = pending_configs s"

lemma call_exec_config: "call_exec now ctx call s = Some s' \<Longrightarrow> \<not> stages_config call \<Longrightarrow> same_config s s'"
  by (cases call) (auto simp: same_config_def component_config_def upd_cm_def split: if_splits)

lemma calls_exec_config:
  "calls_exec now n calls s = Some s' \<Longrightarrow> list_all (\<lambda>c. \<not> stages_config (snd c)) calls \<Longrightarrow> same_config s s'"
proof (induction calls arbitrary: n s)
  case (Cons e calls)
  obtain ctx call where e: "e = (ctx, call)" by fastforce
  with Cons.prems(1) obtain s1 where "call_exec (now n) ctx call s = Some s1" "calls_exec now (Suc n) calls s1 = Some s'" by (auto split: bind_splits)
  with Cons.IH Cons.prems(2) e call_exec_config show ?case by (fastforce simp: same_config_def)
qed (simp add: same_config_def)

definition quiet_apply :: "environment \<Rightarrow> bool" where
  "quiet_apply env \<longleftrightarrow> (\<forall>k cid cfg. list_all (\<lambda>c. \<not> stages_config c) (bh_calls (env_apply_config env k cid cfg)))"

lemma apply_component_effect:
  assumes "quiet_apply env" and "apply_component_config env c cfg s = Some (st, s')"
  shows "same_config s s'" and "rs_applied s' = rs_applied s @ [(erc_id c, cfg)]"
proof -
  let ?bh = "env_apply_config env (rs_obs s) (erc_id c) cfg"
  obtain s1 where s1: "calls_exec (env_clock env (rs_obs s)) 0 (map (Pair (erc_context c)) (bh_calls ?bh)) (observe s) = Some s1"
    and s': "s' = s1\<lparr>rs_applied := rs_applied s1 @ [(erc_id c, cfg)]\<rparr>"
    using assms(2) by (auto simp: apply_component_config_def Let_def)
  have "list_all (\<lambda>c. \<not> stages_config (snd c)) (map (Pair (erc_context c)) (bh_calls ?bh))"
    using assms(1) by (simp add: quiet_apply_def list_all_iff)
  from calls_exec_config [OF s1 this] calls_exec_frame [OF s1] show "same_config s s'" "rs_applied s' = rs_applied s @ [(erc_id c, cfg)]"
    by (simp_all add: s' same_config_def observe_def)
qed

definition has_component :: "event_runtime \<Rightarrow> string \<Rightarrow> bool" where
  "has_component er cid \<longleftrightarrow> (\<exists>c. component_for_id er cid = Some c \<and> erc_component c \<and> erc_id c = cid)"

lemma component_for_id_id: "component_for_id er cid = Some c \<Longrightarrow> erc_id c = cid"
  by (auto simp: component_for_id_def find_Some_iff)

lemma validate_effect:
  assumes "validate_updates env er us prev s = (v, s')"
  shows "configs s' = configs s \<and> rs_applied s' = rs_applied s \<and>
    (case v of None \<Rightarrow> pending_configs s' = []
     | Some prev' \<Rightarrow> pending_configs s' = pending_configs s \<and> (\<forall>u \<in> set us. has_component er (fst u)) \<and>
         (\<forall>cid. map_of prev' cid = (if cid \<in> fst ` set us then Some (config_of s cid) else map_of prev cid)))"
  using assms
proof (induction us arbitrary: prev s)
  case (Cons u us)
  obtain cid cfg where u: "u = (cid, cfg)" by fastforce
  have roll: "configs (fail_run m (rollback_config s1)) = configs s1 \<and> pending_configs (fail_run m (rollback_config s1)) = [] \<and>
      rs_applied (fail_run m (rollback_config s1)) = rs_applied s1" for m s1
    by (simp add: fail_run_def add_run_error_def upd_result_def rollback_config_def rollback_pending_updates_def Let_def upd_cm_def)
  show ?case
  proof (cases "\<exists>c. component_for_id er cid = Some c \<and> erc_component c \<and> env_validate_config env (rs_obs s) cid cfg = Success")
    case False
    with Cons.prems u roll show ?thesis
      by (auto simp: observe_def split: option.splits status.splits if_splits)
  next
    case True
    then obtain c where c: "component_for_id er cid = Some c" "erc_component c" "env_validate_config env (rs_obs s) cid cfg = Success" by blast
    let ?s1 = "(observe s)\<lparr>rs_config := snd (component_config cid (rs_config s))\<rparr>"
    have s1: "configs ?s1 = configs s" "pending_configs ?s1 = pending_configs s" "rs_applied ?s1 = rs_applied s" "config_of ?s1 = config_of s"
      by (simp_all add: component_config_def upd_cm_def observe_def config_of_def fun_eq_iff)
    have "fst (component_config cid (rs_config s)) = config_of s cid" by (simp add: component_config_def config_of_def smap_get_def)
    with Cons.prems u c have "validate_updates env er us (smap_put cid (config_of s cid) prev) ?s1 = (v, s')" by (simp add: split_beta)
    from Cons.IH [OF this] c s1 component_for_id_id [OF c(1)] show ?thesis
      by (auto simp: u has_component_def split: option.splits if_splits)
  qed
qed auto

lemma restore_effect:
  assumes "quiet_apply env" and "restore_applied env er prev cids s = Some s'" and "\<forall>cid \<in> set cids. has_component er cid"
  shows "same_config s s' \<and> rs_applied s' = rs_applied s @ map (\<lambda>cid. (cid, smap_get empty_config_view prev cid)) cids"
  using assms(2,3)
proof (induction cids arbitrary: s)
  case (Cons cid cids)
  then obtain c where c: "component_for_id er cid = Some c" "erc_component c" "erc_id c = cid" by (auto simp: has_component_def)
  with Cons.prems(1) obtain st s1 where "apply_component_config env c (smap_get empty_config_view prev cid) s = Some (st, s1)"
    "restore_applied env er prev cids (note_restore cid st s1) = Some s'" by (auto split: bind_splits)
  with Cons.IH Cons.prems(2) apply_component_effect [OF assms(1)] c(3) show ?case
    by (fastforce simp: same_config_def note_restore_def add_run_error_def upd_result_def)
qed (simp add: same_config_def)

lemma apply_updates_effect:
  assumes q: "quiet_apply env" and "apply_updates env er prev applied us s = Some (ok, s')"
    and "\<forall>u \<in> set us. has_component er (fst u)" and "\<forall>cid \<in> set applied. has_component er cid"
  shows "configs s' = configs s" and "ok \<Longrightarrow> pending_configs s' = pending_configs s \<and> rs_applied s' = rs_applied s @ us"
    and "\<not> ok \<Longrightarrow> pending_configs s' = [] \<and> (\<exists>k. rs_applied s' = rs_applied s @ take k us @
          map (\<lambda>cid. (cid, smap_get empty_config_view prev cid)) (rev (map fst (take k us)) @ applied))"
proof -
  have "configs s' = configs s \<and> (if ok then pending_configs s' = pending_configs s \<and> rs_applied s' = rs_applied s @ us
      else pending_configs s' = [] \<and> (\<exists>k. rs_applied s' = rs_applied s @ take k us @
          map (\<lambda>cid. (cid, smap_get empty_config_view prev cid)) (rev (map fst (take k us)) @ applied)))"
    using assms(2-4)
  proof (induction us arbitrary: applied s)
    case (Cons u us)
    obtain cid cfg where u: "u = (cid, cfg)" by fastforce
    with Cons.prems(2) obtain c where c: "component_for_id er cid = Some c" "erc_component c" "erc_id c = cid" by (auto simp: has_component_def)
    with Cons.prems(1) u obtain st s1 where a: "apply_component_config env c cfg s = Some (st, s1)"
      and r: "(if status_ok st then apply_updates env er prev (cid # applied) us s1
        else do { (st', s2) \<leftarrow> apply_component_config env c (smap_get empty_config_view prev cid) s1;
          s3 \<leftarrow> restore_applied env er prev applied (note_restore cid st' s2);
          Some (False, fail_run (''config transaction apply failed for component '' @ cid @ '': '' @ status_message st) (rollback_config s3)) }) = Some (ok, s')"
      by (auto split: bind_splits)
    note a1 = apply_component_effect [OF q a]
    show ?case
    proof (cases "status_ok st")
      case True
      with r have "apply_updates env er prev (cid # applied) us s1 = Some (ok, s')" by simp
      note IH = Cons.IH [OF this]
      have ap: "rs_applied s1 = rs_applied s @ [u]" "configs s1 = configs s" "pending_configs s1 = pending_configs s"
        using a1 u c(3) by (simp_all add: same_config_def)
      show ?thesis
      proof (cases ok)
        case True
        with IH Cons.prems(2,3) u ap show ?thesis by simp
      next
        case False
        with IH Cons.prems(2,3) u ap obtain k where "configs s' = configs s" "pending_configs s' = []"
          "rs_applied s' = (rs_applied s @ [u]) @ take k us @ map (\<lambda>cid. (cid, smap_get empty_config_view prev cid)) (rev (map fst (take k us)) @ cid # applied)"
          by auto
        with False u show ?thesis by (auto intro!: exI [of _ "Suc k"])
      qed
    next
      case False
      with r obtain st' s2 s3 where a2: "apply_component_config env c (smap_get empty_config_view prev cid) s1 = Some (st', s2)"
        and r3: "restore_applied env er prev applied (note_restore cid st' s2) = Some s3"
        and s': "ok = False" "s' = fail_run (''config transaction apply failed for component '' @ cid @ '': '' @ status_message st) (rollback_config s3)"
        by (auto split: bind_splits)
      have "configs s' = configs s3 \<and> pending_configs s' = [] \<and> rs_applied s' = rs_applied s3"
        by (simp add: s' fail_run_def add_run_error_def upd_result_def rollback_config_def rollback_pending_updates_def Let_def upd_cm_def)
      moreover have "same_config (note_restore cid st' s2) s2 \<and> rs_applied (note_restore cid st' s2) = rs_applied s2"
        by (simp add: same_config_def note_restore_def add_run_error_def upd_result_def)
      ultimately have "configs s' = configs s" "pending_configs s' = []"
        "rs_applied s' = rs_applied s @ take 1 (u # us) @ map (\<lambda>cid. (cid, smap_get empty_config_view prev cid)) (rev (map fst (take 1 (u # us))) @ applied)"
        using a1 apply_component_effect [OF q a2] restore_effect [OF q r3 Cons.prems(3)] c(3) u by (auto simp: same_config_def)
      with s'(1) show ?thesis by (auto intro!: exI [of _ "Suc 0"])
    qed
  qed auto
  then show "configs s' = configs s" and "ok \<Longrightarrow> pending_configs s' = pending_configs s \<and> rs_applied s' = rs_applied s @ us"
    and "\<not> ok \<Longrightarrow> pending_configs s' = [] \<and> (\<exists>k. rs_applied s' = rs_applied s @ take k us @
          map (\<lambda>cid. (cid, smap_get empty_config_view prev cid)) (rev (map fst (take k us)) @ applied))"
    by (simp_all split: if_splits)
qed

lemma commit_config_effect:
  "smap_wf (configs s) \<Longrightarrow> smap_wf (pending_configs s) \<Longrightarrow> map_of (configs (commit_config env s)) = map_of (configs s) ++ map_of (pending_configs s) \<and>
     pending_configs (commit_config env s) = [] \<and> rs_applied (commit_config env s) = rs_applied s"
  by (simp add: commit_config_def config_commit_epoch_boundary_def Let_def upd_cm_def map_of_fold_put observe_def)

section \<open>Properties\<close>

lemma run_returns_spec:
  assumes "distinct (map edge_id specs)" and "[] \<notin> set (map edge_id specs)" and "state_wf ss" and "config_wf cs"
    and "list_all (\<lambda>c. safe_trigger (erc_spec c)) (er_components er)"
  shows "\<exists>s. run env opts er (make_router hb specs) (make_bus specs) ss cs = Some s \<and> bus_reachable specs (rs_bus s) \<and>
    within_limits (rs_router s) \<and> state_wf (rs_state s) \<and> config_wf (rs_config s)"
proof -
  have "bus_run [] (make_bus specs) = Some (make_bus specs)" by simp
  then have "bus_reachable specs (make_bus specs)" unfolding bus_reachable_def by blast
  moreover have "limits_inv (make_router hb specs)" using assms(1,2) by (rule make_router_limits)
  moreover have "trigger_wf empty_trigger_engine" by (simp add: trigger_wf_def empty_trigger_engine_def)
  moreover have "runtime_objects.safe_runtime er" using assms(5) by (simp add: runtime_objects.safe_runtime_def list_all_iff)
  ultimately show ?thesis
    using runtime_objects.run_returns [of specs "make_bus specs" "make_router hb specs" ss cs er env opts] assms(3,4)
    by (auto simp: limits_inv_def)
qed

text \<open>
  C4. A run returns, whatever the components do and whenever it is stopped, on the bus and the router of a graph with pairwise different
  non-empty edge ids, with well-formed stores, and with components that all have pairwise different trigger inputs and a trigger type other
  than time_sync and watermark: no lookup of the bus throws and nothing undefined happens in the trigger engine. (The excluded triggers
  subtract timestamps that the components choose, or pop a repeated input twice, which the code leaves undefined.) At the end the bus is one that operations of the bus lead to, no async edge
  has more pending publications than it may, and the stores are well formed.
\<close>

theorem runtime_returns:
  assumes "distinct (map edge_id specs)" and "[] \<notin> set (map edge_id specs)" and "state_wf ss" and "config_wf cs"
    and "list_all (\<lambda>c. safe_trigger (erc_spec c)) (er_components er)"
  shows "\<exists>s. run env opts er (make_router hb specs) (make_bus specs) ss cs = Some s \<and> bus_reachable specs (rs_bus s) \<and>
    within_limits (rs_router s) \<and> state_wf (rs_state s) \<and> config_wf (rs_config s)"
  by (rule run_returns_spec [OF assms])

text \<open>
  C5. The components run in the order of the compiled plan. The tasks recorded by a run are those of its iterations one after
  the other, at most as many as the iteration bound; in each iteration the regions follow the plan; a region records its
  components in their order, once around, or in a composite loop at most as many times around as the loop may iterate.
\<close>

theorem execution_follows_plan:
  assumes "run env opts er rt b ss cs = Some s"
  shows "\<exists>tss. length tss \<le> iteration_bound opts \<and> (\<forall>ts \<in> set tss. follows_plan (execution_order er) ts) \<and>
    ticked_tasks (rs_result s) = concat tss"
  using run_result [OF assms] by blast

text \<open>
  C7. The result of a run is consistent: it is not ok exactly when it has an error and exactly when it stopped because of an
  error, it counts at most as many iterations as the bound, and it records every call of a component, or the first ones up to the
  limit that is set.
\<close>

theorem run_result_consistent:
  assumes "run env opts er rt b ss cs = Some s"
  shows "(run_ok (rs_result s) \<longleftrightarrow> run_errors (rs_result s) = []) \<and> (run_ok (rs_result s) \<longleftrightarrow> stop_reason (rs_result s) \<noteq> StopError) \<and>
    iterations (rs_result s) \<le> iteration_bound opts \<and>
    length (ticked_tasks (rs_result s)) =
      (if max_recorded_ticked_tasks opts = 0 then tick_calls (rs_result s) else min (tick_calls (rs_result s)) (max_recorded_ticked_tasks opts))"
  using run_result [OF assms] by (auto simp: settled_def counted_def)

text \<open>
  C6. A configuration transaction is all or nothing, for components whose validate and apply hooks answer with a status and stage no
  further configuration update while they apply one. When it succeeds, the staged configurations have been applied to their
  components in order and are the stored ones, and nothing stays staged. When it fails, the stored configurations are as
  before, nothing stays staged, and every component that was given a new configuration has been given its old one again, in reverse
  order. (An update that is staged inside an apply hook joins the transaction after the validation and is committed with it, neither
  validated nor applied; an exception of an overridden hook leaves the runtime.)
\<close>

theorem config_transaction_all_or_nothing:
  assumes "apply_config_transaction env er s = Some (ok, s')" and "er_config_store er" and "config_wf (rs_config s)" and "quiet_apply env"
  shows "pending_configs s' = [] \<and>
    (if ok then map_of (configs s') = map_of (configs s) ++ map_of (pending_configs s) \<and> rs_applied s' = rs_applied s @ pending_configs s
     else configs s' = configs s \<and>
       (\<exists>k. let given = take k (pending_configs s)
            in rs_applied s' = rs_applied s @ given @ map (\<lambda>u. (fst u, config_of s (fst u))) (rev given)))"
proof -
  let ?p = "pending_configs s"
  have wf: "smap_wf (configs s)" "smap_wf ?p" using assms(3) by (simp_all add: config_wf_def)
  obtain v s1 where v: "validate_updates env er ?p [] s = (v, s1)" by fastforce
  note s1 = validate_effect [OF v]
  consider "?p = []" "ok" "s' = commit_config env s" | "?p \<noteq> []" "v = None" "\<not> ok" "s' = s1"
    | prev s2 where "?p \<noteq> []" "v = Some prev" "apply_updates env er prev [] ?p s1 = Some (ok, s2)" "s' = (if ok then commit_config env s2 else s2)"
    using assms(1,2) v
    by (auto simp: apply_config_transaction_def pending_component_config_updates_def Let_def split: if_splits option.splits bind_splits)
  then show ?thesis
  proof cases
    case 1
    with commit_config_effect [OF wf, of env] show ?thesis by simp
  next
    case 2
    with s1 show ?thesis by (auto simp: Let_def intro!: exI [of _ 0])
  next
    case 3
    with s1 have c1: "configs s1 = configs s" "pending_configs s1 = ?p" "rs_applied s1 = rs_applied s" "\<forall>u \<in> set ?p. has_component er (fst u)"
      and old: "\<And>cid. cid \<in> fst ` set ?p \<Longrightarrow> smap_get empty_config_view prev cid = config_of s cid"
      by (simp_all add: smap_get_def)
    note a = apply_updates_effect [OF assms(4) 3(3) c1(4)]
    show ?thesis
    proof (cases ok)
      case True
      with a c1 have "configs s2 = configs s" "pending_configs s2 = ?p" "rs_applied s2 = rs_applied s @ ?p" by auto
      with commit_config_effect [of s2 env] wf 3(4) True show ?thesis by simp
    next
      case False
      with a c1 obtain k where k: "configs s2 = configs s" "pending_configs s2 = []"
        "rs_applied s2 = rs_applied s @ take k ?p @ map (\<lambda>cid. (cid, smap_get empty_config_view prev cid)) (rev (map fst (take k ?p)))"
        by auto
      have "map (\<lambda>cid. (cid, smap_get empty_config_view prev cid)) (rev (map fst (take k ?p))) = map (\<lambda>u. (fst u, config_of s (fst u))) (rev (take k ?p))"
        using old by (auto simp: rev_map dest!: in_set_takeD)
      with k 3(4) False show ?thesis by (auto simp: Let_def intro!: exI [of _ k])
    qed
  qed
qed

definition demo_runtime_component :: "component_node_spec \<Rightarrow> event_runtime_component" where
  "demo_runtime_component spec =
     \<lparr>erc_id = comp_id spec, erc_component = True,
      erc_context = \<lparr>gc_channels = True, gc_publisher = True, gc_task_executor = False, gc_state_store = True, gc_config_store = True,
        gc_invocation_metadata = empty_metadata, gc_loop_iteration = no_loop_iteration, gc_reporter = False, gc_graph_name = ''demo'',
        gc_component_id = comp_id spec\<rparr>,
      erc_spec = spec, erc_lane = default_group ''main'' ''event_loop''\<rparr>"

text \<open>Component \<open>a\<close> runs in every iteration and publishes a message that component \<open>b\<close> waits for.\<close>

definition demo_runtime :: event_runtime where
  "demo_runtime =
     \<lparr>er_channels = True, er_publications = True, er_state_store = True, er_config_store = True, er_health_events = False,
      er_compiled_plan = \<lparr>regions = [], region_order = [], component_region = [], immediate_sccs = []\<rparr>,
      er_components = [demo_runtime_component (default_component ''a''), demo_runtime_component (demo_policy ''any_input'' [''in''])]\<rparr>"

definition demo_environment :: environment where
  "demo_environment =
     \<lparr>env_clock = (\<lambda>k i j. 20000000 * int k), env_stop = (\<lambda>k. False), env_cancel = (\<lambda>k. False), env_cancel_valid = False,
      env_execute = (\<lambda>k cid iv li. \<lparr>bh_calls = (if cid = ''a'' then [CallPublish ''out'' (make_text_payload ''x'' kTextPayloadSchema) None] else []),
        bh_status = Success, bh_observed = False\<rparr>),
      env_validate_config = (\<lambda>k cid cfg. Success),
      env_apply_config = (\<lambda>k cid cfg. \<lparr>bh_calls = [], bh_status = (if cid = ''b'' then StatusError ''no'' else Success), bh_observed = False\<rparr>),
      env_interleaving = (\<lambda>k. []), env_after_iteration = (\<lambda>k. []), env_hz_period = (\<lambda>hz. 0)\<rparr>"

definition demo_options :: scheduler_run_options where
  "demo_options = \<lparr>tick_iterations = 2, run_duration_ms = 0, run_until_idle = False, max_recorded_ticked_tasks = 0\<rparr>"

abbreviation demo_run :: "run_state option" where
  "demo_run \<equiv> run demo_environment demo_options demo_runtime (make_router True [demo_edge]) (make_bus [demo_edge]) empty_state_store empty_config_store"

lemma demo_components: "list_all (\<lambda>c. safe_trigger (erc_spec c)) (er_components demo_runtime)"
  by code_simp

lemma demo_stores: "distinct (map edge_id [demo_edge])" "[] \<notin> set (map edge_id [demo_edge])" "config_wf empty_config_store"
  using config_wf_run [of "[]"] by (simp_all add: demo_edge_def config_run_def)

lemma demo_run_returns: "\<exists>s. demo_run = Some s"
  using run_returns_spec [OF demo_stores(1,2) state_wf_empty demo_stores(3) demo_components] by blast

theorem runtime_returns_witness:
  "\<exists>s. demo_run = Some s \<and> bus_reachable [demo_edge] (rs_bus s) \<and> within_limits (rs_router s)"
  using runtime_returns [OF demo_stores(1,2) state_wf_empty demo_stores(3) demo_components] by blast

theorem execution_follows_plan_witness:
  "\<exists>s tss. demo_run = Some s \<and> length tss \<le> 2 \<and> ticked_tasks (rs_result s) = concat tss"
proof -
  obtain s where s: "demo_run = Some s" using demo_run_returns by blast
  have "iteration_bound demo_options = 2" by code_simp
  with execution_follows_plan [OF s] s show ?thesis by auto
qed

theorem run_result_consistent_witness:
  "\<exists>s. demo_run = Some s \<and> (run_ok (rs_result s) \<longleftrightarrow> run_errors (rs_result s) = []) \<and> iterations (rs_result s) \<le> 2 \<and>
     length (ticked_tasks (rs_result s)) = tick_calls (rs_result s)"
proof -
  obtain s where s: "demo_run = Some s" using demo_run_returns by blast
  have "iteration_bound demo_options = 2" "max_recorded_ticked_tasks demo_options = 0" by code_simp+
  with run_result_consistent [OF s] s show ?thesis by simp
qed

text \<open>A transaction with a new configuration for \<open>a\<close> and for \<open>b\<close>, which \<open>b\<close> refuses.\<close>

definition demo_transaction :: run_state where
  "demo_transaction =
     start_state demo_environment demo_runtime (make_router True [demo_edge]) (make_bus [demo_edge]) empty_state_store
       (config_run [SetComponentConfig ''a'' (demo_config ''old''), StageConfig ''a'' (demo_config ''new'') True 0,
                    StageConfig ''b'' (demo_config ''new'') True 0])"

lemma demo_transaction_fails:
  "map_option (\<lambda>(ok, s'). (ok, map fst (rs_applied s'))) (apply_config_transaction demo_environment demo_runtime demo_transaction) =
     Some (False, [''a'', ''b'', ''b'', ''a''])"
proof -
  have p: "pending_configs demo_transaction = [(''a'', demo_config ''new''), (''b'', demo_config ''new'')]"
    by (simp add: demo_transaction_def start_state_def config_run_def set_component_config_def stage_component_config_update_def upd_cm_def
        empty_config_store_def Let_def)
  show ?thesis
    by (simp add: apply_config_transaction_def pending_component_config_updates_def p component_for_id_def demo_runtime_def demo_environment_def
        demo_runtime_component_def demo_policy_def default_component_def component_config_def apply_component_config_def observe_def
        rollback_config_def fail_run_def add_run_error_def upd_result_def note_restore_def Let_def)
      (simp add: demo_transaction_def start_state_def)
qed

theorem config_transaction_all_or_nothing_witness:
  "\<exists>s'. apply_config_transaction demo_environment demo_runtime demo_transaction = Some (False, s') \<and>
     configs s' = configs demo_transaction \<and> pending_configs s' = [] \<and> map fst (rs_applied s') = [''a'', ''b'', ''b'', ''a'']"
proof -
  obtain s' where s': "apply_config_transaction demo_environment demo_runtime demo_transaction = Some (False, s')"
    "map fst (rs_applied s') = [''a'', ''b'', ''b'', ''a'']"
    using demo_transaction_fails by auto
  have "er_config_store demo_runtime" by (simp add: demo_runtime_def)
  moreover have "config_wf (rs_config demo_transaction)" unfolding demo_transaction_def start_state_def by (simp add: config_wf_run)
  moreover have "quiet_apply demo_environment" by (simp add: quiet_apply_def demo_environment_def)
  ultimately show ?thesis using config_transaction_all_or_nothing [OF s'(1)] s' by auto
qed

end
