(* ===== verification/Live_Observe.thy ===== *)
theory Live_Observe
  imports Prelude "HOL-Library.Word"
begin

text \<open>
  Live observe (\<^verbatim>\<open>src/live_observe.cpp\<close>, \<^verbatim>\<open>live_event.hpp\<close>): fixed-size event records, a lock-free ring buffer between one producer and one
  consumer, the stream that numbers the events and the session of a run. Counters and ids keep their widths; an index of the
  ring is a natural number below the size of its buffer.
\<close>

section \<open>Events\<close>

datatype live_event_kind =
    KRunStarted | KRunFinished | KSchedulerEpochBegin | KSchedulerEpochEnd | KComponentBegin | KComponentEnd | KComponentError
  | KChannelPublishSummary | KChannelCommitSummary | KChannelDrop | KChannelReject | KChannelOverwrite | KTriggerReadySummary
  | KTriggerSuppressedSummary | KAsyncAdmission | KAsyncReject | KAsyncDrop | KLoopIterationBegin | KLoopIterationEnd | KLoopConverged
  | KLoopBudgetOverrun | KLoopMaxIterationsHit | KLoopError | KHealthEvent | KRuntimeError | KObserverDropSummary

datatype live_event_exactness = KExact | KAggregated | KSampled | KLossy | KPartial

datatype live_event_severity = KTrace | KDebug | KInfo | KWarning | KError

record live_event =
  le_local_seq :: "64 word"
  le_mono_ns :: "64 word"
  le_stream_id :: "32 word"
  le_epoch_id :: "32 word"
  le_kind :: "32 word"
  le_flags :: "32 word"
  le_lane_id :: "32 word"
  le_worker_id :: "32 word"
  le_component_id :: "32 word"
  le_channel_id :: "32 word"
  le_loop_id :: "32 word"
  le_policy_id :: "32 word"
  le_reason_id :: "32 word"
  le_reserved0 :: "32 word"
  le_value0 :: "64 word"
  le_value1 :: "64 word"
  le_value2 :: "64 word"
  le_value3 :: "64 word"

definition empty_live_event :: live_event where
  "empty_live_event =
     \<lparr>le_local_seq = 0, le_mono_ns = 0, le_stream_id = 0, le_epoch_id = 0, le_kind = 0, le_flags = 0, le_lane_id = 0, le_worker_id = 0,
      le_component_id = 0, le_channel_id = 0, le_loop_id = 0, le_policy_id = 0, le_reason_id = 0, le_reserved0 = 0, le_value0 = 0, le_value1 = 0,
      le_value2 = 0, le_value3 = 0\<rparr>"

fun encode_kind :: "live_event_kind \<Rightarrow> 32 word" where
  "encode_kind KRunStarted = 1"
| "encode_kind KRunFinished = 2"
| "encode_kind KSchedulerEpochBegin = 3"
| "encode_kind KSchedulerEpochEnd = 4"
| "encode_kind KComponentBegin = 5"
| "encode_kind KComponentEnd = 6"
| "encode_kind KComponentError = 7"
| "encode_kind KChannelPublishSummary = 8"
| "encode_kind KChannelCommitSummary = 9"
| "encode_kind KChannelDrop = 10"
| "encode_kind KChannelReject = 11"
| "encode_kind KChannelOverwrite = 12"
| "encode_kind KTriggerReadySummary = 13"
| "encode_kind KTriggerSuppressedSummary = 14"
| "encode_kind KAsyncAdmission = 15"
| "encode_kind KAsyncReject = 16"
| "encode_kind KAsyncDrop = 17"
| "encode_kind KLoopIterationBegin = 18"
| "encode_kind KLoopIterationEnd = 19"
| "encode_kind KLoopConverged = 20"
| "encode_kind KLoopBudgetOverrun = 21"
| "encode_kind KLoopMaxIterationsHit = 22"
| "encode_kind KLoopError = 23"
| "encode_kind KHealthEvent = 24"
| "encode_kind KRuntimeError = 25"
| "encode_kind KObserverDropSummary = 26"

fun encode_exactness :: "live_event_exactness \<Rightarrow> 32 word" where
  "encode_exactness KExact = 1"
| "encode_exactness KAggregated = 2"
| "encode_exactness KSampled = 3"
| "encode_exactness KLossy = 4"
| "encode_exactness KPartial = 5"

fun encode_severity :: "live_event_severity \<Rightarrow> 32 word" where
  "encode_severity KTrace = 1"
| "encode_severity KDebug = 2"
| "encode_severity KInfo = 3"
| "encode_severity KWarning = 4"
| "encode_severity KError = 5"

section \<open>The ring buffer\<close>

record ring_buffer =
  rb_buffer :: "live_event list"
  rb_capacity :: nat
  rb_read_index :: nat
  rb_write_index :: nat
  rb_dropped :: "64 word"
  rb_pending_drops :: "64 word"

definition make_ring_buffer :: "nat \<Rightarrow> ring_buffer" where
  "make_ring_buffer cap =
     \<lparr>rb_buffer = replicate (if cap = 0 then 0 else cap + 1) empty_live_event, rb_capacity = cap, rb_read_index = 0, rb_write_index = 0,
      rb_dropped = 0, rb_pending_drops = 0\<rparr>"

definition ring_empty :: "ring_buffer \<Rightarrow> bool" where
  "ring_empty r \<longleftrightarrow> rb_read_index r = rb_write_index r"

definition ring_increment :: "ring_buffer \<Rightarrow> nat \<Rightarrow> nat" where
  "ring_increment r v = (if v + 1 = length (rb_buffer r) then 0 else v + 1)"

definition ring_drop :: "ring_buffer \<Rightarrow> ring_buffer" where
  "ring_drop r = r\<lparr>rb_dropped := rb_dropped r + 1, rb_pending_drops := rb_pending_drops r + 1\<rparr>"

text \<open>The two operations as their single accesses of shared memory; \<^verbatim>\<open>try_push\<close> and \<^verbatim>\<open>try_pop\<close> put them in sequence.\<close>

definition ring_full :: "ring_buffer \<Rightarrow> bool" where
  "ring_full r \<longleftrightarrow> ring_increment r (rb_write_index r) = rb_read_index r"

definition ring_store :: "live_event \<Rightarrow> ring_buffer \<Rightarrow> ring_buffer" where
  "ring_store e r = r\<lparr>rb_buffer := (rb_buffer r)[rb_write_index r := e]\<rparr>"

definition ring_advance_write :: "ring_buffer \<Rightarrow> ring_buffer" where
  "ring_advance_write r = r\<lparr>rb_write_index := ring_increment r (rb_write_index r)\<rparr>"

definition ring_load :: "ring_buffer \<Rightarrow> live_event" where
  "ring_load r = rb_buffer r ! rb_read_index r"

definition ring_advance_read :: "ring_buffer \<Rightarrow> ring_buffer" where
  "ring_advance_read r = r\<lparr>rb_read_index := ring_increment r (rb_read_index r)\<rparr>"

definition try_push :: "live_event \<Rightarrow> ring_buffer \<Rightarrow> bool \<times> ring_buffer" where
  "try_push e r =
     (if rb_capacity r = 0 then (False, ring_drop r)
      else if ring_full r then (False, ring_drop r)
      else (True, ring_advance_write (ring_store e r)))"

definition try_pop :: "ring_buffer \<Rightarrow> live_event option \<times> ring_buffer" where
  "try_pop r =
     (if rb_capacity r = 0 then (None, r)
      else if ring_empty r then (None, r)
      else (Some (ring_load r), ring_advance_read r))"

definition take_pending_drop_count :: "ring_buffer \<Rightarrow> 64 word \<times> ring_buffer" where
  "take_pending_drop_count r = (rb_pending_drops r, r\<lparr>rb_pending_drops := 0\<rparr>)"

section \<open>Streams and sessions\<close>

record live_stream =
  ls_stream_id :: "32 word"
  ls_buffer :: ring_buffer
  ls_local_seq :: "64 word"

definition make_live_stream :: "32 word \<Rightarrow> nat \<Rightarrow> live_stream" where
  "make_live_stream sid cap = \<lparr>ls_stream_id = sid, ls_buffer = make_ring_buffer cap, ls_local_seq = 0\<rparr>"

definition next_local_seq :: "live_stream \<Rightarrow> 64 word \<times> live_stream" where
  "next_local_seq s = (ls_local_seq s + 1, s\<lparr>ls_local_seq := ls_local_seq s + 1\<rparr>)"

definition stream_try_publish :: "live_event \<Rightarrow> live_stream \<Rightarrow> bool \<times> live_stream" where
  "stream_try_publish e s =
     (let (seq, s1) = next_local_seq s;
          (ok, r) = try_push (e\<lparr>le_stream_id := ls_stream_id s, le_local_seq := seq\<rparr>) (ls_buffer s1)
      in (ok, s1\<lparr>ls_buffer := r\<rparr>))"

definition stream_try_pop :: "live_stream \<Rightarrow> live_event option \<times> live_stream" where
  "stream_try_pop s = (let (e, r) = try_pop (ls_buffer s) in (e, s\<lparr>ls_buffer := r\<rparr>))"

definition stream_take_drop_summary :: "64 word \<Rightarrow> 32 word \<Rightarrow> live_stream \<Rightarrow> live_event option \<times> live_stream" where
  "stream_take_drop_summary mono_ns affected s =
     (let (drops, r) = take_pending_drop_count (ls_buffer s); s1 = s\<lparr>ls_buffer := r\<rparr>
      in if drops = 0 then (None, s1)
         else
           (let (seq, s2) = next_local_seq s1
            in (Some (empty_live_event\<lparr>le_local_seq := seq, le_mono_ns := mono_ns, le_stream_id := ls_stream_id s,
                        le_kind := encode_kind KObserverDropSummary, le_flags := encode_exactness KLossy,
                        le_reason_id := encode_severity KWarning, le_value0 := drops, le_value1 := rb_dropped r,
                        le_value2 := ucast affected\<rparr>), s2)))"

datatype live_observe_level = KOff | KSummary | KDetailed | KDebugLevel

record live_observe_options =
  lo_level :: live_observe_level
  lo_event_buffer_capacity :: nat
  lo_stream_id :: "32 word"

definition default_live_observe_options :: live_observe_options where
  "default_live_observe_options = \<lparr>lo_level = KOff, lo_event_buffer_capacity = 1024, lo_stream_id = 0\<rparr>"

record live_session =
  ses_options :: live_observe_options
  ses_stream :: live_stream

definition make_live_session :: "live_observe_options \<Rightarrow> live_session" where
  "make_live_session opts = \<lparr>ses_options = opts, ses_stream = make_live_stream (lo_stream_id opts) (lo_event_buffer_capacity opts)\<rparr>"

text \<open>The default of the build.\<close>

definition kLiveObserveCompiledIn :: bool where
  "kLiveObserveCompiledIn = True"

definition session_enabled :: "live_session \<Rightarrow> bool" where
  "session_enabled s \<longleftrightarrow> kLiveObserveCompiledIn \<and> lo_level (ses_options s) \<noteq> KOff"

definition session_try_publish :: "live_event \<Rightarrow> live_session \<Rightarrow> bool \<times> live_session" where
  "session_try_publish e s =
     (if \<not> session_enabled s then (False, s)
      else (let (ok, st) = stream_try_publish e (ses_stream s) in (ok, s\<lparr>ses_stream := st\<rparr>)))"

text \<open>The loop of \<^verbatim>\<open>drain\<close>: it goes on while the ring is not empty; \<open>None\<close> would be a loop that does not end.\<close>

partial_function (option) drain_loop :: "nat \<Rightarrow> live_event list \<Rightarrow> live_stream \<Rightarrow> (live_event list \<times> live_stream) option" where
  "drain_loop max_events evs s =
     (if max_events = 0 \<or> length evs < max_events then
        (case stream_try_pop s of
           (None, s') \<Rightarrow> Some (evs, s')
         | (Some e, s') \<Rightarrow> drain_loop max_events (evs @ [e]) s')
      else Some (evs, s))"

definition session_drain :: "nat \<Rightarrow> live_session \<Rightarrow> (live_event list \<times> live_session) option" where
  "session_drain max_events s =
     (if \<not> session_enabled s then Some ([], s)
      else map_option (\<lambda>(evs, st). (evs, s\<lparr>ses_stream := st\<rparr>)) (drain_loop max_events [] (ses_stream s)))"

definition session_take_drop_summary :: "64 word \<Rightarrow> 32 word \<Rightarrow> live_session \<Rightarrow> live_event option \<times> live_session" where
  "session_take_drop_summary mono_ns affected s =
     (if \<not> session_enabled s then (None, s)
      else (let (e, st) = stream_take_drop_summary mono_ns affected (ses_stream s) in (e, s\<lparr>ses_stream := st\<rparr>)))"

definition session_dropped_event_count :: "live_session \<Rightarrow> 64 word" where
  "session_dropped_event_count s = (if \<not> session_enabled s then 0 else rb_dropped (ls_buffer (ses_stream s)))"

end
