(* ===== verification/Live_Observe_Laws.thy ===== *)
theory Live_Observe_Laws
  imports Live_Observe
begin

text \<open>
  Laws of live observe: the ring buffer refines a bounded queue, also when one producer and one consumer interleave their memory
  accesses; a session delivers what fits, in order, and accounts for the rest.
\<close>

section \<open>Bounded queues\<close>

locale bounded_queue =
  fixes invar :: "'q \<Rightarrow> bool" and contents :: "'q \<Rightarrow> 'a list" and limit :: "'q \<Rightarrow> nat"
    and push :: "'a \<Rightarrow> 'q \<Rightarrow> bool \<times> 'q" and pop :: "'q \<Rightarrow> 'a option \<times> 'q"
  assumes within: "invar q \<Longrightarrow> length (contents q) \<le> limit q"
    and push_room: "invar q \<Longrightarrow> length (contents q) < limit q \<Longrightarrow> push x q = (ok, q') \<Longrightarrow> ok \<and> contents q' = contents q @ [x]"
    and push_full: "invar q \<Longrightarrow> \<not> length (contents q) < limit q \<Longrightarrow> push x q = (ok, q') \<Longrightarrow> \<not> ok \<and> contents q' = contents q"
    and push_keeps: "invar q \<Longrightarrow> push x q = (ok, q') \<Longrightarrow> invar q' \<and> limit q' = limit q"
    and pop_item: "invar q \<Longrightarrow> contents q = x # xs \<Longrightarrow> pop q = (r, q') \<Longrightarrow> r = Some x \<and> contents q' = xs"
    and pop_none: "invar q \<Longrightarrow> contents q = [] \<Longrightarrow> pop q = (r, q') \<Longrightarrow> r = None \<and> contents q' = []"
    and pop_keeps: "invar q \<Longrightarrow> pop q = (r, q') \<Longrightarrow> invar q' \<and> limit q' = limit q"
begin

lemma push_any:
  assumes "invar q" and "push x q = (ok, q')"
  shows "contents q' = take (limit q) (contents q @ [x])" and "ok \<longleftrightarrow> length (contents q) < limit q"
  using assms within [OF assms(1)] push_room [OF assms(1) _ assms(2)] push_full [OF assms(1) _ assms(2)]
  by (cases "length (contents q) < limit q"; simp)+

end

section \<open>The ring buffer is one\<close>

definition ring_count :: "ring_buffer \<Rightarrow> nat" where
  "ring_count r =
     (if rb_read_index r \<le> rb_write_index r then rb_write_index r - rb_read_index r
      else rb_write_index r + length (rb_buffer r) - rb_read_index r)"

definition ring_list :: "ring_buffer \<Rightarrow> live_event list" where
  "ring_list r = take (ring_count r) (rotate (rb_read_index r) (rb_buffer r))"

definition ring_wf :: "ring_buffer \<Rightarrow> bool" where
  "ring_wf r \<longleftrightarrow>
     (if rb_capacity r = 0 then rb_buffer r = [] \<and> rb_read_index r = 0 \<and> rb_write_index r = 0
      else length (rb_buffer r) = Suc (rb_capacity r) \<and> rb_read_index r \<le> rb_capacity r \<and> rb_write_index r \<le> rb_capacity r)"

lemma ring_wf_start [simp]: "ring_wf (make_ring_buffer cap)" "ring_list (make_ring_buffer cap) = []" "rb_capacity (make_ring_buffer cap) = cap"
  by (simp_all add: ring_wf_def make_ring_buffer_def ring_list_def ring_count_def)

lemma ring_count_le: "ring_wf r \<Longrightarrow> ring_count r \<le> rb_capacity r"
  by (auto simp: ring_wf_def ring_count_def split: if_splits)

lemma ring_list_length: "ring_wf r \<Longrightarrow> length (ring_list r) = ring_count r"
  using ring_count_le [of r] by (auto simp: ring_list_def ring_wf_def split: if_splits)

lemma ring_list_nth:
  "ring_wf r \<Longrightarrow> i < ring_count r \<Longrightarrow> ring_list r ! i = rb_buffer r ! ((rb_read_index r + i) mod length (rb_buffer r))"
  using ring_count_le [of r] by (auto simp: ring_list_def ring_wf_def nth_rotate split: if_splits)

lemma ring_empty_iff: "ring_wf r \<Longrightarrow> ring_empty r \<longleftrightarrow> ring_list r = []"
  using ring_list_length [of r] by (auto simp: ring_empty_def ring_count_def ring_wf_def split: if_splits)

lemma ring_full_iff: "ring_wf r \<Longrightarrow> rb_capacity r \<noteq> 0 \<Longrightarrow> ring_full r \<longleftrightarrow> ring_count r = rb_capacity r"
  by (auto simp: ring_full_def ring_increment_def ring_count_def ring_wf_def)

lemma ring_drop_list [simp]: "ring_list (ring_drop r) = ring_list r" "ring_wf (ring_drop r) = ring_wf r"
    "rb_capacity (ring_drop r) = rb_capacity r" "ring_full (ring_drop r) = ring_full r"
  by (simp_all add: ring_drop_def ring_list_def ring_count_def ring_wf_def ring_full_def ring_increment_def)

text \<open>The slot that is written next is no slot of the queue.\<close>

lemma write_slot:
  assumes "ring_wf r" and "i < ring_count r"
  shows "(rb_read_index r + i) mod length (rb_buffer r) \<noteq> rb_write_index r"
  using assms ring_count_le [OF assms(1)] by (auto simp: ring_wf_def ring_count_def mod_if split: if_splits)

lemma ring_store_list: "ring_wf r \<Longrightarrow> ring_list (ring_store e r) = ring_list r"
proof -
  assume wf: "ring_wf r"
  have [simp]: "ring_count (ring_store e r) = ring_count r" by (simp add: ring_count_def ring_store_def)
  have wf': "ring_wf (ring_store e r)" using wf by (simp add: ring_wf_def ring_store_def)
  show ?thesis
  proof (rule nth_equalityI)
    show "length (ring_list (ring_store e r)) = length (ring_list r)" using wf wf' by (simp add: ring_list_length)
    fix i assume "i < length (ring_list (ring_store e r))"
    then have i: "i < ring_count r" using wf' by (simp add: ring_list_length)
    then show "ring_list (ring_store e r) ! i = ring_list r ! i"
      using write_slot [OF wf i] wf wf' by (simp add: ring_list_nth) (simp add: ring_store_def)
  qed
qed

lemma ring_advance_write_list:
  assumes "ring_wf r" and "rb_capacity r \<noteq> 0" and "\<not> ring_full r"
  shows "ring_list (ring_advance_write r) = ring_list r @ [rb_buffer r ! rb_write_index r]" and "ring_wf (ring_advance_write r)"
proof -
  let ?r = "ring_advance_write r"
  have c: "ring_count ?r = Suc (ring_count r)"
    using assms by (auto simp: ring_wf_def ring_count_def ring_advance_write_def ring_increment_def ring_full_def split: if_splits)
  show wf': "ring_wf ?r" using assms(1,2) by (auto simp: ring_wf_def ring_advance_write_def ring_increment_def)
  have w: "(rb_read_index r + ring_count r) mod length (rb_buffer r) = rb_write_index r"
    using assms(1,2) by (auto simp: ring_wf_def ring_count_def mod_if)
  show "ring_list ?r = ring_list r @ [rb_buffer r ! rb_write_index r]"
  proof (rule nth_equalityI)
    show "length (ring_list ?r) = length (ring_list r @ [rb_buffer r ! rb_write_index r])"
      using assms(1) wf' c by (simp add: ring_list_length)
    fix i assume "i < length (ring_list ?r)"
    then have i: "i < Suc (ring_count r)" using wf' c by (simp add: ring_list_length)
    have "ring_list ?r ! i = rb_buffer r ! ((rb_read_index r + i) mod length (rb_buffer r))"
      using ring_list_nth [OF wf'] i c by (simp add: ring_advance_write_def)
    then show "ring_list ?r ! i = (ring_list r @ [rb_buffer r ! rb_write_index r]) ! i"
      using i w assms(1) by (cases "i = ring_count r") (auto simp: nth_append ring_list_length ring_list_nth)
  qed
qed

lemma ring_advance_read_list:
  assumes "ring_wf r" and "ring_list r \<noteq> []"
  shows "ring_list (ring_advance_read r) = tl (ring_list r)" and "ring_wf (ring_advance_read r)" and "ring_load r = hd (ring_list r)"
proof -
  let ?r = "ring_advance_read r"
  have ne: "ring_count r > 0" using assms ring_list_length [OF assms(1)] by (cases "ring_count r") auto
  then have cap: "rb_capacity r \<noteq> 0" using ring_count_le [OF assms(1)] by simp
  have c: "ring_count ?r = ring_count r - 1"
    using assms(1) cap ne by (auto simp: ring_wf_def ring_count_def ring_advance_read_def ring_increment_def split: if_splits)
  show wf': "ring_wf ?r" using assms(1) cap by (auto simp: ring_wf_def ring_advance_read_def ring_increment_def)
  show "ring_load r = hd (ring_list r)"
    using ring_list_nth [OF assms(1) ne] assms cap by (simp add: hd_conv_nth ring_load_def ring_wf_def)
  have i1: "(ring_increment r (rb_read_index r) + i) mod length (rb_buffer r) = (rb_read_index r + Suc i) mod length (rb_buffer r)" for i
    using assms(1) cap mod_add_self1 [of "Suc (rb_capacity r)" i] by (auto simp: ring_wf_def ring_increment_def)
  show "ring_list ?r = tl (ring_list r)"
  proof (rule nth_equalityI)
    show "length (ring_list ?r) = length (tl (ring_list r))" using wf' assms(1) c by (simp add: ring_list_length)
    fix i assume "i < length (ring_list ?r)"
    then have i: "i < ring_count r - 1" using wf' c by (simp add: ring_list_length)
    have "ring_list ?r ! i = rb_buffer r ! ((rb_read_index r + Suc i) mod length (rb_buffer r))"
      using ring_list_nth [OF wf'] i c i1 [of i] by (simp add: ring_advance_read_def)
    then show "ring_list ?r ! i = tl (ring_list r) ! i"
      using i assms(1) by (simp add: nth_tl ring_list_length ring_list_nth)
  qed
qed

lemma ring_store_keeps [simp]:
  "ring_wf (ring_store e r) = ring_wf r" "ring_full (ring_store e r) = ring_full r" "rb_capacity (ring_store e r) = rb_capacity r"
  by (simp_all add: ring_wf_def ring_store_def ring_full_def ring_increment_def)

lemma ring_advance_capacity [simp]:
  "rb_capacity (ring_advance_write r) = rb_capacity r" "rb_capacity (ring_advance_read r) = rb_capacity r"
  by (simp_all add: ring_advance_write_def ring_advance_read_def)

lemma ring_push_list:
  assumes "ring_wf r" and "rb_capacity r \<noteq> 0" and "\<not> ring_full r"
  shows "ring_list (ring_advance_write (ring_store e r)) = ring_list r @ [e]"
  using ring_advance_write_list [of "ring_store e r"] assms by (simp add: ring_store_list) (simp add: ring_store_def ring_wf_def)

interpretation ring: bounded_queue ring_wf ring_list rb_capacity try_push try_pop
proof unfold_locales
  fix q :: ring_buffer assume "ring_wf q"
  then show "length (ring_list q) \<le> rb_capacity q" using ring_count_le by (simp add: ring_list_length)
next
  fix q q' x ok assume "ring_wf q" "length (ring_list q) < rb_capacity q" "try_push x q = (ok, q')"
  then show "ok \<and> ring_list q' = ring_list q @ [x]"
    by (auto simp: try_push_def ring_full_iff ring_list_length ring_push_list split: if_splits)
next
  fix q q' x ok assume "ring_wf q" "\<not> length (ring_list q) < rb_capacity q" "try_push x q = (ok, q')"
  then show "\<not> ok \<and> ring_list q' = ring_list q"
    using ring_count_le [of q] by (auto simp: try_push_def ring_full_iff ring_list_length split: if_splits)
next
  fix q q' x ok assume "ring_wf q" "try_push x q = (ok, q')"
  then show "ring_wf q' \<and> rb_capacity q' = rb_capacity q"
    by (auto simp: try_push_def ring_advance_write_list split: if_splits)
next
  fix q q' x xs r assume "ring_wf q" "ring_list q = x # xs" "try_pop q = (r, q')"
  moreover from this have "rb_capacity q \<noteq> 0" using ring_count_le [of q] ring_list_length [of q] by auto
  ultimately show "r = Some x \<and> ring_list q' = xs"
    using ring_advance_read_list [of q] by (auto simp: try_pop_def ring_empty_iff split: if_splits)
next
  fix q q' r assume "ring_wf q" "ring_list q = []" "try_pop q = (r, q')"
  then show "r = None \<and> ring_list q' = []" by (auto simp: try_pop_def ring_empty_iff split: if_splits)
next
  fix q q' r assume "ring_wf q" "try_pop q = (r, q')"
  then show "ring_wf q' \<and> rb_capacity q' = rb_capacity q"
    using ring_advance_read_list [of q] by (auto simp: try_pop_def ring_empty_iff split: if_splits)
qed

section \<open>One producer and one consumer\<close>

text \<open>
  The memory accesses of \<^verbatim>\<open>try_push\<close>, \<^verbatim>\<open>try_pop\<close> and \<^verbatim>\<open>take_pending_drop_count\<close> as the steps of two threads. Each thread owns one index and reads
  the other with acquire order, so that it sees everything before the release that wrote it.
\<close>

datatype producer = PIdle | PChecked live_event | PStored live_event | PRefused | PDropped

datatype consumer = CIdle | CChecked | CLoaded live_event

record two_threads =
  tt_ring :: ring_buffer
  tt_producer :: producer
  tt_consumer :: consumer
  tt_pushed :: "live_event list"
  tt_popped :: "live_event list"
  tt_refused :: nat
  tt_reported :: "64 word"

inductive thread_step :: "two_threads \<Rightarrow> two_threads \<Rightarrow> bool" where
  check_room: "tt_producer s = PIdle \<Longrightarrow> rb_capacity (tt_ring s) \<noteq> 0 \<Longrightarrow> \<not> ring_full (tt_ring s) \<Longrightarrow>
    thread_step s (s\<lparr>tt_producer := PChecked e\<rparr>)"
| check_full: "tt_producer s = PIdle \<Longrightarrow> rb_capacity (tt_ring s) = 0 \<or> ring_full (tt_ring s) \<Longrightarrow>
    thread_step s (s\<lparr>tt_producer := PRefused, tt_refused := Suc (tt_refused s)\<rparr>)"
| count_drop: "tt_producer s = PRefused \<Longrightarrow>
    thread_step s (s\<lparr>tt_producer := PDropped, tt_ring := (tt_ring s)\<lparr>rb_dropped := rb_dropped (tt_ring s) + 1\<rparr>\<rparr>)"
| count_pending: "tt_producer s = PDropped \<Longrightarrow>
    thread_step s (s\<lparr>tt_producer := PIdle, tt_ring := (tt_ring s)\<lparr>rb_pending_drops := rb_pending_drops (tt_ring s) + 1\<rparr>\<rparr>)"
| store: "tt_producer s = PChecked e \<Longrightarrow> thread_step s (s\<lparr>tt_producer := PStored e, tt_ring := ring_store e (tt_ring s)\<rparr>)"
| release_write: "tt_producer s = PStored e \<Longrightarrow>
    thread_step s (s\<lparr>tt_producer := PIdle, tt_ring := ring_advance_write (tt_ring s), tt_pushed := tt_pushed s @ [e]\<rparr>)"
| check_item: "tt_consumer s = CIdle \<Longrightarrow> rb_capacity (tt_ring s) \<noteq> 0 \<Longrightarrow> \<not> ring_empty (tt_ring s) \<Longrightarrow>
    thread_step s (s\<lparr>tt_consumer := CChecked\<rparr>)"
| load: "tt_consumer s = CChecked \<Longrightarrow> thread_step s (s\<lparr>tt_consumer := CLoaded (ring_load (tt_ring s))\<rparr>)"
| release_read: "tt_consumer s = CLoaded e \<Longrightarrow>
    thread_step s (s\<lparr>tt_consumer := CIdle, tt_ring := ring_advance_read (tt_ring s), tt_popped := tt_popped s @ [e]\<rparr>)"
| take_drops: "tt_consumer s = CIdle \<Longrightarrow>
    thread_step s (s\<lparr>tt_ring := snd (take_pending_drop_count (tt_ring s)),
                    tt_reported := tt_reported s + fst (take_pending_drop_count (tt_ring s))\<rparr>)"

definition threads_start :: "nat \<Rightarrow> two_threads" where
  "threads_start cap =
     \<lparr>tt_ring = make_ring_buffer cap, tt_producer = PIdle, tt_consumer = CIdle, tt_pushed = [], tt_popped = [], tt_refused = 0, tt_reported = 0\<rparr>"

fun producer_inv :: "producer \<Rightarrow> ring_buffer \<Rightarrow> bool" where
  "producer_inv (PChecked e) r \<longleftrightarrow> rb_capacity r \<noteq> 0 \<and> \<not> ring_full r"
| "producer_inv (PStored e) r \<longleftrightarrow> rb_capacity r \<noteq> 0 \<and> \<not> ring_full r \<and> rb_buffer r ! rb_write_index r = e"
| "producer_inv _ r \<longleftrightarrow> True"

fun consumer_inv :: "consumer \<Rightarrow> ring_buffer \<Rightarrow> bool" where
  "consumer_inv CIdle r \<longleftrightarrow> True"
| "consumer_inv CChecked r \<longleftrightarrow> ring_list r \<noteq> []"
| "consumer_inv (CLoaded e) r \<longleftrightarrow> ring_list r \<noteq> [] \<and> hd (ring_list r) = e"

definition threads_inv :: "nat \<Rightarrow> two_threads \<Rightarrow> bool" where
  "threads_inv cap s \<longleftrightarrow>
     ring_wf (tt_ring s) \<and> rb_capacity (tt_ring s) = cap \<and> tt_pushed s = tt_popped s @ ring_list (tt_ring s) \<and>
     producer_inv (tt_producer s) (tt_ring s) \<and> consumer_inv (tt_consumer s) (tt_ring s) \<and>
     of_nat (tt_refused s) = rb_dropped (tt_ring s) + (if tt_producer s = PRefused then 1 else 0) \<and>
     of_nat (tt_refused s) = tt_reported s + rb_pending_drops (tt_ring s) + (if tt_producer s \<in> {PRefused, PDropped} then 1 else 0)"

text \<open>Counters are no part of the queue, and the consumer only makes room.\<close>

lemma ring_counters [simp]:
  "ring_list (r\<lparr>rb_dropped := d\<rparr>) = ring_list r" "ring_list (r\<lparr>rb_pending_drops := d\<rparr>) = ring_list r"
  "ring_wf (r\<lparr>rb_dropped := d\<rparr>) = ring_wf r" "ring_wf (r\<lparr>rb_pending_drops := d\<rparr>) = ring_wf r"
  "ring_full (r\<lparr>rb_dropped := d\<rparr>) = ring_full r" "ring_full (r\<lparr>rb_pending_drops := d\<rparr>) = ring_full r"
  by (simp_all add: ring_list_def ring_count_def ring_wf_def ring_full_def ring_increment_def)

lemma producer_inv_counters [simp]:
  "producer_inv p (r\<lparr>rb_dropped := d\<rparr>) = producer_inv p r" "producer_inv p (r\<lparr>rb_pending_drops := d\<rparr>) = producer_inv p r"
  "consumer_inv c (r\<lparr>rb_dropped := d\<rparr>) = consumer_inv c r" "consumer_inv c (r\<lparr>rb_pending_drops := d\<rparr>) = consumer_inv c r"
  by (cases p; cases c; simp)+

lemma ring_advance_read_room:
  assumes "ring_wf r" and "ring_list r \<noteq> []"
  shows "\<not> ring_full (ring_advance_read r)"
proof -
  have "ring_count (ring_advance_read r) < rb_capacity r"
    using assms ring_advance_read_list [OF assms] ring_count_le [OF assms(1)] ring_list_length [of r] ring_list_length [of "ring_advance_read r"]
    by (cases "ring_list r") auto
  moreover from this have "rb_capacity r \<noteq> 0" by simp
  ultimately show ?thesis using ring_full_iff [of "ring_advance_read r"] ring_advance_read_list [OF assms] by simp
qed

lemma producer_inv_read:
  assumes "ring_wf r" and "ring_list r \<noteq> []" and "producer_inv p r"
  shows "producer_inv p (ring_advance_read r)"
  using assms ring_advance_read_room [OF assms(1,2)] by (cases p) (auto simp: ring_advance_read_def)

lemma consumer_inv_write:
  assumes "ring_wf r" and "producer_inv (PStored e) r" and "consumer_inv c r"
  shows "consumer_inv c (ring_advance_write r)"
  using assms ring_advance_write_list [of r] by (cases c) auto

lemma consumer_inv_store: "ring_wf r \<Longrightarrow> consumer_inv c r \<Longrightarrow> consumer_inv c (ring_store e r)"
  by (cases c) (simp_all add: ring_store_list)

lemma ring_store_slot: "ring_wf r \<Longrightarrow> rb_capacity r \<noteq> 0 \<Longrightarrow> rb_buffer (ring_store e r) ! rb_write_index (ring_store e r) = e"
  by (simp add: ring_store_def ring_wf_def)

lemma ring_moves_counters [simp]:
  "rb_dropped (ring_store e r) = rb_dropped r" "rb_dropped (ring_advance_write r) = rb_dropped r" "rb_dropped (ring_advance_read r) = rb_dropped r"
  "rb_pending_drops (ring_store e r) = rb_pending_drops r" "rb_pending_drops (ring_advance_write r) = rb_pending_drops r"
  "rb_pending_drops (ring_advance_read r) = rb_pending_drops r"
  by (simp_all add: ring_store_def ring_advance_write_def ring_advance_read_def)

lemma threads_inv_step:
  assumes "thread_step s s'" and "threads_inv cap s"
  shows "threads_inv cap s'"
  using assms
proof cases
  case (release_write e)
  then have "ring_list (ring_advance_write (tt_ring s)) = ring_list (tt_ring s) @ [e]" "ring_wf (ring_advance_write (tt_ring s))"
    using assms(2) ring_advance_write_list [of "tt_ring s"] by (auto simp: threads_inv_def)
  with release_write assms(2) consumer_inv_write [of "tt_ring s" e] show ?thesis by (auto simp: threads_inv_def)
next
  case (release_read e)
  then have "tt_pushed s = tt_popped s @ e # ring_list (ring_advance_read (tt_ring s))" "ring_wf (ring_advance_read (tt_ring s))"
    using assms(2) ring_advance_read_list [of "tt_ring s"] by (cases "ring_list (tt_ring s)"; auto simp: threads_inv_def)+
  with release_read assms(2) producer_inv_read [of "tt_ring s"] show ?thesis by (auto simp: threads_inv_def)
qed (use assms(2) ring_store_slot consumer_inv_store ring_advance_read_list(3) in
     \<open>auto simp: threads_inv_def ring_store_list ring_empty_iff take_pending_drop_count_def add.commute add.left_commute\<close>)

lemma threads_inv_reachable: "thread_step\<^sup>*\<^sup>* (threads_start cap) s \<Longrightarrow> threads_inv cap s"
proof (induction rule: rtranclp_induct)
  case base
  show ?case by (simp add: threads_inv_def threads_start_def make_ring_buffer_def [of cap, THEN arg_cong [where f = rb_dropped]]
        make_ring_buffer_def [of cap, THEN arg_cong [where f = rb_pending_drops]])
qed (rule threads_inv_step)

text \<open>
  C26. The ring buffer is a queue between two threads. However the memory accesses of one producer and one consumer interleave, the
  events popped are the first of the events pushed, in order, those not yet popped are the contents, at most as many as the
  capacity; the producer never writes the slot that the consumer reads; and every refused push is counted once, in the number of dropped
  events and in the drops that have been or will be reported.
\<close>

theorem ring_buffer_linearizes:
  assumes "thread_step\<^sup>*\<^sup>* (threads_start cap) s"
  shows "tt_pushed s = tt_popped s @ ring_list (tt_ring s) \<and> length (ring_list (tt_ring s)) \<le> cap \<and>
    (tt_consumer s = CChecked \<and> tt_producer s = PChecked e \<longrightarrow> rb_read_index (tt_ring s) \<noteq> rb_write_index (tt_ring s)) \<and>
    (tt_producer s = PIdle \<longrightarrow> rb_dropped (tt_ring s) = of_nat (tt_refused s) \<and>
       tt_reported s + rb_pending_drops (tt_ring s) = of_nat (tt_refused s))"
  using threads_inv_reachable [OF assms] ring.within [of "tt_ring s"] ring_empty_iff [of "tt_ring s"]
  by (auto simp: threads_inv_def ring_empty_def)

section \<open>Sessions\<close>

text \<open>The events as the stream numbers them.\<close>

definition stamped :: "32 word \<Rightarrow> live_event list \<Rightarrow> live_event list" where
  "stamped sid es = map (\<lambda>(i, e). e\<lparr>le_stream_id := sid, le_local_seq := of_nat i\<rparr>) (enumerate 1 es)"

definition publish_all :: "live_event list \<Rightarrow> live_stream \<Rightarrow> live_stream" where
  "publish_all es s = fold (\<lambda>e s. snd (stream_try_publish e s)) es s"

lemma stamped_snoc: "stamped sid (es @ [e]) = stamped sid es @ [e\<lparr>le_stream_id := sid, le_local_seq := of_nat (Suc (length es))\<rparr>]"
  by (simp add: stamped_def enumerate_append_eq)

lemma stamped_length [simp]: "length (stamped sid es) = length es"
  by (simp add: stamped_def)

lemma try_push_counters:
  assumes "ring_wf r" and "try_push e r = (ok, r')"
  shows "rb_dropped r' = rb_dropped r + (if ok then 0 else 1)" and "rb_pending_drops r' = rb_pending_drops r + (if ok then 0 else 1)"
  using assms(2) by (auto simp: try_push_def ring_drop_def ring_advance_write_def ring_store_def split: if_splits)

lemma publish_all_stream:
  fixes sid cap
  defines "s \<equiv> \<lambda>es. publish_all es (make_live_stream sid cap)"
  shows "ring_wf (ls_buffer (s es)) \<and> rb_capacity (ls_buffer (s es)) = cap \<and> ls_stream_id (s es) = sid \<and>
    ring_list (ls_buffer (s es)) = take cap (stamped sid es) \<and> ls_local_seq (s es) = of_nat (length es) \<and>
    rb_dropped (ls_buffer (s es)) = of_nat (length es - cap) \<and> rb_pending_drops (ls_buffer (s es)) = of_nat (length es - cap)"
proof (induction es rule: rev_induct)
  case Nil
  then show ?case by (simp add: s_def publish_all_def make_live_stream_def stamped_def) (simp add: make_ring_buffer_def)
next
  case (snoc e es)
  let ?e = "e\<lparr>le_stream_id := sid, le_local_seq := of_nat (Suc (length es))\<rparr>"
  obtain ok r where p: "try_push ?e (ls_buffer (s es)) = (ok, r)" by fastforce
  have "s (es @ [e]) = snd (stream_try_publish e (s es))" by (simp add: s_def publish_all_def)
  also have "\<dots> = (s es)\<lparr>ls_local_seq := of_nat (Suc (length es)), ls_buffer := r\<rparr>"
    using p snoc by (simp add: stream_try_publish_def next_local_seq_def Let_def add.commute)
  finally have s': "s (es @ [e]) = (s es)\<lparr>ls_local_seq := of_nat (Suc (length es)), ls_buffer := r\<rparr>" .
  show ?case
    using snoc ring.push_any [OF _ p] ring.push_keeps [OF _ p] try_push_counters [OF _ p]
    by (auto simp: s' stamped_snoc Suc_diff_le not_less split: if_splits)
qed

lemma stream_pop_keeps:
  assumes "stream_try_pop s = (r, s')" and "ring_wf (ls_buffer s)"
  shows "ls_stream_id s' = ls_stream_id s \<and> ls_local_seq s' = ls_local_seq s \<and> rb_dropped (ls_buffer s') = rb_dropped (ls_buffer s) \<and>
    rb_pending_drops (ls_buffer s') = rb_pending_drops (ls_buffer s) \<and> ring_wf (ls_buffer s') \<and>
    (case ring_list (ls_buffer s) of [] \<Rightarrow> r = None \<and> ring_list (ls_buffer s') = []
     | e # es \<Rightarrow> r = Some e \<and> ring_list (ls_buffer s') = es)"
proof -
  obtain r' q where q: "try_pop (ls_buffer s) = (r', q)" by fastforce
  then have "r' = r" and s': "s' = s\<lparr>ls_buffer := q\<rparr>" using assms(1) by (simp_all add: stream_try_pop_def)
  moreover have "rb_dropped q = rb_dropped (ls_buffer s)" "rb_pending_drops q = rb_pending_drops (ls_buffer s)"
    using q by (auto simp: try_pop_def split: if_splits)
  ultimately show ?thesis
    using ring.pop_keeps [OF assms(2) q] ring.pop_none [OF assms(2) _ q] ring.pop_item [OF assms(2) _ q] by (auto split: list.split)
qed

lemma drain_loop_drains:
  assumes "ring_wf (ls_buffer s)"
  shows "\<exists>s'. drain_loop 0 acc s = Some (acc @ ring_list (ls_buffer s), s') \<and> ring_list (ls_buffer s') = [] \<and> ring_wf (ls_buffer s') \<and>
    ls_stream_id s' = ls_stream_id s \<and> ls_local_seq s' = ls_local_seq s \<and> rb_dropped (ls_buffer s') = rb_dropped (ls_buffer s) \<and>
    rb_pending_drops (ls_buffer s') = rb_pending_drops (ls_buffer s)"
  using assms
proof (induction "ring_list (ls_buffer s)" arbitrary: s acc)
  case Nil
  obtain r s1 where "stream_try_pop s = (r, s1)" by fastforce
  with stream_pop_keeps [OF this] Nil show ?case by (subst drain_loop.simps) (simp add: Nil(1) [symmetric])
next
  case (Cons e es)
  obtain r s1 where p: "stream_try_pop s = (r, s1)" by fastforce
  note k = stream_pop_keeps [OF p Cons(3)] Cons(2) [symmetric]
  from k have "es = ring_list (ls_buffer s1)" "ring_wf (ls_buffer s1)" "r = Some e" by simp_all
  with Cons(1) [of s1 "acc @ [e]"] k p show ?case by (subst drain_loop.simps) auto
qed

text \<open>
  A session accounts for every event. Of the events published to an enabled session, a drain returns the first ones that fit the
  buffer, in order and numbered from one; the others are counted as dropped, and there is a drop summary, with their number,
  exactly when there are any.
\<close>

lemma live_session_accounts:
  assumes "lo_level opts \<noteq> KOff" and "length es < 2 ^ 64"
  shows "let cap = lo_event_buffer_capacity opts in \<exists>s'. session_drain 0 (fold (\<lambda>e s. snd (session_try_publish e s)) es (make_live_session opts)) =
      Some (take cap (stamped (lo_stream_id opts) es), s') \<and>
    session_dropped_event_count s' = of_nat (length es - cap) \<and>
    (case fst (session_take_drop_summary mono_ns affected s') of None \<Rightarrow> length es \<le> cap
     | Some e \<Rightarrow> length es > cap \<and> unat (le_value0 e) = length es - cap \<and> le_local_seq e = of_nat (Suc (length es)))"
proof -
  define cap where "cap = lo_event_buffer_capacity opts"
  let ?st = "publish_all es (make_live_stream (lo_stream_id opts) cap)"
  have on: "session_enabled \<lparr>ses_options = opts, ses_stream = st\<rparr>" for st
    using assms(1) by (simp add: session_enabled_def kLiveObserveCompiledIn_def)
  have "fold (\<lambda>e s. snd (session_try_publish e s)) es \<lparr>ses_options = opts, ses_stream = st\<rparr> = \<lparr>ses_options = opts, ses_stream = publish_all es st\<rparr>" for st
    by (induction es arbitrary: st) (simp_all add: publish_all_def session_try_publish_def on split: prod.splits)
  then have f: "fold (\<lambda>e s. snd (session_try_publish e s)) es (make_live_session opts) = \<lparr>ses_options = opts, ses_stream = ?st\<rparr>"
    by (simp add: make_live_session_def cap_def)
  note st = publish_all_stream [of es "lo_stream_id opts" cap]
  then obtain st' where st': "drain_loop 0 [] ?st = Some (take cap (stamped (lo_stream_id opts) es), st')" "ls_stream_id st' = lo_stream_id opts"
    "ls_local_seq st' = of_nat (length es)" "rb_dropped (ls_buffer st') = of_nat (length es - cap)" "rb_pending_drops (ls_buffer st') = of_nat (length es - cap)"
    using drain_loop_drains [of ?st "[]"] by auto
  have w: "(of_nat (length es - cap) :: 64 word) = 0 \<longleftrightarrow> length es \<le> cap" "unat (of_nat (length es - cap) :: 64 word) = length es - cap"
    using assms(2) nat_dvd_not_less [of "length es - cap" "2 ^ 64"] by (force simp: word_of_nat_eq_0_iff, simp add: unat_of_nat)
  show ?thesis
    using st' w on [of st'] by (simp add: f session_drain_def on session_dropped_event_count_def session_take_drop_summary_def
        stream_take_drop_summary_def take_pending_drop_count_def next_local_seq_def Let_def add.commute del: of_nat_diff flip: cap_def)
qed

section \<open>Witnesses\<close>

definition some_event :: live_event where
  "some_event = empty_live_event\<lparr>le_kind := encode_kind KHealthEvent\<rparr>"

definition held_state :: two_threads where
  "held_state = (threads_start 1)\<lparr>tt_producer := PChecked some_event\<rparr>"

lemma held_state_reachable: "thread_step\<^sup>*\<^sup>* (threads_start 1) held_state"
  unfolding held_state_def
  by (rule r_into_rtranclp, rule check_room) (simp_all add: threads_start_def make_ring_buffer_def ring_full_def ring_increment_def)

theorem ring_buffer_linearizes_witness: "tt_pushed held_state = tt_popped held_state @ ring_list (tt_ring held_state)"
  using ring_buffer_linearizes [OF held_state_reachable] by blast

lemma live_session_accounts_witness:
  "\<exists>evs s'. session_drain 0 (fold (\<lambda>e s. snd (session_try_publish e s)) (replicate 3 some_event) (make_live_session
      \<lparr>lo_level = KSummary, lo_event_buffer_capacity = 2, lo_stream_id = 7\<rparr>)) = Some (evs, s') \<and> length evs = 2 \<and> session_dropped_event_count s' = 1"
proof -
  let ?o = "\<lparr>lo_level = KSummary, lo_event_buffer_capacity = 2, lo_stream_id = 7\<rparr>" and ?es = "replicate 3 some_event"
  have "lo_level ?o \<noteq> KOff" "length ?es < 2 ^ 64" by simp_all
  from live_session_accounts [OF this, of 0 0] obtain s' where
    "session_drain 0 (fold (\<lambda>e s. snd (session_try_publish e s)) ?es (make_live_session ?o)) = Some (take 2 (stamped 7 ?es), s')"
    "session_dropped_event_count s' = 1" by (simp add: Let_def) blast
  then show ?thesis by (intro exI [of _ "take 2 (stamped 7 ?es)"] exI [of _ s']) (simp add: stamped_length)
qed

end
