(* ===== verification/Metric_Schema.thy ===== *)
theory Metric_Schema
  imports Graph_Validate
begin

text \<open>
  The schema of runtime metrics (\<^verbatim>\<open>src/metric_schema.cpp\<close>): the table of descriptors, their lookup and the validation of samples.
\<close>

section \<open>Descriptors\<close>

record runtime_metric_descriptor =
  md_name :: string
  md_kind :: string
  md_unit :: string
  md_labels :: "string list"
  md_cardinality :: string
  md_stability :: string
  md_description :: string

definition add_descriptors ::
    "string \<Rightarrow> string \<Rightarrow> string list \<Rightarrow> string \<Rightarrow> string \<Rightarrow> string list \<Rightarrow> runtime_metric_descriptor list" where
  "add_descriptors kind unt labels cardinality stability names =
     map (\<lambda>name. \<lparr>md_name = name, md_kind = kind, md_unit = unt, md_labels = labels, md_cardinality = cardinality,
                    md_stability = stability, md_description = []\<rparr>) names"

definition runtime_metric_descriptors :: "runtime_metric_descriptor list" where
  "runtime_metric_descriptors = concat
     [add_descriptors ''counter'' ''count'' [''lane''] ''bounded: lane id'' ''stable-v0.2''
        [''runtime.scheduler.tick_count'', ''runtime.scheduler.completed_count'', ''runtime.scheduler.tick_overrun_count'',
         ''runtime.scheduler.skipped_tick_count'', ''runtime.scheduler.rejected_count'', ''runtime.scheduler.priority_high_count'',
         ''runtime.scheduler.priority_normal_count'', ''runtime.scheduler.priority_low_count'',
         ''runtime.scheduler.priority_background_count'', ''runtime.scheduler.low_priority_rejected_count'',
         ''runtime.scheduler.starvation_guard_count''],
      add_descriptors ''gauge'' ''count'' [''lane''] ''bounded: lane id'' ''stable-v0.2''
        [''runtime.scheduler.queue_depth'', ''runtime.scheduler.queue_capacity'', ''runtime.scheduler.worker_count'',
         ''runtime.scheduler.active_count'', ''runtime.scheduler.in_flight_count''],
      add_descriptors ''gauge'' ''ms'' [''lane''] ''bounded: lane id'' ''stable-v0.2''
        [''runtime.scheduler.max_lateness_ms'', ''runtime.scheduler.last_callback_duration_ms'',
         ''runtime.scheduler.blocked_duration_ms'', ''runtime.scheduler.tick_jitter_ms''],
      add_descriptors ''counter'' ''count'' [''channel_id''] ''bounded: graph channel/edge id'' ''stable-v0.2''
        [''runtime.channel.configured'', ''runtime.channel.publish_count'', ''runtime.channel.delivery_count'',
         ''runtime.channel.drop_count'', ''runtime.channel.deadline_miss_count'', ''runtime.channel.stale_drop_count'',
         ''runtime.channel.reject_count'', ''runtime.channel.overwrite_count'', ''runtime.channel.health_event_count'',
         ''runtime.channel.payload_copy_count''],
      add_descriptors ''gauge'' ''count'' [''channel_id''] ''bounded: graph channel/edge id'' ''stable-v0.2'' [''runtime.channel.max_depth''],
      add_descriptors ''gauge'' ''ms'' [''channel_id''] ''bounded: graph channel/edge id'' ''stable-v0.2'' [''runtime.channel.message_age_ms''],
      add_descriptors ''counter'' ''count'' [''component_id''] ''bounded: graph component id'' ''stable-v0.2''
        [''runtime.component.execution_count'', ''runtime.component.error_count'', ''runtime.component.budget_overrun_count'',
         ''runtime.component.cancellation_requested_count'', ''runtime.component.cancellation_observed_count'',
         ''runtime.component.timeout_budget_exceeded_count''],
      add_descriptors ''gauge'' ''ns'' [''component_id''] ''bounded: graph component id'' ''stable-v0.2''
        [''runtime.component.last_duration_ns'', ''runtime.component.max_duration_ns''],
      add_descriptors ''gauge'' ''count'' [''component_id''] ''bounded: graph component id'' ''stable-v0.2''
        [''runtime.component.max_in_flight_count''],
      add_descriptors ''counter'' ''count'' [''component_id''] ''bounded: graph component id'' ''stable-v0.2''
        [''runtime.trigger.ready_count'', ''runtime.trigger.suppressed_count'', ''runtime.trigger.coalesced_count'',
         ''runtime.trigger.timeout_drop_count'', ''runtime.trigger.batch_flush_count'', ''runtime.trigger.time_sync_drop_count'',
         ''runtime.trigger.late_drop_count'', ''runtime.trigger.pending_drop_count'', ''runtime.trigger.condition_suppressed_count'',
         ''runtime.trigger.rate_limit_suppressed_count''],
      add_descriptors ''counter'' ''count'' [''component_id''] ''bounded: composite loop id in component_id'' ''stable-v0.2''
        [''runtime.loop.iterations'', ''runtime.loop.converged'', ''runtime.loop.budget_overrun'', ''runtime.loop.max_iterations_hit'',
         ''runtime.loop.error'', ''runtime.loop.cancellation_requested'', ''runtime.loop.cancellation_observed'',
         ''runtime.loop.output_discarded''],
      add_descriptors ''gauge'' ''residual'' [''component_id''] ''bounded: composite loop id in component_id'' ''experimental''
        [''runtime.loop.residual''],
      add_descriptors ''counter'' ''count'' [] ''none'' ''stable-v0.2''
        [''runtime.publication.staged'', ''runtime.publication.committed'', ''runtime.publication.delayed'', ''runtime.publication.state'',
         ''runtime.publication.state_committed'', ''runtime.publication.async'', ''runtime.publication.failed_commit'',
         ''runtime.async.accepted_count'', ''runtime.async.rejected_count'', ''runtime.async.dropped_count'',
         ''runtime.async.overwrite_count'', ''runtime.async.completed_count'', ''runtime.async.cancelled_count'',
         ''runtime.publication.composite_discarded''],
      add_descriptors ''gauge'' ''count'' [] ''none'' ''stable-v0.2'' [''runtime.async.in_flight_count'', ''runtime.async.max_in_flight_count''],
      add_descriptors ''counter'' ''count'' [] ''none'' ''stable-v0.2''
        [''runtime.health.event_count'', ''runtime.health.dropped_count'', ''runtime.health.coalesced_count''],
      add_descriptors ''counter'' ''count'' [] ''none'' ''experimental''
        [''runtime.state.staged_write_count'', ''runtime.state.committed_write_count'', ''runtime.state.rejected_write_count'',
         ''runtime.state.snapshot_read_count''],
      add_descriptors ''gauge'' ''count'' [] ''none'' ''experimental'' [''runtime.state.current_value_count''],
      add_descriptors ''gauge'' ''version'' [] ''none'' ''experimental'' [''runtime.config.version''],
      add_descriptors ''gauge'' ''id'' [] ''none'' ''experimental'' [''runtime.config.last_transaction_id''],
      add_descriptors ''counter'' ''count'' [] ''none'' ''experimental''
        [''runtime.config.staged_update_count'', ''runtime.config.committed_update_count'', ''runtime.config.immediate_update_count'',
         ''runtime.config.rejected_update_count'', ''runtime.config.rolled_back_update_count'', ''runtime.config.snapshot_read_count''],
      add_descriptors ''counter'' ''count'' [] ''none'' ''experimental''
        [''runtime.lifecycle.reset_count'', ''runtime.lifecycle.reset_failure_count'', ''runtime.lifecycle.restore_count'',
         ''runtime.lifecycle.restore_failure_count'', ''runtime.lifecycle.snapshot_count'', ''runtime.lifecycle.snapshot_failure_count''],
      add_descriptors ''counter'' ''bytes'' [] ''none'' ''experimental'' [''runtime.lifecycle.snapshot_size_bytes''],
      add_descriptors ''gauge'' ''count'' [] ''none'' ''stable-v0.2'' [''runtime.trace.event_count''],
      add_descriptors ''counter'' ''count'' [] ''none'' ''stable-v0.2''
        [''runtime.observer.failure_count'', ''runtime.observer.dropped_event_count'']]"

definition find_runtime_metric_descriptor :: "string \<Rightarrow> runtime_metric_descriptor option" where
  "find_runtime_metric_descriptor name = find (\<lambda>d. md_name d = name) runtime_metric_descriptors"

definition has_label :: "runtime_metric_descriptor \<Rightarrow> string \<Rightarrow> bool" where
  "has_label d label \<longleftrightarrow> label \<in> set (md_labels d)"

definition is_forbidden_default_label :: "string \<Rightarrow> bool" where
  "is_forbidden_default_label label \<longleftrightarrow>
     label \<in> {''correlation_id'', ''causation_id'', ''transaction_id'', ''trace_id'', ''request_id''}"

section \<open>Validation\<close>

record schema_validation =
  sv_ok :: bool
  sv_errors :: "string list"

definition sv_error :: "string \<Rightarrow> schema_validation \<Rightarrow> schema_validation" where
  "sv_error msg r = r\<lparr>sv_ok := False, sv_errors := sv_errors r @ [msg]\<rparr>"

definition sv_error_if :: "bool \<Rightarrow> string \<Rightarrow> schema_validation \<Rightarrow> schema_validation" where
  "sv_error_if b msg r = (if b then sv_error msg r else r)"

fun check_descriptors :: "runtime_metric_descriptor list \<Rightarrow> string list \<Rightarrow> schema_validation \<Rightarrow> schema_validation" where
  "check_descriptors [] seen r = r"
| "check_descriptors (d # ds) seen r =
     check_descriptors ds (md_name d # seen)
       (fold (\<lambda>label. sv_error_if (is_forbidden_default_label label)
                         (''metric descriptor uses forbidden default label '' @ label @ '': '' @ md_name d)) (md_labels d)
          (sv_error_if (md_name d \<in> set seen) (''duplicate metric descriptor: '' @ md_name d) r))"

definition check_tag :: "runtime_metric_sample \<Rightarrow> runtime_metric_descriptor \<Rightarrow> string \<Rightarrow> schema_validation \<Rightarrow> schema_validation" where
  "check_tag m d tag r =
     (if is_forbidden_default_label tag then sv_error (''metric '' @ ms_name m @ '' uses forbidden default tag '' @ tag) r
      else sv_error_if (\<not> has_label d tag) (''metric '' @ ms_name m @ '' uses undeclared tag '' @ tag) r)"

definition check_sample :: "runtime_metric_sample \<Rightarrow> schema_validation \<Rightarrow> schema_validation" where
  "check_sample m r =
     (case find_runtime_metric_descriptor (ms_name m) of
        None \<Rightarrow> sv_error_if (starts_with ''runtime.'' (ms_name m)) (''missing metric descriptor: '' @ ms_name m) r
      | Some d \<Rightarrow>
          (let r1 = sv_error_if (ms_component_id m \<noteq> [] \<and> \<not> has_label d ''component_id'')
                      (''metric '' @ ms_name m @ '' has unexpected component_id label'') r;
               r2 = sv_error_if (ms_lane m \<noteq> [] \<and> \<not> has_label d ''lane'') (''metric '' @ ms_name m @ '' has unexpected lane label'') r1;
               r3 = sv_error_if (ms_channel_id m \<noteq> [] \<and> \<not> has_label d ''channel_id'')
                      (''metric '' @ ms_name m @ '' has unexpected channel_id label'') r2
           in fold (check_tag m d) (ms_tags m) r3))"

definition validate_runtime_metric_samples :: "runtime_metric_sample list \<Rightarrow> schema_validation" where
  "validate_runtime_metric_samples ms =
     fold check_sample ms (check_descriptors runtime_metric_descriptors [] \<lparr>sv_ok = True, sv_errors = []\<rparr>)"

section \<open>What the schema accepts\<close>

definition sample_conforms :: "runtime_metric_sample \<Rightarrow> bool" where
  "sample_conforms m \<longleftrightarrow>
     (case find_runtime_metric_descriptor (ms_name m) of
        None \<Rightarrow> \<not> starts_with ''runtime.'' (ms_name m)
      | Some d \<Rightarrow> (ms_component_id m \<noteq> [] \<longrightarrow> has_label d ''component_id'') \<and> (ms_lane m \<noteq> [] \<longrightarrow> has_label d ''lane'') \<and>
          (ms_channel_id m \<noteq> [] \<longrightarrow> has_label d ''channel_id'') \<and>
          (\<forall>t \<in> set (ms_tags m). has_label d t \<and> \<not> is_forbidden_default_label t))"

text \<open>The names differ already in their lengths and three of their characters.\<close>

definition name_key :: "string \<Rightarrow> nat \<times> string \<times> string \<times> string" where
  "name_key s = (length s, take 1 (drop 21 s), take 1 (drop 15 s), take 1 (drop 8 s))"

lemma distinct_map_through: "distinct (map g (map f xs)) \<Longrightarrow> distinct (map f xs)"
  by (auto simp: distinct_map intro: inj_on_imageI2)

lemma descriptor_names_distinct: "distinct (map md_name runtime_metric_descriptors)"
  by (rule distinct_map_through [where g = name_key]) code_simp

lemma find_descriptor: "distinct (map md_name ds) \<Longrightarrow> d \<in> set ds \<Longrightarrow> find (\<lambda>x. md_name x = md_name d) ds = Some d"
  by (induction ds) (auto simp: image_iff)

lemma descriptors_clean: "check_descriptors runtime_metric_descriptors [] r = r"
proof -
  have "check_descriptors ds seen r = r"
    if "distinct (map md_name ds)" "set (map md_name ds) \<inter> set seen = {}" "list_all (\<lambda>d. list_all (\<lambda>l. \<not> is_forbidden_default_label l) (md_labels d)) ds"
    for ds seen
    using that
  proof (induction ds arbitrary: seen)
    case (Cons d ds)
    have "fold (\<lambda>label. sv_error_if (is_forbidden_default_label label) (f label)) ls r = r"
      if "list_all (\<lambda>l. \<not> is_forbidden_default_label l) ls" for ls f
      using that by (induction ls) (simp_all add: sv_error_if_def)
    with Cons show ?case by (auto simp: sv_error_if_def)
  qed simp
  moreover note descriptor_names_distinct
  moreover have "list_all (\<lambda>d. list_all (\<lambda>l. \<not> is_forbidden_default_label l) (md_labels d)) runtime_metric_descriptors" by code_simp
  ultimately show ?thesis by simp
qed

lemma sv_error_if_ok [simp]: "sv_ok (sv_error_if b msg r) \<longleftrightarrow> sv_ok r \<and> \<not> b" "sv_ok (sv_error msg r) = False"
  by (simp_all add: sv_error_if_def sv_error_def)

lemma check_tags_ok:
  "sv_ok (fold (check_tag m d) ts r) \<longleftrightarrow> sv_ok r \<and> (\<forall>t \<in> set ts. has_label d t \<and> \<not> is_forbidden_default_label t)"
  by (induction ts arbitrary: r) (auto simp: check_tag_def)

lemma check_sample_ok: "sv_ok (check_sample m r) \<longleftrightarrow> sv_ok r \<and> sample_conforms m"
  by (auto simp: check_sample_def sample_conforms_def check_tags_ok Let_def split: option.splits)

lemma schema_accepts: "sv_ok (validate_runtime_metric_samples ms) \<longleftrightarrow> list_all sample_conforms ms"
proof -
  have "sv_ok (fold check_sample ms r) \<longleftrightarrow> sv_ok r \<and> list_all sample_conforms ms" for r
    by (induction ms arbitrary: r) (auto simp: check_sample_ok)
  then show ?thesis by (simp add: validate_runtime_metric_samples_def descriptors_clean)
qed

end
