(* ===== verification/Prometheus.thy ===== *)
theory Prometheus
  imports Metric_Schema Component_Context
begin

text \<open>
  The Prometheus text exporter (\<^verbatim>\<open>include/topoexec/adapters/prometheus.hpp\<close>): an observer that keeps a bounded number of samples and
  renders them in the text exposition format. \<open>fmt\<close> is how \<^verbatim>\<open>std::ostringstream\<close> prints a finite double, \<open>mul\<close> the product of two
  doubles.
\<close>

section \<open>Collecting samples\<close>

record text_exporter =
  px_capacity :: nat
  px_fail_on_unknown_metric :: bool
  px_metrics :: "runtime_metric_sample list"
  px_dropped_event_count :: nat
  px_failure_count :: nat

definition make_text_exporter :: "nat \<Rightarrow> bool \<Rightarrow> text_exporter" where
  "make_text_exporter capacity fail_unknown =
     \<lparr>px_capacity = capacity, px_fail_on_unknown_metric = fail_unknown, px_metrics = [], px_dropped_event_count = 0, px_failure_count = 0\<rparr>"

definition px_ends_with :: "string \<Rightarrow> string \<Rightarrow> bool" where
  "px_ends_with v suf \<longleftrightarrow> length v \<ge> length suf \<and> drop (length v - length suf) v = suf"

definition histogram_suffixes :: "string list" where
  "histogram_suffixes = [''.count'', ''.min'', ''.max'', ''.avg'', ''.p50'', ''.p95'', ''.p99'']"

text \<open>The base name and the part of a histogram sample; \<open>None\<close> when the name has no histogram suffix or is nothing else.\<close>

definition parse_histogram_summary :: "string \<Rightarrow> (string \<times> string) option" where
  "parse_histogram_summary name =
     (case find (px_ends_with name) histogram_suffixes of
        None \<Rightarrow> None
      | Some suf \<Rightarrow> (let base = take (length name - length suf) name in if base = [] then None else Some (base, tl suf)))"

definition validate_descriptor_labels :: "runtime_metric_descriptor \<Rightarrow> runtime_metric_sample \<Rightarrow> status" where
  "validate_descriptor_labels d m =
     (if ms_component_id m \<noteq> [] \<and> \<not> has_label d ''component_id''
      then StatusError (''metric '' @ ms_name m @ '' has unexpected component_id label'')
      else if ms_lane m \<noteq> [] \<and> \<not> has_label d ''lane'' then StatusError (''metric '' @ ms_name m @ '' has unexpected lane label'')
      else if ms_channel_id m \<noteq> [] \<and> \<not> has_label d ''channel_id''
      then StatusError (''metric '' @ ms_name m @ '' has unexpected channel_id label'')
      else Success)"

definition px_push_bounded :: "runtime_metric_sample \<Rightarrow> text_exporter \<Rightarrow> text_exporter" where
  "px_push_bounded m x =
     (if length (px_metrics x) \<ge> px_capacity x then x\<lparr>px_dropped_event_count := px_dropped_event_count x + 1\<rparr>
      else x\<lparr>px_metrics := px_metrics x @ [m]\<rparr>)"

definition px_fail :: "text_exporter \<Rightarrow> text_exporter" where
  "px_fail x = x\<lparr>px_failure_count := px_failure_count x + 1\<rparr>"

definition px_on_metric :: "runtime_metric_sample \<Rightarrow> text_exporter \<Rightarrow> status \<times> text_exporter" where
  "px_on_metric m x =
     (case find_runtime_metric_descriptor (ms_name m) of
        None \<Rightarrow>
          if parse_histogram_summary (ms_name m) = None
          then (if px_fail_on_unknown_metric x then (StatusError (''unknown runtime metric descriptor: '' @ ms_name m), px_fail x)
                else (Success, px_push_bounded m (px_fail x)))
          else (Success, px_push_bounded m x)
      | Some d \<Rightarrow>
          (case validate_descriptor_labels d m of
             StatusError msg \<Rightarrow> (StatusError msg, px_fail x)
           | Success \<Rightarrow> (Success, px_push_bounded m x)))"

fun px_export :: "runtime_metric_sample list \<Rightarrow> text_exporter \<Rightarrow> status \<times> text_exporter" where
  "px_export [] x = (Success, x)"
| "px_export (m # ms) x =
     (case px_on_metric m x of (Success, x1) \<Rightarrow> px_export ms x1 | (StatusError msg, x1) \<Rightarrow> (StatusError msg, x1))"

definition px_clear :: "text_exporter \<Rightarrow> text_exporter" where
  "px_clear x = x\<lparr>px_metrics := [], px_dropped_event_count := 0, px_failure_count := 0\<rparr>"

section \<open>Names, labels and values\<close>

definition is_digit_char :: "char \<Rightarrow> bool" where
  "is_digit_char c \<longleftrightarrow> (48::nat) \<le> of_char c \<and> of_char c \<le> (57::nat)"

definition is_alnum_char :: "char \<Rightarrow> bool" where
  "is_alnum_char c \<longleftrightarrow> is_digit_char c \<or> (65::nat) \<le> of_char c \<and> of_char c \<le> (90::nat) \<or> (97::nat) \<le> of_char c \<and> of_char c \<le> (122::nat)"

definition sanitize_name :: "string \<Rightarrow> string" where
  "sanitize_name name =
     (let r = map (\<lambda>c. if is_alnum_char c \<or> c = CHR ''_'' \<or> c = CHR '':'' then c else CHR ''_'') name
      in if r = [] \<or> is_digit_char (hd r) then CHR ''_'' # r else r)"

definition prometheus_sample_name :: "runtime_metric_descriptor \<Rightarrow> string" where
  "prometheus_sample_name d =
     (let name = sanitize_name (md_name d)
      in if md_kind d = ''counter'' \<and> \<not> px_ends_with name ''_total'' then name @ ''_total'' else name)"

definition prometheus_type :: "runtime_metric_descriptor \<Rightarrow> string" where
  "prometheus_type d =
     (if md_kind d = ''counter'' then ''counter'' else if md_kind d = ''histogram'' then ''histogram'' else ''gauge'')"

definition escape_char :: "char \<Rightarrow> string" where
  "escape_char c =
     (if c = CHR 0x5C \<or> c = CHR 0x22 then [CHR 0x5C, c]
      else if c = CHR 0x0A then [CHR 0x5C, CHR ''n'']
      else if c = CHR 0x0D then [CHR 0x5C, CHR ''r'']
      else [c])"

definition escape_label_value :: "string \<Rightarrow> string" where
  "escape_label_value v = concat (map escape_char v)"

fun format_value :: "(rat \<Rightarrow> string) \<Rightarrow> fp \<Rightarrow> string" where
  "format_value fmt NotANumber = ''NaN''"
| "format_value fmt PosInf = ''+Inf''"
| "format_value fmt NegInf = ''-Inf''"
| "format_value fmt (Finite q) = fmt q"

definition descriptor_labels :: "runtime_metric_descriptor \<Rightarrow> runtime_metric_sample \<Rightarrow> (string, string) smap" where
  "descriptor_labels d m =
     (let put = (\<lambda>label v ls. if has_label d label \<and> v \<noteq> [] then smap_put label v ls else ls)
      in put ''channel_id'' (ms_channel_id m) (put ''lane'' (ms_lane m) (put ''component_id'' (ms_component_id m) [])))"

fun render_pairs :: "(string \<times> string) list \<Rightarrow> string" where
  "render_pairs [] = []"
| "render_pairs [(k, v)] = k @ [CHR ''='', CHR 0x22] @ escape_label_value v @ [CHR 0x22]"
| "render_pairs ((k, v) # ls) = k @ [CHR ''='', CHR 0x22] @ escape_label_value v @ [CHR 0x22, CHR '',''] @ render_pairs ls"

definition render_labels :: "(string, string) smap \<Rightarrow> string" where
  "render_labels ls = (if ls = [] then [] else ''{'' @ render_pairs ls @ ''}'')"

section \<open>The text\<close>

definition newline :: string where
  "newline = [CHR 0x0A]"

text \<open>The text so far and the names whose header has been written.\<close>

type_synonym rendering = "string \<times> string list"

definition render_header :: "string \<Rightarrow> string \<Rightarrow> string \<Rightarrow> rendering \<Rightarrow> rendering" where
  "render_header name ty help out =
     (if name \<in> set (snd out) then out
      else (fst out @ ''# HELP '' @ name @ '' '' @ help @ newline @ ''# TYPE '' @ name @ '' '' @ ty @ newline, name # snd out))"

definition write_text :: "string \<Rightarrow> rendering \<Rightarrow> rendering" where
  "write_text t out = (fst out @ t, snd out)"

definition sample_line :: "(rat \<Rightarrow> string) \<Rightarrow> runtime_metric_descriptor \<Rightarrow> runtime_metric_sample \<Rightarrow> string" where
  "sample_line fmt d m =
     prometheus_sample_name d @ render_labels (descriptor_labels d m) @ '' '' @ format_value fmt (ms_value m) @ newline"

definition render_descriptor_sample ::
    "(rat \<Rightarrow> string) \<Rightarrow> runtime_metric_descriptor \<Rightarrow> runtime_metric_sample \<Rightarrow> rendering \<Rightarrow> rendering" where
  "render_descriptor_sample fmt d m out =
     write_text (sample_line fmt d m)
       (render_header (prometheus_sample_name d) (prometheus_type d) (''TopoExec runtime metric '' @ md_name d) out)"

definition render_optional_gauge :: "(rat \<Rightarrow> string) \<Rightarrow> string \<Rightarrow> string \<Rightarrow> fp option \<Rightarrow> rendering \<Rightarrow> rendering" where
  "render_optional_gauge fmt base suf v out =
     (case v of
        None \<Rightarrow> out
      | Some x \<Rightarrow>
          (let name = base @ ''_'' @ suf
           in write_text (name @ '' '' @ format_value fmt x @ newline)
                (render_header name ''gauge'' (''TopoExec custom histogram '' @ suf) out)))"

definition render_quantile :: "(rat \<Rightarrow> string) \<Rightarrow> string \<Rightarrow> string \<Rightarrow> fp option \<Rightarrow> rendering \<Rightarrow> rendering" where
  "render_quantile fmt name quantile v out =
     (case v of
        None \<Rightarrow> out
      | Some x \<Rightarrow> write_text (name @ ''{quantile='' @ [CHR 0x22] @ quantile @ [CHR 0x22] @ ''} '' @ format_value fmt x @ newline) out)"

text \<open>The observed parts of a histogram, by name; a part that is observed again is replaced.\<close>

type_synonym histogram_summary = "(string, fp) smap"

definition render_histogram_summary ::
    "(rat \<Rightarrow> string) \<Rightarrow> (fp \<Rightarrow> fp \<Rightarrow> fp) \<Rightarrow> string \<Rightarrow> histogram_summary \<Rightarrow> rendering \<Rightarrow> rendering" where
  "render_histogram_summary fmt mul raw h out =
     (let name = sanitize_name raw;
          o1 = render_header name ''summary'' (''TopoExec custom histogram summary '' @ raw) out;
          o2 = (case map_of h ''count'' of
                  None \<Rightarrow> o1
                | Some n \<Rightarrow>
                    (let o2 = write_text (name @ ''_count '' @ format_value fmt n @ newline) o1
                     in case map_of h ''avg'' of
                          None \<Rightarrow> o2
                        | Some a \<Rightarrow> write_text (name @ ''_sum '' @ format_value fmt (mul a n) @ newline) o2))
      in render_optional_gauge fmt name ''avg'' (map_of h ''avg'')
           (render_optional_gauge fmt name ''max'' (map_of h ''max'')
              (render_optional_gauge fmt name ''min'' (map_of h ''min'')
                 (render_quantile fmt name ''0.99'' (map_of h ''p99'')
                    (render_quantile fmt name ''0.95'' (map_of h ''p95'') (render_quantile fmt name ''0.5'' (map_of h ''p50'') o2))))))"

fun render_samples ::
    "(rat \<Rightarrow> string) \<Rightarrow> runtime_metric_sample list \<Rightarrow> rendering \<times> (string, histogram_summary) smap \<Rightarrow> rendering \<times> (string, histogram_summary) smap" where
  "render_samples fmt [] s = s"
| "render_samples fmt (m # ms) (out, hs) =
     render_samples fmt ms
       (case find_runtime_metric_descriptor (ms_name m) of
          Some d \<Rightarrow> (render_descriptor_sample fmt d m out, hs)
        | None \<Rightarrow>
            (case parse_histogram_summary (ms_name m) of
               None \<Rightarrow> (out, hs)
             | Some (base, part) \<Rightarrow> (out, smap_put base (smap_put part (ms_value m) (smap_get [] hs base)) hs)))"

definition render_text :: "(rat \<Rightarrow> string) \<Rightarrow> (fp \<Rightarrow> fp \<Rightarrow> fp) \<Rightarrow> text_exporter \<Rightarrow> string" where
  "render_text fmt mul x =
     (let (out, hs) = render_samples fmt (px_metrics x) (([], []), [])
      in fst (fold (\<lambda>(base, h). render_histogram_summary fmt mul base h) hs out))"

section \<open>Reading the text\<close>

text \<open>
  A reader of sample lines after the Prometheus text exposition format (version 0.0.4): a name, optional labels in braces, a value up to
  the end of the line. In a quoted label value the format defines three escape sequences, for the backslash, the double quote and
  the line feed; a reader that keeps to it refuses every other one. The reader is written after the format, not after the exporter.
\<close>

definition exposition_escape :: "char \<Rightarrow> char option" where
  "exposition_escape e =
     (if e = CHR 0x5C then Some (CHR 0x5C)
      else if e = CHR 0x22 then Some (CHR 0x22)
      else if e = CHR ''n'' then Some (CHR 0x0A)
      else None)"

fun read_quoted :: "string \<Rightarrow> (string \<times> string) option" where
  "read_quoted [] = None"
| "read_quoted (c # cs) =
     (if c = CHR 0x22 then Some ([], cs)
      else if c = CHR 0x5C
      then (case cs of
              [] \<Rightarrow> None
            | e # es \<Rightarrow>
                (case exposition_escape e of
                   None \<Rightarrow> None
                 | Some d \<Rightarrow> map_option (apfst (Cons d)) (read_quoted es)))
      else map_option (apfst (Cons c)) (read_quoted cs))"

lemma read_quoted_length: "read_quoted s = Some (v, rest) \<Longrightarrow> length rest < length s"
  by (induction s arbitrary: v rest rule: read_quoted.induct) (fastforce split: if_splits list.splits option.splits)+

function read_pairs :: "string \<Rightarrow> ((string \<times> string) list \<times> string) option" where
  "read_pairs s =
     (case dropWhile (\<lambda>c. c \<noteq> CHR ''='') s of
        e # q # t \<Rightarrow>
          if q \<noteq> CHR 0x22 then None
          else (case read_quoted t of
                  None \<Rightarrow> None
                | Some (v, u) \<Rightarrow>
                    let p = (takeWhile (\<lambda>c. c \<noteq> CHR ''='') s, v)
                    in (case u of
                          [] \<Rightarrow> None
                        | c # rest \<Rightarrow>
                            if c = CHR 0x7D then Some ([p], rest)
                            else if c = CHR 0x2C then map_option (apfst (Cons p)) (read_pairs rest)
                            else None))
      | _ \<Rightarrow> None)"
  by pat_completeness auto

termination
proof (relation "measure length", simp)
  fix s e t' q t z v u c rest
  assume "dropWhile (\<lambda>c. c \<noteq> CHR ''='') s = e # t'" "t' = q # t" "read_quoted t = Some z" "(v, u) = z" "u = c # rest"
  then show "(rest, s) \<in> measure length"
    using read_quoted_length [of t v u] length_dropWhile_le [of "\<lambda>c. c \<noteq> CHR ''=''" s] by auto
qed

declare read_pairs.simps [simp del]

definition read_value :: "string \<Rightarrow> string option" where
  "read_value s = (if dropWhile (\<lambda>c. c \<noteq> CHR 0x0A) s = newline then Some (takeWhile (\<lambda>c. c \<noteq> CHR 0x0A) s) else None)"

definition read_sample :: "string \<Rightarrow> (string \<times> (string \<times> string) list \<times> string) option" where
  "read_sample s =
     (let inside = (\<lambda>c. c \<noteq> CHR '' '' \<and> c \<noteq> CHR 0x7B); name = takeWhile inside s
      in case dropWhile inside s of
           [] \<Rightarrow> None
         | c # t \<Rightarrow>
             if c = CHR '' '' then map_option (\<lambda>v. (name, [], v)) (read_value t)
             else (case read_pairs t of
                     Some (ls, d # u) \<Rightarrow> if d = CHR '' '' then map_option (\<lambda>v. (name, ls, v)) (read_value u) else None
                   | _ \<Rightarrow> None))"

text \<open>The exporter writes a carriage return as an escape sequence of its own, which the format does not have.\<close>

lemma read_quoted_escape:
  "read_quoted (escape_label_value v @ CHR 0x22 # rest) = (if CHR 0x0D \<in> set v then None else Some (v, rest))"
  by (induction v) (auto simp: escape_label_value_def escape_char_def exposition_escape_def)

lemma span_until:
  assumes "c \<notin> set xs"
  shows "dropWhile (\<lambda>x. x \<noteq> c) (xs @ c # ys) = c # ys" and "takeWhile (\<lambda>x. x \<noteq> c) (xs @ c # ys) = xs"
  using assms by (induction xs) auto

lemma read_pairs_render:
  assumes "ls \<noteq> []" and "\<forall>(k, v) \<in> set ls. CHR ''='' \<notin> set k"
  shows "read_pairs (render_pairs ls @ CHR 0x7D # rest) =
    (if \<exists>(k, v) \<in> set ls. CHR 0x0D \<in> set v then None else Some (ls, rest))"
  using assms
proof (induction ls rule: render_pairs.induct)
  case (2 k v)
  then have "CHR ''='' \<notin> set k" by simp
  then show ?case by (subst read_pairs.simps) (simp add: span_until read_quoted_escape)
next
  case (3 k v l ls)
  then have "CHR ''='' \<notin> set k" by simp
  with 3 show ?case by (subst read_pairs.simps) (simp add: span_until read_quoted_escape)
qed simp

lemma descriptor_labels_keys: "fst ` set (descriptor_labels d m) \<subseteq> {''component_id'', ''lane'', ''channel_id''}"
  by (auto simp: descriptor_labels_def Let_def keys_smap_put)

lemma sanitized_plain: "\<forall>c \<in> set (sanitize_name s). is_alnum_char c \<or> c = CHR ''_'' \<or> c = CHR '':''"
  by (auto simp: sanitize_name_def Let_def)

lemma sample_name_plain: "c \<in> set (prometheus_sample_name d) \<Longrightarrow> c \<noteq> CHR '' '' \<and> c \<noteq> CHR 0x7B \<and> c \<noteq> CHR 0x0A"
  using sanitized_plain [of "md_name d"]
  by (auto simp: prometheus_sample_name_def Let_def is_alnum_char_def is_digit_char_def split: if_splits)

lemma read_value_line: "CHR 0x0A \<notin> set v \<Longrightarrow> read_value (v @ newline) = Some v"
  using span_until [of "CHR 0x0A" v "[]"] by (simp add: read_value_def newline_def)

lemma format_value_line:
  assumes "\<forall>q. CHR 0x0A \<notin> set (fmt q)"
  shows "CHR 0x0A \<notin> set (format_value fmt x)"
  using assms by (cases x) auto

lemma takeWhile_all_append: "\<forall>x \<in> set xs. P x \<Longrightarrow> \<not> P y \<Longrightarrow> takeWhile P (xs @ y # ys) = xs \<and> dropWhile P (xs @ y # ys) = y # ys"
  by (induction xs) auto

text \<open>
  C27. The line of a sample is one line of the exposition format, whatever quotes, backslashes and line feeds its ids contain: a reader
  that keeps to the format recovers exactly the name, the labels and the value text, unless a label value contains a carriage return. The
  exporter writes that one as an escape sequence that the format does not define, and such a reader refuses the line. (The
  standard library prints no line end in a number.)
\<close>

theorem sample_line_roundtrip:
  assumes "\<forall>q. CHR 0x0A \<notin> set (fmt q)"
  shows "read_sample (sample_line fmt d m) =
    (if \<exists>(k, v) \<in> set (descriptor_labels d m). CHR 0x0D \<in> set v then None
     else Some (prometheus_sample_name d, descriptor_labels d m, format_value fmt (ms_value m)))"
proof -
  let ?n = "prometheus_sample_name d" and ?v = "format_value fmt (ms_value m)" and ?ls = "descriptor_labels d m"
  let ?in = "\<lambda>c. c \<noteq> CHR '' '' \<and> c \<noteq> CHR 0x7B"
  have name: "takeWhile ?in (?n @ y # ys) = ?n \<and> dropWhile ?in (?n @ y # ys) = y # ys" if "y = CHR '' '' \<or> y = CHR 0x7B" for y ys
    by (rule takeWhile_all_append) (use that sample_name_plain [of _ d] in auto)
  have v: "read_value (?v @ newline) = Some ?v" by (rule read_value_line [OF format_value_line [OF assms]])
  have keys: "\<forall>(k, v) \<in> set ?ls. CHR ''='' \<notin> set k" using descriptor_labels_keys [of d m] by fastforce
  show ?thesis
  proof (cases "?ls = []")
    case True
    then have "sample_line fmt d m = ?n @ CHR '' '' # ?v @ newline" by (simp add: sample_line_def render_labels_def)
    with name [of "CHR '' ''" "?v @ newline"] v True show ?thesis by (simp add: read_sample_def Let_def)
  next
    case False
    then have "sample_line fmt d m = ?n @ CHR 0x7B # render_pairs ?ls @ CHR 0x7D # CHR '' '' # ?v @ newline"
      by (simp add: sample_line_def render_labels_def)
    with name [of "CHR 0x7B" "render_pairs ?ls @ CHR 0x7D # CHR '' '' # ?v @ newline"] v read_pairs_render [OF False keys]
    show ?thesis by (simp add: read_sample_def Let_def)
  qed
qed

section \<open>Bounds of the exporter\<close>

definition exportable :: "bool \<Rightarrow> runtime_metric_sample \<Rightarrow> bool" where
  "exportable fail_unknown m \<longleftrightarrow>
     (case find_runtime_metric_descriptor (ms_name m) of
        None \<Rightarrow> parse_histogram_summary (ms_name m) \<noteq> None \<or> \<not> fail_unknown
      | Some d \<Rightarrow> status_ok (validate_descriptor_labels d m))"

text \<open>A sample that conforms to the schema and has a descriptor is exported.\<close>

lemma conforming_exportable:
  assumes "sample_conforms m" and "find_runtime_metric_descriptor (ms_name m) \<noteq> None"
  shows "exportable b m"
  using assms by (auto simp: sample_conforms_def exportable_def validate_descriptor_labels_def split: option.splits)

lemma px_on_metric_status: "status_ok (fst (px_on_metric m x)) = exportable (px_fail_on_unknown_metric x) m"
  by (auto simp: px_on_metric_def exportable_def split: option.splits status.splits)

lemma px_on_metric_effect:
  "px_capacity (snd (px_on_metric m x)) = px_capacity x \<and> px_fail_on_unknown_metric (snd (px_on_metric m x)) = px_fail_on_unknown_metric x \<and>
   (if exportable (px_fail_on_unknown_metric x) m
    then px_metrics (snd (px_on_metric m x)) = px_metrics x @ (if length (px_metrics x) < px_capacity x then [m] else []) \<and>
      px_dropped_event_count (snd (px_on_metric m x)) = px_dropped_event_count x + (if length (px_metrics x) < px_capacity x then 0 else 1)
    else px_metrics (snd (px_on_metric m x)) = px_metrics x \<and> px_dropped_event_count (snd (px_on_metric m x)) = px_dropped_event_count x \<and>
      px_failure_count (snd (px_on_metric m x)) = px_failure_count x + 1)"
  by (auto simp: px_on_metric_def exportable_def px_push_bounded_def px_fail_def split: option.splits status.splits)

lemma exporter_bounded:
  "let x = fold (\<lambda>m x. snd (px_on_metric m x)) ms (make_text_exporter cap b); good = filter (exportable b) ms
   in px_metrics x = take cap good \<and> px_dropped_event_count x = length good - cap \<and> px_capacity x = cap \<and> px_fail_on_unknown_metric x = b"
proof (induction ms rule: rev_induct)
  case (snoc m ms)
  let ?x = "fold (\<lambda>m x. snd (px_on_metric m x)) ms (make_text_exporter cap b)"
  show ?case using snoc px_on_metric_effect [of m ?x] by (auto simp: Let_def)
qed (simp add: make_text_exporter_def)

theorem sample_line_roundtrip_witness:
  "\<exists>d m m'. read_sample (sample_line (\<lambda>_. ''1'') d m) =
       Some (''runtime_loop_error_total'', [(''component_id'', [CHR 0x22, CHR 0x0A, CHR 0x5C])], ''1'') \<and>
     read_sample (sample_line (\<lambda>_. ''1'') d m') = None"
proof -
  let ?d = "\<lparr>md_name = ''runtime.loop.error'', md_kind = ''counter'', md_unit = ''count'', md_labels = [''component_id''], md_cardinality = [],
    md_stability = [], md_description = []\<rparr>"
  let ?m = "\<lambda>cid. \<lparr>ms_name = ''runtime.loop.error'', ms_value = Finite 1, ms_component_id = cid, ms_lane = [], ms_channel_id = [],
    ms_tags = []\<rparr>"
  let ?good = "?m [CHR 0x22, CHR 0x0A, CHR 0x5C]" and ?bad = "?m [CHR 0x0D]"
  have "prometheus_sample_name ?d = ''runtime_loop_error_total''"
    and "descriptor_labels ?d ?good = [(''component_id'', [CHR 0x22, CHR 0x0A, CHR 0x5C])]"
    and "descriptor_labels ?d ?bad = [(''component_id'', [CHR 0x0D])]"
    by code_simp+
  with sample_line_roundtrip [of "\<lambda>_. ''1''" ?d ?good] sample_line_roundtrip [of "\<lambda>_. ''1''" ?d ?bad]
  show ?thesis by (intro exI [of _ ?d] exI [of _ ?good] exI [of _ ?bad]) simp
qed

end
