(* ===== verification/Runtime_Runner.thy ===== *)
theory Runtime_Runner
  imports Event_Runtime Graph_Validate Live_Observe
begin

text \<open>
  The runtime runner (\<^verbatim>\<open>src/runtime_runner.cpp\<close>): it validates a graph, creates and starts its components, restores and resets them, runs the
  event runtime, takes snapshots, stops the components and collects metrics, errors, trace and live events in one result.

  \<^item> User code is the \<open>runner_environment\<close>: what creating, configuring, activating, restoring, resetting, snapshotting and deactivating a
    component answers, what the observers answer, clock readings. Every use has a number (\<open>ru_obs\<close>), so any
    behaviour over time is an environment.
  \<^item> Creating a component and restoring or snapshotting its state may throw, and so may an observer; the answer then is the text of the exception. The status hooks for
    configuring, activating, resetting and deactivating answer with a status, the error channel the documentation gives
    them; their default implementations turn the exceptions of the plain hooks into one (\<^verbatim>\<open>component.cpp\<close>). An override of a status hook that
    throws itself is not modelled.
  \<^item> The spans that the event runtime and the router record, the content of the health sink and the metrics of the components when they are
    read belong to the environment as well.
  \<^item> A state is paired with the text of an exception when one is thrown; \<open>None\<close> is what it is for the event runtime.
\<close>

section \<open>Data\<close>

record runtime_error =
  err_phase :: string
  err_component_id :: string
  err_lane :: string
  err_message :: string
  err_code :: string
  err_trace_id :: string
  err_fatal :: bool

definition make_runtime_error :: "string \<Rightarrow> string \<Rightarrow> string \<Rightarrow> string \<Rightarrow> string \<Rightarrow> bool \<Rightarrow> runtime_error" where
  "make_runtime_error phase cid lane msg code fatal =
     \<lparr>err_phase = phase, err_component_id = cid, err_lane = lane, err_message = msg, err_code = code, err_trace_id = [], err_fatal = fatal\<rparr>"

record runtime_trace_event =
  te_name :: string
  te_trace_id :: string
  te_phase :: string
  te_component_id :: string
  te_channel_id :: string
  te_lane :: string
  te_worker_id :: string
  te_epoch_id :: string
  te_transaction_id :: string
  te_correlation_id :: string
  te_causation_id :: string
  te_start_offset_ns :: nat
  te_duration_ns :: nat
  te_attributes :: "(string, string) smap"

record span_record =
  sp_trace_id :: string
  sp_name :: string
  sp_started_at :: int
  sp_finished_at :: int
  sp_attributes :: "(string, string) smap"

datatype runtime_run_mode = KValidate | KDryRun | KRun

fun run_mode_to_string :: "runtime_run_mode \<Rightarrow> string" where
  "run_mode_to_string KValidate = ''validate''"
| "run_mode_to_string KDryRun = ''dry_run''"
| "run_mode_to_string KRun = ''run''"

text \<open>The observers are flags that tell which pointers are set.\<close>

record runtime_runner_options =
  ro_mode :: runtime_run_mode
  ro_tick_iterations :: nat
  ro_run_duration_ms :: nat
  ro_run_until_idle :: bool
  ro_emit_health_events :: bool
  ro_health_event_capacity :: nat
  ro_reset_component_ids :: "string list"
  ro_restore_component_states :: "(string, component_state_snapshot) smap"
  ro_capture_component_state_snapshots :: bool
  ro_live_observe :: live_observe_options
  ro_observers :: "bool list"

record runtime_runner_result =
  rr_ok :: bool
  rr_graph_name :: string
  rr_component_count :: nat
  rr_channel_count :: nat
  rr_validation :: "graph_validation_result option"
  rr_dry_run :: "graph_dry_run_result option"
  rr_instantiated_components :: nat
  rr_configured_components :: nat
  rr_started_components :: nat
  rr_stopped_components :: nat
  rr_tick_calls :: nat
  rr_metric_samples :: nat
  rr_channel_publish_count :: nat
  rr_channel_delivery_count :: nat
  rr_channel_drop_count :: nat
  rr_channel_overwrite_count :: nat
  rr_channel_reject_count :: nat
  rr_channel_stale_drop_count :: nat
  rr_channel_deadline_miss_count :: nat
  rr_payload_copy_count :: nat
  rr_staged_publication_count :: nat
  rr_committed_publication_count :: nat
  rr_delayed_publication_count :: nat
  rr_state_publication_count :: nat
  rr_state_commit_count :: nat
  rr_async_publication_count :: nat
  rr_failed_publication_commit_count :: nat
  rr_health_event_count :: nat
  rr_health_event_dropped_count :: nat
  rr_health_event_coalesced_count :: nat
  rr_trace_event_count :: nat
  rr_loop_iteration_count :: nat
  rr_loop_converged_count :: nat
  rr_loop_budget_overrun_count :: nat
  rr_loop_max_iteration_hit_count :: nat
  rr_loop_error_count :: nat
  rr_loop_cancellation_requested_count :: nat
  rr_loop_cancellation_observed_count :: nat
  rr_loop_output_discarded_count :: nat
  rr_lifecycle_reset_count :: nat
  rr_lifecycle_reset_failure_count :: nat
  rr_lifecycle_restore_count :: nat
  rr_lifecycle_restore_failure_count :: nat
  rr_lifecycle_snapshot_count :: nat
  rr_lifecycle_snapshot_failure_count :: nat
  rr_lifecycle_snapshot_bytes :: nat
  rr_observer_failure_count :: nat
  rr_observer_dropped_event_count :: nat
  rr_live_observe_dropped_event_count :: nat
  rr_scheduler_stop_reason :: scheduler_stop_reason
  rr_ticked_components :: "string list"
  rr_trace :: "runtime_trace_event list"
  rr_live_events :: "live_event list"
  rr_health_events :: "health_event list"
  rr_runtime_metrics :: "runtime_metric_sample list"
  rr_runtime_errors :: "runtime_error list"
  rr_loop_last_residual :: "(string, fp) smap"
  rr_loop_stop_reason :: "(string, string) smap"
  rr_component_state_snapshots :: "(string, component_state_snapshot) smap"

definition empty_runner_result :: runtime_runner_result where
  "empty_runner_result =
     \<lparr>rr_ok = False, rr_graph_name = [], rr_component_count = 0, rr_channel_count = 0, rr_validation = None, rr_dry_run = None,
      rr_instantiated_components = 0, rr_configured_components = 0, rr_started_components = 0, rr_stopped_components = 0,
      rr_tick_calls = 0, rr_metric_samples = 0, rr_channel_publish_count = 0, rr_channel_delivery_count = 0, rr_channel_drop_count = 0,
      rr_channel_overwrite_count = 0, rr_channel_reject_count = 0, rr_channel_stale_drop_count = 0, rr_channel_deadline_miss_count = 0,
      rr_payload_copy_count = 0, rr_staged_publication_count = 0, rr_committed_publication_count = 0, rr_delayed_publication_count = 0,
      rr_state_publication_count = 0, rr_state_commit_count = 0, rr_async_publication_count = 0, rr_failed_publication_commit_count = 0,
      rr_health_event_count = 0, rr_health_event_dropped_count = 0, rr_health_event_coalesced_count = 0, rr_trace_event_count = 0,
      rr_loop_iteration_count = 0, rr_loop_converged_count = 0, rr_loop_budget_overrun_count = 0, rr_loop_max_iteration_hit_count = 0,
      rr_loop_error_count = 0, rr_loop_cancellation_requested_count = 0, rr_loop_cancellation_observed_count = 0,
      rr_loop_output_discarded_count = 0, rr_lifecycle_reset_count = 0, rr_lifecycle_reset_failure_count = 0,
      rr_lifecycle_restore_count = 0, rr_lifecycle_restore_failure_count = 0, rr_lifecycle_snapshot_count = 0,
      rr_lifecycle_snapshot_failure_count = 0, rr_lifecycle_snapshot_bytes = 0, rr_observer_failure_count = 0,
      rr_observer_dropped_event_count = 0, rr_live_observe_dropped_event_count = 0, rr_scheduler_stop_reason = NotStarted,
      rr_ticked_components = [], rr_trace = [], rr_live_events = [], rr_health_events = [], rr_runtime_metrics = [],
      rr_runtime_errors = [], rr_loop_last_residual = [], rr_loop_stop_reason = [], rr_component_state_snapshots = []\<rparr>"

section \<open>Helpers\<close>

definition lane_config_from_spec :: "lane_spec \<Rightarrow> scheduler_group_config" where
  "lane_config_from_spec l =
     \<lparr>sg_id = lane_id l, sg_type = lane_type l, sg_hz = lane_hz l, sg_priority = lane_priority l,
      sg_max_callback = lane_max_callback_ms l * 1000000, sg_max_threads = lane_max_threads l, sg_queue_capacity = lane_queue_capacity l,
      sg_overflow = lane_overflow l, sg_wall_clock_enabled = lane_wall_clock_enabled l, sg_period = lane_period_ms l * 1000000,
      sg_tick_budget = lane_tick_budget_ms l * 1000000, sg_overrun_policy = lane_overrun_policy l, sg_thread_name = lane_thread_name l,
      sg_cpu_affinity = lane_cpu_affinity l, sg_nice_priority = lane_nice_priority l, sg_rt_policy = lane_rt_policy l,
      sg_rt_priority = lane_rt_priority l, sg_isolation_intent = lane_isolation_intent l\<rparr>"

definition lane_configs :: "graph_spec \<Rightarrow> (string, scheduler_group_config) smap" where
  "lane_configs g = fold (\<lambda>l. smap_put (lane_id l) (lane_config_from_spec l)) (lanes g) []"

definition copy_dry_run_to_runner :: "graph_dry_run_result \<Rightarrow> runtime_runner_result \<Rightarrow> runtime_runner_result" where
  "copy_dry_run_to_runner d r =
     r\<lparr>rr_dry_run := Some d, rr_instantiated_components := dr_instantiated_components d,
       rr_configured_components := dr_configured_components d, rr_started_components := dr_started_components d,
       rr_stopped_components := dr_stopped_components d, rr_tick_calls := dr_tick_calls d, rr_metric_samples := dr_metric_samples d,
       rr_channel_publish_count := 0, rr_channel_delivery_count := 0, rr_channel_drop_count := 0, rr_channel_overwrite_count := 0,
       rr_channel_reject_count := 0, rr_channel_stale_drop_count := 0, rr_channel_deadline_miss_count := 0, rr_payload_copy_count := 0,
       rr_ticked_components := dr_ticked_components d, rr_runtime_metrics := dr_runtime_metrics d\<rparr>"

definition metric :: "string \<Rightarrow> fp \<Rightarrow> string \<Rightarrow> string \<Rightarrow> string \<Rightarrow> runtime_metric_sample" where
  "metric name v cid lane ch = \<lparr>ms_name = name, ms_value = v, ms_component_id = cid, ms_lane = lane, ms_channel_id = ch, ms_tags = []\<rparr>"

definition count_value :: "nat \<Rightarrow> fp" where
  "count_value n = Finite (of_nat n)"

definition ms_of_ns :: "int \<Rightarrow> fp" where
  "ms_of_ns ns = Finite (of_int ns / 1000000)"

definition append_runtime_metrics :: "runtime_metric_sample list \<Rightarrow> runtime_runner_result \<Rightarrow> runtime_runner_result" where
  "append_runtime_metrics ms r = r\<lparr>rr_runtime_metrics := rr_runtime_metrics r @ ms\<rparr>"

definition append_runtime_error :: "runtime_error \<Rightarrow> runtime_runner_result \<Rightarrow> runtime_runner_result" where
  "append_runtime_error e r = r\<lparr>rr_runtime_errors := rr_runtime_errors r @ [e]\<rparr>"

definition has_fatal_runtime_error :: "runtime_runner_result \<Rightarrow> bool" where
  "has_fatal_runtime_error r \<longleftrightarrow> list_ex err_fatal (rr_runtime_errors r)"

text \<open>\<^verbatim>\<open>message.find(failed, prefix.size())\<close>: the text before the first \<open>pat\<close>.\<close>

fun before_first :: "string \<Rightarrow> string \<Rightarrow> string option" where
  "before_first pat [] = (if pat = [] then Some [] else None)"
| "before_first pat (c # s) = (if starts_with pat (c # s) then Some [] else map_option (Cons c) (before_first pat s))"

definition component_id_from_legacy_error :: "string \<Rightarrow> string" where
  "component_id_from_legacy_error msg =
     (if \<not> starts_with ''component '' msg then []
      else case before_first '' failed:'' (drop (length ''component '') msg) of None \<Rightarrow> [] | Some cid \<Rightarrow> cid)"

definition snapshot_size_bytes :: "component_state_snapshot \<Rightarrow> nat" where
  "snapshot_size_bytes sn =
     (if cst_size_bytes sn \<noteq> 0 then cst_size_bytes sn
      else case cst_payload sn of None \<Rightarrow> 0 | Some p \<Rightarrow> unat (size_estimate (describe_payload_schema p)))"

definition nonzero_metric :: "string \<Rightarrow> nat \<Rightarrow> runtime_metric_sample list" where
  "nonzero_metric name n = (if n \<noteq> 0 then [metric name (count_value n) [] [] []] else [])"

definition append_lifecycle_metrics :: "runtime_runner_result \<Rightarrow> runtime_runner_result" where
  "append_lifecycle_metrics r =
     append_runtime_metrics
       (nonzero_metric ''runtime.lifecycle.reset_count'' (rr_lifecycle_reset_count r) @
        nonzero_metric ''runtime.lifecycle.reset_failure_count'' (rr_lifecycle_reset_failure_count r) @
        nonzero_metric ''runtime.lifecycle.restore_count'' (rr_lifecycle_restore_count r) @
        nonzero_metric ''runtime.lifecycle.restore_failure_count'' (rr_lifecycle_restore_failure_count r) @
        nonzero_metric ''runtime.lifecycle.snapshot_count'' (rr_lifecycle_snapshot_count r) @
        nonzero_metric ''runtime.lifecycle.snapshot_failure_count'' (rr_lifecycle_snapshot_failure_count r) @
        nonzero_metric ''runtime.lifecycle.snapshot_size_bytes'' (rr_lifecycle_snapshot_bytes r)) r"

definition parse_config_bool :: "config_view \<Rightarrow> string \<Rightarrow> bool option" where
  "parse_config_bool c key =
     (case map_of (cv_values c) key of
        None \<Rightarrow> None
      | Some v \<Rightarrow>
          if v \<in> {''true'', ''1'', ''yes'', ''on''} then Some True
          else if v \<in> {''false'', ''0'', ''no'', ''off''} then Some False else None)"

text \<open>
  \<^verbatim>\<open>std::stoull\<close>: white space, an optional sign, digits; what follows is ignored. \<open>None\<close> are its exceptions: no digits, or a number
  above 64 bits. A minus sign wraps around.
\<close>

definition is_space_char :: "char \<Rightarrow> bool" where
  "is_space_char c \<longleftrightarrow> of_char c \<in> {9, 10, 11, 12, 13, 32 :: nat}"

definition decimal_digit :: "char \<Rightarrow> bool" where
  "decimal_digit c \<longleftrightarrow> (48::nat) \<le> of_char c \<and> of_char c \<le> (57::nat)"

definition stoull :: "string \<Rightarrow> nat option" where
  "stoull s =
     (let t = dropWhile is_space_char s;
          negative = (t \<noteq> [] \<and> hd t = CHR ''-'');
          digits = takeWhile decimal_digit (if t \<noteq> [] \<and> (hd t = CHR ''-'' \<or> hd t = CHR ''+'') then tl t else t);
          n = foldl (\<lambda>a c. 10 * a + (of_char c - 48)) 0 digits
      in if digits = [] \<or> n \<ge> 2 ^ 64 then None else Some (if negative then (2 ^ 64 - n) mod 2 ^ 64 else n))"

definition parse_config_size :: "config_view \<Rightarrow> string \<Rightarrow> nat option" where
  "parse_config_size c key =
     (case map_of (cv_values c) key of
        None \<Rightarrow> None
      | Some v \<Rightarrow> if v = [] \<or> hd v = CHR ''-'' then None else stoull v)"

definition resolved_health_event_enabled :: "graph_spec \<Rightarrow> runtime_runner_options \<Rightarrow> bool" where
  "resolved_health_event_enabled g opts =
     (case parse_config_bool (graph_config_view g) ''emit_health_events'' of None \<Rightarrow> ro_emit_health_events opts | Some b \<Rightarrow> b)"

definition resolved_health_event_capacity :: "graph_spec \<Rightarrow> runtime_runner_options \<Rightarrow> nat" where
  "resolved_health_event_capacity g opts =
     (case parse_config_size (graph_config_view g) ''health_event_capacity'' of None \<Rightarrow> ro_health_event_capacity opts | Some n \<Rightarrow> n)"

section \<open>Trace events\<close>

definition earlier_epoch :: "int \<Rightarrow> int \<Rightarrow> int" where
  "earlier_epoch t epoch = (if epoch = 0 \<or> t < epoch then t else epoch)"

definition earliest_trace_epoch :: "span_record list \<Rightarrow> health_event list \<Rightarrow> int" where
  "earliest_trace_epoch spans evs =
     fold (\<lambda>e. earlier_epoch (he_observed_at e)) evs (fold (\<lambda>sp. earlier_epoch (sp_started_at sp)) spans 0)"

definition trace_phase_for_name :: "string \<Rightarrow> string" where
  "trace_phase_for_name name =
     (if starts_with ''component_'' name then ''component''
      else if starts_with ''channel_'' name \<or> name = ''state_commit'' \<or> name = ''async_admission'' then ''channel''
      else if starts_with ''scheduler_'' name \<or> starts_with ''fixed_rate_'' name \<or> name = ''thread_pool_batch'' then ''scheduler''
      else if starts_with ''loop_'' name then ''loop''
      else if starts_with ''config_transaction_'' name then ''config''
      else if name = ''health_event'' then ''health''
      else ''runtime'')"

definition attribute_value :: "(string, string) smap \<Rightarrow> string \<Rightarrow> string" where
  "attribute_value attrs key = smap_get [] attrs key"

definition make_runtime_trace_event :: "string \<Rightarrow> string \<Rightarrow> nat \<Rightarrow> nat \<Rightarrow> (string, string) smap \<Rightarrow> runtime_trace_event" where
  "make_runtime_trace_event name tid start dur attrs =
     \<lparr>te_name = name, te_trace_id = tid, te_phase = trace_phase_for_name name,
      te_component_id = (if attribute_value attrs ''component_id'' = [] then attribute_value attrs ''source_component''
                         else attribute_value attrs ''component_id''),
      te_channel_id = attribute_value attrs ''channel_id'', te_lane = attribute_value attrs ''lane'',
      te_worker_id = attribute_value attrs ''worker_id'', te_epoch_id = attribute_value attrs ''epoch_id'',
      te_transaction_id = attribute_value attrs ''transaction_id'', te_correlation_id = attribute_value attrs ''correlation_id'',
      te_causation_id = attribute_value attrs ''causation_id'', te_start_offset_ns = start, te_duration_ns = dur, te_attributes = attrs\<rparr>"

definition span_event :: "int \<Rightarrow> span_record \<Rightarrow> runtime_trace_event" where
  "span_event epoch sp =
     make_runtime_trace_event (sp_name sp) (sp_trace_id sp) (non_negative_duration_ns (sp_started_at sp - epoch))
       (non_negative_duration_ns (sp_finished_at sp - sp_started_at sp)) (sp_attributes sp)"

definition health_trace_event :: "int \<Rightarrow> string \<Rightarrow> health_event \<Rightarrow> runtime_trace_event" where
  "health_trace_event epoch tid e =
     make_runtime_trace_event ''health_event'' tid (non_negative_duration_ns (he_observed_at e - epoch)) 0 (health_event_attributes e)"

text \<open>\<open>ids\<close> gives the generated trace ids of the health events. The order of the comparison is the start, then the place in the list.\<close>

definition copy_trace_to_result ::
    "(nat \<Rightarrow> string) \<Rightarrow> span_record list \<Rightarrow> health_event list \<Rightarrow> runtime_runner_result \<Rightarrow> runtime_runner_result" where
  "copy_trace_to_result ids spans evs r =
     (let epoch = earliest_trace_epoch spans evs;
          events = map (span_event epoch) spans @ map (\<lambda>(i, e). health_trace_event epoch (ids i) e) (enumerate 0 evs);
          tr = rr_trace r @ map snd (sort_key (te_start_offset_ns \<circ> snd) (enumerate 0 events))
      in r\<lparr>rr_trace := tr, rr_trace_event_count := length tr\<rparr>)"

section \<open>Live events\<close>

record live_id_maps =
  lim_components :: "(string, 32 word) smap"
  lim_channels :: "(string, 32 word) smap"
  lim_lanes :: "(string, 32 word) smap"
  lim_loops :: "(string, 32 word) smap"

text \<open>The numbers of the ids from one on; an id that occurs again keeps its first number.\<close>

definition number_ids :: "string list \<Rightarrow> (string, 32 word) smap" where
  "number_ids xs =
     fold (\<lambda>(i, k) m. if map_of m k = None then smap_put k (of_nat i) m else m) (enumerate 1 xs) []"

definition make_live_id_maps :: "graph_spec \<Rightarrow> live_id_maps" where
  "make_live_id_maps g =
     \<lparr>lim_components = number_ids (map comp_id (components g)), lim_channels = number_ids (map edge_id (graph_edges g)),
      lim_lanes = number_ids (map lane_id (lanes g)), lim_loops = number_ids (map loop_id (composite_loops g))\<rparr>"

definition live_id_for :: "(string, 32 word) smap \<Rightarrow> string \<Rightarrow> 32 word" where
  "live_id_for m k = smap_get 0 m k"

definition parse_live_u32 :: "string \<Rightarrow> 32 word" where
  "parse_live_u32 v =
     (if v = [] \<or> hd v = CHR ''-'' then 0 else case stoull v of None \<Rightarrow> 0 | Some n \<Rightarrow> of_nat n)"

definition live_kind_for_trace :: "runtime_trace_event \<Rightarrow> live_event_kind option" where
  "live_kind_for_trace e =
     map_of
       [(''component_execute_begin'', KComponentBegin), (''component_execute_end'', KComponentEnd),
        (''component_execute'', KComponentEnd), (''channel_publish'', KChannelPublishSummary),
        (''state_commit'', KChannelCommitSummary), (''async_admission'', KAsyncAdmission),
        (''loop_iteration_begin'', KLoopIterationBegin), (''loop_iteration_end'', KLoopIterationEnd),
        (''loop_iteration'', KLoopIterationEnd), (''loop_converged'', KLoopConverged), (''loop_budget_overrun'', KLoopBudgetOverrun),
        (''loop_max_iterations_hit'', KLoopMaxIterationsHit), (''loop_error'', KLoopError), (''health_event'', KHealthEvent)] (te_name e)"

text \<open>\<open>now\<close> is the reading of the clock, used when no time is given.\<close>

definition make_live_event :: "live_event_kind \<Rightarrow> 64 word \<Rightarrow> 64 word \<Rightarrow> live_event" where
  "make_live_event kind mono_ns now =
     empty_live_event\<lparr>le_mono_ns := (if mono_ns = 0 then now else mono_ns), le_kind := encode_kind kind,
       le_flags := encode_exactness KExact, le_reason_id := encode_severity KInfo\<rparr>"

definition live_trace_event :: "live_id_maps \<Rightarrow> live_event_kind \<Rightarrow> 64 word \<Rightarrow> runtime_trace_event \<Rightarrow> live_event" where
  "live_trace_event ids kind now te =
     (make_live_event kind (of_nat (te_start_offset_ns te)) now)\<lparr>
       le_epoch_id := parse_live_u32 (te_epoch_id te), le_component_id := live_id_for (lim_components ids) (te_component_id te),
       le_channel_id := live_id_for (lim_channels ids) (te_channel_id te), le_lane_id := live_id_for (lim_lanes ids) (te_lane te),
       le_worker_id := parse_live_u32 (te_worker_id te),
       le_loop_id := live_id_for (lim_loops ids) (attribute_value (te_attributes te) ''loop_id''),
       le_value0 := of_nat (te_duration_ns te),
       le_flags := encode_exactness (if kind = KChannelPublishSummary \<or> kind = KChannelCommitSummary then KAggregated else KExact)\<rparr>"

definition publish_live_trace_events ::
    "(nat \<Rightarrow> 64 word) \<Rightarrow> live_id_maps \<Rightarrow> runtime_runner_result \<Rightarrow> live_session \<Rightarrow> live_session" where
  "publish_live_trace_events clk ids r ses =
     (if \<not> session_enabled ses then ses
      else fold (\<lambda>(i, te) s. case live_kind_for_trace te of
                                None \<Rightarrow> s | Some kind \<Rightarrow> snd (session_try_publish (live_trace_event ids kind (clk i) te) s))
             (enumerate 0 (rr_trace r)) ses)"

definition live_error_event :: "live_id_maps \<Rightarrow> 64 word \<Rightarrow> runtime_error \<Rightarrow> live_event" where
  "live_error_event ids now e =
     (make_live_event (if err_component_id e = [] then KRuntimeError else KComponentError) 0 now)\<lparr>
       le_component_id := live_id_for (lim_components ids) (err_component_id e), le_lane_id := live_id_for (lim_lanes ids) (err_lane e),
       le_reason_id := encode_severity (if err_fatal e then KError else KWarning)\<rparr>"

definition publish_live_error_events ::
    "(nat \<Rightarrow> 64 word) \<Rightarrow> live_id_maps \<Rightarrow> runtime_runner_result \<Rightarrow> live_session \<Rightarrow> live_session" where
  "publish_live_error_events clk ids r ses =
     (if \<not> session_enabled ses then ses
      else fold (\<lambda>(i, e) s. snd (session_try_publish (live_error_event ids (clk i) e) s)) (enumerate 0 (rr_runtime_errors r)) ses)"

text \<open>\<open>clk i j\<close> is the reading of the clock for the \<open>j\<close>-th event of the \<open>i\<close>-th group.\<close>

definition finish_live_observe ::
    "(nat \<Rightarrow> nat \<Rightarrow> 64 word) \<Rightarrow> live_id_maps \<Rightarrow> runtime_runner_result \<Rightarrow> live_session \<Rightarrow> (runtime_runner_result \<times> live_session) option" where
  "finish_live_observe clk ids r ses =
     (if \<not> session_enabled ses then Some (r, ses)
      else
        (let s1 = publish_live_error_events (clk 1) ids r (publish_live_trace_events (clk 0) ids r ses);
             finished = (make_live_event KRunFinished 0 (clk 2 0))\<lparr>le_value0 := (if rr_ok r then 1 else 0),
                          le_value1 := of_nat (rr_tick_calls r), le_value2 := of_nat (length (rr_runtime_errors r))\<rparr>;
             s2 = snd (session_try_publish finished s1)
         in case session_drain 0 s2 of
              None \<Rightarrow> None
            | Some (evs, s3) \<Rightarrow>
                (let (summary, s4) = session_take_drop_summary (clk 3 0) 0 s3;
                     evs' = evs @ (case summary of None \<Rightarrow> [] | Some e \<Rightarrow> [e]);
                     dropped = unat (session_dropped_event_count s4);
                     r1 = r\<lparr>rr_live_events := evs', rr_live_observe_dropped_event_count := dropped\<rparr>;
                     r2 = append_runtime_metrics (nonzero_metric ''runtime.live_observe.dropped_event_count'' dropped) r1
                 in Some (r2\<lparr>rr_metric_samples := length (rr_runtime_metrics r2)\<rparr>, s4))))"

section \<open>The in-memory observer\<close>

text \<open>One of its five queues with the shared drop counter; \<open>locked\<close>: another thread holds the lock.\<close>

definition push_bounded :: "nat \<Rightarrow> bool \<Rightarrow> 'a \<Rightarrow> 'a list \<times> nat \<Rightarrow> 'a list \<times> nat" where
  "push_bounded capacity locked v q =
     (if capacity = 0 \<or> locked then (fst q, snd q + 1)
      else if length (fst q) \<ge> capacity then (tl (fst q) @ [v], snd q + 1)
      else (fst q @ [v], snd q))"

section \<open>Environment and state of a run\<close>

text \<open>\<open>rn_create\<close>, \<open>rn_restore\<close>, \<open>rn_snapshot\<close> and \<open>rn_observer\<close> may throw; the status hooks answer with a status.\<close>

record runner_environment =
  rn_create :: "nat \<Rightarrow> string \<Rightarrow> string option"
  rn_configure :: "nat \<Rightarrow> string \<Rightarrow> config_view \<Rightarrow> behaviour"
  rn_activate :: "nat \<Rightarrow> string \<Rightarrow> status"
  rn_restore :: "nat \<Rightarrow> string \<Rightarrow> component_state_snapshot \<Rightarrow> string + status"
  rn_reset :: "nat \<Rightarrow> string \<Rightarrow> behaviour"
  rn_snapshot :: "nat \<Rightarrow> string \<Rightarrow> string + (string + component_state_snapshot)"
  rn_deactivate :: "nat \<Rightarrow> string \<Rightarrow> status"
  rn_clock :: "nat \<Rightarrow> nat \<Rightarrow> nat \<Rightarrow> int"
  rn_live_clock :: "nat \<Rightarrow> nat \<Rightarrow> nat \<Rightarrow> 64 word"
  rn_trace_id :: "nat \<Rightarrow> nat \<Rightarrow> string"
  rn_spans :: "span_record list"
  rn_health :: "nat \<Rightarrow> health_sink \<Rightarrow> health_sink"
  rn_component_metrics :: "(string \<times> fp) list"
  rn_observer :: "nat \<Rightarrow> nat \<Rightarrow> string + status"
  rn_observer_status :: "nat \<Rightarrow> nat \<Rightarrow> nat \<times> nat"
  rn_runtime :: environment

record runner_instance =
  in_id :: string
  in_context :: graph_context
  in_configured :: bool
  in_started :: bool

text \<open>\<open>ru_deactivated\<close> lists the calls of \<^verbatim>\<open>deactivate_status\<close>.\<close>

record runner_state =
  ru_obs :: nat
  ru_result :: runtime_runner_result
  ru_objects :: run_state
  ru_live :: live_session
  ru_instances :: "runner_instance list"
  ru_spans :: "span_record list"
  ru_deactivated :: "string list"

definition tick_obs :: "runner_state \<Rightarrow> runner_state" where
  "tick_obs s = s\<lparr>ru_obs := Suc (ru_obs s)\<rparr>"

definition on_result :: "(runtime_runner_result \<Rightarrow> runtime_runner_result) \<Rightarrow> runner_state \<Rightarrow> runner_state" where
  "on_result f s = s\<lparr>ru_result := f (ru_result s)\<rparr>"

text \<open>\<^verbatim>\<open>result.ok = false; result.scheduler_stop_reason = kError; append_runtime_error(...)\<close>\<close>

definition fail_result :: "string \<Rightarrow> string \<Rightarrow> string \<Rightarrow> string \<Rightarrow> string \<Rightarrow> runtime_runner_result \<Rightarrow> runtime_runner_result" where
  "fail_result phase cid lane msg code r =
     append_runtime_error (make_runtime_error phase cid lane msg code True) (r\<lparr>rr_ok := False, rr_scheduler_stop_reason := StopError\<rparr>)"

definition record_runner_trace_event :: "runner_environment \<Rightarrow> string \<Rightarrow> string \<Rightarrow> string \<Rightarrow> runner_state \<Rightarrow> runner_state" where
  "record_runner_trace_event env name cid st s =
     (let now = rn_clock env (ru_obs s) 0 0
      in (tick_obs s)\<lparr>ru_spans := ru_spans s @
            [\<lparr>sp_trace_id = rn_trace_id env (ru_obs s) 0, sp_name = name, sp_started_at = now, sp_finished_at = now,
              sp_attributes = [(''component_id'', cid), (''status'', st)]\<rparr>]\<rparr>)"

section \<open>Ending a run\<close>

text \<open>The callbacks of one observer in turn: failures are counted, the first is kept, an exception ends the run.\<close>

fun deliver :: "runner_environment \<Rightarrow> nat \<Rightarrow> string list \<Rightarrow> nat \<times> string \<Rightarrow> runner_state \<Rightarrow> string option \<times> (nat \<times> string) \<times> runner_state" where
  "deliver env j [] acc s = (None, acc, s)"
| "deliver env j (callback # cs) acc s =
     (case rn_observer env (ru_obs s) j of
        Inl what \<Rightarrow> (Some what, acc, tick_obs s)
      | Inr Success \<Rightarrow> deliver env j cs acc (tick_obs s)
      | Inr (StatusError msg) \<Rightarrow>
          deliver env j cs (fst acc + 1, if snd acc = [] then callback @ '': '' @ msg else snd acc) (tick_obs s))"

definition observer_callbacks :: "runtime_runner_result \<Rightarrow> string list" where
  "observer_callbacks r =
     map (\<lambda>_. ''on_metric'') (rr_runtime_metrics r) @ map (\<lambda>_. ''on_trace_event'') (rr_trace r) @
     map (\<lambda>_. ''on_health_event'') (rr_health_events r) @ map (\<lambda>_. ''on_runtime_error'') (rr_runtime_errors r) @ [''on_result'']"

fun notify_each :: "runner_environment \<Rightarrow> (nat \<times> bool) list \<Rightarrow> nat \<times> string \<Rightarrow> runner_state \<Rightarrow> string option \<times> (nat \<times> string) \<times> runner_state" where
  "notify_each env [] acc s = (None, acc, s)"
| "notify_each env ((j, present) # os) acc s =
     (if \<not> present then notify_each env os acc s
      else
        (case deliver env j (observer_callbacks (ru_result s)) acc s of
           (Some what, acc1, s1) \<Rightarrow> (Some what, acc1, s1)
         | (None, acc1, s1) \<Rightarrow>
             (let (dropped, failures) = rn_observer_status env (ru_obs s1) j
              in notify_each env os acc1
                   (on_result (\<lambda>r. r\<lparr>rr_observer_dropped_event_count := rr_observer_dropped_event_count r + dropped,
                                     rr_observer_failure_count := rr_observer_failure_count r + failures\<rparr>) (tick_obs s1)))))"

definition note_observers :: "nat \<times> string \<Rightarrow> runtime_runner_result \<Rightarrow> runtime_runner_result" where
  "note_observers acc r =
     (let r1 = r\<lparr>rr_observer_failure_count := rr_observer_failure_count r + fst acc\<rparr>;
          r2 = (if fst acc \<noteq> 0
                then append_runtime_error
                       (make_runtime_error ''observer'' [] []
                          (''observer callback failure count: '' @ nat_to_string (fst acc) @
                           (if snd acc = [] then [] else '' ('' @ snd acc @ '')'')) ''observer_failure'' False) r1
                else r1);
          r3 = append_runtime_metrics
                 (nonzero_metric ''runtime.observer.failure_count'' (rr_observer_failure_count r2) @
                  nonzero_metric ''runtime.observer.dropped_event_count'' (rr_observer_dropped_event_count r2)) r2
      in r3\<lparr>rr_metric_samples := length (rr_runtime_metrics r3)\<rparr>)"

definition notify_runtime_observers :: "runner_environment \<Rightarrow> runtime_runner_options \<Rightarrow> runner_state \<Rightarrow> string option \<times> runner_state" where
  "notify_runtime_observers env opts s =
     (if ro_observers opts = [] then (None, s)
      else
        (case notify_each env (enumerate 0 (ro_observers opts)) (0, []) s of
           (Some what, acc, s1) \<Rightarrow> (Some what, s1)
         | (None, acc, s1) \<Rightarrow> (None, on_result (note_observers acc) s1)))"

definition finish_result :: "runner_environment \<Rightarrow> graph_spec \<Rightarrow> runtime_runner_options \<Rightarrow> runner_state \<Rightarrow> (string option \<times> runner_state) option" where
  "finish_result env g opts s =
     map_option
       (\<lambda>(r, ses). notify_runtime_observers env opts ((tick_obs s)\<lparr>ru_result := r, ru_live := ses\<rparr>))
       (finish_live_observe (rn_live_clock env (ru_obs s)) (make_live_id_maps g) (ru_result s) (ru_live s))"

section \<open>Starting and stopping components\<close>

definition instance_for_id :: "string \<Rightarrow> runner_state \<Rightarrow> runner_instance option" where
  "instance_for_id cid s = find (\<lambda>i. in_id i = cid) (rev (ru_instances s))"

definition spec_for_id :: "graph_spec \<Rightarrow> string \<Rightarrow> component_node_spec option" where
  "spec_for_id g cid = find (\<lambda>c. comp_id c = cid) (components g)"

definition instance_context :: "graph_spec \<Rightarrow> component_node_spec \<Rightarrow> graph_context" where
  "instance_context g spec =
     \<lparr>gc_channels = True, gc_publisher = True, gc_task_executor = False, gc_state_store = True, gc_config_store = True,
      gc_invocation_metadata = empty_metadata, gc_loop_iteration = no_loop_iteration, gc_reporter = False,
      gc_graph_name = graph_name g, gc_component_id = comp_id spec\<rparr>"

definition create_instance :: "runner_environment \<Rightarrow> component_registry \<Rightarrow> nat \<Rightarrow> string \<Rightarrow> string option" where
  "create_instance env reg k ty =
     (case map_of (factories reg) ty of
        None \<Rightarrow> Some (''component type is not registered: '' @ ty)
      | Some f \<Rightarrow> rn_create env k ty)"

definition remember_instance :: "graph_spec \<Rightarrow> component_node_spec \<Rightarrow> bool \<Rightarrow> bool \<Rightarrow> runner_state \<Rightarrow> runner_state" where
  "remember_instance g spec configured started s =
     s\<lparr>ru_instances := ru_instances s @
        [\<lparr>in_id = comp_id spec, in_context = instance_context g spec, in_configured = configured, in_started = started\<rparr>]\<rparr>"

text \<open>A call of a method that gets the context of a component.\<close>

definition run_method :: "runner_environment \<Rightarrow> graph_context \<Rightarrow> behaviour \<Rightarrow> runner_state \<Rightarrow> runner_state option" where
  "run_method env ctx bh s =
     map_option (\<lambda>o1. (tick_obs s)\<lparr>ru_objects := o1\<rparr>)
       (calls_exec (rn_clock env (ru_obs s)) 0 (map (Pair ctx) (bh_calls bh)) (ru_objects s))"

fun start_components ::
    "runner_environment \<Rightarrow> component_registry \<Rightarrow> graph_spec \<Rightarrow> component_node_spec list \<Rightarrow> runner_state \<Rightarrow> (string option \<times> runner_state) option" where
  "start_components env reg g [] s = Some (None, s)"
| "start_components env reg g (spec # specs) s =
     (case create_instance env reg (ru_obs s) (comp_type spec) of
        Some what \<Rightarrow> Some (Some what, tick_obs s)
      | None \<Rightarrow>
          (let s1 = tick_obs s; bh = rn_configure env (ru_obs s1) (comp_id spec) (comp_config spec); lane = ex_lane (execution spec)
           in do {
             s2 \<leftarrow> run_method env (instance_context g spec) bh s1;
             case bh_status bh of
               StatusError msg \<Rightarrow>
                 Some (None, remember_instance g spec False False
                   (on_result (fail_result ''configure'' (comp_id spec) lane msg ''component_configure'') s2))
             | Success \<Rightarrow>
                 (case rn_activate env (ru_obs s2) (comp_id spec) of
                    StatusError msg \<Rightarrow>
                      Some (None, remember_instance g spec True False
                        (on_result (fail_result ''activate'' (comp_id spec) lane msg ''component_activate'') (tick_obs s2)))
                  | Success \<Rightarrow> start_components env reg g specs (remember_instance g spec True True (tick_obs s2)))
           }))"

text \<open>Stopping the started ones of a list of instances; \<open>mark\<close>: a failure makes the result not ok.\<close>

fun deactivate_started :: "runner_environment \<Rightarrow> bool \<Rightarrow> runner_instance list \<Rightarrow> runner_state \<Rightarrow> runner_state" where
  "deactivate_started env mark [] s = s"
| "deactivate_started env mark (i # is) s =
     (if \<not> in_started i then deactivate_started env mark is s
      else
        (let s1 = on_result (\<lambda>r. r\<lparr>rr_stopped_components := rr_stopped_components r + 1\<rparr>)
                    ((tick_obs s)\<lparr>ru_deactivated := ru_deactivated s @ [in_id i]\<rparr>)
         in deactivate_started env mark is
              (case rn_deactivate env (ru_obs s) (in_id i) of
                 Success \<Rightarrow> s1
               | StatusError msg \<Rightarrow>
                   on_result (\<lambda>r. append_runtime_error (make_runtime_error ''deactivate'' (in_id i) [] msg ''component_deactivate'' False)
                                    (if mark then r\<lparr>rr_ok := False\<rparr> else r)) s1)))"

definition stop_components :: "runner_environment \<Rightarrow> bool \<Rightarrow> runner_state \<Rightarrow> runner_state" where
  "stop_components env mark s = deactivate_started env mark (rev (ru_instances s)) s"

section \<open>Restoring and resetting\<close>

definition count_restore_failure :: "runtime_runner_result \<Rightarrow> runtime_runner_result" where
  "count_restore_failure r = r\<lparr>rr_lifecycle_restore_failure_count := rr_lifecycle_restore_failure_count r + 1\<rparr>"

fun restore_components ::
    "runner_environment \<Rightarrow> graph_spec \<Rightarrow> (string \<times> component_state_snapshot) list \<Rightarrow> runner_state \<Rightarrow> string option \<times> runner_state" where
  "restore_components env g [] s = (None, s)"
| "restore_components env g ((cid, sn) # rest) s =
     (case (instance_for_id cid s, spec_for_id g cid) of
        (Some i, Some spec) \<Rightarrow>
          if \<not> in_started i
          then restore_components env g rest
                 (on_result (\<lambda>r. fail_result ''restore'' cid [] ''component state restore target is not started'' ''component_restore''
                                   (count_restore_failure r)) s)
          else if cst_component_type sn \<noteq> [] \<and> cst_component_type sn \<noteq> comp_type spec
          then restore_components env g rest
                 (record_runner_trace_event env ''component_restore'' cid ''type_mismatch''
                    (on_result (\<lambda>r. fail_result ''restore'' cid (ex_lane (execution spec))
                                      (''component state type '' @ cst_component_type sn @ '' does not match graph type '' @ comp_type spec)
                                      ''component_restore'' (count_restore_failure r)) s))
          else
            (let s1 = record_runner_trace_event env ''component_restore'' cid ''begin'' s
             in case rn_restore env (ru_obs s1) cid sn of
                  Inl what \<Rightarrow> (Some what, tick_obs s1)
                | Inr (StatusError msg) \<Rightarrow>
                    restore_components env g rest
                      (record_runner_trace_event env ''component_restore'' cid ''error''
                         (on_result (\<lambda>r. fail_result ''restore'' cid (ex_lane (execution spec)) msg ''component_restore''
                                           (count_restore_failure r)) (tick_obs s1)))
                | Inr Success \<Rightarrow>
                    restore_components env g rest
                      (record_runner_trace_event env ''component_restore'' cid ''ok''
                         (on_result (\<lambda>r. r\<lparr>rr_lifecycle_restore_count := rr_lifecycle_restore_count r + 1\<rparr>) (tick_obs s1))))
      | _ \<Rightarrow>
          restore_components env g rest
            (on_result (\<lambda>r. fail_result ''restore'' cid [] ''component state restore target is not started'' ''component_restore''
                              (count_restore_failure r)) s))"

definition count_reset_failure :: "runtime_runner_result \<Rightarrow> runtime_runner_result" where
  "count_reset_failure r = r\<lparr>rr_lifecycle_reset_failure_count := rr_lifecycle_reset_failure_count r + 1\<rparr>"

definition reset_not_started :: "string \<Rightarrow> runner_state \<Rightarrow> runner_state" where
  "reset_not_started cid =
     on_result (\<lambda>r. fail_result ''reset'' cid [] ''component reset target is not started'' ''component_reset'' (count_reset_failure r))"

fun reset_components ::
    "runner_environment \<Rightarrow> graph_spec \<Rightarrow> string list \<Rightarrow> string list \<Rightarrow> runner_state \<Rightarrow> runner_state option" where
  "reset_components env g seen [] s = Some s"
| "reset_components env g seen (cid # rest) s =
     (if cid \<in> set seen then reset_components env g seen rest s
      else
        (case (instance_for_id cid s, spec_for_id g cid) of
           (Some i, Some spec) \<Rightarrow>
             if \<not> in_started i then reset_components env g (cid # seen) rest (reset_not_started cid s)
             else
               (let s1 = record_runner_trace_event env ''component_reset'' cid ''begin'' s; bh = rn_reset env (ru_obs s1) cid
                in do {
                  s2 \<leftarrow> run_method env (in_context i) bh s1;
                  reset_components env g (cid # seen) rest
                    (case bh_status bh of
                       StatusError msg \<Rightarrow>
                         record_runner_trace_event env ''component_reset'' cid ''error''
                           (on_result (\<lambda>r. fail_result ''reset'' cid (ex_lane (execution spec)) msg ''component_reset''
                                             (count_reset_failure r)) s2)
                     | Success \<Rightarrow>
                         record_runner_trace_event env ''component_reset'' cid ''ok''
                           (on_result (\<lambda>r. r\<lparr>rr_lifecycle_reset_count := rr_lifecycle_reset_count r + 1\<rparr>) s2))
                })
         | _ \<Rightarrow> reset_components env g (cid # seen) rest (reset_not_started cid s)))"

section \<open>Metrics of a run\<close>

definition scheduler_metric_samples :: "string \<times> scheduler_metrics \<Rightarrow> runtime_metric_sample list" where
  "scheduler_metric_samples entry =
     (let lane = fst entry; m = snd entry; n = (\<lambda>name c. metric name (count_value c) [] lane []); t = (\<lambda>name d. metric name (ms_of_ns d) [] lane [])
      in [n ''runtime.scheduler.tick_count'' (tick_count m), n ''runtime.scheduler.completed_count'' (sm_completed_count m),
          n ''runtime.scheduler.tick_overrun_count'' (tick_overrun_count m), n ''runtime.scheduler.skipped_tick_count'' (skipped_tick_count m),
          t ''runtime.scheduler.max_lateness_ms'' (max_lateness_ns m), n ''runtime.scheduler.queue_depth'' (sm_queue_depth m),
          n ''runtime.scheduler.queue_capacity'' (sm_queue_capacity m), n ''runtime.scheduler.worker_count'' (sm_worker_count m),
          t ''runtime.scheduler.last_callback_duration_ms'' (last_callback_duration_ns m),
          t ''runtime.scheduler.blocked_duration_ms'' (blocked_duration_ns m), t ''runtime.scheduler.tick_jitter_ms'' (tick_jitter_ns m),
          n ''runtime.scheduler.active_count'' (sm_active_count m), n ''runtime.scheduler.in_flight_count'' (sm_in_flight_count m),
          n ''runtime.scheduler.rejected_count'' (enqueue_rejected_count m),
          n ''runtime.scheduler.priority_high_count'' (priority_high_count m),
          n ''runtime.scheduler.priority_normal_count'' (priority_normal_count m),
          n ''runtime.scheduler.priority_low_count'' (priority_low_count m),
          n ''runtime.scheduler.priority_background_count'' (priority_background_count m),
          n ''runtime.scheduler.low_priority_rejected_count'' (low_priority_rejected_count m),
          n ''runtime.scheduler.starvation_guard_count'' (starvation_guard_count m)])"

definition component_metric_samples :: "string \<times> component_execution_metrics \<Rightarrow> runtime_metric_sample list" where
  "component_metric_samples entry =
     (let m = snd entry; n = (\<lambda>name c. metric name (count_value c) (fst entry) [] [])
      in [n ''runtime.component.execution_count'' (execution_count m), n ''runtime.component.error_count'' (error_count m),
          n ''runtime.component.last_duration_ns'' (last_duration_ns m), n ''runtime.component.max_duration_ns'' (max_duration_ns m),
          n ''runtime.component.budget_overrun_count'' (budget_overrun_count m),
          n ''runtime.component.cancellation_requested_count'' (ce_cancellation_requested_count m),
          n ''runtime.component.cancellation_observed_count'' (ce_cancellation_observed_count m),
          n ''runtime.component.timeout_budget_exceeded_count'' (timeout_budget_exceeded_count m),
          n ''runtime.component.max_in_flight_count'' (max_in_flight_count m)])"

definition trigger_metric_samples :: "string \<times> trigger_runtime_metrics \<Rightarrow> runtime_metric_sample list" where
  "trigger_metric_samples entry =
     (let m = snd entry; n = (\<lambda>name c. metric name (count_value c) (fst entry) [] [])
      in [n ''runtime.trigger.ready_count'' (ready_count m), n ''runtime.trigger.suppressed_count'' (suppressed_count m),
          n ''runtime.trigger.coalesced_count'' (coalesced_count m), n ''runtime.trigger.timeout_drop_count'' (timeout_drop_count m),
          n ''runtime.trigger.batch_flush_count'' (batch_flush_count m), n ''runtime.trigger.time_sync_drop_count'' (time_sync_drop_count m),
          n ''runtime.trigger.late_drop_count'' (late_drop_count m), n ''runtime.trigger.pending_drop_count'' (pending_drop_count m),
          n ''runtime.trigger.condition_suppressed_count'' (condition_suppressed_count m),
          n ''runtime.trigger.rate_limit_suppressed_count'' (rate_limit_suppressed_count m)])"

definition loop_count_samples :: "string \<Rightarrow> (string, nat) smap \<Rightarrow> runtime_metric_sample list" where
  "loop_count_samples name m = map (\<lambda>(lid, n). metric name (count_value n) lid [] []) m"

definition loop_counts :: "(string, nat) smap \<Rightarrow> nat" where
  "loop_counts m = sum_list (map snd m)"

definition channel_metric_samples :: "channel_metrics \<Rightarrow> runtime_metric_sample list" where
  "channel_metric_samples m =
     (let n = (\<lambda>name c. metric name (count_value c) [] [] (met_channel_id m))
      in [n ''runtime.channel.publish_count'' (published_count m), n ''runtime.channel.delivery_count'' (delivered_count m),
          n ''runtime.channel.drop_count'' (drop_count m), n ''runtime.channel.deadline_miss_count'' (deadline_miss_count m),
          n ''runtime.channel.stale_drop_count'' (stale_drop_count m), n ''runtime.channel.reject_count'' (reject_count m),
          n ''runtime.channel.overwrite_count'' (overwrite_count m), n ''runtime.channel.health_event_count'' (health_event_count m),
          n ''runtime.channel.max_depth'' (max_depth m),
          metric ''runtime.channel.message_age_ms'' (ms_of_ns (message_age_ns m)) [] [] (met_channel_id m),
          n ''runtime.channel.payload_copy_count'' (payload_copy_count m)])"

definition plain :: "string \<Rightarrow> nat \<Rightarrow> runtime_metric_sample" where
  "plain name n = metric name (count_value n) [] [] []"

definition publication_metric_samples :: "router_metrics \<Rightarrow> runtime_metric_sample list" where
  "publication_metric_samples m =
     [plain ''runtime.publication.staged'' (staged_count m), plain ''runtime.publication.committed'' (committed_count m),
      plain ''runtime.publication.delayed'' (delayed_staged_count m), plain ''runtime.publication.state'' (state_staged_count m),
      plain ''runtime.publication.state_committed'' (state_commit_count m), plain ''runtime.publication.async'' (async_staged_count m),
      plain ''runtime.publication.failed_commit'' (failed_commit_count m),
      plain ''runtime.publication.composite_discarded'' (composite_discarded_count m),
      plain ''runtime.async.accepted_count'' (async_admission_accepted_count m),
      plain ''runtime.async.rejected_count'' (async_admission_rejected_count m),
      plain ''runtime.async.dropped_count'' (async_admission_dropped_count m),
      plain ''runtime.async.overwrite_count'' (async_admission_overwrite_count m),
      plain ''runtime.async.in_flight_count'' (async_in_flight_count m),
      plain ''runtime.async.max_in_flight_count'' (async_max_in_flight_count m),
      plain ''runtime.async.completed_count'' (async_completion_count m), plain ''runtime.async.cancelled_count'' (async_cancelled_count m)]"

definition state_metric_samples :: "state_metrics \<Rightarrow> runtime_metric_sample list" where
  "state_metric_samples m =
     (if sm_staged_write_count m \<noteq> 0 \<or> sm_committed_write_count m \<noteq> 0 \<or> sm_rejected_write_count m \<noteq> 0 \<or> sm_snapshot_read_count m \<noteq> 0
      then [plain ''runtime.state.staged_write_count'' (sm_staged_write_count m),
            plain ''runtime.state.committed_write_count'' (sm_committed_write_count m),
            plain ''runtime.state.rejected_write_count'' (sm_rejected_write_count m),
            plain ''runtime.state.snapshot_read_count'' (sm_snapshot_read_count m),
            plain ''runtime.state.current_value_count'' (sm_current_value_count m)]
      else [])"

definition config_metric_samples :: "config_metrics \<Rightarrow> runtime_metric_sample list" where
  "config_metric_samples m =
     (if cm_staged_update_count m \<noteq> 0 \<or> cm_committed_update_count m \<noteq> 0 \<or> cm_immediate_update_count m \<noteq> 0 \<or>
         cm_rejected_update_count m \<noteq> 0 \<or> cm_rolled_back_update_count m \<noteq> 0 \<or> cm_snapshot_read_count m \<noteq> 0 \<or>
         cm_version m \<noteq> 0 \<or> cm_last_transaction_id m \<noteq> 0
      then [plain ''runtime.config.version'' (cm_version m), plain ''runtime.config.last_transaction_id'' (cm_last_transaction_id m),
            plain ''runtime.config.staged_update_count'' (cm_staged_update_count m),
            plain ''runtime.config.committed_update_count'' (cm_committed_update_count m),
            plain ''runtime.config.immediate_update_count'' (cm_immediate_update_count m),
            plain ''runtime.config.rejected_update_count'' (cm_rejected_update_count m),
            plain ''runtime.config.rolled_back_update_count'' (cm_rolled_back_update_count m),
            plain ''runtime.config.snapshot_read_count'' (cm_snapshot_read_count m)]
      else [])"

definition runtime_error_of :: "string \<Rightarrow> runtime_error" where
  "runtime_error_of msg =
     (let cid = component_id_from_legacy_error msg
      in make_runtime_error (if cid = [] then ''runtime'' else ''execute'') cid [] msg (if cid = [] then ''runtime'' else ''component_execute'') True)"

text \<open>What the run of the event runtime contributes to the result.\<close>

definition collect_run :: "scheduler_run_result \<Rightarrow> runtime_runner_result \<Rightarrow> runtime_runner_result" where
  "collect_run x r =
     append_runtime_metrics
       (concat (map scheduler_metric_samples (group_metrics x)) @ concat (map component_metric_samples (component_metrics x)) @
        concat (map trigger_metric_samples (trigger_metrics x)) @
        loop_count_samples ''runtime.loop.iterations'' (loop_iteration_count x) @
        loop_count_samples ''runtime.loop.converged'' (loop_converged_count x) @
        loop_count_samples ''runtime.loop.budget_overrun'' (loop_budget_overrun_count x) @
        loop_count_samples ''runtime.loop.max_iterations_hit'' (loop_max_iteration_hit_count x) @
        loop_count_samples ''runtime.loop.error'' (loop_error_count x) @
        loop_count_samples ''runtime.loop.cancellation_requested'' (loop_cancellation_requested_count x) @
        loop_count_samples ''runtime.loop.cancellation_observed'' (loop_cancellation_observed_count x) @
        loop_count_samples ''runtime.loop.output_discarded'' (loop_output_discarded_count x) @
        map (\<lambda>(lid, v). metric ''runtime.loop.residual'' v lid [] []) (loop_last_residual x))
       (r\<lparr>rr_ok := run_ok x, rr_scheduler_stop_reason := stop_reason x, rr_tick_calls := tick_calls x, rr_ticked_components := ticked_tasks x,
          rr_runtime_errors := rr_runtime_errors r @ map runtime_error_of (run_errors x),
          rr_loop_iteration_count := rr_loop_iteration_count r + loop_counts (loop_iteration_count x),
          rr_loop_converged_count := rr_loop_converged_count r + loop_counts (loop_converged_count x),
          rr_loop_budget_overrun_count := rr_loop_budget_overrun_count r + loop_counts (loop_budget_overrun_count x),
          rr_loop_max_iteration_hit_count := rr_loop_max_iteration_hit_count r + loop_counts (loop_max_iteration_hit_count x),
          rr_loop_error_count := rr_loop_error_count r + loop_counts (loop_error_count x),
          rr_loop_cancellation_requested_count := rr_loop_cancellation_requested_count r + loop_counts (loop_cancellation_requested_count x),
          rr_loop_cancellation_observed_count := rr_loop_cancellation_observed_count r + loop_counts (loop_cancellation_observed_count x),
          rr_loop_output_discarded_count := rr_loop_output_discarded_count r + loop_counts (loop_output_discarded_count x),
          rr_loop_last_residual := fold (\<lambda>(k, v). smap_put k v) (loop_last_residual x) (rr_loop_last_residual r),
          rr_loop_stop_reason := fold (\<lambda>(k, v). smap_put k v) (loop_stop_reason x) (rr_loop_stop_reason r)\<rparr>)"

definition collect_channels :: "channel_metrics list \<Rightarrow> runtime_runner_result \<Rightarrow> runtime_runner_result" where
  "collect_channels ms r =
     append_runtime_metrics (concat (map channel_metric_samples ms))
       (r\<lparr>rr_channel_publish_count := rr_channel_publish_count r + sum_list (map published_count ms),
          rr_channel_delivery_count := rr_channel_delivery_count r + sum_list (map delivered_count ms),
          rr_channel_drop_count := rr_channel_drop_count r + sum_list (map drop_count ms),
          rr_channel_overwrite_count := rr_channel_overwrite_count r + sum_list (map overwrite_count ms),
          rr_channel_reject_count := rr_channel_reject_count r + sum_list (map reject_count ms),
          rr_channel_stale_drop_count := rr_channel_stale_drop_count r + sum_list (map stale_drop_count ms),
          rr_channel_deadline_miss_count := rr_channel_deadline_miss_count r + sum_list (map deadline_miss_count ms),
          rr_payload_copy_count := rr_payload_copy_count r + sum_list (map payload_copy_count ms)\<rparr>)"

definition collect_publications :: "router_metrics \<Rightarrow> runtime_runner_result \<Rightarrow> runtime_runner_result" where
  "collect_publications m r =
     append_runtime_metrics (publication_metric_samples m)
       (r\<lparr>rr_staged_publication_count := staged_count m, rr_committed_publication_count := committed_count m,
          rr_delayed_publication_count := delayed_staged_count m, rr_state_publication_count := state_staged_count m,
          rr_state_commit_count := state_commit_count m, rr_async_publication_count := async_staged_count m,
          rr_failed_publication_commit_count := failed_commit_count m\<rparr>)"

definition collect_health :: "health_sink \<Rightarrow> runtime_runner_result \<Rightarrow> runtime_runner_result" where
  "collect_health h r =
     r\<lparr>rr_health_events := sink_events h, rr_health_event_count := length (sink_events h),
       rr_health_event_dropped_count := sink_dropped_count h, rr_health_event_coalesced_count := sink_coalesced_count h\<rparr>"

definition health_metric_samples :: "runtime_runner_result \<Rightarrow> runtime_metric_sample list" where
  "health_metric_samples r =
     [plain ''runtime.health.event_count'' (rr_health_event_count r), plain ''runtime.health.dropped_count'' (rr_health_event_dropped_count r),
      plain ''runtime.health.coalesced_count'' (rr_health_event_coalesced_count r)]"

section \<open>The run\<close>

definition start_health_sink :: "graph_spec \<Rightarrow> runtime_runner_options \<Rightarrow> health_sink" where
  "start_health_sink g opts = make_health_sink (resolved_health_event_capacity g opts) (resolved_health_event_enabled g opts)"

definition start_config_store :: "graph_spec \<Rightarrow> config_store" where
  "start_config_store g =
     fold (\<lambda>c. set_component_config (comp_id c) (comp_config c)) (components g) (set_graph_config (graph_config_view g) empty_config_store)"

text \<open>The objects before the run: the bus and the router of the graph, empty stores. The other fields are not used.\<close>

definition start_objects :: "graph_spec \<Rightarrow> run_state" where
  "start_objects g =
     \<lparr>rs_obs = 0, rs_router = set_trace_collector True (make_router True (graph_edges g)), rs_bus = make_bus (graph_edges g),
      rs_state = empty_state_store, rs_config = start_config_store g, rs_trigger = empty_trigger_engine, rs_in_flight = [],
      rs_loop = empty_convergence, rs_active_loop = None, rs_next_ticks = [], rs_current_ticks = [], rs_health = [], rs_applied = [],
      rs_result = empty_run_result\<rparr>"

text \<open>\<^verbatim>\<open>lanes.at(...)\<close> throws for a lane that is not declared.\<close>

fun runtime_components :: "graph_spec \<Rightarrow> component_node_spec list \<Rightarrow> runner_state \<Rightarrow> string + event_runtime_component list" where
  "runtime_components g [] s = Inr []"
| "runtime_components g (spec # specs) s =
     (case instance_for_id (comp_id spec) s of
        None \<Rightarrow> runtime_components g specs s
      | Some i \<Rightarrow>
          (case map_of (lane_configs g) (ex_lane (execution spec)) of
             None \<Rightarrow> Inl ''map::at''
           | Some l \<Rightarrow>
               map_sum id (Cons \<lparr>erc_id = comp_id spec, erc_component = True, erc_context = in_context i, erc_spec = spec, erc_lane = l\<rparr>)
                 (runtime_components g specs s)))"

text \<open>The cancellation token of the run is the stop token; there is no callback after an iteration.\<close>

definition runtime_environment :: "runner_environment \<Rightarrow> environment" where
  "runtime_environment env =
     (rn_runtime env)\<lparr>env_cancel := env_stop (rn_runtime env), env_cancel_valid := True, env_after_iteration := \<lambda>_. []\<rparr>"

definition runtime_run_options :: "graph_spec \<Rightarrow> runtime_runner_options \<Rightarrow> scheduler_run_options" where
  "runtime_run_options g opts =
     \<lparr>tick_iterations = ro_tick_iterations opts, run_duration_ms = ro_run_duration_ms opts, run_until_idle = ro_run_until_idle opts,
      max_recorded_ticked_tasks = length (components g) * max 1 (ro_tick_iterations opts)\<rparr>"

definition runtime_of :: "graph_compiled_plan \<Rightarrow> event_runtime_component list \<Rightarrow> event_runtime" where
  "runtime_of plan cs =
     fold add_component cs
       \<lparr>er_channels = True, er_publications = True, er_state_store = True, er_config_store = True, er_health_events = True,
        er_compiled_plan = plan, er_components = []\<rparr>"

fun take_snapshots :: "runner_environment \<Rightarrow> graph_spec \<Rightarrow> runner_instance list \<Rightarrow> runner_state \<Rightarrow> string option \<times> runner_state" where
  "take_snapshots env g [] s = (None, s)"
| "take_snapshots env g (i # is) s =
     (if \<not> in_started i then take_snapshots env g is s
      else
        (let cid = in_id i; s1 = record_runner_trace_event env ''component_snapshot'' cid ''begin'' s
         in case rn_snapshot env (ru_obs s1) cid of
              Inl what \<Rightarrow> (Some what, tick_obs s1)
            | Inr (Inl msg) \<Rightarrow>
                take_snapshots env g is
                  (record_runner_trace_event env ''component_snapshot'' cid ''error''
                     (on_result (\<lambda>r. append_runtime_error
                          (make_runtime_error ''snapshot'' cid (case spec_for_id g cid of None \<Rightarrow> [] | Some spec \<Rightarrow> ex_lane (execution spec)) msg
                             ''component_snapshot'' False)
                          (r\<lparr>rr_ok := False, rr_lifecycle_snapshot_failure_count := rr_lifecycle_snapshot_failure_count r + 1\<rparr>)) (tick_obs s1)))
            | Inr (Inr sn) \<Rightarrow>
                (let typed = (case spec_for_id g cid of
                                None \<Rightarrow> sn
                              | Some spec \<Rightarrow> if cst_component_type sn = [] then sn\<lparr>cst_component_type := comp_type spec\<rparr> else sn);
                     sized = typed\<lparr>cst_size_bytes := snapshot_size_bytes typed\<rparr>
                 in take_snapshots env g is
                      (record_runner_trace_event env ''component_snapshot'' cid ''ok''
                         (on_result (\<lambda>r. r\<lparr>rr_lifecycle_snapshot_bytes := rr_lifecycle_snapshot_bytes r + cst_size_bytes sized,
                                            rr_component_state_snapshots := smap_put cid sized (rr_component_state_snapshots r),
                                            rr_lifecycle_snapshot_count := rr_lifecycle_snapshot_count r + 1\<rparr>) (tick_obs s1))))))"

definition count_samples :: "runtime_runner_result \<Rightarrow> runtime_runner_result" where
  "count_samples r = r\<lparr>rr_metric_samples := length (rr_runtime_metrics r)\<rparr>"

text \<open>The collection of everything after the components have been stopped.\<close>

definition collect_all :: "runner_environment \<Rightarrow> graph_spec \<Rightarrow> runtime_runner_options \<Rightarrow> runner_state \<Rightarrow> runner_state" where
  "collect_all env g opts s =
     (let x = ru_objects s; k = ru_obs s; h = rn_health env k (start_health_sink g opts);
          r1 = collect_health h (collect_publications (rmetrics (rs_router x)) (collect_channels (metrics_snapshot (rs_bus x)) (ru_result s)));
          r2 = append_lifecycle_metrics
                 (append_runtime_metrics (health_metric_samples r1 @ state_metric_samples (state_metrics_of (rs_state x)) @
                    config_metric_samples (config_metrics_of (rs_config x))) r1);
          r3 = copy_trace_to_result (rn_trace_id env k) (ru_spans s) (rr_health_events r2)
                 (append_runtime_metrics (map (\<lambda>(name, v). metric name v [] [] []) (rn_component_metrics env)) r2);
          r4 = count_samples (append_runtime_metrics [plain ''runtime.trace.event_count'' (rr_trace_event_count r3)] r3)
      in (tick_obs s)\<lparr>ru_result := r4\<rparr>)"

definition finish_early_after_lifecycle_error :: "runner_environment \<Rightarrow> graph_spec \<Rightarrow> runtime_runner_options \<Rightarrow> runner_state \<Rightarrow> runner_state" where
  "finish_early_after_lifecycle_error env g opts s =
     (let s1 = stop_components env False s; k = ru_obs s1; h = rn_health env k (start_health_sink g opts);
          r1 = collect_health h (append_lifecycle_metrics (ru_result s1));
          r2 = copy_trace_to_result (rn_trace_id env k) (ru_spans s1) (rr_health_events r1) r1
      in (tick_obs s1)\<lparr>ru_result := count_samples (append_runtime_metrics (nonzero_metric ''runtime.trace.event_count'' (rr_trace_event_count r2)) r2)\<rparr>)"

text \<open>The \<^verbatim>\<open>try\<close> block ends, returns the result from within, or throws.\<close>

datatype try_end = TryEnd | TryReturn | TryThrown string

definition try_result :: "string option \<times> runner_state \<Rightarrow> try_end \<times> runner_state" where
  "try_result x = (case fst x of None \<Rightarrow> (TryReturn, snd x) | Some what \<Rightarrow> (TryThrown what, snd x))"

text \<open>From the creation of the event runtime to the end of the block.\<close>

definition execute_runtime ::
    "runner_environment \<Rightarrow> graph_spec \<Rightarrow> graph_compiled_plan \<Rightarrow> runtime_runner_options \<Rightarrow> runner_state \<Rightarrow> (try_end \<times> runner_state) option" where
  "execute_runtime env g plan opts s =
     (case runtime_components g (components g) s of
        Inl what \<Rightarrow> Some (TryThrown what, s)
      | Inr cs \<Rightarrow>
          (let x = ru_objects s
           in case run (runtime_environment env) (runtime_run_options g opts) (runtime_of plan cs) (rs_router x) (rs_bus x) (rs_state x) (rs_config x) of
                None \<Rightarrow> None
              | Some x' \<Rightarrow>
                  (let s1 = (tick_obs s)\<lparr>ru_objects := x', ru_spans := ru_spans s @ rn_spans env, ru_result := collect_run (rs_result x') (ru_result s)\<rparr>;
                       (thrown, s2) = (if ro_capture_component_state_snapshots opts then take_snapshots env g (ru_instances s1) s1 else (None, s1))
                   in Some (case thrown of
                              Some what \<Rightarrow> (TryThrown what, s2)
                            | None \<Rightarrow> (TryEnd, collect_all env g opts (stop_components env True s2))))))"

definition note_started :: "runner_state \<Rightarrow> runner_state" where
  "note_started s =
     on_result (\<lambda>r. r\<lparr>rr_instantiated_components := length (ru_instances s),
                       rr_configured_components := length (filter in_configured (ru_instances s)),
                       rr_started_components := length (filter in_started (ru_instances s))\<rparr>) s"

definition run_try ::
    "runner_environment \<Rightarrow> component_registry \<Rightarrow> graph_spec \<Rightarrow> graph_compiled_plan \<Rightarrow> runtime_runner_options \<Rightarrow> runner_state \<Rightarrow>
     (try_end \<times> runner_state) option" where
  "run_try env reg g plan opts s = do {
     (thrown, s0) \<leftarrow> start_components env reg g (components g) s;
     case thrown of
       Some what \<Rightarrow> Some (TryThrown what, s0)
     | None \<Rightarrow>
         (let s1 = note_started s0
          in if has_fatal_runtime_error (ru_result s1)
             then map_option try_result (finish_result env g opts (stop_components env False s1))
             else
               (case restore_components env g (ro_restore_component_states opts) s1 of
                  (Some what, s2) \<Rightarrow> Some (TryThrown what, s2)
                | (None, s2) \<Rightarrow> do {
                    s3 \<leftarrow> reset_components env g [] (ro_reset_component_ids opts) s2;
                    if has_fatal_runtime_error (ru_result s3)
                    then map_option try_result (finish_result env g opts (finish_early_after_lifecycle_error env g opts s3))
                    else execute_runtime env g plan opts s3
                  }))
   }"

definition run_catch :: "runner_environment \<Rightarrow> string \<Rightarrow> runner_state \<Rightarrow> runner_state" where
  "run_catch env what s =
     stop_components env False
       (on_result (\<lambda>r. append_runtime_error (make_runtime_error ''runtime'' [] [] what ''exception'' True) (r\<lparr>rr_ok := False\<rparr>)) s)"

definition start_runner :: "runner_environment \<Rightarrow> graph_spec \<Rightarrow> runtime_runner_options \<Rightarrow> runner_state" where
  "start_runner env g opts =
     \<lparr>ru_obs = 1,
      ru_result = empty_runner_result\<lparr>rr_graph_name := graph_name g, rr_component_count := length (components g),
                    rr_channel_count := length (graph_edges g)\<rparr>,
      ru_objects = start_objects g,
      ru_live = snd (session_try_publish (make_live_event KRunStarted 0 (rn_live_clock env 0 0 0)) (make_live_session (ro_live_observe opts))),
      ru_instances = [], ru_spans = [], ru_deactivated = []\<rparr>"

text \<open>\<^verbatim>\<open>RuntimeRunner::run\<close>: the text of an exception that leaves it, if there is one, and the state at the end.\<close>

definition runner_run ::
    "runner_environment \<Rightarrow> (string \<Rightarrow> (fp \<times> nat) option) \<Rightarrow> component_registry \<Rightarrow> graph_spec \<Rightarrow> runtime_runner_options \<Rightarrow>
     (string option \<times> runner_state) option" where
  "runner_run env stod reg g opts = do {
     v \<leftarrow> validate_graph stod g reg;
     let s = on_result (\<lambda>r. r\<lparr>rr_validation := Some v\<rparr>) (start_runner env g opts);
     if \<not> gr_ok v
     then finish_result env g opts
            (on_result (\<lambda>r. fold (\<lambda>msg. append_runtime_error (make_runtime_error ''validate'' [] [] msg ''validation'' True)) (gr_errors v)
                              (r\<lparr>rr_ok := False\<rparr>)) s)
     else case ro_mode opts of
       KValidate \<Rightarrow> finish_result env g opts (on_result (\<lambda>r. r\<lparr>rr_ok := True\<rparr>) s)
     | KDryRun \<Rightarrow> do {
         d \<leftarrow> dry_run_graph stod g reg (ro_tick_iterations opts);
         finish_result env g opts
           (on_result (\<lambda>r. (copy_dry_run_to_runner d
                 (fold (\<lambda>msg. append_runtime_error (make_runtime_error ''dry_run'' [] [] msg ''dry_run'' True)) (dr_errors d)
                    (r\<lparr>rr_ok := dr_ok d\<rparr>)))\<lparr>rr_scheduler_stop_reason := TickBound\<rparr>) s)
       }
     | KRun \<Rightarrow> do {
         (e, s1) \<leftarrow> run_try env reg g (vr_compiled_plan v) opts s;
         case e of
           TryReturn \<Rightarrow> Some (None, s1)
         | TryEnd \<Rightarrow> finish_result env g opts s1
         | TryThrown what \<Rightarrow> finish_result env g opts (run_catch env what s1)
       }
   }"

end
