(* ===== verification/Runtime_Runner_Laws.thy ===== *)
theory Runtime_Runner_Laws
  imports Runtime_Runner Live_Observe_Laws Event_Runtime_Laws Metric_Schema Graph_Validate_Laws
begin

text \<open>
  Laws of the runner: it returns, every component that was started is stopped once and in reverse order, the result is consistent, and the
  metrics conform to the schema.
\<close>

section \<open>Live events\<close>

definition session_wf :: "live_session \<Rightarrow> bool" where
  "session_wf ses \<longleftrightarrow> ring_wf (ls_buffer (ses_stream ses))"

lemma session_wf_start: "session_wf (make_live_session opts)"
  by (simp add: session_wf_def make_live_session_def make_live_stream_def)

lemma session_wf_publish: "session_wf ses \<Longrightarrow> session_wf (snd (session_try_publish e ses))"
  unfolding session_wf_def session_try_publish_def stream_try_publish_def next_local_seq_def
  by (auto simp: Let_def split: prod.split dest: ring.push_keeps)

lemma session_wf_fold: "(\<And>x s. session_wf s \<Longrightarrow> session_wf (f x s)) \<Longrightarrow> session_wf ses \<Longrightarrow> session_wf (fold f xs ses)"
  by (induction xs arbitrary: ses) auto

lemma session_wf_trace_events: "session_wf ses \<Longrightarrow> session_wf (publish_live_trace_events clk ids r ses)"
  unfolding publish_live_trace_events_def by (auto intro!: session_wf_fold session_wf_publish split: option.splits)

lemma session_wf_error_events: "session_wf ses \<Longrightarrow> session_wf (publish_live_error_events clk ids r ses)"
  unfolding publish_live_error_events_def by (auto intro!: session_wf_fold session_wf_publish)

lemma session_drain_returns: "session_wf ses \<Longrightarrow> \<exists>evs ses'. session_drain 0 ses = Some (evs, ses') \<and> session_wf ses'"
  using drain_loop_drains [of "ses_stream ses" "[]"] by (auto simp: session_drain_def session_wf_def)

lemma session_wf_summary: "session_wf ses \<Longrightarrow> session_wf (snd (session_take_drop_summary t k ses))"
  by (auto simp: session_wf_def session_take_drop_summary_def stream_take_drop_summary_def take_pending_drop_count_def next_local_seq_def
      Let_def split: prod.split)

text \<open>Finishing live observe returns and only touches what it reports.\<close>

definition live_metrics :: "nat \<Rightarrow> runtime_metric_sample list" where
  "live_metrics n = nonzero_metric ''runtime.live_observe.dropped_event_count'' n"

definition live_report :: "nat \<Rightarrow> live_event list \<Rightarrow> runtime_runner_result \<Rightarrow> runtime_runner_result" where
  "live_report dropped evs r =
     count_samples (append_runtime_metrics (live_metrics dropped) (r\<lparr>rr_live_events := evs, rr_live_observe_dropped_event_count := dropped\<rparr>))"

lemma finish_live_returns:
  assumes "session_wf ses"
  shows "\<exists>r' ses'. finish_live_observe clk ids r ses = Some (r', ses') \<and> session_wf ses' \<and> (r' = r \<or> (\<exists>n evs. r' = live_report n evs r))"
proof (cases "session_enabled ses")
  case False
  with assms show ?thesis by (simp add: finish_live_observe_def)
next
  case True
  define fin where "fin = (make_live_event KRunFinished 0 (clk 2 0))\<lparr>le_value0 := (if rr_ok r then 1 else 0),
                          le_value1 := of_nat (rr_tick_calls r), le_value2 := of_nat (length (rr_runtime_errors r))\<rparr>"
  define s2 where "s2 = snd (session_try_publish fin (publish_live_error_events (clk 1) ids r (publish_live_trace_events (clk 0) ids r ses)))"
  have "session_wf s2"
    unfolding s2_def by (intro session_wf_publish session_wf_error_events session_wf_trace_events assms)
  then obtain evs s3 where s3: "session_drain 0 s2 = Some (evs, s3)" "session_wf s3" using session_drain_returns by blast
  obtain summary s4 where s4: "session_take_drop_summary (clk 3 0) 0 s3 = (summary, s4)" by fastforce
  with session_wf_summary [OF s3(2), of "clk 3 0" 0] have "session_wf s4" by simp
  with True s3(1) s4 show ?thesis
    unfolding finish_live_observe_def fin_def [symmetric] Let_def s2_def [symmetric]
    by (auto simp: live_report_def live_metrics_def count_samples_def)
qed

section \<open>Samples that conform to the schema\<close>

definition has_labels :: "string list \<Rightarrow> string \<Rightarrow> bool" where
  "has_labels ls name \<longleftrightarrow> map_option md_labels (find_runtime_metric_descriptor name) = Some ls"

lemma metric_conforms:
  "has_labels ls name \<Longrightarrow> (cid \<noteq> [] \<longrightarrow> ''component_id'' \<in> set ls) \<Longrightarrow> (lane \<noteq> [] \<longrightarrow> ''lane'' \<in> set ls) \<Longrightarrow> (ch \<noteq> [] \<longrightarrow> ''channel_id'' \<in> set ls) \<Longrightarrow>
     sample_conforms (metric name v cid lane ch)"
  by (auto simp: has_labels_def sample_conforms_def metric_def has_label_def)

lemma conforms_lane: "has_labels [''lane''] name \<Longrightarrow> sample_conforms (metric name v [] lane [])"
  and conforms_component: "has_labels [''component_id''] name \<Longrightarrow> sample_conforms (metric name v cid [] [])"
  and conforms_channel: "has_labels [''channel_id''] name \<Longrightarrow> sample_conforms (metric name v [] [] ch)"
  and conforms_plain: "has_labels [] name \<Longrightarrow> sample_conforms (metric name v [] [] [])"
  by (auto intro: metric_conforms)

lemma descriptor_labels_known: "list_all (\<lambda>d. has_labels (md_labels d) (md_name d)) runtime_metric_descriptors"
  using find_descriptor [OF descriptor_names_distinct] by (auto simp: list_all_iff has_labels_def find_runtime_metric_descriptor_def)

lemmas metric_labels = descriptor_labels_known [unfolded runtime_metric_descriptors_def add_descriptors_def, simplified]

lemma live_metric_unknown: "\<not> sample_conforms (metric ''runtime.live_observe.dropped_event_count'' v c l h)"
proof -
  have "find_runtime_metric_descriptor ''runtime.live_observe.dropped_event_count'' = None" by code_simp
  then show ?thesis by (simp add: sample_conforms_def metric_def)
qed

lemma nonzero_conforms: "has_labels [] name \<Longrightarrow> list_all sample_conforms (nonzero_metric name n)"
  by (simp add: nonzero_metric_def conforms_plain)

lemma samples_conform:
  "list_all sample_conforms (scheduler_metric_samples e1)" "list_all sample_conforms (component_metric_samples e2)"
  "list_all sample_conforms (trigger_metric_samples e3)" "list_all sample_conforms (channel_metric_samples e4)"
  "list_all sample_conforms (publication_metric_samples e5)" "list_all sample_conforms (state_metric_samples e6)"
  "list_all sample_conforms (config_metric_samples e7)" "list_all sample_conforms (health_metric_samples e8)"
  by (simp_all add: scheduler_metric_samples_def component_metric_samples_def trigger_metric_samples_def channel_metric_samples_def
      publication_metric_samples_def state_metric_samples_def config_metric_samples_def health_metric_samples_def plain_def Let_def metric_labels
      conforms_lane conforms_component conforms_channel conforms_plain)

lemma loop_samples_conform: "has_labels [''component_id''] name \<Longrightarrow> list_all sample_conforms (loop_count_samples name m)"
  by (induction m) (auto simp: loop_count_samples_def conforms_component)

lemma concat_conform: "(\<And>x. list_all sample_conforms (f x)) \<Longrightarrow> list_all sample_conforms (concat (map f xs))"
  by (induction xs) auto

section \<open>Phases of a run\<close>

abbreviation errors_of :: "runner_state \<Rightarrow> runtime_error list" where
  "errors_of s \<equiv> rr_runtime_errors (ru_result s)"

abbreviation metrics_of :: "runner_state \<Rightarrow> runtime_metric_sample list" where
  "metrics_of s \<equiv> rr_runtime_metrics (ru_result s)"

abbreviation started_ids :: "runner_state \<Rightarrow> string list" where
  "started_ids s \<equiv> map in_id (filter in_started (ru_instances s))"

definition of_observers :: "runtime_error \<Rightarrow> bool" where
  "of_observers e \<longleftrightarrow> err_phase e = ''observer''"

text \<open>No component has been stopped yet, nothing has been reported to observers.\<close>

definition unstopped :: "runner_state \<Rightarrow> bool" where
  "unstopped s \<longleftrightarrow> ru_deactivated s = [] \<and> rr_stopped_components (ru_result s) = 0 \<and> rr_live_observe_dropped_event_count (ru_result s) = 0 \<and>
     session_wf (ru_live s) \<and> list_all (Not \<circ> of_observers) (errors_of s) \<and> list_all sample_conforms (metrics_of s)"

text \<open>Before the event runtime runs: all errors are fatal, and the objects are well formed.\<close>

definition objects_ok :: "graph_spec \<Rightarrow> run_state \<Rightarrow> bool" where
  "objects_ok g x \<longleftrightarrow> (bus_reachable (graph_edges g) (rs_bus x) \<and> limits_inv (rs_router x)) \<and> state_wf (rs_state x) \<and> config_wf (rs_config x) \<and>
     trigger_wf (rs_trigger x)"

definition before_run :: "graph_spec \<Rightarrow> runner_state \<Rightarrow> bool" where
  "before_run g s \<longleftrightarrow> unstopped s \<and> list_all err_fatal (errors_of s) \<and> \<not> rr_ok (ru_result s) \<and> objects_ok g (ru_objects s)"

text \<open>Every started component has been stopped.\<close>

definition conforming_components :: "runner_environment \<Rightarrow> bool" where
  "conforming_components env \<longleftrightarrow> list_all (\<lambda>(name, v). sample_conforms (metric name v [] [] [])) (rn_component_metrics env)"

definition all_stopped :: "runner_environment \<Rightarrow> runner_state \<Rightarrow> bool" where
  "all_stopped env s \<longleftrightarrow> ru_deactivated s = rev (started_ids s) \<and> rr_stopped_components (ru_result s) = length (started_ids s) \<and>
     rr_live_observe_dropped_event_count (ru_result s) = 0 \<and> session_wf (ru_live s) \<and> list_all (Not \<circ> of_observers) (errors_of s) \<and>
     (rr_ok (ru_result s) \<longleftrightarrow> errors_of s = []) \<and> (conforming_components env \<longrightarrow> list_all sample_conforms (metrics_of s))"

lemmas phase_defs = unstopped_def before_run_def all_stopped_def of_observers_def

lemma calls_exec_ok: "objects_ok g x \<Longrightarrow> \<exists>x'. calls_exec now n calls x = Some x' \<and> objects_ok g x'"
  using runtime_objects.calls_return [of "graph_edges g" x now n calls] by (simp add: runtime_objects.ok_def objects_ok_def)

named_theorems runner_frame "what the small updates of a runner state leave as it is"

lemma tick_obs_frame [runner_frame]:
  "ru_result (tick_obs s) = ru_result s" "ru_objects (tick_obs s) = ru_objects s" "ru_live (tick_obs s) = ru_live s"
  "ru_instances (tick_obs s) = ru_instances s" "ru_deactivated (tick_obs s) = ru_deactivated s" "ru_spans (tick_obs s) = ru_spans s"
  by (simp_all add: tick_obs_def)

lemma on_result_frame [runner_frame]:
  "ru_result (on_result f s) = f (ru_result s)" "ru_objects (on_result f s) = ru_objects s" "ru_live (on_result f s) = ru_live s"
  "ru_instances (on_result f s) = ru_instances s" "ru_deactivated (on_result f s) = ru_deactivated s" "ru_spans (on_result f s) = ru_spans s"
  by (simp_all add: on_result_def)

lemma trace_event_frame [runner_frame]:
  "ru_result (record_runner_trace_event env name cid st s) = ru_result s" "ru_objects (record_runner_trace_event env name cid st s) = ru_objects s"
  "ru_live (record_runner_trace_event env name cid st s) = ru_live s" "ru_instances (record_runner_trace_event env name cid st s) = ru_instances s"
  "ru_deactivated (record_runner_trace_event env name cid st s) = ru_deactivated s"
  by (simp_all add: record_runner_trace_event_def Let_def tick_obs_def)

lemma remember_frame [runner_frame]:
  "ru_result (remember_instance g spec c st s) = ru_result s" "ru_objects (remember_instance g spec c st s) = ru_objects s"
  "ru_live (remember_instance g spec c st s) = ru_live s" "ru_deactivated (remember_instance g spec c st s) = ru_deactivated s"
  "ru_instances (remember_instance g spec c st s) =
     ru_instances s @ [\<lparr>in_id = comp_id spec, in_context = instance_context g spec, in_configured = c, in_started = st\<rparr>]"
  by (simp_all add: remember_instance_def)

lemma fail_result_frame [runner_frame]:
  "rr_runtime_errors (fail_result phase cid lane msg code r) = rr_runtime_errors r @ [make_runtime_error phase cid lane msg code True]"
  "rr_ok (fail_result phase cid lane msg code r) = False" "rr_runtime_metrics (fail_result phase cid lane msg code r) = rr_runtime_metrics r"
  "rr_stopped_components (fail_result phase cid lane msg code r) = rr_stopped_components r"
  "rr_live_observe_dropped_event_count (fail_result phase cid lane msg code r) = rr_live_observe_dropped_event_count r"
  by (simp_all add: fail_result_def append_runtime_error_def)

lemma before_run_frame:
  assumes "ru_result s' = ru_result s" "ru_objects s' = ru_objects s" "ru_live s' = ru_live s" "ru_deactivated s' = ru_deactivated s"
  shows "before_run g s' = before_run g s"
  using assms by (simp add: phase_defs)

lemma before_run_simps [simp]:
  "before_run g (tick_obs s) = before_run g s" "before_run g (record_runner_trace_event env name cid st s) = before_run g s"
  "before_run g (remember_instance g' spec c b s) = before_run g s"
  by (rule before_run_frame; simp add: runner_frame)+

text \<open>A fatal error keeps a run open.\<close>

lemma before_run_fail:
  assumes "before_run g s" and "phase \<noteq> ''observer''"
    and "rr_runtime_errors (f (ru_result s)) = errors_of s" "rr_runtime_metrics (f (ru_result s)) = metrics_of s"
      "rr_stopped_components (f (ru_result s)) = rr_stopped_components (ru_result s)"
      "rr_live_observe_dropped_event_count (f (ru_result s)) = rr_live_observe_dropped_event_count (ru_result s)"
  shows "before_run g (on_result (\<lambda>r. fail_result phase cid lane msg code (f r)) s)"
  using assms by (simp add: phase_defs runner_frame make_runtime_error_def)

lemma before_run_fail_id: "before_run g s \<Longrightarrow> phase \<noteq> ''observer'' \<Longrightarrow> before_run g (on_result (fail_result phase cid lane msg code) s)"
  using before_run_fail [of g s phase id cid lane msg code] by simp

lemma run_method_returns:
  assumes "before_run g s"
  shows "\<exists>s'. run_method env ctx bh s = Some s' \<and> before_run g s' \<and> ru_instances s' = ru_instances s \<and> ru_result s' = ru_result s"
proof -
  have "objects_ok g (ru_objects s)" using assms by (simp add: before_run_def)
  from calls_exec_ok [OF this] obtain x where "calls_exec (rn_clock env (ru_obs s)) 0 (map (Pair ctx) (bh_calls bh)) (ru_objects s) = Some x"
    "objects_ok g x" by blast
  with assms show ?thesis by (auto simp: run_method_def phase_defs runner_frame)
qed

section \<open>Starting\<close>

definition started_instance :: "graph_spec \<Rightarrow> component_node_spec \<Rightarrow> runner_instance" where
  "started_instance g spec = \<lparr>in_id = comp_id spec, in_context = instance_context g spec, in_configured = True, in_started = True\<rparr>"

lemma start_components_returns:
  assumes "before_run g s" and "\<forall>i \<in> set (ru_instances s). in_started i"
  shows "\<exists>thrown s'. start_components env reg g specs s = Some (thrown, s') \<and> before_run g s' \<and>
    (\<exists>n. started_ids s' = started_ids s @ take n (map comp_id specs)) \<and>
    (thrown = None \<and> errors_of s' = [] \<longrightarrow> ru_instances s' = ru_instances s @ map (started_instance g) specs)"
  using assms
proof (induction specs arbitrary: s)
  case (Cons spec specs)
  show ?case
  proof (cases "create_instance env reg (ru_obs s) (comp_type spec)")
    case (Some what)
    with Cons.prems show ?thesis by (auto simp: runner_frame intro: exI [of _ 0])
  next
    case create: None
    let ?s1 = "tick_obs s"
    let ?bh = "rn_configure env (ru_obs ?s1) (comp_id spec) (comp_config spec)"
    obtain s2 where s2: "run_method env (instance_context g spec) ?bh ?s1 = Some s2" "before_run g s2" "ru_instances s2 = ru_instances s"
      "ru_result s2 = ru_result s"
      using run_method_returns [of g ?s1 env "instance_context g spec" ?bh] Cons.prems(1) by (auto simp: runner_frame)
    show ?thesis
    proof (cases "bh_status ?bh")
      case (StatusError msg)
      with create s2 show ?thesis
        by (auto simp: Let_def runner_frame before_run_fail_id intro: exI [of _ 0])
    next
      case conf: Success
      show ?thesis
      proof (cases "rn_activate env (ru_obs s2) (comp_id spec)")
        case (StatusError msg)
        with create conf s2 show ?thesis
          by (auto simp: Let_def runner_frame before_run_fail_id intro: exI [of _ 0])
      next
        case Success
        let ?s3 = "remember_instance g spec True True (tick_obs s2)"
        have i3: "ru_instances ?s3 = ru_instances s @ [started_instance g spec]" using s2(3) by (simp add: runner_frame started_instance_def)
        have "before_run g ?s3" "\<forall>i \<in> set (ru_instances ?s3). in_started i"
          using s2(2) Cons.prems(2) i3 by (auto simp: started_instance_def)
        from Cons.IH [OF this] obtain thrown s' n where s': "start_components env reg g specs ?s3 = Some (thrown, s')" "before_run g s'"
          "started_ids s' = started_ids ?s3 @ take n (map comp_id specs)"
          "thrown = None \<and> errors_of s' = [] \<longrightarrow> ru_instances s' = ru_instances ?s3 @ map (started_instance g) specs" by blast
        have "start_components env reg g (spec # specs) s = Some (thrown, s')" using create conf s2(1) Success s'(1) by (simp add: Let_def)
        moreover have "started_ids s' = started_ids s @ take (Suc n) (map comp_id (spec # specs))"
          using s'(3) i3 by (simp add: started_instance_def)
        ultimately show ?thesis using s'(2,4) i3 by (intro exI [of _ thrown] exI [of _ s'] conjI exI [of _ "Suc n"]) simp_all
      qed
    qed
  qed
qed (auto intro: exI [of _ 0])

section \<open>Restoring and resetting\<close>

lemma count_failure_frame [runner_frame]:
  "rr_runtime_errors (count_restore_failure r) = rr_runtime_errors r" "rr_runtime_metrics (count_restore_failure r) = rr_runtime_metrics r"
  "rr_stopped_components (count_restore_failure r) = rr_stopped_components r"
  "rr_live_observe_dropped_event_count (count_restore_failure r) = rr_live_observe_dropped_event_count r"
  "rr_runtime_errors (count_reset_failure r) = rr_runtime_errors r" "rr_runtime_metrics (count_reset_failure r) = rr_runtime_metrics r"
  "rr_stopped_components (count_reset_failure r) = rr_stopped_components r"
  "rr_live_observe_dropped_event_count (count_reset_failure r) = rr_live_observe_dropped_event_count r"
  by (simp_all add: count_restore_failure_def count_reset_failure_def)

lemma before_run_restore_fail [simp]:
  "before_run g s \<Longrightarrow> before_run g (on_result (\<lambda>r. fail_result ''restore'' cid lane msg code (count_restore_failure r)) s)"
  by (rule before_run_fail) (simp_all add: runner_frame)

lemma before_run_reset_fail [simp]:
  "before_run g s \<Longrightarrow> before_run g (on_result (\<lambda>r. fail_result ''reset'' cid lane msg code (count_reset_failure r)) s)"
  by (rule before_run_fail) (simp_all add: runner_frame)

lemma before_run_counts [simp]:
  "before_run g (on_result (\<lambda>r. r\<lparr>rr_lifecycle_restore_count := f r\<rparr>) s) = before_run g s"
  "before_run g (on_result (\<lambda>r. r\<lparr>rr_lifecycle_reset_count := f r\<rparr>) s) = before_run g s"
  by (simp_all add: phase_defs runner_frame)

lemma restore_components_keeps:
  "before_run g s \<Longrightarrow> restore_components env g sns s = (thrown, s') \<Longrightarrow> before_run g s' \<and> ru_instances s' = ru_instances s"
proof (induction sns arbitrary: s)
  case (Cons sn sns)
  obtain cid v where sn: "sn = (cid, v)" by fastforce
  show ?case using Cons.prems
    by (auto simp: sn Let_def runner_frame split: option.splits if_splits sum.splits status.splits dest!: Cons.IH [rotated])
qed simp

lemma reset_components_returns:
  "before_run g s \<Longrightarrow> \<exists>s'. reset_components env g seen cids s = Some s' \<and> before_run g s' \<and> ru_instances s' = ru_instances s"
proof (induction cids arbitrary: seen s)
  case (Cons cid cids)
  have not_started: ?case if "\<exists>seen'. reset_components env g seen (cid # cids) s = reset_components env g seen' cids (reset_not_started cid s)"
    using that Cons.IH [of "reset_not_started cid s"] Cons.prems by (auto simp: reset_not_started_def runner_frame)
  show ?case
  proof (cases "cid \<in> set seen")
    case new: False
    show ?thesis
    proof (cases "\<exists>i spec. instance_for_id cid s = Some i \<and> spec_for_id g cid = Some spec \<and> in_started i")
      case False
      then show ?thesis using new by (intro not_started exI [of _ "cid # seen"]) (auto split: option.splits)
    next
      case True
      then obtain i spec where i: "instance_for_id cid s = Some i" "spec_for_id g cid = Some spec" "in_started i" by blast
      let ?s1 = "record_runner_trace_event env ''component_reset'' cid ''begin'' s"
      let ?bh = "rn_reset env (ru_obs ?s1) cid"
      obtain s2 where s2: "run_method env (in_context i) ?bh ?s1 = Some s2" "before_run g s2" "ru_instances s2 = ru_instances s"
        using run_method_returns [of g ?s1 env "in_context i" ?bh] Cons.prems by (auto simp: runner_frame)
      let ?s3 = "case bh_status ?bh of
          StatusError msg \<Rightarrow> record_runner_trace_event env ''component_reset'' cid ''error''
            (on_result (\<lambda>r. fail_result ''reset'' cid (ex_lane (execution spec)) msg ''component_reset'' (count_reset_failure r)) s2)
        | Success \<Rightarrow> record_runner_trace_event env ''component_reset'' cid ''ok''
            (on_result (\<lambda>r. r\<lparr>rr_lifecycle_reset_count := rr_lifecycle_reset_count r + 1\<rparr>) s2)"
      have "before_run g ?s3" "ru_instances ?s3 = ru_instances s" using s2 by (auto simp: runner_frame split: status.splits)
      with Cons.IH [of ?s3 "cid # seen"] new i s2(1) show ?thesis by (simp add: Let_def)
    qed
  qed (use Cons in simp)
qed simp

section \<open>Stopping\<close>

lemma deactivate_effect:
  "ru_deactivated (deactivate_started env mark is s) = ru_deactivated s @ map in_id (filter in_started is) \<and>
   rr_stopped_components (ru_result (deactivate_started env mark is s)) = rr_stopped_components (ru_result s) + length (filter in_started is) \<and>
   ru_instances (deactivate_started env mark is s) = ru_instances s \<and> ru_live (deactivate_started env mark is s) = ru_live s \<and>
   metrics_of (deactivate_started env mark is s) = metrics_of s \<and>
   rr_live_observe_dropped_event_count (ru_result (deactivate_started env mark is s)) = rr_live_observe_dropped_event_count (ru_result s) \<and>
   (\<exists>es. errors_of (deactivate_started env mark is s) = errors_of s @ es \<and> list_all (Not \<circ> of_observers) es \<and>
      rr_ok (ru_result (deactivate_started env mark is s)) = (rr_ok (ru_result s) \<and> (mark \<longrightarrow> es = [])))"
proof (induction "is" arbitrary: s)
  case (Cons i "is")
  define s1 where "s1 = on_result (\<lambda>r. r\<lparr>rr_stopped_components := Suc (rr_stopped_components r)\<rparr>)
                    ((tick_obs s)\<lparr>ru_deactivated := ru_deactivated s @ [in_id i]\<rparr>)"
  define s2 where "s2 = (case rn_deactivate env (ru_obs s) (in_id i) of
                 Success \<Rightarrow> s1
               | StatusError msg \<Rightarrow>
                   on_result (\<lambda>r. append_runtime_error (make_runtime_error ''deactivate'' (in_id i) [] msg ''component_deactivate'' False)
                                    (if mark then r\<lparr>rr_ok := False\<rparr> else r)) s1)"
  have d: "deactivate_started env mark (i # is) s = (if in_started i then deactivate_started env mark is s2 else deactivate_started env mark is s)"
    unfolding s1_def s2_def by (simp add: Let_def split: status.splits)
  have s2: "ru_deactivated s2 = ru_deactivated s @ [in_id i]" "rr_stopped_components (ru_result s2) = rr_stopped_components (ru_result s) + 1"
    "ru_instances s2 = ru_instances s" "ru_live s2 = ru_live s" "metrics_of s2 = metrics_of s"
    "rr_live_observe_dropped_event_count (ru_result s2) = rr_live_observe_dropped_event_count (ru_result s)"
    "\<exists>es. errors_of s2 = errors_of s @ es \<and> list_all (Not \<circ> of_observers) es \<and> rr_ok (ru_result s2) = (rr_ok (ru_result s) \<and> (mark \<longrightarrow> es = []))"
    unfolding s2_def s1_def
    by (auto simp: runner_frame append_runtime_error_def make_runtime_error_def of_observers_def split: status.splits)
  show ?case
  proof (cases "in_started i")
    case True
    from s2(7) obtain es where es: "errors_of s2 = errors_of s @ es" "list_all (Not \<circ> of_observers) es"
      "rr_ok (ru_result s2) = (rr_ok (ru_result s) \<and> (mark \<longrightarrow> es = []))" by blast
    from Cons [of s2] obtain es' where "errors_of (deactivate_started env mark is s2) = errors_of s2 @ es'" "list_all (Not \<circ> of_observers) es'"
      "rr_ok (ru_result (deactivate_started env mark is s2)) = (rr_ok (ru_result s2) \<and> (mark \<longrightarrow> es' = []))" by blast
    with es have "\<exists>es. errors_of (deactivate_started env mark (i # is) s) = errors_of s @ es \<and> list_all (Not \<circ> of_observers) es \<and>
        rr_ok (ru_result (deactivate_started env mark (i # is) s)) = (rr_ok (ru_result s) \<and> (mark \<longrightarrow> es = []))"
      unfolding d using True by (intro exI [of _ "es @ es'"]) auto
    with Cons [of s2] s2(1-6) True show ?thesis unfolding d by (simp add: comp_def)
  qed (use Cons [of s] in \<open>simp add: d\<close>)
qed simp

lemma deactivate_trace:
  "rr_trace (ru_result (deactivate_started env mark is s)) = rr_trace (ru_result s) \<and>
   rr_health_events (ru_result (deactivate_started env mark is s)) = rr_health_events (ru_result s)"
  by (induction "is" arbitrary: s) (auto simp: Let_def runner_frame append_runtime_error_def split: status.splits)

lemma stop_all:
  assumes "unstopped s" and "rr_ok (ru_result s) \<longleftrightarrow> errors_of s = []" and "mark \<or> \<not> rr_ok (ru_result s)"
  shows "all_stopped env (stop_components env mark s)" and "ru_instances (stop_components env mark s) = ru_instances s"
    and "started_ids (stop_components env mark s) = started_ids s"
  using assms deactivate_effect [of env mark "rev (ru_instances s)" s]
  by (auto simp: stop_components_def phase_defs rev_map simp flip: rev_filter)

lemma stop_keeps_failure: "rr_ok (ru_result (stop_components env False s)) = rr_ok (ru_result s)"
  using deactivate_effect [of env False "rev (ru_instances s)" s] by (auto simp: stop_components_def)

lemma catch_stops:
  assumes "unstopped s"
  shows "all_stopped env (run_catch env what s)" and "ru_instances (run_catch env what s) = ru_instances s"
proof -
  let ?s = "on_result (\<lambda>r. append_runtime_error (make_runtime_error ''runtime'' [] [] what ''exception'' True) (r\<lparr>rr_ok := False\<rparr>)) s"
  have "unstopped ?s" "rr_ok (ru_result ?s) \<longleftrightarrow> errors_of ?s = []" "False \<or> \<not> rr_ok (ru_result ?s)" "ru_instances ?s = ru_instances s"
    using assms by (auto simp: phase_defs runner_frame append_runtime_error_def make_runtime_error_def)
  with stop_all [of ?s False env] show "all_stopped env (run_catch env what s)" "ru_instances (run_catch env what s) = ru_instances s"
    by (simp_all add: run_catch_def)
qed

section \<open>Reporting\<close>

text \<open>The end of a run adds errors of observers, metrics of observers, and the metric that the schema does not know if events were dropped.\<close>

definition reported :: "runner_state \<Rightarrow> runner_state \<Rightarrow> bool" where
  "reported s s' \<longleftrightarrow> ru_deactivated s' = ru_deactivated s \<and> ru_instances s' = ru_instances s \<and>
     rr_stopped_components (ru_result s') = rr_stopped_components (ru_result s) \<and> rr_ok (ru_result s') = rr_ok (ru_result s) \<and>
     (\<exists>es. errors_of s' = errors_of s @ es \<and> list_all of_observers es) \<and>
     (\<exists>ms. metrics_of s' = metrics_of s @ ms \<and> (list_all sample_conforms ms \<longleftrightarrow> rr_live_observe_dropped_event_count (ru_result s') = 0))"

definition quiet_observers :: "runner_environment \<Rightarrow> bool" where
  "quiet_observers env \<longleftrightarrow> (\<forall>k j. \<not> isl (rn_observer env k j))"

text \<open>Only the counters of the observers change.\<close>

definition counts_only :: "runner_state \<Rightarrow> runner_state \<Rightarrow> bool" where
  "counts_only s s' \<longleftrightarrow> (\<exists>a b. ru_result s' = (ru_result s)\<lparr>rr_observer_dropped_event_count := a, rr_observer_failure_count := b\<rparr>) \<and>
     ru_live s' = ru_live s \<and> ru_instances s' = ru_instances s \<and> ru_deactivated s' = ru_deactivated s"

lemma counts_only_same:
  "ru_result s' = ru_result s \<Longrightarrow> ru_live s' = ru_live s \<Longrightarrow> ru_instances s' = ru_instances s \<Longrightarrow> ru_deactivated s' = ru_deactivated s \<Longrightarrow>
     counts_only s s'"
  unfolding counts_only_def
  by (intro conjI exI [of _ "rr_observer_dropped_event_count (ru_result s)"] exI [of _ "rr_observer_failure_count (ru_result s)"]) simp_all

lemma counts_only_trans: "counts_only s s' \<Longrightarrow> counts_only s' s'' \<Longrightarrow> counts_only s s''"
proof -
  assume "counts_only s s'" and "counts_only s' s''"
  then obtain a b a' b' where "ru_result s' = (ru_result s)\<lparr>rr_observer_dropped_event_count := a, rr_observer_failure_count := b\<rparr>"
    "ru_result s'' = (ru_result s')\<lparr>rr_observer_dropped_event_count := a', rr_observer_failure_count := b'\<rparr>"
    "ru_live s'' = ru_live s" "ru_instances s'' = ru_instances s" "ru_deactivated s'' = ru_deactivated s"
    by (auto simp: counts_only_def)
  then show "counts_only s s''" unfolding counts_only_def by (intro conjI exI [of _ a'] exI [of _ b']) simp_all
qed

lemma counts_only_add:
  "counts_only s (on_result (\<lambda>r. r\<lparr>rr_observer_dropped_event_count := f r, rr_observer_failure_count := h r\<rparr>) (tick_obs s))"
  unfolding counts_only_def by (simp add: runner_frame) blast

lemma deliver_frame: "deliver env j cs acc s = (t, acc', s') \<Longrightarrow> counts_only s s' \<and> (quiet_observers env \<longrightarrow> t = None)"
proof (induction cs arbitrary: acc s)
  case Nil
  then show ?case by (simp add: counts_only_same)
next
  case (Cons c cs)
  have tick: "counts_only s (tick_obs s)" by (simp add: counts_only_same runner_frame)
  show ?case
  proof (cases "rn_observer env (ru_obs s) j")
    case (Inl what)
    then have "\<not> quiet_observers env" unfolding quiet_observers_def by (metis isl_def)
    with Inl Cons.prems tick show ?thesis by simp
  next
    case (Inr st)
    then obtain acc1 where "deliver env j cs acc1 (tick_obs s) = (t, acc', s')" using Cons.prems by (cases st) auto
    from Cons.IH [OF this] tick show ?thesis using counts_only_trans by blast
  qed
qed

lemma notify_each_frame: "notify_each env os acc s = (t, acc', s') \<Longrightarrow> counts_only s s' \<and> (quiet_observers env \<longrightarrow> t = None)"
proof (induction os arbitrary: acc s)
  case Nil
  then show ?case by (simp add: counts_only_same)
next
  case (Cons o1 os)
  obtain j present where o1: "o1 = (j, present)" by fastforce
  show ?case
  proof (cases present)
    case True
    obtain t1 acc1 s1 where d: "deliver env j (observer_callbacks (ru_result s)) acc s = (t1, acc1, s1)" by (metis prod_cases3)
    note s1 = deliver_frame [OF d]
    show ?thesis
    proof (cases t1)
      case None
      obtain n m where nm: "rn_observer_status env (ru_obs s1) j = (n, m)" by fastforce
      let ?s2 = "on_result (\<lambda>r. r\<lparr>rr_observer_dropped_event_count := rr_observer_dropped_event_count r + n,
                              rr_observer_failure_count := rr_observer_failure_count r + m\<rparr>) (tick_obs s1)"
      have "notify_each env os acc1 ?s2 = (t, acc', s')" using Cons.prems True None d nm by (simp add: o1)
      then have s': "counts_only ?s2 s'" "quiet_observers env \<longrightarrow> t = None" using Cons.IH by simp_all
      have "counts_only s1 ?s2" by (rule counts_only_add)
      from counts_only_trans [OF conjunct1 [OF s1] counts_only_trans [OF this s'(1)]] s'(2) show ?thesis by simp
    qed (use Cons.prems True d s1 in \<open>auto simp: o1\<close>)
  qed (use Cons in \<open>simp add: o1\<close>)
qed

lemma note_observers_frame:
  "rr_stopped_components (note_observers acc r) = rr_stopped_components r" "rr_ok (note_observers acc r) = rr_ok r"
  "rr_live_observe_dropped_event_count (note_observers acc r) = rr_live_observe_dropped_event_count r"
  "\<exists>es. rr_runtime_errors (note_observers acc r) = rr_runtime_errors r @ es \<and> list_all of_observers es"
  "\<exists>ms. rr_runtime_metrics (note_observers acc r) = rr_runtime_metrics r @ ms \<and> list_all sample_conforms ms"
  by (simp_all add: note_observers_def Let_def append_runtime_error_def append_runtime_metrics_def make_runtime_error_def of_observers_def
      nonzero_conforms metric_labels)

lemma notify_frame:
  assumes "notify_runtime_observers env opts s = (t, s')"
  shows "ru_live s' = ru_live s" "ru_instances s' = ru_instances s" "ru_deactivated s' = ru_deactivated s" "quiet_observers env \<Longrightarrow> t = None"
    "rr_stopped_components (ru_result s') = rr_stopped_components (ru_result s)" "rr_ok (ru_result s') = rr_ok (ru_result s)"
    "rr_live_observe_dropped_event_count (ru_result s') = rr_live_observe_dropped_event_count (ru_result s)"
    "\<exists>es. errors_of s' = errors_of s @ es \<and> list_all of_observers es"
    "\<exists>ms. metrics_of s' = metrics_of s @ ms \<and> list_all sample_conforms ms"
proof -
  obtain s1 acc where s1: "counts_only s s1" "s' = s1 \<or> s' = on_result (note_observers acc) s1" "quiet_observers env \<longrightarrow> t = None"
  proof (cases "ro_observers opts = []")
    case True
    with assms counts_only_same [of s s] show thesis by (intro that [of s]) (simp_all add: notify_runtime_observers_def)
  next
    case False
    obtain t1 acc s1 where n: "notify_each env (enumerate 0 (ro_observers opts)) (0, []) s = (t1, acc, s1)" by (metis prod_cases3)
    with assms False notify_each_frame [OF n] show thesis
      by (intro that [of s1 acc]) (cases t1; auto simp: notify_runtime_observers_def)+
  qed
  then show "ru_live s' = ru_live s" "ru_instances s' = ru_instances s" "ru_deactivated s' = ru_deactivated s" "quiet_observers env \<Longrightarrow> t = None"
    "rr_stopped_components (ru_result s') = rr_stopped_components (ru_result s)" "rr_ok (ru_result s') = rr_ok (ru_result s)"
    "rr_live_observe_dropped_event_count (ru_result s') = rr_live_observe_dropped_event_count (ru_result s)"
    by (auto simp: counts_only_def runner_frame note_observers_frame)
  have "errors_of s1 = errors_of s" "metrics_of s1 = metrics_of s" using s1(1) by (auto simp: counts_only_def)
  with s1(2) note_observers_frame(4,5) [of acc "ru_result s1"] show "\<exists>es. errors_of s' = errors_of s @ es \<and> list_all of_observers es"
    "\<exists>ms. metrics_of s' = metrics_of s @ ms \<and> list_all sample_conforms ms"
    by (auto simp: runner_frame intro: exI [of _ "[]"])
qed

lemma finish_result_reports:
  assumes "session_wf (ru_live s)" and "rr_live_observe_dropped_event_count (ru_result s) = 0"
  shows "\<exists>t s'. finish_result env g opts s = Some (t, s') \<and> reported s s' \<and> session_wf (ru_live s') \<and> (quiet_observers env \<longrightarrow> t = None)"
proof -
  let ?clk = "rn_live_clock env (ru_obs s)"
  obtain r ses where l: "finish_live_observe ?clk (make_live_id_maps g) (ru_result s) (ru_live s) = Some (r, ses)" "session_wf ses"
    "r = ru_result s \<or> (\<exists>n evs. r = live_report n evs (ru_result s))" using finish_live_returns [OF assms(1)] by blast
  let ?s1 = "(tick_obs s)\<lparr>ru_result := r, ru_live := ses\<rparr>"
  obtain t s' where n: "notify_runtime_observers env opts ?s1 = (t, s')" by fastforce
  note f = notify_frame [OF n]
  have r: "rr_ok r = rr_ok (ru_result s)" "rr_runtime_errors r = errors_of s" "rr_stopped_components r = rr_stopped_components (ru_result s)"
    "\<exists>ms. rr_runtime_metrics r = metrics_of s @ ms \<and> (list_all sample_conforms ms \<longleftrightarrow> rr_live_observe_dropped_event_count r = 0)"
    using l(3) assms(2)
    by (auto simp: live_report_def live_metrics_def count_samples_def append_runtime_metrics_def nonzero_metric_def live_metric_unknown)
  from r(4) f(9) obtain ms ms' where "rr_runtime_metrics r = metrics_of s @ ms" "list_all sample_conforms ms \<longleftrightarrow> rr_live_observe_dropped_event_count r = 0"
    "metrics_of s' = (metrics_of s @ ms) @ ms'" "list_all sample_conforms ms'" by auto
  then have "\<exists>ms. metrics_of s' = metrics_of s @ ms \<and> (list_all sample_conforms ms \<longleftrightarrow> rr_live_observe_dropped_event_count (ru_result s') = 0)"
    using f(7) by (intro exI [of _ "ms @ ms'"]) simp
  moreover have "\<exists>es. errors_of s' = errors_of s @ es \<and> list_all of_observers es" using f(8) r(2) by simp
  ultimately have "reported s s'" using f r(1-3) by (simp add: reported_def runner_frame)
  moreover have "finish_result env g opts s = Some (t, s')" using l(1) n by (simp add: finish_result_def)
  ultimately show ?thesis using f(1,4) l(2) by auto
qed

section \<open>Running\<close>

definition collected :: "runner_state \<Rightarrow> bool" where
  "collected s \<longleftrightarrow> unstopped s \<and> (rr_ok (ru_result s) \<longleftrightarrow> errors_of s = [])"

lemma run_error_phase: "\<not> of_observers (runtime_error_of msg)"
  by (simp add: runtime_error_of_def Let_def make_runtime_error_def of_observers_def)

lemma run_errors_phase: "list_all (Not \<circ> of_observers) (map runtime_error_of msgs)"
  by (induction msgs) (simp_all add: run_error_phase)

lemma collect_run_frame:
  "rr_stopped_components (collect_run x r) = rr_stopped_components r" "rr_ok (collect_run x r) = run_ok x"
  "rr_live_observe_dropped_event_count (collect_run x r) = rr_live_observe_dropped_event_count r"
  "rr_runtime_errors (collect_run x r) = rr_runtime_errors r @ map runtime_error_of (run_errors x)"
  "list_all sample_conforms (rr_runtime_metrics r) \<Longrightarrow> list_all sample_conforms (rr_runtime_metrics (collect_run x r))"
proof -
  have "list_all sample_conforms (map (\<lambda>(lid, v). metric ''runtime.loop.residual'' v lid [] []) m)" for m
    by (induction m) (auto simp: conforms_component metric_labels)
  then show "list_all sample_conforms (rr_runtime_metrics r) \<Longrightarrow> list_all sample_conforms (rr_runtime_metrics (collect_run x r))"
    by (simp add: collect_run_def append_runtime_metrics_def concat_conform samples_conform loop_samples_conform metric_labels)
qed (simp_all add: collect_run_def append_runtime_metrics_def)

lemma take_snapshots_keeps:
  "collected s \<Longrightarrow> take_snapshots env g is s = (t, s') \<Longrightarrow> collected s' \<and> ru_instances s' = ru_instances s"
proof (induction "is" arbitrary: s)
  case (Cons i "is")
  have keep: "collected s2 \<Longrightarrow> ru_instances s2 = ru_instances s \<Longrightarrow> take_snapshots env g is s2 = (t, s') \<Longrightarrow> ?case" for s2
    using Cons.IH [of s2] by simp
  let ?s1 = "record_runner_trace_event env ''component_snapshot'' (in_id i) ''begin'' s"
  show ?case
  proof (cases "in_started i")
    case started: True
    show ?thesis
    proof (cases "rn_snapshot env (ru_obs ?s1) (in_id i)")
      case (Inl what)
      with Cons.prems started show ?thesis by (auto simp: Let_def collected_def unstopped_def runner_frame)
    next
      case (Inr r)
      show ?thesis
      proof (cases r)
        case (Inl msg)
        have "take_snapshots env g (i # is) s = take_snapshots env g is (record_runner_trace_event env ''component_snapshot'' (in_id i) ''error''
                     (on_result (\<lambda>r. append_runtime_error
                          (make_runtime_error ''snapshot'' (in_id i) (case spec_for_id g (in_id i) of None \<Rightarrow> [] | Some spec \<Rightarrow> ex_lane (execution spec)) msg
                             ''component_snapshot'' False)
                          (r\<lparr>rr_ok := False, rr_lifecycle_snapshot_failure_count := rr_lifecycle_snapshot_failure_count r + 1\<rparr>)) (tick_obs ?s1)))"
          using started \<open>rn_snapshot _ _ _ = Inr r\<close> Inl by (simp add: Let_def)
        with Cons.prems show ?thesis
          by (intro keep) (auto simp: collected_def unstopped_def of_observers_def runner_frame append_runtime_error_def make_runtime_error_def)
      next
        case snap: (Inr sn)
        obtain f where f: "take_snapshots env g (i # is) s = take_snapshots env g is (record_runner_trace_event env ''component_snapshot'' (in_id i) ''ok''
            (on_result f (tick_obs ?s1)))" "\<And>r. rr_runtime_errors (f r) = rr_runtime_errors r \<and> rr_ok (f r) = rr_ok r \<and> rr_runtime_metrics (f r) = rr_runtime_metrics r \<and>
              rr_stopped_components (f r) = rr_stopped_components r \<and> rr_live_observe_dropped_event_count (f r) = rr_live_observe_dropped_event_count r"
          using started \<open>rn_snapshot _ _ _ = Inr r\<close> snap by (simp add: Let_def)
        with Cons.prems show ?thesis by (intro keep) (auto simp: collected_def unstopped_def runner_frame)
      qed
    qed
  qed (use Cons in simp)
qed auto

lemma collect_all_keeps:
  assumes "all_stopped env s"
  shows "all_stopped env (collect_all env g opts s)" and "ru_instances (collect_all env g opts s) = ru_instances s"
proof -
  have "conforming_components env \<Longrightarrow> list_all sample_conforms (map (\<lambda>(name, v). metric name v [] [] []) (rn_component_metrics env))"
    unfolding conforming_components_def by (induction "rn_component_metrics env") (auto simp: list_all_iff)
  with assms show "all_stopped env (collect_all env g opts s)" "ru_instances (collect_all env g opts s) = ru_instances s"
    by (auto simp: all_stopped_def collect_all_def Let_def runner_frame count_samples_def append_runtime_metrics_def copy_trace_to_result_def
        append_lifecycle_metrics_def collect_health_def collect_publications_def collect_channels_def plain_def conforms_plain samples_conform
        concat_conform nonzero_conforms metric_labels)
qed

lemma finish_early_keeps:
  assumes "unstopped s" and "\<not> rr_ok (ru_result s)" and "errors_of s \<noteq> []"
  shows "all_stopped env (finish_early_after_lifecycle_error env g opts s)" and "ru_instances (finish_early_after_lifecycle_error env g opts s) = ru_instances s"
proof -
  have "all_stopped env (stop_components env False s)" "ru_instances (stop_components env False s) = ru_instances s"
    using stop_all [of s False env] assms by simp_all
  then show "all_stopped env (finish_early_after_lifecycle_error env g opts s)" "ru_instances (finish_early_after_lifecycle_error env g opts s) = ru_instances s"
    by (auto simp: all_stopped_def finish_early_after_lifecycle_error_def Let_def runner_frame count_samples_def append_runtime_metrics_def
        copy_trace_to_result_def append_lifecycle_metrics_def collect_health_def nonzero_conforms metric_labels)
qed

lemma runtime_components_specs: "runtime_components g specs s = Inr cs \<Longrightarrow> list_all (\<lambda>c. erc_spec c \<in> set specs) cs"
proof (induction specs arbitrary: cs)
  case (Cons spec specs)
  have weaken: "list_all (\<lambda>c. erc_spec c \<in> set specs) xs \<Longrightarrow> list_all (\<lambda>c. erc_spec c \<in> set (spec # specs)) xs" for xs
    by (auto simp: list_all_iff)
  show ?case
  proof (cases "runtime_components g specs s")
    case (Inr ds)
    with Cons.IH [OF Inr] Cons.prems weaken [of ds] show ?thesis by (auto split: option.splits)
  qed (use Cons.prems in \<open>auto split: option.splits\<close>)
qed simp

lemma runtime_of_components: "er_components (runtime_of plan cs) = cs"
proof -
  have "er_components (fold add_component cs er) = er_components er @ cs" for er
    by (induction cs arbitrary: er) (simp_all add: add_component_def)
  then show ?thesis by (simp add: runtime_of_def)
qed

text \<open>How the block ended and what that says of the components.\<close>

fun try_phase :: "runner_environment \<Rightarrow> try_end \<Rightarrow> runner_state \<Rightarrow> bool" where
  "try_phase env TryEnd s = all_stopped env s"
| "try_phase env TryReturn s = (\<exists>s0. all_stopped env s0 \<and> \<not> rr_ok (ru_result s0) \<and> reported s0 s)"
| "try_phase env (TryThrown what) s = unstopped s"

lemma execute_runtime_returns:
  assumes "before_run g s" and "errors_of s = []" and "list_all safe_trigger (components g)"
  shows "\<exists>e s'. execute_runtime env g plan opts s = Some (e, s') \<and> try_phase env e s' \<and> e \<noteq> TryReturn \<and> ru_instances s' = ru_instances s \<and> session_wf (ru_live s')"
proof (cases "runtime_components g (components g) s")
  case (Inl what)
  with assms(1) show ?thesis by (auto simp: execute_runtime_def before_run_def unstopped_def)
next
  case (Inr cs)
  let ?er = "runtime_of plan cs" and ?x = "ru_objects s" and ?env = "runtime_environment env" and ?opts = "runtime_run_options g opts"
  have "runtime_objects.safe_runtime ?er"
    using runtime_components_specs [OF Inr] assms(3) by (auto simp: runtime_objects.safe_runtime_def runtime_of_components list_all_iff)
  moreover have "trigger_wf empty_trigger_engine" by (simp add: trigger_wf_def empty_trigger_engine_def)
  ultimately obtain x where x: "run ?env ?opts ?er (rs_router ?x) (rs_bus ?x) (rs_state ?x) (rs_config ?x) = Some x"
    using runtime_objects.run_returns [of "graph_edges g" "rs_bus ?x" "rs_router ?x" "rs_state ?x" "rs_config ?x" ?er ?env ?opts] assms(1)
    by (auto simp: before_run_def objects_ok_def)
  define s1 where "s1 = (tick_obs s)\<lparr>ru_objects := x, ru_spans := ru_spans s @ rn_spans env, ru_result := collect_run (rs_result x) (ru_result s)\<rparr>"
  have "run_ok (rs_result x) \<longleftrightarrow> run_errors (rs_result x) = []" using run_result [OF x] by (auto simp: settled_def)
  then have c1: "collected s1" "ru_instances s1 = ru_instances s"
    using assms(1,2) run_errors_phase by (auto simp: s1_def collected_def before_run_def unstopped_def runner_frame collect_run_frame)
  obtain t s2 where s2: "(if ro_capture_component_state_snapshots opts then take_snapshots env g (ru_instances s1) s1 else (None, s1)) = (t, s2)"
    by (metis prod.exhaust)
  then have c2: "collected s2" "ru_instances s2 = ru_instances s"
    using c1 take_snapshots_keeps [of s1 env g "ru_instances s1" t s2] by (auto split: if_splits)
  have ex: "execute_runtime env g plan opts s =
      Some (case t of Some what \<Rightarrow> (TryThrown what, s2) | None \<Rightarrow> (TryEnd, collect_all env g opts (stop_components env True s2)))"
    using s2 by (simp add: execute_runtime_def Inr x Let_def flip: s1_def)
  show ?thesis
  proof (cases t)
    case None
    have "all_stopped env (stop_components env True s2)" "ru_instances (stop_components env True s2) = ru_instances s"
      using stop_all [of s2 True env] c2 by (simp_all add: collected_def)
    with collect_all_keeps [of env "stop_components env True s2" g opts] show ?thesis unfolding ex None by (simp add: all_stopped_def)
  next
    case (Some what)
    with c2 show ?thesis unfolding ex by (simp add: collected_def unstopped_def)
  qed
qed

lemma try_result_returns:
  assumes "all_stopped env s" and "\<not> rr_ok (ru_result s)"
  shows "\<exists>e s'. map_option try_result (finish_result env g opts s) = Some (e, s') \<and> (quiet_observers env \<longrightarrow> try_phase env e s' \<and> e = TryReturn) \<and>
    e \<noteq> TryEnd \<and> ru_instances s' = ru_instances s \<and> session_wf (ru_live s')"
proof -
  obtain t s' where "finish_result env g opts s = Some (t, s')" "reported s s'" "session_wf (ru_live s')" "quiet_observers env \<longrightarrow> t = None"
    using finish_result_reports [of s env g opts] assms(1) by (auto simp: all_stopped_def)
  with assms show ?thesis by (cases t) (auto simp: try_result_def reported_def)
qed

lemma before_run_note [simp]: "before_run g (note_started s) = before_run g s" and note_started_instances [simp]: "ru_instances (note_started s) = ru_instances s"
  and note_started_errors [simp]: "errors_of (note_started s) = errors_of s"
  by (simp_all add: note_started_def phase_defs runner_frame)

lemma before_run_errors: "before_run g s \<Longrightarrow> has_fatal_runtime_error (ru_result s) \<longleftrightarrow> errors_of s \<noteq> []"
  by (cases "errors_of s") (auto simp: before_run_def has_fatal_runtime_error_def)

lemma run_try_returns:
  assumes "before_run g s" and "ru_instances s = []" and "list_all safe_trigger (components g)"
  shows "\<exists>e s'. run_try env reg g plan opts s = Some (e, s') \<and> session_wf (ru_live s') \<and> (quiet_observers env \<longrightarrow> try_phase env e s') \<and>
    (\<exists>n. started_ids s' = take n (map comp_id (components g))) \<and> (e = TryEnd \<longrightarrow> started_ids s' = map comp_id (components g))"
proof -
  obtain t s0 n where s0: "start_components env reg g (components g) s = Some (t, s0)" "before_run g s0"
    "started_ids s0 = take n (map comp_id (components g))"
    "t = None \<and> errors_of s0 = [] \<longrightarrow> ru_instances s0 = map (started_instance g) (components g)"
    using start_components_returns [OF assms(1), of env reg "components g"] assms(2) by auto
  let ?s1 = "note_started s0"
  have wf: "session_wf (ru_live x)" "unstopped x" "\<not> rr_ok (ru_result x)" if "before_run g x" for x
    using that by (auto simp: before_run_def unstopped_def)
  show ?thesis
  proof (cases t)
    case (Some what)
    with s0 wf(1,2) [OF s0(2)] show ?thesis by (auto simp: run_try_def)
  next
    case started: None
    have b1: "before_run g ?s1" using s0(2) by simp
    show ?thesis
    proof (cases "has_fatal_runtime_error (ru_result ?s1)")
      case True
      then have "errors_of ?s1 \<noteq> []" using before_run_errors [OF b1] by simp
      then have "all_stopped env (stop_components env False ?s1)" "ru_instances (stop_components env False ?s1) = ru_instances s0"
        "\<not> rr_ok (ru_result (stop_components env False ?s1))"
        using stop_all [of ?s1 False env] wf [OF b1] by (auto simp: stop_keeps_failure)
      with try_result_returns [of env "stop_components env False ?s1" g opts] started True s0 show ?thesis by (auto simp: run_try_def Let_def)
    next
      case ok1: False
      obtain t2 s2 where s2: "restore_components env g (ro_restore_component_states opts) ?s1 = (t2, s2)" by fastforce
      from restore_components_keeps [OF b1 s2] have b2: "before_run g s2" "ru_instances s2 = ru_instances s0" by simp_all
      show ?thesis
      proof (cases t2)
        case (Some what)
        with started ok1 s0 s2 b2 wf(1,2) [OF b2(1)] show ?thesis by (auto simp: run_try_def Let_def)
      next
        case restored: None
        obtain s3 where s3: "reset_components env g [] (ro_reset_component_ids opts) s2 = Some s3" "before_run g s3" "ru_instances s3 = ru_instances s0"
          using reset_components_returns [OF b2(1), of env "[]" "ro_reset_component_ids opts"] b2(2) by auto
        have tr: "run_try env reg g plan opts s = (if has_fatal_runtime_error (ru_result s3)
            then map_option try_result (finish_result env g opts (finish_early_after_lifecycle_error env g opts s3)) else execute_runtime env g plan opts s3)"
          using started ok1 restored s0(1) s2 s3(1) by (simp add: run_try_def Let_def)
        show ?thesis
        proof (cases "has_fatal_runtime_error (ru_result s3)")
          case True
          then have e3: "errors_of s3 \<noteq> []" using before_run_errors [OF s3(2)] by simp
          let ?s4 = "finish_early_after_lifecycle_error env g opts s3"
          have s4: "all_stopped env ?s4" "ru_instances ?s4 = ru_instances s0"
            using finish_early_keeps [of s3 env g opts] wf [OF s3(2)] e3 s3(3) by simp_all
          have "\<not> rr_ok (ru_result ?s4)"
            using wf(3) [OF s3(2)]
            by (simp add: stop_keeps_failure finish_early_after_lifecycle_error_def Let_def runner_frame count_samples_def append_runtime_metrics_def copy_trace_to_result_def
                append_lifecycle_metrics_def collect_health_def)
          with try_result_returns [of env ?s4 g opts] s4 True s0(3) show ?thesis unfolding tr by auto
        next
          case False
          then have "errors_of s3 = []" using before_run_errors [OF s3(2)] by simp
          from execute_runtime_returns [OF s3(2) this assms(3), of env plan opts] obtain e s' where
            e: "execute_runtime env g plan opts s3 = Some (e, s')" "try_phase env e s'" "ru_instances s' = ru_instances s0" "session_wf (ru_live s')"
            using s3(3) by auto
          moreover have "errors_of s0 = []" using ok1 before_run_errors [OF b1] by simp
          then have "started_ids s' = map comp_id (components g)" using s0(4) started e(3) by (simp add: started_instance_def comp_def)
          ultimately show ?thesis using False unfolding tr by (auto intro: exI [of _ "length (components g)"])
        qed
      qed
    qed
  qed
qed

section \<open>The whole run\<close>

definition reportable :: "runner_environment \<Rightarrow> runner_state \<Rightarrow> bool" where
  "reportable env s \<longleftrightarrow> rr_live_observe_dropped_event_count (ru_result s) = 0 \<and> session_wf (ru_live s) \<and> list_all (Not \<circ> of_observers) (errors_of s) \<and>
     (rr_ok (ru_result s) \<longleftrightarrow> errors_of s = []) \<and> (conforming_components env \<longrightarrow> list_all sample_conforms (metrics_of s))"

lemma all_stopped_reportable: "all_stopped env s \<Longrightarrow> reportable env s"
  by (simp add: all_stopped_def reportable_def)

lemma limits_trace_collector: "limits_inv rt \<Longrightarrow> limits_inv (set_trace_collector b rt)"
  by (rule limits_inv_fewer) (auto simp: limits_inv_def stage_kinds_def pending_async_count_def set_trace_collector_def)

lemma start_config_wf: "config_wf (start_config_store g)"
proof -
  have "config_wf c \<Longrightarrow> config_wf (fold (\<lambda>c. set_component_config (comp_id c) (comp_config c)) cs c)" for cs c
    by (induction cs arbitrary: c) (use config_wf_exec [of _ "SetComponentConfig _ _"] in auto)
  moreover have "config_wf (set_graph_config (graph_config_view g) empty_config_store)"
    using config_wf_run [of "[SetGraphConfig (graph_config_view g)]"] by (simp add: config_run_def)
  ultimately show ?thesis by (simp add: start_config_store_def)
qed

lemma start_objects_ok:
  assumes "graph_valid stod registry g"
  shows "objects_ok g (start_objects g)"
proof -
  have "distinct (map edge_id (graph_edges g))" "[] \<notin> set (map edge_id (graph_edges g))"
    using assms by (auto simp: graph_valid_def edges_valid_def edge_valid_def)
  then have "limits_inv (set_trace_collector True (make_router True (graph_edges g)))" by (intro limits_trace_collector make_router_limits)
  moreover have "bus_run [] (make_bus (graph_edges g)) = Some (make_bus (graph_edges g))" by simp
  then have "bus_reachable (graph_edges g) (make_bus (graph_edges g))" unfolding bus_reachable_def by blast
  moreover have "trigger_wf empty_trigger_engine" by (simp add: trigger_wf_def empty_trigger_engine_def)
  moreover have "state_wf empty_state_store" by (simp add: state_wf_def empty_state_store_def)
  ultimately show ?thesis using start_config_wf by (simp add: objects_ok_def start_objects_def)
qed

lemma start_runner_frame:
  "session_wf (ru_live (start_runner env g opts))" "ru_instances (start_runner env g opts) = []" "ru_objects (start_runner env g opts) = start_objects g"
  "ru_deactivated (start_runner env g opts) = []" "rr_runtime_errors (ru_result (start_runner env g opts)) = []"
  "rr_runtime_metrics (ru_result (start_runner env g opts)) = []" "\<not> rr_ok (ru_result (start_runner env g opts))"
  "rr_stopped_components (ru_result (start_runner env g opts)) = 0" "rr_live_observe_dropped_event_count (ru_result (start_runner env g opts)) = 0"
  by (simp_all add: start_runner_def empty_runner_result_def session_wf_publish session_wf_start)

lemma report_errors_frame:
  "phase \<noteq> ''observer'' \<Longrightarrow> list_all (Not \<circ> of_observers) (rr_runtime_errors r) \<Longrightarrow>
     list_all (Not \<circ> of_observers) (rr_runtime_errors (fold (\<lambda>msg. append_runtime_error (make_runtime_error phase [] [] msg code True)) msgs r))"
  "rr_runtime_errors (fold (\<lambda>msg. append_runtime_error (make_runtime_error phase [] [] msg code True)) msgs r) = [] \<longleftrightarrow> rr_runtime_errors r = [] \<and> msgs = []"
  "rr_ok (fold (\<lambda>msg. append_runtime_error (make_runtime_error phase [] [] msg code True)) msgs r) = rr_ok r"
  "rr_runtime_metrics (fold (\<lambda>msg. append_runtime_error (make_runtime_error phase [] [] msg code True)) msgs r) = rr_runtime_metrics r"
  "rr_live_observe_dropped_event_count (fold (\<lambda>msg. append_runtime_error (make_runtime_error phase [] [] msg code True)) msgs r) =
     rr_live_observe_dropped_event_count r"
  by (induction msgs arbitrary: r) (auto simp: append_runtime_error_def make_runtime_error_def of_observers_def)

lemma dry_run_reportable:
  assumes "validate_graph stod g reg = Some v" and "gr_ok v"
  shows "\<exists>d. dry_run_graph stod g reg n = Some d \<and> dr_ok d \<and> dr_errors d = [] \<and> list_all sample_conforms (dr_runtime_metrics d)"
proof -
  let ?ms = "\<lambda>(es :: edge_spec list) ms. fold (\<lambda>e. append_metric ''runtime.channel.configured'' (Finite 1) [] [] (edge_id e)) es ms"
  have "list_all sample_conforms ms \<Longrightarrow> list_all sample_conforms (?ms es ms)" for es ms
    using conforms_channel [of "''runtime.channel.configured''"]
    by (induction es arbitrary: ms) (auto simp: append_metric_def metric_labels metric_def)
  then have "list_all sample_conforms (?ms (graph_edges g) [])" by simp
  with assms show ?thesis by (simp add: dry_run_graph_def Let_def)
qed

lemma runner_spec:
  assumes v: "validate_graph stod g reg = Some v" and safe: "list_all safe_trigger (components g)"
  shows "\<exists>t s. runner_run env stod reg g opts = Some (t, s) \<and>
    (quiet_observers env \<longrightarrow> t = None \<and>
      (\<exists>s0. reportable env s0 \<and> reported s0 s \<and> (gr_ok v \<and> ro_mode opts = KRun \<longrightarrow> all_stopped env s0)) \<and>
      (\<exists>n. started_ids s = take n (map comp_id (components g))) \<and>
      (gr_ok v \<and> ro_mode opts = KRun \<and> rr_ok (ru_result s) \<longrightarrow> started_ids s = map comp_id (components g)))"
proof -
  let ?s = "on_result (\<lambda>r. r\<lparr>rr_validation := Some v\<rparr>) (start_runner env g opts)"
  have finish: ?thesis if "runner_run env stod reg g opts = finish_result env g opts x" "reportable env x" "ru_instances x = []"
    "\<not> (gr_ok v \<and> ro_mode opts = KRun)" for x
  proof -
    have "session_wf (ru_live x)" "rr_live_observe_dropped_event_count (ru_result x) = 0" using that(2) by (simp_all add: reportable_def)
    from finish_result_reports [OF this, of env g opts] obtain t s where
      "finish_result env g opts x = Some (t, s)" "reported x s" "quiet_observers env \<longrightarrow> t = None" by blast
    with that show ?thesis by (auto simp: reported_def)
  qed
  show ?thesis
  proof (cases "gr_ok v")
    case False
    have "gr_errors v \<noteq> []"
      using validate_report_good [of stod "Some reg" g v] v False by (auto simp: validate_graph_def good_report_def report_wf_def graph_report.truncate_def)
    with False v show ?thesis
      by (intro finish) (auto simp: runner_run_def reportable_def runner_frame start_runner_frame report_errors_frame)
  next
    case ok: True
    then have valid: "graph_valid stod (Some reg) g" using v validate_graph_ok_iff by (auto simp: validate_graph_def)
    show ?thesis
    proof (cases "ro_mode opts")
      case KValidate
      with ok v show ?thesis by (intro finish) (auto simp: runner_run_def reportable_def runner_frame start_runner_frame)
    next
      case KDryRun
      obtain d where d: "dry_run_graph stod g reg (ro_tick_iterations opts) = Some d" "dr_ok d" "dr_errors d = []"
        "list_all sample_conforms (dr_runtime_metrics d)" using dry_run_reportable [OF v ok] by blast
      with KDryRun ok v show ?thesis
        by (intro finish) (auto simp: runner_run_def reportable_def runner_frame start_runner_frame copy_dry_run_to_runner_def)
    next
      case KRun
      have "before_run g ?s" "ru_instances ?s = []"
        using start_objects_ok [OF valid] by (simp_all add: before_run_def unstopped_def runner_frame start_runner_frame)
      from run_try_returns [OF this safe, of env reg "vr_compiled_plan v" opts] obtain e s1 n where
        e: "run_try env reg g (vr_compiled_plan v) opts ?s = Some (e, s1)" "session_wf (ru_live s1)" "quiet_observers env \<longrightarrow> try_phase env e s1"
          "started_ids s1 = take n (map comp_id (components g))" "e = TryEnd \<longrightarrow> started_ids s1 = map comp_id (components g)" by blast
      have r: "runner_run env stod reg g opts = (case e of TryReturn \<Rightarrow> Some (None, s1) | TryEnd \<Rightarrow> finish_result env g opts s1
          | TryThrown what \<Rightarrow> finish_result env g opts (run_catch env what s1))"
        using v ok KRun e(1) by (simp add: runner_run_def Let_def)
      have ret: "\<exists>t s. finish_result env g opts x = Some (t, s)" if "session_wf (ru_live x)" for x
        using finish_live_returns [OF that] by (auto simp: finish_result_def) (metis prod.exhaust)
      have catch: "session_wf (ru_live (run_catch env what s1))" for what
        using e(2) deactivate_effect by (simp add: run_catch_def stop_components_def runner_frame)
      have fin: ?thesis if "runner_run env stod reg g opts = finish_result env g opts x" "session_wf (ru_live x)"
        "quiet_observers env \<Longrightarrow> all_stopped env x" "ru_instances x = ru_instances s1"
        "quiet_observers env \<Longrightarrow> rr_ok (ru_result x) \<Longrightarrow> started_ids s1 = map comp_id (components g)" for x
      proof (cases "quiet_observers env")
        case True
        from that(3) [OF True] have "reportable env x" by (rule all_stopped_reportable)
        then have "session_wf (ru_live x)" "rr_live_observe_dropped_event_count (ru_result x) = 0" by (simp_all add: reportable_def)
        from finish_result_reports [OF this, of env g opts] obtain t s where
          "finish_result env g opts x = Some (t, s)" "reported x s" "t = None" using True by blast
        with that True \<open>reportable env x\<close> e(4) show ?thesis by (auto simp: reported_def)
      qed (use ret [OF that(2)] that(1) in auto)
      show ?thesis
      proof (cases e)
        case TryEnd
        with r e show ?thesis by (intro fin [of s1]) auto
      next
        case TryReturn
        show ?thesis
        proof (cases "quiet_observers env")
          case True
          with e(3) TryReturn obtain s0 where s0: "all_stopped env s0" "\<not> rr_ok (ru_result s0)" "reported s0 s1" by auto
          then have "\<not> rr_ok (ru_result s1)" by (simp add: reported_def)
          with s0 all_stopped_reportable [OF s0(1)] r e(4) TryReturn show ?thesis by auto
        qed (use r TryReturn in simp)
      next
        case (TryThrown what)
        have "quiet_observers env \<Longrightarrow> unstopped s1" using e(3) TryThrown by simp
        moreover have "\<not> rr_ok (ru_result (run_catch env what s1))"
          by (simp add: run_catch_def stop_keeps_failure runner_frame append_runtime_error_def)
        ultimately show ?thesis using r TryThrown catch catch_stops [of s1 env what] deactivate_effect
          by (intro fin [of "run_catch env what s1"]) (auto simp: run_catch_def stop_components_def runner_frame)
      qed
    qed
  qed
qed

section \<open>Properties\<close>

text \<open>
  C8. The runner returns in every mode, whatever the components answer, on every graph, valid or not, on which validation returns (it does not
  on some graphs with shared region ids) and whose components have pairwise different trigger inputs and a trigger type other than time_sync
  and watermark. If no observer throws, no exception leaves it either: exceptions of components are turned into errors of the result.
\<close>

theorem runner_returns:
  assumes "validate_graph stod g reg = Some v" and "list_all safe_trigger (components g)"
  shows "\<exists>t s. runner_run env stod reg g opts = Some (t, s) \<and> (quiet_observers env \<longrightarrow> t = None)"
  using runner_spec [OF assms, of env opts] by blast

text \<open>
  C9. A run stops what it started, when no observer throws: on a valid graph whose components have pairwise different trigger inputs
  and a trigger type other than time_sync and watermark, whether the run ends, fails or is left by an exception of a component, the
  components that were started are the first ones of the graph, each of them is deactivated exactly once, in reverse order, and counted;
  if the result is ok, that is all of them. (An observer that throws can cause a second deactivation.)
\<close>

theorem runner_stops_components:
  assumes "validate_graph stod g reg = Some v" and "gr_ok v" and "list_all safe_trigger (components g)" and "ro_mode opts = KRun"
    and "quiet_observers env" and "runner_run env stod reg g opts = Some (t, s)"
  shows "ru_deactivated s = rev (started_ids s) \<and> rr_stopped_components (ru_result s) = length (started_ids s) \<and>
    (\<exists>n. started_ids s = take n (map comp_id (components g))) \<and> (rr_ok (ru_result s) \<longrightarrow> started_ids s = map comp_id (components g))"
proof -
  obtain s0 where "all_stopped env s0" "reported s0 s" using runner_spec [OF assms(1,3), of env opts] assms by auto
  then have "ru_deactivated s = rev (started_ids s)" "rr_stopped_components (ru_result s) = length (started_ids s)"
    by (simp_all add: all_stopped_def reported_def)
  moreover have "(\<exists>n. started_ids s = take n (map comp_id (components g))) \<and> (rr_ok (ru_result s) \<longrightarrow> started_ids s = map comp_id (components g))"
    using runner_spec [OF assms(1,3), of env opts] assms by auto
  ultimately show ?thesis by blast
qed

text \<open>
  C10. The flag of the result and its errors agree in every mode, when no observer throws, on every graph on which validation returns and
  whose components have pairwise different trigger inputs and a trigger type other than time_sync and watermark: the result is ok
  exactly when no error was reported, failures of observer callbacks (by status) left aside; those are reported after the flag is set and do not
  change it.
\<close>

theorem runner_ok_iff:
  assumes "validate_graph stod g reg = Some v" and "list_all safe_trigger (components g)" and "quiet_observers env"
    and "runner_run env stod reg g opts = Some (t, s)"
  shows "rr_ok (ru_result s) \<longleftrightarrow> list_all (\<lambda>e. err_phase e = ''observer'') (rr_runtime_errors (ru_result s))"
proof -
  obtain s0 where "reportable env s0" "reported s0 s" using runner_spec [OF assms(1,2), of env opts] assms(3,4) by auto
  then obtain es where "errors_of s = errors_of s0 @ es" "list_all of_observers es" "list_all (Not \<circ> of_observers) (errors_of s0)"
    "rr_ok (ru_result s) \<longleftrightarrow> errors_of s0 = []" by (auto simp: reportable_def reported_def)
  then show ?thesis by (cases "errors_of s0") (auto simp: of_observers_def [abs_def])
qed

text \<open>
  C11. When every metric that the components report conforms to the published schema (so none uses a reserved but unknown name), no observer
  throws, validation of the graph returns and its components have pairwise different trigger inputs and a trigger type other than time_sync
  and watermark, then the metrics of the result satisfy the schema exactly when live observe dropped no event: all samples that the
  runner emits have a descriptor that allows their labels, except the one that reports dropped live events.
\<close>

theorem runner_metrics_conform:
  assumes "validate_graph stod g reg = Some v" and "list_all safe_trigger (components g)" and "quiet_observers env"
    and "conforming_components env" and "runner_run env stod reg g opts = Some (t, s)"
  shows "sv_ok (validate_runtime_metric_samples (rr_runtime_metrics (ru_result s))) \<longleftrightarrow> rr_live_observe_dropped_event_count (ru_result s) = 0"
proof -
  obtain s0 where "reportable env s0" "reported s0 s" using runner_spec [OF assms(1,2), of env opts] assms(3,5) by auto
  with assms(4) show ?thesis by (auto simp: schema_accepts reportable_def reported_def)
qed

text \<open>
  C38. An observer that throws while an early return is reported (a component did not start) lands in the handler of component
  exceptions: the started components, which have been deactivated before the report, are deactivated a second time.
\<close>

theorem throwing_observer_stops_twice:
  assumes "validate_graph stod g reg = Some v" and "gr_ok v" and "ro_mode opts = KRun"
    and "start_components env reg g (components g) (on_result (\<lambda>r. r\<lparr>rr_validation := Some v\<rparr>) (start_runner env g opts)) = Some (None, s0)"
    and "has_fatal_runtime_error (ru_result (note_started s0))"
    and "finish_result env g opts (stop_components env False (note_started s0)) = Some (Some what, s1)"
    and "runner_run env stod reg g opts = Some (t, s)"
  shows "ru_deactivated s = ru_deactivated s0 @ rev (started_ids s0) @ rev (started_ids s0)"
proof -
  have finish: "ru_deactivated y = ru_deactivated x \<and> ru_instances y = ru_instances x" if "finish_result env g opts x = Some (u, y)" for x y u
  proof -
    from that obtain r ses where "notify_runtime_observers env opts ((tick_obs x)\<lparr>ru_result := r, ru_live := ses\<rparr>) = (u, y)"
      by (auto simp: finish_result_def)
    from notify_frame(2,3) [OF this] show ?thesis by (simp add: runner_frame)
  qed
  have "runner_run env stod reg g opts = finish_result env g opts (run_catch env what s1)"
    using assms(1-6) by (simp add: runner_run_def run_try_def try_result_def Let_def)
  with assms(7) finish [of "run_catch env what s1" t s] have "ru_deactivated s = ru_deactivated (run_catch env what s1)" by simp
  also have "\<dots> = ru_deactivated s1 @ rev (started_ids s1)"
    using deactivate_effect by (simp add: run_catch_def stop_components_def runner_frame rev_map flip: rev_filter)
  also have "\<dots> = (ru_deactivated s0 @ rev (started_ids s0)) @ rev (started_ids s0)"
    using finish [OF assms(6)] deactivate_effect by (simp add: stop_components_def runner_frame note_started_def rev_map flip: rev_filter)
  finally show ?thesis by simp
qed

subsection \<open>Examples\<close>

definition run_component :: "string \<Rightarrow> component_node_spec" where
  "run_component cid =
     (default_component cid)\<lparr>comp_type := ''worker'',
        event_sources := [\<lparr>es_id = [], es_type = ''manual'', es_inputs = [], es_input = [], es_period_ms = 0\<rparr>],
        execution := default_execution\<lparr>ex_lane := ''main''\<rparr>\<rparr>"

definition run_graph :: graph_spec where
  "run_graph = default_graph\<lparr>schema_version := 1, graph_name := ''demo'', lanes := [default_lane ''main'' ''event_loop''],
     components := [run_component ''a'', run_component ''b''],
     graph_edges := [\<lparr>edge_id = ''e'', edge_from = ''a.out'', edge_to = ''b.in'', edge_kind_of = KImmediate, has_kind = True,
       invalid_kind = [], edge_policy = default_edge_policy\<lparr>ep_mode := ''queue'', ep_capacity := 3, ep_overflow := ''block''\<rparr>\<rparr>]\<rparr>"

definition run_port :: "string \<Rightarrow> port_descriptor" where
  "run_port name = \<lparr>port_name = name, port_schema = [], port_payload_type = [], port_mult = MMultiple, port_required = False\<rparr>"

definition run_registry :: component_registry where
  "run_registry =
     \<lparr>registrations = [(''worker'', \<lparr>reg_type = ''worker'', reg_component_api_version = ''1'', reg_runtime_min_version = ''0'',
         reg_static_registration = True, reg_realtime_allowed = False, reg_dry_run_safe = True\<rparr>)],
      factories = [(''worker'', Inr \<lparr>cd_type = ''worker'', cd_role = RProcessing, cd_config_fields = [], cd_inputs = [run_port ''in''],
         cd_outputs = [run_port ''out''], cd_scheduler_lane = []\<rparr>)]\<rparr>"

definition calm_environment :: runner_environment where
  "calm_environment =
     \<lparr>rn_create = (\<lambda>k ty. None), rn_configure = (\<lambda>k cid c. \<lparr>bh_calls = [], bh_status = Success, bh_observed = False\<rparr>),
      rn_activate = (\<lambda>k cid. Success), rn_restore = (\<lambda>k cid sn. Inr Success),
      rn_reset = (\<lambda>k cid. \<lparr>bh_calls = [], bh_status = Success, bh_observed = False\<rparr>), rn_snapshot = (\<lambda>k cid. Inl ''none''),
      rn_deactivate = (\<lambda>k cid. Success), rn_clock = (\<lambda>k i j. int k), rn_live_clock = (\<lambda>k i j. 1), rn_trace_id = (\<lambda>k i. ''t''),
      rn_spans = [], rn_health = (\<lambda>k h. h), rn_component_metrics = [(''app.latency'', Finite 1)], rn_observer = (\<lambda>k j. Inr (StatusError ''busy'')),
      rn_observer_status = (\<lambda>k j. (0, 0)), rn_runtime = demo_environment\<rparr>"

definition run_options :: runtime_runner_options where
  "run_options =
     \<lparr>ro_mode = KRun, ro_tick_iterations = 1, ro_run_duration_ms = 0, ro_run_until_idle = False, ro_emit_health_events = False,
      ro_health_event_capacity = 16, ro_reset_component_ids = [], ro_restore_component_states = [],
      ro_capture_component_state_snapshots = False, ro_live_observe = default_live_observe_options, ro_observers = [True]\<rparr>"

text \<open>Component \<open>b\<close> cannot be configured and the observer throws.\<close>

definition throwing_environment :: runner_environment where
  "throwing_environment =
     calm_environment\<lparr>rn_configure := (\<lambda>k cid c. \<lparr>bh_calls = [], bh_status = (if cid = ''b'' then StatusError ''no'' else Success), bh_observed = False\<rparr>),
       rn_observer := (\<lambda>k j. Inl ''boom'')\<rparr>"

lemma run_graph_valid: "\<exists>v. validate_graph (\<lambda>_. None) run_graph run_registry = Some v \<and> gr_ok v"
proof -
  have "(case validate_graph (\<lambda>_. None) run_graph run_registry of None \<Rightarrow> False | Some v \<Rightarrow> gr_ok v)" by code_simp
  then show ?thesis by (auto split: option.splits)
qed

lemma run_graph_safe: "list_all safe_trigger (components run_graph)"
  by code_simp

lemma calm_quiet: "quiet_observers calm_environment" and calm_conforming: "conforming_components calm_environment"
proof -
  have "find_runtime_metric_descriptor ''app.latency'' = None" by code_simp
  then show "conforming_components calm_environment"
    by (simp add: conforming_components_def calm_environment_def sample_conforms_def metric_def)
qed (simp add: quiet_observers_def calm_environment_def)

lemma calm_run: "\<exists>s. runner_run calm_environment (\<lambda>_. None) run_registry run_graph run_options = Some (None, s)"
proof -
  obtain v where v: "validate_graph (\<lambda>_. None) run_graph run_registry = Some v" using run_graph_valid by blast
  from runner_spec [OF v run_graph_safe, of calm_environment run_options] calm_quiet show ?thesis by auto
qed

theorem runner_returns_witness: "\<exists>s. runner_run calm_environment (\<lambda>_. None) run_registry run_graph run_options = Some (None, s)"
  using run_graph_valid runner_returns [OF _ run_graph_safe, of "\<lambda>_. None" run_registry _ calm_environment run_options] calm_quiet by auto

theorem runner_stops_components_witness:
  "\<exists>s n. runner_run calm_environment (\<lambda>_. None) run_registry run_graph run_options = Some (None, s) \<and>
     ru_deactivated s = rev (take n [''a'', ''b'']) \<and> rr_stopped_components (ru_result s) = length (take n [''a'', ''b''])"
proof -
  obtain v where v: "validate_graph (\<lambda>_. None) run_graph run_registry = Some v" "gr_ok v" using run_graph_valid by blast
  obtain s where s: "runner_run calm_environment (\<lambda>_. None) run_registry run_graph run_options = Some (None, s)" using calm_run by blast
  have ids: "map comp_id (components run_graph) = [''a'', ''b'']" by code_simp
  have "ro_mode run_options = KRun" by (simp add: run_options_def)
  from runner_stops_components [OF v run_graph_safe this calm_quiet s] obtain n where
    "ru_deactivated s = rev (take n [''a'', ''b''])" "rr_stopped_components (ru_result s) = length (take n [''a'', ''b''])"
    unfolding ids by metis
  with s show ?thesis by blast
qed

theorem runner_ok_iff_witness:
  "\<exists>s. runner_run calm_environment (\<lambda>_. None) run_registry run_graph run_options = Some (None, s) \<and>
     (rr_ok (ru_result s) \<longleftrightarrow> list_all (\<lambda>e. err_phase e = ''observer'') (rr_runtime_errors (ru_result s)))"
proof -
  obtain v where v: "validate_graph (\<lambda>_. None) run_graph run_registry = Some v" using run_graph_valid by blast
  obtain s where s: "runner_run calm_environment (\<lambda>_. None) run_registry run_graph run_options = Some (None, s)" using calm_run by blast
  from runner_ok_iff [OF v run_graph_safe calm_quiet s] s show ?thesis by (intro exI [of _ s] conjI)
qed

theorem runner_metrics_conform_witness:
  "\<exists>s. runner_run calm_environment (\<lambda>_. None) run_registry run_graph run_options = Some (None, s) \<and>
     (sv_ok (validate_runtime_metric_samples (rr_runtime_metrics (ru_result s))) \<longleftrightarrow> rr_live_observe_dropped_event_count (ru_result s) = 0)"
proof -
  obtain v where v: "validate_graph (\<lambda>_. None) run_graph run_registry = Some v" using run_graph_valid by blast
  obtain s where s: "runner_run calm_environment (\<lambda>_. None) run_registry run_graph run_options = Some (None, s)" using calm_run by blast
  from runner_metrics_conform [OF v run_graph_safe calm_quiet calm_conforming s] s show ?thesis
    by (intro exI [of _ s] conjI)
qed

lemma run_component_simps:
  "components run_graph = [run_component ''a'', run_component ''b'']" "comp_id (run_component c) = c" "comp_type (run_component c) = ''worker''"
  "ex_lane (execution (run_component c)) = ''main''"
  by (simp_all add: run_graph_def run_component_def default_component_def default_execution_def)

lemma throwing_simps:
  "create_instance throwing_environment run_registry k ''worker'' = None" "rn_activate throwing_environment k c = Success"
  "rn_configure throwing_environment k c cfg = \<lparr>bh_calls = [], bh_status = (if c = ''b'' then StatusError ''no'' else Success), bh_observed = False\<rparr>"
  "rn_deactivate throwing_environment k c = Success" "rn_observer throwing_environment k j = Inl ''boom''"
  by (simp_all add: create_instance_def run_registry_def throwing_environment_def calm_environment_def)

lemma run_method_idle: "bh_calls bh = [] \<Longrightarrow> run_method env ctx bh s = Some (tick_obs s)"
  by (simp add: run_method_def tick_obs_def)

lemma start_live_off: "ru_live (start_runner env g run_options) = make_live_session default_live_observe_options"
  by (simp add: start_runner_def run_options_def session_try_publish_def session_enabled_def make_live_session_def default_live_observe_options_def)

lemma start_trace_empty: "rr_trace (ru_result (start_runner env g opts)) = []" "rr_health_events (ru_result (start_runner env g opts)) = []"
  by (simp_all add: start_runner_def empty_runner_result_def)

lemma throwing_start:
  "\<exists>s0. start_components throwing_environment run_registry run_graph (components run_graph)
       (on_result (\<lambda>r. r\<lparr>rr_validation := Some v\<rparr>) (start_runner throwing_environment run_graph run_options)) = Some (None, s0) \<and>
     started_ids s0 = [''a''] \<and> ru_deactivated s0 = [] \<and> has_fatal_runtime_error (ru_result (note_started s0)) \<and> errors_of s0 \<noteq> [] \<and>
     metrics_of s0 = [] \<and> rr_trace (ru_result s0) = [] \<and> rr_health_events (ru_result s0) = [] \<and>
     ru_live s0 = make_live_session default_live_observe_options"
  by (simp add: run_component_simps throwing_simps run_method_idle Let_def runner_frame start_runner_frame start_live_off start_trace_empty
      has_fatal_runtime_error_def note_started_def make_runtime_error_def fail_result_def append_runtime_error_def)

lemma throwing_report:
  assumes "errors_of s \<noteq> []" "metrics_of s = []" "rr_trace (ru_result s) = []" "rr_health_events (ru_result s) = []"
    "ru_live s = make_live_session default_live_observe_options"
  shows "\<exists>s1. finish_result throwing_environment g run_options s = Some (Some ''boom'', s1)"
proof -
  have "\<not> session_enabled (ru_live s)" using assms(5) by (simp add: session_enabled_def make_live_session_def default_live_observe_options_def)
  with assms(1-4) show ?thesis
    by (cases "errors_of s")
      (auto simp: finish_result_def finish_live_observe_def notify_runtime_observers_def run_options_def observer_callbacks_def throwing_simps tick_obs_def)
qed

theorem throwing_observer_stops_twice_witness:
  "\<exists>t s. runner_run throwing_environment (\<lambda>_. None) run_registry run_graph run_options = Some (t, s) \<and> ru_deactivated s = [''a'', ''a'']"
proof -
  obtain v where v: "validate_graph (\<lambda>_. None) run_graph run_registry = Some v" "gr_ok v" using run_graph_valid by blast
  have mode: "ro_mode run_options = KRun" by (simp add: run_options_def)
  obtain s0 where s0: "start_components throwing_environment run_registry run_graph (components run_graph)
       (on_result (\<lambda>r. r\<lparr>rr_validation := Some v\<rparr>) (start_runner throwing_environment run_graph run_options)) = Some (None, s0)"
    "started_ids s0 = [''a'']" "ru_deactivated s0 = []" "has_fatal_runtime_error (ru_result (note_started s0))" "errors_of s0 \<noteq> []"
    "metrics_of s0 = []" "rr_trace (ru_result s0) = []" "rr_health_events (ru_result s0) = []"
    "ru_live s0 = make_live_session default_live_observe_options"
    using throwing_start [of v] by (elim exE conjE)
  let ?s = "stop_components throwing_environment False (note_started s0)"
  have "errors_of ?s \<noteq> []" "metrics_of ?s = []" "ru_live ?s = make_live_session default_live_observe_options"
    using deactivate_effect [of throwing_environment False "rev (ru_instances (note_started s0))" "note_started s0"] s0(5,6,9)
    by (auto simp: stop_components_def note_started_def runner_frame)
  moreover have "rr_trace (ru_result ?s) = []" "rr_health_events (ru_result ?s) = []"
    using deactivate_trace [of throwing_environment False "rev (ru_instances (note_started s0))" "note_started s0"] s0(7,8)
    by (simp_all add: stop_components_def note_started_def runner_frame)
  ultimately obtain s1 where s1: "finish_result throwing_environment run_graph run_options ?s = Some (Some ''boom'', s1)"
    using throwing_report by blast
  obtain t s where r: "runner_run throwing_environment (\<lambda>_. None) run_registry run_graph run_options = Some (t, s)"
    using runner_spec [OF v(1) run_graph_safe] by blast
  from throwing_observer_stops_twice [OF v mode s0(1,4) s1 r] s0(2,3) r show ?thesis by simp
qed

end
