(* ===== verification/Utf8.thy ===== *)
theory Utf8
  imports Prelude
begin

unbundle bit_operations_syntax

text \<open>
  The UTF-8 check of graph inputs (\<^verbatim>\<open>is_valid_utf8\<close> of \<^verbatim>\<open>src/graph_io.cpp\<close>), with the bit operations of the code on bytes, and the
  encoding of Unicode scalar values as its reference.
\<close>

section \<open>The check\<close>

definition lead_byte :: "nat \<Rightarrow> (nat \<times> nat) option" where
  "lead_byte b =
     (if b AND 0xE0 = 0xC0 then (if b AND 0x1F = 0 then None else Some (1, b AND 0x1F))
      else if b AND 0xF0 = 0xE0 then Some (2, b AND 0x0F)
      else if b AND 0xF8 = 0xF0 then Some (3, b AND 0x07)
      else None)"

fun continuation :: "nat \<Rightarrow> nat list \<Rightarrow> nat option" where
  "continuation cp [] = Some cp"
| "continuation cp (b # bs) = (if b AND 0xC0 \<noteq> 0x80 then None else continuation (push_bit 6 cp OR (b AND 0x3F)) bs)"

definition bad_codepoint :: "nat \<Rightarrow> nat \<Rightarrow> bool" where
  "bad_codepoint needed cp \<longleftrightarrow>
     needed = 1 \<and> cp < 0x80 \<or> needed = 2 \<and> cp < 0x800 \<or> needed = 3 \<and> cp < 0x10000 \<or> 0xD800 \<le> cp \<and> cp \<le> 0xDFFF \<or> cp > 0x10FFFF"

text \<open>The loop, on the bytes from the current index on.\<close>

fun valid_utf8_bytes :: "nat list \<Rightarrow> bool" where
  "valid_utf8_bytes [] = True"
| "valid_utf8_bytes (b # bs) =
     (if b \<le> 0x7F then valid_utf8_bytes bs
      else
        (case lead_byte b of
           None \<Rightarrow> False
         | Some (needed, cp) \<Rightarrow>
             if length bs < needed then False
             else
               (case continuation cp (take needed bs) of
                  None \<Rightarrow> False
                | Some cp' \<Rightarrow> if bad_codepoint needed cp' then False else valid_utf8_bytes (drop needed bs))))"

definition is_valid_utf8 :: "string \<Rightarrow> bool" where
  "is_valid_utf8 text = valid_utf8_bytes (map of_char text)"

section \<open>The encoding\<close>

definition scalar_value :: "nat \<Rightarrow> bool" where
  "scalar_value cp \<longleftrightarrow> cp < 0xD800 \<or> 0xE000 \<le> cp \<and> cp < 0x110000"

definition utf8_encode :: "nat \<Rightarrow> nat list" where
  "utf8_encode cp =
     (if cp < 0x80 then [cp]
      else if cp < 0x800 then [0xC0 + cp div 64, 0x80 + cp mod 64]
      else if cp < 0x10000 then [0xE0 + cp div 4096, 0x80 + cp div 64 mod 64, 0x80 + cp mod 64]
      else [0xF0 + cp div 262144, 0x80 + cp div 4096 mod 64, 0x80 + cp div 64 mod 64, 0x80 + cp mod 64])"

section \<open>Bit operations as arithmetic\<close>

lemma and_low: "b AND 0x1F = b mod 32" "b AND 0x0F = b mod 16" "b AND 0x07 = b mod 8" "b AND 0x3F = b mod 64" for b :: nat
  using take_bit_eq_mask [of 5 b] take_bit_eq_mask [of 4 b] take_bit_eq_mask [of 3 b] take_bit_eq_mask [of 6 b]
  by (simp_all add: take_bit_eq_mod mask_eq_exp_minus_1)

lemma and_high: "b AND push_bit n m = push_bit n (drop_bit n b AND m)" for b m :: nat
  by (rule bit_eqI) (auto simp: bit_simps)

lemma and_small: "a < 8 \<Longrightarrow> a AND 7 = a" "a < 16 \<Longrightarrow> a AND 15 = a" "a < 32 \<Longrightarrow> a AND 31 = a" "a < 4 \<Longrightarrow> a AND 3 = a" for a :: nat
  using and_low [of a] take_bit_eq_mask [of 2 a] by (simp_all add: take_bit_eq_mod mask_eq_exp_minus_1)

lemma byte_masks:
  fixes b :: nat
  assumes "b < 256"
  shows "b AND 0xE0 = 0xC0 \<longleftrightarrow> 0xC0 \<le> b \<and> b < 0xE0" and "b AND 0xF0 = 0xE0 \<longleftrightarrow> 0xE0 \<le> b \<and> b < 0xF0"
    and "b AND 0xF8 = 0xF0 \<longleftrightarrow> 0xF0 \<le> b \<and> b < 0xF8" and "b AND 0xC0 = 0x80 \<longleftrightarrow> 0x80 \<le> b \<and> b < 0xC0"
proof -
  have "b AND 0xE0 = 32 * (b div 32)" using and_high [of b 5 7] and_small(1) [of "b div 32"] assms by (simp add: push_bit_eq_mult drop_bit_eq_div)
  then show "b AND 0xE0 = 0xC0 \<longleftrightarrow> 0xC0 \<le> b \<and> b < 0xE0" by auto
  have "b AND 0xF0 = 16 * (b div 16)" using and_high [of b 4 15] and_small(2) [of "b div 16"] assms by (simp add: push_bit_eq_mult drop_bit_eq_div)
  then show "b AND 0xF0 = 0xE0 \<longleftrightarrow> 0xE0 \<le> b \<and> b < 0xF0" by auto
  have "b AND 0xF8 = 8 * (b div 8)" using and_high [of b 3 31] and_small(3) [of "b div 8"] assms by (simp add: push_bit_eq_mult drop_bit_eq_div)
  then show "b AND 0xF8 = 0xF0 \<longleftrightarrow> 0xF0 \<le> b \<and> b < 0xF8" by auto
  have "b AND 0xC0 = 64 * (b div 64)" using and_high [of b 6 3] and_small(4) [of "b div 64"] assms by (simp add: push_bit_eq_mult drop_bit_eq_div)
  then show "b AND 0xC0 = 0x80 \<longleftrightarrow> 0x80 \<le> b \<and> b < 0xC0" by auto
qed

lemma shift_or: "push_bit 6 cp OR (x mod 64) = cp * 64 + x mod 64" for cp x :: nat
proof -
  have "push_bit 6 cp AND take_bit 6 x = 0" by (rule bit_eqI) (auto simp: bit_simps)
  then have "push_bit 6 cp OR take_bit 6 x = push_bit 6 cp + take_bit 6 x" by (simp add: disjunctive_add_eq_or)
  then show ?thesis by (simp add: push_bit_eq_mult take_bit_eq_mod)
qed

section \<open>The check accepts exactly the encodings\<close>

text \<open>The bytes of one encoded value are consumed as one step.\<close>

lemma lead_two: "x < 32 \<Longrightarrow> x \<noteq> 0 \<Longrightarrow> lead_byte (0xC0 + x) = Some (1, x)"
  and lead_three: "x < 16 \<Longrightarrow> lead_byte (0xE0 + x) = Some (2, x)"
  and lead_four: "x < 8 \<Longrightarrow> lead_byte (0xF0 + x) = Some (3, x)"
proof -
  have m: "(0xC0 + x) mod 32 = x mod 32" "(0xE0 + x) mod 16 = x mod 16" "(0xF0 + x) mod 8 = x mod 8"
    using mod_mult_self2 [of x 32 6] mod_mult_self2 [of x 16 14] mod_mult_self2 [of x 8 30] by (simp_all add: add.commute)
  show "x < 32 \<Longrightarrow> x \<noteq> 0 \<Longrightarrow> lead_byte (0xC0 + x) = Some (1, x)"
    using byte_masks [of "0xC0 + x"] m by (simp add: lead_byte_def and_low)
  show "x < 16 \<Longrightarrow> lead_byte (0xE0 + x) = Some (2, x)" using byte_masks [of "0xE0 + x"] m by (simp add: lead_byte_def and_low)
  show "x < 8 \<Longrightarrow> lead_byte (0xF0 + x) = Some (3, x)" using byte_masks [of "0xF0 + x"] m by (simp add: lead_byte_def and_low)
qed

lemma continue_step: "y < 64 \<Longrightarrow> continuation cp ((0x80 + y) # bs) = continuation (cp * 64 + y) bs"
proof -
  have "(0x80 + y) mod 64 = y mod 64" using mod_mult_self2 [of y 64 2] by (simp add: add.commute)
  then show "y < 64 \<Longrightarrow> ?thesis" using byte_masks(4) [of "0x80 + y"] shift_or [of cp "0x80 + y"] by (simp add: and_low)
qed

lemma lead_byte_cases:
  assumes "lead_byte b = Some (n, x)" and "b < 256"
  shows "n = 1 \<and> x < 32 \<and> x \<noteq> 0 \<and> b = 0xC0 + x \<or> n = 2 \<and> x < 16 \<and> b = 0xE0 + x \<or> n = 3 \<and> x < 8 \<and> b = 0xF0 + x"
proof -
  consider "0xC0 \<le> b" "b < 0xE0" | "0xE0 \<le> b" "b < 0xF0" | "0xF0 \<le> b" "b < 0xF8"
    using assms byte_masks [OF assms(2)] by (auto simp: lead_byte_def split: if_splits)
  then show ?thesis
  proof cases
    case 1
    then obtain y where y: "b = 0xC0 + y" "y < 32" using le_Suc_ex [of "0xC0" b] by auto
    have "lead_byte 0xC0 = None" by (simp add: lead_byte_def)
    with y assms(1) have "y \<noteq> 0" by (cases y) auto
    with y assms(1) lead_two show ?thesis by simp
  next
    case 2
    then obtain y where "b = 0xE0 + y" "y < 16" using le_Suc_ex [of "0xE0" b] by auto
    with assms(1) lead_three show ?thesis by simp
  next
    case 3
    then obtain y where "b = 0xF0 + y" "y < 8" using le_Suc_ex [of "0xF0" b] by auto
    with assms(1) lead_four show ?thesis by simp
  qed
qed

lemma continuation_cases:
  assumes "continuation cp (c # cs) = Some r" and "c < 256"
  obtains y where "y < 64" "c = 0x80 + y" "continuation (cp * 64 + y) cs = Some r"
proof -
  have "0x80 \<le> c" "c < 0xC0" using assms byte_masks(4) [OF assms(2)] by (auto split: if_splits)
  then obtain y where "c = 0x80 + y" "y < 64" using le_Suc_ex [of "0x80" c] by auto
  with assms(1) continue_step that show thesis by metis
qed

lemmas [simp del] = continuation.simps(2)

lemma encode_parts:
  "y < 64 \<Longrightarrow> 0x80 \<le> x * 64 + y \<Longrightarrow> x < 32 \<Longrightarrow> utf8_encode (x * 64 + y) = [0xC0 + x, 0x80 + y]"
  "y < 64 \<Longrightarrow> z < 64 \<Longrightarrow> 0x800 \<le> (x * 64 + y) * 64 + z \<Longrightarrow> x < 16 \<Longrightarrow> utf8_encode ((x * 64 + y) * 64 + z) = [0xE0 + x, 0x80 + y, 0x80 + z]"
  "y < 64 \<Longrightarrow> z < 64 \<Longrightarrow> w < 64 \<Longrightarrow> 0x10000 \<le> ((x * 64 + y) * 64 + z) * 64 + w \<Longrightarrow>
     utf8_encode (((x * 64 + y) * 64 + z) * 64 + w) = [0xF0 + x, 0x80 + y, 0x80 + z, 0x80 + w]"
proof -
  have d: "(a * 64 + b) div 64 = a" "(a * 64 + b) mod 64 = b" if "b < 64" for a b :: nat using that by simp_all
  have d2: "n div 4096 = n div 64 div 64" "n div 262144 = n div 64 div 64 div 64" for n :: nat by (simp_all add: div_mult2_eq [symmetric])
  show "y < 64 \<Longrightarrow> 0x80 \<le> x * 64 + y \<Longrightarrow> x < 32 \<Longrightarrow> utf8_encode (x * 64 + y) = [0xC0 + x, 0x80 + y]"
    by (simp add: utf8_encode_def d)
  show "y < 64 \<Longrightarrow> z < 64 \<Longrightarrow> 0x800 \<le> (x * 64 + y) * 64 + z \<Longrightarrow> x < 16 \<Longrightarrow> utf8_encode ((x * 64 + y) * 64 + z) = [0xE0 + x, 0x80 + y, 0x80 + z]"
    unfolding utf8_encode_def d2 by (simp only: d) auto
  show "y < 64 \<Longrightarrow> z < 64 \<Longrightarrow> w < 64 \<Longrightarrow> 0x10000 \<le> ((x * 64 + y) * 64 + z) * 64 + w \<Longrightarrow>
     utf8_encode (((x * 64 + y) * 64 + z) * 64 + w) = [0xF0 + x, 0x80 + y, 0x80 + z, 0x80 + w]"
    unfolding utf8_encode_def d2 by (simp only: d) auto
qed

text \<open>The bytes of one encoded value are one step of the loop.\<close>

lemma value_parts:
  assumes "scalar_value cp"
  shows "cp < 0x80 \<or> (\<exists>x y. cp = x * 64 + y \<and> y < 64 \<and> x < 32 \<and> 0x80 \<le> cp) \<or>
    (\<exists>x y z. cp = (x * 64 + y) * 64 + z \<and> y < 64 \<and> z < 64 \<and> x < 16 \<and> 0x800 \<le> cp) \<or>
    (\<exists>x y z w. cp = ((x * 64 + y) * 64 + z) * 64 + w \<and> y < 64 \<and> z < 64 \<and> w < 64 \<and> x < 8 \<and> 0x10000 \<le> cp)"
proof -
  have s: "n = n div 64 * 64 + n mod 64" "n mod 64 < 64" for n :: nat by simp_all
  have s2: "n = (n div 64 div 64 * 64 + n div 64 mod 64) * 64 + n mod 64" for n :: nat by simp
  have s3: "n = ((n div 64 div 64 div 64 * 64 + n div 64 div 64 mod 64) * 64 + n div 64 mod 64) * 64 + n mod 64" for n :: nat by simp
  have lt: "cp < 0x110000" using assms by (auto simp: scalar_value_def)
  consider "cp < 0x80" | "0x80 \<le> cp" "cp < 0x800" | "0x800 \<le> cp" "cp < 0x10000" | "0x10000 \<le> cp" by linarith
  then show ?thesis
  proof cases
    case 2
    then have "cp div 64 < 32" by (simp add: div_less_iff_less_mult)
    with 2 s [of cp] show ?thesis by blast
  next
    case 3
    then have "cp div 64 div 64 < 16" by (simp add: div_less_iff_less_mult)
    with 3 s2 [of cp] s(2) show ?thesis by blast
  next
    case 4
    have "cp div 64 div 64 div 64 < 8" using lt by (simp add: div_less_iff_less_mult)
    with 4 s3 [of cp] s(2) show ?thesis by blast
  qed simp
qed

lemma encode_reads:
  assumes "scalar_value cp"
  shows "cp < 0x80 \<and> utf8_encode cp = [cp] \<or>
    (\<exists>b cs x. utf8_encode cp = b # cs \<and> b > 0x7F \<and> lead_byte b = Some (length cs, x) \<and> continuation x cs = Some cp \<and> \<not> bad_codepoint (length cs) cp)"
  using value_parts [OF assms]
proof (elim disjE exE conjE)
  fix x y assume a: "cp = x * 64 + y" "y < 64" "x < 32" "0x80 \<le> cp"
  then have "x \<noteq> 0" by (cases x) auto
  have "utf8_encode cp = [0xC0 + x, 0x80 + y]" using a encode_parts(1) by simp
  moreover have "continuation x [0x80 + y] = Some cp" using a continue_step by simp
  moreover have "\<not> bad_codepoint 1 cp" using a assms by (auto simp: bad_codepoint_def scalar_value_def)
  ultimately show ?thesis using lead_two [OF a(3) \<open>x \<noteq> 0\<close>] by auto
next
  fix x y z assume a: "cp = (x * 64 + y) * 64 + z" "y < 64" "z < 64" "x < 16" "0x800 \<le> cp"
  have "utf8_encode cp = [0xE0 + x, 0x80 + y, 0x80 + z]" using a encode_parts(2) by simp
  moreover have "continuation x [0x80 + y, 0x80 + z] = Some cp" using a continue_step by simp
  moreover have "\<not> bad_codepoint 2 cp" using a assms by (auto simp: bad_codepoint_def scalar_value_def)
  ultimately show ?thesis using lead_three [OF a(4)] by (auto simp: numeral_2_eq_2)
next
  fix x y z w assume a: "cp = ((x * 64 + y) * 64 + z) * 64 + w" "y < 64" "z < 64" "w < 64" "x < 8" "0x10000 \<le> cp"
  have "utf8_encode cp = [0xF0 + x, 0x80 + y, 0x80 + z, 0x80 + w]" using a encode_parts(3) by simp
  moreover have "continuation x [0x80 + y, 0x80 + z, 0x80 + w] = Some cp" using a continue_step by simp
  moreover have "\<not> bad_codepoint 3 cp" using a assms by (auto simp: bad_codepoint_def scalar_value_def)
  ultimately show ?thesis using lead_four [OF a(5)] by (auto simp: numeral_3_eq_3)
qed (simp add: utf8_encode_def)

lemma encode_step:
  assumes "scalar_value cp"
  shows "valid_utf8_bytes (utf8_encode cp @ bs) = valid_utf8_bytes bs"
  using encode_reads [OF assms] by auto

lemma good_codepoint: "\<not> bad_codepoint n cp \<Longrightarrow> scalar_value cp"
  by (auto simp: bad_codepoint_def scalar_value_def)

lemma step_encode:
  assumes "lead_byte b = Some (n, x)" and "n \<le> length bs" and "continuation x (take n bs) = Some cp" and "\<not> bad_codepoint n cp"
    and "list_all (\<lambda>b. b < 256) (b # bs)"
  shows "b # bs = utf8_encode cp @ drop n bs"
  using lead_byte_cases [OF assms(1)] assms(5)
proof (simp, elim disjE conjE)
  assume n: "n = Suc 0" and x: "x < 32" "b = 192 + x"
  from n assms(2) obtain c bs' where bs: "bs = c # bs'" by (cases bs) auto
  with assms(3,5) n obtain y where "y < 64" "c = 0x80 + y" "x * 64 + y = cp" using continuation_cases [of x c "[]" cp] by auto
  with assms(4) n x bs show "b # bs = utf8_encode cp @ drop n bs" using encode_parts(1) [of y x] by (auto simp: bad_codepoint_def)
next
  assume n: "n = 2" and x: "x < 16" "b = 224 + x"
  from n assms(2) obtain c d bs' where bs: "bs = c # d # bs'" by (cases bs; cases "tl bs") auto
  with assms(3,5) n obtain y where y: "y < 64" "c = 0x80 + y" "continuation (x * 64 + y) [d] = Some cp"
    using continuation_cases [of x c "[d]" cp] by (auto simp: numeral_2_eq_2)
  with assms(5) bs obtain z where "z < 64" "d = 0x80 + z" "(x * 64 + y) * 64 + z = cp" using continuation_cases [of "x * 64 + y" d "[]" cp] by auto
  with assms(4) n x y bs show "b # bs = utf8_encode cp @ drop n bs" using encode_parts(2) [of y z x] by (auto simp: bad_codepoint_def)
next
  assume n: "n = 3" and x: "x < 8" "b = 240 + x"
  from n assms(2) obtain c d e bs' where bs: "bs = c # d # e # bs'" by (cases bs; cases "tl bs"; cases "tl (tl bs)") auto
  with assms(3,5) n obtain y where y: "y < 64" "c = 0x80 + y" "continuation (x * 64 + y) [d, e] = Some cp"
    using continuation_cases [of x c "[d, e]" cp] by (auto simp: numeral_3_eq_3)
  with assms(5) bs obtain z where z: "z < 64" "d = 0x80 + z" "continuation ((x * 64 + y) * 64 + z) [e] = Some cp"
    using continuation_cases [of "x * 64 + y" d "[e]" cp] by auto
  with assms(5) bs obtain w where "w < 64" "e = 0x80 + w" "((x * 64 + y) * 64 + z) * 64 + w = cp"
    using continuation_cases [of "(x * 64 + y) * 64 + z" e "[]" cp] by auto
  with assms(4) n x y z bs show "b # bs = utf8_encode cp @ drop n bs" using encode_parts(3) [of y z w x] by (auto simp: bad_codepoint_def)
qed

lemma valid_decodes:
  "list_all (\<lambda>b. b < 256) bs \<Longrightarrow> valid_utf8_bytes bs \<Longrightarrow> \<exists>cps. list_all scalar_value cps \<and> bs = concat (map utf8_encode cps)"
proof (induction bs rule: valid_utf8_bytes.induct)
  case 1
  show ?case by (intro exI [of _ "[]"]) simp
next
  case (2 b bs)
  show ?case
  proof (cases "b \<le> 0x7F")
    case True
    with 2 obtain cps where "list_all scalar_value cps" "bs = concat (map utf8_encode cps)" by auto
    moreover from True have "scalar_value b" "utf8_encode b = [b]" by (simp_all add: scalar_value_def utf8_encode_def)
    ultimately show ?thesis by (intro exI [of _ "b # cps"]) simp
  next
    case False
    have "lead_byte b \<noteq> None" by (rule notI) (use False 2(4) in simp)
    then obtain n x where l1: "lead_byte b = Some (n, x)" by auto
    have "n \<le> length bs" by (rule ccontr) (use False l1 2(4) in simp)
    with l1 have l: "lead_byte b = Some (n, x)" "n \<le> length bs" by simp_all
    with False 2(4) obtain cp where c: "continuation x (take n bs) = Some cp" by (auto split: option.splits if_splits)
    with False l 2(4) have s: "lead_byte b = Some (n, x)" "n \<le> length bs" "continuation x (take n bs) = Some cp" "\<not> bad_codepoint n cp"
      "valid_utf8_bytes (drop n bs)" by (simp_all split: if_splits)
    have "list_all (\<lambda>b. b < 256) (drop n bs)" using 2(3) by (auto simp: list_all_iff dest: in_set_dropD)
    with 2(2) [OF False s(1) refl _ s(3,4)] s(2,5) obtain cps where "list_all scalar_value cps" "drop n bs = concat (map utf8_encode cps)" by auto
    with step_encode [OF s(1-4) 2(3)] good_codepoint [OF s(4)] show ?thesis by (intro exI [of _ "cp # cps"]) simp
  qed
qed

text \<open>No encoding is the beginning of another one, so a text has at most one reading.\<close>

lemma encode_inj:
  assumes "scalar_value cp" and "scalar_value cp'" and "utf8_encode cp @ r = utf8_encode cp' @ r'"
  shows "cp = cp' \<and> r = r'"
proof -
  have low: "cp1 = cp2 \<and> r1 = r2" if "cp1 < 0x80" "utf8_encode cp1 = [cp1]" "scalar_value cp2" "utf8_encode cp1 @ r1 = utf8_encode cp2 @ r2"
    for cp1 cp2 r1 r2 using encode_reads [OF that(3)] that(1,2,4) by auto
  show ?thesis
  proof (cases "cp < 0x80 \<or> cp' < 0x80")
    case True
    then have "cp < 0x80 \<and> utf8_encode cp = [cp] \<or> cp' < 0x80 \<and> utf8_encode cp' = [cp']" by (auto simp: utf8_encode_def)
    with low [of cp cp' r r'] low [of cp' cp r' r] assms show ?thesis by metis
  next
    case False
    with encode_reads [OF assms(1)] encode_reads [OF assms(2)] obtain b cs x b' cs' x' where
      "utf8_encode cp = b # cs" "lead_byte b = Some (length cs, x)" "continuation x cs = Some cp"
      "utf8_encode cp' = b' # cs'" "lead_byte b' = Some (length cs', x')" "continuation x' cs' = Some cp'" by metis
    with assms(3) show ?thesis by simp
  qed
qed

lemma decode_unique:
  "list_all scalar_value cps \<Longrightarrow> list_all scalar_value cps' \<Longrightarrow> concat (map utf8_encode cps) = concat (map utf8_encode cps') \<Longrightarrow> cps = cps'"
proof (induction cps arbitrary: cps')
  case Nil
  then show ?case by (cases cps') (auto simp: utf8_encode_def split: if_splits)
next
  case (Cons cp cps)
  then show ?case
  proof (cases cps')
    case Nil
    with Cons.prems show ?thesis by (auto simp: utf8_encode_def split: if_splits)
  next
    case (Cons cp' ds)
    with Cons.prems encode_inj [of cp cp' "concat (map utf8_encode cps)" "concat (map utf8_encode ds)"] Cons.IH [of ds] show ?thesis by auto
  qed
qed

section \<open>Property\<close>

text \<open>
  C29. The check of the input text accepts exactly the texts that encode a sequence of Unicode scalar values (no overlong forms, no
  surrogates, nothing above 0x10FFFF, no truncated sequence), and such a text encodes one sequence only.
\<close>

theorem utf8_check_exact:
  "is_valid_utf8 text \<longleftrightarrow> (\<exists>!cps. list_all scalar_value cps \<and> map of_char text = concat (map utf8_encode cps))"
proof -
  have "list_all (\<lambda>b. b < (256::nat)) (map of_char text)" by (simp add: list_all_iff)
  then have "is_valid_utf8 text \<Longrightarrow> \<exists>cps. list_all scalar_value cps \<and> map of_char text = concat (map utf8_encode cps)"
    unfolding is_valid_utf8_def by (rule valid_decodes)
  moreover have "list_all scalar_value cps \<Longrightarrow> valid_utf8_bytes (concat (map utf8_encode cps))" for cps
    by (induction cps) (simp_all add: encode_step)
  ultimately show ?thesis unfolding is_valid_utf8_def using decode_unique by metis
qed

end
