(* ===== verification/Graph_IO.thy ===== *)
theory Graph_IO
  imports Graph_Model Graph_Diagnostics Utf8
begin

text \<open>
  Graph input (\<^verbatim>\<open>src/graph_io.cpp\<close>): from a text to a \<open>graph_spec\<close>, with the limits on its size, on identifiers, strings and configuration
  values, subgraphs and templates expanded.

  \<^item> yaml-cpp is not part of the repository. A document is a tree with its node types (\<open>ynode\<close>; a document that contains itself through an
    alias has no such tree); parsing, lookup of a key, conversions of scalars, assignment to a key and printing are the arguments
    of a \<open>yaml_library\<close>, of which nothing is assumed.
  \<^item> The code throws \<^verbatim>\<open>std::invalid_argument\<close>, the library \<^verbatim>\<open>YAML::Exception\<close>: the two constructors of \<open>load_error\<close>.
  \<^item> A statement sequence is \<open>chain\<close>, a loop that collects results is \<open>each\<close>; the first error ends both.
\<close>

section \<open>Results\<close>

datatype load_error = InvalidArgument string | YamlException string

type_synonym 'a loaded = "load_error + 'a"

definition chain :: "'a loaded \<Rightarrow> ('a \<Rightarrow> 'b loaded) \<Rightarrow> 'b loaded" where
  "chain r f = (case r of Inl e \<Rightarrow> Inl e | Inr x \<Rightarrow> f x)"

fun each :: "('a \<Rightarrow> 'b loaded) \<Rightarrow> 'a list \<Rightarrow> 'b list loaded" where
  "each f [] = Inr []"
| "each f (x # xs) = chain (f x) (\<lambda>y. chain (each f xs) (\<lambda>ys. Inr (y # ys)))"

fun each_fold :: "('a \<Rightarrow> 's \<Rightarrow> 's loaded) \<Rightarrow> 'a list \<Rightarrow> 's \<Rightarrow> 's loaded" where
  "each_fold f [] s = Inr s"
| "each_fold f (x # xs) s = chain (f x s) (each_fold f xs)"

definition each_indexed :: "(nat \<Rightarrow> 'a \<Rightarrow> 'b loaded) \<Rightarrow> 'a list \<Rightarrow> 'b list loaded" where
  "each_indexed f xs = each (\<lambda>(i, x). f i x) (enumerate 0 xs)"

definition invalid :: "string \<Rightarrow> 'a loaded" where
  "invalid msg = Inl (InvalidArgument msg)"

definition index_context :: "string \<Rightarrow> nat \<Rightarrow> string" where
  "index_context ctx i = ctx @ ''['' @ nat_to_string i @ '']''"

section \<open>Documents\<close>

datatype ynode = YNull | YScalar string | YSequence "ynode list" | YMap "(ynode \<times> ynode) list"

text \<open>The events of yaml-cpp's event parser, one constructor per method of \<^verbatim>\<open>YAML::EventHandler\<close>, without their arguments.\<close>

datatype yaml_event =
  OnDocumentStart | OnDocumentEnd | OnNull | OnAlias | OnScalar | OnSequenceStart | OnSequenceEnd | OnMapStart | OnMapEnd

text \<open>\<open>yl_events\<close> are the events up to the end of the last document or to the exception.\<close>

record yaml_library =
  yl_load :: "string \<Rightarrow> string + ynode"
  yl_events :: "string \<Rightarrow> yaml_event list"
  yl_at :: "ynode \<Rightarrow> string \<Rightarrow> string + ynode option"
  yl_string :: "ynode \<Rightarrow> string + string"
  yl_int :: "ynode \<Rightarrow> string + int"
  yl_double :: "ynode \<Rightarrow> string + fp"
  yl_bool :: "ynode \<Rightarrow> string + bool"
  yl_set :: "string \<Rightarrow> ynode \<Rightarrow> ynode \<Rightarrow> ynode"
  yl_print :: "ynode \<Rightarrow> string"

definition from_yaml :: "string + 'a \<Rightarrow> 'a loaded" where
  "from_yaml r = map_sum YamlException id r"

text \<open>\<^verbatim>\<open>node[key]\<close>; an undefined and a null child are treated alike by all callers.\<close>

definition field :: "yaml_library \<Rightarrow> ynode \<Rightarrow> string \<Rightarrow> ynode option loaded" where
  "field lib node key = chain (from_yaml (yl_at lib node key)) (\<lambda>c. Inr (if c = Some YNull then None else c))"

definition text_of :: "yaml_library \<Rightarrow> ynode \<Rightarrow> string loaded" where
  "text_of lib node = from_yaml (yl_string lib node)"

section \<open>Limits\<close>

record graph_input_limits =
  max_graph_input_bytes :: nat
  max_lanes :: nat
  max_components :: nat
  max_edges :: nat
  max_composite_loops :: nat
  max_identifier_bytes :: nat
  max_config_depth :: nat
  max_config_value_bytes :: nat
  max_string_bytes :: nat
  max_yaml_alias_count :: nat

definition default_graph_input_limits :: graph_input_limits where
  "default_graph_input_limits =
     \<lparr>max_graph_input_bytes = 1024 * 1024, max_lanes = 256, max_components = 4096, max_edges = 8192, max_composite_loops = 1024,
      max_identifier_bytes = 128, max_config_depth = 8, max_config_value_bytes = 4096, max_string_bytes = 4096, max_yaml_alias_count = 32\<rparr>"

definition enforce_limit :: "nat \<Rightarrow> nat \<Rightarrow> string \<Rightarrow> unit loaded" where
  "enforce_limit value limit ctx = (if value > limit then invalid (ctx @ '' exceeds limit '' @ nat_to_string limit) else Inr ())"

definition enforce_valid_utf8 :: "string \<Rightarrow> unit loaded" where
  "enforce_valid_utf8 text = (if is_valid_utf8 text then Inr () else invalid ''graph input must be valid UTF-8 text'')"

definition enforce_string_limit :: "graph_input_limits \<Rightarrow> string \<Rightarrow> string \<Rightarrow> unit loaded" where
  "enforce_string_limit gl v ctx = enforce_limit (length v) (max_string_bytes gl) (ctx @ '' length'')"

definition enforce_identifier_limit :: "graph_input_limits \<Rightarrow> string \<Rightarrow> string \<Rightarrow> unit loaded" where
  "enforce_identifier_limit gl v ctx =
     (if v = [] then invalid (ctx @ '' must not be empty'') else enforce_limit (length v) (max_identifier_bytes gl) (ctx @ '' length''))"

definition checked_identifier :: "graph_input_limits \<Rightarrow> string \<Rightarrow> string \<Rightarrow> string loaded" where
  "checked_identifier gl v ctx = chain (enforce_identifier_limit gl v ctx) (\<lambda>_. Inr v)"

fun enforce_config_limits :: "yaml_library \<Rightarrow> graph_input_limits \<Rightarrow> string \<Rightarrow> nat \<Rightarrow> ynode \<Rightarrow> unit loaded"
  and enforce_entries :: "yaml_library \<Rightarrow> graph_input_limits \<Rightarrow> string \<Rightarrow> nat \<Rightarrow> (ynode \<times> ynode) list \<Rightarrow> unit loaded"
  and enforce_items :: "yaml_library \<Rightarrow> graph_input_limits \<Rightarrow> string \<Rightarrow> nat \<Rightarrow> nat \<Rightarrow> ynode list \<Rightarrow> unit loaded" where
  "enforce_config_limits lib gl ctx depth YNull = Inr ()"
| "enforce_config_limits lib gl ctx depth (YMap es) =
     chain (enforce_limit depth (max_config_depth gl) (ctx @ '' depth'')) (\<lambda>_. enforce_entries lib gl ctx depth es)"
| "enforce_config_limits lib gl ctx depth (YSequence ns) =
     chain (enforce_limit depth (max_config_depth gl) (ctx @ '' depth'')) (\<lambda>_. enforce_items lib gl ctx depth 0 ns)"
| "enforce_config_limits lib gl ctx depth (YScalar s) =
     chain (enforce_limit depth (max_config_depth gl) (ctx @ '' depth'')) (\<lambda>_.
     chain (text_of lib (YScalar s)) (\<lambda>v. enforce_limit (length v) (max_config_value_bytes gl) (ctx @ '' value size'')))"
| "enforce_entries lib gl ctx depth [] = Inr ()"
| "enforce_entries lib gl ctx depth ((k, n) # es) =
     chain (text_of lib k) (\<lambda>key.
     chain (enforce_limit (length key) (max_identifier_bytes gl) (ctx @ '' key length'')) (\<lambda>_.
     chain (enforce_config_limits lib gl (ctx @ ''.'' @ key) (depth + 1) n) (\<lambda>_. enforce_entries lib gl ctx depth es)))"
| "enforce_items lib gl ctx depth i [] = Inr ()"
| "enforce_items lib gl ctx depth i (n # ns) =
     chain (enforce_config_limits lib gl (index_context ctx i) (depth + 1) n) (\<lambda>_. enforce_items lib gl ctx depth (i + 1) ns)"

section \<open>Reading fields\<close>

definition require_map :: "ynode \<Rightarrow> string \<Rightarrow> (ynode \<times> ynode) list loaded" where
  "require_map node ctx = (case node of YMap es \<Rightarrow> Inr es | _ \<Rightarrow> invalid (ctx @ '' must be a mapping''))"

definition require_sequence :: "ynode \<Rightarrow> string \<Rightarrow> ynode list loaded" where
  "require_sequence node ctx = (case node of YSequence ns \<Rightarrow> Inr ns | _ \<Rightarrow> invalid (ctx @ '' must be a sequence''))"

definition require_node :: "yaml_library \<Rightarrow> ynode \<Rightarrow> string \<Rightarrow> string \<Rightarrow> ynode loaded" where
  "require_node lib node key ctx =
     chain (field lib node key) (\<lambda>c. case c of None \<Rightarrow> invalid (ctx @ ''.'' @ key @ '' is required'') | Some n \<Rightarrow> Inr n)"

definition require_string :: "yaml_library \<Rightarrow> ynode \<Rightarrow> string \<Rightarrow> string \<Rightarrow> string loaded" where
  "require_string lib node key ctx = chain (require_node lib node key ctx) (text_of lib)"

definition optional_string :: "yaml_library \<Rightarrow> ynode \<Rightarrow> string \<Rightarrow> string \<Rightarrow> string loaded" where
  "optional_string lib node key fallback =
     chain (field lib node key) (\<lambda>c. case c of None \<Rightarrow> Inr fallback | Some n \<Rightarrow> text_of lib n)"

definition convert :: "string + 'a \<Rightarrow> string \<Rightarrow> 'a loaded" where
  "convert r msg = (case r of Inl _ \<Rightarrow> invalid msg | Inr v \<Rightarrow> Inr v)"

definition optional_int :: "yaml_library \<Rightarrow> ynode \<Rightarrow> string \<Rightarrow> int \<Rightarrow> int loaded" where
  "optional_int lib node key fallback =
     chain (field lib node key)
       (\<lambda>c. case c of None \<Rightarrow> Inr fallback | Some n \<Rightarrow> convert (yl_int lib n) (''field '' @ key @ '' must be an integer''))"

definition optional_double :: "yaml_library \<Rightarrow> ynode \<Rightarrow> string \<Rightarrow> fp \<Rightarrow> fp loaded" where
  "optional_double lib node key fallback =
     chain (field lib node key)
       (\<lambda>c. case c of None \<Rightarrow> Inr fallback | Some n \<Rightarrow> convert (yl_double lib n) (''field '' @ key @ '' must be a number''))"

definition optional_bool :: "yaml_library \<Rightarrow> ynode \<Rightarrow> string \<Rightarrow> bool \<Rightarrow> bool loaded" where
  "optional_bool lib node key fallback =
     chain (field lib node key)
       (\<lambda>c. case c of None \<Rightarrow> Inr fallback | Some n \<Rightarrow> convert (yl_bool lib n) (''field '' @ key @ '' must be a boolean (true/false)''))"

definition optional_vector :: "(ynode \<Rightarrow> 'a loaded) \<Rightarrow> yaml_library \<Rightarrow> ynode \<Rightarrow> string \<Rightarrow> string \<Rightarrow> 'a list loaded" where
  "optional_vector f lib node key ctx =
     chain (field lib node key)
       (\<lambda>c. case c of None \<Rightarrow> Inr [] | Some n \<Rightarrow> chain (require_sequence n (ctx @ ''.'' @ key)) (each f))"

definition optional_string_vector :: "yaml_library \<Rightarrow> ynode \<Rightarrow> string \<Rightarrow> string \<Rightarrow> string list loaded" where
  "optional_string_vector lib = optional_vector (text_of lib) lib"

definition optional_int_vector :: "yaml_library \<Rightarrow> ynode \<Rightarrow> string \<Rightarrow> string \<Rightarrow> int list loaded" where
  "optional_int_vector lib = optional_vector (\<lambda>n. from_yaml (yl_int lib n)) lib"

definition reject_unknown_fields :: "yaml_library \<Rightarrow> ynode \<Rightarrow> string \<Rightarrow> string list \<Rightarrow> unit loaded" where
  "reject_unknown_fields lib node ctx allowed =
     (if node = YNull then Inr ()
      else chain (require_map node ctx) (\<lambda>es.
           chain (each (\<lambda>(k, _). chain (text_of lib k) (\<lambda>key.
                    if key \<in> set allowed then Inr () else invalid (''unexpected field '' @ ctx @ ''.'' @ key))) es) (\<lambda>_. Inr ())))"

text \<open>\<^verbatim>\<open>require_map\<close> followed by \<^verbatim>\<open>reject_unknown_fields\<close>\<close>

definition check_map :: "yaml_library \<Rightarrow> ynode \<Rightarrow> string \<Rightarrow> string list \<Rightarrow> unit loaded" where
  "check_map lib node ctx allowed = chain (require_map node ctx) (\<lambda>_. reject_unknown_fields lib node ctx allowed)"

section \<open>Namespaces\<close>

definition prefixed_id :: "graph_input_limits \<Rightarrow> string \<Rightarrow> string \<Rightarrow> string \<Rightarrow> string loaded" where
  "prefixed_id gl ns local_id ctx = checked_identifier gl (ns @ ''.'' @ local_id) ctx"

definition namespace_endpoint :: "graph_input_limits \<Rightarrow> string \<Rightarrow> string \<Rightarrow> string \<Rightarrow> string loaded" where
  "namespace_endpoint gl ns ep ctx =
     (let local_component = component_id_from_endpoint ep
      in if local_component = [] then invalid (ctx @ '' must name a local component'')
         else
           (let prefixed_component = ns @ ''.'' @ local_component
            in chain (enforce_identifier_limit gl prefixed_component (ctx @ '' component'')) (\<lambda>_.
               Inr (if length local_component = length ep then prefixed_component
                    else prefixed_component @ drop (length local_component) ep))))"

definition namespace_component_refs :: "graph_input_limits \<Rightarrow> string \<Rightarrow> string list \<Rightarrow> string \<Rightarrow> string list loaded" where
  "namespace_component_refs gl ns ids ctx =
     each (\<lambda>local_id.
        chain (enforce_identifier_limit gl local_id ctx) (\<lambda>_.
        chain (enforce_identifier_limit gl (ns @ ''.'' @ local_id) ctx) (\<lambda>_. Inr (ns @ ''.'' @ local_id)))) ids"

section \<open>Templates\<close>

record graph_template_definition =
  td_id :: string
  td_parameters :: "string list"
  td_body :: ynode

text \<open>\<^verbatim>\<open>std::string::find\<close>: the text before the first occurrence of a pattern and after it.\<close>

fun split_first :: "string \<Rightarrow> string \<Rightarrow> (string \<times> string) option" where
  "split_first pat [] = (if pat = [] then Some ([], []) else None)"
| "split_first pat (c # s) =
     (if starts_with pat (c # s) then Some ([], drop (length pat) (c # s))
      else map_option (\<lambda>(a, b). (c # a, b)) (split_first pat s))"

lemma split_first_Some: "split_first pat s = Some (a, b) \<Longrightarrow> s = a @ pat @ b"
  by (induction s arbitrary: a) (auto simp: starts_with_iff split: if_splits)

text \<open>The loop, on the text from the cursor on.\<close>

function substitute_loop :: "graph_input_limits \<Rightarrow> (string, string) smap \<Rightarrow> string \<Rightarrow> string \<Rightarrow> string loaded" where
  "substitute_loop gl params ctx v =
     (case split_first ''{{'' v of
        None \<Rightarrow> Inr v
      | Some (pre, rest) \<Rightarrow>
          (case split_first ''}}'' rest of
             None \<Rightarrow> invalid (ctx @ '' has an unterminated template parameter'')
           | Some (name, rest') \<Rightarrow>
               chain (checked_identifier gl name (ctx @ '' parameter'')) (\<lambda>_.
               case map_of params name of
                 None \<Rightarrow> invalid (ctx @ '' references missing template parameter '' @ name)
               | Some w \<Rightarrow> chain (substitute_loop gl params ctx rest') (\<lambda>t. Inr (pre @ w @ t)))))"
  by pat_completeness auto

termination substitute_loop
  by (relation "measure (\<lambda>(gl, params, ctx, v). length v)") (auto dest!: split_first_Some)

declare substitute_loop.simps [simp del]

definition substitute_placeholders :: "graph_input_limits \<Rightarrow> string \<Rightarrow> (string, string) smap \<Rightarrow> string \<Rightarrow> string loaded" where
  "substitute_placeholders gl v params ctx =
     chain (substitute_loop gl params ctx v) (\<lambda>out. chain (enforce_string_limit gl out ctx) (\<lambda>_. Inr out))"

fun substitute_template_node :: "yaml_library \<Rightarrow> graph_input_limits \<Rightarrow> (string, string) smap \<Rightarrow> string \<Rightarrow> ynode \<Rightarrow> ynode loaded"
  and substitute_items :: "yaml_library \<Rightarrow> graph_input_limits \<Rightarrow> (string, string) smap \<Rightarrow> string \<Rightarrow> nat \<Rightarrow> ynode list \<Rightarrow> ynode list loaded"
  and substitute_entries :: "yaml_library \<Rightarrow> graph_input_limits \<Rightarrow> (string, string) smap \<Rightarrow> string \<Rightarrow> (ynode \<times> ynode) list \<Rightarrow> ynode \<Rightarrow> ynode loaded" where
  "substitute_template_node lib gl params ctx YNull = Inr YNull"
| "substitute_template_node lib gl params ctx (YScalar s) =
     chain (text_of lib (YScalar s)) (\<lambda>v. chain (substitute_placeholders gl v params ctx) (\<lambda>out. Inr (YScalar out)))"
| "substitute_template_node lib gl params ctx (YSequence ns) =
     chain (substitute_items lib gl params ctx 0 ns) (\<lambda>ms. Inr (YSequence ms))"
| "substitute_template_node lib gl params ctx (YMap es) = substitute_entries lib gl params ctx es (YMap [])"
| "substitute_items lib gl params ctx i [] = Inr []"
| "substitute_items lib gl params ctx i (n # ns) =
     chain (substitute_template_node lib gl params (index_context ctx i) n) (\<lambda>m.
     chain (substitute_items lib gl params ctx (i + 1) ns) (\<lambda>ms. Inr (m # ms)))"
| "substitute_entries lib gl params ctx [] out = Inr out"
| "substitute_entries lib gl params ctx ((k, n) # es) out =
     chain (text_of lib k) (\<lambda>raw.
     chain (substitute_placeholders gl raw params (ctx @ ''.key'')) (\<lambda>key.
     chain (substitute_template_node lib gl params (ctx @ ''.'' @ key) n) (\<lambda>m.
     substitute_entries lib gl params ctx es (yl_set lib key m out))))"

section \<open>Components\<close>

definition read_config_node :: "yaml_library \<Rightarrow> graph_input_limits \<Rightarrow> ynode option \<Rightarrow> string \<Rightarrow> config_view loaded" where
  "read_config_node lib gl config_node ctx =
     (case config_node of
        None \<Rightarrow> Inr empty_config_view
      | Some n \<Rightarrow>
          chain (require_map n ctx) (\<lambda>es.
          chain (enforce_config_limits lib gl ctx 0 n) (\<lambda>_.
          each_fold (\<lambda>(k, value) view.
            chain (text_of lib k) (\<lambda>key.
            case value of
              YNull \<Rightarrow> chain (text_of lib value) (\<lambda>v. Inr (view\<lparr>cv_values := smap_put key v (cv_values view)\<rparr>))
            | YScalar _ \<Rightarrow> chain (text_of lib value) (\<lambda>v. Inr (view\<lparr>cv_values := smap_put key v (cv_values view)\<rparr>))
            | _ \<Rightarrow>
                (let out = yl_print lib value
                 in chain (enforce_limit (length out) (max_config_value_bytes gl) (ctx @ ''.'' @ key @ '' serialized value size'')) (\<lambda>_.
                    Inr (view\<lparr>cv_values := smap_put key out (cv_values view), cv_nested_values := List.insert key (cv_nested_values view)\<rparr>)))))
            es empty_config_view)))"

definition read_config :: "yaml_library \<Rightarrow> graph_input_limits \<Rightarrow> ynode \<Rightarrow> string \<Rightarrow> config_view loaded" where
  "read_config lib gl node cid =
     chain (field lib node ''config'') (\<lambda>c. read_config_node lib gl c (''components.'' @ cid @ ''.config''))"

definition default_event_source :: event_source_spec where
  "default_event_source = \<lparr>es_id = [], es_type = ''manual'', es_inputs = [], es_input = [], es_period_ms = 0\<rparr>"

definition read_event_source :: "yaml_library \<Rightarrow> ynode \<Rightarrow> string \<Rightarrow> event_source_spec loaded" where
  "read_event_source lib node ctx =
     chain (check_map lib node ctx [''id'', ''type'', ''inputs'', ''input'', ''period_ms'']) (\<lambda>_.
     chain (optional_string lib node ''id'' []) (\<lambda>sid.
     chain (optional_string lib node ''type'' ''manual'') (\<lambda>ty.
     chain (optional_string_vector lib node ''inputs'' ctx) (\<lambda>inputs.
     chain (optional_string lib node ''input'' []) (\<lambda>input.
     chain (optional_int lib node ''period_ms'' 0) (\<lambda>period.
     Inr \<lparr>es_id = sid, es_type = ty, es_inputs = (if input \<noteq> [] \<and> inputs = [] then [input] else inputs), es_input = input,
          es_period_ms = period\<rparr>))))))"

definition read_event_sources :: "yaml_library \<Rightarrow> ynode \<Rightarrow> string \<Rightarrow> event_source_spec list loaded" where
  "read_event_sources lib node cid =
     chain (field lib node ''event_sources'') (\<lambda>c.
     case c of
       None \<Rightarrow> Inr [default_event_source]
     | Some n \<Rightarrow>
         chain (require_sequence n (''components.'' @ cid @ ''.event_sources'')) (\<lambda>ns.
         each_indexed (\<lambda>i m. read_event_source lib m (index_context (''components.'' @ cid @ ''.event_sources'') i)) ns))"

definition read_trigger_policy :: "yaml_library \<Rightarrow> ynode \<Rightarrow> string \<Rightarrow> trigger_policy_spec loaded" where
  "read_trigger_policy lib component_node cid =
     chain (field lib component_node ''trigger_policy'') (\<lambda>c.
     case c of
       None \<Rightarrow> Inr default_trigger_policy
     | Some node \<Rightarrow>
         (let ctx = ''components.'' @ cid @ ''.trigger_policy''
          in chain (check_map lib node ctx
               [''type'', ''inputs'', ''input'', ''batch_size'', ''batch_window_ms'', ''sync_slop_ms'', ''min_interval_ms'', ''max_latency_ms'',
                ''watermark_lateness_ms'', ''debounce_window_ms'', ''condition'', ''coalesce'']) (\<lambda>_.
             chain (optional_string lib node ''type'' ''manual'') (\<lambda>ty.
             chain (optional_string_vector lib node ''inputs'' ctx) (\<lambda>inputs.
             chain (optional_string lib node ''input'' []) (\<lambda>input.
             chain (optional_int lib node ''batch_size'' 0) (\<lambda>batch_size.
             chain (optional_int lib node ''batch_window_ms'' 0) (\<lambda>batch_window.
             chain (optional_int lib node ''sync_slop_ms'' 0) (\<lambda>sync_slop.
             chain (optional_int lib node ''min_interval_ms'' 0) (\<lambda>min_interval.
             chain (optional_int lib node ''max_latency_ms'' 0) (\<lambda>max_latency.
             chain (optional_int lib node ''watermark_lateness_ms'' 0) (\<lambda>lateness.
             chain (optional_int lib node ''debounce_window_ms'' 0) (\<lambda>debounce.
             chain (optional_string lib node ''condition'' ''all_inputs_ready'') (\<lambda>condition.
             chain (optional_bool lib node ''coalesce'' False) (\<lambda>coalesce_on.
             Inr \<lparr>tp_type = ty, tp_inputs = (if input \<noteq> [] \<and> inputs = [] then [input] else inputs), tp_input = input,
                  tp_batch_size = batch_size, tp_batch_window_ms = batch_window, tp_sync_slop_ms = sync_slop,
                  tp_min_interval_ms = min_interval, tp_max_latency_ms = max_latency, tp_watermark_lateness_ms = lateness,
                  tp_debounce_window_ms = debounce, tp_condition = condition, tp_coalesce = coalesce_on\<rparr>)))))))))))))))"

definition read_execution_spec :: "yaml_library \<Rightarrow> ynode \<Rightarrow> string \<Rightarrow> execution_spec loaded" where
  "read_execution_spec lib component_node cid =
     (let ctx = ''components.'' @ cid @ ''.execution''
      in chain (require_node lib component_node ''execution'' (''components.'' @ cid)) (\<lambda>node.
         chain (check_map lib node ctx [''lane'', ''reentrant'', ''priority'', ''budget_ms'', ''on_error'']) (\<lambda>_.
         chain (require_string lib node ''lane'' ctx) (\<lambda>lane.
         chain (optional_bool lib node ''reentrant'' False) (\<lambda>reentrant.
         chain (optional_string lib node ''priority'' (ex_priority default_execution)) (\<lambda>priority.
         chain (optional_int lib node ''budget_ms'' 0) (\<lambda>budget.
         chain (optional_string lib node ''on_error'' (ex_on_error default_execution)) (\<lambda>on_error.
         Inr \<lparr>ex_lane = lane, ex_reentrant = reentrant, ex_priority = priority, ex_budget_ms = budget, ex_on_error = on_error\<rparr>))))))))"

definition read_boundary_descriptor :: "yaml_library \<Rightarrow> ynode \<Rightarrow> string \<Rightarrow> boundary_descriptor loaded" where
  "read_boundary_descriptor lib component_node cid =
     chain (field lib component_node ''boundary'') (\<lambda>c.
     case c of
       None \<Rightarrow> Inr \<lparr>bd_role = RProcessing, bd_descriptor = []\<rparr>
     | Some node \<Rightarrow>
         chain (check_map lib node (''components.'' @ cid @ ''.boundary'') [''role'', ''descriptor'']) (\<lambda>_.
         chain (optional_string lib node ''role'' ''processing'') (\<lambda>text.
         case parse_component_role text of
           None \<Rightarrow> invalid (''components.'' @ cid @ ''.boundary.role has unsupported value'')
         | Some role \<Rightarrow> chain (optional_string lib node ''descriptor'' []) (\<lambda>d. Inr \<lparr>bd_role = role, bd_descriptor = d\<rparr>))))"

definition read_component_node :: "yaml_library \<Rightarrow> graph_input_limits \<Rightarrow> ynode \<Rightarrow> string \<Rightarrow> string \<Rightarrow> component_node_spec loaded" where
  "read_component_node lib gl node component_id ctx =
     chain (require_map node ctx) (\<lambda>_.
     chain (checked_identifier gl component_id (ctx @ ''.id'')) (\<lambda>cid.
     chain (reject_unknown_fields lib node (''components.'' @ cid)
       [''id'', ''type'', ''event_sources'', ''trigger_policy'', ''execution'', ''depends_on'', ''boundary'', ''config'']) (\<lambda>_.
     chain (require_string lib node ''type'' (''components.'' @ cid)) (\<lambda>ty.
     chain (read_event_sources lib node cid) (\<lambda>sources.
     chain (read_trigger_policy lib node cid) (\<lambda>policy.
     chain (read_execution_spec lib node cid) (\<lambda>exec.
     chain (optional_string_vector lib node ''depends_on'' (''components.'' @ cid)) (\<lambda>deps.
     chain (read_boundary_descriptor lib node cid) (\<lambda>bd.
     chain (read_config lib gl node cid) (\<lambda>cfg.
     Inr \<lparr>comp_id = cid, comp_type = ty, event_sources = sources, trigger_policy = policy, execution = exec, depends_on = deps,
          boundary = bd, comp_config = cfg\<rparr>))))))))))"

section \<open>Edges and loops\<close>

definition parse_edge_kind :: "string \<Rightarrow> edge_kind option" where
  "parse_edge_kind kind =
     (if kind = ''immediate'' then Some KImmediate
      else if kind = ''delay'' then Some KDelay
      else if kind = ''state'' then Some KState
      else if kind = ''async'' then Some KAsync
      else None)"

definition read_edge_policy :: "yaml_library \<Rightarrow> ynode \<Rightarrow> string \<Rightarrow> edge_policy_spec loaded" where
  "read_edge_policy lib edge_node eid =
     chain (field lib edge_node ''policy'') (\<lambda>c.
     case c of
       None \<Rightarrow> Inr default_edge_policy
     | Some node \<Rightarrow>
         (let d = default_edge_policy
          in chain (check_map lib node (''edges.'' @ eid @ ''.policy'')
               [''mode'', ''capacity'', ''overflow'', ''lifespan_ms'', ''deadline_ms'', ''max_inflight'', ''preserve_order'', ''allow_drop'',
                ''emit_health_events'', ''timestamp_domain'', ''copy_policy'', ''owner'', ''readers'']) (\<lambda>_.
             chain (optional_string lib node ''mode'' (ep_mode d)) (\<lambda>md.
             chain (optional_int lib node ''capacity'' (ep_capacity d)) (\<lambda>cap.
             chain (optional_string lib node ''overflow'' (ep_overflow d)) (\<lambda>ov.
             chain (optional_int lib node ''lifespan_ms'' 0) (\<lambda>lifespan.
             chain (optional_int lib node ''deadline_ms'' 0) (\<lambda>deadline.
             chain (optional_int lib node ''max_inflight'' 0) (\<lambda>inflight.
             chain (optional_bool lib node ''preserve_order'' (ep_preserve_order d)) (\<lambda>order.
             chain (optional_bool lib node ''allow_drop'' (ep_allow_drop d)) (\<lambda>drop_ok.
             chain (optional_bool lib node ''emit_health_events'' (ep_emit_health_events d)) (\<lambda>health.
             chain (optional_string lib node ''timestamp_domain'' (ep_timestamp_domain d)) (\<lambda>domain.
             chain (optional_string lib node ''copy_policy'' (ep_copy_policy d)) (\<lambda>copy.
             chain (optional_string lib node ''owner'' (ep_owner d)) (\<lambda>owner.
             chain (optional_string lib node ''readers'' (ep_readers d)) (\<lambda>readers.
             Inr \<lparr>ep_mode = md, ep_capacity = cap, ep_overflow = ov, ep_lifespan_ms = lifespan, ep_deadline_ms = deadline,
                  ep_max_inflight = inflight, ep_preserve_order = order, ep_allow_drop = drop_ok, ep_emit_health_events = health,
                  ep_timestamp_domain = domain, ep_copy_policy = copy, ep_owner = owner, ep_readers = readers\<rparr>))))))))))))))))"

definition read_edge_node :: "yaml_library \<Rightarrow> graph_input_limits \<Rightarrow> ynode \<Rightarrow> string \<Rightarrow> string \<Rightarrow> edge_spec loaded" where
  "read_edge_node lib gl node given_id ctx =
     chain (require_map node ctx) (\<lambda>_.
     chain (checked_identifier gl given_id (ctx @ ''.id'')) (\<lambda>eid.
     chain (reject_unknown_fields lib node (''edges.'' @ eid) [''id'', ''from'', ''to'', ''kind'', ''policy'']) (\<lambda>_.
     chain (require_string lib node ''from'' (''edges.'' @ eid)) (\<lambda>source.
     chain (require_string lib node ''to'' (''edges.'' @ eid)) (\<lambda>target.
     chain (field lib node ''kind'') (\<lambda>c.
     chain (case c of None \<Rightarrow> Inr None | Some n \<Rightarrow> chain (text_of lib n) (\<lambda>kind. Inr (Some kind))) (\<lambda>kind.
     chain (read_edge_policy lib node eid) (\<lambda>policy.
     Inr \<lparr>edge_id = eid, edge_from = source, edge_to = target,
          edge_kind_of = (case kind of None \<Rightarrow> KImmediate | Some k \<Rightarrow> (case parse_edge_kind k of None \<Rightarrow> KImmediate | Some parsed \<Rightarrow> parsed)),
          has_kind = (kind \<noteq> None),
          invalid_kind = (case kind of None \<Rightarrow> [] | Some k \<Rightarrow> (case parse_edge_kind k of None \<Rightarrow> k | Some _ \<Rightarrow> [])),
          edge_policy = policy\<rparr>))))))))"

definition read_loop_policy :: "yaml_library \<Rightarrow> ynode \<Rightarrow> string \<Rightarrow> loop_policy_spec loaded" where
  "read_loop_policy lib node ctx =
     chain (check_map lib node ctx
       [''type'', ''budget_ms'', ''max_iterations'', ''max_inflight'', ''drop_policy'', ''min_interval_ms'', ''convergence'',
        ''residual_threshold'', ''partial_success'']) (\<lambda>_.
     chain (require_string lib node ''type'' ctx) (\<lambda>ty.
     chain (optional_int lib node ''budget_ms'' 0) (\<lambda>budget.
     chain (optional_int lib node ''max_iterations'' 0) (\<lambda>iters.
     chain (optional_int lib node ''max_inflight'' 0) (\<lambda>inflight.
     chain (optional_string lib node ''drop_policy'' []) (\<lambda>dropping.
     chain (optional_int lib node ''min_interval_ms'' 0) (\<lambda>interval.
     chain (optional_string lib node ''convergence'' []) (\<lambda>conv.
     chain (field lib node ''residual_threshold'') (\<lambda>c.
     chain (case c of None \<Rightarrow> Inr None | Some n \<Rightarrow> chain (from_yaml (yl_double lib n)) (\<lambda>x. Inr (Some x))) (\<lambda>residual.
     chain (optional_string lib node ''partial_success'' []) (\<lambda>partial.
     Inr \<lparr>lp_type = ty, lp_budget_ms = budget, lp_max_iterations = iters, lp_max_inflight = inflight, lp_drop_policy = dropping,
          lp_min_interval_ms = interval, lp_convergence = conv, lp_residual_threshold = residual, lp_partial_success = partial\<rparr>)))))))))))"

definition read_composite_loop :: "yaml_library \<Rightarrow> graph_input_limits \<Rightarrow> ynode \<Rightarrow> string \<Rightarrow> composite_loop_spec loaded" where
  "read_composite_loop lib gl node ctx =
     chain (check_map lib node ctx [''id'', ''components'', ''loop_policy'']) (\<lambda>_.
     chain (require_string lib node ''id'' ctx) (\<lambda>raw.
     chain (checked_identifier gl raw (ctx @ ''.id'')) (\<lambda>lid.
     chain (optional_string_vector lib node ''components'' ctx) (\<lambda>cs.
     if cs = [] then invalid (ctx @ ''.components must contain at least one component'')
     else
       chain (require_node lib node ''loop_policy'' ctx) (\<lambda>policy_node.
       chain (read_loop_policy lib policy_node (ctx @ ''.loop_policy'')) (\<lambda>policy.
       Inr \<lparr>loop_id = lid, loop_components = cs, loop_policy = policy\<rparr>))))))"

section \<open>Subgraphs\<close>

text \<open>The id of the element with an index, checked.\<close>

definition element_id :: "yaml_library \<Rightarrow> graph_input_limits \<Rightarrow> ynode \<Rightarrow> string \<Rightarrow> string loaded" where
  "element_id lib gl node ctx = chain (require_string lib node ''id'' ctx) (\<lambda>raw. checked_identifier gl raw (ctx @ ''.id''))"

definition subgraph_component ::
    "yaml_library \<Rightarrow> graph_input_limits \<Rightarrow> string \<Rightarrow> ynode \<Rightarrow> string \<Rightarrow> component_node_spec loaded" where
  "subgraph_component lib gl ns node ctx =
     chain (element_id lib gl node ctx) (\<lambda>local_id.
     chain (prefixed_id gl ns local_id (ctx @ ''.id'')) (\<lambda>cid.
     chain (read_component_node lib gl node cid ctx) (\<lambda>c.
     chain (namespace_component_refs gl ns (depends_on c) (''components.'' @ comp_id c @ ''.depends_on'')) (\<lambda>deps.
     Inr (c\<lparr>depends_on := deps\<rparr>)))))"

definition subgraph_edge :: "yaml_library \<Rightarrow> graph_input_limits \<Rightarrow> string \<Rightarrow> ynode \<Rightarrow> string \<Rightarrow> edge_spec loaded" where
  "subgraph_edge lib gl ns node ctx =
     chain (element_id lib gl node ctx) (\<lambda>local_id.
     chain (prefixed_id gl ns local_id (ctx @ ''.id'')) (\<lambda>eid.
     chain (read_edge_node lib gl node eid ctx) (\<lambda>e.
     chain (namespace_endpoint gl ns (edge_from e) (''edges.'' @ edge_id e @ ''.from'')) (\<lambda>source.
     chain (namespace_endpoint gl ns (edge_to e) (''edges.'' @ edge_id e @ ''.to'')) (\<lambda>target.
     Inr (e\<lparr>edge_from := source, edge_to := target\<rparr>))))))"

definition subgraph_loop :: "yaml_library \<Rightarrow> graph_input_limits \<Rightarrow> string \<Rightarrow> ynode \<Rightarrow> string \<Rightarrow> composite_loop_spec loaded" where
  "subgraph_loop lib gl ns node ctx =
     chain (read_composite_loop lib gl node ctx) (\<lambda>l.
     chain (prefixed_id gl ns (loop_id l) (ctx @ ''.id'')) (\<lambda>lid.
     chain (namespace_component_refs gl ns (loop_components l) (''composite_loops.'' @ lid @ ''.components'')) (\<lambda>cs.
     Inr (l\<lparr>loop_id := lid, loop_components := cs\<rparr>))))"

definition append_subgraph_expansion :: "yaml_library \<Rightarrow> graph_input_limits \<Rightarrow> ynode \<Rightarrow> string \<Rightarrow> graph_spec \<Rightarrow> graph_spec loaded" where
  "append_subgraph_expansion lib gl node ctx g =
     chain (check_map lib node ctx [''id'', ''components'', ''edges'', ''composite_loops'']) (\<lambda>_.
     chain (element_id lib gl node ctx) (\<lambda>ns.
     chain (require_node lib node ''components'' ctx) (\<lambda>components_node.
     chain (require_sequence components_node (ctx @ ''.components'')) (\<lambda>component_nodes.
     if component_nodes = [] then invalid (ctx @ ''.components must contain at least one component'')
     else
       chain (each_indexed (\<lambda>i n. subgraph_component lib gl ns n (index_context (ctx @ ''.components'') i)) component_nodes) (\<lambda>cs.
       chain (require_node lib node ''edges'' ctx) (\<lambda>edges_node.
       chain (require_sequence edges_node (ctx @ ''.edges'')) (\<lambda>edge_nodes.
       chain (each_indexed (\<lambda>i n. subgraph_edge lib gl ns n (index_context (ctx @ ''.edges'') i)) edge_nodes) (\<lambda>es.
       chain (field lib node ''composite_loops'') (\<lambda>loops_node.
       chain (case loops_node of
                None \<Rightarrow> Inr []
              | Some n \<Rightarrow>
                  chain (require_sequence n (ctx @ ''.composite_loops''))
                    (each_indexed (\<lambda>i n. subgraph_loop lib gl ns n (index_context (ctx @ ''.composite_loops'') i)))) (\<lambda>ls.
       Inr (g\<lparr>components := components g @ cs, graph_edges := graph_edges g @ es, composite_loops := composite_loops g @ ls,
              hierarchy := hierarchy g @ [\<lparr>hier_id = ns, hier_components = map comp_id cs, hier_edges = map edge_id es,
                hier_composite_loops = map loop_id ls\<rparr>]\<rparr>)))))))))))"

section \<open>Template instances\<close>

fun check_parameters :: "graph_input_limits \<Rightarrow> string \<Rightarrow> string list \<Rightarrow> string list \<Rightarrow> unit loaded" where
  "check_parameters gl ctx seen [] = Inr ()"
| "check_parameters gl ctx seen (p # ps) =
     chain (checked_identifier gl p (ctx @ ''.parameters'')) (\<lambda>_.
     if p \<in> set seen then invalid (ctx @ '' lists duplicate template parameter '' @ p)
     else check_parameters gl ctx (p # seen) ps)"

definition read_graph_template :: "yaml_library \<Rightarrow> graph_input_limits \<Rightarrow> ynode \<Rightarrow> string \<Rightarrow> graph_template_definition loaded" where
  "read_graph_template lib gl node ctx =
     chain (check_map lib node ctx [''id'', ''parameters'', ''components'', ''edges'', ''composite_loops'']) (\<lambda>_.
     chain (element_id lib gl node ctx) (\<lambda>tid.
     chain (optional_string_vector lib node ''parameters'' ctx) (\<lambda>ps.
     chain (check_parameters gl ctx [] ps) (\<lambda>_.
     chain (require_node lib node ''components'' ctx) (\<lambda>_.
     chain (require_node lib node ''edges'' ctx) (\<lambda>_.
     Inr \<lparr>td_id = tid, td_parameters = ps, td_body = node\<rparr>))))))"

definition read_template_instance_parameters ::
    "yaml_library \<Rightarrow> graph_input_limits \<Rightarrow> ynode \<Rightarrow> graph_template_definition \<Rightarrow> string \<Rightarrow> (string, string) smap loaded" where
  "read_template_instance_parameters lib gl node d ctx =
     chain (field lib node ''parameters'') (\<lambda>c.
     chain (case c of
              None \<Rightarrow> Inr []
            | Some n \<Rightarrow>
                chain (require_map n (ctx @ ''.parameters'')) (\<lambda>es.
                each_fold (\<lambda>(k, value) vs.
                  chain (text_of lib k) (\<lambda>raw.
                  chain (checked_identifier gl raw (ctx @ ''.parameters key'')) (\<lambda>name.
                  if name \<notin> set (td_parameters d) then invalid (ctx @ '' provides unknown template parameter '' @ name)
                  else if \<not> (case value of YScalar _ \<Rightarrow> True | _ \<Rightarrow> False)
                  then invalid (ctx @ ''.parameters.'' @ name @ '' must be a scalar string'')
                  else
                    chain (text_of lib value) (\<lambda>v.
                    chain (enforce_string_limit gl v (ctx @ ''.parameters.'' @ name)) (\<lambda>_. Inr (smap_put name v vs)))))) es [])) (\<lambda>vs.
     chain (each (\<lambda>p. if map_of vs p = None then invalid (ctx @ '' is missing template parameter '' @ p) else Inr ()) (td_parameters d)) (\<lambda>_.
     Inr vs)))"

definition append_template_instance_expansion ::
    "yaml_library \<Rightarrow> graph_input_limits \<Rightarrow> (string, graph_template_definition) smap \<Rightarrow> ynode \<Rightarrow> string \<Rightarrow> graph_spec \<Rightarrow> graph_spec loaded" where
  "append_template_instance_expansion lib gl templates node ctx g =
     chain (check_map lib node ctx [''id'', ''template'', ''parameters'']) (\<lambda>_.
     chain (element_id lib gl node ctx) (\<lambda>instance_id.
     chain (require_string lib node ''template'' ctx) (\<lambda>raw.
     chain (checked_identifier gl raw (ctx @ ''.template'')) (\<lambda>template_id.
     case map_of templates template_id of
       None \<Rightarrow> invalid (ctx @ '' references unknown template '' @ template_id)
     | Some d \<Rightarrow>
         chain (read_template_instance_parameters lib gl node d ctx) (\<lambda>params.
         (let expansion = yl_set lib ''id'' (YScalar instance_id) (YMap []);
              part = (\<lambda>key n. substitute_template_node lib gl params (ctx @ ''.'' @ key) (case n of None \<Rightarrow> YNull | Some m \<Rightarrow> m))
          in chain (field lib (td_body d) ''components'') (\<lambda>cn.
             chain (part ''components'' cn) (\<lambda>cs.
             chain (field lib (td_body d) ''edges'') (\<lambda>en.
             chain (part ''edges'' en) (\<lambda>es.
             chain (field lib (td_body d) ''composite_loops'') (\<lambda>ln.
             (let e1 = yl_set lib ''edges'' es (yl_set lib ''components'' cs expansion)
              in chain (case ln of
                          None \<Rightarrow> Inr e1
                        | Some _ \<Rightarrow> chain (part ''composite_loops'' ln) (\<lambda>ls. Inr (yl_set lib ''composite_loops'' ls e1))) (\<lambda>e2.
                 append_subgraph_expansion lib gl e2 ctx g)))))))))))))"

section \<open>The graph\<close>

definition read_clock :: "yaml_library \<Rightarrow> ynode \<Rightarrow> clock_policy_spec loaded" where
  "read_clock lib graph_node =
     (let d = graph_clock default_graph
      in chain (field lib graph_node ''clock'') (\<lambda>c.
         case c of
           None \<Rightarrow> Inr d
         | Some n \<Rightarrow>
             chain (check_map lib n ''runtime graph.graph.clock'' [''runtime_domain'', ''event_domain'']) (\<lambda>_.
             chain (optional_string lib n ''runtime_domain'' (runtime_domain d)) (\<lambda>rd.
             chain (optional_string lib n ''event_domain'' (event_domain d)) (\<lambda>ed.
             Inr \<lparr>runtime_domain = rd, event_domain = ed\<rparr>)))))"

definition read_graph_header :: "yaml_library \<Rightarrow> graph_input_limits \<Rightarrow> ynode \<Rightarrow> graph_spec loaded" where
  "read_graph_header lib gl doc =
     chain (require_node lib doc ''schema_version'' ''runtime graph'') (\<lambda>vn.
     chain (from_yaml (yl_int lib vn)) (\<lambda>version.
     if version \<noteq> kTopoExecSchemaVersion
     then invalid (''runtime graph.schema_version must be '' @ int_to_string kTopoExecSchemaVersion)
     else
       chain (require_node lib doc ''graph'' ''runtime graph'') (\<lambda>gn.
       chain (check_map lib gn ''runtime graph.graph'' [''name'', ''kind'', ''clock'', ''config'']) (\<lambda>_.
       chain (require_string lib gn ''name'' ''runtime graph.graph'') (\<lambda>raw.
       chain (checked_identifier gl raw ''runtime graph.graph.name'') (\<lambda>name.
       chain (optional_string lib gn ''kind'' ''runnable'') (\<lambda>kind.
       chain (field lib gn ''config'') (\<lambda>cn.
       chain (read_config_node lib gl cn ''runtime graph.graph.config'') (\<lambda>cfg.
       chain (read_clock lib gn) (\<lambda>clk.
       Inr (default_graph\<lparr>schema_version := version, graph_name := name, graph_kind := kind, graph_config_view := cfg, graph_clock := clk\<rparr>)))))))))))"

definition read_lane :: "yaml_library \<Rightarrow> graph_input_limits \<Rightarrow> ynode \<times> ynode \<Rightarrow> lane_spec loaded" where
  "read_lane lib gl entry =
     chain (text_of lib (fst entry)) (\<lambda>raw.
     chain (checked_identifier gl raw ''lanes id'') (\<lambda>lid.
     (let n = snd entry; ctx = ''lanes.'' @ lid; d = default_lane lid []
      in chain (check_map lib n ctx
           [''type'', ''hz'', ''priority'', ''max_callback_ms'', ''max_threads'', ''queue_capacity'', ''overflow'', ''wall_clock_enabled'', ''period_ms'',
            ''tick_budget_ms'', ''overrun_policy'', ''thread_name'', ''cpu_affinity'', ''nice_priority'', ''rt_policy'', ''rt_priority'',
            ''isolation_intent'']) (\<lambda>_.
         chain (require_string lib n ''type'' ctx) (\<lambda>ty.
         chain (optional_double lib n ''hz'' (Finite 0)) (\<lambda>hz.
         chain (optional_string lib n ''priority'' []) (\<lambda>priority.
         chain (optional_int lib n ''max_callback_ms'' 0) (\<lambda>callback.
         chain (optional_int lib n ''max_threads'' 0) (\<lambda>threads.
         chain (optional_int lib n ''queue_capacity'' 0) (\<lambda>cap.
         chain (optional_string lib n ''overflow'' (lane_overflow d)) (\<lambda>ov.
         chain (optional_bool lib n ''wall_clock_enabled'' (lane_wall_clock_enabled d)) (\<lambda>wall.
         chain (optional_int lib n ''period_ms'' 0) (\<lambda>period.
         chain (optional_int lib n ''tick_budget_ms'' 0) (\<lambda>budget.
         chain (optional_string lib n ''overrun_policy'' (lane_overrun_policy d)) (\<lambda>overrun.
         chain (optional_string lib n ''thread_name'' []) (\<lambda>thread.
         chain (optional_int_vector lib n ''cpu_affinity'' ctx) (\<lambda>affinity.
         chain (optional_int lib n ''nice_priority'' 0) (\<lambda>nice.
         chain (optional_string lib n ''rt_policy'' (lane_rt_policy d)) (\<lambda>rt.
         chain (optional_int lib n ''rt_priority'' 0) (\<lambda>rt_prio.
         chain (optional_string lib n ''isolation_intent'' (lane_isolation_intent d)) (\<lambda>isolation.
         Inr \<lparr>lane_id = lid, lane_type = ty, lane_hz = hz, lane_priority = priority, lane_max_callback_ms = callback,
              lane_max_threads = threads, lane_queue_capacity = cap, lane_overflow = ov, lane_wall_clock_enabled = wall,
              lane_period_ms = period, lane_tick_budget_ms = budget, lane_overrun_policy = overrun, lane_thread_name = thread,
              lane_cpu_affinity = affinity, lane_nice_priority = nice, lane_rt_policy = rt, lane_rt_priority = rt_prio,
              lane_isolation_intent = isolation\<rparr>)))))))))))))))))))))"

definition read_lanes :: "yaml_library \<Rightarrow> graph_input_limits \<Rightarrow> ynode \<Rightarrow> lane_spec list loaded" where
  "read_lanes lib gl doc =
     chain (require_node lib doc ''lanes'' ''runtime graph'') (\<lambda>n.
     chain (require_map n ''runtime graph.lanes'') (\<lambda>es.
     chain (enforce_limit (length es) (max_lanes gl) ''runtime graph.lanes count'') (\<lambda>_. each (read_lane lib gl) es)))"

definition read_components :: "yaml_library \<Rightarrow> graph_input_limits \<Rightarrow> ynode \<Rightarrow> component_node_spec list loaded" where
  "read_components lib gl doc =
     chain (require_node lib doc ''components'' ''runtime graph'') (\<lambda>n.
     chain (require_sequence n ''runtime graph.components'') (\<lambda>ns.
     chain (enforce_limit (length ns) (max_components gl) ''runtime graph.components count'') (\<lambda>_.
     each_indexed (\<lambda>i n.
       chain (element_id lib gl n (index_context ''components'' i)) (\<lambda>cid. read_component_node lib gl n cid (index_context ''components'' i))) ns)))"

definition read_edges :: "yaml_library \<Rightarrow> graph_input_limits \<Rightarrow> ynode \<Rightarrow> edge_spec list loaded" where
  "read_edges lib gl doc =
     chain (require_node lib doc ''edges'' ''runtime graph'') (\<lambda>n.
     chain (require_sequence n ''runtime graph.edges'') (\<lambda>ns.
     chain (enforce_limit (length ns) (max_edges gl) ''runtime graph.edges count'') (\<lambda>_.
     each_indexed (\<lambda>i n.
       chain (element_id lib gl n (index_context ''edges'' i)) (\<lambda>eid. read_edge_node lib gl n eid (index_context ''edges'' i))) ns)))"

text \<open>An optional section of the document: a sequence within a limit.\<close>

definition optional_section :: "yaml_library \<Rightarrow> ynode \<Rightarrow> string \<Rightarrow> nat \<Rightarrow> ynode list loaded" where
  "optional_section lib doc key limit =
     chain (field lib doc key) (\<lambda>c.
     case c of
       None \<Rightarrow> Inr []
     | Some n \<Rightarrow>
         chain (require_sequence n (''runtime graph.'' @ key)) (\<lambda>ns.
         chain (enforce_limit (length ns) limit (''runtime graph.'' @ key @ '' count'')) (\<lambda>_. Inr ns)))"

definition read_loops :: "yaml_library \<Rightarrow> graph_input_limits \<Rightarrow> ynode \<Rightarrow> composite_loop_spec list loaded" where
  "read_loops lib gl doc =
     chain (optional_section lib doc ''composite_loops'' (max_composite_loops gl)) (\<lambda>ns.
     each_indexed (\<lambda>i n. read_composite_loop lib gl n (index_context ''composite_loops'' i)) ns)"

fun expand_subgraphs ::
    "yaml_library \<Rightarrow> graph_input_limits \<Rightarrow> string list \<Rightarrow> (nat \<times> ynode) list \<Rightarrow> graph_spec \<Rightarrow> graph_spec loaded" where
  "expand_subgraphs lib gl seen [] g = Inr g"
| "expand_subgraphs lib gl seen ((i, n) # ns) g =
     (let ctx = index_context ''subgraphs'' i
      in chain (element_id lib gl n ctx) (\<lambda>sid.
         if sid \<in> set seen then invalid (''duplicate subgraph: '' @ sid)
         else chain (append_subgraph_expansion lib gl n ctx g) (expand_subgraphs lib gl (sid # seen) ns)))"

fun read_templates ::
    "yaml_library \<Rightarrow> graph_input_limits \<Rightarrow> (nat \<times> ynode) list \<Rightarrow> (string, graph_template_definition) smap \<Rightarrow>
     (string, graph_template_definition) smap loaded" where
  "read_templates lib gl [] ts = Inr ts"
| "read_templates lib gl ((i, n) # ns) ts =
     chain (read_graph_template lib gl n (index_context ''templates'' i)) (\<lambda>d.
     if map_of ts (td_id d) \<noteq> None then invalid (''duplicate template: '' @ td_id d)
     else read_templates lib gl ns (smap_put (td_id d) d ts))"

definition load_graph_node :: "yaml_library \<Rightarrow> graph_input_limits \<Rightarrow> ynode \<Rightarrow> graph_spec loaded" where
  "load_graph_node lib gl doc =
     chain (check_map lib doc ''runtime graph''
       [''schema_version'', ''graph'', ''components'', ''lanes'', ''edges'', ''composite_loops'', ''subgraphs'', ''templates'',
        ''template_instances'']) (\<lambda>_.
     chain (read_graph_header lib gl doc) (\<lambda>g0.
     chain (read_lanes lib gl doc) (\<lambda>ls.
     chain (read_components lib gl doc) (\<lambda>cs.
     chain (read_edges lib gl doc) (\<lambda>es.
     chain (read_loops lib gl doc) (\<lambda>loops.
     chain (optional_section lib doc ''subgraphs'' (max_components gl)) (\<lambda>subgraph_nodes.
     chain (expand_subgraphs lib gl [] (enumerate 0 subgraph_nodes)
              (g0\<lparr>lanes := ls, components := cs, graph_edges := es, composite_loops := loops\<rparr>)) (\<lambda>g1.
     chain (optional_section lib doc ''templates'' (max_components gl)) (\<lambda>template_nodes.
     chain (read_templates lib gl (enumerate 0 template_nodes) []) (\<lambda>templates.
     chain (optional_section lib doc ''template_instances'' (max_components gl)) (\<lambda>instance_nodes.
     chain (each_fold (\<lambda>(i, n). append_template_instance_expansion lib gl templates n (index_context ''template_instances'' i))
              (enumerate 0 instance_nodes) g1) (\<lambda>g.
     chain (enforce_limit (length (components g)) (max_components gl) ''runtime graph expanded components count'') (\<lambda>_.
     chain (enforce_limit (length (graph_edges g)) (max_edges gl) ''runtime graph expanded edges count'') (\<lambda>_.
     chain (enforce_limit (length (composite_loops g)) (max_composite_loops gl) ''runtime graph expanded composite_loops count'') (\<lambda>_.
     Inr g)))))))))))))))"

section \<open>Limits of the strings of a graph\<close>

text \<open>A sequence of checks; the first that fails throws.\<close>

definition checks :: "unit loaded list \<Rightarrow> unit loaded" where
  "checks cs = chain (each (\<lambda>c. c) cs) (\<lambda>_. Inr ())"

definition enforce_config_view_string_limits :: "graph_input_limits \<Rightarrow> config_view \<Rightarrow> string \<Rightarrow> unit loaded" where
  "enforce_config_view_string_limits gl c ctx =
     checks (concat (map (\<lambda>(k, v).
       [enforce_limit (length k) (max_identifier_bytes gl) (ctx @ ''.'' @ k @ '' key length''),
        enforce_limit (length v) (max_config_value_bytes gl) (ctx @ ''.'' @ k @ '' value size'')]) (cv_values c)))"

definition lane_checks :: "graph_input_limits \<Rightarrow> lane_spec \<Rightarrow> unit loaded list" where
  "lane_checks gl l =
     (let ctx = ''lanes.'' @ lane_id l
      in [enforce_identifier_limit gl (lane_id l) ''lanes id'', enforce_string_limit gl (lane_type l) (ctx @ ''.type''),
          enforce_string_limit gl (lane_priority l) (ctx @ ''.priority''), enforce_string_limit gl (lane_overflow l) (ctx @ ''.overflow''),
          enforce_string_limit gl (lane_overrun_policy l) (ctx @ ''.overrun_policy''),
          enforce_string_limit gl (lane_thread_name l) (ctx @ ''.thread_name''), enforce_string_limit gl (lane_rt_policy l) (ctx @ ''.rt_policy''),
          enforce_string_limit gl (lane_isolation_intent l) (ctx @ ''.isolation_intent'')])"

definition source_checks :: "graph_input_limits \<Rightarrow> string \<Rightarrow> event_source_spec \<Rightarrow> unit loaded list" where
  "source_checks gl ctx s =
     [enforce_string_limit gl (es_id s) (ctx @ ''.event_sources.id''), enforce_string_limit gl (es_type s) (ctx @ ''.event_sources.type''),
      enforce_string_limit gl (es_input s) (ctx @ ''.event_sources.input'')] @
     map (\<lambda>i. enforce_string_limit gl i (ctx @ ''.event_sources.inputs'')) (es_inputs s)"

definition component_checks :: "graph_input_limits \<Rightarrow> component_node_spec \<Rightarrow> unit loaded list" where
  "component_checks gl c =
     (let ctx = ''components.'' @ comp_id c
      in [enforce_identifier_limit gl (comp_id c) (ctx @ ''.id''), enforce_string_limit gl (comp_type c) (ctx @ ''.type''),
          enforce_string_limit gl (bd_descriptor (boundary c)) (ctx @ ''.boundary.descriptor''),
          enforce_string_limit gl (role_to_string (bd_role (boundary c))) (ctx @ ''.boundary.role''),
          enforce_config_view_string_limits gl (comp_config c) (ctx @ ''.config'')] @
         map (\<lambda>d. enforce_identifier_limit gl d (ctx @ ''.depends_on'')) (depends_on c) @
         concat (map (source_checks gl ctx) (event_sources c)) @
         [enforce_string_limit gl (tp_type (trigger_policy c)) (ctx @ ''.trigger_policy.type''),
          enforce_string_limit gl (tp_input (trigger_policy c)) (ctx @ ''.trigger_policy.input''),
          enforce_string_limit gl (tp_condition (trigger_policy c)) (ctx @ ''.trigger_policy.condition'')] @
         map (\<lambda>i. enforce_string_limit gl i (ctx @ ''.trigger_policy.inputs'')) (tp_inputs (trigger_policy c)) @
         [enforce_identifier_limit gl (ex_lane (execution c)) (ctx @ ''.execution.lane''),
          enforce_string_limit gl (ex_priority (execution c)) (ctx @ ''.execution.priority''),
          enforce_string_limit gl (ex_on_error (execution c)) (ctx @ ''.execution.on_error'')])"

definition edge_checks :: "graph_input_limits \<Rightarrow> edge_spec \<Rightarrow> unit loaded list" where
  "edge_checks gl e =
     (let ctx = ''edges.'' @ edge_id e; p = edge_policy e
      in [enforce_identifier_limit gl (edge_id e) (ctx @ ''.id''), enforce_string_limit gl (edge_from e) (ctx @ ''.from''),
          enforce_string_limit gl (edge_to e) (ctx @ ''.to''), enforce_string_limit gl (invalid_kind e) (ctx @ ''.kind''),
          enforce_string_limit gl (ep_mode p) (ctx @ ''.policy.mode''), enforce_string_limit gl (ep_overflow p) (ctx @ ''.policy.overflow''),
          enforce_string_limit gl (ep_timestamp_domain p) (ctx @ ''.policy.timestamp_domain''),
          enforce_string_limit gl (ep_copy_policy p) (ctx @ ''.policy.copy_policy''), enforce_string_limit gl (ep_owner p) (ctx @ ''.policy.owner''),
          enforce_string_limit gl (ep_readers p) (ctx @ ''.policy.readers'')])"

definition loop_checks :: "graph_input_limits \<Rightarrow> composite_loop_spec \<Rightarrow> unit loaded list" where
  "loop_checks gl l =
     (let ctx = ''composite_loops.'' @ loop_id l; p = loop_policy l
      in [enforce_identifier_limit gl (loop_id l) (ctx @ ''.id'')] @
         map (\<lambda>c. enforce_identifier_limit gl c (ctx @ ''.components'')) (loop_components l) @
         [enforce_string_limit gl (lp_type p) (ctx @ ''.loop_policy.type''),
          enforce_string_limit gl (lp_drop_policy p) (ctx @ ''.loop_policy.drop_policy''),
          enforce_string_limit gl (lp_convergence p) (ctx @ ''.loop_policy.convergence''),
          enforce_string_limit gl (lp_partial_success p) (ctx @ ''.loop_policy.partial_success'')])"

definition hierarchy_checks :: "graph_input_limits \<Rightarrow> graph_hierarchy_entry \<Rightarrow> unit loaded list" where
  "hierarchy_checks gl h =
     (let ctx = ''subgraphs.'' @ hier_id h
      in [enforce_identifier_limit gl (hier_id h) (ctx @ ''.id'')] @
         map (\<lambda>c. enforce_identifier_limit gl c (ctx @ ''.components'')) (hier_components h) @
         map (\<lambda>c. enforce_identifier_limit gl c (ctx @ ''.edges'')) (hier_edges h) @
         map (\<lambda>c. enforce_identifier_limit gl c (ctx @ ''.composite_loops'')) (hier_composite_loops h))"

definition enforce_graph_string_limits :: "graph_input_limits \<Rightarrow> graph_spec \<Rightarrow> unit loaded" where
  "enforce_graph_string_limits gl g =
     checks
       ([enforce_identifier_limit gl (graph_name g) ''runtime graph.graph.name'',
         enforce_string_limit gl (graph_kind g) ''runtime graph.graph.kind'',
         enforce_string_limit gl (runtime_domain (graph_clock g)) ''runtime graph.graph.clock.runtime_domain'',
         enforce_string_limit gl (event_domain (graph_clock g)) ''runtime graph.graph.clock.event_domain'',
         enforce_config_view_string_limits gl (graph_config_view g) ''runtime graph.graph.config''] @
        concat (map (lane_checks gl) (lanes g)) @ concat (map (component_checks gl) (components g)) @
        concat (map (edge_checks gl) (graph_edges g)) @ concat (map (loop_checks gl) (composite_loops g)) @
        concat (map (hierarchy_checks gl) (hierarchy g)))"

section \<open>Loading\<close>

text \<open>The handler's counter after an event; \<^verbatim>\<open>count_yaml_alias_references\<close> returns it whether the parser throws or not.\<close>

fun alias_counting_event_handler :: "yaml_event \<Rightarrow> nat \<Rightarrow> nat" where
  "alias_counting_event_handler OnAlias count = count + 1"
| "alias_counting_event_handler _ count = count"

definition count_yaml_alias_references :: "yaml_library \<Rightarrow> string \<Rightarrow> nat" where
  "count_yaml_alias_references lib text = fold alias_counting_event_handler (yl_events lib text) 0"

definition load_graph_text :: "yaml_library \<Rightarrow> graph_input_limits \<Rightarrow> string \<Rightarrow> graph_spec loaded" where
  "load_graph_text lib gl text =
     chain (enforce_limit (length text) (max_graph_input_bytes gl) ''graph input size'') (\<lambda>_.
     chain (enforce_valid_utf8 text) (\<lambda>_.
     (let alias_count = count_yaml_alias_references lib text
      in if alias_count > max_yaml_alias_count gl
         then invalid (''graph input uses too many YAML aliases ('' @ nat_to_string alias_count @ '' exceeds limit '' @
                nat_to_string (max_yaml_alias_count gl) @ '')'')
         else
           (case chain (from_yaml (yl_load lib text)) (\<lambda>doc.
                 chain (load_graph_node lib gl doc) (\<lambda>g.
                 chain (enforce_graph_string_limits gl g) (\<lambda>_. Inr g))) of
              Inl (YamlException what) \<Rightarrow> invalid (''failed to parse graph input: '' @ what)
            | r \<Rightarrow> r))))"

text \<open>
  The loop of \<^verbatim>\<open>read_bounded_graph_file\<close> over the blocks that \<^verbatim>\<open>read\<close> delivers (none is empty); a file that cannot be opened is \<open>None\<close>, the flag
  tells whether reading broke.
\<close>

fun read_blocks :: "graph_input_limits \<Rightarrow> string \<Rightarrow> string list \<Rightarrow> string loaded" where
  "read_blocks gl text [] = Inr text"
| "read_blocks gl text (b # bs) =
     (if length text > max_graph_input_bytes gl \<or> length b > max_graph_input_bytes gl - length text
      then invalid (''graph input size exceeds limit '' @ nat_to_string (max_graph_input_bytes gl))
      else read_blocks gl (text @ b) bs)"

definition read_bounded_graph_file :: "graph_input_limits \<Rightarrow> string \<Rightarrow> (string list \<times> bool) option \<Rightarrow> string loaded" where
  "read_bounded_graph_file gl path file =
     (case file of
        None \<Rightarrow> invalid (''failed to open graph file: '' @ path)
      | Some (blocks, bad) \<Rightarrow>
          chain (read_blocks gl [] blocks) (\<lambda>text. if bad then invalid (''failed to read graph file: '' @ path) else Inr text))"

definition load_graph_file :: "yaml_library \<Rightarrow> graph_input_limits \<Rightarrow> string \<Rightarrow> (string list \<times> bool) option \<Rightarrow> graph_spec loaded" where
  "load_graph_file lib gl path file = chain (read_bounded_graph_file gl path file) (load_graph_text lib gl)"

end
