(* ===== verification/Graph_IO_Laws.thy ===== *)
theory Graph_IO_Laws
  imports Graph_IO
begin

text \<open>
  Laws of graph input: what a loaded graph satisfies whatever the YAML library does, the names of expanded subgraphs, and template
  substitution.
\<close>

section \<open>Sequences of steps\<close>

lemma chain_Inr [simp]: "chain r f = Inr y \<longleftrightarrow> (\<exists>x. r = Inr x \<and> f x = Inr y)"
  by (cases r) (simp_all add: chain_def)

lemma chain_simps [simp]: "chain (Inr x) f = f x" "chain (Inl e) f = Inl e"
  by (simp_all add: chain_def)

lemma invalid_not_Inr [simp]: "invalid msg \<noteq> Inr x" "Inr x \<noteq> invalid msg"
  by (simp_all add: invalid_def)

lemma each_Inr: "each f xs = Inr ys \<longleftrightarrow> list_all2 (\<lambda>x y. f x = Inr y) xs ys"
  by (induction xs arbitrary: ys) (auto simp: list_all2_Cons1)

lemma each_result: "each f xs = Inr ys \<Longrightarrow> y \<in> set ys \<Longrightarrow> \<exists>x \<in> set xs. f x = Inr y"
  by (auto simp: each_Inr list_all2_conv_all_nth in_set_conv_nth) (metis nth_mem)

lemma each_length: "each f xs = Inr ys \<Longrightarrow> length ys = length xs"
  by (auto simp: each_Inr dest: list_all2_lengthD)

lemma each_indexed_result: "each_indexed f xs = Inr ys \<Longrightarrow> y \<in> set ys \<Longrightarrow> \<exists>i x. f i x = Inr y"
  unfolding each_indexed_def by (drule (1) each_result) auto

lemma each_indexed_length: "each_indexed f xs = Inr ys \<Longrightarrow> length ys = length xs"
  unfolding each_indexed_def by (drule each_length) simp

lemma each_fold_invariant: "(\<And>x s s'. f x s = Inr s' \<Longrightarrow> P s \<Longrightarrow> P s') \<Longrightarrow> each_fold f xs s = Inr s' \<Longrightarrow> P s \<Longrightarrow> P s'"
  by (induction xs arbitrary: s) auto

lemma checks_ok: "checks cs = Inr () \<longleftrightarrow> list_all (\<lambda>c. c = Inr ()) cs"
  by (induction cs) (auto simp: checks_def)

lemma enforce_limit_ok [simp]: "enforce_limit v l ctx = Inr u \<longleftrightarrow> v \<le> l"
  by (auto simp: enforce_limit_def)

section \<open>Limits of a loaded graph\<close>

definition id_ok :: "graph_input_limits \<Rightarrow> string \<Rightarrow> bool" where
  "id_ok gl s \<longleftrightarrow> s \<noteq> [] \<and> length s \<le> max_identifier_bytes gl"

definition text_ok :: "graph_input_limits \<Rightarrow> string \<Rightarrow> bool" where
  "text_ok gl s \<longleftrightarrow> length s \<le> max_string_bytes gl"

definition config_ok :: "graph_input_limits \<Rightarrow> config_view \<Rightarrow> bool" where
  "config_ok gl c \<longleftrightarrow> list_all (\<lambda>(k, v). length k \<le> max_identifier_bytes gl \<and> length v \<le> max_config_value_bytes gl) (cv_values c)"

definition lane_ok :: "graph_input_limits \<Rightarrow> lane_spec \<Rightarrow> bool" where
  "lane_ok gl l \<longleftrightarrow> id_ok gl (lane_id l) \<and>
     list_all (text_ok gl) [lane_type l, lane_priority l, lane_overflow l, lane_overrun_policy l, lane_thread_name l, lane_rt_policy l, lane_isolation_intent l]"

definition component_ok :: "graph_input_limits \<Rightarrow> component_node_spec \<Rightarrow> bool" where
  "component_ok gl c \<longleftrightarrow> id_ok gl (comp_id c) \<and> list_all (id_ok gl) (depends_on c) \<and> id_ok gl (ex_lane (execution c)) \<and> config_ok gl (comp_config c) \<and>
     list_all (text_ok gl) ([comp_type c, bd_descriptor (boundary c), role_to_string (bd_role (boundary c)), ex_priority (execution c), ex_on_error (execution c),
       tp_type (trigger_policy c), tp_input (trigger_policy c), tp_condition (trigger_policy c)] @ tp_inputs (trigger_policy c)) \<and>
     list_all (\<lambda>s. list_all (text_ok gl) ([es_id s, es_type s, es_input s] @ es_inputs s)) (event_sources c)"

definition edge_ok :: "graph_input_limits \<Rightarrow> edge_spec \<Rightarrow> bool" where
  "edge_ok gl e \<longleftrightarrow> id_ok gl (edge_id e) \<and>
     list_all (text_ok gl) [edge_from e, edge_to e, invalid_kind e, ep_mode (edge_policy e), ep_overflow (edge_policy e), ep_timestamp_domain (edge_policy e),
       ep_copy_policy (edge_policy e), ep_owner (edge_policy e), ep_readers (edge_policy e)]"

definition loop_ok :: "graph_input_limits \<Rightarrow> composite_loop_spec \<Rightarrow> bool" where
  "loop_ok gl l \<longleftrightarrow> id_ok gl (loop_id l) \<and> list_all (id_ok gl) (loop_components l) \<and>
     list_all (text_ok gl) [lp_type (loop_policy l), lp_drop_policy (loop_policy l), lp_convergence (loop_policy l), lp_partial_success (loop_policy l)]"

definition hierarchy_ok :: "graph_input_limits \<Rightarrow> graph_hierarchy_entry \<Rightarrow> bool" where
  "hierarchy_ok gl h \<longleftrightarrow> list_all (id_ok gl) (hier_id h # hier_components h @ hier_edges h @ hier_composite_loops h)"

definition graph_within :: "graph_input_limits \<Rightarrow> graph_spec \<Rightarrow> bool" where
  "graph_within gl g \<longleftrightarrow>
     length (lanes g) \<le> max_lanes gl \<and> length (components g) \<le> max_components gl \<and> length (graph_edges g) \<le> max_edges gl \<and>
     length (composite_loops g) \<le> max_composite_loops gl \<and> id_ok gl (graph_name g) \<and>
     list_all (text_ok gl) [graph_kind g, runtime_domain (graph_clock g), event_domain (graph_clock g)] \<and> config_ok gl (graph_config_view g) \<and>
     list_all (lane_ok gl) (lanes g) \<and> list_all (component_ok gl) (components g) \<and> list_all (edge_ok gl) (graph_edges g) \<and>
     list_all (loop_ok gl) (composite_loops g) \<and> list_all (hierarchy_ok gl) (hierarchy g)"

lemma identifier_ok [simp]: "enforce_identifier_limit gl s ctx = Inr u \<longleftrightarrow> id_ok gl s"
  by (auto simp: enforce_identifier_limit_def id_ok_def)

lemma string_ok [simp]: "enforce_string_limit gl s ctx = Inr u \<longleftrightarrow> text_ok gl s"
  by (simp add: enforce_string_limit_def text_ok_def)

lemma checked_identifier_ok [simp]: "checked_identifier gl s ctx = Inr t \<longleftrightarrow> id_ok gl s \<and> t = s"
  by (auto simp: checked_identifier_def)

lemma list_all_concat: "list_all P (concat xss) \<longleftrightarrow> list_all (list_all P) xss"
  by (induction xss) auto

lemma list_all_const: "(\<And>x. P x = Q x) \<Longrightarrow> list_all P xs = list_all Q xs"
  by (simp add: list_all_iff)

lemma config_limits_ok [simp]: "enforce_config_view_string_limits gl c ctx = Inr u \<longleftrightarrow> config_ok gl c"
  by (cases u) (auto simp: enforce_config_view_string_limits_def checks_ok config_ok_def list_all_concat list_all_iff split: prod.splits)

lemma part_checks_ok:
  "list_all (\<lambda>c. c = Inr ()) (lane_checks gl l) \<longleftrightarrow> lane_ok gl l" "list_all (\<lambda>c. c = Inr ()) (edge_checks gl e) \<longleftrightarrow> edge_ok gl e"
  "list_all (\<lambda>c. c = Inr ()) (loop_checks gl lp) \<longleftrightarrow> loop_ok gl lp" "list_all (\<lambda>c. c = Inr ()) (hierarchy_checks gl h) \<longleftrightarrow> hierarchy_ok gl h"
  "list_all (\<lambda>c. c = Inr ()) (component_checks gl c) \<longleftrightarrow> component_ok gl c"
  by (auto simp: lane_checks_def lane_ok_def edge_checks_def edge_ok_def loop_checks_def loop_ok_def hierarchy_checks_def hierarchy_ok_def
      component_checks_def component_ok_def source_checks_def Let_def list.pred_map comp_def list_all_concat)

lemma graph_strings_ok:
  "enforce_graph_string_limits gl g = Inr () \<longleftrightarrow> id_ok gl (graph_name g) \<and>
     list_all (text_ok gl) [graph_kind g, runtime_domain (graph_clock g), event_domain (graph_clock g)] \<and> config_ok gl (graph_config_view g) \<and>
     list_all (lane_ok gl) (lanes g) \<and> list_all (component_ok gl) (components g) \<and> list_all (edge_ok gl) (graph_edges g) \<and>
     list_all (loop_ok gl) (composite_loops g) \<and> list_all (hierarchy_ok gl) (hierarchy g)"
  by (simp add: enforce_graph_string_limits_def checks_ok list_all_concat list.pred_map comp_def part_checks_ok)

section \<open>Expansion\<close>

lemma subgraph_keeps: "append_subgraph_expansion lib gl n ctx g = Inr g' \<Longrightarrow> lanes g' = lanes g \<and> schema_version g' = schema_version g"
  by (auto simp: append_subgraph_expansion_def split: if_splits)

lemma subgraphs_keep: "expand_subgraphs lib gl seen ns g = Inr g' \<Longrightarrow> lanes g' = lanes g \<and> schema_version g' = schema_version g"
  by (induction lib gl seen ns g rule: expand_subgraphs.induct) (auto simp: Let_def split: if_splits dest!: subgraph_keeps)

lemma instance_keeps:
  "append_template_instance_expansion lib gl ts n ctx g = Inr g' \<Longrightarrow> lanes g' = lanes g \<and> schema_version g' = schema_version g"
  by (auto simp: append_template_instance_expansion_def Let_def split: option.splits dest!: subgraph_keeps)

lemma load_node_limits:
  assumes "load_graph_node lib gl doc = Inr g"
  shows "length (lanes g) \<le> max_lanes gl" "length (components g) \<le> max_components gl" "length (graph_edges g) \<le> max_edges gl"
    "length (composite_loops g) \<le> max_composite_loops gl" "schema_version g = kTopoExecSchemaVersion"
proof -
  from assms obtain g0 ls cs es loops sub g1 ts ins where l: "read_graph_header lib gl doc = Inr g0" "read_lanes lib gl doc = Inr ls"
    "expand_subgraphs lib gl [] (enumerate 0 sub) (g0\<lparr>lanes := ls, components := cs, graph_edges := es, composite_loops := loops\<rparr>) = Inr g1"
    "each_fold (\<lambda>(i, n). append_template_instance_expansion lib gl ts n (index_context ''template_instances'' i)) (enumerate 0 ins) g1 = Inr g"
    "length (components g) \<le> max_components gl" "length (graph_edges g) \<le> max_edges gl" "length (composite_loops g) \<le> max_composite_loops gl"
    by (auto simp: load_graph_node_def)
  have "lanes g = lanes g1 \<and> schema_version g = schema_version g1"
    by (rule each_fold_invariant [where P = "\<lambda>x. lanes x = lanes g1 \<and> schema_version x = schema_version g1", OF _ l(4)])
      (auto dest!: instance_keeps split: prod.splits)
  with subgraphs_keep [OF l(3)] have g: "lanes g = ls" "schema_version g = schema_version g0" by simp_all
  show "length (lanes g) \<le> max_lanes gl" using l(2) g(1) by (auto simp: read_lanes_def dest!: each_length)
  show "schema_version g = kTopoExecSchemaVersion" using l(1) g(2) by (auto simp: read_graph_header_def split: if_splits)
  show "length (components g) \<le> max_components gl" "length (graph_edges g) \<le> max_edges gl" "length (composite_loops g) \<le> max_composite_loops gl"
    by (fact l)+
qed

section \<open>Names in a subgraph\<close>

definition in_namespace :: "string \<Rightarrow> string \<Rightarrow> bool" where
  "in_namespace ns s \<longleftrightarrow> (\<exists>t. t \<noteq> [] \<and> s = ns @ ''.'' @ t)"

lemma prefixed_in_namespace: "prefixed_id gl ns l ctx = Inr s \<Longrightarrow> l \<noteq> [] \<Longrightarrow> in_namespace ns s"
  by (auto simp: prefixed_id_def in_namespace_def)

lemma refs_in_namespace: "namespace_component_refs gl ns ids ctx = Inr rs \<Longrightarrow> list_all (in_namespace ns) rs"
  by (auto simp: namespace_component_refs_def list_all_iff in_namespace_def id_ok_def dest!: each_result)

lemma element_id_ok: "element_id lib gl n ctx = Inr s \<Longrightarrow> id_ok gl s"
  by (auto simp: element_id_def)

lemma endpoint_parts:
  "component_id_from_endpoint ep @ drop (length (component_id_from_endpoint ep)) ep = ep"
  "CHR ''.'' \<in> set ep \<Longrightarrow> \<exists>port. ep = component_id_from_endpoint ep @ CHR ''.'' # port \<and> CHR ''.'' \<notin> set port"
  "CHR ''.'' \<notin> set ep \<Longrightarrow> component_id_from_endpoint ep = ep"
proof -
  show 2: "CHR ''.'' \<in> set ep \<Longrightarrow> \<exists>port. ep = component_id_from_endpoint ep @ CHR ''.'' # port \<and> CHR ''.'' \<notin> set port"
    using split_last_None_iff [of "CHR ''.''" ep] split_last_SomeD [of "CHR ''.''" ep]
    by (auto simp: component_id_from_endpoint_def split: option.splits)
  show 3: "CHR ''.'' \<notin> set ep \<Longrightarrow> component_id_from_endpoint ep = ep"
    by (simp add: component_id_from_endpoint_def flip: split_last_None_iff)
  show "component_id_from_endpoint ep @ drop (length (component_id_from_endpoint ep)) ep = ep"
  proof (cases "CHR ''.'' \<in> set ep")
    case True
    from 2 [OF this] obtain port where "ep = component_id_from_endpoint ep @ CHR ''.'' # port" by blast
    then show ?thesis by (metis append_eq_conv_conj)
  qed (simp add: 3)
qed

lemma namespaced_endpoint:
  assumes "namespace_endpoint gl ns ep ctx = Inr ep'"
  shows "ep' = ns @ ''.'' @ ep" and "in_namespace ns ep'"
    and "component_id_from_endpoint ep' = (if CHR ''.'' \<in> set ep then ns @ ''.'' @ component_id_from_endpoint ep else ns)"
proof -
  let ?c = "component_id_from_endpoint ep"
  have c: "?c \<noteq> []" and ep': "ep' = (if length ?c = length ep then ns @ ''.'' @ ?c else ns @ ''.'' @ ?c @ drop (length ?c) ep)"
    using assms by (auto simp: namespace_endpoint_def Let_def split: if_splits)
  have "length ?c = length ep \<Longrightarrow> ?c = ep" using endpoint_parts(1) [of ep] by (metis append_Nil2 drop_all order_refl)
  with ep' endpoint_parts(1) [of ep] show 1: "ep' = ns @ ''.'' @ ep" by (auto split: if_splits)
  have "ep \<noteq> []" using c by (auto simp: component_id_from_endpoint_def)
  with 1 show "in_namespace ns ep'" by (auto simp: in_namespace_def)
  show "component_id_from_endpoint ep' = (if CHR ''.'' \<in> set ep then ns @ ''.'' @ ?c else ns)"
  proof (cases "CHR ''.'' \<in> set ep")
    case True
    from endpoint_parts(2) [OF this] obtain port where p: "ep = ?c @ CHR ''.'' # port" "CHR ''.'' \<notin> set port" by blast
    then have "ep' = (ns @ ''.'' @ ?c) @ CHR ''.'' # port" using 1 by simp
    with split_last_append [OF p(2), of "ns @ ''.'' @ ?c"] have "split_last (CHR ''.'') ep' = Some (ns @ ''.'' @ ?c, port)" by simp
    with True show ?thesis by (simp add: component_id_from_endpoint_def)
  next
    case False
    with 1 split_last_append [OF False, of ns] show ?thesis by (simp add: component_id_from_endpoint_def)
  qed
qed

lemma subgraph_component_names:
  assumes "subgraph_component lib gl ns n ctx = Inr c"
  shows "in_namespace ns (comp_id c) \<and> list_all (in_namespace ns) (depends_on c)"
proof -
  from assms obtain l cid c0 where "element_id lib gl n ctx = Inr l" "prefixed_id gl ns l (ctx @ ''.id'') = Inr cid"
    "read_component_node lib gl n cid ctx = Inr c0" "comp_id c = comp_id c0" "list_all (in_namespace ns) (depends_on c)"
    by (auto simp: subgraph_component_def dest: refs_in_namespace)
  moreover from this have "comp_id c0 = cid" by (auto simp: read_component_node_def)
  ultimately show ?thesis using prefixed_in_namespace element_id_ok by (auto simp: id_ok_def)
qed

lemma subgraph_edge_names:
  assumes "subgraph_edge lib gl ns n ctx = Inr e"
  shows "in_namespace ns (edge_id e) \<and> in_namespace ns (edge_from e) \<and> in_namespace ns (edge_to e)"
proof -
  from assms obtain l eid e0 where "element_id lib gl n ctx = Inr l" "prefixed_id gl ns l (ctx @ ''.id'') = Inr eid"
    "read_edge_node lib gl n eid ctx = Inr e0" "edge_id e = edge_id e0" "in_namespace ns (edge_from e)" "in_namespace ns (edge_to e)"
    by (auto simp: subgraph_edge_def dest!: namespaced_endpoint(2))
  moreover from this have "edge_id e0 = eid" by (auto simp: read_edge_node_def)
  ultimately show ?thesis using prefixed_in_namespace element_id_ok by (auto simp: id_ok_def)
qed

lemma subgraph_loop_names:
  assumes "subgraph_loop lib gl ns n ctx = Inr l"
  shows "in_namespace ns (loop_id l) \<and> list_all (in_namespace ns) (loop_components l) \<and> loop_components l \<noteq> []"
proof -
  from assms obtain l0 lid cs where l: "read_composite_loop lib gl n ctx = Inr l0" "prefixed_id gl ns (loop_id l0) (ctx @ ''.id'') = Inr lid"
    "namespace_component_refs gl ns (loop_components l0) (''composite_loops.'' @ lid @ ''.components'') = Inr cs"
    "l = l0\<lparr>loop_id := lid, loop_components := cs\<rparr>" by (auto simp: subgraph_loop_def)
  then have "loop_id l0 \<noteq> []" "loop_components l0 \<noteq> []" by (auto simp: read_composite_loop_def id_ok_def split: if_splits)
  moreover have "length cs = length (loop_components l0)" using l(3) by (auto simp: namespace_component_refs_def dest: each_length)
  ultimately show ?thesis using l prefixed_in_namespace [OF l(2)] refs_in_namespace [OF l(3)] by auto
qed

section \<open>Templates\<close>

text \<open>A template text in pieces: literal text and parameters.\<close>

datatype piece = Literal string | Parameter string

fun piece_text :: "piece \<Rightarrow> string" where
  "piece_text (Literal s) = s"
| "piece_text (Parameter p) = ''{{'' @ p @ ''}}''"

fun piece_ok :: "graph_input_limits \<Rightarrow> piece \<Rightarrow> bool" where
  "piece_ok gl (Literal s) = (CHR ''{'' \<notin> set s)"
| "piece_ok gl (Parameter p) = (id_ok gl p \<and> CHR ''}'' \<notin> set p)"

fun piece_value :: "(string, string) smap \<Rightarrow> piece \<Rightarrow> string option" where
  "piece_value params (Literal s) = Some s"
| "piece_value params (Parameter p) = map_of params p"

lemma split_first_found: "pat = c # ps \<Longrightarrow> c \<notin> set a \<Longrightarrow> split_first pat (a @ pat @ b) = Some (a, b)"
  by (induction a) (auto simp: starts_with_iff)

lemma split_first_skip: "pat = c # ps \<Longrightarrow> c \<notin> set a \<Longrightarrow> split_first pat (a @ s) = map_option (\<lambda>(x, y). (a @ x, y)) (split_first pat s)"
proof (induction a)
  case (Cons x a)
  then have "\<not> starts_with pat (x # a @ s)" by (auto simp: starts_with_iff)
  with Cons show ?case by (auto simp: option.map_comp comp_def split: prod.splits intro!: option.map_cong)
qed (simp add: case_prod_unfold option.map_ident)

lemma substitute_literal:
  assumes "CHR ''{'' \<notin> set s"
  shows "substitute_loop gl params ctx (s @ v) = chain (substitute_loop gl params ctx v) (\<lambda>t. Inr (s @ t))"
proof -
  have skip: "split_first ''{{'' (s @ v) = map_option (\<lambda>(x, y). (s @ x, y)) (split_first ''{{'' v)" by (rule split_first_skip [OF refl assms])
  show ?thesis
  proof (cases "split_first ''{{'' v")
    case None
    with skip show ?thesis by (simp add: substitute_loop.simps [of gl params ctx "s @ v"] substitute_loop.simps [of gl params ctx v])
  next
    case (Some ab)
    then obtain pre rest where v: "split_first ''{{'' v = Some (pre, rest)" by (cases ab) auto
    show ?thesis
    proof (cases "split_first ''}}'' rest")
      case None
      with v skip show ?thesis
        by (simp add: substitute_loop.simps [of gl params ctx "s @ v"] substitute_loop.simps [of gl params ctx v] invalid_def)
    next
      case (Some cd)
      obtain name rest' where "cd = (name, rest')" by fastforce
      with v skip Some show ?thesis
        by (cases "checked_identifier gl name (ctx @ '' parameter'')"; cases "map_of params name"; cases "substitute_loop gl params ctx rest'")
          (simp_all add: substitute_loop.simps [of gl params ctx "s @ v"] substitute_loop.simps [of gl params ctx v] invalid_def del: checked_identifier_ok)
    qed
  qed
qed

lemma substitute_parameter:
  assumes "id_ok gl p" and "CHR ''}'' \<notin> set p"
  shows "substitute_loop gl params ctx (''{{'' @ p @ ''}}'' @ v) =
    (case map_of params p of None \<Rightarrow> invalid (ctx @ '' references missing template parameter '' @ p)
     | Some w \<Rightarrow> chain (substitute_loop gl params ctx v) (\<lambda>t. Inr (w @ t)))"
proof -
  have "split_first ''{{'' (''{{'' @ p @ ''}}'' @ v) = Some ([], p @ ''}}'' @ v)" by simp
  moreover have "split_first ''}}'' (p @ ''}}'' @ v) = Some (p, v)" by (rule split_first_found [OF refl assms(2)])
  moreover have "checked_identifier gl p (ctx @ '' parameter'') = Inr p" using assms(1) by simp
  ultimately show ?thesis
    unfolding substitute_loop.simps [of gl params ctx "''{{'' @ p @ ''}}'' @ v"] by (simp only: option.case prod.case chain_simps append_Nil)
qed

lemma substitute_nil: "substitute_loop gl params ctx [] = Inr []"
  by (simp add: substitute_loop.simps)

lemma substitute_pieces:
  "list_all (piece_ok gl) ps \<Longrightarrow>
     (case those (map (piece_value params) ps) of
        Some vs \<Rightarrow> substitute_loop gl params ctx (concat (map piece_text ps)) = Inr (concat vs)
      | None \<Rightarrow> \<exists>p. Parameter p \<in> set ps \<and> map_of params p = None \<and>
          substitute_loop gl params ctx (concat (map piece_text ps)) = invalid (ctx @ '' references missing template parameter '' @ p))"
proof (induction ps)
  case Nil
  then show ?case by (simp add: substitute_nil)
next
  case (Cons x ps)
  then have x: "piece_ok gl x" and ps: "list_all (piece_ok gl) ps" by simp_all
  note IH = Cons.IH [OF ps]
  show ?case
  proof (cases x)
    case (Literal s)
    with x IH show ?thesis
      by (cases "those (map (piece_value params) ps)") (auto simp: substitute_literal invalid_def)
  next
    case (Parameter p)
    with x have "id_ok gl p" "CHR ''}'' \<notin> set p" by simp_all
    note step = substitute_parameter [OF this, of params ctx "concat (map piece_text ps)"]
    show ?thesis
    proof (cases "map_of params p")
      case None
      with Parameter step show ?thesis by (auto intro: exI [of _ p])
    next
      case (Some w)
      with Parameter step IH show ?thesis by (cases "those (map (piece_value params) ps)") (auto simp: invalid_def)
    qed
  qed
qed

section \<open>Properties\<close>



text \<open>
  C39. Where an endpoint of a subgraph ends up: it keeps its text behind the namespace, so an endpoint that names a port belongs to the
  component of the subgraph; one that names the component alone is afterwards read as a port of a component that has the name of
  the namespace.
\<close>

theorem namespaced_endpoint_component:
  assumes "namespace_endpoint gl ns ep ctx = Inr ep'"
  shows "ep' = ns @ ''.'' @ ep \<and>
    component_id_from_endpoint ep' = (if CHR ''.'' \<in> set ep then ns @ ''.'' @ component_id_from_endpoint ep else ns)"
  using namespaced_endpoint [OF assms] by blast

text \<open>
  Template substitution replaces every parameter by its value and leaves the rest of a text as it is; when a parameter has no
  value it reports the missing one.
\<close>

lemma template_substitution:
  assumes "list_all (piece_ok gl) ps"
  shows "case those (map (piece_value params) ps) of
      Some vs \<Rightarrow> substitute_loop gl params ctx (concat (map piece_text ps)) = Inr (concat vs)
    | None \<Rightarrow> \<exists>p. Parameter p \<in> set ps \<and> map_of params p = None \<and>
        substitute_loop gl params ctx (concat (map piece_text ps)) = invalid (ctx @ '' references missing template parameter '' @ p)"
  by (rule substitute_pieces [OF assms])

section \<open>Examples\<close>

text \<open>A library that knows one document and no anchors.\<close>

definition scalar_text :: "ynode \<Rightarrow> string + string" where
  "scalar_text n = (case n of YScalar s \<Rightarrow> Inr s | _ \<Rightarrow> Inl ''bad conversion'')"

definition demo_library :: "ynode \<Rightarrow> yaml_library" where
  "demo_library doc =
     \<lparr>yl_load = (\<lambda>_. Inr doc), yl_events = (\<lambda>_. [OnDocumentStart, OnMapStart, OnMapEnd, OnDocumentEnd]),
      yl_at = (\<lambda>n key. case n of YMap es \<Rightarrow> Inr (map_of es (YScalar key)) | YScalar _ \<Rightarrow> Inl ''bad subscript'' | _ \<Rightarrow> Inr None),
      yl_string = scalar_text, yl_int = (\<lambda>n. if n = YScalar ''1'' then Inr 1 else Inl ''bad conversion''),
      yl_double = (\<lambda>_. Inl ''bad conversion''), yl_bool = (\<lambda>n. Inl ''bad conversion''),
      yl_set = (\<lambda>key v n. case n of YMap es \<Rightarrow> YMap (es @ [(YScalar key, v)]) | _ \<Rightarrow> n), yl_print = (\<lambda>_. [])\<rparr>"

definition demo_limits :: graph_input_limits where
  "demo_limits =
     \<lparr>max_graph_input_bytes = 9, max_lanes = 1, max_components = 2, max_edges = 1, max_composite_loops = 0, max_identifier_bytes = 9,
      max_config_depth = 1, max_config_value_bytes = 9, max_string_bytes = 16, max_yaml_alias_count = 0\<rparr>"

definition entry :: "string \<Rightarrow> string \<Rightarrow> ynode \<times> ynode" where
  "entry k v = (YScalar k, YScalar v)"

definition demo_subgraph :: ynode where
  "demo_subgraph =
     YMap [entry ''id'' ''cell'',
       (YScalar ''components'', YSequence [
          YMap [entry ''id'' ''a'', entry ''type'' ''worker'', (YScalar ''execution'', YMap [entry ''lane'' ''main''])],
          YMap [entry ''id'' ''b'', entry ''type'' ''worker'', (YScalar ''execution'', YMap [entry ''lane'' ''main'']),
                (YScalar ''depends_on'', YSequence [YScalar ''a''])]]),
       (YScalar ''edges'', YSequence [YMap [entry ''id'' ''e'', entry ''from'' ''a.out'', entry ''to'' ''b.in'', entry ''kind'' ''immediate'']])]"

definition demo_document :: ynode where
  "demo_document =
     YMap [entry ''schema_version'' ''1'', (YScalar ''graph'', YMap [entry ''name'' ''demo'']),
       (YScalar ''lanes'', YMap [(YScalar ''main'', YMap [entry ''type'' ''event_loop''])]), (YScalar ''components'', YSequence []),
       (YScalar ''edges'', YSequence []), (YScalar ''subgraphs'', YSequence [demo_subgraph])]"

lemma demo_document_loads:
  "(case load_graph_text (demo_library demo_document) demo_limits ''text'' of
      Inl _ \<Rightarrow> False
    | Inr g \<Rightarrow> map comp_id (components g) = [''cell.a'', ''cell.b''] \<and> map depends_on (components g) = [[], [''cell.a'']] \<and>
        map edge_from (graph_edges g) = [''cell.a.out''] \<and> map lane_id (lanes g) = [''main''])"
  by code_simp


theorem namespaced_endpoint_component_witness:
  "component_id_from_endpoint ''cell.a.out'' = ''cell.a'' \<and> component_id_from_endpoint ''cell.a'' = ''cell''"
proof -
  have "namespace_endpoint demo_limits ''cell'' ''a.out'' ''from'' = Inr ''cell.a.out''"
    "namespace_endpoint demo_limits ''cell'' ''a'' ''from'' = Inr ''cell.a''"
    "component_id_from_endpoint ''a.out'' = ''a''" by code_simp+
  with namespaced_endpoint_component [of demo_limits "''cell''" "''a.out''" "''from''" "''cell.a.out''"]
    namespaced_endpoint_component [of demo_limits "''cell''" "''a''" "''from''" "''cell.a''"]
  show ?thesis by simp
qed

lemma template_substitution_witness:
  "substitute_loop demo_limits [(''n'', ''7'')] ''t'' ''lane_{{n}}_x'' = Inr ''lane_7_x''"
  using template_substitution [of demo_limits "[Literal ''lane_'', Parameter ''n'', Literal ''_x'']" "[(''n'', ''7'')]" "''t''"]
  by (simp add: id_ok_def demo_limits_def)

end
