(* ===== verification/Graph_Render.thy ===== *)
theory Graph_Render
  imports Graph_Compile Graph_Validate
begin

text \<open>
  Plans and diagrams as text (\<^verbatim>\<open>graph_plan_text\<close>, \<^verbatim>\<open>graph_mermaid\<close> and their helpers in \<^verbatim>\<open>src/graph.cpp\<close>). A \<^verbatim>\<open>std::ostringstream\<close> is the text written
  to it, a \<^verbatim>\<open>std::set\<close> of names the sorted list of its elements. Shown: the names of the nodes of a diagram are unique, made of safe
  characters, and stay as they are where they can; names cannot add lines to a diagram, the closing comment excepted.
\<close>

section \<open>Plans\<close>

definition text_line :: "string \<Rightarrow> string" where
  "text_line s = s @ [CHR 0x0A]"

definition subgraph_text :: "graph_hierarchy_entry \<Rightarrow> string" where
  "subgraph_text h =
     text_line (''- subgraph '' @ hier_id h @ '' components='' @ join_ids (hier_components h) @ '' edges='' @ join_ids (hier_edges h) @
       (if hier_composite_loops h \<noteq> [] then '' composite_loops='' @ join_ids (hier_composite_loops h) else []))"

definition region_text :: "compiled_graph_region \<Rightarrow> string" where
  "region_text r =
     text_line (''- region '' @ region_id r @ '' kind='' @ region_kind_to_string (region_kind r) @ '' components='' @ join_ids (region_components r) @
       (if region_kind r = RegionCompositeLoop then '' loop_policy='' @ lp_type (region_loop_policy r) else []))"

definition edge_policy_text :: "edge_spec \<Rightarrow> string" where
  "edge_policy_text e =
     (let p = edge_policy e
      in text_line (''- edge '' @ edge_id e @ '' readers='' @ ep_readers p @ '' copy_policy='' @ ep_copy_policy p @
           '' capacity='' @ int_to_string (ep_capacity p) @ '' overflow='' @ ep_overflow p @
           '' slow_reader_drop_risk='' @ (if slow_reader_drop_risk p then ''true'' else ''false'')))"

definition graph_plan_text :: "graph_spec \<Rightarrow> graph_compiled_plan \<Rightarrow> string" where
  "graph_plan_text g plan =
     text_line (''graph: '' @ graph_name g) @
     text_line (''schema_version: '' @ int_to_string (schema_version g)) @
     text_line (''components: '' @ nat_to_string (length (components g))) @
     text_line (''edges: '' @ nat_to_string (length (graph_edges g))) @
     text_line (''composite_loops: '' @ nat_to_string (length (composite_loops g))) @
     text_line (''subgraphs: '' @ nat_to_string (length (hierarchy g))) @
     concat (map subgraph_text (hierarchy g)) @
     text_line (''region_order:'' @ concat (map (\<lambda>r. '' '' @ r) (region_order plan))) @
     concat (map region_text (regions plan)) @
     text_line ''edge_policies:'' @
     concat (map edge_policy_text (graph_edges g))"

section \<open>Labels and names\<close>

definition mermaid_char :: "char \<Rightarrow> string" where
  "mermaid_char c =
     (if c = CHR 0x22 then ''&quot;''
      else if c = CHR 0x5C then ''&#92;''
      else if c = CHR ''['' then ''&#91;''
      else if c = CHR '']'' then ''&#93;''
      else if c = CHR 0x0A \<or> c = CHR 0x0D then '' ''
      else [c])"

definition mermaid_label :: "string \<Rightarrow> string" where
  "mermaid_label text = concat (map mermaid_char text)"

definition mermaid_safe :: "char \<Rightarrow> bool" where
  "mermaid_safe c \<longleftrightarrow>
     CHR ''A'' \<le> c \<and> c \<le> CHR ''Z'' \<or> CHR ''a'' \<le> c \<and> c \<le> CHR ''z'' \<or> CHR ''0'' \<le> c \<and> c \<le> CHR ''9'' \<or>
     c = CHR ''_'' \<or> c = CHR ''.'' \<or> c = CHR ''-''"

definition mermaid_node_id :: "string \<Rightarrow> string" where
  "mermaid_node_id i = map (\<lambda>c. if mermaid_safe c then c else CHR ''_'') i"

text \<open>The set \<^verbatim>\<open>originals\<close> of \<^verbatim>\<open>build_mermaid_node_ids\<close>.\<close>

definition mermaid_originals :: "graph_spec \<Rightarrow> string list" where
  "mermaid_originals g =
     sorted_list_of_set (set
       (map comp_id (components g) @
        concat (map (\<lambda>h. hier_id h # hier_components h) (hierarchy g)) @
        concat (map (\<lambda>l. loop_id l # loop_components l) (composite_loops g)) @
        concat (map (\<lambda>e. [component_id_from_endpoint (edge_from e), component_id_from_endpoint (edge_to e)]) (graph_edges g))))"

text \<open>The first pass; a state is \<^verbatim>\<open>mapping\<close> and \<^verbatim>\<open>used\<close>.\<close>

definition claim_safe_name :: "string \<Rightarrow> (string, string) smap \<times> string list \<Rightarrow> (string, string) smap \<times> string list" where
  "claim_safe_name i = (\<lambda>(mapping, used). if mermaid_node_id i = i then (smap_put i i mapping, i # used) else (mapping, used))"

text \<open>The search for a free name in the second pass.\<close>

definition suffixed_name :: "string \<Rightarrow> nat \<Rightarrow> string" where
  "suffixed_name base k = base @ ''_'' @ nat_to_string k"

lemma suffixed_name_inj: "suffixed_name base m = suffixed_name base n \<longleftrightarrow> m = n"
  by (simp add: suffixed_name_def nat_to_string_inj)

lemma finite_taken: "finite {k. s \<le> k \<and> suffixed_name base k \<in> set used}"
proof (rule inj_on_finite)
  show "inj_on (suffixed_name base) {k. s \<le> k \<and> suffixed_name base k \<in> set used}"
    by (simp add: inj_on_def suffixed_name_inj)
qed auto

function free_name :: "string list \<Rightarrow> string \<Rightarrow> string \<Rightarrow> nat \<Rightarrow> string" where
  "free_name used base candidate k =
     (if candidate \<in> set used then free_name used base (suffixed_name base k) (k + 1) else candidate)"
  by auto

termination free_name
proof (relation "measure (\<lambda>(used, base, candidate, k).
    (if candidate \<in> set used then 1 else 0) + card {j. k \<le> j \<and> suffixed_name base j \<in> set used})")
  fix used :: "string list" and base candidate k
  assume c: "candidate \<in> set used"
  let ?S = "\<lambda>k. {j. k \<le> j \<and> suffixed_name base j \<in> set used}"
  have "?S k = (if suffixed_name base k \<in> set used then insert k (?S (k + 1)) else ?S (k + 1))"
    by (auto simp: not_less_eq_eq [symmetric] intro: le_neq_implies_less)
  then have "card (?S k) = (if suffixed_name base k \<in> set used then 1 else 0) + card (?S (k + 1))"
    using finite_taken [of "k + 1" base used] by simp
  with c show "((used, base, suffixed_name base k, k + 1), (used, base, candidate, k)) \<in> measure (\<lambda>(used, base, candidate, k).
    (if candidate \<in> set used then 1 else 0) + card {j. k \<le> j \<and> suffixed_name base j \<in> set used})" by simp
qed simp

declare free_name.simps [simp del]

definition assign_name :: "string \<Rightarrow> (string, string) smap \<times> string list \<Rightarrow> (string, string) smap \<times> string list" where
  "assign_name i = (\<lambda>(mapping, used).
     if map_of mapping i \<noteq> None then (mapping, used)
     else (let candidate = free_name used (mermaid_node_id i) (mermaid_node_id i) 2 in (smap_put i candidate mapping, candidate # used)))"

definition build_mermaid_node_ids :: "graph_spec \<Rightarrow> (string, string) smap" where
  "build_mermaid_node_ids g = fst (fold assign_name (mermaid_originals g) (fold claim_safe_name (mermaid_originals g) ([], [])))"

section \<open>Diagrams\<close>

definition node_id :: "(string, string) smap \<Rightarrow> string \<Rightarrow> string" where
  "node_id node_ids i = (case map_of node_ids i of None \<Rightarrow> mermaid_node_id i | Some name \<Rightarrow> name)"

definition mermaid_node :: "(string, string) smap \<Rightarrow> component_node_spec \<Rightarrow> string" where
  "mermaid_node ids c =
     node_id ids (comp_id c) @ ''['' @ [CHR 0x22] @ mermaid_label (comp_id c) @ [CHR 0x5C, CHR ''n''] @ mermaid_label (comp_type c) @ [CHR 0x22] @ '']''"

definition mermaid_hierarchy :: "graph_spec \<Rightarrow> (string, string) smap \<Rightarrow> graph_hierarchy_entry \<Rightarrow> string" where
  "mermaid_hierarchy g ids h =
     text_line (''  subgraph '' @ node_id ids (hier_id h) @ ''[Subgraph: '' @ mermaid_label (hier_id h) @ '']'') @
     concat (map (\<lambda>i. text_line (''    '' @
       (case find (\<lambda>c. comp_id c = i) (components g) of Some c \<Rightarrow> mermaid_node ids c | None \<Rightarrow> node_id ids i))) (hier_components h)) @
     text_line ''  end''"

definition mermaid_loop :: "(string, string) smap \<Rightarrow> composite_loop_spec \<Rightarrow> string" where
  "mermaid_loop ids l =
     text_line (''  subgraph '' @ node_id ids (loop_id l) @ ''[CompositeLoop: '' @ mermaid_label (lp_type (loop_policy l)) @ '']'') @
     concat (map (\<lambda>i. text_line (''    '' @ node_id ids i)) (loop_components l)) @
     text_line ''  end''"

definition mermaid_edge :: "(string, string) smap \<Rightarrow> edge_spec \<Rightarrow> string" where
  "mermaid_edge ids e =
     text_line (''  '' @ node_id ids (component_id_from_endpoint (edge_from e)) @ '' -->|'' @ [CHR 0x22] @ mermaid_label (edge_id e) @ '':'' @
       edge_kind_to_string (edge_kind_of e) @ ''/'' @ mermaid_label (ep_mode (edge_policy e)) @ [CHR 0x22] @ ''| '' @
       node_id ids (component_id_from_endpoint (edge_to e)))"

definition graph_mermaid :: "graph_spec \<Rightarrow> graph_compiled_plan \<Rightarrow> string" where
  "graph_mermaid g plan =
     (let ids = build_mermaid_node_ids g; hierarchy_components = concat (map hier_components (hierarchy g))
      in text_line ''flowchart TD'' @
         text_line (''  %% graph: '' @ mermaid_label (graph_name g)) @
         concat (map (mermaid_hierarchy g ids) (hierarchy g)) @
         concat (map (\<lambda>c. if comp_id c \<in> set hierarchy_components then [] else text_line (''  '' @ mermaid_node ids c)) (components g)) @
         concat (map (mermaid_loop ids) (composite_loops g)) @
         concat (map (mermaid_edge ids) (graph_edges g)) @
         text_line (''  %% region_order: '' @ join_ids (region_order plan)))"

section \<open>Names of nodes\<close>

lemma free_name_fresh: "free_name used base candidate k \<notin> set used"
  by (induction used base candidate k rule: free_name.induct) (simp add: free_name.simps)

lemma free_name_form:
  "free_name used base candidate k = candidate \<or> (\<exists>j \<ge> k. free_name used base candidate k = suffixed_name base j)"
proof (induction used base candidate k rule: free_name.induct)
  case (1 used base candidate k)
  show ?case
  proof (cases "candidate \<in> set used")
    case True
    then have "free_name used base candidate k = free_name used base (suffixed_name base k) (k + 1)" by (simp add: free_name.simps [of used base candidate])
    with 1 [OF True] show ?thesis by (metis Suc_eq_plus1 Suc_leD order_refl)
  qed (simp add: free_name.simps)
qed

lemma node_id_safe [simp]: "list_all mermaid_safe (mermaid_node_id i)"
proof -
  have "mermaid_safe (CHR ''_'')" by (simp add: mermaid_safe_def)
  then show ?thesis by (auto simp: mermaid_node_id_def list_all_iff)
qed

lemma node_id_same: "mermaid_node_id i = i \<longleftrightarrow> list_all mermaid_safe i"
proof
  show "list_all mermaid_safe i" if "mermaid_node_id i = i" using node_id_safe [of i] that by simp
  show "mermaid_node_id i = i" if "list_all mermaid_safe i" using that by (induction i) (simp_all add: mermaid_node_id_def)
qed

lemma digit_safe: "c \<in> set ''0123456789'' \<Longrightarrow> mermaid_safe c"
proof -
  have "list_all mermaid_safe ''0123456789''" by code_simp
  then show "c \<in> set ''0123456789'' \<Longrightarrow> mermaid_safe c" by (simp only: list_all_iff)
qed

lemma suffixed_name_safe: "list_all mermaid_safe base \<Longrightarrow> list_all mermaid_safe (suffixed_name base k)"
proof -
  have "list_all mermaid_safe (nat_to_string k)" using nat_to_string_digits [of k] digit_safe unfolding list_all_iff by blast
  moreover have "mermaid_safe (CHR ''_'')" by (simp add: mermaid_safe_def)
  ultimately show "list_all mermaid_safe base \<Longrightarrow> list_all mermaid_safe (suffixed_name base k)" by (simp add: suffixed_name_def)
qed

text \<open>What an original name may be drawn as.\<close>

definition drawn_as :: "string \<Rightarrow> string \<Rightarrow> bool" where
  "drawn_as i name \<longleftrightarrow>
     (if list_all mermaid_safe i then name = i
      else name = mermaid_node_id i \<or> (\<exists>k \<ge> 2. name = suffixed_name (mermaid_node_id i) k))"

definition names_inv :: "(string, string) smap \<times> string list \<Rightarrow> bool" where
  "names_inv = (\<lambda>(mapping, used). smap_wf mapping \<and> inj_on snd (set mapping) \<and> set used = snd ` set mapping \<and> list_all (\<lambda>(i, name). drawn_as i name) mapping)"

lemma set_smap_put_new: "map_of m k = None \<Longrightarrow> set (smap_put k v m) = insert (k, v) (set m)"
  by (induction m) (auto split: if_splits)

lemma names_inv_put:
  assumes "names_inv (m, used)" and "map_of m i = None" and "name \<notin> set used" and "drawn_as i name"
  shows "names_inv (smap_put i name m, name # used)"
proof -
  have i: "inj_on snd (set m)" "set used = snd ` set m" "smap_wf m" "list_all (\<lambda>(i, name). drawn_as i name) m"
    using assms(1) by (simp_all add: names_inv_def)
  have "inj_on snd (insert (i, name) (set m))" using i(1,2) assms(3) by (auto simp: inj_on_insert)
  with i assms(2,4) show ?thesis by (simp add: names_inv_def set_smap_put_new list_all_iff)
qed

lemma claim_pass:
  "names_inv s \<Longrightarrow> distinct is \<Longrightarrow> \<forall>i \<in> set is. map_of (fst s) i = None \<Longrightarrow> \<forall>(k, v) \<in> set (fst s). v = k \<Longrightarrow>
    names_inv (fold claim_safe_name is s) \<and>
    fst ` set (fst (fold claim_safe_name is s)) = fst ` set (fst s) \<union> {i \<in> set is. mermaid_node_id i = i}"
proof (induction "is" arbitrary: s)
  case (Cons i "is")
  obtain m used where s: "s = (m, used)" by (cases s)
  show ?case
  proof (cases "mermaid_node_id i = i")
    case True
    have "i \<notin> set used"
    proof
      assume "i \<in> set used"
      then obtain k where "(k, i) \<in> set m" using Cons.prems(1) by (auto simp: names_inv_def s)
      with Cons.prems(4) have "(i, i) \<in> set m" by (auto simp: s)
      with Cons.prems(3) show False by (auto simp: s map_of_eq_None_iff image_iff)
    qed
    with True Cons.prems have "names_inv (smap_put i i m, i # used)"
      by (intro names_inv_put) (simp_all add: s drawn_as_def node_id_same)
    moreover have "\<forall>(k, v) \<in> set (smap_put i i m). v = k" using Cons.prems(3,4) by (simp add: s set_smap_put_new)
    moreover have "\<forall>j \<in> set is. map_of (smap_put i i m) j = None" using Cons.prems(2,3) by (auto simp: s)
    ultimately have "names_inv (fold claim_safe_name is (smap_put i i m, i # used)) \<and>
      fst ` set (fst (fold claim_safe_name is (smap_put i i m, i # used))) = fst ` set (smap_put i i m) \<union> {i \<in> set is. mermaid_node_id i = i}"
      using Cons.IH [of "(smap_put i i m, i # used)"] Cons.prems(2) by simp
    moreover have "claim_safe_name i s = (smap_put i i m, i # used)" using True by (simp add: claim_safe_name_def s)
    ultimately show ?thesis using True by (auto simp: s)
  next
    case False
    then have "claim_safe_name i s = s" by (simp add: claim_safe_name_def s)
    then show ?thesis using False Cons by auto
  qed
qed simp

lemma assign_name_step:
  assumes "names_inv s" and "\<And>j. list_all mermaid_safe j \<Longrightarrow> j = i \<Longrightarrow> map_of (fst s) j \<noteq> None"
  shows "names_inv (assign_name i s) \<and> fst ` set (fst (assign_name i s)) = insert i (fst ` set (fst s))"
proof -
  obtain m used where s: "s = (m, used)" by (cases s)
  show ?thesis
  proof (cases "map_of m i")
    case None
    let ?n = "free_name used (mermaid_node_id i) (mermaid_node_id i) 2"
    have "\<not> list_all mermaid_safe i" using assms(2) None by (auto simp: s)
    then have "drawn_as i ?n" using free_name_form [of used "mermaid_node_id i" "mermaid_node_id i" 2] by (simp add: drawn_as_def)
    with None assms(1) have "names_inv (smap_put i ?n m, ?n # used)" by (intro names_inv_put) (simp_all add: s free_name_fresh)
    with None show ?thesis by (simp add: assign_name_def s Let_def)
  next
    case (Some v)
    then have "i \<in> fst ` set m" by (metis map_of_eq_None_iff option.distinct(1))
    with Some assms(1) show ?thesis by (auto simp: assign_name_def s)
  qed
qed

lemma assign_pass:
  "names_inv s \<Longrightarrow> \<forall>i \<in> set is. list_all mermaid_safe i \<longrightarrow> map_of (fst s) i \<noteq> None \<Longrightarrow>
    names_inv (fold assign_name is s) \<and> fst ` set (fst (fold assign_name is s)) = fst ` set (fst s) \<union> set is"
proof (induction "is" arbitrary: s)
  case (Cons i "is")
  have a: "names_inv (assign_name i s)" "fst ` set (fst (assign_name i s)) = insert i (fst ` set (fst s))"
    using assign_name_step [of s i] Cons.prems by auto
  have "\<forall>j \<in> set is. list_all mermaid_safe j \<longrightarrow> map_of (fst (assign_name i s)) j \<noteq> None"
    using Cons.prems(2) a(2) by (auto simp: map_of_eq_None_iff)
  with Cons.IH [OF a(1)] a(2) show ?case by auto
qed simp

lemma names_built:
  "names_inv (fold assign_name (mermaid_originals g) (fold claim_safe_name (mermaid_originals g) ([], []))) \<and>
   fst ` set (build_mermaid_node_ids g) = set (mermaid_originals g)"
proof -
  let ?o = "mermaid_originals g"
  have c: "names_inv (fold claim_safe_name ?o ([], []))"
    "fst ` set (fst (fold claim_safe_name ?o ([], []))) = {i \<in> set ?o. mermaid_node_id i = i}"
    using claim_pass [of "([], [])" ?o] by (simp_all add: names_inv_def mermaid_originals_def)
  then have "\<forall>i \<in> set ?o. list_all mermaid_safe i \<longrightarrow> map_of (fst (fold claim_safe_name ?o ([], []))) i \<noteq> None"
    by (auto simp: map_of_eq_None_iff node_id_same)
  from assign_pass [OF c(1) this] c(2) show ?thesis by (auto simp: build_mermaid_node_ids_def)
qed

lemma smap_keys_sorted: "smap_wf m \<Longrightarrow> map fst m = sorted_list_of_set (fst ` set m)"
  by (metis list.set_map smap_wf_def sorted_list_of_set.idem_if_sorted_distinct strict_sorted_iff)

lemma drawn_as_safe: "drawn_as i name \<Longrightarrow> list_all mermaid_safe name"
  by (auto simp: drawn_as_def suffixed_name_safe split: if_splits)

lemma built_names:
  "smap_wf (build_mermaid_node_ids g)" "inj_on snd (set (build_mermaid_node_ids g))"
  "list_all (\<lambda>(i, name). drawn_as i name) (build_mermaid_node_ids g)"
  using names_built [of g] by (auto simp: names_inv_def build_mermaid_node_ids_def split: prod.splits)

section \<open>Lines\<close>

definition line_breaks :: "string \<Rightarrow> nat" where
  "line_breaks s = count_list s (CHR 0x0A)"

lemma line_breaks_simps [simp]:
  "line_breaks [] = 0" "line_breaks (c # s) = (if c = CHR 0x0A then 1 else 0) + line_breaks s" "line_breaks (s @ t) = line_breaks s + line_breaks t"
  "line_breaks (text_line s) = line_breaks s + 1"
  by (simp_all add: line_breaks_def text_line_def)

lemma line_breaks_concat: "line_breaks (concat ss) = sum_list (map line_breaks ss)"
  by (induction ss) simp_all

lemma label_breaks [simp]: "line_breaks (mermaid_label s) = 0"
  by (induction s) (simp_all add: mermaid_label_def mermaid_char_def)

lemma safe_breaks: "list_all mermaid_safe s \<Longrightarrow> line_breaks s = 0"
proof (induction s)
  case (Cons c s)
  have "\<not> mermaid_safe (CHR 0x0A)" by code_simp
  with Cons show ?case by auto
qed simp

lemma node_breaks [simp]: "line_breaks (node_id (build_mermaid_node_ids g) i) = 0"
proof (cases "map_of (build_mermaid_node_ids g) i")
  case (Some name)
  then have "drawn_as i name" using built_names(3) [of g] by (auto simp: list_all_iff dest!: map_of_SomeD)
  with Some show ?thesis by (simp add: node_id_def safe_breaks drawn_as_safe)
qed (simp add: node_id_def safe_breaks)

lemma edge_kind_breaks [simp]: "line_breaks (edge_kind_to_string k) = 0"
  by (cases k) simp_all

lemma mermaid_node_breaks [simp]: "line_breaks (mermaid_node (build_mermaid_node_ids g) c) = 0"
  by (simp add: mermaid_node_def)

lemma member_breaks [simp]:
  "line_breaks (case find P cs of None \<Rightarrow> node_id (build_mermaid_node_ids g) i | Some c \<Rightarrow> mermaid_node (build_mermaid_node_ids g) c) = 0"
  by (simp split: option.splits)

lemma part_breaks:
  "line_breaks (mermaid_hierarchy g (build_mermaid_node_ids g) h) = 2 + length (hier_components h)"
  "line_breaks (mermaid_loop (build_mermaid_node_ids g) l) = 2 + length (loop_components l)"
  "line_breaks (mermaid_edge (build_mermaid_node_ids g) e) = 1"
  by (simp_all add: mermaid_hierarchy_def mermaid_loop_def mermaid_edge_def line_breaks_concat comp_def sum_list_triv)

section \<open>Properties\<close>

text \<open>
  C32. The names of the nodes of a diagram are collision-free: the search for them ends, every name that occurs in the graph gets
  one, no two get the same, each is made of safe characters only, and names that are safe already stay as they are while the others
  become their sanitised form, with a numeric suffix from 2 on where needed.
\<close>

theorem mermaid_names_unique:
  "map fst (build_mermaid_node_ids g) = mermaid_originals g \<and> distinct (map snd (build_mermaid_node_ids g)) \<and>
   list_all (\<lambda>(i, name). list_all mermaid_safe name \<and> drawn_as i name) (build_mermaid_node_ids g)"
proof -
  let ?m = "build_mermaid_node_ids g"
  have k: "map fst ?m = mermaid_originals g"
    using smap_keys_sorted [OF built_names(1)] names_built [of g] by (simp add: mermaid_originals_def)
  then have "distinct (map fst ?m)" by (simp add: mermaid_originals_def)
  then have "distinct ?m" by (simp add: distinct_map)
  with built_names(2) have "distinct (map snd ?m)" by (simp add: distinct_map)
  moreover have "list_all (\<lambda>(i, name). list_all mermaid_safe name \<and> drawn_as i name) ?m"
    by (rule list.pred_mono_strong [OF built_names(3)]) (auto simp: drawn_as_safe)
  ultimately show ?thesis using k by blast
qed

text \<open>
  No name of a graph can add a line to its diagram: the number of lines is given by the numbers of subgraphs, components, loops and
  edges, whatever the names are, except that the closing comment, which lists the region ids as they are, adds the line breaks
  they contain.
\<close>

lemma mermaid_line_count:
  "count_list (graph_mermaid g plan) (CHR 0x0A) =
     3 + sum_list (map (\<lambda>h. 2 + length (hier_components h)) (hierarchy g)) +
     length (filter (\<lambda>c. comp_id c \<notin> set (concat (map hier_components (hierarchy g)))) (components g)) +
     sum_list (map (\<lambda>l. 2 + length (loop_components l)) (composite_loops g)) + length (graph_edges g) +
     count_list (join_ids (region_order plan)) (CHR 0x0A)"
proof -
  let ?in = "\<lambda>c. comp_id c \<in> set (concat (map hier_components (hierarchy g)))"
  have "line_breaks (concat (map (\<lambda>c. if ?in c then [] else text_line (''  '' @ mermaid_node (build_mermaid_node_ids g) c)) cs)) =
      length (filter (\<lambda>c. \<not> ?in c) cs)" for cs
    by (induction cs) simp_all
  then show ?thesis
    unfolding line_breaks_def [symmetric] graph_mermaid_def Let_def
    by (simp add: line_breaks_concat comp_def part_breaks sum_list_triv)
qed

end
