(* ===== verification/Telemetry.thy ===== *)
theory Telemetry
  imports Graph_Model "HOL-Library.Multiset"
begin

text \<open>
  Logging, trace ids and the metric registry (\<^verbatim>\<open>src/logging.cpp\<close>, \<^verbatim>\<open>src/trace.cpp\<close>, \<^verbatim>\<open>src/metrics.cpp\<close>).

  \<^item> Clock readings are arguments, a lock is an atomic step. The sink a logger writes to is an argument of its operations, the pointer
    is whether there is one.
  \<^item> The operations of \<^verbatim>\<open>double\<close> that round are the record \<open>double_arithmetic\<close>; comparison, \<^verbatim>\<open>floor\<close> and \<^verbatim>\<open>ceil\<close> are exact. \<open>None\<close> is undefined
    behaviour: sorting values that include a not-a-number, converting a value that is no natural number to \<^verbatim>\<open>std::size_t\<close>.
  \<^item> JSON lines are printed by a library outside the repository and left out.
\<close>

section \<open>Logging\<close>

datatype log_level = LDebug | LInfo | LWarn | LError

fun log_level_to_string :: "log_level \<Rightarrow> string" where
  "log_level_to_string LDebug = ''debug''"
| "log_level_to_string LInfo = ''info''"
| "log_level_to_string LWarn = ''warn''"
| "log_level_to_string LError = ''error''"

record log_record =
  lr_timestamp :: int
  lr_level :: log_level
  lr_component :: string
  lr_event :: string
  lr_message :: string
  lr_trace_id :: string
  lr_fields :: "(string, string) smap"

type_synonym log_sink = "log_record list"

definition sink_write :: "log_record \<Rightarrow> log_sink \<Rightarrow> log_sink" where
  "sink_write r sink = sink @ [r]"

definition sink_records :: "log_sink \<Rightarrow> log_record list" where
  "sink_records sink = sink"

definition sink_clear :: "log_sink \<Rightarrow> log_sink" where
  "sink_clear sink = []"

record structured_logger =
  sl_component :: string
  sl_attached :: bool
  once_keys :: "string list"
  throttle_last_seen :: "(string, int) smap"

definition make_logger :: "string \<Rightarrow> structured_logger" where
  "make_logger c = \<lparr>sl_component = c, sl_attached = False, once_keys = [], throttle_last_seen = []\<rparr>"

definition attach_sink :: "bool \<Rightarrow> structured_logger \<Rightarrow> structured_logger" where
  "attach_sink given l = l\<lparr>sl_attached := given\<rparr>"

text \<open>The arguments of one message, with the reading of the system clock.\<close>

record log_call =
  call_time :: int
  call_level :: log_level
  call_event :: string
  call_message :: string
  call_fields :: "(string, string) smap"
  call_trace_id :: string

definition logger_log :: "log_call \<Rightarrow> structured_logger \<Rightarrow> log_sink \<Rightarrow> log_record \<times> log_sink" where
  "logger_log c l sink =
     (let r = \<lparr>lr_timestamp = call_time c, lr_level = call_level c, lr_component = sl_component l, lr_event = call_event c,
               lr_message = call_message c, lr_trace_id = call_trace_id c, lr_fields = call_fields c\<rparr>
      in (r, if sl_attached l then sink_write r sink else sink))"

definition log_once :: "string \<Rightarrow> log_call \<Rightarrow> structured_logger \<times> log_sink \<Rightarrow> bool \<times> structured_logger \<times> log_sink" where
  "log_once key c = (\<lambda>(l, sink).
     if key \<in> set (once_keys l) then (False, l, sink)
     else (let l' = l\<lparr>once_keys := key # once_keys l\<rparr> in (True, l', snd (logger_log c l' sink))))"

definition log_throttle ::
  "string \<Rightarrow> int \<Rightarrow> int \<Rightarrow> log_call \<Rightarrow> structured_logger \<times> log_sink \<Rightarrow> bool \<times> structured_logger \<times> log_sink" where
  "log_throttle key interval now c = (\<lambda>(l, sink).
     if (case map_of (throttle_last_seen l) key of Some seen \<Rightarrow> now - seen < interval | None \<Rightarrow> False) then (False, l, sink)
     else (let l' = l\<lparr>throttle_last_seen := smap_put key now (throttle_last_seen l)\<rparr> in (True, l', snd (logger_log c l' sink))))"

text \<open>The destructor of \<^verbatim>\<open>ScopeTimer\<close>: the duration is cut to microseconds towards zero.\<close>

definition scope_finished :: "string \<Rightarrow> int \<Rightarrow> int \<Rightarrow> int \<Rightarrow> log_call" where
  "scope_finished event started now system_now =
     \<lparr>call_time = system_now, call_level = LDebug, call_event = event, call_message = ''scope finished'',
      call_fields = [(''duration_us'', int_to_string (if now < started then - ((started - now) div 1000) else (now - started) div 1000))],
      call_trace_id = []\<rparr>"

definition scope_timer_end :: "string \<Rightarrow> int \<Rightarrow> int \<Rightarrow> int \<Rightarrow> structured_logger \<Rightarrow> log_sink \<Rightarrow> log_sink" where
  "scope_timer_end event started now system_now l sink = snd (logger_log (scope_finished event started now system_now) l sink)"

section \<open>Trace ids\<close>

text \<open>The counter is a 64-bit atomic: the text of the id and the next value.\<close>

definition generate_trace_id :: "int \<Rightarrow> 64 word \<Rightarrow> string \<times> 64 word" where
  "generate_trace_id now counter = (''trace-'' @ int_to_string now @ ''-'' @ nat_to_string (unat counter), counter + 1)"

fun generate_trace_ids :: "int list \<Rightarrow> 64 word \<Rightarrow> string list" where
  "generate_trace_ids [] counter = []"
| "generate_trace_ids (t # ts) counter = (let (i, counter') = generate_trace_id t counter in i # generate_trace_ids ts counter')"

section \<open>Metrics\<close>

record double_arithmetic =
  da_add :: "fp \<Rightarrow> fp \<Rightarrow> fp"
  da_sub :: "fp \<Rightarrow> fp \<Rightarrow> fp"
  da_mul :: "fp \<Rightarrow> fp \<Rightarrow> fp"
  da_div :: "fp \<Rightarrow> fp \<Rightarrow> fp"
  da_of_nat :: "nat \<Rightarrow> fp"
  da_literal :: "rat \<Rightarrow> fp"

text \<open>\<^verbatim>\<open>std::min_element\<close> and \<^verbatim>\<open>std::max_element\<close> on a vector that is not empty\<close>

fun least_value :: "fp \<Rightarrow> fp list \<Rightarrow> fp" where
  "least_value best [] = best"
| "least_value best (x # xs) = least_value (if fp_less x best then x else best) xs"

fun greatest_value :: "fp \<Rightarrow> fp list \<Rightarrow> fp" where
  "greatest_value best [] = best"
| "greatest_value best (x # xs) = greatest_value (if fp_less best x then x else best) xs"

type_synonym histogram = "fp list"

definition histogram_observe :: "fp \<Rightarrow> histogram \<Rightarrow> histogram" where
  "histogram_observe x h = h @ [x]"

definition histogram_count :: "histogram \<Rightarrow> nat" where
  "histogram_count h = length h"

definition histogram_min :: "histogram \<Rightarrow> fp" where
  "histogram_min h = (case h of [] \<Rightarrow> Finite 0 | x # xs \<Rightarrow> least_value x xs)"

definition histogram_max :: "histogram \<Rightarrow> fp" where
  "histogram_max h = (case h of [] \<Rightarrow> Finite 0 | x # xs \<Rightarrow> greatest_value x xs)"

definition histogram_average :: "double_arithmetic \<Rightarrow> histogram \<Rightarrow> fp" where
  "histogram_average da h =
     (if h = [] then Finite 0 else da_div da (fold (\<lambda>v acc. da_add da acc v) h (Finite 0)) (da_of_nat da (length h)))"

fun fp_insort :: "fp \<Rightarrow> fp list \<Rightarrow> fp list" where
  "fp_insort x [] = [x]"
| "fp_insort x (y # ys) = (if fp_less y x then y # fp_insort x ys else x # y # ys)"

definition fp_sort :: "fp list \<Rightarrow> fp list option" where
  "fp_sort xs = (if NotANumber \<in> set xs \<and> length xs > 1 then None else Some (foldr fp_insort xs []))"

fun fp_floor :: "fp \<Rightarrow> fp" where
  "fp_floor (Finite q) = Finite (of_int \<lfloor>q\<rfloor>)"
| "fp_floor x = x"

fun fp_ceil :: "fp \<Rightarrow> fp" where
  "fp_ceil (Finite q) = Finite (of_int \<lceil>q\<rceil>)"
| "fp_ceil x = x"

text \<open>\<^verbatim>\<open>static_cast<std::size_t>\<close>: the part before the point, when it is a value of the type\<close>

fun fp_to_size :: "fp \<Rightarrow> nat option" where
  "fp_to_size (Finite q) = (if - 1 < q \<and> q < 2 ^ 64 then Some (nat \<lfloor>q\<rfloor>) else None)"
| "fp_to_size _ = None"

definition vector_at :: "fp list \<Rightarrow> nat \<Rightarrow> fp option" where
  "vector_at xs i = (if i < length xs then Some (xs ! i) else None)"

definition histogram_percentile :: "double_arithmetic \<Rightarrow> fp \<Rightarrow> histogram \<Rightarrow> (string + fp) option" where
  "histogram_percentile da ratio h =
     (if h = [] then Some (Inr (Finite 0))
      else if fp_less ratio (Finite 0) \<or> fp_less (Finite 1) ratio
      then Some (Inl ''histogram percentile ratio must be between 0 and 1'')
      else
        (case fp_sort h of
           None \<Rightarrow> None
         | Some values \<Rightarrow>
             (let position = da_mul da ratio (da_of_nat da (length values - 1))
              in (case (fp_to_size (fp_floor position), fp_to_size (fp_ceil position)) of
                    (Some lower, Some upper) \<Rightarrow>
                      if lower = upper then map_option Inr (vector_at values lower)
                      else
                        (case (vector_at values lower, vector_at values upper) of
                           (Some a, Some b) \<Rightarrow>
                             Some (Inr (da_add da a (da_mul da (da_sub da b a) (da_sub da position (da_of_nat da lower)))))
                         | _ \<Rightarrow> None)
                  | _ \<Rightarrow> None))))"

record metric_registry =
  mr_counters :: "(string, fp) smap"
  mr_gauges :: "(string, fp) smap"
  mr_histograms :: "(string, histogram) smap"

text \<open>Getting a metric creates it with its initial value; the operation runs on the reference.\<close>

definition counter_add :: "double_arithmetic \<Rightarrow> string \<Rightarrow> fp \<Rightarrow> metric_registry \<Rightarrow> metric_registry" where
  "counter_add da name delta r = r\<lparr>mr_counters := smap_put name (da_add da (smap_get (Finite 0) (mr_counters r) name) delta) (mr_counters r)\<rparr>"

definition gauge_set :: "string \<Rightarrow> fp \<Rightarrow> metric_registry \<Rightarrow> metric_registry" where
  "gauge_set name v r = r\<lparr>mr_gauges := smap_put name v (mr_gauges r)\<rparr>"

definition registry_observe :: "string \<Rightarrow> fp \<Rightarrow> metric_registry \<Rightarrow> metric_registry" where
  "registry_observe name v r = r\<lparr>mr_histograms := smap_put name (histogram_observe v (smap_get [] (mr_histograms r) name)) (mr_histograms r)\<rparr>"

definition histogram_samples :: "double_arithmetic \<Rightarrow> string \<times> histogram \<Rightarrow> (string \<times> fp) list option" where
  "histogram_samples da = (\<lambda>(name, h).
     map_option (\<lambda>ps. [(name @ ''.count'', da_of_nat da (histogram_count h)), (name @ ''.min'', histogram_min h), (name @ ''.max'', histogram_max h),
         (name @ ''.avg'', histogram_average da h)] @ zip [name @ ''.p50'', name @ ''.p95'', name @ ''.p99''] ps)
       (those (map (\<lambda>q. case histogram_percentile da (da_literal da q) h of Some (Inr v) \<Rightarrow> Some v | _ \<Rightarrow> None) [1 / 2, 19 / 20, 99 / 100])))"

text \<open>The samples have no tags. The literals are between 0 and 1, so no percentile throws (\<open>percentile_spec\<close>).\<close>

definition registry_snapshot :: "double_arithmetic \<Rightarrow> metric_registry \<Rightarrow> (string \<times> fp) list option" where
  "registry_snapshot da r =
     map_option (\<lambda>hs. mr_counters r @ mr_gauges r @ concat hs) (those (map (histogram_samples da) (mr_histograms r)))"

section \<open>Laws of logging\<close>

fun log_once_all :: "(string \<times> log_call) list \<Rightarrow> structured_logger \<times> log_sink \<Rightarrow> bool list \<times> structured_logger \<times> log_sink" where
  "log_once_all [] s = ([], s)"
| "log_once_all ((key, c) # cs) s =
     (let (logged, s') = log_once key c s; (results, s'') = log_once_all cs s' in (logged # results, s''))"

text \<open>A key is logged the first time it occurs and never again, and the sink gets exactly the messages that were logged.\<close>

lemma log_once_first:
  "fst (log_once_all cs (l, sink)) = map (\<lambda>i. fst (cs ! i) \<notin> set (once_keys l) \<union> set (map fst (take i cs))) [0..<length cs]"
proof (induction cs arbitrary: l sink)
  case (Cons c cs)
  have idx: "[0..<length (c # cs)] = 0 # map Suc [0..<length cs]" by (simp add: map_Suc_upt upt_conv_Cons del: upt_Suc)
  obtain key k where c: "c = (key, k)" by (cases c)
  show ?case
  proof (cases "key \<in> set (once_keys l)")
    case True
    then show ?thesis unfolding idx by (auto simp: c log_once_def case_prod_unfold Let_def Cons.IH)
  next
    case False
    then show ?thesis unfolding idx by (auto simp: c log_once_def case_prod_unfold Let_def Cons.IH)
  qed
qed simp

lemma log_once_sink:
  "sl_attached l \<Longrightarrow> length (snd (snd (log_once_all cs (l, sink)))) = length sink + length (filter id (fst (log_once_all cs (l, sink))))"
proof (induction cs arbitrary: l sink)
  case (Cons c cs)
  obtain key k where c: "c = (key, k)" by (cases c)
  show ?case
  proof (cases "key \<in> set (once_keys l)")
    case True
    then show ?thesis using Cons by (simp add: c log_once_def case_prod_unfold Let_def)
  next
    case False
    let ?l = "l\<lparr>once_keys := key # once_keys l\<rparr>"
    show ?thesis using Cons.IH [of ?l "snd (logger_log k ?l sink)"] Cons.prems False
      by (simp add: c log_once_def case_prod_unfold Let_def logger_log_def sink_write_def)
  qed
qed simp

text \<open>The calls that \<^verbatim>\<open>log_throttle\<close> lets through: key, interval and time.\<close>

fun throttle_all :: "(string \<times> int \<times> int \<times> log_call) list \<Rightarrow> structured_logger \<times> log_sink \<Rightarrow> (string \<times> int \<times> int) list" where
  "throttle_all [] s = []"
| "throttle_all ((key, interval, now, c) # cs) s =
     (let (logged, s') = log_throttle key interval now c s; rest = throttle_all cs s' in if logged then (key, interval, now) # rest else rest)"

lemma throttle_all_spaced:
  "sorted (map (\<lambda>(k, d, t, c). t) cs) \<Longrightarrow> \<forall>(k, s) \<in> set (throttle_last_seen l). \<forall>(_, _, t, _) \<in> set cs. s \<le> t \<Longrightarrow>
   (\<forall>(k, d, t) \<in> set (throttle_all cs (l, sink)). \<forall>s. map_of (throttle_last_seen l) k = Some s \<longrightarrow> d \<le> t - s) \<and>
   sorted_wrt (\<lambda>(k, _, t) (k', d', t'). k = k' \<longrightarrow> d' \<le> t' - t) (throttle_all cs (l, sink))"
proof (induction cs arbitrary: l sink)
  case (Cons x cs)
  obtain k d t c where x: "x = (k, d, t, c)" by (cases x)
  show ?case
  proof (cases "\<exists>s. map_of (throttle_last_seen l) k = Some s \<and> t - s < d")
    case True
    then have "throttle_all (x # cs) (l, sink) = throttle_all cs (l, sink)" by (auto simp: x log_throttle_def)
    moreover have "\<forall>(k, s) \<in> set (throttle_last_seen l). \<forall>(_, _, t, _) \<in> set cs. s \<le> t" using Cons.prems(2) by fastforce
    moreover have "sorted (map (\<lambda>(k, d, t, c). t) cs)" using Cons.prems(1) by simp
    ultimately show ?thesis using Cons.IH [of l sink] by simp
  next
    case False
    let ?l = "l\<lparr>throttle_last_seen := smap_put k t (throttle_last_seen l)\<rparr>"
    have step: "throttle_all (x # cs) (l, sink) = (k, d, t) # throttle_all cs (?l, snd (logger_log c ?l sink))"
      using False by (auto simp: x log_throttle_def Let_def split: option.splits)
    have "\<forall>(k, s) \<in> set (throttle_last_seen ?l). \<forall>(_, _, t, _) \<in> set cs. s \<le> t"
      using set_smap_put [of k t "throttle_last_seen l"] Cons.prems by (fastforce simp: x)
    then have ih: "\<forall>(k', d', t') \<in> set (throttle_all cs (?l, snd (logger_log c ?l sink))). \<forall>s.
        map_of (throttle_last_seen ?l) k' = Some s \<longrightarrow> d' \<le> t' - s"
      "sorted_wrt (\<lambda>(k, _, t) (k', d', t'). k = k' \<longrightarrow> d' \<le> t' - t) (throttle_all cs (?l, snd (logger_log c ?l sink)))"
      using Cons.IH [of ?l "snd (logger_log c ?l sink)"] Cons.prems(1) by (auto simp: x)
    have old: "s \<le> t" if "map_of (throttle_last_seen l) k = Some s" for s
      using Cons.prems(2) map_of_SomeD [OF that] by (auto simp: x)
    have "d' \<le> t' - s" if "(k', d', t') \<in> set (throttle_all cs (?l, snd (logger_log c ?l sink)))" "map_of (throttle_last_seen l) k' = Some s" for k' d' t' s
    proof (cases "k' = k")
      case True
      with ih(1) that(1) have "d' \<le> t' - t" by fastforce
      with old that(2) True show ?thesis by fastforce
    next
      case False
      with ih(1) that show ?thesis by fastforce
    qed
    with False ih show ?thesis unfolding step by fastforce
  qed
qed simp

text \<open>With a clock that does not go back, two throttled messages of a key are at least the later interval apart.\<close>

lemma throttle_spaces_messages:
  assumes "sorted (map (\<lambda>(k, d, t, c). t) cs)"
  shows "sorted_wrt (\<lambda>(k, _, t) (k', d', t'). k = k' \<longrightarrow> d' \<le> t' - t) (throttle_all cs (make_logger component, sink))"
  using throttle_all_spaced [OF assms, of "make_logger component" sink] by (simp add: make_logger_def)

section \<open>Laws of trace ids\<close>

lemma last_part_unique:
  assumes "a @ x # d = a' @ x # d'" and "x \<notin> set d" and "x \<notin> set d'"
  shows "d = d'"
proof -
  have "takeWhile (\<lambda>c. c \<noteq> x) (rev (b @ x # e)) = rev e" if "x \<notin> set e" for b e
  proof -
    have "takeWhile (\<lambda>c. c \<noteq> x) (rev e @ x # rev b) = rev e" using that by (subst takeWhile_append2) auto
    then show ?thesis by simp
  qed
  with assms show ?thesis by (metis rev_rev_ident)
qed

lemma trace_id_counter: "fst (generate_trace_id t c) = fst (generate_trace_id t' c') \<Longrightarrow> c = c'"
proof -
  assume eq: "fst (generate_trace_id t c) = fst (generate_trace_id t' c')"
  have dash: "CHR ''-'' \<notin> set (nat_to_string n)" for n using nat_to_string_digits [of n] by auto
  have "(''trace-'' @ int_to_string t) @ CHR ''-'' # nat_to_string (unat c) = (''trace-'' @ int_to_string t') @ CHR ''-'' # nat_to_string (unat c')"
    using eq by (simp add: generate_trace_id_def)
  from last_part_unique [OF this dash dash] show "c = c'" by (simp add: nat_to_string_inj word_unat_eq_iff)
qed

lemma generate_trace_ids_map:
  "generate_trace_ids ts c = map (\<lambda>i. fst (generate_trace_id (ts ! i) (c + of_nat i))) [0..<length ts]"
proof (induction ts arbitrary: c)
  case (Cons t ts)
  have idx: "[0..<length (t # ts)] = 0 # map Suc [0..<length ts]" by (simp add: map_Suc_upt upt_conv_Cons del: upt_Suc)
  have "c + 1 + of_nat i = c + of_nat (Suc i)" for i by simp
  then show ?case unfolding idx by (simp add: Cons.IH generate_trace_id_def Let_def comp_def add.assoc)
qed simp

text \<open>Trace ids are unique until the counter wraps around, whatever the clock reads.\<close>

lemma trace_ids_unique:
  assumes "length ts \<le> 2 ^ 64"
  shows "distinct (generate_trace_ids ts c)"
proof -
  have "i = j" if "i < length ts" "j < length ts" and "c + of_nat i = c + (of_nat j :: 64 word)" for i j
  proof -
    have "(of_nat i :: 64 word) = of_nat j" using that(3) by simp
    then have "unat (of_nat i :: 64 word) = unat (of_nat j :: 64 word)" by simp
    then show "i = j" using that(1,2) assms by (simp add: unat_of_nat take_bit_nat_eq_self)
  qed
  then show ?thesis unfolding generate_trace_ids_map by (auto simp: distinct_map inj_on_def dest!: trace_id_counter)
qed

section \<open>Laws of metrics\<close>

lemma fp_less_negtrans: "\<not> fp_less a b \<Longrightarrow> \<not> fp_less b c \<Longrightarrow> a \<noteq> NotANumber \<Longrightarrow> b \<noteq> NotANumber \<Longrightarrow> c \<noteq> NotANumber \<Longrightarrow> \<not> fp_less a c"
  by (cases a; cases b; cases c) auto

lemma fp_less_asym: "fp_less a b \<Longrightarrow> \<not> fp_less b a"
  by (cases a; cases b) auto

lemma fp_insort_mset [simp]: "mset (fp_insort x xs) = add_mset x (mset xs)"
  by (induction xs) auto

lemma fp_insort_set [simp]: "set (fp_insort x xs) = insert x (set xs)"
  by (induction xs) auto

lemma fp_insort_sorted:
  "sorted_wrt (\<lambda>a b. \<not> fp_less b a) xs \<Longrightarrow> NotANumber \<notin> insert x (set xs) \<Longrightarrow> sorted_wrt (\<lambda>a b. \<not> fp_less b a) (fp_insort x xs)"
proof (induction xs)
  case (Cons y ys)
  show ?case
  proof (cases "fp_less y x")
    case True
    with Cons show ?thesis by (auto dest: fp_less_asym)
  next
    case False
    with Cons.prems have "\<forall>z \<in> set ys. \<not> fp_less z x" by (metis fp_less_negtrans insertCI list.simps(15) sorted_wrt.simps(2))
    with False Cons.prems show ?thesis by simp
  qed
qed simp

lemma fp_sort_spec:
  assumes "NotANumber \<notin> set h"
  obtains s where "fp_sort h = Some s" "mset s = mset h" "sorted_wrt (\<lambda>a b. \<not> fp_less b a) s"
proof -
  have m: "mset (foldr fp_insort h []) = mset h" by (induction h) simp_all
  have st: "set (foldr fp_insort h []) = set h" for h by (induction h) simp_all
  have "sorted_wrt (\<lambda>a b. \<not> fp_less b a) (foldr fp_insort h [])" using assms by (induction h) (auto intro!: fp_insort_sorted simp: st)
  with m assms that show thesis by (simp add: fp_sort_def)
qed

text \<open>What the percentile relies on of multiplication: a ratio of an index that \<^verbatim>\<open>double\<close> represents exactly lies between 0 and the index.\<close>

definition scales_indices :: "double_arithmetic \<Rightarrow> bool" where
  "scales_indices da \<longleftrightarrow> (\<forall>r k. 0 \<le> r \<longrightarrow> r \<le> 1 \<longrightarrow> k < 2 ^ 53 \<longrightarrow>
     (\<exists>p. da_mul da (Finite r) (da_of_nat da k) = Finite p \<and> 0 \<le> p \<and> p \<le> of_nat k))"

text \<open>
  A percentile of a histogram without not-a-number values is defined and reads the sorted values inside their bounds: it is the value at
  an index, or computed from two neighbours.
\<close>

lemma percentile_spec:
  assumes da: "scales_indices da" and h: "h \<noteq> []" "NotANumber \<notin> set h" "length h \<le> 2 ^ 53" and r: "0 \<le> r" "r \<le> 1"
  obtains s lower upper v where "fp_sort h = Some s" "mset s = mset h" "sorted_wrt (\<lambda>a b. \<not> fp_less b a) s" "lower < length h" "upper < length h"
    "upper = lower \<or> upper = lower + 1" "histogram_percentile da (Finite r) h = Some (Inr v)" "upper = lower \<Longrightarrow> v = s ! lower"
    "upper \<noteq> lower \<Longrightarrow> v = da_add da (s ! lower) (da_mul da (da_sub da (s ! upper) (s ! lower))
       (da_sub da (da_mul da (Finite r) (da_of_nat da (length h - 1))) (da_of_nat da lower)))"
proof -
  obtain s where s: "fp_sort h = Some s" "mset s = mset h" "sorted_wrt (\<lambda>a b. \<not> fp_less b a) s" by (rule fp_sort_spec [OF h(2)])
  have len: "length s = length h" using s(2) by (metis size_mset)
  have "length h - 1 < 2 ^ 53" using h(1,3) by (cases h) simp_all
  then obtain p where p: "da_mul da (Finite r) (da_of_nat da (length h - 1)) = Finite p" "0 \<le> p" "p \<le> of_nat (length h - 1)"
    using da r unfolding scales_indices_def by blast
  let ?l = "nat \<lfloor>p\<rfloor>" and ?u = "nat \<lceil>p\<rceil>"
  have "p \<le> of_int (int (length h - 1))" using p(3) by (simp only: of_int_of_nat_eq)
  then have u: "\<lceil>p\<rceil> \<le> int (length h - 1)" by (simp only: ceiling_le_iff)
  have ul: "?u = ?l \<or> ?u = ?l + 1" using p(2) by (simp only: ceiling_altdef) (simp add: nat_add_distrib)
  have pos: "0 < length h" using h(1) by simp
  have bounds: "?l < length h" "?u < length h" using u pos floor_le_ceiling [of p] by linarith+
  have "length h \<le> 9007199254740992" using h(3) by (simp only: power_numeral Num.pow.simps Num.sqr.simps) simp
  then have "int (length h - 1) \<le> 9007199254740992" by linarith
  with u have "\<lceil>p\<rceil> \<le> 9007199254740992" by (rule order_trans)
  then have small: "\<lceil>p\<rceil> < 2 ^ 64" by simp
  have cast: "fp_to_size (fp_floor (Finite p)) = Some ?l" "fp_to_size (fp_ceil (Finite p)) = Some ?u"
  proof -
    have "of_int \<lceil>p\<rceil> < (2 ^ 64 :: rat)" using small by (metis of_int_less_iff of_int_numeral of_int_power)
    moreover have "of_int \<lfloor>p\<rfloor> \<le> (of_int \<lceil>p\<rceil> :: rat)" using floor_le_ceiling [of p] by simp
    moreover have "0 \<le> \<lfloor>p\<rfloor>" "0 \<le> \<lceil>p\<rceil>" using p(2) floor_le_ceiling [of p] by (simp, linarith)
    ultimately show "fp_to_size (fp_floor (Finite p)) = Some ?l" "fp_to_size (fp_ceil (Finite p)) = Some ?u"
      by (auto intro: order.strict_trans1 less_le_trans [of "- 1" 0])
  qed
  have nan: "\<not> (fp_less (Finite r) (Finite 0) \<or> fp_less (Finite 1) (Finite r))" using r by simp
  let ?v = "if ?l = ?u then s ! ?l else da_add da (s ! ?l) (da_mul da (da_sub da (s ! ?u) (s ! ?l)) (da_sub da (Finite p) (da_of_nat da ?l)))"
  have "histogram_percentile da (Finite r) h = Some (Inr ?v)"
    unfolding histogram_percentile_def using h(1) nan s(1) bounds cast by (simp add: len p(1) vector_at_def Let_def del: One_nat_def fp_to_size.simps fp_floor.simps fp_ceil.simps fp_less.simps)
  with s bounds ul p(1) show thesis by (intro that [of s ?l ?u ?v]) auto
qed

text \<open>A ratio that is not a number passes the range check; what follows is undefined on every histogram that is not empty.\<close>

lemma percentile_nan_undefined:
  assumes "h \<noteq> []" and "\<And>x. da_mul da NotANumber x = NotANumber"
  shows "histogram_percentile da NotANumber h = None"
  using assms by (simp add: histogram_percentile_def Let_def split: option.splits)

lemma percentile_rejects:
  "h \<noteq> [] \<Longrightarrow> r < 0 \<or> 1 < r \<Longrightarrow>
    histogram_percentile da (Finite r) h = Some (Inl ''histogram percentile ratio must be between 0 and 1'')"
  by (auto simp: histogram_percentile_def)

lemma least_value_spec:
  "NotANumber \<notin> insert x (set xs) \<Longrightarrow> least_value x xs \<in> insert x (set xs) \<and> (\<forall>y \<in> insert x (set xs). \<not> fp_less y (least_value x xs))"
proof (induction xs arbitrary: x)
  case Nil
  then show ?case by (cases x) auto
next
  case (Cons y ys)
  let ?b = "if fp_less y x then y else x"
  have i: "least_value ?b ys \<in> insert ?b (set ys)" "\<forall>z \<in> insert ?b (set ys). \<not> fp_less z (least_value ?b ys)"
    using Cons.IH [of ?b] Cons.prems by auto
  moreover have "\<not> fp_less x ?b" "\<not> fp_less y ?b" by (cases x; cases y; auto)+
  moreover have "least_value ?b ys \<noteq> NotANumber" using i(1) Cons.prems by (auto split: if_splits)
  ultimately have "\<not> fp_less x (least_value ?b ys)" "\<not> fp_less y (least_value ?b ys)"
    using fp_less_negtrans [of x ?b "least_value ?b ys"] fp_less_negtrans [of y ?b "least_value ?b ys"] Cons.prems by (auto split: if_splits)
  with i show ?case by (auto split: if_splits)
qed

end
