(* ===== verification/Graph_Builder.thy ===== *)
theory Graph_Builder
  imports Graph_Validate_Laws Graph_IO
begin

text \<open>
  The builder of graphs in code (\<^verbatim>\<open>graph_builder.hpp\<close>). A builder is the graph it holds; its methods return it changed. Shown: the order of calls
  of different kinds does not matter, every graph without subgraphs and with default clock can be built, and an edge of the builder
  satisfies the edge rules of validation.
\<close>

type_synonym graph_builder = graph_spec

definition make_builder :: "string \<Rightarrow> string \<Rightarrow> graph_builder" where
  "make_builder name kind = default_graph\<lparr>schema_version := kTopoExecSchemaVersion, graph_name := name, graph_kind := kind\<rparr>"

definition builder_lane :: "lane_spec \<Rightarrow> graph_builder \<Rightarrow> graph_builder" where
  "builder_lane l b = b\<lparr>lanes := lanes b @ [l]\<rparr>"

definition event_loop_lane :: "string \<Rightarrow> graph_builder \<Rightarrow> graph_builder" where
  "event_loop_lane lid b = builder_lane (default_lane lid ''event_loop'') b"

definition builder_component :: "component_node_spec \<Rightarrow> graph_builder \<Rightarrow> graph_builder" where
  "builder_component c b = b\<lparr>components := components b @ [c]\<rparr>"

definition builder_edge :: "edge_spec \<Rightarrow> graph_builder \<Rightarrow> graph_builder" where
  "builder_edge e b = b\<lparr>graph_edges := graph_edges b @ [e]\<rparr>"

definition builder_composite_loop :: "composite_loop_spec \<Rightarrow> graph_builder \<Rightarrow> graph_builder" where
  "builder_composite_loop l b = b\<lparr>composite_loops := composite_loops b @ [l]\<rparr>"

definition build :: "graph_builder \<Rightarrow> graph_spec" where
  "build b = b"

definition manual_event_source :: event_source_spec where
  "manual_event_source = default_event_source\<lparr>es_type := ''manual''\<rparr>"

definition message_event_source :: "string list \<Rightarrow> event_source_spec" where
  "message_event_source inputs = default_event_source\<lparr>es_type := ''message'', es_inputs := inputs\<rparr>"

definition manual_trigger :: trigger_policy_spec where
  "manual_trigger = default_trigger_policy\<lparr>tp_type := ''manual''\<rparr>"

definition any_input_trigger :: "string list \<Rightarrow> trigger_policy_spec" where
  "any_input_trigger inputs = default_trigger_policy\<lparr>tp_type := ''any_input'', tp_inputs := inputs\<rparr>"

definition lane_execution :: "string \<Rightarrow> execution_spec" where
  "lane_execution lid = default_execution\<lparr>ex_lane := lid\<rparr>"

definition component_node ::
  "string \<Rightarrow> string \<Rightarrow> event_source_spec list \<Rightarrow> trigger_policy_spec \<Rightarrow> execution_spec \<Rightarrow> boundary_descriptor \<Rightarrow> component_node_spec" where
  "component_node cid ty sources trigger ex bd =
     (default_component cid)\<lparr>comp_type := ty, event_sources := sources, trigger_policy := trigger, execution := ex, boundary := bd\<rparr>"

definition latest_shared_policy :: edge_policy_spec where
  "latest_shared_policy = default_edge_policy\<lparr>ep_mode := ''latest'', ep_overflow := ''overwrite'', ep_copy_policy := ''shared_view''\<rparr>"

definition immediate_edge :: "string \<Rightarrow> string \<Rightarrow> string \<Rightarrow> edge_policy_spec \<Rightarrow> edge_spec" where
  "immediate_edge eid from to p =
     \<lparr>edge_id = eid, edge_from = from, edge_to = to, edge_kind_of = KImmediate, has_kind = True, invalid_kind = [], edge_policy = p\<rparr>"

section \<open>Laws\<close>

lemma builder_folds:
  "fold builder_lane ls b = b\<lparr>lanes := lanes b @ ls\<rparr>" "fold builder_component cs b = b\<lparr>components := components b @ cs\<rparr>"
  "fold builder_edge es b = b\<lparr>graph_edges := graph_edges b @ es\<rparr>" "fold builder_composite_loop lps b = b\<lparr>composite_loops := composite_loops b @ lps\<rparr>"
  by (induction ls arbitrary: b) (simp_all add: builder_lane_def,
      induction cs arbitrary: b, simp_all add: builder_component_def,
      induction es arbitrary: b, simp_all add: builder_edge_def,
      induction lps arbitrary: b, simp_all add: builder_composite_loop_def)

lemma builder_calls_commute:
  "builder_lane l (builder_component c b) = builder_component c (builder_lane l b)" "builder_lane l (builder_edge e b) = builder_edge e (builder_lane l b)"
  "builder_component c (builder_edge e b) = builder_edge e (builder_component c b)"
  "builder_composite_loop lp (builder_edge e b) = builder_edge e (builder_composite_loop lp b)"
  by (simp_all add: builder_lane_def builder_component_def builder_edge_def builder_composite_loop_def)

lemma builder_complete:
  assumes "schema_version g = kTopoExecSchemaVersion" "hierarchy g = []" "graph_config_view g = empty_config_view"
    "graph_clock g = graph_clock default_graph"
  shows "build (fold builder_composite_loop (composite_loops g) (fold builder_edge (graph_edges g) (fold builder_component (components g)
    (fold builder_lane (lanes g) (make_builder (graph_name g) (graph_kind g)))))) = g"
  using assms by (simp add: builder_folds build_def make_builder_def default_graph_def)

lemma immediate_edge_valid: "edge_policy_valid (immediate_edge eid from to latest_shared_policy)"
  by (simp add: edge_policy_valid_def immediate_edge_def latest_shared_policy_def default_edge_policy_def Let_def is_allowed_channel_type_def
      is_allowed_drop_policy_def is_latest_style_channel_type_def is_backpressure_drop_policy_def is_timestamp_domain_value_def
      parse_timestamp_domain_value_def is_allowed_copy_policy_def is_allowed_owner_def is_allowed_readers_def)

end
