(* ===== verification/Plugin_Loader.thy ===== *)
theory Plugin_Loader
  imports Component_Registry
begin

text \<open>
  Loading plugins (\<^verbatim>\<open>src/plugin_loader.cpp\<close>, POSIX build). The dynamic linker and the code of the plugin are not part of the repository: a
  \<open>plugin_library\<close> is what \<^verbatim>\<open>dlopen\<close>, \<^verbatim>\<open>dlsym\<close>, \<^verbatim>\<open>dlerror\<close> and the two functions of the plugin do. A C string is \<open>None\<close> when the pointer is null,
  a handle is whether it is there, and the flag that goes with it says whether the library is open.
\<close>

section \<open>Data\<close>

record component_view =
  cv_type :: "string option"
  cv_component_api_version :: "string option"
  cv_realtime_allowed :: bool
  cv_dry_run_safe :: bool

text \<open>The array of a manifest has at least \<open>mv_component_count\<close> elements when it is there.\<close>

record manifest_view =
  mv_plugin_id :: "string option"
  mv_plugin_api_version :: "string option"
  mv_schema_version :: "string option"
  mv_component_count :: nat
  mv_components :: "component_view list option"

record plugin_manifest =
  pm_plugin_id :: string
  pm_plugin_api_version :: string
  pm_schema_version :: string
  pm_components :: "component_registration list"

record plugin_load_options =
  required_plugin_api_version :: string
  required_schema_version :: string
  require_declared_components :: bool
  close_on_destroy :: bool

definition kPluginLoaderPreviewApiVersion :: string where
  "kPluginLoaderPreviewApiVersion = ''0''"

definition kPluginLoaderSchemaVersion :: string where
  "kPluginLoaderSchemaVersion = ''1''"

definition default_plugin_load_options :: plugin_load_options where
  "default_plugin_load_options =
     \<lparr>required_plugin_api_version = kPluginLoaderPreviewApiVersion, required_schema_version = kPluginLoaderSchemaVersion,
      require_declared_components = True, close_on_destroy = False\<rparr>"

record plugin_load_error =
  le_code :: string
  le_message :: string

record plugin_load_result =
  plr_ok :: bool
  plr_manifest :: plugin_manifest
  plr_registered_components :: "string list"
  plr_errors :: "plugin_load_error list"

definition empty_load_result :: plugin_load_result where
  "empty_load_result =
     \<lparr>plr_ok = False, plr_manifest = \<lparr>pm_plugin_id = [], pm_plugin_api_version = [], pm_schema_version = [], pm_components = []\<rparr>,
      plr_registered_components = [], plr_errors = []\<rparr>"

record loaded_plugin =
  lp_handle :: bool
  lp_result :: plugin_load_result
  lp_close_on_destroy :: bool

text \<open>What happens when the register function is called: it returns, it throws a \<^verbatim>\<open>std::exception\<close> with a text, it throws something else.\<close>

datatype register_outcome = Returned bool | Threw string | ThrewOther

text \<open>
  \<open>lib_open\<close>: \<open>Some\<close> when opening fails, with the text of \<^verbatim>\<open>dlerror\<close> if there is one. A symbol: the text of \<^verbatim>\<open>dlerror\<close> if there is one, and whether
  the address is not null.
\<close>

record plugin_library =
  lib_open :: "string option option"
  lib_manifest_symbol :: "string option \<times> bool"
  lib_manifest :: "manifest_view option"
  lib_register_symbol :: "string option \<times> bool"
  lib_register :: "component_registry \<Rightarrow> register_outcome \<times> component_registry"

section \<open>Operations\<close>

definition make_error :: "string \<Rightarrow> string \<Rightarrow> plugin_load_error" where
  "make_error code message = \<lparr>le_code = code, le_message = message\<rparr>"

definition safe_c_string :: "string option \<Rightarrow> string" where
  "safe_c_string v = (case v of None \<Rightarrow> [] | Some s \<Rightarrow> s)"

definition add_load_error :: "plugin_load_error \<Rightarrow> plugin_load_result \<Rightarrow> plugin_load_result" where
  "add_load_error e r = r\<lparr>plr_errors := plr_errors r @ [e]\<rparr>"

definition add_load_error_if :: "bool \<Rightarrow> string \<Rightarrow> string \<Rightarrow> plugin_load_result \<Rightarrow> plugin_load_result" where
  "add_load_error_if b code message r = (if b then add_load_error (make_error code message) r else r)"

definition declares_type :: "component_registration list \<Rightarrow> string \<Rightarrow> bool" where
  "declares_type rgs ty = list_ex (\<lambda>rg. reg_type rg = ty) rgs"

definition copy_component :: "component_view \<Rightarrow> component_registration" where
  "copy_component v =
     (let version = safe_c_string (cv_component_api_version v)
      in \<lparr>reg_type = safe_c_string (cv_type v), reg_component_api_version = (if version = [] then ''1'' else version),
          reg_runtime_min_version = ''0.1.0'', reg_static_registration = False, reg_realtime_allowed = cv_realtime_allowed v,
          reg_dry_run_safe = cv_dry_run_safe v\<rparr>)"

definition copy_manifest :: "manifest_view \<Rightarrow> plugin_load_result \<Rightarrow> plugin_load_result" where
  "copy_manifest v r =
     (let m = \<lparr>pm_plugin_id = safe_c_string (mv_plugin_id v), pm_plugin_api_version = safe_c_string (mv_plugin_api_version v),
               pm_schema_version = safe_c_string (mv_schema_version v), pm_components = []\<rparr>
      in (case mv_components v of
            None \<Rightarrow> add_load_error_if (mv_component_count v > 0) ''manifest.components'' ''component descriptors pointer is required'' (r\<lparr>plr_manifest := m\<rparr>)
          | Some cs \<Rightarrow> r\<lparr>plr_manifest := m\<lparr>pm_components := map copy_component (take (mv_component_count v) cs)\<rparr>\<rparr>))"

definition validate_manifest_shape :: "plugin_load_result \<Rightarrow> plugin_load_result" where
  "validate_manifest_shape r =
     (let m = plr_manifest r
      in fold (\<lambda>c. add_load_error_if (reg_type c = []) ''manifest.component.type'' ''component type is required'') (pm_components m)
           (add_load_error_if (pm_components m = []) ''manifest.components'' ''at least one component must be declared''
           (add_load_error_if (pm_schema_version m = []) ''manifest.schema_version'' ''schema_version is required''
           (add_load_error_if (pm_plugin_api_version m = []) ''manifest.plugin_api_version'' ''plugin_api_version is required''
           (add_load_error_if (pm_plugin_id m = []) ''manifest.plugin_id'' ''plugin_id is required'' r)))))"

text \<open>\<^verbatim>\<open>reset\<close>, also the destructor: the plugin and whether the library is still open\<close>

definition plugin_reset :: "loaded_plugin \<Rightarrow> bool \<Rightarrow> loaded_plugin \<times> bool" where
  "plugin_reset p lib_is_open =
     (p\<lparr>lp_handle := False, lp_close_on_destroy := False\<rparr>, lib_is_open \<and> \<not> (lp_close_on_destroy p \<and> lp_handle p))"

text \<open>The move constructor: the new plugin and what is left of the old one (\<open>left\<close> is its moved-from result).\<close>

definition plugin_move :: "plugin_load_result \<Rightarrow> loaded_plugin \<Rightarrow> loaded_plugin \<times> loaded_plugin" where
  "plugin_move left p = (p, \<lparr>lp_handle = False, lp_result = left, lp_close_on_destroy = False\<rparr>)"

text \<open>Move assignment from another plugin of the same library\<close>

definition plugin_move_assign :: "plugin_load_result \<Rightarrow> loaded_plugin \<Rightarrow> loaded_plugin \<Rightarrow> bool \<Rightarrow> loaded_plugin \<times> loaded_plugin \<times> bool" where
  "plugin_move_assign left target source lib_is_open =
     (let (_, still_open) = plugin_reset target lib_is_open; (p, rest) = plugin_move left source in (p, rest, still_open))"

definition rollback_registered :: "string list \<Rightarrow> component_registry \<Rightarrow> component_registry" where
  "rollback_registered before_types reg =
     fold (\<lambda>ty r. if ty \<in> set before_types then r else snd (unregister ty r)) (registry_types reg) reg"

definition failed_plugin :: "plugin_load_result \<Rightarrow> loaded_plugin" where
  "failed_plugin r = \<lparr>lp_handle = False, lp_result = r, lp_close_on_destroy = False\<rparr>"

text \<open>The checks of the manifest: everything up to the first return after \<^verbatim>\<open>validate_manifest_shape\<close>\<close>

definition check_manifest :: "plugin_load_options \<Rightarrow> manifest_view \<Rightarrow> plugin_load_result" where
  "check_manifest opts v =
     (let r = validate_manifest_shape (copy_manifest v empty_load_result)
      in add_load_error_if (pm_schema_version (plr_manifest r) \<noteq> required_schema_version opts) ''version.schema'' ''schema_version mismatch''
           (add_load_error_if (pm_plugin_api_version (plr_manifest r) \<noteq> required_plugin_api_version opts)
              ''version.plugin_api'' ''plugin_api_version mismatch'' r))"

text \<open>What follows a successful register function\<close>

definition record_registered :: "plugin_load_options \<Rightarrow> string list \<Rightarrow> component_registry \<Rightarrow> plugin_load_result \<Rightarrow> plugin_load_result" where
  "record_registered opts before_types reg r =
     fold (\<lambda>ty r. if ty \<in> set before_types then r
        else add_load_error_if (require_declared_components opts \<and> \<not> declares_type (pm_components (plr_manifest r)) ty)
               ''register.undeclared_component'' (''plugin registered undeclared component '' @ ty)
               (r\<lparr>plr_registered_components := plr_registered_components r @ [ty]\<rparr>)) (registry_types reg) r"

definition check_declared :: "component_registry \<Rightarrow> plugin_load_result \<Rightarrow> plugin_load_result" where
  "check_declared reg r =
     fold (\<lambda>c. add_load_error_if (\<not> contains_type reg (reg_type c)) ''register.missing_component''
       (''plugin did not register declared component '' @ reg_type c)) (pm_components (plr_manifest r)) r"

definition finish_load :: "plugin_load_options \<Rightarrow> string list \<Rightarrow> component_registry \<Rightarrow> plugin_load_result \<Rightarrow> plugin_load_result" where
  "finish_load opts before_types reg r =
     (let r' = check_declared reg (record_registered opts before_types reg r) in r'\<lparr>plr_ok := (plr_errors r' = [])\<rparr>)"

text \<open>The result, the registry, and whether the library is open afterwards\<close>

definition register_plugin ::
  "plugin_library \<Rightarrow> plugin_load_options \<Rightarrow> plugin_load_result \<Rightarrow> component_registry \<Rightarrow> loaded_plugin \<times> component_registry \<times> bool" where
  "register_plugin lib opts r reg =
     (let before_types = registry_types reg; (outcome, reg') = lib_register lib reg;
          fail = (\<lambda>code message. (failed_plugin (add_load_error (make_error code message) r), rollback_registered before_types reg', False))
      in (case outcome of
            Threw what \<Rightarrow> fail ''register.threw'' (''plugin register function threw: '' @ what)
          | ThrewOther \<Rightarrow> fail ''register.threw'' ''plugin register function threw a non-standard exception''
          | Returned False \<Rightarrow> fail ''register.failed'' ''plugin register function returned false''
          | Returned True \<Rightarrow>
              (\<lparr>lp_handle = True, lp_result = finish_load opts before_types reg' r, lp_close_on_destroy = close_on_destroy opts\<rparr>, reg', True)))"

definition load_plugin ::
  "plugin_library \<Rightarrow> plugin_load_options \<Rightarrow> component_registry \<Rightarrow> loaded_plugin \<times> component_registry \<times> bool" where
  "load_plugin lib opts reg =
     (let fail = (\<lambda>code message. (failed_plugin (add_load_error (make_error code message) empty_load_result), reg, False))
      in (case lib_open lib of
            Some err \<Rightarrow> fail ''dlopen'' (case err of None \<Rightarrow> ''failed to open plugin'' | Some e \<Rightarrow> e)
          | None \<Rightarrow>
              (case lib_manifest_symbol lib of (manifest_error, found) \<Rightarrow>
                 if manifest_error \<noteq> None \<or> \<not> found
                 then fail ''symbol.manifest'' (case manifest_error of None \<Rightarrow> ''missing manifest symbol'' | Some e \<Rightarrow> e)
                 else
                   (case lib_manifest lib of
                      None \<Rightarrow> fail ''manifest.null'' ''plugin manifest function returned null''
                    | Some v \<Rightarrow>
                        (let r = check_manifest opts v
                         in if plr_errors r \<noteq> [] then (failed_plugin r, reg, False)
                            else
                              (case lib_register_symbol lib of (register_error, found) \<Rightarrow>
                                 if register_error \<noteq> None \<or> \<not> found
                                 then (failed_plugin (add_load_error (make_error ''symbol.register''
                                        (case register_error of None \<Rightarrow> ''missing register symbol'' | Some e \<Rightarrow> e)) r), reg, False)
                                 else register_plugin lib opts r reg))))))"

section \<open>Laws\<close>

lemma add_load_error_if_simps [simp]:
  "plr_manifest (add_load_error_if b c m r) = plr_manifest r" "plr_ok (add_load_error_if b c m r) = plr_ok r"
  "plr_registered_components (add_load_error_if b c m r) = plr_registered_components r"
  "plr_errors (add_load_error_if b c m r) = plr_errors r @ (if b then [make_error c m] else [])"
  by (simp_all add: add_load_error_if_def add_load_error_def)

lemma add_load_error_simps [simp]:
  "plr_ok (add_load_error e r) = plr_ok r" "plr_errors (add_load_error e r) = plr_errors r @ [e]"
  "plr_manifest (add_load_error e r) = plr_manifest r"
  "plr_registered_components (add_load_error e r) = plr_registered_components r"
  by (simp_all add: add_load_error_def)

lemma fold_add_load_error_if [simp]:
  "plr_ok (fold (\<lambda>c. add_load_error_if (b c) k (m c)) cs r) = plr_ok r"
  "plr_manifest (fold (\<lambda>c. add_load_error_if (b c) k (m c)) cs r) = plr_manifest r"
  "plr_registered_components (fold (\<lambda>c. add_load_error_if (b c) k (m c)) cs r) = plr_registered_components r"
  "plr_errors (fold (\<lambda>c. add_load_error_if (b c) k (m c)) cs r) = plr_errors r @ map (\<lambda>c. make_error k (m c)) (filter b cs)"
  by (induction cs arbitrary: r) simp_all

lemma check_manifest_ok [simp]: "plr_ok (check_manifest opts v) = False" "plr_registered_components (check_manifest opts v) = []"
  by (simp_all add: check_manifest_def validate_manifest_shape_def copy_manifest_def Let_def empty_load_result_def split: option.splits)

lemma record_registered_spec:
  fixes opts reg r before_types
  defines "new \<equiv> filter (\<lambda>ty. ty \<notin> set before_types) (registry_types reg)"
  shows "plr_manifest (record_registered opts before_types reg r) = plr_manifest r"
    "plr_registered_components (record_registered opts before_types reg r) = plr_registered_components r @ new"
    "plr_errors (record_registered opts before_types reg r) = plr_errors r @
       (if require_declared_components opts
        then map (\<lambda>ty. make_error ''register.undeclared_component'' (''plugin registered undeclared component '' @ ty))
               (filter (\<lambda>ty. \<not> declares_type (pm_components (plr_manifest r)) ty) new)
        else [])"
proof -
  let ?f = "\<lambda>ty r. if ty \<in> set before_types then r
        else add_load_error_if (require_declared_components opts \<and> \<not> declares_type (pm_components (plr_manifest r)) ty)
               ''register.undeclared_component'' (''plugin registered undeclared component '' @ ty)
               (r\<lparr>plr_registered_components := plr_registered_components r @ [ty]\<rparr>)"
  have m: "plr_manifest (fold ?f tys r) = plr_manifest r" for tys r by (induction tys arbitrary: r) simp_all
  have c: "plr_registered_components (fold ?f tys r) = plr_registered_components r @ filter (\<lambda>ty. ty \<notin> set before_types) tys" for tys r
    by (induction tys arbitrary: r) simp_all
  have e: "plr_errors (fold ?f tys r) = plr_errors r @
       (if require_declared_components opts
        then map (\<lambda>ty. make_error ''register.undeclared_component'' (''plugin registered undeclared component '' @ ty))
               (filter (\<lambda>ty. \<not> declares_type (pm_components (plr_manifest r)) ty) (filter (\<lambda>ty. ty \<notin> set before_types) tys))
        else [])" for tys r
    by (induction tys arbitrary: r) simp_all
  show "plr_manifest (record_registered opts before_types reg r) = plr_manifest r"
    "plr_registered_components (record_registered opts before_types reg r) = plr_registered_components r @ new"
    "plr_errors (record_registered opts before_types reg r) = plr_errors r @
       (if require_declared_components opts
        then map (\<lambda>ty. make_error ''register.undeclared_component'' (''plugin registered undeclared component '' @ ty))
               (filter (\<lambda>ty. \<not> declares_type (pm_components (plr_manifest r)) ty) new)
        else [])"
    unfolding record_registered_def new_def by (rule m, rule c, rule e)
qed

lemma registered_unregister: "registered (snd (unregister ty reg)) = (registered reg)(ty := None)"
  by (simp add: unregister_def registered_erase)

lemma registered_rollback_fold:
  "registered (fold (\<lambda>ty r. if ty \<in> set b then r else snd (unregister ty r)) tys reg) =
     (\<lambda>ty. if ty \<in> set tys \<and> ty \<notin> set b then None else registered reg ty)"
  by (induction tys arbitrary: reg) (auto simp: registered_unregister fun_eq_iff)

lemma registry_types_registered: "registry_wf reg \<Longrightarrow> ty \<in> set (registry_types reg) \<longleftrightarrow> registered reg ty \<noteq> None"
  by (metis dom_registered list.set_map map_of_eq_None_iff registry_types_def)

lemma contains_registered: "registry_wf reg \<Longrightarrow> contains_type reg ty \<longleftrightarrow> registered reg ty \<noteq> None"
  by (simp add: contains_type_def dom_registered)

lemma rollback_restores:
  assumes "registry_wf reg" and "registry_wf reg'" and "registered reg \<subseteq>\<^sub>m registered reg'"
  shows "registered (rollback_registered (registry_types reg) reg') = registered reg"
proof
  fix ty
  show "registered (rollback_registered (registry_types reg) reg') ty = registered reg ty"
    using assms(3) registry_types_registered [OF assms(1), of ty] registry_types_registered [OF assms(2), of ty]
    by (cases "registered reg ty") (auto simp: rollback_registered_def registered_rollback_fold map_le_def dom_def)
qed

lemma finish_load_spec:
  fixes opts
  assumes "plr_errors r = []" and "plr_registered_components r = []" and "registry_wf reg" and "registry_wf reg'"
  defines "r' \<equiv> finish_load opts (registry_types reg) reg' r"
  shows "plr_ok r' \<longleftrightarrow> plr_errors r' = []"
    "set (plr_registered_components r') = {ty. registered reg' ty \<noteq> None \<and> registered reg ty = None}"
    "plr_ok r' \<longleftrightarrow> (\<forall>c \<in> set (pm_components (plr_manifest r)). registered reg' (reg_type c) \<noteq> None) \<and>
      (require_declared_components opts \<longrightarrow>
       (\<forall>ty. registered reg' ty \<noteq> None \<longrightarrow> registered reg ty = None \<longrightarrow> declares_type (pm_components (plr_manifest r)) ty))"
    "plr_manifest r' = plr_manifest r"
proof -
  have t: "set (registry_types reg) = {ty. registered reg ty \<noteq> None}" "set (registry_types reg') = {ty. registered reg' ty \<noteq> None}"
    using registry_types_registered [OF assms(3)] registry_types_registered [OF assms(4)] by blast+
  note unfold = r'_def finish_load_def check_declared_def record_registered_spec Let_def filter_empty_conv t contains_registered [OF assms(4)]
  show "plr_ok r' \<longleftrightarrow> plr_errors r' = []" by (simp add: r'_def finish_load_def Let_def)
  show "set (plr_registered_components r') = {ty. registered reg' ty \<noteq> None \<and> registered reg ty = None}"
    using assms(2) by (auto simp: unfold simp del: not_None_eq)
  show "plr_ok r' \<longleftrightarrow> (\<forall>c \<in> set (pm_components (plr_manifest r)). registered reg' (reg_type c) \<noteq> None) \<and>
      (require_declared_components opts \<longrightarrow>
       (\<forall>ty. registered reg' ty \<noteq> None \<longrightarrow> registered reg ty = None \<longrightarrow> declares_type (pm_components (plr_manifest r)) ty))"
    using assms(1) by (auto simp: unfold simp del: not_None_eq)
  show "plr_manifest r' = plr_manifest r" by (simp add: unfold)
qed


section \<open>Handles\<close>

text \<open>A library is closed once: what a move leaves behind closes nothing, nor does a second reset.\<close>

lemma moved_plugin_closes_nothing: "snd (plugin_reset (snd (plugin_move left p)) lib_is_open) = lib_is_open"
  by (simp add: plugin_reset_def plugin_move_def)

lemma reset_plugin_closes_nothing: "snd (plugin_reset (fst (plugin_reset p lib_is_open)) still_open) = still_open"
  by (simp add: plugin_reset_def)

lemma move_assign_closes_target:
  "plugin_move_assign left target source lib_is_open =
     (source, \<lparr>lp_handle = False, lp_result = left, lp_close_on_destroy = False\<rparr>, lib_is_open \<and> \<not> (lp_close_on_destroy target \<and> lp_handle target))"
  by (simp add: plugin_move_assign_def plugin_reset_def plugin_move_def)

section \<open>Example\<close>

text \<open>A plugin that declares the component \<open>a\<close> and registers \<open>source\<close>.\<close>

definition demo_plugin :: plugin_library where
  "demo_plugin =
     \<lparr>lib_open = None, lib_manifest_symbol = (None, True),
      lib_manifest = Some \<lparr>mv_plugin_id = Some ''p'', mv_plugin_api_version = Some ''0'', mv_schema_version = Some ''1'', mv_component_count = 1,
        mv_components = Some [\<lparr>cv_type = Some ''a'', cv_component_api_version = None, cv_realtime_allowed = False, cv_dry_run_safe = True\<rparr>]\<rparr>,
      lib_register_symbol = (None, True),
      lib_register = (\<lambda>reg. (Returned True, snd (register_component demo_registration (Some (Inl ''not created'')) reg)))\<rparr>"


end
