(* ===== verification/Otel.thy ===== *)
theory Otel
  imports Runtime_Runner Metric_Schema
begin

text \<open>
  The OpenTelemetry exporter preview (\<^verbatim>\<open>include/topoexec/adapters/otel.hpp\<close>): an observer that turns metrics, trace events, health events, errors
  and results into records and keeps a bounded number of each. Shown: what an export leaves in the buffers and how it is counted.
\<close>

section \<open>Records\<close>

record otel_metric =
  om_name :: string
  om_instrument_kind :: string
  om_unit :: string
  om_stability :: string
  om_value :: fp
  om_attributes :: "(string, string) smap"

record otel_span =
  os_name :: string
  os_trace_id :: string
  os_span_kind :: string
  os_phase :: string
  os_start_offset_ns :: nat
  os_duration_ns :: nat
  os_attributes :: "(string, string) smap"

record otel_log =
  ol_severity :: string
  ol_body :: string
  ol_attributes :: "(string, string) smap"

record exporter_preview =
  xp_capacity :: nat
  xp_fail_on_unknown_metric :: bool
  xp_metrics :: "otel_metric list"
  xp_spans :: "otel_span list"
  xp_logs :: "otel_log list"
  xp_dropped_event_count :: nat
  xp_failure_count :: nat

definition make_exporter_preview :: "nat \<Rightarrow> bool \<Rightarrow> exporter_preview" where
  "make_exporter_preview capacity fail_unknown =
     \<lparr>xp_capacity = capacity, xp_fail_on_unknown_metric = fail_unknown, xp_metrics = [], xp_spans = [], xp_logs = [],
      xp_dropped_event_count = 0, xp_failure_count = 0\<rparr>"

definition kRuntimeTraceSchemaVersion :: string where
  "kRuntimeTraceSchemaVersion = ''1''"

definition kRuntimeMetricSchemaVersion :: string where
  "kRuntimeMetricSchemaVersion = ''1''"

section \<open>Mapping\<close>

definition add_if_present :: "string \<Rightarrow> string \<Rightarrow> (string, string) smap \<Rightarrow> (string, string) smap" where
  "add_if_present key v attrs = (if v = [] then attrs else smap_put key v attrs)"

definition add_all_present :: "(string \<times> string) list \<Rightarrow> (string, string) smap \<Rightarrow> (string, string) smap" where
  "add_all_present kvs attrs = fold (\<lambda>(k, v). add_if_present k v) kvs attrs"

definition otel_instrument_kind :: "string \<Rightarrow> string" where
  "otel_instrument_kind kind = (if kind = ''counter'' then ''counter'' else if kind = ''histogram'' then ''histogram'' else ''observable_gauge'')"

definition count_ignored_tags :: "runtime_metric_sample \<Rightarrow> (string, string) smap \<Rightarrow> (string, string) smap" where
  "count_ignored_tags m attrs = (if ms_tags m = [] then attrs else smap_put ''topoexec.ignored_tag_count'' (nat_to_string (length (ms_tags m))) attrs)"

definition map_metric :: "runtime_metric_sample \<Rightarrow> exporter_preview \<Rightarrow> (string + otel_metric) \<times> exporter_preview" where
  "map_metric m x =
     (case find_runtime_metric_descriptor (ms_name m) of
        None \<Rightarrow>
          (let x' = x\<lparr>xp_failure_count := xp_failure_count x + 1\<rparr>
           in if xp_fail_on_unknown_metric x then (Inl (''unknown runtime metric descriptor: '' @ ms_name m), x')
              else (Inr \<lparr>om_name = ms_name m, om_instrument_kind = ''observable_gauge'', om_unit = ''1'', om_stability = ''unknown'', om_value = ms_value m,
                         om_attributes = count_ignored_tags m []\<rparr>, x'))
      | Some d \<Rightarrow>
          (Inr \<lparr>om_name = md_name d, om_instrument_kind = otel_instrument_kind (md_kind d), om_unit = md_unit d, om_stability = md_stability d,
                om_value = ms_value m,
                om_attributes = count_ignored_tags m
                  (add_all_present (filter (\<lambda>(k, _). has_label d k)
                     [(''component_id'', ms_component_id m), (''lane'', ms_lane m), (''channel_id'', ms_channel_id m)])
                   [(''topoexec.metric_schema_version'', kRuntimeMetricSchemaVersion)])\<rparr>, x))"

definition map_trace_event :: "runtime_trace_event \<Rightarrow> otel_span" where
  "map_trace_event e =
     \<lparr>os_name = te_name e, os_trace_id = te_trace_id e, os_span_kind = ''internal'', os_phase = te_phase e,
      os_start_offset_ns = te_start_offset_ns e, os_duration_ns = te_duration_ns e,
      os_attributes = add_all_present
        [(''topoexec.trace_schema_version'', kRuntimeTraceSchemaVersion), (''phase'', te_phase e), (''component_id'', te_component_id e),
         (''channel_id'', te_channel_id e), (''lane'', te_lane e), (''worker_id'', te_worker_id e), (''epoch_id'', te_epoch_id e),
         (''transaction_id'', te_transaction_id e), (''correlation_id'', te_correlation_id e), (''causation_id'', te_causation_id e)]
        (te_attributes e)\<rparr>"

definition map_health_event :: "health_event \<Rightarrow> otel_log" where
  "map_health_event e =
     (let named = add_all_present
            [(''source'', he_source e), (''component_id'', he_component_id e), (''lane'', he_lane e), (''channel_id'', he_channel_id e),
             (''edge_id'', he_edge_id e), (''policy'', he_policy e), (''reason'', he_reason e)] [];
          counted = smap_put ''occurrence_count'' (nat_to_string (he_occurrence_count e)) (smap_put ''sequence'' (nat_to_string (he_sequence e)) named);
          sized = (if he_depth e \<noteq> 0 then smap_put ''depth'' (nat_to_string (he_depth e)) counted else counted);
          bounded = (if he_capacity e \<noteq> 0 then smap_put ''capacity'' (nat_to_string (he_capacity e)) sized else sized)
      in \<lparr>ol_severity = ''warning'', ol_body = ''topoexec.health.'' @ health_kind_to_string (he_kind e),
          ol_attributes = add_all_present (he_attributes e) bounded\<rparr>)"

definition map_runtime_error :: "runtime_error \<Rightarrow> otel_log" where
  "map_runtime_error e =
     \<lparr>ol_severity = (if err_fatal e then ''error'' else ''warning''), ol_body = err_message e,
      ol_attributes = smap_put ''fatal'' (if err_fatal e then ''true'' else ''false'')
        (add_all_present [(''phase'', err_phase e), (''component_id'', err_component_id e), (''lane'', err_lane e), (''code'', err_code e),
           (''trace_id'', err_trace_id e)] [])\<rparr>"

definition map_result :: "runtime_runner_result \<Rightarrow> otel_log" where
  "map_result r =
     \<lparr>ol_severity = (if rr_ok r then ''info'' else ''error''), ol_body = ''topoexec.runtime.result'',
      ol_attributes = fold (\<lambda>(k, v). smap_put k v)
        [(''ok'', if rr_ok r then ''true'' else ''false''), (''tick_calls'', nat_to_string (rr_tick_calls r)),
         (''metric_samples'', nat_to_string (length (rr_runtime_metrics r))), (''trace_event_count'', nat_to_string (length (rr_trace r))),
         (''runtime_errors'', nat_to_string (length (rr_runtime_errors r)))]
        (add_if_present ''graph_name'' (rr_graph_name r) [])\<rparr>"

section \<open>Recording\<close>

text \<open>\<^verbatim>\<open>push_bounded\<close>: the new buffer and how many events were dropped\<close>

definition bounded_push :: "nat \<Rightarrow> 'a \<Rightarrow> 'a list \<Rightarrow> 'a list \<times> nat" where
  "bounded_push capacity r rs = (if length rs \<ge> capacity then (rs, 1) else (rs @ [r], 0))"

definition push_metric :: "otel_metric \<Rightarrow> exporter_preview \<Rightarrow> exporter_preview" where
  "push_metric r x = (let (rs, d) = bounded_push (xp_capacity x) r (xp_metrics x) in x\<lparr>xp_metrics := rs, xp_dropped_event_count := xp_dropped_event_count x + d\<rparr>)"

definition push_span :: "otel_span \<Rightarrow> exporter_preview \<Rightarrow> exporter_preview" where
  "push_span r x = (let (rs, d) = bounded_push (xp_capacity x) r (xp_spans x) in x\<lparr>xp_spans := rs, xp_dropped_event_count := xp_dropped_event_count x + d\<rparr>)"

definition push_log :: "otel_log \<Rightarrow> exporter_preview \<Rightarrow> exporter_preview" where
  "push_log r x = (let (rs, d) = bounded_push (xp_capacity x) r (xp_logs x) in x\<lparr>xp_logs := rs, xp_dropped_event_count := xp_dropped_event_count x + d\<rparr>)"

definition otel_on_metric :: "runtime_metric_sample \<Rightarrow> exporter_preview \<Rightarrow> status \<times> exporter_preview" where
  "otel_on_metric m x = (case map_metric m x of (Inl msg, x') \<Rightarrow> (StatusError msg, x') | (Inr r, x') \<Rightarrow> (Success, push_metric r x'))"

text \<open>The other callbacks always succeed.\<close>

definition otel_on_trace_event :: "runtime_trace_event \<Rightarrow> exporter_preview \<Rightarrow> exporter_preview" where
  "otel_on_trace_event e = push_span (map_trace_event e)"

definition otel_on_health_event :: "health_event \<Rightarrow> exporter_preview \<Rightarrow> exporter_preview" where
  "otel_on_health_event e = push_log (map_health_event e)"

definition otel_on_runtime_error :: "runtime_error \<Rightarrow> exporter_preview \<Rightarrow> exporter_preview" where
  "otel_on_runtime_error e = push_log (map_runtime_error e)"

definition otel_on_result :: "runtime_runner_result \<Rightarrow> exporter_preview \<Rightarrow> exporter_preview" where
  "otel_on_result r = push_log (map_result r)"

fun otel_on_metrics :: "runtime_metric_sample list \<Rightarrow> exporter_preview \<Rightarrow> status \<times> exporter_preview" where
  "otel_on_metrics [] x = (Success, x)"
| "otel_on_metrics (m # ms) x =
     (case otel_on_metric m x of (Success, x') \<Rightarrow> otel_on_metrics ms x' | (StatusError msg, x') \<Rightarrow> (StatusError msg, x'))"

definition otel_export_result :: "runtime_runner_result \<Rightarrow> exporter_preview \<Rightarrow> status \<times> exporter_preview" where
  "otel_export_result r x =
     (case otel_on_metrics (rr_runtime_metrics r) x of
        (StatusError msg, x') \<Rightarrow> (StatusError msg, x')
      | (Success, x') \<Rightarrow>
          (Success, otel_on_result r (fold otel_on_runtime_error (rr_runtime_errors r) (fold otel_on_health_event (rr_health_events r)
             (fold otel_on_trace_event (rr_trace r) x')))))"

definition otel_status :: "exporter_preview \<Rightarrow> nat \<times> nat" where
  "otel_status x = (xp_dropped_event_count x, xp_failure_count x)"

definition otel_clear :: "exporter_preview \<Rightarrow> exporter_preview" where
  "otel_clear x = x\<lparr>xp_metrics := [], xp_spans := [], xp_logs := [], xp_dropped_event_count := 0, xp_failure_count := 0\<rparr>"

section \<open>Laws\<close>

text \<open>A buffer that is filled one by one holds the first records that fit; the others are counted.\<close>

definition fill :: "nat \<Rightarrow> 'a list \<Rightarrow> 'a list \<Rightarrow> 'a list" where
  "fill capacity old new = old @ take (capacity - length old) new"

definition overflow_count :: "nat \<Rightarrow> 'a list \<Rightarrow> 'a list \<Rightarrow> nat" where
  "overflow_count capacity old new = length new - (capacity - length old)"

lemma fill_Nil [simp]: "fill capacity old [] = old" "overflow_count capacity old [] = 0"
  by (simp_all add: fill_def overflow_count_def)

lemma fill_Cons:
  "fill capacity old (r # rs) = fill capacity (fst (bounded_push capacity r old)) rs"
  "overflow_count capacity old (r # rs) = snd (bounded_push capacity r old) + overflow_count capacity (fst (bounded_push capacity r old)) rs"
  by (auto simp: fill_def overflow_count_def bounded_push_def take_Cons')

lemma push_metric_fold:
  "fold push_metric rs x = x\<lparr>xp_metrics := fill (xp_capacity x) (xp_metrics x) rs,
     xp_dropped_event_count := xp_dropped_event_count x + overflow_count (xp_capacity x) (xp_metrics x) rs\<rparr>"
  by (induction rs arbitrary: x) (simp_all add: fill_Cons push_metric_def case_prod_unfold Let_def)

lemma push_span_fold:
  "fold push_span rs x = x\<lparr>xp_spans := fill (xp_capacity x) (xp_spans x) rs,
     xp_dropped_event_count := xp_dropped_event_count x + overflow_count (xp_capacity x) (xp_spans x) rs\<rparr>"
  by (induction rs arbitrary: x) (simp_all add: fill_Cons push_span_def case_prod_unfold Let_def)

lemma push_log_fold:
  "fold push_log rs x = x\<lparr>xp_logs := fill (xp_capacity x) (xp_logs x) rs,
     xp_dropped_event_count := xp_dropped_event_count x + overflow_count (xp_capacity x) (xp_logs x) rs\<rparr>"
  by (induction rs arbitrary: x) (simp_all add: fill_Cons push_log_def case_prod_unfold Let_def)

definition known_metric :: "runtime_metric_sample \<Rightarrow> bool" where
  "known_metric m \<longleftrightarrow> find_runtime_metric_descriptor (ms_name m) \<noteq> None"

text \<open>The record of a metric does not depend on the state of the exporter.\<close>

definition metric_record :: "runtime_metric_sample \<Rightarrow> otel_metric" where
  "metric_record m = projr (fst (map_metric m (make_exporter_preview 0 False)))"

lemma on_metric_cases:
  "otel_on_metric m x =
     (let x' = x\<lparr>xp_failure_count := xp_failure_count x + (if known_metric m then 0 else 1)\<rparr>
      in if known_metric m \<or> \<not> xp_fail_on_unknown_metric x then (Success, push_metric (metric_record m) x')
         else (StatusError (''unknown runtime metric descriptor: '' @ ms_name m), x'))"
  by (simp add: otel_on_metric_def map_metric_def metric_record_def known_metric_def make_exporter_preview_def Let_def split: option.splits)

text \<open>
  An exporter that accepts unknown metrics, or sees none, records all metrics as far as they fit; one that refuses them stops at
  the first and reports it.
\<close>

lemma on_metrics_success:
  assumes "list_all known_metric ms \<or> \<not> xp_fail_on_unknown_metric x"
  shows "otel_on_metrics ms x = (Success, x\<lparr>xp_metrics := fill (xp_capacity x) (xp_metrics x) (map metric_record ms),
     xp_dropped_event_count := xp_dropped_event_count x + overflow_count (xp_capacity x) (xp_metrics x) (map metric_record ms),
     xp_failure_count := xp_failure_count x + length (filter (\<lambda>m. \<not> known_metric m) ms)\<rparr>)"
  using assms
proof (induction ms arbitrary: x)
  case (Cons m ms)
  then have "known_metric m \<or> \<not> xp_fail_on_unknown_metric x" by auto
  with Cons show ?case by (auto simp: on_metric_cases Let_def push_metric_def case_prod_unfold fill_Cons)
qed simp

lemma on_metrics_failure:
  assumes "xp_fail_on_unknown_metric x" and "list_all known_metric ms" and "\<not> known_metric m"
  shows "fst (otel_on_metrics (ms @ m # rest) x) = StatusError (''unknown runtime metric descriptor: '' @ ms_name m)"
  using assms
proof (induction ms arbitrary: x)
  case (Cons k ms)
  then show ?case by (simp add: on_metric_cases Let_def push_metric_def case_prod_unfold)
qed (simp add: on_metric_cases)

lemma otel_folds:
  "fold otel_on_trace_event es = fold push_span (map map_trace_event es)" "fold otel_on_health_event hs = fold push_log (map map_health_event hs)"
  "fold otel_on_runtime_error errs = fold push_log (map map_runtime_error errs)"
  by (simp_all add: fold_map comp_def otel_on_trace_event_def [abs_def] otel_on_health_event_def [abs_def] otel_on_runtime_error_def [abs_def])

text \<open>
  An export that is not refused records metrics, trace events and logs (health events, errors, the result, in this order) as far as
  they fit and counts every event that does not.
\<close>

lemma otel_export_spec:
  fixes r x
  assumes "list_all known_metric (rr_runtime_metrics r) \<or> \<not> xp_fail_on_unknown_metric x"
  defines "ms \<equiv> map metric_record (rr_runtime_metrics r)" and "ss \<equiv> map map_trace_event (rr_trace r)"
    and "ls \<equiv> map map_health_event (rr_health_events r) @ map map_runtime_error (rr_runtime_errors r) @ [map_result r]"
  shows "otel_export_result r x = (Success, x\<lparr>xp_metrics := fill (xp_capacity x) (xp_metrics x) ms, xp_spans := fill (xp_capacity x) (xp_spans x) ss,
    xp_logs := fill (xp_capacity x) (xp_logs x) ls,
    xp_dropped_event_count := xp_dropped_event_count x + overflow_count (xp_capacity x) (xp_metrics x) ms +
      overflow_count (xp_capacity x) (xp_spans x) ss + overflow_count (xp_capacity x) (xp_logs x) ls,
    xp_failure_count := xp_failure_count x + length (filter (\<lambda>m. \<not> known_metric m) (rr_runtime_metrics r))\<rparr>)"
proof -
  have logs: "otel_on_result r (fold otel_on_runtime_error (rr_runtime_errors r) (fold otel_on_health_event (rr_health_events r) y)) = fold push_log ls y" for y
    by (simp add: otel_folds ls_def otel_on_result_def)
  show ?thesis
    unfolding otel_export_result_def on_metrics_success [OF assms(1)] logs otel_folds(1)
    by (cases x) (simp add: push_span_fold push_log_fold ms_def ss_def)
qed

end
