(* ===== verification/C_Api.thy ===== *)
theory C_Api
  imports Runtime_Runner_Laws Graph_Builder
begin

text \<open>
  The C interface (\<^verbatim>\<open>src/c_api.cpp\<close>). A pointer is an option, a C string is the characters before the terminating zero; allocation does not
  fail. Shown: every graph that the interface can build is run to a result, whatever was built.
\<close>

section \<open>Objects\<close>

definition kNoopComponentType :: string where
  "kNoopComponentType = ''topoexec.c_api.Noop''"

definition noop_descriptor :: component_descriptor where
  "noop_descriptor = \<lparr>cd_type = kNoopComponentType, cd_role = RProcessing, cd_config_fields = [], cd_inputs = [], cd_outputs = [], cd_scheduler_lane = []\<rparr>"

definition default_registration :: "string \<Rightarrow> component_registration" where
  "default_registration ty =
     \<lparr>reg_type = ty, reg_component_api_version = ''1'', reg_runtime_min_version = ''0.1.0'', reg_static_registration = True,
      reg_realtime_allowed = False, reg_dry_run_safe = True\<rparr>"

definition make_c_api_registry :: component_registry where
  "make_c_api_registry = snd (register_component (default_registration kNoopComponentType) (Some (Inr noop_descriptor)) empty_registry)"

record topoexec_runtime =
  crt_registry :: component_registry
  crt_last_error :: string

record topoexec_graph_builder =
  cgb_graph :: graph_spec
  cgb_last_error :: string

datatype status_code = StatusOk | StatusErr

section \<open>Building\<close>

definition topoexec_runtime_create :: "topoexec_runtime option" where
  "topoexec_runtime_create = Some \<lparr>crt_registry = make_c_api_registry, crt_last_error = []\<rparr>"

definition topoexec_runtime_last_error :: "topoexec_runtime option \<Rightarrow> string" where
  "topoexec_runtime_last_error rt = (case rt of None \<Rightarrow> ''topoexec_runtime is null'' | Some r \<Rightarrow> crt_last_error r)"

definition missing_text :: "string option \<Rightarrow> bool" where
  "missing_text s \<longleftrightarrow> s = None \<or> s = Some []"

definition topoexec_graph_builder_create :: "string option \<Rightarrow> topoexec_graph_builder option" where
  "topoexec_graph_builder_create name =
     (if missing_text name then None
      else Some \<lparr>cgb_graph = build (make_builder (the name) ''internal_test''), cgb_last_error = []\<rparr>)"

definition topoexec_graph_builder_last_error :: "topoexec_graph_builder option \<Rightarrow> string" where
  "topoexec_graph_builder_last_error b = (case b of None \<Rightarrow> ''topoexec_graph_builder is null'' | Some x \<Rightarrow> cgb_last_error x)"

definition topoexec_graph_builder_add_event_loop_lane ::
  "topoexec_graph_builder option \<Rightarrow> string option \<Rightarrow> status_code \<times> topoexec_graph_builder option" where
  "topoexec_graph_builder_add_event_loop_lane b lid =
     (case b of
        None \<Rightarrow> (StatusErr, None)
      | Some x \<Rightarrow>
          if missing_text lid then (StatusErr, Some (x\<lparr>cgb_last_error := ''lane_id is required''\<rparr>))
          else (StatusOk, Some (x\<lparr>cgb_graph := (cgb_graph x)\<lparr>lanes := lanes (cgb_graph x) @ [default_lane (the lid) ''event_loop'']\<rparr>,
                                  cgb_last_error := []\<rparr>)))"

definition noop_node :: "string \<Rightarrow> string \<Rightarrow> component_node_spec" where
  "noop_node cid lid =
     component_node cid kNoopComponentType [manual_event_source] manual_trigger (lane_execution lid) \<lparr>bd_role = RProcessing, bd_descriptor = []\<rparr>"

definition topoexec_graph_builder_add_noop_component ::
  "topoexec_graph_builder option \<Rightarrow> string option \<Rightarrow> string option \<Rightarrow> status_code \<times> topoexec_graph_builder option" where
  "topoexec_graph_builder_add_noop_component b cid lid =
     (case b of
        None \<Rightarrow> (StatusErr, None)
      | Some x \<Rightarrow>
          if missing_text cid then (StatusErr, Some (x\<lparr>cgb_last_error := ''component_id is required''\<rparr>))
          else if missing_text lid then (StatusErr, Some (x\<lparr>cgb_last_error := ''lane_id is required''\<rparr>))
          else (StatusOk, Some (x\<lparr>cgb_graph := (cgb_graph x)\<lparr>components := components (cgb_graph x) @ [noop_node (the cid) (the lid)]\<rparr>,
                                  cgb_last_error := []\<rparr>)))"

section \<open>Running\<close>

definition c_run_options :: "nat \<Rightarrow> runtime_runner_options" where
  "c_run_options n =
     \<lparr>ro_mode = KRun, ro_tick_iterations = n, ro_run_duration_ms = 0, ro_run_until_idle = False, ro_emit_health_events = True,
      ro_health_event_capacity = kDefaultHealthEventCapacity, ro_reset_component_ids = [], ro_restore_component_states = [],
      ro_capture_component_state_snapshots = False, ro_live_observe = default_live_observe_options, ro_observers = []\<rparr>"

text \<open>The result pointer and the runtime; \<open>None\<close> is a call that does not return.\<close>

definition topoexec_runtime_run ::
  "runner_environment \<Rightarrow> (string \<Rightarrow> (fp \<times> nat) option) \<Rightarrow> topoexec_runtime option \<Rightarrow> topoexec_graph_builder option \<Rightarrow> nat \<Rightarrow>
   (runtime_runner_result option \<times> topoexec_runtime option) option" where
  "topoexec_runtime_run env stod rt b n =
     (case (rt, b) of
        (Some r, Some x) \<Rightarrow>
          (case runner_run env stod (crt_registry r) (cgb_graph x) (c_run_options n) of
             None \<Rightarrow> None
           | Some (Some what, _) \<Rightarrow> Some (None, Some (r\<lparr>crt_last_error := what\<rparr>))
           | Some (None, s) \<Rightarrow>
               (let res = ru_result s
                in Some (Some res, Some (r\<lparr>crt_last_error :=
                     (if rr_ok res \<or> rr_runtime_errors res = [] then [] else err_message (hd (rr_runtime_errors res)))\<rparr>))))
      | _ \<Rightarrow> Some (None, rt))"

section \<open>Results\<close>

definition topoexec_result_ok :: "runtime_runner_result option \<Rightarrow> int" where
  "topoexec_result_ok r = (if r \<noteq> None \<and> rr_ok (the r) then 1 else 0)"

definition topoexec_result_error_count :: "runtime_runner_result option \<Rightarrow> nat" where
  "topoexec_result_error_count r = (case r of None \<Rightarrow> 0 | Some x \<Rightarrow> length (rr_runtime_errors x))"

definition topoexec_result_error_at :: "runtime_runner_result option \<Rightarrow> nat \<Rightarrow> string" where
  "topoexec_result_error_at r i =
     (case r of None \<Rightarrow> [] | Some x \<Rightarrow> if i \<ge> length (rr_runtime_errors x) then [] else err_message (rr_runtime_errors x ! i))"

definition topoexec_result_metric_count :: "runtime_runner_result option \<Rightarrow> nat" where
  "topoexec_result_metric_count r = (case r of None \<Rightarrow> 0 | Some x \<Rightarrow> length (rr_runtime_metrics x))"

text \<open>\<open>out\<close> is whether the output pointer is set; the sample is what is written through it.\<close>

definition topoexec_result_metric_at ::
  "runtime_runner_result option \<Rightarrow> nat \<Rightarrow> bool \<Rightarrow> status_code \<times> (string \<times> fp \<times> string \<times> string \<times> string) option" where
  "topoexec_result_metric_at r i out =
     (case r of
        None \<Rightarrow> (StatusErr, None)
      | Some x \<Rightarrow>
          if \<not> out \<or> i \<ge> length (rr_runtime_metrics x) then (StatusErr, None)
          else (let m = rr_runtime_metrics x ! i in (StatusOk, Some (ms_name m, ms_value m, ms_component_id m, ms_lane m, ms_channel_id m))))"

section \<open>Laws\<close>

text \<open>What clients can build: the graphs of any sequence of calls, refused ones included.\<close>

inductive c_built :: "topoexec_graph_builder \<Rightarrow> bool" where
  create: "topoexec_graph_builder_create name = Some b \<Longrightarrow> c_built b"
| lane: "c_built b \<Longrightarrow> topoexec_graph_builder_add_event_loop_lane (Some b) lid = (st, Some b') \<Longrightarrow> c_built b'"
| component: "c_built b \<Longrightarrow> topoexec_graph_builder_add_noop_component (Some b) cid lid = (st, Some b') \<Longrightarrow> c_built b'"

lemma noop_safe: "safe_trigger (noop_node cid lid)"
  by (simp add: safe_trigger_def noop_node_def component_node_def manual_trigger_def default_trigger_policy_def trigger_policy_inputs_for_def
      manual_event_source_def default_event_source_def)

lemma c_built_graph:
  assumes "c_built b"
  shows "graph_edges (cgb_graph b) = [] \<and> composite_loops (cgb_graph b) = [] \<and> list_all safe_trigger (components (cgb_graph b))"
  using assms
proof induction
  case (create name b)
  then show ?case by (auto simp: topoexec_graph_builder_create_def build_def make_builder_def default_graph_def split: if_splits)
next
  case (lane b lid st b')
  then show ?case by (auto simp: topoexec_graph_builder_add_event_loop_lane_def split: if_splits)
next
  case (component b cid lid st b')
  then show ?case by (auto simp: topoexec_graph_builder_add_noop_component_def noop_safe split: if_splits)
qed

lemma no_immediate_arc: "graph_edges g = [] \<Longrightarrow> \<not> immediate_arc g a b"
  by (simp add: immediate_arc_def)

text \<open>Without edges and loops every component is its own region, so compilation returns.\<close>

lemma edgeless_compiles:
  assumes "graph_edges g = []" and "composite_loops g = []"
  shows "\<exists>r. compile_graph g = Some r"
proof -
  obtain cs where cs: "tarjan_scc (compile_component_ids g) (immediate_successors g) = Some cs" "scc_partition g cs"
    using tarjan_partition by blast
  have single: "\<exists>a. c = [a]" if "c \<in> set cs" for c
  proof -
    have ne: "c \<noteq> []" and d: "distinct c" and r: "\<forall>a \<in> set c. \<forall>b. b \<in> set c \<longleftrightarrow> (immediate_arc g)\<^sup>*\<^sup>* a b \<and> (immediate_arc g)\<^sup>*\<^sup>* b a"
      using cs(2) that by (auto simp: scc_partition_def distinct_concat_iff)
    have "a = b" if "(immediate_arc g)\<^sup>*\<^sup>* a b" for a b
      using that no_immediate_arc [OF assms(1)] by (metis converse_rtranclpE)
    with r ne have "b = hd c" if "b \<in> set c" for b using that hd_in_set [OF ne] by blast
    then have one: "set c \<subseteq> {hd c}" by blast
    have "length c \<le> 1" using card_mono [OF _ one] by (simp add: distinct_card [OF d])
    with ne show ?thesis by (cases c) auto
  qed
  have "map region_id (plan_regions g cs) = map hd cs"
  proof (rule nth_equalityI)
    fix i assume "i < length (map region_id (plan_regions g cs))"
    then have i: "i < length cs" by (simp add: plan_regions_def)
    then obtain a where "cs ! i = [a]" using single nth_mem by blast
    with i assms(2) show "map region_id (plan_regions g cs) ! i = map hd cs ! i"
      by (simp add: plan_regions_def nth_enumerate_eq region_for_def matching_loop_def)
  qed (simp add: plan_regions_def)
  moreover have "map hd cs = concat cs" using single by (induction cs) (auto, metis append_Cons append_Nil list.sel(1))
  ultimately have d: "distinct (map region_id (plan_regions g cs))" using cs(2) by (simp add: scc_partition_def)
  obtain order where "order_regions g (connect_regions (build_region_graph g cs) (plan_regions g cs)) (build_region_graph g cs) = Some order"
    using order_regions_correct [OF cs(2) d] by blast
  with cs(1) show ?thesis by (simp add: compile_graph_def Let_def)
qed

text \<open>
  Whatever sequence of calls has built a graph, running it returns a result and not a null pointer, and the last error of the runtime is
  empty or the first error of that result.
\<close>

lemma c_api_run_returns:
  assumes "c_built b" and "quiet_observers env"
  shows "\<exists>res rt'. topoexec_runtime_run env stod (Some rt) (Some b) n = Some (Some res, Some rt') \<and>
    crt_last_error rt' = (if rr_ok res then [] else topoexec_result_error_at (Some res) 0)"
proof -
  let ?g = "cgb_graph b"
  have g: "graph_edges ?g = []" "composite_loops ?g = []" "list_all safe_trigger (components ?g)" using c_built_graph [OF assms(1)] by simp_all
  obtain c where "compile_graph ?g = Some c" using edgeless_compiles [OF g(1,2)] by blast
  moreover obtain lc where "compute_component_lifecycle_order ?g = Some lc" using lifecycle_order_spec by blast
  ultimately have "\<exists>v. validate_graph stod ?g (crt_registry rt) = Some v"
    by (simp add: validate_graph_def validate_graph_impl_def Let_def case_prod_unfold)
  then obtain v where "validate_graph stod ?g (crt_registry rt) = Some v" by blast
  from runner_spec [OF this g(3), of env "c_run_options n"] assms(2) obtain s where
    "runner_run env stod (crt_registry rt) ?g (c_run_options n) = Some (None, s)" by blast
  then show ?thesis by (auto simp: topoexec_runtime_run_def topoexec_result_error_at_def Let_def hd_conv_nth)
qed

end
