(* ===== verification/Command_Line.thy ===== *)
theory Command_Line
  imports Graph_Validate_Laws Runtime_Runner
begin

unbundle bit_operations_syntax

text \<open>
  The logic of the command line tool (\<^verbatim>\<open>tools/topoexec/main.cpp\<close>): strict diagnostics, linting, the names and the filter of observed events, the graph
  hash and the small helpers of the commands. Printing, argument parsing, JSON output and assertion files are left out. \<open>period\<close> is the quotient
  of 1000 and a \<^verbatim>\<open>double\<close>.
\<close>

section \<open>Diagnostics\<close>

definition diagnostic_category :: "graph_diagnostic \<Rightarrow> string" where
  "diagnostic_category d = (if gd_category d = [] then graph_diagnostic_category (gd_code d) else gd_category d)"

definition apply_strict_diagnostics :: "graph_validation_result \<Rightarrow> graph_validation_result" where
  "apply_strict_diagnostics v =
     (let warning_codes = map gd_code (filter (\<lambda>d. gd_severity d = ''warning'') (gr_diagnostics v))
      in if warning_codes = [] then v
         else v\<lparr>gr_ok := False, gr_errors := gr_errors v @ map (\<lambda>c. ''strict diagnostics rejected warning: '' @ c) warning_codes\<rparr>)"

section \<open>Linting\<close>

record lint_finding =
  lf_severity :: string
  lf_rule :: string
  lf_message :: string
  lf_id :: string

definition finding :: "string \<Rightarrow> string \<Rightarrow> string \<Rightarrow> string \<Rightarrow> lint_finding" where
  "finding sev rule msg i = \<lparr>lf_severity = sev, lf_rule = rule, lf_message = msg, lf_id = i\<rparr>"

definition finding_if :: "bool \<Rightarrow> string \<Rightarrow> string \<Rightarrow> string \<Rightarrow> string \<Rightarrow> lint_finding list" where
  "finding_if b sev rule msg i = (if b then [finding sev rule msg i] else [])"

definition lint_validation :: "graph_spec \<Rightarrow> graph_validation_result \<Rightarrow> lint_finding list" where
  "lint_validation g v =
     (if gr_diagnostics v \<noteq> []
      then map (\<lambda>d. finding (gd_severity d) (gd_code d) (gd_message d) (if gd_graph_path d = [] then graph_name g else gd_graph_path d))
             (filter (\<lambda>d. gd_severity d = ''error'') (gr_diagnostics v))
      else map (\<lambda>e. finding ''error'' ''validation'' e (graph_name g)) (gr_errors v))"

definition lint_component_lanes :: "graph_spec \<Rightarrow> (string, string) smap" where
  "lint_component_lanes g = fold (\<lambda>c. smap_put (comp_id c) (ex_lane (execution c))) (components g) []"

definition lint_lanes :: "graph_spec \<Rightarrow> (string, lane_spec) smap" where
  "lint_lanes g = fold (\<lambda>l. smap_put (lane_id l) l) (lanes g) []"

text \<open>A component whose type is not registered, or whose creation throws, has no descriptor.\<close>

definition lint_descriptors :: "component_registry option \<Rightarrow> graph_spec \<Rightarrow> (string, component_descriptor) smap" where
  "lint_descriptors registry g =
     (case registry of
        None \<Rightarrow> []
      | Some reg \<Rightarrow> fold (\<lambda>c m. if contains_type reg (comp_type c)
          then (case create_component reg (comp_type c) of Inl _ \<Rightarrow> m | Inr d \<Rightarrow> smap_put (comp_id c) d m) else m) (components g) [])"

definition large_copy :: "(string, component_descriptor) smap \<Rightarrow> edge_spec \<Rightarrow> bool" where
  "large_copy descriptors e \<longleftrightarrow> ep_copy_policy (edge_policy e) = ''copy'' \<and>
     (case map_of descriptors (component_id_from_endpoint (edge_from e)) of
        None \<Rightarrow> False
      | Some d \<Rightarrow> (case find_port (cd_outputs d) (port_name_from_endpoint (edge_from e)) of
                     None \<Rightarrow> False | Some p \<Rightarrow> is_large_payload_schema (port_schema p)))"

definition lint_edge ::
  "(string, string) smap \<Rightarrow> (string, lane_spec) smap \<Rightarrow> (string, component_descriptor) smap \<Rightarrow> edge_spec \<Rightarrow> lint_finding list" where
  "lint_edge component_lane lane_by_id descriptors e =
     (let p = edge_policy e
      in finding_if (ep_capacity p > 1024) ''warning'' ''suspicious_capacity'' ''edge capacity is unusually high for an in-process runtime'' (edge_id e) @
         finding_if (ep_overflow p = ''block'' \<and>
             (case map_of lane_by_id (smap_get [] component_lane (component_id_from_endpoint (edge_to e))) of None \<Rightarrow> False | Some l \<Rightarrow> lane_type l = ''event_loop''))
           ''warning'' ''blocking_overflow_event_loop'' ''blocking overflow can stall a single-thread event_loop'' (edge_id e) @
         finding_if (edge_kind_of e = KAsync \<and> ep_max_inflight p \<le> 0 \<and> ep_capacity p \<le> 1)
           ''info'' ''async_capacity'' ''async edge uses capacity <= 1; excess completions may be dropped'' (edge_id e) @
         finding_if (edge_kind_of e = KDelay) ''info'' ''delay_epoch_boundary'' ''delay edge becomes visible at the next epoch boundary'' (edge_id e) @
         finding_if (slow_reader_drop_risk p) ''info'' ''slow_reader_drop_risk''
           ''multi-reader edge keeps only bounded history; slow readers can miss dropped messages'' (edge_id e) @
         finding_if (ep_copy_policy p = ''loaned_view'' \<and> ep_owner p \<noteq> ''producer'') ''warning'' ''loaned_view_without_pool_owner''
           ''loaned_view should declare owner: producer until pool-return callbacks exist'' (edge_id e) @
         finding_if (large_copy descriptors e) ''warning'' ''large_payload_copy''
           ''large payload output uses copy policy; use shared_view or loaned_view'' (edge_id e))"

definition state_writer_counts :: "graph_spec \<Rightarrow> (string, nat) smap" where
  "state_writer_counts g =
     fold (\<lambda>e m. if edge_kind_of e = KState then smap_put (edge_to e) (smap_get 0 m (edge_to e) + 1) m else m) (graph_edges g) []"

definition lint_state_writers :: "graph_spec \<Rightarrow> lint_finding list" where
  "lint_state_writers g =
     concat (map (\<lambda>(target, n). finding_if (n > 1) ''warning'' ''state_multiple_writers'' (''state target has multiple writers: '' @ target) target)
       (state_writer_counts g))"

definition lint_budget :: "(fp \<Rightarrow> fp) \<Rightarrow> (string, lane_spec) smap \<Rightarrow> component_node_spec \<Rightarrow> lint_finding list" where
  "lint_budget period lane_by_id c =
     (case map_of lane_by_id (ex_lane (execution c)) of
        None \<Rightarrow> []
      | Some l \<Rightarrow>
          if fp_le (lane_hz l) (Finite 0) \<or> ex_budget_ms (execution c) \<le> 0 then []
          else finding_if (fp_less (period (lane_hz l)) (Finite (of_int (ex_budget_ms (execution c))))) ''warning'' ''budget_exceeds_lane_period''
                 (''component budget exceeds lane period: '' @ comp_id c) (comp_id c))"

text \<open>\<open>None\<close> when validation does not return.\<close>

definition lint_graph ::
  "(string \<Rightarrow> (fp \<times> nat) option) \<Rightarrow> (fp \<Rightarrow> fp) \<Rightarrow> component_registry option \<Rightarrow> graph_spec \<Rightarrow> lint_finding list option" where
  "lint_graph stod period registry g =
     map_option (\<lambda>v. lint_validation g v @
         concat (map (lint_edge (lint_component_lanes g) (lint_lanes g) (lint_descriptors registry g)) (graph_edges g)) @
         lint_state_writers g @ concat (map (lint_budget period (lint_lanes g)) (components g)))
       (validate_graph_structure stod g)"

definition lint_exit_code :: "lint_finding list \<Rightarrow> nat" where
  "lint_exit_code fs = (if list_ex (\<lambda>f. lf_severity f = ''error'') fs then 1 else 0)"

section \<open>Runs and hashes\<close>

definition resolve_run_steps :: "nat \<Rightarrow> bool \<Rightarrow> nat \<Rightarrow> nat" where
  "resolve_run_steps steps until_idle steps_option_count = (if until_idle \<and> steps_option_count = 0 then 0 else steps)"

text \<open>The last part of a path without its extension; a dot before that part is none.\<close>

definition benchmark_case_name :: "string \<Rightarrow> string" where
  "benchmark_case_name path =
     (let name = rev (takeWhile (\<lambda>c. c \<noteq> CHR ''/'' \<and> c \<noteq> CHR 0x5C) (rev path))
      in if CHR ''.'' \<in> set name then rev (tl (dropWhile (\<lambda>c. c \<noteq> CHR ''.'') (rev name))) else name)"

definition is_blank :: "char \<Rightarrow> bool" where
  "is_blank c \<longleftrightarrow> c \<in> {CHR '' '', CHR 0x09, CHR 0x0D, CHR 0x0A}"

definition trim :: "string \<Rightarrow> string" where
  "trim v = rev (dropWhile is_blank (rev (dropWhile is_blank v)))"

definition fnv1a64 :: "string \<Rightarrow> 64 word" where
  "fnv1a64 text = fold (\<lambda>c h. (h XOR word_of_nat (of_char c)) * 1099511628211) text 14695981039346656037"

definition hex_digit :: "nat \<Rightarrow> char" where
  "hex_digit n = ''0123456789abcdef'' ! n"

fun hex_digits :: "nat \<Rightarrow> nat \<Rightarrow> string" where
  "hex_digits 0 n = []"
| "hex_digits (Suc k) n = hex_digits k (n div 16) @ [hex_digit (n mod 16)]"

definition fnv1a64_hex :: "string \<Rightarrow> string" where
  "fnv1a64_hex text = hex_digits 16 (unat (fnv1a64 text))"

text \<open>The text of the file is an argument.\<close>

definition graph_hash :: "string \<Rightarrow> string" where
  "graph_hash text = ''fnv1a64:'' @ fnv1a64_hex text"

definition observe_run_id :: "string \<Rightarrow> string" where
  "observe_run_id text = ''run-'' @ take 12 (fnv1a64_hex text)"

section \<open>Observed events\<close>

definition parse_live_observe_level :: "string \<Rightarrow> string + live_observe_level" where
  "parse_live_observe_level level =
     (if level = ''off'' then Inr KOff
      else if level = ''summary'' then Inr KSummary
      else if level = ''detailed'' then Inr KDetailed
      else if level = ''debug'' then Inr KDebugLevel
      else Inl (''unknown observe level: '' @ level))"

definition live_kind_names :: "(live_event_kind \<times> string) list" where
  "live_kind_names =
     [(KRunStarted, ''run_started''), (KRunFinished, ''run_finished''), (KSchedulerEpochBegin, ''scheduler_epoch_begin''),
      (KSchedulerEpochEnd, ''scheduler_epoch_end''), (KComponentBegin, ''component_begin''), (KComponentEnd, ''component_end''),
      (KComponentError, ''component_error''), (KChannelPublishSummary, ''channel_publish_summary''),
      (KChannelCommitSummary, ''channel_commit_summary''), (KChannelDrop, ''channel_drop''), (KChannelReject, ''channel_reject''),
      (KChannelOverwrite, ''channel_overwrite''), (KTriggerReadySummary, ''trigger_ready_summary''),
      (KTriggerSuppressedSummary, ''trigger_suppressed_summary''), (KAsyncAdmission, ''async_admission''), (KAsyncReject, ''async_reject''),
      (KAsyncDrop, ''async_drop''), (KLoopIterationBegin, ''loop_iteration_begin''), (KLoopIterationEnd, ''loop_iteration_end''),
      (KLoopConverged, ''loop_converged''), (KLoopBudgetOverrun, ''loop_budget_overrun''), (KLoopMaxIterationsHit, ''loop_max_iterations_hit''),
      (KLoopError, ''loop_error''), (KHealthEvent, ''health_event''), (KRuntimeError, ''runtime_error''),
      (KObserverDropSummary, ''observer_drop_summary'')]"

definition live_kind_name :: "32 word \<Rightarrow> string" where
  "live_kind_name kind = (case find (\<lambda>(k, _). encode_kind k = kind) live_kind_names of None \<Rightarrow> ''unknown'' | Some (_, name) \<Rightarrow> name)"

definition live_exactness_name :: "32 word \<Rightarrow> string" where
  "live_exactness_name x =
     (case find (\<lambda>(e, _). encode_exactness e = x)
        [(KExact, ''exact''), (KAggregated, ''aggregated''), (KSampled, ''sampled''), (KLossy, ''lossy''), (KPartial, ''partial'')] of
        None \<Rightarrow> ''partial'' | Some (_, name) \<Rightarrow> name)"

definition live_severity_name :: "32 word \<Rightarrow> string" where
  "live_severity_name x =
     (case find (\<lambda>(v, _). encode_severity v = x)
        [(KTrace, ''trace''), (KDebug, ''debug''), (KInfo, ''info''), (KWarning, ''warning''), (KError, ''error'')] of
        None \<Rightarrow> ''info'' | Some (_, name) \<Rightarrow> name)"

text \<open>One object of the symbol table: the names by their numbers, from one on, as \<^verbatim>\<open>reverse_live_ids\<close> reads it.\<close>

definition live_names :: "string list \<Rightarrow> (32 word, string) smap" where
  "live_names xs = fold (\<lambda>(i, x). smap_put (of_nat i) x) (enumerate 1 xs) []"

definition live_name_for :: "(32 word, string) smap \<Rightarrow> 32 word \<Rightarrow> string" where
  "live_name_for names i = (case map_of names i of None \<Rightarrow> [] | Some x \<Rightarrow> x)"

record observe_output_filter =
  include_components :: "string list"
  include_channels :: "string list"
  include_events :: "string list"
  exclude_events :: "string list"

fun parse_sample_rules :: "string list \<Rightarrow> (string, nat) smap \<Rightarrow> string + (string, nat) smap" where
  "parse_sample_rules [] parsed = Inr parsed"
| "parse_sample_rules (rule # rules) parsed =
     (let kind = takeWhile (\<lambda>c. c \<noteq> CHR '':'') rule; rest = drop (length kind + 1) rule
      in if CHR '':'' \<notin> set rule \<or> kind = [] \<or> rest = [] then Inl ''--sample-event must use KIND:RATIO''
         else
           (case stoull rest of
              None \<Rightarrow> Inl ''stoull''
            | Some ratio \<Rightarrow> if ratio = 0 then Inl ''--sample-event ratio must be positive'' else parse_sample_rules rules (smap_put kind ratio parsed)))"

text \<open>The fields of an event that the filter reads: kind, component, channel. The result: whether it is selected, and the counts.\<close>

definition observe_event_selected ::
  "observe_output_filter \<Rightarrow> (string, nat) smap \<Rightarrow> string \<times> string \<times> string \<Rightarrow> (string, nat) smap \<Rightarrow> bool \<times> (string, nat) smap" where
  "observe_event_selected f sample_rules ev counts =
     (case ev of (kind, component, channel) \<Rightarrow>
        if include_events f \<noteq> [] \<and> kind \<notin> set (include_events f) then (False, counts)
        else if kind \<in> set (exclude_events f) then (False, counts)
        else if include_components f \<noteq> [] \<and> (component = [] \<or> component \<notin> set (include_components f)) then (False, counts)
        else if include_channels f \<noteq> [] \<and> (channel = [] \<or> channel \<notin> set (include_channels f)) then (False, counts)
        else
          (case map_of sample_rules kind of
             None \<Rightarrow> (True, counts)
           | Some ratio \<Rightarrow> (let n = smap_get 0 counts kind + 1 in ((n - 1) mod ratio = 0, smap_put kind n counts))))"

section \<open>Laws\<close>

lemma strict_diagnostics_ok:
  "gr_ok (apply_strict_diagnostics v) \<longleftrightarrow> gr_ok v \<and> list_all (\<lambda>d. gd_severity d \<noteq> ''warning'') (gr_diagnostics v)"
  by (auto simp: apply_strict_diagnostics_def Let_def filter_empty_conv list_all_iff)

lemma finding_if_severity: "f \<in> set (finding_if b sev rule msg i) \<Longrightarrow> lf_severity f = sev"
  by (auto simp: finding_if_def finding_def split: if_splits)

lemma lint_edge_severity: "f \<in> set (lint_edge cl lm ds e) \<Longrightarrow> lf_severity f \<in> {''warning'', ''info''}"
  by (auto simp: lint_edge_def Let_def dest!: finding_if_severity)

lemma lint_budget_severity: "f \<in> set (lint_budget period lm c) \<Longrightarrow> lf_severity f = ''warning''"
  by (auto simp: lint_budget_def finding_if_severity split: option.splits if_splits)

text \<open>Linting fails exactly on graphs with structural errors: warnings and hints do not change the exit code.\<close>

lemma lint_exit_code_iff:
  assumes "validate_graph_structure stod g = Some v" and "lint_graph stod period registry g = Some fs"
  shows "lint_exit_code fs = 1 \<longleftrightarrow> \<not> gr_ok v"
proof -
  have "validate_graph_impl stod None g = Some v" using assms(1) by (simp add: validate_graph_structure_def)
  then have "good_report (graph_report.truncate v)" by (rule validate_report_good)
  then have r: "gr_ok v \<longleftrightarrow> gr_errors v = []" "map gd_message (filter (\<lambda>d. gd_severity d = ''error'') (gr_diagnostics v)) = gr_errors v"
    by (auto simp: good_report_def report_wf_def graph_report.truncate_def)
  have fs: "fs = lint_validation g v @
         concat (map (lint_edge (lint_component_lanes g) (lint_lanes g) (lint_descriptors registry g)) (graph_edges g)) @
         lint_state_writers g @ concat (map (lint_budget period (lint_lanes g)) (components g))"
    using assms by (simp add: lint_graph_def)
  have state: "lf_severity f \<noteq> ''error''" if "f \<in> set (lint_state_writers g)" for f
    using that by (auto simp: lint_state_writers_def dest!: finding_if_severity)
  have "(\<exists>f \<in> set fs. lf_severity f = ''error'') \<longleftrightarrow> (\<exists>f \<in> set (lint_validation g v). lf_severity f = ''error'')"
    unfolding fs using state by (auto dest!: lint_edge_severity lint_budget_severity)
  also have "\<dots> \<longleftrightarrow> gr_errors v \<noteq> []"
  proof (cases "gr_diagnostics v = []")
    case False
    then have "(\<exists>f \<in> set (lint_validation g v). lf_severity f = ''error'') \<longleftrightarrow> filter (\<lambda>d. gd_severity d = ''error'') (gr_diagnostics v) \<noteq> []"
      by (auto simp: lint_validation_def finding_def filter_empty_conv)
    then show ?thesis using r(2) by auto
  qed (use r(2) in \<open>simp add: lint_validation_def\<close>)
  finally show ?thesis using r(1) by (simp add: lint_exit_code_def list_ex_iff)
qed

text \<open>Every kind of event has a name of its own.\<close>

lemma live_kind_name_encode: "live_kind_name (encode_kind k) = the (map_of live_kind_names k)"
  by (cases k) (simp_all add: live_kind_name_def live_kind_names_def)

lemma live_kind_names_distinct: "distinct (map fst live_kind_names) \<and> distinct (map snd live_kind_names)"
  by code_simp

text \<open>Of the events of a sampled kind that pass the filters, the first and then every \<open>ratio\<close>-th is selected.\<close>

lemma sampled_selection:
  assumes "include_events f = []" "exclude_events f = []" "include_components f = []" "include_channels f = []" "map_of rules kind = Some ratio"
  shows "observe_event_selected f rules (kind, c, ch) counts =
    (smap_get 0 counts kind mod ratio = 0, smap_put kind (smap_get 0 counts kind + 1) counts)"
  using assms by (simp add: observe_event_selected_def Let_def)

lemma live_names_fold:
  "s + length xs \<le> 2 ^ 32 \<Longrightarrow> map_of (fold (\<lambda>(i, x). smap_put (of_nat i :: 32 word) x) (enumerate s xs) m) k =
     (if \<exists>i < length xs. k = of_nat (s + i) then Some (xs ! (unat k - s)) else map_of m k)"
proof (induction xs arbitrary: s m)
  case (Cons x xs)
  have small: "unat (of_nat (s + i) :: 32 word) = s + i" if "i < length (x # xs)" for i
    using that Cons.prems by (simp add: unat_of_nat take_bit_nat_eq_self del: of_nat_add)
  show ?case
  proof (cases "\<exists>i < length xs. k = of_nat (Suc s + i)")
    case True
    then obtain i where i: "i < length xs" "k = of_nat (Suc s + i)" by blast
    then have "unat k = Suc s + i" using small [of "Suc i"] by simp
    moreover have "\<exists>j < length (x # xs). k = of_nat (s + j)" using i by (intro exI [of _ "Suc i"]) simp
    ultimately show ?thesis using Cons.IH [of "Suc s"] Cons.prems True i(1) by simp
  next
    case False
    have "(\<exists>j < length (x # xs). k = of_nat (s + j)) \<longleftrightarrow> k = of_nat s"
    proof
      assume "\<exists>j < length (x # xs). k = of_nat (s + j)"
      then obtain j where "j < length (x # xs)" "k = of_nat (s + j)" by blast
      with False show "k = of_nat s" by (cases j) auto
    qed (rule exI [of _ 0], simp)
    then show ?thesis using Cons.IH [of "Suc s"] Cons.prems False small [of 0] by auto
  qed
qed simp

lemma number_ids_fold:
  "map_of (fold (\<lambda>(i, k) m. if map_of m k = None then smap_put k (of_nat i :: 32 word) m else m) (enumerate s xs) m) x = Some k \<Longrightarrow>
     map_of m x = Some k \<or> (\<exists>i < length xs. k = of_nat (s + i) \<and> xs ! i = x)"
proof (induction xs arbitrary: s m)
  case (Cons y xs)
  let ?m = "if map_of m y = None then smap_put y (of_nat s) m else m"
  have "map_of (fold (\<lambda>(i, k) m. if map_of m k = None then smap_put k (of_nat i) m else m) (enumerate (Suc s) xs) ?m) x = Some k"
    using Cons.prems by simp
  from Cons.IH [OF this] show ?case
  proof
    assume "map_of ?m x = Some k"
    then have "map_of m x = Some k \<or> k = of_nat s \<and> y = x" by (auto split: if_splits)
    then show ?thesis by (metis add_0_right length_Cons nth_Cons_0 zero_less_Suc)
  next
    assume "\<exists>i < length xs. k = of_nat (Suc s + i) \<and> xs ! i = x"
    then show ?thesis by (metis Suc_less_eq add_Suc_right add_Suc_shift length_Cons nth_Cons_Suc)
  qed
qed simp

text \<open>The symbol table inverts the numbers that the runner gives to components, channels, lanes and loops.\<close>

lemma symbol_table_inverts:
  assumes "length xs < 2 ^ 32" and "map_of (number_ids xs) x = Some k"
  shows "live_name_for (live_names xs) k = x"
proof -
  obtain i where i: "i < length xs" "k = of_nat (1 + i)" "xs ! i = x"
    using number_ids_fold [of 1 xs "[]" x k] assms(2) by (auto simp: number_ids_def)
  have "unat k = 1 + i" unfolding i(2) using i(1) assms(1) by (simp add: unat_of_nat take_bit_nat_eq_self del: of_nat_Suc of_nat_add)
  moreover have "map_of (live_names xs) k = Some (xs ! (unat k - 1))"
    using live_names_fold [of 1 xs "[]" k] assms(1) i(1,2) by (auto simp: live_names_def)
  ultimately show ?thesis using i(3) by (simp add: live_name_for_def)
qed

lemma trim_blank: "trim v = [] \<longleftrightarrow> list_all is_blank v"
proof -
  have "(\<forall>c \<in> set (dropWhile is_blank v). is_blank c) \<longleftrightarrow> list_all is_blank v"
    by (induction v) auto
  then show ?thesis by (simp add: trim_def)
qed

lemma hex_digits_length: "length (hex_digits k n) = k"
  by (induction k arbitrary: n) simp_all

lemma fnv1a64_hex_length: "length (fnv1a64_hex text) = 16"
  by (simp add: fnv1a64_hex_def hex_digits_length)

text \<open>Known values of the hash\<close>

lemma hex_digits_numeral: "hex_digits (numeral k) n = hex_digits (pred_numeral k) (n div 16) @ [hex_digit (n mod 16)]"
  unfolding numeral_eq_Suc [of k] by (rule hex_digits.simps)

lemma fnv1a64_examples: "fnv1a64_hex [] = ''cbf29ce484222325''" "fnv1a64_hex ''a'' = ''af63dc4c8601ec8c''"
  by (simp_all add: fnv1a64_hex_def fnv1a64_def hex_digits_numeral hex_digit_def)

end
