(* ===== verification/Spec2Isabelle.thy ===== *)
theory Spec2Isabelle
  imports Buffer_Pool_Laws Publication_Router State_Store Task_Executor_Laws Graph_Validate_Laws Trigger_Policy_Laws Event_Runtime_Laws Live_Observe_Laws Prometheus Runtime_Runner_Laws Graph_IO_Laws
    Graph_Render Telemetry Graph_Builder Plugin_Loader Otel C_Api Command_Line
begin

text \<open>
  Verification of TopoExec, a C++ runtime that executes graphs of components connected by typed channels.

  \<^bold>\<open>The program.\<close> A graph description (\<^verbatim>\<open>graph.hpp\<close>) lists components with ports, triggers and lanes, edges with a kind and a policy,
  and composite loops; it is loaded from a YAML text (\<^verbatim>\<open>graph_io.cpp\<close>). Validation (\<^verbatim>\<open>graph.cpp\<close>) reports what is wrong with it; compilation groups the components into regions,
  a region per strongly connected component of the immediate edges, and orders them. At run time every edge is a channel of the
  channel bus; components publish through the publication router, which delays, admits or batches publications according to
  the edges; the trigger engine turns pending messages into invocations; the event runtime executes the regions of the plan, iteration
  by iteration, on lanes that may be worker pools, with epoch boundaries for the state and the configuration store. Task executors run
  work on the side, the buffer pool lends memory for payloads, health events report what was dropped. The runtime runner puts all of it
  together: it validates, starts the components, restores and resets them, runs the event runtime, stops them and collects
  metrics, trace, errors and live events into one result, which observers such as the Prometheus exporter receive.

  \<^bold>\<open>Theories and sources\<close> (paths under \<^verbatim>\<open>src/\<close>; the \<open>_Laws\<close> theories hold the properties of the theory before them).
  \<^item> \<open>Prelude\<close>: ordered association lists for \<^verbatim>\<open>std::map\<close> (\<open>smap\<close>), decimal texts, lists, options, \<^verbatim>\<open>std::min_element\<close>.
  \<^item> \<open>Clock\<close>: \<^verbatim>\<open>src/clock.cpp\<close>. \<open>Payload\<close>: \<^verbatim>\<open>src/payload.cpp\<close>. \<open>Health\<close>: \<^verbatim>\<open>health.hpp\<close>, the coalescing sink.
  \<^item> \<open>Buffer_Pool\<close>, \<open>Buffer_Pool_Laws\<close>: \<^verbatim>\<open>src/buffer.cpp\<close>; sizes are 64-bit words; the frame objects that are lent, moved and destroyed are a step
    relation that refines a ledger of loans; shown: the counters match the loans and no buffer is shared.
  \<^item> \<open>Graph_Spec\<close>, \<open>Graph_Model\<close>: the data of \<^verbatim>\<open>graph.hpp\<close> and \<^verbatim>\<open>component.hpp\<close>.
  \<^item> \<open>Channel_State\<close>, \<open>Channel_Laws\<close>, \<open>Channel_Delivery\<close>: one channel of \<^verbatim>\<open>src/channel.cpp\<close>: publication with every overflow policy,
    consumption, snapshots, expiry, de-duplication. Shown: conservation of messages within capacity, order and uniqueness of
    delivery, the exact effect of a publication and of a drain.
  \<^item> \<open>Channel_Bus\<close>: \<^verbatim>\<open>RuntimeChannelBus\<close>; shown: no lookup throws, batches are atomic.
  \<^item> \<open>Publication_Router\<close>: \<^verbatim>\<open>RuntimePublicationRouter\<close>; shown: conservation of staged publications, the bound of async edges, deferral
    to the next epoch, outputs of a composite region together or not at all.
  \<^item> \<open>State_Store\<close>: \<^verbatim>\<open>src/state.cpp\<close>; shown: single writers, isolation of epochs, transactions of configurations.
  \<^item> \<open>Task_Executor\<close>: \<^verbatim>\<open>src/task_executor.cpp\<close>; the deterministic executor as functions, the threaded one as a transition system over its
    critical sections; shown: bounded FIFO, accounting under every interleaving, shutdown completes.
  \<^item> \<open>Topological_Order\<close>, \<open>Tarjan\<close>, \<open>Graph_Compile\<close>, \<open>Graph_Lifecycle\<close>, \<open>Graph_Diagnostics\<close>, \<open>Graph_Validate\<close>: \<^verbatim>\<open>src/graph.cpp\<close> and
    \<^verbatim>\<open>src/diagnostics.cpp\<close>; shown: the components found are the strongly connected ones, the order of the regions is topological,
    cycles are owned, validation accepts exactly the graphs of a declarative predicate, reports are consistent.
  \<^item> \<open>Component_Registry\<close>: \<^verbatim>\<open>src/component_registry.cpp\<close>, a refinement of one map.
  \<^item> \<open>Trigger_Policy\<close>: \<^verbatim>\<open>src/trigger_policy.cpp\<close>; shown: every pending message is delivered once, kept or counted as dropped, alignment of
    time-synchronised inputs, rate limits, when a collection is undefined.
  \<^item> \<open>Component_Context\<close>: \<^verbatim>\<open>src/component.cpp\<close>. \<open>Scheduler\<close>: \<^verbatim>\<open>src/scheduler.cpp\<close>, \<^verbatim>\<open>scheduler.hpp\<close>.
  \<^item> \<open>Event_Runtime\<close>: \<^verbatim>\<open>src/event_runtime.cpp\<close>; shown: a run returns and keeps the invariants of all the objects it works on, follows
    the compiled plan, has a consistent result, configuration transactions are all or nothing.
  \<^item> \<open>Live_Observe\<close>: \<^verbatim>\<open>live_event.hpp\<close>, \<^verbatim>\<open>src/live_observe.cpp\<close>; shown: the ring buffer refines a bounded queue under every interleaving
    of the memory accesses of one producer and one consumer.
  \<^item> \<open>Metric_Schema\<close>: \<^verbatim>\<open>src/metric_schema.cpp\<close>. \<open>Prometheus\<close>: \<^verbatim>\<open>adapters/prometheus.hpp\<close>; shown: a reader of the exposition format reads rendered samples
    back, carriage returns excepted.
  \<^item> \<open>Runtime_Runner\<close>: \<^verbatim>\<open>src/runtime_runner.cpp\<close>; shown: a run returns, components are stopped once and in reverse order when no observer throws,
    the result is ok exactly without errors, its metrics conform to the schema, and what goes wrong when an observer throws.
  \<^item> \<open>Utf8\<close>, \<open>Graph_IO\<close>: \<^verbatim>\<open>src/graph_io.cpp\<close>, from a text to a graph with its limits, subgraphs and templates; the YAML library is a record of
    functions of which nothing is assumed; shown: the UTF-8 check is exact, only \<^verbatim>\<open>std::invalid_argument\<close> leaves the loader and what it
    returns is within all limits, expanded subgraphs stay in their namespace, template substitution.
  \<^item> \<open>Graph_Render\<close>: plans and Mermaid diagrams of \<^verbatim>\<open>src/graph.cpp\<close>; shown: names of nodes are unique and safe, names add no lines.
  \<^item> \<open>Graph_Builder\<close>: \<^verbatim>\<open>graph_builder.hpp\<close>. \<open>C_Api\<close>: \<^verbatim>\<open>src/c_api.cpp\<close>; shown: every graph built through it is run to a result.
  \<^item> \<open>Telemetry\<close>: \<^verbatim>\<open>src/logging.cpp\<close>, \<^verbatim>\<open>src/trace.cpp\<close>, \<^verbatim>\<open>src/metrics.cpp\<close>; shown: messages logged once, spacing of throttled messages, unique trace ids,
    percentiles read within bounds. \<open>Otel\<close>: \<^verbatim>\<open>adapters/otel.hpp\<close>; shown: what an export keeps and counts.
  \<^item> \<open>Plugin_Loader\<close>: \<^verbatim>\<open>src/plugin_loader.cpp\<close>; shown: what a load leaves in the registry and when the library is open.
  \<^item> \<open>Command_Line\<close>: the logic of \<^verbatim>\<open>tools/topoexec/main.cpp\<close> that is not printing; shown: linting fails exactly on invalid graphs, symbol tables
    invert the numbers of live events.
  \<^item> This theory: a validated graph compiles, has a lifecycle order and gives a bus configured as its edges declare.

  \<^bold>\<open>Conventions.\<close> \<^verbatim>\<open>std::size_t\<close> counters are natural numbers except in the buffer pool, where the sizes may wrap. Clocks are
  readings given by arguments, locks are atomic steps. Exceptions and undefined behaviour are \<open>None\<close> or \<open>Inl\<close>. Loops that may not end
  are partial functions in the option monad (compilation, lifecycle order); that they return is a theorem, and the one case in which
  compilation does not is another. Loops of the runtime are bounded by the code itself: iterations by the run options (1000 when
  a run goes on until it is idle), rounds of a loop by its policy.

  \<^bold>\<open>Interfaces\<close> are locales, interpreted on the definitions of the model: among them the objects a run shares with the components
  (\<open>shared_objects\<close> in \<open>Event_Runtime_Laws\<close>), whose laws the router, the bus, the stores and the trigger engine discharge.

  \<^bold>\<open>Not modelled.\<close> Libraries outside the repository (the YAML parser, JSON printing, the dynamic linker) are parameters where the code relies on
  them. Left out are plans and results printed as JSON, argument parsing, printing and assertion files of the command line tool, the ROS 2
  adapter and the abstract adapter interfaces, the spans that the event runtime records (the runner takes them from its environment), thread
  naming and affinity, and the example programs. The status hooks of components answer with a status: that an override of such a hook
  throws instead is not modelled. The theorems about runs hold for components with pairwise different trigger inputs and without time_sync and
  watermark triggers, whose collections the code leaves undefined on some inputs; each theorem states the conditions it needs.
\<close>

section \<open>From a validated graph to its execution\<close>

fun channel_mode_name :: "channel_type \<Rightarrow> string" where
  "channel_mode_name KLatestOnly = ''latest''"
| "channel_mode_name KLatchedSnapshot = ''latched''"
| "channel_mode_name KPreviousTick = ''previous_tick''"
| "channel_mode_name KBarrier = ''barrier''"
| "channel_mode_name KEveryMessage = ''queue''"

fun copy_policy_name :: "copy_policy \<Rightarrow> string" where
  "copy_policy_name KCopy = ''copy''"
| "copy_policy_name KSharedView = ''shared_view''"
| "copy_policy_name KLoanedView = ''loaned_view''"
| "copy_policy_name KMoveOnly = ''move_only''"

text \<open>
  The channel of an edge as the edge declares it, in every field of its configuration, and still empty. Two values of
  a policy are synonyms: \<^verbatim>\<open>ring_buffer\<close> is \<^verbatim>\<open>queue\<close> and \<^verbatim>\<open>reject\<close> is \<^verbatim>\<open>fail_fast\<close>.
\<close>

definition channel_as_declared :: "edge_spec \<Rightarrow> channel_state \<Rightarrow> bool" where
  "channel_as_declared e st \<longleftrightarrow>
     (let p = edge_policy e; c = config st
      in from_ep st = edge_from e \<and> to_ep st = edge_to e \<and> cfg_id c = edge_id e \<and> int (cfg_capacity c) = ep_capacity p \<and>
         (channel_mode_name (cfg_type c) = ep_mode p \<or> cfg_type c = KEveryMessage \<and> ep_mode p = ''ring_buffer'') \<and>
         (drop_policy_name (cfg_drop_policy c) = ep_overflow p \<or> cfg_drop_policy c = KFailFast \<and> ep_overflow p = ''reject'') \<and>
         timestamp_domain_name (cfg_timestamp_domain c) = ep_timestamp_domain p \<and>
         copy_policy_name (cfg_copy_policy c) = ep_copy_policy p \<and>
         cfg_readers c = ep_readers p \<and> (is_multi_reader (cfg_readers c) \<longleftrightarrow> ep_readers p \<noteq> ''single'') \<and>
         cfg_lifespan c = ep_lifespan_ms p \<and> cfg_deadline c = ep_deadline_ms p \<and>
         cfg_emit_health_events c = ep_emit_health_events p \<and>
         queue st = [] \<and> latest st = None \<and> pending_previous_tick st = None)"

lemma copy_policy_as_declared: "is_allowed_copy_policy v \<Longrightarrow> copy_policy_name (copy_policy_from_string v) = v"
  by (auto simp: is_allowed_copy_policy_def copy_policy_from_string_def)

lemma readers_as_declared: "is_allowed_readers v \<Longrightarrow> is_multi_reader v \<longleftrightarrow> v \<noteq> ''single''"
  by (auto simp: is_allowed_readers_def is_multi_reader_def)

lemma drop_policy_as_declared:
  assumes "is_allowed_drop_policy v"
  shows "drop_policy_name (drop_policy_from_string v) = v \<or> drop_policy_from_string v = KFailFast \<and> v = ''reject''"
proof -
  have "v = ''overwrite'' \<or> v = ''drop_oldest'' \<or> v = ''drop_newest'' \<or> v = ''block'' \<or> v = ''fail_fast'' \<or> v = ''reject''"
    using assms by (simp add: is_allowed_drop_policy_def)
  then show ?thesis by (elim disjE) (simp_all add: drop_policy_from_string_def)
qed

lemma channel_type_as_declared:
  assumes "is_allowed_channel_type (ep_mode p)"
  shows "channel_mode_name (channel_type_from_policy p) = ep_mode p \<or>
    channel_type_from_policy p = KEveryMessage \<and> ep_mode p = ''ring_buffer''"
proof -
  have "ep_mode p = ''latest'' \<or> ep_mode p = ''queue'' \<or> ep_mode p = ''ring_buffer'' \<or> ep_mode p = ''latched'' \<or>
      ep_mode p = ''barrier'' \<or> ep_mode p = ''previous_tick''"
    using assms by (simp add: is_allowed_channel_type_def)
  then show ?thesis by (elim disjE) (simp_all add: channel_type_from_policy_def)
qed

lemma channel_for_valid_edge:
  assumes "edge_policy_valid e"
  shows "channel_as_declared e (channel_state_for_edge e)"
proof -
  let ?p = "edge_policy e"
  have v: "is_allowed_channel_type (ep_mode ?p)" "is_allowed_drop_policy (ep_overflow ?p)" "0 < ep_capacity ?p"
    "is_timestamp_domain_value (ep_timestamp_domain ?p)" "is_allowed_copy_policy (ep_copy_policy ?p)"
    "is_allowed_readers (ep_readers ?p)"
    using assms by (simp_all add: edge_policy_valid_def Let_def)
  have "timestamp_domain_name (timestamp_domain_from_string (ep_timestamp_domain ?p)) = ep_timestamp_domain ?p"
    using v(4) parse_domain_Some [of "ep_timestamp_domain ?p"]
    by (auto simp: timestamp_domain_from_string_def is_timestamp_domain_value_def)
  then show ?thesis
    using channel_type_as_declared [OF v(1)] drop_policy_as_declared [OF v(2)] v(3) copy_policy_as_declared [OF v(5)] readers_as_declared [OF v(6)]
    by (auto simp: channel_as_declared_def channel_state_for_edge_def Let_def)
qed

lemma channels_add_edge: "channels (add_edge e b) = smap_put (edge_id e) (channel_state_for_edge e) (channels b)"
  by (simp add: add_edge_def)

lemma make_bus_lookup:
  "distinct (map edge_id es) \<Longrightarrow> e \<in> set es \<Longrightarrow> map_of (channels (fold add_edge es b)) (edge_id e) = Some (channel_state_for_edge e)"
proof (induction es arbitrary: b)
  case (Cons x es)
  have "edge_id x \<notin> edge_id ` set es \<Longrightarrow> map_of (channels (fold add_edge es b)) (edge_id x) = map_of (channels b) (edge_id x)" for b
    by (induction es arbitrary: b) (auto simp: channels_add_edge)
  with Cons show ?case by (auto simp: channels_add_edge)
qed simp

lemma make_bus_keys: "fst ` set (channels (fold add_edge es b)) = fst ` set (channels b) \<union> edge_id ` set es"
  by (induction es arbitrary: b) (auto simp: channels_add_edge)

text \<open>C2.
  A graph that validation accepts can be run as it is written. Its lifecycle order exists and puts every component after the components
  it depends on; every component on a cycle of immediate edges belongs to a composite loop region of the compiled plan; every edge
  connects two declared components; and the channel bus built from its edges has exactly the channels of the edges, each empty and
  with the id, end points, capacity, mode, overflow policy, timestamp domain, copy policy, readers, lifespan, deadline and health event
  setting that the edge declares (no value is replaced by a default).
\<close>

theorem validated_graph_runs:
  assumes "validate_graph_impl stod registry g = Some v" and "gr_ok v"
  shows "(\<exists>order. component_lifecycle_order g = Some (Inr order) \<and> distinct order \<and> set order = {0..<length (components g)} \<and>
      (\<forall>i < length order. \<forall>d \<in> set (depends_on (components g ! (order ! i))). \<exists>k < i. comp_id (components g ! (order ! k)) = d)) \<and>
    (\<forall>a. (immediate_arc g)\<^sup>+\<^sup>+ a a \<longrightarrow>
      (\<exists>l \<in> set (composite_loops g). map_of (component_region (vr_compiled_plan v)) a = Some (loop_id l) \<and> a \<in> set (loop_components l))) \<and>
    fst ` set (channels (make_bus (graph_edges g))) = edge_id ` set (graph_edges g) \<and>
    (\<forall>e \<in> set (graph_edges g).
      component_id_from_endpoint (edge_from e) \<in> comp_id ` set (components g) \<and>
      component_id_from_endpoint (edge_to e) \<in> comp_id ` set (components g) \<and>
      (\<exists>st. map_of (channels (make_bus (graph_edges g))) (edge_id e) = Some st \<and> channel_as_declared e st))"
proof -
  have valid: "graph_valid stod registry g" using assms validate_graph_ok_iff by blast
  then obtain c where c: "compile_graph g = Some c" "gr_ok c" by (auto simp: graph_valid_def)
  have plan: "vr_compiled_plan v = cr_plan c"
  proof -
    obtain lc where lc: "compute_component_lifecycle_order g = Some lc" by (rule validate_cases)
    moreover have "\<not> fst (validate_sections stod registry g lc)" using valid validate_sections_dup by (simp add: graph_valid_def)
    ultimately show ?thesis using assms(1) c(1) by (auto simp: validate_graph_impl_def split_beta graph_report.defs)
  qed
  have edges: "edges_valid registry g" "lifecycle_valid g" using valid by (simp_all add: graph_valid_def)
  show ?thesis
  proof (intro conjI allI impI ballI)
    show "\<exists>order. component_lifecycle_order g = Some (Inr order) \<and> distinct order \<and> set order = {0..<length (components g)} \<and>
        (\<forall>i < length order. \<forall>d \<in> set (depends_on (components g ! (order ! i))). \<exists>k < i. comp_id (components g ! (order ! k)) = d)"
      using lifecycle_order_spec [of g] edges(2) unfolding lifecycle_valid_def by metis
    fix a assume "(immediate_arc g)\<^sup>+\<^sup>+ a a"
    with compiled_cycles_spec [OF c, of a]
    show "\<exists>l \<in> set (composite_loops g). map_of (component_region (vr_compiled_plan v)) a = Some (loop_id l) \<and> a \<in> set (loop_components l)"
      unfolding plan by auto
  next
    show "fst ` set (channels (make_bus (graph_edges g))) = edge_id ` set (graph_edges g)"
      by (simp add: make_bus_def make_bus_keys empty_bus_def)
  next
    fix e assume e: "e \<in> set (graph_edges g)"
    then have ev: "edge_valid (comp_id ` set (components g)) (graph_descriptors registry (components g)) e"
      and d: "distinct (map edge_id (graph_edges g))" using edges(1) by (simp_all add: edges_valid_def)
    then show "component_id_from_endpoint (edge_from e) \<in> comp_id ` set (components g)"
      "component_id_from_endpoint (edge_to e) \<in> comp_id ` set (components g)" by (simp_all add: edge_valid_def)
    show "\<exists>st. map_of (channels (make_bus (graph_edges g))) (edge_id e) = Some st \<and> channel_as_declared e st"
      using make_bus_lookup [OF d e] channel_for_valid_edge ev by (auto simp: make_bus_def edge_valid_def)
  qed
qed


definition demo_lane :: lane_spec where
  "demo_lane = default_lane ''main'' ''event_loop''"

definition demo_component :: "string \<Rightarrow> string list \<Rightarrow> component_node_spec" where
  "demo_component cid deps =
     (default_component cid)\<lparr>comp_type := ''worker'', depends_on := deps,
        event_sources := [\<lparr>es_id = [], es_type = ''manual'', es_inputs = [], es_input = [], es_period_ms = 0\<rparr>],
        execution := default_execution\<lparr>ex_lane := ''main''\<rparr>\<rparr>"

definition demo_graph :: graph_spec where
  "demo_graph = default_graph\<lparr>schema_version := 1, graph_name := ''demo'', lanes := [demo_lane],
     components := [demo_component ''b'' [''a''], demo_component ''a'' []],
     graph_edges := [\<lparr>edge_id = ''e'', edge_from = ''a.out'', edge_to = ''b.in'', edge_kind_of = KImmediate, has_kind = True,
       invalid_kind = [], edge_policy = default_edge_policy\<lparr>ep_mode := ''queue'', ep_capacity := 3, ep_overflow := ''block''\<rparr>\<rparr>]\<rparr>"

theorem validated_graph_runs_witness:
  "\<exists>v order. validate_graph_impl (\<lambda>_. None) None demo_graph = Some v \<and> gr_ok v \<and>
     component_lifecycle_order demo_graph = Some (Inr order) \<and> set order = {0..<2}"
proof -
  have "(case validate_graph_impl (\<lambda>_. None) None demo_graph of None \<Rightarrow> False | Some v \<Rightarrow> gr_ok v)" by code_simp
  then obtain v where v: "validate_graph_impl (\<lambda>_. None) None demo_graph = Some v" "gr_ok v" by (auto split: option.splits)
  have "length (components demo_graph) = 2" by (simp add: demo_graph_def)
  with validated_graph_runs [OF v] v show ?thesis by auto
qed

end
